(* ===== verification/Prelude.thy ===== *)
theory Prelude
  imports Main "HOL-Library.Sublist"
begin

section \<open>Prelude: Python values the components share\<close>

text \<open>
  Vocabulary shared by every theory of the development.

  \<^item> A Python exception is a value of \<open>exn\<close>: one constructor per exception class of
    the source, carrying a short tag that names the \<^theory_text>\<open>raise\<close> it stands for (the
    message text itself is not modelled). A fallible function returns \<open>exn + 'a\<close>.
  \<^item> A run of Python guards (\<open>if bad: raise E\<close>, one after the other) is a list of pairs of
    the guard and its exception, read by \<open>first_raise\<close>.
  \<^item> A \<open>dict[str, str]\<close> is an association list read by \<open>map_of\<close>; a later
    \<open>{**a, **b}\<close> is \<open>dict_merge a b\<close>, where \<open>b\<close> overrides \<open>a\<close>.
  \<^item> A Python string is a \<open>string\<close>. Its characters are the code points below 256;
    \<open>py_lower\<close> and \<open>py_strip\<close> treat the letters and the white space of that range.
\<close>

subsection \<open>Named collections\<close>

named_theorems guards \<open>the characterisations of guard lists that raised nothing\<close>
named_theorems labels \<open>reading a label dictionary\<close>

subsection \<open>Exceptions and results\<close>

datatype exn =
    ValueError string
  | FalseQ1Violation string
  | MisattributionViolation string
  | LedgerIntegrityError string
  | PostureMismatch
  | SandboxUnavailable
  | ClosureViolation string
  | ChecksArmsPooled
  | ApparatusPooled
  | ContextArmsPooled
  | ClassSetsPooled
  | StaleClaim
  | LookupError
  | AttemptSettled
  | ReadingRefused string
  | OtherError string

type_synonym 'a result = "exn + 'a"

primrec bind_result :: "'a result \<Rightarrow> ('a \<Rightarrow> 'b result) \<Rightarrow> 'b result" where
  "bind_result (Inl e) f = Inl e"
| "bind_result (Inr x) f = f x"

lemma bind_result_Inr [simp]:
  "bind_result m f = Inr y \<longleftrightarrow> (\<exists>x. m = Inr x \<and> f x = Inr y)"
  by (cases m) auto

lemma bind_result_Inl [simp]:
  "bind_result m f = Inl e \<longleftrightarrow> m = Inl e \<or> (\<exists>x. m = Inr x \<and> f x = Inl e)"
  by (cases m) auto

text \<open>A list comprehension whose body may raise.\<close>

fun collect :: "('a \<Rightarrow> 'b result) \<Rightarrow> 'a list \<Rightarrow> 'b list result" where
  "collect f [] = Inr []"
| "collect f (x # xs) = bind_result (f x) (\<lambda>y. bind_result (collect f xs) (\<lambda>ys. Inr (y # ys)))"

lemma collect_all: "(\<And>x. x \<in> set xs \<Longrightarrow> f x = Inr (g x)) \<Longrightarrow> collect f xs = Inr (map g xs)"
  by (induction xs) auto

subsection \<open>Guards in source order\<close>

definition first_raise :: "(bool \<times> exn) list \<Rightarrow> exn option" where
  "first_raise gs = map_option snd (find fst gs)"

definition guarded :: "(bool \<times> exn) list \<Rightarrow> 'a \<Rightarrow> 'a result" where
  "guarded gs x = (case first_raise gs of None \<Rightarrow> Inr x | Some e \<Rightarrow> Inl e)"

lemma first_raise_Nil [simp]: "first_raise [] = None"
  by (simp add: first_raise_def)

lemma first_raise_Cons [simp]:
  "first_raise ((b, e) # gs) = (if b then Some e else first_raise gs)"
  by (simp add: first_raise_def)

lemma if_Some_eq_None [simp]: "(if b then Some e else x) = None \<longleftrightarrow> \<not> b \<and> x = None"
  by simp

lemma first_raise_append [simp]:
  "first_raise (gs @ hs) =
     (case first_raise gs of None \<Rightarrow> first_raise hs | Some e \<Rightarrow> Some e)"
  by (induction gs) auto

lemma first_raise_None_iff [guards]:
  "first_raise gs = None \<longleftrightarrow> list_all (\<lambda>g. \<not> fst g) gs"
  by (induction gs) (auto split: if_splits)

lemma first_raise_Some_guard:
  "first_raise gs = Some e \<Longrightarrow> (True, e) \<in> set gs"
  by (induction gs) (auto split: if_splits)

lemma guarded_Inr [simp]: "guarded gs x = Inr y \<longleftrightarrow> first_raise gs = None \<and> y = x"
  by (auto simp: guarded_def split: option.splits)

lemma guarded_Inl [simp]: "guarded gs x = Inl e \<longleftrightarrow> first_raise gs = Some e"
  by (auto simp: guarded_def split: option.splits)

subsection \<open>Dictionaries of labels\<close>

type_synonym dict = "(string \<times> string) list"

definition dget :: "dict \<Rightarrow> string \<Rightarrow> string \<Rightarrow> string" where
  "dget d k dflt = (case map_of d k of None \<Rightarrow> dflt | Some v \<Rightarrow> v)"

definition dhas :: "dict \<Rightarrow> string \<Rightarrow> bool" where
  "dhas d k \<longleftrightarrow> map_of d k \<noteq> None"

definition dict_merge :: "dict \<Rightarrow> dict \<Rightarrow> dict" where
  "dict_merge a b = b @ a"

lemma map_of_dict_merge [labels]: "map_of (dict_merge a b) = map_of a ++ map_of b"
  by (simp add: dict_merge_def)

lemma dhas_dict_merge [labels]: "dhas (dict_merge a b) k \<longleftrightarrow> dhas a k \<or> dhas b k"
  by (auto simp: dhas_def dict_merge_def map_add_def split: option.splits)

lemma dget_dict_merge [labels]:
  "dget (dict_merge a b) k dflt = dget b k (dget a k dflt)"
  by (auto simp: dget_def dict_merge_def map_add_def split: option.splits)

lemma dget_Nil [simp]: "dget [] k dflt = dflt"
  by (simp add: dget_def)

lemma dget_Cons [simp]: "dget ((k', v) # d) k dflt = (if k = k' then v else dget d k dflt)"
  by (simp add: dget_def)

lemma dhas_Nil [simp]: "\<not> dhas [] k"
  by (simp add: dhas_def)

lemma dhas_Cons [simp]: "dhas ((k', v) # d) k \<longleftrightarrow> k = k' \<or> dhas d k"
  by (simp add: dhas_def)

lemma map_of_filter_key [labels]:
  "map_of (filter (\<lambda>(k, v). P k) d) k = (if P k then map_of d k else None)"
  by (induction d) auto

lemma dhas_filter_key [labels]:
  "dhas (filter (\<lambda>(k, v). P k) d) k \<longleftrightarrow> P k \<and> dhas d k"
  by (simp add: dhas_def map_of_filter_key)

subsection \<open>Strings\<close>

definition starts_with :: "string \<Rightarrow> string \<Rightarrow> bool" where
  "starts_with s p \<longleftrightarrow> take (length p) s = p"

definition ends_with :: "string \<Rightarrow> string \<Rightarrow> bool" where
  "ends_with s p \<longleftrightarrow> starts_with (rev s) (rev p)"

fun contains :: "string \<Rightarrow> string \<Rightarrow> bool" where
  "contains [] m \<longleftrightarrow> m = []"
| "contains (c # s) m \<longleftrightarrow> starts_with (c # s) m \<or> contains s m"

definition is_space :: "char \<Rightarrow> bool" where
  "is_space c \<longleftrightarrow> (let n = (of_char c :: nat)
     in (9 \<le> n \<and> n \<le> 13) \<or> (28 \<le> n \<and> n \<le> 32) \<or> n = 133 \<or> n = 160)"

definition py_lstrip :: "string \<Rightarrow> string" where
  "py_lstrip s = dropWhile is_space s"

definition py_strip :: "string \<Rightarrow> string" where
  "py_strip s = rev (py_lstrip (rev (py_lstrip s)))"

definition lower_char :: "char \<Rightarrow> char" where
  "lower_char c = (let n = (of_char c :: nat)
     in if (65 \<le> n \<and> n \<le> 90) \<or> (192 \<le> n \<and> n \<le> 222 \<and> n \<noteq> 215) then char_of (n + 32) else c)"

definition py_lower :: "string \<Rightarrow> string" where
  "py_lower s = map lower_char s"

text \<open>\<open>s.split(sep)\<close> for a one-character separator, and \<open>s.split(sep, 1)\<close> as the part
  before the first separator and the part after it, when there is one.\<close>

fun split_on :: "char \<Rightarrow> string \<Rightarrow> string list" where
  "split_on c [] = [[]]"
| "split_on c (x # xs) =
     (if x = c then [] # split_on c xs
      else case split_on c xs of [] \<Rightarrow> [[x]] | p # ps \<Rightarrow> (x # p) # ps)"

definition split_once :: "char \<Rightarrow> string \<Rightarrow> string \<times> string option" where
  "split_once c s =
     (let p = takeWhile (\<lambda>x. x \<noteq> c) s
      in (p, if length p < length s then Some (drop (Suc (length p)) s) else None))"

fun join_with :: "string \<Rightarrow> string list \<Rightarrow> string" where
  "join_with sep [] = []"
| "join_with sep [s] = s"
| "join_with sep (s # t # ts) = s @ sep @ join_with sep (t # ts)"

definition is_digit :: "char \<Rightarrow> bool" where
  "is_digit c \<longleftrightarrow> (let n = (of_char c :: nat) in 48 \<le> n \<and> n \<le> 57)"

definition all_digits :: "string \<Rightarrow> bool" where
  "all_digits s \<longleftrightarrow> s \<noteq> [] \<and> list_all is_digit s"

definition nat_of_digits :: "string \<Rightarrow> nat" where
  "nat_of_digits s = foldl (\<lambda>n c. 10 * n + (of_char c - 48)) 0 s"

text \<open>\<open>int(s)\<close>: surrounding white space, a sign, and single underscores between digits.\<close>

definition py_int :: "string \<Rightarrow> int option" where
  "py_int s =
     (let t = py_strip s;
          body = (case t of c # u \<Rightarrow> if c = CHR ''-'' \<or> c = CHR ''+'' then u else t | [] \<Rightarrow> []);
          parts = split_on CHR ''_'' body
      in if list_all all_digits parts
         then Some ((if starts_with t ''-'' then -1 else 1) * int (nat_of_digits (concat parts)))
         else None)"

lemma starts_with_prefix: "starts_with s p \<longleftrightarrow> prefix p s"
  by (auto simp: starts_with_def prefix_def) (metis append_take_drop_id)

lemma starts_with_append [simp]: "starts_with (p @ s) p"
  by (simp add: starts_with_def)

lemma starts_with_Nil [simp]: "starts_with s []"
  by (simp add: starts_with_def)

lemma split_on_not_Nil [simp]: "split_on c s \<noteq> []"
  by (induction s) (auto split: list.splits)

lemma split_on_no_sep: "c \<notin> set s \<Longrightarrow> split_on c s = [s]"
  by (induction s) auto

lemma split_on_append: "c \<notin> set p \<Longrightarrow> split_on c (p @ c # s) = p # split_on c s"
  by (induction p) auto

lemma split_on_join:
  assumes "ps \<noteq> []" and "list_all (\<lambda>p. c \<notin> set p) ps"
  shows "split_on c (join_with [c] ps) = ps"
  using assms
proof (induction "[c]" ps rule: join_with.induct)
  case 1
  then show ?case by simp
next
  case (2 s)
  then show ?case by (simp add: split_on_no_sep)
next
  case (3 s t ts)
  then show ?case by (simp add: split_on_append)
qed

lemma split_on_hd: "hd (split_on c s) = takeWhile (\<lambda>x. x \<noteq> c) s"
  by (induction s) (auto split: list.splits)

lemma join_split_on: "join_with [c] (split_on c s) = s"
proof (induction s)
  case Nil
  then show ?case by simp
next
  case (Cons x xs)
  show ?case
  proof (cases "split_on c xs")
    case Nil
    then show ?thesis by simp
  next
    case (Cons p ps)
    with Cons.IH show ?thesis by (cases ps) auto
  qed
qed

lemma split_on_parts: "list_all (\<lambda>p. c \<notin> set p) (split_on c s)"
  by (induction s) (auto split: list.splits)

lemma py_strip_id: "list_all (\<lambda>c. \<not> is_space c) s \<Longrightarrow> py_strip s = s"
proof -
  have *: "py_lstrip t = t" if "list_all (\<lambda>c. \<not> is_space c) t" for t
    using that by (cases t) (auto simp: py_lstrip_def)
  assume "list_all (\<lambda>c. \<not> is_space c) s"
  then show ?thesis using * [of s] * [of "rev s"] by (simp add: py_strip_def)
qed

lemma py_strip_snoc_space:
  "is_space c \<Longrightarrow> list_all (\<lambda>c. \<not> is_space c) s \<Longrightarrow> s \<noteq> [] \<Longrightarrow> py_strip (s @ [c]) = s"
proof -
  assume c: "is_space c" and s: "list_all (\<lambda>c. \<not> is_space c) s" "s \<noteq> []"
  have 1: "py_lstrip (s @ [c]) = s @ [c]"
    using s by (cases s) (auto simp: py_lstrip_def)
  have "py_lstrip (rev (s @ [c])) = py_lstrip (rev s)"
    using c by (simp add: py_lstrip_def)
  also have "\<dots> = rev s"
    using s by (cases "rev s") (auto simp: py_lstrip_def list_all_iff simp flip: set_rev [of s])
  finally show ?thesis by (simp add: py_strip_def 1)
qed

lemma py_lstrip_suffix: "\<exists>p. s = p @ py_lstrip s"
  by (metis py_lstrip_def takeWhile_dropWhile_id)

lemma last_py_strip: "py_strip s \<noteq> [] \<Longrightarrow> \<not> is_space (last (py_strip s))"
proof -
  assume a: "py_strip s \<noteq> []"
  then have ne: "py_lstrip (rev (py_lstrip s)) \<noteq> []" by (simp add: py_strip_def)
  then have "\<not> is_space (hd (py_lstrip (rev (py_lstrip s))))"
    unfolding py_lstrip_def by (rule hd_dropWhile)
  then show ?thesis using ne by (simp add: py_strip_def last_rev)
qed

lemma split_once_append: "c \<notin> set p \<Longrightarrow> split_once c (p @ c # s) = (p, Some s)"
proof -
  assume "c \<notin> set p"
  then have "takeWhile (\<lambda>x. x \<noteq> c) (p @ c # s) = p"
    by (subst takeWhile_append2) auto
  then show ?thesis by (simp add: split_once_def Let_def)
qed

lemma split_once_no_sep: "c \<notin> set s \<Longrightarrow> split_once c s = (s, None)"
  by (induction s) (auto simp: split_once_def Let_def)

subsection \<open>Untyped Python values\<close>

text \<open>A value read from JSON before the code has checked its type.\<close>

datatype pyval =
    PNone
  | PBool bool
  | PInt int
  | PStr string
  | PList "pyval list"
  | PDict "(string \<times> pyval) list"

fun is_nonempty_str :: "pyval \<Rightarrow> bool" where
  "is_nonempty_str (PStr s) \<longleftrightarrow> s \<noteq> []"
| "is_nonempty_str _ \<longleftrightarrow> False"

subsection \<open>Lists\<close>

lemma find_None_list_all: "find P xs = None \<longleftrightarrow> list_all (\<lambda>x. \<not> P x) xs"
  by (induction xs) auto

definition count_if :: "('a \<Rightarrow> bool) \<Rightarrow> 'a list \<Rightarrow> nat" where
  "count_if P xs = length (filter P xs)"

lemma count_if_Nil [simp]: "count_if P [] = 0"
  by (simp add: count_if_def)

lemma count_if_Cons [simp]: "count_if P (x # xs) = (if P x then Suc (count_if P xs) else count_if P xs)"
  by (simp add: count_if_def)

lemma count_if_append [simp]: "count_if P (xs @ ys) = count_if P xs + count_if P ys"
  by (simp add: count_if_def)

lemma count_if_le_length: "count_if P xs \<le> length xs"
  by (simp add: count_if_def)

lemma count_if_split: "count_if P xs = count_if (\<lambda>x. P x \<and> Q x) xs + count_if (\<lambda>x. P x \<and> \<not> Q x) xs"
  by (induction xs) auto

lemma count_if_cong: "(\<And>x. x \<in> set xs \<Longrightarrow> P x \<longleftrightarrow> Q x) \<Longrightarrow> count_if P xs = count_if Q xs"
  by (induction xs) auto

text \<open>First occurrences, in order: \<open>list(dict.fromkeys(xs))\<close>.\<close>

function dedup :: "'a list \<Rightarrow> 'a list" where
  "dedup [] = []"
| "dedup (x # xs) = x # dedup (filter (\<lambda>y. y \<noteq> x) xs)"
by pat_completeness auto
termination by (relation "measure length") (auto intro: le_imp_less_Suc)


lemma set_dedup [simp]: "set (dedup xs) = set xs"
  by (induction xs rule: dedup.induct) auto

lemma distinct_dedup [simp]: "distinct (dedup xs)"
  by (induction xs rule: dedup.induct) auto

lemma dedup_Nil_iff [simp]: "dedup xs = [] \<longleftrightarrow> xs = []"
  by (metis dedup.simps(1) list.set_intros(1) neq_Nil_conv set_dedup set_empty)

lemma dedup_id: "distinct xs \<Longrightarrow> dedup xs = xs"
proof (induction xs)
  case (Cons x xs)
  then have "filter (\<lambda>y. y \<noteq> x) xs = xs" by (auto simp: filter_id_conv)
  with Cons show ?case by simp
qed simp

lemma dedup_snoc: "dedup (xs @ [x]) = (if x \<in> set xs then dedup xs else dedup xs @ [x])"
  by (induction xs rule: dedup.induct) auto

lemma length_dedup_le: "length (dedup xs) \<le> length xs"
proof (induction xs rule: dedup.induct)
  case (2 x xs)
  have "length (filter (\<lambda>y. y \<noteq> x) xs) \<le> length xs" by simp
  with 2 have "length (dedup (filter (\<lambda>y. y \<noteq> x) xs)) \<le> length xs" by (meson le_trans)
  then show ?case by simp
qed simp

lemma dedup_same: "dedup xs = [x] \<longleftrightarrow> xs \<noteq> [] \<and> (\<forall>y\<in>set xs. y = x)"
proof
  assume "dedup xs = [x]"
  then have "set xs = {x}" by (metis empty_set list.simps(15) set_dedup)
  then show "xs \<noteq> [] \<and> (\<forall>y\<in>set xs. y = x)" by auto
next
  assume "xs \<noteq> [] \<and> (\<forall>y\<in>set xs. y = x)"
  then have "\<exists>ys. xs = x # ys \<and> (\<forall>y\<in>set ys. y = x)" by (cases xs) auto
  then obtain ys where "xs = x # ys" "\<forall>y\<in>set ys. y = x" by blast
  moreover from this have "filter (\<lambda>y. y \<noteq> x) ys = []" by (simp add: filter_empty_conv)
  ultimately show "dedup xs = [x]" by simp
qed

text \<open>Counting by a key, over keys that cover the list.\<close>

lemma count_by_key:
  assumes "distinct ks" and "\<forall>x\<in>set xs. f x \<in> set ks"
  shows "sum_list (map (\<lambda>k. count_if P (filter (\<lambda>x. f x = k) xs)) ks) = count_if P xs"
  using assms(2)
proof (induction xs)
  case Nil
  then show ?case by (simp add: sum_list_0)
next
  case (Cons x xs)
  have one: "sum_list (map (\<lambda>k. count_if P (filter (\<lambda>y. f y = k) (x # xs))) ks) =
      sum_list (map (\<lambda>k. (if f x = k \<and> P x then 1 else 0) + count_if P (filter (\<lambda>y. f y = k) xs)) ks)"
    by (intro arg_cong [of _ _ sum_list] map_cong) simp_all
  have "sum_list (map (\<lambda>k. if f x = k \<and> P x then 1 else 0) ks) = (if P x then 1 else (0::nat))"
    if "f x \<in> set ks"
    using assms(1) that by (induction ks) auto
  with Cons show ?case unfolding one sum_list_addf by simp
qed

lemma length_by_key:
  assumes "distinct ks" and "\<forall>x\<in>set xs. f x \<in> set ks"
  shows "length xs = sum_list (map (\<lambda>k. count_if (\<lambda>x. f x = k) xs) ks)"
proof -
  have "count_if (\<lambda>_. True) (filter (\<lambda>x. f x = k) xs) = count_if (\<lambda>x. f x = k) xs" for k
    by (simp add: count_if_def)
  then show ?thesis using count_by_key [OF assms, of "\<lambda>_. True"] by (simp add: count_if_def)
qed

end
