(* ===== verification/Checks.thy ===== *)
theory Checks
  imports Prelude
begin

section \<open>The checks switchboard (\<open>crb/core/checks.py\<close>)\<close>

text \<open>
  The three switches of a run (format step, finish gate, belt 6), where each one's value
  comes from, the row label that records them, and the \<^emph>\<open>arm\<close> a row pools under. The
  configuration digest of a label (\<open>RepoChecks.version\<close>: the first 12 hex digits of a
  SHA-256) is the parameter \<open>digest\<close> of the functions that print it.
\<close>

subsection \<open>Arms\<close>

definition SW_FMT :: string where "SW_FMT = ''format_step''"
definition SW_GATE :: string where "SW_GATE = ''finish_gate''"
definition SW_API :: string where "SW_API = ''api_stable''"

definition SWITCHES :: "string list" where
  "SWITCHES = [SW_FMT, SW_GATE, SW_API]"

definition SOURCE_RUN :: string where "SOURCE_RUN = ''run''"
definition SOURCE_REPO :: string where "SOURCE_REPO = ''repo''"
definition SOURCE_DEFAULT :: string where "SOURCE_DEFAULT = ''default''"

definition ARM_OFF :: string where "ARM_OFF = ''off''"

definition ARMS :: "string list" where
  "ARMS = [ARM_OFF, ''fmt'', ''api'', ''fmt,api'']"

definition arm_of :: "bool \<Rightarrow> bool \<Rightarrow> string" where
  "arm_of format_step api_stable =
     (let on = map fst (filter snd [(''fmt'', format_step), (''api'', api_stable)]);
          joined = join_with '','' on
      in if joined = [] then ARM_OFF else joined)"

definition label_fields :: "string \<Rightarrow> dict" where
  "label_fields label =
     rev (concat (map (\<lambda>p. case split_once CHR ''='' p of
        (k, Some v) \<Rightarrow> [(k, v)] | (k, None) \<Rightarrow> []) (split_on CHR '';'' label)))"

definition arm_from_label :: "string \<Rightarrow> bool \<Rightarrow> string" where
  "arm_from_label label belt6_recorded =
     (let fields = label_fields label;
          on = (\<lambda>short. fst (split_once CHR '':'' (dget fields short ''0'')) = ''1'')
      in arm_of (on ''fmt'') (on ''api'' \<or> belt6_recorded))"

subsection \<open>The repository's block\<close>

definition name_char :: "char \<Rightarrow> bool" where
  "name_char c \<longleftrightarrow> (let n = (of_char c :: nat)
     in 97 \<le> n \<and> n \<le> 122 \<or> 48 \<le> n \<and> n \<le> 57)"

text \<open>\<open>^[a-z0-9][a-z0-9_-]{0,31}$\<close> under \<open>re.match\<close>: \<open>$\<close> also matches before one final
  newline.\<close>

definition chomp :: "string \<Rightarrow> string" where
  "chomp s = (if s \<noteq> [] \<and> last s = CHR 0x0A then butlast s else s)"

definition check_name_ok :: "string \<Rightarrow> bool" where
  "check_name_ok s = (case chomp s of
     [] \<Rightarrow> False
   | c # cs \<Rightarrow> name_char c \<and> length cs \<le> 31 \<and>
       list_all (\<lambda>x. name_char x \<or> x = CHR ''_'' \<or> x = CHR ''-'') cs)"

record check_command =
  cc_name :: string
  cc_argv :: "string list"
  cc_blind_only :: bool
  cc_timeout :: int

definition CheckCommand :: "check_command \<Rightarrow> check_command result" where
  "CheckCommand c = guarded
     [(\<not> check_name_ok (cc_name c), ValueError ''name''),
      (cc_argv c = [], ValueError ''argv''),
      (\<not> (0 < cc_timeout c \<and> cc_timeout c \<le> 3600), ValueError ''timeout'')] c"

definition str_list_bad :: "pyval option \<Rightarrow> bool \<Rightarrow> bool" where
  "str_list_bad v non_empty = (case v of
     Some (PList xs) \<Rightarrow> (non_empty \<and> xs = []) \<or> \<not> list_all is_nonempty_str xs
   | _ \<Rightarrow> True)"

definition pget :: "(string \<times> pyval) list \<Rightarrow> string \<Rightarrow> pyval \<Rightarrow> pyval" where
  "pget d k dflt = (case map_of d k of None \<Rightarrow> dflt | Some v \<Rightarrow> v)"

definition validate_formatter :: "(string \<times> pyval) list \<Rightarrow> exn option" where
  "validate_formatter fmt = first_raise
     [(\<not> list_all (\<lambda>k. k \<in> set [''command'', ''exts'', ''name'', ''disabled'']) (map fst fmt),
         ValueError ''formatter keys''),
      (case pget fmt ''disabled'' (PBool False) of PBool _ \<Rightarrow> False | _ \<Rightarrow> True,
         ValueError ''formatter.disabled''),
      ((map_of fmt ''command'' \<noteq> None \<or> pget fmt ''disabled'' (PBool False) \<noteq> PBool True)
         \<and> str_list_bad (map_of fmt ''command'') True, ValueError ''formatter.command''),
      (map_of fmt ''exts'' \<noteq> None \<and> str_list_bad (map_of fmt ''exts'') False,
         ValueError ''formatter.exts''),
      (case map_of fmt ''name'' of None \<Rightarrow> False | Some (PStr _) \<Rightarrow> False | Some _ \<Rightarrow> True,
         ValueError ''formatter.name'')]"

definition MAX_COMMANDS :: nat where "MAX_COMMANDS = 8"
definition MAX_REPAIR_TURNS :: int where "MAX_REPAIR_TURNS = 3"

record repo_checks =
  rc_format_step :: bool
  rc_finish_gate :: bool
  rc_api_stable :: bool
  rc_commands :: "check_command list"
  rc_formatter :: "(string \<times> pyval) list"
  rc_finish_repair_turns :: int

definition default_checks :: repo_checks where
  "default_checks = \<lparr>rc_format_step = False, rc_finish_gate = False, rc_api_stable = False,
     rc_commands = [], rc_formatter = [], rc_finish_repair_turns = 1\<rparr>"

definition RepoChecks :: "repo_checks \<Rightarrow> repo_checks result" where
  "RepoChecks r = guarded
     [(length (rc_commands r) > MAX_COMMANDS, ValueError ''commands''),
      (\<not> distinct (map cc_name (rc_commands r)), ValueError ''names must be unique''),
      (\<not> (0 \<le> rc_finish_repair_turns r \<and> rc_finish_repair_turns r \<le> MAX_REPAIR_TURNS),
         ValueError ''finish_repair_turns''),
      (rc_formatter r \<noteq> [] \<and> validate_formatter (rc_formatter r) \<noteq> None,
         the (validate_formatter (rc_formatter r)))] r"

definition config_version :: "(repo_checks \<Rightarrow> string) \<Rightarrow> repo_checks \<Rightarrow> string" where
  "config_version digest r = (if r = default_checks then ''default'' else take 12 (digest r))"

subsection \<open>One run's switches\<close>

record resolved_checks =
  rs_format_step :: bool
  rs_finish_gate :: bool
  rs_api_stable :: bool
  rs_sources :: dict
  rs_repo :: repo_checks

definition resolved_arm :: "resolved_checks \<Rightarrow> string" where
  "resolved_arm r = arm_of (rs_format_step r) (rs_api_stable r)"

definition any_on :: "resolved_checks \<Rightarrow> bool" where
  "any_on r \<longleftrightarrow> rs_format_step r \<or> rs_finish_gate r \<or> rs_api_stable r"

definition checks_label :: "(repo_checks \<Rightarrow> string) \<Rightarrow> resolved_checks \<Rightarrow> string" where
  "checks_label digest r =
     (let part = (\<lambda>short sw v. short @ ''='' @ (if v then ''1'' else ''0'') @ '':'' @
            dget (rs_sources r) sw SOURCE_DEFAULT)
      in join_with '';''
        [part ''fmt'' SW_FMT (rs_format_step r),
         part ''gate'' SW_GATE (rs_finish_gate r),
         part ''api'' SW_API (rs_api_stable r),
         ''cfg='' @ config_version digest (rs_repo r)])"

text \<open>The loop body of \<open>resolve\<close> for one switch: the run's value (\<open>None\<close> counts as not
  given), else the repository's, else off.\<close>

definition resolve_switch ::
    "(string \<times> pyval) list \<Rightarrow> bool \<Rightarrow> string \<Rightarrow> (bool \<times> string) result" where
  "resolve_switch run repo_on s = (case map_of run s of
     None \<Rightarrow> Inr (if repo_on then (True, SOURCE_REPO) else (False, SOURCE_DEFAULT))
   | Some PNone \<Rightarrow> Inr (if repo_on then (True, SOURCE_REPO) else (False, SOURCE_DEFAULT))
   | Some (PBool b) \<Rightarrow> Inr (b, SOURCE_RUN)
   | Some _ \<Rightarrow> Inl (ValueError s))"

definition resolve ::
    "repo_checks \<Rightarrow> (string \<times> pyval) list \<Rightarrow> resolved_checks result" where
  "resolve repo run =
     (if \<not> list_all (\<lambda>k. k \<in> set SWITCHES) (map fst run) then Inl (ValueError ''unknown key'')
      else bind_result (resolve_switch run (rc_format_step repo) SW_FMT) (\<lambda>f.
           bind_result (resolve_switch run (rc_finish_gate repo) SW_GATE) (\<lambda>g.
           bind_result (resolve_switch run (rc_api_stable repo) SW_API) (\<lambda>a.
           Inr \<lparr>rs_format_step = fst f, rs_finish_gate = fst g, rs_api_stable = fst a,
                rs_sources = [(SW_FMT, snd f), (SW_GATE, snd g), (SW_API, snd a)],
                rs_repo = repo\<rparr>))))"

subsection \<open>Lemmas\<close>

lemmas switch_defs = SW_FMT_def SW_GATE_def SW_API_def
lemmas source_defs = SOURCE_RUN_def SOURCE_REPO_def SOURCE_DEFAULT_def

lemma arm_of_in_ARMS: "arm_of f a \<in> set ARMS"
  by (auto simp: arm_of_def ARMS_def ARM_OFF_def)

lemma arm_of_inject: "arm_of f a = arm_of f' a' \<longleftrightarrow> f = f' \<and> a = a'"
  by (auto simp: arm_of_def ARM_OFF_def split: if_splits)

lemma arm_from_label_in_ARMS: "arm_from_label l b \<in> set ARMS"
  by (simp add: arm_from_label_def Let_def arm_of_in_ARMS)

lemma resolve_switch_source:
  "resolve_switch run on s = Inr (v, src) \<Longrightarrow> src \<in> {SOURCE_RUN, SOURCE_REPO, SOURCE_DEFAULT}"
  by (auto simp: resolve_switch_def split: option.splits pyval.splits if_splits)

lemma source_no_sep:
  "src \<in> {SOURCE_RUN, SOURCE_REPO, SOURCE_DEFAULT} \<Longrightarrow> CHR '';'' \<notin> set src"
  by (auto simp: source_defs)

lemma resolve_Inr:
  assumes "resolve repo run = Inr r"
  obtains f sf g sg a sa where
    "resolve_switch run (rc_format_step repo) SW_FMT = Inr (f, sf)"
    "resolve_switch run (rc_finish_gate repo) SW_GATE = Inr (g, sg)"
    "resolve_switch run (rc_api_stable repo) SW_API = Inr (a, sa)"
    "r = \<lparr>rs_format_step = f, rs_finish_gate = g, rs_api_stable = a,
          rs_sources = [(SW_FMT, sf), (SW_GATE, sg), (SW_API, sa)], rs_repo = repo\<rparr>"
  using assms by (auto simp: resolve_def split: if_splits)

lemma switches_distinct [simp]:
  "SW_FMT \<noteq> SW_GATE" "SW_GATE \<noteq> SW_FMT" "SW_FMT \<noteq> SW_API" "SW_API \<noteq> SW_FMT"
  "SW_GATE \<noteq> SW_API" "SW_API \<noteq> SW_GATE"
  by (simp_all add: switch_defs)

lemma dget_sources:
  "dget [(SW_FMT, sf), (SW_GATE, sg), (SW_API, sa)] SW_FMT d = sf"
  "dget [(SW_FMT, sf), (SW_GATE, sg), (SW_API, sa)] SW_GATE d = sg"
  "dget [(SW_FMT, sf), (SW_GATE, sg), (SW_API, sa)] SW_API d = sa"
  by simp_all

text \<open>The fields of a printed label, read back.\<close>

lemma label_fields_parts:
  assumes "list_all (\<lambda>p. CHR '';'' \<notin> set p) [x1, x2, x3, cfg]"
  shows "label_fields (join_with '';''
      [''fmt='' @ x1, ''gate='' @ x2, ''api='' @ x3, ''cfg='' @ cfg]) =
    [(''cfg'', cfg), (''api'', x3), (''gate'', x2), (''fmt'', x1)]"
proof -
  have "split_on CHR '';'' (join_with [CHR '';'']
      [''fmt='' @ x1, ''gate='' @ x2, ''api='' @ x3, ''cfg='' @ cfg]) =
      [''fmt='' @ x1, ''gate='' @ x2, ''api='' @ x3, ''cfg='' @ cfg]"
    using assms by (intro split_on_join) auto
  then show ?thesis
    using split_once_append [of "CHR ''=''" "''fmt''" x1]
      split_once_append [of "CHR ''=''" "''gate''" x2]
      split_once_append [of "CHR ''=''" "''api''" x3]
      split_once_append [of "CHR ''=''" "''cfg''" cfg]
    by (simp add: label_fields_def)
qed

lemma switch_value_read:
  "fst (split_once CHR '':'' ((if v then ''1'' else ''0'') @ '':'' @ s)) = ''1'' \<longleftrightarrow> v"
  using split_once_append [of "CHR '':''" "''1''" s] split_once_append [of "CHR '':''" "''0''" s]
  by (cases v) auto

subsection \<open>Properties\<close>

text \<open>
  The \<open>checks\<close> label of a run, written by \<open>ResolvedChecks.label\<close> and read back by
  \<open>arm_from_label\<close>, names the arm the run's switches say; belt 6's own label on the row can
  only add the \<open>api\<close> arm. The configuration digest is hexadecimal, so it holds no \<open>;\<close>.
\<close>

theorem arm_from_label_label:
  assumes "resolve repo run = Inr r" and "CHR '';'' \<notin> set (digest repo)"
  shows "arm_from_label (checks_label digest r) belt6 =
    arm_of (rs_format_step r) (rs_api_stable r \<or> belt6)"
proof -
  obtain f sf g sg a sa where
    sw: "resolve_switch run (rc_format_step repo) SW_FMT = Inr (f, sf)"
      "resolve_switch run (rc_finish_gate repo) SW_GATE = Inr (g, sg)"
      "resolve_switch run (rc_api_stable repo) SW_API = Inr (a, sa)"
    and r: "r = \<lparr>rs_format_step = f, rs_finish_gate = g, rs_api_stable = a,
      rs_sources = [(SW_FMT, sf), (SW_GATE, sg), (SW_API, sa)], rs_repo = repo\<rparr>"
    using assms(1) by (rule resolve_Inr)
  let ?p = "\<lambda>v s. (if v then ''1'' else ''0'') @ '':'' @ s"
  let ?v = "config_version digest repo"
  have "CHR '';'' \<notin> set ?v"
    using assms(2) by (auto simp: config_version_def dest: in_set_takeD)
  then have "label_fields (checks_label digest r) =
      [(''cfg'', ?v), (''api'', ?p a sa), (''gate'', ?p g sg), (''fmt'', ?p f sf)]"
    using label_fields_parts [of "?p f sf" "?p g sg" "?p a sa" ?v]
      sw [THEN resolve_switch_source, THEN source_no_sep]
    by (simp add: checks_label_def r dget_sources)
  then show ?thesis
    using switch_value_read by (simp add: arm_from_label_def r)
qed

theorem arm_from_label_label_witness:
  "resolve default_checks [(''api_stable'', PBool True)] =
      Inr \<lparr>rs_format_step = False, rs_finish_gate = False, rs_api_stable = True,
        rs_sources = [(SW_FMT, SOURCE_DEFAULT), (SW_GATE, SOURCE_DEFAULT), (SW_API, SOURCE_RUN)],
        rs_repo = default_checks\<rparr> \<and>
   arm_from_label (checks_label (\<lambda>_. ''0123456789ab'') \<lparr>rs_format_step = False,
        rs_finish_gate = False, rs_api_stable = True,
        rs_sources = [(SW_FMT, SOURCE_DEFAULT), (SW_GATE, SOURCE_DEFAULT), (SW_API, SOURCE_RUN)],
        rs_repo = default_checks\<rparr>) False = ''api''"
proof -
  have h: "resolve default_checks [(''api_stable'', PBool True)] =
      Inr \<lparr>rs_format_step = False, rs_finish_gate = False, rs_api_stable = True,
        rs_sources = [(SW_FMT, SOURCE_DEFAULT), (SW_GATE, SOURCE_DEFAULT), (SW_API, SOURCE_RUN)],
        rs_repo = default_checks\<rparr>"
    by (simp add: resolve_def resolve_switch_def SWITCHES_def switch_defs default_checks_def)
  show ?thesis
    using h arm_from_label_label [OF h, of "\<lambda>_. ''0123456789ab''" False]
    by (simp add: arm_of_def)
qed

text \<open>
  \<open>resolve\<close> applies the precedence the switchboard publishes: a boolean in the run's
  block beats the repository, the repository beats off, a run key that is not a switch or a
  value that is not a boolean is refused, and every switch says where its value came from.
\<close>

theorem resolve_precedence:
  assumes "resolve repo run = Inr r"
  shows "set (map fst run) \<subseteq> set SWITCHES \<and>
    (rs_format_step r, rs_finish_gate r, rs_api_stable r) =
      (case map_of run SW_FMT of Some (PBool b) \<Rightarrow> b | _ \<Rightarrow> rc_format_step repo,
       case map_of run SW_GATE of Some (PBool b) \<Rightarrow> b | _ \<Rightarrow> rc_finish_gate repo,
       case map_of run SW_API of Some (PBool b) \<Rightarrow> b | _ \<Rightarrow> rc_api_stable repo) \<and>
    (dget (rs_sources r) SW_API SOURCE_DEFAULT = SOURCE_RUN \<longleftrightarrow>
      (\<exists>b. map_of run SW_API = Some (PBool b)))"
proof (intro conjI)
  show "set (map fst run) \<subseteq> set SWITCHES"
    using assms by (auto simp: resolve_def list_all_iff split: if_splits)
  obtain f sf g sg a sa where
    sw: "resolve_switch run (rc_format_step repo) SW_FMT = Inr (f, sf)"
      "resolve_switch run (rc_finish_gate repo) SW_GATE = Inr (g, sg)"
      "resolve_switch run (rc_api_stable repo) SW_API = Inr (a, sa)"
    and r: "r = \<lparr>rs_format_step = f, rs_finish_gate = g, rs_api_stable = a,
      rs_sources = [(SW_FMT, sf), (SW_GATE, sg), (SW_API, sa)], rs_repo = repo\<rparr>"
    using assms by (rule resolve_Inr)
  have val: "v = (case map_of run s of Some (PBool b) \<Rightarrow> b | _ \<Rightarrow> on)"
    if "resolve_switch run on s = Inr (v, src)" for on s v src
    using that by (auto simp: resolve_switch_def split: option.splits pyval.splits if_splits)
  show "(rs_format_step r, rs_finish_gate r, rs_api_stable r) =
      (case map_of run SW_FMT of Some (PBool b) \<Rightarrow> b | _ \<Rightarrow> rc_format_step repo,
       case map_of run SW_GATE of Some (PBool b) \<Rightarrow> b | _ \<Rightarrow> rc_finish_gate repo,
       case map_of run SW_API of Some (PBool b) \<Rightarrow> b | _ \<Rightarrow> rc_api_stable repo)"
    using sw [THEN val] by (simp add: r)
  show "dget (rs_sources r) SW_API SOURCE_DEFAULT = SOURCE_RUN \<longleftrightarrow>
      (\<exists>b. map_of run SW_API = Some (PBool b))"
    using sw(3) by (auto simp: r resolve_switch_def source_defs
        split: option.splits pyval.splits if_splits)
qed

theorem resolve_precedence_witness:
  "resolve (default_checks\<lparr>rc_format_step := True\<rparr>) [(''api_stable'', PBool True)] =
      Inr \<lparr>rs_format_step = True, rs_finish_gate = False, rs_api_stable = True,
        rs_sources = [(SW_FMT, SOURCE_REPO), (SW_GATE, SOURCE_DEFAULT), (SW_API, SOURCE_RUN)],
        rs_repo = default_checks\<lparr>rc_format_step := True\<rparr>\<rparr> \<and>
   set (map fst [(''api_stable'', PBool True)]) \<subseteq> set SWITCHES"
proof -
  have h: "resolve (default_checks\<lparr>rc_format_step := True\<rparr>) [(''api_stable'', PBool True)] =
      Inr \<lparr>rs_format_step = True, rs_finish_gate = False, rs_api_stable = True,
        rs_sources = [(SW_FMT, SOURCE_REPO), (SW_GATE, SOURCE_DEFAULT), (SW_API, SOURCE_RUN)],
        rs_repo = default_checks\<lparr>rc_format_step := True\<rparr>\<rparr>"
    by (simp add: resolve_def resolve_switch_def SWITCHES_def switch_defs default_checks_def)
  show ?thesis
    using h resolve_precedence [OF h] by simp
qed

end
