(* ===== verification/Context_Arm.thy ===== *)
theory Context_Arm
  imports Prelude Checks
begin

section \<open>The context arm of a row (\<open>crb/core/context_arm.py\<close>)\<close>

text \<open>
  What a builder's brief carried, as one string: a base (\<open>A0\<close>, \<open>S1@<author>\<close>, \<open>S2\<close>,
  \<open>S3\<close>) and the optional modifiers \<open>+facts@..\<close>, \<open>+library@..\<close>, \<open>+L\<close> in that order. The
  regular expression of the source is the function \<open>match_arm\<close>: none of its groups can hold
  a \<open>+\<close>, so matching it is splitting at \<open>+\<close> and reading the segments in order, and its \<open>$\<close>
  also matches before one final newline (\<open>chomp\<close>).
\<close>

subsection \<open>The grammar\<close>

datatype base = A0 | S1 | S2 | S3

primrec base_str :: "base \<Rightarrow> string" where
  "base_str A0 = ''A0''"
| "base_str S1 = ''S1''"
| "base_str S2 = ''S2''"
| "base_str S3 = ''S3''"

record context_arm =
  ca_base :: base
  ca_author :: string
  ca_facts :: string
  ca_library :: string
  ca_loop :: bool

definition plain :: "base \<Rightarrow> context_arm" where
  "plain b = \<lparr>ca_base = b, ca_author = [], ca_facts = [], ca_library = [], ca_loop = False\<rparr>"

definition alnum :: "char \<Rightarrow> bool" where
  "alnum c \<longleftrightarrow> name_char c \<or> (let n = (of_char c :: nat) in 65 \<le> n \<and> n \<le> 90)"

definition arm_name :: "string \<Rightarrow> bool" where
  "arm_name s = (case s of [] \<Rightarrow> False
     | c # cs \<Rightarrow> alnum c \<and> list_all (\<lambda>x. alnum x \<or> x \<in> set ''._:/-'') cs)"

definition match_base :: "string \<Rightarrow> (base \<times> string) option" where
  "match_base s =
     (if s = ''A0'' then Some (A0, [])
      else if s = ''S2'' then Some (S2, [])
      else if s = ''S3'' then Some (S3, [])
      else if starts_with s ''S1@'' \<and> arm_name (drop 3 s) then Some (S1, drop 3 s)
      else None)"

definition take_mod :: "string \<Rightarrow> string list \<Rightarrow> string \<times> string list" where
  "take_mod p ms = (case ms of [] \<Rightarrow> ([], [])
     | m # r \<Rightarrow> if starts_with m p \<and> arm_name (drop (length p) m)
               then (drop (length p) m, r) else ([], m # r))"

definition take_loop :: "string list \<Rightarrow> bool \<times> string list" where
  "take_loop ms = (case ms of [] \<Rightarrow> (False, [])
     | m # r \<Rightarrow> if m = ''L'' then (True, r) else (False, m # r))"

definition match_mods :: "base \<Rightarrow> string \<Rightarrow> string list \<Rightarrow> context_arm option" where
  "match_mods b author ms =
     (let (facts, ms1) = take_mod ''facts@'' ms;
          (lib, ms2) = take_mod ''library@'' ms1;
          (loop, ms3) = take_loop ms2
      in if ms3 = [] then Some \<lparr>ca_base = b, ca_author = author, ca_facts = facts,
           ca_library = lib, ca_loop = loop\<rparr> else None)"

definition match_arm :: "string \<Rightarrow> context_arm option" where
  "match_arm s = (case split_on CHR ''+'' (chomp s) of
     [] \<Rightarrow> None
   | b # ms \<Rightarrow> (case match_base b of None \<Rightarrow> None | Some (base, author) \<Rightarrow> match_mods base author ms))"

subsection \<open>\<open>ContextArm\<close> and \<open>parse_arm\<close>\<close>

definition arm_id :: "context_arm \<Rightarrow> string" where
  "arm_id a =
     (if ca_base a = S1 then ''S1@'' @ ca_author a else base_str (ca_base a)) @
     (if ca_facts a \<noteq> [] then ''+facts@'' @ ca_facts a else []) @
     (if ca_library a \<noteq> [] then ''+library@'' @ ca_library a else []) @
     (if ca_loop a then ''+L'' else [])"

definition ContextArm :: "context_arm \<Rightarrow> context_arm result" where
  "ContextArm a = guarded
     [((ca_base a = S1) \<noteq> (ca_author a \<noteq> []), ValueError ''author''),
      (match_arm (arm_id a) = None, ValueError ''grammar'')] a"

definition descriptive :: "context_arm \<Rightarrow> bool" where
  "descriptive a \<longleftrightarrow> ca_base a = A0"

definition ceiling :: "context_arm \<Rightarrow> bool" where
  "ceiling a \<longleftrightarrow> ca_base a = S3"

definition certifies :: "context_arm \<Rightarrow> bool" where
  "certifies a \<longleftrightarrow> ca_base a \<in> {S1, S2}"

definition prospective_only :: "context_arm \<Rightarrow> bool" where
  "prospective_only a \<longleftrightarrow> ca_base a = S2"

definition with_loop :: "context_arm \<Rightarrow> bool \<Rightarrow> context_arm result" where
  "with_loop a on = ContextArm (a\<lparr>ca_loop := on\<rparr>)"

definition parse_arm :: "string \<Rightarrow> context_arm result" where
  "parse_arm s = (case match_arm (py_strip s) of
     None \<Rightarrow> Inl (ValueError ''grammar'')
   | Some a \<Rightarrow> ContextArm a)"

definition is_arm :: "string \<Rightarrow> bool" where
  "is_arm s \<longleftrightarrow> match_arm (py_strip s) \<noteq> None"

text \<open>\<open>parse_arm(arm).p\<close> inside a \<open>try\<close> that answers false on \<open>ValueError\<close>.\<close>

definition arm_is :: "(context_arm \<Rightarrow> bool) \<Rightarrow> string \<Rightarrow> bool" where
  "arm_is p s = (case parse_arm s of Inl _ \<Rightarrow> False | Inr a \<Rightarrow> p a)"

definition mode_admits :: "string \<Rightarrow> string \<Rightarrow> string \<Rightarrow> bool" where
  "mode_admits row_mode row_arm mode \<longleftrightarrow>
     mode = ''all'' \<or> mode = row_mode \<or> (row_arm \<noteq> [] \<and> arm_is certifies row_arm)"

definition LABEL_LEARN :: string where "LABEL_LEARN = ''learn''"

definition loop_on :: "dict \<Rightarrow> bool" where
  "loop_on labels \<longleftrightarrow> dget labels LABEL_LEARN ''off'' \<notin> {[], ''off''}"

definition TEST_AUTHORED :: string where "TEST_AUTHORED = ''authored''"
definition TEST_PERSON :: string where "TEST_PERSON = ''person''"
definition MODE_BLIND :: string where "MODE_BLIND = ''blind''"
definition MODE_SIGHTED :: string where "MODE_SIGHTED = ''sighted''"
definition PROCESS_REPLAY :: string where "PROCESS_REPLAY = ''replay''"
definition PROCESS_FACTORY :: string where "PROCESS_FACTORY = ''factory''"

primrec REPLAY_MODE :: "base \<Rightarrow> string option" where
  "REPLAY_MODE A0 = Some MODE_BLIND"
| "REPLAY_MODE S1 = Some MODE_BLIND"
| "REPLAY_MODE S2 = None"
| "REPLAY_MODE S3 = Some MODE_SIGHTED"

record brief_facts =
  bf_process_step :: string
  bf_mode :: string
  bf_loop :: bool
  bf_test_source :: string
  bf_test_author :: string
  bf_facts_drafter :: string
  bf_library_version :: string

definition context_arm_base :: "brief_facts \<Rightarrow> context_arm result" where
  "context_arm_base b =
     (if bf_test_source b = TEST_PERSON then ContextArm (plain S2)
      else if bf_test_source b = TEST_AUTHORED then
        (if bf_test_author b = [] then Inl (ValueError ''test_author'')
         else ContextArm ((plain S1)\<lparr>ca_author := bf_test_author b\<rparr>))
      else if bf_test_source b \<noteq> [] then Inl (ValueError ''test_source'')
      else if bf_process_step b = PROCESS_FACTORY then Inl (ValueError ''factory'')
      else if Some (bf_mode b) = REPLAY_MODE A0 then ContextArm (plain A0)
      else if Some (bf_mode b) = REPLAY_MODE S3 then ContextArm (plain S3)
      else Inl (ValueError ''mode''))"

definition context_arm_for :: "brief_facts \<Rightarrow> string result" where
  "context_arm_for b = bind_result (context_arm_base b) (\<lambda>base.
     bind_result (ContextArm \<lparr>ca_base = ca_base base, ca_author = ca_author base,
         ca_facts = bf_facts_drafter b, ca_library = bf_library_version b,
         ca_loop = bf_loop b\<rparr>)
       (\<lambda>arm. Inr (arm_id arm)))"

definition rows_for_context_arm :: "('r \<Rightarrow> string) \<Rightarrow> 'r list \<Rightarrow> string \<Rightarrow> 'r list result" where
  "rows_for_context_arm context_arm rows arm =
     bind_result (parse_arm arm) (\<lambda>_. Inr (filter (\<lambda>r. context_arm r = arm) rows))"

subsection \<open>Lemmas\<close>

lemma name_char_not_space: "name_char c \<Longrightarrow> \<not> is_space c"
  by (auto simp: name_char_def is_space_def Let_def)

lemma alnum_not_space: "alnum c \<Longrightarrow> \<not> is_space c"
  by (auto simp: alnum_def name_char_def is_space_def Let_def)

lemma alnum_not_plus: "alnum c \<Longrightarrow> c \<noteq> CHR ''+''"
  by (auto simp: alnum_def name_char_def Let_def)

lemma arm_name_chars:
  assumes "arm_name s"
  shows "list_all (\<lambda>c. \<not> is_space c) s" and "CHR ''+'' \<notin> set s" and "s \<noteq> []"
proof -
  obtain c cs where s: "s = c # cs" and c: "alnum c"
    and cs: "list_all (\<lambda>x. alnum x \<or> x \<in> set ''._:/-'') cs"
    using assms by (auto simp: arm_name_def split: list.splits)
  have "\<not> is_space x \<and> x \<noteq> CHR ''+''" if "alnum x \<or> x \<in> set ''._:/-''" for x
    using that alnum_not_space alnum_not_plus by (auto simp: is_space_def)
  with c cs show "list_all (\<lambda>c. \<not> is_space c) s" "CHR ''+'' \<notin> set s"
    by (force simp: s list_all_iff alnum_not_space)+
  show "s \<noteq> []" by (simp add: s)
qed

definition base_seg :: "base \<Rightarrow> string \<Rightarrow> string" where
  "base_seg b author = (if b = S1 then ''S1@'' @ author else base_str b)"

lemma match_base_Some:
  assumes "match_base s = Some (b, author)"
  shows "s = base_seg b author" and "(b = S1) = (author \<noteq> [])"
    and "list_all (\<lambda>c. \<not> is_space c) s"
proof -
  have "starts_with s ''S1@'' \<Longrightarrow> s = ''S1@'' @ drop 3 s"
    by (metis append_take_drop_id length_Cons list.size(3) numeral_3_eq_3 starts_with_def)
  with assms show "s = base_seg b author"
    by (auto simp: match_base_def base_seg_def split: if_splits)
  from assms show "(b = S1) = (author \<noteq> [])"
    using arm_name_chars(3) by (auto simp: match_base_def split: if_splits)
  have "arm_name author \<Longrightarrow> list_all (\<lambda>c. \<not> is_space c) (''S1@'' @ author)"
    using arm_name_chars(1) [of author] by (simp add: is_space_def)
  with assms \<open>s = base_seg b author\<close> show "list_all (\<lambda>c. \<not> is_space c) s"
    by (auto simp: match_base_def base_seg_def is_space_def split: if_splits)
qed

lemma take_mod_Some:
  assumes "take_mod p ms = (x, r)"
  shows "ms = (if x = [] then r else (p @ x) # r)" and "x \<noteq> [] \<Longrightarrow> arm_name x"
  using assms arm_name_chars(3)
  by (auto simp: take_mod_def starts_with_def split: list.splits if_splits)
    (metis append_take_drop_id)+

lemma take_loop_Some: "take_loop ms = (b, r) \<Longrightarrow> ms = (if b then [''L''] else []) @ r"
  by (auto simp: take_loop_def split: list.splits if_splits)

definition mod_segs :: "context_arm \<Rightarrow> string list" where
  "mod_segs a = (if ca_facts a \<noteq> [] then [''facts@'' @ ca_facts a] else []) @
     (if ca_library a \<noteq> [] then [''library@'' @ ca_library a] else []) @
     (if ca_loop a then [''L''] else [])"

lemma match_mods_Some:
  assumes "match_mods b author ms = Some a"
  shows "ms = mod_segs a" and "ca_base a = b" and "ca_author a = author"
    and "ca_facts a \<noteq> [] \<Longrightarrow> arm_name (ca_facts a)"
    and "ca_library a \<noteq> [] \<Longrightarrow> arm_name (ca_library a)"
proof -
  obtain facts ms1 lib ms2 lp ms3 where
    f: "take_mod ''facts@'' ms = (facts, ms1)" and
    l: "take_mod ''library@'' ms1 = (lib, ms2)" and
    o: "take_loop ms2 = (lp, ms3)"
    by (metis prod.exhaust)
  with assms have "ms3 = []" and a: "a = \<lparr>ca_base = b, ca_author = author, ca_facts = facts,
      ca_library = lib, ca_loop = lp\<rparr>"
    by (auto simp: match_mods_def split: if_splits)
  with take_mod_Some(1) [OF f] take_mod_Some(1) [OF l] take_loop_Some [OF o]
  show "ms = mod_segs a" by (simp add: mod_segs_def)
  show "ca_base a = b" "ca_author a = author"
    "ca_facts a \<noteq> [] \<Longrightarrow> arm_name (ca_facts a)" "ca_library a \<noteq> [] \<Longrightarrow> arm_name (ca_library a)"
    using take_mod_Some(2) [OF f] take_mod_Some(2) [OF l] by (simp_all add: a)
qed

lemma arm_id_join: "arm_id a = join_with ''+'' (base_seg (ca_base a) (ca_author a) # mod_segs a)"
  by (simp add: arm_id_def base_seg_def mod_segs_def)

lemma match_arm_Some:
  assumes "match_arm s = Some a"
  shows "chomp s = arm_id a" and "(ca_base a = S1) = (ca_author a \<noteq> [])"
    and "list_all (\<lambda>c. \<not> is_space c) (chomp s)"
proof -
  obtain b ms author where sp: "split_on CHR ''+'' (chomp s) = b # ms"
    and mb: "match_base b = Some (ca_base a, author)" and mm: "match_mods (ca_base a) author ms = Some a"
    using assms by (auto simp: match_arm_def split: list.splits option.splits prod.splits
        dest: match_mods_Some(2))
  from mm have [simp]: "ca_author a = author" by (rule match_mods_Some(3))
  have "chomp s = join_with ''+'' (b # ms)"
    using join_split_on [of "CHR ''+''" "chomp s"] by (simp add: sp)
  with match_base_Some(1) [OF mb] match_mods_Some(1) [OF mm] show eq: "chomp s = arm_id a"
    by (simp add: arm_id_join)
  show "(ca_base a = S1) = (ca_author a \<noteq> [])"
    using match_base_Some(2) [OF mb] by simp
  have "list_all (\<lambda>c. \<not> is_space c) (base_seg (ca_base a) author)"
    using match_base_Some(1,3) [OF mb] by simp
  then show "list_all (\<lambda>c. \<not> is_space c) (chomp s)"
    using match_mods_Some(4,5) [OF mm, THEN arm_name_chars(1)]
    by (auto simp: eq arm_id_def base_seg_def is_space_def)
qed

lemma chomp_no_space: "list_all (\<lambda>c. \<not> is_space c) s \<Longrightarrow> chomp s = s"
proof (cases "s = []")
  case False
  assume "list_all (\<lambda>c. \<not> is_space c) s"
  with False have "\<not> is_space (last s)" by (simp add: list_all_iff)
  then have "last s \<noteq> CHR 0x0A" by (auto simp: is_space_def)
  then show ?thesis by (simp add: chomp_def)
qed (simp add: chomp_def)

lemma chomp_cases: "chomp s = s \<or> s = chomp s @ [CHR 0x0A]"
  by (metis append_butlast_last_id chomp_def)

lemma arm_id_not_Nil [simp]: "arm_id a \<noteq> []"
  by (cases "ca_base a") (auto simp: arm_id_def)

lemma match_arm_strip:
  assumes "match_arm s = Some a"
  shows "py_strip s = arm_id a" and "match_arm (arm_id a) = Some a"
proof -
  note m = match_arm_Some [OF assms]
  have "py_strip s = chomp s"
    using chomp_cases [of s]
  proof
    assume "chomp s = s"
    with m(3) show ?thesis using py_strip_id [of s] by simp
  next
    assume "s = chomp s @ [CHR 0x0A]"
    moreover have "py_strip (chomp s @ [CHR 0x0A]) = chomp s"
      using m by (intro py_strip_snoc_space) (auto simp: is_space_def)
    ultimately show ?thesis by simp
  qed
  with m(1) show "py_strip s = arm_id a" by simp
  have "chomp (arm_id a) = arm_id a"
    using m(1,3) by (metis chomp_no_space)
  with m(1) assms show "match_arm (arm_id a) = Some a"
    by (simp add: match_arm_def)
qed

lemma match_arm_ContextArm: "match_arm s = Some a \<Longrightarrow> ContextArm a = Inr a"
  using match_arm_Some(2) match_arm_strip(2) by (auto simp: ContextArm_def)

lemma parse_arm_eq: "parse_arm s = (case match_arm (py_strip s) of
    None \<Rightarrow> Inl (ValueError ''grammar'') | Some a \<Rightarrow> Inr a)"
  by (auto simp: parse_arm_def match_arm_ContextArm split: option.splits)

lemma parse_arm_Inr: "parse_arm s = Inr a \<longleftrightarrow> match_arm (py_strip s) = Some a"
  by (auto simp: parse_arm_eq split: option.splits)

lemma is_arm_parse: "is_arm s \<longleftrightarrow> (\<exists>a. parse_arm s = Inr a)"
  by (auto simp: is_arm_def parse_arm_Inr)

lemma chomp_append_nonempty: "t \<noteq> [] \<Longrightarrow> chomp (s @ t) = s @ chomp t"
  by (auto simp: chomp_def butlast_append)

lemma takeWhile_base_seg:
  assumes "ca_base a \<noteq> S1"
  shows "takeWhile (\<lambda>x. x \<noteq> CHR ''+'') (chomp (arm_id a)) = base_str (ca_base a)"
proof -
  let ?m = "(if ca_facts a \<noteq> [] then ''+facts@'' @ ca_facts a else []) @
     (if ca_library a \<noteq> [] then ''+library@'' @ ca_library a else []) @
     (if ca_loop a then ''+L'' else [])"
  have id: "arm_id a = base_str (ca_base a) @ ?m"
    using assms by (simp add: arm_id_def)
  have b: "\<forall>x \<in> set (base_str (ca_base a)). x \<noteq> CHR ''+''" "chomp (base_str (ca_base a)) = base_str (ca_base a)"
    by (cases "ca_base a"; simp add: chomp_def)+
  show ?thesis
  proof (cases "?m = []")
    case True
    then have "arm_id a = base_str (ca_base a)" unfolding id by (simp only: append_Nil2)
    with b show ?thesis by (simp add: takeWhile_eq_all_conv)
  next
    case False
    then obtain m' where "?m = CHR ''+'' # m'" "m' \<noteq> []"
      by (cases "ca_facts a"; cases "ca_library a") (auto split: if_splits)
    then obtain m where m: "chomp ?m = CHR ''+'' # m"
      using chomp_append_nonempty [of m' "''+''"] by (metis append_Cons append_Nil)
    then have "chomp (arm_id a) = base_str (ca_base a) @ CHR ''+'' # m"
      using chomp_append_nonempty [OF False, of "base_str (ca_base a)"] by (simp only: id)
    with b(1) show ?thesis by (simp add: takeWhile_append2)
  qed
qed

lemma match_arm_base:
  assumes "match_arm (arm_id x) = Some a"
  shows "ca_base a = ca_base x"
proof -
  obtain b ms author where sp: "split_on CHR ''+'' (chomp (arm_id x)) = b # ms"
    and mb: "match_base b = Some (ca_base a, author)"
    using assms by (auto simp: match_arm_def split: list.splits option.splits prod.splits
        dest: match_mods_Some(2))
  have b: "b = takeWhile (\<lambda>x. x \<noteq> CHR ''+'') (chomp (arm_id x))"
    using split_on_hd [of "CHR ''+''" "chomp (arm_id x)"] sp by simp
  show ?thesis
  proof (cases "ca_base x = S1")
    case False
    with mb show ?thesis
      unfolding b by (cases "ca_base x"; simp add: takeWhile_base_seg match_base_def starts_with_def)
  next
    case True
    then obtain t where "arm_id x = ''S1@'' @ t" by (auto simp: arm_id_def)
    then have "\<exists>u. chomp (arm_id x) = CHR ''S'' # CHR ''1'' # u"
      by (auto simp: chomp_def)
    then obtain u where "b = CHR ''S'' # CHR ''1'' # u"
      by (auto simp: b)
    with mb True show ?thesis
      by (auto simp: match_base_def split: if_splits)
  qed
qed

lemma ContextArm_Inr: "ContextArm a = Inr a' \<Longrightarrow> a' = a \<and> (\<exists>x. match_arm (arm_id a) = Some x)"
  by (auto simp: ContextArm_def)

lemma context_arm_base_Inr:
  assumes "context_arm_base b = Inr a"
  shows "ca_base a = (if bf_test_source b = TEST_PERSON then S2
    else if bf_test_source b = TEST_AUTHORED then S1
    else if bf_mode b = MODE_BLIND then A0 else S3)"
    and "bf_test_source b \<noteq> [] \<Longrightarrow> ca_base a \<in> {S1, S2}"
  using assms by (auto simp: context_arm_base_def plain_def split: if_splits dest!: ContextArm_Inr)

subsection \<open>Properties\<close>

text \<open>
  Reading an arm and printing it are inverse on the grammar: a string \<open>parse_arm\<close> accepts
  prints back to itself (without surrounding white space), and what is printed reads back to
  the same arm.
\<close>

theorem parse_arm_roundtrip:
  assumes "parse_arm s = Inr a"
  shows "arm_id a = py_strip s \<and> parse_arm (arm_id a) = Inr a \<and> is_arm (arm_id a)"
proof -
  have m: "match_arm (py_strip s) = Some a"
    using assms by (simp add: parse_arm_Inr)
  note st = match_arm_strip [OF m]
  have "py_strip (arm_id a) = arm_id a"
    using match_arm_strip(1) [OF st(2)] .
  moreover have "arm_id a = py_strip s"
  proof -
    have "py_strip s \<noteq> [] \<Longrightarrow> chomp (py_strip s) = py_strip s"
      using last_py_strip [of s] by (auto simp: chomp_def is_space_def)
    then have "chomp (py_strip s) = py_strip s"
      by (cases "py_strip s = []") (auto simp: chomp_def)
    with match_arm_Some(1) [OF m] show ?thesis by simp
  qed
  ultimately show ?thesis
    using st(2) by (simp add: parse_arm_Inr is_arm_def)
qed

theorem parse_arm_roundtrip_witness:
  "parse_arm '' S1@claude-opus-5+L '' = Inr \<lparr>ca_base = S1, ca_author = ''claude-opus-5'',
      ca_facts = [], ca_library = [], ca_loop = True\<rparr> \<and>
   arm_id \<lparr>ca_base = S1, ca_author = ''claude-opus-5'', ca_facts = [], ca_library = [],
      ca_loop = True\<rparr> = ''S1@claude-opus-5+L''"
proof -
  have h: "parse_arm '' S1@claude-opus-5+L '' = Inr \<lparr>ca_base = S1, ca_author = ''claude-opus-5'',
      ca_facts = [], ca_library = [], ca_loop = True\<rparr>"
    by code_simp
  show ?thesis
    using h parse_arm_roundtrip [OF h] by (simp add: arm_id_def)
qed

text \<open>
  The arm a row is stamped with reads back to the base that was decided, whatever the
  author, drafter and library names hold: a person's failing test is \<open>S2\<close>, an authored one
  \<open>S1\<close>, a blind replay \<open>A0\<close>, a sighted one \<open>S3\<close>, and a replay without a test of its own
  never carries a certifying arm.
\<close>

theorem context_arm_for_base:
  assumes "context_arm_for b = Inr s"
  shows "\<exists>a. parse_arm s = Inr a \<and>
    ca_base a = (if bf_test_source b = TEST_PERSON then S2
      else if bf_test_source b = TEST_AUTHORED then S1
      else if bf_mode b = MODE_BLIND then A0 else S3) \<and>
    (certifies a \<longleftrightarrow> bf_test_source b \<noteq> [])"
proof -
  obtain c x where c: "context_arm_base b = Inr c" and x: "ca_base x = ca_base c"
    and ok: "ContextArm x = Inr x" and s: "s = arm_id x"
    using assms unfolding context_arm_for_def bind_result_Inr
    by (metis ContextArm_Inr context_arm.select_convs(1) sum.inject(2))
  obtain a where m: "match_arm (arm_id x) = Some a"
    using ContextArm_Inr [OF ok] by blast
  have "py_strip (arm_id x) = arm_id a" and "match_arm (arm_id a) = Some a"
    using match_arm_strip [OF m] by simp_all
  then have "parse_arm s = Inr a"
    by (simp add: s parse_arm_Inr)
  moreover have "ca_base a = ca_base c"
    using match_arm_base [OF m] x by simp
  moreover have "certifies a \<longleftrightarrow> bf_test_source b \<noteq> []"
    using context_arm_base_Inr [OF c] \<open>ca_base a = ca_base c\<close>
    by (auto simp: certifies_def TEST_PERSON_def TEST_AUTHORED_def split: if_splits)
  ultimately show ?thesis
    using context_arm_base_Inr(1) [OF c] by auto
qed

theorem context_arm_for_base_witness:
  "context_arm_for \<lparr>bf_process_step = ''replay'', bf_mode = ''sighted'', bf_loop = True,
     bf_test_source = [], bf_test_author = [], bf_facts_drafter = [],
     bf_library_version = ''v2''\<rparr> = Inr ''S3+library@v2+L'' \<and>
   (\<exists>a. parse_arm ''S3+library@v2+L'' = Inr a \<and> ca_base a = S3 \<and> \<not> certifies a)"
proof -
  have h: "context_arm_for \<lparr>bf_process_step = ''replay'', bf_mode = ''sighted'', bf_loop = True,
     bf_test_source = [], bf_test_author = [], bf_facts_drafter = [],
     bf_library_version = ''v2''\<rparr> = Inr ''S3+library@v2+L''"
    by code_simp
  show ?thesis
    using h context_arm_for_base [OF h]
    by (auto simp: TEST_PERSON_def TEST_AUTHORED_def MODE_BLIND_def)
qed

text \<open>
  The modifiers are weaker than the base: \<open>ContextArm\<close> checks that the printed arm is in
  the grammar, not that each name is a name, so an author called \<open>m+L\<close> is accepted for a
  brief whose loop was off and reads back as author \<open>m\<close> with the loop on.
\<close>

theorem context_arm_for_plus_in_author:
  "context_arm_for \<lparr>bf_process_step = ''replay'', bf_mode = ''blind'', bf_loop = False,
     bf_test_source = TEST_AUTHORED, bf_test_author = ''m+L'', bf_facts_drafter = [],
     bf_library_version = []\<rparr> = Inr ''S1@m+L'' \<and>
   parse_arm ''S1@m+L'' = Inr \<lparr>ca_base = S1, ca_author = ''m'', ca_facts = [],
     ca_library = [], ca_loop = True\<rparr>"
proof
  show "context_arm_for \<lparr>bf_process_step = ''replay'', bf_mode = ''blind'', bf_loop = False,
     bf_test_source = TEST_AUTHORED, bf_test_author = ''m+L'', bf_facts_drafter = [],
     bf_library_version = []\<rparr> = Inr ''S1@m+L''"
    by code_simp
  show "parse_arm ''S1@m+L'' = Inr \<lparr>ca_base = S1, ca_author = ''m'', ca_facts = [],
     ca_library = [], ca_loop = True\<rparr>"
    by code_simp
qed

end
