(* ===== verification/Lint.thy ===== *)
theory Lint
  imports Prelude
begin

section \<open>Belt 5: the repository's own linter (\<open>crb/core/lint.py\<close>)\<close>

text \<open>
  The plan belt 5 runs, how one command's exit is read, the loop that runs the plan and the
  record it leaves, and the reason word that says why belt 5 holds the value it holds.

  Parameters of the model: the executor (what running the \<open>i\<close>-th command with its argument
  vector does) and the path resolution of the file system (\<open>rel\<close>: a path under the root made
  relative to it). A tool's two configured regular expressions are functions: whether output
  says the tool could not run, and which file a finding line names. Display text (tails, notes,
  durations) is not modelled; an error text is a value of \<open>lint_error\<close>.
\<close>

subsection \<open>Why belt 5 holds what it holds\<close>

definition LINT_EVALUATED :: string where "LINT_EVALUATED = ''evaluated''"
definition LINT_NONE_DETECTED :: string where "LINT_NONE_DETECTED = ''none_detected''"
definition LINT_DISABLED_BY_CONFIG :: string where "LINT_DISABLED_BY_CONFIG = ''disabled_by_config''"
definition LINT_ERROR :: string where "LINT_ERROR = ''error''"
definition LINT_NOT_REACHED :: string where "LINT_NOT_REACHED = ''not_reached''"
definition LINT_NOT_REQUESTED :: string where "LINT_NOT_REQUESTED = ''not_requested''"

definition LINT_STATUSES :: "string list" where
  "LINT_STATUSES = [LINT_EVALUATED, LINT_NONE_DETECTED, LINT_DISABLED_BY_CONFIG, LINT_ERROR,
     LINT_NOT_REACHED, LINT_NOT_REQUESTED]"

datatype lint_violation = UnknownStatus | EvaluatedWithoutVerdict | ErrorNotClosed | VerdictUnexpected

definition lint_status_violation :: "string \<Rightarrow> bool option \<Rightarrow> bool \<Rightarrow> lint_violation option" where
  "lint_status_violation status belt clean =
     (if status \<notin> set LINT_STATUSES then Some UnknownStatus
      else if status = LINT_EVALUATED \<and> belt = None then Some EvaluatedWithoutVerdict
      else if status = LINT_ERROR \<and> (belt \<noteq> Some False \<or> clean) then Some ErrorNotClosed
      else if status \<notin> {LINT_EVALUATED, LINT_ERROR} \<and> belt \<noteq> None then Some VerdictUnexpected
      else None)"

definition lint_disabled :: "(string \<times> pyval) list option \<Rightarrow> bool" where
  "lint_disabled lint = (case lint of None \<Rightarrow> False
     | Some d \<Rightarrow> (case map_of d ''disabled'' of
         None \<Rightarrow> False
       | Some PNone \<Rightarrow> False
       | Some (PBool b) \<Rightarrow> b
       | Some (PInt n) \<Rightarrow> n \<noteq> 0
       | Some (PStr s) \<Rightarrow> s \<noteq> []
       | Some (PList xs) \<Rightarrow> xs \<noteq> []
       | Some (PDict xs) \<Rightarrow> xs \<noteq> []))"

subsection \<open>The plan\<close>

definition PATHS_CHANGED :: string where "PATHS_CHANGED = ''changed''"
definition PATHS_ALL :: string where "PATHS_ALL = ''all''"
definition MAX_LINT_FILES :: nat where "MAX_LINT_FILES = 200"

record lint_tool =
  lt_name :: string
  lt_argv :: "string list"
  lt_paths :: string
  lt_exts :: "string list"
  lt_findings_rcs :: "int list"
  lt_stdout_is_findings :: bool
  lt_unrunnable :: "(string \<Rightarrow> bool) option"
  lt_findings :: "(string \<Rightarrow> string option) option"
  lt_refuse :: string

definition LintTool :: "lint_tool \<Rightarrow> lint_tool result" where
  "LintTool t = guarded
     [(lt_name t = [], ValueError ''name''),
      (lt_argv t = [], ValueError ''argv''),
      (lt_paths t \<notin> {PATHS_CHANGED, PATHS_ALL}, ValueError ''paths'')] t"

definition has_ext :: "string list \<Rightarrow> string \<Rightarrow> bool" where
  "has_ext exts f \<longleftrightarrow> list_ex (ends_with f) exts"

definition files_for :: "lint_tool \<Rightarrow> string list \<Rightarrow> string list" where
  "files_for t changed =
     (if lt_paths t = PATHS_ALL then []
      else take MAX_LINT_FILES (filter (\<lambda>f. lt_exts t = [] \<or> has_ext (lt_exts t) f) changed))"

definition concerns :: "lint_tool \<Rightarrow> string list \<Rightarrow> bool" where
  "concerns t changed =
     (if lt_paths t = PATHS_CHANGED then files_for t changed \<noteq> []
      else lt_exts t = [] \<or> list_ex (has_ext (lt_exts t)) changed)"

record lint_plan =
  lp_tools :: "lint_tool list"
  lp_detected :: string
  lp_timeout :: int

definition LintPlan :: "lint_plan \<Rightarrow> lint_plan result" where
  "LintPlan p = guarded
     [(lp_tools p = [], ValueError ''tools''),
      (lp_detected p = [], ValueError ''detected''),
      (lp_timeout p \<le> 0, ValueError ''timeout'')] p"

subsection \<open>One command\<close>

record exec_result =
  er_returncode :: int
  er_stdout :: string
  er_stderr :: string
  er_timed_out :: bool
  er_cancelled :: bool

definition combined :: "exec_result \<Rightarrow> string" where
  "combined r = er_stdout r @ (if er_stderr r \<noteq> [] then CHR 0x0A # er_stderr r else [])"

datatype exec_outcome = LaunchError string | Ran exec_result

datatype lint_error =
    Refused string
  | NotLaunched string
  | Cancelled
  | NotRunnable int
  | SaysNotRunnable int
  | ToolFailed int
  | Unattributed int

definition read_exit :: "lint_tool \<Rightarrow> exec_result \<Rightarrow> bool option \<times> lint_error option" where
  "read_exit t r =
     (if er_timed_out r then (Some False, None)
      else if er_cancelled r then (None, Some Cancelled)
      else if er_returncode r \<in> {126, 127} then (None, Some (NotRunnable (er_returncode r)))
      else if (case lt_unrunnable t of None \<Rightarrow> False | Some p \<Rightarrow> p (combined r))
        then (None, Some (SaysNotRunnable (er_returncode r)))
      else if er_returncode r = 0 then
        (if lt_stdout_is_findings t \<and> py_strip (er_stdout r) \<noteq> [] then (Some False, None)
         else (Some True, None))
      else if er_returncode r \<in> set (lt_findings_rcs t) then (Some False, None)
      else (None, Some (ToolFailed (er_returncode r))))"

function strip_dot_slash :: "string \<Rightarrow> string" where
  "strip_dot_slash p = (if starts_with p ''./'' then strip_dot_slash (drop 2 p) else p)"
  by pat_completeness auto
termination
  by (relation "measure length") (auto simp: starts_with_def dest!: arg_cong [where f = length])

declare strip_dot_slash.simps [simp del]

definition strip_quotes :: "string \<Rightarrow> string" where
  "strip_quotes s = (let q = (\<lambda>c. c = CHR 0x22 \<or> c = CHR 0x27)
     in rev (dropWhile q (rev (dropWhile q s))))"

definition norm_path :: "(string \<Rightarrow> string option) \<Rightarrow> string \<Rightarrow> string" where
  "norm_path rel path =
     (let p = map (\<lambda>c. if c = CHR 0x5C then CHR ''/'' else c) (strip_quotes (py_strip path))
      in if starts_with p ''/''
         then (case rel p of None \<Rightarrow> p | Some q \<Rightarrow> strip_dot_slash q)
         else strip_dot_slash p)"

text \<open>\<open>str.splitlines\<close>: a carriage return and newline count as one line end, and a final
  line end opens no further line.\<close>

definition is_eol :: "char \<Rightarrow> bool" where
  "is_eol c \<longleftrightarrow> c \<in> set [CHR 0x0A, CHR 0x0B, CHR 0x0C, CHR 0x0D, CHR 0x1C, CHR 0x1D, CHR 0x1E, CHR 0x85]"

fun norm_eol :: "string \<Rightarrow> string" where
  "norm_eol [] = []"
| "norm_eol (c # s) =
     (if c = CHR 0x0D \<and> s \<noteq> [] \<and> hd s = CHR 0x0A then norm_eol s
      else (if is_eol c then CHR 0x0A else c) # norm_eol s)"

definition splitlines :: "string \<Rightarrow> string list" where
  "splitlines s = (let ls = split_on (CHR 0x0A) (norm_eol s)
     in if last ls = [] then butlast ls else ls)"

definition attribute_findings ::
    "(string \<Rightarrow> string option) \<Rightarrow> (string \<Rightarrow> string option) \<Rightarrow> string \<Rightarrow> string list \<Rightarrow> nat \<times> nat" where
  "attribute_findings rel pattern output changed_files =
     (let changed = map (norm_path rel) changed_files;
          files = map (norm_path rel) (List.map_filter pattern (splitlines output))
      in (count_if (\<lambda>f. f \<in> set changed) files, count_if (\<lambda>f. f \<notin> set changed) files))"

subsection \<open>Running a plan\<close>

record lint_step =
  ls_tool :: string
  ls_argv :: "string list"
  ls_files :: "string list"
  ls_rc :: int
  ls_verdict :: "bool option"
  ls_timed_out :: bool
  ls_error :: "lint_error option"
  ls_findings_changed :: nat
  ls_findings_other :: nat

record lint_run =
  lr_detected :: string
  lr_steps :: "lint_step list"
  lr_ok :: "bool option"
  lr_error :: "lint_error option"

definition LintRun :: "lint_run \<Rightarrow> lint_run result" where
  "LintRun r = guarded
     [(lr_ok r = Some True \<and> (lr_error r \<noteq> None \<or>
         list_ex (\<lambda>s. ls_verdict s \<noteq> Some True) (lr_steps r)), ValueError ''ok''),
      (lr_error r \<noteq> None \<and> lr_ok r \<noteq> Some False, ValueError ''error'')] r"

type_synonym executor = "nat \<Rightarrow> string list \<Rightarrow> exec_outcome"

text \<open>The loop body for one tool that concerns the changed files.\<close>

definition run_step ::
    "(string \<Rightarrow> string option) \<Rightarrow> executor \<Rightarrow> string list \<Rightarrow> nat \<Rightarrow> lint_tool \<Rightarrow> lint_step" where
  "run_step rel executor changed i t =
     (let files = files_for t changed; argv = lt_argv t @ files;
          step = (\<lambda>rc v to err mine other. \<lparr>ls_tool = lt_name t, ls_argv = argv, ls_files = files,
            ls_rc = rc, ls_verdict = v, ls_timed_out = to, ls_error = err,
            ls_findings_changed = mine, ls_findings_other = other\<rparr>)
      in if lt_refuse t \<noteq> [] then step 127 None False (Some (Refused (lt_refuse t))) 0 0
         else case executor i argv of
           LaunchError what \<Rightarrow> step 127 None False (Some (NotLaunched what)) 0 0
         | Ran res \<Rightarrow>
             (let (verdict, err) = read_exit t res;
                  rc = (if er_timed_out res then 124 else er_returncode res)
              in case lt_findings t of
                   Some pattern \<Rightarrow>
                     if verdict = Some False \<and> \<not> er_timed_out res then
                       (let (mine, other) = attribute_findings rel pattern (combined res) changed
                        in if mine = 0 \<and> other > 0 then step rc (Some True) False err mine other
                           else if mine = 0 then step rc None False (Some (Unattributed rc)) mine other
                           else step rc verdict False err mine other)
                     else step rc verdict (er_timed_out res) err 0 0
                 | None \<Rightarrow> step rc verdict (er_timed_out res) err 0 0))"

fun run_tools ::
    "(string \<Rightarrow> string option) \<Rightarrow> executor \<Rightarrow> string list \<Rightarrow> nat \<Rightarrow> lint_tool list \<Rightarrow> lint_step list" where
  "run_tools rel executor changed i [] = []"
| "run_tools rel executor changed i (t # ts) =
     (if \<not> concerns t changed then run_tools rel executor changed i ts
      else let s = run_step rel executor changed i t
           in if ls_verdict s = Some True then s # run_tools rel executor changed (Suc i) ts else [s])"

definition run_plan ::
    "(string \<Rightarrow> string option) \<Rightarrow> executor \<Rightarrow> lint_plan \<Rightarrow> string list \<Rightarrow> lint_run result" where
  "run_plan rel executor plan changed_files =
     (let steps = run_tools rel executor changed_files 0 (lp_tools plan);
          mk = (\<lambda>ok err. LintRun \<lparr>lr_detected = lp_detected plan, lr_steps = steps, lr_ok = ok,
                   lr_error = err\<rparr>)
      in if steps = [] then mk None None
         else if ls_error (last steps) \<noteq> None then mk (Some False) (ls_error (last steps))
         else if ls_timed_out (last steps) then mk (Some False) None
         else if ls_verdict (last steps) = Some False then mk (Some False) None
         else mk (Some True) None)"

definition lint_status :: "lint_run option \<Rightarrow> bool \<Rightarrow> string" where
  "lint_status run disabled =
     (if disabled then LINT_DISABLED_BY_CONFIG
      else case run of
        None \<Rightarrow> LINT_NONE_DETECTED
      | Some r \<Rightarrow> if lr_ok r = None \<and> lr_error r = None then LINT_NONE_DETECTED
          else if lr_error r \<noteq> None then LINT_ERROR else LINT_EVALUATED)"

subsection \<open>Lemmas\<close>

lemmas lint_status_defs = LINT_EVALUATED_def LINT_NONE_DETECTED_def LINT_DISABLED_BY_CONFIG_def
  LINT_ERROR_def LINT_NOT_REACHED_def LINT_NOT_REQUESTED_def

lemma lint_statuses_distinct [simp]:
  "distinct [LINT_EVALUATED, LINT_NONE_DETECTED, LINT_DISABLED_BY_CONFIG, LINT_ERROR,
     LINT_NOT_REACHED, LINT_NOT_REQUESTED]"
  by (simp add: lint_status_defs)

text \<open>What a status that contradicts nothing says of belt 5.\<close>

lemma lint_status_ok:
  "lint_status_violation st belt clean = None \<longleftrightarrow>
     (st = LINT_EVALUATED \<and> belt \<noteq> None) \<or>
     (st = LINT_ERROR \<and> belt = Some False \<and> \<not> clean) \<or>
     (st \<in> {LINT_NONE_DETECTED, LINT_DISABLED_BY_CONFIG, LINT_NOT_REACHED, LINT_NOT_REQUESTED} \<and>
        belt = None)"
  using lint_statuses_distinct
  by (auto simp: lint_status_violation_def LINT_STATUSES_def)

lemma read_exit_error: "read_exit t r = (v, e) \<Longrightarrow> (e \<noteq> None) = (v = None)"
  by (auto simp: read_exit_def split: if_splits)

lemma read_exit_accepts:
  "read_exit t r = (Some True, e) \<Longrightarrow>
     er_returncode r = 0 \<and> \<not> er_timed_out r \<and> \<not> er_cancelled r"
  by (auto simp: read_exit_def split: if_splits)

lemma run_step_tool: "ls_tool (run_step rel ex changed i t) = lt_name t"
  by (simp add: run_step_def Let_def split: exec_outcome.splits option.splits prod.splits)

lemma run_step_refused: "lt_refuse t \<noteq> [] \<Longrightarrow>
    ls_verdict (run_step rel ex changed i t) = None \<and> ls_error (run_step rel ex changed i t) \<noteq> None \<and>
    \<not> ls_timed_out (run_step rel ex changed i t)"
  by (simp add: run_step_def Let_def)

lemma run_step_launch_error:
  "ex i (lt_argv t @ files_for t changed) = LaunchError what \<Longrightarrow>
    ls_verdict (run_step rel ex changed i t) = None \<and> ls_error (run_step rel ex changed i t) \<noteq> None \<and>
    \<not> ls_timed_out (run_step rel ex changed i t)"
  by (simp add: run_step_def Let_def)

lemma run_step_ran:
  assumes "lt_refuse t = []" and "ex i (lt_argv t @ files_for t changed) = Ran res"
    and "read_exit t res = (v, e)"
  shows "(ls_error (run_step rel ex changed i t) \<noteq> None) =
      (ls_verdict (run_step rel ex changed i t) = None) \<and>
    (ls_timed_out (run_step rel ex changed i t) \<longrightarrow>
      ls_verdict (run_step rel ex changed i t) = Some False)"
proof -
  have v: "(e \<noteq> None) = (v = None)" using assms(3) by (rule read_exit_error)
  have to: "er_timed_out res \<Longrightarrow> v = Some False"
    using assms(3) by (auto simp: read_exit_def)
  show ?thesis
  proof (cases "lt_findings t")
    case None
    with assms v to show ?thesis by (simp add: run_step_def Let_def)
  next
    case (Some pattern)
    obtain mine other where a: "attribute_findings rel pattern (combined res) changed = (mine, other)"
      by (cases "attribute_findings rel pattern (combined res) changed") auto
    show ?thesis
    proof (cases "v = Some False \<and> \<not> er_timed_out res")
      case True
      with v have "e = None" by simp
      with True assms Some a show ?thesis by (simp add: run_step_def Let_def)
    next
      case False
      with assms v to Some show ?thesis by (auto simp: run_step_def Let_def)
    qed
  qed
qed

lemma run_step_verdict:
  "((ls_error (run_step rel ex changed i t) \<noteq> None) =
      (ls_verdict (run_step rel ex changed i t) = None)) \<and>
    (ls_timed_out (run_step rel ex changed i t) \<longrightarrow>
      ls_verdict (run_step rel ex changed i t) = Some False)"
proof (cases "lt_refuse t = []")
  case False
  then show ?thesis using run_step_refused by metis
next
  case True
  show ?thesis
  proof (cases "ex i (lt_argv t @ files_for t changed)")
    case (LaunchError what)
    then show ?thesis using run_step_launch_error by metis
  next
    case (Ran res)
    obtain v e where "read_exit t res = (v, e)" by (cases "read_exit t res") auto
    with True Ran show ?thesis by (rule run_step_ran)
  qed
qed

lemma run_tools_prefix_accepts:
  "list_all (\<lambda>s. ls_verdict s = Some True) (butlast (run_tools rel ex changed i ts))"
  by (induction ts arbitrary: i) (simp_all add: Let_def)

lemma run_tools_step:
  "s \<in> set (run_tools rel ex changed i ts) \<Longrightarrow> \<exists>j t. s = run_step rel ex changed j t"
proof (induction ts arbitrary: i)
  case Nil
  then show ?case by simp
next
  case (Cons t ts)
  then show ?case
    by (cases "concerns t changed"; cases "ls_verdict (run_step rel ex changed i t) = Some True")
      (auto simp: Let_def)
qed

lemma run_tools_Nil_iff:
  "run_tools rel ex changed i ts = [] \<longleftrightarrow> list_all (\<lambda>t. \<not> concerns t changed) ts"
  by (induction ts arbitrary: i) (simp_all add: Let_def)

lemma run_tools_all_accept:
  "list_all (\<lambda>s. ls_verdict s = Some True) (run_tools rel ex changed i ts) \<Longrightarrow>
     map ls_tool (run_tools rel ex changed i ts) = map lt_name (filter (\<lambda>t. concerns t changed) ts)"
proof (induction ts arbitrary: i)
  case Nil
  then show ?case by simp
next
  case (Cons t ts)
  then show ?case
    by (cases "concerns t changed"; cases "ls_verdict (run_step rel ex changed i t) = Some True")
      (simp_all add: Let_def run_step_tool)
qed

lemma list_all_butlast_last:
  "xs \<noteq> [] \<Longrightarrow> list_all P (butlast xs) \<Longrightarrow> list_all P xs = P (last xs)"
  by (metis append_butlast_last_id list.pred_inject(1,2) list_all_append)

lemma run_tools_accept_iff:
  "run_tools rel ex changed i ts \<noteq> [] \<Longrightarrow>
    list_all (\<lambda>s. ls_verdict s = Some True) (run_tools rel ex changed i ts) \<longleftrightarrow>
    ls_verdict (last (run_tools rel ex changed i ts)) = Some True"
  by (rule list_all_butlast_last [OF _ run_tools_prefix_accepts])

lemma run_tools_last:
  assumes "run_tools rel ex changed i ts \<noteq> []"
  defines "l \<equiv> last (run_tools rel ex changed i ts)"
  shows "(ls_error l \<noteq> None) = (ls_verdict l = None) \<and>
    (ls_timed_out l \<longrightarrow> ls_verdict l = Some False)"
proof -
  have "l \<in> set (run_tools rel ex changed i ts)" unfolding l_def using assms(1) by simp
  then obtain j t where "l = run_step rel ex changed j t" using run_tools_step by blast
  then show ?thesis using run_step_verdict by simp
qed

lemma list_ex_not: "list_ex (\<lambda>x. \<not> P x) xs \<longleftrightarrow> \<not> list_all P xs"
  by (induction xs) auto

lemma run_plan_empty:
  "run_tools rel ex changed 0 (lp_tools plan) = [] \<Longrightarrow>
    run_plan rel ex plan changed = Inr \<lparr>lr_detected = lp_detected plan, lr_steps = [],
      lr_ok = None, lr_error = None\<rparr>"
  by (simp add: run_plan_def LintRun_def)

lemma run_plan_steps:
  assumes "run_tools rel ex changed 0 (lp_tools plan) = ss" and "ss \<noteq> []"
  shows "run_plan rel ex plan changed = Inr \<lparr>lr_detected = lp_detected plan, lr_steps = ss,
      lr_ok = Some (ls_verdict (last ss) = Some True), lr_error = ls_error (last ss)\<rparr>"
proof -
  let ?l = "last ss"
  note v = run_tools_last [of rel ex changed 0 "lp_tools plan", unfolded assms(1), OF assms(2)]
  have ex: "list_ex (\<lambda>s. ls_verdict s \<noteq> Some True) ss = (ls_verdict ?l \<noteq> Some True)"
    using run_tools_accept_iff [of rel ex changed 0 "lp_tools plan", unfolded assms(1), OF assms(2)]
    by (simp add: list_ex_not)
  consider "ls_verdict ?l = None" | "ls_verdict ?l = Some False" | "ls_verdict ?l = Some True"
    by (cases "ls_verdict ?l") auto
  then show ?thesis
    using v assms ex by cases (simp_all add: run_plan_def LintRun_def Let_def)
qed

lemma run_plan_error_closed:
  assumes "run_plan rel ex plan changed = Inr r"
  shows "lr_error r = None \<or> lr_ok r = Some False"
proof (cases "run_tools rel ex changed 0 (lp_tools plan) = []")
  case True
  from assms run_plan_empty [OF True] show ?thesis by auto
next
  case False
  from assms run_plan_steps [OF refl False] run_tools_last [OF False] show ?thesis by auto
qed

subsection \<open>Properties\<close>


text \<open>
  The reason word of belt 5 never contradicts the belt: for every plan, whatever the tools
  did, \<open>lint_status\<close> of the record agrees with the belt value it left, for a grade that is
  clean only when belt 5 did not reject.
\<close>

theorem lint_status_agrees:
  assumes "run_plan rel ex plan changed = Inr r" and "clean \<Longrightarrow> lr_ok r \<noteq> Some False"
  shows "lint_status_violation (lint_status (Some r) False) (lr_ok r) clean = None"
  using run_plan_error_closed [OF assms(1)] assms(2)
  by (auto simp: lint_status_ok lint_status_def)

lemma lint_status_agrees_witness:
  "\<exists>r. run_plan (\<lambda>p. None) (\<lambda>i argv. Ran \<lparr>er_returncode = 1, er_stdout = ''x.py:1: E1'', er_stderr = [],
        er_timed_out = False, er_cancelled = False\<rparr>)
      \<lparr>lp_tools = [\<lparr>lt_name = ''ruff'', lt_argv = [''ruff''], lt_paths = PATHS_CHANGED, lt_exts = [''.py''],
         lt_findings_rcs = [1], lt_stdout_is_findings = False, lt_unrunnable = None,
         lt_findings = None, lt_refuse = []\<rparr>], lp_detected = ''ruff'', lp_timeout = 300\<rparr> [''x.py''] = Inr r \<and>
    lr_ok r = Some False \<and>
    lint_status_violation (lint_status (Some r) False) (lr_ok r) False = None"
proof -
  let ?plan = "\<lparr>lp_tools = [\<lparr>lt_name = ''ruff'', lt_argv = [''ruff''], lt_paths = PATHS_CHANGED,
      lt_exts = [''.py''], lt_findings_rcs = [1], lt_stdout_is_findings = False, lt_unrunnable = None,
      lt_findings = None, lt_refuse = []\<rparr>], lp_detected = ''ruff'', lp_timeout = 300\<rparr>"
  let ?ex = "\<lambda>i argv. Ran \<lparr>er_returncode = 1, er_stdout = ''x.py:1: E1'', er_stderr = [],
      er_timed_out = False, er_cancelled = False\<rparr>"
  obtain r where r: "run_plan (\<lambda>p. None) ?ex ?plan [''x.py''] = Inr r" "lr_ok r = Some False"
    by (simp add: run_plan_def LintRun_def run_step_def Let_def concerns_def files_for_def
        has_ext_def ends_with_def starts_with_def PATHS_CHANGED_def PATHS_ALL_def MAX_LINT_FILES_def
        read_exit_def)
  show ?thesis using r lint_status_agrees [OF r(1), of False] by simp
qed

end
