(* ===== verification/Api_Surface.thy ===== *)
theory Api_Surface
  imports Prelude "HOL-Library.List_Lexorder" "HOL-Library.Char_ord"
begin

section \<open>Belt 6: the public-API comparison (\<open>crb/core/api_surface.py\<close>)\<close>

text \<open>
  Which changed files are public units, how a unit's surface is compared across the parent,
  the trial and the replayed commit (the gold), and the run record belt 6 leaves.

  Parameter of the model: \<open>surf tree unit lang\<close>, the surface the extractors read for a unit in
  one tree (\<open>_unit_surface\<close>): \<open>None\<close> when the unit cannot be parsed or is a Go main package,
  and an exception when reading the tree raised. The extractors themselves, which scan Go,
  Python and JavaScript source text, are not modelled.
\<close>

type_synonym surface = "(string \<times> string) list"

definition LANG_GO :: string where "LANG_GO = ''go''"
definition LANG_PYTHON :: string where "LANG_PYTHON = ''python''"
definition LANG_JS :: string where "LANG_JS = ''javascript''"

datatype change_kind = KIND_ADDED | KIND_REMOVED | KIND_CHANGED

datatype api_tree = TREE_PARENT | TREE_TRIAL | TREE_GOLD

definition TREES :: "api_tree list" where
  "TREES = [TREE_PARENT, TREE_TRIAL, TREE_GOLD]"

definition MAX_FINDINGS :: nat where "MAX_FINDINGS = 50"

subsection \<open>Public units\<close>

definition JS_EXTS :: "string list" where
  "JS_EXTS = [''.js'', ''.mjs'', ''.cjs'', ''.jsx'', ''.ts'', ''.mts'', ''.cts'', ''.tsx'']"

definition GO_NON_PUBLIC_DIRS :: "string list" where
  "GO_NON_PUBLIC_DIRS = [''internal'', ''testdata'', ''vendor'']"

definition NON_PUBLIC_DIRS :: "string list" where
  "NON_PUBLIC_DIRS = [''internal'', ''testdata'', ''vendor'', ''node_modules'', ''docs'', ''doc'',
     ''examples'', ''example'', ''scripts'', ''benchmarks'', ''test'', ''tests'', ''__tests__'',
     ''e2e'']"

definition NON_PUBLIC_FILES :: "string list" where
  "NON_PUBLIC_FILES = [''setup.py'', ''conftest.py'', ''noxfile.py'', ''fabfile.py'', ''manage.py'']"

definition language_of :: "string \<Rightarrow> string" where
  "language_of rel =
     (if ends_with rel ''.go'' then (if ends_with rel ''_test.go'' then [] else LANG_GO)
      else if ends_with rel ''.py'' then LANG_PYTHON
      else if list_ex (ends_with rel) JS_EXTS then LANG_JS
      else [])"

text \<open>\<open>PurePosixPath(rel).parts\<close>: the non-empty components but \<open>.\<close>, with the root first.\<close>

definition path_parts :: "string \<Rightarrow> string list" where
  "path_parts p = (if starts_with p ''/'' then [''/''] else []) @
     filter (\<lambda>c. c \<noteq> [] \<and> c \<noteq> ''.'') (split_on CHR ''/'' p)"

text \<open>\<open>_JS_CONFIG_RE\<close>: the final \<open>$\<close> also matches before one trailing newline.\<close>

definition js_config_name :: "string \<Rightarrow> bool" where
  "js_config_name name =
     (let n = py_lower name;
          m = (if n \<noteq> [] \<and> last n = CHR 0x0A then butlast n else n);
          tails = [''.config.'' @ a @ b @ ''s'' @ c. a \<leftarrow> [[], ''c'', ''m''], b \<leftarrow> [''j'', ''t''], c \<leftarrow> [[], ''x'']]
      in list_ex (\<lambda>t. ends_with n t \<or> ends_with m t) tails \<or>
         starts_with n ''gulpfile.'' \<or> starts_with n ''gruntfile.'' \<or> starts_with n ''.'')"

definition is_public_path :: "string \<Rightarrow> bool" where
  "is_public_path rel =
     (let parts = path_parts rel; lang = language_of rel; name = last parts in
      if lang = LANG_GO then
        \<not> list_ex (\<lambda>p. p \<in> set GO_NON_PUBLIC_DIRS \<or> starts_with p ''_'' \<or> starts_with p ''.'') (butlast parts)
      else if list_ex (\<lambda>p. p \<in> set NON_PUBLIC_DIRS) (butlast parts) then False
      else if name \<in> set NON_PUBLIC_FILES then False
      else if lang = LANG_PYTHON then
        \<not> list_ex (\<lambda>p. starts_with p ''_'' \<and> p \<notin> {''__init__.py'', ''__main__.py''}) parts
      else if lang = LANG_JS then \<not> js_config_name name
      else False)"

definition dirname :: "string \<Rightarrow> string" where
  "dirname p =
     (let head = rev (dropWhile (\<lambda>c. c \<noteq> CHR ''/'') (rev p)) in
      if list_all (\<lambda>c. c = CHR ''/'') head then head
      else rev (dropWhile (\<lambda>c. c = CHR ''/'') (rev head)))"

type_synonym units = "(string \<times> string \<times> string list) list"

text \<open>\<open>setdefault(unit, (lang, [])).append(rel)\<close> on the units seen so far.\<close>

fun add_unit :: "string \<Rightarrow> string \<Rightarrow> string \<Rightarrow> units \<Rightarrow> units" where
  "add_unit unit lang rel [] = [(unit, lang, [rel])]"
| "add_unit unit lang rel ((u, l, fs) # us) =
     (if u = unit then (u, l, fs @ [rel]) # us else (u, l, fs) # add_unit unit lang rel us)"

definition units_step :: "units \<Rightarrow> string \<Rightarrow> units" where
  "units_step out rel =
     (let lang = language_of rel in
      if lang = [] \<or> \<not> is_public_path rel then out
      else add_unit (if lang = LANG_GO then (if dirname rel = [] then ''.'' else dirname rel) else rel)
             lang rel out)"

definition units_for :: "string list \<Rightarrow> units" where
  "units_for changed = foldl units_step [] changed"

subsection \<open>Comparing surfaces\<close>

record api_finding =
  af_unit :: string
  af_symbol :: string
  af_kind :: change_kind
  af_before :: string
  af_after :: string
  af_gold :: string

definition or_empty :: "string option \<Rightarrow> string" where
  "or_empty s = (case s of None \<Rightarrow> [] | Some v \<Rightarrow> v)"

fun compare_syms ::
    "string \<Rightarrow> surface \<Rightarrow> surface \<Rightarrow> surface \<Rightarrow> string list \<Rightarrow> api_finding list \<times> nat" where
  "compare_syms unit p t g [] = ([], 0)"
| "compare_syms unit p t g (s # syms) =
     (let before = map_of p s; after = map_of t s;
          (findings, matched) = compare_syms unit p t g syms
      in if before = after then (findings, matched)
         else if map_of g s = after then (findings, Suc matched)
         else (\<lparr>af_unit = unit, af_symbol = s,
                af_kind = (if before = None then KIND_ADDED
                           else if after = None then KIND_REMOVED else KIND_CHANGED),
                af_before = or_empty before, af_after = or_empty after,
                af_gold = or_empty (map_of g s)\<rparr> # findings, matched))"

definition compare :: "string \<Rightarrow> surface \<Rightarrow> surface \<Rightarrow> surface \<Rightarrow> api_finding list \<times> nat" where
  "compare unit p t g = compare_syms unit p t g (sort (remdups (map fst p @ map fst t)))"

record api_run =
  ar_ok :: "bool option"
  ar_units :: "string list"
  ar_findings :: "api_finding list"
  ar_matched :: nat

definition ApiRun :: "bool option \<Rightarrow> string list \<Rightarrow> api_finding list \<Rightarrow> nat \<Rightarrow> api_run result" where
  "ApiRun ok units findings matched =
     (let fs = take MAX_FINDINGS findings in guarded
       [(ok = Some True \<and> fs \<noteq> [], ValueError ''ok with a finding''),
        (ok \<noteq> Some False \<and> fs \<noteq> [], ValueError ''findings mean failed''),
        (ok = Some False \<and> fs = [], ValueError ''failed without a finding'')]
       \<lparr>ar_ok = ok, ar_units = units, ar_findings = fs, ar_matched = matched\<rparr>)"

definition api_label :: "api_run \<Rightarrow> string" where
  "api_label run = (case ar_ok run of None \<Rightarrow> ''none'' | Some True \<Rightarrow> ''true'' | Some False \<Rightarrow> ''false'')"

type_synonym surf_reader = "api_tree \<Rightarrow> string \<Rightarrow> string \<Rightarrow> surface option result"

text \<open>The three reads of one unit; \<open>None\<close> when any of them could not be parsed.\<close>

definition unit_surfaces ::
    "surf_reader \<Rightarrow> string \<Rightarrow> string \<Rightarrow> (surface \<times> surface \<times> surface) option result" where
  "unit_surfaces surf unit lang =
     bind_result (surf TREE_PARENT unit lang) (\<lambda>p.
     bind_result (surf TREE_TRIAL unit lang) (\<lambda>t.
     bind_result (surf TREE_GOLD unit lang) (\<lambda>g.
       Inr (case (p, t, g) of (Some p', Some t', Some g') \<Rightarrow> Some (p', t', g') | _ \<Rightarrow> None))))"

definition reference_surface :: "bool \<Rightarrow> surface \<Rightarrow> surface \<Rightarrow> surface \<Rightarrow> surface" where
  "reference_surface forward p t g =
     (if forward then dict_merge p (filter (\<lambda>(k, v). map_of p k = None) t) else g)"

text \<open>The loop over the units: findings, matched changes, units evaluated.\<close>

fun evaluate_units ::
    "surf_reader \<Rightarrow> bool \<Rightarrow> units \<Rightarrow> (api_finding list \<times> nat \<times> string list) result" where
  "evaluate_units surf forward [] = Inr ([], 0, [])"
| "evaluate_units surf forward ((unit, lang, files) # us) =
     bind_result (unit_surfaces surf unit lang) (\<lambda>s. case s of
        None \<Rightarrow> evaluate_units surf forward us
      | Some (p, t, g) \<Rightarrow>
          bind_result (evaluate_units surf forward us) (\<lambda>(findings, matched, evaluated).
            let (found, same) = compare unit p t (reference_surface forward p t g)
            in Inr (found @ findings, same + matched, unit # evaluated)))"

definition evaluate_api :: "surf_reader \<Rightarrow> bool \<Rightarrow> string list \<Rightarrow> api_run result" where
  "evaluate_api surf forward changed =
     (let units = sort_key fst (units_for changed) in
      if units = [] then ApiRun None [] [] 0
      else bind_result (evaluate_units surf forward units) (\<lambda>(findings, matched, evaluated).
        if evaluated = [] then ApiRun None [] [] 0
        else ApiRun (Some (findings = [])) evaluated findings matched))"

subsection \<open>Lemmas\<close>

text \<open>A symbol the trial changed in a way the reference does not mirror.\<close>

definition unmirrored :: "surface \<Rightarrow> surface \<Rightarrow> surface \<Rightarrow> string \<Rightarrow> bool" where
  "unmirrored p t g k \<longleftrightarrow> map_of t k \<noteq> map_of p k \<and> map_of g k \<noteq> map_of t k"

lemma compare_syms_findings:
  "map af_symbol (fst (compare_syms unit p t g syms)) = filter (unmirrored p t g) syms"
  by (induction syms) (auto simp: unmirrored_def Let_def split: prod.splits)

lemma compare_syms_matched:
  "snd (compare_syms unit p t g syms) =
     count_if (\<lambda>k. map_of t k \<noteq> map_of p k \<and> map_of g k = map_of t k) syms"
  by (induction syms) (auto simp: Let_def split: prod.splits)

lemma unmirrored_in_syms: "unmirrored p t g k \<Longrightarrow> k \<in> set (map fst p @ map fst t)"
  by (cases "map_of p k"; cases "map_of t k")
    (auto simp: unmirrored_def dest!: map_of_SomeD intro: rev_image_eqI)

lemma compare_findings:
  "set (map af_symbol (fst (compare unit p t g))) = {k. unmirrored p t g k}"
  using unmirrored_in_syms by (auto simp: compare_def compare_syms_findings simp del: set_map)

lemma compare_clean_iff: "fst (compare unit p t g) = [] \<longleftrightarrow> (\<nexists>k. unmirrored p t g k)"
  using compare_findings [of unit p t g] by (auto simp del: set_map)

lemma unmirrored_forward:
  "unmirrored p t (reference_surface True p t g) k \<longleftrightarrow>
     map_of p k \<noteq> None \<and> map_of t k \<noteq> map_of p k"
  by (cases "map_of p k") (auto simp: unmirrored_def reference_surface_def map_of_dict_merge
      map_add_def map_of_filter_key split: option.splits)

text \<open>A unit whose three surfaces could be read, with an unmirrored symbol or with none.\<close>

definition unit_read :: "surf_reader \<Rightarrow> string \<times> string \<times> string list \<Rightarrow> bool" where
  "unit_read surf u = (case u of (unit, lang, fs) \<Rightarrow>
     case unit_surfaces surf unit lang of Inr (Some _) \<Rightarrow> True | _ \<Rightarrow> False)"

definition unit_flagged :: "surf_reader \<Rightarrow> bool \<Rightarrow> string \<times> string \<times> string list \<Rightarrow> bool" where
  "unit_flagged surf fwd u = (case u of (unit, lang, fs) \<Rightarrow>
     case unit_surfaces surf unit lang of
       Inr (Some (p, t, g)) \<Rightarrow> \<not> (fst (compare unit p t (reference_surface fwd p t g)) = [])
     | _ \<Rightarrow> False)"

lemma evaluate_units_verdict:
  "evaluate_units surf fwd us = Inr (findings, matched, evaluated) \<Longrightarrow>
     (evaluated = [] \<longleftrightarrow> \<not> list_ex (unit_read surf) us) \<and>
     (findings = [] \<longleftrightarrow> \<not> list_ex (unit_flagged surf fwd) us)"
proof (induction us arbitrary: findings matched evaluated)
  case Nil
  then show ?case by simp
next
  case (Cons u us)
  obtain unit lang fs where u: "u = (unit, lang, fs)" by (cases u) auto
  show ?case
  proof (cases "unit_surfaces surf unit lang")
    case (Inl e)
    with Cons.prems u show ?thesis by simp
  next
    case (Inr s)
    show ?thesis
    proof (cases s)
      case None
      with Inr u Cons show ?thesis by (auto simp: unit_read_def unit_flagged_def)
    next
      case (Some ptg)
      obtain p t g where ptg: "ptg = (p, t, g)" by (cases ptg) auto
      with Some Inr u Cons.prems obtain fs' m' ev' where
        r: "evaluate_units surf fwd us = Inr (fs', m', ev')"
        and f: "findings = fst (compare unit p t (reference_surface fwd p t g)) @ fs'"
        and e: "evaluated = unit # ev'"
        by (cases "compare unit p t (reference_surface fwd p t g)") auto
      from Cons.IH [OF r] f e Some Inr u ptg show ?thesis
        by (auto simp: unit_read_def unit_flagged_def)
    qed
  qed
qed

lemma list_ex_triple: "list_ex P xs \<longleftrightarrow> (\<exists>a b c. (a, b, c) \<in> set xs \<and> P (a, b, c))"
  by (induction xs) auto

lemma flagged_read: "unit_flagged surf fwd u \<Longrightarrow> unit_read surf u"
  by (auto simp: unit_read_def unit_flagged_def split: prod.splits sum.splits option.splits)

lemma unit_flagged_iff:
  "unit_flagged surf fwd (unit, lang, fs) \<longleftrightarrow>
     (\<exists>p t g. unit_surfaces surf unit lang = Inr (Some (p, t, g)) \<and>
       (\<exists>k. unmirrored p t (reference_surface fwd p t g) k))"
  by (auto simp: unit_flagged_def compare_clean_iff split: sum.splits option.splits)

lemma evaluate_api_ok:
  assumes "evaluate_api surf fwd changed = Inr run"
  shows "ar_ok run =
    (if list_ex (unit_flagged surf fwd) (units_for changed) then Some False
     else if list_ex (unit_read surf) (units_for changed) then Some True else None)"
proof (cases "sort_key fst (units_for changed) = []")
  case True
  then have "units_for changed = []" by (metis length_0_conv length_sort)
  with assms show ?thesis by (simp add: evaluate_api_def ApiRun_def)
next
  case False
  from assms False obtain f m ev where
    r: "evaluate_units surf fwd (sort_key fst (units_for changed)) = Inr (f, m, ev)"
    by (auto simp: evaluate_api_def Let_def)
  have v: "(ev = [] \<longleftrightarrow> \<not> list_ex (unit_read surf) (units_for changed)) \<and>
      (f = [] \<longleftrightarrow> \<not> list_ex (unit_flagged surf fwd) (units_for changed))"
    using evaluate_units_verdict [OF r] by (simp add: list_ex_iff)
  have "list_ex (unit_flagged surf fwd) (units_for changed) \<Longrightarrow> list_ex (unit_read surf) (units_for changed)"
    unfolding list_ex_iff using flagged_read by blast
  then show ?thesis using assms False r v
    by (auto simp: evaluate_api_def Let_def ApiRun_def split: if_splits)
qed

subsection \<open>Properties\<close>

text \<open>
  Belt 6 says exactly what the surfaces say. When \<open>evaluate\<close> returns, its verdict is
  \<open>False\<close> iff some public unit was readable in all three trees and holds a symbol the trial
  changed and the gold did not change the same way; it is \<open>True\<close> iff some unit was readable and
  none holds such a symbol; else it is not evaluated. The cap on kept findings never decides it.
\<close>

theorem evaluate_api_verdict:
  assumes "evaluate_api surf False changed = Inr run"
  shows "(ar_ok run = Some False \<longleftrightarrow> (\<exists>unit lang fs p t g k. (unit, lang, fs) \<in> set (units_for changed) \<and>
      unit_surfaces surf unit lang = Inr (Some (p, t, g)) \<and>
      map_of t k \<noteq> map_of p k \<and> map_of g k \<noteq> map_of t k)) \<and>
    (ar_ok run = None \<longleftrightarrow> \<not> list_ex (unit_read surf) (units_for changed))"
proof -
  have r: "reference_surface False p t g = g" for p t g by (simp add: reference_surface_def)
  have f: "list_ex (unit_flagged surf False) (units_for changed) \<longleftrightarrow>
      (\<exists>unit lang fs p t g k. (unit, lang, fs) \<in> set (units_for changed) \<and>
      unit_surfaces surf unit lang = Inr (Some (p, t, g)) \<and> unmirrored p t g k)"
    unfolding list_ex_triple unit_flagged_iff r by blast
  have "list_ex (unit_flagged surf False) (units_for changed) \<Longrightarrow> list_ex (unit_read surf) (units_for changed)"
    unfolding list_ex_iff using flagged_read by blast
  then show ?thesis
    using evaluate_api_ok [OF assms] unfolding f [unfolded unmirrored_def, symmetric] by simp
qed

lemma evaluate_api_verdict_witness:
  "\<exists>run. evaluate_api (\<lambda>tree unit lang. Inr (Some (case tree of TREE_PARENT \<Rightarrow> [(''f'', ''f()'')]
        | TREE_TRIAL \<Rightarrow> [(''f'', ''f(x)'')] | TREE_GOLD \<Rightarrow> [(''f'', ''f()'')]))) False [''a.py''] = Inr run \<and>
     ar_ok run = Some False"
proof -
  let ?surf = "\<lambda>tree unit lang. Inr (Some (case tree of TREE_PARENT \<Rightarrow> [(''f'', ''f()'')]
        | TREE_TRIAL \<Rightarrow> [(''f'', ''f(x)'')] | TREE_GOLD \<Rightarrow> [(''f'', ''f()'')]))"
  have u: "units_for [''a.py''] = [(''a.py'', LANG_PYTHON, [''a.py''])]"
    by code_simp
  have "\<exists>run. evaluate_api ?surf False [''a.py''] = Inr run"
    by (simp add: evaluate_api_def u Let_def unit_surfaces_def reference_surface_def compare_def
        ApiRun_def MAX_FINDINGS_def)
  then obtain run where run: "evaluate_api ?surf False [''a.py''] = Inr run" by blast
  have "ar_ok run = Some False"
    using evaluate_api_verdict [OF run] by (auto simp: u unit_surfaces_def)
  with run show ?thesis by blast
qed

text \<open>
  Forward mode (the factory, which has no gold) never flags an addition: a unit fails only
  for a public symbol of the parent that the change altered or removed.
\<close>

theorem forward_never_flags_additions:
  assumes "evaluate_api surf True changed = Inr run"
  shows "ar_ok run = Some False \<longleftrightarrow> (\<exists>unit lang fs p t g k. (unit, lang, fs) \<in> set (units_for changed) \<and>
      unit_surfaces surf unit lang = Inr (Some (p, t, g)) \<and>
      map_of p k \<noteq> None \<and> map_of t k \<noteq> map_of p k)"
proof -
  have f: "list_ex (unit_flagged surf True) (units_for changed) \<longleftrightarrow>
      (\<exists>unit lang fs p t g k. (unit, lang, fs) \<in> set (units_for changed) \<and>
      unit_surfaces surf unit lang = Inr (Some (p, t, g)) \<and>
      map_of p k \<noteq> None \<and> map_of t k \<noteq> map_of p k)"
    unfolding list_ex_triple unit_flagged_iff unmirrored_forward by blast
  show ?thesis using evaluate_api_ok [OF assms] unfolding f [symmetric] by simp
qed

lemma forward_never_flags_additions_witness:
  "\<exists>run. evaluate_api (\<lambda>tree unit lang. Inr (Some (case tree of TREE_PARENT \<Rightarrow> []
        | TREE_TRIAL \<Rightarrow> [(''f'', ''f(x)'')] | TREE_GOLD \<Rightarrow> []))) True [''a.py''] = Inr run \<and>
     ar_ok run \<noteq> Some False"
proof -
  let ?surf = "\<lambda>tree unit lang. Inr (Some (case tree of TREE_PARENT \<Rightarrow> []
        | TREE_TRIAL \<Rightarrow> [(''f'', ''f(x)'')] | TREE_GOLD \<Rightarrow> []))"
  have u: "units_for [''a.py''] = [(''a.py'', LANG_PYTHON, [''a.py''])]"
    by code_simp
  have "\<exists>run. evaluate_api ?surf True [''a.py''] = Inr run"
    by (simp add: evaluate_api_def u Let_def unit_surfaces_def reference_surface_def compare_def
        ApiRun_def MAX_FINDINGS_def dict_merge_def)
  then obtain run where run: "evaluate_api ?surf True [''a.py''] = Inr run" by blast
  have "ar_ok run \<noteq> Some False"
    using forward_never_flags_additions [OF run] by (auto simp: u unit_surfaces_def)
  with run show ?thesis by blast
qed

end
