(* ===== verification/Grade.thy ===== *)
theory Grade
  imports Context_Arm Lint Api_Surface
begin

section \<open>The grader (\<open>crb/core/grade.py\<close>)\<close>

text \<open>
  The belts of a grade, the record it leaves and what its constructor refuses, and \<open>grade()\<close>
  itself: the checks before any test runs, the belts in order, the witness a blamed verdict
  needs, and the handler that turns an exception into a recorded non-pass.

  \<open>grade_in\<close> holds the arguments of \<open>grade()\<close> and what each call it makes on the workspace,
  the runner, the dependency binding and the witness returns (or the exception it raises). The
  local variables a raise leaves behind, which the handler reads, are the record \<open>gstate\<close>.
  An error text is a value of \<open>grade_error\<close> and a disqualification reason one of \<open>dq_reason\<close>;
  notes, durations, events and the diff statistics are not modelled.
\<close>

subsection \<open>Belts\<close>

record belts =
  tests_unmodified :: "bool option"
  target_green :: "bool option"
  no_new_failures :: "bool option"
  source_changed :: "bool option"
  repo_lint_clean :: "bool option"
  api_stable :: "bool option"

definition no_belts :: belts where
  "no_belts = \<lparr>tests_unmodified = None, target_green = None, no_new_failures = None,
     source_changed = None, repo_lint_clean = None, api_stable = None\<rparr>"

definition all_true :: "belts \<Rightarrow> bool" where
  "all_true b \<longleftrightarrow> tests_unmodified b = Some True \<and> target_green b = Some True \<and>
     no_new_failures b = Some True \<and> source_changed b = Some True \<and>
     repo_lint_clean b \<noteq> Some False \<and> api_stable b \<noteq> Some False"

subsection \<open>What a blamed verdict may name\<close>

definition BLAME_GOLD_GREEN :: string where "BLAME_GOLD_GREEN = ''gold_green''"
definition BLAME_ENV_PROBE :: string where "BLAME_ENV_PROBE = ''env_probe''"
definition BLAME_NO_SOURCE :: string where "BLAME_NO_SOURCE = ''no_source''"
definition BLAME_LINT_GOLD_OK :: string where "BLAME_LINT_GOLD_OK = ''lint_gold_ok''"
definition BLAME_API_DIFF :: string where "BLAME_API_DIFF = ''api_diff''"
definition BLAME_UNWITNESSED :: string where "BLAME_UNWITNESSED = ''unwitnessed''"

definition BLAME_CONTROLS :: "string list" where
  "BLAME_CONTROLS = [BLAME_GOLD_GREEN, BLAME_ENV_PROBE, BLAME_NO_SOURCE, BLAME_LINT_GOLD_OK,
     BLAME_API_DIFF]"

definition ENV_CODE_GOLD_CONTROL_RED :: string where
  "ENV_CODE_GOLD_CONTROL_RED = ''GOLD_CONTROL_RED''"

definition ENV_CODE_GOLD_LINT :: string where
  "ENV_CODE_GOLD_LINT = ''GOLD_LINT_RED''"

definition ENV_CODE_LINT_UNWITNESSED :: string where
  "ENV_CODE_LINT_UNWITNESSED = ''LINT_UNWITNESSED''"

definition ENV_CODE_TEST_RUN :: string where
  "ENV_CODE_TEST_RUN = ''TEST_RUN_ENVIRONMENT''"

record control_run =
  cr_kind :: string
  cr_green :: bool

subsection \<open>The result\<close>

record test_run =
  tr_returncode :: int
  tr_failing :: "string list"
  tr_timed_out :: bool
  tr_parse_error :: string
  tr_env_error :: string
  tr_passed :: "string list option"

definition green :: "test_run \<Rightarrow> bool" where
  "green r \<longleftrightarrow> tr_returncode r = 0 \<and> \<not> tr_timed_out r \<and> tr_parse_error r = []"

datatype grade_error =
    HarnessError exn
  | EnvironmentError string
  | GoldControlRed
  | GoldLintRed
  | LintUnwitnessed
  | LintToolError lint_error

datatype dq_reason =
    DqWorktree
  | DqBlindTests
  | DqInfra
  | DqMalformedOracle
  | DqOtherTests
  | DqTargetModified
  | DqClosure
  | DqTrialTree

record grade_result =
  gr_mode :: string
  gr_clean :: bool
  gr_belts :: belts
  gr_dq_reason :: "dq_reason option"
  gr_error :: "grade_error option"
  gr_new_failures :: "string list"
  gr_tamper_files :: "string list"
  gr_changed_files :: "string list"
  gr_target_run :: "test_run option"
  gr_belt_run :: "test_run option"
  gr_lint_run :: "lint_run option"
  gr_api_run :: "api_run option"
  gr_posture_id :: string
  gr_posture_class :: string
  gr_qualification_id :: string
  gr_blame_control :: string
  gr_control :: "control_run option"
  gr_env_code :: string
  gr_lint_status :: string
  gr_touched_post_run :: "string list"

text \<open>\<open>disqualified\<close> is set exactly when \<open>dq_reason\<close> is, in every return of \<open>grade()\<close>.\<close>

definition gr_disqualified :: "grade_result \<Rightarrow> bool" where
  "gr_disqualified r \<longleftrightarrow> gr_dq_reason r \<noteq> None"

definition blamed :: "grade_result \<Rightarrow> bool" where
  "blamed r \<longleftrightarrow> (let b = gr_belts r in
     \<not> gr_clean r \<and> \<not> gr_disqualified r \<and> gr_error r = None \<and>
     (target_green b = Some False \<or> no_new_failures b = Some False \<or> source_changed b = Some False \<or>
      repo_lint_clean b = Some False \<or> api_stable b = Some False))"

definition MODES :: "string list" where
  "MODES = [MODE_SIGHTED, MODE_BLIND]"

definition GradeResult :: "grade_result \<Rightarrow> grade_result result" where
  "GradeResult r = guarded
     [(gr_mode r \<notin> set MODES, ValueError ''mode''),
      (gr_lint_status r \<noteq> [] \<and>
        lint_status_violation (gr_lint_status r) (repo_lint_clean (gr_belts r)) (gr_clean r) \<noteq> None,
        ValueError ''lint_status''),
      (gr_clean r \<and> \<not> (all_true (gr_belts r) \<and> \<not> gr_disqualified r \<and> gr_error r = None),
        FalseQ1Violation ''clean grade''),
      (gr_blame_control r \<noteq> [] \<and> gr_blame_control r \<notin> set (BLAME_CONTROLS @ [BLAME_UNWITNESSED]),
        ValueError ''blame_control''),
      (blamed r \<and> gr_blame_control r = [], MisattributionViolation ''blame without witness'')] r"

definition derive_clean :: "belts \<Rightarrow> bool \<Rightarrow> bool \<Rightarrow> bool" where
  "derive_clean b disqualified error \<longleftrightarrow>
     tests_unmodified b = Some True \<and> target_green b = Some True \<and>
     no_new_failures b = Some True \<and> source_changed b = Some True \<and>
     repo_lint_clean b \<noteq> Some False \<and> api_stable b \<noteq> Some False \<and> \<not> disqualified \<and> \<not> error"

subsection \<open>The inputs of a grade\<close>

record qualification =
  q_id :: string
  q_posture_id :: string
  q_task_id :: string
  q_baseline_failing :: "string list"
  q_baseline_flaky :: "string list"
  q_gold_target_passed :: "string list option"
  q_gold_lint :: pyval
  q_red_failing :: "string list"

definition baseline :: "qualification \<Rightarrow> string list" where
  "baseline q = q_baseline_failing q @ q_baseline_flaky q"

record grade_task =
  tk_id :: string
  tk_test_files :: "string list"
  tk_target_tests :: "string list"
  tk_belt_scope :: "string list"
  tk_posture_id :: string
  tk_qualification_ref :: string

type_synonym witness = "string list \<Rightarrow> string list option \<Rightarrow> control_run result"

record grade_ctx =
  gc_posture_id :: string
  gc_posture_class :: string
  gc_executor :: string
  gc_qualification :: qualification
  gc_witness :: "witness option"

record grade_in =
  gi_task :: grade_task
  gi_ctx :: grade_ctx
  gi_mode :: string
  gi_evaluate_lint :: bool
  gi_evaluate_api :: bool
  gi_api_forward :: bool
  gi_executor_name :: string
  gi_integrity :: "string list list result"  \<comment> \<open>\<open>ws.enforce_integrity()\<close>: the files of each violation\<close>
  gi_touched :: "string list result"  \<comment> \<open>\<open>ws.touched_files()\<close> before any test ran\<close>
  gi_rule :: "string \<Rightarrow> bool option"  \<comment> \<open>\<open>matching_rule\<close>: no rule, or a rule and its \<open>partial\<close>\<close>
  gi_tamper_suffix :: "string \<Rightarrow> bool"
  gi_framework :: "string \<Rightarrow> bool result"  \<comment> \<open>\<open>framework_tamper\<close> of the two texts\<close>
  gi_sections :: "string \<Rightarrow> bool result"  \<comment> \<open>\<open>infra_sections_changed\<close>\<close>
  gi_is_test :: "string \<Rightarrow> bool"  \<comment> \<open>\<open>config.is_test\<close>\<close>
  gi_overlay :: "unit result"
  gi_valid_oracle :: "string \<Rightarrow> bool result"
  gi_harness_unchanged :: "string \<Rightarrow> bool result"
  gi_byte_identical :: "(bool \<times> string list) result"
  gi_binding :: "unit result"
  gi_diff :: "unit result"
  gi_target_run :: "test_run result"
  gi_belt_run :: "test_run result"
  gi_lint_plan :: "lint_plan option result"
  gi_lint_config :: "(string \<times> pyval) list option"
  gi_exists :: "string \<Rightarrow> bool result"
  gi_rel :: "string \<Rightarrow> string option"
  gi_exec :: executor
  gi_surf :: surf_reader
  gi_touched_post :: "string list result"  \<comment> \<open>\<open>ws.touched_files()\<close> when a return reads it\<close>
  gi_touched_error :: "string list result"  \<comment> \<open>the same, when the handler reads it\<close>

subsection \<open>Helpers\<close>

fun filter_result :: "('a \<Rightarrow> bool result) \<Rightarrow> 'a list \<Rightarrow> 'a list result" where
  "filter_result p [] = Inr []"
| "filter_result p (x # xs) =
     bind_result (p x) (\<lambda>b. bind_result (filter_result p xs) (\<lambda>ys. Inr (if b then x # ys else ys)))"

definition infra_file :: "grade_in \<Rightarrow> string \<Rightarrow> bool result" where
  "infra_file g rel =
     (if rel \<in> set (tk_test_files (gi_task g)) then Inr False
      else case gi_rule g rel of
        None \<Rightarrow> if gi_tamper_suffix g rel then gi_framework g rel else Inr False
      | Some partial \<Rightarrow> if partial then gi_sections g rel else Inr True)"

definition infra_tampered :: "grade_in \<Rightarrow> string list \<Rightarrow> string list result" where
  "infra_tampered g touched = bind_result (filter_result (infra_file g) touched) (\<lambda>out. Inr (sort out))"

definition met :: "string list \<Rightarrow> string \<Rightarrow> bool" where
  "met passed test_id \<longleftrightarrow> test_id \<in> set passed \<or> list_ex (\<lambda>p. starts_with p (test_id @ ''::'')) passed"

text \<open>Whether a target run that exited 0 still does not hold belt 2.\<close>

definition target_shortfall :: "test_run \<Rightarrow> qualification \<Rightarrow> bool" where
  "target_shortfall run q = (case tr_passed run of
       None \<Rightarrow> False
     | Some passed \<Rightarrow>
         (case q_gold_target_passed q of
            Some gold_passed \<Rightarrow> filter (\<lambda>i. i \<notin> set passed) gold_passed \<noteq> []
          | None \<Rightarrow>
              if q_red_failing q = [] \<and> passed = [] then True
              else filter (\<lambda>i. \<not> met passed i) (q_red_failing q) \<noteq> []))"

definition posture_problems :: "grade_in \<Rightarrow> bool list" where
  "posture_problems g = (let t = gi_task g; c = gi_ctx g; q = gc_qualification c in
     [tk_posture_id t = [] \<or> tk_qualification_ref t = [],
      tk_posture_id t \<noteq> gc_posture_id c,
      q_posture_id q \<noteq> gc_posture_id c,
      tk_qualification_ref t \<noteq> q_id q,
      q_task_id q \<noteq> tk_id t,
      gc_executor c \<noteq> gi_executor_name g])"

definition check_posture :: "grade_in \<Rightarrow> unit result" where
  "check_posture g = guarded [(list_ex (\<lambda>b. b) (posture_problems g), PostureMismatch)] ()"

subsection \<open>Returning\<close>

record gstate =
  gs_belts :: belts
  gs_lint_status :: string
  gs_tests_ran :: bool
  gs_touched_pre :: "string list"

type_synonym 'a graded = "(exn \<times> gstate) + 'a"

definition attempt :: "gstate \<Rightarrow> 'a result \<Rightarrow> ('a \<Rightarrow> 'b graded) \<Rightarrow> 'b graded" where
  "attempt st m k = (case m of Inl e \<Rightarrow> Inl (e, st) | Inr x \<Rightarrow> k x)"

definition post_run :: "string list result \<Rightarrow> string list \<Rightarrow> string list" where
  "post_run seen pre = (case seen of
       Inl _ \<Rightarrow> []
     | Inr post \<Rightarrow> take 200 (sort (filter (\<lambda>f. f \<notin> set pre) post)))"

type_synonym changes = "grade_result \<Rightarrow> grade_result"

definition base_result :: "grade_in \<Rightarrow> string list result \<Rightarrow> gstate \<Rightarrow> grade_result" where
  "base_result g seen st =
     \<lparr>gr_mode = gi_mode g, gr_clean = False, gr_belts = gs_belts st, gr_dq_reason = None,
      gr_error = None, gr_new_failures = [], gr_tamper_files = [], gr_changed_files = [],
      gr_target_run = None, gr_belt_run = None, gr_lint_run = None, gr_api_run = None,
      gr_posture_id = gc_posture_id (gi_ctx g), gr_posture_class = gc_posture_class (gi_ctx g),
      gr_qualification_id = q_id (gc_qualification (gi_ctx g)),
      gr_blame_control = [], gr_control = None, gr_env_code = [],
      gr_lint_status = gs_lint_status st,
      gr_touched_post_run = (if gs_tests_ran st then post_run seen (gs_touched_pre st) else [])\<rparr>"

definition done_with :: "grade_in \<Rightarrow> gstate \<Rightarrow> changes \<Rightarrow> grade_result graded" where
  "done_with g st ch =
     attempt st (GradeResult (ch (base_result g (gi_touched_post g) st))) Inr"

definition disqualify :: "dq_reason \<Rightarrow> string list \<Rightarrow> changes" where
  "disqualify why files r = r\<lparr>gr_dq_reason := Some why, gr_tamper_files := take 50 files\<rparr>"

definition set_belts :: "belts \<Rightarrow> gstate \<Rightarrow> gstate" where
  "set_belts b st = st\<lparr>gs_belts := b\<rparr>"

subsection \<open>Whose failure it is\<close>

datatype blame =
    BlameControl string "control_run option"
  | BlameEnvironment grade_error string "control_run option"

definition apply_blame :: "blame \<Rightarrow> changes" where
  "apply_blame b r = (case b of
       BlameControl kind c \<Rightarrow> r\<lparr>gr_blame_control := kind, gr_control := c\<rparr>
     | BlameEnvironment e code c \<Rightarrow> r\<lparr>gr_error := Some e, gr_env_code := code, gr_control := c\<rparr>)"

definition ask_witness :: "grade_in \<Rightarrow> string list \<Rightarrow> string list option \<Rightarrow> blame result" where
  "ask_witness g scope allow_failing = (case gc_witness (gi_ctx g) of
       None \<Rightarrow> Inr (BlameControl BLAME_UNWITNESSED None)
     | Some w \<Rightarrow> bind_result (w scope allow_failing) (\<lambda>run.
         Inr (if cr_green run then BlameControl (cr_kind run) (Some run)
              else BlameEnvironment GoldControlRed ENV_CODE_GOLD_CONTROL_RED (Some run))))"

definition lint_blame :: "grade_in \<Rightarrow> pyval \<Rightarrow> blame result" where
  "lint_blame g gold_lint = (case gold_lint of
       PBool True \<Rightarrow> Inr (BlameControl BLAME_LINT_GOLD_OK None)
     | PBool False \<Rightarrow> Inr (BlameEnvironment GoldLintRed ENV_CODE_GOLD_LINT None)
     | PNone \<Rightarrow> (case gc_witness (gi_ctx g) of
          None \<Rightarrow> Inr (BlameControl BLAME_UNWITNESSED None)
        | Some _ \<Rightarrow> Inr (BlameEnvironment LintUnwitnessed ENV_CODE_LINT_UNWITNESSED None))
     | _ \<Rightarrow> Inl (MisattributionViolation ''gold lint verdict''))"

definition environment ::
    "grade_in \<Rightarrow> gstate \<Rightarrow> test_run \<Rightarrow> string list \<Rightarrow> string list option \<Rightarrow> changes \<Rightarrow> grade_result graded" where
  "environment g st run scope allow_failing ch =
     (let plain = done_with g st (\<lambda>r. ch (r\<lparr>gr_error := Some (EnvironmentError (tr_env_error run)),
                    gr_env_code := ENV_CODE_TEST_RUN\<rparr>))
      in case gc_witness (gi_ctx g) of
           None \<Rightarrow> plain
         | Some _ \<Rightarrow> attempt st (ask_witness g scope allow_failing) (\<lambda>b. case b of
               BlameControl kind (Some c) \<Rightarrow>
                 done_with g st (\<lambda>r. ch ((disqualify DqTrialTree [] r)\<lparr>gr_control := Some c\<rparr>))
             | BlameEnvironment e code c \<Rightarrow> done_with g st (ch \<circ> apply_blame b)
             | BlameControl kind None \<Rightarrow> plain))"

subsection \<open>Belts 2 to 6\<close>

definition lint_step5 :: "grade_in \<Rightarrow> string list \<Rightarrow> lint_run option result" where
  "lint_step5 g changed =
     bind_result (if gi_evaluate_lint g then gi_lint_plan g else Inr None) (\<lambda>plan. case plan of
         None \<Rightarrow> Inr None
       | Some p \<Rightarrow> bind_result (filter_result (gi_exists g) changed) (\<lambda>present.
           bind_result (run_plan (gi_rel g) (gi_exec g) p present) (\<lambda>r. Inr (Some r))))"

definition api_step6 :: "grade_in \<Rightarrow> string list \<Rightarrow> api_run option result" where
  "api_step6 g changed = (if gi_evaluate_api g
     then bind_result (evaluate_api (gi_surf g) (gi_api_forward g) changed) (\<lambda>r. Inr (Some r))
     else Inr None)"

definition final_blame :: "grade_in \<Rightarrow> belts \<Rightarrow> lint_error option \<Rightarrow> blame option result" where
  "final_blame g b lint_err =
     (if all_true b \<or> lint_err \<noteq> None then Inr None
      else if no_new_failures b = Some False then
        bind_result (ask_witness g (tk_belt_scope (gi_task g)) (Some (baseline (gc_qualification (gi_ctx g)))))
          (\<lambda>x. Inr (Some x))
      else if source_changed b = Some False then Inr (Some (BlameControl BLAME_NO_SOURCE None))
      else if api_stable b = Some False then Inr (Some (BlameControl BLAME_API_DIFF None))
      else if repo_lint_clean b = Some False then
        bind_result (lint_blame g (q_gold_lint (gc_qualification (gi_ctx g)))) (\<lambda>x. Inr (Some x))
      else Inr None)"

definition grade_final ::
    "grade_in \<Rightarrow> gstate \<Rightarrow> string list \<Rightarrow> test_run \<Rightarrow> test_run \<Rightarrow> string list \<Rightarrow> grade_result graded" where
  "grade_final g st changed target_run belt_run new =
     attempt st (lint_step5 g changed) (\<lambda>lint_run.
       let lint_err = (case lint_run of None \<Rightarrow> None | Some r \<Rightarrow> lr_error r);
           st1 = (if gi_evaluate_lint g
                  then st\<lparr>gs_lint_status := lint_status lint_run (lint_disabled (gi_lint_config g))\<rparr> else st);
           post = post_run (gi_touched_post g) (gs_touched_pre st)
       in attempt st1 (api_step6 g changed) (\<lambda>api_run.
       let b = (gs_belts st)\<lparr>repo_lint_clean := (case lint_run of None \<Rightarrow> None | Some r \<Rightarrow> lr_ok r),
                  api_stable := (case api_run of None \<Rightarrow> None | Some r \<Rightarrow> ar_ok r)\<rparr>;
           st2 = set_belts b st1
       in attempt st2 (final_blame g b lint_err) (\<lambda>bl.
         done_with g st2 (\<lambda>r. (case bl of None \<Rightarrow> (\<lambda>r. r) | Some x \<Rightarrow> apply_blame x)
           (r\<lparr>gr_clean := (all_true b \<and> lint_err = None),
              gr_error := map_option LintToolError lint_err,
              gr_new_failures := take 50 new, gr_changed_files := take 200 changed,
              gr_target_run := Some target_run, gr_belt_run := Some belt_run,
              gr_lint_run := lint_run, gr_api_run := api_run, gr_touched_post_run := post\<rparr>)))))"

definition belts_to :: "bool option \<Rightarrow> bool option \<Rightarrow> bool option \<Rightarrow> bool option \<Rightarrow> belts" where
  "belts_to b1 b2 b3 b4 = no_belts\<lparr>tests_unmodified := b1, target_green := b2, no_new_failures := b3,
     source_changed := b4\<rparr>"

definition new_failures :: "test_run \<Rightarrow> string list \<Rightarrow> string list" where
  "new_failures belt_run base = (if tr_timed_out belt_run \<or> tr_parse_error belt_run \<noteq> [] then []
     else sort (remdups (filter (\<lambda>f. f \<notin> set base) (tr_failing belt_run))))"

definition no_new :: "test_run \<Rightarrow> string list \<Rightarrow> bool" where
  "no_new belt_run base \<longleftrightarrow> \<not> (tr_timed_out belt_run \<or> tr_parse_error belt_run \<noteq> []) \<and>
     new_failures belt_run base = []"

definition grade_belt3 ::
    "grade_in \<Rightarrow> gstate \<Rightarrow> string list \<Rightarrow> test_run \<Rightarrow> grade_result graded" where
  "grade_belt3 g st changed target_run =
     (let base = baseline (gc_qualification (gi_ctx g)) in
      attempt st (gi_belt_run g) (\<lambda>belt_run.
        if tr_env_error belt_run \<noteq> [] then
          environment g (set_belts (belts_to (Some True) (Some True) None None) st) belt_run
            (tk_belt_scope (gi_task g)) (Some base)
            (\<lambda>r. r\<lparr>gr_target_run := Some target_run, gr_belt_run := Some belt_run\<rparr>)
        else grade_final g (set_belts (belts_to (Some True) (Some True) (Some (no_new belt_run base))
                 (Some (changed \<noteq> []))) st) changed target_run belt_run (new_failures belt_run base)))"

definition grade_target :: "grade_in \<Rightarrow> gstate \<Rightarrow> string list \<Rightarrow> grade_result graded" where
  "grade_target g st0 changed =
     (let st = st0\<lparr>gs_tests_ran := True\<rparr>; scope = tk_target_tests (gi_task g) in
      attempt st (gi_target_run g) (\<lambda>target_run.
        if tr_env_error target_run \<noteq> [] then
          environment g (set_belts (belts_to (Some True) None None None) st) target_run scope None
            (\<lambda>r. r\<lparr>gr_target_run := Some target_run\<rparr>)
        else
          let ok = green target_run \<and> \<not> target_shortfall target_run (gc_qualification (gi_ctx g));
              st1 = set_belts (belts_to (Some True) (Some ok) None None) st
          in if \<not> ok then
               attempt st1 (ask_witness g scope None) (\<lambda>b. done_with g st1 (\<lambda>r. apply_blame b
                 (r\<lparr>gr_target_run := Some target_run, gr_changed_files := take 200 changed\<rparr>)))
             else grade_belt3 g st1 changed target_run))"

subsection \<open>Before the first test runs\<close>

definition is_task_file :: "grade_in \<Rightarrow> string \<Rightarrow> bool" where
  "is_task_file g f \<longleftrightarrow> f \<in> set (tk_test_files (gi_task g))"

definition is_oracle_file :: "grade_in \<Rightarrow> string \<Rightarrow> bool" where
  "is_oracle_file g t = (let targets = set (tk_target_tests (gi_task g));
       file_targets = targets \<noteq> {} \<and> targets \<subseteq> set (tk_test_files (gi_task g))
     in t \<in> targets \<or> \<not> file_targets)"

definition bad_oracles :: "grade_in \<Rightarrow> string list result" where
  "bad_oracles g = filter_result (\<lambda>t. bind_result (gi_valid_oracle g t) (\<lambda>v. Inr (\<not> v)))
     (filter (is_oracle_file g) (tk_test_files (gi_task g)))"

definition other_tests :: "grade_in \<Rightarrow> string list \<Rightarrow> string list \<Rightarrow> string list result" where
  "other_tests g touched infra = bind_result
     (filter_result (\<lambda>f. bind_result (gi_harness_unchanged g f) (\<lambda>u. Inr (\<not> u)))
       (filter (\<lambda>f. \<not> is_task_file g f \<and> f \<notin> set infra \<and> gi_is_test g f) touched))
     (\<lambda>out. Inr (sort out))"

definition changed_source :: "grade_in \<Rightarrow> string list \<Rightarrow> string list" where
  "changed_source g touched = filter (\<lambda>f. \<not> is_task_file g f \<and> \<not> gi_is_test g f) touched"

definition grade_binding :: "grade_in \<Rightarrow> gstate \<Rightarrow> string list \<Rightarrow> grade_result graded" where
  "grade_binding g st touched = (case gi_binding g of
       Inl (ClosureViolation d) \<Rightarrow>
         done_with g (set_belts (belts_to (Some False) None None None) st) (disqualify DqClosure [])
     | Inl e \<Rightarrow> Inl (e, st)
     | Inr _ \<Rightarrow> attempt st (gi_diff g) (\<lambda>_. grade_target g st (changed_source g touched)))"

definition grade_belt1 :: "grade_in \<Rightarrow> gstate \<Rightarrow> string list \<Rightarrow> string list \<Rightarrow> grade_result graded" where
  "grade_belt1 g st touched infra =
     attempt st (gi_byte_identical g) (\<lambda>(ok, offending).
       let st1 = set_belts (belts_to (Some (ok \<and> infra = [])) None None None) st in
       if \<not> ok then done_with g st1 (disqualify DqTargetModified (offending @ infra))
       else if infra \<noteq> [] then done_with g st1 (disqualify DqInfra infra)
       else grade_binding g st1 touched)"

definition grade_oracle :: "grade_in \<Rightarrow> gstate \<Rightarrow> string list \<Rightarrow> string list \<Rightarrow> grade_result graded" where
  "grade_oracle g st touched infra =
     attempt st (bad_oracles g) (\<lambda>bad.
       if bad \<noteq> [] then done_with g st (disqualify DqMalformedOracle [])
       else attempt st (other_tests g touched infra) (\<lambda>others.
         if others \<noteq> [] then
           done_with g (set_belts (belts_to (Some False) None None None) st)
             (disqualify DqOtherTests (sort (remdups (others @ infra))))
         else grade_belt1 g st touched infra))"

definition grade_body :: "grade_in \<Rightarrow> gstate \<Rightarrow> grade_result graded" where
  "grade_body g st0 =
     (let tampered_st = set_belts (belts_to (Some False) None None None) in
      attempt st0 (gi_integrity g) (\<lambda>violations.
        if violations \<noteq> [] then
          done_with g (tampered_st st0) (disqualify DqWorktree (sort (remdups (concat violations))))
        else attempt st0 (gi_touched g) (\<lambda>touched.
          let st = st0\<lparr>gs_touched_pre := touched\<rparr> in
          attempt st (infra_tampered g touched) (\<lambda>infra.
            if gi_mode g = MODE_BLIND then
              (let tampered = filter (\<lambda>f. is_task_file g f \<or> gi_is_test g f) touched in
               if tampered \<noteq> [] then
                 done_with g (tampered_st st) (disqualify DqBlindTests (sort (remdups (tampered @ infra))))
               else if infra \<noteq> [] then done_with g (tampered_st st) (disqualify DqInfra infra)
               else attempt st (gi_overlay g) (\<lambda>_. grade_oracle g st touched infra))
            else grade_oracle g st touched infra))))"

definition grade :: "grade_in \<Rightarrow> grade_result result" where
  "grade g =
     (if gi_mode g \<notin> set MODES then Inl (ValueError ''mode'')
      else bind_result (check_posture g) (\<lambda>_.
        case grade_body g \<lparr>gs_belts = no_belts,
            gs_lint_status = (if gi_evaluate_lint g then LINT_NOT_REACHED else LINT_NOT_REQUESTED),
            gs_tests_ran = False, gs_touched_pre = []\<rparr> of
          Inr r \<Rightarrow> Inr r
        | Inl (e, st) \<Rightarrow>
            if e = SandboxUnavailable then Inl e
            else GradeResult ((base_result g (gi_touched_error g) st)\<lparr>gr_error := Some (HarnessError e)\<rparr>)))"

end
