(* ===== verification/Grade_Correct.thy ===== *)
theory Grade_Correct
  imports Grade
begin

section \<open>What a grade shows\<close>

text \<open>
  The properties of \<open>Grade.grade\<close>. A stage is read in three ways, each with one rule per
  combinator of the model: whether it ends in a clean grade (\<open>gives_clean\<close>), what holds of every
  state a raise leaves (\<open>raises_in\<close>), and what holds of every result it returns (\<open>returns\<close>). The
  abstract specification of a clean grade is \<open>clean_evidence\<close>, of a blame \<open>justified\<close>.
\<close>

subsection \<open>Reading a stage\<close>

text \<open>Two views of a stage: it ends in a clean grade, and a predicate holds of every state a
  raise leaves. Each has one rule per combinator.\<close>

definition gives_clean :: "grade_result graded \<Rightarrow> bool" where
  "gives_clean x \<longleftrightarrow> (\<exists>r. x = Inr r \<and> gr_clean r)"

definition raises_in :: "(gstate \<Rightarrow> bool) \<Rightarrow> 'a graded \<Rightarrow> bool" where
  "raises_in P x \<longleftrightarrow> (\<forall>e st. x = Inl (e, st) \<longrightarrow> P st)"

definition returns :: "(grade_result \<Rightarrow> bool) \<Rightarrow> grade_result graded \<Rightarrow> bool" where
  "returns Q x \<longleftrightarrow> (\<forall>r. x = Inr r \<longrightarrow> Q r)"

lemma gives_clean_attempt [simp]:
  "gives_clean (attempt st m k) \<longleftrightarrow> (\<exists>x. m = Inr x \<and> gives_clean (k x))"
  by (cases m) (auto simp: gives_clean_def attempt_def)

lemma gives_clean_Inl [simp]: "\<not> gives_clean (Inl e)"
  by (simp add: gives_clean_def)

lemma gives_clean_done:
  "gives_clean (done_with g st ch) \<longleftrightarrow>
     GradeResult (ch (base_result g (gi_touched_post g) st)) = Inr (ch (base_result g (gi_touched_post g) st)) \<and>
     gr_clean (ch (base_result g (gi_touched_post g) st))"
  by (auto simp: gives_clean_def done_with_def attempt_def GradeResult_def guarded_def split: option.splits)

lemma raises_attempt: "P st \<Longrightarrow> (\<And>x. m = Inr x \<Longrightarrow> raises_in P (k x)) \<Longrightarrow> raises_in P (attempt st m k)"
  by (cases m) (auto simp: raises_in_def attempt_def)

lemma raises_done: "P st \<Longrightarrow> raises_in P (done_with g st ch)"
  by (cases "GradeResult (ch (base_result g (gi_touched_post g) st))")
    (auto simp: raises_in_def done_with_def attempt_def)

lemma raises_Inl: "P st \<Longrightarrow> raises_in P (Inl (e, st))"
  by (simp add: raises_in_def)

lemma raises_if: "(b \<Longrightarrow> raises_in P x) \<Longrightarrow> (\<not> b \<Longrightarrow> raises_in P y) \<Longrightarrow> raises_in P (if b then x else y)"
  by simp

lemma returns_attempt: "(\<And>x. m = Inr x \<Longrightarrow> returns Q (k x)) \<Longrightarrow> returns Q (attempt st m k)"
  by (cases m) (auto simp: returns_def attempt_def)

lemma GradeResult_Inr: "GradeResult x = Inr r \<Longrightarrow> r = x"
  by (simp add: GradeResult_def)

lemma returns_done:
  "(GradeResult (ch (base_result g (gi_touched_post g) st)) = Inr (ch (base_result g (gi_touched_post g) st)) \<Longrightarrow>
     Q (ch (base_result g (gi_touched_post g) st))) \<Longrightarrow> returns Q (done_with g st ch)"
  using GradeResult_Inr
  by (cases "GradeResult (ch (base_result g (gi_touched_post g) st))")
    (auto simp: returns_def done_with_def attempt_def)

lemma returns_Inl: "returns Q (Inl e)"
  by (simp add: returns_def)

lemma returns_if: "(b \<Longrightarrow> returns Q x) \<Longrightarrow> (\<not> b \<Longrightarrow> returns Q y) \<Longrightarrow> returns Q (if b then x else y)"
  by simp

lemma base_result_simps [simp]:
  "gr_mode (base_result g seen st) = gi_mode g"
  "gr_clean (base_result g seen st) = False"
  "gr_belts (base_result g seen st) = gs_belts st"
  "gr_dq_reason (base_result g seen st) = None"
  "gr_error (base_result g seen st) = None"
  "gr_blame_control (base_result g seen st) = []"
  "gr_control (base_result g seen st) = None"
  "gr_env_code (base_result g seen st) = []"
  "gr_lint_status (base_result g seen st) = gs_lint_status st"
  by (simp_all add: base_result_def)

lemma set_belts_simps [simp]:
  "gs_belts (set_belts b st) = b"
  "gs_lint_status (set_belts b st) = gs_lint_status st"
  "gs_tests_ran (set_belts b st) = gs_tests_ran st"
  "gs_touched_pre (set_belts b st) = gs_touched_pre st"
  by (simp_all add: set_belts_def)

lemma belts_to_simps [simp]:
  "tests_unmodified (belts_to a b c d) = a"
  "target_green (belts_to a b c d) = b"
  "no_new_failures (belts_to a b c d) = c"
  "source_changed (belts_to a b c d) = d"
  "repo_lint_clean (belts_to a b c d) = None"
  "api_stable (belts_to a b c d) = None"
  by (simp_all add: belts_to_def no_belts_def)

lemma disqualify_simps [simp]:
  "gr_clean (disqualify w fs r) = gr_clean r"
  "gr_dq_reason (disqualify w fs r) = Some w"
  "gr_error (disqualify w fs r) = gr_error r"
  "gr_blame_control (disqualify w fs r) = gr_blame_control r"
  by (simp_all add: disqualify_def)

lemma apply_blame_simps [simp]:
  "gr_clean (apply_blame b r) = gr_clean r"
  "gr_dq_reason (apply_blame b r) = gr_dq_reason r"
  "gr_belts (apply_blame b r) = gr_belts r"
  "gr_mode (apply_blame b r) = gr_mode r"
  "gr_lint_status (apply_blame b r) = gr_lint_status r"
  by (cases b; simp add: apply_blame_def)+

subsection \<open>The specification of a clean grade\<close>

definition pre_run_evidence :: "grade_in \<Rightarrow> string list \<Rightarrow> bool" where
  "pre_run_evidence g touched \<longleftrightarrow>
     gi_integrity g = Inr [] \<and> gi_touched g = Inr touched \<and> infra_tampered g touched = Inr [] \<and>
     (gi_mode g = MODE_BLIND \<longrightarrow>
        filter (\<lambda>f. is_task_file g f \<or> gi_is_test g f) touched = [] \<and> gi_overlay g = Inr ()) \<and>
     bad_oracles g = Inr [] \<and> other_tests g touched [] = Inr [] \<and>
     (\<exists>off. gi_byte_identical g = Inr (True, off)) \<and> gi_binding g = Inr () \<and> gi_diff g = Inr ()"

definition target_evidence :: "grade_in \<Rightarrow> bool" where
  "target_evidence g \<longleftrightarrow> (\<exists>t. gi_target_run g = Inr t \<and> tr_env_error t = [] \<and> green t \<and>
     \<not> target_shortfall t (gc_qualification (gi_ctx g)))"

definition belt3_evidence :: "grade_in \<Rightarrow> bool" where
  "belt3_evidence g \<longleftrightarrow> (\<exists>b. gi_belt_run g = Inr b \<and> tr_env_error b = [] \<and>
     \<not> tr_timed_out b \<and> tr_parse_error b = [] \<and>
     set (tr_failing b) \<subseteq> set (baseline (gc_qualification (gi_ctx g))))"

definition lint_evidence :: "grade_in \<Rightarrow> string list \<Rightarrow> bool" where
  "lint_evidence g changed \<longleftrightarrow> (\<exists>run. lint_step5 g changed = Inr run \<and>
     (\<forall>r. run = Some r \<longrightarrow> lr_ok r \<noteq> Some False \<and> lr_error r = None \<and>
        (lint_disabled (gi_lint_config g) \<longrightarrow> lr_ok r = None)))"

definition api_evidence :: "grade_in \<Rightarrow> string list \<Rightarrow> bool" where
  "api_evidence g changed \<longleftrightarrow> (\<exists>run. api_step6 g changed = Inr run \<and>
     (\<forall>r. run = Some r \<longrightarrow> ar_ok r \<noteq> Some False))"

definition clean_evidence :: "grade_in \<Rightarrow> bool" where
  "clean_evidence g \<longleftrightarrow> gi_mode g \<in> set MODES \<and> check_posture g = Inr () \<and>
     (\<exists>touched. pre_run_evidence g touched \<and> target_evidence g \<and> belt3_evidence g \<and>
        changed_source g touched \<noteq> [] \<and> lint_evidence g (changed_source g touched) \<and>
        api_evidence g (changed_source g touched))"

subsection \<open>Each stage is clean exactly on its evidence\<close>

lemma clean_disqualify [simp]: "\<not> gives_clean (done_with g st (disqualify w fs))"
  by (simp add: gives_clean_done)

lemma clean_environment: "(\<And>r. gr_clean (ch r) = gr_clean r) \<Longrightarrow> \<not> gives_clean (environment g st run scope al ch)"
  by (simp add: environment_def gives_clean_done Let_def split: option.splits blame.splits)

lemma clean_environment_runs [simp]:
  "\<not> gives_clean (environment g st run scope al (\<lambda>r. r\<lparr>gr_target_run := t\<rparr>))"
  "\<not> gives_clean (environment g st run scope al (\<lambda>r. r\<lparr>gr_target_run := t, gr_belt_run := b\<rparr>))"
  by (rule clean_environment, simp)+

lemma no_new_iff:
  "no_new b base \<longleftrightarrow> \<not> tr_timed_out b \<and> tr_parse_error b = [] \<and> set (tr_failing b) \<subseteq> set base"
proof -
  have "sort (remdups (filter (\<lambda>f. f \<notin> set base) (tr_failing b))) = [] \<longleftrightarrow> set (tr_failing b) \<subseteq> set base"
    by (metis (no_types, lifting) filter_empty_conv length_0_conv length_sort remdups_eq_nil_iff subset_code(1))
  then show ?thesis by (auto simp: no_new_def new_failures_def)
qed

lemma lint_step5_off: "\<not> gi_evaluate_lint g \<Longrightarrow> lint_step5 g changed = Inr None"
  by (simp add: lint_step5_def)

lemma lint_step5_closed:
  "lint_step5 g changed = Inr (Some r) \<Longrightarrow> gi_evaluate_lint g \<and> (lr_error r = None \<or> lr_ok r = Some False)"
  by (auto simp: lint_step5_def dest: run_plan_error_closed split: if_splits option.splits)

definition status_at_start :: "grade_in \<Rightarrow> gstate \<Rightarrow> bool" where
  "status_at_start g st \<longleftrightarrow>
     gs_lint_status st = (if gi_evaluate_lint g then LINT_NOT_REACHED else LINT_NOT_REQUESTED)"

definition lint_ok_of :: "lint_run option \<Rightarrow> bool option" where
  "lint_ok_of run = (case run of None \<Rightarrow> None | Some r \<Rightarrow> lr_ok r)"

definition lint_err_of :: "lint_run option \<Rightarrow> lint_error option" where
  "lint_err_of run = (case run of None \<Rightarrow> None | Some r \<Rightarrow> lr_error r)"

definition status_after :: "grade_in \<Rightarrow> gstate \<Rightarrow> lint_run option \<Rightarrow> string" where
  "status_after g st run = (if gi_evaluate_lint g
     then lint_status run (lint_disabled (gi_lint_config g)) else gs_lint_status st)"

text \<open>The status the grade carries after belt 5 contradicts nothing, unless the repository
  disabled belt 5 and the runner still found a plan.\<close>

lemma status_after_ok:
  assumes "lint_step5 g changed = Inr run" and "status_at_start g st" and
    "lint_disabled (gi_lint_config g) \<Longrightarrow> gi_evaluate_lint g \<Longrightarrow> lint_ok_of run = None" and
    "lint_err_of run \<noteq> None \<Longrightarrow> \<not> clean"
  shows "lint_status_violation (status_after g st run) (lint_ok_of run) clean = None"
proof (cases "gi_evaluate_lint g")
  case False
  with assms(1) lint_step5_off have "run = None" by force
  with False assms(2) show ?thesis
    by (simp add: status_after_def status_at_start_def lint_ok_of_def lint_status_ok)
next
  case True
  show ?thesis
  proof (cases run)
    case None
    with True show ?thesis by (simp add: status_after_def lint_ok_of_def lint_status_def lint_status_ok)
  next
    case (Some r)
    with assms(1) lint_step5_closed have "lr_error r = None \<or> lr_ok r = Some False" by blast
    with Some True assms(3,4) show ?thesis
      by (auto simp: status_after_def lint_ok_of_def lint_err_of_def lint_status_def lint_status_ok)
  qed
qed

lemma status_after_disabled:
  "lint_disabled (gi_lint_config g) \<Longrightarrow> gi_evaluate_lint g \<Longrightarrow> belt \<noteq> None \<Longrightarrow>
     lint_status_violation (status_after g st run) belt clean \<noteq> None"
  using lint_statuses_distinct by (auto simp: status_after_def lint_status_def lint_status_ok)

definition api_ok_of :: "api_run option \<Rightarrow> bool option" where
  "api_ok_of run = (case run of None \<Rightarrow> None | Some r \<Rightarrow> ar_ok r)"

definition final_belts :: "gstate \<Rightarrow> lint_run option \<Rightarrow> api_run option \<Rightarrow> belts" where
  "final_belts st lint api = (gs_belts st)\<lparr>repo_lint_clean := lint_ok_of lint, api_stable := api_ok_of api\<rparr>"

definition final_state :: "grade_in \<Rightarrow> gstate \<Rightarrow> lint_run option \<Rightarrow> gstate" where
  "final_state g st lint = st\<lparr>gs_lint_status := status_after g st lint\<rparr>"

definition final_changes ::
    "grade_in \<Rightarrow> gstate \<Rightarrow> string list \<Rightarrow> test_run \<Rightarrow> test_run \<Rightarrow> string list \<Rightarrow> lint_run option \<Rightarrow>
     api_run option \<Rightarrow> blame option \<Rightarrow> changes" where
  "final_changes g st changed target_run belt_run new lint api bl r =
     (case bl of None \<Rightarrow> (\<lambda>r. r) | Some x \<Rightarrow> apply_blame x)
       (r\<lparr>gr_clean := (all_true (final_belts st lint api) \<and> lint_err_of lint = None),
          gr_error := map_option LintToolError (lint_err_of lint),
          gr_new_failures := take 50 new, gr_changed_files := take 200 changed,
          gr_target_run := Some target_run, gr_belt_run := Some belt_run,
          gr_lint_run := lint, gr_api_run := api,
          gr_touched_post_run := post_run (gi_touched_post g) (gs_touched_pre st)\<rparr>)"

text \<open>\<open>grade_final\<close> with its intermediate values named.\<close>

lemma grade_final_eq:
  "grade_final g st changed target_run belt_run new =
     attempt st (lint_step5 g changed) (\<lambda>lint.
     attempt (final_state g st lint) (api_step6 g changed) (\<lambda>api.
     attempt (set_belts (final_belts st lint api) (final_state g st lint))
       (final_blame g (final_belts st lint api) (lint_err_of lint)) (\<lambda>bl.
     done_with g (set_belts (final_belts st lint api) (final_state g st lint))
       (final_changes g st changed target_run belt_run new lint api bl))))"
proof -
  have "(if gi_evaluate_lint g then st\<lparr>gs_lint_status := x\<rparr> else st) =
      st\<lparr>gs_lint_status := if gi_evaluate_lint g then x else gs_lint_status st\<rparr>" for x
    by simp
  then show ?thesis
    unfolding grade_final_def Let_def final_state_def final_belts_def status_after_def
      lint_ok_of_def api_ok_of_def lint_err_of_def final_changes_def by presburger
qed

lemma final_belts_simps [simp]:
  "repo_lint_clean (final_belts st lint api) = lint_ok_of lint"
  "api_stable (final_belts st lint api) = api_ok_of api"
  "target_green (final_belts st lint api) = target_green (gs_belts st)"
  "no_new_failures (final_belts st lint api) = no_new_failures (gs_belts st)"
  "source_changed (final_belts st lint api) = source_changed (gs_belts st)"
  by (simp_all add: final_belts_def)

lemma final_state_simps [simp]:
  "gs_lint_status (final_state g st lint) = status_after g st lint"
  "gs_belts (final_state g st lint) = gs_belts st"
  by (simp_all add: final_state_def)

lemma final_changes_simps [simp]:
  "gr_mode (final_changes g st ch t b new lint api bl r) = gr_mode r"
  "gr_clean (final_changes g st ch t b new lint api bl r) =
     (all_true (final_belts st lint api) \<and> lint_err_of lint = None)"
  "gr_belts (final_changes g st ch t b new lint api bl r) = gr_belts r"
  "gr_dq_reason (final_changes g st ch t b new lint api bl r) = gr_dq_reason r"
  "gr_lint_status (final_changes g st ch t b new lint api bl r) = gr_lint_status r"
  by (cases bl; simp add: final_changes_def)+

lemma final_changes_None [simp]:
  "gr_error (final_changes g st ch t b new lint api None r) = map_option LintToolError (lint_err_of lint)"
  "gr_blame_control (final_changes g st ch t b new lint api None r) = gr_blame_control r"
  by (simp_all add: final_changes_def)

lemma all_true_final:
  "gs_belts st = belts_to (Some True) (Some True) (Some n) (Some c) \<Longrightarrow>
     all_true (final_belts st lint api) \<longleftrightarrow>
       n \<and> c \<and> lint_ok_of lint \<noteq> Some False \<and> api_ok_of api \<noteq> Some False"
  by (simp add: all_true_def final_belts_def)

lemma lint_evidence_iff:
  "lint_evidence g changed \<longleftrightarrow> (\<exists>lint. lint_step5 g changed = Inr lint \<and>
     lint_ok_of lint \<noteq> Some False \<and> lint_err_of lint = None \<and>
     (lint_disabled (gi_lint_config g) \<longrightarrow> lint_ok_of lint = None))"
proof -
  have "(\<forall>r. lint = Some r \<longrightarrow> lr_ok r \<noteq> Some False \<and> lr_error r = None \<and>
        (lint_disabled (gi_lint_config g) \<longrightarrow> lr_ok r = None)) \<longleftrightarrow>
      lint_ok_of lint \<noteq> Some False \<and> lint_err_of lint = None \<and>
      (lint_disabled (gi_lint_config g) \<longrightarrow> lint_ok_of lint = None)" for lint
    by (cases lint) (simp_all add: lint_ok_of_def lint_err_of_def)
  then show ?thesis by (simp add: lint_evidence_def)
qed

lemma api_evidence_iff:
  "api_evidence g changed \<longleftrightarrow> (\<exists>api. api_step6 g changed = Inr api \<and> api_ok_of api \<noteq> Some False)"
proof -
  have "(\<forall>r. api = Some r \<longrightarrow> ar_ok r \<noteq> Some False) \<longleftrightarrow> api_ok_of api \<noteq> Some False" for api
    by (cases api) (simp_all add: api_ok_of_def)
  then show ?thesis by (simp add: api_evidence_def)
qed

lemma status_after_ne: "status_at_start g st \<Longrightarrow> status_after g st lint \<noteq> []"
  by (cases lint) (simp_all add: status_after_def status_at_start_def lint_status_def lint_status_defs)

lemma clean_final_done:
  assumes "status_at_start g st"
  shows "(\<exists>bl. final_blame g (final_belts st lint api) (lint_err_of lint) = Inr bl \<and>
       gives_clean (done_with g (set_belts (final_belts st lint api) (final_state g st lint))
         (final_changes g st changed t br new lint api bl))) \<longleftrightarrow>
     gi_mode g \<in> set MODES \<and> all_true (final_belts st lint api) \<and> lint_err_of lint = None \<and>
     lint_status_violation (status_after g st lint) (lint_ok_of lint) True = None"
proof (cases "all_true (final_belts st lint api) \<and> lint_err_of lint = None")
  case False
  then show ?thesis by (auto simp: gives_clean_done)
next
  case True
  then have "final_blame g (final_belts st lint api) (lint_err_of lint) = Inr None" by (simp add: final_blame_def)
  with True status_after_ne [OF assms(1), of lint] show ?thesis
    by (simp add: gives_clean_done GradeResult_def gr_disqualified_def blamed_def)
qed

lemma status_after_clean:
  assumes "lint_step5 g changed = Inr lint" and "status_at_start g st" and "lint_err_of lint = None"
  shows "lint_status_violation (status_after g st lint) (lint_ok_of lint) True = None \<longleftrightarrow>
    (lint_disabled (gi_lint_config g) \<longrightarrow> lint_ok_of lint = None)"
proof (cases "gi_evaluate_lint g")
  case True
  then show ?thesis
    using status_after_ok [OF assms(1,2), of True] status_after_disabled [of g "lint_ok_of lint"] assms(3)
    by blast
next
  case False
  then have "lint_ok_of lint = None" using assms(1) lint_step5_off by (force simp: lint_ok_of_def)
  then show ?thesis using status_after_ok [OF assms(1,2), of True] assms(3) by simp
qed

lemma clean_final:
  assumes st: "gs_belts st = belts_to (Some True) (Some True) (Some n) (Some c)" "status_at_start g st"
  shows "gives_clean (grade_final g st changed t b new) \<longleftrightarrow>
     gi_mode g \<in> set MODES \<and> n \<and> c \<and> lint_evidence g changed \<and> api_evidence g changed"
proof -
  have "gives_clean (grade_final g st changed t b new) \<longleftrightarrow>
      (\<exists>lint api. lint_step5 g changed = Inr lint \<and> api_step6 g changed = Inr api \<and>
        gi_mode g \<in> set MODES \<and> all_true (final_belts st lint api) \<and> lint_err_of lint = None \<and>
        lint_status_violation (status_after g st lint) (lint_ok_of lint) True = None)"
    unfolding grade_final_eq gives_clean_attempt clean_final_done [OF st(2)] by blast
  also have "\<dots> \<longleftrightarrow> (\<exists>lint api. lint_step5 g changed = Inr lint \<and> api_step6 g changed = Inr api \<and>
        gi_mode g \<in> set MODES \<and> n \<and> c \<and> lint_ok_of lint \<noteq> Some False \<and> api_ok_of api \<noteq> Some False \<and>
        lint_err_of lint = None \<and> (lint_disabled (gi_lint_config g) \<longrightarrow> lint_ok_of lint = None))"
    using status_after_clean [OF _ st(2)] unfolding all_true_final [OF st(1)] by blast
  also have "\<dots> \<longleftrightarrow> gi_mode g \<in> set MODES \<and> n \<and> c \<and> lint_evidence g changed \<and> api_evidence g changed"
    unfolding lint_evidence_iff api_evidence_iff by blast
  finally show ?thesis .
qed

lemma gives_clean_if: "gives_clean (if b then x else y) = (if b then gives_clean x else gives_clean y)"
  by simp

lemma clean_belt3:
  assumes "status_at_start g st"
  shows "gives_clean (grade_belt3 g st changed t) \<longleftrightarrow> belt3_evidence g \<and>
     gi_mode g \<in> set MODES \<and> changed \<noteq> [] \<and> lint_evidence g changed \<and> api_evidence g changed"
proof -
  have s: "status_at_start g (set_belts b st)" for b using assms by (simp add: status_at_start_def)
  show ?thesis
    unfolding grade_belt3_def Let_def gives_clean_attempt gives_clean_if clean_environment_runs
      clean_final [OF set_belts_simps(1) s] no_new_iff belt3_evidence_def
    by auto
qed

lemma clean_target:
  assumes "status_at_start g st"
  shows "gives_clean (grade_target g st changed) \<longleftrightarrow> target_evidence g \<and> belt3_evidence g \<and>
     gi_mode g \<in> set MODES \<and> changed \<noteq> [] \<and> lint_evidence g changed \<and> api_evidence g changed"
proof -
  have s: "status_at_start g (set_belts b (st\<lparr>gs_tests_ran := True\<rparr>))" for b
    using assms by (simp add: status_at_start_def)
  have w: "\<not> gives_clean (done_with g st1 (\<lambda>r. apply_blame b (r\<lparr>gr_target_run := tr, gr_changed_files := cf\<rparr>)))"
    for st1 b tr cf by (simp add: gives_clean_done)
  show ?thesis
    unfolding grade_target_def Let_def gives_clean_attempt gives_clean_if clean_environment_runs
      clean_belt3 [OF s] target_evidence_def
    using w by auto
qed

lemma clean_binding:
  "status_at_start g st \<Longrightarrow> gives_clean (grade_binding g st touched) \<longleftrightarrow>
     gi_binding g = Inr () \<and> gi_diff g = Inr () \<and> gives_clean (grade_target g st (changed_source g touched))"
  by (auto simp: grade_binding_def split: sum.splits exn.splits)

lemma clean_belt1:
  "gives_clean (grade_belt1 g st touched infra) \<longleftrightarrow> (\<exists>off. gi_byte_identical g = Inr (True, off)) \<and> infra = [] \<and>
     gives_clean (grade_binding g (set_belts (belts_to (Some True) None None None) st) touched)"
  by (auto simp: grade_belt1_def Let_def gives_clean_if split: prod.splits)

lemma clean_oracle:
  "gives_clean (grade_oracle g st touched infra) \<longleftrightarrow> bad_oracles g = Inr [] \<and>
     other_tests g touched infra = Inr [] \<and> gives_clean (grade_belt1 g st touched infra)"
  by (auto simp: grade_oracle_def gives_clean_if)

definition pre_run :: "grade_in \<Rightarrow> gstate" where
  "pre_run g = \<lparr>gs_belts = no_belts,
     gs_lint_status = (if gi_evaluate_lint g then LINT_NOT_REACHED else LINT_NOT_REQUESTED),
     gs_tests_ran = False, gs_touched_pre = []\<rparr>"

lemma clean_body:
  "gives_clean (grade_body g (pre_run g)) \<longleftrightarrow> (\<exists>touched. pre_run_evidence g touched \<and> target_evidence g \<and>
     belt3_evidence g \<and> gi_mode g \<in> set MODES \<and> changed_source g touched \<noteq> [] \<and>
     lint_evidence g (changed_source g touched) \<and> api_evidence g (changed_source g touched))"
proof -
  have s: "status_at_start g (set_belts (belts_to (Some True) None None None) ((pre_run g)\<lparr>gs_touched_pre := t\<rparr>))"
    for t by (simp add: status_at_start_def pre_run_def)
  show ?thesis
    unfolding grade_body_def Let_def gives_clean_attempt gives_clean_if clean_disqualify clean_oracle
      clean_belt1 clean_binding [OF s] clean_target [OF s] pre_run_evidence_def
    by (cases "gi_mode g = MODE_BLIND") auto
qed

lemma handler_never_clean:
  "GradeResult ((base_result g seen st)\<lparr>gr_error := Some (HarnessError e)\<rparr>) = Inr r \<Longrightarrow> \<not> gr_clean r"
  by (auto dest: GradeResult_Inr)

lemma grade_clean_body:
  "(\<exists>r. grade g = Inr r \<and> gr_clean r) \<longleftrightarrow>
     gi_mode g \<in> set MODES \<and> check_posture g = Inr () \<and> gives_clean (grade_body g (pre_run g))"
  unfolding grade_def pre_run_def [symmetric] gives_clean_def
  using handler_never_clean
  by (cases "grade_body g (pre_run g)") (auto simp del: guarded_Inr split: prod.splits)

subsection \<open>What every returned verdict rests on\<close>

definition verdict :: "grade_result \<Rightarrow> bool" where
  "verdict r \<longleftrightarrow> gr_error r = None \<and> \<not> gr_disqualified r"

lemma blamed_verdict: "blamed r \<Longrightarrow> verdict r"
  by (simp add: blamed_def verdict_def Let_def)

lemma returns_mono: "returns Q x \<Longrightarrow> (\<And>r. Q r \<Longrightarrow> Q' r) \<Longrightarrow> returns Q' x"
  by (simp add: returns_def)

lemma returns_no_verdict_disqualify:
  "returns (\<lambda>r. verdict r \<longrightarrow> Q r) (done_with g st (disqualify w fs))"
  by (rule returns_done) (simp add: verdict_def gr_disqualified_def)

lemma returns_no_verdict_environment:
  assumes "\<And>r. gr_error (ch r) = gr_error r" and "\<And>r. gr_dq_reason (ch r) = gr_dq_reason r"
  shows "returns (\<lambda>r. verdict r \<longrightarrow> Q r) (environment g st run scope al ch)"
proof (cases "gc_witness (gi_ctx g)")
  case None
  then show ?thesis
    by (simp add: environment_def Let_def) (rule returns_done; simp add: verdict_def assms)
next
  case (Some w)
  have env: "returns (\<lambda>r. verdict r \<longrightarrow> Q r) (done_with g st (\<lambda>r. ch (r\<lparr>gr_error := Some e, gr_env_code := c\<rparr>)))"
    for e c by (rule returns_done) (simp add: verdict_def assms)
  have dq: "returns (\<lambda>r. verdict r \<longrightarrow> Q r) (done_with g st (\<lambda>r. ch ((disqualify w' fs r)\<lparr>gr_control := c\<rparr>)))"
    for w' fs c by (rule returns_done) (simp add: verdict_def gr_disqualified_def assms)
  have bl: "returns (\<lambda>r. verdict r \<longrightarrow> Q r) (done_with g st (ch \<circ> apply_blame (BlameEnvironment e c d)))"
    for e c d by (rule returns_done) (simp add: verdict_def assms apply_blame_def)
  show ?thesis
    unfolding environment_def Let_def Some option.case
    by (rule returns_attempt) (auto intro: env dq bl split: blame.splits option.splits)
qed

text \<open>The stages that a verdict passed through.\<close>

lemma returns_binding:
  assumes "returns (\<lambda>r. verdict r \<longrightarrow> Q r) (grade_target g st (changed_source g touched))"
  shows "returns (\<lambda>r. verdict r \<longrightarrow> gi_binding g = Inr () \<and> gi_diff g = Inr () \<and> Q r)
    (grade_binding g st touched)"
proof (cases "gi_binding g")
  case (Inl e)
  then show ?thesis
    unfolding grade_binding_def
    by (cases e) (simp_all only: sum.case exn.case returns_Inl returns_no_verdict_disqualify)
next
  case (Inr u)
  then show ?thesis unfolding grade_binding_def
    by (simp del: split_paired_All) (rule returns_attempt, rule returns_mono [OF assms], simp)
qed

lemma returns_belt1:
  assumes "\<And>st. returns (\<lambda>r. verdict r \<longrightarrow> Q r) (grade_target g st (changed_source g touched))"
  shows "returns (\<lambda>r. verdict r \<longrightarrow> (\<exists>off. gi_byte_identical g = Inr (True, off)) \<and> infra = [] \<and>
      gi_binding g = Inr () \<and> gi_diff g = Inr () \<and> Q r) (grade_belt1 g st touched infra)"
  unfolding grade_belt1_def Let_def
proof (rule returns_attempt, clarify)
  fix ok off
  assume ok: "gi_byte_identical g = Inr (ok, off)"
  show "returns (\<lambda>r. verdict r \<longrightarrow> (\<exists>off. gi_byte_identical g = Inr (True, off)) \<and> infra = [] \<and>
      gi_binding g = Inr () \<and> gi_diff g = Inr () \<and> Q r)
     (if \<not> ok then done_with g (set_belts (belts_to (Some (ok \<and> infra = [])) None None None) st)
          (disqualify DqTargetModified (off @ infra))
      else if infra \<noteq> [] then done_with g (set_belts (belts_to (Some (ok \<and> infra = [])) None None None) st)
          (disqualify DqInfra infra)
      else grade_binding g (set_belts (belts_to (Some (ok \<and> infra = [])) None None None) st) touched)"
    by (intro returns_if returns_no_verdict_disqualify, rule returns_mono [OF returns_binding [OF assms]])
      (auto simp: ok)
qed

lemma returns_oracle:
  assumes "\<And>st. returns (\<lambda>r. verdict r \<longrightarrow> Q r) (grade_target g st (changed_source g touched))"
  shows "returns (\<lambda>r. verdict r \<longrightarrow> bad_oracles g = Inr [] \<and> other_tests g touched infra = Inr [] \<and>
      (\<exists>off. gi_byte_identical g = Inr (True, off)) \<and> infra = [] \<and>
      gi_binding g = Inr () \<and> gi_diff g = Inr () \<and> Q r) (grade_oracle g st touched infra)"
  unfolding grade_oracle_def
  by (intro returns_attempt returns_if returns_no_verdict_disqualify,
      rule returns_mono [OF returns_belt1 [OF assms]]) auto

lemma returns_body:
  assumes "\<And>st touched. returns (\<lambda>r. verdict r \<longrightarrow> Q touched r)
      (grade_target g st (changed_source g touched))"
  shows "returns (\<lambda>r. verdict r \<longrightarrow> (\<exists>touched. pre_run_evidence g touched \<and> Q touched r)) (grade_body g st)"
  unfolding grade_body_def Let_def pre_run_evidence_def
  by (intro returns_attempt returns_if returns_no_verdict_disqualify;
      rule returns_mono [OF returns_oracle [OF assms]]) auto

lemma grade_verdict_body:
  assumes "grade g = Inr r" and "verdict r"
  shows "grade_body g (pre_run g) = Inr r"
proof -
  have "\<not> verdict r'" if "GradeResult ((base_result g seen st)\<lparr>gr_error := Some (HarnessError e)\<rparr>) = Inr r'"
    for seen st e r' using GradeResult_Inr [OF that] by (simp add: verdict_def)
  then show ?thesis
    using assms by (auto simp: grade_def pre_run_def split: if_splits sum.splits prod.splits)
qed

subsection \<open>Why a blame is justified\<close>

definition justified :: "grade_in \<Rightarrow> grade_result \<Rightarrow> bool" where
  "justified g r \<longleftrightarrow>
     (gr_blame_control r = BLAME_UNWITNESSED \<and> gc_witness (gi_ctx g) = None) \<or>
     (\<exists>w scope al run. gc_witness (gi_ctx g) = Some w \<and> w scope al = Inr run \<and> cr_green run \<and>
        gr_blame_control r = cr_kind run \<and> gr_control r = Some run \<and>
        ((scope = tk_target_tests (gi_task g) \<and> al = None \<and> target_green (gr_belts r) = Some False) \<or>
         (scope = tk_belt_scope (gi_task g) \<and> al = Some (baseline (gc_qualification (gi_ctx g))) \<and>
          no_new_failures (gr_belts r) = Some False))) \<or>
     (gr_blame_control r = BLAME_NO_SOURCE \<and> source_changed (gr_belts r) = Some False) \<or>
     (gr_blame_control r = BLAME_API_DIFF \<and> api_stable (gr_belts r) = Some False) \<or>
     (gr_blame_control r = BLAME_LINT_GOLD_OK \<and> repo_lint_clean (gr_belts r) = Some False \<and>
        q_gold_lint (gc_qualification (gi_ctx g)) = PBool True)"

lemma ask_witness_cases:
  assumes "ask_witness g scope al = Inr b"
  obtains (unwitnessed) "gc_witness (gi_ctx g) = None" "b = BlameControl BLAME_UNWITNESSED None"
  | (green) w run where "gc_witness (gi_ctx g) = Some w" "w scope al = Inr run" "cr_green run"
      "b = BlameControl (cr_kind run) (Some run)"
  | (red) w run where "gc_witness (gi_ctx g) = Some w" "w scope al = Inr run" "\<not> cr_green run"
      "b = BlameEnvironment GoldControlRed ENV_CODE_GOLD_CONTROL_RED (Some run)"
  using assms by (auto simp: ask_witness_def split: option.splits if_splits)

lemma lint_blame_cases:
  assumes "lint_blame g v = Inr b"
  obtains (gold) "v = PBool True" "b = BlameControl BLAME_LINT_GOLD_OK None"
  | (unwitnessed) "gc_witness (gi_ctx g) = None" "b = BlameControl BLAME_UNWITNESSED None"
  | (env) e c d where "b = BlameEnvironment e c d"
  using assms by (auto simp: lint_blame_def split: pyval.splits bool.splits option.splits)

lemma returns_final_justified:
  assumes st: "gs_belts st = belts_to (Some True) (Some True) (Some n) (Some c)"
  shows "returns (\<lambda>r. blamed r \<longrightarrow> justified g r) (grade_final g st changed t br new)"
  unfolding grade_final_eq
proof (intro returns_attempt returns_done impI)
  fix lint api bl
  let ?b = "final_belts st lint api"
  let ?st = "set_belts ?b (final_state g st lint)"
  let ?r = "final_changes g st changed t br new lint api bl (base_result g (gi_touched_post g) ?st)"
  assume fb: "final_blame g ?b (lint_err_of lint) = Inr bl" and bd: "blamed ?r"
  then have le: "lint_err_of lint = None" and nt: "\<not> all_true ?b"
    by (auto simp: blamed_def Let_def final_changes_def apply_blame_def split: option.splits blame.splits)
  consider (new) "no_new_failures ?b = Some False" | (src) "no_new_failures ?b \<noteq> Some False" "source_changed ?b = Some False"
    | (api) "no_new_failures ?b \<noteq> Some False" "source_changed ?b \<noteq> Some False" "api_stable ?b = Some False"
    | (lint) "no_new_failures ?b \<noteq> Some False" "source_changed ?b \<noteq> Some False" "api_stable ?b \<noteq> Some False"
        "repo_lint_clean ?b = Some False"
    using nt st by (auto simp: all_true_final)
  then show "justified g ?r"
  proof cases
    case new
    then obtain x where x: "ask_witness g (tk_belt_scope (gi_task g)) (Some (baseline (gc_qualification (gi_ctx g)))) = Inr x"
      and bl: "bl = Some x" using fb le nt by (auto simp: final_blame_def)
    from x show ?thesis
    proof (cases rule: ask_witness_cases)
      case unwitnessed
      with bl show ?thesis by (simp add: justified_def final_changes_def apply_blame_def)
    next
      case (green w run)
      with bl new have "no_new_failures (gr_belts ?r) = Some False"
          "gr_blame_control ?r = cr_kind run" "gr_control ?r = Some run"
        by (simp_all add: final_changes_def apply_blame_def)
      with green show ?thesis unfolding justified_def by blast
    next
      case red
      with bl bd show ?thesis by (simp add: blamed_def Let_def final_changes_def apply_blame_def)
    qed
  next
    case src
    with fb le nt have "bl = Some (BlameControl BLAME_NO_SOURCE None)" by (simp add: final_blame_def)
    with src show ?thesis by (simp add: justified_def final_changes_def apply_blame_def)
  next
    case api
    with fb le nt have "bl = Some (BlameControl BLAME_API_DIFF None)" by (simp add: final_blame_def)
    with api show ?thesis by (simp add: justified_def final_changes_def apply_blame_def)
  next
    case lint
    then obtain x where x: "lint_blame g (q_gold_lint (gc_qualification (gi_ctx g))) = Inr x"
      and bl: "bl = Some x" using fb le nt by (auto simp: final_blame_def)
    from x show ?thesis
    proof (cases rule: lint_blame_cases)
      case gold
      with bl lint show ?thesis by (simp add: justified_def final_changes_def apply_blame_def)
    next
      case unwitnessed
      with bl show ?thesis by (simp add: justified_def final_changes_def apply_blame_def)
    next
      case env
      with bl bd show ?thesis by (simp add: blamed_def Let_def final_changes_def apply_blame_def)
    qed
  qed
qed

lemma returns_belt3_justified:
  "returns (\<lambda>r. blamed r \<longrightarrow> justified g r) (grade_belt3 g st changed t)"
  unfolding grade_belt3_def Let_def
proof (intro returns_attempt returns_if)
  fix br
  show "returns (\<lambda>r. blamed r \<longrightarrow> justified g r)
     (environment g (set_belts (belts_to (Some True) (Some True) None None) st) br
       (tk_belt_scope (gi_task g)) (Some (baseline (gc_qualification (gi_ctx g))))
       (\<lambda>r. r\<lparr>gr_target_run := Some t, gr_belt_run := Some br\<rparr>))"
    by (rule returns_mono [OF returns_no_verdict_environment [where Q = "\<lambda>r. False"]])
      (auto dest: blamed_verdict)
qed (rule returns_final_justified, simp)

lemma returns_target_justified:
  "returns (\<lambda>r. verdict r \<longrightarrow> blamed r \<longrightarrow> justified g r) (grade_target g st changed)"
  unfolding grade_target_def Let_def
proof (intro returns_attempt returns_if)
  fix t b
  let ?st = "set_belts (belts_to (Some True) (Some (green t \<and> \<not> target_shortfall t
      (gc_qualification (gi_ctx g)))) None None) (st\<lparr>gs_tests_ran := True\<rparr>)"
  assume no: "\<not> (green t \<and> \<not> target_shortfall t (gc_qualification (gi_ctx g)))"
    and b: "ask_witness g (tk_target_tests (gi_task g)) None = Inr b"
  show "returns (\<lambda>r. verdict r \<longrightarrow> blamed r \<longrightarrow> justified g r) (done_with g ?st
      (\<lambda>r. apply_blame b (r\<lparr>gr_target_run := Some t, gr_changed_files := take 200 changed\<rparr>)))"
  proof (intro returns_done impI)
    let ?r = "apply_blame b ((base_result g (gi_touched_post g) ?st)
        \<lparr>gr_target_run := Some t, gr_changed_files := take 200 changed\<rparr>)"
    assume bd: "blamed ?r"
    from b show "justified g ?r"
    proof (cases rule: ask_witness_cases)
      case unwitnessed
      then show ?thesis by (simp add: justified_def apply_blame_def)
    next
      case (green w run)
      with no have tg: "target_green (gr_belts ?r) = Some False"
          "gr_blame_control ?r = cr_kind run" "gr_control ?r = Some run"
        by (simp_all add: apply_blame_def)
      with green show ?thesis unfolding justified_def by blast
    next
      case red
      with bd show ?thesis by (simp add: blamed_def Let_def apply_blame_def)
    qed
  qed
next
  fix t
  show "returns (\<lambda>r. verdict r \<longrightarrow> blamed r \<longrightarrow> justified g r)
     (environment g (set_belts (belts_to (Some True) None None None) (st\<lparr>gs_tests_ran := True\<rparr>)) t
       (tk_target_tests (gi_task g)) None (\<lambda>r. r\<lparr>gr_target_run := Some t\<rparr>))"
    by (rule returns_no_verdict_environment) simp_all
next
  fix t st'
  show "returns (\<lambda>r. verdict r \<longrightarrow> blamed r \<longrightarrow> justified g r) (grade_belt3 g st' changed t)"
    by (rule returns_mono [OF returns_belt3_justified]) simp
qed

subsection \<open>The exceptions \<open>grade()\<close> lets through\<close>

definition handled :: "grade_in \<Rightarrow> gstate \<Rightarrow> bool" where
  "handled g st \<longleftrightarrow>
     lint_status_violation (gs_lint_status st) (repo_lint_clean (gs_belts st)) False = None \<or>
     (gi_evaluate_lint g \<and> (gi_evaluate_api g \<or> lint_disabled (gi_lint_config g)))"

lemma handled_start: "status_at_start g st \<Longrightarrow> repo_lint_clean (gs_belts st) = None \<Longrightarrow> handled g st"
  by (simp add: handled_def status_at_start_def lint_status_ok)

lemma raises_environment: "P st \<Longrightarrow> raises_in P (environment g st run scope al ch)"
  unfolding environment_def Let_def
  by (cases "gc_witness (gi_ctx g)")
    (auto intro!: raises_attempt raises_done split: blame.splits option.splits)

lemma raises_final:
  assumes "status_at_start g st" and "repo_lint_clean (gs_belts st) = None"
  shows "raises_in (handled g) (grade_final g st changed t br new)"
  unfolding grade_final_eq
proof (rule raises_attempt)
  show "handled g st" using assms by (rule handled_start)
next
  fix lint
  assume l: "lint_step5 g changed = Inr lint"
  have full: "handled g (set_belts (final_belts st lint api) (final_state g st lint))" for api
  proof (cases "gi_evaluate_lint g \<and> lint_disabled (gi_lint_config g)")
    case True
    then show ?thesis by (simp add: handled_def)
  next
    case False
    then have "lint_status_violation (status_after g st lint) (lint_ok_of lint) False = None"
      by (intro status_after_ok [OF l assms(1)]) simp_all
    then show ?thesis by (simp add: handled_def)
  qed
  show "raises_in (handled g) (attempt (final_state g st lint) (api_step6 g changed) (\<lambda>api.
     attempt (set_belts (final_belts st lint api) (final_state g st lint))
       (final_blame g (final_belts st lint api) (lint_err_of lint)) (\<lambda>bl.
     done_with g (set_belts (final_belts st lint api) (final_state g st lint))
       (final_changes g st changed t br new lint api bl))))"
  proof (cases "gi_evaluate_api g")
    case True
    have "handled g (final_state g st lint)"
    proof (cases "gi_evaluate_lint g")
      case on: True
      with True show ?thesis by (simp add: handled_def)
    next
      case False
      then show ?thesis using assms by (simp add: handled_def status_after_def status_at_start_def lint_status_ok)
    qed
    then show ?thesis by (intro raises_attempt raises_done full)
  next
    case False
    then have "api_step6 g changed = Inr None" by (simp add: api_step6_def)
    then show ?thesis
      unfolding attempt_def [of _ "api_step6 g changed"] by (simp add: raises_attempt raises_done full)
  qed
qed

lemma raises_target:
  assumes "status_at_start g st" and "repo_lint_clean (gs_belts st) = None"
  shows "raises_in (handled g) (grade_target g st changed)"
proof -
  have s: "status_at_start g (set_belts b (st\<lparr>gs_tests_ran := True\<rparr>))"
      "status_at_start g (st\<lparr>gs_tests_ran := True\<rparr>)" for b
    using assms by (simp_all add: status_at_start_def)
  have s2: "status_at_start g (set_belts b' (set_belts b (st\<lparr>gs_tests_ran := True\<rparr>)))" for b b'
    using assms by (simp add: status_at_start_def)
  have h: "handled g (set_belts (belts_to b1 b2 b3 b4) (st\<lparr>gs_tests_ran := True\<rparr>))"
      "handled g (st\<lparr>gs_tests_ran := True\<rparr>)"
      "handled g (set_belts (belts_to b1 b2 b3 b4) (set_belts b (st\<lparr>gs_tests_ran := True\<rparr>)))" for b1 b2 b3 b4 b
    using s s2 assms by (auto intro!: handled_start)
  show ?thesis
    unfolding grade_target_def grade_belt3_def Let_def
    by (intro raises_attempt raises_if raises_environment raises_done raises_final h s s2) simp_all
qed

lemma raises_body: "raises_in (handled g) (grade_body g (pre_run g))"
proof -
  have s: "status_at_start g (set_belts b ((pre_run g)\<lparr>gs_touched_pre := t\<rparr>))"
      "status_at_start g ((pre_run g)\<lparr>gs_touched_pre := t\<rparr>)" "status_at_start g (pre_run g)"
      "status_at_start g (set_belts b (pre_run g))"
      "status_at_start g (set_belts b' (set_belts b ((pre_run g)\<lparr>gs_touched_pre := t\<rparr>)))" for b b' t
    by (simp_all add: status_at_start_def pre_run_def)
  have h: "handled g (set_belts (belts_to b1 b2 b3 b4) ((pre_run g)\<lparr>gs_touched_pre := t\<rparr>))"
      "handled g ((pre_run g)\<lparr>gs_touched_pre := t\<rparr>)" "handled g (pre_run g)"
      "handled g (set_belts (belts_to b1 b2 b3 b4) (pre_run g))"
      "handled g (set_belts (belts_to b1 b2 b3 b4) (set_belts b ((pre_run g)\<lparr>gs_touched_pre := t\<rparr>)))"
    for b1 b2 b3 b4 b t
    using s by (auto intro!: handled_start simp: pre_run_def no_belts_def)
  have b: "raises_in (handled g) (grade_binding g (set_belts (belts_to b1 b2 b3 b4)
      ((pre_run g)\<lparr>gs_touched_pre := t\<rparr>)) touched)" for b1 b2 b3 b4 t touched
    unfolding grade_binding_def
    by (auto intro!: raises_attempt raises_done raises_Inl raises_target h s split: sum.splits exn.splits)
  show ?thesis
    unfolding grade_body_def grade_oracle_def grade_belt1_def Let_def
    by (auto intro!: raises_attempt raises_done h b)
qed

text \<open>Raising in belt 6 after belt 5 was evaluated.\<close>

definition handler_result :: "grade_in \<Rightarrow> exn \<Rightarrow> gstate \<Rightarrow> grade_result result" where
  "handler_result g e st = (if e = SandboxUnavailable then Inl e
     else GradeResult ((base_result g (gi_touched_error g) st)\<lparr>gr_error := Some (HarnessError e)\<rparr>))"

lemma grade_body_raise:
  "gi_mode g \<in> set MODES \<Longrightarrow> check_posture g = Inr () \<Longrightarrow> grade_body g (pre_run g) = Inl (e, st) \<Longrightarrow>
     grade g = handler_result g e st"
  by (simp add: grade_def pre_run_def handler_result_def)

lemma grade_raise_cases:
  assumes "grade g = Inl e"
  obtains (mode) "gi_mode g \<notin> set MODES" "e = ValueError ''mode''"
  | (posture) "e = PostureMismatch"
  | (handler) e' st where "gi_mode g \<in> set MODES" "grade_body g (pre_run g) = Inl (e', st)"
      "handler_result g e' st = Inl e"
  using assms
  by (auto simp: grade_def pre_run_def handler_result_def check_posture_def
      split: if_splits sum.splits prod.splits)

lemma handler_result_Inl:
  assumes "handler_result g e' st = Inl e" and "gi_mode g \<in> set MODES"
  shows "e = SandboxUnavailable \<or> (e = ValueError ''lint_status'' \<and>
    lint_status_violation (gs_lint_status st) (repo_lint_clean (gs_belts st)) False \<noteq> None)"
  using assms by (auto simp: handler_result_def GradeResult_def blamed_def Let_def split: if_splits)

lemma grade_belt6_raises:
  assumes "gi_mode g \<in> set MODES" and "check_posture g = Inr ()"
    and pre: "pre_run_evidence g touched" and target: "target_evidence g"
    and br: "gi_belt_run g = Inr br" "tr_env_error br = []"
    and lint: "lint_step5 g (changed_source g touched) = Inr (Some run)" "gi_evaluate_lint g"
    and api: "api_step6 g (changed_source g touched) = Inl e"
  shows "\<exists>st. grade_body g (pre_run g) = Inl (e, st) \<and> repo_lint_clean (gs_belts st) = None \<and>
    gs_lint_status st = lint_status (Some run) (lint_disabled (gi_lint_config g))"
proof -
  obtain off where off: "gi_byte_identical g = Inr (True, off)" using pre by (auto simp: pre_run_evidence_def)
  obtain t where t: "gi_target_run g = Inr t" "tr_env_error t = []" "green t"
      "\<not> target_shortfall t (gc_qualification (gi_ctx g))"
    using target by (auto simp: target_evidence_def)
  note facts = off t br lint api pre [unfolded pre_run_evidence_def]
  have final: "\<exists>st'. grade_final g st (changed_source g touched) t br new = Inl (e, st') \<and>
      repo_lint_clean (gs_belts st') = repo_lint_clean (gs_belts st) \<and>
      gs_lint_status st' = lint_status (Some run) (lint_disabled (gi_lint_config g))" for st new
    by (simp add: grade_final_eq attempt_def lint api status_after_def)
  have target: "\<exists>st'. grade_target g st (changed_source g touched) = Inl (e, st') \<and>
      repo_lint_clean (gs_belts st') = None \<and>
      gs_lint_status st' = lint_status (Some run) (lint_disabled (gi_lint_config g))" for st
    using final [of "set_belts (belts_to (Some True) (Some True) (Some (no_new br (baseline
        (gc_qualification (gi_ctx g))))) (Some (changed_source g touched \<noteq> []))) (set_belts
        (belts_to (Some True) (Some True) None None) (st\<lparr>gs_tests_ran := True\<rparr>))"
        "new_failures br (baseline (gc_qualification (gi_ctx g)))"]
    by (simp add: grade_target_def grade_belt3_def attempt_def t br Let_def)
  have binding: "grade_binding g st touched = grade_target g st (changed_source g touched)" for st
    using facts by (simp add: grade_binding_def attempt_def)
  have orc: "\<exists>st'. grade_oracle g st touched [] = Inl (e, st') \<and> repo_lint_clean (gs_belts st') = None \<and>
      gs_lint_status st' = lint_status (Some run) (lint_disabled (gi_lint_config g))" for st
    using facts target by (simp add: grade_oracle_def grade_belt1_def attempt_def binding)
  show ?thesis
    using facts orc [of "(pre_run g)\<lparr>gs_touched_pre := touched\<rparr>"]
    by (auto simp: grade_body_def attempt_def Let_def)
qed

subsection \<open>A concrete grade\<close>

text \<open>The input the witnesses are evaluated on: one changed source file, a target run and a belt
  run that passed, a linter that accepted, and a witness whose control is green.\<close>

definition sample_run :: test_run where
  "sample_run = \<lparr>tr_returncode = 0, tr_failing = [], tr_timed_out = False, tr_parse_error = [],
     tr_env_error = [], tr_passed = Some [''t.py::test_a'']\<rparr>"

definition sample_plan :: lint_plan where
  "sample_plan = \<lparr>lp_tools = [\<lparr>lt_name = ''ruff'', lt_argv = [''ruff''], lt_paths = PATHS_CHANGED,
     lt_exts = [], lt_findings_rcs = [1], lt_stdout_is_findings = False, lt_unrunnable = None,
     lt_findings = None, lt_refuse = []\<rparr>], lp_detected = ''ruff'', lp_timeout = 300\<rparr>"

definition sample_in :: grade_in where
  "sample_in =
     \<lparr>gi_task = \<lparr>tk_id = ''abc1234'', tk_test_files = [''t.py''], tk_target_tests = [''t.py''],
        tk_belt_scope = [''t.py''], tk_posture_id = ''p'', tk_qualification_ref = ''q''\<rparr>,
      gi_ctx = \<lparr>gc_posture_id = ''p'', gc_posture_class = ''docker/none/sealed'', gc_executor = ''local'',
        gc_qualification = \<lparr>q_id = ''q'', q_posture_id = ''p'', q_task_id = ''abc1234'',
          q_baseline_failing = [], q_baseline_flaky = [], q_gold_target_passed = Some [''t.py::test_a''],
          q_gold_lint = PBool True, q_red_failing = [''t.py'']\<rparr>,
        gc_witness = Some (\<lambda>scope al. Inr \<lparr>cr_kind = BLAME_GOLD_GREEN, cr_green = True\<rparr>)\<rparr>,
      gi_mode = MODE_BLIND, gi_evaluate_lint = True, gi_evaluate_api = False, gi_api_forward = False,
      gi_executor_name = ''local'', gi_integrity = Inr [], gi_touched = Inr [''a.py''],
      gi_rule = (\<lambda>f. None), gi_tamper_suffix = (\<lambda>f. False), gi_framework = (\<lambda>f. Inr False),
      gi_sections = (\<lambda>f. Inr False), gi_is_test = (\<lambda>f. f = ''t.py''), gi_overlay = Inr (),
      gi_valid_oracle = (\<lambda>f. Inr True), gi_harness_unchanged = (\<lambda>f. Inr True),
      gi_byte_identical = Inr (True, []), gi_binding = Inr (), gi_diff = Inr (),
      gi_target_run = Inr sample_run, gi_belt_run = Inr sample_run,
      gi_lint_plan = Inr (Some sample_plan), gi_lint_config = None, gi_exists = (\<lambda>f. Inr True),
      gi_rel = (\<lambda>f. None),
      gi_exec = (\<lambda>i argv. Ran \<lparr>er_returncode = 0, er_stdout = [], er_stderr = [],
        er_timed_out = False, er_cancelled = False\<rparr>),
      gi_surf = (\<lambda>t u l. Inl (OtherError ''git timed out'')),
      gi_touched_post = Inr [''a.py''], gi_touched_error = Inr [''a.py'']\<rparr>"

definition outcome :: "grade_in \<Rightarrow> (bool \<times> bool \<times> bool \<times> bool) result" where
  "outcome g = bind_result (grade g) (\<lambda>r. Inr (gr_clean r, blamed r, gr_error r = None, gr_disqualified r))"

lemma sample_outcome: "outcome sample_in = Inr (True, False, True, False)"
  by code_simp

definition sample_blamed :: grade_in where
  "sample_blamed = sample_in\<lparr>gi_belt_run := Inr (sample_run\<lparr>tr_failing := [''t.py::test_b'']\<rparr>)\<rparr>"

lemma sample_blamed_outcome: "outcome sample_blamed = Inr (False, True, True, False)"
  by code_simp

definition sample_belt6 :: grade_in where
  "sample_belt6 = sample_in\<lparr>gi_evaluate_api := True\<rparr>"

lemma outcomeD:
  "outcome g = Inr (c, b, e, d) \<Longrightarrow> \<exists>r. grade g = Inr r \<and> gr_clean r = c \<and> blamed r = b \<and>
     (gr_error r = None) = e \<and> gr_disqualified r = d"
  by (auto simp: outcome_def)

subsection \<open>Properties\<close>

text \<open>
  C2. A clean grade is exactly its evidence. \<open>grade()\<close> returns a clean result if and only if:
  the spec, the context and the executor name one posture and one qualification; the worktree is
  intact; no test infrastructure, no other test file and (blind) no test file at all was
  touched; every oracle is valid and byte-identical; the closure holds; the target run exited 0
  inside its clock, was parseable and passed every test the gold passed; the belt run was
  attributable and failed nothing outside the in-posture baseline; a source file changed; and
  belts 5 and 6, where evaluated, did not reject.
\<close>

theorem grade_clean_iff:
  "(\<exists>r. grade g = Inr r \<and> gr_clean r) \<longleftrightarrow> clean_evidence g"
  unfolding grade_clean_body clean_body clean_evidence_def by blast

text \<open>
  C25. No blame without its witness. A result that charges the builder names a control that makes
  the charge true: a green control run by the context's own witness on the scope of the belt that
  failed (with the baseline that belt subtracted), a diff without source, an unmirrored API
  change, or a belt-5 rejection where the gold was measured to pass belt 5; \<open>unwitnessed\<close> only
  when the grade had no witness. It rests on a tree that passed every check before the run.
\<close>

theorem grade_blame_justified:
  assumes "grade g = Inr r" and "blamed r"
  shows "justified g r \<and> (\<exists>touched. pre_run_evidence g touched)"
proof -
  have "returns (\<lambda>r. verdict r \<longrightarrow> (\<exists>touched. pre_run_evidence g touched \<and> (blamed r \<longrightarrow> justified g r)))
      (grade_body g (pre_run g))"
    by (rule returns_body [OF returns_target_justified])
  with grade_verdict_body [OF assms(1) blamed_verdict [OF assms(2)]] blamed_verdict [OF assms(2)] assms(2)
  show ?thesis by (auto simp: returns_def)
qed

lemma grade_blame_justified_witness:
  "\<exists>r. grade sample_blamed = Inr r \<and> justified sample_blamed r"
proof -
  obtain r where r: "grade sample_blamed = Inr r" "blamed r"
    using outcomeD [OF sample_blamed_outcome] by auto
  with grade_blame_justified [OF r] show ?thesis by blast
qed

text \<open>
  A tampered tree gets no verdict. A result that is neither an error nor a disqualification,
  clean or not, was reached only through an intact worktree with no test infrastructure and no
  other test touched, valid and byte-identical oracles, and a closure that held.
\<close>

theorem grade_verdict_untampered:
  assumes "grade g = Inr r" and "gr_error r = None" and "\<not> gr_disqualified r"
  shows "\<exists>touched. pre_run_evidence g touched"
proof -
  have v: "verdict r" using assms by (simp add: verdict_def)
  have "returns (\<lambda>r. verdict r \<longrightarrow> (\<exists>touched. pre_run_evidence g touched \<and> True)) (grade_body g (pre_run g))"
    by (rule returns_body) (simp add: returns_def)
  with grade_verdict_body [OF assms(1) v] v show ?thesis by (simp add: returns_def)
qed

lemma grade_verdict_untampered_witness:
  "\<exists>r touched. grade sample_in = Inr r \<and> pre_run_evidence sample_in touched"
proof -
  obtain r where r: "grade sample_in = Inr r" "gr_error r = None" "\<not> gr_disqualified r"
    using outcomeD [OF sample_outcome] by auto
  with grade_verdict_untampered [OF r] show ?thesis by blast
qed

text \<open>
  What \<open>grade()\<close> lets through. It raises for a bad mode, for a posture mismatch (before
  anything ran) and when the sandbox is unavailable; every other exception is a recorded
  non-pass, except one: when belt 5 was requested and either belt 6 was requested too or the
  repository disabled belt 5, the record's own check of the belt-5 status may raise.
\<close>

theorem grade_raises_only:
  assumes "grade g = Inl e"
  shows "(e = ValueError ''mode'' \<and> gi_mode g \<notin> set MODES) \<or> e = PostureMismatch \<or>
    e = SandboxUnavailable \<or>
    (e = ValueError ''lint_status'' \<and> gi_evaluate_lint g \<and>
      (gi_evaluate_api g \<or> lint_disabled (gi_lint_config g)))"
  using assms
proof (cases rule: grade_raise_cases)
  case mode
  then show ?thesis by simp
next
  case posture
  then show ?thesis by simp
next
  case (handler e' st)
  then have "handled g st" using raises_body [of g] by (simp add: raises_in_def)
  with handler_result_Inl [OF handler(3) handler(1)] show ?thesis by (auto simp: handled_def)
qed

lemma grade_raises_only_witness:
  "grade (sample_in\<lparr>gi_mode := ''other''\<rparr>) = Inl (ValueError ''mode'') \<and> ''other'' \<notin> set MODES"
proof -
  have g: "grade (sample_in\<lparr>gi_mode := ''other''\<rparr>) = Inl (ValueError ''mode'')"
    by (simp add: grade_def MODES_def MODE_SIGHTED_def MODE_BLIND_def)
  with grade_raises_only [OF g] show ?thesis by (simp add: sample_in_def)
qed

text \<open>
  The exception belt 6 raises can escape. When belts 1 to 5 were evaluated, the repository
  has a linter that gave a verdict, and the API comparison of belt 6 raises (a git command that
  timed out, say), the handler builds its record from the belts as they stood before belt 6,
  where belt 5 is still \<open>None\<close>, with the status belt 5 already earned. The record refuses the
  pair, so \<open>grade()\<close> raises instead of recording the error.
\<close>

theorem grade_belt6_exception_escapes:
  assumes "gi_mode g \<in> set MODES" and "check_posture g = Inr ()"
    and "pre_run_evidence g touched" and "target_evidence g"
    and "gi_belt_run g = Inr br" and "tr_env_error br = []"
    and "lint_step5 g (changed_source g touched) = Inr (Some run)" and "gi_evaluate_lint g"
    and "lr_ok run \<noteq> None" and "\<not> lint_disabled (gi_lint_config g)"
    and "api_step6 g (changed_source g touched) = Inl e" and "e \<noteq> SandboxUnavailable"
  shows "grade g = Inl (ValueError ''lint_status'')"
proof -
  obtain st where st: "grade_body g (pre_run g) = Inl (e, st)" "repo_lint_clean (gs_belts st) = None"
      "gs_lint_status st = lint_status (Some run) (lint_disabled (gi_lint_config g))"
    using grade_belt6_raises [OF assms(1-8,11)] by blast
  have "lint_status (Some run) False \<in> {LINT_EVALUATED, LINT_ERROR}"
    using assms(9) by (auto simp: lint_status_def)
  then have "lint_status_violation (gs_lint_status st) None False \<noteq> None" "gs_lint_status st \<noteq> []"
    using st(3) assms(10) lint_statuses_distinct
    by (auto simp: lint_status_ok lint_status_defs)
  with st(2) assms(1,12) show ?thesis
    unfolding grade_body_raise [OF assms(1,2) st(1)]
    by (simp add: handler_result_def GradeResult_def)
qed

lemma grade_belt6_exception_escapes_witness:
  "grade sample_belt6 = Inl (ValueError ''lint_status'')"
proof -
  have pre: "pre_run_evidence sample_belt6 [''a.py'']"
    by (simp add: pre_run_evidence_def sample_belt6_def sample_in_def infra_tampered_def infra_file_def
        is_task_file_def bad_oracles_def is_oracle_file_def other_tests_def)
  have target: "target_evidence sample_belt6"
    by (simp add: target_evidence_def sample_belt6_def sample_in_def sample_run_def green_def
        target_shortfall_def)
  have ch: "changed_source sample_belt6 [''a.py''] = [''a.py'']"
    by (simp add: changed_source_def sample_belt6_def sample_in_def is_task_file_def)
  have "\<exists>run. lint_step5 sample_belt6 [''a.py''] = Inr (Some run) \<and> lr_ok run \<noteq> None"
    by (auto simp: lint_step5_def sample_belt6_def sample_in_def sample_plan_def run_plan_def LintRun_def
        run_step_def concerns_def files_for_def PATHS_CHANGED_def PATHS_ALL_def MAX_LINT_FILES_def
        read_exit_def Let_def)
  then obtain run where
    lint: "lint_step5 sample_belt6 (changed_source sample_belt6 [''a.py'']) = Inr (Some run)"
      "lr_ok run \<noteq> None"
    unfolding ch by blast
  have u: "units_for [''a.py''] = [(''a.py'', LANG_PYTHON, [''a.py''])]" by code_simp
  have api: "api_step6 sample_belt6 (changed_source sample_belt6 [''a.py'']) = Inl (OtherError ''git timed out'')"
    unfolding ch by (simp add: api_step6_def sample_belt6_def sample_in_def evaluate_api_def u unit_surfaces_def)
  have rest: "gi_mode sample_belt6 \<in> set MODES" "check_posture sample_belt6 = Inr ()"
      "gi_belt_run sample_belt6 = Inr sample_run" "tr_env_error sample_run = []"
      "gi_evaluate_lint sample_belt6" "\<not> lint_disabled (gi_lint_config sample_belt6)"
    by (simp_all add: sample_belt6_def sample_in_def MODES_def check_posture_def posture_problems_def
        sample_run_def lint_disabled_def)
  show ?thesis
    by (rule grade_belt6_exception_escapes [OF rest(1,2) pre target rest(3,4) lint(1) rest(5) lint(2)
          rest(6) api]) simp
qed

end
