(* ===== verification/Failure_Kinds.thy ===== *)
theory Failure_Kinds
  imports Complex_Main Grade
begin

section \<open>Why a row is not clean (\<open>crb/core/ledger.py\<close>, the classification)\<close>

text \<open>
  Apparatus stamps and the belt sets they may claim, the failure kinds, the live rule that names
  one and the rule frozen at apparatus 2.3, the outage cause, the cost rule, and the labels a new
  row is written with. Strings are compared as the code compares them: prefixes, and markers
  searched in the lower-cased text.
\<close>

subsection \<open>Apparatus stamps and belt sets\<close>

definition BELT_SET_V5 :: string where "BELT_SET_V5 = ''v5''"
definition BELT_SET_V4 :: string where "BELT_SET_V4 = ''v4''"
definition BELT_SET_V3_LEGACY :: string where "BELT_SET_V3_LEGACY = ''v3-legacy''"

definition BELT_SETS :: "string list" where
  "BELT_SETS = [BELT_SET_V5, BELT_SET_V4, BELT_SET_V3_LEGACY]"

definition LEGACY_APPARATUS_VERSIONS :: "string list" where
  "LEGACY_APPARATUS_VERSIONS = [''1.0-census'']"

definition IMPORTED_PROVENANCE_PREFIX :: string where "IMPORTED_PROVENANCE_PREFIX = ''imported:''"
definition PROVENANCE_MEASURED :: string where "PROVENANCE_MEASURED = ''measured''"

definition parse_apparatus_version :: "string \<Rightarrow> (nat \<times> nat) option" where
  "parse_apparatus_version version =
     (case split_on CHR ''.'' (py_strip version) of
        [a, b] \<Rightarrow> if all_digits a \<and> all_digits b then Some (nat_of_digits a, nat_of_digits b) else None
      | [a, b, c] \<Rightarrow> if all_digits a \<and> all_digits b \<and> all_digits c
                    then Some (nat_of_digits a, nat_of_digits b) else None
      | _ \<Rightarrow> None)"

text \<open>Comparison of version tuples.\<close>

definition at_least :: "nat \<times> nat \<Rightarrow> nat \<times> nat \<Rightarrow> bool" where
  "at_least v w \<longleftrightarrow> fst w < fst v \<or> (fst w = fst v \<and> snd w \<le> snd v)"

definition FIRST_V4_APPARATUS :: "nat \<times> nat" where "FIRST_V4_APPARATUS = (2, 0)"
definition FIRST_V5_APPARATUS :: "nat \<times> nat" where "FIRST_V5_APPARATUS = (2, 2)"
definition POSTURE_APPARATUS :: "nat \<times> nat" where "POSTURE_APPARATUS = (2, 3)"
definition V2_APPARATUS :: "nat \<times> nat" where "V2_APPARATUS = (2, 4)"

definition stamp_at_least :: "string \<Rightarrow> nat \<times> nat \<Rightarrow> bool" where
  "stamp_at_least s w = (case parse_apparatus_version s of None \<Rightarrow> False | Some v \<Rightarrow> at_least v w)"

definition is_v2_apparatus :: "string \<Rightarrow> bool" where
  "is_v2_apparatus s = stamp_at_least s V2_APPARATUS"

definition expected_belt_sets :: "string \<Rightarrow> string \<Rightarrow> string list" where
  "expected_belt_sets apparatus provenance =
     (if apparatus \<in> set LEGACY_APPARATUS_VERSIONS then
        (if starts_with provenance IMPORTED_PROVENANCE_PREFIX then [BELT_SET_V3_LEGACY, BELT_SET_V4] else [])
      else case parse_apparatus_version apparatus of
        None \<Rightarrow> []
      | Some v \<Rightarrow> if \<not> at_least v FIRST_V4_APPARATUS then []
          else if at_least v FIRST_V5_APPARATUS then [BELT_SET_V5] else [BELT_SET_V4])"

subsection \<open>The kinds\<close>

definition FAILURE_CLEAN :: string where "FAILURE_CLEAN = []"
definition FAILURE_BUILDER_RED :: string where "FAILURE_BUILDER_RED = ''builder_red''"
definition FAILURE_LINT :: string where "FAILURE_LINT = ''lint''"
definition FAILURE_API :: string where "FAILURE_API = ''api''"
definition FAILURE_BUDGET :: string where "FAILURE_BUDGET = ''budget''"
definition FAILURE_PROTOCOL :: string where "FAILURE_PROTOCOL = ''protocol''"
definition FAILURE_HARNESS :: string where "FAILURE_HARNESS = ''harness''"
definition FAILURE_DISQUALIFIED :: string where "FAILURE_DISQUALIFIED = ''disqualified''"
definition FAILURE_OUTAGE :: string where "FAILURE_OUTAGE = ''outage''"
definition FAILURE_AUTHORING :: string where "FAILURE_AUTHORING = ''authoring''"

definition FAILURE_KINDS :: "string list" where
  "FAILURE_KINDS = [FAILURE_CLEAN, FAILURE_BUILDER_RED, FAILURE_LINT, FAILURE_API, FAILURE_BUDGET,
     FAILURE_PROTOCOL, FAILURE_HARNESS, FAILURE_OUTAGE, FAILURE_AUTHORING, FAILURE_DISQUALIFIED]"

definition MODEL_FAILURE_KINDS :: "string list" where
  "MODEL_FAILURE_KINDS = [FAILURE_BUILDER_RED, FAILURE_LINT, FAILURE_API]"

definition INSTRUMENT_FAILURE_KINDS :: "string list" where
  "INSTRUMENT_FAILURE_KINDS = [FAILURE_PROTOCOL, FAILURE_HARNESS]"

definition BUDGET_STOP_REASONS :: "string list" where
  "BUDGET_STOP_REASONS = [''max_turns'', ''max_tool_calls'', ''max_tokens'', ''max_cost_usd'', ''wall_clock'']"

definition PROTOCOL_VIOLATION_PREFIX :: string where "PROTOCOL_VIOLATION_PREFIX = ''protocol violation:''"
definition AUTHORING_ERROR_PREFIX :: string where "AUTHORING_ERROR_PREFIX = ''authoring:''"
definition AUTHORING_HARNESS_ERROR :: string where
  "AUTHORING_HARNESS_ERROR = ''harness error proving RED:''"

definition AUTHORING_AUTHOR_FAILED :: string where
  "AUTHORING_AUTHOR_FAILED = ''the test author failed:''"

definition OUTAGE_ERROR_MARKERS :: "string list" where
  "OUTAGE_ERROR_MARKERS = [''hit your limit'', ''usage limit'', ''rate_limit'', ''rate limit'', ''429'',
     ''overloaded'', ''quota'', ''insufficient credit'', ''credit balance'', ''authentication failed'',
     ''oauth access token is invalid'', ''402'', ''503'', ''529'']"

definition OUTAGE_ERROR_MARKERS_V1 :: "string list" where
  "OUTAGE_ERROR_MARKERS_V1 = [''hit your limit'', ''usage limit'', ''rate_limit'', ''rate limit'', ''429'',
     ''overloaded'', ''quota'', ''insufficient credit'', ''credit balance'', ''authentication failed'',
     ''oauth access token is invalid'', ''402'', ''503'', ''529'']"

definition AUTH_ERROR_MARKERS :: "string list" where
  "AUTH_ERROR_MARKERS = [''authentication failed'', ''oauth access token is invalid'']"

subsection \<open>Reading an error\<close>

definition outage_by :: "string list \<Rightarrow> string \<Rightarrow> bool" where
  "outage_by markers error =
     (let e = py_lower error in starts_with e ''model_error'' \<and> list_ex (contains e) markers)"

definition is_outage_error :: "string \<Rightarrow> bool" where
  "is_outage_error = outage_by OUTAGE_ERROR_MARKERS"

definition is_outage_error_v1 :: "string \<Rightarrow> bool" where
  "is_outage_error_v1 = outage_by OUTAGE_ERROR_MARKERS_V1"

definition authoring_rest :: "string \<Rightarrow> string" where
  "authoring_rest error = py_lstrip (drop (length AUTHORING_ERROR_PREFIX) error)"

definition authoring_model_error :: "string \<Rightarrow> string" where
  "authoring_model_error error =
     (if \<not> starts_with error AUTHORING_ERROR_PREFIX then []
      else let rest = authoring_rest error;
               rest2 = (if starts_with rest AUTHORING_AUTHOR_FAILED
                        then py_lstrip (drop (length AUTHORING_AUTHOR_FAILED) rest) else rest)
           in if starts_with (py_lower rest2) ''model_error'' then rest2 else [])"

definition authoring_outage :: "string \<Rightarrow> bool" where
  "authoring_outage error = is_outage_error (authoring_model_error error)"

definition authoring_instrument_failure :: "string \<Rightarrow> bool" where
  "authoring_instrument_failure error \<longleftrightarrow> starts_with error AUTHORING_ERROR_PREFIX \<and>
     (authoring_model_error error \<noteq> [] \<or> starts_with (authoring_rest error) AUTHORING_HARNESS_ERROR)"

subsection \<open>The rule\<close>

record failure_facts =
  ff_clean :: bool
  ff_disqualified :: bool
  ff_error :: string
  ff_builder_error :: string
  ff_stop_reason :: string
  ff_lint_only :: bool
  ff_api_only :: bool

definition protocol_violation :: "failure_facts \<Rightarrow> bool" where
  "protocol_violation f \<longleftrightarrow> starts_with (ff_error f) PROTOCOL_VIOLATION_PREFIX \<or>
     starts_with (ff_builder_error f) PROTOCOL_VIOLATION_PREFIX"

definition derive_failure_kind :: "failure_facts \<Rightarrow> string" where
  "derive_failure_kind f =
     (if ff_clean f then FAILURE_CLEAN
      else if ff_disqualified f then FAILURE_DISQUALIFIED
      else if protocol_violation f then FAILURE_PROTOCOL
      else if starts_with (ff_error f) AUTHORING_ERROR_PREFIX then
        (if authoring_outage (ff_error f) then FAILURE_OUTAGE
         else if authoring_instrument_failure (ff_error f) then FAILURE_HARNESS else FAILURE_AUTHORING)
      else if ff_error f \<noteq> [] then
        (if is_outage_error (ff_error f) then FAILURE_OUTAGE else FAILURE_HARNESS)
      else if ff_stop_reason f \<in> set BUDGET_STOP_REASONS then FAILURE_BUDGET
      else if ff_api_only f then FAILURE_API
      else if ff_lint_only f then FAILURE_LINT
      else FAILURE_BUILDER_RED)"

definition derive_failure_kind_v1 :: "failure_facts \<Rightarrow> string" where
  "derive_failure_kind_v1 f =
     (if ff_clean f then FAILURE_CLEAN
      else if ff_disqualified f then FAILURE_DISQUALIFIED
      else if protocol_violation f then FAILURE_PROTOCOL
      else if ff_error f \<noteq> [] then
        (if is_outage_error_v1 (ff_error f) then FAILURE_OUTAGE else FAILURE_HARNESS)
      else if ff_stop_reason f \<in> set BUDGET_STOP_REASONS then FAILURE_BUDGET
      else if ff_api_only f then FAILURE_API
      else if ff_lint_only f then FAILURE_LINT
      else FAILURE_BUILDER_RED)"

definition OUTAGE_CAUSE_AUTH :: string where "OUTAGE_CAUSE_AUTH = ''auth''"
definition OUTAGE_CAUSE_PROVIDER :: string where "OUTAGE_CAUSE_PROVIDER = ''provider''"

definition derive_outage_cause :: "string \<Rightarrow> string \<Rightarrow> string" where
  "derive_outage_cause kind error =
     (if kind \<noteq> FAILURE_OUTAGE then []
      else if list_ex (contains (py_lower error)) AUTH_ERROR_MARKERS then OUTAGE_CAUSE_AUTH
      else OUTAGE_CAUSE_PROVIDER)"

definition derive_cost_known :: "rat \<Rightarrow> int \<Rightarrow> int \<Rightarrow> bool \<Rightarrow> bool \<Rightarrow> bool" where
  "derive_cost_known cost_usd tokens_in tokens_out builder_reported pricing_known =
     (if \<not> pricing_known then False
      else if cost_usd > 0 \<or> tokens_in > 0 \<or> tokens_out > 0 then True
      else builder_reported)"

text \<open>\<open>note.split(";", 1)[0].strip()\<close>\<close>

definition builder_stop_reason :: "string \<Rightarrow> string" where
  "builder_stop_reason note = py_strip (fst (split_once CHR '';'' note))"

subsection \<open>Belt-only failures\<close>

definition core_belts_true :: "belts \<Rightarrow> bool" where
  "core_belts_true b \<longleftrightarrow> tests_unmodified b = Some True \<and> target_green b = Some True \<and>
     no_new_failures b = Some True \<and> source_changed b = Some True"

definition lint_only_failure :: "belts \<Rightarrow> bool" where
  "lint_only_failure b \<longleftrightarrow> repo_lint_clean b = Some False \<and> core_belts_true b"

definition api_only_failure :: "belts \<Rightarrow> bool" where
  "api_only_failure b \<longleftrightarrow> api_stable b = Some False \<and> core_belts_true b"

subsection \<open>Labels\<close>

definition LABEL_FAILURE_KIND :: string where "LABEL_FAILURE_KIND = ''failure_kind''"
definition LABEL_COST_KNOWN :: string where "LABEL_COST_KNOWN = ''cost_known''"
definition LABEL_STOP_REASON :: string where "LABEL_STOP_REASON = ''stop_reason''"
definition LABEL_POSTURE_ID :: string where "LABEL_POSTURE_ID = ''posture_id''"
definition LABEL_POSTURE_CLASS :: string where "LABEL_POSTURE_CLASS = ''posture_class''"
definition LABEL_QUALIFICATION :: string where "LABEL_QUALIFICATION = ''qualification_id''"
definition LABEL_BLAME_CONTROL :: string where "LABEL_BLAME_CONTROL = ''blame_control''"
definition LABEL_ENV_CODE :: string where "LABEL_ENV_CODE = ''env_code''"
definition LABEL_LINT_REASON :: string where "LABEL_LINT_REASON = ''lint_reason''"
definition LABEL_CHANGE_ID :: string where "LABEL_CHANGE_ID = ''change_id''"
definition LABEL_CONTEXT_ARM :: string where "LABEL_CONTEXT_ARM = ''context_arm''"
definition LABEL_TAXONOMY :: string where "LABEL_TAXONOMY = ''taxonomy''"
definition LABEL_OUTAGE_CAUSE :: string where "LABEL_OUTAGE_CAUSE = ''outage_cause''"
definition LABEL_BUILDER_EXECUTOR :: string where "LABEL_BUILDER_EXECUTOR = ''builder_executor''"
definition LABEL_IMPORTED :: string where "LABEL_IMPORTED = ''imported''"
definition LABEL_SOURCE_ROW_HASH :: string where "LABEL_SOURCE_ROW_HASH = ''source_row_hash''"
definition LABEL_API_STABLE :: string where "LABEL_API_STABLE = ''api_stable''"
definition LABEL_API_FINDINGS :: string where "LABEL_API_FINDINGS = ''api_findings''"
definition LABEL_CHECKS :: string where "LABEL_CHECKS = ''checks''"
definition LABEL_BUILDER_ERROR :: string where "LABEL_BUILDER_ERROR = ''builder_error''"
definition LABEL_RUNG :: string where "LABEL_RUNG = ''rung''"
definition BUILDER_EXECUTOR_SEALED :: string where "BUILDER_EXECUTOR_SEALED = ''docker''"
definition GLOBAL_CLASS_SET :: string where "GLOBAL_CLASS_SET = ''global/classes@v1''"

definition POSTURE_LABELS :: "string list" where
  "POSTURE_LABELS = [LABEL_POSTURE_ID, LABEL_POSTURE_CLASS, LABEL_QUALIFICATION]"

definition V2_ONLY_LABELS :: "string list" where
  "V2_ONLY_LABELS = [LABEL_LINT_REASON, LABEL_CHANGE_ID, LABEL_CONTEXT_ARM, LABEL_TAXONOMY, LABEL_OUTAGE_CAUSE]"

definition V2_KEPT_LABELS :: "string list" where
  "V2_KEPT_LABELS = V2_ONLY_LABELS @ [LABEL_BUILDER_EXECUTOR]"

definition labels_at_apparatus :: "dict \<Rightarrow> string \<Rightarrow> dict" where
  "labels_at_apparatus labels apparatus =
     (if is_v2_apparatus apparatus then labels else filter (\<lambda>(k, v). k \<notin> set V2_KEPT_LABELS) labels)"

definition is_sealed_class :: "string \<Rightarrow> bool" where
  "is_sealed_class c \<longleftrightarrow> starts_with c ''docker/'' \<and> ends_with c ''/sealed''"

definition owner_char :: "char \<Rightarrow> bool" where
  "owner_char c \<longleftrightarrow> (let n = (of_char c :: nat) in (97 \<le> n \<and> n \<le> 122) \<or> (48 \<le> n \<and> n \<le> 57) \<or>
     c \<in> set ''._-'')"

definition is_class_set_version :: "string \<Rightarrow> bool" where
  "is_class_set_version version =
     (let v = py_strip version in case split_once CHR ''/'' v of
        (owner, Some rest) \<Rightarrow>
          owner \<noteq> [] \<and> hd owner \<notin> set ''._-'' \<and> list_all owner_char owner \<and>
          starts_with rest ''classes@v'' \<and>
          (let n = drop 9 rest in all_digits n \<and> hd n \<noteq> CHR ''0'')
      | _ \<Rightarrow> False)"

subsection \<open>Lemmas\<close>

lemmas failure_kind_defs = FAILURE_CLEAN_def FAILURE_BUILDER_RED_def FAILURE_LINT_def FAILURE_API_def
  FAILURE_BUDGET_def FAILURE_PROTOCOL_def FAILURE_HARNESS_def FAILURE_DISQUALIFIED_def
  FAILURE_OUTAGE_def FAILURE_AUTHORING_def

lemma failure_kinds_distinct: "distinct FAILURE_KINDS"
  by (simp add: FAILURE_KINDS_def failure_kind_defs)

lemma model_kinds: "k \<in> set MODEL_FAILURE_KINDS \<longleftrightarrow> k = FAILURE_BUILDER_RED \<or> k = FAILURE_LINT \<or> k = FAILURE_API"
  by (simp add: MODEL_FAILURE_KINDS_def)

text \<open>The six decisions the rule makes before it reads a belt, as one classification.\<close>

definition instrument_cause :: "failure_facts \<Rightarrow> bool" where
  "instrument_cause f \<longleftrightarrow> ff_disqualified f \<or> protocol_violation f \<or> ff_error f \<noteq> [] \<or>
     ff_stop_reason f \<in> set BUDGET_STOP_REASONS"

lemma authoring_error_ne: "starts_with e AUTHORING_ERROR_PREFIX \<Longrightarrow> e \<noteq> []"
  by (auto simp: starts_with_def AUTHORING_ERROR_PREFIX_def)

lemma derive_failure_kind_model:
  "\<not> ff_clean f \<Longrightarrow> \<not> instrument_cause f \<Longrightarrow> derive_failure_kind f =
     (if ff_api_only f then FAILURE_API else if ff_lint_only f then FAILURE_LINT else FAILURE_BUILDER_RED)"
  using authoring_error_ne by (auto simp: derive_failure_kind_def instrument_cause_def)

lemma derive_failure_kind_instrument:
  "\<not> ff_clean f \<Longrightarrow> instrument_cause f \<Longrightarrow> derive_failure_kind f \<in>
     {FAILURE_DISQUALIFIED, FAILURE_PROTOCOL, FAILURE_OUTAGE, FAILURE_HARNESS, FAILURE_AUTHORING, FAILURE_BUDGET}"
  by (auto simp: derive_failure_kind_def instrument_cause_def)

lemma derive_failure_kind_clean: "ff_clean f \<Longrightarrow> derive_failure_kind f = FAILURE_CLEAN"
  by (simp add: derive_failure_kind_def)

lemma kind_apart:
  "k \<in> {FAILURE_DISQUALIFIED, FAILURE_PROTOCOL, FAILURE_OUTAGE, FAILURE_HARNESS, FAILURE_AUTHORING, FAILURE_BUDGET} \<Longrightarrow>
     k \<notin> set MODEL_FAILURE_KINDS \<and> k \<noteq> FAILURE_CLEAN"
  by (auto simp: MODEL_FAILURE_KINDS_def failure_kind_defs)

lemma derive_failure_kind_in: "derive_failure_kind f \<in> set FAILURE_KINDS"
  by (simp add: derive_failure_kind_def FAILURE_KINDS_def)

lemma derive_failure_kind_clean_iff: "derive_failure_kind f = FAILURE_CLEAN \<longleftrightarrow> ff_clean f"
  by (auto simp: derive_failure_kind_def failure_kind_defs)

lemma derive_failure_kind_dq_iff:
  "derive_failure_kind f = FAILURE_DISQUALIFIED \<longleftrightarrow> \<not> ff_clean f \<and> ff_disqualified f"
  by (auto simp: derive_failure_kind_def failure_kind_defs)

lemma derive_failure_kind_not_instrument:
  "derive_failure_kind f \<in> set MODEL_FAILURE_KINDS \<longleftrightarrow> \<not> ff_clean f \<and> \<not> instrument_cause f"
proof (cases "ff_clean f")
  case True
  then show ?thesis by (simp add: derive_failure_kind_clean MODEL_FAILURE_KINDS_def failure_kind_defs)
next
  case False
  show ?thesis
  proof (cases "instrument_cause f")
    case True
    with False kind_apart [OF derive_failure_kind_instrument [OF False True]] show ?thesis by blast
  next
    case ni: False
    with False show ?thesis by (simp add: derive_failure_kind_model MODEL_FAILURE_KINDS_def)
  qed
qed

lemma derive_failure_kind_belt_only:
  "k \<in> set MODEL_FAILURE_KINDS \<Longrightarrow> derive_failure_kind f = k \<longleftrightarrow> \<not> ff_clean f \<and> \<not> instrument_cause f \<and>
     (if ff_api_only f then FAILURE_API else if ff_lint_only f then FAILURE_LINT else FAILURE_BUILDER_RED) = k"
  using derive_failure_kind_not_instrument derive_failure_kind_model by metis

lemma derive_failure_kind_api:
  "derive_failure_kind f = FAILURE_API \<longleftrightarrow> \<not> ff_clean f \<and> \<not> instrument_cause f \<and> ff_api_only f"
proof -
  have "FAILURE_API \<in> set MODEL_FAILURE_KINDS" by (simp add: MODEL_FAILURE_KINDS_def)
  note derive_failure_kind_belt_only [OF this, of f]
  then show ?thesis by (simp add: failure_kind_defs)
qed

lemma derive_failure_kind_lint:
  "derive_failure_kind f = FAILURE_LINT \<longleftrightarrow>
     \<not> ff_clean f \<and> \<not> instrument_cause f \<and> \<not> ff_api_only f \<and> ff_lint_only f"
proof -
  have "FAILURE_LINT \<in> set MODEL_FAILURE_KINDS" by (simp add: MODEL_FAILURE_KINDS_def)
  note derive_failure_kind_belt_only [OF this, of f]
  then show ?thesis by (simp add: failure_kind_defs)
qed

subsection \<open>Properties\<close>

text \<open>
  The model is charged only for a finished attempt. The rule names one of the three kinds
  that count against the model exactly when the row is not clean and no other cause exists: not
  disqualified, no protocol violation, no error of any kind, and the builder's budget did not run
  out; and then belt 6 alone decides \<open>api\<close>, else belt 5 alone decides \<open>lint\<close>.
\<close>

theorem model_charged_only_when_finished:
  "(derive_failure_kind f \<in> set MODEL_FAILURE_KINDS \<longleftrightarrow>
      \<not> ff_clean f \<and> \<not> ff_disqualified f \<and> \<not> protocol_violation f \<and> ff_error f = [] \<and>
      ff_stop_reason f \<notin> set BUDGET_STOP_REASONS) \<and>
   (derive_failure_kind f = FAILURE_API \<longleftrightarrow> \<not> ff_clean f \<and> \<not> instrument_cause f \<and> ff_api_only f) \<and>
   (derive_failure_kind f = FAILURE_LINT \<longleftrightarrow>
      \<not> ff_clean f \<and> \<not> instrument_cause f \<and> \<not> ff_api_only f \<and> ff_lint_only f)"
proof (intro conjI)
  show "derive_failure_kind f \<in> set MODEL_FAILURE_KINDS \<longleftrightarrow>
      \<not> ff_clean f \<and> \<not> ff_disqualified f \<and> \<not> protocol_violation f \<and> ff_error f = [] \<and>
      ff_stop_reason f \<notin> set BUDGET_STOP_REASONS"
    unfolding derive_failure_kind_not_instrument instrument_cause_def by blast
  show "derive_failure_kind f = FAILURE_API \<longleftrightarrow> \<not> ff_clean f \<and> \<not> instrument_cause f \<and> ff_api_only f"
    by (rule derive_failure_kind_api)
  show "derive_failure_kind f = FAILURE_LINT \<longleftrightarrow>
      \<not> ff_clean f \<and> \<not> instrument_cause f \<and> \<not> ff_api_only f \<and> ff_lint_only f"
    by (rule derive_failure_kind_lint)
qed

text \<open>
  The rule that reads new rows differs from the rule frozen at apparatus 2.3 on authoring
  errors only: on every other row they name the same kind, and on an authoring error the frozen
  rule says \<open>harness\<close> where the live one separates the provider's refusal, the instrument's own
  failure and the author's.
\<close>

theorem frozen_rule_agrees:
  "(if ff_clean f \<or> ff_disqualified f \<or> protocol_violation f \<or> \<not> starts_with (ff_error f) AUTHORING_ERROR_PREFIX
    then derive_failure_kind f = derive_failure_kind_v1 f
    else derive_failure_kind_v1 f = FAILURE_HARNESS \<and>
      derive_failure_kind f =
        (if authoring_outage (ff_error f) then FAILURE_OUTAGE
         else if authoring_instrument_failure (ff_error f) then FAILURE_HARNESS else FAILURE_AUTHORING))"
proof -
  have same: "is_outage_error = is_outage_error_v1"
    by (simp add: is_outage_error_def is_outage_error_v1_def OUTAGE_ERROR_MARKERS_def OUTAGE_ERROR_MARKERS_V1_def)
  have no: "\<not> is_outage_error_v1 e" if "starts_with e AUTHORING_ERROR_PREFIX" for e
  proof -
    from that obtain t where "e = ''authoring:'' @ t"
      by (auto simp: starts_with_prefix AUTHORING_ERROR_PREFIX_def prefix_def)
    then show ?thesis
      by (simp add: is_outage_error_v1_def outage_by_def py_lower_def starts_with_def lower_char_def)
  qed
  show ?thesis
    using no authoring_error_ne by (auto simp: derive_failure_kind_def derive_failure_kind_v1_def same)
qed


definition sample_authoring :: failure_facts where
  "sample_authoring = \<lparr>ff_clean = False, ff_disqualified = False, ff_error = ''authoring: no red test'',
     ff_builder_error = [], ff_stop_reason = [], ff_lint_only = False, ff_api_only = False\<rparr>"

lemma frozen_rule_agrees_witness:
  "derive_failure_kind_v1 sample_authoring = FAILURE_HARNESS \<and>
   derive_failure_kind sample_authoring = FAILURE_AUTHORING"
proof -
  have "starts_with (ff_error sample_authoring) AUTHORING_ERROR_PREFIX"
    "\<not> ff_clean sample_authoring" "\<not> ff_disqualified sample_authoring" "\<not> protocol_violation sample_authoring"
    "\<not> authoring_outage (ff_error sample_authoring)" "\<not> authoring_instrument_failure (ff_error sample_authoring)"
    by code_simp+
  then show ?thesis using frozen_rule_agrees [of sample_authoring] by simp
qed

end
