(* ===== verification/Ledger_Row.thy ===== *)
theory Ledger_Row
  imports Failure_Kinds Checks
begin

section \<open>The ledger's row (\<open>crb/core/ledger.py\<close>, \<open>GradeRow\<close>)\<close>

text \<open>
  The row every statistic is built from: its fields, the derived classification, the invariants
  its constructor enforces at write and on read, and the one mapping from a grade to a row.

  Parameters: the text of a grade's error and disqualification reason (\<open>texts\<close>), the row id and
  the creation time, which the code draws from \<open>uuid\<close> and the clock. A message of a refusal is
  its exception with a tag.
\<close>

subsection \<open>The row\<close>

datatype belt = Tests_unmodified | Target_green | No_new_failures | Source_changed | Repo_lint_clean

definition CORE_BELT_NAMES :: "belt list" where
  "CORE_BELT_NAMES = [Tests_unmodified, Target_green, No_new_failures, Source_changed]"

definition OPTIONAL_BELT_NAMES :: "belt list" where
  "OPTIONAL_BELT_NAMES = [Repo_lint_clean]"

definition BELT_NAMES :: "belt list" where
  "BELT_NAMES = CORE_BELT_NAMES @ OPTIONAL_BELT_NAMES"

record grade_row =
  row_repo :: string
  row_task_id :: string
  row_clean :: bool
  row_tests_unmodified :: "bool option"
  row_target_green :: "bool option"
  row_no_new_failures :: "bool option"
  row_source_changed :: "bool option"
  row_repo_lint_clean :: "bool option"
  row_capability_class :: string
  row_size :: string
  row_language :: string
  row_pool :: string
  row_mode :: string
  row_process_step :: string
  row_builder :: string
  row_model :: string
  row_provider :: string
  row_run_id :: string
  row_trial :: string
  row_actor :: string
  row_created :: string
  row_disqualified :: bool
  row_dq_reason :: string
  row_error :: string
  row_new_failures_count :: nat
  row_attempts :: int
  row_cost_usd :: rat
  row_tokens_in :: int
  row_tokens_out :: int
  row_latency_s :: rat
  row_oracle_strength :: "rat option"
  row_gold_clean :: "bool option"
  row_evidence_pack_hash :: string
  row_apparatus_version :: string
  row_belt_set :: string
  row_provenance :: string
  row_labels :: dict
  row_schema :: string
  row_row_id :: string
  row_prev_hash :: string
  row_row_hash :: string

definition TRIAL_MAX_LEN :: nat where "TRIAL_MAX_LEN = 16"

definition row_belt :: "grade_row \<Rightarrow> belt \<Rightarrow> bool option" where
  "row_belt r b = (case b of Tests_unmodified \<Rightarrow> row_tests_unmodified r | Target_green \<Rightarrow> row_target_green r
     | No_new_failures \<Rightarrow> row_no_new_failures r | Source_changed \<Rightarrow> row_source_changed r
     | Repo_lint_clean \<Rightarrow> row_repo_lint_clean r)"

definition recorded_belts :: "grade_row \<Rightarrow> belt list" where
  "recorded_belts r = (if row_belt_set r = BELT_SET_V3_LEGACY then take 3 BELT_NAMES
     else if row_belt_set r = BELT_SET_V4 then take 4 BELT_NAMES else BELT_NAMES)"

definition belts_all_true :: "grade_row \<Rightarrow> bool" where
  "belts_all_true r \<longleftrightarrow>
     list_all (\<lambda>b. row_belt r b = Some True) (filter (\<lambda>b. b \<in> set CORE_BELT_NAMES) (recorded_belts r)) \<and>
     list_all (\<lambda>b. row_belt r b \<noteq> Some False) (filter (\<lambda>b. b \<notin> set CORE_BELT_NAMES) (recorded_belts r))"

definition label_of :: "grade_row \<Rightarrow> string \<Rightarrow> string" where
  "label_of r k = dget (row_labels r) k []"

text \<open>The recorded belts as the failure rule reads them: an unrecorded belt is absent, and belt 6
  is the row's label.\<close>

definition recorded :: "grade_row \<Rightarrow> belt \<Rightarrow> bool option" where
  "recorded r b = (if b \<in> set (recorded_belts r) then row_belt r b else None)"

definition rule_belts :: "grade_row \<Rightarrow> belts" where
  "rule_belts r = \<lparr>tests_unmodified = recorded r Tests_unmodified, target_green = recorded r Target_green,
     no_new_failures = recorded r No_new_failures, source_changed = recorded r Source_changed,
     repo_lint_clean = recorded r Repo_lint_clean,
     api_stable = (if map_of (row_labels r) LABEL_API_STABLE = Some ''false'' then Some False else None)\<rparr>"

definition row_lint_only :: "grade_row \<Rightarrow> bool" where
  "row_lint_only r = lint_only_failure (rule_belts r)"

definition row_api_only :: "grade_row \<Rightarrow> bool" where
  "row_api_only r = api_only_failure (rule_belts r)"

definition row_facts :: "grade_row \<Rightarrow> failure_facts" where
  "row_facts r = \<lparr>ff_clean = row_clean r, ff_disqualified = row_disqualified r, ff_error = row_error r,
     ff_builder_error = label_of r LABEL_BUILDER_ERROR, ff_stop_reason = label_of r LABEL_STOP_REASON,
     ff_lint_only = row_lint_only r, ff_api_only = row_api_only r\<rparr>"

definition row_failure_kind :: "grade_row \<Rightarrow> string" where
  "row_failure_kind r =
     (let v2 = is_v2_apparatus (row_apparatus_version r) in
      case map_of (row_labels r) LABEL_FAILURE_KIND of
        Some pinned \<Rightarrow>
          if \<not> v2 \<and> pinned = FAILURE_HARNESS \<and> is_outage_error_v1 (row_error r)
          then FAILURE_OUTAGE else pinned
      | None \<Rightarrow> if v2 then derive_failure_kind (row_facts r) else derive_failure_kind_v1 (row_facts r))"

definition row_cost_known :: "grade_row \<Rightarrow> bool" where
  "row_cost_known r = (case map_of (row_labels r) LABEL_COST_KNOWN of
       Some pinned \<Rightarrow> pinned = ''true''
     | None \<Rightarrow> derive_cost_known (row_cost_usd r) (row_tokens_in r) (row_tokens_out r)
         (row_builder r \<noteq> [] \<and> \<not> starts_with (row_provenance r) IMPORTED_PROVENANCE_PREFIX) True)"

definition row_checks_arm :: "grade_row \<Rightarrow> string" where
  "row_checks_arm r = arm_from_label (label_of r LABEL_CHECKS) (dhas (row_labels r) LABEL_API_STABLE)"

definition row_context_arm :: "grade_row \<Rightarrow> string" where
  "row_context_arm r = label_of r LABEL_CONTEXT_ARM"

definition row_taxonomy :: "grade_row \<Rightarrow> string" where
  "row_taxonomy r = label_of r LABEL_TAXONOMY"

definition row_change_id :: "grade_row \<Rightarrow> string" where
  "row_change_id r = label_of r LABEL_CHANGE_ID"

definition row_lint_reason :: "grade_row \<Rightarrow> string" where
  "row_lint_reason r = label_of r LABEL_LINT_REASON"

definition row_posture_class :: "grade_row \<Rightarrow> string" where
  "row_posture_class r = label_of r LABEL_POSTURE_CLASS"

definition row_imported :: "grade_row \<Rightarrow> bool" where
  "row_imported r \<longleftrightarrow> map_of (row_labels r) LABEL_IMPORTED = Some ''true'' \<or>
     dhas (row_labels r) LABEL_SOURCE_ROW_HASH"

definition row_sealed :: "grade_row \<Rightarrow> bool" where
  "row_sealed r \<longleftrightarrow> is_sealed_class (row_posture_class r) \<and>
     label_of r LABEL_BUILDER_EXECUTOR = BUILDER_EXECUTOR_SEALED"

definition row_outage_cause :: "grade_row \<Rightarrow> string" where
  "row_outage_cause r = label_of r LABEL_OUTAGE_CAUSE"

definition row_eligible :: "grade_row \<Rightarrow> bool" where
  "row_eligible r \<longleftrightarrow> \<not> row_disqualified r \<and> row_gold_clean r \<noteq> Some False \<and>
     row_failure_kind r \<noteq> FAILURE_OUTAGE"

record cell_key =
  ck_process_step :: string
  ck_capability_class :: string
  ck_size :: string
  ck_language :: string
  ck_builder :: string
  ck_model :: string
  ck_provider :: string

definition row_cell :: "grade_row \<Rightarrow> cell_key" where
  "row_cell r = \<lparr>ck_process_step = row_process_step r, ck_capability_class = row_capability_class r,
     ck_size = row_size r, ck_language = row_language r, ck_builder = row_builder r,
     ck_model = row_model r, ck_provider = row_provider r\<rparr>"

subsection \<open>The invariants\<close>

definition carries_posture :: "grade_row \<Rightarrow> bool" where
  "carries_posture r \<longleftrightarrow> row_provenance r = PROVENANCE_MEASURED \<and>
     stamp_at_least (row_apparatus_version r) POSTURE_APPARATUS"

definition carries_classification :: "grade_row \<Rightarrow> bool" where
  "carries_classification r \<longleftrightarrow> row_provenance r = PROVENANCE_MEASURED \<and>
     is_v2_apparatus (row_apparatus_version r)"

type_synonym guards = "(bool \<times> exn) list"

definition clean_guards :: "grade_row \<Rightarrow> guards" where
  "clean_guards r = (let c = row_clean r in
     [(c \<and> \<not> belts_all_true r, FalseQ1Violation ''belts''),
      (c \<and> (row_disqualified r \<or> row_error r \<noteq> []), FalseQ1Violation ''disqualified or error''),
      (c \<and> row_evidence_pack_hash r = [], FalseQ1Violation ''no pack''),
      (c \<and> map_of (row_labels r) LABEL_API_STABLE = Some ''false'', FalseQ1Violation ''belt 6'')])"

definition kind_guards :: "grade_row \<Rightarrow> guards" where
  "kind_guards r = (case map_of (row_labels r) LABEL_FAILURE_KIND of
       None \<Rightarrow> []
     | Some kind \<Rightarrow>
         [(kind \<notin> set FAILURE_KINDS, ValueError ''failure_kind''),
          ((kind \<noteq> []) = row_clean r, FalseQ1Violation ''failure_kind''),
          (row_disqualified r \<noteq> (kind = FAILURE_DISQUALIFIED), ValueError ''disqualified'')])"

definition cause_guards :: "grade_row \<Rightarrow> guards" where
  "cause_guards r = (case map_of (row_labels r) LABEL_OUTAGE_CAUSE of
       None \<Rightarrow> []
     | Some cause \<Rightarrow>
         [(cause \<notin> {OUTAGE_CAUSE_AUTH, OUTAGE_CAUSE_PROVIDER}, ValueError ''outage_cause''),
          (\<not> is_v2_apparatus (row_apparatus_version r), ValueError ''outage_cause apparatus''),
          (row_failure_kind r \<noteq> FAILURE_OUTAGE, ValueError ''outage_cause kind'')])"

definition cost_guards :: "grade_row \<Rightarrow> guards" where
  "cost_guards r = (case map_of (row_labels r) LABEL_COST_KNOWN of
       None \<Rightarrow> []
     | Some ck \<Rightarrow> [(ck \<notin> {''true'', ''false''}, ValueError ''cost_known'')])"

definition belt_set_guards :: "grade_row \<Rightarrow> guards" where
  "belt_set_guards r =
     [(row_belt_set r \<notin> set (expected_belt_sets (row_apparatus_version r) (row_provenance r)),
       LedgerIntegrityError ''belt_set''),
      (row_belt_set r = BELT_SET_V3_LEGACY \<and> row_source_changed r \<noteq> None,
       LedgerIntegrityError ''v3-legacy belt 4'')]"

definition posture_guards :: "grade_row \<Rightarrow> guards" where
  "posture_guards r = (if \<not> carries_posture r then []
     else [(list_ex (\<lambda>k. label_of r k = []) POSTURE_LABELS, MisattributionViolation ''posture labels''),
       (row_failure_kind r \<in> set MODEL_FAILURE_KINDS \<and>
          label_of r LABEL_BLAME_CONTROL \<notin> set BLAME_CONTROLS, MisattributionViolation ''witness'')])"

definition arm_base :: "string \<Rightarrow> base option" where
  "arm_base s = (case parse_arm s of Inl _ \<Rightarrow> None | Inr a \<Rightarrow> Some (ca_base a))"

definition classification_guards :: "grade_row \<Rightarrow> guards" where
  "classification_guards r =
     [(\<not> is_v2_apparatus (row_apparatus_version r) \<and> list_ex (dhas (row_labels r)) V2_ONLY_LABELS,
       LedgerIntegrityError ''v2 label'')] @
     (if \<not> carries_classification r then []
      else let reason = label_of r LABEL_LINT_REASON; arm = label_of r LABEL_CONTEXT_ARM;
               step = row_process_step r in
       [(\<not> dhas (row_labels r) LABEL_FAILURE_KIND, LedgerIntegrityError ''no failure_kind''),
        (row_failure_kind r = FAILURE_OUTAGE \<and> \<not> dhas (row_labels r) LABEL_OUTAGE_CAUSE,
         LedgerIntegrityError ''no outage_cause''),
        (\<not> dhas (row_labels r) LABEL_LINT_REASON, LedgerIntegrityError ''no lint_reason''),
        (reason = LINT_NOT_REQUESTED, LedgerIntegrityError ''not_requested''),
        (lint_status_violation reason (row_repo_lint_clean r) (row_clean r) \<noteq> None,
         LedgerIntegrityError ''lint_reason''),
        (\<not> is_arm arm, LedgerIntegrityError ''context_arm''),
        ((step = PROCESS_REPLAY \<and> arm_base arm = Some S2) \<or>
         (step = PROCESS_FACTORY \<and> arm_base arm \<notin> {Some S1, Some S2}),
         LedgerIntegrityError ''context_arm step''),
        (\<not> is_class_set_version (label_of r LABEL_TAXONOMY), LedgerIntegrityError ''taxonomy''),
        (step = PROCESS_REPLAY \<and> row_gold_clean r \<noteq> Some True, LedgerIntegrityError ''gold_clean''),
        (step = PROCESS_REPLAY \<and> label_of r LABEL_CHANGE_ID = [], LedgerIntegrityError ''change_id'')])"

definition invariant_guards :: "grade_row \<Rightarrow> guards" where
  "invariant_guards r = clean_guards r @ kind_guards r @ cause_guards r @ cost_guards r @
     belt_set_guards r @ posture_guards r @ classification_guards r"

definition assert_invariants :: "grade_row \<Rightarrow> unit result" where
  "assert_invariants r = guarded (invariant_guards r) ()"

definition GradeRow :: "grade_row \<Rightarrow> grade_row result" where
  "GradeRow r = guarded
     ([(TRIAL_MAX_LEN < length (row_trial r), ValueError ''trial''),
       (row_belt_set r \<notin> set BELT_SETS, ValueError ''belt_set''),
       (row_belt_set r \<noteq> BELT_SET_V5 \<and> row_repo_lint_clean r \<noteq> None, ValueError ''belt 5'')] @
      invariant_guards r) r"

definition assert_executor_recorded :: "grade_row \<Rightarrow> unit result" where
  "assert_executor_recorded r = guarded
     [(\<not> (row_process_step r \<noteq> PROCESS_REPLAY \<or> \<not> carries_classification r \<or> row_imported r \<or>
          dhas (row_labels r) LABEL_BUILDER_EXECUTOR), LedgerIntegrityError ''no builder_executor'')] ()"

subsection \<open>From a grade to a row\<close>

record texts =
  tx_error :: "grade_error \<Rightarrow> string"
  tx_dq :: "dq_reason \<Rightarrow> string"

record builder_ref =
  br_name :: string
  br_model :: string
  br_provider :: string
  br_attempts :: int
  br_tokens_in :: int
  br_tokens_out :: int
  br_cost_usd :: rat
  br_latency_s :: rat
  br_note :: string

definition no_builder :: builder_ref where
  "no_builder = \<lparr>br_name = [], br_model = [], br_provider = [], br_attempts = 1, br_tokens_in = 0,
     br_tokens_out = 0, br_cost_usd = 0, br_latency_s = 0, br_note = []\<rparr>"

definition COST_UNKNOWN_MARK :: string where "COST_UNKNOWN_MARK = ''cost unknown''"

record row_task =
  rt_task_id :: string
  rt_repo :: string
  rt_capability_class :: string
  rt_size :: string
  rt_language :: string
  rt_pool :: string
  rt_gold_clean :: "bool option"
  rt_labels :: dict

record row_args =
  ra_pack_hash :: string
  ra_builder :: "builder_ref option"
  ra_run_id :: string
  ra_trial :: string
  ra_actor :: string
  ra_process_step :: string
  ra_language :: string
  ra_labels :: dict
  ra_builder_error :: string
  ra_apparatus_version :: string
  ra_context_arm :: string
  ra_taxonomy :: string
  ra_created :: string
  ra_row_id :: string

definition or_else :: "string \<Rightarrow> string \<Rightarrow> string" where
  "or_else a b = (if a \<noteq> [] then a else b)"

definition bool_label :: "bool \<Rightarrow> string" where
  "bool_label v = (if v then ''true'' else ''false'')"

definition dict_if :: "bool \<Rightarrow> string \<Rightarrow> string \<Rightarrow> dict" where
  "dict_if b k v = (if b then [(k, v)] else [])"

definition kind_str :: "change_kind \<Rightarrow> string" where
  "kind_str k = (case k of KIND_ADDED \<Rightarrow> ''added'' | KIND_REMOVED \<Rightarrow> ''removed'' | KIND_CHANGED \<Rightarrow> ''changed'')"

definition api_summary :: "api_run \<Rightarrow> string" where
  "api_summary run = take 300 (join_with '';''
     (map (\<lambda>f. join_with '':'' [kind_str (af_kind f), af_unit f, af_symbol f]) (ar_findings run)))"

definition api_labels :: "grade_result \<Rightarrow> dict" where
  "api_labels result = (case gr_api_run result of
       None \<Rightarrow> []
     | Some run \<Rightarrow> dict_merge [(LABEL_API_STABLE, api_label run)]
         (dict_if (ar_findings run \<noteq> []) LABEL_API_FINDINGS (api_summary run)))"

definition posture_labels :: "grade_result \<Rightarrow> dict" where
  "posture_labels result =
     dict_if (gr_posture_id result \<noteq> []) LABEL_POSTURE_ID (gr_posture_id result) @
     dict_if (gr_posture_class result \<noteq> []) LABEL_POSTURE_CLASS (gr_posture_class result) @
     dict_if (gr_qualification_id result \<noteq> []) LABEL_QUALIFICATION (gr_qualification_id result) @
     dict_if (gr_blame_control result \<noteq> []) LABEL_BLAME_CONTROL (gr_blame_control result) @
     dict_if (gr_env_code result \<noteq> []) LABEL_ENV_CODE (gr_env_code result)"

definition result_facts :: "grade_result \<Rightarrow> string \<Rightarrow> string \<Rightarrow> string \<Rightarrow> failure_facts" where
  "result_facts result error builder_error stop_reason =
     \<lparr>ff_clean = gr_clean result, ff_disqualified = gr_disqualified result, ff_error = error,
      ff_builder_error = builder_error, ff_stop_reason = stop_reason,
      ff_lint_only = lint_only_failure (gr_belts result),
      ff_api_only = api_only_failure (gr_belts result)\<rparr>"

definition row_labels_at_write ::
    "grade_result \<Rightarrow> string \<Rightarrow> string \<Rightarrow> string \<Rightarrow> string \<Rightarrow> string \<Rightarrow> bool \<Rightarrow> string \<Rightarrow> bool \<Rightarrow> string \<Rightarrow> string \<Rightarrow> dict result" where
  "row_labels_at_write result apparatus error builder_error stop_reason change_id pin_below
       process_step loop context_arm taxonomy =
     (let kind = derive_failure_kind (result_facts result error builder_error stop_reason);
          cause = derive_outage_cause kind error
      in if \<not> is_v2_apparatus apparatus then Inr (dict_if (kind \<noteq> [] \<and> pin_below) LABEL_FAILURE_KIND kind)
         else bind_result (if context_arm \<noteq> [] then Inr context_arm
              else context_arm_for \<lparr>bf_process_step = process_step, bf_mode = gr_mode result,
                bf_loop = loop, bf_test_source = [], bf_test_author = [], bf_facts_drafter = [],
                bf_library_version = []\<rparr>)
           (\<lambda>arm. Inr ([(LABEL_FAILURE_KIND, kind), (LABEL_LINT_REASON, gr_lint_status result)] @
             dict_if (change_id \<noteq> []) LABEL_CHANGE_ID change_id @
             [(LABEL_CONTEXT_ARM, arm), (LABEL_TAXONOMY, taxonomy)] @
             dict_if (cause \<noteq> []) LABEL_OUTAGE_CAUSE cause)))"

definition result_error :: "texts \<Rightarrow> grade_result \<Rightarrow> string \<Rightarrow> string" where
  "result_error tx result builder_error =
     (case gr_error result of Some e \<Rightarrow> tx_error tx e
      | None \<Rightarrow> if gr_clean result then [] else builder_error)"

definition cost_labels :: "row_args \<Rightarrow> dict" where
  "cost_labels a =
     (let b = (case ra_builder a of None \<Rightarrow> no_builder | Some b \<Rightarrow> b);
          reported = (ra_builder a \<noteq> None \<and> br_name b \<noteq> []);
          known = derive_cost_known (br_cost_usd b) (br_tokens_in b) (br_tokens_out b) reported
                    (\<not> contains (br_note b) COST_UNKNOWN_MARK);
          dflt = derive_cost_known (br_cost_usd b) (br_tokens_in b) (br_tokens_out b) reported True
      in dict_if (known \<noteq> dflt) LABEL_COST_KNOWN (bool_label known))"

definition stop_reason_of :: "row_args \<Rightarrow> string" where
  "stop_reason_of a = (case ra_builder a of None \<Rightarrow> [] | Some b \<Rightarrow> builder_stop_reason (br_note b))"

definition row_labels_from :: "grade_result \<Rightarrow> row_task \<Rightarrow> row_args \<Rightarrow> dict \<Rightarrow> dict" where
  "row_labels_from result task a written =
     foldl dict_merge [(LABEL_RUNG, ra_trial a)]
       [labels_at_apparatus (rt_labels task) (ra_apparatus_version a),
        dict_if (ra_builder_error a \<noteq> []) LABEL_BUILDER_ERROR (take 300 (ra_builder_error a)),
        labels_at_apparatus (ra_labels a) (ra_apparatus_version a),
        written,
        cost_labels a,
        dict_if (stop_reason_of a \<noteq> []) LABEL_STOP_REASON (stop_reason_of a),
        posture_labels result,
        api_labels result]"

definition grade_row_from_result ::
    "texts \<Rightarrow> grade_result \<Rightarrow> row_task \<Rightarrow> row_args \<Rightarrow> grade_row result" where
  "grade_row_from_result tx result task a =
     (let b = (case ra_builder a of None \<Rightarrow> no_builder | Some b \<Rightarrow> b);
          error = result_error tx result (ra_builder_error a)
      in bind_result (row_labels_at_write result (ra_apparatus_version a) error (ra_builder_error a)
             (stop_reason_of a) (dget (rt_labels task) LABEL_CHANGE_ID []) True (ra_process_step a)
             (loop_on (ra_labels a))
             (or_else (ra_context_arm a) (dget (ra_labels a) LABEL_CONTEXT_ARM []))
             (or_else (ra_taxonomy a) GLOBAL_CLASS_SET))
         (\<lambda>written. GradeRow
           \<lparr>row_repo = rt_repo task, row_task_id = rt_task_id task, row_clean = gr_clean result,
            row_tests_unmodified = tests_unmodified (gr_belts result),
            row_target_green = target_green (gr_belts result),
            row_no_new_failures = no_new_failures (gr_belts result),
            row_source_changed = source_changed (gr_belts result),
            row_repo_lint_clean = repo_lint_clean (gr_belts result),
            row_capability_class = rt_capability_class task, row_size = rt_size task,
            row_language = or_else (ra_language a) (rt_language task), row_pool = rt_pool task,
            row_mode = gr_mode result, row_process_step = ra_process_step a,
            row_builder = br_name b, row_model = br_model b, row_provider = br_provider b,
            row_run_id = ra_run_id a, row_trial = ra_trial a, row_actor = ra_actor a,
            row_created = ra_created a, row_disqualified = gr_disqualified result,
            row_dq_reason = (case gr_dq_reason result of None \<Rightarrow> [] | Some d \<Rightarrow> tx_dq tx d),
            row_error = error, row_new_failures_count = length (gr_new_failures result),
            row_attempts = br_attempts b, row_cost_usd = br_cost_usd b,
            row_tokens_in = br_tokens_in b, row_tokens_out = br_tokens_out b,
            row_latency_s = br_latency_s b, row_oracle_strength = None,
            row_gold_clean = rt_gold_clean task, row_evidence_pack_hash = ra_pack_hash a,
            row_apparatus_version = ra_apparatus_version a, row_belt_set = BELT_SET_V5,
            row_provenance = PROVENANCE_MEASURED,
            row_labels = row_labels_from result task a written,
            row_schema = ''crb.grade.v2'', row_row_id = ra_row_id a, row_prev_hash = [],
            row_row_hash = []\<rparr>))"

end
