(* ===== verification/Ledger_Row_Correct.thy ===== *)
theory Ledger_Row_Correct
  imports Ledger_Row
begin

section \<open>What a row that exists shows\<close>

text \<open>
  A row in memory passed its constructor, so it carries the invariants. The lemmas read them off
  the guard list; the properties state what a reader of a row may rely on, and that the one
  mapping from a grade to a row produces a row the ledger accepts.
\<close>

subsection \<open>Reading the guard list\<close>

definition quiet :: "guards \<Rightarrow> bool" where
  "quiet gs \<longleftrightarrow> first_raise gs = None"

lemma quiet_Nil [simp]: "quiet []"
  by (simp add: quiet_def)

lemma quiet_Cons [simp]: "quiet ((b, e) # gs) \<longleftrightarrow> \<not> b \<and> quiet gs"
  by (simp add: quiet_def)

lemma quiet_append [simp]: "quiet (gs @ hs) \<longleftrightarrow> quiet gs \<and> quiet hs"
  by (simp add: quiet_def split: option.splits)

lemma GradeRow_quiet:
  "GradeRow r = Inr r' \<longleftrightarrow> r' = r \<and> length (row_trial r) \<le> TRIAL_MAX_LEN \<and> row_belt_set r \<in> set BELT_SETS \<and>
     (row_belt_set r \<noteq> BELT_SET_V5 \<longrightarrow> row_repo_lint_clean r = None) \<and> quiet (invariant_guards r)"
  by (auto simp: GradeRow_def quiet_def)

lemma invariants_quiet:
  "quiet (invariant_guards r) \<longleftrightarrow> quiet (clean_guards r) \<and> quiet (kind_guards r) \<and> quiet (cause_guards r) \<and>
     quiet (cost_guards r) \<and> quiet (belt_set_guards r) \<and> quiet (posture_guards r) \<and>
     quiet (classification_guards r)"
  by (simp add: invariant_guards_def)

lemma GradeRow_parts:
  assumes "GradeRow r = Inr r'"
  shows "r' = r" and "quiet (clean_guards r)" and "quiet (kind_guards r)" and "quiet (cause_guards r)"
    and "quiet (belt_set_guards r)" and "quiet (posture_guards r)" and "quiet (classification_guards r)"
  using assms unfolding GradeRow_quiet invariants_quiet by blast+

text \<open>A row that exists: its constructor returned it.\<close>

definition row_valid :: "grade_row \<Rightarrow> bool" where
  "row_valid r \<longleftrightarrow> GradeRow r = Inr r"

lemma row_valid_parts:
  assumes "row_valid r"
  shows "quiet (clean_guards r)" and "quiet (kind_guards r)"
  using assms GradeRow_parts by (auto simp: row_valid_def)

lemma clean_guards_quiet:
  "quiet (clean_guards r) \<longleftrightarrow> (row_clean r \<longrightarrow> belts_all_true r \<and> \<not> row_disqualified r \<and> row_error r = [] \<and>
     row_evidence_pack_hash r \<noteq> [] \<and> map_of (row_labels r) LABEL_API_STABLE \<noteq> Some ''false'')"
  by (auto simp: clean_guards_def Let_def)

lemma kind_guards_quiet:
  "quiet (kind_guards r) \<longleftrightarrow> (\<forall>k. map_of (row_labels r) LABEL_FAILURE_KIND = Some k \<longrightarrow>
     k \<in> set FAILURE_KINDS \<and> (k = []) = row_clean r \<and> row_disqualified r = (k = FAILURE_DISQUALIFIED))"
  by (auto simp: kind_guards_def split: option.splits)

lemma derive_failure_kind_v1_cases:
  "derive_failure_kind_v1 f \<in> set FAILURE_KINDS \<and> (derive_failure_kind_v1 f = FAILURE_CLEAN \<longleftrightarrow> ff_clean f) \<and>
   (derive_failure_kind_v1 f = FAILURE_DISQUALIFIED \<longleftrightarrow> \<not> ff_clean f \<and> ff_disqualified f)"
  by (auto simp: derive_failure_kind_v1_def FAILURE_KINDS_def failure_kind_defs)

lemma derive_failure_kind_cases:
  "derive_failure_kind f \<in> set FAILURE_KINDS \<and> (derive_failure_kind f = FAILURE_CLEAN \<longleftrightarrow> ff_clean f) \<and>
   (derive_failure_kind f = FAILURE_DISQUALIFIED \<longleftrightarrow> \<not> ff_clean f \<and> ff_disqualified f)"
  by (simp add: derive_failure_kind_in derive_failure_kind_clean_iff derive_failure_kind_dq_iff)

lemma row_kind_spec:
  assumes "quiet (clean_guards r)" and "quiet (kind_guards r)"
  shows "row_failure_kind r \<in> set FAILURE_KINDS \<and> (row_failure_kind r = FAILURE_CLEAN \<longleftrightarrow> row_clean r) \<and>
    (row_failure_kind r = FAILURE_DISQUALIFIED \<longleftrightarrow> row_disqualified r)"
proof -
  have dq: "row_clean r \<Longrightarrow> \<not> row_disqualified r" using assms(1) by (simp add: clean_guards_quiet)
  show ?thesis
  proof (cases "map_of (row_labels r) LABEL_FAILURE_KIND")
    case None
    then show ?thesis
      using derive_failure_kind_cases [of "row_facts r"] derive_failure_kind_v1_cases [of "row_facts r"] dq
      by (auto simp: row_failure_kind_def row_facts_def)
  next
    case (Some k)
    then have k: "k \<in> set FAILURE_KINDS \<and> (k = []) = row_clean r \<and> row_disqualified r = (k = FAILURE_DISQUALIFIED)"
      using assms(2) by (simp add: kind_guards_quiet)
    show ?thesis
    proof (cases "\<not> is_v2_apparatus (row_apparatus_version r) \<and> k = FAILURE_HARNESS \<and> is_outage_error_v1 (row_error r)")
      case True
      then have "row_failure_kind r = FAILURE_OUTAGE" using Some by (simp add: row_failure_kind_def)
      then show ?thesis using k True by (simp add: FAILURE_KINDS_def failure_kind_defs)
    next
      case False
      then have "row_failure_kind r = k" using Some by (auto simp: row_failure_kind_def Let_def)
      then show ?thesis using k by (simp add: FAILURE_CLEAN_def)
    qed
  qed
qed

lemma recorded_core:
  assumes "row_belt_set r \<in> set BELT_SETS" and "belts_all_true r"
  shows "row_tests_unmodified r = Some True \<and> row_target_green r = Some True \<and>
    row_no_new_failures r = Some True \<and>
    (row_belt_set r \<noteq> BELT_SET_V3_LEGACY \<longrightarrow> row_source_changed r = Some True) \<and>
    (row_belt_set r = BELT_SET_V5 \<longrightarrow> row_repo_lint_clean r \<noteq> Some False)"
  using assms
  by (auto simp: belts_all_true_def recorded_belts_def BELT_NAMES_def CORE_BELT_NAMES_def
      OPTIONAL_BELT_NAMES_def row_belt_def BELT_SETS_def BELT_SET_V5_def BELT_SET_V4_def
      BELT_SET_V3_LEGACY_def split: if_splits)

subsection \<open>What the mapping writes\<close>

text \<open>The labels the mapping takes from its caller must leave the classification to the helper.\<close>

definition plain_labels :: "dict \<Rightarrow> bool" where
  "plain_labels d \<longleftrightarrow> list_all (\<lambda>k. \<not> dhas d k)
     [LABEL_OUTAGE_CAUSE, LABEL_COST_KNOWN, LABEL_API_STABLE, LABEL_CONTEXT_ARM]"

lemmas label_defs = LABEL_FAILURE_KIND_def LABEL_COST_KNOWN_def LABEL_STOP_REASON_def
  LABEL_POSTURE_ID_def LABEL_POSTURE_CLASS_def LABEL_QUALIFICATION_def LABEL_BLAME_CONTROL_def
  LABEL_ENV_CODE_def LABEL_LINT_REASON_def LABEL_CHANGE_ID_def LABEL_CONTEXT_ARM_def
  LABEL_TAXONOMY_def LABEL_OUTAGE_CAUSE_def LABEL_BUILDER_EXECUTOR_def LABEL_API_STABLE_def
  LABEL_API_FINDINGS_def LABEL_BUILDER_ERROR_def LABEL_RUNG_def

lemma map_of_dict_if: "map_of (dict_if b k v) k' = (if b \<and> k' = k then Some v else None)"
  by (simp add: dict_if_def)

lemma map_of_snoc_if:
  "map_of (dict_merge a (dict_if b k v)) k' = (if b \<and> k' = k then Some v else map_of a k')"
  by (auto simp: map_of_dict_merge map_of_dict_if map_add_def)

definition api_value :: "grade_result \<Rightarrow> bool option" where
  "api_value result = (case gr_api_run result of None \<Rightarrow> None | Some run \<Rightarrow> ar_ok run)"

definition graded_ok :: "grade_result \<Rightarrow> bool" where
  "graded_ok result \<longleftrightarrow> GradeResult result = Inr result \<and>
     (gr_clean result \<or> gr_error result \<noteq> None \<or> gr_disqualified result \<or> blamed result) \<and>
     gr_blame_control result \<noteq> BLAME_UNWITNESSED \<and>
     gr_lint_status result \<in> set LINT_STATUSES \<and> gr_lint_status result \<noteq> LINT_NOT_REQUESTED \<and>
     (gr_clean result \<longrightarrow> api_value result \<noteq> Some False) \<and>
     gr_posture_id result \<noteq> [] \<and> gr_posture_class result \<noteq> [] \<and> gr_qualification_id result \<noteq> []"

definition replay_args :: "row_task \<Rightarrow> row_args \<Rightarrow> bool" where
  "replay_args task a \<longleftrightarrow> ra_pack_hash a \<noteq> [] \<and> length (ra_trial a) \<le> TRIAL_MAX_LEN \<and>
     ra_process_step a = PROCESS_REPLAY \<and> is_v2_apparatus (ra_apparatus_version a) \<and>
     ra_context_arm a = [] \<and> ra_taxonomy a = [] \<and> plain_labels (ra_labels a) \<and>
     plain_labels (rt_labels task) \<and> rt_gold_clean task = Some True \<and>
     dget (rt_labels task) LABEL_CHANGE_ID [] \<noteq> []"

lemma map_of_labels_from:
  "map_of (row_labels_from result task a w) k =
     (map_of [(LABEL_RUNG, ra_trial a)] ++ map_of (labels_at_apparatus (rt_labels task) (ra_apparatus_version a)) ++
      map_of (dict_if (ra_builder_error a \<noteq> []) LABEL_BUILDER_ERROR (take 300 (ra_builder_error a))) ++
      map_of (labels_at_apparatus (ra_labels a) (ra_apparatus_version a)) ++ map_of w ++ map_of (cost_labels a) ++
      map_of (dict_if (stop_reason_of a \<noteq> []) LABEL_STOP_REASON (stop_reason_of a)) ++
      map_of (posture_labels result) ++ map_of (api_labels result)) k"
  by (simp only: row_labels_from_def foldl.simps map_of_dict_merge)

lemma map_of_posture_labels:
  "map_of (posture_labels result) k =
     (if k = LABEL_POSTURE_ID \<and> gr_posture_id result \<noteq> [] then Some (gr_posture_id result)
      else if k = LABEL_POSTURE_CLASS \<and> gr_posture_class result \<noteq> [] then Some (gr_posture_class result)
      else if k = LABEL_QUALIFICATION \<and> gr_qualification_id result \<noteq> [] then Some (gr_qualification_id result)
      else if k = LABEL_BLAME_CONTROL \<and> gr_blame_control result \<noteq> [] then Some (gr_blame_control result)
      else if k = LABEL_ENV_CODE \<and> gr_env_code result \<noteq> [] then Some (gr_env_code result) else None)"
  by (auto simp: posture_labels_def dict_if_def label_defs)

lemma map_of_api_labels:
  "map_of (api_labels result) k = (case gr_api_run result of None \<Rightarrow> None
     | Some run \<Rightarrow> if k = LABEL_API_FINDINGS \<and> ar_findings run \<noteq> [] then Some (api_summary run)
         else if k = LABEL_API_STABLE then Some (api_label run) else None)"
  by (auto simp: api_labels_def map_of_snoc_if label_defs split: option.splits)

lemma map_of_cost_labels: "k \<noteq> LABEL_COST_KNOWN \<Longrightarrow> map_of (cost_labels a) k = None"
  by (simp add: cost_labels_def Let_def map_of_dict_if)

lemma cost_labels_value:
  "map_of (cost_labels a) LABEL_COST_KNOWN = Some v \<Longrightarrow> v \<in> {''true'', ''false''}"
  by (auto simp: cost_labels_def Let_def map_of_dict_if bool_label_def split: if_splits)

definition replay_brief :: "string \<Rightarrow> bool \<Rightarrow> brief_facts" where
  "replay_brief mode loop = \<lparr>bf_process_step = PROCESS_REPLAY, bf_mode = mode, bf_loop = loop,
     bf_test_source = [], bf_test_author = [], bf_facts_drafter = [], bf_library_version = []\<rparr>"

lemma replay_brief_arms:
  "context_arm_for (replay_brief MODE_BLIND False) = Inr ''A0''"
  "context_arm_for (replay_brief MODE_BLIND True) = Inr ''A0+L''"
  "context_arm_for (replay_brief MODE_SIGHTED False) = Inr ''S3''"
  "context_arm_for (replay_brief MODE_SIGHTED True) = Inr ''S3+L''"
  by code_simp+

lemma arm_bases:
  "is_arm ''A0'' \<and> arm_base ''A0'' = Some A0" "is_arm ''A0+L'' \<and> arm_base ''A0+L'' = Some A0"
  "is_arm ''S3'' \<and> arm_base ''S3'' = Some S3" "is_arm ''S3+L'' \<and> arm_base ''S3+L'' = Some S3"
  by code_simp+

lemma replay_arm:
  assumes "mode \<in> set MODES"
  shows "\<exists>arm. context_arm_for (replay_brief mode loop) = Inr arm \<and> is_arm arm \<and> arm_base arm \<noteq> Some S2"
proof -
  have "mode = MODE_SIGHTED \<or> mode = MODE_BLIND" using assms by (simp add: MODES_def)
  then show ?thesis by (cases loop) (auto simp: replay_brief_arms arm_bases)
qed

definition written :: "grade_result \<Rightarrow> string \<Rightarrow> string \<Rightarrow> string \<Rightarrow> string \<Rightarrow> dict" where
  "written result kind cid arm cause =
     [(LABEL_FAILURE_KIND, kind), (LABEL_LINT_REASON, gr_lint_status result)] @
       dict_if (cid \<noteq> []) LABEL_CHANGE_ID cid @
       [(LABEL_CONTEXT_ARM, arm), (LABEL_TAXONOMY, GLOBAL_CLASS_SET)] @
       dict_if (cause \<noteq> []) LABEL_OUTAGE_CAUSE cause"

lemma map_of_written:
  "map_of (written result kind cid arm cause) k =
     (if k = LABEL_FAILURE_KIND then Some kind
      else if k = LABEL_LINT_REASON then Some (gr_lint_status result)
      else if k = LABEL_CHANGE_ID \<and> cid \<noteq> [] then Some cid
      else if k = LABEL_CONTEXT_ARM then Some arm
      else if k = LABEL_TAXONOMY then Some GLOBAL_CLASS_SET
      else if k = LABEL_OUTAGE_CAUSE \<and> cause \<noteq> [] then Some cause else None)"
  by (auto simp: written_def dict_if_def label_defs)

lemma later_labels_None:
  assumes "k \<in> {LABEL_FAILURE_KIND, LABEL_LINT_REASON, LABEL_CHANGE_ID, LABEL_CONTEXT_ARM,
    LABEL_TAXONOMY, LABEL_OUTAGE_CAUSE}"
  shows "map_of (cost_labels a) k = None" and "map_of (dict_if b LABEL_STOP_REASON v) k = None"
    and "map_of (posture_labels result) k = None" and "map_of (api_labels result) k = None"
proof -
  show "map_of (cost_labels a) k = None"
    using assms by (intro map_of_cost_labels) (auto simp: label_defs)
  show "map_of (dict_if b LABEL_STOP_REASON v) k = None" "map_of (posture_labels result) k = None"
    "map_of (api_labels result) k = None"
    using assms by (auto simp: map_of_dict_if map_of_posture_labels map_of_api_labels label_defs
        split: option.splits)
qed

lemma plain_labels_at:
  assumes "plain_labels d" and "k \<in> {LABEL_OUTAGE_CAUSE, LABEL_COST_KNOWN, LABEL_API_STABLE, LABEL_CONTEXT_ARM}"
  shows "map_of (labels_at_apparatus d app) k = None"
proof -
  have "map_of d k = None" using assms by (auto simp: plain_labels_def dhas_def)
  moreover have "map_of (filter (\<lambda>(x, v). P x) d) k = (if P k then map_of d k else None)" for P
    by (rule map_of_filter_key)
  ultimately show ?thesis by (simp add: labels_at_apparatus_def)
qed

definition final_labels :: "grade_result \<Rightarrow> row_task \<Rightarrow> row_args \<Rightarrow> string \<Rightarrow> string \<Rightarrow> string \<Rightarrow> string \<Rightarrow> dict" where
  "final_labels result task a kind cid arm cause =
     row_labels_from result task a (written result kind cid arm cause)"

lemma final_labels_written:
  assumes "cid \<noteq> []"
  shows "map_of (final_labels result task a kind cid arm cause) LABEL_FAILURE_KIND = Some kind"
    and "map_of (final_labels result task a kind cid arm cause) LABEL_LINT_REASON = Some (gr_lint_status result)"
    and "map_of (final_labels result task a kind cid arm cause) LABEL_CHANGE_ID = Some cid"
    and "map_of (final_labels result task a kind cid arm cause) LABEL_CONTEXT_ARM = Some arm"
    and "map_of (final_labels result task a kind cid arm cause) LABEL_TAXONOMY = Some GLOBAL_CLASS_SET"
    and "cause \<noteq> [] \<Longrightarrow>
      map_of (final_labels result task a kind cid arm cause) LABEL_OUTAGE_CAUSE = Some cause"
  using assms
  by (simp_all add: final_labels_def map_of_labels_from later_labels_None map_of_written map_add_def)
    (simp_all add: label_defs)

lemma final_labels_plain:
  assumes "plain_labels (rt_labels task)" and "plain_labels (ra_labels a)"
  shows "map_of (final_labels result task a kind cid arm []) LABEL_OUTAGE_CAUSE = None"
    and "map_of (final_labels result task a kind cid arm cause) LABEL_COST_KNOWN = map_of (cost_labels a) LABEL_COST_KNOWN"
    and "map_of (final_labels result task a kind cid arm cause) LABEL_API_STABLE = map_option api_label (gr_api_run result)"
proof -
  have r: "map_of [(LABEL_RUNG, v)] k = None" "map_of (dict_if b LABEL_BUILDER_ERROR v) k = None"
      "map_of (dict_if b LABEL_STOP_REASON v) k = None" "map_of (posture_labels result) k = None"
    if "k \<in> {LABEL_OUTAGE_CAUSE, LABEL_COST_KNOWN, LABEL_API_STABLE}" for k v b
    using that by (auto simp: map_of_dict_if map_of_posture_labels label_defs)
  have p: "map_of (labels_at_apparatus (rt_labels task) app) k = None"
      "map_of (labels_at_apparatus (ra_labels a) app) k = None"
    if "k \<in> {LABEL_OUTAGE_CAUSE, LABEL_COST_KNOWN, LABEL_API_STABLE}" for k app
    using plain_labels_at [OF assms(1)] plain_labels_at [OF assms(2)] that by auto
  note l = final_labels_def map_of_labels_from map_of_written r p map_add_def map_of_api_labels
  have d: "LABEL_OUTAGE_CAUSE \<noteq> LABEL_COST_KNOWN" "LABEL_API_STABLE \<noteq> LABEL_COST_KNOWN"
      "LABEL_OUTAGE_CAUSE \<notin> {LABEL_API_STABLE, LABEL_API_FINDINGS}"
      "LABEL_COST_KNOWN \<notin> {LABEL_API_STABLE, LABEL_API_FINDINGS}" "LABEL_API_STABLE \<noteq> LABEL_API_FINDINGS"
      "LABEL_OUTAGE_CAUSE \<noteq> LABEL_RUNG" "LABEL_COST_KNOWN \<noteq> LABEL_RUNG" "LABEL_API_STABLE \<noteq> LABEL_RUNG"
    by (simp_all add: label_defs)
  have w: "map_of (written result kind cid arm cause) LABEL_COST_KNOWN = None"
      "map_of (written result kind cid arm cause) LABEL_API_STABLE = None"
      "map_of (written result kind cid arm []) LABEL_OUTAGE_CAUSE = None" for cause
    by (simp_all add: map_of_written) (simp_all add: label_defs)
  note l = final_labels_def map_of_labels_from r p map_add_def map_of_api_labels
  show "map_of (final_labels result task a kind cid arm []) LABEL_OUTAGE_CAUSE = None"
    using d by (cases "gr_api_run result") (simp_all add: l w map_of_cost_labels)
  show "map_of (final_labels result task a kind cid arm cause) LABEL_COST_KNOWN = map_of (cost_labels a) LABEL_COST_KNOWN"
    using d by (cases "gr_api_run result"; cases "map_of (cost_labels a) LABEL_COST_KNOWN") (simp_all add: l w)
  show "map_of (final_labels result task a kind cid arm cause) LABEL_API_STABLE = map_option api_label (gr_api_run result)"
    using d by (cases "gr_api_run result") (simp_all add: l w map_of_cost_labels)
qed

lemma final_labels_posture:
  assumes "gr_posture_id result \<noteq> []" and "gr_posture_class result \<noteq> []" and "gr_qualification_id result \<noteq> []"
  shows "map_of (final_labels result task a kind cid arm cause) LABEL_POSTURE_ID = Some (gr_posture_id result)"
    and "map_of (final_labels result task a kind cid arm cause) LABEL_POSTURE_CLASS = Some (gr_posture_class result)"
    and "map_of (final_labels result task a kind cid arm cause) LABEL_QUALIFICATION = Some (gr_qualification_id result)"
    and "gr_blame_control result \<noteq> [] \<Longrightarrow>
      map_of (final_labels result task a kind cid arm cause) LABEL_BLAME_CONTROL = Some (gr_blame_control result)"
  using assms
  by (simp_all add: final_labels_def map_of_labels_from map_add_def map_of_posture_labels map_of_api_labels
      label_defs split: option.splits)

text \<open>The row the mapping hands to the constructor, with its classification named.\<close>

definition mapped_row ::
    "texts \<Rightarrow> grade_result \<Rightarrow> row_task \<Rightarrow> row_args \<Rightarrow> dict \<Rightarrow> grade_row" where
  "mapped_row tx result task a labels =
     (let b = (case ra_builder a of None \<Rightarrow> no_builder | Some b \<Rightarrow> b) in
      \<lparr>row_repo = rt_repo task, row_task_id = rt_task_id task, row_clean = gr_clean result,
       row_tests_unmodified = tests_unmodified (gr_belts result),
       row_target_green = target_green (gr_belts result),
       row_no_new_failures = no_new_failures (gr_belts result),
       row_source_changed = source_changed (gr_belts result),
       row_repo_lint_clean = repo_lint_clean (gr_belts result),
       row_capability_class = rt_capability_class task, row_size = rt_size task,
       row_language = or_else (ra_language a) (rt_language task), row_pool = rt_pool task,
       row_mode = gr_mode result, row_process_step = ra_process_step a,
       row_builder = br_name b, row_model = br_model b, row_provider = br_provider b,
       row_run_id = ra_run_id a, row_trial = ra_trial a, row_actor = ra_actor a,
       row_created = ra_created a, row_disqualified = gr_disqualified result,
       row_dq_reason = (case gr_dq_reason result of None \<Rightarrow> [] | Some d \<Rightarrow> tx_dq tx d),
       row_error = result_error tx result (ra_builder_error a),
       row_new_failures_count = length (gr_new_failures result),
       row_attempts = br_attempts b, row_cost_usd = br_cost_usd b,
       row_tokens_in = br_tokens_in b, row_tokens_out = br_tokens_out b,
       row_latency_s = br_latency_s b, row_oracle_strength = None,
       row_gold_clean = rt_gold_clean task, row_evidence_pack_hash = ra_pack_hash a,
       row_apparatus_version = ra_apparatus_version a, row_belt_set = BELT_SET_V5,
       row_provenance = PROVENANCE_MEASURED, row_labels = labels,
       row_schema = ''crb.grade.v2'', row_row_id = ra_row_id a, row_prev_hash = [],
       row_row_hash = []\<rparr>)"

definition result_kind :: "texts \<Rightarrow> grade_result \<Rightarrow> row_args \<Rightarrow> string" where
  "result_kind tx result a = derive_failure_kind (result_facts result
     (result_error tx result (ra_builder_error a)) (ra_builder_error a) (stop_reason_of a))"

lemma row_from_result_eq:
  assumes a: "replay_args task a"
    and arm: "context_arm_for (replay_brief (gr_mode result) (loop_on (ra_labels a))) = Inr arm"
  shows "grade_row_from_result tx result task a = GradeRow (mapped_row tx result task a
    (final_labels result task a (result_kind tx result a) (dget (rt_labels task) LABEL_CHANGE_ID []) arm
      (derive_outage_cause (result_kind tx result a) (result_error tx result (ra_builder_error a)))))"
proof -
  have g: "dget (ra_labels a) LABEL_CONTEXT_ARM [] = []"
    using a by (auto simp: replay_args_def plain_labels_def dhas_def dget_def)
  show ?thesis
    using a arm g
    by (simp add: grade_row_from_result_def row_labels_at_write_def mapped_row_def final_labels_def
        written_def result_kind_def replay_args_def replay_brief_def or_else_def Let_def)
qed

lemma mapped_row_simps [simp]:
  "row_clean (mapped_row tx result task a l) = gr_clean result"
  "row_disqualified (mapped_row tx result task a l) = gr_disqualified result"
  "row_error (mapped_row tx result task a l) = result_error tx result (ra_builder_error a)"
  "row_labels (mapped_row tx result task a l) = l"
  "row_belt_set (mapped_row tx result task a l) = BELT_SET_V5"
  "row_provenance (mapped_row tx result task a l) = PROVENANCE_MEASURED"
  "row_apparatus_version (mapped_row tx result task a l) = ra_apparatus_version a"
  "row_trial (mapped_row tx result task a l) = ra_trial a"
  "row_process_step (mapped_row tx result task a l) = ra_process_step a"
  "row_gold_clean (mapped_row tx result task a l) = rt_gold_clean task"
  "row_evidence_pack_hash (mapped_row tx result task a l) = ra_pack_hash a"
  "row_repo_lint_clean (mapped_row tx result task a l) = repo_lint_clean (gr_belts result)"
  by (simp_all add: mapped_row_def Let_def)

lemma mapped_row_belts:
  "row_belt (mapped_row tx result task a l) b = (case b of Tests_unmodified \<Rightarrow> tests_unmodified (gr_belts result)
     | Target_green \<Rightarrow> target_green (gr_belts result) | No_new_failures \<Rightarrow> no_new_failures (gr_belts result)
     | Source_changed \<Rightarrow> source_changed (gr_belts result) | Repo_lint_clean \<Rightarrow> repo_lint_clean (gr_belts result))"
  by (simp add: row_belt_def mapped_row_def Let_def split: belt.splits)

lemma mapped_belts_all_true:
  "all_true (gr_belts result) \<Longrightarrow> belts_all_true (mapped_row tx result task a l)"
  by (simp add: belts_all_true_def recorded_belts_def mapped_row_belts all_true_def BELT_NAMES_def
      CORE_BELT_NAMES_def OPTIONAL_BELT_NAMES_def)

lemma v2_stamp:
  assumes "is_v2_apparatus s"
  shows "expected_belt_sets s PROVENANCE_MEASURED = [BELT_SET_V5] \<and> stamp_at_least s POSTURE_APPARATUS"
proof -
  obtain v where v: "parse_apparatus_version s = Some v" "at_least v V2_APPARATUS"
    using assms by (auto simp: is_v2_apparatus_def stamp_at_least_def split: option.splits)
  have "parse_apparatus_version ''1.0-census'' = None" by code_simp
  then have "s \<notin> set LEGACY_APPARATUS_VERSIONS" using v by (auto simp: LEGACY_APPARATUS_VERSIONS_def)
  moreover have "at_least v FIRST_V4_APPARATUS" "at_least v FIRST_V5_APPARATUS" "at_least v POSTURE_APPARATUS"
    using v(2) by (auto simp: at_least_def V2_APPARATUS_def FIRST_V4_APPARATUS_def FIRST_V5_APPARATUS_def
        POSTURE_APPARATUS_def)
  ultimately show ?thesis using v by (simp add: expected_belt_sets_def stamp_at_least_def)
qed

lemma result_error_clean: "graded_ok result \<Longrightarrow> gr_clean result \<Longrightarrow> result_error tx result be = []"
  by (auto simp: graded_ok_def result_error_def GradeResult_def split: option.splits)

lemma result_kind_clean_iff: "result_kind tx result a = [] \<longleftrightarrow> gr_clean result"
  using derive_failure_kind_clean_iff [of "result_facts result (result_error tx result (ra_builder_error a))
      (ra_builder_error a) (stop_reason_of a)"]
  by (simp add: result_kind_def result_facts_def FAILURE_CLEAN_def)

lemma result_kind_dq_iff:
  "graded_ok result \<Longrightarrow> result_kind tx result a = FAILURE_DISQUALIFIED \<longleftrightarrow> gr_disqualified result"
  by (auto simp: result_kind_def derive_failure_kind_dq_iff result_facts_def graded_ok_def GradeResult_def)

text \<open>A model-failure kind on a result means that the result is blamed, and so names its witness.\<close>

lemma result_kind_model_blamed:
  assumes "graded_ok result" and "\<And>e. tx_error tx e \<noteq> []"
    and "result_kind tx result a \<in> set MODEL_FAILURE_KINDS"
  shows "gr_blame_control result \<in> set BLAME_CONTROLS"
proof -
  have nc: "\<not> gr_clean result" and ni: "\<not> gr_disqualified result"
      "result_error tx result (ra_builder_error a) = []"
    using assms(3) derive_failure_kind_not_instrument
    by (auto simp: result_kind_def instrument_cause_def result_facts_def)
  then have "gr_error result = None" using assms(2) by (auto simp: result_error_def split: option.splits)
  with assms(1) nc ni have "blamed result" by (simp add: graded_ok_def)
  with assms(1) have "gr_blame_control result \<noteq> []" by (simp add: graded_ok_def GradeResult_def)
  with assms(1) show ?thesis by (auto simp: graded_ok_def GradeResult_def)
qed

lemma outage_cause_ne: "derive_outage_cause k e = [] \<longleftrightarrow> k \<noteq> FAILURE_OUTAGE"
  by (simp add: derive_outage_cause_def OUTAGE_CAUSE_AUTH_def OUTAGE_CAUSE_PROVIDER_def)

lemma global_class_set: "is_class_set_version GLOBAL_CLASS_SET"
  by code_simp

lemma api_label_false: "api_label run = ''false'' \<longleftrightarrow> ar_ok run = Some False"
  by (auto simp: api_label_def split: option.splits bool.splits)

text \<open>Every guard is quiet on the mapped row.\<close>

lemma mapped_row_accepted:
  assumes g: "graded_ok result" and a: "replay_args task a" and tx: "\<And>e. tx_error tx e \<noteq> []"
    and arm: "is_arm arm" "arm_base arm \<noteq> Some S2"
  defines "kind \<equiv> result_kind tx result a"
  defines "row \<equiv> mapped_row tx result task a (final_labels result task a kind
      (dget (rt_labels task) LABEL_CHANGE_ID []) arm
      (derive_outage_cause kind (result_error tx result (ra_builder_error a))))"
  shows "row_failure_kind row = kind \<and> GradeRow row = Inr row"
proof -
  let ?cid = "dget (rt_labels task) LABEL_CHANGE_ID []"
  let ?cause = "derive_outage_cause kind (result_error tx result (ra_builder_error a))"
  have cid: "?cid \<noteq> []" using a by (simp add: replay_args_def)
  have pl: "plain_labels (rt_labels task)" "plain_labels (ra_labels a)"
    using a by (simp_all add: replay_args_def)
  have po: "gr_posture_id result \<noteq> []" "gr_posture_class result \<noteq> []" "gr_qualification_id result \<noteq> []"
    using g by (simp_all add: graded_ok_def)
  note w = final_labels_written [OF cid] and pw = final_labels_plain [OF pl] and fp = final_labels_posture [OF po]
  have v2: "is_v2_apparatus (ra_apparatus_version a)" using a by (simp add: replay_args_def)
  have kin: "kind \<in> set FAILURE_KINDS" by (simp add: kind_def result_kind_def derive_failure_kind_in)
  have fk: "row_failure_kind row = kind"
    by (simp add: row_failure_kind_def row_def w v2)
  have 1: "quiet (clean_guards row)"
  proof -
    have "gr_clean result \<Longrightarrow> api_value result \<noteq> Some False" using g by (simp add: graded_ok_def)
    then have "gr_clean result \<Longrightarrow> map_option api_label (gr_api_run result) \<noteq> Some ''false''"
      by (auto simp: api_value_def api_label_false)
    moreover have "gr_clean result \<Longrightarrow> all_true (gr_belts result) \<and> \<not> gr_disqualified result"
      using g by (simp add: graded_ok_def GradeResult_def)
    ultimately show ?thesis
      using a result_error_clean [OF g] mapped_belts_all_true
      by (auto simp: clean_guards_quiet row_def pw replay_args_def)
  qed
  have 2: "quiet (kind_guards row)"
    using result_kind_clean_iff [of tx result a] result_kind_dq_iff [OF g, of tx a] kin
    by (auto simp: kind_guards_quiet row_def w kind_def)
  have 3: "quiet (cause_guards row)"
  proof (cases "kind = FAILURE_OUTAGE")
    case True
    then have "map_of (row_labels row) LABEL_OUTAGE_CAUSE = Some ?cause"
      by (simp add: row_def w outage_cause_ne)
    moreover have "?cause \<in> {OUTAGE_CAUSE_AUTH, OUTAGE_CAUSE_PROVIDER}"
      using True by (simp add: derive_outage_cause_def)
    ultimately show ?thesis using v2 fk True by (simp add: cause_guards_def) (simp add: row_def)
  next
    case False
    then have "?cause = []" by (simp add: outage_cause_ne)
    then have "map_of (row_labels row) LABEL_OUTAGE_CAUSE = None" by (simp add: row_def pw)
    then show ?thesis by (simp add: cause_guards_def)
  qed
  have 4: "quiet (cost_guards row)"
    using cost_labels_value [of a] by (auto simp: cost_guards_def row_def pw split: option.splits)
  have 5: "quiet (belt_set_guards row)"
    using v2_stamp [OF v2] by (simp add: belt_set_guards_def row_def BELT_SET_V5_def BELT_SET_V3_LEGACY_def)
  have 6: "quiet (posture_guards row)"
  proof -
    have "kind \<in> set MODEL_FAILURE_KINDS \<Longrightarrow> label_of row LABEL_BLAME_CONTROL \<in> set BLAME_CONTROLS"
      using result_kind_model_blamed [OF g tx, of a] fp
      by (cases "gr_blame_control result = []")
        (auto simp: kind_def label_of_def row_def dget_def BLAME_CONTROLS_def BLAME_GOLD_GREEN_def BLAME_ENV_PROBE_def
          BLAME_NO_SOURCE_def BLAME_LINT_GOLD_OK_def BLAME_API_DIFF_def)
    then show ?thesis
      using fp po fk by (auto simp: posture_guards_def label_of_def dget_def row_def POSTURE_LABELS_def)
  qed
  have 7: "quiet (classification_guards row)"
  proof -
    have ls: "gr_lint_status result \<noteq> []" "gr_lint_status result \<noteq> LINT_NOT_REQUESTED"
      using g by (auto simp: graded_ok_def LINT_STATUSES_def lint_status_defs)
    then have "lint_status_violation (gr_lint_status result) (repo_lint_clean (gr_belts result)) (gr_clean result) = None"
      using g by (simp add: graded_ok_def GradeResult_def)
    moreover have "dhas (row_labels row) LABEL_OUTAGE_CAUSE" if "kind = FAILURE_OUTAGE"
      using that by (simp add: row_def dhas_def w outage_cause_ne)
    moreover have "ra_process_step a = PROCESS_REPLAY" "PROCESS_REPLAY \<noteq> PROCESS_FACTORY"
        "rt_gold_clean task = Some True"
      using a by (simp_all add: replay_args_def PROCESS_REPLAY_def PROCESS_FACTORY_def)
    ultimately show ?thesis
      using v2 ls arm fk global_class_set
      by (simp add: classification_guards_def Let_def carries_classification_def label_of_def dhas_def dget_def)
        (simp add: row_def w cid)
  qed
  show ?thesis
    using fk 1 2 3 4 5 6 7 a
    by (simp add: GradeRow_quiet invariants_quiet) (simp add: row_def replay_args_def BELT_SETS_def)
qed

text \<open>A result fit for the ledger becomes a row the ledger accepts, with its verdict and its kind.\<close>

lemma graded_row_accepted:
  assumes "graded_ok result" and "replay_args task a" and "\<And>e. tx_error tx e \<noteq> []"
  shows "\<exists>row. grade_row_from_result tx result task a = Inr row \<and> row_clean row = gr_clean result \<and>
    row_failure_kind row = derive_failure_kind (result_facts result
      (result_error tx result (ra_builder_error a)) (ra_builder_error a) (stop_reason_of a))"
proof -
  have "gr_mode result \<in> set MODES" using assms(1) by (simp add: graded_ok_def GradeResult_def)
  then obtain arm where arm: "context_arm_for (replay_brief (gr_mode result) (loop_on (ra_labels a))) = Inr arm"
      "is_arm arm" "arm_base arm \<noteq> Some S2"
    using replay_arm by blast
  show ?thesis
    using mapped_row_accepted [OF assms arm(2,3)] row_from_result_eq [OF assms(2) arm(1), of tx]
    by (auto simp: result_kind_def)
qed

subsection \<open>Concrete rows\<close>

definition sample_row :: grade_row where
  "sample_row = \<lparr>row_repo = ''r'', row_task_id = ''abc1234'', row_clean = True,
     row_tests_unmodified = Some True, row_target_green = Some True, row_no_new_failures = Some True,
     row_source_changed = Some True, row_repo_lint_clean = None, row_capability_class = ''fix'',
     row_size = ''S'', row_language = ''go'', row_pool = ''standard'', row_mode = ''blind'',
     row_process_step = ''replay'', row_builder = ''b'', row_model = ''m'', row_provider = ''p'',
     row_run_id = ''run'', row_trial = ''r1'', row_actor = [], row_created = ''2026-01-01'',
     row_disqualified = False, row_dq_reason = [], row_error = [], row_new_failures_count = 0,
     row_attempts = 1, row_cost_usd = 0, row_tokens_in = 10, row_tokens_out = 10, row_latency_s = 0,
     row_oracle_strength = None, row_gold_clean = Some True, row_evidence_pack_hash = ''h'',
     row_apparatus_version = ''2.3'', row_belt_set = BELT_SET_V5, row_provenance = PROVENANCE_MEASURED,
     row_labels = [(LABEL_POSTURE_ID, ''p''), (LABEL_POSTURE_CLASS, ''docker/none/sealed''),
       (LABEL_QUALIFICATION, ''q'')],
     row_schema = ''crb.grade.v2'', row_row_id = ''id'', row_prev_hash = [], row_row_hash = []\<rparr>"

definition sample_red :: grade_row where
  "sample_red = sample_row\<lparr>row_clean := False, row_no_new_failures := Some False,
     row_labels := row_labels sample_row @ [(LABEL_FAILURE_KIND, FAILURE_BUILDER_RED),
       (LABEL_BLAME_CONTROL, BLAME_GOLD_GREEN)]\<rparr>"

lemma stamp_23:
  "\<not> is_v2_apparatus ''2.3'' \<and> expected_belt_sets ''2.3'' PROVENANCE_MEASURED = [BELT_SET_V5] \<and>
   stamp_at_least ''2.3'' POSTURE_APPARATUS"
  by code_simp

lemma sample_row_accepted: "GradeRow sample_row = Inr sample_row"
proof -
  have k: "row_failure_kind sample_row = []"
    using stamp_23 by (simp add: row_failure_kind_def sample_row_def label_defs derive_failure_kind_v1_def
        row_facts_def FAILURE_CLEAN_def)
  show ?thesis
    unfolding GradeRow_quiet invariants_quiet clean_guards_quiet kind_guards_quiet
    using stamp_23 k
    by (simp add: belts_all_true_def recorded_belts_def BELT_NAMES_def CORE_BELT_NAMES_def
        OPTIONAL_BELT_NAMES_def row_belt_def BELT_SETS_def TRIAL_MAX_LEN_def cause_guards_def cost_guards_def
        belt_set_guards_def posture_guards_def classification_guards_def carries_posture_def
        carries_classification_def POSTURE_LABELS_def V2_ONLY_LABELS_def label_of_def MODEL_FAILURE_KINDS_def
        failure_kind_defs)
      (simp add: sample_row_def label_defs belts_all_true_def row_belt_def BELT_SET_V5_def BELT_SET_V3_LEGACY_def
        BELT_SET_V4_def)
qed

lemma sample_red_kind: "row_failure_kind sample_red = FAILURE_BUILDER_RED"
  using stamp_23
  by (simp add: row_failure_kind_def sample_red_def sample_row_def label_defs failure_kind_defs)

lemma sample_red_accepted: "GradeRow sample_red = Inr sample_red"
  unfolding GradeRow_quiet invariants_quiet clean_guards_quiet kind_guards_quiet
  using stamp_23 sample_red_kind
  by (simp add: BELT_SETS_def TRIAL_MAX_LEN_def cause_guards_def cost_guards_def
      belt_set_guards_def posture_guards_def classification_guards_def carries_posture_def
      carries_classification_def POSTURE_LABELS_def V2_ONLY_LABELS_def label_of_def)
    (simp add: sample_red_def sample_row_def label_defs BELT_SET_V5_def BELT_SET_V3_LEGACY_def
      FAILURE_KINDS_def failure_kind_defs BLAME_CONTROLS_def)

subsection \<open>Properties\<close>

text \<open>
  False-Q1 is zero. Whatever its apparatus, provenance and labels, a clean row that exists
  has every recorded core belt \<open>True\<close> and no recorded belt \<open>False\<close> (belt 6 included), no error and
  no disqualification, an evidence pack, and reads with no failure kind.
\<close>

theorem clean_row_evidence:
  assumes "GradeRow r = Inr r'" and "row_clean r'"
  shows "r' = r \<and> row_tests_unmodified r = Some True \<and> row_target_green r = Some True \<and>
    row_no_new_failures r = Some True \<and>
    (row_source_changed r = Some True \<or> (row_belt_set r = BELT_SET_V3_LEGACY \<and> row_source_changed r = None)) \<and>
    row_repo_lint_clean r \<noteq> Some False \<and> map_of (row_labels r) LABEL_API_STABLE \<noteq> Some ''false'' \<and>
    \<not> row_disqualified r \<and> row_error r = [] \<and> row_evidence_pack_hash r \<noteq> [] \<and> row_failure_kind r = []"
proof -
  note p = GradeRow_parts [OF assms(1)]
  have c: "row_clean r" using assms(2) p(1) by simp
  have bs: "row_belt_set r \<in> set BELT_SETS" "row_belt_set r \<noteq> BELT_SET_V5 \<longrightarrow> row_repo_lint_clean r = None"
    using assms(1) by (simp_all add: GradeRow_quiet)
  have b: "belts_all_true r" and rest: "\<not> row_disqualified r" "row_error r = []" "row_evidence_pack_hash r \<noteq> []"
      "map_of (row_labels r) LABEL_API_STABLE \<noteq> Some ''false''"
    using p(2) c by (simp_all add: clean_guards_quiet)
  have v3: "row_belt_set r = BELT_SET_V3_LEGACY \<Longrightarrow> row_source_changed r = None"
    using p(5) by (simp add: belt_set_guards_def)
  show ?thesis
    using recorded_core [OF bs(1) b] bs(2) rest v3 p(1) row_kind_spec [OF p(2,3)] c
    by (auto simp: FAILURE_CLEAN_def)
qed

lemma clean_row_evidence_witness:
  "row_failure_kind sample_row = [] \<and> row_evidence_pack_hash sample_row \<noteq> []"
  using clean_row_evidence [OF sample_row_accepted] by (simp add: sample_row_def)

text \<open>
  The kind a row reads with never contradicts its verdict: it is one of the ten kinds, empty
  exactly on a clean row and \<open>disqualified\<close> exactly on a disqualified one, whether the kind is
  pinned, re-read as an outage or derived; and an outage row is never in a denominator.
\<close>

theorem row_kind_agrees:
  assumes "GradeRow r = Inr r'"
  shows "row_failure_kind r \<in> set FAILURE_KINDS \<and> (row_failure_kind r = FAILURE_CLEAN \<longleftrightarrow> row_clean r) \<and>
    (row_failure_kind r = FAILURE_DISQUALIFIED \<longleftrightarrow> row_disqualified r) \<and>
    (row_eligible r \<longrightarrow> row_failure_kind r \<notin> {FAILURE_DISQUALIFIED, FAILURE_OUTAGE})"
  using row_kind_spec [OF GradeRow_parts(2) [OF assms] GradeRow_parts(3) [OF assms]] by (auto simp: row_eligible_def)

lemma row_kind_agrees_witness:
  "row_failure_kind sample_red \<noteq> FAILURE_CLEAN \<and> \<not> row_disqualified sample_red"
  using row_kind_agrees [OF sample_red_accepted] by (simp add: sample_red_def sample_row_def)

text \<open>
  A row never blames the model without a witness from its posture: a measured row of
  apparatus 2.3 or later whose kind counts against the model names its posture, its posture
  class, its qualification and one of the five blame controls.
\<close>

theorem model_row_witnessed:
  assumes "GradeRow r = Inr r'" and "row_provenance r = PROVENANCE_MEASURED"
    and "stamp_at_least (row_apparatus_version r) POSTURE_APPARATUS"
    and "row_failure_kind r \<in> set MODEL_FAILURE_KINDS"
  shows "label_of r LABEL_POSTURE_ID \<noteq> [] \<and> label_of r LABEL_POSTURE_CLASS \<noteq> [] \<and>
    label_of r LABEL_QUALIFICATION \<noteq> [] \<and> label_of r LABEL_BLAME_CONTROL \<in> set BLAME_CONTROLS"
  using GradeRow_parts(6) [OF assms(1)] assms(2-4)
  by (simp add: posture_guards_def carries_posture_def POSTURE_LABELS_def)

lemma model_row_witnessed_witness:
  "label_of sample_red LABEL_BLAME_CONTROL \<in> set BLAME_CONTROLS"
  using model_row_witnessed [OF sample_red_accepted] stamp_23 sample_red_kind
  by (simp add: sample_red_def sample_row_def MODEL_FAILURE_KINDS_def)

end
