(* ===== verification/Pipeline.thy ===== *)
theory Pipeline
  imports Grade_Correct Ledger_Row_Correct
begin

section \<open>From a trial to a ledger row\<close>

text \<open>
  The grader and the ledger composed: what a trial's input must be for every result \<open>grade()\<close>
  returns to be a row the ledger accepts.
\<close>

definition trial_input :: "grade_in \<Rightarrow> bool" where
  "trial_input g \<longleftrightarrow> gi_evaluate_lint g \<and>
     (\<exists>w. gc_witness (gi_ctx g) = Some w \<and> (\<forall>scope al run. w scope al = Inr run \<longrightarrow> cr_green run \<longrightarrow>
        cr_kind run \<in> {BLAME_GOLD_GREEN, BLAME_ENV_PROBE})) \<and>
     gc_posture_id (gi_ctx g) \<noteq> [] \<and> gc_posture_class (gi_ctx g) \<noteq> [] \<and>
     q_id (gc_qualification (gi_ctx g)) \<noteq> []"

definition status_ok :: "gstate \<Rightarrow> bool" where
  "status_ok st \<longleftrightarrow> gs_lint_status st \<in> set LINT_STATUSES \<and> gs_lint_status st \<noteq> LINT_NOT_REQUESTED"

text \<open>What \<open>graded_ok\<close> asks beyond the constructor's own check, field by field.\<close>

definition fit :: "grade_result \<Rightarrow> bool" where
  "fit r \<longleftrightarrow> (gr_clean r \<or> gr_error r \<noteq> None \<or> gr_disqualified r \<or> blamed r) \<and>
     gr_blame_control r \<noteq> BLAME_UNWITNESSED \<and> (gr_clean r \<longrightarrow> api_value r \<noteq> Some False)"

definition stamped :: "grade_in \<Rightarrow> gstate \<Rightarrow> grade_result \<Rightarrow> bool" where
  "stamped g st r \<longleftrightarrow> gr_lint_status r = gs_lint_status st \<and>
     gr_posture_id r = gc_posture_id (gi_ctx g) \<and> gr_posture_class r = gc_posture_class (gi_ctx g) \<and>
     gr_qualification_id r = q_id (gc_qualification (gi_ctx g))"

lemma stamped_base [simp]: "stamped g st (base_result g seen st)"
  by (simp add: stamped_def base_result_def)

lemma graded_ok_fit:
  "trial_input g \<Longrightarrow> status_ok st \<Longrightarrow> stamped g st r \<Longrightarrow> fit r \<Longrightarrow> GradeResult r = Inr r \<Longrightarrow> graded_ok r"
  by (simp add: graded_ok_def fit_def stamped_def status_ok_def trial_input_def)

lemma ok_done:
  assumes "trial_input g" and "status_ok st"
    and "stamped g st (ch (base_result g (gi_touched_post g) st))"
    and "fit (ch (base_result g (gi_touched_post g) st))"
  shows "returns graded_ok (done_with g st ch)"
  by (rule returns_done) (rule graded_ok_fit [OF assms])

lemma ok_disqualify:
  "trial_input g \<Longrightarrow> status_ok st \<Longrightarrow> returns graded_ok (done_with g st (disqualify w fs))"
  by (rule ok_done) (simp_all add: fit_def gr_disqualified_def stamped_def base_result_def disqualify_def
      BLAME_UNWITNESSED_def)

lemma status_ok_belts [simp]: "status_ok (set_belts b st) = status_ok st"
  by (simp add: status_ok_def)

text \<open>The changes of the two test stages keep the stamp, the error and the disqualification.\<close>

definition keeps :: "changes \<Rightarrow> bool" where
  "keeps ch \<longleftrightarrow> (\<forall>r. gr_error (ch r) = gr_error r \<and> gr_dq_reason (ch r) = gr_dq_reason r \<and>
     gr_clean (ch r) = gr_clean r \<and> gr_blame_control (ch r) = gr_blame_control r \<and>
     gr_lint_status (ch r) = gr_lint_status r \<and> gr_posture_id (ch r) = gr_posture_id r \<and>
     gr_posture_class (ch r) = gr_posture_class r \<and> gr_qualification_id (ch r) = gr_qualification_id r)"

lemma ok_environment:
  assumes t: "trial_input g" and s: "status_ok st" and k: "keeps ch"
  shows "returns graded_ok (environment g st run scope al ch)"
proof -
  obtain w where w: "gc_witness (gi_ctx g) = Some w" using t by (auto simp: trial_input_def)
  have err: "returns graded_ok (done_with g st (\<lambda>r. ch (r\<lparr>gr_error := Some e, gr_env_code := c\<rparr>)))" for e c
    using k by (intro ok_done [OF t s])
      (simp_all add: keeps_def fit_def stamped_def base_result_def BLAME_UNWITNESSED_def)
  have dq: "returns graded_ok (done_with g st (\<lambda>r. ch ((disqualify w' fs r)\<lparr>gr_control := c\<rparr>)))" for w' fs c
    using k by (intro ok_done [OF t s])
      (simp_all add: keeps_def fit_def stamped_def base_result_def disqualify_def gr_disqualified_def
        BLAME_UNWITNESSED_def)
  have bl: "returns graded_ok (done_with g st (ch \<circ> apply_blame (BlameEnvironment e c d)))" for e c d
    using k by (intro ok_done [OF t s])
      (simp_all add: keeps_def fit_def stamped_def base_result_def apply_blame_def BLAME_UNWITNESSED_def)
  show ?thesis
    unfolding environment_def Let_def w option.case
    by (rule returns_attempt) (auto intro: err dq bl split: blame.splits option.splits)
qed

lemma keeps_runs:
  "keeps (\<lambda>r. r\<lparr>gr_target_run := t\<rparr>)"
  "keeps (\<lambda>r. r\<lparr>gr_target_run := t, gr_belt_run := b\<rparr>)"
  by (simp_all add: keeps_def)

lemma witness_not_unwitnessed:
  assumes "trial_input g" and "ask_witness g scope al = Inr b"
  shows "(\<exists>k c. b = BlameControl k c \<and> k \<noteq> BLAME_UNWITNESSED \<and> k \<noteq> []) \<or> (\<exists>e c d. b = BlameEnvironment e c d)"
  using assms(2)
proof (cases rule: ask_witness_cases)
  case unwitnessed
  with assms(1) show ?thesis by (simp add: trial_input_def)
next
  case (green w run)
  with assms(1) have "cr_kind run \<in> {BLAME_GOLD_GREEN, BLAME_ENV_PROBE}" by (auto simp: trial_input_def)
  with green show ?thesis by (auto simp: BLAME_GOLD_GREEN_def BLAME_ENV_PROBE_def BLAME_UNWITNESSED_def)
next
  case red
  then show ?thesis by blast
qed

lemma apply_blame_stamp [simp]: "stamped g st (apply_blame b r) = stamped g st r"
  by (cases b) (simp_all add: stamped_def apply_blame_def)

lemma fit_blamed:
  assumes "(\<exists>k c. b = BlameControl k c \<and> k \<noteq> BLAME_UNWITNESSED) \<or> (\<exists>e c d. b = BlameEnvironment e c d)"
    and "gr_error r = None \<Longrightarrow> gr_dq_reason r = None \<Longrightarrow>
      target_green (gr_belts r) = Some False \<or> no_new_failures (gr_belts r) = Some False \<or>
      source_changed (gr_belts r) = Some False \<or> repo_lint_clean (gr_belts r) = Some False \<or>
      api_stable (gr_belts r) = Some False"
    and "\<not> gr_clean r" and "gr_blame_control r \<noteq> BLAME_UNWITNESSED"
  shows "fit (apply_blame b r)"
  using assms
  by (auto simp: fit_def apply_blame_def blamed_def Let_def gr_disqualified_def)

lemma status_after_ok_status:
  "gi_evaluate_lint g \<Longrightarrow> status_ok (set_belts b (final_state g st lint))"
  by (cases lint) (auto simp: status_ok_def status_after_def lint_status_def LINT_STATUSES_def lint_status_defs)

lemma final_blame_not_unwitnessed:
  assumes "trial_input g" and "final_blame g b le = Inr bl"
  shows "bl = None \<or> (\<exists>k c. bl = Some (BlameControl k c) \<and> k \<noteq> BLAME_UNWITNESSED) \<or>
    (\<exists>e c d. bl = Some (BlameEnvironment e c d))"
proof -
  have nw: "gc_witness (gi_ctx g) \<noteq> None" using assms(1) by (auto simp: trial_input_def)
  have l_spec: "(\<exists>k c. x = BlameControl k c \<and> k \<noteq> BLAME_UNWITNESSED) \<or> (\<exists>e c d. x = BlameEnvironment e c d)"
    if "lint_blame g v = Inr x" for v x
    using that
  proof (cases rule: lint_blame_cases)
    case gold
    then show ?thesis by (simp add: BLAME_LINT_GOLD_OK_def BLAME_UNWITNESSED_def)
  qed (use nw in auto)
  consider "bl = None" | (w) sc al x where "ask_witness g sc al = Inr x" "bl = Some x"
    | "bl = Some (BlameControl BLAME_NO_SOURCE None)" | "bl = Some (BlameControl BLAME_API_DIFF None)"
    | (l) v x where "lint_blame g v = Inr x" "bl = Some x"
    using assms(2) by (auto simp: final_blame_def split: if_splits)
  then show ?thesis
  proof cases
    case w
    with witness_not_unwitnessed [OF assms(1) w(1)] show ?thesis by blast
  next
    case (l v x)
    with l_spec [OF l(1)] show ?thesis by blast
  qed (simp_all add: BLAME_NO_SOURCE_def BLAME_API_DIFF_def BLAME_UNWITNESSED_def)
qed

lemma api_value_final:
  "api_value (final_changes g st ch t b new lint api bl r) = api_ok_of api"
  by (cases bl) (simp_all add: final_changes_def api_value_def api_ok_of_def apply_blame_def split: blame.splits)

lemma stamped_final [simp]:
  "stamped g st' (final_changes g st ch t b new lint api bl r) = stamped g st' r"
  by (cases bl) (simp_all add: final_changes_def stamped_def apply_blame_def split: blame.splits)

lemma fit_final:
  assumes st: "gs_belts st = belts_to (Some True) (Some True) (Some n) (Some c)"
    and fb: "final_blame g (final_belts st lint api) (lint_err_of lint) = Inr bl"
    and t: "trial_input g" and r: "gr_belts r = final_belts st lint api" "gr_blame_control r = []" "gr_error r = None"
      "gr_dq_reason r = None"
  shows "fit (final_changes g st ch tr b new lint api bl r)"
proof (cases "all_true (final_belts st lint api) \<and> lint_err_of lint = None")
  case True
  then have "bl = None" using fb by (simp add: final_blame_def)
  with True r st show ?thesis
    by (simp add: fit_def api_value_final BLAME_UNWITNESSED_def all_true_def)
next
  case False
  show ?thesis
  proof (cases "lint_err_of lint")
    case (Some e)
    then have "bl = None" using fb by (simp add: final_blame_def)
    with Some r show ?thesis by (simp add: fit_def BLAME_UNWITNESSED_def)
  next
    case None
    with False have nt: "\<not> all_true (final_belts st lint api)" by simp
    let ?r = "final_changes g st ch tr b new lint api None r"
    have some_false: "no_new_failures (gr_belts ?r) = Some False \<or> source_changed (gr_belts ?r) = Some False \<or>
        repo_lint_clean (gr_belts ?r) = Some False \<or> api_stable (gr_belts ?r) = Some False"
      using nt r(1) st by (auto simp: all_true_final)
    have nc: "\<not> gr_clean ?r" using nt by simp
    have bc: "gr_blame_control ?r \<noteq> BLAME_UNWITNESSED" using r by (simp add: BLAME_UNWITNESSED_def)
    have "bl \<noteq> None"
      using fb None nt some_false r(1) by (auto simp: final_blame_def split: if_splits)
    then obtain x where x: "bl = Some x" by blast
    have e: "final_changes g st ch tr b new lint api bl r = apply_blame x ?r"
      by (simp add: x final_changes_def)
    show ?thesis
      unfolding e using final_blame_not_unwitnessed [OF t fb] x some_false nc bc
      by (intro fit_blamed) auto
  qed
qed

lemma ok_final:
  assumes t: "trial_input g" and st: "gs_belts st = belts_to (Some True) (Some True) (Some n) (Some c)"
  shows "returns graded_ok (grade_final g st changed tr br new)"
  unfolding grade_final_eq
proof (intro returns_attempt)
  fix lint api bl
  assume fb: "final_blame g (final_belts st lint api) (lint_err_of lint) = Inr bl"
  have ev: "gi_evaluate_lint g" using t by (simp add: trial_input_def)
  show "returns graded_ok (done_with g (set_belts (final_belts st lint api) (final_state g st lint))
      (final_changes g st changed tr br new lint api bl))"
    by (rule ok_done [OF t status_after_ok_status [OF ev]]) (simp_all add: fit_final [OF st fb t])
qed

lemma ok_target:
  assumes t: "trial_input g" and s: "status_ok st"
  shows "returns graded_ok (grade_target g st changed)"
  unfolding grade_target_def grade_belt3_def Let_def
proof (intro returns_attempt returns_if)
  fix run b
  let ?st = "set_belts (belts_to (Some True) (Some (green run \<and> \<not> target_shortfall run
      (gc_qualification (gi_ctx g)))) None None) (st\<lparr>gs_tests_ran := True\<rparr>)"
  assume no: "\<not> (green run \<and> \<not> target_shortfall run (gc_qualification (gi_ctx g)))"
    and b: "ask_witness g (tk_target_tests (gi_task g)) None = Inr b"
  have s': "status_ok ?st" using s by (simp add: status_ok_def)
  show "returns graded_ok (done_with g ?st
      (\<lambda>r. apply_blame b (r\<lparr>gr_target_run := Some run, gr_changed_files := take 200 changed\<rparr>)))"
  proof (rule ok_done [OF t s'])
    show "fit (apply_blame b ((base_result g (gi_touched_post g) ?st)
        \<lparr>gr_target_run := Some run, gr_changed_files := take 200 changed\<rparr>))"
      using witness_not_unwitnessed [OF t b] no
      by (intro fit_blamed) (auto simp: BLAME_UNWITNESSED_def)
  qed (simp only: apply_blame_stamp, simp add: stamped_def base_result_def)
next
  fix run
  have s': "status_ok (st\<lparr>gs_tests_ran := True\<rparr>)" using s by (simp add: status_ok_def)
  show "returns graded_ok (environment g (set_belts (belts_to (Some True) None None None)
      (st\<lparr>gs_tests_ran := True\<rparr>)) run (tk_target_tests (gi_task g)) None (\<lambda>r. r\<lparr>gr_target_run := Some run\<rparr>))"
    using s' by (intro ok_environment [OF t] keeps_runs) simp
next
  fix run br
  have s': "status_ok (st\<lparr>gs_tests_ran := True\<rparr>)" using s by (simp add: status_ok_def)
  show "returns graded_ok (environment g (set_belts (belts_to (Some True) (Some True) None None)
      (set_belts (belts_to (Some True) (Some (green run \<and> \<not> target_shortfall run
        (gc_qualification (gi_ctx g)))) None None) (st\<lparr>gs_tests_ran := True\<rparr>))) br (tk_belt_scope (gi_task g))
      (Some (baseline (gc_qualification (gi_ctx g)))) (\<lambda>r. r\<lparr>gr_target_run := Some run, gr_belt_run := Some br\<rparr>))"
    using s' by (intro ok_environment [OF t] keeps_runs) simp
qed (rule ok_final [OF t], simp)

lemma ok_body:
  assumes t: "trial_input g"
  shows "returns graded_ok (grade_body g (pre_run g))"
proof -
  have s: "status_ok (pre_run g)" "status_ok ((pre_run g)\<lparr>gs_touched_pre := x\<rparr>)" for x
    using t by (simp_all add: status_ok_def pre_run_def trial_input_def LINT_STATUSES_def lint_status_defs)
  have b: "returns graded_ok (grade_binding g (set_belts bs ((pre_run g)\<lparr>gs_touched_pre := x\<rparr>)) touched)"
    for bs x touched
    unfolding grade_binding_def using s
    by (auto intro!: returns_attempt returns_Inl ok_target [OF t] ok_disqualify [OF t] split: sum.splits exn.splits)
  show ?thesis
    unfolding grade_body_def grade_oracle_def grade_belt1_def Let_def
    using s by (auto intro!: returns_attempt ok_disqualify [OF t] b)
qed

lemma raises_status_final:
  assumes "status_ok st" and "gi_evaluate_lint g"
  shows "raises_in status_ok (grade_final g st changed t br new)"
proof -
  have f: "status_ok (final_state g st lint)" for lint
    using status_after_ok_status [OF assms(2), of "gs_belts (final_state g st lint)" st lint]
    by (simp add: status_ok_def)
  show ?thesis
    unfolding grade_final_eq
    by (intro raises_attempt raises_done assms(1) f status_after_ok_status [OF assms(2)])
qed

lemma raises_status:
  assumes "gi_evaluate_lint g"
  shows "raises_in status_ok (grade_body g (pre_run g))"
proof -
  have s: "status_ok (pre_run g)" "status_ok ((pre_run g)\<lparr>gs_touched_pre := x\<rparr>)"
      "status_ok ((pre_run g)\<lparr>gs_touched_pre := x, gs_tests_ran := True\<rparr>)" for x
    using assms by (simp_all add: status_ok_def pre_run_def LINT_STATUSES_def lint_status_defs)
  have tr: "raises_in status_ok (grade_target g st changed)" if "status_ok st" for st changed
  proof -
    have s': "status_ok (st\<lparr>gs_tests_ran := True\<rparr>)" using that by (simp add: status_ok_def)
    then show ?thesis
      unfolding grade_target_def grade_belt3_def Let_def
      by (intro raises_attempt raises_if raises_environment raises_done raises_status_final assms)
        (simp_all add: s')
  qed
  have b: "raises_in status_ok (grade_binding g (set_belts bs ((pre_run g)\<lparr>gs_touched_pre := x\<rparr>)) touched)"
    for bs x touched
    unfolding grade_binding_def using s
    by (auto intro!: raises_attempt raises_done raises_Inl tr split: sum.splits exn.splits)
  show ?thesis
    unfolding grade_body_def grade_oracle_def grade_belt1_def Let_def
    using s by (auto intro!: raises_attempt raises_done b)
qed

lemma grade_results_ok:
  assumes t: "trial_input g" and g: "grade g = Inr r"
  shows "graded_ok r"
proof (cases "grade_body g (pre_run g)")
  case (Inr r')
  with g have "r' = r" by (auto simp: grade_def pre_run_def split: if_splits)
  with ok_body [OF t] Inr show ?thesis by (simp add: returns_def)
next
  case (Inl es)
  obtain e st where es: "es = (e, st)" by (cases es) auto
  have ev: "gi_evaluate_lint g" using t by (simp add: trial_input_def)
  have st: "status_ok st" using raises_status [OF ev] Inl es by (simp add: raises_in_def)
  have "GradeResult ((base_result g (gi_touched_error g) st)\<lparr>gr_error := Some (HarnessError e)\<rparr>) = Inr r"
    using g Inl es by (auto simp: grade_def pre_run_def split: if_splits)
  moreover from GradeResult_Inr [OF this]
  have r: "r = (base_result g (gi_touched_error g) st)\<lparr>gr_error := Some (HarnessError e)\<rparr>" .
  ultimately have "GradeResult r = Inr r" by simp
  moreover have "stamped g st r" "fit r"
    by (simp_all add: r fit_def stamped_def base_result_def BLAME_UNWITNESSED_def)
  ultimately show ?thesis using graded_ok_fit [OF t st] by blast
qed

subsection \<open>Properties\<close>


definition sample_task :: row_task where
  "sample_task = \<lparr>rt_task_id = ''abc1234'', rt_repo = ''r'', rt_capability_class = ''fix'', rt_size = ''S'',
     rt_language = ''python'', rt_pool = ''standard'', rt_gold_clean = Some True,
     rt_labels = [(LABEL_CHANGE_ID, ''c1'')]\<rparr>"

definition sample_args :: row_args where
  "sample_args = \<lparr>ra_pack_hash = ''h'', ra_builder = None, ra_run_id = ''run'', ra_trial = ''r1'',
     ra_actor = [], ra_process_step = PROCESS_REPLAY, ra_language = [],
     ra_labels = [(LABEL_BUILDER_EXECUTOR, ''docker'')], ra_builder_error = [],
     ra_apparatus_version = ''2.4'', ra_context_arm = [], ra_taxonomy = [], ra_created = ''2026-01-01'',
     ra_row_id = ''id''\<rparr>"

definition sample_texts :: texts where
  "sample_texts = \<lparr>tx_error = (\<lambda>e. ''environment: gold control red''), tx_dq = (\<lambda>d. ''dq'')\<rparr>"


end
