(* ===== verification/Hash_Chain.thy ===== *)
theory Hash_Chain
  imports Prelude
begin

section \<open>Hash chains\<close>

text \<open>
  What every hash-chained log of the program shares: a record holds the hash of its predecessor
  and the hash of its own content, and a log verifies when every link holds from a genesis value.
  The interface \<open>hash_chain\<close> is proved once here and interpreted on each log of the model. Nothing is
  assumed of the hash: tamper evidence is stated as \<open>equal, or here are two contents with one
  digest\<close>.
\<close>

fun chain_ok :: "('r \<Rightarrow> string) \<Rightarrow> ('r \<Rightarrow> string) \<Rightarrow> ('r \<Rightarrow> string) \<Rightarrow> string \<Rightarrow> 'r list \<Rightarrow> bool" where
  "chain_ok prev stored digest p [] \<longleftrightarrow> True"
| "chain_ok prev stored digest p (r # rs) \<longleftrightarrow>
     prev r = p \<and> stored r \<noteq> [] \<and> stored r = digest r \<and> chain_ok prev stored digest (stored r) rs"

definition chain_head :: "('r \<Rightarrow> string) \<Rightarrow> string \<Rightarrow> 'r list \<Rightarrow> string" where
  "chain_head stored p rs = (if rs = [] then p else stored (last rs))"

lemma chain_head_Nil [simp]: "chain_head stored p [] = p"
  by (simp add: chain_head_def)

lemma chain_head_snoc [simp]: "chain_head stored p (rs @ [r]) = stored r"
  by (simp add: chain_head_def)

lemma chain_head_Cons: "chain_head stored p (r # rs) = chain_head stored (stored r) rs"
  by (simp add: chain_head_def)

lemma chain_ok_append:
  "chain_ok prev stored digest p (rs @ ss) \<longleftrightarrow>
     chain_ok prev stored digest p rs \<and> chain_ok prev stored digest (chain_head stored p rs) ss"
  by (induction rs arbitrary: p) (auto simp: chain_head_Cons)

lemma chain_ok_prefix: "chain_ok prev stored digest p (rs @ ss) \<Longrightarrow> chain_ok prev stored digest p rs"
  by (simp add: chain_ok_append)

text \<open>The interface: the digest and the link are functions of the content, and a valid record is
  its content and its stored hash.\<close>

locale hash_chain =
  fixes prev :: "'r \<Rightarrow> string" and stored :: "'r \<Rightarrow> string" and digest :: "'r \<Rightarrow> string"
    and content :: "'r \<Rightarrow> 'b" and valid :: "'r \<Rightarrow> bool"
  assumes digest_content: "content r = content r' \<Longrightarrow> digest r = digest r'"
    and prev_content: "content r = content r' \<Longrightarrow> prev r = prev r'"
    and record_content: "valid r \<Longrightarrow> valid r' \<Longrightarrow> content r = content r' \<Longrightarrow> stored r = stored r' \<Longrightarrow> r = r'"
begin

definition collision :: "'r \<Rightarrow> 'r \<Rightarrow> bool" where
  "collision r r' \<longleftrightarrow> content r \<noteq> content r' \<and> digest r = digest r'"

lemma append_ok:
  "chain_ok prev stored digest p rs \<Longrightarrow> prev r = chain_head stored p rs \<Longrightarrow> stored r = digest r \<Longrightarrow>
     digest r \<noteq> [] \<Longrightarrow> chain_ok prev stored digest p (rs @ [r])"
  by (simp add: chain_ok_append)

lemma same_head_same_log:
  assumes "chain_ok prev stored digest p rs" and "chain_ok prev stored digest p rs'"
    and "list_all valid rs" and "list_all valid rs'"
    and "chain_head stored p rs = chain_head stored p rs'"
  shows "rs = rs' \<or> (\<exists>r \<in> set rs. \<exists>r' \<in> set rs'. collision r r') \<or> (\<exists>r \<in> set rs \<union> set rs'. digest r = p)"
  using assms
proof (induction rs arbitrary: rs' rule: rev_induct)
  case Nil
  show ?case
  proof (cases rs' rule: rev_cases)
    case Nil
    then show ?thesis by simp
  next
    case (snoc ss s)
    with Nil.prems have "digest s = p" by (auto simp: chain_ok_append)
    then show ?thesis by (simp add: snoc)
  qed
next
  case (snoc r rs)
  show ?case
  proof (cases rs' rule: rev_cases)
    case Nil
    with snoc.prems have "digest r = p" by (auto simp: chain_ok_append)
    then show ?thesis by simp
  next
    case ss: (snoc ss s)
    from snoc.prems ss have eq: "stored r = stored s" and dig: "digest r = digest s"
      by (auto simp: chain_ok_append)
    show ?thesis
    proof (cases "content r = content s")
      case False
      with dig have "collision r s" by (simp add: collision_def)
      then show ?thesis by (auto simp: ss)
    next
      case True
      with snoc.prems ss eq have rs: "r = s" by (intro record_content) auto
      have "chain_head stored p rs = chain_head stored p ss"
        using snoc.prems ss prev_content [OF True] by (auto simp: chain_ok_append)
      with snoc.IH [of ss] snoc.prems ss
      have "rs = ss \<or> (\<exists>r \<in> set rs. \<exists>r' \<in> set ss. collision r r') \<or> (\<exists>r \<in> set rs \<union> set ss. digest r = p)"
        by (auto simp: chain_ok_append)
      then show ?thesis by (auto simp: rs ss)
    qed
  qed
qed

text \<open>A changed record is found where it is, unless a later one collides: two verified logs that
  agree on the record at a position agree on everything before it.\<close>

lemma agreement_goes_back:
  assumes "chain_ok prev stored digest p (rs @ [r] @ ts)" and "chain_ok prev stored digest p (rs' @ [r] @ ts')"
    and "list_all valid rs" and "list_all valid rs'"
  shows "rs = rs' \<or> (\<exists>x \<in> set rs. \<exists>y \<in> set rs'. collision x y) \<or> (\<exists>x \<in> set rs \<union> set rs'. digest x = p)"
proof -
  have "chain_head stored p rs = chain_head stored p rs'"
    using assms(1,2) by (simp add: chain_ok_append)
  with assms show ?thesis by (intro same_head_same_log) (auto simp: chain_ok_append)
qed

end

text \<open>A log written by linking each record onto the head: the link sets both hashes.\<close>

locale chain_writer = hash_chain prev stored digest content valid
  for prev :: "'r \<Rightarrow> string" and stored :: "'r \<Rightarrow> string" and digest :: "'r \<Rightarrow> string"
    and content :: "'r \<Rightarrow> 'b" and valid :: "'r \<Rightarrow> bool" +
  fixes link :: "'r \<Rightarrow> string \<Rightarrow> 'r"
  assumes link_prev: "prev (link r p) = p"
    and link_stored: "stored (link r p) = digest (link r p)"
begin

lemma write_ok:
  "chain_ok prev stored digest p rs \<Longrightarrow> digest (link r (chain_head stored p rs)) \<noteq> [] \<Longrightarrow>
     chain_ok prev stored digest p (rs @ [link r (chain_head stored p rs)])"
  by (rule append_ok) (simp_all add: link_prev link_stored)

end

end
