(* ===== verification/Ledger_Chain.thy ===== *)
theory Ledger_Chain
  imports Ledger_Row_Correct Hash_Chain
begin

section \<open>The hash-chained ledger (\<open>crb/core/ledger.py\<close>, \<open>JsonlLedger\<close>)\<close>

text \<open>
  Chaining a row, verifying a chain, appending to the JSONL file and reading it back, the lock
  that serialises two appending processes, and the tail read that finds the last row.

  Parameter: \<open>H\<close>, the SHA-256 of the canonical JSON of a row's hashed body, as a function of that
  body. The file is the list of its rows, and, where the text matters (\<open>jsonl_last_line\<close>), a
  string.
\<close>

definition GENESIS_HASH :: string where
  "GENESIS_HASH = replicate 64 CHR ''0''"

text \<open>\<open>GradeRow.body\<close>: every field but \<open>row_hash\<close>, and belt 5 only where the belt set records it.\<close>

definition row_body :: "grade_row \<Rightarrow> grade_row" where
  "row_body r = r\<lparr>row_row_hash := [],
     row_repo_lint_clean := (if Repo_lint_clean \<in> set (recorded_belts r) then row_repo_lint_clean r else None)\<rparr>"

definition compute_hash :: "(grade_row \<Rightarrow> string) \<Rightarrow> grade_row \<Rightarrow> string" where
  "compute_hash H r = H (row_body r)"

definition chained :: "(grade_row \<Rightarrow> string) \<Rightarrow> string \<Rightarrow> grade_row \<Rightarrow> grade_row result" where
  "chained H prev r = bind_result (GradeRow (r\<lparr>row_prev_hash := prev, row_row_hash := []\<rparr>))
     (\<lambda>row. Inr (row\<lparr>row_row_hash := compute_hash H row\<rparr>))"

definition verify_hash :: "(grade_row \<Rightarrow> string) \<Rightarrow> grade_row \<Rightarrow> bool" where
  "verify_hash H r \<longleftrightarrow> row_row_hash r \<noteq> [] \<and> row_row_hash r = compute_hash H r"

fun verify_from :: "(grade_row \<Rightarrow> string) \<Rightarrow> string \<Rightarrow> nat \<Rightarrow> grade_row list \<Rightarrow> nat result" where
  "verify_from H prev n [] = Inr n"
| "verify_from H prev n (r # rs) =
     (if row_prev_hash r \<noteq> prev then Inl (LedgerIntegrityError ''prev_hash mismatch'')
      else if \<not> verify_hash H r then Inl (LedgerIntegrityError ''row_hash mismatch'')
      else verify_from H (row_row_hash r) (Suc n) rs)"

definition verify_chain :: "(grade_row \<Rightarrow> string) \<Rightarrow> grade_row list \<Rightarrow> nat result" where
  "verify_chain H rows = verify_from H GENESIS_HASH 0 rows"

subsection \<open>The JSONL file as its rows\<close>

definition last_hash :: "grade_row list \<Rightarrow> string result" where
  "last_hash file = (if file = [] then Inr GENESIS_HASH
     else if row_row_hash (last file) = [] then Inl (LedgerIntegrityError ''no row_hash'')
     else Inr (row_row_hash (last file)))"

definition jsonl_append ::
    "(grade_row \<Rightarrow> string) \<Rightarrow> grade_row list \<Rightarrow> grade_row \<Rightarrow> (grade_row list \<times> grade_row) result" where
  "jsonl_append H file row =
     bind_result (assert_invariants row) (\<lambda>_.
     bind_result (assert_executor_recorded row) (\<lambda>_.
     bind_result (last_hash file) (\<lambda>h.
     bind_result (chained H h row) (\<lambda>c. Inr (file @ [c], c)))))"

text \<open>\<open>append_many\<close>: the executor of every row is checked before the first is written; a later
  refusal leaves what was written, so the file is part of the outcome.\<close>

fun append_all ::
    "(grade_row \<Rightarrow> string) \<Rightarrow> grade_row list \<Rightarrow> grade_row list \<Rightarrow> grade_row list \<times> exn option" where
  "append_all H file [] = (file, None)"
| "append_all H file (r # rs) = (case jsonl_append H file r of
       Inl e \<Rightarrow> (file, Some e)
     | Inr (file', c) \<Rightarrow> append_all H file' rs)"

definition append_many ::
    "(grade_row \<Rightarrow> string) \<Rightarrow> grade_row list \<Rightarrow> grade_row list \<Rightarrow> grade_row list \<times> exn option" where
  "append_many H file batch =
     (case first_raise (map (\<lambda>r. (case assert_executor_recorded r of
              Inl e \<Rightarrow> (True, e) | Inr _ \<Rightarrow> (False, LedgerIntegrityError []))) batch) of
        Some e \<Rightarrow> (file, Some e)
      | None \<Rightarrow> append_all H file batch)"

subsection \<open>Two processes, one file\<close>

text \<open>An appending process takes the lock, reads the head, writes its chained row and releases;
  \<open>js_lock = False\<close> is a platform where the file lock could not be taken.\<close>

record jsonl_state =
  js_lock :: bool
  js_file :: "grade_row list"
  js_holder :: "nat option"
  js_head :: "nat \<Rightarrow> string option"

inductive jsonl_step :: "(grade_row \<Rightarrow> string) \<Rightarrow> jsonl_state \<Rightarrow> jsonl_state \<Rightarrow> bool" for H where
  acquire: "js_lock s \<Longrightarrow> js_holder s = None \<Longrightarrow> jsonl_step H s (s\<lparr>js_holder := Some p\<rparr>)"
| read_head: "js_lock s \<longrightarrow> js_holder s = Some p \<Longrightarrow> js_head s p = None \<Longrightarrow> last_hash (js_file s) = Inr h \<Longrightarrow>
     jsonl_step H s (s\<lparr>js_head := (js_head s)(p \<mapsto> h)\<rparr>)"
| write_row: "js_lock s \<longrightarrow> js_holder s = Some p \<Longrightarrow> js_head s p = Some h \<Longrightarrow> chained H h row = Inr c \<Longrightarrow>
     jsonl_step H s (s\<lparr>js_file := js_file s @ [c], js_head := (js_head s)(p := None)\<rparr>)"
| release: "js_lock s \<Longrightarrow> js_holder s = Some p \<Longrightarrow>
     jsonl_step H s (s\<lparr>js_holder := None, js_head := (js_head s)(p := None)\<rparr>)"

inductive jsonl_reach :: "(grade_row \<Rightarrow> string) \<Rightarrow> jsonl_state \<Rightarrow> jsonl_state \<Rightarrow> bool" for H where
  start: "jsonl_reach H s s"
| step: "jsonl_reach H s t \<Longrightarrow> jsonl_step H t u \<Longrightarrow> jsonl_reach H s u"

definition jsonl_open :: "bool \<Rightarrow> grade_row list \<Rightarrow> jsonl_state" where
  "jsonl_open lock file = \<lparr>js_lock = lock, js_file = file, js_holder = None, js_head = (\<lambda>p. None)\<rparr>"

subsection \<open>The tail read\<close>

text \<open>The window over the end of the text doubles until it holds a line boundary before its last
  line, or the whole text. The window is counted in characters here, in bytes in the code.\<close>

definition NL :: char where "NL = CHR 0x0A"

definition rstrip_nl :: "string \<Rightarrow> string" where
  "rstrip_nl s = rev (dropWhile (\<lambda>c. c = NL) (rev s))"

definition tail_chunk :: "string \<Rightarrow> nat \<Rightarrow> string" where
  "tail_chunk text step = drop (length text - step) text"

function tail_window :: "string \<Rightarrow> nat \<Rightarrow> string" where
  "tail_window text step =
     (if 0 < step \<and> step < length text \<and> NL \<notin> set (rstrip_nl (tail_chunk text step))
      then tail_window text (min (length text) (step * 2))
      else tail_chunk text step)"
  by pat_completeness auto
termination by (relation "measure (\<lambda>(text, step). length text - step)") auto

declare tail_window.simps [simp del]

definition jsonl_last_line :: "string \<Rightarrow> string" where
  "jsonl_last_line text =
     (if text = [] then []
      else case find (\<lambda>l. py_strip l \<noteq> []) (rev (splitlines (tail_window text (min (length text) 65536)))) of
        None \<Rightarrow> [] | Some l \<Rightarrow> l)"

definition jsonl_text :: "string list \<Rightarrow> string" where
  "jsonl_text lines = concat (map (\<lambda>l. l @ [NL]) lines)"

subsection \<open>The ledger is a hash chain\<close>

lemma row_body_hash: "row_row_hash (row_body r) = []"
  by (simp add: row_body_def)

lemma row_body_prev: "row_prev_hash (row_body r) = row_prev_hash r"
  by (simp add: row_body_def)

lemma recorded_lint:
  "row_belt_set r \<in> set BELT_SETS \<Longrightarrow>
     Repo_lint_clean \<in> set (recorded_belts r) \<longleftrightarrow> row_belt_set r = BELT_SET_V5"
  by (auto simp: recorded_belts_def BELT_NAMES_def CORE_BELT_NAMES_def OPTIONAL_BELT_NAMES_def BELT_SETS_def
      BELT_SET_V5_def BELT_SET_V4_def BELT_SET_V3_LEGACY_def)

text \<open>A row that exists is its body and its stored hash: an unrecorded belt 5 is \<open>None\<close>.\<close>

lemma row_body_valid:
  assumes "GradeRow r = Inr r'"
  shows "row_body r = r\<lparr>row_row_hash := []\<rparr>"
proof -
  have "row_belt_set r \<in> set BELT_SETS" "row_belt_set r \<noteq> BELT_SET_V5 \<longrightarrow> row_repo_lint_clean r = None"
    using assms by (simp_all add: GradeRow_quiet)
  then have "(if Repo_lint_clean \<in> set (recorded_belts r) then row_repo_lint_clean r else None) = row_repo_lint_clean r"
    by (simp add: recorded_lint)
  then show ?thesis by (simp add: row_body_def)
qed

lemma row_from_body:
  assumes "row_valid r" and "row_valid r'" and "row_body r = row_body r'" and "row_row_hash r = row_row_hash r'"
  shows "r = r'"
proof -
  have "r\<lparr>row_row_hash := []\<rparr> = r'\<lparr>row_row_hash := []\<rparr>"
    using assms row_body_valid by (metis row_valid_def)
  then have "r\<lparr>row_row_hash := [], row_row_hash := row_row_hash r\<rparr> =
      r'\<lparr>row_row_hash := [], row_row_hash := row_row_hash r'\<rparr>"
    using assms(4) by (metis (no_types))
  then show ?thesis by simp
qed

interpretation lc: hash_chain row_prev_hash row_row_hash "compute_hash H" row_body row_valid for H
proof
  show "\<And>r r'. row_body r = row_body r' \<Longrightarrow> compute_hash H r = compute_hash H r'"
    by (simp add: compute_hash_def)
  show "\<And>r r'. row_body r = row_body r' \<Longrightarrow> row_prev_hash r = row_prev_hash r'"
    by (metis row_body_prev)
qed (rule row_from_body)

lemma verify_from_iff:
  "(\<exists>n. verify_from H prev k rows = Inr n) \<longleftrightarrow> chain_ok row_prev_hash row_row_hash (compute_hash H) prev rows"
  by (induction rows arbitrary: prev k) (auto simp: verify_hash_def)

lemma verify_chain_iff:
  "(\<exists>n. verify_chain H rows = Inr n) \<longleftrightarrow> chain_ok row_prev_hash row_row_hash (compute_hash H) GENESIS_HASH rows"
  by (simp add: verify_chain_def verify_from_iff)

lemma verify_from_count: "verify_from H prev k rows = Inr n \<Longrightarrow> n = k + length rows"
proof (induction rows arbitrary: prev k)
  case Nil
  then show ?case by simp
next
  case (Cons r rows)
  then have "verify_from H (row_row_hash r) (Suc k) rows = Inr n" by (simp split: if_splits)
  from Cons.IH [OF this] show ?case by simp
qed

text \<open>What chaining writes: a valid row on the head it was given, hashed.\<close>

definition rehash :: "string \<Rightarrow> string \<Rightarrow> grade_row \<Rightarrow> grade_row" where
  "rehash p h r = r\<lparr>row_prev_hash := p, row_row_hash := h\<rparr>"

lemma rehash_simps [simp]:
  "row_clean (rehash p h r) = row_clean r" "row_labels (rehash p h r) = row_labels r"
  "row_error (rehash p h r) = row_error r" "row_disqualified (rehash p h r) = row_disqualified r"
  "row_apparatus_version (rehash p h r) = row_apparatus_version r"
  "row_belt_set (rehash p h r) = row_belt_set r" "row_provenance (rehash p h r) = row_provenance r"
  "row_process_step (rehash p h r) = row_process_step r" "row_gold_clean (rehash p h r) = row_gold_clean r"
  "row_evidence_pack_hash (rehash p h r) = row_evidence_pack_hash r"
  "row_repo_lint_clean (rehash p h r) = row_repo_lint_clean r"
  "row_source_changed (rehash p h r) = row_source_changed r" "row_trial (rehash p h r) = row_trial r"
  "row_prev_hash (rehash p h r) = p" "row_row_hash (rehash p h r) = h"
  by (simp_all add: rehash_def)

lemma rehash_belts [simp]:
  "row_belt (rehash p h r) = row_belt r" "recorded_belts (rehash p h r) = recorded_belts r"
  "label_of (rehash p h r) = label_of r"
  by (auto simp: row_belt_def recorded_belts_def label_of_def rehash_def fun_eq_iff split: belt.splits)

lemma rehash_facts [simp]: "row_facts (rehash p h r) = row_facts r"
  by (simp add: row_facts_def row_lint_only_def row_api_only_def rule_belts_def recorded_def)

lemma rehash_kind [simp]: "row_failure_kind (rehash p h r) = row_failure_kind r"
  unfolding row_failure_kind_def rehash_simps rehash_facts ..

lemma rehash_guards: "invariant_guards (rehash p h r) = invariant_guards r"
  unfolding invariant_guards_def clean_guards_def kind_guards_def cause_guards_def cost_guards_def
    belt_set_guards_def posture_guards_def classification_guards_def carries_posture_def
    carries_classification_def belts_all_true_def rehash_simps rehash_belts rehash_kind ..

lemma GradeRow_rehash: "GradeRow (rehash p h r) = Inr r' \<longleftrightarrow> r' = rehash p h r \<and> row_valid r"
  unfolding GradeRow_quiet row_valid_def rehash_guards rehash_simps by blast

lemma row_valid_rehash [simp]: "row_valid (rehash p h r) = row_valid r"
  unfolding row_valid_def GradeRow_quiet rehash_guards rehash_simps by blast

lemma chained_Inr:
  "chained H prev r = Inr c \<longleftrightarrow> row_valid r \<and> c = rehash prev (compute_hash H (rehash prev [] r)) r"
  unfolding chained_def rehash_def [symmetric] bind_result_Inr GradeRow_rehash
  by (auto simp: rehash_def)

lemma chained_links:
  assumes "chained H prev r = Inr c"
  shows "row_prev_hash c = prev \<and> row_row_hash c = compute_hash H c \<and> row_valid c"
proof -
  have c: "row_valid r" "c = rehash prev (compute_hash H (rehash prev [] r)) r"
    using assms by (simp_all add: chained_Inr)
  have "row_body (rehash prev h r) = row_body (rehash prev [] r)" for h
    by (simp add: row_body_def rehash_def recorded_belts_def)
  then have "compute_hash H c = compute_hash H (rehash prev [] r)"
    unfolding c(2) compute_hash_def by metis
  then show ?thesis using c by simp
qed

lemma last_hash_head:
  "last_hash file = Inr h \<Longrightarrow> h = chain_head row_row_hash GENESIS_HASH file"
  by (auto simp: last_hash_def chain_head_def split: if_splits)

lemma chained_extends:
  assumes "chain_ok row_prev_hash row_row_hash (compute_hash H) GENESIS_HASH file"
    and "last_hash file = Inr h" and "chained H h r = Inr c" and "\<And>b. H b \<noteq> []"
  shows "chain_ok row_prev_hash row_row_hash (compute_hash H) GENESIS_HASH (file @ [c])"
  using assms chained_links [OF assms(3)] last_hash_head [OF assms(2)]
  by (intro lc.append_ok) (auto simp: compute_hash_def)

subsection \<open>Reading the tail\<close>

lemma split_on_append_sep: "split_on c (x @ c # y) = split_on c x @ split_on c y"
proof (induction x)
  case Nil
  then show ?case by simp
next
  case (Cons a x)
  then show ?case by (cases "split_on c x") auto
qed

lemma norm_eol_line: "\<exists>n. \<forall>t. norm_eol (q @ NL # t) = n @ NL # norm_eol t"
proof (induction q)
  case Nil
  have "norm_eol (NL # t) = NL # norm_eol t" for t by (simp add: NL_def is_eol_def)
  then show ?case by (intro exI [of _ "[]"]) simp
next
  case (Cons c q)
  then obtain n where n: "\<And>t. norm_eol (q @ NL # t) = n @ NL # norm_eol t" by blast
  have h: "hd (q @ NL # t) = (if q = [] then NL else hd q)" for t by (cases q) auto
  show ?case
  proof (cases "c = CHR 0x0D \<and> (if q = [] then NL else hd q) = CHR 0x0A")
    case True
    then have "norm_eol ((c # q) @ NL # t) = n @ NL # norm_eol t" for t
      using n h by (simp split: if_splits)
    then show ?thesis by blast
  next
    case False
    then have "norm_eol ((c # q) @ NL # t) = ((if is_eol c then CHR 0x0A else c) # n) @ NL # norm_eol t" for t
      using n h by (auto split: if_splits)
    then show ?thesis by blast
  qed
qed

lemma splitlines_append:
  assumes "q = [] \<or> last q = NL"
  shows "splitlines (q @ t) = splitlines q @ splitlines t"
proof (cases "q = []")
  case True
  then show ?thesis by (simp add: splitlines_def)
next
  case False
  with assms obtain q' where q: "q = q' @ [NL]" by (metis append_butlast_last_id)
  obtain n where n: "\<And>t. norm_eol (q' @ NL # t) = n @ NL # norm_eol t" using norm_eol_line by blast
  have "split_on NL (norm_eol (q @ t)) = split_on NL n @ split_on NL (norm_eol t)" for t
    using n [of t] by (simp add: q split_on_append_sep)
  then have s: "splitlines (q @ t) = split_on NL n @ splitlines t" for t
    by (simp add: splitlines_def Let_def NL_def [symmetric] butlast_append)
  from s [of "[]"] have "splitlines q = split_on NL n" by (simp add: splitlines_def)
  with s show ?thesis by simp
qed

lemma splitlines_one:
  assumes "list_all (\<lambda>c. \<not> is_eol c) l"
  shows "splitlines (l @ [NL]) = [l]"
proof -
  have "norm_eol (l @ [NL]) = l @ [NL]"
    using assms by (induction l) (auto simp: is_eol_def NL_def)
  moreover have "NL \<notin> set l" using assms by (auto simp: list_all_iff is_eol_def NL_def)
  ultimately show ?thesis
    using split_on_append [of NL l "[]"] by (simp add: splitlines_def NL_def [symmetric])
qed

lemma splitlines_nel:
  assumes "list_all (\<lambda>c. \<not> is_eol c) a" and "list_all (\<lambda>c. \<not> is_eol c) b"
  shows "splitlines (a @ CHR 0x85 # b @ [NL]) = [a, b]"
proof -
  have b: "norm_eol (b @ [NL]) = b @ [NL]"
    using assms(2) by (induction b) (auto simp: is_eol_def NL_def)
  have "norm_eol (CHR 0x85 # b @ [NL]) = NL # b @ [NL]" using b by (simp add: is_eol_def NL_def)
  then have "norm_eol (a @ CHR 0x85 # b @ [NL]) = a @ NL # b @ [NL]"
    using assms(1) by (induction a) (auto simp: is_eol_def NL_def)
  moreover have "NL \<notin> set a" "NL \<notin> set b" using assms by (auto simp: list_all_iff is_eol_def NL_def)
  ultimately show ?thesis
    using split_on_append [of NL a "b @ [NL]"] split_on_append [of NL b "[]"]
    by (simp add: splitlines_def NL_def [symmetric])
qed

lemma set_rstrip_nl: "set (rstrip_nl (u @ [NL])) \<subseteq> set u"
proof -
  have "set (dropWhile (\<lambda>c. c = NL) (rev u)) \<subseteq> set (rev u)" using set_dropWhileD by fast
  then show ?thesis by (simp add: rstrip_nl_def)
qed

lemma tail_window_last:
  assumes "NL \<notin> set l" and "pre = [] \<or> last pre = NL" and "0 < step"
  shows "\<exists>q. tail_window (pre @ l @ [NL]) step = q @ l @ [NL] \<and> (q = [] \<or> last q = NL)"
  using assms(3)
proof (induction "pre @ l @ [NL]" step rule: tail_window.induct)
  case (1 step)
  let ?text = "pre @ l @ [NL]"
  show ?case
  proof (cases "step < length ?text \<and> NL \<notin> set (rstrip_nl (tail_chunk ?text step))")
    case True
    with 1 show ?thesis by (subst tail_window.simps) simp
  next
    case False
    then have w: "tail_window ?text step = tail_chunk ?text step"
      by (subst tail_window.simps) (use False in auto)
    define k where "k = length ?text - step"
    have c: "tail_chunk ?text step = drop k pre @ drop (k - length pre) (l @ [NL])"
      by (simp add: tail_chunk_def k_def)
    show ?thesis
    proof (cases "k \<le> length pre")
      case True
      have "drop k pre = [] \<or> last (drop k pre) = NL"
        using assms(2) by (metis drop_eq_Nil last_drop leI drop_Nil)
      with True show ?thesis by (simp add: w c)
    next
      case k: False
      then have "step < length ?text" by (simp add: k_def)
      with False have nl: "NL \<in> set (rstrip_nl (tail_chunk ?text step))" by blast
      have "k - length pre \<le> length l" using 1(2) k by (simp add: k_def)
      then have "tail_chunk ?text step = drop (k - length pre) l @ [NL]" using k by (simp add: c)
      then have "set (rstrip_nl (tail_chunk ?text step)) \<subseteq> set l"
        using set_rstrip_nl [of "drop (k - length pre) l"] set_drop_subset [of "k - length pre" l] by auto
      with nl assms(1) show ?thesis by blast
    qed
  qed
qed

lemma jsonl_text_snoc: "jsonl_text (ls @ [l]) = jsonl_text ls @ l @ [NL]"
  by (simp add: jsonl_text_def)

lemma jsonl_text_last: "jsonl_text ls = [] \<or> last (jsonl_text ls) = NL"
  by (cases ls rule: rev_cases) (simp_all add: jsonl_text_def)

text \<open>What the tail read returns, from how the last line itself splits.\<close>

lemma jsonl_last_line_snoc:
  assumes "NL \<notin> set l" and "splitlines (l @ [NL]) = xs @ [x]" and "py_strip x \<noteq> []"
  shows "jsonl_last_line (jsonl_text (ls @ [l])) = x"
proof -
  let ?text = "jsonl_text (ls @ [l])"
  have t: "?text = jsonl_text ls @ l @ [NL]" by (rule jsonl_text_snoc)
  have "0 < min (length ?text) 65536" by (simp add: t)
  then obtain q where q: "tail_window ?text (min (length ?text) 65536) = q @ l @ [NL]" "q = [] \<or> last q = NL"
    using tail_window_last [OF assms(1) jsonl_text_last [of ls]] unfolding t by blast
  have "?text \<noteq> []" by (simp add: t)
  then show ?thesis
    using splitlines_append [OF q(2), of "l @ [NL]"] assms(2,3)
    by (simp add: jsonl_last_line_def q(1))
qed

subsection \<open>Interleaved appends\<close>

definition log_ok :: "(grade_row \<Rightarrow> string) \<Rightarrow> grade_row list \<Rightarrow> bool" where
  "log_ok H rows \<longleftrightarrow> chain_ok row_prev_hash row_row_hash (compute_hash H) GENESIS_HASH rows"

text \<open>Only the holder of the lock has read a head, and what it read is the head of the file.\<close>

definition jsonl_inv :: "(grade_row \<Rightarrow> string) \<Rightarrow> jsonl_state \<Rightarrow> bool" where
  "jsonl_inv H s \<longleftrightarrow> js_lock s \<and> log_ok H (js_file s) \<and>
     (\<forall>p h. js_head s p = Some h \<longrightarrow> js_holder s = Some p \<and> last_hash (js_file s) = Inr h)"

lemma jsonl_inv_step:
  assumes "jsonl_inv H s" and "jsonl_step H s t" and "\<And>b. H b \<noteq> []"
  shows "jsonl_inv H t"
  using assms(2)
proof (cases rule: jsonl_step.cases)
  case (write_row p h row c)
  with assms(1) have h: "last_hash (js_file s) = Inr h" by (simp add: jsonl_inv_def)
  have "log_ok H (js_file s @ [c])"
    using chained_extends [OF _ h write_row(4)] assms(1,3) by (simp add: jsonl_inv_def log_ok_def)
  moreover have "js_head s q = None" if "q \<noteq> p" for q
    using assms(1) write_row(3) that unfolding jsonl_inv_def by (metis not_Some_eq option.inject)
  ultimately show ?thesis using assms(1) write_row by (auto simp: jsonl_inv_def)
next
  case (acquire p)
  with assms(1) have "js_head s q = None" for q
    by (cases "js_head s q") (auto simp: jsonl_inv_def)
  with assms(1) acquire show ?thesis by (simp add: jsonl_inv_def)
next
  case (read_head p h)
  with assms(1) show ?thesis by (auto simp: jsonl_inv_def)
next
  case (release p)
  with assms(1) have "js_head s q = None" if "q \<noteq> p" for q
    using that by (cases "js_head s q") (auto simp: jsonl_inv_def)
  with assms(1) release show ?thesis by (auto simp: jsonl_inv_def)
qed

lemma jsonl_inv_reach:
  "jsonl_reach H s t \<Longrightarrow> jsonl_inv H s \<Longrightarrow> (\<And>b. H b \<noteq> []) \<Longrightarrow> jsonl_inv H t"
  by (induction rule: jsonl_reach.induct) (auto intro: jsonl_inv_step)

lemma jsonl_open_inv: "log_ok H file \<Longrightarrow> jsonl_inv H (jsonl_open True file)"
  by (simp add: jsonl_inv_def jsonl_open_def)

lemma verify_chain_log_ok: "(\<exists>n. verify_chain H rows = Inr n) \<longleftrightarrow> log_ok H rows"
  by (simp add: verify_chain_iff log_ok_def)

lemma verify_chain_value: "log_ok H rows \<Longrightarrow> verify_chain H rows = Inr (length rows)"
  using verify_chain_log_ok [of H rows] verify_from_count [of H GENESIS_HASH 0 rows]
  by (auto simp: verify_chain_def)

text \<open>A concrete ledger: one appended row.\<close>

lemma sample_append:
  "\<exists>c. jsonl_append (\<lambda>b. ''h'') [] sample_row = Inr ([c], c) \<and> chained (\<lambda>b. ''h'') GENESIS_HASH sample_row = Inr c"
proof -
  have v: "row_valid sample_row" using sample_row_accepted by (simp add: row_valid_def)
  obtain c where c: "chained (\<lambda>b. ''h'') GENESIS_HASH sample_row = Inr c"
    using v by (simp add: chained_Inr)
  have "assert_invariants sample_row = Inr ()"
    using sample_row_accepted by (simp add: assert_invariants_def GradeRow_quiet quiet_def)
  moreover have "assert_executor_recorded sample_row = Inr ()"
    using stamp_23 by (simp add: assert_executor_recorded_def carries_classification_def)
      (simp add: sample_row_def)
  ultimately show ?thesis using c by (simp add: jsonl_append_def last_hash_def)
qed

subsection \<open>Properties\<close>

text \<open>
  An append extends the chain. Appending to a ledger that verifies leaves the rows before it
  untouched, adds exactly the row it was given (re-chained, nothing else of it changed), and the
  longer ledger verifies; the row it returns is valid and hashed.
\<close>

theorem append_extends_chain:
  assumes "verify_chain H file = Inr n" and "jsonl_append H file r = Inr (file', c)" and "\<And>b. H b \<noteq> []"
  shows "file' = file @ [c] \<and> verify_chain H file' = Inr (Suc (length file)) \<and> verify_hash H c \<and>
    GradeRow c = Inr c \<and> c = r\<lparr>row_prev_hash := row_prev_hash c, row_row_hash := row_row_hash c\<rparr>"
proof -
  obtain h where h: "last_hash file = Inr h" "chained H h r = Inr c" "file' = file @ [c]"
    using assms(2) by (auto simp: jsonl_append_def)
  have "log_ok H file" using assms(1) verify_chain_log_ok by blast
  then have "log_ok H file'" using chained_extends [OF _ h(1,2) assms(3)] h(3) by (simp add: log_ok_def)
  note v = verify_chain_value [OF this]
  have l: "row_row_hash c = compute_hash H c" "row_valid c" using chained_links [OF h(2)] by simp_all
  have "c = r\<lparr>row_prev_hash := row_prev_hash c, row_row_hash := row_row_hash c\<rparr>"
    using h(2) by (auto simp: chained_Inr rehash_def)
  then show ?thesis
    using v l h(3) assms(3) by (simp add: verify_hash_def compute_hash_def row_valid_def)
qed

lemma append_extends_chain_witness:
  "\<exists>c. jsonl_append (\<lambda>b. ''h'') [] sample_row = Inr ([c], c) \<and> verify_chain (\<lambda>b. ''h'') [c] = Inr 1"
proof -
  obtain c where c: "jsonl_append (\<lambda>b. ''h'') [] sample_row = Inr ([c], c)" using sample_append by blast
  have "verify_chain (\<lambda>b. ''h'') [] = Inr 0" by (simp add: verify_chain_def)
  from append_extends_chain [OF this c] c show ?thesis by auto
qed

text \<open>
  C16. The ledger is tamper evident. Two ledgers of valid rows that both verify and end in the
  same hash are the same ledger, row for row, unless two different rows have bodies with one
  digest or a row's digest is the genesis value: an inserted, deleted, reordered or edited row
  changes the head hash, or a collision of the digest is in hand.
\<close>

theorem ledger_tamper_evident:
  assumes "verify_chain H rows = Inr n" and "verify_chain H rows' = Inr m"
    and "list_all (\<lambda>r. GradeRow r = Inr r) rows" and "list_all (\<lambda>r. GradeRow r = Inr r) rows'"
    and "last_hash rows = last_hash rows'"
  shows "rows = rows' \<or>
    (\<exists>r \<in> set rows. \<exists>r' \<in> set rows'. row_body r \<noteq> row_body r' \<and> H (row_body r) = H (row_body r')) \<or>
    (\<exists>r \<in> set rows \<union> set rows'. H (row_body r) = GENESIS_HASH)"
proof -
  have ok: "chain_ok row_prev_hash row_row_hash (compute_hash H) GENESIS_HASH rows"
    "chain_ok row_prev_hash row_row_hash (compute_hash H) GENESIS_HASH rows'"
    using assms(1,2) verify_chain_iff by blast+
  have ne: "row_row_hash (last xs) \<noteq> []"
    if "chain_ok row_prev_hash row_row_hash (compute_hash H) GENESIS_HASH xs" "xs \<noteq> []" for xs
    using that by (cases xs rule: rev_cases) (auto simp: chain_ok_append)
  have "chain_head row_row_hash GENESIS_HASH rows = chain_head row_row_hash GENESIS_HASH rows'"
    using assms(5) ne [OF ok(1)] ne [OF ok(2)]
    by (auto simp: last_hash_def chain_head_def split: if_splits)
  moreover have "row_valid = (\<lambda>r. GradeRow r = Inr r)" by (simp add: row_valid_def fun_eq_iff)
  ultimately show ?thesis
    using lc.same_head_same_log [OF ok] assms(3,4) by (simp add: lc.collision_def compute_hash_def)
qed

lemma ledger_tamper_evident_witness:
  "\<exists>c. verify_chain (\<lambda>b. ''h'') [c] = Inr 1 \<and> GradeRow c = Inr c \<and>
     ([c] = [c] \<or> (\<exists>r \<in> {c}. \<exists>r' \<in> {c}. row_body r \<noteq> row_body r' \<and> ''h'' = ''h'') \<or> ''h'' = GENESIS_HASH)"
proof -
  obtain c where c: "chained (\<lambda>b. ''h'') GENESIS_HASH sample_row = Inr c" using sample_append by blast
  note l = chained_links [OF c]
  have v: "verify_chain (\<lambda>b. ''h'') [c] = Inr 1"
    using l by (auto simp: verify_chain_def verify_hash_def compute_hash_def)
  have g: "list_all (\<lambda>r. GradeRow r = Inr r) [c]" using l by (simp add: row_valid_def)
  from ledger_tamper_evident [OF v v g g refl] v g show ?thesis by auto
qed

text \<open>
  Appending processes cannot break the chain. From a ledger that verifies, whatever processes
  take the lock, read the head, write and release in whatever order the lock allows, every ledger
  they reach verifies.
\<close>

theorem locked_appends_verify:
  assumes "verify_chain H file = Inr n" and "jsonl_reach H (jsonl_open True file) s" and "\<And>b. H b \<noteq> []"
  shows "verify_chain H (js_file s) = Inr (length (js_file s))"
proof -
  have "log_ok H file" using assms(1) verify_chain_log_ok by blast
  from jsonl_inv_reach [OF assms(2) jsonl_open_inv [OF this] assms(3)]
  show ?thesis by (intro verify_chain_value) (simp add: jsonl_inv_def)
qed

lemma locked_appends_verify_witness:
  "\<exists>s. jsonl_reach (\<lambda>b. ''h'') (jsonl_open True []) s \<and> verify_chain (\<lambda>b. ''h'') (js_file s) = Inr (length (js_file s)) \<and>
     js_holder s = Some 0"
proof -
  let ?s = "(jsonl_open True [])\<lparr>js_holder := Some 0\<rparr>"
  have "jsonl_step (\<lambda>b. ''h'') (jsonl_open True []) ?s"
    by (rule jsonl_step.acquire) (simp_all add: jsonl_open_def)
  then have r: "jsonl_reach (\<lambda>b. ''h'') (jsonl_open True []) ?s"
    by (intro jsonl_reach.step [OF jsonl_reach.start])
  have "verify_chain (\<lambda>b. ''h'') [] = Inr 0" by (simp add: verify_chain_def)
  from locked_appends_verify [OF this r] r show ?thesis by auto
qed

text \<open>
  The lock is what holds it. On a platform where the file lock could not be taken, two
  processes that both read the head before either writes leave a ledger that does not verify.
\<close>

theorem unlocked_appends_break:
  "\<exists>s. jsonl_reach (\<lambda>b. ''h'') (jsonl_open False []) s \<and>
     verify_chain (\<lambda>b. ''h'') (js_file s) = Inl (LedgerIntegrityError ''prev_hash mismatch'')"
proof -
  let ?H = "\<lambda>b :: grade_row. ''h''"
  have r: "row_valid sample_row" using sample_row_accepted by (simp add: row_valid_def)
  obtain c where c: "chained ?H GENESIS_HASH sample_row = Inr c"
    using r by (simp add: chained_Inr)
  note l = chained_links [OF c]
  let ?s0 = "jsonl_open False []"
  let ?s1 = "?s0\<lparr>js_head := (js_head ?s0)(0 \<mapsto> GENESIS_HASH)\<rparr>"
  let ?s2 = "?s1\<lparr>js_head := (js_head ?s1)(1 \<mapsto> GENESIS_HASH)\<rparr>"
  let ?s3 = "?s2\<lparr>js_file := js_file ?s2 @ [c], js_head := (js_head ?s2)(0 := None)\<rparr>"
  let ?s4 = "?s3\<lparr>js_file := js_file ?s3 @ [c], js_head := (js_head ?s3)(1 := None)\<rparr>"
  have lh: "last_hash [] = Inr GENESIS_HASH" by (simp add: last_hash_def)
  have 1: "jsonl_step ?H ?s0 ?s1" by (rule jsonl_step.read_head) (simp_all add: jsonl_open_def lh)
  have 2: "jsonl_step ?H ?s1 ?s2" by (rule jsonl_step.read_head) (simp_all add: jsonl_open_def lh)
  have 3: "jsonl_step ?H ?s2 ?s3" by (rule jsonl_step.write_row [OF _ _ c]) (simp_all add: jsonl_open_def)
  have 4: "jsonl_step ?H ?s3 ?s4" by (rule jsonl_step.write_row [OF _ _ c]) (simp_all add: jsonl_open_def)
  have "jsonl_reach ?H ?s0 ?s4"
    by (intro jsonl_reach.step [OF _ 4] jsonl_reach.step [OF _ 3] jsonl_reach.step [OF _ 2]
        jsonl_reach.step [OF _ 1] jsonl_reach.start)
  moreover have "GENESIS_HASH \<noteq> ''h''"
  proof -
    have "length GENESIS_HASH \<noteq> length ''h''" by (simp add: GENESIS_HASH_def)
    then show ?thesis by metis
  qed
  then have "verify_chain ?H (js_file ?s4) = Inl (LedgerIntegrityError ''prev_hash mismatch'')"
    using l by (auto simp: verify_chain_def verify_hash_def jsonl_open_def compute_hash_def)
  ultimately show ?thesis by blast
qed

text \<open>
  The tail read finds the last row. For a file of non-blank lines, each without any character
  \<open>str.splitlines\<close> breaks a line at, the line read from the tail is the last line, whatever the
  size of the rows is against the window.
\<close>

theorem tail_read_last_line:
  assumes "list_all (\<lambda>c. \<not> is_eol c) l" and "py_strip l \<noteq> []"
  shows "jsonl_last_line (jsonl_text (ls @ [l])) = l"
proof -
  have "NL \<notin> set l" using assms(1) by (auto simp: list_all_iff is_eol_def NL_def)
  then show ?thesis using jsonl_last_line_snoc [of l "[]" l] splitlines_one [OF assms(1)] assms(2) by simp
qed

lemma tail_read_last_line_witness:
  "jsonl_last_line (jsonl_text [''{1}'', ''{2}'']) = ''{2}''"
proof -
  have "jsonl_last_line (jsonl_text ([''{1}''] @ [''{2}''])) = ''{2}''"
    by (rule tail_read_last_line) code_simp+
  then show ?thesis by simp
qed

text \<open>
  It does not find a row that holds U+0085. The row is written with \<open>ensure_ascii=False\<close>, which
  leaves the NEXT LINE character as it is, and the tail is read with \<open>str.splitlines\<close>, which breaks a
  line there: the read returns the part of the row after the character, which is not the row.
\<close>

theorem tail_read_cuts_next_line_char:
  assumes "list_all (\<lambda>c. \<not> is_eol c) a" and "list_all (\<lambda>c. \<not> is_eol c) b" and "py_strip b \<noteq> []"
  shows "jsonl_last_line (jsonl_text (ls @ [a @ CHR 0x85 # b])) = b \<and> b \<noteq> a @ CHR 0x85 # b"
proof -
  have "NL \<notin> set (a @ CHR 0x85 # b)" using assms(1,2) by (auto simp: list_all_iff is_eol_def NL_def)
  moreover have "splitlines ((a @ CHR 0x85 # b) @ [NL]) = [a] @ [b]"
    using splitlines_nel [OF assms(1,2)] by simp
  ultimately have "jsonl_last_line (jsonl_text (ls @ [a @ CHR 0x85 # b])) = b"
    using assms(3) by (rule jsonl_last_line_snoc)
  moreover have "length b < length (a @ CHR 0x85 # b)" by simp
  then have "b \<noteq> a @ CHR 0x85 # b" by (metis less_irrefl)
  ultimately show ?thesis by blast
qed

lemma tail_read_cuts_next_line_char_witness:
  "jsonl_last_line (jsonl_text [''{a'' @ CHR 0x85 # ''b}'']) = ''b}''"
proof -
  have "jsonl_last_line (jsonl_text ([] @ [''{a'' @ CHR 0x85 # ''b}''])) = ''b}'' \<and>
      ''b}'' \<noteq> ''{a'' @ CHR 0x85 # ''b}''"
    by (rule tail_read_cuts_next_line_char) code_simp+
  then show ?thesis by simp
qed

end
