(* ===== verification/Stats.thy ===== *)
theory Stats
  imports Complex_Main Prelude
begin

section \<open>The interval every rate is shown with (\<open>crb/core/stats.py\<close>)\<close>

text \<open>
  Wilson's score interval, the mean and Student's t quantile. A Python \<open>float\<close> is read as the
  exact real number it approximates: no rounding is modelled, so what is proved here is the
  formula, not its last bit.
\<close>

subsection \<open>The functions\<close>

definition Z_95 :: real where "Z_95 = 1959963984540054 / 10 ^ 15"

record interval =
  low :: real
  high :: real

definition wilson_interval :: "int \<Rightarrow> int \<Rightarrow> interval result" where
  "wilson_interval successes n =
     (if n \<le> 0 then Inr \<lparr>low = 0, high = 1\<rparr>
      else guarded [(successes < 0 \<or> successes > n, ValueError ''successes'')]
        (let p = real_of_int successes / real_of_int n;
             denom = 1 + Z_95 * Z_95 / real_of_int n;
             centre = (p + Z_95 * Z_95 / (2 * real_of_int n)) / denom;
             margin = (Z_95 * sqrt ((p * (1 - p) + Z_95 * Z_95 / (4 * real_of_int n)) / real_of_int n)) / denom
         in \<lparr>low = max 0 (centre - margin), high = min 1 (centre + margin)\<rparr>))"

definition mean :: "rat list \<Rightarrow> rat" where
  "mean xs = (if xs \<noteq> [] then sum_list xs / of_nat (length xs) else 0)"

text \<open>The table, in units of \<open>10 ^ -9\<close>.\<close>

definition T_975 :: "nat list" where
  "T_975 = [12706204736, 4302652730, 3182446305, 2776445105, 2570581836, 2446911851, 2364624252,
     2306004135, 2262157163, 2228138852, 2200985160, 2178812830, 2160368656, 2144786688, 2131449546,
     2119905299, 2109815578, 2100922040, 2093024054, 2085963447, 2079613845, 2073873068, 2068657610,
     2063898562, 2059538553, 2055529439, 2051830516, 2048407142, 2045229642, 2042272456]"

definition t_expansion :: "real \<Rightarrow> real" where
  "t_expansion df =
     (let z = Z_95;
          g1 = (z ^ 3 + z) / 4;
          g2 = (5 * z ^ 5 + 16 * z ^ 3 + 3 * z) / 96;
          g3 = (3 * z ^ 7 + 19 * z ^ 5 + 17 * z ^ 3 - 15 * z) / 384
      in z + g1 / df + g2 / df ^ 2 + g3 / df ^ 3)"

definition t_975 :: "int \<Rightarrow> real result" where
  "t_975 df = guarded [(df < 1, ValueError ''df'')]
     (if df \<le> int (length T_975) then real (T_975 ! nat (df - 1)) / 10 ^ 9
      else t_expansion (real_of_int df))"

subsection \<open>Lemmas\<close>

lemma Z_95_pos: "0 < Z_95"
  by (simp add: Z_95_def)

lemma Z_95_bounds: "19 / 10 < Z_95" "Z_95 < 2"
  by (simp_all add: Z_95_def)

text \<open>The quadratic the interval solves: completing the square.\<close>

lemma wilson_square:
  fixes p c n x :: real
  assumes n: "0 < n" and c: "0 < c"
  defines "d \<equiv> 1 + c / n"
  shows "d * ((x - (p + c / (2 * n)) / d) ^ 2 - c * ((p * (1 - p) + c / (4 * n)) / n) / d ^ 2) =
    (p - x) ^ 2 - c * (x * (1 - x) / n)"
proof -
  have d: "0 < d" using n c by (simp add: d_def add_pos_pos)
  let ?a = "p + c / (2 * n)"
  have gen: "d * ((x - a / d) ^ 2 - s / d ^ 2) = d * x ^ 2 - 2 * a * x + (a ^ 2 - s) / d" for a s
    using d by (simp add: field_simps power2_eq_square)
  have "d * ((x - ?a / d) ^ 2 - c * ((p * (1 - p) + c / (4 * n)) / n) / d ^ 2) =
      d * x ^ 2 - 2 * ?a * x + (?a ^ 2 - c * ((p * (1 - p) + c / (4 * n)) / n)) / d"
    by (rule gen)
  also have "?a ^ 2 - c * ((p * (1 - p) + c / (4 * n)) / n) = d * p ^ 2"
    using n by (simp add: d_def field_simps power2_eq_square)
  also have "d * p ^ 2 / d = p ^ 2" using d by simp
  also have "d * x ^ 2 - 2 * ?a * x + p ^ 2 = (p - x) ^ 2 - c * (x * (1 - x) / n)"
    using n by (simp add: d_def field_simps power2_eq_square)
  finally show ?thesis .
qed

lemma wilson_inner_nonneg:
  fixes p c n :: real
  assumes "0 < n" "0 < c" "0 \<le> p" "p \<le> 1"
  shows "0 \<le> (p * (1 - p) + c / (4 * n)) / n"
  using assms by simp

text \<open>Membership of the unclamped interval, as the score test reads it.\<close>

lemma wilson_member:
  fixes p c n x z :: real
  assumes n: "0 < n" and z: "0 < z" and p: "0 \<le> p" "p \<le> 1"
  defines "d \<equiv> 1 + z * z / n"
  defines "m \<equiv> (z * sqrt ((p * (1 - p) + z * z / (4 * n)) / n)) / d"
  shows "\<bar>x - (p + z * z / (2 * n)) / d\<bar> \<le> m \<longleftrightarrow> (p - x) ^ 2 \<le> z * z * (x * (1 - x) / n)"
proof -
  let ?s = "(p * (1 - p) + z * z / (4 * n)) / n"
  have c: "0 < z * z" using z by simp
  have d: "0 < d" using n c by (simp add: d_def add_pos_pos)
  have s: "0 \<le> ?s" by (rule wilson_inner_nonneg [OF n c p])
  have m0: "0 \<le> m" using z d s by (simp add: m_def)
  have m2: "m ^ 2 = z * z * ?s / d ^ 2"
    unfolding m_def power_divide power_mult_distrib real_sqrt_pow2 [OF s] by (simp add: power2_eq_square)
  have "\<bar>x - (p + z * z / (2 * n)) / d\<bar> \<le> m \<longleftrightarrow> (x - (p + z * z / (2 * n)) / d) ^ 2 \<le> m ^ 2"
    using m0 by (metis abs_le_square_iff abs_of_nonneg)
  also have "\<dots> \<longleftrightarrow> d * ((x - (p + z * z / (2 * n)) / d) ^ 2 - m ^ 2) \<le> 0"
    using d by (simp add: mult_le_0_iff)
  also have "d * ((x - (p + z * z / (2 * n)) / d) ^ 2 - m ^ 2) = (p - x) ^ 2 - z * z * (x * (1 - x) / n)"
    unfolding m2 using wilson_square [OF n c, of x p] by (simp add: d_def)
  finally show ?thesis by linarith
qed

lemma wilson_interval_member:
  assumes "wilson_interval k n = Inr i" and "0 < n"
  shows "0 \<le> k \<and> k \<le> n \<and> (low i \<le> x \<and> x \<le> high i \<longleftrightarrow> 0 \<le> x \<and> x \<le> 1 \<and>
    (real_of_int k / real_of_int n - x) ^ 2 \<le> Z_95 * Z_95 * (x * (1 - x) / real_of_int n))"
proof -
  let ?p = "real_of_int k / real_of_int n" and ?n = "real_of_int n"
  from assms have k: "0 \<le> k" "k \<le> n" by (auto simp: wilson_interval_def)
  have n: "0 < ?n" using assms(2) by simp
  have p: "0 \<le> ?p" "?p \<le> 1" using k n by (simp_all add: field_simps)
  have "low i \<le> x \<and> x \<le> high i \<longleftrightarrow> 0 \<le> x \<and> x \<le> 1 \<and>
      \<bar>x - (?p + Z_95 * Z_95 / (2 * ?n)) / (1 + Z_95 * Z_95 / ?n)\<bar> \<le>
      (Z_95 * sqrt ((?p * (1 - ?p) + Z_95 * Z_95 / (4 * ?n)) / ?n)) / (1 + Z_95 * Z_95 / ?n)"
    using assms k by (auto simp: wilson_interval_def Let_def abs_le_iff)
  then show ?thesis using k wilson_member [OF n Z_95_pos p] by simp
qed

lemma wilson_interval_Inr: "0 \<le> k \<Longrightarrow> k \<le> n \<Longrightarrow> \<exists>i. wilson_interval k n = Inr i"
  by (auto simp: wilson_interval_def guarded_def)

lemma wilson_interval_raises_iff:
  "(\<exists>e. wilson_interval k n = Inl e) \<longleftrightarrow> 0 < n \<and> (k < 0 \<or> n < k)"
  by (auto simp: wilson_interval_def guarded_def)

lemma wilson_point_inside:
  assumes "wilson_interval k n = Inr i" and "0 < n"
  shows "low i \<le> real_of_int k / real_of_int n \<and> real_of_int k / real_of_int n \<le> high i"
proof -
  let ?p = "real_of_int k / real_of_int n"
  from assms have "0 \<le> k" "k \<le> n" using wilson_interval_member by blast+
  with assms(2) have "0 \<le> ?p" "?p \<le> 1" by (simp_all add: field_simps)
  moreover have "0 \<le> Z_95 * Z_95 * (q * (1 - q) / real_of_int n)" if "0 \<le> q" "q \<le> 1" for q
    using that Z_95_pos assms(2) by simp
  ultimately show ?thesis using wilson_interval_member [OF assms, of ?p] by simp
qed


lemma t_expansion_decreasing:
  assumes "0 < x" "x < y"
  shows "Z_95 < t_expansion y \<and> t_expansion y < t_expansion x"
proof -
  have step: "0 < g / y ^ k \<and> g / y ^ k < g / x ^ k" if "0 < g" "0 < k" for g :: real and k
    using assms that by (simp add: frac_less2 power_strict_mono)
  have z: "0 < Z_95" "1 < Z_95" by (simp_all add: Z_95_def)
  have "Z_95 \<le> Z_95 ^ 3" using z by (simp add: self_le_power)
  moreover have "0 < Z_95 ^ 7" "0 < Z_95 ^ 5" "0 < Z_95 ^ 3" using z by simp_all
  ultimately have g: "0 < Z_95 ^ 3 + Z_95" "0 < 5 * Z_95 ^ 5 + 16 * Z_95 ^ 3 + 3 * Z_95"
    "0 < 3 * Z_95 ^ 7 + 19 * Z_95 ^ 5 + 17 * Z_95 ^ 3 - 15 * Z_95"
    using z by - linarith+
  show ?thesis
    using step [of "(Z_95 ^ 3 + Z_95) / 4" 1] step [of "(5 * Z_95 ^ 5 + 16 * Z_95 ^ 3 + 3 * Z_95) / 96" 2]
      step [of "(3 * Z_95 ^ 7 + 19 * Z_95 ^ 5 + 17 * Z_95 ^ 3 - 15 * Z_95) / 384" 3] g
    by (simp add: t_expansion_def Let_def)
qed

text \<open>The table and the expansion above it, on one step of the degrees of freedom.\<close>

lemma T_975_decreasing: "i < 29 \<Longrightarrow> T_975 ! Suc i < T_975 ! i"
proof -
  have "sorted_wrt (\<lambda>a b. b < a) T_975" by (simp add: T_975_def)
  then show "i < 29 \<Longrightarrow> T_975 ! Suc i < T_975 ! i"
    by (rule sorted_wrt_nth_less) (simp_all add: T_975_def)
qed

lemma t_expansion_31: "t_expansion 31 < 2042272456 / 10 ^ 9"
  by (simp add: t_expansion_def Z_95_def Let_def power_divide)

lemma T_975_length: "length T_975 = 30"
  by (simp add: T_975_def)

lemma T_975_last: "T_975 ! 29 = 2042272456"
  by (simp add: T_975_def)

lemma t_975_table: "1 \<le> df \<Longrightarrow> df \<le> 30 \<Longrightarrow> t_975 df = Inr (real (T_975 ! nat (df - 1)) / 10 ^ 9)"
  by (simp add: t_975_def T_975_length)

lemma t_975_above: "30 < df \<Longrightarrow> t_975 df = Inr (t_expansion (real_of_int df))"
  by (simp add: t_975_def T_975_length)

lemma T_975_above_last: "i \<le> 29 \<Longrightarrow> T_975 ! 29 \<le> T_975 ! i"
proof (induction "29 - i" arbitrary: i)
  case (Suc k)
  then have "T_975 ! 29 \<le> T_975 ! Suc i" by simp
  also have "\<dots> \<le> T_975 ! i" by (rule less_imp_le [OF T_975_decreasing]) (use Suc.hyps(2) in simp)
  finally show ?case .
qed simp

subsection \<open>Properties\<close>

text \<open>
  The interval is the score test, inverted. For every possible count it returns, and holds
  exactly the proportions \<open>x\<close> of the unit interval the score test at \<open>Z_95\<close> does not reject,
  \<open>(k/n - x)\<^sup>2 \<le> Z_95\<^sup>2 x (1 - x) / n\<close>; the observed rate is always one of them. The clamps to 0
  and 1 cut nothing else.
\<close>

theorem wilson_is_score_test:
  assumes "0 < n" "0 \<le> k" "k \<le> n"
  shows "\<exists>i. wilson_interval k n = Inr i \<and>
    low i \<le> real_of_int k / real_of_int n \<and> real_of_int k / real_of_int n \<le> high i \<and>
    {low i .. high i} = {x. 0 \<le> x \<and> x \<le> 1 \<and>
      (real_of_int k / real_of_int n - x) ^ 2 \<le> Z_95 * Z_95 * (x * (1 - x) / real_of_int n)}"
proof -
  obtain i where i: "wilson_interval k n = Inr i"
    using wilson_interval_Inr [OF assms(2,3)] by blast
  note m = wilson_interval_member [OF i assms(1), THEN conjunct2, THEN conjunct2]
  have "{low i .. high i} = {x. 0 \<le> x \<and> x \<le> 1 \<and>
      (real_of_int k / real_of_int n - x) ^ 2 \<le> Z_95 * Z_95 * (x * (1 - x) / real_of_int n)}"
    unfolding set_eq_iff atLeastAtMost_iff mem_Collect_eq using m by simp
  with i wilson_point_inside [OF i assms(1)] show ?thesis by metis
qed

theorem wilson_is_score_test_witness:
  "\<exists>i. wilson_interval 8 8 = Inr i \<and> low i \<le> 1 \<and> 1 \<le> high i \<and>
     {low i .. high i} = {x. 0 \<le> x \<and> x \<le> 1 \<and> (1 - x) ^ 2 \<le> Z_95 * Z_95 * (x * (1 - x) / 8)}"
  using wilson_is_score_test [of 8 8] by simp

text \<open>
  The t quantile decreases strictly in the degrees of freedom, across the table, across the seam
  at 30 and in the expansion above it, and stays above the normal quantile: an interval never gets
  narrower from losing a sample.
\<close>

theorem t_975_decreases:
  assumes "1 \<le> df"
  shows "\<exists>a b. t_975 df = Inr a \<and> t_975 (df + 1) = Inr b \<and> Z_95 < b \<and> b < a"
proof -
  consider "df < 30" | "df = 30" | "30 < df" by linarith
  then show ?thesis
  proof cases
    case 1
    define i where "i = nat (df - 1)"
    have i: "i < 29" "nat (df + 1 - 1) = Suc i" using assms 1 by (simp_all add: i_def)
    have "2042272456 \<le> real (T_975 ! Suc i)"
      using T_975_above_last [of "Suc i"] i(1) T_975_last by simp
    moreover have "real (T_975 ! Suc i) < real (T_975 ! i)" using T_975_decreasing [OF i(1)] by simp
    moreover have "t_975 df = Inr (real (T_975 ! i) / 10 ^ 9)"
      using t_975_table [of df] assms 1 by (simp add: i_def)
    moreover have "t_975 (df + 1) = Inr (real (T_975 ! Suc i) / 10 ^ 9)"
      using t_975_table [of "df + 1"] assms 1 i(2) by simp
    moreover have "Z_95 < x / 10 ^ 9" if "2042272456 \<le> x" for x using that by (simp add: Z_95_def)
    moreover have "x / 10 ^ 9 < y / 10 ^ 9" if "x < y" for x y :: real using that by simp
    ultimately show ?thesis by metis
  next
    case 2
    have "t_975 df = Inr (2042272456 / 10 ^ 9)" using t_975_table [of df] 2 T_975_last by simp
    moreover have "t_975 (df + 1) = Inr (t_expansion 31)" using t_975_above [of "df + 1"] 2 by simp
    moreover have "Z_95 < t_expansion 31" using t_expansion_decreasing [of 1 31] by simp
    ultimately show ?thesis using t_expansion_31 by blast
  next
    case 3
    then show ?thesis
      using t_975_above [of df] t_975_above [of "df + 1"]
        t_expansion_decreasing [of "real_of_int df" "real_of_int df + 1"] by simp
  qed
qed

theorem t_975_decreases_witness:
  "\<exists>a b. t_975 30 = Inr a \<and> t_975 31 = Inr b \<and> Z_95 < b \<and> b < a"
  using t_975_decreases [of 30] by simp

end
