(* ===== verification/Cell_Stats.thy ===== *)
theory Cell_Stats
  imports Ledger_Row_Correct Stats "HOL-Library.List_Lexorder" "HOL-Library.Char_ord"
begin

section \<open>Cell statistics (\<open>crb/core/ledger.py\<close>, from \<open>FailureSplit\<close> on)\<close>

text \<open>
  How a list of ledger rows becomes the numbers the router, the map and the API read: the split of
  the eligible rows by failure kind, each distinct change's first observed attempt, the statistics
  of one cell with its refusals to pool, and the fold over every cell present. Counters are \<open>nat\<close>,
  means are exact rationals and intervals are those of theory \<open>Stats\<close>.
\<close>

subsection \<open>The failure split\<close>

record failure_counts =
  fs_n :: nat
  fs_clean :: nat
  fs_builder_red :: nat
  fs_budget :: nat
  fs_protocol :: nat
  fs_harness :: nat
  fs_disqualified :: nat
  fs_rows :: nat
  fs_cost_known :: nat
  fs_cost_unknown :: nat
  fs_lint :: nat
  fs_lint_evaluated :: nat
  fs_api :: nat
  fs_outage :: nat
  fs_authoring :: nat
  fs_outage_auth :: nat

definition FailureSplit :: "failure_counts \<Rightarrow> failure_counts result" where
  "FailureSplit s =
     (let kinds = fs_clean s + fs_builder_red s + fs_lint s + fs_api s + fs_budget s + fs_protocol s
      in guarded
        [(\<not> fs_outage_auth s \<le> fs_outage s, ValueError ''outage_auth''),
         (fs_n s \<noteq> kinds + fs_harness s + fs_authoring s, ValueError ''partition'')] s)"

definition fs_model_n :: "failure_counts \<Rightarrow> nat" where
  "fs_model_n s = fs_clean s + fs_builder_red s + fs_lint s + fs_api s"

definition fs_instrument :: "failure_counts \<Rightarrow> nat" where
  "fs_instrument s = fs_protocol s + fs_harness s"

text \<open>\<open>kinds[r.failure_kind] += 1\<close> over the dictionary of the known kinds.\<close>

type_synonym counts = "(string \<times> nat) list"

fun bump :: "counts \<Rightarrow> string \<Rightarrow> counts result" where
  "bump [] k = Inl (OtherError ''KeyError'')"
| "bump ((k', n) # m) k =
     (if k' = k then Inr ((k', Suc n) # m) else bind_result (bump m k) (\<lambda>m'. Inr ((k', n) # m')))"

fun count_kinds :: "counts \<Rightarrow> grade_row list \<Rightarrow> counts result" where
  "count_kinds m [] = Inr m"
| "count_kinds m (r # rs) = bind_result (bump m (row_failure_kind r)) (\<lambda>m'. count_kinds m' rs)"

definition kind_count :: "counts \<Rightarrow> string \<Rightarrow> nat" where
  "kind_count m k = (case map_of m k of None \<Rightarrow> 0 | Some n \<Rightarrow> n)"

definition failure_split :: "grade_row list \<Rightarrow> failure_counts result" where
  "failure_split rs =
     (let eligible = filter row_eligible rs in
      bind_result (count_kinds (map (\<lambda>k. (k, 0)) FAILURE_KINDS) eligible) (\<lambda>kinds. FailureSplit
        \<lparr>fs_n = length eligible,
         fs_clean = kind_count kinds FAILURE_CLEAN,
         fs_builder_red = kind_count kinds FAILURE_BUILDER_RED,
         fs_budget = kind_count kinds FAILURE_BUDGET,
         fs_protocol = kind_count kinds FAILURE_PROTOCOL,
         fs_harness = kind_count kinds FAILURE_HARNESS,
         fs_disqualified = count_if row_disqualified rs,
         fs_rows = length rs,
         fs_cost_known = count_if row_cost_known eligible,
         fs_cost_unknown = count_if (\<lambda>r. \<not> row_cost_known r) eligible,
         fs_lint = kind_count kinds FAILURE_LINT,
         fs_lint_evaluated = count_if (\<lambda>r. row_repo_lint_clean r \<noteq> None) eligible,
         fs_api = kind_count kinds FAILURE_API,
         fs_outage = count_if (\<lambda>r. row_failure_kind r = FAILURE_OUTAGE) rs,
         fs_authoring = kind_count kinds FAILURE_AUTHORING,
         fs_outage_auth = count_if (\<lambda>r. row_failure_kind r = FAILURE_OUTAGE \<and>
           row_outage_cause r = OUTAGE_CAUSE_AUTH) rs\<rparr>))"

subsection \<open>Held-out acceptance tests and escalation rungs\<close>

definition LABEL_ACCEPTANCE :: string where "LABEL_ACCEPTANCE = ''acceptance''"
definition ACCEPTANCE_HELD_OUT :: string where "ACCEPTANCE_HELD_OUT = ''held_out''"
definition LABEL_ACCEPTANCE_SHA :: string where "LABEL_ACCEPTANCE_SHA = ''acceptance_sha256''"
definition LABEL_ACCEPTANCE_RESULT :: string where "LABEL_ACCEPTANCE_RESULT = ''acceptance_result''"
definition RESULT_PASS :: string where "RESULT_PASS = ''pass''"
definition RESULTS :: "string list" where "RESULTS = [RESULT_PASS, ''fail'', ''error'']"

definition held_out_graded :: "dict \<Rightarrow> bool" where
  "held_out_graded ls \<longleftrightarrow>
     (let context_arm = dget ls LABEL_CONTEXT_ARM [] in
      is_arm context_arm \<and> arm_base context_arm = Some S2 \<and>
      dget ls LABEL_ACCEPTANCE [] = ACCEPTANCE_HELD_OUT \<and> dget ls LABEL_ACCEPTANCE_SHA [] \<noteq> [] \<and>
      dget ls LABEL_ACCEPTANCE_RESULT [] \<in> set RESULTS)"

definition held_out_result :: "dict \<Rightarrow> string" where
  "held_out_result ls = (if held_out_graded ls then dget ls LABEL_ACCEPTANCE_RESULT [] else [])"

definition held_out_passes :: "dict \<Rightarrow> bool" where
  "held_out_passes ls \<longleftrightarrow> \<not> held_out_graded ls \<or> held_out_result ls = RESULT_PASS"

definition is_escalated_trial :: "string \<Rightarrow> bool" where
  "is_escalated_trial trial =
     (let t = py_lower (py_strip trial) in
      if \<not> starts_with t ''r'' then False
      else case py_int (drop 1 t) of Some n \<Rightarrow> n \<ge> 2 | None \<Rightarrow> False)"

subsection \<open>First attempts\<close>

record first_attempt =
  fa_change :: string
  fa_row :: grade_row
  fa_observed :: bool

definition lint_could_change :: "grade_row \<Rightarrow> bool" where
  "lint_could_change row \<longleftrightarrow>
     row_lint_reason row = LINT_DISABLED_BY_CONFIG \<and> row_clean row \<and> \<not> row_disqualified row"

definition fa_clean :: "first_attempt \<Rightarrow> bool" where
  "fa_clean a \<longleftrightarrow> fa_observed a \<and> row_clean (fa_row a) \<and> held_out_passes (row_labels (fa_row a))"

definition fa_gold_checked :: "first_attempt \<Rightarrow> bool" where
  "fa_gold_checked a \<longleftrightarrow>
     (if row_process_step (fa_row a) = PROCESS_FACTORY then held_out_graded (row_labels (fa_row a))
      else row_gold_clean (fa_row a) = Some True)"

definition fa_lint_disabled :: "first_attempt \<Rightarrow> bool" where
  "fa_lint_disabled a \<longleftrightarrow> row_lint_reason (fa_row a) = LINT_DISABLED_BY_CONFIG"

definition fa_routes :: "first_attempt \<Rightarrow> bool" where
  "fa_routes a \<longleftrightarrow> fa_gold_checked a \<and> \<not> lint_could_change (fa_row a)"

definition change_of :: "grade_row \<Rightarrow> string" where
  "change_of row = or_else (row_change_id row) (row_task_id row)"

record fa_state =
  st_observed :: "(string \<times> first_attempt) list"
  st_harness :: "(string \<times> grade_row) list"
  st_order :: "string list"

definition setdefault :: "('k \<times> 'v) list \<Rightarrow> 'k \<Rightarrow> 'v \<Rightarrow> ('k \<times> 'v) list" where
  "setdefault d k v = (if map_of d k = None then d @ [(k, v)] else d)"

definition first_attempts_step :: "fa_state \<Rightarrow> grade_row \<Rightarrow> fa_state" where
  "first_attempts_step st r =
     (if \<not> row_eligible r \<or> is_escalated_trial (row_trial r) then st
      else let ch = change_of r in
        if map_of (st_observed st) ch \<noteq> None then st
        else let st = (if ch \<in> set (st_order st) then st else st\<lparr>st_order := st_order st @ [ch]\<rparr>) in
          if row_failure_kind r = FAILURE_HARNESS
          then st\<lparr>st_harness := setdefault (st_harness st) ch r\<rparr>
          else st\<lparr>st_observed := st_observed st @
                 [(ch, \<lparr>fa_change = ch, fa_row = r, fa_observed = True\<rparr>)]\<rparr>)"

definition first_attempt_of :: "fa_state \<Rightarrow> string \<Rightarrow> first_attempt result" where
  "first_attempt_of st ch =
     (case map_of (st_observed st) ch of
        Some a \<Rightarrow> Inr a
      | None \<Rightarrow> (case map_of (st_harness st) ch of
          Some r \<Rightarrow> Inr \<lparr>fa_change = ch, fa_row = r, fa_observed = False\<rparr>
        | None \<Rightarrow> Inl (OtherError ''KeyError'')))"

definition first_attempts :: "grade_row list \<Rightarrow> first_attempt list result" where
  "first_attempts rows =
     (let st = foldl first_attempts_step \<lparr>st_observed = [], st_harness = [], st_order = []\<rparr> rows
      in collect (first_attempt_of st) (st_order st))"

subsection \<open>One cell\<close>

text \<open>The counts the code copies out of the failure split are that split here.\<close>

definition row_posture_id :: "grade_row \<Rightarrow> string" where
  "row_posture_id r = label_of r LABEL_POSTURE_ID"

record cell_numbers =
  cs_cell :: cell_key
  cs_n :: nat
  cs_clean :: nat
  cs_disqualified :: nat
  cs_errors :: nat
  cs_false_q1 :: nat
  cs_point :: rat
  cs_ci :: interval
  cs_cost_usd_mean :: rat
  cs_latency_s_mean :: rat
  cs_oracle_strength_mean :: "rat option"
  cs_apparatus_versions :: "string list"
  cs_posture_ids :: "string list"
  cs_posture_classes :: "string list"
  cs_split :: failure_counts
  cs_n_tasks :: nat
  cs_model_n :: nat
  cs_model_point :: rat
  cs_model_ci :: interval
  cs_checks_arm :: string
  cs_n_cost_known :: nat
  cs_apparatus_version :: string
  cs_context_arm :: string
  cs_taxonomy :: string
  cs_n_tasks_eligible :: nat
  cs_task_clean :: nat
  cs_task_ci :: interval
  cs_n_tasks_gold_unchecked :: nat
  cs_n_tasks_lint_disabled :: nat
  cs_n_tasks_sealed :: nat
  cs_n_unsealed :: nat

text \<open>\<open>_one\<close>: the one value every row carries, or the refusal to pool.\<close>

definition one_value :: "(grade_row \<Rightarrow> string) \<Rightarrow> exn \<Rightarrow> grade_row list \<Rightarrow> string result" where
  "one_value f e rs =
     (let values = dedup (map f rs) in
      if length values > 1 then Inl e else if values = [] then Inl (OtherError ''IndexError'') else Inr (hd values))"

definition cell_stats_of ::
    "grade_row list \<Rightarrow> string \<Rightarrow> string \<Rightarrow> string \<Rightarrow> string \<Rightarrow> first_attempt list \<Rightarrow> failure_counts \<Rightarrow>
     interval \<Rightarrow> interval \<Rightarrow> interval \<Rightarrow> cell_numbers" where
  "cell_stats_of rs checks apparatus context_arm taxonomy firsts split ci task_ci model_ci =
     (let eligible = filter row_eligible rs;
          routing = filter fa_routes firsts;
          n = length eligible;
          clean = count_if row_clean eligible;
          costs = map row_cost_usd (filter row_cost_known eligible);
          lats = filter (\<lambda>l. l > 0) (map row_latency_s eligible);
          strengths = List.map_filter row_oracle_strength eligible
      in \<lparr>cs_cell = row_cell (hd rs), cs_n = n, cs_clean = clean,
          cs_disqualified = count_if row_disqualified rs,
          cs_errors = count_if (\<lambda>r. row_error r \<noteq> []) rs,
          cs_false_q1 = count_if (\<lambda>r. row_clean r \<and> \<not> belts_all_true r) rs,
          cs_point = (if n \<noteq> 0 then of_nat clean / of_nat n else 0), cs_ci = ci,
          cs_cost_usd_mean = mean costs, cs_latency_s_mean = mean lats,
          cs_oracle_strength_mean = (if strengths \<noteq> [] then Some (mean strengths) else None),
          cs_apparatus_versions = sort (dedup (map row_apparatus_version rs)),
          cs_posture_ids = sort (dedup (filter (\<lambda>p. p \<noteq> []) (map row_posture_id rs))),
          cs_posture_classes = sort (dedup (filter (\<lambda>p. p \<noteq> []) (map row_posture_class rs))),
          cs_split = split, cs_n_tasks = length routing, cs_model_n = fs_model_n split,
          cs_model_point = (if fs_model_n split \<noteq> 0
            then of_nat (fs_clean split) / of_nat (fs_model_n split) else 0),
          cs_model_ci = model_ci, cs_checks_arm = checks, cs_n_cost_known = length costs,
          cs_apparatus_version = apparatus, cs_context_arm = context_arm, cs_taxonomy = taxonomy,
          cs_n_tasks_eligible =
            length (dedup (filter (\<lambda>t. t \<noteq> []) (map row_task_id eligible))),
          cs_task_clean = count_if fa_clean routing, cs_task_ci = task_ci,
          cs_n_tasks_gold_unchecked = count_if (\<lambda>a. \<not> fa_gold_checked a) firsts,
          cs_n_tasks_lint_disabled = count_if (\<lambda>a. fa_gold_checked a \<and> fa_lint_disabled a) firsts,
          cs_n_tasks_sealed = count_if (\<lambda>a. row_sealed (fa_row a)) routing,
          cs_n_unsealed = count_if (\<lambda>r. \<not> row_sealed r) eligible\<rparr>)"

definition cell_stats :: "grade_row list \<Rightarrow> cell_numbers result" where
  "cell_stats rs =
     (if rs = [] then Inl (ValueError ''no row'')
      else bind_result (one_value row_checks_arm ChecksArmsPooled rs) (\<lambda>checks.
        bind_result (one_value row_apparatus_version ApparatusPooled rs) (\<lambda>apparatus.
        bind_result (one_value row_context_arm ContextArmsPooled rs) (\<lambda>context_arm.
        bind_result (one_value row_taxonomy ClassSetsPooled rs) (\<lambda>taxonomy.
        bind_result (first_attempts rs) (\<lambda>firsts.
        bind_result (failure_split rs) (\<lambda>split.
        (let eligible = filter row_eligible rs; routing = filter fa_routes firsts in
         bind_result (wilson_interval (int (count_if row_clean eligible)) (int (length eligible))) (\<lambda>ci.
         bind_result (wilson_interval (int (count_if fa_clean routing)) (int (length routing))) (\<lambda>task_ci.
         bind_result (wilson_interval (int (fs_clean split)) (int (fs_model_n split))) (\<lambda>model_ci.
           Inr (cell_stats_of rs checks apparatus context_arm taxonomy firsts split ci task_ci model_ci))))))))))))"

subsection \<open>Reading and grouping\<close>

definition rows_for_checks :: "grade_row list \<Rightarrow> string \<Rightarrow> grade_row list result" where
  "rows_for_checks rows checks =
     (if checks \<notin> set ARMS then Inl (ValueError ''checks arm'')
      else Inr (filter (\<lambda>r. row_checks_arm r = checks) rows))"

definition rows_measured_here :: "grade_row list \<Rightarrow> grade_row list" where
  "rows_measured_here rows = filter (\<lambda>r. row_provenance r = PROVENANCE_MEASURED) rows"

definition pool_scope :: "grade_row \<Rightarrow> string list" where
  "pool_scope row = [row_apparatus_version row, row_mode row, row_checks_arm row, row_posture_class row]"

definition DEFAULT_READ_ARM :: string where "DEFAULT_READ_ARM = ''S3''"

definition rows_for_reading :: "grade_row list \<Rightarrow> string \<Rightarrow> string \<Rightarrow> string \<Rightarrow> grade_row list" where
  "rows_for_reading rows apparatus context_arm taxonomy =
     filter (\<lambda>r. row_apparatus_version r = apparatus \<and>
       (let stamped = (row_context_arm r \<noteq> [] \<or> row_taxonomy r \<noteq> []) in
        \<not> (stamped \<and> (row_context_arm r \<noteq> context_arm \<or> row_taxonomy r \<noteq> taxonomy)))) rows"

type_synonym ('k, 'v) groups = "('k \<times> 'v list) list"

fun group_add :: "('k, 'v) groups \<Rightarrow> 'k \<Rightarrow> 'v \<Rightarrow> ('k, 'v) groups" where
  "group_add [] k v = [(k, [v])]"
| "group_add ((k', vs) # g) k v =
     (if k' = k then (k', vs @ [v]) # g else (k', vs) # group_add g k v)"

definition group_rows :: "('v \<Rightarrow> 'k) \<Rightarrow> 'v list \<Rightarrow> ('k, 'v) groups" where
  "group_rows key rows = foldl (\<lambda>g r. group_add g (key r) r) [] rows"

definition group_by_cell :: "(grade_row \<Rightarrow> string) list \<Rightarrow> grade_row list \<Rightarrow> (string list, grade_row) groups" where
  "group_by_cell key_fields rows = group_rows (\<lambda>r. map (\<lambda>f. f r) key_fields) rows"

definition reading_key :: "grade_row \<Rightarrow> string \<times> string \<times> string \<times> string" where
  "reading_key row = (row_checks_arm row, row_apparatus_version row, row_context_arm row, row_taxonomy row)"

fun all_arms :: "grade_row list \<Rightarrow> string list \<Rightarrow> cell_numbers list result" where
  "all_arms rs [] = Inr []"
| "all_arms rs (checks # later) =
     bind_result (rows_for_checks rs checks) (\<lambda>here.
     bind_result (collect cell_stats (map snd (group_rows (\<lambda>r. (reading_key r, row_cell r)) here))) (\<lambda>out.
     bind_result (all_arms rs later) (\<lambda>rest. Inr (out @ rest))))"

definition all_cell_stats :: "grade_row list \<Rightarrow> cell_numbers list result" where
  "all_cell_stats rows = all_arms rows ARMS"

definition false_q1_total :: "grade_row list \<Rightarrow> nat" where
  "false_q1_total rows = count_if (\<lambda>r. row_clean r \<and> \<not> belts_all_true r) rows"

end
