(* ===== verification/Cell_Stats_Correct.thy ===== *)
theory Cell_Stats_Correct
  imports Cell_Stats
begin

section \<open>What the cell statistics count\<close>

text \<open>
  The loops of theory \<open>Cell_Stats\<close> read as filters and counts, and the properties of the numbers:
  nothing is dropped, nothing is pooled, and no statistic of rows that exist raises.
\<close>

subsection \<open>Generic loops\<close>

lemma group_add_map:
  "distinct ks \<Longrightarrow> group_add (map (\<lambda>k. (k, F k)) ks) k v =
     (if k \<in> set ks then map (\<lambda>k'. (k', if k' = k then F k' @ [v] else F k')) ks
      else map (\<lambda>k. (k, F k)) ks @ [(k, [v])])"
proof (induction ks)
  case (Cons k' ks)
  then show ?case by (auto intro!: map_cong)
qed simp

lemma group_rows_snoc: "group_rows key (rows @ [r]) = group_add (group_rows key rows) (key r) r"
  by (simp add: group_rows_def)

lemma filter_key_empty: "k \<notin> set (map key rows) \<Longrightarrow> filter (\<lambda>r. key r = k) rows = []"
  by (auto simp: filter_empty_conv)

lemma group_rows_spec:
  "group_rows key rows = map (\<lambda>k. (k, filter (\<lambda>r. key r = k) rows)) (dedup (map key rows))"
proof (induction rows rule: rev_induct)
  case Nil
  then show ?case by (simp add: group_rows_def)
next
  case (snoc r rows)
  show ?case
  proof (cases "key r \<in> set (map key rows)")
    case True
    then show ?thesis
      unfolding group_rows_snoc snoc map_append list.map dedup_snoc group_add_map [OF distinct_dedup]
      by (auto intro!: map_cong)
  next
    case False
    have "filter (\<lambda>r'. key r' = k) (rows @ [r]) = filter (\<lambda>r'. key r' = k) rows"
      if "k \<in> set (dedup (map key rows))" for k using False that by auto
    then show ?thesis
      unfolding group_rows_snoc snoc map_append list.map dedup_snoc group_add_map [OF distinct_dedup]
      using False filter_key_empty [OF False] by (auto intro!: map_cong)
  qed
qed

subsection \<open>The failure split\<close>

lemma bump_Some:
  "map_of m k = Some n \<Longrightarrow> \<exists>m'. bump m k = Inr m' \<and> map fst m' = map fst m \<and> map_of m' = (map_of m)(k \<mapsto> Suc n)"
proof (induction m k rule: bump.induct)
  case (2 k' n' m k)
  show ?case
  proof (cases "k' = k")
    case True
    with 2 show ?thesis by auto
  next
    case False
    then have "map_of m k = Some n" using 2 by simp
    from 2(1) [OF False this] obtain m' where "bump m k = Inr m'" "map fst m' = map fst m"
      "map_of m' = (map_of m)(k \<mapsto> Suc n)" by blast
    with False show ?thesis by (auto simp: fun_upd_twist)
  qed
qed simp

lemma bump_keys: "bump m k = Inr m' \<Longrightarrow> map fst m' = map fst m"
  by (induction m k arbitrary: m' rule: bump.induct) (auto split: if_splits)

lemma map_of_key: "k \<in> set (map fst m) \<Longrightarrow> \<exists>n. map_of m k = Some n"
  by (metis list.set_map map_of_eq_None_iff not_Some_eq)

lemma count_kinds_spec:
  "\<forall>r\<in>set rs. row_failure_kind r \<in> set (map fst m) \<Longrightarrow> \<exists>m'. count_kinds m rs = Inr m' \<and>
     (\<forall>k\<in>set (map fst m). kind_count m' k = kind_count m k + count_if (\<lambda>r. row_failure_kind r = k) rs)"
proof (induction rs arbitrary: m)
  case (Cons r rs)
  let ?k = "row_failure_kind r"
  obtain n where "map_of m ?k = Some n" using Cons.prems map_of_key by fastforce
  from bump_Some [OF this] obtain m1 where m1: "bump m ?k = Inr m1" "map fst m1 = map fst m"
    "map_of m1 = (map_of m)(?k \<mapsto> Suc n)" by blast
  have "\<forall>r\<in>set rs. row_failure_kind r \<in> set (map fst m1)" using Cons.prems m1(2) by simp
  from Cons.IH [OF this] obtain m' where m': "count_kinds m1 rs = Inr m'"
    "\<forall>k\<in>set (map fst m1). kind_count m' k = kind_count m1 k + count_if (\<lambda>r. row_failure_kind r = k) rs"
    by blast
  have "kind_count m1 k = kind_count m k + (if ?k = k then 1 else 0)" for k
    using \<open>map_of m ?k = Some n\<close> by (auto simp: kind_count_def m1(3))
  then show ?case using m' m1 by simp
qed simp

definition cell_kinds :: "string list" where
  "cell_kinds = [FAILURE_CLEAN, FAILURE_BUILDER_RED, FAILURE_LINT, FAILURE_API, FAILURE_BUDGET,
     FAILURE_PROTOCOL, FAILURE_HARNESS, FAILURE_AUTHORING]"

lemma eligible_kind:
  assumes "row_valid r" and "row_eligible r"
  shows "row_failure_kind r \<in> set cell_kinds"
proof -
  have "row_failure_kind r \<in> set FAILURE_KINDS \<and> row_failure_kind r \<noteq> FAILURE_DISQUALIFIED"
    using row_kind_spec [OF row_valid_parts [OF assms(1)]] assms(2) by (simp add: row_eligible_def)
  with assms(2) show ?thesis by (auto simp: FAILURE_KINDS_def cell_kinds_def row_eligible_def)
qed

definition kind_n :: "string \<Rightarrow> grade_row list \<Rightarrow> nat" where
  "kind_n k rs = count_if (\<lambda>r. row_failure_kind r = k) (filter row_eligible rs)"

definition split_of :: "grade_row list \<Rightarrow> failure_counts" where
  "split_of rs =
     \<lparr>fs_n = count_if row_eligible rs, fs_clean = kind_n FAILURE_CLEAN rs,
      fs_builder_red = kind_n FAILURE_BUILDER_RED rs, fs_budget = kind_n FAILURE_BUDGET rs,
      fs_protocol = kind_n FAILURE_PROTOCOL rs, fs_harness = kind_n FAILURE_HARNESS rs,
      fs_disqualified = count_if row_disqualified rs, fs_rows = length rs,
      fs_cost_known = count_if row_cost_known (filter row_eligible rs),
      fs_cost_unknown = count_if (\<lambda>r. \<not> row_cost_known r) (filter row_eligible rs),
      fs_lint = kind_n FAILURE_LINT rs,
      fs_lint_evaluated = count_if (\<lambda>r. row_repo_lint_clean r \<noteq> None) (filter row_eligible rs),
      fs_api = kind_n FAILURE_API rs,
      fs_outage = count_if (\<lambda>r. row_failure_kind r = FAILURE_OUTAGE) rs,
      fs_authoring = kind_n FAILURE_AUTHORING rs,
      fs_outage_auth = count_if (\<lambda>r. row_failure_kind r = FAILURE_OUTAGE \<and>
        row_outage_cause r = OUTAGE_CAUSE_AUTH) rs\<rparr>"

lemma count_if_mono: "(\<And>x. P x \<Longrightarrow> Q x) \<Longrightarrow> count_if P xs \<le> count_if Q xs"
  by (induction xs) (auto simp: le_SucI)

lemma cell_kinds_partition:
  assumes "list_all row_valid rs"
  shows "count_if row_eligible rs = kind_n FAILURE_CLEAN rs + kind_n FAILURE_BUILDER_RED rs +
    kind_n FAILURE_LINT rs + kind_n FAILURE_API rs + kind_n FAILURE_BUDGET rs +
    kind_n FAILURE_PROTOCOL rs + kind_n FAILURE_HARNESS rs + kind_n FAILURE_AUTHORING rs"
proof -
  have "distinct cell_kinds" by (simp add: cell_kinds_def failure_kind_defs)
  moreover have "\<forall>r\<in>set (filter row_eligible rs). row_failure_kind r \<in> set cell_kinds"
    using assms eligible_kind by (auto simp: list_all_iff)
  ultimately have "length (filter row_eligible rs) = sum_list (map (\<lambda>k. kind_n k rs) cell_kinds)"
    unfolding kind_n_def by (rule length_by_key)
  then show ?thesis by (simp add: count_if_def [of row_eligible] cell_kinds_def)
qed

lemma failure_split_eq:
  assumes "list_all row_valid rs"
  shows "failure_split rs = Inr (split_of rs)"
proof -
  let ?m = "map (\<lambda>k. (k, 0 :: nat)) FAILURE_KINDS"
  have keys: "map fst ?m = FAILURE_KINDS" by (simp add: comp_def)
  have "\<forall>r\<in>set (filter row_eligible rs). row_failure_kind r \<in> set (map fst ?m)"
    unfolding keys using assms row_kind_spec row_valid_parts by (auto simp: list_all_iff)
  from count_kinds_spec [OF this] obtain m' where m': "count_kinds ?m (filter row_eligible rs) = Inr m'"
    and c: "\<forall>k\<in>set FAILURE_KINDS. kind_count m' k = kind_count ?m k + kind_n k rs"
    unfolding keys kind_n_def by blast
  have "kind_count ?m k = 0" for k 
    by (auto simp: kind_count_def map_of_map_restrict restrict_map_def split: option.splits if_splits)
  then have k: "\<And>k. k \<in> set FAILURE_KINDS \<Longrightarrow> kind_count m' k = kind_n k rs" using c by simp
  have "fs_outage_auth (split_of rs) \<le> fs_outage (split_of rs)"
    unfolding split_of_def failure_counts.simps by (rule count_if_mono) simp
  then have "FailureSplit (split_of rs) = Inr (split_of rs)"
    using cell_kinds_partition [OF assms] by (simp add: FailureSplit_def Let_def split_of_def)
  moreover have "length (filter row_eligible rs) = count_if row_eligible rs" by (simp add: count_if_def)
  ultimately show ?thesis
    unfolding failure_split_def Let_def m' bind_result.simps
    by (simp add: split_of_def k FAILURE_KINDS_def)
qed

subsection \<open>First attempts\<close>

definition counted :: "grade_row \<Rightarrow> bool" where
  "counted r \<longleftrightarrow> row_eligible r \<and> \<not> is_escalated_trial (row_trial r)"

text \<open>The rule, with no loop: the first counted row of the change that observed the builder, else
  its first counted row, as not observed.\<close>

definition observes :: "string \<Rightarrow> grade_row \<Rightarrow> bool" where
  "observes ch r \<longleftrightarrow> counted r \<and> change_of r = ch \<and> row_failure_kind r \<noteq> FAILURE_HARNESS"

definition attempt_spec :: "grade_row list \<Rightarrow> string \<Rightarrow> first_attempt" where
  "attempt_spec rows ch = (case find (observes ch) rows of
       Some r \<Rightarrow> \<lparr>fa_change = ch, fa_row = r, fa_observed = True\<rparr>
     | None \<Rightarrow> \<lparr>fa_change = ch, fa_row = hd (filter (\<lambda>r. counted r \<and> change_of r = ch) rows), fa_observed = False\<rparr>)"

definition changes_of :: "grade_row list \<Rightarrow> string list" where
  "changes_of rows = dedup (map change_of (filter counted rows))"

lemma find_snoc: "find P (xs @ [x]) = (case find P xs of None \<Rightarrow> if P x then Some x else None | Some y \<Rightarrow> Some y)"
  by (induction xs) auto

definition fa_start :: fa_state where
  "fa_start = \<lparr>st_observed = [], st_harness = [], st_order = []\<rparr>"

definition fa_inv :: "grade_row list \<Rightarrow> fa_state \<Rightarrow> bool" where
  "fa_inv rows st \<longleftrightarrow> st_order st = changes_of rows \<and>
     (\<forall>ch. map_of (st_observed st) ch = map_option (\<lambda>r. \<lparr>fa_change = ch, fa_row = r, fa_observed = True\<rparr>)
        (find (observes ch) rows)) \<and>
     (\<forall>ch. find (observes ch) rows = None \<longrightarrow>
        map_of (st_harness st) ch = find (\<lambda>r. counted r \<and> change_of r = ch) rows)"

lemma fa_inv_skip: "\<not> counted r \<Longrightarrow> fa_inv rows st \<Longrightarrow> fa_inv (rows @ [r]) st"
  by (auto simp: fa_inv_def changes_of_def find_snoc observes_def split: option.splits)

lemma observed_before:
  "find (observes ch) rows = Some r' \<Longrightarrow> ch \<in> set (changes_of rows)"
  by (force simp: find_Some_iff observes_def changes_of_def in_set_conv_nth)

lemma find_Some_self: "find P xs = Some x \<Longrightarrow> P x"
  by (induction xs) (auto split: if_splits)

lemma fa_inv_again:
  assumes "fa_inv rows st" and "counted r" and "find (observes (change_of r)) rows = Some r'"
  shows "fa_inv (rows @ [r]) st"
proof -
  have "changes_of (rows @ [r]) = changes_of rows"
    using observed_before [OF assms(3)] assms(2) by (simp add: changes_of_def dedup_snoc)
  moreover have "find (observes ch) (rows @ [r]) = find (observes ch) rows" for ch
    using assms(3) by (auto simp: find_snoc observes_def split: option.splits)
  moreover have "find (\<lambda>r. counted r \<and> change_of r = ch) (rows @ [r]) = find (\<lambda>r. counted r \<and> change_of r = ch) rows"
    if "find (observes ch) rows = None" for ch
    using that assms(3) by (cases "change_of r = ch") (auto simp: find_snoc split: option.splits)
  ultimately show ?thesis using assms(1) by (simp add: fa_inv_def)
qed

lemma fa_inv_new:
  assumes inv: "fa_inv rows st" and c: "counted r" and new: "find (observes (change_of r)) rows = None"
  shows "fa_inv (rows @ [r]) (first_attempts_step st r)"
proof -
  let ?ch = "change_of r"
  have elig: "row_eligible r" "\<not> is_escalated_trial (row_trial r)" using c by (simp_all add: counted_def)
  have o: "map_of (st_observed st) ?ch = None" using inv new by (simp add: fa_inv_def)
  have order: "changes_of (rows @ [r]) = (if ?ch \<in> set (st_order st) then st_order st else st_order st @ [?ch])"
    using inv c by (auto simp: fa_inv_def changes_of_def dedup_snoc)
  show ?thesis
  proof (cases "row_failure_kind r = FAILURE_HARNESS")
    case True
    then have "find (observes ch) (rows @ [r]) = find (observes ch) rows" for ch
      by (auto simp: find_snoc observes_def split: option.splits)
    then show ?thesis
      using inv c new order o elig True
      by (auto simp: fa_inv_def first_attempts_step_def Let_def setdefault_def find_snoc map_add_def split: option.splits)
  next
    case False
    then have "find (observes ch) (rows @ [r]) =
        (case find (observes ch) rows of None \<Rightarrow> if ch = ?ch then Some r else None | Some r' \<Rightarrow> Some r')" for ch
      using c by (auto simp: find_snoc observes_def split: option.splits)
    then show ?thesis
      using inv c new order o elig False
      by (auto simp: fa_inv_def first_attempts_step_def Let_def find_snoc map_add_def split: option.splits if_splits)
  qed
qed

lemma fa_inv_loop: "fa_inv rows (foldl first_attempts_step fa_start rows)"
proof (induction rows rule: rev_induct)
  case Nil
  then show ?case by (simp add: fa_inv_def fa_start_def changes_of_def)
next
  case (snoc r rows)
  let ?st = "foldl first_attempts_step fa_start rows"
  have step: "foldl first_attempts_step fa_start (rows @ [r]) = first_attempts_step ?st r" by simp
  show ?case
  proof (cases "counted r")
    case False
    then have "first_attempts_step ?st r = ?st" by (auto simp: first_attempts_step_def counted_def)
    then show ?thesis using fa_inv_skip [OF False snoc] by simp
  next
    case True
    show ?thesis
    proof (cases "find (observes (change_of r)) rows")
      case None
      then show ?thesis unfolding step by (rule fa_inv_new [OF snoc True])
    next
      case (Some r')
      then have "map_of (st_observed ?st) (change_of r) \<noteq> None" using snoc by (simp add: fa_inv_def)
      then have "first_attempts_step ?st r = ?st" by (simp add: first_attempts_step_def Let_def)
      then show ?thesis using fa_inv_again [OF snoc True Some] by simp
    qed
  qed
qed

lemma find_filter_hd: "ch \<in> set (changes_of rows) \<Longrightarrow>
  find (\<lambda>r. counted r \<and> change_of r = ch) rows = Some (hd (filter (\<lambda>r. counted r \<and> change_of r = ch) rows))"
proof -
  have gen: "find P xs = (if filter P xs = [] then None else Some (hd (filter P xs)))" for P and xs :: "grade_row list"
    by (induction xs) auto
  assume "ch \<in> set (changes_of rows)"
  then have "filter (\<lambda>r. counted r \<and> change_of r = ch) rows \<noteq> []"
    by (auto simp: changes_of_def filter_empty_conv)
  then show ?thesis by (simp add: gen)
qed

lemma first_attempts_eq: "first_attempts rows = Inr (map (attempt_spec rows) (changes_of rows))"
proof -
  let ?st = "foldl first_attempts_step fa_start rows"
  have inv: "fa_inv rows ?st" by (rule fa_inv_loop)
  have "first_attempt_of ?st ch = Inr (attempt_spec rows ch)" if "ch \<in> set (changes_of rows)" for ch
    using inv find_filter_hd [OF that]
    by (auto simp: fa_inv_def first_attempt_of_def attempt_spec_def split: option.splits)
  then have "collect (first_attempt_of ?st) (changes_of rows) = Inr (map (attempt_spec rows) (changes_of rows))"
    by (rule collect_all)
  then show ?thesis using inv by (simp add: first_attempts_def Let_def fa_inv_def fa_start_def)
qed

subsection \<open>One cell\<close>

definition uniform :: "(grade_row \<Rightarrow> string) \<Rightarrow> grade_row list \<Rightarrow> bool" where
  "uniform f rs \<longleftrightarrow> (\<forall>r\<in>set rs. f r = f (hd rs))"

lemma uniform_dedup: "rs \<noteq> [] \<Longrightarrow> uniform f rs \<longleftrightarrow> dedup (map f rs) = [f (hd rs)]"
  unfolding dedup_same uniform_def by (metis (no_types, lifting) imageE imageI list.set_map map_is_Nil_conv)

lemma one_value_eq:
  assumes "rs \<noteq> []"
  shows "one_value f e rs = (if uniform f rs then Inr (f (hd rs)) else Inl e)"
proof (cases "uniform f rs")
  case True
  then show ?thesis using uniform_dedup [OF assms] by (simp add: one_value_def)
next
  case False
  obtain v vs where d: "dedup (map f rs) = v # vs"
    using assms by (metis dedup_Nil_iff map_is_Nil_conv neq_Nil_conv)
  have "vs \<noteq> []"
  proof
    assume "vs = []"
    with d have "\<forall>y\<in>set (map f rs). y = v" using dedup_same by metis
    then have v: "f r = v" if "r \<in> set rs" for r using that by simp
    have "f r = f (hd rs)" if "r \<in> set rs" for r
      using v [OF that] v [OF hd_in_set [OF assms]] by (rule trans [OF _ sym])
    then have "uniform f rs" by (simp add: uniform_def)
    with False show False ..
  qed
  then show ?thesis unfolding one_value_def Let_def d if_not_P [OF False] by (cases vs) simp_all
qed

definition wilson :: "nat \<Rightarrow> nat \<Rightarrow> interval" where
  "wilson k n = projr (wilson_interval (int k) (int n))"

lemma wilson_eq: "k \<le> n \<Longrightarrow> wilson_interval (int k) (int n) = Inr (wilson k n)"
  using wilson_interval_Inr [of "int k" "int n"] by (auto simp: wilson_def)

definition firsts_of :: "grade_row list \<Rightarrow> first_attempt list" where
  "firsts_of rs = map (attempt_spec rs) (changes_of rs)"

definition stats_of :: "grade_row list \<Rightarrow> cell_numbers" where
  "stats_of rs =
     (let eligible = filter row_eligible rs; routing = filter fa_routes (firsts_of rs); split = split_of rs
      in cell_stats_of rs (row_checks_arm (hd rs)) (row_apparatus_version (hd rs)) (row_context_arm (hd rs))
           (row_taxonomy (hd rs)) (firsts_of rs) split
           (wilson (count_if row_clean eligible) (length eligible))
           (wilson (count_if fa_clean routing) (length routing))
           (wilson (fs_clean split) (fs_model_n split)))"

lemma cell_stats_eq:
  assumes "list_all row_valid rs"
  shows "cell_stats rs =
    (if rs = [] then Inl (ValueError ''no row'')
     else if \<not> uniform row_checks_arm rs then Inl ChecksArmsPooled
     else if \<not> uniform row_apparatus_version rs then Inl ApparatusPooled
     else if \<not> uniform row_context_arm rs then Inl ContextArmsPooled
     else if \<not> uniform row_taxonomy rs then Inl ClassSetsPooled
     else Inr (stats_of rs))"
proof (cases "rs = []")
  case False
  have w: "wilson_interval (int (count_if P xs)) (int (length xs)) = Inr (wilson (count_if P xs) (length xs))"
    for P and xs :: "'x list" by (rule wilson_eq) (rule count_if_le_length)
  have m: "wilson_interval (int (fs_clean s)) (int (fs_model_n s)) = Inr (wilson (fs_clean s) (fs_model_n s))"
    for s by (rule wilson_eq) (simp add: fs_model_n_def)
  show ?thesis
    unfolding cell_stats_def one_value_eq [OF False] first_attempts_eq failure_split_eq [OF assms]
    by (simp add: False w m stats_of_def firsts_of_def Let_def)
qed (simp add: cell_stats_def)

definition same_reading :: "grade_row list \<Rightarrow> bool" where
  "same_reading rs \<longleftrightarrow> (\<forall>r\<in>set rs. reading_key r = reading_key (hd rs))"

lemma same_reading_uniform:
  "same_reading rs \<longleftrightarrow> uniform row_checks_arm rs \<and> uniform row_apparatus_version rs \<and>
     uniform row_context_arm rs \<and> uniform row_taxonomy rs"
  unfolding same_reading_def uniform_def reading_key_def prod.inject by blast

lemma cell_stats_Inr:
  assumes "list_all row_valid rs"
  shows "cell_stats rs = Inr c \<longleftrightarrow> rs \<noteq> [] \<and> same_reading rs \<and> c = stats_of rs"
  unfolding cell_stats_eq [OF assms] same_reading_uniform by (simp add: eq_commute)

lemma stats_of_simps:
  "cs_n (stats_of rs) = count_if row_eligible rs"
  "cs_clean (stats_of rs) = count_if (\<lambda>r. row_eligible r \<and> row_clean r) rs"
  "cs_false_q1 (stats_of rs) = count_if (\<lambda>r. row_clean r \<and> \<not> belts_all_true r) rs"
  "cs_n_tasks (stats_of rs) = count_if fa_routes (firsts_of rs)"
  "cs_task_clean (stats_of rs) = count_if (\<lambda>a. fa_routes a \<and> fa_clean a) (firsts_of rs)"
  "cs_split (stats_of rs) = split_of rs" "cs_cell (stats_of rs) = row_cell (hd rs)"
  "cs_checks_arm (stats_of rs) = row_checks_arm (hd rs)"
  "cs_apparatus_version (stats_of rs) = row_apparatus_version (hd rs)"
  "cs_context_arm (stats_of rs) = row_context_arm (hd rs)" "cs_taxonomy (stats_of rs) = row_taxonomy (hd rs)"
  by (simp_all add: stats_of_def cell_stats_of_def Let_def count_if_def conj_commute)

lemma valid_no_false_q1: "list_all row_valid rs \<Longrightarrow> count_if (\<lambda>r. row_clean r \<and> \<not> belts_all_true r) rs = 0"
proof -
  assume "list_all row_valid rs"
  then have "\<forall>r\<in>set rs. \<not> (row_clean r \<and> \<not> belts_all_true r)"
    using row_valid_parts(1) by (auto simp: list_all_iff clean_guards_quiet)
  then show ?thesis by (simp add: count_if_def filter_empty_conv)
qed

lemma attempt_in_rows:
  assumes "ch \<in> set (changes_of rs)"
  shows "fa_row (attempt_spec rs ch) \<in> set rs"
proof (cases "find (observes ch) rs")
  case None
  have "filter (\<lambda>r. counted r \<and> change_of r = ch) rs \<noteq> []"
    using assms by (auto simp: changes_of_def filter_empty_conv)
  then have "hd (filter (\<lambda>r. counted r \<and> change_of r = ch) rs) \<in> set (filter (\<lambda>r. counted r \<and> change_of r = ch) rs)"
    by (rule hd_in_set)
  then show ?thesis using None by (simp add: attempt_spec_def)
next
  case (Some r)
  then have "r \<in> set rs" by (metis find_Some_iff nth_mem)
  then show ?thesis using Some by (simp add: attempt_spec_def)
qed

lemma changes_le_eligible: "length (changes_of rs) \<le> count_if row_eligible rs"
proof -
  have "length (changes_of rs) \<le> length (filter counted rs)"
    unfolding changes_of_def using length_dedup_le [of "map change_of (filter counted rs)"] by simp
  also have "\<dots> \<le> count_if row_eligible rs"
    unfolding count_if_def [of counted, symmetric] by (rule count_if_mono) (simp add: counted_def)
  finally show ?thesis .
qed

lemma routed_clean_iff:
  assumes "row_valid (fa_row a)"
  shows "fa_routes a \<and> fa_clean a \<longleftrightarrow> fa_clean a \<and> fa_gold_checked a \<and> \<not> fa_lint_disabled a"
  using row_valid_parts(1) [OF assms]
  by (auto simp: fa_routes_def lint_could_change_def fa_clean_def fa_lint_disabled_def clean_guards_quiet)

subsection \<open>Every cell\<close>

text \<open>The key a statistic was computed for, and the key of a row: two rows of two keys are never one
  number.\<close>

definition stats_key :: "cell_numbers \<Rightarrow> (string \<times> string \<times> string \<times> string) \<times> cell_key" where
  "stats_key c = ((cs_checks_arm c, cs_apparatus_version c, cs_context_arm c, cs_taxonomy c), cs_cell c)"

definition row_key :: "grade_row \<Rightarrow> (string \<times> string \<times> string \<times> string) \<times> cell_key" where
  "row_key r = (reading_key r, row_cell r)"

definition rows_of_key :: "grade_row list \<Rightarrow> (string \<times> string \<times> string \<times> string) \<times> cell_key \<Rightarrow> grade_row list" where
  "rows_of_key rows k = filter (\<lambda>r. row_key r = k) rows"

lemma rows_of_key_stats:
  assumes "list_all row_valid rows" and "k \<in> row_key ` set rows"
  shows "cell_stats (rows_of_key rows k) = Inr (stats_of (rows_of_key rows k)) \<and>
    stats_key (stats_of (rows_of_key rows k)) = k"
proof -
  let ?g = "rows_of_key rows k"
  have v: "list_all row_valid ?g" using assms(1) by (auto simp: rows_of_key_def list_all_iff)
  have ne: "?g \<noteq> []" using assms(2) by (auto simp: rows_of_key_def filter_empty_conv)
  have key: "row_key r = k" if "r \<in> set ?g" for r using that by (simp add: rows_of_key_def)
  note hd = key [OF hd_in_set [OF ne]]
  have "reading_key r = reading_key (hd ?g)" if "r \<in> set ?g" for r
    using key [OF that] hd by (auto simp: row_key_def)
  then have "same_reading ?g" by (simp add: same_reading_def)
  moreover have "stats_key (stats_of ?g) = k"
    using hd by (auto simp: stats_key_def stats_of_simps row_key_def reading_key_def)
  ultimately show ?thesis using ne cell_stats_Inr [OF v] by blast
qed

definition arm_keys :: "grade_row list \<Rightarrow> string \<Rightarrow> ((string \<times> string \<times> string \<times> string) \<times> cell_key) list" where
  "arm_keys rows checks = dedup (map row_key (filter (\<lambda>r. row_checks_arm r = checks) rows))"

lemma arm_group:
  "k \<in> set (arm_keys rows checks) \<Longrightarrow>
     filter (\<lambda>r. row_key r = k) (filter (\<lambda>r. row_checks_arm r = checks) rows) = rows_of_key rows k"
proof -
  assume "k \<in> set (arm_keys rows checks)"
  then have "fst (fst k) = checks" by (auto simp: arm_keys_def row_key_def reading_key_def)
  then have "row_key r = k \<and> row_checks_arm r = checks \<longleftrightarrow> row_key r = k" for r
    by (auto simp: row_key_def reading_key_def)
  then show ?thesis by (simp add: rows_of_key_def conj_commute)
qed

lemma all_arms_eq:
  assumes "list_all row_valid rows" and "set arms \<subseteq> set ARMS"
  shows "all_arms rows arms =
    Inr (concat (map (\<lambda>a. map (\<lambda>k. stats_of (rows_of_key rows k)) (arm_keys rows a)) arms))"
  using assms(2)
proof (induction arms)
  case (Cons a arms)
  let ?here = "filter (\<lambda>r. row_checks_arm r = a) rows"
  have groups: "map snd (group_rows (\<lambda>r. (reading_key r, row_cell r)) ?here) = map (rows_of_key rows) (arm_keys rows a)"
    unfolding group_rows_spec row_key_def [symmetric] using arm_group
    by (auto simp: arm_keys_def comp_def)
  have "k \<in> row_key ` set rows" if "k \<in> set (arm_keys rows a)" for k
    using that by (auto simp: arm_keys_def)
  then have "collect cell_stats (map (rows_of_key rows) (arm_keys rows a)) =
      Inr (map stats_of (map (rows_of_key rows) (arm_keys rows a)))"
    using rows_of_key_stats [OF assms(1)] by (intro collect_all) auto
  then have "collect cell_stats (map snd (group_rows (\<lambda>r. (reading_key r, row_cell r)) ?here)) =
      Inr (map (\<lambda>k. stats_of (rows_of_key rows k)) (arm_keys rows a))"
    unfolding groups by (simp add: comp_def)
  moreover have "rows_for_checks rows a = Inr ?here" using Cons.prems by (simp add: rows_for_checks_def)
  moreover have "all_arms rows arms =
      Inr (concat (map (\<lambda>a. map (\<lambda>k. stats_of (rows_of_key rows k)) (arm_keys rows a)) arms))"
    using Cons.prems by (intro Cons.IH) simp
  ultimately show ?case by simp
qed simp

definition reading_keys :: "grade_row list \<Rightarrow> ((string \<times> string \<times> string \<times> string) \<times> cell_key) list" where
  "reading_keys rows = concat (map (arm_keys rows) ARMS)"

lemma set_reading_keys: "set (reading_keys rows) = row_key ` set rows"
proof -
  have "row_checks_arm r \<in> set ARMS" for r by (simp add: row_checks_arm_def arm_from_label_in_ARMS)
  then show ?thesis by (auto simp: reading_keys_def arm_keys_def)
qed

lemma distinct_reading_keys: "distinct (reading_keys rows)"
proof -
  have a: "fst (fst k) = a" if "k \<in> set (arm_keys rows a)" for k a
    using that by (auto simp: arm_keys_def row_key_def reading_key_def)
  have "distinct (concat (map (arm_keys rows) arms))" if "distinct arms" for arms
    using that
  proof (induction arms)
    case (Cons b arms)
    have "fst (fst k) \<in> set arms" if "k \<in> set (concat (map (arm_keys rows) arms))" for k
    proof -
      obtain c where "c \<in> set arms" "k \<in> set (arm_keys rows c)" using \<open>k \<in> _\<close> by auto
      then show ?thesis using a by metis
    qed
    then have "set (arm_keys rows b) \<inter> set (concat (map (arm_keys rows) arms)) = {}"
      using a [of _ b] Cons.prems by (metis disjoint_iff distinct.simps(2))
    then show ?case using Cons by (simp add: arm_keys_def)
  qed simp
  moreover have "distinct ARMS" by (simp add: ARMS_def ARM_OFF_def)
  ultimately show ?thesis by (simp add: reading_keys_def)
qed

lemma all_cell_stats_eq:
  "list_all row_valid rows \<Longrightarrow>
     all_cell_stats rows = Inr (map (\<lambda>k. stats_of (rows_of_key rows k)) (reading_keys rows))"
  unfolding all_cell_stats_def reading_keys_def by (simp add: all_arms_eq map_concat comp_def)

lemma count_if_map: "count_if P (map f xs) = count_if (\<lambda>x. P (f x)) xs"
  by (induction xs) auto

lemma count_of_key:
  "count_if P (rows_of_key rows k) = count_if (\<lambda>r. P r \<and> row_key r = k) rows"
  by (simp add: rows_of_key_def count_if_def conj_commute)

lemma valid_clean_count:
  assumes "list_all row_valid rs"
  shows "kind_n FAILURE_CLEAN rs = count_if (\<lambda>r. row_eligible r \<and> row_clean r) rs"
proof -
  have "row_failure_kind r = FAILURE_CLEAN \<longleftrightarrow> row_clean r" if "r \<in> set rs" for r
    using row_kind_spec [OF row_valid_parts [of r]] assms that by (auto simp: list_all_iff)
  then have "count_if (\<lambda>r. row_eligible r \<and> row_failure_kind r = FAILURE_CLEAN) rs =
      count_if (\<lambda>r. row_eligible r \<and> row_clean r) rs"
    by (intro count_if_cong) auto
  then show ?thesis by (simp add: kind_n_def count_if_def conj_commute)
qed

lemma rows_outside:
  "length rs = count_if row_eligible rs + count_if (\<lambda>r. row_disqualified r \<or>
     row_failure_kind r = FAILURE_OUTAGE \<or> row_gold_clean r = Some False) rs"
  by (induction rs) (auto simp: row_eligible_def)

lemma sample_row_kind: "row_failure_kind sample_row = FAILURE_CLEAN"
  using stamp_23 by (simp add: row_failure_kind_def sample_row_def label_defs derive_failure_kind_v1_def
      row_facts_def FAILURE_CLEAN_def)

lemma sample_row_eligible: "row_eligible sample_row"
  unfolding row_eligible_def sample_row_kind by (simp add: sample_row_def failure_kind_defs)

lemma sample_red_eligible: "row_eligible sample_red"
  unfolding row_eligible_def sample_red_kind by (simp add: sample_red_def sample_row_def failure_kind_defs)

definition sample_22 :: grade_row where
  "sample_22 = sample_row\<lparr>row_apparatus_version := ''2.2''\<rparr>"

lemma stamp_22:
  "\<not> is_v2_apparatus ''2.2'' \<and> expected_belt_sets ''2.2'' PROVENANCE_MEASURED = [BELT_SET_V5] \<and>
   \<not> stamp_at_least ''2.2'' POSTURE_APPARATUS"
  by code_simp

lemma sample_22_accepted: "GradeRow sample_22 = Inr sample_22"
proof -
  have lab: "row_labels sample_22 = [(LABEL_POSTURE_ID, ''p''), (LABEL_POSTURE_CLASS, ''docker/none/sealed''),
      (LABEL_QUALIFICATION, ''q'')]" "row_apparatus_version sample_22 = ''2.2''"
    by (simp_all add: sample_22_def sample_row_def)
  have "quiet (posture_guards sample_22)"
    using stamp_22 by (simp add: posture_guards_def carries_posture_def lab)
  moreover have "quiet (classification_guards sample_22)"
    using stamp_22
    by (simp add: classification_guards_def carries_classification_def lab V2_ONLY_LABELS_def label_defs)
  moreover have "quiet (kind_guards sample_22)" "quiet (cause_guards sample_22)" "quiet (cost_guards sample_22)"
    by (simp_all add: kind_guards_def cause_guards_def cost_guards_def lab label_defs)
  moreover have "quiet (belt_set_guards sample_22)"
    using stamp_22 by (simp add: belt_set_guards_def lab)
      (simp add: sample_22_def sample_row_def BELT_SET_V5_def BELT_SET_V3_LEGACY_def)
  moreover have "row_belt sample_22 = row_belt sample_row"
    by (rule ext) (simp add: row_belt_def sample_22_def split: belt.split)
  then have "belts_all_true sample_22 = belts_all_true sample_row"
    by (simp add: belts_all_true_def recorded_belts_def) (simp add: sample_22_def)
  then have "quiet (clean_guards sample_22)"
    using GradeRow_parts(2) [OF sample_row_accepted] unfolding clean_guards_quiet by (simp add: sample_22_def)
  moreover have "length (row_trial sample_22) \<le> TRIAL_MAX_LEN" "row_belt_set sample_22 \<in> set BELT_SETS"
    "row_belt_set sample_22 \<noteq> BELT_SET_V5 \<longrightarrow> row_repo_lint_clean sample_22 = None"
    by (simp_all add: sample_22_def sample_row_def TRIAL_MAX_LEN_def BELT_SETS_def)
  ultimately show ?thesis unfolding GradeRow_quiet invariants_quiet by blast
qed

lemma sample_clean: "row_clean sample_row" "\<not> row_clean sample_red"
  by (simp_all add: sample_row_def sample_red_def)

subsection \<open>Properties\<close>

text \<open>
  The failure split partitions its denominator. For rows that exist it never raises, its \<open>n\<close> is
  the number of eligible rows and is the sum of the model's finished attempts, the instrument's
  failures, the spent budgets and the author's failures; clean counts the clean eligible rows; and
  what stands outside \<open>n\<close> is disqualified, an outage or graded against a gold that failed.
\<close>

theorem failure_split_partitions:
  assumes "list_all row_valid rs"
  shows "\<exists>s. failure_split rs = Inr s \<and> fs_n s = count_if row_eligible rs \<and>
    fs_n s = fs_model_n s + fs_instrument s + fs_budget s + fs_authoring s \<and>
    fs_clean s = count_if (\<lambda>r. row_eligible r \<and> row_clean r) rs \<and>
    fs_rows s = fs_n s + count_if (\<lambda>r. row_disqualified r \<or> row_failure_kind r = FAILURE_OUTAGE \<or>
      row_gold_clean r = Some False) rs"
proof (intro exI conjI)
  show "failure_split rs = Inr (split_of rs)" by (rule failure_split_eq [OF assms])
  show "fs_n (split_of rs) = count_if row_eligible rs" by (simp add: split_of_def)
  show "fs_n (split_of rs) = fs_model_n (split_of rs) + fs_instrument (split_of rs) +
      fs_budget (split_of rs) + fs_authoring (split_of rs)"
    using cell_kinds_partition [OF assms] by (simp add: split_of_def fs_model_n_def fs_instrument_def)
  show "fs_clean (split_of rs) = count_if (\<lambda>r. row_eligible r \<and> row_clean r) rs"
    using assms by (simp add: split_of_def valid_clean_count)
  show "fs_rows (split_of rs) = fs_n (split_of rs) + count_if (\<lambda>r. row_disqualified r \<or>
      row_failure_kind r = FAILURE_OUTAGE \<or> row_gold_clean r = Some False) rs"
    by (simp add: split_of_def rows_outside)
qed

lemma failure_split_partitions_witness:
  "\<exists>s. failure_split [sample_row, sample_red] = Inr s \<and> fs_n s = 2 \<and> fs_clean s = 1 \<and>
     fs_model_n s + fs_instrument s + fs_budget s + fs_authoring s = 2"
proof -
  have "list_all row_valid [sample_row, sample_red]"
    by (simp add: row_valid_def sample_row_accepted sample_red_accepted)
  from failure_split_partitions [OF this] show ?thesis
    by (auto simp: sample_row_eligible sample_red_eligible sample_clean)
qed

text \<open>
  The fold over the ledger gives each distinct change one attempt, in the order first seen: the
  first eligible row below the escalation rungs that observed the builder, and when every such row
  is a harness failure, the first of them as not observed. It never fails on a missing key.
\<close>

theorem first_attempts_rule:
  "first_attempts rows = Inr (map (attempt_spec rows) (changes_of rows)) \<and>
   distinct (map fa_change (map (attempt_spec rows) (changes_of rows)))"
proof
  show "first_attempts rows = Inr (map (attempt_spec rows) (changes_of rows))" by (rule first_attempts_eq)
  have "fa_change (attempt_spec rows ch) = ch" for ch
    by (simp add: attempt_spec_def split: option.splits)
  then have "map fa_change (map (attempt_spec rows) (changes_of rows)) = changes_of rows"
    by (simp add: comp_def)
  then show "distinct (map fa_change (map (attempt_spec rows) (changes_of rows)))"
    by (simp add: changes_of_def)
qed

text \<open>
  A cell never pools two measurements. Over rows that exist, \<open>cell_stats\<close> returns exactly when
  there is a row and all of them were read at one checks arm, one apparatus, one context arm and
  one class-set version, and the only refusals are the empty cell and the four pooling errors.
\<close>

theorem cell_stats_refuses_pooling:
  assumes "list_all row_valid rs"
  shows "((\<exists>c. cell_stats rs = Inr c) \<longleftrightarrow> rs \<noteq> [] \<and> (\<forall>r\<in>set rs. reading_key r = reading_key (hd rs))) \<and>
    (\<exists>x\<in>{Inl (ValueError ''no row''), Inl ChecksArmsPooled, Inl ApparatusPooled, Inl ContextArmsPooled,
       Inl ClassSetsPooled, Inr (stats_of rs)}. cell_stats rs = x)"
proof
  show "(\<exists>c. cell_stats rs = Inr c) \<longleftrightarrow> rs \<noteq> [] \<and> (\<forall>r\<in>set rs. reading_key r = reading_key (hd rs))"
    unfolding cell_stats_Inr [OF assms] same_reading_def by blast
  show "\<exists>x\<in>{Inl (ValueError ''no row''), Inl ChecksArmsPooled, Inl ApparatusPooled, Inl ContextArmsPooled,
       Inl ClassSetsPooled, Inr (stats_of rs)}. cell_stats rs = x"
    unfolding cell_stats_eq [OF assms] by simp
qed

lemma cell_stats_refuses_pooling_witness:
  "\<not> (\<exists>c. cell_stats [sample_row, sample_22] = Inr c)"
proof -
  have "list_all row_valid [sample_row, sample_22]"
    by (simp add: row_valid_def sample_row_accepted sample_22_accepted)
  from cell_stats_refuses_pooling [OF this] show ?thesis
    by (simp add: reading_key_def) (simp add: sample_22_def sample_row_def)
qed


text \<open>
  What routes. Over one cell of rows that exist, \<open>n_tasks\<close> counts distinct changes, never more
  than the eligible rows; \<open>task_clean\<close> counts exactly the changes whose first attempt is clean,
  passes its held-out tests, was checked against its gold and was graded with belt 5 on, so
  switching belt 5 off never adds one; and no false-Q1 row is seen.
\<close>

theorem cell_task_counts:
  assumes "list_all row_valid rs" and "cell_stats rs = Inr c"
  shows "cs_task_clean c = count_if (\<lambda>ch. let a = attempt_spec rs ch in
      fa_clean a \<and> fa_gold_checked a \<and> \<not> fa_lint_disabled a) (changes_of rs) \<and>
    cs_task_clean c \<le> cs_n_tasks c \<and> cs_n_tasks c \<le> length (changes_of rs) \<and>
    length (changes_of rs) \<le> cs_n c \<and> cs_false_q1 c = 0"
proof -
  have c: "c = stats_of rs" using assms(2) unfolding cell_stats_Inr [OF assms(1)] by blast
  have tc: "cs_task_clean c = count_if (\<lambda>ch. fa_clean (attempt_spec rs ch) \<and>
      fa_gold_checked (attempt_spec rs ch) \<and> \<not> fa_lint_disabled (attempt_spec rs ch)) (changes_of rs)"
    unfolding c stats_of_simps firsts_of_def count_if_map
    using assms(1) attempt_in_rows by (intro count_if_cong routed_clean_iff) (auto simp: list_all_iff)
  have "cs_task_clean c \<le> cs_n_tasks c"
    unfolding c stats_of_simps by (rule count_if_mono) simp
  moreover have "cs_n_tasks c \<le> length (changes_of rs)"
    unfolding c stats_of_simps firsts_of_def using count_if_le_length [of fa_routes "map (attempt_spec rs) (changes_of rs)"]
    by simp
  moreover have "length (changes_of rs) \<le> cs_n c"
    unfolding c stats_of_simps by (rule changes_le_eligible)
  moreover have "cs_false_q1 c = 0"
    unfolding c stats_of_simps by (rule valid_no_false_q1 [OF assms(1)])
  ultimately show ?thesis using tc unfolding Let_def by blast
qed

lemma cell_task_counts_witness:
  "\<exists>c. cell_stats [sample_row] = Inr c \<and> cs_task_clean c \<le> cs_n_tasks c \<and> cs_n_tasks c \<le> 1 \<and> cs_false_q1 c = 0"
proof -
  have v: "list_all row_valid [sample_row]" by (simp add: row_valid_def sample_row_accepted)
  have "cell_stats [sample_row] = Inr (stats_of [sample_row])"
    unfolding cell_stats_Inr [OF v] by (simp add: same_reading_def)
  note h = cell_task_counts [OF v this]
  have "length (changes_of [sample_row]) \<le> length (filter counted [sample_row])"
    unfolding changes_of_def using length_dedup_le [of "map change_of (filter counted [sample_row])"]
    by (simp only: length_map)
  also have "\<dots> \<le> 1" using length_filter_le [of counted "[sample_row]"] by simp
  finally have "cs_n_tasks (stats_of [sample_row]) \<le> 1" using h by linarith
  with h \<open>cell_stats [sample_row] = _\<close> show ?thesis by (intro exI conjI) auto
qed

text \<open>
  The fold over the whole ledger loses and pools nothing. For rows that exist it never raises; it
  returns one statistic per key of checks arm, apparatus, context arm, class set and cell; the keys
  are exactly those of the rows; each statistic counts the eligible and the clean rows of its key;
  and the denominators add up to the eligible rows of the ledger.
\<close>

theorem all_cell_stats_complete:
  assumes "list_all row_valid rows"
  shows "\<exists>cs. all_cell_stats rows = Inr cs \<and> distinct (map stats_key cs) \<and>
    stats_key ` set cs = row_key ` set rows \<and>
    (\<forall>c\<in>set cs. cs_n c = count_if (\<lambda>r. row_eligible r \<and> row_key r = stats_key c) rows \<and>
       cs_clean c = count_if (\<lambda>r. row_eligible r \<and> row_clean r \<and> row_key r = stats_key c) rows \<and>
       cs_false_q1 c = 0) \<and>
    sum_list (map cs_n cs) = count_if row_eligible rows"
proof (intro exI conjI)
  let ?f = "\<lambda>k. stats_of (rows_of_key rows k)"
  let ?cs = "map ?f (reading_keys rows)"
  show "all_cell_stats rows = Inr ?cs" by (rule all_cell_stats_eq [OF assms])
  have key: "stats_key (?f k) = k" if "k \<in> set (reading_keys rows)" for k
    using rows_of_key_stats [OF assms] that by (simp add: set_reading_keys)
  then have keys: "map stats_key ?cs = reading_keys rows" by (simp add: map_idI comp_def)
  then show "distinct (map stats_key ?cs)" by (simp add: distinct_reading_keys)
  show "stats_key ` set ?cs = row_key ` set rows"
    using arg_cong [OF keys, of set] by (simp add: set_reading_keys image_image)
  have v: "list_all row_valid (rows_of_key rows k)" for k
    using assms by (auto simp: rows_of_key_def list_all_iff)
  show "\<forall>c\<in>set ?cs. cs_n c = count_if (\<lambda>r. row_eligible r \<and> row_key r = stats_key c) rows \<and>
      cs_clean c = count_if (\<lambda>r. row_eligible r \<and> row_clean r \<and> row_key r = stats_key c) rows \<and> cs_false_q1 c = 0"
    using key valid_no_false_q1 [OF v] by (auto simp: stats_of_simps count_of_key)
  have "sum_list (map cs_n ?cs) = sum_list (map (\<lambda>k. count_if row_eligible (rows_of_key rows k)) (reading_keys rows))"
    by (simp add: stats_of_simps comp_def)
  also have "\<dots> = count_if row_eligible rows"
    unfolding rows_of_key_def by (rule count_by_key [OF distinct_reading_keys]) (simp add: set_reading_keys)
  finally show "sum_list (map cs_n ?cs) = count_if row_eligible rows" .
qed

lemma all_cell_stats_complete_witness:
  "\<exists>cs. all_cell_stats [sample_row, sample_22, sample_red] = Inr cs \<and>
     stats_key ` set cs = {row_key sample_row, row_key sample_22, row_key sample_red} \<and>
     sum_list (map cs_n cs) = count_if row_eligible [sample_row, sample_22, sample_red]"
proof -
  have "list_all row_valid [sample_row, sample_22, sample_red]"
    by (simp add: row_valid_def sample_row_accepted sample_22_accepted sample_red_accepted)
  from all_cell_stats_complete [OF this] show ?thesis by auto
qed

end
