(* ===== verification/Job_Queue.thy ===== *)
theory Job_Queue
  imports Prelude Complex_Main "HOL-Library.List_Lexorder" "HOL-Library.Product_Lexorder" "HOL-Library.Char_ord"
begin

section \<open>The job queue (\<open>crb/store/jobs.py\<close>)\<close>

text \<open>
  The \<open>runs\<close> table as a work queue: one record per row, one function per method of \<open>JobQueue\<close>,
  and a step relation with one rule per method. A method is one write transaction, so it is one
  atomic step; a method that raises leaves the table as it was.

  Parameters: \<open>fromiso\<close> stands for \<^verbatim>\<open>datetime.fromisoformat\<close> (the seconds a stamp names, \<open>None\<close> when
  it does not parse), \<open>now\<close> for the text of \<open>utc_now_iso()\<close> and \<open>ref_now\<close> for the clock the sweep
  reads. \<open>ORDER BY created, id\<close> is the order of the texts by code point.
\<close>

subsection \<open>The table\<close>

definition STATUS_QUEUED :: string where "STATUS_QUEUED = ''queued''"
definition STATUS_RUNNING :: string where "STATUS_RUNNING = ''running''"
definition STATUS_SUCCEEDED :: string where "STATUS_SUCCEEDED = ''succeeded''"
definition STATUS_FAILED :: string where "STATUS_FAILED = ''failed''"
definition STATUS_CANCELLED :: string where "STATUS_CANCELLED = ''cancelled''"

definition STATUSES :: "string list" where
  "STATUSES = [STATUS_QUEUED, STATUS_RUNNING, STATUS_SUCCEEDED, STATUS_FAILED, STATUS_CANCELLED]"

definition TERMINAL_STATUSES :: "string list" where
  "TERMINAL_STATUSES = [STATUS_SUCCEEDED, STATUS_FAILED, STATUS_CANCELLED]"

definition KIND_BLIND :: string where "KIND_BLIND = ''blind''"

definition RUN_KINDS :: "string list" where
  "RUN_KINDS = [''setup'', ''probe'', ''mine'', ''replay'', KIND_BLIND, ''oracle'', ''controls'',
     ''label'', ''factory'', ''qualify'']"

definition RECLAIMS_KEY :: string where "RECLAIMS_KEY = ''reclaims''"

type_synonym json_object = "(string \<times> pyval) list"

record job_run =
  jr_id :: string
  jr_repo :: string
  jr_kind :: string
  jr_mode :: string
  jr_status :: string
  jr_actor :: string
  jr_apparatus :: json_object
  jr_counts :: json_object
  jr_progress_done :: int
  jr_progress_total :: int
  jr_error :: string
  jr_cancel_requested :: bool
  jr_worker_id :: string
  jr_heartbeat :: string
  jr_created :: string
  jr_started :: string
  jr_finished :: string

datatype job_event =
    Cancel_requested string string string string
  | Reclaimed string string string string "rat option" int
  | Abandoned string string string string "rat option" int

record job_store =
  js_runs :: "job_run list"
  js_events :: "job_event list"

definition get_run :: "job_store \<Rightarrow> string \<Rightarrow> job_run option" where
  "get_run s rid = find (\<lambda>r. jr_id r = rid) (js_runs s)"

definition put_run :: "job_run \<Rightarrow> job_store \<Rightarrow> job_store" where
  "put_run r s = s\<lparr>js_runs := map (\<lambda>x. if jr_id x = jr_id r then r else x) (js_runs s)\<rparr>"

subsection \<open>Stamps and counters\<close>

definition parse_ts :: "(string \<Rightarrow> rat option) \<Rightarrow> string \<Rightarrow> rat option" where
  "parse_ts fromiso t = (if t = [] then None else fromiso t)"

definition age_s :: "(string \<Rightarrow> rat option) \<Rightarrow> string \<Rightarrow> rat \<Rightarrow> rat option" where
  "age_s fromiso t now = (case parse_ts fromiso t of None \<Rightarrow> None | Some d \<Rightarrow> Some (now - d))"

text \<open>\<open>int(v)\<close> on a JSON value of the counts column (no floats).\<close>

fun to_int :: "pyval \<Rightarrow> int result" where
  "to_int (PInt n) = Inr n"
| "to_int (PBool b) = Inr (if b then 1 else 0)"
| "to_int (PStr t) = (case py_int t of Some n \<Rightarrow> Inr n | None \<Rightarrow> Inl (ValueError ''int''))"
| "to_int _ = Inl (OtherError ''TypeError'')"

definition reclaims_of :: "json_object \<Rightarrow> int result" where
  "reclaims_of counts = to_int (case map_of counts RECLAIMS_KEY of Some v \<Rightarrow> v | None \<Rightarrow> PInt 0)"

definition dict_set :: "json_object \<Rightarrow> string \<Rightarrow> pyval \<Rightarrow> json_object" where
  "dict_set d k v = (k, v) # filter (\<lambda>(k', _). k' \<noteq> k) d"

definition merge_counts :: "json_object \<Rightarrow> json_object \<Rightarrow> json_object" where
  "merge_counts existing new =
     (case map_of existing RECLAIMS_KEY of
        Some v \<Rightarrow> if map_of new RECLAIMS_KEY = None then dict_set new RECLAIMS_KEY v else new
      | None \<Rightarrow> new)"

subsection \<open>Enqueue\<close>

definition MODE_BLIND :: string where "MODE_BLIND = ''blind''"
definition MODE_SIGHTED :: string where "MODE_SIGHTED = ''sighted''"

text \<open>\<open>new_id\<close> and \<open>created\<close> are what \<open>new_run_id()\<close> and \<open>_created_now()\<close> would return.\<close>

definition stage_queued :: "string \<Rightarrow> string \<Rightarrow> job_run \<Rightarrow> job_run result" where
  "stage_queued new_id created run = guarded
     [(jr_kind run \<notin> set RUN_KINDS, ValueError ''unknown run kind''),
      (jr_repo run = [], ValueError ''a run needs a repo'')]
     (run\<lparr>jr_id := if jr_id run = [] then new_id else jr_id run,
          jr_mode := if jr_mode run = [] then (if jr_kind run = KIND_BLIND then MODE_BLIND else MODE_SIGHTED)
                     else jr_mode run,
          jr_status := STATUS_QUEUED, jr_worker_id := [], jr_heartbeat := [], jr_started := [],
          jr_finished := [], jr_cancel_requested := False,
          jr_created := if jr_created run = [] then created else jr_created run\<rparr>)"

text \<open>The primary key refuses a second row with one id.\<close>

definition enqueue :: "string \<Rightarrow> string \<Rightarrow> job_run \<Rightarrow> job_store \<Rightarrow> (job_run \<times> job_store) result" where
  "enqueue new_id created run s = bind_result (stage_queued new_id created run) (\<lambda>r.
     if get_run s (jr_id r) \<noteq> None then Inl (OtherError ''IntegrityError'')
     else Inr (r, s\<lparr>js_runs := js_runs s @ [r]\<rparr>))"

subsection \<open>Claim\<close>

definition cancelled :: "job_run \<Rightarrow> string \<Rightarrow> job_run" where
  "cancelled run now = run\<lparr>jr_status := STATUS_CANCELLED, jr_finished := now, jr_heartbeat := []\<rparr>"

definition claimable :: "string list \<Rightarrow> string \<Rightarrow> job_run \<Rightarrow> bool" where
  "claimable kinds repo r \<longleftrightarrow> jr_status r = STATUS_QUEUED \<and> (kinds \<noteq> [] \<longrightarrow> jr_kind r \<in> set kinds) \<and>
     (repo \<noteq> [] \<longrightarrow> jr_repo r = repo)"

definition oldest :: "string list \<Rightarrow> string \<Rightarrow> job_store \<Rightarrow> job_run option" where
  "oldest kinds repo s =
     (case sort_key (\<lambda>r. (jr_created r, jr_id r)) (filter (claimable kinds repo) (js_runs s)) of
        [] \<Rightarrow> None | r # _ \<Rightarrow> Some r)"

definition queued_n :: "job_store \<Rightarrow> nat" where
  "queued_n s = count_if (\<lambda>r. jr_status r = STATUS_QUEUED) (js_runs s)"

definition started_by :: "string \<Rightarrow> string \<Rightarrow> job_run \<Rightarrow> job_run" where
  "started_by worker_id now run = run\<lparr>jr_status := STATUS_RUNNING, jr_worker_id := worker_id,
     jr_started := now, jr_heartbeat := now, jr_finished := []\<rparr>"

lemma oldest_in: "oldest kinds repo s = Some r \<Longrightarrow> r \<in> set (js_runs s) \<and> claimable kinds repo r"
proof -
  assume o: "oldest kinds repo s = Some r"
  let ?f = "filter (claimable kinds repo) (js_runs s)"
  from o obtain rs where "sort_key (\<lambda>r. (jr_created r, jr_id r)) ?f = r # rs"
    by (auto simp: oldest_def split: list.splits)
  then have "set (r # rs) = set ?f" by (metis set_sort)
  then show ?thesis by auto
qed

lemma put_fewer_queued:
  assumes "r \<in> set (js_runs s)" "jr_status r = STATUS_QUEUED" "jr_id r' = jr_id r" "jr_status r' \<noteq> STATUS_QUEUED"
  shows "queued_n (put_run r' s) < queued_n s"
proof -
  let ?q = "\<lambda>x. jr_status x = STATUS_QUEUED"
  have "count_if ?q (map (\<lambda>x. if jr_id x = jr_id r' then r' else x) xs) < count_if ?q xs"
    if "r \<in> set xs" for xs
    using that
  proof (induction xs)
    case (Cons x xs)
    have le: "count_if ?q (map (\<lambda>x. if jr_id x = jr_id r' then r' else x) ys) \<le> count_if ?q ys" for ys
      using assms(4) by (induction ys) auto
    show ?case
    proof (cases "x = r")
      case True
      then show ?thesis using assms le [of xs] by simp
    next
      case False
      then show ?thesis using Cons assms(4) by auto
    qed
  qed simp
  then show ?thesis using assms(1) by (simp add: queued_n_def put_run_def)
qed

text \<open>The loop of \<open>claim_next\<close>: a queued run whose cancellation was asked is finalised and the next
  one is tried.\<close>

function claim_loop :: "string \<Rightarrow> string list \<Rightarrow> string \<Rightarrow> string \<Rightarrow> job_store \<Rightarrow> job_run option \<times> job_store" where
  "claim_loop worker_id kinds repo now s =
     (case oldest kinds repo s of
        None \<Rightarrow> (None, s)
      | Some run \<Rightarrow>
          if jr_cancel_requested run then claim_loop worker_id kinds repo now (put_run (cancelled run now) s)
          else let run' = started_by worker_id now run in (Some run', put_run run' s))"
by pat_completeness auto
termination
proof (relation "measure (\<lambda>(_, _, _, _, s). queued_n s)")
  fix worker_id kinds repo now s run
  assume "oldest kinds repo s = Some run"
  then have "run \<in> set (js_runs s)" "jr_status run = STATUS_QUEUED"
    using oldest_in by (auto simp: claimable_def)
  then have "queued_n (put_run (cancelled run now) s) < queued_n s"
    by (rule put_fewer_queued) (simp_all add: cancelled_def STATUS_CANCELLED_def STATUS_QUEUED_def)
  then show "((worker_id, kinds, repo, now, put_run (cancelled run now) s), (worker_id, kinds, repo, now, s))
      \<in> measure (\<lambda>(_, _, _, _, s). queued_n s)"
    by simp
qed simp

declare claim_loop.simps [simp del]

definition claim_next ::
    "string \<Rightarrow> string list \<Rightarrow> string \<Rightarrow> string \<Rightarrow> job_store \<Rightarrow> (job_run option \<times> job_store) result" where
  "claim_next worker_id kinds repo now s =
     (if worker_id = [] then Inl (ValueError ''worker_id'') else Inr (claim_loop worker_id kinds repo now s))"

subsection \<open>The worker's writes\<close>

definition get_owned :: "job_store \<Rightarrow> string \<Rightarrow> string \<Rightarrow> job_run result" where
  "get_owned s rid worker_id = (case get_run s rid of
       None \<Rightarrow> Inl LookupError
     | Some run \<Rightarrow> if worker_id \<noteq> [] \<and> jr_worker_id run \<noteq> worker_id then Inl StaleClaim else Inr run)"

definition heartbeat :: "string \<Rightarrow> string \<Rightarrow> string \<Rightarrow> job_store \<Rightarrow> bool \<times> job_store" where
  "heartbeat rid worker_id now s = (case get_run s rid of
       None \<Rightarrow> (False, s)
     | Some run \<Rightarrow>
         if jr_status run \<noteq> STATUS_RUNNING then (False, s)
         else if worker_id \<noteq> [] \<and> jr_worker_id run \<noteq> worker_id then (False, s)
         else (True, put_run (run\<lparr>jr_heartbeat := now\<rparr>) s))"

definition with_counts :: "json_object option \<Rightarrow> job_run \<Rightarrow> job_run" where
  "with_counts counts run = (case counts of None \<Rightarrow> run
     | Some c \<Rightarrow> run\<lparr>jr_counts := merge_counts (jr_counts run) c\<rparr>)"

definition progress ::
    "string \<Rightarrow> int \<Rightarrow> int \<Rightarrow> json_object option \<Rightarrow> string \<Rightarrow> string \<Rightarrow> job_store \<Rightarrow> job_store result" where
  "progress rid done_n total_n counts worker_id now s = bind_result (get_owned s rid worker_id) (\<lambda>run.
     let run = run\<lparr>jr_progress_done := max 0 done_n, jr_progress_total := max 0 total_n\<rparr>;
         run = with_counts counts run;
         run = (if jr_status run = STATUS_RUNNING then run\<lparr>jr_heartbeat := now\<rparr> else run)
     in Inr (put_run run s))"

definition set_apparatus :: "string \<Rightarrow> json_object \<Rightarrow> string \<Rightarrow> job_store \<Rightarrow> job_store result" where
  "set_apparatus rid apparatus worker_id s = bind_result (get_owned s rid worker_id) (\<lambda>run.
     Inr (put_run (run\<lparr>jr_apparatus := apparatus\<rparr>) s))"

definition finish ::
    "string \<Rightarrow> string \<Rightarrow> json_object option \<Rightarrow> string \<Rightarrow> string \<Rightarrow> string \<Rightarrow> job_store \<Rightarrow> (job_run \<times> job_store) result" where
  "finish rid status counts error worker_id now s =
     (if status \<notin> set TERMINAL_STATUSES then Inl (ValueError ''terminal status'')
      else bind_result (get_owned s rid worker_id) (\<lambda>run.
        if jr_status run \<in> set TERMINAL_STATUSES then Inr (run, s)
        else let run = run\<lparr>jr_status := status, jr_error := error, jr_finished := now, jr_heartbeat := []\<rparr>;
                 run = with_counts counts run
             in Inr (run, put_run run s)))"

text \<open>The guard a claimed run's ledger row is appended under.\<close>

definition claim_guard :: "string \<Rightarrow> string \<Rightarrow> int \<Rightarrow> job_store \<Rightarrow> unit result" where
  "claim_guard rid worker_id claim s = (case get_run s rid of
       None \<Rightarrow> Inl AttemptSettled
     | Some run \<Rightarrow> bind_result (reclaims_of (jr_counts run)) (\<lambda>reclaims.
         if jr_status run \<noteq> STATUS_RUNNING \<or> jr_worker_id run \<noteq> worker_id \<or> reclaims \<noteq> claim
         then Inl AttemptSettled else Inr ()))"

subsection \<open>Cancellation and the stale sweep\<close>

definition request_cancel ::
    "string \<Rightarrow> string \<Rightarrow> string \<Rightarrow> job_store \<Rightarrow> (job_run option \<times> job_store) result" where
  "request_cancel rid actor now s =
     (if actor = [] then Inl (ValueError ''actor'')
      else case get_run s rid of
        None \<Rightarrow> Inr (None, s)
      | Some run \<Rightarrow>
          let before = jr_status run;
              run = (if before = STATUS_QUEUED then cancelled (run\<lparr>jr_cancel_requested := True\<rparr>) now
                     else if before = STATUS_RUNNING then run\<lparr>jr_cancel_requested := True\<rparr> else run);
              s = put_run run s;
              s = (if before = STATUS_QUEUED \<or> before = STATUS_RUNNING
                   then s\<lparr>js_events := js_events s @ [Cancel_requested rid (jr_repo run) actor before]\<rparr>
                   else s)
          in Inr (Some run, s))"

definition is_cancel_requested :: "string \<Rightarrow> job_store \<Rightarrow> bool" where
  "is_cancel_requested rid s = (case get_run s rid of None \<Rightarrow> False | Some r \<Rightarrow> jr_cancel_requested r)"

text \<open>A stale age of \<open>None\<close> is the code's infinity: no stamp that parses.\<close>

definition reclaim_one ::
    "int \<Rightarrow> (string \<Rightarrow> rat option) \<Rightarrow> rat \<Rightarrow> rat \<Rightarrow> string \<Rightarrow> job_run \<Rightarrow> (job_run \<times> job_event option) result" where
  "reclaim_one max_reclaims fromiso older_than_s ref_now now run =
     (if jr_status run \<noteq> STATUS_RUNNING then Inr (run, None)
      else let stamp = (if jr_heartbeat run \<noteq> [] then jr_heartbeat run
                        else if jr_started run \<noteq> [] then jr_started run else jr_created run);
               stale = age_s fromiso stamp ref_now
           in if (case stale of None \<Rightarrow> False | Some a \<Rightarrow> a < older_than_s) then Inr (run, None)
              else bind_result (reclaims_of (jr_counts run)) (\<lambda>n.
                let reclaims = n + 1;
                    prev_worker = jr_worker_id run;
                    run = run\<lparr>jr_counts := dict_set (jr_counts run) RECLAIMS_KEY (PInt reclaims)\<rparr>;
                    run = (if reclaims > max_reclaims
                           then run\<lparr>jr_status := STATUS_FAILED, jr_finished := now, jr_error := ''abandoned''\<rparr>
                           else run\<lparr>jr_status := STATUS_QUEUED, jr_started := []\<rparr>);
                    run = run\<lparr>jr_worker_id := [], jr_heartbeat := []\<rparr>
                in Inr (run, Some ((if jr_status run = STATUS_FAILED then Abandoned else Reclaimed)
                     (jr_id run) (jr_repo run) (jr_actor run) prev_worker stale reclaims))))"

definition reclaim_stale ::
    "int \<Rightarrow> (string \<Rightarrow> rat option) \<Rightarrow> rat \<Rightarrow> rat \<Rightarrow> string \<Rightarrow> job_store \<Rightarrow> (job_run list \<times> job_store) result" where
  "reclaim_stale max_reclaims fromiso older_than_s ref_now now s =
     bind_result (collect (reclaim_one max_reclaims fromiso older_than_s ref_now now) (js_runs s)) (\<lambda>ps.
       Inr (map fst (filter (\<lambda>p. snd p \<noteq> None) ps),
            s\<lparr>js_runs := map fst ps, js_events := js_events s @ List.map_filter snd ps\<rparr>))"

subsection \<open>Steps\<close>

text \<open>The counts a caller hands over leave the queue's own counter out.\<close>

definition own_counts :: "json_object option \<Rightarrow> bool" where
  "own_counts counts \<longleftrightarrow> (case counts of None \<Rightarrow> True | Some c \<Rightarrow> map_of c RECLAIMS_KEY = None)"

inductive job_step :: "int \<Rightarrow> (string \<Rightarrow> rat option) \<Rightarrow> job_store \<Rightarrow> job_store \<Rightarrow> bool" for m fromiso where
  Enqueue: "enqueue new_id created run s = Inr (r, s') \<Longrightarrow> map_of (jr_counts run) RECLAIMS_KEY = None \<Longrightarrow>
     job_step m fromiso s s'"
| Claim: "claim_next worker_id kinds repo now s = Inr (r, s') \<Longrightarrow> now \<noteq> [] \<Longrightarrow> job_step m fromiso s s'"
| Heartbeat: "heartbeat rid worker_id now s = (b, s') \<Longrightarrow> now \<noteq> [] \<Longrightarrow> job_step m fromiso s s'"
| Progress: "progress rid d n counts worker_id now s = Inr s' \<Longrightarrow> now \<noteq> [] \<Longrightarrow> own_counts counts \<Longrightarrow>
     job_step m fromiso s s'"
| Apparatus: "set_apparatus rid apparatus worker_id s = Inr s' \<Longrightarrow> job_step m fromiso s s'"
| Finish: "finish rid status counts error worker_id now s = Inr (r, s') \<Longrightarrow> now \<noteq> [] \<Longrightarrow> own_counts counts \<Longrightarrow>
     job_step m fromiso s s'"
| Cancel: "request_cancel rid actor now s = Inr (r, s') \<Longrightarrow> now \<noteq> [] \<Longrightarrow> job_step m fromiso s s'"
| Reclaim: "reclaim_stale m fromiso older_than_s ref_now now s = Inr (touched, s') \<Longrightarrow> now \<noteq> [] \<Longrightarrow>
     job_step m fromiso s s'"

definition empty_queue :: job_store where
  "empty_queue = \<lparr>js_runs = [], js_events = []\<rparr>"

end
