(* ===== verification/Job_Queue_Correct.thy ===== *)
theory Job_Queue_Correct
  imports Job_Queue
begin

section \<open>The queue as a state machine per run\<close>

text \<open>
  Every step of the queue moves each run by at most one transition of a four-phase machine
  (absent, queued, running under a claim, ended). The invariant of the table and the simulation are
  proved once per method; the promises of the queue (a claim is a lease, a run is claimed a bounded
  number of times, an ended run stays ended) are then read off the small machine.
\<close>

subsection \<open>The abstract machine\<close>

datatype phase = Absent | Queued int | Running string int | Ended string int

inductive phase_step :: "int \<Rightarrow> phase \<Rightarrow> phase \<Rightarrow> bool" for m where
  New: "phase_step m Absent (Queued 0)"
| Take: "w \<noteq> [] \<Longrightarrow> phase_step m (Queued n) (Running w n)"
| Drop: "phase_step m (Queued n) (Ended st n)"
| End: "phase_step m (Running w n) (Ended st n)"
| Requeue: "n + 1 \<le> m \<Longrightarrow> phase_step m (Running w n) (Queued (n + 1))"
| Abandon: "m < n + 1 \<Longrightarrow> phase_step m (Running w n) (Ended STATUS_FAILED (n + 1))"

inductive_cases phase_from_absent: "phase_step m Absent p"
inductive_cases phase_from_queued: "phase_step m (Queued n) p"
inductive_cases phase_from_running: "phase_step m (Running w n) p"
inductive_simps phase_from_ended [simp]: "phase_step m (Ended st n) p"

definition moves :: "int \<Rightarrow> phase \<Rightarrow> phase \<Rightarrow> bool" where
  "moves m p q \<longleftrightarrow> p = q \<or> phase_step m p q"

lemma moves_refl [simp]: "moves m p p"
  by (simp add: moves_def)

lemma moves_ended [simp]: "moves m (Ended st n) p \<longleftrightarrow> p = Ended st n"
  by (auto simp: moves_def)

fun reclaims_in :: "phase \<Rightarrow> int" where
  "reclaims_in Absent = 0"
| "reclaims_in (Queued n) = n"
| "reclaims_in (Running _ n) = n"
| "reclaims_in (Ended _ n) = n"

subsection \<open>The invariant of the table\<close>

definition stamps_ok :: "job_run \<Rightarrow> bool" where
  "stamps_ok r \<longleftrightarrow>
     (if jr_status r = STATUS_QUEUED
      then jr_worker_id r = [] \<and> jr_heartbeat r = [] \<and> jr_started r = [] \<and> jr_finished r = []
      else if jr_status r = STATUS_RUNNING
      then jr_worker_id r \<noteq> [] \<and> jr_heartbeat r \<noteq> [] \<and> jr_started r \<noteq> [] \<and> jr_finished r = []
      else jr_heartbeat r = [] \<and> jr_finished r \<noteq> [])"

definition run_ok :: "int \<Rightarrow> job_run \<Rightarrow> bool" where
  "run_ok m r \<longleftrightarrow> jr_status r \<in> set STATUSES \<and> stamps_ok r \<and>
     (\<exists>n. reclaims_of (jr_counts r) = Inr n \<and> 0 \<le> n \<and>
       n \<le> (if jr_status r \<in> set TERMINAL_STATUSES then m + 1 else m))"

definition job_inv :: "int \<Rightarrow> job_store \<Rightarrow> bool" where
  "job_inv m s \<longleftrightarrow> distinct (map jr_id (js_runs s)) \<and> list_all (run_ok m) (js_runs s)"

definition phase_of_run :: "job_run \<Rightarrow> phase" where
  "phase_of_run r =
     (let n = projr (reclaims_of (jr_counts r)) in
      if jr_status r = STATUS_QUEUED then Queued n
      else if jr_status r = STATUS_RUNNING then Running (jr_worker_id r) n else Ended (jr_status r) n)"

definition phase_of :: "job_store \<Rightarrow> string \<Rightarrow> phase" where
  "phase_of s rid = (case get_run s rid of None \<Rightarrow> Absent | Some r \<Rightarrow> phase_of_run r)"

lemmas status_defs = STATUS_QUEUED_def STATUS_RUNNING_def STATUS_SUCCEEDED_def STATUS_FAILED_def
  STATUS_CANCELLED_def

lemma status_distinct [simp]:
  "STATUS_QUEUED \<noteq> STATUS_RUNNING" "STATUS_RUNNING \<noteq> STATUS_QUEUED"
  "STATUS_QUEUED \<notin> set TERMINAL_STATUSES" "STATUS_RUNNING \<notin> set TERMINAL_STATUSES"
  "STATUS_FAILED \<noteq> STATUS_QUEUED" "STATUS_FAILED \<noteq> STATUS_RUNNING"
  "STATUS_QUEUED \<noteq> STATUS_FAILED" "STATUS_RUNNING \<noteq> STATUS_FAILED"
  "STATUS_CANCELLED \<noteq> STATUS_QUEUED" "STATUS_CANCELLED \<noteq> STATUS_RUNNING"
  "STATUS_FAILED \<in> set TERMINAL_STATUSES" "STATUS_CANCELLED \<in> set TERMINAL_STATUSES"
  "STATUS_QUEUED \<in> set STATUSES" "STATUS_RUNNING \<in> set STATUSES" "STATUS_FAILED \<in> set STATUSES"
  "STATUS_CANCELLED \<in> set STATUSES"
  by (simp_all add: status_defs TERMINAL_STATUSES_def STATUSES_def)

lemma terminal_status: "x \<in> set TERMINAL_STATUSES \<Longrightarrow> x \<in> set STATUSES \<and> x \<noteq> STATUS_QUEUED \<and> x \<noteq> STATUS_RUNNING"
  by (auto simp: status_defs TERMINAL_STATUSES_def STATUSES_def)

lemma status_cases: "x \<in> set STATUSES \<longleftrightarrow> x = STATUS_QUEUED \<or> x = STATUS_RUNNING \<or> x \<in> set TERMINAL_STATUSES"
  by (auto simp: TERMINAL_STATUSES_def STATUSES_def)

subsection \<open>Reading the table after a write\<close>

lemma find_id_Some: "find (\<lambda>r. jr_id r = rid) xs = Some r \<Longrightarrow> r \<in> set xs \<and> jr_id r = rid"
  by (induction xs) (auto split: if_splits)

lemma get_run_Some: "get_run s rid = Some r \<Longrightarrow> r \<in> set (js_runs s) \<and> jr_id r = rid"
  unfolding get_run_def by (rule find_id_Some)

lemma find_id_put:
  "find (\<lambda>r. jr_id r = rid) (map (\<lambda>x. if jr_id x = jr_id r' then r' else x) xs) =
     (if rid = jr_id r' \<and> find (\<lambda>r. jr_id r = rid) xs \<noteq> None then Some r' else find (\<lambda>r. jr_id r = rid) xs)"
  by (induction xs) auto

lemma get_put:
  "get_run (put_run r' s) rid = (if rid = jr_id r' \<and> get_run s rid \<noteq> None then Some r' else get_run s rid)"
  by (auto simp: get_run_def put_run_def find_id_put)

lemma phase_of_put:
  "get_run s (jr_id r') \<noteq> None \<Longrightarrow>
     phase_of (put_run r' s) rid = (if rid = jr_id r' then phase_of_run r' else phase_of s rid)"
  by (simp add: phase_of_def get_put)

lemma put_ids: "map jr_id (js_runs (put_run r' s)) = map jr_id (js_runs s)"
  by (simp add: put_run_def)

lemma put_inv: "job_inv m s \<Longrightarrow> run_ok m r' \<Longrightarrow> job_inv m (put_run r' s)"
  by (auto simp: job_inv_def put_ids list_all_iff) (auto simp: put_run_def)

lemma inv_run: "job_inv m s \<Longrightarrow> get_run s rid = Some r \<Longrightarrow> run_ok m r \<and> jr_id r = rid"
  using get_run_Some by (auto simp: job_inv_def list_all_iff)

lemma run_ok_reclaims:
  "run_ok m r \<Longrightarrow> reclaims_of (jr_counts r) = Inr (reclaims_in (phase_of_run r)) \<and> 0 \<le> reclaims_in (phase_of_run r) \<and>
     reclaims_in (phase_of_run r) \<le> m + 1 \<and>
     (jr_status r \<notin> set TERMINAL_STATUSES \<longrightarrow> reclaims_in (phase_of_run r) \<le> m)"
  by (auto simp: run_ok_def phase_of_run_def Let_def split: if_splits)

subsection \<open>The counter\<close>

lemma map_of_dict_set: "map_of (dict_set d k v) k' = (if k' = k then Some v else map_of d k')"
  by (induction d) (auto simp: dict_set_def)

lemma reclaims_dict_set [simp]: "reclaims_of (dict_set d RECLAIMS_KEY (PInt n)) = Inr n"
  by (simp add: reclaims_of_def map_of_dict_set)

lemma reclaims_merge: "map_of c RECLAIMS_KEY = None \<Longrightarrow> reclaims_of (merge_counts old c) = reclaims_of old"
  by (auto simp: reclaims_of_def merge_counts_def map_of_dict_set split: option.splits)

lemma own_counts_merge:
  "own_counts counts \<Longrightarrow>
     reclaims_of (jr_counts (with_counts counts r)) = reclaims_of (jr_counts r)"
  by (auto simp: own_counts_def with_counts_def reclaims_merge split: option.splits)

text \<open>A write that changes no field of the state machine.\<close>

definition same_claim :: "job_run \<Rightarrow> job_run \<Rightarrow> bool" where
  "same_claim r r' \<longleftrightarrow> jr_id r' = jr_id r \<and> jr_status r' = jr_status r \<and> jr_worker_id r' = jr_worker_id r \<and>
     reclaims_of (jr_counts r') = reclaims_of (jr_counts r) \<and> jr_started r' = jr_started r \<and>
     jr_finished r' = jr_finished r \<and>
     (jr_heartbeat r' = jr_heartbeat r \<or> jr_status r = STATUS_RUNNING \<and> jr_heartbeat r' \<noteq> [])"

lemma same_claim_ok: "same_claim r r' \<Longrightarrow> run_ok m r \<Longrightarrow> run_ok m r' \<and> phase_of_run r' = phase_of_run r"
  by (auto simp: same_claim_def run_ok_def stamps_ok_def phase_of_run_def split: if_splits)

subsection \<open>Each method keeps the invariant and simulates the machine\<close>

definition simulates :: "int \<Rightarrow> job_store \<Rightarrow> job_store \<Rightarrow> bool" where
  "simulates m s s' \<longleftrightarrow> job_inv m s' \<and> (\<forall>rid. moves m (phase_of s rid) (phase_of s' rid))"

lemma simulates_refl: "job_inv m s \<Longrightarrow> simulates m s s"
  by (simp add: simulates_def)

lemma put_simulates:
  assumes "job_inv m s" and "get_run s (jr_id r') = Some r" and "run_ok m r'"
    and "moves m (phase_of_run r) (phase_of_run r')"
  shows "simulates m s (put_run r' s)"
proof -
  have "moves m (phase_of s rid) (phase_of (put_run r' s) rid)" for rid
    using assms(2,4) phase_of_put [of s r' rid] by (auto simp: phase_of_def)
  then show ?thesis using put_inv [OF assms(1,3)] by (simp add: simulates_def)
qed

lemma put_same:
  assumes "job_inv m s" and "get_run s rid = Some r" and "same_claim r r'"
  shows "simulates m s (put_run r' s)"
proof -
  have r: "run_ok m r" "jr_id r = rid" using inv_run [OF assms(1,2)] by auto
  show ?thesis
  proof (rule put_simulates [OF assms(1), where r = r])
    show "get_run s (jr_id r') = Some r" using assms(2,3) r(2) by (simp add: same_claim_def)
    show "run_ok m r'" "moves m (phase_of_run r) (phase_of_run r')"
      using same_claim_ok [OF assms(3) r(1)] by auto
  qed
qed

lemma get_run_of_member: "job_inv m s \<Longrightarrow> r \<in> set (js_runs s) \<Longrightarrow> get_run s (jr_id r) = Some r"
proof -
  have "find (\<lambda>x. jr_id x = jr_id r) xs = Some r" if "distinct (map jr_id xs)" "r \<in> set xs" for xs
    using that by (induction xs) (auto simp: image_iff)
  then show "job_inv m s \<Longrightarrow> r \<in> set (js_runs s) \<Longrightarrow> get_run s (jr_id r) = Some r"
    by (simp add: get_run_def job_inv_def)
qed

lemma cancelled_queued:
  assumes "run_ok m r" and "jr_status r = STATUS_QUEUED" and "now \<noteq> []" and "0 \<le> m"
  shows "run_ok m (cancelled r now) \<and> phase_of_run (cancelled r now) = Ended STATUS_CANCELLED (reclaims_in (phase_of_run r)) \<and>
    phase_of_run r = Queued (reclaims_in (phase_of_run r))"
  using assms by (auto simp: run_ok_def stamps_ok_def cancelled_def phase_of_run_def)

lemma started_queued:
  assumes "run_ok m r" and "jr_status r = STATUS_QUEUED" and "now \<noteq> []" and "w \<noteq> []"
  shows "run_ok m (started_by w now r) \<and>
    phase_of_run (started_by w now r) = Running w (reclaims_in (phase_of_run r)) \<and>
    phase_of_run r = Queued (reclaims_in (phase_of_run r))"
  using assms by (auto simp: run_ok_def stamps_ok_def started_by_def phase_of_run_def)

lemma claim_loop_simulates:
  assumes "job_inv m s" and "w \<noteq> []" and "now \<noteq> []" and "0 \<le> m"
  shows "simulates m s (snd (claim_loop w kinds repo now s))"
  using assms
proof (induction w kinds repo now s rule: claim_loop.induct)
  case (1 w kinds repo now s)
  show ?case
  proof (cases "oldest kinds repo s")
    case None
    then show ?thesis using 1 by (simp add: claim_loop.simps simulates_refl)
  next
    case (Some run)
    then have m: "run \<in> set (js_runs s)" "jr_status run = STATUS_QUEUED"
      using oldest_in by (auto simp: claimable_def)
    have g: "get_run s (jr_id run) = Some run" by (rule get_run_of_member [OF 1(2) m(1)])
    have ok: "run_ok m run" using inv_run [OF 1(2) g] by simp
    show ?thesis
    proof (cases "jr_cancel_requested run")
      case True
      note c = cancelled_queued [OF ok m(2) 1(4) 1(5)]
      let ?s1 = "put_run (cancelled run now) s"
      have mv: "moves m (phase_of_run run) (phase_of_run (cancelled run now))"
        using c phase_step.Drop by (metis moves_def)
      have first: "simulates m s ?s1"
        by (rule put_simulates [OF 1(2), where r = run]) (use c mv in \<open>simp_all add: g cancelled_def\<close>)
      have "simulates m ?s1 (snd (claim_loop w kinds repo now ?s1))"
        using 1(1) [OF Some True] 1(3-5) first by (simp add: simulates_def)
      moreover have "phase_of ?s1 rid =
          (if rid = jr_id run then Ended STATUS_CANCELLED (reclaims_in (phase_of_run run)) else phase_of s rid)" for rid
        using phase_of_put [of s "cancelled run now" rid] c g by (simp add: cancelled_def)
      moreover have "moves m (phase_of s (jr_id run)) (Ended STATUS_CANCELLED (reclaims_in (phase_of_run run)))"
        using c g phase_step.Drop by (metis moves_def option.simps(5) phase_of_def)
      ultimately have "simulates m s (snd (claim_loop w kinds repo now ?s1))"
        unfolding simulates_def by (metis moves_ended)
      then show ?thesis using Some True by (simp add: claim_loop.simps)
    next
      case False
      note st = started_queued [OF ok m(2) 1(4) 1(3)]
      have mv: "moves m (phase_of_run run) (phase_of_run (started_by w now run))"
        using st phase_step.Take [OF 1(3)] by (metis moves_def)
      have "simulates m s (put_run (started_by w now run) s)"
        by (rule put_simulates [OF 1(2), where r = run]) (use st mv in \<open>simp_all add: g started_by_def\<close>)
      then show ?thesis using Some False by (simp add: claim_loop.simps Let_def)
    qed
  qed
qed

lemma heartbeat_simulates:
  assumes "job_inv m s" and "heartbeat rid w now s = (b, s')" and "now \<noteq> []"
  shows "simulates m s s'"
proof (cases "s' = s")
  case False
  then obtain r where g: "get_run s rid = Some r" and r: "jr_status r = STATUS_RUNNING"
    and s': "s' = put_run (r\<lparr>jr_heartbeat := now\<rparr>) s"
    using assms(2) by (auto simp: heartbeat_def split: option.splits if_splits)
  have "same_claim r (r\<lparr>jr_heartbeat := now\<rparr>)" using r assms(3) by (simp add: same_claim_def)
  then show ?thesis unfolding s' by (rule put_same [OF assms(1) g])
qed (simp add: simulates_refl assms(1))

lemma get_owned_Inr: "get_owned s rid w = Inr r \<Longrightarrow> get_run s rid = Some r \<and> (w \<noteq> [] \<longrightarrow> jr_worker_id r = w)"
  by (auto simp: get_owned_def split: option.splits if_splits)

lemma with_counts_same: "own_counts counts \<Longrightarrow> same_claim r (with_counts counts r)"
  using own_counts_merge [of counts r] by (auto simp: with_counts_def same_claim_def split: option.splits)

lemma with_counts_fields [simp]:
  "jr_status (with_counts counts r) = jr_status r" "jr_id (with_counts counts r) = jr_id r"
  "jr_heartbeat (with_counts counts r) = jr_heartbeat r" "jr_finished (with_counts counts r) = jr_finished r"
  by (simp_all add: with_counts_def split: option.splits)

lemma same_claim_trans: "same_claim a b \<Longrightarrow> same_claim b c \<Longrightarrow> same_claim a c"
  by (auto simp: same_claim_def)

lemma progress_simulates:
  assumes "job_inv m s" and "progress rid d n counts w now s = Inr s'" and "now \<noteq> []" and "own_counts counts"
  shows "simulates m s s'"
proof -
  from assms(2) obtain r where o: "get_owned s rid w = Inr r" by (auto simp: progress_def)
  define r1 where "r1 = r\<lparr>jr_progress_done := max 0 d, jr_progress_total := max 0 n\<rparr>"
  define r2 where "r2 = with_counts counts r1"
  define r3 where "r3 = (if jr_status r2 = STATUS_RUNNING then r2\<lparr>jr_heartbeat := now\<rparr> else r2)"
  have s': "s' = put_run r3 s"
    using assms(2) by (auto simp: progress_def o Let_def r1_def r2_def r3_def)
  have "same_claim r r1" by (simp add: same_claim_def r1_def)
  moreover have "same_claim r1 r2" unfolding r2_def by (rule with_counts_same [OF assms(4)])
  moreover have "same_claim r2 r3" using assms(3) by (simp add: same_claim_def r3_def)
  ultimately have "same_claim r r3" by (blast intro: same_claim_trans)
  then show ?thesis unfolding s' using get_owned_Inr [OF o] put_same [OF assms(1)] by blast
qed

lemma apparatus_simulates:
  assumes "job_inv m s" and "set_apparatus rid a w s = Inr s'"
  shows "simulates m s s'"
proof -
  from assms(2) obtain r where o: "get_owned s rid w = Inr r" and s': "s' = put_run (r\<lparr>jr_apparatus := a\<rparr>) s"
    by (auto simp: set_apparatus_def)
  have "same_claim r (r\<lparr>jr_apparatus := a\<rparr>)" by (simp add: same_claim_def)
  then show ?thesis unfolding s' using get_owned_Inr [OF o] put_same [OF assms(1)] by blast
qed

text \<open>Ending an active run.\<close>

lemma ended_run:
  assumes "run_ok m r" and "jr_status r \<notin> set TERMINAL_STATUSES" and "0 \<le> m"
    and "jr_status r' \<in> set TERMINAL_STATUSES" and "jr_heartbeat r' = []" and "jr_finished r' \<noteq> []"
    and "reclaims_of (jr_counts r') = reclaims_of (jr_counts r)"
  shows "run_ok m r' \<and> moves m (phase_of_run r) (phase_of_run r')"
proof
  show "run_ok m r'"
    using assms terminal_status [OF assms(4)] by (auto simp: run_ok_def stamps_ok_def)
  have "jr_status r = STATUS_QUEUED \<or> jr_status r = STATUS_RUNNING"
    using assms(1,2) by (auto simp: run_ok_def status_cases)
  then show "moves m (phase_of_run r) (phase_of_run r')"
    using assms(7) terminal_status [OF assms(4)]
    by (auto simp: phase_of_run_def moves_def intro: phase_step.Drop phase_step.End)
qed

lemma finish_simulates:
  assumes "job_inv m s" and "finish rid status counts error w now s = Inr (x, s')" and "now \<noteq> []"
    and "own_counts counts" and "0 \<le> m"
  shows "simulates m s s'"
proof -
  from assms(2) have st: "status \<in> set TERMINAL_STATUSES" by (auto simp: finish_def split: if_splits)
  with assms(2) obtain r where o: "get_owned s rid w = Inr r" by (auto simp: finish_def)
  have g: "get_run s rid = Some r" using get_owned_Inr [OF o] by simp
  have ok: "run_ok m r" "jr_id r = rid" using inv_run [OF assms(1) g] by auto
  show ?thesis
  proof (cases "jr_status r \<in> set TERMINAL_STATUSES")
    case True
    then show ?thesis using assms(1,2) st o by (simp add: finish_def simulates_refl)
  next
    case False
    define r1 where "r1 = r\<lparr>jr_status := status, jr_error := error, jr_finished := now, jr_heartbeat := []\<rparr>"
    have s': "s' = put_run (with_counts counts r1) s"
      using assms(2) st o False by (auto simp: finish_def Let_def r1_def)
    have "reclaims_of (jr_counts (with_counts counts r1)) = reclaims_of (jr_counts r)"
      using with_counts_same [OF assms(4), of r1] by (simp add: same_claim_def r1_def)
    then have "run_ok m (with_counts counts r1) \<and> moves m (phase_of_run r) (phase_of_run (with_counts counts r1))"
      using assms(3) st by (intro ended_run [OF ok(1) False assms(5)]) (simp_all add: r1_def)
    then show ?thesis unfolding s'
      by (intro put_simulates [OF assms(1), where r = r]) (simp_all add: g ok r1_def)
  qed
qed

lemma phase_of_events [simp]:
  "phase_of (s\<lparr>js_events := es\<rparr>) rid = phase_of s rid" "job_inv m (s\<lparr>js_events := es\<rparr>) = job_inv m s"
  by (simp_all add: phase_of_def get_run_def job_inv_def)

lemma simulates_events [simp]: "simulates m s (s'\<lparr>js_events := es\<rparr>) = simulates m s s'"
  by (simp add: simulates_def)

lemma put_itself: "job_inv m s \<Longrightarrow> get_run s rid = Some r \<Longrightarrow> put_run r s = s"
proof -
  assume i: "job_inv m s" and g: "get_run s rid = Some r"
  have "x = r" if "x \<in> set (js_runs s)" "jr_id x = jr_id r" for x
    using get_run_of_member [OF i that(1)] get_run_of_member [OF i] get_run_Some [OF g] that(2) g by force
  then have "map (\<lambda>x. if jr_id x = jr_id r then r else x) (js_runs s) = js_runs s"
    by (intro map_idI) auto
  then show ?thesis by (simp add: put_run_def)
qed

lemma cancel_simulates:
  assumes "job_inv m s" and "request_cancel rid actor now s = Inr (x, s')" and "now \<noteq> []" and "0 \<le> m"
  shows "simulates m s s'"
proof (cases "get_run s rid")
  case None
  then show ?thesis using assms(1,2) by (auto simp: request_cancel_def simulates_refl split: if_splits)
next
  case (Some r)
  have ok: "run_ok m r" "jr_id r = rid" using inv_run [OF assms(1) Some] by auto
  let ?flag = "r\<lparr>jr_cancel_requested := True\<rparr>"
  have flag: "same_claim r ?flag" by (simp add: same_claim_def)
  consider "jr_status r = STATUS_QUEUED" | "jr_status r = STATUS_RUNNING"
    | "jr_status r \<noteq> STATUS_QUEUED" "jr_status r \<noteq> STATUS_RUNNING" by blast
  then show ?thesis
  proof cases
    case 1
    have s': "\<exists>es. s' = (put_run (cancelled ?flag now) s)\<lparr>js_events := es\<rparr>"
      using assms(2) Some 1 by (auto simp: request_cancel_def Let_def split: if_splits)
    have "run_ok m (cancelled ?flag now) \<and> moves m (phase_of_run r) (phase_of_run (cancelled ?flag now))"
      using 1 assms(3) by (intro ended_run [OF ok(1) _ assms(4)]) (simp_all add: cancelled_def)
    then have "simulates m s (put_run (cancelled ?flag now) s)"
      by (intro put_simulates [OF assms(1), where r = r]) (simp_all add: cancelled_def Some ok)
    then show ?thesis using s' by auto
  next
    case 2
    have s': "\<exists>es. s' = (put_run ?flag s)\<lparr>js_events := es\<rparr>"
      using assms(2) Some 2 by (auto simp: request_cancel_def Let_def split: if_splits)
    then show ?thesis using put_same [OF assms(1) Some flag] by auto
  next
    case 3
    then have "s' = put_run r s"
      using assms(2) Some by (auto simp: request_cancel_def Let_def split: if_splits)
    then show ?thesis using put_itself [OF assms(1) Some] by (simp add: simulates_refl assms(1))
  qed
qed

lemma find_id_append:
  "find (\<lambda>r. jr_id r = rid) (xs @ [r]) =
     (case find (\<lambda>r. jr_id r = rid) xs of None \<Rightarrow> if jr_id r = rid then Some r else None | Some y \<Rightarrow> Some y)"
  by (induction xs) auto

lemma enqueue_simulates:
  assumes "job_inv m s" and "enqueue new_id created run s = Inr (x, s')"
    and "map_of (jr_counts run) RECLAIMS_KEY = None" and "0 \<le> m"
  shows "simulates m s s'"
proof -
  from assms(2) obtain r where r: "stage_queued new_id created run = Inr r" "get_run s (jr_id r) = None"
    "s' = s\<lparr>js_runs := js_runs s @ [r]\<rparr>"
    by (auto simp: enqueue_def split: if_splits)
  have fields: "jr_status r = STATUS_QUEUED" "jr_worker_id r = []" "jr_heartbeat r = []" "jr_started r = []"
    "jr_finished r = []" "jr_counts r = jr_counts run"
    using r(1) by (auto simp: stage_queued_def)
  have zero: "reclaims_of (jr_counts r) = Inr 0" using assms(3) by (simp add: reclaims_of_def fields)
  have ok: "run_ok m r" using assms(4) by (simp add: run_ok_def stamps_ok_def fields(1-5) zero)
  have "jr_id r \<notin> jr_id ` set (js_runs s)" using r(2) by (auto simp: get_run_def find_None_iff)
  then have inv: "job_inv m s'" using assms(1) ok by (simp add: job_inv_def r(3))
  have "moves m (phase_of s rid) (phase_of s' rid)" for rid
    using r(2) by (auto simp: phase_of_def get_run_def r(3) find_id_append phase_of_run_def fields(1) zero
        moves_def phase_step.New split: option.splits)
  with inv show ?thesis by (simp add: simulates_def)
qed

lemma reclaim_one_ok:
  assumes "reclaim_one m fromiso older ref now r = Inr (r', ev)" and "run_ok m r" and "now \<noteq> []" and "0 \<le> m"
  shows "jr_id r' = jr_id r \<and> run_ok m r' \<and> moves m (phase_of_run r) (phase_of_run r')"
proof (cases "r' = r")
  case False
  then have run: "jr_status r = STATUS_RUNNING"
    using assms(1) by (auto simp: reclaim_one_def split: if_splits)
  obtain n where n: "reclaims_of (jr_counts r) = Inr n" "0 \<le> n" "n \<le> m"
    using assms(2) run by (auto simp: run_ok_def)
  define c where "c = dict_set (jr_counts r) RECLAIMS_KEY (PInt (n + 1))"
  have r': "r' = (if m < n + 1
      then r\<lparr>jr_counts := c, jr_status := STATUS_FAILED, jr_finished := now, jr_error := ''abandoned'',
        jr_worker_id := [], jr_heartbeat := []\<rparr>
      else r\<lparr>jr_counts := c, jr_status := STATUS_QUEUED, jr_started := [], jr_worker_id := [], jr_heartbeat := []\<rparr>)"
    using assms(1) False run n(1) by (auto simp: reclaim_one_def Let_def c_def split: if_splits)
  have c: "reclaims_of c = Inr (n + 1)" by (simp add: c_def)
  have fin: "jr_finished r = []" using assms(2) run by (simp add: run_ok_def stamps_ok_def)
  have p: "phase_of_run r = Running (jr_worker_id r) n" by (simp add: phase_of_run_def run n)
  show ?thesis
  proof (cases "m < n + 1")
    case True
    then have "phase_of_run r' = Ended STATUS_FAILED (n + 1)" by (simp add: r' phase_of_run_def c)
    moreover have "run_ok m r'" using True n assms(3) by (simp add: r' run_ok_def stamps_ok_def c)
    ultimately show ?thesis using phase_step.Abandon [OF True] by (simp add: p moves_def r')
  next
    case ok: False
    then have "phase_of_run r' = Queued (n + 1)" by (simp add: r' phase_of_run_def c)
    moreover have "run_ok m r'" using ok n by (simp add: r' run_ok_def stamps_ok_def c fin)
    ultimately show ?thesis using phase_step.Requeue [of n m] ok by (simp add: p moves_def r')
  qed
qed (simp add: assms(2))

lemma collect_Inr: "collect f xs = Inr ys \<Longrightarrow> list_all2 (\<lambda>x y. f x = Inr y) xs ys"
  by (induction xs arbitrary: ys) auto

lemma find_id_all2:
  "list_all2 (\<lambda>x y. jr_id y = jr_id x \<and> R x y) xs ys \<Longrightarrow>
     (find (\<lambda>r. jr_id r = rid) xs = None \<and> find (\<lambda>r. jr_id r = rid) ys = None) \<or>
     (\<exists>x y. find (\<lambda>r. jr_id r = rid) xs = Some x \<and> find (\<lambda>r. jr_id r = rid) ys = Some y \<and> R x y)"
  by (induction rule: list_all2_induct) auto

lemma reclaim_simulates:
  assumes "job_inv m s" and "reclaim_stale m fromiso older ref now s = Inr (touched, s')" and "now \<noteq> []" and "0 \<le> m"
  shows "simulates m s s'"
proof -
  let ?R = "\<lambda>x y. run_ok m y \<and> moves m (phase_of_run x) (phase_of_run y)"
  obtain ps es where ps: "collect (reclaim_one m fromiso older ref now) (js_runs s) = Inr ps"
    and s': "s' = s\<lparr>js_runs := map fst ps, js_events := es\<rparr>"
    using assms(2) by (auto simp: reclaim_stale_def)
  have "list_all2 (\<lambda>x p. reclaim_one m fromiso older ref now x = Inr p) (js_runs s) ps"
    by (rule collect_Inr [OF ps])
  moreover have "list_all (run_ok m) (js_runs s)" using assms(1) by (simp add: job_inv_def)
  ultimately have all: "list_all2 (\<lambda>x y. jr_id y = jr_id x \<and> ?R x y) (js_runs s) (map fst ps)"
  proof (induction rule: list_all2_induct)
    case (Cons x xs p ps)
    obtain y ev where "p = (y, ev)" by (cases p)
    then show ?case using Cons reclaim_one_ok [of m fromiso older ref now x y ev] assms(3,4) by auto
  qed simp
  then have ids: "map jr_id (map fst ps) = map jr_id (js_runs s)"
    by (induction rule: list_all2_induct) auto
  have "list_all (run_ok m) (map fst ps)"
    using all by (induction rule: list_all2_induct) auto
  then have "job_inv m s'" using assms(1) ids by (simp add: job_inv_def s')
  moreover have "moves m (phase_of s rid) (phase_of s' rid)" for rid
    using find_id_all2 [OF all, of rid] by (auto simp: phase_of_def get_run_def s')
  ultimately show ?thesis by (simp add: simulates_def)
qed

lemma step_simulates:
  assumes "job_step m fromiso s s'" and "job_inv m s" and "0 \<le> m"
  shows "simulates m s s'"
  using assms(1)
proof cases
  case (Enqueue new_id created run r)
  then show ?thesis using enqueue_simulates assms(2,3) by blast
next
  case (Claim worker_id kinds repo now r)
  then have "worker_id \<noteq> []" "s' = snd (claim_loop worker_id kinds repo now s)"
    by (auto simp: claim_next_def split: if_splits)
  then show ?thesis using claim_loop_simulates [OF assms(2) _ Claim(2) assms(3)] by blast
next
  case (Heartbeat rid worker_id now b)
  then show ?thesis using heartbeat_simulates assms(2) by blast
next
  case (Progress rid d n counts worker_id now)
  then show ?thesis using progress_simulates assms(2) by blast
next
  case (Apparatus rid apparatus worker_id)
  then show ?thesis using apparatus_simulates assms(2) by blast
next
  case (Finish rid status counts error worker_id now r)
  then show ?thesis using finish_simulates assms(2,3) by blast
next
  case (Cancel rid actor now r)
  then show ?thesis using cancel_simulates assms(2,3) by blast
next
  case (Reclaim older_than_s ref_now now touched)
  then show ?thesis using reclaim_simulates assms(2,3) by blast
qed

subsection \<open>Runs of the queue\<close>

definition reaches :: "int \<Rightarrow> (string \<Rightarrow> rat option) \<Rightarrow> job_store \<Rightarrow> job_store \<Rightarrow> bool" where
  "reaches m fromiso = (job_step m fromiso)\<^sup>*\<^sup>*"

lemma empty_inv: "job_inv m empty_queue"
  by (simp add: job_inv_def empty_queue_def)

lemma reaches_inv: "reaches m fromiso s s' \<Longrightarrow> job_inv m s \<Longrightarrow> 0 \<le> m \<Longrightarrow> job_inv m s'"
  unfolding reaches_def
proof (induction rule: rtranclp_induct)
  case (step y z)
  then show ?case using step_simulates by (simp add: simulates_def)
qed

lemma reaches_moves:
  "reaches m fromiso s s' \<Longrightarrow> job_inv m s \<Longrightarrow> 0 \<le> m \<Longrightarrow> (moves m)\<^sup>*\<^sup>* (phase_of s rid) (phase_of s' rid)"
  unfolding reaches_def
proof (induction rule: rtranclp_induct)
  case (step y z)
  then have "job_inv m y" using reaches_inv by (simp add: reaches_def)
  then have "moves m (phase_of y rid) (phase_of z rid)"
    using step_simulates [OF step(2)] step.prems by (simp add: simulates_def)
  then show ?case using step.IH step.prems by simp
qed simp

text \<open>Having left a claim: ended, or claimed again under a higher count.\<close>

definition past :: "int \<Rightarrow> phase \<Rightarrow> bool" where
  "past c p \<longleftrightarrow> (\<exists>st n. p = Ended st n) \<or> (p \<noteq> Absent \<and> c < reclaims_in p)"

lemma past_step: "phase_step m p q \<Longrightarrow> past c p \<Longrightarrow> past c q"
  by (induction rule: phase_step.induct) (auto simp: past_def)

lemma past_moves: "(moves m)\<^sup>*\<^sup>* p q \<Longrightarrow> past c p \<Longrightarrow> past c q"
  by (induction rule: rtranclp_induct) (auto simp: moves_def intro: past_step)

lemma leave_claim: "(moves m)\<^sup>*\<^sup>* (Running w c) q \<Longrightarrow> q = Running w c \<or> past c q"
proof (induction rule: rtranclp_induct)
  case (step y z)
  then show ?case
    by (auto simp: moves_def intro: past_step elim!: phase_from_running) (auto simp: past_def)
qed simp

lemma not_past_running: "\<not> past c (Running w c)"
  by (simp add: past_def)

lemma guard_phase:
  assumes "job_inv m s"
  shows "claim_guard rid w c s = Inr () \<longleftrightarrow> phase_of s rid = Running w c"
proof (cases "get_run s rid")
  case (Some r)
  then have "reclaims_of (jr_counts r) = Inr (reclaims_in (phase_of_run r))"
    using inv_run [OF assms Some] run_ok_reclaims by blast
  then show ?thesis
    by (auto simp: claim_guard_def phase_of_def Some phase_of_run_def split: if_splits)
qed (simp add: claim_guard_def phase_of_def)

lemma lease_phases:
  assumes "(moves m)\<^sup>*\<^sup>* (Running w c) p" and "(moves m)\<^sup>*\<^sup>* p (Running w c)"
  shows "p = Running w c"
  using leave_claim [OF assms(1)] past_moves [OF assms(2)] not_past_running by blast

subsection \<open>How often a run is claimed\<close>

definition is_running :: "phase \<Rightarrow> bool" where
  "is_running p \<longleftrightarrow> (case p of Running _ _ \<Rightarrow> True | _ \<Rightarrow> False)"

text \<open>\<open>claim_count m fromiso rid k s\<close>: \<open>s\<close> is reached from the empty table by steps of which \<open>k\<close>
  started the run \<open>rid\<close>.\<close>

inductive claim_count :: "int \<Rightarrow> (string \<Rightarrow> rat option) \<Rightarrow> string \<Rightarrow> nat \<Rightarrow> job_store \<Rightarrow> bool" for m fromiso rid where
  Zero: "claim_count m fromiso rid 0 empty_queue"
| Step: "claim_count m fromiso rid k s \<Longrightarrow> job_step m fromiso s s' \<Longrightarrow>
     claim_count m fromiso rid
       (k + (if is_running (phase_of s' rid) \<and> \<not> is_running (phase_of s rid) then 1 else 0)) s'"

fun claims_allowed :: "int \<Rightarrow> phase \<Rightarrow> int" where
  "claims_allowed m Absent = 0"
| "claims_allowed m (Queued n) = n"
| "claims_allowed m (Running _ n) = n + 1"
| "claims_allowed m (Ended _ _) = m + 1"

lemma phase_bounds:
  assumes "job_inv m s" and "0 \<le> m"
  shows "claims_allowed m (phase_of s rid) \<le> m + 1 \<and> 0 \<le> claims_allowed m (phase_of s rid)"
proof (cases "get_run s rid")
  case (Some r)
  then show ?thesis
    using run_ok_reclaims [of m r] inv_run [OF assms(1) Some] assms(2)
    by (auto simp: phase_of_def phase_of_run_def Let_def)
qed (simp add: phase_of_def assms(2))

lemma claims_step:
  "moves m p q \<Longrightarrow> int k \<le> claims_allowed m p \<Longrightarrow> claims_allowed m p \<le> m + 1 \<Longrightarrow>
     int (k + (if is_running q \<and> \<not> is_running p then 1 else 0)) \<le> claims_allowed m q"
  unfolding moves_def
proof (elim disjE)
  assume "phase_step m p q" "int k \<le> claims_allowed m p" "claims_allowed m p \<le> m + 1"
  then show ?thesis by cases (auto simp: is_running_def)
qed simp

lemma claim_count_bound:
  assumes "claim_count m fromiso rid k s" and "0 \<le> m"
  shows "job_inv m s \<and> int k \<le> claims_allowed m (phase_of s rid)"
  using assms(1)
proof (induction rule: claim_count.induct)
  case Zero
  then show ?case by (simp add: empty_inv) (simp add: phase_of_def get_run_def empty_queue_def)
next
  case (Step k s s')
  have sim: "simulates m s s'" using step_simulates [OF Step(2)] Step.IH assms(2) by blast
  have "claims_allowed m (phase_of s rid) \<le> m + 1" using phase_bounds Step.IH assms(2) by blast
  then have "int (k + (if is_running (phase_of s' rid) \<and> \<not> is_running (phase_of s rid) then 1 else 0)) \<le>
      claims_allowed m (phase_of s' rid)"
    using claims_step Step.IH sim unfolding simulates_def by blast
  with sim show ?case by (simp add: simulates_def)
qed

subsection \<open>Which run a claim takes\<close>

definition open_runs :: "string list \<Rightarrow> string \<Rightarrow> job_store \<Rightarrow> job_run set" where
  "open_runs kinds repo s = {r \<in> set (js_runs s). claimable kinds repo r \<and> \<not> jr_cancel_requested r}"

definition created_before :: "job_run \<Rightarrow> job_run \<Rightarrow> bool" where
  "created_before r q \<longleftrightarrow> (jr_created r, jr_id r) \<le> (jr_created q, jr_id q)"

lemma oldest_first:
  assumes "oldest kinds repo s = Some r" and "q \<in> set (js_runs s)" and "claimable kinds repo q"
  shows "created_before r q"
proof -
  let ?k = "\<lambda>r. (jr_created r, jr_id r)" and ?f = "filter (claimable kinds repo) (js_runs s)"
  obtain rs where rs: "sort_key ?k ?f = r # rs"
    using assms(1) by (auto simp: oldest_def split: list.splits)
  have "q \<in> set (sort_key ?k ?f)" using assms(2,3) by simp
  moreover have "sorted (map ?k (r # rs))" by (metis rs sorted_sort_key)
  ultimately show ?thesis by (auto simp: rs created_before_def)
qed

lemma oldest_None: "oldest kinds repo s = None \<Longrightarrow> q \<in> set (js_runs s) \<Longrightarrow> \<not> claimable kinds repo q"
proof -
  let ?k = "\<lambda>r. (jr_created r, jr_id r)" and ?f = "filter (claimable kinds repo) (js_runs s)"
  assume "oldest kinds repo s = None" and q: "q \<in> set (js_runs s)"
  then have "sort_key ?k ?f = []" by (auto simp: oldest_def split: list.splits)
  then have "set ?f = {}" by (metis empty_set set_sort)
  with q show ?thesis by auto
qed

lemma open_runs_cancelled:
  assumes "job_inv m s" and "run \<in> set (js_runs s)" and "jr_cancel_requested run"
  shows "open_runs kinds repo (put_run (cancelled run now) s) = open_runs kinds repo s"
proof -
  let ?f = "\<lambda>x. if jr_id x = jr_id (cancelled run now) then cancelled run now else x"
  have same: "x = run" if "x \<in> set (js_runs s)" "jr_id x = jr_id run" for x
    using get_run_of_member [OF assms(1) that(1)] get_run_of_member [OF assms(1,2)] unfolding that(2)
    by (metis option.inject)
  have not: "\<not> claimable kinds repo (cancelled run now)" by (simp add: claimable_def cancelled_def)
  have id: "jr_id (cancelled run now) = jr_id run" by (simp add: cancelled_def)
  have runs: "set (js_runs (put_run (cancelled run now) s)) = ?f ` set (js_runs s)"
    by (simp add: put_run_def)
  show ?thesis
  proof (intro subset_antisym subsetI)
    fix y assume "y \<in> open_runs kinds repo (put_run (cancelled run now) s)"
    then have y: "y \<in> ?f ` set (js_runs s)" "claimable kinds repo y" "\<not> jr_cancel_requested y"
      unfolding open_runs_def runs by simp_all
    then obtain x where "x \<in> set (js_runs s)" "y = ?f x" by blast
    then have "y = x \<or> y = cancelled run now" by presburger
    then have "y \<in> set (js_runs s)" using not y(2) \<open>x \<in> _\<close> by blast
    with y show "y \<in> open_runs kinds repo s" by (simp add: open_runs_def)
  next
    fix y assume "y \<in> open_runs kinds repo s"
    then have y: "y \<in> set (js_runs s)" "claimable kinds repo y" "\<not> jr_cancel_requested y"
      by (simp_all add: open_runs_def)
    then have "jr_id y \<noteq> jr_id run" using same [of y] assms(3) by blast
    then have "?f y = y" by (simp add: id)
    moreover have "?f y \<in> ?f ` set (js_runs s)" using y(1) by (rule imageI)
    ultimately have "y \<in> ?f ` set (js_runs s)" by (simp only:)
    with y show "y \<in> open_runs kinds repo (put_run (cancelled run now) s)"
      unfolding open_runs_def runs by simp
  qed
qed

lemma claim_loop_fifo:
  assumes "job_inv m s" and "w \<noteq> []" and "now \<noteq> []" and "0 \<le> m"
  shows "case fst (claim_loop w kinds repo now s) of
      None \<Rightarrow> open_runs kinds repo s = {}
    | Some x \<Rightarrow> \<exists>r\<in>open_runs kinds repo s. x = started_by w now r \<and>
        (\<forall>q\<in>open_runs kinds repo s. created_before r q) \<and>
        get_run (snd (claim_loop w kinds repo now s)) (jr_id r) = Some x"
  using assms
proof (induction w kinds repo now s rule: claim_loop.induct)
  case (1 w kinds repo now s)
  show ?case
  proof (cases "oldest kinds repo s")
    case None
    then show ?thesis using oldest_None [OF None] by (auto simp: claim_loop.simps open_runs_def)
  next
    case (Some run)
    note mem = oldest_in [OF Some]
    have g: "get_run s (jr_id run) = Some run" using get_run_of_member [OF 1(2)] mem by blast
    show ?thesis
    proof (cases "jr_cancel_requested run")
      case True
      have q: "jr_status run = STATUS_QUEUED" "run_ok m run"
        using mem inv_run [OF 1(2) g] by (auto simp: claimable_def)
      have "job_inv m (put_run (cancelled run now) s)"
        using put_inv [OF 1(2)] cancelled_queued [OF q(2) q(1) 1(4) 1(5)] by blast
      note IH = 1(1) [OF Some True this 1(3-5)]
      have o: "open_runs kinds repo (put_run (cancelled run now) s) = open_runs kinds repo s"
        using open_runs_cancelled [OF 1(2) _ True] mem by blast
      have eq: "claim_loop w kinds repo now s = claim_loop w kinds repo now (put_run (cancelled run now) s)"
        by (subst claim_loop.simps) (simp add: Some True)
      show ?thesis unfolding eq by (rule IH [unfolded o])
    next
      case False
      then have "run \<in> open_runs kinds repo s" using mem by (simp add: open_runs_def)
      moreover have "\<forall>q\<in>open_runs kinds repo s. created_before run q"
        using oldest_first [OF Some] by (simp add: open_runs_def)
      moreover have "get_run (put_run (started_by w now run) s) (jr_id run) = Some (started_by w now run)"
        using g by (simp add: get_put started_by_def)
      ultimately show ?thesis using Some False by (auto simp: claim_loop.simps Let_def)
    qed
  qed
qed

subsection \<open>A short history\<close>

text \<open>A run is enqueued, claimed by a worker and handed back by the sweep; every stamp is stale.\<close>

definition sample_job :: job_run where
  "sample_job = \<lparr>jr_id = ''a'', jr_repo = ''r'', jr_kind = ''replay'', jr_mode = ''sighted'', jr_status = [],
     jr_actor = [], jr_apparatus = [], jr_counts = [], jr_progress_done = 0, jr_progress_total = 0,
     jr_error = [], jr_cancel_requested = False, jr_worker_id = [], jr_heartbeat = [], jr_created = ''0'',
     jr_started = [], jr_finished = []\<rparr>"

definition q1 :: job_store where
  "q1 = \<lparr>js_runs = [sample_job\<lparr>jr_status := STATUS_QUEUED\<rparr>], js_events = []\<rparr>"

definition q2 :: job_store where
  "q2 = put_run (started_by ''w'' ''1'' (sample_job\<lparr>jr_status := STATUS_QUEUED\<rparr>)) q1"

definition no_stamp :: "string \<Rightarrow> rat option" where
  "no_stamp t = None"

lemma q1_step: "job_step 3 no_stamp empty_queue q1"
proof (rule job_step.Enqueue)
  show "enqueue [] [] sample_job empty_queue = Inr (sample_job\<lparr>jr_status := STATUS_QUEUED\<rparr>, q1)"
    by (simp add: enqueue_def stage_queued_def sample_job_def empty_queue_def get_run_def q1_def RUN_KINDS_def)
qed (simp add: sample_job_def)

lemma q1_claim:
  "claim_next ''w'' [] [] ''1'' q1 = Inr (Some (started_by ''w'' ''1'' (sample_job\<lparr>jr_status := STATUS_QUEUED\<rparr>)), q2)"
  by (simp add: claim_next_def claim_loop.simps oldest_def claimable_def q1_def q2_def sample_job_def Let_def)

lemma q2_step: "job_step 3 no_stamp q1 q2"
  by (rule job_step.Claim [OF q1_claim]) simp

lemma q2_reached: "reaches 3 no_stamp empty_queue q2"
  using q1_step q2_step by (simp add: reaches_def rtranclp.rtrancl_into_rtrancl)

lemma q2_phase: "phase_of q2 ''a'' = Running ''w'' 0"
  by (simp add: phase_of_def q2_def q1_def put_run_def get_run_def started_by_def sample_job_def phase_of_run_def
      reclaims_of_def)

lemma q2_guard: "claim_guard ''a'' ''w'' 0 q2 = Inr ()"
  using guard_phase [OF reaches_inv [OF q2_reached empty_inv]] q2_phase by simp

text \<open>The counter is only as safe as the counts a worker reports: counts that carry the key replace
  the queue's own value, and a claim the sweep took away is accepted again.\<close>

definition q3 :: job_store where
  "q3 = snd (projr (reclaim_stale 3 no_stamp 0 0 ''2'' q2))"

definition q4 :: job_store where
  "q4 = snd (projr (claim_next ''w'' [] [] ''3'' q3))"

definition q5 :: job_store where
  "q5 = projr (progress ''a'' 0 0 (Some [(RECLAIMS_KEY, PInt 0)]) ''w'' ''4'' q4)"

lemma q_runs:
  "q3 = \<lparr>js_runs = [sample_job\<lparr>jr_status := STATUS_QUEUED, jr_counts := [(RECLAIMS_KEY, PInt 1)]\<rparr>],
     js_events = [Reclaimed ''a'' ''r'' [] ''w'' None 1]\<rparr>"
  by (simp add: q3_def q2_def q1_def put_run_def started_by_def sample_job_def reclaim_stale_def reclaim_one_def
      reclaims_of_def age_s_def parse_ts_def no_stamp_def dict_set_def List.map_filter_def Let_def)

subsection \<open>Properties\<close>

text \<open>
  The table is always well formed. After any sequence of calls from the empty table, by any
  workers, the ids are distinct, every status is one of the five, a queued run has no worker and no
  stamp, a running run has a worker, a heartbeat and a start, an ended run has an end and no
  heartbeat, and the reclaim counter is a number within its limit.
\<close>

theorem queue_invariant:
  assumes "0 \<le> m" and "reaches m fromiso empty_queue s"
  shows "distinct (map jr_id (js_runs s)) \<and> list_all (run_ok m) (js_runs s)"
  using reaches_inv [OF assms(2) empty_inv assms(1)] by (simp add: job_inv_def)

lemma queue_invariant_witness: "distinct (map jr_id (js_runs q2)) \<and> list_all (run_ok 3) (js_runs q2)"
  using queue_invariant [OF _ q2_reached] by simp





text \<open>
  No run loops forever. In any history from the empty table a run is started at most
  \<open>max_reclaims + 1\<close> times.
\<close>

theorem claims_bounded:
  assumes "0 \<le> m" and "claim_count m fromiso rid k s"
  shows "int k \<le> m + 1"
  using claim_count_bound [OF assms(2,1)] phase_bounds [of m s rid] assms(1) by fastforce

lemma claims_bounded_witness: "\<exists>k. claim_count 3 no_stamp ''a'' k q2 \<and> 0 < k \<and> int k \<le> 4"
proof -
  let ?up = "\<lambda>s s'. if is_running (phase_of s' ''a'') \<and> \<not> is_running (phase_of s ''a'') then 1 else (0::nat)"
  have "claim_count 3 no_stamp ''a'' (0 + ?up empty_queue q1 + ?up q1 q2) q2"
    by (intro claim_count.Step [OF claim_count.Step [OF claim_count.Zero q1_step] q2_step])
  moreover have "phase_of q1 ''a'' = Queued 0"
    by (simp add: phase_of_def q1_def get_run_def sample_job_def phase_of_run_def reclaims_of_def)
  then have "?up q1 q2 = 1" by (simp add: q2_phase is_running_def)
  ultimately have "claim_count 3 no_stamp ''a'' (Suc (?up empty_queue q1)) q2" by simp
  from this claims_bounded [OF _ this] show ?thesis by auto
qed

text \<open>
  A claim is served in order and always returns. \<open>claim_next\<close> terminates; when a run matches that
  nobody asked to cancel it starts the first of them by creation time and id, under the claiming
  worker; it returns \<open>None\<close> only when no such run exists.
\<close>

theorem claim_next_fifo:
  assumes "0 \<le> m" and "reaches m fromiso empty_queue s" and "w \<noteq> []" and "now \<noteq> []"
  shows "\<exists>x s'. claim_next w kinds repo now s = Inr (x, s') \<and>
    (case x of None \<Rightarrow> open_runs kinds repo s = {}
     | Some y \<Rightarrow> \<exists>r\<in>open_runs kinds repo s. y = started_by w now r \<and>
         (\<forall>q\<in>open_runs kinds repo s. created_before r q) \<and> get_run s' (jr_id r) = Some y)"
proof -
  note f = claim_loop_fifo [OF reaches_inv [OF assms(2) empty_inv assms(1)] assms(3,4,1), of kinds repo]
  have "claim_next w kinds repo now s =
      Inr (fst (claim_loop w kinds repo now s), snd (claim_loop w kinds repo now s))"
    using assms(3) by (simp add: claim_next_def)
  with f show ?thesis by blast
qed

lemma claim_next_fifo_witness:
  "\<exists>x s'. claim_next ''w'' [] [] ''1'' q1 = Inr (x, s') \<and>
    (case x of None \<Rightarrow> open_runs [] [] q1 = {}
     | Some y \<Rightarrow> \<exists>r\<in>open_runs [] [] q1. y = started_by ''w'' ''1'' r \<and>
         (\<forall>q\<in>open_runs [] [] q1. created_before r q) \<and> get_run s' (jr_id r) = Some y)"
proof -
  have "reaches 3 no_stamp empty_queue q1" using q1_step by (simp add: reaches_def)
  from claim_next_fifo [OF _ this, of "''w''" "''1''" "[]" "[]"] show ?thesis by simp
qed

text \<open>
  Counts that carry the reclaim key undo the lease. A run is claimed, reclaimed and claimed back,
  and its first claim is refused; a progress report whose counts carry the counter then restores the
  old value, and rows of the first claim are accepted again.
\<close>

theorem reported_counter_reopens_claim:
  "claim_guard ''a'' ''w'' 0 q2 = Inr () \<and> claim_guard ''a'' ''w'' 0 q3 = Inl AttemptSettled \<and>
   claim_guard ''a'' ''w'' 0 q4 = Inl AttemptSettled \<and> claim_guard ''a'' ''w'' 0 q5 = Inr ()"
proof (intro conjI)
  show "claim_guard ''a'' ''w'' 0 q2 = Inr ()" by (rule q2_guard)
  show "claim_guard ''a'' ''w'' 0 q3 = Inl AttemptSettled"
    by (simp add: q_runs claim_guard_def get_run_def sample_job_def reclaims_of_def)
  have q4: "q4 = put_run (started_by ''w'' ''3'' (hd (js_runs q3))) q3"
    by (simp add: q4_def claim_next_def claim_loop.simps oldest_def claimable_def q_runs sample_job_def Let_def)
  show "claim_guard ''a'' ''w'' 0 q4 = Inl AttemptSettled"
    by (simp add: q4 q_runs put_run_def started_by_def claim_guard_def get_run_def sample_job_def reclaims_of_def)
  show "claim_guard ''a'' ''w'' 0 q5 = Inr ()"
    by (simp add: q5_def q4 q_runs put_run_def started_by_def claim_guard_def get_run_def sample_job_def
        reclaims_of_def progress_def get_owned_def with_counts_def merge_counts_def Let_def)
qed

end
