(* ===== verification/Look_Rule.thy ===== *)
theory Look_Rule
  imports Complex_Main Prelude
begin

section \<open>The look rule of a reading (\<open>crb/core/reading.py\<close>)\<close>

text \<open>
  How the outcomes of a reading's commits, in their seeded order, become a decision: the registered
  rules, the walk over the outcomes, and the dynamic programme that computes how often a rule
  delivers. A probability is an exact rational here; the code adds floats.
\<close>

subsection \<open>The rules\<close>

type_synonym looks = "(nat \<times> nat) list"

definition RULE_LOOK_V1 :: string where "RULE_LOOK_V1 = ''look.v1''"
definition RULE_LOOK_V1_STRICT :: string where "RULE_LOOK_V1_STRICT = ''look.v1-strict''"
definition RULE_LOOK_V1_LATE :: string where "RULE_LOOK_V1_LATE = ''look.v1-late''"

definition RULES :: "(string \<times> looks) list" where
  "RULES = [(RULE_LOOK_V1, [(20, 0), (30, 1), (40, 2)]),
     (RULE_LOOK_V1_STRICT, [(20, 0), (30, 0), (40, 1)]),
     (RULE_LOOK_V1_LATE, [(30, 0), (40, 1)])]"

definition NULL_RATE :: rat where "NULL_RATE = 80 / 100"
definition CELL_ERROR_BUDGET :: rat where "CELL_ERROR_BUDGET = 5 / 100"

definition rule_looks :: "string \<Rightarrow> looks result" where
  "rule_looks rule = (case map_of RULES rule of None \<Rightarrow> Inl (ValueError ''unknown look rule'') | Some l \<Rightarrow> Inr l)"

definition last_look :: "looks \<Rightarrow> nat" where
  "last_look l = Max (set (map fst l))"

definition last_misses :: "looks \<Rightarrow> nat" where
  "last_misses l = (case map_of l (last_look l) of Some m \<Rightarrow> m | None \<Rightarrow> 0)"

text \<open>\<open>n in looks and misses <= looks[n]\<close>\<close>

definition look_met :: "looks \<Rightarrow> nat \<Rightarrow> nat \<Rightarrow> bool" where
  "look_met l n misses \<longleftrightarrow> (case map_of l n of Some m \<Rightarrow> misses \<le> m | None \<Rightarrow> False)"

subsection \<open>How often a rule delivers\<close>

text \<open>The weights are generic, so that the same loop can be evaluated on whole numbers.\<close>

type_synonym 'a weights = "(nat \<times> 'a) list"

fun add_weight :: "'a::comm_ring_1 weights \<Rightarrow> nat \<Rightarrow> 'a \<Rightarrow> 'a weights" where
  "add_weight [] m pr = [(m, pr)]"
| "add_weight ((m', q) # ws) m pr = (if m' = m then (m', q + pr) # ws else (m', q) # add_weight ws m pr)"

text \<open>One draw from one state, clean or a miss, then one commit over all states.\<close>

definition draw :: "looks \<Rightarrow> nat \<Rightarrow> nat \<Rightarrow> 'a::comm_ring_1 \<Rightarrow> 'a weights \<times> 'a \<Rightarrow> 'a weights \<times> 'a" where
  "draw l n m2 pr2 acc = (case acc of (nxt, delivered) \<Rightarrow>
     if m2 > last_misses l then (nxt, delivered)
     else if look_met l n m2 then (nxt, delivered + pr2)
     else (add_weight nxt m2 pr2, delivered))"

fun draw_all :: "looks \<Rightarrow> nat \<Rightarrow> 'a::comm_ring_1 \<Rightarrow> 'a \<Rightarrow> 'a weights \<Rightarrow> 'a weights \<times> 'a \<Rightarrow> 'a weights \<times> 'a" where
  "draw_all l n p q [] acc = acc"
| "draw_all l n p q ((misses, pr) # states) acc =
     draw_all l n p q states (draw l n (misses + 1) (pr * q) (draw l n misses (pr * p) acc))"

fun dp_loop :: "looks \<Rightarrow> rat \<Rightarrow> nat \<Rightarrow> nat \<Rightarrow> rat weights \<Rightarrow> rat \<Rightarrow> rat" where
  "dp_loop l p n 0 states delivered = delivered"
| "dp_loop l p n (Suc r) states delivered =
     (case draw_all l n p (1 - p) states ([], delivered) of (nxt, delivered) \<Rightarrow> dp_loop l p (n + 1) r nxt delivered)"

definition p_deliver :: "string \<Rightarrow> rat \<Rightarrow> nat option \<Rightarrow> rat result" where
  "p_deliver rule p pool = bind_result (rule_looks rule) (\<lambda>l.
     let n_max = (case pool of Some k \<Rightarrow> k | None \<Rightarrow> last_look l) in Inr (dp_loop l p 1 n_max [(0, 1)] 0))"

definition rule_spend :: "string \<Rightarrow> rat result" where
  "rule_spend rule = p_deliver rule NULL_RATE None"

subsection \<open>The walk\<close>

definition STATE_DELIVER :: string where "STATE_DELIVER = ''deliver''"
definition STATE_INSUFFICIENT :: string where "STATE_INSUFFICIENT = ''insufficient''"
definition STATE_UNDECIDED :: string where "STATE_UNDECIDED = ''undecided''"
definition STATE_LOOK_PENDING :: string where "STATE_LOOK_PENDING = ''look_pending''"
definition STATE_DESCRIPTIVE :: string where "STATE_DESCRIPTIVE = ''descriptive''"
definition STATE_STOPPED :: string where "STATE_STOPPED = ''stopped''"
definition STATE_WAITING :: string where "STATE_WAITING = ''waiting''"

record look =
  lk_state :: string
  lk_counted :: nat
  lk_clean :: nat
  lk_misses :: nat
  lk_next_look :: "nat option"
  lk_needed :: nat
  lk_decided_at :: "nat option"

datatype walked = Decided look | Stopped nat nat nat

fun walk :: "looks \<Rightarrow> bool option list \<Rightarrow> nat \<Rightarrow> nat \<Rightarrow> nat \<Rightarrow> walked" where
  "walk l [] k clean misses = Stopped k clean misses"
| "walk l (None # os) k clean misses = Stopped k clean misses"
| "walk l (Some c # os) k clean misses =
     (let k = k + 1; clean = (if c then clean + 1 else clean); misses = (if c then misses else misses + 1) in
      if misses > last_misses l then Decided \<lparr>lk_state = STATE_INSUFFICIENT, lk_counted = k, lk_clean = clean,
        lk_misses = misses, lk_next_look = None, lk_needed = 0, lk_decided_at = Some k\<rparr>
      else if look_met l k misses then Decided \<lparr>lk_state = STATE_DELIVER, lk_counted = k, lk_clean = clean,
        lk_misses = misses, lk_next_look = None, lk_needed = 0, lk_decided_at = Some k\<rparr>
      else walk l os k clean misses)"

definition pending_among :: "nat \<Rightarrow> bool option list \<Rightarrow> nat" where
  "pending_among n outcomes = count_if (\<lambda>c. c = None) (take n outcomes)"

definition look_state :: "bool option list \<Rightarrow> string \<Rightarrow> bool \<Rightarrow> look result" where
  "look_state outcomes rule open_pool = bind_result (rule_looks rule) (\<lambda>l.
     case walk l outcomes 0 0 0 of
       Decided st \<Rightarrow> Inr st
     | Stopped k clean misses \<Rightarrow>
         (case filter (\<lambda>n. n > k \<and> look_met l n misses) (sort (map fst l)) of
            [] \<Rightarrow> Inl (OtherError ''IndexError'')
          | nxt # _ \<Rightarrow>
              let st = (\<lambda>state needed. \<lparr>lk_state = state, lk_counted = k, lk_clean = clean, lk_misses = misses,
                          lk_next_look = Some nxt, lk_needed = needed, lk_decided_at = None\<rparr>)
              in if open_pool then
                   Inr (st STATE_LOOK_PENDING (pending_among nxt outcomes + (nxt - length outcomes)))
                 else if length outcomes < nxt then Inr (st STATE_UNDECIDED (nxt - length outcomes))
                 else Inr (st STATE_LOOK_PENDING (pending_among nxt outcomes))))"

end
