(* ===== verification/Reading.thy ===== *)
theory Reading
  imports Cell_Stats Look_Rule
begin

section \<open>A registered reading and its arms (\<open>crb/core/reading.py\<close>)\<close>

text \<open>
  The reading record, which rows an arm reads, the three ways an arm is read (first observed
  attempt, reserved attempt, forward tickets), the descriptive tally and the loop pair.

  Parameter: \<open>fromiso\<close> is what \<open>datetime.fromisoformat\<close> reads, as an instant, a naive stamp taken as
  UTC, and \<open>None\<close> where it raises \<open>ValueError\<close>. A clock value is a rational. Fixed counts and
  \<open>max_reruns\<close> are \<open>nat\<close>: registration refuses the others.
\<close>

subsection \<open>Names\<close>

definition RUNG_R1 :: string where "RUNG_R1 = ''r1''"
definition ATTEMPT_RULE_LEGACY :: string where "ATTEMPT_RULE_LEGACY = ''first_observed.v0''"
definition ATTEMPT_RULE_RESERVED :: string where "ATTEMPT_RULE_RESERVED = ''reserved.v1''"
definition POOL_RULE_CALIBRATION :: string where "POOL_RULE_CALIBRATION = ''calibration-builds''"
definition LABEL_RESERVATION :: string where "LABEL_RESERVATION = ''reservation''"
definition LABEL_TREATMENT :: string where "LABEL_TREATMENT = ''treatment''"
definition LABEL_CLAIM :: string where "LABEL_CLAIM = ''claim''"
definition LABEL_ACCEPTANCE_ID :: string where "LABEL_ACCEPTANCE_ID = ''acceptance_id''"
definition LABEL_ITEM_ID :: string where "LABEL_ITEM_ID = ''item_id''"
definition RESULT_ERROR :: string where "RESULT_ERROR = ''error''"

definition LEFT_SAME_CHANGE :: string where "LEFT_SAME_CHANGE = ''same_change''"
definition LEFT_HARNESS :: string where "LEFT_HARNESS = ''harness''"
definition LEFT_GOLD :: string where "LEFT_GOLD = ''gold_not_clean''"
definition LEFT_LINT_DISABLED :: string where "LEFT_LINT_DISABLED = ''lint_disabled''"
definition LEFT_UNOBSERVED :: string where "LEFT_UNOBSERVED = ''unobserved''"
definition LEFT_OTHER_CELL :: string where "LEFT_OTHER_CELL = ''other_cell''"
definition LEFT_HELD_OUT_ERROR :: string where "LEFT_HELD_OUT_ERROR = ''held_out_error''"
definition LEFT_NOT_GRADED :: string where "LEFT_NOT_GRADED = ''not_graded''"
definition REASON_SCOPE_FAULT :: string where "REASON_SCOPE_FAULT = ''scope_fault''"
definition REASON_PENDING :: string where "REASON_PENDING = ''pending''"
definition SCOPE_UNSEALED :: string where "SCOPE_UNSEALED = ''unsealed''"
definition SCOPE_CHECKS_ARM :: string where "SCOPE_CHECKS_ARM = ''checks_arm''"

subsection \<open>The record\<close>

record reservation =
  rs_arm :: string
  rs_task_id :: string
  rs_run_id :: string
  rs_event_id :: string
  rs_event_seq_id :: int
  rs_claim :: nat
  rs_treatment :: string
  rs_settled :: bool

type_synonym reservations = "((string \<times> string) \<times> reservation) list"

record reading =
  rd_repo :: string
  rd_cell :: dict
  rd_apparatus :: string
  rd_taxonomy :: string
  rd_posture_class :: string
  rd_checks_arm :: string
  rd_hierarchy :: "string list"
  rd_rule :: string
  rd_spend :: rat
  rd_pool :: "string list"
  rd_pool_sha256 :: string
  rd_registered_at :: string
  rd_actor :: string
  rd_budget :: rat
  rd_descriptive :: "(string \<times> nat) list"
  rd_author_model :: string
  rd_changes :: dict
  rd_max_reruns :: nat
  rd_reading_id :: string
  rd_pool_rule :: string
  rd_org_class :: string
  rd_promotes :: string
  rd_budget_cell :: string
  rd_hypothesis :: string
  rd_smallest_effect :: "rat option"
  rd_campaign_id :: string
  rd_attempt_rule :: string
  rd_budget_profile :: string
  rd_lint_digest :: string
  rd_pool_posture_id :: string
  rd_pool_qualifications :: dict
  rd_enrolled :: dict
  rd_admitted :: "string list option"
  rd_registered_event_id :: int
  rd_reservations :: "reservations option"
  rd_pool_drift :: "dict list"

definition admissions_unread :: "reading \<Rightarrow> bool" where
  "admissions_unread rd \<longleftrightarrow> rd_campaign_id rd \<noteq> [] \<and> rd_admitted rd = None"

definition reserved :: "reading \<Rightarrow> bool" where
  "reserved rd \<longleftrightarrow> rd_attempt_rule rd = ATTEMPT_RULE_RESERVED"

definition reservations_unread :: "reading \<Rightarrow> bool" where
  "reservations_unread rd \<longleftrightarrow> reserved rd \<and> (rd_reservations rd = None \<or> rd_registered_event_id rd \<le> 0)"

definition prospective :: "reading \<Rightarrow> bool" where
  "prospective rd \<longleftrightarrow> rd_pool_rule rd = POOL_RULE_CALIBRATION"

definition reading_arms :: "reading \<Rightarrow> string list" where
  "reading_arms rd = rd_hierarchy rd @ map fst (rd_descriptive rd)"

text \<open>\<open>ts.strip().replace("Z", "+00:00")\<close>, then \<open>fromisoformat\<close>.\<close>

definition replace_z :: "string \<Rightarrow> string" where
  "replace_z s = concat (map (\<lambda>c. if c = CHR ''Z'' then ''+00:00'' else [c]) s)"

type_synonym iso_reader = "string \<Rightarrow> rat option"

definition stamp_of :: "iso_reader \<Rightarrow> string \<Rightarrow> rat option" where
  "stamp_of fromiso ts = fromiso (replace_z (py_strip ts))"

text \<open>\<open>registered is not None and created is not None and created > registered\<close>.\<close>

definition after_registration :: "iso_reader \<Rightarrow> reading \<Rightarrow> string \<Rightarrow> bool" where
  "after_registration fromiso rd created =
     (case (stamp_of fromiso (rd_registered_at rd), stamp_of fromiso created) of
        (Some registered, Some c) \<Rightarrow> c > registered | _ \<Rightarrow> False)"

definition change_name :: "reading \<Rightarrow> string \<Rightarrow> string" where
  "change_name rd commit = or_else (dget (rd_changes rd) commit []) commit"

definition reservation_unit :: "grade_row \<Rightarrow> string" where
  "reservation_unit row = (if row_process_step row = PROCESS_FACTORY then label_of row LABEL_ITEM_ID
     else row_task_id row)"

definition row_unit :: "reading \<Rightarrow> grade_row \<Rightarrow> string" where
  "row_unit rd row = (if prospective rd then label_of row LABEL_ITEM_ID else row_task_id row)"

subsection \<open>Enrolment of one arm\<close>

definition descriptive_count :: "reading \<Rightarrow> string \<Rightarrow> nat \<Rightarrow> nat" where
  "descriptive_count rd context_arm limit =
     (if limit \<noteq> 0 then limit else if context_arm \<in> set (rd_hierarchy rd) then 0
      else case map_of (rev (rd_descriptive rd)) context_arm of Some n \<Rightarrow> n | None \<Rightarrow> 0)"

fun first_of_change :: "(string \<Rightarrow> string) \<Rightarrow> string list \<Rightarrow> string list \<Rightarrow> string list" where
  "first_of_change change [] seen = []"
| "first_of_change change (commit # pool) seen =
     (if change commit \<in> set seen then first_of_change change pool seen
      else commit # first_of_change change pool (change commit # seen))"

definition enrolled_upto :: "reading \<Rightarrow> string \<Rightarrow> nat \<Rightarrow> string list" where
  "enrolled_upto rd context_arm limit =
     (if context_arm \<notin> set (reading_arms rd) then []
      else let out = first_of_change (change_name rd) (rd_pool rd) [];
               n = descriptive_count rd context_arm limit
           in if n \<noteq> 0 then take n out else out)"

definition enrolled :: "reading \<Rightarrow> string \<Rightarrow> string list" where
  "enrolled rd context_arm = enrolled_upto rd context_arm 0"

subsection \<open>Which rows an arm reads\<close>

record commit_reading =
  cr_commit :: string
  cr_change :: string
  cr_outcome :: "bool option"
  cr_left :: string
  cr_row_hash :: string
  cr_reason :: string
  cr_scope :: string

definition CommitReading :: "string \<Rightarrow> string \<Rightarrow> bool option \<Rightarrow> string \<Rightarrow> string \<Rightarrow> commit_reading" where
  "CommitReading commit change outcome left row_hash = \<lparr>cr_commit = commit, cr_change = change,
     cr_outcome = outcome, cr_left = left, cr_row_hash = row_hash, cr_reason = [], cr_scope = []\<rparr>"

record arm_read =
  ar_arm :: string
  ar_look :: look
  ar_commits :: "commit_reading list"
  ar_descriptive :: bool
  ar_stopped_by :: string
  ar_waiting :: bool
  ar_limit :: nat
  ar_scope_faults :: "string list"
  ar_unsealed_dropped :: nat
  ar_duplicate_commits :: nat

definition arm_state :: "arm_read \<Rightarrow> string" where
  "arm_state a = (if ar_stopped_by a \<noteq> [] then (if ar_waiting a then STATE_WAITING else STATE_STOPPED)
     else if ar_scope_faults a \<noteq> [] then STATE_UNDECIDED
     else if ar_descriptive a then STATE_DESCRIPTIVE else lk_state (ar_look a))"

definition kept_commits :: "arm_read \<Rightarrow> commit_reading list" where
  "kept_commits a = filter (\<lambda>c. cr_left c = []) (ar_commits a)"

definition counted_commits :: "arm_read \<Rightarrow> string list" where
  "counted_commits a = (if ar_limit a \<noteq> 0
     then map cr_commit (filter (\<lambda>c. cr_outcome c \<noteq> None) (take (ar_limit a) (kept_commits a)))
     else map cr_commit (take (lk_counted (ar_look a)) (kept_commits a)))"

definition admitted_run :: "reading \<Rightarrow> grade_row \<Rightarrow> bool" where
  "admitted_run rd row \<longleftrightarrow> rd_campaign_id rd = [] \<or>
     (case rd_admitted rd of None \<Rightarrow> False | Some runs \<Rightarrow> row_run_id row \<in> set runs)"

definition is_rung_r1 :: "grade_row \<Rightarrow> bool" where
  "is_rung_r1 row \<longleftrightarrow> py_lower (py_strip (row_trial row)) = RUNG_R1"

definition cell_dict :: "cell_key \<Rightarrow> dict" where
  "cell_dict k = [(''process_step'', ck_process_step k), (''capability_class'', ck_capability_class k),
     (''size'', ck_size k), (''language'', ck_language k), (''builder'', ck_builder k),
     (''model'', ck_model k), (''provider'', ck_provider k)]"

text \<open>Two dictionaries are equal when they hold the same keys with the same values.\<close>

definition same_dict :: "dict \<Rightarrow> dict \<Rightarrow> bool" where
  "same_dict a b \<longleftrightarrow> list_all (\<lambda>(k, _). map_of a k = map_of b k) (a @ b)"

definition scope_miss :: "iso_reader \<Rightarrow> reading \<Rightarrow> string \<Rightarrow> grade_row \<Rightarrow> string result" where
  "scope_miss fromiso rd context_arm row =
     (if row_imported row then Inr ''imported''
      else if row_repo row \<noteq> rd_repo rd \<or> row_context_arm row \<noteq> context_arm \<or>
        row_apparatus_version row \<noteq> rd_apparatus rd \<or> row_taxonomy row \<noteq> rd_taxonomy rd \<or>
        \<not> same_dict (cell_dict (row_cell row)) (rd_cell rd) \<or> \<not> is_rung_r1 row
      then Inr ''other_reading''
      else if \<not> after_registration fromiso rd (row_created row) then Inr ''before_registration''
      else bind_result (parse_arm context_arm) (\<lambda>a.
        let forward = prospective_only a in
        Inr (if forward \<and> \<not> held_out_graded (row_labels row) then ''not_held_out''
          else if \<not> forward \<and> row_posture_class row \<noteq> rd_posture_class rd then ''posture''
          else if row_checks_arm row \<noteq> rd_checks_arm rd then SCOPE_CHECKS_ARM
          else if forward \<or> row_sealed row then [] else SCOPE_UNSEALED)))"

definition in_scope :: "iso_reader \<Rightarrow> reading \<Rightarrow> string \<Rightarrow> grade_row \<Rightarrow> bool result" where
  "in_scope fromiso rd context_arm row = bind_result (scope_miss fromiso rd context_arm row) (\<lambda>miss. Inr (miss = []))"

definition forward_attempt :: "iso_reader \<Rightarrow> reading \<Rightarrow> grade_row \<Rightarrow> bool" where
  "forward_attempt fromiso rd row \<longleftrightarrow> \<not> row_imported row \<and> row_repo row = rd_repo rd \<and>
     row_process_step row = PROCESS_FACTORY \<and> is_rung_r1 row \<and> after_registration fromiso rd (row_created row)"

definition NOT_COUNTED :: string where "NOT_COUNTED = ''not_counted''"

definition forward_miss :: "iso_reader \<Rightarrow> reading \<Rightarrow> string \<Rightarrow> grade_row \<Rightarrow> string" where
  "forward_miss fromiso rd context_arm row =
     (if row_imported row \<or> row_repo row \<noteq> rd_repo rd \<or> row_process_step row \<noteq> PROCESS_FACTORY \<or>
        row_context_arm row \<noteq> context_arm \<or> row_apparatus_version row \<noteq> rd_apparatus rd \<or>
        row_taxonomy row \<noteq> rd_taxonomy rd \<or> \<not> is_rung_r1 row \<or> \<not> held_out_graded (row_labels row)
      then NOT_COUNTED
      else if \<not> after_registration fromiso rd (row_created row) then NOT_COUNTED
      else if row_checks_arm row \<noteq> rd_checks_arm rd then SCOPE_CHECKS_ARM else [])"

definition counts_forward :: "iso_reader \<Rightarrow> reading \<Rightarrow> string \<Rightarrow> grade_row \<Rightarrow> bool" where
  "counts_forward fromiso rd context_arm row \<longleftrightarrow> forward_miss fromiso rd context_arm row = []"

text \<open>\<open>any(getattr(r, f) != reading.cell.get(f, "") for f in ("builder", "model", "provider"))\<close>.\<close>

definition other_builder :: "reading \<Rightarrow> grade_row \<Rightarrow> bool" where
  "other_builder rd row \<longleftrightarrow> row_builder row \<noteq> dget (rd_cell rd) ''builder'' [] \<or>
     row_model row \<noteq> dget (rd_cell rd) ''model'' [] \<or> row_provider row \<noteq> dget (rd_cell rd) ''provider'' []"

subsection \<open>The reserved attempt\<close>

text \<open>\<open>str(n)\<close> of a claim number.\<close>

fun str_of_nat :: "nat \<Rightarrow> string" where
  "str_of_nat n = (if n < 10 then [char_of (48 + n)] else str_of_nat (n div 10) @ [char_of (48 + n mod 10)])"

declare str_of_nat.simps [simp del]

definition reserved_candidate :: "reading \<Rightarrow> reservation \<Rightarrow> grade_row \<Rightarrow> bool" where
  "reserved_candidate rd res r \<longleftrightarrow> \<not> row_imported r \<and> row_run_id r = rs_run_id res \<and>
     row_unit rd r = rs_task_id res \<and> is_rung_r1 r \<and> rs_event_id res \<noteq> [] \<and>
     label_of r LABEL_RESERVATION = rs_event_id res \<and> label_of r LABEL_CLAIM = str_of_nat (rs_claim res)"

definition reserved_candidates :: "reading \<Rightarrow> reservation \<Rightarrow> grade_row list \<Rightarrow> grade_row list" where
  "reserved_candidates rd res rows = filter (reserved_candidate rd res) rows"

type_synonym verdict = "bool option \<times> string \<times> string"

definition enrolled_record :: "reading \<Rightarrow> string \<Rightarrow> string" where
  "enrolled_record rd item = dget (rev (rd_enrolled rd)) item []"

text \<open>The checks on the one row, in the code's order; \<open>None\<close> when all hold.\<close>

definition reserved_checks :: "reading \<Rightarrow> reservation \<Rightarrow> grade_row \<Rightarrow> (bool \<times> string) list" where
  "reserved_checks rd res r =
     [(rs_event_seq_id res > rd_registered_event_id rd, ''before_registration''),
      (row_failure_kind r \<noteq> FAILURE_HARNESS, ''harness''),
      (row_failure_kind r \<noteq> FAILURE_OUTAGE, ''outage''),
      (row_gold_clean r \<noteq> Some False, ''gold_red''),
      (\<not> lint_could_change r, ''lint_disabled''),
      (rs_treatment res \<noteq> [] \<and> label_of r LABEL_TREATMENT = rs_treatment res, ''treatment_mismatch''),
      (\<not> row_disqualified r, ''disqualified''),
      (row_clean r, ''miss'')]"

definition checked_verdict :: "reading \<Rightarrow> reservation \<Rightarrow> grade_row \<Rightarrow> verdict" where
  "checked_verdict rd res r =
     (case find (\<lambda>(holds, _). \<not> holds) (reserved_checks rd res r) of
        Some (_, reason) \<Rightarrow> (Some False, reason, [])
      | None \<Rightarrow>
          if prospective rd \<and> held_out_result (row_labels r) \<noteq> RESULT_PASS then (Some False, ''held_out'', [])
          else if prospective rd \<and> other_builder rd r then (Some False, LEFT_OTHER_CELL, [])
          else (Some True, [], []))"

text \<open>The one row the attempt wrote.\<close>

definition row_verdict ::
    "iso_reader \<Rightarrow> reading \<Rightarrow> string \<Rightarrow> reservation \<Rightarrow> grade_row \<Rightarrow> verdict result" where
  "row_verdict fromiso rd context_arm res r =
     (if \<not> admitted_run rd r then Inr (Some False, ''not_admitted'', [])
      else if prospective rd then
        Inr (if label_of r LABEL_ACCEPTANCE_ID \<noteq> enrolled_record rd (rs_task_id res)
          then (Some False, LEFT_NOT_GRADED, [])
          else let miss = forward_miss fromiso rd context_arm r in
            if miss = [] then checked_verdict rd res r
            else if miss = SCOPE_CHECKS_ARM then (None, REASON_SCOPE_FAULT, miss)
            else (Some False, LEFT_NOT_GRADED, []))
      else bind_result (scope_miss fromiso rd context_arm r) (\<lambda>miss.
        Inr (if miss = [] then checked_verdict rd res r
          else if miss \<in> {SCOPE_UNSEALED, SCOPE_CHECKS_ARM} then (None, REASON_SCOPE_FAULT, miss)
          else (Some False, ''out_of_scope'', []))))"

definition reserved_verdict ::
    "iso_reader \<Rightarrow> reading \<Rightarrow> string \<Rightarrow> reservation option \<Rightarrow> grade_row list \<Rightarrow> verdict result" where
  "reserved_verdict fromiso rd context_arm res rows =
     (case res of None \<Rightarrow> Inr (None, REASON_PENDING, [])
      | Some res \<Rightarrow>
        if reservations_unread rd \<or> admissions_unread rd then Inr (None, REASON_PENDING, [])
        else case reserved_candidates rd res rows of
          [] \<Rightarrow> Inr (if rs_settled res then (Some False, ''unobserved'', []) else (None, REASON_PENDING, []))
        | [r] \<Rightarrow> row_verdict fromiso rd context_arm res r
        | _ \<Rightarrow> Inr (Some False, ''duplicate'', []))"

definition arm_attempt :: "iso_reader \<Rightarrow> reading \<Rightarrow> string \<Rightarrow> grade_row \<Rightarrow> bool result" where
  "arm_attempt fromiso rd context_arm row =
     (if \<not> admitted_run rd row then Inr False
      else if prospective rd then Inr (forward_attempt fromiso rd row)
      else in_scope fromiso rd context_arm row)"

definition descriptive_look :: "bool option list \<Rightarrow> nat \<Rightarrow> look" where
  "descriptive_look outcomes limit =
     (let resolved = filter (\<lambda>c. c \<noteq> None) outcomes; clean = count_if (\<lambda>c. c = Some True) resolved;
          pending = count_if (\<lambda>c. c = None) outcomes + (limit - length outcomes)
      in \<lparr>lk_state = STATE_DESCRIPTIVE, lk_counted = length resolved, lk_clean = clean,
          lk_misses = length resolved - clean, lk_next_look = Some limit, lk_needed = pending,
          lk_decided_at = None\<rparr>)"

text \<open>A dictionary of lists, built with \<open>setdefault(k, []).append(v)\<close>, read with \<open>get(k, [])\<close>.\<close>

definition group_get :: "('k, 'v) groups \<Rightarrow> 'k \<Rightarrow> 'v list" where
  "group_get g k = (case map_of g k of None \<Rightarrow> [] | Some vs \<Rightarrow> vs)"

text \<open>The filter of a comprehension whose condition may raise.\<close>

definition filter_result :: "('a \<Rightarrow> bool result) \<Rightarrow> 'a list \<Rightarrow> 'a list result" where
  "filter_result P xs =
     bind_result (collect (\<lambda>x. bind_result (P x) (\<lambda>b. Inr (b, x))) xs) (\<lambda>bs. Inr (map snd (filter fst bs)))"

type_synonym unit_rows = "(string, grade_row) groups"

text \<open>One enrolled commit: its reading, and how many of its attempts the arm did not read. The row
  objects the code compares by identity are compared by value: a copy of the reserved row is a
  candidate too.\<close>

definition reserved_commit :: "iso_reader \<Rightarrow> reading \<Rightarrow> string \<Rightarrow> reservations \<Rightarrow> unit_rows \<Rightarrow> unit_rows \<Rightarrow>
    string \<Rightarrow> (commit_reading \<times> nat) result" where
  "reserved_commit fromiso rd context_arm reservations stamped attempts commit =
     (let res = map_of reservations (context_arm, commit);
          mine = (case res of Some r \<Rightarrow> group_get stamped (rs_event_id r) | None \<Rightarrow> []);
          found = (case res of Some r \<Rightarrow> reserved_candidates rd r mine | None \<Rightarrow> [])
      in bind_result (reserved_verdict fromiso rd context_arm res mine) (\<lambda>(outcome, reason, scope).
        let decided = (reason \<noteq> REASON_PENDING);
            unread = filter (\<lambda>r. r \<notin> set found) (group_get attempts commit)
        in Inr (\<lparr>cr_commit = commit, cr_change = change_name rd commit, cr_outcome = outcome, cr_left = [],
              cr_row_hash = (case found of [r] \<Rightarrow> if decided then row_row_hash r else [] | _ \<Rightarrow> []),
              cr_reason = reason, cr_scope = scope\<rparr>,
            if decided then length unread else 0)))"

definition rd_reservation_list :: "reading \<Rightarrow> reservations" where
  "rd_reservation_list rd = (case rd_reservations rd of Some r \<Rightarrow> r | None \<Rightarrow> [])"

definition stamped_rows :: "reservations \<Rightarrow> grade_row list \<Rightarrow> unit_rows" where
  "stamped_rows reservations rows =
     (let events = filter (\<lambda>e. e \<noteq> []) (map (rs_event_id \<circ> snd) reservations) in
      group_rows (\<lambda>r. label_of r LABEL_RESERVATION) (filter (\<lambda>r. label_of r LABEL_RESERVATION \<in> set events) rows))"

definition arm_reserved :: "iso_reader \<Rightarrow> reading \<Rightarrow> string \<Rightarrow> grade_row list \<Rightarrow> nat \<Rightarrow> arm_read result" where
  "arm_reserved fromiso rd context_arm rows limit =
     (let reservations = rd_reservation_list rd; stamped = stamped_rows reservations rows;
          units = enrolled_upto rd context_arm limit
      in bind_result (filter_result (arm_attempt fromiso rd context_arm)
            (filter (\<lambda>r. row_unit rd r \<in> set units) rows)) (\<lambda>tried.
         bind_result (collect (reserved_commit fromiso rd context_arm reservations stamped
            (group_rows (row_unit rd) tried)) units) (\<lambda>read.
         let out = map fst read; outcomes = map cr_outcome out; n = descriptive_count rd context_arm limit
         in bind_result (if n \<noteq> 0 then Inr (descriptive_look outcomes n)
                else look_state outcomes (rd_rule rd) (prospective rd)) (\<lambda>look.
            Inr \<lparr>ar_arm = context_arm, ar_look = look, ar_commits = out, ar_descriptive = (n \<noteq> 0),
              ar_stopped_by = [], ar_waiting = False, ar_limit = n,
              ar_scope_faults = map cr_commit (filter (\<lambda>c. cr_reason c = REASON_SCOPE_FAULT) out),
              ar_unsealed_dropped = count_if (\<lambda>c. cr_scope c = SCOPE_UNSEALED) out,
              ar_duplicate_commits = sum_list (map snd read)\<rparr>))))"

subsection \<open>A forward reading's arm\<close>

fun forward_first :: "iso_reader \<Rightarrow> reading \<Rightarrow> grade_row list \<Rightarrow> (string \<times> grade_row) list \<Rightarrow> nat \<Rightarrow>
    (string \<times> grade_row) list \<times> nat" where
  "forward_first fromiso rd [] firsts duplicates = (firsts, duplicates)"
| "forward_first fromiso rd (r # rows) firsts duplicates =
     (let item = label_of r LABEL_ITEM_ID in
      if item \<in> set (rd_pool rd) \<and> forward_attempt fromiso rd r \<and> admitted_run rd r then
        if map_of firsts item \<noteq> None then forward_first fromiso rd rows firsts (duplicates + 1)
        else forward_first fromiso rd rows (firsts @ [(item, r)]) duplicates
      else forward_first fromiso rd rows firsts duplicates)"

definition forward_ticket :: "iso_reader \<Rightarrow> reading \<Rightarrow> string \<Rightarrow> (string \<times> grade_row) list \<Rightarrow> string \<Rightarrow> commit_reading" where
  "forward_ticket fromiso rd context_arm firsts item =
     (case map_of firsts item of None \<Rightarrow> CommitReading item item None [] []
      | Some r \<Rightarrow>
        let out = (\<lambda>outcome left. CommitReading item item outcome left (row_row_hash r)) in
        if \<not> counts_forward fromiso rd context_arm r \<or>
          label_of r LABEL_ACCEPTANCE_ID \<noteq> enrolled_record rd item then out None LEFT_NOT_GRADED
        else if other_builder rd r then out None LEFT_OTHER_CELL
        else if row_failure_kind r = FAILURE_HARNESS then out None LEFT_HARNESS
        else if row_failure_kind r = FAILURE_OUTAGE then out None LEFT_UNOBSERVED
        else if held_out_result (row_labels r) = RESULT_ERROR then out None LEFT_HELD_OUT_ERROR
        else if lint_could_change r \<and> held_out_result (row_labels r) = RESULT_PASS
        then out None LEFT_LINT_DISABLED
        else out (Some (row_clean r \<and> \<not> row_disqualified r \<and>
          held_out_result (row_labels r) = RESULT_PASS)) [])"

definition outcomes_kept :: "commit_reading list \<Rightarrow> bool option list" where
  "outcomes_kept out = map cr_outcome (filter (\<lambda>c. cr_left c = []) out)"

definition arm_forward :: "iso_reader \<Rightarrow> reading \<Rightarrow> string \<Rightarrow> grade_row list \<Rightarrow> arm_read result" where
  "arm_forward fromiso rd context_arm rows =
     (case forward_first fromiso rd rows [] 0 of (firsts, duplicates) \<Rightarrow>
        let out = map (forward_ticket fromiso rd context_arm firsts) (rd_pool rd)
        in bind_result (look_state (outcomes_kept out) (rd_rule rd) True) (\<lambda>look.
          Inr \<lparr>ar_arm = context_arm, ar_look = look, ar_commits = out, ar_descriptive = False,
            ar_stopped_by = [], ar_waiting = False, ar_limit = 0, ar_scope_faults = [],
            ar_unsealed_dropped = 0, ar_duplicate_commits = duplicates\<rparr>))"

subsection \<open>The legacy rule: the first observed attempt\<close>

text \<open>The inner loop over one commit's rows: the observed row, the reasons it was not observed, and
  how many rows were read.\<close>

fun read_rows :: "nat \<Rightarrow> grade_row list \<Rightarrow> string list \<Rightarrow> nat \<Rightarrow> grade_row option \<times> string list \<times> nat" where
  "read_rows reruns [] unobserved read = (None, unobserved, read)"
| "read_rows reruns (r # rs) unobserved read =
     (if length unobserved > reruns then (None, unobserved, read)
      else if row_gold_clean r = Some False then (None, replicate (reruns + 1) LEFT_GOLD, read + 1)
      else if row_failure_kind r = FAILURE_OUTAGE then read_rows reruns rs unobserved (read + 1)
      else if row_failure_kind r = FAILURE_HARNESS
        then read_rows reruns rs (unobserved @ [LEFT_HARNESS]) (read + 1)
      else (Some r, unobserved, read + 1))"

definition legacy_change :: "reading \<Rightarrow> string \<Rightarrow> grade_row list \<Rightarrow> string" where
  "legacy_change rd commit rs = (case dget (rd_changes rd) commit [] of
       [] \<Rightarrow> (case find (\<lambda>r. row_change_id r \<noteq> []) rs of Some r \<Rightarrow> row_change_id r | None \<Rightarrow> commit)
     | c \<Rightarrow> c)"

text \<open>What the rows of one commit whose change was not seen make of it.\<close>

definition legacy_read :: "reading \<Rightarrow> string \<Rightarrow> string \<Rightarrow> grade_row list \<Rightarrow> commit_reading \<times> nat" where
  "legacy_read rd commit change rs =
     (case read_rows (rd_max_reruns rd) rs [] 0 of (observed, unobserved, read) \<Rightarrow>
       (case observed of
          Some r \<Rightarrow> if lint_could_change r then CommitReading commit change None LEFT_LINT_DISABLED (row_row_hash r)
            else CommitReading commit change (Some (row_clean r \<and> \<not> row_disqualified r)) [] (row_row_hash r)
        | None \<Rightarrow> if length unobserved > rd_max_reruns rd
            then CommitReading commit change None (last unobserved) []
            else CommitReading commit change None [] [],
        length rs - read))"

record legacy_acc =
  la_out :: "commit_reading list"
  la_faults :: "string list"
  la_seen :: "string list"
  la_duplicates :: nat

definition legacy_commit :: "reading \<Rightarrow> unit_rows \<Rightarrow> unit_rows \<Rightarrow> legacy_acc \<Rightarrow> string \<Rightarrow> legacy_acc" where
  "legacy_commit rd by_commit unsealed st commit =
     (let rs = group_get by_commit commit; change = legacy_change rd commit rs in
      if change \<in> set (la_seen st)
      then st\<lparr>la_out := la_out st @ [CommitReading commit change None LEFT_SAME_CHANGE []]\<rparr>
      else case group_get unsealed commit of
        u # _ \<Rightarrow> st\<lparr>la_seen := change # la_seen st, la_faults := la_faults st @ [commit],
          la_out := la_out st @ [(CommitReading commit change None [] (row_row_hash u))
            \<lparr>cr_reason := REASON_SCOPE_FAULT, cr_scope := SCOPE_UNSEALED\<rparr>]\<rparr>
      | [] \<Rightarrow> (case legacy_read rd commit change rs of (read, duplicates) \<Rightarrow>
          st\<lparr>la_seen := change # la_seen st, la_out := la_out st @ [read],
            la_duplicates := la_duplicates st + duplicates\<rparr>))"

definition legacy_rows :: "iso_reader \<Rightarrow> reading \<Rightarrow> string \<Rightarrow> grade_row list \<Rightarrow> (string \<times> grade_row) list result" where
  "legacy_rows fromiso rd context_arm rows =
     collect (\<lambda>r. bind_result (scope_miss fromiso rd context_arm r) (\<lambda>miss. Inr (miss, r)))
       (filter (\<lambda>r. row_task_id r \<in> set (rd_pool rd) \<and> admitted_run rd r) rows)"

definition rows_missing :: "string \<Rightarrow> (string \<times> grade_row) list \<Rightarrow> unit_rows" where
  "rows_missing miss placed = group_rows row_task_id (map snd (filter (\<lambda>(m, _). m = miss) placed))"

definition arm_legacy :: "iso_reader \<Rightarrow> reading \<Rightarrow> string \<Rightarrow> grade_row list \<Rightarrow> nat \<Rightarrow> arm_read result" where
  "arm_legacy fromiso rd context_arm rows limit =
     bind_result (legacy_rows fromiso rd context_arm rows) (\<lambda>placed.
     let unsealed = rows_missing SCOPE_UNSEALED placed;
         st = foldl (legacy_commit rd (rows_missing [] placed) unsealed)
           \<lparr>la_out = [], la_faults = [], la_seen = [], la_duplicates = 0\<rparr> (rd_pool rd);
         kept = outcomes_kept (la_out st)
     in bind_result (if limit \<noteq> 0 then Inr (descriptive_look (take limit kept) limit)
            else look_state kept (rd_rule rd) False) (\<lambda>look.
        Inr \<lparr>ar_arm = context_arm, ar_look = look, ar_commits = la_out st, ar_descriptive = (limit \<noteq> 0),
          ar_stopped_by = [], ar_waiting = False, ar_limit = limit, ar_scope_faults = la_faults st,
          ar_unsealed_dropped = sum_list (map (length \<circ> snd) unsealed),
          ar_duplicate_commits = la_duplicates st\<rparr>))"

definition arm_reading :: "iso_reader \<Rightarrow> reading \<Rightarrow> string \<Rightarrow> grade_row list \<Rightarrow> nat \<Rightarrow> arm_read result" where
  "arm_reading fromiso rd context_arm rows limit =
     (if reserved rd then arm_reserved fromiso rd context_arm rows limit
      else let rows = (if admissions_unread rd then [] else rows) in
        if prospective rd then arm_forward fromiso rd context_arm rows
        else arm_legacy fromiso rd context_arm rows limit)"

subsection \<open>The loop pair\<close>

definition mcnemar_p :: "nat \<Rightarrow> nat \<Rightarrow> rat" where
  "mcnemar_p b c = (let n = b + c in
     if n = 0 then 1
     else min 1 (2 * of_nat (sum_list (map (\<lambda>k. n choose k) [0..<min b c + 1])) / 2 ^ n))"

record loop_counts =
  lp_pairs :: "string list"
  lp_b :: nat
  lp_c :: nat
  lp_pending :: "string list"

definition pair_window :: "arm_read \<Rightarrow> commit_reading list" where
  "pair_window a = (if ar_limit a \<noteq> 0 then take (ar_limit a) (kept_commits a)
     else take (lk_counted (ar_look a)) (kept_commits a))"

text \<open>The triples of a commit with its outcome on either arm.\<close>

definition pair_read :: "arm_read \<Rightarrow> arm_read \<Rightarrow> (string \<times> bool option \<times> bool option) list" where
  "pair_read a0 a0l =
     (let right = map_of (rev (map (\<lambda>c. (cr_commit c, cr_outcome c)) (pair_window a0l))) in
      List.map_filter (\<lambda>c. map_option (\<lambda>ro. (cr_commit c, cr_outcome c, ro)) (right (cr_commit c))) (pair_window a0))"

definition loop_pair_of :: "(string \<times> bool option \<times> bool option) list \<Rightarrow> loop_counts" where
  "loop_pair_of read = \<lparr>lp_pairs = map fst read,
     lp_b = count_if (\<lambda>(_, lo, ro). ro = Some True \<and> lo = Some False) read,
     lp_c = count_if (\<lambda>(_, lo, ro). lo \<noteq> Some False \<and> ro \<noteq> Some True) read,
     lp_pending = map fst (filter (\<lambda>(_, lo, ro). lo = None \<or> ro = None) read)\<rparr>"

definition loop_pair :: "arm_read \<Rightarrow> arm_read \<Rightarrow> loop_counts" where
  "loop_pair a0 a0l = loop_pair_of (pair_read a0 a0l)"

definition lp_complete :: "loop_counts \<Rightarrow> bool" where
  "lp_complete l \<longleftrightarrow> lp_pending l = []"

definition lp_p :: "loop_counts \<Rightarrow> rat" where
  "lp_p l = mcnemar_p (lp_b l) (lp_c l)"

end
