(* ===== verification/Reading_Outcome.thy ===== *)
theory Reading_Outcome
  imports Reading "HOL-Library.AList"
begin

section \<open>A reading's hierarchy and the cell's standard (\<open>crb/core/reading.py\<close>)\<close>

text \<open>
  The evaluation of a reading over the ledger's rows: every arm of the hierarchy in order, the
  chain of delivering arms, the standard, and what the router is told about one arm. A dictionary
  of arms is an association list updated in place, a missing key is \<open>KeyError\<close>.
\<close>

definition OUTCOME_STANDARD :: string where "OUTCOME_STANDARD = ''standard''"
definition OUTCOME_CEILING :: string where "OUTCOME_CEILING = ''ceiling''"
definition OUTCOME_LOOK_PENDING :: string where "OUTCOME_LOOK_PENDING = STATE_LOOK_PENDING"
definition OUTCOME_UNDECIDED :: string where "OUTCOME_UNDECIDED = STATE_UNDECIDED"

subsection \<open>Evaluating the hierarchy\<close>

type_synonym arms = "(string \<times> arm_read) list"

record reading_outcome =
  oc_reading :: reading
  oc_arms :: arms
  oc_chain :: "string list"
  oc_stopped_at :: string
  oc_standard :: string
  oc_state :: string

definition key_of :: "('k \<times> 'v) list \<Rightarrow> 'k \<Rightarrow> 'v result" where
  "key_of d k = (case map_of d k of Some v \<Rightarrow> Inr v | None \<Rightarrow> Inl (OtherError ''KeyError''))"

text \<open>One arm of the hierarchy: behind a stopped arm it is only labelled.\<close>

fun read_hierarchy :: "(string \<Rightarrow> arm_read result) \<Rightarrow> string list \<Rightarrow> arms \<times> string list \<times> string \<Rightarrow>
    (arms \<times> string list \<times> string) result" where
  "read_hierarchy read [] (arms, chain, stopped_at) = Inr (arms, chain, stopped_at)"
| "read_hierarchy read (name # names) (arms, chain, stopped_at) =
     bind_result (read name) (\<lambda>a.
       if stopped_at \<noteq> [] then
         bind_result (key_of arms stopped_at) (\<lambda>b.
           let waiting = (arm_state b \<notin> {STATE_INSUFFICIENT, STATE_UNDECIDED}) in
           read_hierarchy read names (AList.update name (a\<lparr>ar_stopped_by := stopped_at, ar_waiting := waiting\<rparr>) arms,
             chain, stopped_at))
       else if arm_state a = STATE_DELIVER
         then read_hierarchy read names (AList.update name a arms, chain @ [name], stopped_at)
       else read_hierarchy read names (AList.update name a arms, chain, name))"

fun read_descriptive :: "(string \<Rightarrow> nat \<Rightarrow> arm_read result) \<Rightarrow> (string \<times> nat) list \<Rightarrow> arms \<Rightarrow> arms result" where
  "read_descriptive read [] arms = Inr arms"
| "read_descriptive read ((name, n) # names) arms =
     bind_result (read name n) (\<lambda>a. read_descriptive read names (AList.update name a arms))"

definition certifying_arms :: "string list \<Rightarrow> string list result" where
  "certifying_arms chain = filter_result (\<lambda>a. bind_result (parse_arm a) (\<lambda>p. Inr (certifies p))) chain"

definition outcome_state :: "reading \<Rightarrow> arms \<Rightarrow> string list \<Rightarrow> string \<Rightarrow> string \<Rightarrow> (string \<times> string) result" where
  "outcome_state rd arms chain stopped_at std =
     (if rd_pool_drift rd \<noteq> [] then Inr ([], OUTCOME_UNDECIDED)
      else if std \<noteq> [] then Inr (std, OUTCOME_STANDARD)
      else if stopped_at = [] then Inr (std, OUTCOME_CEILING)
      else bind_result (key_of arms stopped_at) (\<lambda>b.
        let blocked = arm_state b in
        Inr (std, if chain \<noteq> [] \<and> blocked \<in> {STATE_INSUFFICIENT, STATE_UNDECIDED} then OUTCOME_CEILING
          else blocked)))"

definition evaluate :: "iso_reader \<Rightarrow> reading \<Rightarrow> grade_row list \<Rightarrow> reading_outcome result" where
  "evaluate fromiso rd rs =
     bind_result (read_hierarchy (\<lambda>name. arm_reading fromiso rd name rs 0) (rd_hierarchy rd) ([], [], []))
       (\<lambda>(arms, chain, stopped_at).
     bind_result (read_descriptive (\<lambda>name n. arm_reading fromiso rd name rs n) (rd_descriptive rd) arms) (\<lambda>arms.
     bind_result (certifying_arms chain) (\<lambda>certifying.
     bind_result (outcome_state rd arms chain stopped_at (if certifying = [] then [] else last certifying))
       (\<lambda>(std, state).
       Inr \<lparr>oc_reading = rd, oc_arms = arms, oc_chain = chain, oc_stopped_at = stopped_at,
         oc_standard = std, oc_state = state\<rparr>))))"

subsection \<open>The cell's standard\<close>

definition CELL_FIELDS :: "string list" where
  "CELL_FIELDS = [''process_step'', ''capability_class'', ''size'', ''language'', ''builder'', ''model'', ''provider'']"

definition canonical_cell_key :: "dict \<Rightarrow> string" where
  "canonical_cell_key cell = join_with ''|'' (map (\<lambda>f. dget cell f []) CELL_FIELDS)"

definition reading_cell_key :: "dict \<Rightarrow> string \<Rightarrow> string" where
  "reading_cell_key cell org_class =
     (if org_class \<noteq> [] then canonical_cell_key cell @ ''|'' @ org_class else canonical_cell_key cell)"

definition rd_cell_key :: "reading \<Rightarrow> string" where
  "rd_cell_key rd = reading_cell_key (rd_cell rd) (rd_org_class rd)"

definition outcome_rank :: "string \<Rightarrow> nat" where
  "outcome_rank state = (if state = OUTCOME_STANDARD then 3 else if state = OUTCOME_CEILING then 2
     else if state = OUTCOME_LOOK_PENDING then 1 else 0)"

text \<open>Python's order on \<open>(rank, registered_at)\<close>.\<close>

definition speaks_over :: "reading_outcome \<Rightarrow> reading_outcome \<Rightarrow> bool" where
  "speaks_over a b \<longleftrightarrow> outcome_rank (oc_state b) < outcome_rank (oc_state a) \<or>
     outcome_rank (oc_state b) = outcome_rank (oc_state a) \<and>
     rd_registered_at (oc_reading b) \<le> rd_registered_at (oc_reading a)"

fun latest_among :: "reading_outcome option \<Rightarrow> reading_outcome list \<Rightarrow> reading_outcome option" where
  "latest_among best [] = best"
| "latest_among best (a # outcomes) =
     latest_among (case best of None \<Rightarrow> Some a | Some b \<Rightarrow> if speaks_over a b then Some a else best) outcomes"

definition latest_outcome :: "reading_outcome list \<Rightarrow> reading_outcome option" where
  "latest_outcome outcomes = latest_among None outcomes"

record cell_scope =
  sc_repo :: string
  sc_cell :: dict
  sc_apparatus :: string
  sc_taxonomy :: string
  sc_checks_arm :: string
  sc_posture_class :: string
  sc_org_class :: string

definition in_cell :: "cell_scope \<Rightarrow> reading \<Rightarrow> bool" where
  "in_cell sc rd \<longleftrightarrow> rd_repo rd = sc_repo sc \<and>
     rd_cell_key rd = reading_cell_key (sc_cell sc) (sc_org_class sc) \<and> rd_apparatus rd = sc_apparatus sc \<and>
     rd_taxonomy rd = sc_taxonomy sc \<and> rd_checks_arm rd = sc_checks_arm sc \<and>
     rd_posture_class rd = sc_posture_class sc"

definition outcomes_for_cell :: "iso_reader \<Rightarrow> reading list \<Rightarrow> grade_row list \<Rightarrow> cell_scope \<Rightarrow> reading_outcome list result" where
  "outcomes_for_cell fromiso readings rows sc = collect (\<lambda>rd. evaluate fromiso rd rows) (filter (in_cell sc) readings)"

record cell_standard =
  sd_repo :: string
  sd_cell :: dict
  sd_arm :: string
  sd_reading_id :: string
  sd_taxonomy :: string
  sd_apparatus :: string
  sd_ceiling :: bool

definition sd_loop :: "cell_standard \<Rightarrow> bool result" where
  "sd_loop sd = bind_result (parse_arm (sd_arm sd)) (\<lambda>a. Inr (ca_loop a))"

definition standard_of :: "iso_reader \<Rightarrow> reading list \<Rightarrow> grade_row list \<Rightarrow> cell_scope \<Rightarrow> cell_standard option result" where
  "standard_of fromiso readings rows sc =
     bind_result (outcomes_for_cell fromiso readings rows sc) (\<lambda>outcomes.
       case latest_outcome outcomes of None \<Rightarrow> Inr None
       | Some best \<Rightarrow>
         if oc_state best \<notin> {OUTCOME_STANDARD, OUTCOME_CEILING} then Inr None
         else let context_arm = (if oc_standard best \<noteq> [] then oc_standard best
                  else if oc_chain best \<noteq> [] then last (oc_chain best) else [])
           in if context_arm = [] then Inr None
             else Inr (Some \<lparr>sd_repo = sc_repo sc, sd_cell = sc_cell sc, sd_arm = context_arm,
               sd_reading_id = rd_reading_id (oc_reading best), sd_taxonomy = sc_taxonomy sc,
               sd_apparatus = sc_apparatus sc, sd_ceiling = (oc_state best = OUTCOME_CEILING)\<rparr>))"

subsection \<open>What the router reads of one arm\<close>

definition VERDICT_UNREGISTERED :: string where "VERDICT_UNREGISTERED = ''reading_unregistered''"
definition VERDICT_DESCRIPTIVE :: string where "VERDICT_DESCRIPTIVE = ''descriptive''"
definition VERDICT_LOOK_PENDING :: string where "VERDICT_LOOK_PENDING = STATE_LOOK_PENDING"
definition VERDICT_DELIVER :: string where "VERDICT_DELIVER = STATE_DELIVER"
definition VERDICT_INSUFFICIENT :: string where "VERDICT_INSUFFICIENT = STATE_INSUFFICIENT"
definition VERDICT_UNDECIDED :: string where "VERDICT_UNDECIDED = STATE_UNDECIDED"
definition VERDICT_CEILING :: string where "VERDICT_CEILING = OUTCOME_CEILING"
definition VERDICT_LEANER :: string where "VERDICT_LEANER = ''leaner_standard''"

record arm_verdict =
  av_arm :: string
  av_state :: string
  av_reading_id :: string
  av_rule :: string
  av_counted :: nat
  av_clean :: nat
  av_needed :: nat
  av_next_look :: "nat option"
  av_standard :: string
  av_blocking :: string
  av_counted_commits :: "string list"
  av_pool_remaining :: nat
  av_drifted :: bool

definition ArmVerdict :: "string \<Rightarrow> string \<Rightarrow> arm_verdict" where
  "ArmVerdict context_arm state = \<lparr>av_arm = context_arm, av_state = state, av_reading_id = [], av_rule = [],
     av_counted = 0, av_clean = 0, av_needed = 0, av_next_look = None, av_standard = [], av_blocking = [],
     av_counted_commits = [], av_pool_remaining = 0, av_drifted = False\<rparr>"

definition verdict_base :: "reading_outcome \<Rightarrow> arm_verdict \<Rightarrow> arm_verdict" where
  "verdict_base oc v = v\<lparr>av_reading_id := rd_reading_id (oc_reading oc), av_rule := rd_rule (oc_reading oc),
     av_standard := oc_standard oc\<rparr>"

definition verdict_common :: "reading_outcome \<Rightarrow> arm_read \<Rightarrow> arm_verdict \<Rightarrow> arm_verdict" where
  "verdict_common oc a v = (verdict_base oc v)\<lparr>av_counted := lk_counted (ar_look a),
     av_clean := lk_clean (ar_look a), av_counted_commits := counted_commits a,
     av_pool_remaining := length (kept_commits a)\<rparr>"

definition verdict_for :: "reading_outcome option \<Rightarrow> string \<Rightarrow> arm_verdict result" where
  "verdict_for outcome context_arm =
     (case outcome of None \<Rightarrow> Inr (ArmVerdict context_arm VERDICT_UNREGISTERED)
      | Some oc \<Rightarrow> (case map_of (oc_arms oc) context_arm of
          None \<Rightarrow> Inr (verdict_base oc (ArmVerdict context_arm VERDICT_UNREGISTERED))
        | Some a \<Rightarrow>
          let common = (\<lambda>state. verdict_common oc a (ArmVerdict context_arm state)) in
          if rd_pool_drift (oc_reading oc) \<noteq> [] then Inr ((common STATE_UNDECIDED)\<lparr>av_drifted := True\<rparr>)
          else if ar_scope_faults a \<noteq> [] \<and> ar_stopped_by a = [] then Inr (common STATE_UNDECIDED)
          else if ar_descriptive a then Inr (common VERDICT_DESCRIPTIVE)
          else if ar_stopped_by a \<noteq> [] then
            bind_result (key_of (oc_arms oc) (ar_stopped_by a)) (\<lambda>b.
              let faulted = (ar_scope_faults b \<noteq> []) in
              Inr ((common (arm_state b))\<lparr>av_needed := if faulted then 0 else lk_needed (ar_look b),
                av_next_look := if faulted then None else lk_next_look (ar_look b),
                av_blocking := ar_stopped_by a\<rparr>))
          else if lk_state (ar_look a) = STATE_DELIVER then
            bind_result (parse_arm context_arm) (\<lambda>p.
              Inr (if ceiling p then common VERDICT_CEILING
                else if context_arm \<noteq> oc_standard oc then common VERDICT_LEANER
                else common VERDICT_DELIVER))
          else Inr ((common (lk_state (ar_look a)))\<lparr>av_needed := lk_needed (ar_look a),
            av_next_look := lk_next_look (ar_look a)\<rparr>)))"

end
