(* ===== verification/Routing.thy ===== *)
theory Routing
  imports Reading_Outcome
begin

section \<open>The router (\<open>crb/core/routing.py\<close>)\<close>

text \<open>
  The negative-controls verdict, the oracle evidence, the policy with its refusal to relax, and the
  route of one cell: the clauses of \<open>routing.v2\<close> in the published order, the first that fails naming
  the route and every one that fails a shortfall. Strengths and shares are exact rationals; the
  sentences shown to a person and the thresholds stamped for display are not modelled.
\<close>

subsection \<open>Names\<close>

definition POLICY_VERSION :: string where "POLICY_VERSION = ''routing.v2''"
definition POLICY_VERSION_V1 :: string where "POLICY_VERSION_V1 = ''routing.v1''"
definition CONTROLS_POLICY_VERSION :: string where "CONTROLS_POLICY_VERSION = ''controls-gate.v2''"

definition ROUTE_DELIVER :: string where "ROUTE_DELIVER = ''deliver''"
definition ROUTE_CALIBRATE :: string where "ROUTE_CALIBRATE = ''calibrate''"
definition ROUTE_GRANULARIZE :: string where "ROUTE_GRANULARIZE = ''granularize''"
definition ROUTE_HUMAN :: string where "ROUTE_HUMAN = ''human''"
definition ROUTE_DO_NOT_SHIP :: string where "ROUTE_DO_NOT_SHIP = ''do_not_ship''"

definition REASON_FALSE_Q1 :: string where "REASON_FALSE_Q1 = ''false_q1''"
definition REASON_GRANULARIZE :: string where "REASON_GRANULARIZE = ''granularize''"
definition REASON_CONTROLS_FAILED :: string where "REASON_CONTROLS_FAILED = ''controls_failed''"
definition REASON_POSTURE_UNSEALED :: string where "REASON_POSTURE_UNSEALED = ''posture_unsealed''"
definition REASON_LINT_DISABLED :: string where "REASON_LINT_DISABLED = ''lint_disabled''"
definition REASON_READING_UNREGISTERED :: string where "REASON_READING_UNREGISTERED = ''reading_unregistered''"
definition REASON_DESCRIPTIVE :: string where "REASON_DESCRIPTIVE = ''descriptive''"
definition REASON_LOOK_PENDING :: string where "REASON_LOOK_PENDING = ''look_pending''"
definition REASON_ORACLE_UNMEASURED :: string where "REASON_ORACLE_UNMEASURED = ''oracle_unmeasured''"
definition REASON_ORACLE_THIN :: string where "REASON_ORACLE_THIN = ''oracle_thin''"
definition REASON_ORACLE_WEAK :: string where "REASON_ORACLE_WEAK = ''oracle_weak''"
definition REASON_CONTROLS_ESCAPES :: string where "REASON_CONTROLS_ESCAPES = ''controls_escapes''"
definition REASON_INSUFFICIENT :: string where "REASON_INSUFFICIENT = ''insufficient''"
definition REASON_UNDECIDED :: string where "REASON_UNDECIDED = ''undecided''"
definition REASON_CEILING :: string where "REASON_CEILING = ''ceiling''"
definition REASON_LEANER_STANDARD :: string where "REASON_LEANER_STANDARD = ''leaner_standard''"
definition REASON_CONTROLS_UNMEASURED :: string where "REASON_CONTROLS_UNMEASURED = ''controls_unmeasured''"
definition REASON_CONTROLS_THIN :: string where "REASON_CONTROLS_THIN = ''controls_thin''"
definition REASON_DELIVER :: string where "REASON_DELIVER = ''deliver''"

definition REASON_CODES_V2 :: "string list" where
  "REASON_CODES_V2 = [REASON_FALSE_Q1, REASON_GRANULARIZE, REASON_CONTROLS_FAILED, REASON_POSTURE_UNSEALED,
     REASON_LINT_DISABLED, REASON_READING_UNREGISTERED, REASON_DESCRIPTIVE, REASON_LOOK_PENDING,
     REASON_ORACLE_UNMEASURED, REASON_ORACLE_THIN, REASON_ORACLE_WEAK, REASON_CONTROLS_ESCAPES,
     REASON_INSUFFICIENT, REASON_UNDECIDED, REASON_CEILING, REASON_LEANER_STANDARD,
     REASON_CONTROLS_UNMEASURED, REASON_CONTROLS_THIN, REASON_DELIVER]"

text \<open>The next act of a shortfall (\<open>NEXT_ACTS\<close>).\<close>

datatype next_act = Next_audit | Next_split | Next_controls | Next_seal | Next_config | Next_register
  | Next_replay | Next_qualify | Next_mine | Next_oracle | Next_strengthen | Next_new_reading
  | Next_calibration_builds | Next_build_on_standard | Next_none

definition MODEL_MONEY_ACTS :: "next_act list" where
  "MODEL_MONEY_ACTS = [Next_replay, Next_calibration_builds]"

definition CONTROLS_UNMEASURED :: string where "CONTROLS_UNMEASURED = ''unmeasured''"
definition CONTROLS_FAILED :: string where "CONTROLS_FAILED = ''failed''"
definition CONTROLS_THIN :: string where "CONTROLS_THIN = ''thin''"
definition CONTROLS_ESCAPED :: string where "CONTROLS_ESCAPED = ''escaped''"
definition CONTROLS_PASSED :: string where "CONTROLS_PASSED = ''passed''"

subsection \<open>The controls verdict\<close>

record controls_verdict =
  cv_passed :: bool
  cv_constructible :: int
  cv_total :: int
  cv_escapes :: int
  cv_run_id :: string
  cv_created :: string
  cv_complete :: bool
  cv_measured :: bool
  cv_apparatus_version :: string

definition ControlsVerdict :: "controls_verdict \<Rightarrow> controls_verdict result" where
  "ControlsVerdict c = guarded
     [(cv_constructible c < 0 \<or> cv_total c < 0 \<or> cv_escapes c < 0, ValueError ''negative''),
      (cv_constructible c > cv_total c, ValueError ''constructible'')] c"

definition controls_unmeasured :: controls_verdict where
  "controls_unmeasured = \<lparr>cv_passed = False, cv_constructible = 0, cv_total = 0, cv_escapes = 0, cv_run_id = [],
     cv_created = [], cv_complete = True, cv_measured = False, cv_apparatus_version = []\<rparr>"

text \<open>A value of a report's JSON object; a list stands for its length.\<close>

datatype count_val = VNone | VBool bool | VNum rat | VStr string | VList nat | VMap "(string \<times> count_val) list"

definition truncate_rat :: "rat \<Rightarrow> int" where
  "truncate_rat q = (if q < 0 then - \<lfloor>- q\<rfloor> else \<lfloor>q\<rfloor>)"

fun count_int :: "(string \<times> count_val) list \<Rightarrow> string list \<Rightarrow> int" where
  "count_int counts [] = 0"
| "count_int counts (k # ks) = (case map_of counts k of
       Some (VBool b) \<Rightarrow> if b then 1 else 0
     | Some (VNum q) \<Rightarrow> truncate_rat q
     | Some (VList n) \<Rightarrow> int n
     | _ \<Rightarrow> count_int counts ks)"

fun truthy :: "count_val \<Rightarrow> bool" where
  "truthy VNone = False"
| "truthy (VBool b) = b"
| "truthy (VNum q) = (q \<noteq> 0)"
| "truthy (VStr s) = (s \<noteq> [])"
| "truthy (VList n) = (n \<noteq> 0)"
| "truthy (VMap m) = (m \<noteq> [])"

definition val_of :: "(string \<times> count_val) list \<Rightarrow> string \<Rightarrow> count_val" where
  "val_of counts k = (case map_of counts k of Some v \<Rightarrow> v | None \<Rightarrow> VNone)"

text \<open>\<open>complete\<close> and the stamp may sit in the report's apparatus block; \<open>text_of\<close> is \<open>str(v)\<close>.\<close>

definition from_apparatus :: "(string \<times> count_val) list \<Rightarrow> string \<Rightarrow> (count_val \<Rightarrow> bool) \<Rightarrow> count_val" where
  "from_apparatus counts k absent = (let v = val_of counts k in
     if absent v then (case val_of counts ''apparatus'' of VMap m \<Rightarrow> val_of m k | _ \<Rightarrow> v) else v)"

definition controls_from_counts ::
    "(count_val \<Rightarrow> string) \<Rightarrow> (string \<times> count_val) list \<Rightarrow> string \<Rightarrow> string \<Rightarrow> controls_verdict result" where
  "controls_from_counts text_of counts run_id created =
     (let rows = count_int counts [''n_rows'', ''rows'']; skipped = count_int counts [''skipped''];
          not_constructible = count_int counts [''not_constructible'']; n_exercised = max 0 (rows - skipped);
          complete = from_apparatus counts ''complete'' (\<lambda>v. v = VNone);
          stamp = from_apparatus counts ''apparatus_version'' (\<lambda>v. \<not> truthy v);
          text = (\<lambda>k. let v = val_of counts k in if truthy v then text_of v else [])
      in ControlsVerdict \<lparr>cv_passed = truthy (val_of counts ''passed''),
        cv_constructible = max 0 (min n_exercised (n_exercised - not_constructible)), cv_total = n_exercised,
        cv_escapes = count_int counts [''escapes''], cv_run_id = or_else run_id (text ''run_id''),
        cv_created = or_else created (text ''reported_at''),
        cv_complete = (if complete = VNone then True else truthy complete), cv_measured = True,
        cv_apparatus_version = (if truthy stamp then text_of stamp else [])\<rparr>)"

definition controls_at :: "controls_verdict \<Rightarrow> string \<Rightarrow> controls_verdict" where
  "controls_at c apparatus_version =
     (if \<not> cv_measured c then c
      else if is_v2_apparatus apparatus_version \<and> cv_apparatus_version c \<noteq> apparatus_version then controls_unmeasured
      else if \<not> cv_complete c \<and> cv_passed c \<and> cv_escapes c = 0 then controls_unmeasured
      else c)"

definition share_of :: "int \<Rightarrow> int \<Rightarrow> rat" where
  "share_of part whole = (if whole \<noteq> 0 then of_int part / of_int whole else 0)"

definition cv_share :: "controls_verdict \<Rightarrow> rat" where
  "cv_share c = share_of (cv_constructible c) (cv_total c)"

definition cv_thin :: "controls_verdict \<Rightarrow> rat \<Rightarrow> bool" where
  "cv_thin c min_share \<longleftrightarrow> cv_measured c \<and> cv_share c < min_share"

definition cv_state :: "controls_verdict \<Rightarrow> rat \<Rightarrow> int \<Rightarrow> string" where
  "cv_state c min_share max_escapes =
     (if \<not> cv_measured c then CONTROLS_UNMEASURED
      else if \<not> cv_passed c then CONTROLS_FAILED
      else if cv_escapes c > max_escapes then CONTROLS_ESCAPED
      else if \<not> cv_complete c then CONTROLS_UNMEASURED
      else if cv_thin c min_share then CONTROLS_THIN
      else CONTROLS_PASSED)"

subsection \<open>The oracle evidence\<close>

record oracle_evidence =
  oe_strength :: "rat option"
  oe_scored_tasks :: int
  oe_n_tasks :: int
  oe_mutation_version :: string
  oe_apparatus_version :: string

definition OracleEvidence :: "oracle_evidence \<Rightarrow> oracle_evidence result" where
  "OracleEvidence e = guarded
     [(oe_scored_tasks e < 0 \<or> oe_n_tasks e < 0, ValueError ''negative''),
      (oe_scored_tasks e > oe_n_tasks e, ValueError ''scored_tasks'')] e"

definition oe_share :: "oracle_evidence \<Rightarrow> rat" where
  "oe_share e = share_of (oe_scored_tasks e) (oe_n_tasks e)"

definition oe_measured :: "oracle_evidence \<Rightarrow> bool" where
  "oe_measured e \<longleftrightarrow> oe_strength e \<noteq> None \<and> oe_scored_tasks e > 0"

definition oracle_unmeasured :: "int \<Rightarrow> oracle_evidence" where
  "oracle_unmeasured n = \<lparr>oe_strength = None, oe_scored_tasks = 0, oe_n_tasks = max n 0, oe_mutation_version = [],
     oe_apparatus_version = []\<rparr>"

subsection \<open>The policy\<close>

record routing_policy =
  rp_min_oracle_strength :: rat
  rp_min_oracle_share :: rat
  rp_granularize_sizes :: "string list"
  rp_rule :: string
  rp_cell_error_budget :: rat
  rp_version :: string
  rp_min_controls_share :: rat
  rp_max_controls_escapes :: int
  rp_controls_version :: string

text \<open>The published bar; \<open>_PUBLISHED\<close> in the code names every number of it but the sizes.\<close>

definition PUBLISHED :: routing_policy where
  "PUBLISHED = \<lparr>rp_min_oracle_strength = 80 / 100, rp_min_oracle_share = 5 / 10, rp_granularize_sizes = [''XL''],
     rp_rule = RULE_LOOK_V1, rp_cell_error_budget = CELL_ERROR_BUDGET, rp_version = POLICY_VERSION,
     rp_min_controls_share = 5 / 10, rp_max_controls_escapes = 0, rp_controls_version = CONTROLS_POLICY_VERSION\<rparr>"

definition relaxed_clauses :: "routing_policy \<Rightarrow> string list result" where
  "relaxed_clauses p = bind_result (rule_spend (rp_rule p)) (\<lambda>spend.
     bind_result (rule_spend (rp_rule PUBLISHED)) (\<lambda>published.
     Inr (map snd (filter fst
       [(rp_min_oracle_strength p < rp_min_oracle_strength PUBLISHED, ''min_oracle_strength''),
        (rp_min_oracle_share p < rp_min_oracle_share PUBLISHED, ''min_oracle_share''),
        (spend > published + 1 / 10 ^ 12, ''rule''),
        (rp_cell_error_budget p > rp_cell_error_budget PUBLISHED, ''cell_error_budget''),
        (rp_min_controls_share p < rp_min_controls_share PUBLISHED, ''min_controls_share''),
        (rp_max_controls_escapes p > rp_max_controls_escapes PUBLISHED, ''max_controls_escapes'')]))))"

definition RoutingPolicy :: "routing_policy \<Rightarrow> routing_policy result" where
  "RoutingPolicy p =
     (if rp_version p = POLICY_VERSION_V1 then Inl (ValueError ''retired'')
      else bind_result (rule_looks (rp_rule p)) (\<lambda>_. bind_result (relaxed_clauses p) (\<lambda>relaxed. guarded
        [(''min_oracle_share'' \<in> set relaxed \<or> ''rule'' \<in> set relaxed, ValueError ''relaxed''),
         (rp_version p = POLICY_VERSION \<and> relaxed \<noteq> [], ValueError ''version'')] p)))"

subsection \<open>Clauses\<close>

text \<open>What a shortfall shows: nothing, a count, a share (the code rounds it to four places), a word
  or a list of words.\<close>

datatype shown = Nothing | Count int | Share rat | Text string | Texts "string list"

record shortfall =
  sf_code :: string
  sf_route :: string
  sf_observed :: shown
  sf_threshold :: shown
  sf_next :: next_act
  sf_count :: int
  sf_model_money :: bool

definition Shortfall :: "shortfall \<Rightarrow> shortfall result" where
  "Shortfall s = guarded [(sf_code s \<notin> set REASON_CODES_V2, ValueError ''code'')] s"

definition fail :: "string \<Rightarrow> string \<Rightarrow> shown \<Rightarrow> shown \<Rightarrow> next_act \<Rightarrow> int \<Rightarrow> shortfall list" where
  "fail code route observed threshold act count = [\<lparr>sf_code = code, sf_route = route, sf_observed = observed,
     sf_threshold = threshold, sf_next = act, sf_count = count, sf_model_money = (act \<in> set MODEL_MONEY_ACTS)\<rparr>]"

definition shown_look :: "nat option \<Rightarrow> shown" where
  "shown_look k = (case k of None \<Rightarrow> Nothing | Some n \<Rightarrow> Count (int n))"

definition is_arm_s2 :: "string \<Rightarrow> bool" where
  "is_arm_s2 name = arm_is (\<lambda>a. ca_base a = S2) name"

definition reading_clause :: "string \<Rightarrow> arm_verdict \<Rightarrow> shortfall list" where
  "reading_clause name v =
     (if av_state v = VERDICT_UNREGISTERED
      then fail REASON_READING_UNREGISTERED ROUTE_CALIBRATE Nothing (Text ''registered'') Next_register 0
      else if av_state v = VERDICT_DESCRIPTIVE
      then fail REASON_DESCRIPTIVE ROUTE_CALIBRATE (Text name) (Text ''S1@<author> or S2'') Next_none 0
      else if av_state v = VERDICT_LOOK_PENDING
      then fail REASON_LOOK_PENDING ROUTE_CALIBRATE (Count (int (av_counted v))) (shown_look (av_next_look v))
        (if av_needed v > 0 then Next_replay else Next_qualify) (int (av_needed v))
      else [])"

definition oracle_clause :: "oracle_evidence \<Rightarrow> routing_policy \<Rightarrow> shortfall list" where
  "oracle_clause ora p = (let unscored = max (oe_n_tasks ora - oe_scored_tasks ora) 0 in
     case oe_strength ora of
       None \<Rightarrow> fail REASON_ORACLE_UNMEASURED ROUTE_CALIBRATE Nothing (Text ''measured'') Next_oracle unscored
     | Some strength \<Rightarrow>
         if \<not> oe_measured ora
         then fail REASON_ORACLE_UNMEASURED ROUTE_CALIBRATE Nothing (Text ''measured'') Next_oracle unscored
         else if oe_share ora < rp_min_oracle_share p
         then fail REASON_ORACLE_THIN ROUTE_CALIBRATE (Share (oe_share ora)) (Share (rp_min_oracle_share p)) Next_oracle unscored
         else if strength < rp_min_oracle_strength p
         then fail REASON_ORACLE_WEAK ROUTE_HUMAN (Share strength) (Share (rp_min_oracle_strength p)) Next_strengthen 0
         else [])"

definition decided_clauses :: "string \<Rightarrow> arm_verdict \<Rightarrow> shortfall list" where
  "decided_clauses name v =
     (if av_state v = VERDICT_INSUFFICIENT
      then fail REASON_INSUFFICIENT ROUTE_HUMAN (Count (int (av_counted v) - int (av_clean v)))
        (Text ''fewer than three misses'') Next_new_reading 0
      else if av_state v = VERDICT_UNDECIDED
      then fail REASON_UNDECIDED ROUTE_CALIBRATE (Count (int (av_counted v))) (shown_look (av_next_look v))
        (if av_drifted v then Next_none else Next_mine) (int (av_needed v))
      else []) @
     (if av_state v = VERDICT_CEILING
      then fail REASON_CEILING ROUTE_CALIBRATE (Text name) (Text ''S1@<author> or S2'') Next_calibration_builds 0
      else if av_state v = VERDICT_LEANER
      then fail REASON_LEANER_STANDARD ROUTE_CALIBRATE (Text name) (Text (av_standard v)) Next_build_on_standard 0
      else [])"

definition controls_clauses :: "controls_verdict \<Rightarrow> routing_policy \<Rightarrow> shortfall list" where
  "controls_clauses c p =
     (if \<not> cv_measured c
      then fail REASON_CONTROLS_UNMEASURED ROUTE_CALIBRATE (Text ''unmeasured'') (Text ''measured'') Next_controls 0
      else if cv_passed c \<and> cv_thin c (rp_min_controls_share p)
      then fail REASON_CONTROLS_THIN ROUTE_CALIBRATE (Share (cv_share c)) (Share (rp_min_controls_share p)) Next_controls 0
      else [])"

definition instrument_clauses :: "cell_numbers \<Rightarrow> controls_verdict \<Rightarrow> arm_verdict \<Rightarrow> routing_policy \<Rightarrow> shortfall list" where
  "instrument_clauses stats c v p =
     (if cs_false_q1 stats > 0
      then fail REASON_FALSE_Q1 ROUTE_DO_NOT_SHIP (Count (int (cs_false_q1 stats))) (Count 0) Next_audit 0 else []) @
     (if ck_size (cs_cell stats) \<in> set (rp_granularize_sizes p)
      then fail REASON_GRANULARIZE ROUTE_GRANULARIZE (Text (ck_size (cs_cell stats))) (Texts (rp_granularize_sizes p))
        Next_split 0 else []) @
     (if cv_measured c \<and> \<not> cv_passed c
      then fail REASON_CONTROLS_FAILED ROUTE_HUMAN (Text ''failed'') (Text ''passed'') Next_controls 0 else []) @
     (if \<not> is_arm_s2 (cs_context_arm stats) \<and> cs_n_unsealed stats > 0
      then fail REASON_POSTURE_UNSEALED ROUTE_CALIBRATE (Count (int (cs_n_unsealed stats))) (Count 0) Next_seal 0 else []) @
     (if cs_n_tasks_lint_disabled stats > 0 \<and> av_state v \<noteq> VERDICT_DELIVER
      then fail REASON_LINT_DISABLED ROUTE_CALIBRATE (Count (int (cs_n_tasks_lint_disabled stats))) (Count 0) Next_config 0
      else [])"

definition escapes_clause :: "controls_verdict \<Rightarrow> routing_policy \<Rightarrow> shortfall list" where
  "escapes_clause c p =
     (if cv_measured c \<and> cv_escapes c > rp_max_controls_escapes p
      then fail REASON_CONTROLS_ESCAPES ROUTE_HUMAN (Count (cv_escapes c)) (Count (rp_max_controls_escapes p))
        Next_strengthen 0 else [])"

definition all_clauses ::
    "cell_numbers \<Rightarrow> oracle_evidence \<Rightarrow> controls_verdict \<Rightarrow> arm_verdict \<Rightarrow> routing_policy \<Rightarrow> shortfall list" where
  "all_clauses stats ora c v p =
     instrument_clauses stats c v p @ reading_clause (cs_context_arm stats) v @ oracle_clause ora p @
     escapes_clause c p @ decided_clauses (cs_context_arm stats) v @ controls_clauses c p"

subsection \<open>The route\<close>

record route_decision =
  dc_route :: string
  dc_reason_code :: string
  dc_shortfalls :: "shortfall list"
  dc_cell :: cell_key
  dc_n :: nat
  dc_point :: rat
  dc_ci :: interval
  dc_false_q1 :: nat
  dc_oracle_strength :: "rat option"
  dc_oracle_scored_tasks :: int
  dc_oracle_share :: rat
  dc_policy_version :: string
  dc_controls :: controls_verdict
  dc_controls_policy :: string
  dc_n_tasks :: nat
  dc_task_clean :: nat
  dc_task_ci :: interval
  dc_apparatus_version :: string
  dc_context_arm :: string
  dc_taxonomy :: string
  dc_reading_id :: string
  dc_look_state :: string
  dc_counted :: nat
  dc_counted_clean :: nat
  dc_needed :: nat
  dc_next_look :: "nat option"
  dc_standard :: string

definition decision ::
    "cell_numbers \<Rightarrow> oracle_evidence \<Rightarrow> controls_verdict \<Rightarrow> arm_verdict \<Rightarrow> routing_policy \<Rightarrow> string \<Rightarrow> string \<Rightarrow>
     shortfall list \<Rightarrow> route_decision" where
  "decision stats ora c v p route code shortfalls = \<lparr>dc_route = route, dc_reason_code = code,
     dc_shortfalls = shortfalls, dc_cell = cs_cell stats, dc_n = cs_n stats, dc_point = cs_point stats,
     dc_ci = cs_ci stats, dc_false_q1 = cs_false_q1 stats,
     dc_oracle_strength = (if oe_measured ora then oe_strength ora else None),
     dc_oracle_scored_tasks = oe_scored_tasks ora, dc_oracle_share = oe_share ora,
     dc_policy_version = rp_version p, dc_controls = c, dc_controls_policy = rp_controls_version p,
     dc_n_tasks = cs_n_tasks stats, dc_task_clean = cs_task_clean stats, dc_task_ci = cs_task_ci stats,
     dc_apparatus_version = cs_apparatus_version stats, dc_context_arm = cs_context_arm stats,
     dc_taxonomy = cs_taxonomy stats, dc_reading_id = av_reading_id v, dc_look_state = av_state v,
     dc_counted = av_counted v, dc_counted_clean = av_clean v, dc_needed = av_needed v,
     dc_next_look = av_next_look v, dc_standard = av_standard v\<rparr>"

text \<open>An absent report, oracle or reading is unmeasured or unregistered.\<close>

definition controls_read :: "cell_numbers \<Rightarrow> controls_verdict option \<Rightarrow> controls_verdict" where
  "controls_read stats controls =
     controls_at (case controls of Some c \<Rightarrow> c | None \<Rightarrow> controls_unmeasured) (cs_apparatus_version stats)"

definition oracle_read :: "arm_verdict \<Rightarrow> oracle_evidence option \<Rightarrow> oracle_evidence" where
  "oracle_read v ora = (case ora of Some e \<Rightarrow> e | None \<Rightarrow> oracle_unmeasured (int (av_counted v)))"

definition verdict_read :: "cell_numbers \<Rightarrow> arm_verdict option \<Rightarrow> arm_verdict" where
  "verdict_read stats reading = (case reading of Some v \<Rightarrow> v
     | None \<Rightarrow> ArmVerdict (cs_context_arm stats) VERDICT_UNREGISTERED)"

definition route ::
    "cell_numbers \<Rightarrow> oracle_evidence option \<Rightarrow> controls_verdict option \<Rightarrow> arm_verdict option \<Rightarrow> routing_policy \<Rightarrow>
     route_decision result" where
  "route stats ora_opt controls reading p =
     (let v = verdict_read stats reading; c = controls_read stats controls; ora = oracle_read v ora_opt
      in bind_result (collect Shortfall (all_clauses stats ora c v p)) (\<lambda>found.
        case found of
          s # _ \<Rightarrow> Inr (decision stats ora c v p (sf_route s) (sf_code s) found)
        | [] \<Rightarrow> Inr (decision stats ora c v p ROUTE_DELIVER REASON_DELIVER [])))"

end
