(* ===== verification/Registration.thy ===== *)
theory Registration
  imports Reading_Outcome
begin

section \<open>Registering a reading (\<open>crb/core/reading.py\<close>)\<close>

text \<open>
  The refusals of a registration, the error budget of a cell, and what is read into a reading after
  it was registered. Parameters: \<open>hashes\<close>, the SHA-256 digests of the canonical JSON of a body and of
  a pool and of a seed's preimage, and \<open>fromiso\<close> as in theory \<open>Reading\<close>. A refusal is
  \<open>ReadingRefused\<close> with its code; spends and budgets are exact rationals.
\<close>

definition REFUSAL_POOL_SEEN :: string where "REFUSAL_POOL_SEEN = ''pool_seen''"
definition REFUSAL_BUDGET_SPENT :: string where "REFUSAL_BUDGET_SPENT = ''budget_spent''"
definition REFUSAL_INVALID :: string where "REFUSAL_INVALID = ''invalid_reading''"
definition REFUSAL_POOL_NOT_BLIND :: string where "REFUSAL_POOL_NOT_BLIND = ''pool_not_blind''"
definition REFUSAL_NOT_A_CEILING :: string where "REFUSAL_NOT_A_CEILING = ''not_a_ceiling''"
definition REFUSAL_CAMPAIGN_UNSUPPORTED :: string where "REFUSAL_CAMPAIGN_UNSUPPORTED = ''campaign_unsupported_reading''"
definition REFUSAL_EXISTS :: string where "REFUSAL_EXISTS = ''reading_exists''"

definition POOL_SEEN_FROM :: "nat \<times> nat" where "POOL_SEEN_FROM = (2, 4)"
definition DEFAULT_MAX_RERUNS :: nat where "DEFAULT_MAX_RERUNS = 2"
definition SEED_PREFIX :: string where "SEED_PREFIX = ''crb.reading.v1|''"
definition POOL_RULE_ALL :: string where "POOL_RULE_ALL = ''all-qualified''"
definition POOL_RULE_SINCE :: string where "POOL_RULE_SINCE = ''qualified-since''"

subsection \<open>Digests and the constructor\<close>

record hashes =
  h_sha :: "string \<Rightarrow> string"
  h_body :: "reading \<Rightarrow> string"
  h_pool :: "string list \<Rightarrow> string"
  h_pins :: "string list \<Rightarrow> string \<Rightarrow> dict \<Rightarrow> string"

definition pins_pool :: "string \<Rightarrow> string \<Rightarrow> bool" where
  "pins_pool attempt_rule pool_rule \<longleftrightarrow> attempt_rule = ATTEMPT_RULE_RESERVED \<and> pool_rule \<noteq> POOL_RULE_CALIBRATION"

definition new_reading :: "hashes \<Rightarrow> reading \<Rightarrow> reading" where
  "new_reading h rd =
     (let rd = (if rd_attempt_rule rd = ATTEMPT_RULE_LEGACY then rd\<lparr>rd_attempt_rule := []\<rparr> else rd);
          rd = (if rd_attempt_rule rd = [] then rd\<lparr>rd_budget_profile := [], rd_lint_digest := []\<rparr> else rd);
          rd = (if pins_pool (rd_attempt_rule rd) (rd_pool_rule rd) then rd
                else rd\<lparr>rd_pool_posture_id := [], rd_pool_qualifications := []\<rparr>)
      in if rd_reading_id rd = [] then rd\<lparr>rd_reading_id := ''rdg_'' @ take 24 (h_body h rd)\<rparr> else rd)"

definition pool_hash :: "hashes \<Rightarrow> reading \<Rightarrow> string" where
  "pool_hash h rd = (if pins_pool (rd_attempt_rule rd) (rd_pool_rule rd)
     then h_pins h (rd_pool rd) (rd_pool_posture_id rd) (rd_pool_qualifications rd) else h_pool h (rd_pool rd))"

definition verify_reading :: "hashes \<Rightarrow> reading \<Rightarrow> bool" where
  "verify_reading h rd \<longleftrightarrow> rd_reading_id (new_reading h (rd\<lparr>rd_reading_id := []\<rparr>)) = rd_reading_id rd \<and>
     rd_pool_sha256 rd = pool_hash h rd"

definition seed_of :: "hashes \<Rightarrow> string \<Rightarrow> string \<Rightarrow> string \<Rightarrow> string" where
  "seed_of h repo cell_key commit = h_sha h (SEED_PREFIX @ repo @ ''|'' @ cell_key @ ''|'' @ commit)"

definition seeded_order :: "hashes \<Rightarrow> string \<Rightarrow> string \<Rightarrow> string list \<Rightarrow> string list" where
  "seeded_order h repo cell_key pool = sort_key (\<lambda>c. [seed_of h repo cell_key c, c]) (dedup pool)"

text \<open>The cell one error budget is kept per.\<close>

definition budget_key :: "reading \<Rightarrow> string \<times> string \<times> string \<times> string" where
  "budget_key rd = (rd_repo rd, or_else (rd_budget_cell rd) (rd_cell_key rd), rd_apparatus rd, rd_taxonomy rd)"

subsection \<open>The pool rule\<close>

definition pool_by_rule :: "iso_reader \<Rightarrow> (rat \<Rightarrow> string) \<Rightarrow> dict \<Rightarrow> string \<Rightarrow> (string list \<times> string) result" where
  "pool_by_rule fromiso isoformat authored since =
     (if py_strip since = [] then Inr (sort (map fst authored), POOL_RULE_ALL)
      else case stamp_of fromiso since of None \<Rightarrow> Inl (ReadingRefused REFUSAL_INVALID)
        | Some from_date \<Rightarrow> Inr (sort (map fst (filter (\<lambda>(_, a). case stamp_of fromiso a of None \<Rightarrow> False | Some t \<Rightarrow> t \<ge> from_date)
            authored)), POOL_RULE_SINCE @ '':'' @ isoformat from_date))"

definition refuse_unless_blind :: "string list \<Rightarrow> string list \<Rightarrow> unit result" where
  "refuse_unless_blind given pool =
     (if given \<noteq> [] \<and> \<not> (set given \<subseteq> set pool \<and> set pool \<subseteq> set given)
      then Inl (ReadingRefused REFUSAL_POOL_NOT_BLIND) else Inr ())"

definition seen_by_reserved :: "grade_row \<Rightarrow> bool" where
  "seen_by_reserved row \<longleftrightarrow> row_process_step row = PROCESS_REPLAY \<and>
     stamp_at_least (row_apparatus_version row) POOL_SEEN_FROM"

subsection \<open>The error budget\<close>

text \<open>\<open>float(raw)\<close> is a parameter; \<open>None\<close> is its \<open>ValueError\<close>.\<close>

definition cell_error_budget :: "(string \<Rightarrow> rat option) \<Rightarrow> string option \<Rightarrow> rat result" where
  "cell_error_budget to_float env =
     (let raw = py_strip (case env of Some v \<Rightarrow> v | None \<Rightarrow> []) in
      if raw = [] then Inr CELL_ERROR_BUDGET
      else case to_float raw of None \<Rightarrow> Inl (ValueError ''budget'')
        | Some v \<Rightarrow> if 0 < v \<and> v \<le> CELL_ERROR_BUDGET then Inr v else Inl (ValueError ''budget''))"

fun first_per_id_from :: "string list \<Rightarrow> reading list \<Rightarrow> reading list" where
  "first_per_id_from seen [] = []"
| "first_per_id_from seen (r # rs) = (if rd_reading_id r \<in> set seen then first_per_id_from seen rs
     else r # first_per_id_from (rd_reading_id r # seen) rs)"

definition first_per_id :: "reading list \<Rightarrow> reading list" where
  "first_per_id readings = first_per_id_from [] readings"

definition budget_spent :: "reading list \<Rightarrow> string \<times> string \<times> string \<times> string \<Rightarrow> rat" where
  "budget_spent readings key = sum_list (map rd_spend (filter (\<lambda>r. budget_key r = key) (first_per_id readings)))"

text \<open>The slack of the comparison in the code, \<open>1e-12\<close>.\<close>

definition BUDGET_SLACK :: rat where "BUDGET_SLACK = 1 / 10 ^ 12"

subsection \<open>Twins\<close>

text \<open>Equality of two bodies without provenance and pool: dictionaries are compared by their entries.\<close>

definition same_content :: "reading \<Rightarrow> reading \<Rightarrow> bool" where
  "same_content a b \<longleftrightarrow> rd_repo a = rd_repo b \<and> same_dict (rd_cell a) (rd_cell b) \<and>
     rd_apparatus a = rd_apparatus b \<and> rd_taxonomy a = rd_taxonomy b \<and> rd_posture_class a = rd_posture_class b \<and>
     rd_checks_arm a = rd_checks_arm b \<and> rd_hierarchy a = rd_hierarchy b \<and> rd_descriptive a = rd_descriptive b \<and>
     rd_rule a = rd_rule b \<and> rd_spend a = rd_spend b \<and> rd_budget a = rd_budget b \<and>
     rd_author_model a = rd_author_model b \<and> rd_pool_sha256 a = rd_pool_sha256 b \<and>
     same_dict (rd_changes a) (rd_changes b) \<and> rd_max_reruns a = rd_max_reruns b \<and>
     rd_pool_rule a = rd_pool_rule b \<and> rd_org_class a = rd_org_class b \<and> rd_promotes a = rd_promotes b \<and>
     rd_budget_cell a = rd_budget_cell b \<and> rd_hypothesis a = rd_hypothesis b \<and>
     rd_smallest_effect a = rd_smallest_effect b \<and> rd_campaign_id a = rd_campaign_id b \<and>
     rd_attempt_rule a = rd_attempt_rule b \<and> rd_budget_profile a = rd_budget_profile b \<and>
     rd_lint_digest a = rd_lint_digest b \<and> rd_pool_posture_id a = rd_pool_posture_id b \<and>
     same_dict (rd_pool_qualifications a) (rd_pool_qualifications b)"

definition registered_twin :: "reading \<Rightarrow> reading list \<Rightarrow> reading option" where
  "registered_twin rd existing = find (\<lambda>r. rd_reading_id r = rd_reading_id rd \<or> same_content r rd) existing"

definition refuse_twin :: "reading \<Rightarrow> reading list \<Rightarrow> unit result" where
  "refuse_twin rd existing = (case registered_twin rd existing of None \<Rightarrow> Inr ()
     | Some _ \<Rightarrow> Inl (ReadingRefused REFUSAL_EXISTS))"

subsection \<open>Validation\<close>

text \<open>Why the shape of a registration is refused, \<open>[]\<close> when it is not: the messages are tags. The
  hierarchy's arms are parsed after the checks on the lists.\<close>

definition authors_of :: "context_arm list \<Rightarrow> string list" where
  "authors_of parsed = dedup (filter (\<lambda>a. a \<noteq> []) (map ca_author parsed))"

fun ceiling_after :: "bool \<Rightarrow> context_arm list \<Rightarrow> bool" where
  "ceiling_after seen_certifying [] = False"
| "ceiling_after seen_certifying (a # parsed) =
     (ceiling a \<and> seen_certifying \<or> ceiling_after (seen_certifying \<or> certifies a) parsed)"

fun descriptive_fault :: "(string \<times> nat) list \<Rightarrow> string result" where
  "descriptive_fault [] = Inr []"
| "descriptive_fault ((name, n) # ds) = bind_result (parse_arm name) (\<lambda>a.
     if \<not> descriptive a then Inr ''not descriptive'' else if n = 0 then Inr ''count'' else descriptive_fault ds)"

definition author_fault :: "string list \<Rightarrow> string \<Rightarrow> string" where
  "author_fault authors author_model = (if length authors > 1 then ''authors''
     else if authors \<noteq> [] \<and> author_model \<noteq> [] \<and> authors \<noteq> [author_model] then ''author'' else [])"

definition parsed_fault :: "dict \<Rightarrow> context_arm list \<Rightarrow> (string \<times> nat) list \<Rightarrow> string \<Rightarrow> string result" where
  "parsed_fault cell parsed desc author_model =
     (let factory = (dget cell ''process_step'' [] = ''factory'') in
      if list_ex descriptive parsed then Inr ''descriptive in hierarchy''
      else if ceiling_after False parsed then Inr ''ceiling after certifying''
      else if factory \<and> list_ex (\<lambda>a. ca_base a \<noteq> S2) parsed then Inr ''factory''
      else if \<not> factory \<and> list_ex (\<lambda>a. ca_base a = S2) parsed then Inr ''S2''
      else bind_result (descriptive_fault desc) (\<lambda>why.
        Inr (if why \<noteq> [] then why else author_fault (authors_of parsed) author_model)))"

definition validate :: "dict \<Rightarrow> string list \<Rightarrow> (string \<times> nat) list \<Rightarrow> string \<Rightarrow> string list \<Rightarrow> string \<Rightarrow> bool \<Rightarrow> string result" where
  "validate cell hierarchy desc rule pool author_model forward =
     (let arms = hierarchy @ map fst desc in
      if list_ex (\<lambda>f. dget cell f [] \<in> {[], ''*''}) CELL_FIELDS then Inr ''cell''
      else if hierarchy = [] then Inr ''hierarchy''
      else if map_of RULES rule = None then Inr ''rule''
      else if pool = [] \<and> \<not> forward then Inr ''pool''
      else if \<not> distinct arms then Inr ''twice''
      else bind_result (collect parse_arm hierarchy) (\<lambda>parsed. parsed_fault cell parsed desc author_model))"

definition attempt_rule_of :: "string \<Rightarrow> nat \<Rightarrow> string \<Rightarrow> (string \<times> string) result" where
  "attempt_rule_of attempt_rule max_reruns budget_profile =
     (let rule = py_strip attempt_rule; profile = py_strip budget_profile in
      if rule = [] \<or> rule = ATTEMPT_RULE_LEGACY then Inr ([], [])
      else if rule \<noteq> ATTEMPT_RULE_RESERVED then Inl (ReadingRefused REFUSAL_INVALID)
      else if max_reruns \<noteq> 0 \<or> profile = [] then Inl (ReadingRefused REFUSAL_INVALID)
      else Inr (rule, profile))"

definition campaign_unsupported :: "string \<Rightarrow> bool" where
  "campaign_unsupported process_step \<longleftrightarrow> process_step = PROCESS_FACTORY"

subsection \<open>Registration\<close>

record request =
  rq_repo :: string
  rq_cell :: dict
  rq_hierarchy :: "string list"
  rq_pool :: "string list"
  rq_apparatus :: string
  rq_taxonomy :: string
  rq_posture_class :: string
  rq_checks_arm :: string
  rq_actor :: string
  rq_rule :: string
  rq_descriptive :: "(string \<times> nat) list"
  rq_author_model :: string
  rq_changes :: dict
  rq_max_reruns :: nat
  rq_now :: string
  rq_pool_rule :: string
  rq_org_class :: string
  rq_hypothesis :: string
  rq_smallest_effect :: "rat option"
  rq_campaign_id :: string
  rq_attempt_rule :: string
  rq_budget_profile :: string
  rq_lint_digest :: string
  rq_pool_posture_id :: string
  rq_pool_qualifications :: dict

definition kept_pins :: "dict \<Rightarrow> string list \<Rightarrow> dict" where
  "kept_pins quals ordered = filter (\<lambda>(c, q). c \<in> set ordered \<and> q \<noteq> []) quals"

definition requested :: "hashes \<Rightarrow> request \<Rightarrow> string \<times> string \<Rightarrow> string \<Rightarrow> rat \<Rightarrow> rat \<Rightarrow> string list \<Rightarrow> reading" where
  "requested h rq rule_profile author cap spend ordered =
     (let pins = kept_pins (rq_pool_qualifications rq) ordered;
          pinned = pins_pool (fst rule_profile) (rq_pool_rule rq) in
      new_reading h \<lparr>rd_repo = rq_repo rq, rd_cell = rq_cell rq, rd_apparatus = rq_apparatus rq,
        rd_taxonomy = rq_taxonomy rq, rd_posture_class = rq_posture_class rq, rd_checks_arm = rq_checks_arm rq,
        rd_hierarchy = map py_strip (rq_hierarchy rq), rd_rule = rq_rule rq, rd_spend = spend, rd_pool = ordered,
        rd_pool_sha256 = (if pinned then h_pins h ordered (rq_pool_posture_id rq) pins else h_pool h ordered),
        rd_registered_at = rq_now rq, rd_actor = rq_actor rq, rd_budget = cap,
        rd_descriptive = map (\<lambda>(a, n). (py_strip a, n)) (rq_descriptive rq), rd_author_model = author,
        rd_changes = filter (\<lambda>(c, _). c \<in> set ordered) (rq_changes rq), rd_max_reruns = rq_max_reruns rq,
        rd_reading_id = [], rd_pool_rule = rq_pool_rule rq, rd_org_class = rq_org_class rq, rd_promotes = [],
        rd_budget_cell = [], rd_hypothesis = rq_hypothesis rq, rd_smallest_effect = rq_smallest_effect rq,
        rd_campaign_id = rq_campaign_id rq, rd_attempt_rule = fst rule_profile,
        rd_budget_profile = snd rule_profile, rd_lint_digest = rq_lint_digest rq,
        rd_pool_posture_id = rq_pool_posture_id rq, rd_pool_qualifications = pins, rd_enrolled = [],
        rd_admitted = None, rd_registered_event_id = 0, rd_reservations = None, rd_pool_drift = []\<rparr>)"

text \<open>The commits of the pool the ledger already holds a row of.\<close>

definition pool_seen :: "reading \<Rightarrow> dict \<Rightarrow> grade_row list \<Rightarrow> string list" where
  "pool_seen rd changes rows =
     (let pool_changes = map snd (filter (\<lambda>(c, v). c \<in> set (rd_pool rd) \<and> v \<noteq> []) changes) in
      map row_task_id (filter (\<lambda>r. row_repo r = rd_repo rd \<and>
        (if reserved rd then seen_by_reserved r
         else row_apparatus_version r = rd_apparatus rd \<and> row_context_arm r \<in> set (rd_hierarchy rd)) \<and>
        (row_task_id r \<in> set (rd_pool rd) \<or> (row_change_id r \<noteq> [] \<and> row_change_id r \<in> set pool_changes))) rows))"

definition refuse_over_budget :: "reading list \<Rightarrow> string \<times> string \<times> string \<times> string \<Rightarrow> rat \<Rightarrow> rat \<Rightarrow> unit result" where
  "refuse_over_budget prior key spend cap =
     (if budget_spent prior key + spend > cap + BUDGET_SLACK then Inl (ReadingRefused REFUSAL_BUDGET_SPENT) else Inr ())"

text \<open>\<open>_validate\<close> inside the \<open>try\<close>: a parse error is its message.\<close>

definition shape_fault :: "request \<Rightarrow> string" where
  "shape_fault rq = (case validate (rq_cell rq) (map py_strip (rq_hierarchy rq))
       (map (\<lambda>(a, n). (py_strip a, n)) (rq_descriptive rq)) (rq_rule rq) (rq_pool rq) (rq_author_model rq) False of
     Inl _ \<Rightarrow> ''grammar'' | Inr why \<Rightarrow> why)"

definition request_author :: "request \<Rightarrow> string result" where
  "request_author rq = bind_result (collect parse_arm (map py_strip (rq_hierarchy rq))) (\<lambda>parsed.
     Inr (or_else (rq_author_model rq) (case authors_of parsed of [] \<Rightarrow> [] | a # _ \<Rightarrow> a)))"

definition refuse_unpinned :: "request \<Rightarrow> string \<Rightarrow> string list \<Rightarrow> unit result" where
  "refuse_unpinned rq chosen ordered =
     (let pins = kept_pins (rq_pool_qualifications rq) ordered in
      if pins_pool chosen (rq_pool_rule rq) \<and> (rq_pool_posture_id rq \<noteq> [] \<or> pins \<noteq> []) \<and>
        (rq_pool_posture_id rq = [] \<or> list_ex (\<lambda>c. map_of pins c = None) ordered)
      then Inl (ReadingRefused REFUSAL_INVALID) else Inr ())"

definition register_reading :: "hashes \<Rightarrow> request \<Rightarrow> rat result \<Rightarrow> reading list \<Rightarrow> grade_row list \<Rightarrow> reading result" where
  "register_reading h rq budget existing rows =
     (if shape_fault rq \<noteq> [] then Inl (ReadingRefused REFUSAL_INVALID)
      else bind_result (attempt_rule_of (rq_attempt_rule rq) (rq_max_reruns rq) (rq_budget_profile rq)) (\<lambda>chosen.
        if rq_campaign_id rq \<noteq> [] \<and> campaign_unsupported (dget (rq_cell rq) ''process_step'' [])
        then Inl (ReadingRefused REFUSAL_CAMPAIGN_UNSUPPORTED)
        else bind_result (request_author rq) (\<lambda>author.
          let ordered = seeded_order h (rq_repo rq) (reading_cell_key (rq_cell rq) (rq_org_class rq)) (rq_pool rq) in
          bind_result (refuse_unpinned rq (fst chosen) ordered) (\<lambda>_.
          bind_result budget (\<lambda>cap.
          bind_result (rule_spend (rq_rule rq)) (\<lambda>spend.
          let rd = requested h rq chosen author cap spend ordered in
          bind_result (refuse_twin rd existing) (\<lambda>_.
          if pool_seen rd (rq_changes rq) rows \<noteq> [] then Inl (ReadingRefused REFUSAL_POOL_SEEN)
          else bind_result (refuse_over_budget existing (budget_key rd) spend cap) (\<lambda>_. Inr rd))))))))"

text \<open>The forward reading of a ceiling.\<close>

record forward_request =
  fq_builder :: string
  fq_model :: string
  fq_provider :: string
  fq_actor :: string
  fq_rule :: string
  fq_now :: string
  fq_hypothesis :: string
  fq_smallest_effect :: "rat option"
  fq_attempt_rule :: string
  fq_budget_profile :: string
  fq_lint_digest :: string
  fq_max_reruns :: "nat option"

definition forward_cell :: "reading \<Rightarrow> forward_request \<Rightarrow> dict" where
  "forward_cell base fq = dict_merge (rd_cell base) [(''process_step'', PROCESS_FACTORY),
     (''builder'', py_strip (fq_builder fq)), (''model'', py_strip (fq_model fq)),
     (''provider'', py_strip (fq_provider fq))]"

definition forward_reruns :: "forward_request \<Rightarrow> nat" where
  "forward_reruns fq = (case fq_max_reruns fq of Some n \<Rightarrow> n
     | None \<Rightarrow> if py_strip (fq_attempt_rule fq) = ATTEMPT_RULE_RESERVED then 0 else DEFAULT_MAX_RERUNS)"

definition forward_reading :: "hashes \<Rightarrow> reading \<Rightarrow> forward_request \<Rightarrow> string \<times> string \<Rightarrow> rat \<Rightarrow> rat \<Rightarrow> reading" where
  "forward_reading h base fq rule_profile cap spend = new_reading h \<lparr>rd_repo = rd_repo base,
     rd_cell = forward_cell base fq, rd_apparatus = rd_apparatus base, rd_taxonomy = rd_taxonomy base,
     rd_posture_class = rd_posture_class base, rd_checks_arm = rd_checks_arm base, rd_hierarchy = [base_str S2],
     rd_rule = fq_rule fq, rd_spend = spend, rd_pool = [], rd_pool_sha256 = h_pool h [],
     rd_registered_at = fq_now fq, rd_actor = fq_actor fq, rd_budget = cap, rd_descriptive = [],
     rd_author_model = [], rd_changes = [], rd_max_reruns = forward_reruns fq, rd_reading_id = [],
     rd_pool_rule = POOL_RULE_CALIBRATION, rd_org_class = [], rd_promotes = rd_reading_id base,
     rd_budget_cell = fst (snd (budget_key base)), rd_hypothesis = fq_hypothesis fq,
     rd_smallest_effect = fq_smallest_effect fq, rd_campaign_id = [], rd_attempt_rule = fst rule_profile,
     rd_budget_profile = snd rule_profile, rd_lint_digest = fq_lint_digest fq, rd_pool_posture_id = [],
     rd_pool_qualifications = [], rd_enrolled = [], rd_admitted = None, rd_registered_event_id = 0,
     rd_reservations = None, rd_pool_drift = []\<rparr>"

definition register_forward :: "hashes \<Rightarrow> reading_outcome \<Rightarrow> forward_request \<Rightarrow> rat result \<Rightarrow> reading list \<Rightarrow> reading result" where
  "register_forward h ceiling_outcome fq budget existing =
     (if oc_state ceiling_outcome \<noteq> OUTCOME_CEILING then Inl (ReadingRefused REFUSAL_NOT_A_CEILING)
      else let base = oc_reading ceiling_outcome in
        bind_result (validate (forward_cell base fq) [base_str S2] [] (fq_rule fq) [] [] True) (\<lambda>why.
        if why \<noteq> [] then Inl (ReadingRefused REFUSAL_INVALID)
        else bind_result (attempt_rule_of (fq_attempt_rule fq) (forward_reruns fq) (fq_budget_profile fq)) (\<lambda>chosen.
          bind_result budget (\<lambda>cap.
          bind_result (rule_spend (fq_rule fq)) (\<lambda>spend.
          let rd = forward_reading h base fq chosen cap spend in
          bind_result (refuse_twin rd existing) (\<lambda>_.
          bind_result (refuse_over_budget existing (budget_key base) spend cap) (\<lambda>_. Inr rd)))))))"

subsection \<open>What is read into a reading later\<close>

record held_out_record =
  ho_record_id :: string
  ho_item_id :: string
  ho_repo :: string
  ho_capability_class :: string
  ho_size :: string
  ho_language :: string
  ho_written_at :: string

definition enrols :: "iso_reader \<Rightarrow> reading \<Rightarrow> held_out_record \<Rightarrow> bool" where
  "enrols fromiso rd rec \<longleftrightarrow> after_registration fromiso rd (ho_written_at rec) \<and> ho_repo rec = rd_repo rd \<and>
     ho_capability_class rec = dget (rd_cell rd) ''capability_class'' [] \<and>
     ho_size rec = dget (rd_cell rd) ''size'' [] \<and> ho_language rec = dget (rd_cell rd) ''language'' [] \<and>
     ho_item_id rec \<noteq> []"

fun enrol :: "iso_reader \<Rightarrow> reading \<Rightarrow> held_out_record list \<Rightarrow> string list \<Rightarrow> dict \<Rightarrow> string list \<times> dict" where
  "enrol fromiso rd [] items records = (items, records)"
| "enrol fromiso rd (rec # recs) items records =
     (if enrols fromiso rd rec \<and> ho_item_id rec \<notin> set items
      then enrol fromiso rd recs (items @ [ho_item_id rec]) (records @ [(ho_item_id rec, ho_record_id rec)])
      else enrol fromiso rd recs items records)"

definition with_enrolment :: "iso_reader \<Rightarrow> reading \<Rightarrow> held_out_record list \<Rightarrow> reading" where
  "with_enrolment fromiso rd recs = (if \<not> prospective rd then rd
     else case enrol fromiso rd recs [] [] of (items, records) \<Rightarrow> rd\<lparr>rd_pool := items, rd_enrolled := records\<rparr>)"

definition with_admissions :: "reading \<Rightarrow> string list \<Rightarrow> reading" where
  "with_admissions rd run_ids = (if rd_campaign_id rd = [] then rd
     else rd\<lparr>rd_admitted := Some (filter (\<lambda>r. r \<noteq> []) run_ids)\<rparr>)"

definition keep_first :: "reservations \<Rightarrow> reservation \<Rightarrow> reservations" where
  "keep_first first res = (let key = (rs_arm res, rs_task_id res) in
     case map_of first key of None \<Rightarrow> AList.update key res first
     | Some kept \<Rightarrow> if rs_event_seq_id res < rs_event_seq_id kept then AList.update key res first else first)"

definition with_reservations :: "reading \<Rightarrow> reservation list \<Rightarrow> int \<Rightarrow> reading" where
  "with_reservations rd rs registered_event_id = (if \<not> reserved rd then rd
     else rd\<lparr>rd_reservations := Some (foldl keep_first [] rs), rd_registered_event_id := registered_event_id\<rparr>)"

end
