(* ===== verification/Look_Rule_Correct.thy ===== *)
theory Look_Rule_Correct
  imports Look_Rule
begin

section \<open>What a look decides, and how often it is wrong\<close>

text \<open>
  The dynamic programme is the sum over every sequence of outcomes, a registered rule certifies a
  cell at the null rate with at most the published chance, and a decision rests on a contiguous
  prefix of the order that nothing later changes.
\<close>

subsection \<open>Well-formed rules\<close>

definition rule_ok :: "looks \<Rightarrow> bool" where
  "rule_ok l \<longleftrightarrow> l \<noteq> [] \<and> distinct (map fst l) \<and> list_all (\<lambda>(n, m). 0 < n \<and> n \<le> last_look l \<and> m \<le> last_misses l) l"

lemma last_look_in: "l \<noteq> [] \<Longrightarrow> last_look l \<in> set (map fst l)"
  unfolding last_look_def by (rule Max_in) simp_all

lemma look_met_last: "l \<noteq> [] \<Longrightarrow> look_met l (last_look l) m \<longleftrightarrow> m \<le> last_misses l"
proof -
  assume "l \<noteq> []"
  then have "map_of l (last_look l) \<noteq> None" using last_look_in by (simp add: map_of_eq_None_iff)
  then show ?thesis by (auto simp: look_met_def last_misses_def)
qed

lemma look_met_mono: "look_met l n m' \<Longrightarrow> m \<le> m' \<Longrightarrow> look_met l n m"
  by (auto simp: look_met_def split: option.splits)

lemma look_met_le: "rule_ok l \<Longrightarrow> look_met l n m \<Longrightarrow> n \<le> last_look l \<and> m \<le> last_misses l"
  by (auto simp: look_met_def rule_ok_def list_all_iff split: option.splits dest!: map_of_SomeD)

lemma rule_looks_eval:
  "last_look [(20, 0), (30, 1), (40, 2)] = 40" "last_look [(20, 0), (30, 0), (40, 1)] = 40"
  "last_look [(30, 0), (40, 1)] = 40"
  "last_misses [(20, 0), (30, 1), (40, 2)] = 2" "last_misses [(20, 0), (30, 0), (40, 1)] = 1"
  "last_misses [(30, 0), (40, 1)] = 1"
  by (simp_all add: last_look_def last_misses_def)

lemma rule_looks_cases:
  assumes "rule_looks rule = Inr l"
  obtains "rule = RULE_LOOK_V1" "l = [(20, 0), (30, 1), (40, 2)]"
    | "rule = RULE_LOOK_V1_STRICT" "l = [(20, 0), (30, 0), (40, 1)]"
    | "rule = RULE_LOOK_V1_LATE" "l = [(30, 0), (40, 1)]"
  using assms by (auto simp: rule_looks_def RULES_def split: option.splits if_splits)

lemma rule_looks_ok: "rule_looks rule = Inr l \<Longrightarrow> rule_ok l"
  by (elim rule_looks_cases) (simp_all add: rule_ok_def last_look_def last_misses_def)

subsection \<open>The value of a state\<close>

text \<open>The chance to deliver with \<open>r\<close> commits left after \<open>k\<close> commits with \<open>m\<close> misses: what one more
  commit is worth, and the same by summing over every sequence of outcomes.\<close>

definition stop_value :: "looks \<Rightarrow> nat \<Rightarrow> nat \<Rightarrow> rat \<Rightarrow> rat" where
  "stop_value l n m v = (if m > last_misses l then 0 else if look_met l n m then 1 else v)"

fun value_of :: "looks \<Rightarrow> rat \<Rightarrow> nat \<Rightarrow> nat \<Rightarrow> nat \<Rightarrow> rat" where
  "value_of l p k m 0 = 0"
| "value_of l p k m (Suc r) =
     p * stop_value l (k + 1) m (value_of l p (k + 1) m r) +
     (1 - p) * stop_value l (k + 1) (m + 1) (value_of l p (k + 1) (m + 1) r)"

definition weigh :: "rat weights \<Rightarrow> (nat \<Rightarrow> rat) \<Rightarrow> rat" where
  "weigh ws f = sum_list (map (\<lambda>(m, pr). pr * f m) ws)"

lemma weigh_add: "weigh (add_weight ws m pr) f = weigh ws f + pr * f m"
  by (induction ws m pr rule: add_weight.induct) (auto simp: weigh_def algebra_simps)

lemma weigh_draw:
  "draw l n m2 pr2 (nxt, d) = (nxt', d') \<Longrightarrow> d' + weigh nxt' f = d + weigh nxt f + pr2 * stop_value l n m2 (f m2)"
  by (auto simp: draw_def stop_value_def weigh_add split: if_splits)

lemma weigh_draw_all:
  "draw_all l n p (1 - p) ws (nxt, d) = (nxt', d') \<Longrightarrow>
     d' + weigh nxt' f = d + weigh nxt f +
       weigh ws (\<lambda>m. p * stop_value l n m (f m) + (1 - p) * stop_value l n (m + 1) (f (m + 1)))"
proof (induction ws arbitrary: nxt d)
  case Nil
  then show ?case by (simp add: weigh_def)
next
  case (Cons a ws)
  obtain m pr where a: "a = (m, pr)" by (cases a)
  obtain n1 d1 where 1: "draw l n m (pr * p) (nxt, d) = (n1, d1)" by fastforce
  obtain n2 d2 where 2: "draw l n (m + 1) (pr * (1 - p)) (n1, d1) = (n2, d2)" by fastforce
  have "draw_all l n p (1 - p) ws (n2, d2) = (nxt', d')" using Cons.prems 1 2 by (simp add: a)
  from Cons.IH [OF this] weigh_draw [OF 1, of f] weigh_draw [OF 2, of f] show ?case
    by (simp add: a weigh_def algebra_simps)
qed

lemma dp_value: "dp_loop l p (k + 1) r ws d = d + weigh ws (\<lambda>m. value_of l p k m r)"
proof (induction r arbitrary: k ws d)
  case 0
  have "weigh ws (\<lambda>m. 0) = 0" by (induction ws) (auto simp: weigh_def)
  then show ?case by simp
next
  case (Suc r)
  obtain nxt d' where s: "draw_all l (k + 1) p (1 - p) ws ([], d) = (nxt, d')" by fastforce
  have "dp_loop l p (k + 1) (Suc r) ws d = dp_loop l p (k + 1 + 1) r nxt d'"
    unfolding dp_loop.simps s prod.case ..
  also have "\<dots> = d' + weigh nxt (\<lambda>m. value_of l p (k + 1) m r)" by (rule Suc.IH)
  also have "\<dots> = d + weigh ws (\<lambda>m. value_of l p k m (Suc r))"
    using weigh_draw_all [OF s, of "\<lambda>m. value_of l p (k + 1) m r"] by (simp add: weigh_def)
  finally show ?case .
qed

lemma p_deliver_value:
  "rule_looks rule = Inr l \<Longrightarrow> p_deliver rule p pool =
     Inr (value_of l p 0 0 (case pool of Some k \<Rightarrow> k | None \<Rightarrow> last_look l))"
  using dp_value [of l p 0 _ "[(0, 1)]" 0] by (simp add: p_deliver_def weigh_def)

subsection \<open>The sum over all outcomes\<close>

fun all_outcomes :: "nat \<Rightarrow> bool list list" where
  "all_outcomes 0 = [[]]"
| "all_outcomes (Suc r) = map ((#) True) (all_outcomes r) @ map ((#) False) (all_outcomes r)"

definition chance :: "rat \<Rightarrow> bool list \<Rightarrow> rat" where
  "chance p os = p ^ count_if id os * (1 - p) ^ count_if Not os"

definition walk_delivers :: "walked \<Rightarrow> bool" where
  "walk_delivers w \<longleftrightarrow> (case w of Decided st \<Rightarrow> lk_state st = STATE_DELIVER | Stopped _ _ _ \<Rightarrow> False)"

lemma deliver_not_insufficient [simp]: "STATE_INSUFFICIENT \<noteq> STATE_DELIVER" "STATE_DELIVER \<noteq> STATE_INSUFFICIENT"
  by (simp_all add: STATE_INSUFFICIENT_def STATE_DELIVER_def)

definition deliver_sum :: "looks \<Rightarrow> rat \<Rightarrow> nat \<Rightarrow> nat \<Rightarrow> nat \<Rightarrow> nat \<Rightarrow> rat" where
  "deliver_sum l p r k c m = sum_list (map (\<lambda>os. chance p os *
     (if walk_delivers (walk l (map Some os) k c m) then 1 else 0)) (all_outcomes r))"

lemma chance_sum: "sum_list (map (chance p) (all_outcomes r)) = 1"
proof (induction r)
  case (Suc r)
  have "sum_list (map (chance p) (all_outcomes (Suc r))) =
      p * sum_list (map (chance p) (all_outcomes r)) + (1 - p) * sum_list (map (chance p) (all_outcomes r))"
    by (simp add: comp_def chance_def sum_list_const_mult [symmetric] mult_ac)
  with Suc show ?case by (simp add: algebra_simps)
qed (simp add: chance_def)

lemma deliver_branch:
  "sum_list (map (\<lambda>os. chance p os * (if walk_delivers
      (if m > last_misses l then Decided a else if look_met l n m then Decided b else walk l (map Some os) n c m)
      then 1 else 0)) (all_outcomes r)) =
   stop_value l n m (deliver_sum l p r n c m)"
  if "lk_state a = STATE_INSUFFICIENT" "lk_state b = STATE_DELIVER"
  using that chance_sum [of p r]
  by (simp add: stop_value_def walk_delivers_def deliver_sum_def)

lemma deliver_sum_value: "deliver_sum l p r k c m = value_of l p k m r"
proof (induction r arbitrary: k c m)
  case 0
  then show ?case by (simp add: deliver_sum_def walk_delivers_def)
next
  case (Suc r)
  let ?w = "\<lambda>o' os. if walk_delivers (walk l (map Some (o' # os)) k c m) then 1 else (0 :: rat)"
  have "deliver_sum l p (Suc r) k c m =
      p * sum_list (map (\<lambda>os. chance p os * ?w True os) (all_outcomes r)) +
      (1 - p) * sum_list (map (\<lambda>os. chance p os * ?w False os) (all_outcomes r))"
    by (simp add: deliver_sum_def comp_def chance_def sum_list_const_mult [symmetric] mult_ac)
  also have "sum_list (map (\<lambda>os. chance p os * ?w True os) (all_outcomes r)) =
      stop_value l (k + 1) m (deliver_sum l p r (k + 1) (c + 1) m)"
    unfolding walk.simps list.map Let_def if_True by (rule deliver_branch) simp_all
  also have "sum_list (map (\<lambda>os. chance p os * ?w False os) (all_outcomes r)) =
      stop_value l (k + 1) (m + 1) (deliver_sum l p r (k + 1) c (m + 1))"
    unfolding walk.simps list.map Let_def if_False by (rule deliver_branch) simp_all
  finally show ?case by (simp add: Suc.IH)
qed

subsection \<open>The value is monotone\<close>

lemma value_bounds: "0 \<le> p \<Longrightarrow> p \<le> 1 \<Longrightarrow> 0 \<le> value_of l p k m r \<and> value_of l p k m r \<le> 1"
proof (induction r arbitrary: k m)
  case (Suc r)
  have s: "0 \<le> stop_value l n i (value_of l p n i r) \<and> stop_value l n i (value_of l p n i r) \<le> 1" for n i
    using Suc by (simp add: stop_value_def)
  have "p * stop_value l (k + 1) m (value_of l p (k + 1) m r) +
      (1 - p) * stop_value l (k + 1) (m + 1) (value_of l p (k + 1) (m + 1) r) \<le> p * 1 + (1 - p) * 1"
    using s Suc.prems by (intro add_mono mult_left_mono) auto
  then show ?case using s Suc.prems by simp
qed simp

lemma stop_value_mono:
  assumes "a \<le> b" and "0 \<le> a" and "a \<le> 1" and "0 \<le> b" and "b \<le> 1" and "m \<le> m'"
  shows "stop_value l n m' a \<le> stop_value l n m b"
  using assms look_met_mono [of l n m' m] by (auto simp: stop_value_def)

lemma stop_value_le: "a \<le> b \<Longrightarrow> stop_value l n m a \<le> stop_value l n m b"
  by (simp add: stop_value_def)

lemma value_fewer_misses:
  assumes "0 \<le> p" and "p \<le> 1"
  shows "value_of l p k (m + 1) r \<le> value_of l p k m r"
proof (induction r arbitrary: k m)
  case (Suc r)
  have "stop_value l (k + 1) (i + 1) (value_of l p (k + 1) (i + 1) r) \<le>
      stop_value l (k + 1) i (value_of l p (k + 1) i r)" for i
    using Suc.IH [of "k + 1" i] value_bounds [OF assms] by (intro stop_value_mono) auto
  from this [of m] this [of "m + 1"] show ?case
    using assms by (simp only: value_of.simps) (intro add_mono mult_left_mono; simp)
qed simp

lemma value_mono_p:
  assumes "0 \<le> p" and "p \<le> q" and "q \<le> 1"
  shows "value_of l p k m r \<le> value_of l q k m r"
proof (induction r arbitrary: k m)
  case (Suc r)
  define a where "a = stop_value l (k + 1) m (value_of l q (k + 1) m r)"
  define b where "b = stop_value l (k + 1) (m + 1) (value_of l q (k + 1) (m + 1) r)"
  have q01: "0 \<le> q" "q \<le> 1" and p01: "0 \<le> p" "p \<le> 1" using assms by auto
  have step: "stop_value l (k + 1) i (value_of l p (k + 1) i r) \<le> stop_value l (k + 1) i (value_of l q (k + 1) i r)" for i
    using Suc.IH [of "k + 1" i] value_bounds [OF q01] value_bounds [OF p01] by (intro stop_value_mono) auto
  have "b \<le> a"
    unfolding a_def b_def
    using value_fewer_misses [OF q01] value_bounds [OF q01] by (intro stop_value_mono) auto
  have "value_of l p k m (Suc r) \<le> p * a + (1 - p) * b"
    using step [of m] step [of "m + 1"] p01
    by (simp only: value_of.simps a_def b_def) (intro add_mono mult_left_mono; simp)
  also have "\<dots> = b + p * (a - b)" by (simp add: algebra_simps)
  also have "\<dots> \<le> b + q * (a - b)" using \<open>b \<le> a\<close> assms(2) by (simp add: mult_right_mono)
  also have "\<dots> = value_of l q k m (Suc r)" by (simp add: a_def b_def algebra_simps)
  finally show ?case .
qed simp

lemma value_more_draws:
  assumes "0 \<le> p" and "p \<le> 1"
  shows "value_of l p k m r \<le> value_of l p k m (Suc r)"
proof (induction r arbitrary: k m)
  case 0
  show ?case using value_bounds [OF assms, of l k m "Suc 0"] by simp
next
  case (Suc r)
  have "stop_value l (k + 1) i (value_of l p (k + 1) i r) \<le>
      stop_value l (k + 1) i (value_of l p (k + 1) i (Suc r))" for i
    by (rule stop_value_le) (rule Suc.IH)
  from this [of m] this [of "m + 1"] show ?case
    using assms by (subst (1 2) value_of.simps(2)) (intro add_mono mult_left_mono; simp)
qed

text \<open>Nothing is left to decide at the last look, so a longer pool adds nothing.\<close>

lemma value_past_last:
  assumes "rule_ok l" and "0 \<le> p" and "p \<le> 1" and "k < last_look l"
  shows "value_of l p k m r \<le> value_of l p k m (last_look l - k)"
  using assms(4)
proof (induction r arbitrary: k m)
  case 0
  then show ?case using value_bounds [OF assms(2,3)] by simp
next
  case (Suc r)
  have left: "last_look l - k = Suc (last_look l - (k + 1))" using Suc.prems by simp
  have "stop_value l (k + 1) i (value_of l p (k + 1) i r) \<le>
      stop_value l (k + 1) i (value_of l p (k + 1) i (last_look l - (k + 1)))" for i
  proof (cases "k + 1 = last_look l")
    case True
    have "l \<noteq> []" using assms(1) by (simp add: rule_ok_def)
    from look_met_last [OF this] show ?thesis unfolding stop_value_def True by simp
  next
    case False
    then have "k + 1 < last_look l" using Suc.prems by simp
    then show ?thesis by (intro stop_value_le Suc.IH)
  qed
  from this [of m] this [of "m + 1"] show ?case
    using assms(2,3) unfolding left by (subst (1 2) value_of.simps(2)) (intro add_mono mult_left_mono; simp)
qed

subsection \<open>Evaluating a spend on whole numbers\<close>

definition scaled :: "rat \<Rightarrow> int weights \<Rightarrow> rat weights" where
  "scaled c ws = map (\<lambda>(m, i). (m, of_int i / c)) ws"

lemma scaled_add: "c \<noteq> 0 \<Longrightarrow> add_weight (scaled c ws) m (of_int i / c) = scaled c (add_weight ws m i)"
  by (induction ws m i rule: add_weight.induct) (auto simp: scaled_def add_divide_distrib)

lemma scaled_draw:
  "c \<noteq> 0 \<Longrightarrow> draw l n m i (nxt, d) = (nxt', d') \<Longrightarrow>
     draw l n m (of_int i / c) (scaled c nxt, of_int d / c) = (scaled c nxt', of_int d' / c)"
  by (auto simp: draw_def scaled_add add_divide_distrib split: if_splits)

lemma scaled_draw_all:
  assumes "s \<noteq> 0" and "t \<noteq> 0"
  shows "draw_all l n a b ws (nxt, d) = (nxt', d') \<Longrightarrow>
     draw_all l n (of_int a / s) (of_int b / s) (scaled t ws) (scaled (t * s) nxt, of_int d / (t * s)) =
       (scaled (t * s) nxt', of_int d' / (t * s))"
proof (induction ws arbitrary: nxt d)
  case Nil
  then show ?case by (simp add: scaled_def)
next
  case (Cons w ws)
  obtain m i where w: "w = (m, i)" by (cases w)
  have c: "t * s \<noteq> 0" using assms by simp
  obtain n1 d1 where 1: "draw l n m (i * a) (nxt, d) = (n1, d1)" by fastforce
  obtain n2 d2 where 2: "draw l n (m + 1) (i * b) (n1, d1) = (n2, d2)" by fastforce
  have "draw_all l n a b ws (n2, d2) = (nxt', d')" using Cons.prems 1 2 by (simp add: w)
  from Cons.IH [OF this] scaled_draw [OF c 1] scaled_draw [OF c 2] show ?case
    by (simp add: w scaled_def)
qed

fun dp_int :: "looks \<Rightarrow> int \<Rightarrow> int \<Rightarrow> nat \<Rightarrow> nat \<Rightarrow> int weights \<Rightarrow> int \<Rightarrow> int" where
  "dp_int l a b n 0 ws d = d"
| "dp_int l a b n (Suc r) ws d =
     (case draw_all l n a b ws ([], d * (a + b)) of (nxt, d) \<Rightarrow> dp_int l a b (n + 1) r nxt d)"

lemma dp_scaled:
  assumes "0 < a + b" and "t \<noteq> 0"
  shows "dp_loop l (of_int a / of_int (a + b)) n r (scaled t ws) (of_int d / t) =
    of_int (dp_int l a b n r ws d) / (t * of_int (a + b) ^ r)"
  using assms(2)
proof (induction r arbitrary: n ws d t)
  case (Suc r)
  let ?s = "of_int (a + b) :: rat"
  have s: "?s \<noteq> 0" using assms(1) by linarith
  have q: "1 - of_int a / ?s = of_int b / ?s" using s by (simp add: field_simps)
  obtain nxt d' where i: "draw_all l n a b ws ([], d * (a + b)) = (nxt, d')" by fastforce
  have dd: "of_int d / t = of_int (d * (a + b)) / (t * ?s)" using s Suc.prems by simp
  have e: "[] = scaled (t * ?s) []" by (simp add: scaled_def)
  have "draw_all l n (of_int a / ?s) (of_int b / ?s) (scaled t ws) ([], of_int d / t) =
      (scaled (t * ?s) nxt, of_int d' / (t * ?s))"
    unfolding dd e by (rule scaled_draw_all [OF s Suc.prems i])
  then have "dp_loop l (of_int a / ?s) n (Suc r) (scaled t ws) (of_int d / t) =
      dp_loop l (of_int a / ?s) (n + 1) r (scaled (t * ?s) nxt) (of_int d' / (t * ?s))"
    unfolding dp_loop.simps q by simp
  also have "\<dots> = of_int (dp_int l a b (n + 1) r nxt d') / ((t * ?s) * ?s ^ r)"
    using s Suc.prems by (intro Suc.IH) simp
  finally show ?case unfolding dp_int.simps i prod.case by (simp add: mult_ac)
qed simp

lemma dp_int_numeral:
  "dp_int l a b n (numeral v) ws d =
     (case draw_all l n a b ws ([], d * (a + b)) of (nxt, d) \<Rightarrow> dp_int l a b (n + 1) (pred_numeral v) nxt d)"
  by (simp add: numeral_eq_Suc)

lemma dp_int_one:
  "dp_int l a b n 1 ws d = snd (draw_all l n a b ws ([], d * (a + b)))"
  by (simp add: One_nat_def split: prod.splits)

lemma spends:
  "dp_int [(20, 0), (30, 1), (40, 2)] 4 1 1 40 [(0, 1)] 0 * 20 \<le> 5 ^ 40"
  "dp_int [(20, 0), (30, 0), (40, 1)] 4 1 1 40 [(0, 1)] 0 * 20 \<le> 5 ^ 40"
  "dp_int [(30, 0), (40, 1)] 4 1 1 40 [(0, 1)] 0 * 20 \<le> 5 ^ 40"
  by (simp_all add: dp_int_numeral dp_int_one draw_def look_met_def rule_looks_eval del: One_nat_def)

lemma spend_bound: "rule_looks rule = Inr l \<Longrightarrow> value_of l (4 / 5) 0 0 (last_look l) \<le> 1 / 20"
proof -
  assume l: "rule_looks rule = Inr l"
  have d: "value_of l (4 / 5) 0 0 (last_look l) = of_int (dp_int l 4 1 1 (last_look l) [(0, 1)] 0) / 5 ^ last_look l"
    using dp_scaled [of 4 1 1 l 1 "last_look l" "[(0, 1)]" 0] dp_value [of l "4 / 5" 0 "last_look l" "[(0, 1)]" 0]
    by (simp add: scaled_def weigh_def)
  have "dp_int l 4 1 1 (last_look l) [(0, 1)] 0 * 20 \<le> 5 ^ last_look l"
    using l by (elim rule_looks_cases) (simp_all only: rule_looks_eval spends)
  then have "of_int (dp_int l 4 1 1 (last_look l) [(0, 1)] 0 * 20) \<le> (of_int (5 ^ last_look l) :: rat)"
    by (simp only: of_int_le_iff)
  then show ?thesis unfolding d by (simp add: field_simps)
qed

subsection \<open>What the walk read\<close>

definition misses_in :: "bool option list \<Rightarrow> nat" where
  "misses_in os = count_if (\<lambda>c. c = Some False) os"

definition clean_in :: "bool option list \<Rightarrow> nat" where
  "clean_in os = count_if (\<lambda>c. c = Some True) os"

lemma walk_decided:
  "walk l os k c m = Decided st \<Longrightarrow> \<exists>pre suf. os = pre @ suf \<and> list_all (\<lambda>o'. o' \<noteq> None) pre \<and>
     lk_counted st = k + length pre \<and> lk_clean st = c + clean_in pre \<and> lk_misses st = m + misses_in pre \<and>
     lk_decided_at st = Some (lk_counted st) \<and> lk_next_look st = None \<and>
     (if lk_misses st > last_misses l then lk_state st = STATE_INSUFFICIENT
      else lk_state st = STATE_DELIVER \<and> look_met l (lk_counted st) (lk_misses st)) \<and>
     (\<forall>suf'. walk l (pre @ suf') k c m = Decided st)"
proof (induction l os k c m rule: walk.induct)
  case (3 l o' os k c m)
  let ?c = "if o' then c + 1 else c" and ?m = "if o' then m else m + 1"
  show ?case
  proof (cases "?m > last_misses l \<or> look_met l (k + 1) ?m")
    case True
    with "3.prems" have "lk_counted st = k + 1" "lk_clean st = ?c" "lk_misses st = ?m"
      "lk_decided_at st = Some (k + 1)" "lk_next_look st = None"
      "if ?m > last_misses l then lk_state st = STATE_INSUFFICIENT
       else lk_state st = STATE_DELIVER \<and> look_met l (k + 1) ?m"
      "\<forall>suf'. walk l ([Some o'] @ suf') k c m = Decided st"
      by (auto simp: Let_def split: if_splits)
    then show ?thesis
      by - (rule exI [of _ "[Some o']"], rule exI [of _ os], auto simp: clean_in_def misses_in_def)
  next
    case False
    then have w: "walk l (Some o' # xs) k c m = walk l xs (k + 1) ?c ?m" for xs
      by (auto simp: Let_def)
    from "3.prems" have "walk l os (k + 1) ?c ?m = Decided st" by (simp only: w)
    from "3.IH" [OF refl refl refl _ _ this] False obtain pre suf where
      "os = pre @ suf" "list_all (\<lambda>o'. o' \<noteq> None) pre" "lk_counted st = k + 1 + length pre"
      "lk_clean st = ?c + clean_in pre" "lk_misses st = ?m + misses_in pre"
      "lk_decided_at st = Some (lk_counted st)" "lk_next_look st = None"
      "if lk_misses st > last_misses l then lk_state st = STATE_INSUFFICIENT
       else lk_state st = STATE_DELIVER \<and> look_met l (lk_counted st) (lk_misses st)"
      "\<forall>suf'. walk l (pre @ suf') (k + 1) ?c ?m = Decided st"
      by blast
    then show ?thesis
      by - (rule exI [of _ "Some o' # pre"], rule exI [of _ suf], auto simp: w clean_in_def misses_in_def simp del: walk.simps(3))
  qed
qed simp_all

lemma walk_stopped:
  "walk l os k c m = Stopped k' c' m' \<Longrightarrow> rule_ok l \<Longrightarrow> m \<le> last_misses l \<Longrightarrow> k < last_look l \<Longrightarrow>
     m' \<le> last_misses l \<and> k' < last_look l"
proof (induction l os k c m rule: walk.induct)
  case (3 l o' os k c m)
  let ?c = "if o' then c + 1 else c" and ?m = "if o' then m else m + 1"
  have ok: "\<not> ?m > last_misses l" "\<not> look_met l (k + 1) ?m"
    using "3.prems"(1) by (auto simp: Let_def split: if_splits)
  have "l \<noteq> []" using "3.prems"(2) by (simp add: rule_ok_def)
  then have "k + 1 \<noteq> last_look l" using ok look_met_last [of l ?m] by auto
  then have "k + 1 < last_look l" using "3.prems"(4) by simp
  moreover have "walk l os (k + 1) ?c ?m = Stopped k' c' m'" using "3.prems"(1) ok by (auto simp: Let_def)
  ultimately show ?case using "3.IH" [OF refl refl refl ok] "3.prems"(2) ok(1) by simp
qed simp_all

lemma look_state_total:
  assumes "rule_looks rule = Inr l"
  shows "\<exists>st. look_state outcomes rule open_pool = Inr st"
proof (cases "walk l outcomes 0 0 0")
  case (Decided st)
  then show ?thesis by (simp add: look_state_def assms)
next
  case (Stopped k c m)
  have ok: "rule_ok l" by (rule rule_looks_ok [OF assms])
  then have ne: "l \<noteq> []" "0 < last_look l"
    using last_look_in [of l] by (auto simp: rule_ok_def list_all_iff)
  from walk_stopped [OF Stopped ok] ne(2) have "m \<le> last_misses l" "k < last_look l" by simp_all
  then have "last_look l \<in> set (filter (\<lambda>n. n > k \<and> look_met l n m) (sort (map fst l)))"
    using last_look_in [OF ne(1)] look_met_last [OF ne(1)] by auto
  then obtain n ns where "filter (\<lambda>n. n > k \<and> look_met l n m) (sort (map fst l)) = n # ns"
    by (cases "filter (\<lambda>n. n > k \<and> look_met l n m) (sort (map fst l))") auto
  then show ?thesis by (simp add: look_state_def assms Stopped Let_def)
qed

lemma look_state_decided:
  assumes "rule_looks rule = Inr l" and "look_state outcomes rule open_pool = Inr st" and "lk_decided_at st \<noteq> None"
  shows "walk l outcomes 0 0 0 = Decided st"
  using assms by (auto simp: look_state_def Let_def split: walked.splits list.splits if_splits)

lemma walk_stops_at: "walk l os k c m = Stopped k' c' m' \<Longrightarrow>
    k \<le> k' \<and> (k' - k = length os \<or> k' - k < length os \<and> os ! (k' - k) = None)"
proof (induction l os k c m rule: walk.induct)
  case (3 l o' os k c m)
  let ?c = "if o' then c + 1 else c" and ?m = "if o' then m else m + 1"
  have ok: "\<not> ?m > last_misses l" "\<not> look_met l (k + 1) ?m"
    using "3.prems" by (auto simp: Let_def split: if_splits)
  have "walk l os (k + 1) ?c ?m = Stopped k' c' m'" using "3.prems" ok by (auto simp: Let_def)
  from "3.IH" [OF refl refl refl ok this] have ih: "k + 1 \<le> k'"
    "k' - (k + 1) = length os \<or> k' - (k + 1) < length os \<and> os ! (k' - (k + 1)) = None" by auto
  then have "k' - k = Suc (k' - (k + 1))" by simp
  with ih show ?case by auto
qed simp_all

lemma pending_among_pos: "i < n \<Longrightarrow> i < length os \<Longrightarrow> os ! i = None \<Longrightarrow> 0 < pending_among n os"
proof -
  assume a: "i < n" "i < length os" "os ! i = None"
  then have "None \<in> set (take n os)" by (metis in_set_conv_nth length_take min_less_iff_conj nth_take)
  then show ?thesis
    by (auto simp: pending_among_def count_if_def filter_empty_conv)
qed

subsection \<open>The properties\<close>

definition delivers :: "look result \<Rightarrow> bool" where
  "delivers r \<longleftrightarrow> (case r of Inl _ \<Rightarrow> False | Inr st \<Rightarrow> lk_state st = STATE_DELIVER)"

text \<open>
  C9. The dynamic programme of a look rule computes exactly what it says, for every clean rate and
  every pool size: the sum, over all sequences of clean and missed commits the pool can draw, of the
  probability of the sequence where the walk over it delivers. An unregistered rule is refused.
\<close>

theorem p_deliver_exact:
  "p_deliver rule p pool = bind_result (rule_looks rule) (\<lambda>l. Inr (\<Sum>os\<leftarrow>all_outcomes
     (case pool of Some k \<Rightarrow> k | None \<Rightarrow> last_look l).
       chance p os * of_bool (delivers (look_state (map Some os) rule False))))"
proof (cases "rule_looks rule")
  case (Inr l)
  have d: "delivers (look_state (map Some os) rule False) = walk_delivers (walk l (map Some os) 0 0 0)" for os
    by (auto simp: delivers_def walk_delivers_def look_state_def Inr Let_def STATE_LOOK_PENDING_def
        STATE_UNDECIDED_def STATE_DELIVER_def split: walked.splits list.splits if_splits)
  show ?thesis
    using deliver_sum_value [of l p "case pool of Some k \<Rightarrow> k | None \<Rightarrow> last_look l" 0 0 0]
    by (simp add: p_deliver_value [OF Inr] Inr d deliver_sum_def of_bool_def)
qed (simp add: p_deliver_def)

lemma deliver_le_spend:
  assumes "rule_looks rule = Inr l" and "0 \<le> p" and "p \<le> NULL_RATE"
  shows "\<exists>x s. p_deliver rule p pool = Inr x \<and> rule_spend rule = Inr s \<and> 0 \<le> x \<and> x \<le> s \<and>
    s \<le> CELL_ERROR_BUDGET"
proof -
  define n where "n = (case pool of Some k \<Rightarrow> k | None \<Rightarrow> last_look l)"
  have ok: "rule_ok l" by (rule rule_looks_ok [OF assms(1)])
  have r: "NULL_RATE = 4 / 5" by (simp add: NULL_RATE_def)
  have p1: "p \<le> 1" using assms(3) by (simp add: NULL_RATE_def)
  have last: "0 < last_look l" using assms(1) by (elim rule_looks_cases) (simp_all add: last_look_def)
  have "value_of l p 0 0 n \<le> value_of l p 0 0 (last_look l)"
    using value_past_last [OF ok assms(2) p1 last, of 0 n] by simp
  also have "\<dots> \<le> value_of l (4 / 5) 0 0 (last_look l)"
    using assms(2,3) by (intro value_mono_p) (simp_all add: r)
  finally have le: "value_of l p 0 0 n \<le> value_of l (4 / 5) 0 0 (last_look l)" .
  show ?thesis
    using le value_bounds [OF assms(2) p1, of l 0 0 n] spend_bound [OF assms(1)]
    by (simp add: p_deliver_value [OF assms(1)] rule_spend_def r n_def CELL_ERROR_BUDGET_def)
qed

text \<open>
  C8. The promise of a reading's decision rule: whatever the pool size, a cell whose true clean rate
  is at most 0.80 is certified with probability at most what the rule spends, and no registered rule
  spends more than one cell's error budget of 0.05.
\<close>

theorem false_certification_bounded:
  assumes "rule_looks rule = Inr l" and "0 \<le> p" and "p \<le> NULL_RATE"
  shows "\<exists>x s. p_deliver rule p pool = Inr x \<and> rule_spend rule = Inr s \<and> 0 \<le> x \<and> x \<le> s \<and>
    s \<le> CELL_ERROR_BUDGET"
  by (rule deliver_le_spend [OF assms])

lemma false_certification_bounded_witness:
  "\<exists>x s. p_deliver RULE_LOOK_V1 (1 / 2) (Some 60) = Inr x \<and> rule_spend RULE_LOOK_V1 = Inr s \<and> 0 \<le> x \<and> x \<le> s \<and>
    s \<le> CELL_ERROR_BUDGET"
  by (rule false_certification_bounded [where l = "[(20, 0), (30, 1), (40, 2)]"])
    (simp_all add: rule_looks_def RULES_def NULL_RATE_def)

lemma look_decided_prefix:
  assumes "look_state outcomes rule open_pool = Inr st" and "lk_decided_at st \<noteq> None"
  obtains pre suf where "outcomes = map Some pre @ suf"
    "\<And>suf' open'. look_state (map Some pre @ suf') rule open' = Inr st"
    "lk_decided_at st = Some (length pre)" "lk_counted st = length pre"
    "lk_clean st = count_if id pre" "lk_misses st = count_if Not pre"
    "lk_state st \<in> {STATE_DELIVER, STATE_INSUFFICIENT}"
proof -
  obtain l where l: "rule_looks rule = Inr l"
    using assms(1) by (cases "rule_looks rule") (auto simp: look_state_def)
  have "walk l outcomes 0 0 0 = Decided st" by (rule look_state_decided [OF l assms])
  from walk_decided [OF this] obtain pre suf where w: "outcomes = pre @ suf" "list_all (\<lambda>o'. o' \<noteq> None) pre"
    "lk_counted st = length pre" "lk_clean st = clean_in pre" "lk_misses st = misses_in pre"
    "lk_decided_at st = Some (lk_counted st)"
    "if lk_misses st > last_misses l then lk_state st = STATE_INSUFFICIENT
     else lk_state st = STATE_DELIVER \<and> look_met l (lk_counted st) (lk_misses st)"
    "\<forall>suf'. walk l (pre @ suf') 0 0 0 = Decided st" by auto
  have pre: "map Some (map the pre) = pre" using w(2) by (auto simp: list_all_iff intro: map_idI)
  have counts: "clean_in (map Some bs) = count_if id bs" "misses_in (map Some bs) = count_if Not bs" for bs
    by (induction bs) (simp_all add: clean_in_def misses_in_def)
  show ?thesis
  proof (rule that [of "map the pre" suf])
    show "look_state (map Some (map the pre) @ suf') rule open' = Inr st" for suf' open'
      unfolding pre using w(8) by (simp add: look_state_def l)
    show "lk_clean st = count_if id (map the pre)" "lk_misses st = count_if Not (map the pre)"
      unfolding counts [symmetric] pre using w(4,5) .
    show "lk_state st \<in> {STATE_DELIVER, STATE_INSUFFICIENT}" using w(7) by (auto split: if_splits)
  qed (simp_all only: pre w length_map)
qed

text \<open>
  A decision is final: when a look has decided, it rests on a prefix of observed commits alone,
  its counts are the counts of that prefix, its state is deliver at a look that is met or
  insufficient past the last allowance, and any other continuation of the order, in a closed or an
  open pool, reads the very same decision.
\<close>

theorem look_decision_final:
  assumes "look_state outcomes rule open_pool = Inr st" and "lk_decided_at st = Some n"
  shows "\<exists>pre suf. outcomes = map Some pre @ suf \<and> length pre = n \<and> lk_counted st = n \<and>
    lk_clean st = count_if id pre \<and> lk_misses st = count_if Not pre \<and>
    lk_state st \<in> {STATE_DELIVER, STATE_INSUFFICIENT} \<and>
    (\<forall>suf' open'. look_state (map Some pre @ suf') rule open' = Inr st)"
proof -
  have "lk_decided_at st \<noteq> None" using assms(2) by simp
  from look_decided_prefix [OF assms(1) this] obtain pre suf where w: "outcomes = map Some pre @ suf"
    "\<And>suf' open'. look_state (map Some pre @ suf') rule open' = Inr st"
    "lk_decided_at st = Some (length pre)" "lk_counted st = length pre"
    "lk_clean st = count_if id pre" "lk_misses st = count_if Not pre"
    "lk_state st \<in> {STATE_DELIVER, STATE_INSUFFICIENT}" by metis
  show ?thesis
    by (rule exI [of _ pre], rule exI [of _ suf]) (use w assms(2) in auto)
qed

lemma look_decision_final_witness:
  "\<exists>pre suf. replicate 3 (Some False) @ [None] = map Some pre @ suf \<and> length pre = 3 \<and> (3 :: nat) = 3 \<and>
    (0 :: nat) = count_if id pre \<and> 3 = count_if Not pre \<and>
    STATE_INSUFFICIENT \<in> {STATE_DELIVER, STATE_INSUFFICIENT} \<and>
    (\<forall>suf' open'. look_state (map Some pre @ suf') RULE_LOOK_V1 open' = Inr \<lparr>lk_state = STATE_INSUFFICIENT,
      lk_counted = 3, lk_clean = 0, lk_misses = 3, lk_next_look = None, lk_needed = 0, lk_decided_at = Some 3\<rparr>)"
  using look_decision_final [of "replicate 3 (Some False) @ [None]" RULE_LOOK_V1 False "\<lparr>lk_state = STATE_INSUFFICIENT,
      lk_counted = 3, lk_clean = 0, lk_misses = 3, lk_next_look = None, lk_needed = 0, lk_decided_at = Some 3\<rparr>" 3]
  by (simp add: look_state_def rule_looks_def RULES_def numeral_3_eq_3 look_met_def last_misses_def last_look_def)

text \<open>
  A registered rule always reads a state, and a look that has not decided waits for something:
  the least later look its misses can still meet, with a positive number of commits still needed;
  only a closed pool too short for that look is undecided.
\<close>

theorem look_waits_for_a_look:
  assumes "rule_looks rule = Inr l"
  shows "\<exists>st. look_state outcomes rule open_pool = Inr st \<and> (lk_decided_at st = None \<longrightarrow>
    (\<exists>n. lk_next_look st = Some n \<and> lk_counted st < n \<and> look_met l n (lk_misses st) \<and>
      (\<forall>n'. lk_counted st < n' \<and> n' < n \<longrightarrow> \<not> look_met l n' (lk_misses st)) \<and> 0 < lk_needed st \<and>
      lk_state st \<in> {STATE_LOOK_PENDING, STATE_UNDECIDED} \<and>
      (lk_state st = STATE_UNDECIDED \<longleftrightarrow> \<not> open_pool \<and> length outcomes < n)))"
proof (cases "walk l outcomes 0 0 0")
  case (Decided st)
  from walk_decided [OF this] have "lk_decided_at st = Some (lk_counted st)" by auto
  then show ?thesis by (intro exI [of _ st]) (simp add: look_state_def assms Decided)
next
  case (Stopped k c m)
  have ok: "rule_ok l" by (rule rule_looks_ok [OF assms])
  then have ne: "l \<noteq> []" "0 < last_look l"
    using last_look_in [of l] by (auto simp: rule_ok_def list_all_iff)
  let ?f = "filter (\<lambda>n. n > k \<and> look_met l n m) (sort (map fst l))"
  from walk_stopped [OF Stopped ok] ne(2) have "m \<le> last_misses l" "k < last_look l" by simp_all
  then have "last_look l \<in> set ?f" using last_look_in [OF ne(1)] look_met_last [OF ne(1)] by auto
  then obtain n ns where f: "?f = n # ns" by (cases ?f) auto
  have "n \<in> set ?f" by (simp add: f)
  then have n: "k < n" "look_met l n m" by auto
  have "sorted ?f" by (intro sorted_wrt_filter sorted_sort)
  have least: "\<not> look_met l n' m" if "k < n'" "n' < n" for n'
  proof
    assume met: "look_met l n' m"
    then have "n' \<in> set ?f" using that(1) by (auto simp: look_met_def split: option.splits dest!: map_of_SomeD) force
    then have "n' \<in> set (n # ns)" by (simp only: f)
    moreover have "sorted (n # ns)" using \<open>sorted ?f\<close> by (simp only: f)
    ultimately show False using that(2) by auto
  qed
  have pos: "length outcomes \<le> k \<or> 0 < pending_among n outcomes"
    using walk_stops_at [OF Stopped] n(1) pending_among_pos [of k n outcomes] by auto
  show ?thesis
    using n least pos
    by (auto simp: look_state_def assms Stopped f Let_def STATE_LOOK_PENDING_def STATE_UNDECIDED_def)
qed

lemma look_waits_for_a_look_witness:
  "\<exists>st. look_state [Some True, None] RULE_LOOK_V1 False = Inr st \<and> (lk_decided_at st = None \<longrightarrow>
    (\<exists>n. lk_next_look st = Some n \<and> lk_counted st < n \<and> look_met [(20, 0), (30, 1), (40, 2)] n (lk_misses st) \<and>
      (\<forall>n'. lk_counted st < n' \<and> n' < n \<longrightarrow> \<not> look_met [(20, 0), (30, 1), (40, 2)] n' (lk_misses st)) \<and> 0 < lk_needed st \<and>
      lk_state st \<in> {STATE_LOOK_PENDING, STATE_UNDECIDED} \<and>
      (lk_state st = STATE_UNDECIDED \<longleftrightarrow> \<not> False \<and> length [Some True, None] < n)))"
  by (rule look_waits_for_a_look) (simp add: rule_looks_def RULES_def)

end
