(* ===== verification/Reading_Correct.thy ===== *)
theory Reading_Correct
  imports Reading Look_Rule_Correct Cell_Stats_Correct "HOL-Library.Multiset"
begin

section \<open>How an arm is read\<close>

text \<open>
  Under the reserved rule a commit is read by its reservation's row alone, in any row order. Under
  the legacy rule a decided look is not moved by later rows the arm could read. The loop pair reads
  every gap against the loop, and its p value is the exact binomial one.
\<close>

subsection \<open>Reading through the effects\<close>

lemma collect_rel:
  assumes "\<And>x. x \<in> set xs \<Longrightarrow> \<exists>y y'. f x = Inr y \<and> g x = Inr y' \<and> P y y'"
  shows "\<exists>ys ys'. collect f xs = Inr ys \<and> collect g xs = Inr ys' \<and> list_all2 P ys ys'"
  using assms
proof (induction xs)
  case (Cons x xs)
  from Cons.prems [of x] obtain y y' where 1: "f x = Inr y" "g x = Inr y'" "P y y'" by auto
  from Cons.IH Cons.prems obtain ys ys' where 2: "collect f xs = Inr ys" "collect g xs = Inr ys'"
    "list_all2 P ys ys'" by auto
  from 1 2 show ?case by simp
qed simp

lemma filter_result_all:
  assumes "\<And>x. x \<in> set xs \<Longrightarrow> P x = Inr (p x)"
  shows "filter_result P xs = Inr (filter p xs)"
proof -
  have "collect (\<lambda>x. bind_result (P x) (\<lambda>b. Inr (b, x))) xs = Inr (map (\<lambda>x. (p x, x)) xs)"
    using assms by (intro collect_all) simp
  moreover have "map snd (filter fst (map (\<lambda>x. (p x, x)) xs)) = filter p xs"
    by (induction xs) simp_all
  ultimately show ?thesis by (simp add: filter_result_def)
qed

lemma group_get_rows: "group_get (group_rows f xs) k = filter (\<lambda>x. f x = k) xs"
proof (cases "k \<in> f ` set xs")
  case True
  then have "map_of (map (\<lambda>k. (k, filter (\<lambda>r. f r = k) xs)) (dedup (map f xs))) k = Some (filter (\<lambda>r. f r = k) xs)"
    by (simp add: map_of_map_restrict)
  then show ?thesis by (simp add: group_get_def group_rows_spec)
next
  case False
  then have "map_of (map (\<lambda>k. (k, filter (\<lambda>r. f r = k) xs)) (dedup (map f xs))) k = None"
    by (auto simp: map_of_map_restrict)
  moreover have "filter (\<lambda>x. f x = k) xs = []" using False by (auto simp: filter_empty_conv)
  ultimately show ?thesis by (simp add: group_get_def group_rows_spec)
qed

lemma scope_miss_total:
  "parse_arm context_arm = Inr p \<Longrightarrow> \<exists>miss. \<forall>row. scope_miss fromiso rd context_arm row = Inr (miss row)"
  by (rule choice) (auto simp: scope_miss_def Let_def)

subsection \<open>The reserved attempt\<close>

lemma found_rows:
  assumes "map_of reservations k = Some res"
  shows "reserved_candidates rd res (group_get (stamped_rows reservations rows) (rs_event_id res)) =
    filter (reserved_candidate rd res) rows"
proof -
  have "rs_event_id res \<in> set (filter (\<lambda>e. e \<noteq> []) (map (rs_event_id \<circ> snd) reservations))"
    if "rs_event_id res \<noteq> []"
    using map_of_SomeD [OF assms] that by force
  then show ?thesis
    unfolding reserved_candidates_def stamped_rows_def Let_def group_get_rows filter_filter
    by (intro filter_cong refl) (auto simp: reserved_candidate_def)
qed

lemma reserved_verdict_total:
  assumes "parse_arm context_arm = Inr p"
  shows "\<exists>v. reserved_verdict fromiso rd context_arm res rows = Inr v"
proof -
  from scope_miss_total [OF assms, of fromiso rd] obtain miss where
    "\<And>row. scope_miss fromiso rd context_arm row = Inr (miss row)" by auto
  then have "row_verdict fromiso rd context_arm x r \<noteq> Inl e" for x r e
    by (simp add: row_verdict_def)
  then have "reserved_verdict fromiso rd context_arm res rows \<noteq> Inl e" for e
    by (simp add: reserved_verdict_def split: option.split list.split)
  then show ?thesis by (cases "reserved_verdict fromiso rd context_arm res rows") auto
qed

lemma same_size_lists:
  assumes "mset xs = mset ys"
  obtains "xs = []" "ys = []" | x where "xs = [x]" "ys = [x]"
    | x x' xs' y y' ys' where "xs = x # x' # xs'" "ys = y # y' # ys'"
proof -
  have l: "length xs = length ys" using assms by (metis size_mset)
  show ?thesis
  proof (cases xs)
    case Nil
    then show ?thesis using l that(1) by simp
  next
    case (Cons x xs')
    show ?thesis
    proof (cases xs')
      case Nil
      then have "ys = [x]" using assms Cons by (cases ys) auto
      then show ?thesis using Cons Nil that(2) by simp
    next
      case (Cons x' xs'')
      obtain y y' ys' where "ys = y # y' # ys'" using l Cons \<open>xs = x # xs'\<close>
        by (cases ys; cases "tl ys") auto
      then show ?thesis using Cons \<open>xs = x # xs'\<close> that(3) by blast
    qed
  qed
qed

lemma reserved_verdict_alike:
  assumes "mset (reserved_candidates rd res xs) = mset (reserved_candidates rd res ys)"
  shows "reserved_verdict fromiso rd context_arm (Some res) xs = reserved_verdict fromiso rd context_arm (Some res) ys"
  using assms by (cases rule: same_size_lists) (simp_all add: reserved_verdict_def)

text \<open>Two ledgers hold the same rows of every attempt the reading reserved.\<close>

definition same_reserved_rows :: "reading \<Rightarrow> grade_row list \<Rightarrow> grade_row list \<Rightarrow> bool" where
  "same_reserved_rows rd rows rows' \<longleftrightarrow> (\<forall>res \<in> snd ` set (rd_reservation_list rd).
     mset (filter (reserved_candidate rd res) rows) = mset (filter (reserved_candidate rd res) rows'))"

lemma reserved_commit_alike:
  assumes "parse_arm context_arm = Inr p" and "same_reserved_rows rd rows rows'" and "rd_reservation_list rd = R"
  shows "\<exists>y y'. reserved_commit fromiso rd context_arm R (stamped_rows R rows) att commit = Inr y \<and>
    reserved_commit fromiso rd context_arm R (stamped_rows R rows') att' commit = Inr y' \<and>
    fst y = fst y' \<and> cr_left (fst y) = []"
proof (cases "map_of R (context_arm, commit)")
  case None
  then show ?thesis by (simp add: reserved_commit_def reserved_verdict_def REASON_PENDING_def)
next
  case (Some res)
  let ?mine = "\<lambda>rows. group_get (stamped_rows R rows) (rs_event_id res)"
  have f: "reserved_candidates rd res (?mine rows) = filter (reserved_candidate rd res) rows" for rows
    by (rule found_rows [OF Some])
  have "res \<in> snd ` set R" using map_of_SomeD [OF Some] by force
  then have m: "mset (reserved_candidates rd res (?mine rows)) = mset (reserved_candidates rd res (?mine rows'))"
    using assms(2) unfolding f same_reserved_rows_def assms(3) by blast
  obtain outcome reason scope where
    v: "reserved_verdict fromiso rd context_arm (Some res) (?mine rows) = Inr (outcome, reason, scope)"
    using reserved_verdict_total [OF assms(1)] by (metis prod_cases3)
  moreover have v': "reserved_verdict fromiso rd context_arm (Some res) (?mine rows') = Inr (outcome, reason, scope)"
    using v reserved_verdict_alike [OF m] by simp
  moreover have "(case reserved_candidates rd res (?mine rows) of [r] \<Rightarrow> h r | _ \<Rightarrow> []) =
      (case reserved_candidates rd res (?mine rows') of [r] \<Rightarrow> h r | _ \<Rightarrow> [])" for h :: "grade_row \<Rightarrow> string"
    using m by (cases rule: same_size_lists) simp_all
  ultimately show ?thesis by (simp add: reserved_commit_def Some Let_def)
qed

lemma arm_attempt_total:
  assumes "parse_arm context_arm = Inr p"
  obtains att where "\<And>row. arm_attempt fromiso rd context_arm row = Inr (att row)"
proof -
  from scope_miss_total [OF assms, of fromiso rd] obtain miss where
    m: "\<And>row. scope_miss fromiso rd context_arm row = Inr (miss row)" by auto
  have "arm_attempt fromiso rd context_arm row = Inr (admitted_run rd row \<and>
      (if prospective rd then forward_attempt fromiso rd row else miss row = []))" for row
    by (simp add: arm_attempt_def in_scope_def m)
  then show ?thesis by (rule that)
qed

lemma arm_reserved_alike:
  assumes "parse_arm context_arm = Inr p" and "same_reserved_rows rd rows rows'"
    and "arm_reserved fromiso rd context_arm rows limit = Inr a"
  shows "\<exists>a'. arm_reserved fromiso rd context_arm rows' limit = Inr a' \<and>
    a'\<lparr>ar_duplicate_commits := 0\<rparr> = a\<lparr>ar_duplicate_commits := 0\<rparr> \<and> list_all (\<lambda>c. cr_left c = []) (ar_commits a)"
proof -
  let ?R = "rd_reservation_list rd" and ?units = "enrolled_upto rd context_arm limit"
  from arm_attempt_total [OF assms(1), of fromiso rd] obtain att where
    at: "\<And>row. arm_attempt fromiso rd context_arm row = Inr (att row)" by blast
  let ?g = "\<lambda>rows. group_rows (row_unit rd) (filter att (filter (\<lambda>r. row_unit rd r \<in> set ?units) rows))"
  let ?P = "\<lambda>y y'. fst y = fst y' \<and> cr_left (fst y) = []"
  let ?read = "\<lambda>rows. collect (reserved_commit fromiso rd context_arm ?R (stamped_rows ?R rows) (?g rows)) ?units"
  have "\<exists>ys ys'. ?read rows = Inr ys \<and> ?read rows' = Inr ys' \<and> list_all2 ?P ys ys'"
    by (rule collect_rel, rule reserved_commit_alike [OF assms(1,2) refl])
  then obtain ys ys' where c: "?read rows = Inr ys" "?read rows' = Inr ys'" "list_all2 ?P ys ys'" by blast
  have fs: "map fst ys' = map fst ys" using c(3) by (induction rule: list_all2_induct) auto
  have left: "list_all (\<lambda>c. cr_left c = []) (map fst ys)" using c(3) by (induction rule: list_all2_induct) auto
  show ?thesis
    using assms(3) left c(1,2) fs filter_result_all [of _ "arm_attempt fromiso rd context_arm" att, OF at]
    by (auto simp: arm_reserved_def Let_def simp del: filter_filter)
qed

lemma collect_names:
  "collect f xs = Inr ys \<Longrightarrow> (\<And>x y. f x = Inr y \<Longrightarrow> g y = x) \<Longrightarrow> map g ys = xs"
proof (induction xs arbitrary: ys)
  case (Cons x xs)
  from Cons.prems(1) obtain y zs where y: "f x = Inr y" "collect f xs = Inr zs" "ys = y # zs" by auto
  have "map g zs = xs" using Cons.IH [OF y(2)] Cons.prems(2) by blast
  then show ?case using Cons.prems(2) [OF y(1)] y(3) by simp
qed simp

lemma collect_total: "(\<And>x. x \<in> set xs \<Longrightarrow> \<exists>y. f x = Inr y) \<Longrightarrow> \<exists>ys. collect f xs = Inr ys"
  using collect_rel [of xs f f "\<lambda>_ _. True"] by blast

lemma reserved_commit_name:
  "reserved_commit fromiso rd context_arm R stamped att commit = Inr y \<Longrightarrow> cr_commit (fst y) = commit"
  by (auto simp: reserved_commit_def Let_def)

lemma arm_reserved_commits:
  assumes "arm_reserved fromiso rd context_arm rows limit = Inr a"
  shows "map cr_commit (ar_commits a) = enrolled_upto rd context_arm limit"
proof -
  obtain g ys where "collect (reserved_commit fromiso rd context_arm (rd_reservation_list rd)
      (stamped_rows (rd_reservation_list rd) rows) g) (enrolled_upto rd context_arm limit) = Inr ys"
    and a: "ar_commits a = map fst ys"
    using assms unfolding arm_reserved_def Let_def by (auto simp del: filter_filter)
  from collect_names [OF this(1), of "cr_commit \<circ> fst"] reserved_commit_name a show ?thesis by simp
qed

lemma look_total:
  assumes "rule_looks rule = Inr l"
  obtains lk where "(if n then Inr x else look_state outcomes rule open_pool) = Inr lk"
  using look_state_total [OF assms, of outcomes open_pool] by (cases n) auto

lemma arm_reserved_total:
  assumes "parse_arm context_arm = Inr p" and "rule_looks (rd_rule rd) = Inr l"
  shows "\<exists>a. arm_reserved fromiso rd context_arm rows limit = Inr a"
proof -
  let ?R = "rd_reservation_list rd"
  from arm_attempt_total [OF assms(1), of fromiso rd] obtain att where
    at: "\<And>row. arm_attempt fromiso rd context_arm row = Inr (att row)" by blast
  have "\<exists>ys. collect (reserved_commit fromiso rd context_arm ?R (stamped_rows ?R rows) g)
      (enrolled_upto rd context_arm limit) = Inr ys" for g
  proof (rule collect_total)
    fix c
    have "same_reserved_rows rd rows rows" by (simp add: same_reserved_rows_def)
    from reserved_commit_alike [OF assms(1) this refl]
    show "\<exists>y. reserved_commit fromiso rd context_arm ?R (stamped_rows ?R rows) g c = Inr y" by blast
  qed
  then obtain ys where ys: "collect (reserved_commit fromiso rd context_arm ?R (stamped_rows ?R rows) (group_rows (row_unit rd)
      (filter att (filter (\<lambda>r. row_unit rd r \<in> set (enrolled_upto rd context_arm limit)) rows))))
      (enrolled_upto rd context_arm limit) = Inr ys" by blast
  obtain lk where "(if descriptive_count rd context_arm limit \<noteq> 0
      then Inr (descriptive_look (map cr_outcome (map fst ys)) (descriptive_count rd context_arm limit))
      else look_state (map cr_outcome (map fst ys)) (rd_rule rd) (prospective rd)) = Inr lk"
    by (rule look_total [OF assms(2)])
  then show ?thesis
    unfolding arm_reserved_def Let_def filter_result_all [of _ "arm_attempt fromiso rd context_arm" att, OF at]
      bind_result.simps ys by simp
qed

lemma arm_legacy_total:
  assumes "parse_arm context_arm = Inr p" and "rule_looks (rd_rule rd) = Inr l"
  shows "\<exists>a. arm_legacy fromiso rd context_arm rows limit = Inr a"
proof -
  from scope_miss_total [OF assms(1), of fromiso rd] obtain miss where
    m: "\<And>row. scope_miss fromiso rd context_arm row = Inr (miss row)" by auto
  have "\<exists>placed. legacy_rows fromiso rd context_arm rows = Inr placed"
    unfolding legacy_rows_def by (rule collect_total) (simp add: m)
  then obtain placed where pl: "legacy_rows fromiso rd context_arm rows = Inr placed" by blast
  let ?kept = "outcomes_kept (la_out (foldl (legacy_commit rd (rows_missing [] placed) (rows_missing SCOPE_UNSEALED placed))
           \<lparr>la_out = [], la_faults = [], la_seen = [], la_duplicates = 0\<rparr> (rd_pool rd)))"
  obtain lk where "(if limit \<noteq> 0 then Inr (descriptive_look (take limit ?kept) limit)
      else look_state ?kept (rd_rule rd) False) = Inr lk"
    by (rule look_total [OF assms(2)])
  then show ?thesis unfolding arm_legacy_def Let_def pl bind_result.simps by simp
qed

lemma arm_reading_total:
  assumes "parse_arm context_arm = Inr p" and "rule_looks (rd_rule rd) = Inr l"
  shows "\<exists>a. arm_reading fromiso rd context_arm rows limit = Inr a"
proof -
  have "\<exists>a. arm_forward fromiso rd context_arm rows = Inr a" for rows
    using look_state_total [OF assms(2)] by (simp add: arm_forward_def Let_def split: prod.split)
  then show ?thesis using arm_reserved_total [OF assms] arm_legacy_total [OF assms] by (simp add: arm_reading_def Let_def)
qed

text \<open>
  C20. Under the reserved rule the reserved row alone decides. Whatever else a ledger holds, in
  whatever order, an arm of a reserved reading reads the same commits, the same look, the same
  faults and the same hashes over any two ledgers that hold the same rows of the attempts it
  reserved; it reads exactly the commits enrolled at registration, and no commit leaves. Only the
  displayed count of attempts it did not read may differ.
\<close>

theorem reserved_row_alone_decides:
  assumes "reserved rd" and "parse_arm context_arm = Inr p" and "same_reserved_rows rd rows rows'"
    and "arm_reading fromiso rd context_arm rows limit = Inr a"
  shows "\<exists>a'. arm_reading fromiso rd context_arm rows' limit = Inr a' \<and>
    a'\<lparr>ar_duplicate_commits := 0\<rparr> = a\<lparr>ar_duplicate_commits := 0\<rparr> \<and>
    map cr_commit (ar_commits a) = enrolled_upto rd context_arm limit \<and>
    list_all (\<lambda>c. cr_left c = []) (ar_commits a)"
  using arm_reserved_alike [OF assms(2,3)] arm_reserved_commits assms(1,4) by (simp add: arm_reading_def)

definition sample_reading :: reading where
  "sample_reading = \<lparr>rd_repo = ''r'', rd_cell = cell_dict (row_cell sample_row), rd_apparatus = ''2.3'',
     rd_taxonomy = [], rd_posture_class = ''docker/none/sealed'', rd_checks_arm = ''off'',
     rd_hierarchy = [''S3''], rd_rule = RULE_LOOK_V1, rd_spend = 0, rd_pool = [''abc1234''], rd_pool_sha256 = [],
     rd_registered_at = [], rd_actor = [], rd_budget = 0, rd_descriptive = [], rd_author_model = [],
     rd_changes = [], rd_max_reruns = 0, rd_reading_id = ''rdg'', rd_pool_rule = [], rd_org_class = [],
     rd_promotes = [], rd_budget_cell = [], rd_hypothesis = [], rd_smallest_effect = None, rd_campaign_id = [],
     rd_attempt_rule = ATTEMPT_RULE_RESERVED, rd_budget_profile = ''std'', rd_lint_digest = [],
     rd_pool_posture_id = [], rd_pool_qualifications = [], rd_enrolled = [], rd_admitted = None,
     rd_registered_event_id = 1, rd_reservations = Some [((''S3'', ''abc1234''), \<lparr>rs_arm = ''S3'',
       rs_task_id = ''abc1234'', rs_run_id = ''run'', rs_event_id = ''e2'', rs_event_seq_id = 2, rs_claim = 0,
       rs_treatment = ''t'', rs_settled = True\<rparr>)], rd_pool_drift = []\<rparr>"

definition sample_attempt :: grade_row where
  "sample_attempt = sample_row\<lparr>row_labels := [(LABEL_RESERVATION, ''e2''), (LABEL_CLAIM, ''0'')]\<rparr>"

lemma parse_S3: "\<exists>p. parse_arm ''S3'' = Inr p"
proof -
  have "\<not> isl (parse_arm ''S3'')" by code_simp
  then show ?thesis by (cases "parse_arm ''S3''") simp_all
qed

lemma rule_v1: "rule_looks RULE_LOOK_V1 = Inr [(20, 0), (30, 1), (40, 2)]"
  by (simp add: rule_looks_def RULES_def)

lemma reserved_row_alone_decides_witness:
  "\<exists>a a'. arm_reading (\<lambda>_. Some 0) sample_reading ''S3'' [sample_row, sample_attempt] 0 = Inr a \<and>
    arm_reading (\<lambda>_. Some 0) sample_reading ''S3'' [sample_attempt] 0 = Inr a' \<and>
    a'\<lparr>ar_duplicate_commits := 0\<rparr> = a\<lparr>ar_duplicate_commits := 0\<rparr> \<and>
    map cr_commit (ar_commits a) = enrolled_upto sample_reading ''S3'' 0 \<and>
    list_all (\<lambda>c. cr_left c = []) (ar_commits a)"
proof -
  obtain p where p: "parse_arm ''S3'' = Inr p" using parse_S3 by blast
  have r: "rule_looks (rd_rule sample_reading) = Inr [(20, 0), (30, 1), (40, 2)]"
    by (simp add: sample_reading_def rule_v1)
  obtain a where a: "arm_reading (\<lambda>_. Some 0) sample_reading ''S3'' [sample_row, sample_attempt] 0 = Inr a"
    using arm_reading_total [OF p r] by blast
  have "\<not> reserved_candidate sample_reading res sample_row" for res
    by (auto simp: reserved_candidate_def label_of_def dget_def sample_row_def LABEL_RESERVATION_def LABEL_POSTURE_ID_def
        LABEL_POSTURE_CLASS_def LABEL_QUALIFICATION_def)
  then have same: "same_reserved_rows sample_reading [sample_row, sample_attempt] [sample_attempt]"
    by (simp add: same_reserved_rows_def)
  have "reserved sample_reading" by (simp add: reserved_def sample_reading_def)
  from reserved_row_alone_decides [OF this p same a] a show ?thesis by blast
qed

subsection \<open>The loop pair\<close>

text \<open>The same attempts, some of them read later: a pending outcome may be filled, nothing else moves.\<close>

definition fills :: "arm_read \<Rightarrow> arm_read \<Rightarrow> bool" where
  "fills a a' \<longleftrightarrow> ar_limit a' = ar_limit a \<and> 0 < ar_limit a \<and> list_all2 (\<lambda>c c'. cr_commit c' = cr_commit c \<and>
     cr_left c' = cr_left c \<and> (cr_outcome c = None \<or> cr_outcome c' = cr_outcome c)) (ar_commits a) (ar_commits a')"

abbreviation fills_commit :: "commit_reading \<Rightarrow> commit_reading \<Rightarrow> bool" where
  "fills_commit c c' \<equiv> cr_commit c' = cr_commit c \<and> (cr_outcome c = None \<or> cr_outcome c' = cr_outcome c)"

lemma fills_kept:
  "list_all2 (\<lambda>c c'. cr_commit c' = cr_commit c \<and> cr_left c' = cr_left c \<and>
      (cr_outcome c = None \<or> cr_outcome c' = cr_outcome c)) cs cs' \<Longrightarrow>
    list_all2 fills_commit (filter (\<lambda>c. cr_left c = []) cs) (filter (\<lambda>c. cr_left c = []) cs')"
  by (induction rule: list_all2_induct) auto

lemma fills_window: "fills a a' \<Longrightarrow> list_all2 fills_commit (pair_window a) (pair_window a')"
  using fills_kept [of "ar_commits a" "ar_commits a'"]
  by (simp add: fills_def pair_window_def kept_commits_def list_all2_takeI)

lemma fills_lookup:
  assumes "list_all2 fills_commit cs cs'"
  shows "case map_of (map (\<lambda>c. (cr_commit c, cr_outcome c)) cs) k of
      None \<Rightarrow> map_of (map (\<lambda>c. (cr_commit c, cr_outcome c)) cs') k = None
    | Some r \<Rightarrow> (\<exists>r'. map_of (map (\<lambda>c. (cr_commit c, cr_outcome c)) cs') k = Some r' \<and> (r = None \<or> r' = r))"
  using assms by (induction rule: list_all2_induct) (auto split: option.splits)

definition fills_pair :: "string \<times> bool option \<times> bool option \<Rightarrow> string \<times> bool option \<times> bool option \<Rightarrow> bool" where
  "fills_pair x y \<longleftrightarrow> fst y = fst x \<and> (fst (snd x) = None \<or> fst (snd y) = fst (snd x)) \<and>
     (snd (snd x) = None \<or> snd (snd y) = snd (snd x))"

lemma fills_read:
  assumes "list_all2 fills_commit cs cs'"
    and "\<And>k. case m k of None \<Rightarrow> m' k = None | Some r \<Rightarrow> (\<exists>r'. m' k = Some r' \<and> (r = None \<or> r' = r))"
  shows "list_all2 fills_pair
    (List.map_filter (\<lambda>c. map_option (\<lambda>ro. (cr_commit c, cr_outcome c, ro)) (m (cr_commit c))) cs)
    (List.map_filter (\<lambda>c. map_option (\<lambda>ro. (cr_commit c, cr_outcome c, ro)) (m' (cr_commit c))) cs')"
  using assms(1)
proof (induction rule: list_all2_induct)
  case (Cons c cs c' cs')
  then show ?case using assms(2) [of "cr_commit c"]
    by (cases "m (cr_commit c)") (auto simp: List.map_filter_simps fills_pair_def)
qed (simp add: List.map_filter_simps)

lemma count_if_list_all2:
  "list_all2 R xs ys \<Longrightarrow> (\<And>x y. R x y \<Longrightarrow> P x \<Longrightarrow> Q y) \<Longrightarrow> count_if P xs \<le> count_if Q ys"
proof (induction rule: list_all2_induct)
  case (Cons x xs y ys)
  then have "P x \<Longrightarrow> Q y" "count_if P xs \<le> count_if Q ys" by blast+
  then show ?case by simp
qed simp

lemma list_all2_flip: "list_all2 R xs ys \<Longrightarrow> list_all2 (\<lambda>y x. R x y) ys xs"
  by (induction rule: list_all2_induct) simp_all

lemma fills_counts:
  assumes "list_all2 fills_pair rs rs'"
  shows "lp_b (loop_pair_of rs) \<le> lp_b (loop_pair_of rs')"
    and "lp_c (loop_pair_of rs') \<le> lp_c (loop_pair_of rs)"
    and "lp_pairs (loop_pair_of rs') = lp_pairs (loop_pair_of rs)"
    and "set (lp_pending (loop_pair_of rs')) \<subseteq> set (lp_pending (loop_pair_of rs))"
proof -
  have b: "(case x of (_, lo, ro) \<Rightarrow> ro = Some True \<and> lo = Some False) \<Longrightarrow>
      (case y of (_, lo, ro) \<Rightarrow> ro = Some True \<and> lo = Some False)" if "fills_pair x y" for x y
    using that by (auto simp: fills_pair_def case_prod_unfold)
  have c: "(case y of (_, lo, ro) \<Rightarrow> lo \<noteq> Some False \<and> ro \<noteq> Some True) \<Longrightarrow>
      (case x of (_, lo, ro) \<Rightarrow> lo \<noteq> Some False \<and> ro \<noteq> Some True)" if "fills_pair x y" for x y
    using that by (auto simp: fills_pair_def case_prod_unfold)
  have q: "(case y of (_, lo, ro) \<Rightarrow> lo = None \<or> ro = None) \<Longrightarrow> (case x of (_, lo, ro) \<Rightarrow> lo = None \<or> ro = None)"
    and e: "fst y = fst x" if "fills_pair x y" for x y
    using that by (simp_all add: fills_pair_def case_prod_unfold) metis
  show "lp_b (loop_pair_of rs) \<le> lp_b (loop_pair_of rs')"
    unfolding loop_pair_of_def loop_counts.simps by (rule count_if_list_all2 [OF assms b])
  show "lp_c (loop_pair_of rs') \<le> lp_c (loop_pair_of rs)"
    unfolding loop_pair_of_def loop_counts.simps by (rule count_if_list_all2 [OF list_all2_flip [OF assms] c])
  show "lp_pairs (loop_pair_of rs') = lp_pairs (loop_pair_of rs)"
    using assms by (induction rule: list_all2_induct) (simp_all add: loop_pair_of_def e)
  have "set (map fst (filter (\<lambda>(_, lo, ro). lo = None \<or> ro = None) rs')) \<subseteq>
      set (map fst (filter (\<lambda>(_, lo, ro). lo = None \<or> ro = None) rs))"
    using assms
  proof (induction rule: list_all2_induct)
    case (Cons x xs y ys)
    show ?case using q [OF Cons.hyps(1)] e [OF Cons.hyps(1)] Cons.IH
      by (simp only: filter.simps list.map set_simps split: if_split) blast
  qed simp
  then show "set (lp_pending (loop_pair_of rs')) \<subseteq> set (lp_pending (loop_pair_of rs))"
    by (simp add: loop_pair_of_def)
qed

text \<open>
  The loop pair fails closed. However the attempts still pending on either fixed-count arm turn
  out, the pairs stay the same, the pairs won by the loop can only grow and the pairs lost by it can
  only shrink: no gap, no subset and no early stop can make the loop look better than it is.
\<close>

theorem loop_pair_fails_closed:
  assumes "fills a0 a0'" and "fills a0l a0l'"
  shows "lp_b (loop_pair a0 a0l) \<le> lp_b (loop_pair a0' a0l') \<and>
    lp_c (loop_pair a0' a0l') \<le> lp_c (loop_pair a0 a0l) \<and>
    lp_pairs (loop_pair a0' a0l') = lp_pairs (loop_pair a0 a0l) \<and>
    set (lp_pending (loop_pair a0' a0l')) \<subseteq> set (lp_pending (loop_pair a0 a0l))"
proof -
  let ?m = "\<lambda>a. map_of (rev (map (\<lambda>c. (cr_commit c, cr_outcome c)) (pair_window a)))"
  have look: "case ?m a0l k of None \<Rightarrow> ?m a0l' k = None
      | Some r \<Rightarrow> (\<exists>r'. ?m a0l' k = Some r' \<and> (r = None \<or> r' = r))" for k
    unfolding rev_map by (rule fills_lookup) (simp add: fills_window [OF assms(2)])
  have "list_all2 fills_pair (pair_read a0 a0l) (pair_read a0' a0l')"
    unfolding pair_read_def Let_def by (rule fills_read [OF fills_window [OF assms(1)] look])
  from fills_counts [OF this] show ?thesis by (simp add: loop_pair_def)
qed

definition sample_arm :: "bool option \<Rightarrow> arm_read" where
  "sample_arm outcome = \<lparr>ar_arm = ''A0'', ar_look = descriptive_look [outcome] 1,
     ar_commits = [CommitReading ''c'' ''c'' outcome [] []], ar_descriptive = True, ar_stopped_by = [],
     ar_waiting = False, ar_limit = 1, ar_scope_faults = [], ar_unsealed_dropped = 0, ar_duplicate_commits = 0\<rparr>"

lemma loop_pair_fails_closed_witness:
  "lp_b (loop_pair (sample_arm (Some False)) (sample_arm None)) \<le>
      lp_b (loop_pair (sample_arm (Some False)) (sample_arm (Some True))) \<and>
    lp_c (loop_pair (sample_arm (Some False)) (sample_arm (Some True))) \<le>
      lp_c (loop_pair (sample_arm (Some False)) (sample_arm None)) \<and>
    lp_pairs (loop_pair (sample_arm (Some False)) (sample_arm (Some True))) =
      lp_pairs (loop_pair (sample_arm (Some False)) (sample_arm None)) \<and>
    set (lp_pending (loop_pair (sample_arm (Some False)) (sample_arm (Some True)))) \<subseteq>
      set (lp_pending (loop_pair (sample_arm (Some False)) (sample_arm None)))"
  by (rule loop_pair_fails_closed) (simp_all add: fills_def sample_arm_def CommitReading_def)

text \<open>The p value: subsets of the discordant pairs stand for the ways they can fall.\<close>

definition falls :: "nat \<Rightarrow> (nat \<Rightarrow> bool) \<Rightarrow> nat set set" where
  "falls n Q = {S. S \<subseteq> {..<n} \<and> Q (card S)}"

lemma falls_finite [simp]: "finite (falls n Q)"
  by (rule finite_subset [of _ "Pow {..<n}"]) (auto simp: falls_def)

lemma falls_tail: "card (falls n (\<lambda>k. k \<le> m)) = sum_list (map (\<lambda>k. n choose k) [0..<m + 1])"
proof (induction m)
  case 0
  have "falls n (\<lambda>k. k \<le> 0) = {{}}" by (auto simp: falls_def dest: finite_subset)
  then show ?case by simp
next
  case (Suc m)
  have "falls n (\<lambda>k. k \<le> Suc m) = falls n (\<lambda>k. k \<le> m) \<union> falls n (\<lambda>k. k = Suc m)"
    by (auto simp: falls_def)
  moreover have "falls n (\<lambda>k. k \<le> m) \<inter> falls n (\<lambda>k. k = Suc m) = {}" by (auto simp: falls_def)
  moreover have "card (falls n (\<lambda>k. k = Suc m)) = n choose Suc m"
    using n_subsets [of "{..<n}" "Suc m"] by (simp add: falls_def)
  ultimately show ?case using Suc by (simp add: card_Un_disjoint)
qed

lemma falls_flip:
  assumes "m \<le> n"
  shows "card (falls n (\<lambda>k. n - m \<le> k)) = card (falls n (\<lambda>k. k \<le> m))"
proof (rule bij_betw_same_card [of "\<lambda>S. {..<n} - S"], rule bij_betw_byWitness [of _ "\<lambda>S. {..<n} - S"])
  have c: "card ({..<n} - S) = n - card S \<and> card S \<le> n" if "S \<subseteq> {..<n}" for S
    using that card_mono [of "{..<n}" S] by (simp add: card_Diff_subset finite_subset)
  show "(\<lambda>S. {..<n} - S) ` falls n (\<lambda>k. n - m \<le> k) \<subseteq> falls n (\<lambda>k. k \<le> m)"
    and "(\<lambda>S. {..<n} - S) ` falls n (\<lambda>k. k \<le> m) \<subseteq> falls n (\<lambda>k. n - m \<le> k)"
    using c assms by (auto simp: falls_def)
qed (auto simp: falls_def)

text \<open>
  The loop pair's p value is the exact two-sided one: of all the equally likely ways the
  discordant pairs can fall, the share whose split is at least as uneven as the one observed, and 1
  when nothing is discordant.
\<close>

theorem mcnemar_exact:
  "mcnemar_p b c = of_nat (card {S. S \<subseteq> {..<b + c} \<and> (card S \<le> min b c \<or> max b c \<le> card S)}) / 2 ^ (b + c)"
proof -
  define n where "n = b + c"
  define m where "m = min b c"
  define t where "t = card (falls n (\<lambda>k. k \<le> m))"
  have m: "m \<le> n" "max b c = n - m" by (auto simp: n_def m_def)
  have t: "mcnemar_p b c = (if n = 0 then 1 else min 1 (2 * of_nat t / 2 ^ n))"
    unfolding mcnemar_p_def n_def m_def t_def falls_tail Let_def by simp
  have split: "{S. S \<subseteq> {..<b + c} \<and> (card S \<le> min b c \<or> max b c \<le> card S)} =
      falls n (\<lambda>k. k \<le> m) \<union> falls n (\<lambda>k. n - m \<le> k)"
    unfolding m(2) by (auto simp: falls_def n_def m_def)
  have u: "card (falls n (\<lambda>k. n - m \<le> k)) = t" unfolding t_def by (rule falls_flip [OF m(1)])
  have pow: "card (Pow {..<n}) = 2 ^ n" by (simp add: card_Pow)
  show ?thesis
  proof (cases "b = c")
    case True
    then have nm: "n - m = m" by (simp add: n_def m_def)
    have all: "falls n (\<lambda>k. k \<le> m) \<union> falls n (\<lambda>k. n - m \<le> k) = Pow {..<n}"
      unfolding nm by (auto simp: falls_def)
    then have "2 ^ n \<le> t + t"
      using card_Un_le [of "falls n (\<lambda>k. k \<le> m)" "falls n (\<lambda>k. n - m \<le> k)"] pow u by (simp add: t_def)
    then have "of_nat (2 ^ n) \<le> (of_nat (2 * t) :: rat)" by (simp only: of_nat_le_iff mult_2)
    then show ?thesis unfolding split all pow t by (simp add: n_def)
  next
    case False
    then have "falls n (\<lambda>k. k \<le> m) \<inter> falls n (\<lambda>k. n - m \<le> k) = {}"
      by (auto simp: falls_def n_def m_def)
    then have two: "card (falls n (\<lambda>k. k \<le> m) \<union> falls n (\<lambda>k. n - m \<le> k)) = 2 * t"
      using u by (simp add: card_Un_disjoint t_def)
    have "2 * t \<le> 2 ^ n"
      using card_mono [of "Pow {..<n}" "falls n (\<lambda>k. k \<le> m) \<union> falls n (\<lambda>k. n - m \<le> k)"] pow two
      by (auto simp: falls_def)
    then have "(of_nat (2 * t) :: rat) \<le> of_nat (2 ^ n)" by (simp only: of_nat_le_iff)
    then show ?thesis using False unfolding split two t by (simp add: n_def min_def)
  qed
qed

subsection \<open>The legacy rule\<close>

lemma collect_append: "collect f (xs @ ys) =
    bind_result (collect f xs) (\<lambda>as. bind_result (collect f ys) (\<lambda>bs. Inr (as @ bs)))"
proof (induction xs)
  case Nil
  show ?case by (cases "collect f ys") simp_all
next
  case (Cons x xs)
  show ?case
    by (cases "f x"; cases "collect f xs"; cases "collect f ys") (simp_all add: Cons.IH)
qed

lemma rows_missing_append:
  "group_get (rows_missing m (p @ q)) c = group_get (rows_missing m p) c @ group_get (rows_missing m q) c"
  by (simp add: rows_missing_def group_get_rows)

lemma read_rows_append:
  assumes "read_rows reruns rs unobserved read = (observed, unobserved', read')"
    and "observed \<noteq> None \<or> reruns < length unobserved'"
  shows "read_rows reruns (rs @ later) unobserved read = (observed, unobserved', read')"
  using assms
proof (induction reruns rs unobserved read rule: read_rows.induct)
  case (1 reruns unobserved read)
  then show ?case by (cases later) auto
qed (auto split: if_splits)

lemma read_rows_reasons:
  assumes "read_rows reruns rs unobserved read = (observed, unobserved', read')"
    and "\<forall>u \<in> set unobserved. u \<noteq> []"
  shows "\<forall>u \<in> set unobserved'. u \<noteq> []"
  using assms
  by (induction reruns rs unobserved read rule: read_rows.induct)
    (auto simp: LEFT_GOLD_def LEFT_HARNESS_def split: if_splits)

definition settled_as :: "commit_reading \<Rightarrow> commit_reading \<Rightarrow> bool" where
  "settled_as c c' \<longleftrightarrow> c' = c \<or> (cr_left c = [] \<and> cr_outcome c = None)"

lemma settled_as_refl [simp]: "settled_as c c"
  by (simp add: settled_as_def)

lemma legacy_read_later: "settled_as (fst (legacy_read rd commit change rs)) (fst (legacy_read rd commit change (rs @ later)))"
proof -
  obtain observed unobserved read where r: "read_rows (rd_max_reruns rd) rs [] 0 = (observed, unobserved, read)"
    by (cases "read_rows (rd_max_reruns rd) rs [] 0")
  show ?thesis
  proof (cases "observed \<noteq> None \<or> rd_max_reruns rd < length unobserved")
    case True
    from read_rows_append [OF r True] have
      "read_rows (rd_max_reruns rd) (rs @ later) [] 0 = (observed, unobserved, read)" .
    then show ?thesis by (simp add: legacy_read_def r settled_as_def)
  next
    case False
    then show ?thesis
      by (simp add: legacy_read_def r settled_as_def CommitReading_def)
  qed
qed

text \<open>Every pool commit's change was registered.\<close>

definition changes_registered :: "reading \<Rightarrow> bool" where
  "changes_registered rd \<longleftrightarrow> list_all (\<lambda>c. dget (rd_changes rd) c [] \<noteq> []) (rd_pool rd)"

lemma legacy_fold_later:
  assumes "list_all (\<lambda>c. dget (rd_changes rd) c [] \<noteq> []) pool"
    and "\<And>c. \<exists>ext. group_get by' c = group_get by c @ ext"
    and "\<And>c. group_get un' c = group_get un c"
    and "la_seen st' = la_seen st" and "list_all2 settled_as (la_out st) (la_out st')"
  shows "list_all2 settled_as (la_out (foldl (legacy_commit rd by un) st pool))
    (la_out (foldl (legacy_commit rd by' un') st' pool))"
  using assms(1,4,5)
proof (induction pool arbitrary: st st')
  case (Cons c pool)
  obtain ext where ext: "group_get by' c = group_get by c @ ext" using assms(2) by blast
  have ch: "legacy_change rd c rs = dget (rd_changes rd) c []" for rs
    using Cons.prems(1) by (simp add: legacy_change_def split: list.split)
  let ?ch = "dget (rd_changes rd) c []"
  have rl: "settled_as (fst (legacy_read rd c ?ch (group_get by c))) (fst (legacy_read rd c ?ch (group_get by' c)))"
    unfolding ext by (rule legacy_read_later)
  have "la_seen (legacy_commit rd by' un' st' c) = la_seen (legacy_commit rd by un st c) \<and>
      list_all2 settled_as (la_out (legacy_commit rd by un st c)) (la_out (legacy_commit rd by' un' st' c))"
    using Cons.prems(2,3) rl
    by (cases "legacy_read rd c ?ch (group_get by c)"; cases "legacy_read rd c ?ch (group_get by' c)";
        cases "group_get un c") (simp_all add: legacy_commit_def ch assms(3) Let_def list_all2_appendI)
  then show ?case using Cons.prems(1) by (simp add: Cons.IH)
qed simp

lemma kept_prefix_later:
  assumes "list_all2 settled_as cs cs'" and "outcomes_kept cs = map Some pre @ suf"
  shows "\<exists>suf'. outcomes_kept cs' = map Some pre @ suf'"
  using assms
proof (induction arbitrary: pre rule: list_all2_induct)
  case (Cons c cs c' cs')
  show ?case
  proof (cases pre)
    case (Cons b bs)
    show ?thesis
    proof (cases "cr_left c = []")
      case True
      then have "cr_outcome c = Some b" "outcomes_kept cs = map Some bs @ suf"
        using Cons.prems Cons by (auto simp: outcomes_kept_def)
      moreover from this have "c' = c" using Cons.hyps(1) by (simp add: settled_as_def)
      ultimately show ?thesis using Cons.IH [of bs] True Cons by (auto simp: outcomes_kept_def)
    next
      case False
      then have "c' = c" using Cons.hyps(1) by (simp add: settled_as_def)
      then show ?thesis using Cons.IH [of pre] Cons.prems False by (simp add: outcomes_kept_def)
    qed
  qed simp
qed (simp add: outcomes_kept_def)

text \<open>
  First attempts are never traded. Under the legacy rule, with every commit's change registered,
  a hierarchy arm whose look has decided reads the very same look whatever sealed rows the ledger
  gains later, in any number and with any outcome: a decided commit keeps its first observed attempt
  and a commit that left stays out.
\<close>

theorem legacy_decision_stable:
  assumes "\<not> reserved rd" and "\<not> prospective rd" and "changes_registered rd" and "\<not> admissions_unread rd"
    and "arm_reading fromiso rd context_arm rows 0 = Inr a" and "lk_decided_at (ar_look a) \<noteq> None"
    and "legacy_rows fromiso rd context_arm later = Inr placed" and "list_all (\<lambda>(m, _). m \<noteq> SCOPE_UNSEALED) placed"
  shows "\<exists>a'. arm_reading fromiso rd context_arm (rows @ later) 0 = Inr a' \<and> ar_look a' = ar_look a"
proof -
  let ?st0 = "\<lparr>la_out = [], la_faults = [], la_seen = [], la_duplicates = 0\<rparr>"
  let ?fold = "\<lambda>p. foldl (legacy_commit rd (rows_missing [] p) (rows_missing SCOPE_UNSEALED p)) ?st0 (rd_pool rd)"
  have ar: "arm_reading fromiso rd context_arm rs 0 = arm_legacy fromiso rd context_arm rs 0" for rs
    using assms(1,2,4) by (simp add: arm_reading_def)
  obtain before where b: "legacy_rows fromiso rd context_arm rows = Inr before"
    using assms(5) by (auto simp: ar arm_legacy_def)
  have all: "legacy_rows fromiso rd context_arm (rows @ later) = Inr (before @ placed)"
    using b assms(7) by (simp add: legacy_rows_def collect_append)
  have none: "group_get (rows_missing SCOPE_UNSEALED placed) c = []" for c
    using assms(8) by (auto simp: rows_missing_def group_get_rows filter_empty_conv list_all_iff)
  have "list_all2 settled_as (la_out (?fold before)) (la_out (?fold (before @ placed)))"
    using assms(3) unfolding changes_registered_def
    by (rule legacy_fold_later) (auto simp: rows_missing_append none)
  moreover have look: "look_state (outcomes_kept (la_out (?fold before))) (rd_rule rd) False = Inr (ar_look a)"
    using assms(5) by (auto simp: ar arm_legacy_def b Let_def)
  ultimately have "look_state (outcomes_kept (la_out (?fold (before @ placed)))) (rd_rule rd) False = Inr (ar_look a)"
    using look_decided_prefix [OF look assms(6)] kept_prefix_later by metis
  then show ?thesis by (simp add: ar arm_legacy_def all Let_def)
qed

text \<open>Three misses of one pool, read under \<open>look.v1\<close>: insufficient at the third.\<close>

definition sample_legacy :: reading where
  "sample_legacy = sample_reading\<lparr>rd_attempt_rule := [], rd_pool := [''a'', ''b'', ''c''],
     rd_changes := [(''a'', ''1''), (''b'', ''2''), (''c'', ''3'')]\<rparr>"

definition sample_miss :: "string \<Rightarrow> string \<Rightarrow> grade_row" where
  "sample_miss commit executor = sample_red\<lparr>row_task_id := commit, row_created := ''2026'',
     row_labels := [(LABEL_CONTEXT_ARM, ''S3''), (LABEL_POSTURE_CLASS, ''docker/none/sealed''),
       (LABEL_BUILDER_EXECUTOR, executor)]\<rparr>"

definition sample_iso :: iso_reader where
  "sample_iso t = Some (if t = [] then 0 else 1)"

lemma sample_miss_scope:
  "scope_miss sample_iso sample_legacy ''S3'' (sample_miss t BUILDER_EXECUTOR_SEALED) = Inr []"
  "row_failure_kind (sample_miss t BUILDER_EXECUTOR_SEALED) = FAILURE_BUILDER_RED"
  by code_simp+

lemma sample_miss_fields:
  "row_task_id (sample_miss t e) = t" "row_gold_clean (sample_miss t e) = Some True" "\<not> row_clean (sample_miss t e)"
  "\<not> lint_could_change (sample_miss t e)"
  by (simp_all add: sample_miss_def sample_red_def sample_row_def lint_could_change_def)

definition sample_misses :: "grade_row list" where
  "sample_misses = map (\<lambda>t. sample_miss t BUILDER_EXECUTOR_SEALED) [''a'', ''b'', ''c'']"

lemma sample_legacy_fields:
  "rd_pool sample_legacy = [''a'', ''b'', ''c'']" "rd_max_reruns sample_legacy = 0" "rd_rule sample_legacy = RULE_LOOK_V1"
  "\<not> reserved sample_legacy" "\<not> prospective sample_legacy" "\<not> admissions_unread sample_legacy"
  "changes_registered sample_legacy" "admitted_run sample_legacy r"
  "dget (rd_changes sample_legacy) ''a'' [] = ''1''" "dget (rd_changes sample_legacy) ''b'' [] = ''2''"
  "dget (rd_changes sample_legacy) ''c'' [] = ''3''"
  by (simp_all add: sample_legacy_def sample_reading_def reserved_def prospective_def admissions_unread_def
      changes_registered_def admitted_run_def dget_def ATTEMPT_RULE_RESERVED_def POOL_RULE_CALIBRATION_def)

lemma sample_legacy_rows:
  "set rows \<subseteq> (\<lambda>t. sample_miss t BUILDER_EXECUTOR_SEALED) ` {''a'', ''b'', ''c''} \<Longrightarrow>
     legacy_rows sample_iso sample_legacy ''S3'' rows = Inr (map (\<lambda>r. ([], r)) rows)"
proof -
  assume s: "set rows \<subseteq> (\<lambda>t. sample_miss t BUILDER_EXECUTOR_SEALED) ` {''a'', ''b'', ''c''}"
  then have "filter (\<lambda>r. row_task_id r \<in> set (rd_pool sample_legacy) \<and> admitted_run sample_legacy r) rows = rows"
    by (intro filter_True) (auto simp: sample_legacy_fields sample_miss_fields)
  moreover have "collect (\<lambda>r. bind_result (scope_miss sample_iso sample_legacy ''S3'' r) (\<lambda>miss. Inr (miss, r))) rows =
      Inr (map (\<lambda>r. ([], r)) rows)"
    using s by (intro collect_all) (auto simp: sample_miss_scope)
  ultimately show ?thesis by (simp add: legacy_rows_def)
qed

lemma sample_legacy_read:
  "legacy_read sample_legacy c change [sample_miss c BUILDER_EXECUTOR_SEALED] =
     (CommitReading c change (Some False) [] (row_row_hash (sample_miss c BUILDER_EXECUTOR_SEALED)), 0)"
proof -
  have k: "FAILURE_BUILDER_RED \<noteq> FAILURE_OUTAGE" "FAILURE_BUILDER_RED \<noteq> FAILURE_HARNESS" by code_simp+
  show ?thesis
    by (simp add: legacy_read_def sample_legacy_fields sample_miss_fields sample_miss_scope k)
qed

lemma sample_legacy_commit:
  assumes "group_get by c = [sample_miss c BUILDER_EXECUTOR_SEALED]" and "group_get un c = []"
    and "dget (rd_changes sample_legacy) c [] = change" and "change \<noteq> []" and "change \<notin> set (la_seen st)"
  shows "legacy_commit sample_legacy by un st c = st\<lparr>la_seen := change # la_seen st, la_out := la_out st @
    [CommitReading c change (Some False) [] (row_row_hash (sample_miss c BUILDER_EXECUTOR_SEALED))]\<rparr>"
  using assms
  by (cases change) (simp_all add: legacy_commit_def legacy_change_def sample_legacy_read Let_def)

lemma sample_legacy_decided:
  "\<exists>a. arm_reading sample_iso sample_legacy ''S3'' sample_misses 0 = Inr a \<and> lk_decided_at (ar_look a) = Some 3 \<and>
    arm_state a = STATE_INSUFFICIENT"
proof -
  let ?placed = "map (\<lambda>r. ([], r)) sample_misses"
  let ?st0 = "\<lparr>la_out = [], la_faults = [], la_seen = [], la_duplicates = 0\<rparr>"
  let ?fold = "foldl (legacy_commit sample_legacy (rows_missing [] ?placed) (rows_missing SCOPE_UNSEALED ?placed)) ?st0
    [''a'', ''b'', ''c'']"
  have p: "legacy_rows sample_iso sample_legacy ''S3'' sample_misses = Inr ?placed"
    by (rule sample_legacy_rows) (simp add: sample_misses_def)
  have u: "group_get (rows_missing SCOPE_UNSEALED ?placed) c = []" for c
    by (simp add: rows_missing_def group_get_rows SCOPE_UNSEALED_def filter_map comp_def filter_empty_conv)
  have g: "group_get (rows_missing [] ?placed) t = [sample_miss t BUILDER_EXECUTOR_SEALED]"
    if "t = ''a'' \<or> t = ''b'' \<or> t = ''c''" for t
    using that by (auto simp: rows_missing_def group_get_rows filter_map comp_def sample_misses_def sample_miss_fields)
  have f: "outcomes_kept (la_out ?fold) = replicate 3 (Some False)" and flt: "la_faults ?fold = []"
    by (simp_all add: sample_legacy_commit u g sample_legacy_fields outcomes_kept_def CommitReading_def numeral_3_eq_3)
  have l: "look_state (replicate 3 (Some False)) RULE_LOOK_V1 False = Inr \<lparr>lk_state = STATE_INSUFFICIENT,
      lk_counted = 3, lk_clean = 0, lk_misses = 3, lk_next_look = None, lk_needed = 0, lk_decided_at = Some 3\<rparr>"
    by (simp add: look_state_def rule_v1 numeral_3_eq_3 look_met_def last_misses_def last_look_def)
  show ?thesis
    using f flt by (simp add: arm_reading_def sample_legacy_fields arm_legacy_def p Let_def l arm_state_def)
qed

lemma legacy_decision_stable_witness:
  "\<exists>a a'. arm_reading sample_iso sample_legacy ''S3'' sample_misses 0 = Inr a \<and>
    arm_reading sample_iso sample_legacy ''S3'' (sample_misses @ sample_misses) 0 = Inr a' \<and> ar_look a' = ar_look a"
proof -
  obtain a where a: "arm_reading sample_iso sample_legacy ''S3'' sample_misses 0 = Inr a" "lk_decided_at (ar_look a) \<noteq> None"
    using sample_legacy_decided by auto
  have "legacy_rows sample_iso sample_legacy ''S3'' sample_misses = Inr (map (\<lambda>r. ([], r)) sample_misses)"
    by (rule sample_legacy_rows) (simp add: sample_misses_def)
  from legacy_decision_stable [OF sample_legacy_fields(4,5,7,6) a this] a(1) show ?thesis
    by (auto simp: list_all_iff SCOPE_UNSEALED_def)
qed

text \<open>Twenty clean commits of one certifying arm: \<open>look.v1\<close> delivers at its first look.\<close>

definition sample_commits :: "string list" where
  "sample_commits = map (\<lambda>c. [c]) ''abcdefghijklmnopqrst''"

definition sample_proof :: reading where
  "sample_proof = sample_reading\<lparr>rd_attempt_rule := [], rd_hierarchy := [''S1@m''], rd_pool := sample_commits,
     rd_changes := map (\<lambda>c. (c, c)) sample_commits\<rparr>"

definition sample_hit :: "string \<Rightarrow> grade_row" where
  "sample_hit commit = sample_row\<lparr>row_task_id := commit, row_created := ''2026'',
     row_labels := [(LABEL_CONTEXT_ARM, ''S1@m''), (LABEL_POSTURE_CLASS, ''docker/none/sealed''),
       (LABEL_BUILDER_EXECUTOR, BUILDER_EXECUTOR_SEALED)]\<rparr>"

lemma sample_hit_scope:
  "scope_miss sample_iso sample_proof ''S1@m'' (sample_hit t) = Inr []" "row_failure_kind (sample_hit t) = []"
  by code_simp+

lemma sample_hit_fields:
  "row_task_id (sample_hit t) = t" "row_gold_clean (sample_hit t) = Some True" "row_clean (sample_hit t)"
  "\<not> row_disqualified (sample_hit t)" "\<not> lint_could_change (sample_hit t)"
proof -
  show "row_task_id (sample_hit t) = t" "row_gold_clean (sample_hit t) = Some True" "row_clean (sample_hit t)"
    "\<not> row_disqualified (sample_hit t)"
    by (simp_all add: sample_hit_def sample_row_def)
  show "\<not> lint_could_change (sample_hit t)" by code_simp
qed

lemma sample_hit_read:
  "legacy_read rd c change [sample_hit c] = (CommitReading c change (Some True) [] (row_row_hash (sample_hit c)), 0)"
proof -
  have "FAILURE_OUTAGE \<noteq> []" "FAILURE_HARNESS \<noteq> []" by code_simp+
  then show ?thesis by (simp add: legacy_read_def sample_hit_fields sample_hit_scope)
qed

definition clean_reading :: "string \<Rightarrow> commit_reading" where
  "clean_reading c = CommitReading c c (Some True) [] (row_row_hash (sample_hit c))"

lemma clean_fold:
  assumes "distinct pool" and "\<And>c. c \<in> set pool \<Longrightarrow> group_get grp c = [sample_hit c] \<and> group_get un c = [] \<and>
      dget (rd_changes rd) c [] = c \<and> c \<noteq> [] \<and> c \<notin> set (la_seen st)"
  shows "la_out (foldl (legacy_commit rd grp un) st pool) = la_out st @ map clean_reading pool \<and>
    la_faults (foldl (legacy_commit rd grp un) st pool) = la_faults st"
  using assms
proof (induction pool arbitrary: st)
  case (Cons c pool)
  have c: "group_get grp c = [sample_hit c]" "group_get un c = []" "dget (rd_changes rd) c [] = c" "c \<noteq> []"
    "c \<notin> set (la_seen st)" using Cons.prems(2) by auto
  let ?st = "st\<lparr>la_seen := c # la_seen st, la_out := la_out st @ [clean_reading c]\<rparr>"
  have ch: "legacy_change rd c rs = c" for rs using c(3,4) by (cases c) (simp_all add: legacy_change_def)
  have s: "legacy_commit rd grp un st c = ?st"
    using c by (simp add: legacy_commit_def ch sample_hit_read clean_reading_def Let_def)
  have "la_out (foldl (legacy_commit rd grp un) ?st pool) = la_out ?st @ map clean_reading pool \<and>
    la_faults (foldl (legacy_commit rd grp un) ?st pool) = la_faults ?st"
    using Cons.prems by (intro Cons.IH) auto
  then show ?case by (simp add: s)
qed simp

lemma clean_kept: "outcomes_kept (map clean_reading pool) = replicate (length pool) (Some True)"
  "filter (\<lambda>c. cr_left c = []) (map clean_reading pool) = map clean_reading pool" "map cr_commit (map clean_reading pool) = pool"
  by (induction pool) (simp_all add: outcomes_kept_def clean_reading_def CommitReading_def)

lemma sample_proof_fields:
  "rd_pool sample_proof = sample_commits" "rd_rule sample_proof = RULE_LOOK_V1" "\<not> reserved sample_proof"
  "\<not> prospective sample_proof" "\<not> admissions_unread sample_proof" "admitted_run sample_proof r"
  "rd_changes sample_proof = map (\<lambda>c. (c, c)) sample_commits" "rd_hierarchy sample_proof = [''S1@m'']"
  "rd_descriptive sample_proof = []" "rd_pool_drift sample_proof = []"
  by (simp_all add: sample_proof_def sample_reading_def reserved_def prospective_def admissions_unread_def
      admitted_run_def ATTEMPT_RULE_RESERVED_def POOL_RULE_CALIBRATION_def)

lemma twenty_clean: "look_state (replicate 20 (Some True)) RULE_LOOK_V1 False = Inr \<lparr>lk_state = STATE_DELIVER,
    lk_counted = 20, lk_clean = 20, lk_misses = 0, lk_next_look = None, lk_needed = 0, lk_decided_at = Some 20\<rparr>"
proof -
  let ?l = "[(20, 0), (30, 1), (40, 2)] :: looks"
  have w: "walk ?l (replicate j (Some True)) (20 - j) (20 - j) 0 = Decided \<lparr>lk_state = STATE_DELIVER,
      lk_counted = 20, lk_clean = 20, lk_misses = 0, lk_next_look = None, lk_needed = 0, lk_decided_at = Some 20\<rparr>"
    if "0 < j" "j \<le> 20" for j
    using that
  proof (induction j)
    case (Suc j)
    show ?case
    proof (cases j)
      case 0
      then show ?thesis by (simp add: look_met_def last_misses_def last_look_def)
    next
      case (Suc i)
      then have "20 - Suc j + 1 = 20 - j" "20 - j \<noteq> 20" "20 - j \<noteq> 30" "20 - j \<noteq> 40" using Suc.prems by auto
      then show ?thesis using Suc.IH Suc.prems Suc by (simp add: look_met_def last_misses_def last_look_def Let_def)
    qed
  qed simp
  show ?thesis using w [of 20] by (simp add: look_state_def rule_v1)
qed

definition sample_hits :: "grade_row list" where
  "sample_hits = map sample_hit sample_commits"

lemma sample_proof_delivers:
  "\<exists>a. arm_reading sample_iso sample_proof ''S1@m'' sample_hits 0 = Inr a \<and> ar_scope_faults a = [] \<and>
    lk_state (ar_look a) = STATE_DELIVER \<and> arm_state a = STATE_DELIVER \<and> counted_commits a = sample_commits \<and>
    lk_counted (ar_look a) = 20"
proof -
  let ?placed = "map (\<lambda>r. ([] :: string, r)) sample_hits"
  let ?st0 = "\<lparr>la_out = [], la_faults = [], la_seen = [], la_duplicates = 0\<rparr>"
  let ?by = "rows_missing [] ?placed" and ?un = "rows_missing SCOPE_UNSEALED ?placed"
  have "filter (\<lambda>r. row_task_id r \<in> set (rd_pool sample_proof) \<and> admitted_run sample_proof r) sample_hits = sample_hits"
    by (intro filter_True) (auto simp: sample_proof_fields sample_hits_def sample_hit_fields)
  moreover have "collect (\<lambda>r. bind_result (scope_miss sample_iso sample_proof ''S1@m'' r) (\<lambda>miss. Inr (miss, r))) sample_hits =
      Inr ?placed"
    by (rule collect_all) (auto simp: sample_hits_def sample_hit_scope)
  ultimately have p: "legacy_rows sample_iso sample_proof ''S1@m'' sample_hits = Inr ?placed" by (simp add: legacy_rows_def)
  have d: "distinct sample_commits" "length sample_commits = 20" "[] \<notin> set sample_commits" by (simp_all add: sample_commits_def)
  have get: "group_get ?by c = [sample_hit c] \<and> group_get ?un c = [] \<and> dget (rd_changes sample_proof) c [] = c \<and> c \<noteq> []"
    if c: "c \<in> set sample_commits" for c
  proof -
    have "filter (\<lambda>x. x = c) xs = [c]" if "distinct xs" "c \<in> set xs" for xs
      using that by (induction xs) (auto simp: filter_empty_conv)
    then have "filter (\<lambda>x. x = c) sample_commits = [c]" using d(1) c by blast
    then have "group_get ?by c = [sample_hit c]"
      by (simp add: rows_missing_def group_get_rows sample_hits_def filter_map comp_def sample_hit_fields)
    moreover have "group_get ?un c = []"
      by (simp add: rows_missing_def group_get_rows SCOPE_UNSEALED_def filter_map comp_def)
    moreover have "map_of (map (\<lambda>c. (c, c)) sample_commits) c = Some c" using c by (simp add: map_of_map_restrict)
    ultimately show ?thesis using c d(3) by (auto simp: dget_def sample_proof_fields)
  qed
  from clean_fold [where st = ?st0 and rd = sample_proof and grp = ?by and un = ?un, OF d(1)] get
  have "la_out (foldl (legacy_commit sample_proof ?by ?un) ?st0 sample_commits) = map clean_reading sample_commits \<and>
    la_faults (foldl (legacy_commit sample_proof ?by ?un) ?st0 sample_commits) = []"
    by simp
  then show ?thesis
    by (simp add: arm_reading_def sample_proof_fields arm_legacy_def p Let_def clean_kept(1,2) clean_kept(3) [unfolded map_map]
        twenty_clean d(2) arm_state_def counted_commits_def kept_commits_def take_map)
qed

end
