(* ===== verification/Reading_Outcome_Correct.thy ===== *)
theory Reading_Outcome_Correct
  imports Reading_Outcome Reading_Correct
begin

section \<open>The hierarchy proves the standard it names\<close>

text \<open>
  The evaluation of a well-shaped reading is the longest prefix of its hierarchy whose arms all
  deliver; the standard is the last certifying arm of it, and the router is told \<open>deliver\<close> for that
  arm and no other.
\<close>

definition well_shaped :: "reading \<Rightarrow> bool" where
  "well_shaped rd \<longleftrightarrow> distinct (reading_arms rd) \<and> [] \<notin> set (rd_hierarchy rd) \<and> rd_hierarchy rd \<noteq> []"

definition arm_delivers :: "iso_reader \<Rightarrow> reading \<Rightarrow> grade_row list \<Rightarrow> string \<Rightarrow> bool" where
  "arm_delivers fromiso rd rs name \<longleftrightarrow> (case arm_reading fromiso rd name rs 0 of Inl _ \<Rightarrow> False
     | Inr a \<Rightarrow> ar_scope_faults a = [] \<and> lk_state (ar_look a) = STATE_DELIVER)"

subsection \<open>States\<close>

lemmas state_defs = STATE_DELIVER_def STATE_INSUFFICIENT_def STATE_UNDECIDED_def STATE_LOOK_PENDING_def
  STATE_DESCRIPTIVE_def STATE_STOPPED_def STATE_WAITING_def OUTCOME_STANDARD_def OUTCOME_CEILING_def
  OUTCOME_LOOK_PENDING_def OUTCOME_UNDECIDED_def VERDICT_UNREGISTERED_def VERDICT_DESCRIPTIVE_def
  VERDICT_LOOK_PENDING_def VERDICT_DELIVER_def VERDICT_INSUFFICIENT_def VERDICT_UNDECIDED_def
  VERDICT_CEILING_def VERDICT_LEANER_def

lemma walk_states: "walk l os k c m = Decided st \<Longrightarrow> lk_state st \<in> {STATE_DELIVER, STATE_INSUFFICIENT}"
  by (induction l os k c m rule: walk.induct) (auto simp: Let_def split: if_splits)

lemma look_states:
  assumes "look_state os rule open_pool = Inr st"
  shows "lk_state st \<in> {STATE_DELIVER, STATE_INSUFFICIENT, STATE_UNDECIDED, STATE_LOOK_PENDING}"
proof -
  obtain l where l: "rule_looks rule = Inr l" using assms by (auto simp: look_state_def)
  show ?thesis
  proof (cases "walk l os 0 0 0")
    case (Decided st')
    then show ?thesis using assms walk_states [OF Decided] by (auto simp: look_state_def l)
  next
    case (Stopped k c m)
    then show ?thesis using assms by (auto simp: look_state_def l Let_def split: list.splits if_splits)
  qed
qed

lemma arm_reading_fresh:
  assumes "arm_reading fromiso rd name rs limit = Inr a"
  shows "ar_stopped_by a = []" "\<not> ar_waiting a"
    "lk_state (ar_look a) \<in> {STATE_DELIVER, STATE_INSUFFICIENT, STATE_UNDECIDED, STATE_LOOK_PENDING, STATE_DESCRIPTIVE}"
    "name \<in> set (rd_hierarchy rd) \<Longrightarrow> limit = 0 \<Longrightarrow> \<not> ar_descriptive a"
proof -
  have d: "lk_state (descriptive_look os n) = STATE_DESCRIPTIVE" for os n
    by (simp add: descriptive_look_def Let_def)
  show "ar_stopped_by a = []" "\<not> ar_waiting a"
    "lk_state (ar_look a) \<in> {STATE_DELIVER, STATE_INSUFFICIENT, STATE_UNDECIDED, STATE_LOOK_PENDING, STATE_DESCRIPTIVE}"
    "name \<in> set (rd_hierarchy rd) \<Longrightarrow> limit = 0 \<Longrightarrow> \<not> ar_descriptive a"
    using assms d
    by (auto simp: arm_reading_def arm_reserved_def arm_legacy_def arm_forward_def descriptive_count_def Let_def
        simp del: filter_filter split: if_splits prod.splits dest!: look_states)
qed

subsection \<open>The hierarchy\<close>

lemma read_hierarchy_reads:
  "read_hierarchy read names (arms, chain, stopped) = Inr res \<Longrightarrow> name \<in> set names \<Longrightarrow> \<exists>a. read name = Inr a"
proof (induction names arbitrary: arms chain stopped)
  case (Cons n names)
  then obtain a where a: "read n = Inr a" by auto
  then obtain arms' chain' stopped' where "read_hierarchy read names (arms', chain', stopped') = Inr res"
    using Cons.prems(1) by (auto simp: Let_def split: if_splits)
  then show ?case using Cons.IH Cons.prems(2) a by auto
qed simp

text \<open>Behind a stopped arm every arm is labelled, and neither the chain nor the stop moves.\<close>

definition labelled :: "string \<Rightarrow> arm_read \<Rightarrow> arm_read \<Rightarrow> arm_read" where
  "labelled stopped b a = a\<lparr>ar_stopped_by := stopped,
     ar_waiting := arm_state b \<notin> {STATE_INSUFFICIENT, STATE_UNDECIDED}\<rparr>"

lemma read_hierarchy_behind:
  "stopped \<noteq> [] \<Longrightarrow> read n = Inr a \<Longrightarrow> map_of arms stopped = Some b \<Longrightarrow>
     read_hierarchy read (n # names) (arms, chain, stopped) =
     read_hierarchy read names (AList.update n (labelled stopped b a) arms, chain, stopped)"
  by (simp add: key_of_def labelled_def Let_def del: bind_result_Inr)

lemma read_hierarchy_stopped:
  assumes "\<And>x. x \<in> set names \<Longrightarrow> read x = Inr (A x)" and "stopped \<noteq> []" and "stopped \<notin> set names"
    and "map_of arms stopped = Some b"
  shows "\<exists>arms'. read_hierarchy read names (arms, chain, stopped) = Inr (arms', chain, stopped) \<and>
    (\<forall>x. map_of arms' x = (if x \<in> set names then Some (labelled stopped b (A x)) else map_of arms x))"
  using assms
proof (induction names arbitrary: arms)
  case (Cons n names)
  let ?arms = "AList.update n (labelled stopped b (A n)) arms"
  have m: "map_of ?arms = (map_of arms)(n \<mapsto> labelled stopped b (A n))" by (rule AList.update_conv')
  have "map_of ?arms stopped = Some b" using Cons.prems(3,4) by (simp add: m)
  from Cons.IH [OF Cons.prems(1) Cons.prems(2) _ this] Cons.prems(3) obtain arms' where
    r: "read_hierarchy read names (?arms, chain, stopped) = Inr (arms', chain, stopped)"
    and a: "\<forall>x. map_of arms' x = (if x \<in> set names then Some (labelled stopped b (A x)) else map_of ?arms x)" by auto
  have "read_hierarchy read (n # names) (arms, chain, stopped) = Inr (arms', chain, stopped)"
    using r read_hierarchy_behind [OF Cons.prems(2) _ Cons.prems(4), of read n "A n"] Cons.prems(1) by simp
  moreover have "map_of arms' x = (if x \<in> set (n # names) then Some (labelled stopped b (A x)) else map_of arms x)" for x
    using a by (simp add: m)
  ultimately show ?case by blast
qed simp

text \<open>What the arms of a hierarchy read as, given how each arm alone reads.\<close>

definition arm_placed :: "(string \<Rightarrow> arm_read) \<Rightarrow> string list \<Rightarrow> string list \<Rightarrow> string \<Rightarrow> arm_read" where
  "arm_placed A chain behind x = (if x \<in> set chain then A x
     else case behind of [] \<Rightarrow> A x
     | s # _ \<Rightarrow> if x = s then A x else labelled s (A s) (A x))"

lemma read_hierarchy_spec:
  assumes "\<And>x. x \<in> set names \<Longrightarrow> read x = Inr (A x)" and "distinct names" and "[] \<notin> set names"
  defines "D \<equiv> \<lambda>x. arm_state (A x) = STATE_DELIVER"
  shows "\<exists>arms'. read_hierarchy read names (arms, chain, []) = Inr (arms', chain @ takeWhile D names,
      (case dropWhile D names of [] \<Rightarrow> [] | s # _ \<Rightarrow> s)) \<and>
    (\<forall>x. map_of arms' x = (if x \<in> set names then Some (arm_placed A (takeWhile D names) (dropWhile D names) x)
      else map_of arms x))"
  using assms(1-3)
proof (induction names arbitrary: arms chain)
  case (Cons n names)
  let ?arms = "AList.update n (A n) arms"
  have m: "map_of ?arms = (map_of arms)(n \<mapsto> A n)" by (rule AList.update_conv')
  show ?case
  proof (cases "D n")
    case True
    from Cons.IH [of ?arms "chain @ [n]"] Cons.prems obtain arms' where
      r: "read_hierarchy read names (?arms, chain @ [n], []) = Inr (arms', (chain @ [n]) @ takeWhile D names,
        (case dropWhile D names of [] \<Rightarrow> [] | s # _ \<Rightarrow> s))"
      and a: "\<forall>x. map_of arms' x = (if x \<in> set names then Some (arm_placed A (takeWhile D names) (dropWhile D names) x)
        else map_of ?arms x)" by auto
    have "arm_placed A (takeWhile D names) (dropWhile D names) x =
        arm_placed A (n # takeWhile D names) (dropWhile D names) x" if "x \<in> set names" for x
      using that Cons.prems(2) by (auto simp: arm_placed_def)
    moreover have "arm_placed A (n # takeWhile D names) (dropWhile D names) n = A n" by (simp add: arm_placed_def)
    ultimately show ?thesis
      using r a True Cons.prems(1,2) D_def by (intro exI [of _ arms']) (auto simp: m)
  next
    case False
    have "n \<noteq> []" "n \<notin> set names" "map_of ?arms n = Some (A n)" using Cons.prems(2,3) by (auto simp: m)
    have reads: "\<And>x. x \<in> set names \<Longrightarrow> read x = Inr (A x)" using Cons.prems(1) by simp
    from read_hierarchy_stopped [where read = read and A = A and chain = chain, OF reads \<open>n \<noteq> []\<close> \<open>n \<notin> set names\<close> \<open>map_of ?arms n = Some (A n)\<close>] obtain arms' where
      r: "read_hierarchy read names (?arms, chain, n) = Inr (arms', chain, n)"
      and a: "\<forall>x. map_of arms' x = (if x \<in> set names then Some (labelled n (A n) (A x)) else map_of ?arms x)" by blast
    have "read_hierarchy read (n # names) (arms, chain, []) = Inr (arms', chain, n)"
      using r Cons.prems(1) False by (simp add: D_def Let_def)
    moreover have "takeWhile D (n # names) = []" "dropWhile D (n # names) = n # names" using False by simp_all
    ultimately show ?thesis
      using a \<open>n \<notin> set names\<close> by (intro exI [of _ arms']) (auto simp: m arm_placed_def)
  qed
qed simp

lemma read_descriptive_keeps:
  "read_descriptive read ns arms = Inr arms' \<Longrightarrow> x \<notin> fst ` set ns \<Longrightarrow> map_of arms' x = map_of arms x"
proof (induction ns arbitrary: arms)
  case (Cons p ns)
  obtain name n where p: "p = (name, n)" by (cases p)
  then obtain a where a: "read name n = Inr a" "read_descriptive read ns (AList.update name a arms) = Inr arms'"
    using Cons.prems(1) by auto
  from Cons.IH [OF a(2)] Cons.prems(2) show ?case by (auto simp: p AList.update_conv')
qed simp

lemma read_descriptive_adds:
  "read_descriptive read ns arms = Inr arms' \<Longrightarrow> distinct (map fst ns) \<Longrightarrow> (x, n) \<in> set ns \<Longrightarrow>
     \<exists>a. read x n = Inr a \<and> map_of arms' x = Some a"
proof (induction ns arbitrary: arms)
  case (Cons p ns)
  obtain name k where p: "p = (name, k)" by (cases p)
  then obtain a where a: "read name k = Inr a" "read_descriptive read ns (AList.update name a arms) = Inr arms'"
    using Cons.prems(1) by auto
  show ?case
  proof (cases "(x, n) = p")
    case True
    then have "x \<notin> fst ` set ns" using Cons.prems(2) p by (auto simp: image_iff)
    from read_descriptive_keeps [OF a(2) this] True a(1) p show ?thesis by (simp add: AList.update_conv')
  qed (use Cons.IH [OF a(2)] Cons.prems p in auto)
qed simp

lemma certifying_arms_Inr:
  assumes "certifying_arms chain = Inr certs"
  shows "certs = filter (arm_is certifies) chain" and "x \<in> set chain \<Longrightarrow> \<exists>p. parse_arm x = Inr p"
proof -
  let ?f = "\<lambda>a. bind_result (bind_result (parse_arm a) (\<lambda>p. Inr (certifies p))) (\<lambda>b. Inr (b, a))"
  obtain bs where bs: "collect ?f chain = Inr bs" "certs = map snd (filter fst bs)"
    using assms by (auto simp: certifying_arms_def filter_result_def)
  have "map snd (filter fst bs) = filter (arm_is certifies) chain \<and> (\<forall>x \<in> set chain. \<exists>p. parse_arm x = Inr p)"
    using bs(1)
  proof (induction chain arbitrary: bs)
    case (Cons a chain)
    then obtain p bs' where "parse_arm a = Inr p" "collect ?f chain = Inr bs'" "bs = (certifies p, a) # bs'" by auto
    then show ?case using Cons.IH [of bs'] by (auto simp: arm_is_def)
  qed simp
  then show "certs = filter (arm_is certifies) chain" "x \<in> set chain \<Longrightarrow> \<exists>p. parse_arm x = Inr p"
    using bs(2) by auto
qed

lemma arm_state_fresh:
  assumes "arm_reading fromiso rd name rs 0 = Inr a" and "name \<in> set (rd_hierarchy rd)"
  shows "arm_state a = (if ar_scope_faults a = [] then lk_state (ar_look a) else STATE_UNDECIDED)"
    and "arm_state a = STATE_DELIVER \<longleftrightarrow> arm_delivers fromiso rd rs name"
    and "arm_state a \<notin> {OUTCOME_STANDARD, OUTCOME_CEILING}"
proof -
  note fresh = arm_reading_fresh [OF assms(1)]
  show e: "arm_state a = (if ar_scope_faults a = [] then lk_state (ar_look a) else STATE_UNDECIDED)"
    using fresh(1) fresh(4) [OF assms(2) refl] by (simp add: arm_state_def)
  show "arm_state a = STATE_DELIVER \<longleftrightarrow> arm_delivers fromiso rd rs name"
    unfolding e by (simp add: arm_delivers_def assms(1) state_defs)
  show "arm_state a \<notin> {OUTCOME_STANDARD, OUTCOME_CEILING}"
    unfolding e using fresh(3) by (auto simp: state_defs)
qed

definition stop_of :: "string list \<Rightarrow> string" where
  "stop_of behind = (case behind of [] \<Rightarrow> [] | s # _ \<Rightarrow> s)"

lemma evaluate_parts:
  assumes "well_shaped rd" and "evaluate fromiso rd rs = Inr oc"
  obtains A where "\<And>x. x \<in> set (rd_hierarchy rd) \<Longrightarrow> arm_reading fromiso rd x rs 0 = Inr (A x)"
    and "oc_reading oc = rd"
    and "oc_chain oc = takeWhile (arm_delivers fromiso rd rs) (rd_hierarchy rd)"
    and "oc_stopped_at oc = stop_of (dropWhile (arm_delivers fromiso rd rs) (rd_hierarchy rd))"
    and "\<And>x. x \<in> set (rd_hierarchy rd) \<Longrightarrow> map_of (oc_arms oc) x =
      Some (arm_placed A (oc_chain oc) (dropWhile (arm_delivers fromiso rd rs) (rd_hierarchy rd)) x)"
    and "\<And>x n. (x, n) \<in> set (rd_descriptive rd) \<Longrightarrow>
      \<exists>a. arm_reading fromiso rd x rs n = Inr a \<and> map_of (oc_arms oc) x = Some a"
    and "\<And>x. x \<notin> set (reading_arms rd) \<Longrightarrow> map_of (oc_arms oc) x = None"
    and "\<And>x. x \<in> set (oc_chain oc) \<Longrightarrow> \<exists>p. parse_arm x = Inr p"
    and "outcome_state rd (oc_arms oc) (oc_chain oc) (oc_stopped_at oc)
      (if filter (arm_is certifies) (oc_chain oc) = [] then [] else last (filter (arm_is certifies) (oc_chain oc))) =
      Inr (oc_standard oc, oc_state oc)"
proof -
  let ?H = "rd_hierarchy rd" and ?read = "\<lambda>name. arm_reading fromiso rd name rs 0"
  let ?D = "arm_delivers fromiso rd rs"
  from assms(2) obtain arms chain stopped arms' certs std state where
    h: "read_hierarchy ?read ?H ([], [], []) = Inr (arms, chain, stopped)"
    and d: "read_descriptive (\<lambda>name n. arm_reading fromiso rd name rs n) (rd_descriptive rd) arms = Inr arms'"
    and c: "certifying_arms chain = Inr certs"
    and o: "outcome_state rd arms' chain stopped (if certs = [] then [] else last certs) = Inr (std, state)"
    and oc: "oc = \<lparr>oc_reading = rd, oc_arms = arms', oc_chain = chain, oc_stopped_at = stopped, oc_standard = std,
      oc_state = state\<rparr>"
    by (auto simp: evaluate_def)
  obtain A where A: "\<And>x. x \<in> set ?H \<Longrightarrow> ?read x = Inr (A x)"
    using read_hierarchy_reads [OF h] by metis
  have ws: "distinct ?H" "[] \<notin> set ?H" "distinct (map fst (rd_descriptive rd))"
    "\<And>x. x \<in> set ?H \<Longrightarrow> x \<notin> fst ` set (rd_descriptive rd)"
    using assms(1) by (auto simp: well_shaped_def reading_arms_def)
  have D: "arm_state (A x) = STATE_DELIVER \<longleftrightarrow> ?D x" if "x \<in> set ?H" for x
    using arm_state_fresh(2) [OF A [OF that] that] .
  then have tw: "takeWhile (\<lambda>x. arm_state (A x) = STATE_DELIVER) ?H = takeWhile ?D ?H"
    "dropWhile (\<lambda>x. arm_state (A x) = STATE_DELIVER) ?H = dropWhile ?D ?H"
    by (auto cong: takeWhile_cong dropWhile_cong)
  from read_hierarchy_spec [where read = ?read and A = A and names = ?H and arms = "[]" and chain = "[]", OF A ws(1,2)] h
  have chain: "chain = takeWhile ?D ?H" and stopped: "stopped = stop_of (dropWhile ?D ?H)"
    and placed: "map_of arms x = (if x \<in> set ?H then Some (arm_placed A (takeWhile ?D ?H) (dropWhile ?D ?H) x) else None)" for x
    unfolding tw stop_of_def by auto
  note keep = read_descriptive_keeps [OF d] and adds = read_descriptive_adds [OF d ws(3)]
  show ?thesis
  proof (rule that [OF A])
    fix x assume "x \<in> set ?H"
    then show "map_of (oc_arms oc) x = Some (arm_placed A (oc_chain oc) (dropWhile ?D ?H) x)"
      using keep [of x] ws(4) placed by (simp add: oc chain)
  next
    fix x n assume "(x, n) \<in> set (rd_descriptive rd)"
    from adds [OF this] show "\<exists>a. arm_reading fromiso rd x rs n = Inr a \<and> map_of (oc_arms oc) x = Some a" by (simp add: oc)
  next
    fix x assume "x \<notin> set (reading_arms rd)"
    then show "map_of (oc_arms oc) x = None" using keep [of x] placed by (simp add: oc reading_arms_def)
  next
    fix x assume "x \<in> set (oc_chain oc)"
    then show "\<exists>p. parse_arm x = Inr p" using certifying_arms_Inr(2) [OF c] by (simp add: oc)
  next
    show "outcome_state rd (oc_arms oc) (oc_chain oc) (oc_stopped_at oc)
        (if filter (arm_is certifies) (oc_chain oc) = [] then [] else last (filter (arm_is certifies) (oc_chain oc))) =
      Inr (oc_standard oc, oc_state oc)"
      using o unfolding certifying_arms_Inr(1) [OF c] by (simp only: oc reading_outcome.simps)
  qed (simp_all add: oc chain stopped)
qed

subsection \<open>The properties\<close>

abbreviation certifying_chain :: "reading_outcome \<Rightarrow> string list" where
  "certifying_chain oc \<equiv> filter (arm_is certifies) (oc_chain oc)"

lemma evaluate_state:
  assumes "well_shaped rd" and "evaluate fromiso rd rs = Inr oc"
  shows "oc_state oc = OUTCOME_STANDARD \<longleftrightarrow> rd_pool_drift rd = [] \<and> certifying_chain oc \<noteq> []"
    and "oc_standard oc = (if oc_state oc = OUTCOME_STANDARD then last (certifying_chain oc) else [])"
    and "oc_state oc = OUTCOME_CEILING \<Longrightarrow> rd_pool_drift rd = [] \<and> certifying_chain oc = [] \<and> oc_chain oc \<noteq> []"
proof -
  let ?D = "arm_delivers fromiso rd rs"
  from evaluate_parts [OF assms] obtain A where
    A: "\<And>x. x \<in> set (rd_hierarchy rd) \<Longrightarrow> arm_reading fromiso rd x rs 0 = Inr (A x)"
    and chain: "oc_chain oc = takeWhile ?D (rd_hierarchy rd)"
    and stopped: "oc_stopped_at oc = stop_of (dropWhile ?D (rd_hierarchy rd))"
    and arms: "\<And>x. x \<in> set (rd_hierarchy rd) \<Longrightarrow> map_of (oc_arms oc) x =
      Some (arm_placed A (oc_chain oc) (dropWhile ?D (rd_hierarchy rd)) x)"
    and o: "outcome_state rd (oc_arms oc) (oc_chain oc) (oc_stopped_at oc)
      (if certifying_chain oc = [] then [] else last (certifying_chain oc)) = Inr (oc_standard oc, oc_state oc)"
    by metis
  have H: "[] \<notin> set (rd_hierarchy rd)" "rd_hierarchy rd \<noteq> []" using assms(1) by (auto simp: well_shaped_def)
  have "last (certifying_chain oc) \<noteq> []" if "certifying_chain oc \<noteq> []"
  proof -
    have "last (certifying_chain oc) \<in> set (certifying_chain oc)" using that by (rule last_in_set)
    then show ?thesis using H(1) by (auto simp: chain dest: set_takeWhileD)
  qed
  moreover have "\<exists>b. map_of (oc_arms oc) (oc_stopped_at oc) = Some b \<and>
      arm_state b \<notin> {OUTCOME_STANDARD, OUTCOME_CEILING}" if ne: "oc_stopped_at oc \<noteq> []"
  proof -
    obtain s ss where d: "dropWhile ?D (rd_hierarchy rd) = s # ss"
      using ne stopped by (cases "dropWhile ?D (rd_hierarchy rd)") (auto simp: stop_of_def)
    then have s: "s \<in> set (rd_hierarchy rd)" by (metis list.set_intros(1) set_dropWhileD)
    have "map_of (oc_arms oc) s = Some (A s)" using arms [OF s] by (simp add: arm_placed_def d)
    then show ?thesis using arm_state_fresh(3) [OF A [OF s] s] by (simp add: stopped stop_of_def d)
  qed
  moreover have "oc_chain oc \<noteq> []" if "oc_stopped_at oc = []"
  proof -
    have "dropWhile ?D (rd_hierarchy rd) = []"
    proof (cases "dropWhile ?D (rd_hierarchy rd)")
      case (Cons s ss)
      then have "s \<in> set (rd_hierarchy rd)" by (metis list.set_intros(1) set_dropWhileD)
      then show ?thesis using that H(1) by (auto simp: stopped stop_of_def Cons)
    qed
    then show ?thesis using H(2) by (metis chain self_append_conv takeWhile_dropWhile_id)
  qed
  ultimately show "oc_state oc = OUTCOME_STANDARD \<longleftrightarrow> rd_pool_drift rd = [] \<and> certifying_chain oc \<noteq> []"
    and "oc_standard oc = (if oc_state oc = OUTCOME_STANDARD then last (certifying_chain oc) else [])"
    and "oc_state oc = OUTCOME_CEILING \<Longrightarrow> rd_pool_drift rd = [] \<and> certifying_chain oc = [] \<and> oc_chain oc \<noteq> []"
    using o by (auto simp: outcome_state_def key_of_def OUTCOME_STANDARD_def OUTCOME_CEILING_def OUTCOME_UNDECIDED_def
        STATE_UNDECIDED_def Let_def split: if_splits)
qed

text \<open>
  C34. The hierarchy proves the standard it names. A well-shaped reading has a standard exactly when
  its pool did not drift and some certifying arm lies in the unbroken chain of delivering arms from
  the richest arm on; the standard is the last, leanest such arm, so it and every richer arm before
  it delivered with no row it could not read; a ceiling is a chain with no certifying arm.
\<close>

theorem hierarchy_standard:
  assumes "well_shaped rd" and "evaluate fromiso rd rs = Inr oc"
  shows "oc_chain oc = takeWhile (arm_delivers fromiso rd rs) (rd_hierarchy rd) \<and>
    (oc_state oc = OUTCOME_STANDARD \<longleftrightarrow> rd_pool_drift rd = [] \<and> filter (arm_is certifies) (oc_chain oc) \<noteq> []) \<and>
    oc_standard oc = (if oc_state oc = OUTCOME_STANDARD then last (filter (arm_is certifies) (oc_chain oc)) else []) \<and>
    (oc_state oc = OUTCOME_CEILING \<longrightarrow>
      rd_pool_drift rd = [] \<and> filter (arm_is certifies) (oc_chain oc) = [] \<and> oc_chain oc \<noteq> [])"
proof -
  have "oc_chain oc = takeWhile (arm_delivers fromiso rd rs) (rd_hierarchy rd)"
    by (rule evaluate_parts [OF assms])
  then show ?thesis using evaluate_state [OF assms] by blast
qed

definition look_words :: "string set" where
  "look_words = {STATE_DELIVER, STATE_INSUFFICIENT, STATE_UNDECIDED, STATE_LOOK_PENDING, STATE_DESCRIPTIVE}"

lemma arm_look_word:
  assumes "well_shaped rd" and "evaluate fromiso rd rs = Inr oc" and "map_of (oc_arms oc) name = Some a"
  shows "lk_state (ar_look a) \<in> look_words"
proof -
  let ?D = "arm_delivers fromiso rd rs" and ?H = "rd_hierarchy rd"
  from evaluate_parts [OF assms(1,2)] obtain A where
    A: "\<And>x. x \<in> set ?H \<Longrightarrow> arm_reading fromiso rd x rs 0 = Inr (A x)"
    and arms: "\<And>x. x \<in> set ?H \<Longrightarrow> map_of (oc_arms oc) x = Some (arm_placed A (oc_chain oc) (dropWhile ?D ?H) x)"
    and desc: "\<And>x n. (x, n) \<in> set (rd_descriptive rd) \<Longrightarrow>
      \<exists>a. arm_reading fromiso rd x rs n = Inr a \<and> map_of (oc_arms oc) x = Some a"
    and other: "\<And>x. x \<notin> set (reading_arms rd) \<Longrightarrow> map_of (oc_arms oc) x = None"
    by metis
  show ?thesis
  proof (cases "name \<in> set ?H")
    case True
    have "ar_look (arm_placed A c b name) = ar_look (A name)" for c b
      by (simp add: arm_placed_def labelled_def split: list.split)
    then show ?thesis
      using arms [OF True] assms(3) arm_reading_fresh(3) [OF A [OF True]] by (auto simp: look_words_def)
  next
    case False
    have "name \<in> set (reading_arms rd)" using other [of name] assms(3) by (cases "name \<in> set (reading_arms rd)") simp_all
    with False obtain k where "(name, k) \<in> set (rd_descriptive rd)" by (auto simp: reading_arms_def)
    from desc [OF this] assms(3) have "arm_reading fromiso rd name rs k = Inr a" by simp
    from arm_reading_fresh(3) [OF this] show ?thesis by (simp add: look_words_def)
  qed
qed

text \<open>An arm behind a stop is labelled by an arm that was read and did not deliver.\<close>

lemma stopped_by_read:
  assumes "well_shaped rd" and "evaluate fromiso rd rs = Inr oc" and "map_of (oc_arms oc) name = Some a"
    and "ar_stopped_by a \<noteq> []"
  shows "\<exists>b. map_of (oc_arms oc) (ar_stopped_by a) = Some b \<and> arm_state b \<noteq> STATE_DELIVER \<and> arm_state b \<in> look_words"
proof -
  let ?D = "arm_delivers fromiso rd rs" and ?H = "rd_hierarchy rd"
  from evaluate_parts [OF assms(1,2)] obtain A where
    A: "\<And>x. x \<in> set ?H \<Longrightarrow> arm_reading fromiso rd x rs 0 = Inr (A x)"
    and arms: "\<And>x. x \<in> set ?H \<Longrightarrow> map_of (oc_arms oc) x = Some (arm_placed A (oc_chain oc) (dropWhile ?D ?H) x)"
    and desc: "\<And>x n. (x, n) \<in> set (rd_descriptive rd) \<Longrightarrow>
      \<exists>a. arm_reading fromiso rd x rs n = Inr a \<and> map_of (oc_arms oc) x = Some a"
    and other: "\<And>x. x \<notin> set (reading_arms rd) \<Longrightarrow> map_of (oc_arms oc) x = None"
    by metis
  have h: "name \<in> set ?H"
  proof (rule ccontr)
    assume n: "name \<notin> set ?H"
    have "name \<in> set (reading_arms rd)" using other [of name] assms(3) by (cases "name \<in> set (reading_arms rd)") simp_all
    with n obtain k where "(name, k) \<in> set (rd_descriptive rd)" by (auto simp: reading_arms_def)
    from desc [OF this] assms(3) have "arm_reading fromiso rd name rs k = Inr a" by simp
    from arm_reading_fresh(1) [OF this] assms(4) show False by simp
  qed
  have fresh: "ar_stopped_by (A name) = []" by (rule arm_reading_fresh(1) [OF A [OF h]])
  have "a = arm_placed A (oc_chain oc) (dropWhile ?D ?H) name" using assms(3) arms [OF h] by simp
  then obtain s ss where dw: "dropWhile ?D ?H = s # ss" and s: "ar_stopped_by a = s"
    using assms(4) fresh by (cases "dropWhile ?D ?H") (simp_all add: arm_placed_def labelled_def split: if_splits)
  have sH: "s \<in> set ?H" by (metis dw list.set_intros(1) set_dropWhileD)
  have "\<not> ?D s" using dw by (metis dropWhile_eq_Cons_conv)
  then have "arm_state (A s) \<noteq> STATE_DELIVER" using arm_state_fresh(2) [OF A [OF sH] sH] by simp
  moreover have "arm_state (A s) \<in> look_words"
    using arm_state_fresh(1) [OF A [OF sH] sH] arm_reading_fresh(3) [OF A [OF sH]] by (simp add: look_words_def)
  moreover have "map_of (oc_arms oc) s = Some (A s)" using arms [OF sH] by (simp add: arm_placed_def dw)
  ultimately show ?thesis by (simp add: s)
qed

lemma verdict_for_total:
  assumes "well_shaped rd" and "evaluate fromiso rd rs = Inr oc" and "is_arm name"
  shows "\<exists>v. verdict_for (Some oc) name = Inr v"
proof -
  obtain p where p: "parse_arm name = Inr p" using assms(3) by (auto simp: is_arm_parse)
  then show ?thesis
    using stopped_by_read [OF assms(1,2)]
    by (fastforce simp: verdict_for_def key_of_def Let_def split: option.splits)
qed

text \<open>
  A reading whose arms are in the grammar and whose rule is registered evaluates over every
  ledger without an error, and the router's verdict on every arm name of the grammar exists too.
\<close>

lemma evaluate_total:
  assumes "well_shaped rd" and "list_all is_arm (reading_arms rd)" and "rule_looks (rd_rule rd) = Inr l"
  shows "\<exists>oc. evaluate fromiso rd rs = Inr oc \<and> (\<forall>name. is_arm name \<longrightarrow> (\<exists>v. verdict_for (Some oc) name = Inr v))"
proof -
  let ?read = "\<lambda>name. arm_reading fromiso rd name rs 0"
  have parse: "\<exists>p. parse_arm x = Inr p" if "x \<in> set (reading_arms rd)" for x
    using assms(2) that by (auto simp: list_all_iff is_arm_parse)
  have reads: "\<exists>a. arm_reading fromiso rd x rs n = Inr a" if "x \<in> set (reading_arms rd)" for x n
    using parse [OF that] arm_reading_total [OF _ assms(3)] by blast
  have H: "distinct (rd_hierarchy rd)" "[] \<notin> set (rd_hierarchy rd)"
    using assms(1) by (auto simp: well_shaped_def reading_arms_def)
  have "\<exists>A. \<forall>x \<in> set (rd_hierarchy rd). ?read x = Inr (A x)"
    using reads by (intro bchoice) (auto simp: reading_arms_def)
  then obtain A where A: "\<And>x. x \<in> set (rd_hierarchy rd) \<Longrightarrow> ?read x = Inr (A x)" by blast
  define D where "D = (\<lambda>x. arm_state (A x) = STATE_DELIVER)"
  from read_hierarchy_spec [where read = ?read and A = A and names = "rd_hierarchy rd" and arms = "[]" and chain = "[]",
      OF A H, folded D_def] obtain arms where
    h: "read_hierarchy ?read (rd_hierarchy rd) ([], [], []) =
      Inr (arms, takeWhile D (rd_hierarchy rd), stop_of (dropWhile D (rd_hierarchy rd)))"
    and m: "\<And>x. map_of arms x = None \<longleftrightarrow> x \<notin> set (rd_hierarchy rd)"
    by (auto simp: stop_of_def)
  have "\<exists>arms'. read_descriptive (\<lambda>name n. arm_reading fromiso rd name rs n) ns arms = Inr arms'"
    if "fst ` set ns \<subseteq> set (reading_arms rd)" for ns arms
    using that
  proof (induction ns arbitrary: arms)
    case (Cons p ns)
    obtain x n where "p = (x, n)" by (cases p)
    then show ?case using reads [of x n] Cons by auto
  qed simp
  from this [of "rd_descriptive rd" arms] obtain arms' where
    d: "read_descriptive (\<lambda>name n. arm_reading fromiso rd name rs n) (rd_descriptive rd) arms = Inr arms'"
    by (auto simp: reading_arms_def)
  have certs: "certifying_arms (takeWhile D (rd_hierarchy rd)) = Inr (filter (arm_is certifies) (takeWhile D (rd_hierarchy rd)))"
    unfolding certifying_arms_def
  proof (rule filter_result_all)
    fix x assume "x \<in> set (takeWhile D (rd_hierarchy rd))"
    then have "x \<in> set (reading_arms rd)" by (auto simp: reading_arms_def dest: set_takeWhileD)
    from parse [OF this] show "bind_result (parse_arm x) (\<lambda>p. Inr (certifies p)) = Inr (arm_is certifies x)"
      by (auto simp: arm_is_def)
  qed
  have outs: "\<exists>out. outcome_state rd arms' chain (stop_of (dropWhile D (rd_hierarchy rd))) std = Inr out" for chain std
  proof (cases "dropWhile D (rd_hierarchy rd)")
    case (Cons s ss)
    then have s: "s \<in> set (rd_hierarchy rd)" by (metis list.set_intros(1) set_dropWhileD)
    then have "s \<notin> fst ` set (rd_descriptive rd)" using assms(1) by (auto simp: well_shaped_def reading_arms_def)
    from read_descriptive_keeps [OF d this] m [of s] s obtain b where "map_of arms' s = Some b" by auto
    then show ?thesis by (auto simp: outcome_state_def key_of_def stop_of_def Cons Let_def)
  next
    case Nil
    show ?thesis unfolding Nil by (simp add: outcome_state_def stop_of_def)
  qed
  let ?chain = "takeWhile D (rd_hierarchy rd)"
  let ?certs = "filter (arm_is certifies) ?chain"
  obtain std state where o: "outcome_state rd arms' ?chain (stop_of (dropWhile D (rd_hierarchy rd)))
      (if ?certs = [] then [] else last ?certs) = Inr (std, state)" using outs by fastforce
  have "evaluate fromiso rd rs = Inr \<lparr>oc_reading = rd, oc_arms = arms', oc_chain = ?chain,
      oc_stopped_at = stop_of (dropWhile D (rd_hierarchy rd)), oc_standard = std, oc_state = state\<rparr>"
    unfolding evaluate_def h bind_result.simps prod.case d certs o ..
  then show ?thesis using verdict_for_total [OF assms(1)] by blast
qed

lemma sample_legacy_shaped: "well_shaped sample_legacy" "list_all is_arm (reading_arms sample_legacy)"
  "rule_looks (rd_rule sample_legacy) = Inr [(20, 0), (30, 1), (40, 2)]"
  using parse_S3
  by (simp_all add: well_shaped_def reading_arms_def sample_legacy_def sample_reading_def rule_v1 is_arm_parse)

lemma parse_S1: "\<exists>p. parse_arm ''S1@m'' = Inr p \<and> certifies p" "is_arm ''S1@m''" "arm_is certifies ''S1@m''"
proof -
  show a: "is_arm ''S1@m''" "arm_is certifies ''S1@m''" by code_simp+
  from a show "\<exists>p. parse_arm ''S1@m'' = Inr p \<and> certifies p" by (auto simp: is_arm_parse arm_is_def)
qed

lemma sample_proof_shaped: "well_shaped sample_proof"
  by (simp add: well_shaped_def reading_arms_def sample_proof_fields)

lemma sample_evaluates: "\<exists>oc a. evaluate sample_iso sample_proof sample_hits = Inr oc \<and> oc_chain oc = [''S1@m''] \<and>
    oc_state oc = OUTCOME_STANDARD \<and> oc_standard oc = ''S1@m'' \<and> oc_reading oc = sample_proof \<and>
    map_of (oc_arms oc) ''S1@m'' = Some a \<and> counted_commits a = sample_commits \<and> lk_counted (ar_look a) = 20"
proof -
  obtain a where a: "arm_reading sample_iso sample_proof ''S1@m'' sample_hits 0 = Inr a"
    "arm_state a = STATE_DELIVER" "counted_commits a = sample_commits" "lk_counted (ar_look a) = 20" using sample_proof_delivers by blast
  obtain p where "parse_arm ''S1@m'' = Inr p" "certifies p" using parse_S1(1) by blast
  with a show ?thesis
    by (simp add: evaluate_def sample_proof_fields certifying_arms_def filter_result_def outcome_state_def)
qed

lemma hierarchy_standard_witness:
  "\<exists>oc. evaluate sample_iso sample_proof sample_hits = Inr oc \<and> oc_state oc = OUTCOME_STANDARD \<and>
    oc_standard oc = ''S1@m'' \<and> arm_delivers sample_iso sample_proof sample_hits ''S1@m''"
proof -
  obtain oc where oc: "evaluate sample_iso sample_proof sample_hits = Inr oc" "oc_chain oc = [''S1@m'']"
    "oc_state oc = OUTCOME_STANDARD" "oc_standard oc = ''S1@m''" using sample_evaluates by blast
  have "oc_chain oc = takeWhile (arm_delivers sample_iso sample_proof sample_hits) (rd_hierarchy sample_proof)"
    using hierarchy_standard [OF sample_proof_shaped oc(1)] by (elim conjE)
  then have "arm_delivers sample_iso sample_proof sample_hits ''S1@m''"
    unfolding oc(2) sample_proof_fields(8) by (simp split: if_splits)
  with oc show ?thesis by blast
qed

lemma verdict_fields [simp]:
  "av_state (verdict_base oc v) = av_state v" "av_state (verdict_common oc a v) = av_state v"
  "av_state (ArmVerdict name state) = state"
  by (simp_all add: verdict_base_def verdict_common_def ArmVerdict_def)

lemma verdict_for_state:
  assumes "verdict_for (Some oc) name = Inr v" and "map_of (oc_arms oc) name = Some a"
  shows "av_state v = (if rd_pool_drift (oc_reading oc) \<noteq> [] then STATE_UNDECIDED
     else if ar_scope_faults a \<noteq> [] \<and> ar_stopped_by a = [] then STATE_UNDECIDED
     else if ar_descriptive a then VERDICT_DESCRIPTIVE
     else if ar_stopped_by a \<noteq> [] then arm_state (the (map_of (oc_arms oc) (ar_stopped_by a)))
     else if lk_state (ar_look a) = STATE_DELIVER then
       (if ceiling (projr (parse_arm name)) then VERDICT_CEILING
        else if name \<noteq> oc_standard oc then VERDICT_LEANER else VERDICT_DELIVER)
     else lk_state (ar_look a))"
  using assms by (auto simp: verdict_for_def key_of_def Let_def split: if_splits option.splits dest!: arg_cong [of _ _ av_state])

lemma verdict_for_parses:
  assumes "verdict_for (Some oc) name = Inr v" and "map_of (oc_arms oc) name = Some a"
    and "rd_pool_drift (oc_reading oc) = []" and "ar_scope_faults a = []" and "\<not> ar_descriptive a"
    and "ar_stopped_by a = []" and "lk_state (ar_look a) = STATE_DELIVER"
  shows "\<exists>p. parse_arm name = Inr p"
  using assms by (auto simp: verdict_for_def Let_def)

lemma verdict_for_absent:
  "verdict_for (Some oc) name = Inr v \<Longrightarrow> map_of (oc_arms oc) name = None \<Longrightarrow> av_state v = VERDICT_UNREGISTERED"
  by (auto simp: verdict_for_def)

lemma deliver_verdict:
  assumes "well_shaped rd" and "evaluate fromiso rd rs = Inr oc" and "verdict_for (Some oc) name = Inr v"
  shows "av_state v = VERDICT_DELIVER \<longleftrightarrow> oc_state oc = OUTCOME_STANDARD \<and> oc_standard oc = name"
proof -
  let ?D = "arm_delivers fromiso rd rs" and ?H = "rd_hierarchy rd"
  from evaluate_parts [OF assms(1,2)] obtain A where
    A: "\<And>x. x \<in> set ?H \<Longrightarrow> arm_reading fromiso rd x rs 0 = Inr (A x)"
    and rd: "oc_reading oc = rd" and chain: "oc_chain oc = takeWhile ?D ?H"
    and arms: "\<And>x. x \<in> set ?H \<Longrightarrow> map_of (oc_arms oc) x = Some (arm_placed A (oc_chain oc) (dropWhile ?D ?H) x)"
    by metis
  note state = evaluate_state [OF assms(1,2)]
  show ?thesis
  proof
    assume l: "oc_state oc = OUTCOME_STANDARD \<and> oc_standard oc = name"
    then have "name \<in> set (filter (arm_is certifies) (oc_chain oc))"
      using state(1,2) last_in_set by metis
    then have c: "name \<in> set (oc_chain oc)" "arm_is certifies name" by auto
    then have h: "name \<in> set ?H" "?D name" by (auto simp: chain dest: set_takeWhileD)
    have m: "map_of (oc_arms oc) name = Some (A name)" using arms [OF h(1)] c(1) by (simp add: arm_placed_def)
    note fresh = arm_reading_fresh [OF A [OF h(1)]]
    have a: "ar_scope_faults (A name) = []" "lk_state (ar_look (A name)) = STATE_DELIVER"
      using h(2) A [OF h(1)] by (simp_all add: arm_delivers_def)
    obtain p where p: "parse_arm name = Inr p" "certifies p" using c(2) by (auto simp: arm_is_def split: sum.splits)
    then have "\<not> ceiling p" by (auto simp: certifies_def ceiling_def)
    then show "av_state v = VERDICT_DELIVER"
      using verdict_for_state [OF assms(3) m] a p(1) fresh(1) fresh(4) [OF h(1) refl] l state(1) by (simp add: rd)
  next
    assume d: "av_state v = VERDICT_DELIVER"
    then obtain a where m: "map_of (oc_arms oc) name = Some a"
      using verdict_for_absent [OF assms(3)] by (cases "map_of (oc_arms oc) name") (auto simp: state_defs)
    note vs = verdict_for_state [OF assms(3) m, unfolded d rd]
    have drift: "rd_pool_drift rd = []" "\<not> (ar_scope_faults a \<noteq> [] \<and> ar_stopped_by a = [])" "\<not> ar_descriptive a"
      using vs by (auto simp: state_defs split: if_splits)
    have st: "ar_stopped_by a = []"
    proof (rule ccontr)
      assume st: "ar_stopped_by a \<noteq> []"
      then show False
        using stopped_by_read [OF assms(1,2) m st] vs drift by (auto simp: VERDICT_DELIVER_def)
    qed
    have look: "lk_state (ar_look a) = STATE_DELIVER \<and> oc_standard oc = name"
    proof -
      have "VERDICT_DELIVER \<noteq> VERDICT_CEILING" "VERDICT_DELIVER \<noteq> VERDICT_LEANER" "VERDICT_DELIVER = STATE_DELIVER"
        by (simp_all add: state_defs)
      moreover have "VERDICT_DELIVER = (if lk_state (ar_look a) = STATE_DELIVER then
          (if ceiling (projr (parse_arm name)) then VERDICT_CEILING
           else if name \<noteq> oc_standard oc then VERDICT_LEANER else VERDICT_DELIVER) else lk_state (ar_look a))"
        using vs drift st by simp
      ultimately show ?thesis by (metis (full_types))
    qed
    obtain p where "parse_arm name = Inr p"
      using verdict_for_parses [OF assms(3) m] drift st look by (auto simp: rd)
    moreover have "\<not> is_arm []" by code_simp
    ultimately have "oc_standard oc = name" "name \<noteq> []" using look by (auto simp: is_arm_parse)
    then show "oc_state oc = OUTCOME_STANDARD \<and> oc_standard oc = name" using state(2) by (metis)
  qed
qed

text \<open>
  The router is told \<open>deliver\<close> for the cell's standard and for nothing else. In the evaluation of a
  well-shaped reading the verdict on an arm is \<open>deliver\<close> exactly when the cell has a standard and the
  arm is that standard: never for a ceiling, a richer arm, a stopped, descriptive, faulted or drifted one.
\<close>

theorem deliver_verdict_is_standard:
  assumes "well_shaped rd" and "evaluate fromiso rd rs = Inr oc" and "verdict_for (Some oc) name = Inr v"
  shows "av_state v = VERDICT_DELIVER \<longleftrightarrow> oc_state oc = OUTCOME_STANDARD \<and> oc_standard oc = name"
  using assms by (rule deliver_verdict)

lemma deliver_verdict_is_standard_witness:
  "\<exists>oc v. evaluate sample_iso sample_proof sample_hits = Inr oc \<and> verdict_for (Some oc) ''S1@m'' = Inr v \<and>
    av_state v = VERDICT_DELIVER"
proof -
  obtain oc where oc: "evaluate sample_iso sample_proof sample_hits = Inr oc" "oc_state oc = OUTCOME_STANDARD"
    "oc_standard oc = ''S1@m''" using sample_evaluates by blast
  from verdict_for_total [OF sample_proof_shaped oc(1) parse_S1(2)] obtain v where
    v: "verdict_for (Some oc) ''S1@m'' = Inr v" ..
  with deliver_verdict_is_standard [OF sample_proof_shaped oc(1) v] oc show ?thesis by auto
qed

lemma latest_among_max:
  "latest_among best os = Some out \<Longrightarrow> out \<in> set os \<union> set_option best \<and>
     (\<forall>a \<in> set os \<union> set_option best. outcome_rank (oc_state a) \<le> outcome_rank (oc_state out))"
proof (induction os arbitrary: best)
  case (Cons a os)
  let ?b = "case best of None \<Rightarrow> Some a | Some b \<Rightarrow> if speaks_over a b then Some a else best"
  from Cons.IH [of ?b] Cons.prems have ih: "out \<in> set os \<union> set_option ?b"
    "\<forall>a \<in> set os \<union> set_option ?b. outcome_rank (oc_state a) \<le> outcome_rank (oc_state out)" by auto
  then show ?case by (cases best) (fastforce simp: speaks_over_def split: if_splits)+
qed simp

lemma collect_member:
  "collect f xs = Inr ys \<Longrightarrow> y \<in> set ys \<Longrightarrow> \<exists>x \<in> set xs. f x = Inr y"
  "collect f xs = Inr ys \<Longrightarrow> x \<in> set xs \<Longrightarrow> \<exists>y \<in> set ys. f x = Inr y"
  by (induction xs arbitrary: ys) fastforce+

text \<open>
  What the factory's gate licenses was proved. The standard a cell is given comes from a reading
  registered on exactly that cell and scope, whose pool did not drift; its arm and every richer arm
  of that reading's chain delivered; it is a ceiling exactly when the arm does not certify; and no
  other reading of the cell speaks louder.
\<close>

theorem standard_of_proved:
  assumes "list_all well_shaped readings" and "standard_of fromiso readings rows sc = Inr (Some sd)"
  shows "\<exists>rd oc. rd \<in> set readings \<and> in_cell sc rd \<and> evaluate fromiso rd rows = Inr oc \<and>
    sd_reading_id sd = rd_reading_id rd \<and> rd_pool_drift rd = [] \<and> sd_arm sd \<in> set (oc_chain oc) \<and>
    list_all (arm_delivers fromiso rd rows) (oc_chain oc) \<and> (sd_ceiling sd \<longleftrightarrow> \<not> arm_is certifies (sd_arm sd)) \<and>
    list_all (\<lambda>rd'. \<exists>oc'. evaluate fromiso rd' rows = Inr oc' \<and>
      outcome_rank (oc_state oc') \<le> outcome_rank (oc_state oc)) (filter (in_cell sc) readings)"
proof -
  obtain outs best where outs: "outcomes_for_cell fromiso readings rows sc = Inr outs" and best: "latest_outcome outs = Some best"
    using assms(2) by (auto simp: standard_of_def split: option.splits)
  let ?arm = "if oc_standard best \<noteq> [] then oc_standard best else if oc_chain best \<noteq> [] then last (oc_chain best) else []"
  have sd: "oc_state best \<in> {OUTCOME_STANDARD, OUTCOME_CEILING}" "?arm \<noteq> []" "sd_arm sd = ?arm"
    "sd_reading_id sd = rd_reading_id (oc_reading best)" "sd_ceiling sd \<longleftrightarrow> oc_state best = OUTCOME_CEILING"
    using assms(2) by (auto simp: standard_of_def outs best Let_def simp del: bind_result_Inr split: if_splits)
  have col: "collect (\<lambda>rd. evaluate fromiso rd rows) (filter (in_cell sc) readings) = Inr outs"
    using outs by (simp add: outcomes_for_cell_def)
  have max: "best \<in> set outs" "\<And>a. a \<in> set outs \<Longrightarrow> outcome_rank (oc_state a) \<le> outcome_rank (oc_state best)"
    using latest_among_max [OF best [unfolded latest_outcome_def]] by auto
  from collect_member(1) [OF col max(1)] obtain rd where rd: "rd \<in> set readings" "in_cell sc rd"
    "evaluate fromiso rd rows = Inr best" by auto
  have ws: "well_shaped rd" using assms(1) rd(1) by (simp add: list_all_iff)
  note state = evaluate_state [OF ws rd(3)]
  have chain: "oc_chain best = takeWhile (arm_delivers fromiso rd rows) (rd_hierarchy rd)" and "oc_reading best = rd"
    by (rule evaluate_parts [OF ws rd(3)], assumption)+
  have ne: "OUTCOME_CEILING \<noteq> OUTCOME_STANDARD" by (simp add: state_defs)
  have "sd_arm sd \<in> set (oc_chain best) \<and> (sd_ceiling sd \<longleftrightarrow> \<not> arm_is certifies (sd_arm sd)) \<and> rd_pool_drift rd = []"
  proof (cases "oc_state best = OUTCOME_STANDARD")
    case True
    then have c: "certifying_chain best \<noteq> []" "oc_standard best = last (certifying_chain best)" "rd_pool_drift rd = []"
      using state(1,2) by auto
    have "last (certifying_chain best) \<in> set (certifying_chain best)" using c(1) by (rule last_in_set)
    moreover from this have "oc_standard best \<noteq> []"
      using ws by (auto simp: c(2) chain well_shaped_def dest: set_takeWhileD)
    ultimately show ?thesis using sd(3,5) c True ne by auto
  next
    case False
    then have s: "oc_state best = OUTCOME_CEILING" using sd(1) by auto
    have "oc_standard best = []" using False state(2) by simp
    then have "sd_arm sd = last (oc_chain best)" "oc_chain best \<noteq> []" using sd(2,3) by auto
    moreover from this have "sd_arm sd \<in> set (oc_chain best)" by simp
    ultimately show ?thesis using state(3) [OF s] sd(5) s by (auto simp: filter_empty_conv)
  qed
  moreover have "list_all (arm_delivers fromiso rd rows) (oc_chain best)"
    by (simp add: chain list_all_iff) (meson set_takeWhileD)
  moreover have "list_all (\<lambda>rd'. \<exists>oc'. evaluate fromiso rd' rows = Inr oc' \<and>
      outcome_rank (oc_state oc') \<le> outcome_rank (oc_state best)) (filter (in_cell sc) readings)"
    unfolding list_all_iff using collect_member(2) [OF col] max(2) by blast
  ultimately show ?thesis using rd sd(4) \<open>oc_reading best = rd\<close> by blast
qed

definition sample_scope :: cell_scope where
  "sample_scope = \<lparr>sc_repo = ''r'', sc_cell = rd_cell sample_proof, sc_apparatus = ''2.3'', sc_taxonomy = [],
     sc_checks_arm = ''off'', sc_posture_class = ''docker/none/sealed'', sc_org_class = []\<rparr>"

lemma standard_of_proved_witness:
  "\<exists>sd. standard_of sample_iso [sample_proof] sample_hits sample_scope = Inr (Some sd) \<and> \<not> sd_ceiling sd \<and>
    arm_delivers sample_iso sample_proof sample_hits (sd_arm sd) \<and> arm_is certifies (sd_arm sd)"
proof -
  obtain oc where oc: "evaluate sample_iso sample_proof sample_hits = Inr oc" "oc_state oc = OUTCOME_STANDARD"
    "oc_standard oc = ''S1@m''" "oc_reading oc = sample_proof" "oc_chain oc = [''S1@m'']" using sample_evaluates by blast
  have "in_cell sample_scope sample_proof"
    by (simp add: in_cell_def sample_scope_def sample_proof_def sample_reading_def rd_cell_key_def)
  then have "\<exists>sd. standard_of sample_iso [sample_proof] sample_hits sample_scope = Inr (Some sd) \<and> \<not> sd_ceiling sd"
    using oc by (simp add: standard_of_def outcomes_for_cell_def latest_outcome_def state_defs)
  then obtain sd where sd: "standard_of sample_iso [sample_proof] sample_hits sample_scope = Inr (Some sd)" "\<not> sd_ceiling sd"
    by blast
  from standard_of_proved [OF _ sd(1)] sample_proof_shaped sd oc(1) show ?thesis by (auto simp: list_all_iff)
qed

end
