(* ===== verification/Registration_Correct.thy ===== *)
theory Registration_Correct
  imports Registration Reading_Outcome_Correct
begin

section \<open>What a registration guarantees\<close>

text \<open>
  The log of accepted registrations never spends more than one cell's error budget, so the chance of
  ever certifying a cell at the null rate is bounded; a pool is blind to outcomes and to the caller's
  order; and every registered reading evaluates.
\<close>

subsection \<open>The cell's budget\<close>

lemma first_per_id_distinct: "distinct (map rd_reading_id rs) \<Longrightarrow>
    set seen \<inter> rd_reading_id ` set rs = {} \<Longrightarrow> first_per_id_from seen rs = rs"
  by (induction seen rs rule: first_per_id_from.induct) auto

lemma refuse_twin_ok: "refuse_twin rd existing = Inr () \<Longrightarrow> rd_reading_id rd \<notin> rd_reading_id ` set existing"
  by (auto simp: refuse_twin_def registered_twin_def find_None_iff split: option.splits)

lemma cell_key_nonempty: "rd_cell_key rd \<noteq> []"
  by (simp add: rd_cell_key_def reading_cell_key_def canonical_cell_key_def CELL_FIELDS_def)

lemma or_else_nonempty [simp]: "or_else [] b = b" "b \<noteq> [] \<Longrightarrow> or_else a b \<noteq> []" "a \<noteq> [] \<Longrightarrow> or_else a b = a"
  by (auto simp: or_else_def)

lemma new_reading_keeps [simp]:
  "rd_repo (new_reading h rd) = rd_repo rd" "rd_cell (new_reading h rd) = rd_cell rd"
  "rd_apparatus (new_reading h rd) = rd_apparatus rd" "rd_taxonomy (new_reading h rd) = rd_taxonomy rd"
  "rd_org_class (new_reading h rd) = rd_org_class rd" "rd_budget_cell (new_reading h rd) = rd_budget_cell rd"
  "rd_rule (new_reading h rd) = rd_rule rd" "rd_spend (new_reading h rd) = rd_spend rd"
  "rd_hierarchy (new_reading h rd) = rd_hierarchy rd" "rd_descriptive (new_reading h rd) = rd_descriptive rd"
  "rd_pool (new_reading h rd) = rd_pool rd" "rd_pool_rule (new_reading h rd) = rd_pool_rule rd"
  by (simp_all add: new_reading_def Let_def)

lemma forward_budget_key: "budget_key (forward_reading h base fq rp cap spend) = budget_key base"
  using cell_key_nonempty by (simp add: budget_key_def forward_reading_def)

lemma cell_error_budget_le: "cell_error_budget to_float env = Inr cap \<Longrightarrow> cap \<le> CELL_ERROR_BUDGET"
  by (auto simp: cell_error_budget_def Let_def split: option.splits if_splits)

text \<open>What an accepted registration passed, for a replay and for a forward reading.\<close>

definition accepted :: "reading list \<Rightarrow> reading \<Rightarrow> bool" where
  "accepted existing rd \<longleftrightarrow> rd_reading_id rd \<notin> rd_reading_id ` set existing \<and>
     rule_spend (rd_rule rd) = Inr (rd_spend rd) \<and>
     budget_spent existing (budget_key rd) + rd_spend rd \<le> CELL_ERROR_BUDGET + BUDGET_SLACK"

lemma register_accepted:
  assumes "register_reading h rq (cell_error_budget to_float env) existing rows = Inr rd"
  shows "accepted existing rd"
proof -
  from assms obtain chosen author cap spend ordered where
    "cell_error_budget to_float env = Inr cap" "rule_spend (rq_rule rq) = Inr spend"
    "rd = requested h rq chosen author cap spend ordered" "refuse_twin rd existing = Inr ()"
    "refuse_over_budget existing (budget_key rd) spend cap = Inr ()"
    by (auto simp: register_reading_def Let_def split: if_splits)
  then show ?thesis
    using cell_error_budget_le refuse_twin_ok
    by (fastforce simp: accepted_def refuse_over_budget_def requested_def Let_def split: if_splits)
qed

lemma forward_accepted:
  assumes "register_forward h out fq (cell_error_budget to_float env) existing = Inr rd"
  shows "accepted existing rd"
proof -
  from assms obtain chosen cap spend where
    "cell_error_budget to_float env = Inr cap" "rule_spend (fq_rule fq) = Inr spend"
    "rd = forward_reading h (oc_reading out) fq chosen cap spend" "refuse_twin rd existing = Inr ()"
    "refuse_over_budget existing (budget_key (oc_reading out)) spend cap = Inr ()"
    by (auto simp: register_forward_def Let_def split: if_splits)
  then show ?thesis
    using cell_error_budget_le refuse_twin_ok forward_budget_key
    by (fastforce simp: accepted_def refuse_over_budget_def forward_reading_def split: if_splits)
qed

text \<open>The log of accepted registrations, each checked against the ones before it.\<close>

inductive registry :: "hashes \<Rightarrow> reading list \<Rightarrow> bool" for h where
  registry_empty: "registry h []"
| registry_replay: "registry h regs \<Longrightarrow>
    register_reading h rq (cell_error_budget to_float env) regs rows = Inr rd \<Longrightarrow> registry h (regs @ [rd])"
| registry_forward: "registry h regs \<Longrightarrow>
    register_forward h out fq (cell_error_budget to_float env) regs = Inr rd \<Longrightarrow> registry h (regs @ [rd])"

definition regs_ok :: "reading list \<Rightarrow> bool" where
  "regs_ok regs \<longleftrightarrow> distinct (map rd_reading_id regs) \<and> (\<forall>rd \<in> set regs. rule_spend (rd_rule rd) = Inr (rd_spend rd)) \<and>
     (\<forall>key. sum_list (map rd_spend (filter (\<lambda>r. budget_key r = key) regs)) \<le> CELL_ERROR_BUDGET + BUDGET_SLACK)"

lemma regs_ok_snoc:
  assumes "regs_ok regs" and "accepted regs rd"
  shows "regs_ok (regs @ [rd])"
proof -
  have "first_per_id regs = regs"
    using assms(1) by (simp add: first_per_id_def first_per_id_distinct regs_ok_def)
  then show ?thesis using assms by (auto simp: regs_ok_def accepted_def budget_spent_def)
qed

lemma registry_ok: "registry h regs \<Longrightarrow> regs_ok regs"
proof (induction rule: registry.induct)
  case registry_empty
  show ?case by (simp add: regs_ok_def CELL_ERROR_BUDGET_def BUDGET_SLACK_def)
qed (auto intro: regs_ok_snoc register_accepted forward_accepted)

definition deliver_chance :: "rat \<Rightarrow> (reading \<Rightarrow> nat option) \<Rightarrow> reading \<Rightarrow> rat" where
  "deliver_chance p pool rd = (case p_deliver (rd_rule rd) p (pool rd) of Inl _ \<Rightarrow> 0 | Inr x \<Rightarrow> x)"

lemma deliver_chance_le:
  assumes "rule_spend (rd_rule rd) = Inr (rd_spend rd)" and "0 \<le> p" and "p \<le> NULL_RATE"
  shows "deliver_chance p pool rd \<le> rd_spend rd"
proof -
  obtain l where "rule_looks (rd_rule rd) = Inr l" using assms(1) by (auto simp: rule_spend_def p_deliver_def)
  from deliver_le_spend [OF this assms(2,3), of "pool rd"] assms(1) show ?thesis by (auto simp: deliver_chance_def)
qed


subsection \<open>A blind pool\<close>

lemma sort_key_unique:
  assumes "inj f" and "distinct xs" and "distinct ys" and "set xs = set ys"
  shows "sort_key f xs = sort_key f ys"
proof -
  have "map f (sort_key f xs) = map f (sort_key f ys)"
    using assms by (intro sorted_distinct_set_unique) (auto simp: distinct_map inj_on_def inj_def)
  then show ?thesis using assms(1) by (simp add: inj_map_eq_map)
qed

lemma seeded_order_set: "set (seeded_order h repo key pool) = set pool" "distinct (seeded_order h repo key pool)"
  by (simp_all add: seeded_order_def)

lemma seeded_order_blind:
  "set pool = set pool' \<Longrightarrow> seeded_order h repo key pool = seeded_order h repo key pool'"
  unfolding seeded_order_def by (rule sort_key_unique) (auto simp: inj_def)

lemma register_parts:
  assumes "register_reading h rq budget existing rows = Inr rd"
  obtains chosen author cap spend ordered where
    "attempt_rule_of (rq_attempt_rule rq) (rq_max_reruns rq) (rq_budget_profile rq) = Inr chosen"
    "ordered = seeded_order h (rq_repo rq) (reading_cell_key (rq_cell rq) (rq_org_class rq)) (rq_pool rq)"
    "rd = requested h rq chosen author cap spend ordered" "shape_fault rq = []"
    "pool_seen rd (rq_changes rq) rows = []"
  using assms by (auto simp: register_reading_def Let_def split: if_splits)

lemma requested_fields [simp]:
  "rd_repo (requested h rq rp author cap spend ordered) = rq_repo rq"
  "rd_pool (requested h rq rp author cap spend ordered) = ordered"
  "rd_apparatus (requested h rq rp author cap spend ordered) = rq_apparatus rq"
  "rd_hierarchy (requested h rq rp author cap spend ordered) = map py_strip (rq_hierarchy rq)"
  "rd_descriptive (requested h rq rp author cap spend ordered) = map (\<lambda>(a, n). (py_strip a, n)) (rq_descriptive rq)"
  "rd_rule (requested h rq rp author cap spend ordered) = rq_rule rq"
  by (simp_all add: requested_def Let_def)


subsection \<open>Every registered reading evaluates\<close>

lemma collect_parse: "collect parse_arm xs = Inr ps \<Longrightarrow> list_all is_arm xs"
  by (induction xs arbitrary: ps) (auto simp: is_arm_parse)

lemma descriptive_fault_ok: "descriptive_fault ds = Inr [] \<Longrightarrow> list_all is_arm (map fst ds)"
  by (induction ds rule: descriptive_fault.induct) (auto simp: is_arm_parse split: if_splits)

lemma validate_ok:
  assumes "validate cell hierarchy desc rule pool author forward = Inr []"
  shows "hierarchy \<noteq> []" "distinct (hierarchy @ map fst desc)" "list_all is_arm (hierarchy @ map fst desc)"
    "\<exists>l. rule_looks rule = Inr l"
proof -
  from assms obtain parsed where p: "hierarchy \<noteq> []" "distinct (hierarchy @ map fst desc)" "map_of RULES rule \<noteq> None"
    "collect parse_arm hierarchy = Inr parsed" "parsed_fault cell parsed desc author = Inr []"
    by (auto simp: validate_def Let_def split: if_splits)
  moreover have "descriptive_fault desc = Inr []"
    using p(5) by (auto simp: parsed_fault_def Let_def split: if_splits)
  ultimately show "hierarchy \<noteq> []" "distinct (hierarchy @ map fst desc)" "list_all is_arm (hierarchy @ map fst desc)"
    "\<exists>l. rule_looks rule = Inr l"
    using collect_parse descriptive_fault_ok by (auto simp: rule_looks_def split: option.splits)
qed

lemma empty_not_arm: "\<not> is_arm []"
  by code_simp

lemma register_shaped:
  assumes "register_reading h rq budget existing rows = Inr rd"
  shows "well_shaped rd" "list_all is_arm (reading_arms rd)" "\<exists>l. rule_looks (rd_rule rd) = Inr l"
proof -
  from register_parts [OF assms] obtain chosen author cap spend ordered where
    rd: "rd = requested h rq chosen author cap spend ordered" and "shape_fault rq = []" by metis
  then have "validate (rq_cell rq) (map py_strip (rq_hierarchy rq)) (map (\<lambda>(a, n). (py_strip a, n)) (rq_descriptive rq))
      (rq_rule rq) (rq_pool rq) (rq_author_model rq) False = Inr []"
    by (simp add: shape_fault_def split: sum.splits)
  note v = validate_ok [OF this]
  have a: "reading_arms rd = map py_strip (rq_hierarchy rq) @ map fst (map (\<lambda>(a, n). (py_strip a, n)) (rq_descriptive rq))"
    by (simp add: rd reading_arms_def)
  show arms: "list_all is_arm (reading_arms rd)" unfolding a by (rule v(3))
  have "distinct (reading_arms rd)" unfolding a by (rule v(2))
  moreover have "[] \<notin> set (rd_hierarchy rd)"
    using arms empty_not_arm by (auto simp: list_all_iff reading_arms_def)
  moreover have "rd_hierarchy rd \<noteq> []" using v(1) by (simp add: rd)
  ultimately show "well_shaped rd" by (simp add: well_shaped_def)
  show "\<exists>l. rule_looks (rd_rule rd) = Inr l" using v(4) by (simp add: rd)
qed

lemma reading_state_fields [simp]:
  "rd_hierarchy (with_reservations rd rs n) = rd_hierarchy rd" "rd_descriptive (with_reservations rd rs n) = rd_descriptive rd"
  "rd_rule (with_reservations rd rs n) = rd_rule rd" "rd_hierarchy (with_admissions rd runs) = rd_hierarchy rd"
  "rd_descriptive (with_admissions rd runs) = rd_descriptive rd" "rd_rule (with_admissions rd runs) = rd_rule rd"
  by (simp_all add: with_reservations_def with_admissions_def)


subsection \<open>A registration that is accepted\<close>

definition sample_request :: request where
  "sample_request = \<lparr>rq_repo = ''r'', rq_cell = cell_dict (row_cell sample_row), rq_hierarchy = [''S3'', ''S1@m''],
     rq_pool = [''b'', ''a''], rq_apparatus = ''2.3'', rq_taxonomy = [], rq_posture_class = ''p'', rq_checks_arm = ''off'',
     rq_actor = [], rq_rule = RULE_LOOK_V1, rq_descriptive = [(''A0'', 10)], rq_author_model = [], rq_changes = [],
     rq_max_reruns = 2, rq_now = [], rq_pool_rule = [], rq_org_class = [], rq_hypothesis = [],
     rq_smallest_effect = None, rq_campaign_id = [], rq_attempt_rule = [], rq_budget_profile = [],
     rq_lint_digest = [], rq_pool_posture_id = [], rq_pool_qualifications = []\<rparr>"

definition sample_hashes :: hashes where
  "sample_hashes = \<lparr>h_sha = id, h_body = rd_repo, h_pool = concat, h_pins = (\<lambda>_ _ _. [])\<rparr>"

lemma sample_registers:
  "\<exists>rd. register_reading sample_hashes sample_request (cell_error_budget (\<lambda>_. None) None) [] [sample_row] = Inr rd"
proof -
  have shape: "shape_fault sample_request = []" by code_simp
  have arule: "attempt_rule_of (rq_attempt_rule sample_request) (rq_max_reruns sample_request)
      (rq_budget_profile sample_request) = Inr ([], [])" by code_simp
  have "\<not> isl (request_author sample_request)" by code_simp
  then obtain author where author: "request_author sample_request = Inr author"
    by (cases "request_author sample_request") simp_all
  have budget: "cell_error_budget (\<lambda>_. None) None = Inr CELL_ERROR_BUDGET"
    by (simp add: cell_error_budget_def py_strip_def py_lstrip_def)
  obtain s where s: "rule_spend RULE_LOOK_V1 = Inr s" "s \<le> CELL_ERROR_BUDGET"
    using deliver_le_spend [OF rule_v1, of 0 None] by (auto simp: NULL_RATE_def)
  have f: "rq_campaign_id sample_request = []" "rq_rule sample_request = RULE_LOOK_V1" "rq_pool_rule sample_request = []"
    "rq_changes sample_request = []" "rq_pool sample_request = [''b'', ''a'']" by (simp_all add: sample_request_def)
  have pins: "refuse_unpinned sample_request [] ordered = Inr ()" for ordered
    by (simp add: refuse_unpinned_def pins_pool_def ATTEMPT_RULE_RESERVED_def Let_def)
  have seen: "pool_seen (requested sample_hashes sample_request rp a cap sp (seeded_order h' r k [''b'', ''a''])) [] [sample_row] = []"
    for rp a cap sp h' r k
    using seeded_order_set(1) [of h' r k "[''b'', ''a'']"]
    by (simp add: pool_seen_def sample_row_def Let_def)
  show ?thesis
    using s(2)
    by (simp add: register_reading_def shape arule author budget f s(1) pins seen refuse_twin_def registered_twin_def
        refuse_over_budget_def budget_spent_def first_per_id_def BUDGET_SLACK_def Let_def)
qed




end
