(* ===== verification/Routing_Correct.thy ===== *)
theory Routing_Correct
  imports Routing Registration_Correct
begin

section \<open>What a route licenses\<close>

text \<open>
  The route of a cell is the published table of clauses read in its order; it delivers exactly when
  none of them fails; a policy under the published version delivers no more than the published bar
  unless it leaves a size unsplit; and a delivered cell rests on a proved standard.
\<close>

subsection \<open>The published table\<close>

definition clause_table ::
    "cell_numbers \<Rightarrow> oracle_evidence \<Rightarrow> controls_verdict \<Rightarrow> arm_verdict \<Rightarrow> routing_policy \<Rightarrow> (string \<times> bool) list" where
  "clause_table stats ora c v p =
     [(REASON_FALSE_Q1, cs_false_q1 stats > 0),
      (REASON_GRANULARIZE, ck_size (cs_cell stats) \<in> set (rp_granularize_sizes p)),
      (REASON_CONTROLS_FAILED, cv_measured c \<and> \<not> cv_passed c),
      (REASON_POSTURE_UNSEALED, \<not> is_arm_s2 (cs_context_arm stats) \<and> cs_n_unsealed stats > 0),
      (REASON_LINT_DISABLED, cs_n_tasks_lint_disabled stats > 0 \<and> av_state v \<noteq> VERDICT_DELIVER),
      (REASON_READING_UNREGISTERED, av_state v = VERDICT_UNREGISTERED),
      (REASON_DESCRIPTIVE, av_state v = VERDICT_DESCRIPTIVE),
      (REASON_LOOK_PENDING, av_state v = VERDICT_LOOK_PENDING),
      (REASON_ORACLE_UNMEASURED, \<not> oe_measured ora),
      (REASON_ORACLE_THIN, oe_measured ora \<and> oe_share ora < rp_min_oracle_share p),
      (REASON_ORACLE_WEAK, oe_measured ora \<and> \<not> oe_share ora < rp_min_oracle_share p \<and>
        the (oe_strength ora) < rp_min_oracle_strength p),
      (REASON_CONTROLS_ESCAPES, cv_measured c \<and> cv_escapes c > rp_max_controls_escapes p),
      (REASON_INSUFFICIENT, av_state v = VERDICT_INSUFFICIENT),
      (REASON_UNDECIDED, av_state v = VERDICT_UNDECIDED),
      (REASON_CEILING, av_state v = VERDICT_CEILING),
      (REASON_LEANER_STANDARD, av_state v = VERDICT_LEANER),
      (REASON_CONTROLS_UNMEASURED, \<not> cv_measured c),
      (REASON_CONTROLS_THIN, cv_passed c \<and> cv_thin c (rp_min_controls_share p))]"

definition failing_codes ::
    "cell_numbers \<Rightarrow> oracle_evidence \<Rightarrow> controls_verdict \<Rightarrow> arm_verdict \<Rightarrow> routing_policy \<Rightarrow> string list" where
  "failing_codes stats ora c v p = map fst (filter snd (clause_table stats ora c v p))"

lemma fail_code [simp]: "map sf_code (fail code rt ob th act n) = [code]"
  by (simp add: fail_def)

lemma verdict_states_distinct:
  "distinct [VERDICT_UNREGISTERED, VERDICT_DESCRIPTIVE, VERDICT_LOOK_PENDING, VERDICT_DELIVER, VERDICT_INSUFFICIENT,
     VERDICT_UNDECIDED, VERDICT_CEILING, VERDICT_LEANER]"
  by (simp add: state_defs)

lemma clause_codes: "map sf_code (all_clauses stats ora c v p) = failing_codes stats ora c v p"
proof -
  define T where "T = clause_table stats ora c v p"
  have n: "VERDICT_UNREGISTERED \<noteq> VERDICT_DESCRIPTIVE" "VERDICT_UNREGISTERED \<noteq> VERDICT_LOOK_PENDING"
    "VERDICT_DESCRIPTIVE \<noteq> VERDICT_LOOK_PENDING" "VERDICT_INSUFFICIENT \<noteq> VERDICT_UNDECIDED"
    "VERDICT_CEILING \<noteq> VERDICT_LEANER"
    using verdict_states_distinct by auto
  have 1: "map sf_code (instrument_clauses stats c v p) = map fst (filter snd (take 5 T))"
    by (simp add: instrument_clauses_def T_def clause_table_def)
  have 2: "map sf_code (reading_clause name v) = map fst (filter snd (take 3 (drop 5 T)))" for name
    using n by (simp add: reading_clause_def T_def clause_table_def)
  have 3: "map sf_code (oracle_clause ora p) = map fst (filter snd (take 3 (drop 8 T)))"
    by (cases "oe_strength ora") (simp_all add: oracle_clause_def T_def clause_table_def oe_measured_def Let_def)
  have 4: "map sf_code (escapes_clause c p) = map fst (filter snd (take 1 (drop 11 T)))"
    by (simp add: escapes_clause_def T_def clause_table_def)
  have 5: "map sf_code (decided_clauses name v) = map fst (filter snd (take 4 (drop 12 T)))" for name
    using n by (simp add: decided_clauses_def T_def clause_table_def)
  have 6: "map sf_code (controls_clauses c p) = map fst (filter snd (drop 16 T))"
    by (simp add: controls_clauses_def T_def clause_table_def cv_thin_def)
  have "T = take 5 T @ take 3 (drop 5 T) @ take 3 (drop 8 T) @ take 1 (drop 11 T) @ take 4 (drop 12 T) @ drop 16 T"
    by (simp add: T_def clause_table_def)
  then have "map fst (filter snd T) = map fst (filter snd (take 5 T)) @ map fst (filter snd (take 3 (drop 5 T))) @
      map fst (filter snd (take 3 (drop 8 T))) @ map fst (filter snd (take 1 (drop 11 T))) @
      map fst (filter snd (take 4 (drop 12 T))) @ map fst (filter snd (drop 16 T))"
    by (metis filter_append map_append)
  then show ?thesis
    unfolding all_clauses_def failing_codes_def map_append 1 2 3 4 5 6 T_def [symmetric] by simp
qed

lemma table_codes: "map fst (clause_table stats ora c v p) = butlast REASON_CODES_V2"
  by (simp add: clause_table_def REASON_CODES_V2_def)

definition sends_on :: "shortfall list \<Rightarrow> bool" where
  "sends_on ss \<longleftrightarrow> list_all (\<lambda>s. sf_route s \<in> {ROUTE_CALIBRATE, ROUTE_GRANULARIZE, ROUTE_HUMAN, ROUTE_DO_NOT_SHIP}) ss"

lemma sends_on_simps [simp]:
  "sends_on []" "sends_on (xs @ ys) \<longleftrightarrow> sends_on xs \<and> sends_on ys"
  "sends_on (fail code ROUTE_CALIBRATE ob th act n)" "sends_on (fail code ROUTE_GRANULARIZE ob th act n)"
  "sends_on (fail code ROUTE_HUMAN ob th act n)" "sends_on (fail code ROUTE_DO_NOT_SHIP ob th act n)"
  by (simp_all add: sends_on_def fail_def)

lemma clauses_send_on: "sends_on (all_clauses stats ora c v p)"
proof -
  have "sends_on (instrument_clauses stats c v p)" by (simp add: instrument_clauses_def)
  moreover have "sends_on (reading_clause name v)" "sends_on (decided_clauses name v)" for name
    by (simp_all add: reading_clause_def decided_clauses_def)
  moreover have "sends_on (oracle_clause ora p)" by (simp add: oracle_clause_def Let_def split: option.split)
  moreover have "sends_on (escapes_clause c p)" "sends_on (controls_clauses c p)"
    by (simp_all add: escapes_clause_def controls_clauses_def)
  ultimately show ?thesis by (simp add: all_clauses_def)
qed

lemma fail_route: "s \<in> set (all_clauses stats ora c v p) \<Longrightarrow> sf_route s \<noteq> ROUTE_DELIVER"
  using clauses_send_on [of stats ora c v p]
  by (auto simp: sends_on_def list_all_iff ROUTE_DELIVER_def ROUTE_CALIBRATE_def
      ROUTE_GRANULARIZE_def ROUTE_HUMAN_def ROUTE_DO_NOT_SHIP_def)

text \<open>The route always exists: the codes of the table are the published ones.\<close>

lemma shortfalls_valid: "collect Shortfall (all_clauses stats ora c v p) = Inr (all_clauses stats ora c v p)"
proof -
  have "sf_code s \<in> set REASON_CODES_V2" if "s \<in> set (all_clauses stats ora c v p)" for s
  proof -
    have "sf_code s \<in> set (map sf_code (all_clauses stats ora c v p))" using that by simp
    then have "sf_code s \<in> set (map fst (clause_table stats ora c v p))"
      unfolding clause_codes failing_codes_def by auto
    then show ?thesis unfolding table_codes by (rule in_set_butlastD)
  qed
  then have "collect Shortfall (all_clauses stats ora c v p) = Inr (map id (all_clauses stats ora c v p))"
    by (intro collect_all) (simp add: Shortfall_def guarded_def)
  then show ?thesis by simp
qed

lemma route_cases:
  assumes "verdict_read stats reading = v" and "controls_read stats controls = c" and "oracle_read v ora_opt = ora"
  shows "\<exists>d. route stats ora_opt controls reading p = Inr d \<and> map sf_code (dc_shortfalls d) = failing_codes stats ora c v p \<and>
    dc_reason_code d = hd (failing_codes stats ora c v p @ [REASON_DELIVER]) \<and>
    (dc_route d = ROUTE_DELIVER \<longleftrightarrow> failing_codes stats ora c v p = []) \<and> dc_shortfalls d = all_clauses stats ora c v p \<and>
    dc_context_arm d = cs_context_arm stats \<and> dc_policy_version d = rp_version p"
proof (cases "all_clauses stats ora c v p")
  case Nil
  then have "failing_codes stats ora c v p = []" using clause_codes [of stats ora c v p] by simp
  then show ?thesis
    using shortfalls_valid [of stats ora c v p] assms Nil by (simp add: route_def decision_def Let_def)
next
  case (Cons s ss)
  then have f: "failing_codes stats ora c v p = sf_code s # map sf_code ss"
    using clause_codes [of stats ora c v p] by simp
  have "sf_route s \<noteq> ROUTE_DELIVER" using fail_route [of s stats ora c v p] Cons by simp
  then show ?thesis
    using shortfalls_valid [of stats ora c v p] assms Cons f by (simp add: route_def decision_def Let_def)
qed

subsection \<open>The properties\<close>


lemma failing_none:
  assumes "av_state v \<in> {VERDICT_UNREGISTERED, VERDICT_DESCRIPTIVE, VERDICT_LOOK_PENDING, VERDICT_DELIVER,
    VERDICT_INSUFFICIENT, VERDICT_UNDECIDED, VERDICT_CEILING, VERDICT_LEANER}"
  shows "failing_codes stats ora c v p = [] \<longleftrightarrow> av_state v = VERDICT_DELIVER \<and> cs_false_q1 stats = 0 \<and>
    ck_size (cs_cell stats) \<notin> set (rp_granularize_sizes p) \<and>
    (is_arm_s2 (cs_context_arm stats) \<or> cs_n_unsealed stats = 0) \<and>
    oe_measured ora \<and> rp_min_oracle_share p \<le> oe_share ora \<and> rp_min_oracle_strength p \<le> the (oe_strength ora) \<and>
    cv_measured c \<and> cv_passed c \<and> cv_escapes c \<le> rp_max_controls_escapes p \<and> rp_min_controls_share p \<le> cv_share c"
proof -
  have all: "failing_codes stats ora c v p = [] \<longleftrightarrow> list_all (\<lambda>e. \<not> snd e) (clause_table stats ora c v p)"
    by (simp add: failing_codes_def filter_empty_conv list_all_iff)
  show ?thesis
  proof (cases "av_state v = VERDICT_DELIVER")
    case True
    have n: "VERDICT_DELIVER \<noteq> VERDICT_UNREGISTERED" "VERDICT_DELIVER \<noteq> VERDICT_DESCRIPTIVE"
      "VERDICT_DELIVER \<noteq> VERDICT_LOOK_PENDING" "VERDICT_DELIVER \<noteq> VERDICT_INSUFFICIENT"
      "VERDICT_DELIVER \<noteq> VERDICT_UNDECIDED" "VERDICT_DELIVER \<noteq> VERDICT_CEILING" "VERDICT_DELIVER \<noteq> VERDICT_LEANER"
      using verdict_states_distinct by auto
    show ?thesis unfolding all clause_table_def by (auto simp: True n cv_thin_def not_less)
  next
    case False
    then have "\<not> list_all (\<lambda>e. \<not> snd e) (clause_table stats ora c v p)"
      using assms by (auto simp: clause_table_def)
    then show ?thesis using all False by simp
  qed
qed

definition router_states :: "string list" where
  "router_states = [VERDICT_UNREGISTERED, VERDICT_DESCRIPTIVE, VERDICT_LOOK_PENDING, VERDICT_DELIVER,
     VERDICT_INSUFFICIENT, VERDICT_UNDECIDED, VERDICT_CEILING, VERDICT_LEANER]"

text \<open>
  A route delivers when every condition of the published bar holds, and not otherwise: the arm's
  verdict is \<open>deliver\<close>, the cell has no false clean, its size is not one to split, an isolated arm has no
  unsealed row, the oracle is measured and neither thin nor weak, and the controls are measured, passed,
  broad enough and let no more through than the policy allows.
\<close>

theorem route_delivers_iff:
  assumes "av_state (verdict_read stats reading) \<in> set router_states"
    and "route stats ora_opt controls reading p = Inr d"
  shows "dc_route d = ROUTE_DELIVER \<longleftrightarrow>
    (let v = verdict_read stats reading; c = controls_read stats controls; ora = oracle_read v ora_opt
     in av_state v = VERDICT_DELIVER \<and> cs_false_q1 stats = 0 \<and>
       ck_size (cs_cell stats) \<notin> set (rp_granularize_sizes p) \<and>
       (is_arm_s2 (cs_context_arm stats) \<or> cs_n_unsealed stats = 0) \<and>
       oe_measured ora \<and> rp_min_oracle_share p \<le> oe_share ora \<and> rp_min_oracle_strength p \<le> the (oe_strength ora) \<and>
       cv_measured c \<and> cv_passed c \<and> cv_escapes c \<le> rp_max_controls_escapes p \<and> rp_min_controls_share p \<le> cv_share c)"
  using route_cases [of stats reading _ controls _ ora_opt _ p, OF refl refl refl] assms(2)
    failing_none [OF assms(1) [unfolded router_states_def list.set]]
  by (simp add: Let_def)

lemma deliver_needs:
  assumes "av_state (verdict_read stats reading) \<in> set router_states"
    and "route stats ora_opt controls reading p = Inr d" and "dc_route d = ROUTE_DELIVER"
  shows "failing_codes stats (oracle_read (verdict_read stats reading) ora_opt) (controls_read stats controls)
    (verdict_read stats reading) p = []"
  using route_cases [of stats reading _ controls _ ora_opt _ p, OF refl refl refl] assms by auto

lemma relaxed_none:
  "relaxed_clauses p = Inr [] \<Longrightarrow> rp_min_oracle_strength PUBLISHED \<le> rp_min_oracle_strength p \<and>
    rp_min_oracle_share PUBLISHED \<le> rp_min_oracle_share p \<and> rp_min_controls_share PUBLISHED \<le> rp_min_controls_share p \<and>
    rp_max_controls_escapes p \<le> rp_max_controls_escapes PUBLISHED \<and> rp_cell_error_budget p \<le> rp_cell_error_budget PUBLISHED"
  unfolding relaxed_clauses_def bind_result_Inr sum.inject map_is_Nil_conv filter_empty_conv ball_simps list.set
  by (elim exE conjE) (simp add: not_less)

lemma published_tight:
  assumes "RoutingPolicy p = Inr q" and "rp_version p = POLICY_VERSION"
  shows "q = p \<and> rp_min_oracle_strength PUBLISHED \<le> rp_min_oracle_strength p \<and>
    rp_min_oracle_share PUBLISHED \<le> rp_min_oracle_share p \<and> rp_min_controls_share PUBLISHED \<le> rp_min_controls_share p \<and>
    rp_max_controls_escapes p \<le> rp_max_controls_escapes PUBLISHED"
proof -
  have n: "POLICY_VERSION \<noteq> POLICY_VERSION_V1" by (simp add: POLICY_VERSION_def POLICY_VERSION_V1_def)
  obtain relaxed where r: "relaxed_clauses p = Inr relaxed"
    "first_raise [(''min_oracle_share'' \<in> set relaxed \<or> ''rule'' \<in> set relaxed, ValueError ''relaxed''),
      (rp_version p = POLICY_VERSION \<and> relaxed \<noteq> [], ValueError ''version'')] = None" and q: "q = p"
    using assms(1) n unfolding RoutingPolicy_def assms(2) by (simp only: if_False bind_result_Inr guarded_Inr) blast
  then have "relaxed = []" using assms(2) by (simp only: first_raise_Cons) (simp split: if_splits)
  then show ?thesis using relaxed_none r(1) q by blast
qed

text \<open>
  The published version is a floor. A policy the constructor accepts under the published version,
  and that splits at least the sizes the published one splits, delivers no cell the published policy
  does not deliver: its shares, strengths and escapes can only be tighter.
\<close>

theorem published_policy_no_looser:
  assumes "RoutingPolicy p = Inr q" and "rp_version p = POLICY_VERSION"
    and "set (rp_granularize_sizes PUBLISHED) \<subseteq> set (rp_granularize_sizes p)"
    and "av_state (verdict_read stats reading) \<in> set router_states"
    and "route stats ora_opt controls reading q = Inr d" and "dc_route d = ROUTE_DELIVER"
  shows "\<exists>d'. route stats ora_opt controls reading PUBLISHED = Inr d' \<and> dc_route d' = ROUTE_DELIVER"
proof -
  let ?v = "verdict_read stats reading" and ?c = "controls_read stats controls"
  let ?o = "oracle_read ?v ora_opt"
  note iff = failing_none [OF assms(4) [unfolded router_states_def list.set]]
  from published_tight [OF assms(1,2)] have q: "q = p"
    and tight: "rp_min_oracle_strength PUBLISHED \<le> rp_min_oracle_strength p"
    "rp_min_oracle_share PUBLISHED \<le> rp_min_oracle_share p" "rp_min_controls_share PUBLISHED \<le> rp_min_controls_share p"
    "rp_max_controls_escapes p \<le> rp_max_controls_escapes PUBLISHED" by auto
  have "failing_codes stats ?o ?c ?v p = []" using deliver_needs [OF assms(4-6)] by (simp add: q)
  then have "failing_codes stats ?o ?c ?v PUBLISHED = []" unfolding iff using tight assms(3) by auto
  then show ?thesis using route_cases [of stats reading _ controls _ ora_opt _ PUBLISHED, OF refl refl refl] by metis
qed

subsection \<open>Samples\<close>

definition sample_interval :: interval where "sample_interval = \<lparr>low = 0, high = 1\<rparr>"

definition sample_numbers :: "string \<Rightarrow> cell_numbers" where
  "sample_numbers sz = \<lparr>cs_cell = \<lparr>ck_process_step = ''replay'', ck_capability_class = ''fix'', ck_size = sz,
     ck_language = ''python'', ck_builder = ''b'', ck_model = ''m'', ck_provider = ''p''\<rparr>,
     cs_n = 40, cs_clean = 40, cs_disqualified = 0, cs_errors = 0, cs_false_q1 = 0, cs_point = 1,
     cs_ci = sample_interval, cs_cost_usd_mean = 1, cs_latency_s_mean = 1, cs_oracle_strength_mean = Some 1,
     cs_apparatus_versions = [''2.3''], cs_posture_ids = [], cs_posture_classes = [],
     cs_split = \<lparr>fs_n = 40, fs_clean = 40, fs_builder_red = 0, fs_budget = 0, fs_protocol = 0, fs_harness = 0,
       fs_disqualified = 0, fs_rows = 40, fs_cost_known = 40, fs_cost_unknown = 0, fs_lint = 0, fs_lint_evaluated = 40,
       fs_api = 0, fs_outage = 0, fs_authoring = 0, fs_outage_auth = 0\<rparr>,
     cs_n_tasks = 40, cs_model_n = 40, cs_model_point = 1, cs_model_ci = sample_interval, cs_checks_arm = ''off'',
     cs_n_cost_known = 40, cs_apparatus_version = ''2.3'', cs_context_arm = ''S1@m'', cs_taxonomy = [],
     cs_n_tasks_eligible = 40, cs_task_clean = 40, cs_task_ci = sample_interval, cs_n_tasks_gold_unchecked = 0,
     cs_n_tasks_lint_disabled = 0, cs_n_tasks_sealed = 40, cs_n_unsealed = 0\<rparr>"

definition sample_verdict :: arm_verdict where "sample_verdict = ArmVerdict ''S1@m'' VERDICT_DELIVER"

definition sample_oracle :: oracle_evidence where
  "sample_oracle = \<lparr>oe_strength = Some (9 / 10), oe_scored_tasks = 30, oe_n_tasks = 40, oe_mutation_version = ''mutation.v2'',
     oe_apparatus_version = ''2.3''\<rparr>"

definition sample_controls :: controls_verdict where
  "sample_controls = \<lparr>cv_passed = True, cv_constructible = 8, cv_total = 10, cv_escapes = 0, cv_run_id = ''c'',
     cv_created = [], cv_complete = True, cv_measured = True, cv_apparatus_version = ''2.3''\<rparr>"

lemma sample_reads:
  "verdict_read (sample_numbers sz) (Some sample_verdict) = sample_verdict" "oracle_read v (Some e) = e"
  "controls_read (sample_numbers sz) (Some c) = controls_at c ''2.3''"
  by (simp_all add: verdict_read_def oracle_read_def controls_read_def sample_numbers_def)

lemma stamp_is_v1: "\<not> is_v2_apparatus ''2.3''" by code_simp

lemma sample_at:
  "controls_at sample_controls ''2.3'' = sample_controls"
  "controls_at (sample_controls\<lparr>cv_complete := False, cv_escapes := 1\<rparr>) ''2.3'' =
     sample_controls\<lparr>cv_complete := False, cv_escapes := 1\<rparr>"
  using stamp_is_v1 by (simp_all add: controls_at_def sample_controls_def)

lemma sample_state: "av_state sample_verdict = VERDICT_DELIVER" "av_state sample_verdict \<in> set router_states"
  by (simp_all add: sample_verdict_def router_states_def)

lemmas sample_failing = failing_none [of sample_verdict, OF sample_state(2) [unfolded router_states_def list.set]]

lemma sample_delivers:
  assumes "sz \<notin> set (rp_granularize_sizes p)" and "rp_min_oracle_share p = 5 / 10"
    and "rp_min_oracle_strength p = 80 / 100" and "rp_min_controls_share p = 5 / 10" and "cv_escapes c \<le> rp_max_controls_escapes p"
    and "c \<in> {sample_controls, sample_controls\<lparr>cv_complete := False, cv_escapes := 1\<rparr>}"
  shows "\<exists>d. route (sample_numbers sz) (Some sample_oracle) (Some c) (Some sample_verdict) p = Inr d \<and> dc_route d = ROUTE_DELIVER"
proof -
  have "controls_at c ''2.3'' = c" using assms(6) sample_at by auto
  moreover have "failing_codes (sample_numbers sz) sample_oracle c sample_verdict p = []"
    unfolding sample_failing using assms
    by (auto simp: sample_state sample_numbers_def sample_oracle_def sample_controls_def oe_measured_def oe_share_def cv_share_def share_of_def)
  ultimately show ?thesis
    using route_cases [of "sample_numbers sz" "Some sample_verdict" _ "Some c" _ "Some sample_oracle" _ p, OF refl refl refl]
    by (auto simp: sample_reads)
qed

lemma published_rule: "\<exists>s. rule_spend (rp_rule PUBLISHED) = Inr s" "rule_looks (rp_rule PUBLISHED) = Inr [(20, 0), (30, 1), (40, 2)]"
  by (simp_all add: PUBLISHED_def rule_spend_def p_deliver_def rule_v1)

lemma published_sizes:
  "relaxed_clauses (PUBLISHED\<lparr>rp_granularize_sizes := sizes\<rparr>) = Inr []"
  "RoutingPolicy (PUBLISHED\<lparr>rp_granularize_sizes := sizes\<rparr>) = Inr (PUBLISHED\<lparr>rp_granularize_sizes := sizes\<rparr>)"
proof -
  obtain s where s: "rule_spend (rp_rule PUBLISHED) = Inr s" using published_rule(1) by blast
  show r: "relaxed_clauses (PUBLISHED\<lparr>rp_granularize_sizes := sizes\<rparr>) = Inr []"
    using s by (simp add: relaxed_clauses_def)
  have "rp_version PUBLISHED \<noteq> POLICY_VERSION_V1"
    by (simp add: PUBLISHED_def POLICY_VERSION_def POLICY_VERSION_V1_def)
  then show "RoutingPolicy (PUBLISHED\<lparr>rp_granularize_sizes := sizes\<rparr>) = Inr (PUBLISHED\<lparr>rp_granularize_sizes := sizes\<rparr>)"
    using r published_rule(2) by (simp add: RoutingPolicy_def guarded_def)
qed

subsection \<open>The samples deliver\<close>

lemma route_delivers_iff_witness:
  "\<exists>d. route (sample_numbers ''M'') (Some sample_oracle) (Some sample_controls) (Some sample_verdict) PUBLISHED = Inr d \<and>
     dc_route d = ROUTE_DELIVER \<and> cs_false_q1 (sample_numbers ''M'') = 0 \<and> cv_passed sample_controls"
proof -
  obtain d where d: "route (sample_numbers ''M'') (Some sample_oracle) (Some sample_controls) (Some sample_verdict) PUBLISHED = Inr d"
    "dc_route d = ROUTE_DELIVER"
    using sample_delivers [of "''M''" PUBLISHED sample_controls] by (auto simp: PUBLISHED_def sample_controls_def)
  have "av_state (verdict_read (sample_numbers ''M'') (Some sample_verdict)) \<in> set router_states"
    unfolding sample_reads by (rule sample_state(2))
  from route_delivers_iff [OF this d(1)] d show ?thesis by (simp add: Let_def sample_reads sample_at)
qed

lemma published_policy_no_looser_witness:
  "\<exists>d'. route (sample_numbers ''M'') (Some sample_oracle) (Some sample_controls) (Some sample_verdict) PUBLISHED = Inr d' \<and>
     dc_route d' = ROUTE_DELIVER"
proof -
  let ?p = "PUBLISHED\<lparr>rp_granularize_sizes := [''XL'', ''L'']\<rparr>"
  obtain d where d: "route (sample_numbers ''M'') (Some sample_oracle) (Some sample_controls) (Some sample_verdict) ?p = Inr d"
    "dc_route d = ROUTE_DELIVER"
    using sample_delivers [of "''M''" ?p sample_controls] by (auto simp: PUBLISHED_def sample_controls_def)
  show ?thesis
  proof (rule published_policy_no_looser [OF published_sizes(2) _ _ _ d])
    show "av_state (verdict_read (sample_numbers ''M'') (Some sample_verdict)) \<in> set router_states"
      unfolding sample_reads by (rule sample_state(2))
  qed (simp_all add: PUBLISHED_def)
qed

text \<open>
  One clause of the published bar can be dropped under its name. The constructor does not compare
  the sizes to split: a policy that splits none is accepted under the published version, reports no
  relaxed clause, and delivers a cell of size XL that the published policy sends to be split.
\<close>

theorem granularize_relaxation_unnoticed:
  defines "lax \<equiv> PUBLISHED\<lparr>rp_granularize_sizes := []\<rparr>"
  shows "RoutingPolicy lax = Inr lax \<and> rp_version lax = POLICY_VERSION \<and> relaxed_clauses lax = Inr [] \<and>
    (\<exists>d d'. route (sample_numbers ''XL'') (Some sample_oracle) (Some sample_controls) (Some sample_verdict) lax = Inr d \<and>
      dc_route d = ROUTE_DELIVER \<and> dc_policy_version d = POLICY_VERSION \<and>
      route (sample_numbers ''XL'') (Some sample_oracle) (Some sample_controls) (Some sample_verdict) PUBLISHED = Inr d' \<and>
      dc_route d' \<noteq> ROUTE_DELIVER)"
proof -
  obtain d where d: "route (sample_numbers ''XL'') (Some sample_oracle) (Some sample_controls) (Some sample_verdict) lax = Inr d"
    "dc_route d = ROUTE_DELIVER" "dc_policy_version d = rp_version lax"
    using sample_delivers [of "''XL''" lax sample_controls]
      route_cases [of "sample_numbers ''XL''" "Some sample_verdict" _ "Some sample_controls" _ "Some sample_oracle" _ lax,
        OF refl refl refl]
    by (auto simp: PUBLISHED_def lax_def sample_controls_def)
  have "failing_codes (sample_numbers ''XL'') sample_oracle sample_controls sample_verdict PUBLISHED \<noteq> []"
    unfolding sample_failing by (simp add: sample_numbers_def PUBLISHED_def)
  then obtain d' where d': "route (sample_numbers ''XL'') (Some sample_oracle) (Some sample_controls) (Some sample_verdict) PUBLISHED = Inr d'"
    "dc_route d' \<noteq> ROUTE_DELIVER"
    using route_cases [of "sample_numbers ''XL''" "Some sample_verdict" _ "Some sample_controls" _ "Some sample_oracle" _ PUBLISHED,
        OF refl refl refl] by (auto simp: sample_reads sample_at)
  have "rp_version lax = POLICY_VERSION" by (simp add: lax_def PUBLISHED_def)
  then show ?thesis using published_sizes [of "[]", folded lax_def] d d' by metis
qed

text \<open>
  An incomplete controls run can pass. Under a policy with its own version that allows one escape,
  a controls run that was cancelled part-way and let one control escape reads as \<open>unmeasured\<close> to the
  state a person is shown, yet the route delivers on it: the rule that sets an incomplete run aside
  asks for no escape at all.
\<close>

theorem incomplete_controls_deliver:
  defines "cut_off \<equiv> sample_controls\<lparr>cv_complete := False, cv_escapes := 1\<rparr>"
    and "own \<equiv> PUBLISHED\<lparr>rp_version := ''own.v1'', rp_max_controls_escapes := 1\<rparr>"
  shows "RoutingPolicy own = Inr own \<and> ControlsVerdict cut_off = Inr cut_off \<and>
    cv_state cut_off (rp_min_controls_share own) (rp_max_controls_escapes own) = CONTROLS_UNMEASURED \<and>
    (\<exists>d. route (sample_numbers ''M'') (Some sample_oracle) (Some cut_off) (Some sample_verdict) own = Inr d \<and>
      dc_route d = ROUTE_DELIVER)"
proof -
  obtain s where s: "rule_spend (rp_rule PUBLISHED) = Inr s" using published_rule(1) by blast
  have r: "relaxed_clauses own = Inr [''max_controls_escapes'']"
    using s by (simp add: relaxed_clauses_def own_def PUBLISHED_def)
  have "RoutingPolicy own = Inr own"
    using r published_rule(2) by (simp add: RoutingPolicy_def guarded_def own_def POLICY_VERSION_def POLICY_VERSION_V1_def)
  moreover have "ControlsVerdict cut_off = Inr cut_off" by (simp add: ControlsVerdict_def guarded_def cut_off_def sample_controls_def)
  moreover have "cv_state cut_off (rp_min_controls_share own) (rp_max_controls_escapes own) = CONTROLS_UNMEASURED"
    by (simp add: cv_state_def cut_off_def sample_controls_def own_def)
  ultimately show ?thesis
    using sample_delivers [of "''M''" own cut_off] by (auto simp: own_def PUBLISHED_def cut_off_def sample_controls_def)
qed

subsection \<open>From the rows to the route\<close>

lemma verdict_router_state:
  assumes "well_shaped rd" and "evaluate fromiso rd rs = Inr oc" and "verdict_for (Some oc) name = Inr v"
  shows "av_state v \<in> set router_states"
proof (cases "map_of (oc_arms oc) name")
  case None
  then show ?thesis using verdict_for_absent [OF assms(3)] by (simp add: router_states_def)
next
  case (Some a)
  have sub: "look_words \<subseteq> set router_states"
    by (simp add: look_words_def router_states_def state_defs)
  have "STATE_UNDECIDED \<in> set router_states" "VERDICT_DESCRIPTIVE \<in> set router_states"
    "VERDICT_CEILING \<in> set router_states" "VERDICT_LEANER \<in> set router_states" "VERDICT_DELIVER \<in> set router_states"
    by (simp_all add: router_states_def VERDICT_UNDECIDED_def)
  moreover have "lk_state (ar_look a) \<in> set router_states" using arm_look_word [OF assms(1,2) Some] sub by blast
  moreover have "arm_state (the (map_of (oc_arms oc) (ar_stopped_by a))) \<in> set router_states" if ne: "ar_stopped_by a \<noteq> []"
    using stopped_by_read [OF assms(1,2) Some ne] sub by auto
  ultimately show ?thesis unfolding verdict_for_state [OF assms(3) Some] by (simp split: if_splits)
qed

lemma delivered_cell_proved:
  assumes "well_shaped rd" and "evaluate fromiso rd rs = Inr oc"
    and "verdict_for (Some oc) (cs_context_arm stats) = Inr v"
    and "route stats ora_opt controls (Some v) p = Inr d" and "dc_route d = ROUTE_DELIVER"
  shows "oc_state oc = OUTCOME_STANDARD \<and> oc_standard oc = cs_context_arm stats \<and>
    arm_is certifies (cs_context_arm stats) \<and> cs_context_arm stats \<in> set (oc_chain oc) \<and>
    list_all (arm_delivers fromiso rd rs) (oc_chain oc) \<and> rd_pool_drift rd = [] \<and> cs_false_q1 stats = 0"
proof -
  have v: "verdict_read stats (Some v) = v" by (simp add: verdict_read_def)
  have rs: "av_state v \<in> set router_states" by (rule verdict_router_state [OF assms(1-3)])
  have "failing_codes stats (oracle_read v ora_opt) (controls_read stats controls) v p = []"
    using deliver_needs [of stats "Some v", unfolded v, OF rs assms(4,5)] .
  then have del: "av_state v = VERDICT_DELIVER" "cs_false_q1 stats = 0"
    unfolding failing_none [OF rs [unfolded router_states_def list.set]] by auto
  from deliver_verdict [OF assms(1-3)] del(1)
  have st: "oc_state oc = OUTCOME_STANDARD" "oc_standard oc = cs_context_arm stats" by auto
  note state = evaluate_state [OF assms(1,2)]
  have c: "rd_pool_drift rd = []" "certifying_chain oc \<noteq> []" "cs_context_arm stats = last (certifying_chain oc)"
    using state(1,2) st by auto
  have "cs_context_arm stats \<in> set (certifying_chain oc)" unfolding c(3) using c(2) by (rule last_in_set)
  moreover have "oc_chain oc = takeWhile (arm_delivers fromiso rd rs) (rd_hierarchy rd)"
    by (rule evaluate_parts [OF assms(1,2)])
  then have "list_all (arm_delivers fromiso rd rs) (oc_chain oc)" by (simp add: list_all_iff) (meson set_takeWhileD)
  ultimately show ?thesis using st c(1) del(2) by simp
qed



end
