(* ===== verification/Backlog.thy ===== *)
theory Backlog
  imports Prelude "HOL-Library.AList"
begin

section \<open>The frozen backlog (\<open>crb/factory/backlog.py\<close>)\<close>

text \<open>
  Items, the checks a backlog is constructed under, freezing, evolutions, supersession chains and the
  dependency order the loop works in. The SHA-256 digests of the items and of one more evolution are the
  parameter \<open>digests\<close>. The walk along a supersession chain is a loop that may not end: \<open>None\<close> is
  \<open>never returns\<close>. Every error is a \<open>BacklogError\<close>, a \<open>ValueError\<close> with its word.
\<close>

subsection \<open>Items\<close>

definition SIZE_TIER_NAMES :: "string list" where
  "SIZE_TIER_NAMES = [''XS'', ''S'', ''M'', ''L'', ''XL'']"

definition SIZE_UNSIZED :: string where "SIZE_UNSIZED = ''unsized''"
definition ITEM_SIZES :: "string list" where "ITEM_SIZES = SIZE_TIER_NAMES @ [SIZE_UNSIZED]"

definition KIND_CODE :: string where "KIND_CODE = ''code''"
definition KIND_INFRA :: string where "KIND_INFRA = ''infra''"
definition KIND_OPERATOR :: string where "KIND_OPERATOR = ''operator''"
definition KINDS :: "string list" where "KINDS = [KIND_CODE, KIND_INFRA, KIND_OPERATOR]"
definition LEVELS :: "string list" where "LEVELS = [''L1'', ''L2'', ''L3'']"
definition ID_MAX_LEN :: nat where "ID_MAX_LEN = 64"

record backlog_item =
  bi_id :: string
  bi_title :: string
  bi_kind :: string
  bi_description :: string
  bi_acceptance_criteria :: "string list"
  bi_capability_class :: string
  bi_size_estimate :: string
  bi_structural_facts :: "string list"
  bi_depends_on :: "string list"
  bi_level :: string
  bi_supersedes :: string
  bi_registered :: string
  bi_labels :: dict

definition id_head :: "char \<Rightarrow> bool" where
  "id_head c = (let n = of_char c :: nat in (65 \<le> n \<and> n \<le> 90) \<or> (97 \<le> n \<and> n \<le> 122) \<or> (48 \<le> n \<and> n \<le> 57))"

definition item_id_ok :: "string \<Rightarrow> bool" where
  "item_id_ok s \<longleftrightarrow> s \<noteq> [] \<and> length s \<le> ID_MAX_LEN \<and> id_head (hd s) \<and>
     list_all (\<lambda>c. id_head c \<or> c \<in> set ''._-'') (tl s)"

definition BacklogItem :: "backlog_item \<Rightarrow> backlog_item result" where
  "BacklogItem i = guarded
     [(\<not> item_id_ok (bi_id i), ValueError ''id''),
      (py_strip (bi_title i) = [], ValueError ''title''),
      (bi_kind i \<notin> set KINDS, ValueError ''kind''),
      (bi_level i \<notin> set LEVELS, ValueError ''level''),
      (bi_size_estimate i \<notin> set ITEM_SIZES, ValueError ''size_estimate''),
      (bi_supersedes i = bi_id i, ValueError ''supersedes itself''),
      (bi_id i \<in> set (bi_depends_on i), ValueError ''depends on itself'')] i"

subsection \<open>The record\<close>

record digests =
  dg_items :: "backlog_item list \<Rightarrow> string"
  dg_evolution :: "string \<Rightarrow> backlog_item \<Rightarrow> string"

record backlog =
  bl_items :: "backlog_item list"
  bl_repo :: string
  bl_frozen_at :: string
  bl_backlog_hash :: string
  bl_evolutions :: "backlog_item list"
  bl_evolutions_hash :: string

fun check_ids :: "string list \<Rightarrow> backlog_item list \<Rightarrow> string list result" where
  "check_ids seen [] = Inr seen"
| "check_ids seen (i # is) =
     (if bi_id i \<in> set seen then Inl (ValueError ''duplicate'') else check_ids (bi_id i # seen) is)"

definition unknown_ref :: "string list \<Rightarrow> backlog_item \<Rightarrow> bool" where
  "unknown_ref seen i \<longleftrightarrow> \<not> set (bi_depends_on i) \<subseteq> set seen \<or> (bi_supersedes i \<noteq> [] \<and> bi_supersedes i \<notin> set seen)"

definition check_items :: "string list \<Rightarrow> backlog_item list \<Rightarrow> unit result" where
  "check_items known is = bind_result (check_ids known is) (\<lambda>seen.
     if list_ex (unknown_ref seen) is then Inl (ValueError ''unknown'') else Inr ())"

definition is_frozen :: "backlog \<Rightarrow> bool" where
  "is_frozen b \<longleftrightarrow> bl_backlog_hash b \<noteq> []"

definition Backlog :: "backlog \<Rightarrow> backlog result" where
  "Backlog b = bind_result (check_items [] (bl_items b)) (\<lambda>_.
     bind_result (check_items (map bi_id (bl_items b)) (bl_evolutions b)) (\<lambda>_.
     if bl_evolutions b \<noteq> [] \<and> \<not> is_frozen b then Inl (ValueError ''evolutions'') else Inr b))"

subsection \<open>Freeze, verify, evolve\<close>

definition freeze :: "digests \<Rightarrow> string \<Rightarrow> backlog \<Rightarrow> backlog result" where
  "freeze D at b =
     (if is_frozen b then (if bl_backlog_hash b \<noteq> dg_items D (bl_items b) then Inl (ValueError ''frozen'') else Inr b)
      else if bl_items b = [] then Inl (ValueError ''empty'')
      else Backlog (b\<lparr>bl_frozen_at := at, bl_backlog_hash := dg_items D (bl_items b)\<rparr>))"

definition evolutions_chain :: "digests \<Rightarrow> backlog \<Rightarrow> string" where
  "evolutions_chain D b = (if bl_evolutions b = [] then []
     else foldl (dg_evolution D) (bl_backlog_hash b) (bl_evolutions b))"

definition verify_backlog :: "digests \<Rightarrow> string \<Rightarrow> backlog \<Rightarrow> bool" where
  "verify_backlog D expected_hash b \<longleftrightarrow> is_frozen b \<and> dg_items D (bl_items b) = bl_backlog_hash b \<and>
     (expected_hash = [] \<or> expected_hash = bl_backlog_hash b) \<and> evolutions_chain D b = bl_evolutions_hash b"

definition all_items :: "backlog \<Rightarrow> backlog_item list" where
  "all_items b = bl_items b @ bl_evolutions b"

definition get_item :: "backlog \<Rightarrow> string \<Rightarrow> backlog_item option" where
  "get_item b item_id = find (\<lambda>i. bi_id i = item_id) (all_items b)"

definition evolve :: "digests \<Rightarrow> backlog_item \<Rightarrow> backlog \<Rightarrow> backlog result" where
  "evolve D item b =
     (if \<not> is_frozen b then Inl (ValueError ''freeze first'')
      else if get_item b (bi_id item) \<noteq> None then Inl (ValueError ''item_exists'')
      else if bi_supersedes item \<noteq> [] \<and> get_item b (bi_supersedes item) = None then Inl (ValueError ''cannot supersede'')
      else if bi_supersedes item \<noteq> [] \<and> list_ex (\<lambda>e. bi_supersedes e = bi_supersedes item) (bl_evolutions b)
        then Inl (ValueError ''already_superseded'')
      else bind_result (Backlog (b\<lparr>bl_evolutions := bl_evolutions b @ [item]\<rparr>)) (\<lambda>new.
        Inr (new\<lparr>bl_evolutions_hash := evolutions_chain D new\<rparr>)))"

subsection \<open>Queries\<close>

definition superseded_ids :: "backlog \<Rightarrow> string list" where
  "superseded_ids b = filter (\<lambda>s. s \<noteq> []) (map bi_supersedes (bl_evolutions b))"

definition active_items :: "backlog \<Rightarrow> backlog_item list" where
  "active_items b = filter (\<lambda>i. bi_id i \<notin> set (superseded_ids b)) (all_items b)"

function lineage_from :: "backlog \<Rightarrow> backlog_item option \<Rightarrow> string list \<Rightarrow> backlog_item list" where
  "lineage_from b cur seen = (case cur of None \<Rightarrow> []
     | Some i \<Rightarrow>
         if bi_id i \<in> set seen \<or> get_item b (bi_id i) = None then []
         else i # lineage_from b (if bi_supersedes i \<noteq> [] then get_item b (bi_supersedes i) else None) (bi_id i # seen))"
  by auto
termination
proof (relation "measure (\<lambda>(b, cur, seen). length (filter (\<lambda>i. bi_id i \<notin> set seen) (all_items b)))")
  fix b :: backlog and cur :: "backlog_item option" and seen and i :: backlog_item
  assume c: "cur = Some i" and n: "\<not> (bi_id i \<in> set seen \<or> get_item b (bi_id i) = None)"
  have le: "length (filter (\<lambda>j. bi_id j \<notin> set (bi_id i # seen)) js) \<le> length (filter (\<lambda>j. bi_id j \<notin> set seen) js)" for js
    by (induction js) auto
  have lt: "length (filter (\<lambda>j. bi_id j \<notin> set (bi_id i # seen)) js) < length (filter (\<lambda>j. bi_id j \<notin> set seen) js)"
    if "find (\<lambda>j. bi_id j = bi_id i) js \<noteq> None" for js
    using that n by (induction js) (use le in \<open>auto simp: less_Suc_eq_le split: if_splits\<close>)
  show "((b, if bi_supersedes i \<noteq> [] then get_item b (bi_supersedes i) else None, bi_id i # seen), b, cur, seen)
      \<in> measure (\<lambda>(b, cur, seen). length (filter (\<lambda>i. bi_id i \<notin> set seen) (all_items b)))"
    using lt [of "all_items b"] n by (simp only: in_measure split_conv) (simp add: get_item_def)
qed simp

declare lineage_from.simps [simp del]

text \<open>The chain that ends in an item, oldest first.\<close>

definition lineage :: "backlog \<Rightarrow> string \<Rightarrow> backlog_item list" where
  "lineage b item_id = rev (lineage_from b (get_item b item_id) [])"

subsection \<open>The end of a supersession chain\<close>

definition superseded_by :: "backlog \<Rightarrow> dict" where
  "superseded_by b = foldl (\<lambda>d e. if bi_supersedes e \<noteq> [] then AList.update (bi_supersedes e) (bi_id e) d else d) []
     (bl_evolutions b)"

partial_function (option) chase :: "dict \<Rightarrow> string \<Rightarrow> string option" where
  "chase latest v = (case map_of latest v of None \<Rightarrow> Some v | Some w \<Rightarrow> chase latest w)"

fun chase_all :: "string list \<Rightarrow> dict \<Rightarrow> dict option" where
  "chase_all [] latest = Some latest"
| "chase_all (k # ks) latest = (case chase latest k of None \<Rightarrow> None
     | Some v \<Rightarrow> chase_all ks (AList.update k v latest))"

definition latest_ids :: "backlog \<Rightarrow> dict option" where
  "latest_ids b = chase_all (map fst (superseded_by b)) (superseded_by b)"

definition resolve_id :: "backlog \<Rightarrow> string \<Rightarrow> string option" where
  "resolve_id b item_id = map_option (\<lambda>latest. dget latest item_id item_id) (latest_ids b)"

subsection \<open>The dependency order\<close>

text \<open>The depth-first visit: \<open>visiting\<close> is the path from the root, \<open>seen\<close> and \<open>done\<close> what was finished.\<close>

function visit_all :: "(string \<times> backlog_item) list \<Rightarrow> (backlog_item \<Rightarrow> string list) \<Rightarrow> string list \<Rightarrow> string list \<Rightarrow>
    string list \<times> backlog_item list \<Rightarrow> (string list \<times> backlog_item list) result" where
  "visit_all by_id deps visiting [] st = Inr st"
| "visit_all by_id deps visiting (d # ds) st =
     (case map_of by_id d of None \<Rightarrow> Inl (OtherError ''KeyError'')
      | Some i \<Rightarrow>
          if d \<in> set (fst st) then visit_all by_id deps visiting ds st
          else if d \<in> set visiting then Inl (ValueError ''cycle'')
          else (case visit_all by_id deps (d # visiting) (deps i) st of Inl e \<Rightarrow> Inl e
            | Inr (seen, done) \<Rightarrow> visit_all by_id deps visiting ds (d # seen, done @ [i])))"
  by pat_completeness auto
termination
proof (relation "measures [\<lambda>(by_id, deps, visiting, ds, st). card (fst ` set by_id - set visiting),
    \<lambda>(by_id, deps, visiting, ds, st). length ds]", goal_cases)
  case (3 by_id deps visiting d ds st i)
  then have "d \<in> fst ` set by_id - set visiting" by (force dest: map_of_SomeD)
  then have "card (fst ` set by_id - set (d # visiting)) < card (fst ` set by_id - set visiting)"
    by (intro psubset_card_mono) auto
  then show ?case by simp
qed simp_all

definition active_deps :: "(string \<times> backlog_item) list \<Rightarrow> dict \<Rightarrow> backlog_item \<Rightarrow> string list" where
  "active_deps by_id latest i = filter (\<lambda>d. map_of by_id d \<noteq> None) (map (\<lambda>d. dget latest d d) (bi_depends_on i))"

text \<open>A dictionary built by a comprehension keeps the last value of a key.\<close>

definition active_by_id :: "backlog \<Rightarrow> (string \<times> backlog_item) list" where
  "active_by_id b = rev (map (\<lambda>i. (bi_id i, i)) (active_items b))"

text \<open>\<open>None\<close>: the walk of a supersession chain does not end.\<close>

definition ordered :: "backlog \<Rightarrow> backlog_item list result option" where
  "ordered b = map_option (\<lambda>latest.
     bind_result (visit_all (active_by_id b) (active_deps (active_by_id b) latest) [] (map bi_id (active_items b)) ([], []))
       (\<lambda>(seen, done). Inr done)) (latest_ids b)"

end
