(* ===== verification/Readiness.thy ===== *)
theory Readiness
  imports Backlog Hash_Chain "HOL-Library.List_Lexorder" "HOL-Library.Char_ord"
begin

section \<open>The readiness gate (\<open>crb/factory/readiness.py\<close>)\<close>

text \<open>
  The catalogue of facts each capability class needs, the fact lines of an item, the ledger of gap sign-offs
  and the assessment of one item. The SHA-256 of a record's canonical body is the parameter \<open>H\<close>, the
  redaction of an answer the parameter \<open>redact\<close>, both of the functions that use them; the sentence of an
  assessment (\<open>reason\<close>) is not modelled. A dictionary is an association list in insertion order.
\<close>

subsection \<open>Slots\<close>

definition SLOT_STRUCTURAL :: string where "SLOT_STRUCTURAL = ''structural''"
definition SLOT_VALUE :: string where "SLOT_VALUE = ''value''"
definition SLOT_KINDS :: "string list" where "SLOT_KINDS = [SLOT_STRUCTURAL, SLOT_VALUE]"
definition ROUTE_BUILD :: string where "ROUTE_BUILD = ''build''"
definition ROUTE_TEST_FIRST :: string where "ROUTE_TEST_FIRST = ''test_first_authoring''"
definition ROUTE_HUMAN :: string where "ROUTE_HUMAN = ''human''"

definition WEAK_ORACLE_CLASSES :: "string list" where
  "WEAK_ORACLE_CLASSES = [''docs.update'', ''ci.workflow.edit'', ''infra.helm.edit'', ''infra.terraform.edit'']"

record slot =
  sl_name :: string
  sl_question :: string
  sl_kind :: string

definition s_slot :: "string \<Rightarrow> string \<Rightarrow> slot" where
  "s_slot name question = \<lparr>sl_name = name, sl_question = question, sl_kind = SLOT_STRUCTURAL\<rparr>"

definition v_slot :: "string \<Rightarrow> string \<Rightarrow> slot" where
  "v_slot name question = \<lparr>sl_name = name, sl_question = question, sl_kind = SLOT_VALUE\<rparr>"

definition CATALOGUE :: "(string \<times> slot list) list" where
  "CATALOGUE =
    [(''backend.route.add'',
      [s_slot ''method_path'' ''What HTTP method and path does the new route answer?'',
       s_slot ''request_shape'' ''What is the request shape (params / body fields and types)?'',
       s_slot ''response_shape'' ''What is the response shape (status code, body fields and types)?'',
       s_slot ''error_contract'' ''What error responses must it return, and for which inputs?'',
       v_slot ''example_payload'' ''A representative request and its exact expected response.'']),
     (''backend.route.edit'',
      [s_slot ''route_identity'' ''Which existing route (method + path) changes?'',
       s_slot ''behaviour_change'' ''What changes in its request/response shape or semantics?'',
       s_slot ''error_contract'' ''Which error responses change, and which must stay the same?'',
       v_slot ''example_payload'' ''A representative request and its exact expected response.'']),
     (''backend.model.edit'',
      [s_slot ''field_name_type'' ''Which model, and what is the field's name and type?'',
       s_slot ''nullability'' ''Is the field nullable? Is it unique / indexed?'',
       s_slot ''migration_needed'' ''Is a schema migration needed (yes/no), and is it reversible?'',
       v_slot ''default_value'' ''The exact default value when the field is unset.'']),
     (''backend.migration.add'',
      [s_slot ''schema_change'' ''Which table(s) / column(s) does the migration add or alter?'',
       s_slot ''reversible'' ''What does the downgrade do (or why is it irreversible)?'',
       v_slot ''data_backfill'' ''The exact backfill value or rule for existing rows, if any.'']),
     (''frontend.component.add'',
      [s_slot ''props'' ''What props does the component take (names, types, required)?'',
       s_slot ''states'' ''What visual states does it have (loading / empty / error / populated)?'',
       v_slot ''rendered_text'' ''The exact text or labels rendered in each state.'']),
     (''frontend.component.edit'',
      [s_slot ''component_identity'' ''Which component changes?'',
       s_slot ''prop_or_state_change'' ''Which props or states are added, removed or changed?'',
       v_slot ''rendered_text'' ''The exact text or labels rendered after the change.'']),
     (''frontend.route.add'',
      [s_slot ''route_path'' ''What client-side path is added, and which component renders it?'',
       s_slot ''guard'' ''Is the route guarded (auth / role)? What happens when denied?'']),
     (''bug.fix'',
      [s_slot ''reproduction'' ''How is the bug reproduced (the input / sequence that fails)?'',
       s_slot ''expected_behaviour'' ''What is the correct behaviour instead?'',
       v_slot ''exact_value'' ''The exact output value / message at the reproduction input.'']),
     (''test.add'',
      [s_slot ''subject_under_test'' ''Which module / function / behaviour is under test?'',
       s_slot ''behaviour_asserted'' ''What behaviour must the new test assert?'']),
     (''test.fix'',
      [s_slot ''failing_test'' ''Which test is wrong (id), and why is it wrong?'',
       s_slot ''corrected_assertion'' ''What must it assert instead?'']),
     (''docs.update'',
      [s_slot ''doc_target'' ''Which document / section changes, and what must it say?'']),
     (''ci.workflow.edit'',
      [s_slot ''workflow'' ''Which workflow file and job change?'',
       s_slot ''trigger_and_steps'' ''What triggers it, and which steps are added or changed?'']),
     (''infra.helm.edit'',
      [s_slot ''chart_and_values'' ''Which chart / template / values key changes?'',
       s_slot ''provisioning'' ''What operator provisioning (cluster, credentials) must exist first?'']),
     (''infra.terraform.edit'',
      [s_slot ''resource'' ''Which resource(s) and attribute(s) change?'',
       s_slot ''provisioning'' ''What operator provisioning (account, billing, domain) must exist first?''])]"

definition slots_for :: "string \<Rightarrow> slot list" where
  "slots_for capability_class = (case map_of CATALOGUE capability_class of None \<Rightarrow> [] | Some ss \<Rightarrow> ss)"

subsection \<open>Fact lines\<close>

text \<open>
  \<open>^\s*([A-Za-z][A-Za-z0-9_]*)\s*[:=]\s*(\S.*)$\<close>: every repetition is followed by a character it cannot
  match, so reading greedily is matching; \<open>.\<close> stops at a newline, and \<open>$\<close> also holds before a final one.
\<close>

definition ascii_letter :: "char \<Rightarrow> bool" where
  "ascii_letter c = (let n = of_char c :: nat in (65 \<le> n \<and> n \<le> 90) \<or> (97 \<le> n \<and> n \<le> 122))"

definition fact_name_char :: "char \<Rightarrow> bool" where
  "fact_name_char c \<longleftrightarrow> ascii_letter c \<or> is_digit c \<or> c = CHR ''_''"

definition newline :: char where "newline = CHR 0x0A"

definition one_line :: "string \<Rightarrow> string option" where
  "one_line s = (let t = (if s \<noteq> [] \<and> last s = newline then butlast s else s) in if newline \<in> set t then None else Some t)"

definition match_fact :: "string \<Rightarrow> (string \<times> string) option" where
  "match_fact line =
     (let s = py_lstrip line; name = takeWhile fact_name_char s; r = py_lstrip (dropWhile fact_name_char s)
      in if name = [] \<or> \<not> ascii_letter (hd name) then None
         else case r of [] \<Rightarrow> None
           | c # r' \<Rightarrow> if c \<noteq> CHR '':'' \<and> c \<noteq> CHR ''='' then None
               else if py_lstrip r' = [] then None
               else map_option (\<lambda>v. (name, v)) (one_line (py_lstrip r')))"

definition set_default :: "string \<Rightarrow> string \<Rightarrow> dict \<Rightarrow> dict" where
  "set_default k v d = (if dhas d k then d else d @ [(k, v)])"

definition parse_facts :: "string list \<Rightarrow> dict" where
  "parse_facts facts = foldl (\<lambda>out line. case match_fact line of None \<Rightarrow> out
     | Some (k, v) \<Rightarrow> if py_strip v \<noteq> [] then set_default k (py_strip v) out else out) [] facts"

subsection \<open>The gap sign-off ledger\<close>

record gap_signoff =
  gs_item_id :: string
  gs_slot :: string
  gs_verifier :: string
  gs_answer :: string
  gs_kind :: string
  gs_revoked :: bool
  gs_signed_at :: string
  gs_schema :: string
  gs_record_id :: string
  gs_prev_hash :: string
  gs_row_hash :: string

definition GapSignoff :: "(string \<Rightarrow> string) \<Rightarrow> gap_signoff \<Rightarrow> gap_signoff result" where
  "GapSignoff redact g = guarded
     [(gs_item_id g = [] \<or> gs_slot g = [], ValueError ''item_id and slot''),
      (gs_verifier g = [], ValueError ''verifier''),
      (gs_kind g \<notin> set SLOT_KINDS, ValueError ''kind''),
      (\<not> gs_revoked g \<and> py_strip (gs_answer g) = [], ValueError ''answer'')] (g\<lparr>gs_answer := redact (gs_answer g)\<rparr>)"

definition gs_key :: "gap_signoff \<Rightarrow> string \<times> string" where
  "gs_key g = (gs_item_id g, gs_slot g)"

text \<open>Every field but \<open>row_hash\<close>.\<close>

definition gs_body :: "gap_signoff \<Rightarrow> gap_signoff" where
  "gs_body g = g\<lparr>gs_row_hash := []\<rparr>"

definition gs_compute_hash :: "(gap_signoff \<Rightarrow> string) \<Rightarrow> gap_signoff \<Rightarrow> string" where
  "gs_compute_hash H g = H (gs_body g)"

definition gs_chained :: "(gap_signoff \<Rightarrow> string) \<Rightarrow> gap_signoff \<Rightarrow> string \<Rightarrow> gap_signoff" where
  "gs_chained H g prev = (let r = g\<lparr>gs_prev_hash := prev\<rparr> in r\<lparr>gs_row_hash := gs_compute_hash H r\<rparr>)"

definition gs_verify_hash :: "(gap_signoff \<Rightarrow> string) \<Rightarrow> gap_signoff \<Rightarrow> bool" where
  "gs_verify_hash H g \<longleftrightarrow> gs_row_hash g \<noteq> [] \<and> gs_row_hash g = gs_compute_hash H g"

definition gs_last_hash :: "string \<Rightarrow> gap_signoff list \<Rightarrow> string result" where
  "gs_last_hash genesis rs = (if rs = [] then Inr genesis
     else if gs_row_hash (last rs) = [] then Inl (LedgerIntegrityError ''no row_hash'') else Inr (gs_row_hash (last rs)))"

definition gs_append :: "(gap_signoff \<Rightarrow> string) \<Rightarrow> string \<Rightarrow> gap_signoff \<Rightarrow> gap_signoff list \<Rightarrow> gap_signoff list result" where
  "gs_append H genesis g rs = bind_result (gs_last_hash genesis rs) (\<lambda>prev. Inr (rs @ [gs_chained H g prev]))"

fun gs_walk :: "(gap_signoff \<Rightarrow> string) \<Rightarrow> string \<Rightarrow> nat \<Rightarrow> gap_signoff list \<Rightarrow> nat result" where
  "gs_walk H prev n [] = Inr n"
| "gs_walk H prev n (r # rs) =
     (if gs_prev_hash r \<noteq> prev then Inl (LedgerIntegrityError ''prev_hash mismatch'')
      else if \<not> gs_verify_hash H r then Inl (LedgerIntegrityError ''row_hash mismatch'')
      else gs_walk H (gs_row_hash r) (Suc n) rs)"

definition gs_verify :: "(gap_signoff \<Rightarrow> string) \<Rightarrow> string \<Rightarrow> gap_signoff list \<Rightarrow> nat result" where
  "gs_verify H genesis rs = gs_walk H genesis 0 rs"

definition signoffs_for_item :: "string \<Rightarrow> gap_signoff list \<Rightarrow> gap_signoff list" where
  "signoffs_for_item item_id rs = filter (\<lambda>r. gs_item_id r = item_id) rs"

definition active_signoffs :: "gap_signoff list \<Rightarrow> ((string \<times> string) \<times> gap_signoff) list" where
  "active_signoffs rs = filter (\<lambda>(k, r). \<not> gs_revoked r) (foldl (\<lambda>d r. AList.update (gs_key r) r d) [] rs)"

definition gap_sign :: "(gap_signoff \<Rightarrow> string) \<Rightarrow> (string \<Rightarrow> string) \<Rightarrow> string \<Rightarrow> backlog_item \<Rightarrow> string \<Rightarrow> string \<Rightarrow> string \<Rightarrow>
    string \<Rightarrow> string \<Rightarrow> string \<Rightarrow> gap_signoff list \<Rightarrow> gap_signoff list result" where
  "gap_sign H redact genesis i name answer verifier signed_at schema record_id rs =
     bind_result (GapSignoff redact \<lparr>gs_item_id = bi_id i, gs_slot = name, gs_verifier = verifier, gs_answer = answer,
         gs_kind = dget (map (\<lambda>s. (sl_name s, sl_kind s)) (rev (slots_for (bi_capability_class i)))) name SLOT_STRUCTURAL,
         gs_revoked = False, gs_signed_at = signed_at, gs_schema = schema, gs_record_id = record_id,
         gs_prev_hash = [], gs_row_hash = []\<rparr>) (\<lambda>g. gs_append H genesis g rs)"

subsection \<open>The assessment\<close>

record gap =
  gp_slot :: string
  gp_question :: string
  gp_kind :: string

definition blocking :: "gap \<Rightarrow> bool" where
  "blocking g \<longleftrightarrow> gp_kind g = SLOT_STRUCTURAL"

record readiness =
  re_item_id :: string
  re_capability_class :: string
  re_ready :: bool
  re_gaps :: "gap list"
  re_route_hint :: string
  re_facts :: dict
  re_signed_slots :: "string list"
  re_catalogued :: bool

definition blocking_gaps :: "readiness \<Rightarrow> gap list" where
  "blocking_gaps r = filter blocking (re_gaps r)"

definition value_gaps :: "readiness \<Rightarrow> gap list" where
  "value_gaps r = filter (\<lambda>g. \<not> blocking g) (re_gaps r)"

definition fact_lines :: "readiness \<Rightarrow> string list" where
  "fact_lines r = map (\<lambda>(k, v). k @ '': '' @ v) (re_facts r)"

definition item_signoffs :: "backlog_item \<Rightarrow> gap_signoff list \<Rightarrow> (string \<times> gap_signoff) list" where
  "item_signoffs i signoffs =
     map (\<lambda>(k, r). (snd k, r)) (filter (\<lambda>(k, r). fst k = bi_id i) (active_signoffs signoffs))"

text \<open>A value slot is never signed into readiness.\<close>

definition merged_facts :: "backlog_item \<Rightarrow> gap_signoff list \<Rightarrow> dict" where
  "merged_facts i signoffs =
     (let kinds = map (\<lambda>s. (sl_name s, sl_kind s)) (rev (slots_for (bi_capability_class i)))
      in foldl (\<lambda>facts (name, r). if dget kinds name (gs_kind r) \<noteq> SLOT_STRUCTURAL then facts
           else set_default name (gs_answer r) facts)
         (parse_facts (bi_structural_facts i)) (item_signoffs i signoffs))"

definition route_of :: "backlog_item \<Rightarrow> gap list \<Rightarrow> string" where
  "route_of i gaps =
     (if bi_kind i = KIND_OPERATOR then ROUTE_HUMAN
      else if slots_for (bi_capability_class i) = [] then ROUTE_HUMAN
      else if bi_capability_class i \<in> set WEAK_ORACLE_CLASSES then ROUTE_HUMAN
      else if filter blocking gaps \<noteq> [] then ROUTE_HUMAN
      else if list_ex (\<lambda>g. \<not> blocking g) gaps then ROUTE_TEST_FIRST
      else ROUTE_BUILD)"

definition assess :: "backlog_item \<Rightarrow> gap_signoff list \<Rightarrow> readiness" where
  "assess i signoffs =
     (let slots = slots_for (bi_capability_class i);
          facts = merged_facts i signoffs;
          gaps = map (\<lambda>s. \<lparr>gp_slot = sl_name s, gp_question = sl_question s, gp_kind = sl_kind s\<rparr>)
            (filter (\<lambda>s. \<not> dhas facts (sl_name s)) slots)
      in \<lparr>re_item_id = bi_id i, re_capability_class = bi_capability_class i, re_ready = (filter blocking gaps = []),
           re_gaps = gaps, re_route_hint = route_of i gaps, re_facts = facts,
           re_signed_slots = sort (map fst (item_signoffs i signoffs)), re_catalogued = (slots \<noteq> [])\<rparr>)"

definition require_ready :: "backlog_item \<Rightarrow> gap_signoff list \<Rightarrow> readiness result" where
  "require_ready i signoffs = (let r = assess i signoffs in if re_ready r then Inr r else Inl (ValueError ''NotReady''))"

definition open_questions :: "readiness \<Rightarrow> (string \<times> string \<times> string) list" where
  "open_questions r = map (\<lambda>g. (re_item_id r @ ''::'' @ re_capability_class r @ ''::'' @ gp_slot g,
     if blocking g then ''blocking'' else ''routed'', gp_question g)) (re_gaps r)"

end
