(* ===== verification/Backlog_Correct.thy ===== *)
theory Backlog_Correct
  imports Backlog
begin

section \<open>Correctness of the backlog: dependency order and supersession\<close>

text \<open>
  \<open>ordered\<close> succeeds exactly when the dependencies of the active items have no cycle, and then lists each
  active item once, after everything it needs. Every backlog that \<open>freeze\<close> and \<open>evolve\<close> build
  resolves an id to an active one, in finitely many steps; a stored record may make the same walk endless.
\<close>

subsection \<open>Dictionaries built from lists\<close>

lemma map_of_rev_distinct: "distinct (map fst xs) \<Longrightarrow> map_of (rev xs) = map_of xs"
  by (metis distinct_map map_of_inject_set distinct_rev rev_map set_rev)

lemma check_ids_Inr: "check_ids seen is = Inr s \<longleftrightarrow>
    distinct (map bi_id is) \<and> set (map bi_id is) \<inter> set seen = {} \<and> s = rev (map bi_id is) @ seen"
  by (induction seen "is" rule: check_ids.induct) auto

lemma check_ids_raises: "check_ids seen is = Inl e \<Longrightarrow>
    \<not> (distinct (map bi_id is) \<and> set (map bi_id is) \<inter> set seen = {})"
  using check_ids_Inr [of seen "is"] by auto

lemma check_items_Inr: "check_items known is = Inr () \<longleftrightarrow>
    distinct (map bi_id is) \<and> set (map bi_id is) \<inter> set known = {} \<and>
    (\<forall>i\<in>set is. \<not> unknown_ref (rev (map bi_id is) @ known) i)"
proof (cases "check_ids known is")
  case (Inl e)
  then show ?thesis using check_ids_raises [OF Inl] by (auto simp: check_items_def bind_result_def)
next
  case (Inr s)
  then have "distinct (map bi_id is) \<and> set (map bi_id is) \<inter> set known = {} \<and> s = rev (map bi_id is) @ known"
    by (simp only: check_ids_Inr)
  then show ?thesis using Inr by (simp add: check_items_def bind_result_def list_ex_iff)
qed

lemma Backlog_Inr: "Backlog b = Inr b' \<longleftrightarrow> b' = b \<and>
    check_items [] (bl_items b) = Inr () \<and> check_items (map bi_id (bl_items b)) (bl_evolutions b) = Inr () \<and>
    (bl_evolutions b = [] \<or> is_frozen b)"
  by (auto simp: Backlog_def bind_result_def split: sum.splits)

lemma Backlog_distinct: "Backlog b = Inr b' \<Longrightarrow> distinct (map bi_id (all_items b))"
  by (auto simp: Backlog_Inr check_items_Inr all_items_def)

lemma get_item_Some: "get_item b k = Some i \<Longrightarrow> i \<in> set (all_items b) \<and> bi_id i = k"
  by (auto simp: get_item_def find_Some_iff)

lemma get_item_None: "get_item b k = None \<longleftrightarrow> k \<notin> bi_id ` set (all_items b)"
  by (auto simp: get_item_def find_None_iff)

subsection \<open>The depth-first visit\<close>

text \<open>One edge of the visit, and a list in which every element follows what it needs.\<close>

definition edges :: "(string \<times> backlog_item) list \<Rightarrow> (backlog_item \<Rightarrow> string list) \<Rightarrow> (string \<times> string) set" where
  "edges by_id deps = {(a, d). \<exists>i. map_of by_id a = Some i \<and> d \<in> set (deps i)}"

definition deps_first :: "(backlog_item \<Rightarrow> string list) \<Rightarrow> backlog_item list \<Rightarrow> bool" where
  "deps_first deps xs \<longleftrightarrow> (\<forall>ys x zs. xs = ys @ x # zs \<longrightarrow> set (deps x) \<subseteq> bi_id ` set ys)"

lemma deps_first_Nil [simp]: "deps_first deps []"
  by (simp add: deps_first_def)

lemma deps_first_snoc [simp]:
  "deps_first deps (xs @ [x]) \<longleftrightarrow> deps_first deps xs \<and> set (deps x) \<subseteq> bi_id ` set xs"
proof
  assume l: "deps_first deps (xs @ [x])"
  have "set (deps y) \<subseteq> bi_id ` set ys" if "xs = ys @ y # zs" for ys y zs
    using l that unfolding deps_first_def by (metis append.assoc append_Cons)
  then show "deps_first deps xs \<and> set (deps x) \<subseteq> bi_id ` set xs"
    using l unfolding deps_first_def by blast
next
  assume "deps_first deps xs \<and> set (deps x) \<subseteq> bi_id ` set xs"
  then show "deps_first deps (xs @ [x])"
    unfolding deps_first_def by (auto simp: append_eq_append_conv2 Cons_eq_append_conv append_eq_Cons_conv)
qed

text \<open>What the visit keeps: the ids seen are those of the finished items, each listed once under its own id.\<close>

definition visit_inv :: "(string \<times> backlog_item) list \<Rightarrow> (backlog_item \<Rightarrow> string list) \<Rightarrow> string list \<Rightarrow>
    string list \<times> backlog_item list \<Rightarrow> bool" where
  "visit_inv by_id deps visiting st \<longleftrightarrow> set (fst st) = bi_id ` set (snd st) \<and> distinct (map bi_id (snd st)) \<and>
     (\<forall>i\<in>set (snd st). map_of by_id (bi_id i) = Some i) \<and> deps_first deps (snd st) \<and>
     set (fst st) \<inter> set visiting = {}"

lemma visit_inv_step:
  assumes "visit_inv by_id deps (d # visiting) (seen, done)" "map_of by_id d = Some i" "bi_id i = d"
    "set (deps i) \<subseteq> set seen" "d \<notin> set visiting"
  shows "visit_inv by_id deps visiting (d # seen, done @ [i])"
  using assms by (auto simp: visit_inv_def)

lemma visit_all_keeps:
  assumes "visit_all by_id deps visiting ds st = Inr st'" "visit_inv by_id deps visiting st"
    and key: "\<And>k i. map_of by_id k = Some i \<Longrightarrow> bi_id i = k"
  shows "visit_inv by_id deps visiting st' \<and> set ds \<subseteq> set (fst st') \<and> set (fst st) \<subseteq> set (fst st')"
  using assms
proof (induction by_id deps visiting ds st arbitrary: st' rule: visit_all.induct)
  case (2 by_id deps visiting d ds st)
  then obtain i where i: "map_of by_id d = Some i" by (auto split: option.splits)
  show ?case
  proof (cases "d \<in> set (fst st)")
    case True
    then show ?thesis using 2 i by fastforce
  next
    case False
    with 2(4) i have nv: "d \<notin> set visiting" by (auto split: if_splits)
    from 2(4) i False nv obtain seen dn where r: "visit_all by_id deps (d # visiting) (deps i) st = Inr (seen, dn)"
      and r': "visit_all by_id deps visiting ds (d # seen, dn @ [i]) = Inr st'"
      by (auto split: sum.splits)
    have "visit_inv by_id deps (d # visiting) st" using 2(5) False by (auto simp: visit_inv_def)
    from 2(2) [OF i False nv r this 2(6)] have a: "visit_inv by_id deps (d # visiting) (seen, dn)"
      "set (deps i) \<subseteq> set seen" "set (fst st) \<subseteq> set seen" by auto
    have "visit_inv by_id deps visiting (d # seen, dn @ [i])"
      using visit_inv_step [OF a(1) i _ a(2) nv] 2(6) i by blast
    from 2(3) [OF i False nv r _ r' this 2(6)] a(3) show ?thesis by auto
  qed
qed auto

text \<open>The visit only raises on a cycle: the path to the current item goes on in \<open>visiting\<close>.\<close>

lemma visit_all_raises:
  assumes "visit_all by_id deps visiting ds st = Inl e"
    and "\<forall>d\<in>set ds. map_of by_id d \<noteq> None"
    and "\<forall>v\<in>set visiting. \<forall>d\<in>set ds. (v, d) \<in> (edges by_id deps)\<^sup>+"
    and "\<forall>k i d. map_of by_id k = Some i \<longrightarrow> d \<in> set (deps i) \<longrightarrow> map_of by_id d \<noteq> None"
  shows "e = ValueError ''cycle'' \<and> \<not> acyclic (edges by_id deps)"
  using assms
proof (induction by_id deps visiting ds st rule: visit_all.induct)
  case (2 by_id deps visiting d ds st)
  then obtain i where i: "map_of by_id d = Some i" by auto
  show ?case
  proof (cases "d \<in> set (fst st)")
    case True
    then show ?thesis using 2 i by auto
  next
    case False
    have edge: "(d, d') \<in> (edges by_id deps)\<^sup>+" if "d' \<in> set (deps i)" for d'
      using i that by (auto simp: edges_def)
    have path: "\<forall>v\<in>set (d # visiting). \<forall>d'\<in>set (deps i). (v, d') \<in> (edges by_id deps)\<^sup>+"
      using edge 2(6) by (fastforce intro: trancl_trans)
    show ?thesis
    proof (cases "d \<in> set visiting")
      case True
      then have "(d, d) \<in> (edges by_id deps)\<^sup>+" using 2(6) by auto
      then show ?thesis using 2(4) i False True by (auto simp: acyclic_def)
    next
      case nv: False
      show ?thesis
      proof (cases "visit_all by_id deps (d # visiting) (deps i) st")
        case (Inl e')
        then show ?thesis using 2(2) [OF i False nv] 2(4,7) path i False nv by auto
      next
        case (Inr r)
        then obtain seen dn where r: "visit_all by_id deps (d # visiting) (deps i) st = Inr (seen, dn)"
          by (cases r) auto
        then show ?thesis using 2(3) [OF i False nv r refl] 2(4-7) i False nv by auto
      qed
    qed
  qed
qed simp

lemma takeWhile_shorter: "\<exists>x\<in>set xs. \<not> P x \<Longrightarrow> length (takeWhile P xs) < length xs"
  by (induction xs) auto

text \<open>In a list that follows its dependencies an edge goes strictly backwards.\<close>

lemma deps_first_acyclic:
  assumes "deps_first deps xs" "distinct (map bi_id xs)" "\<And>i. i \<in> set xs \<Longrightarrow> map_of by_id (bi_id i) = Some i"
    and "\<And>k. map_of by_id k \<noteq> None \<Longrightarrow> k \<in> bi_id ` set xs"
  shows "acyclic (edges by_id deps)"
proof -
  define p where "p k = length (takeWhile (\<lambda>i. bi_id i \<noteq> k) xs)" for k
  have step: "p d < p a" if "(a, d) \<in> edges by_id deps" for a d
  proof -
    from that obtain i where i: "map_of by_id a = Some i" "d \<in> set (deps i)" by (auto simp: edges_def)
    then obtain j where j: "j \<in> set xs" "bi_id j = a" using assms(4) [of a] by auto
    then have "j = i" using assms(3) i by auto
    with j obtain ys zs where xs: "xs = ys @ i # zs" by (metis split_list)
    have "a \<notin> bi_id ` set ys" using assms(2) j \<open>j = i\<close> by (auto simp: xs)
    then have pa: "p a = length ys" unfolding p_def xs using j \<open>j = i\<close>
      by (subst takeWhile_append2) (auto simp: image_iff)
    have "d \<in> bi_id ` set ys" using assms(1) i(2) xs unfolding deps_first_def by blast
    then obtain y where "y \<in> set ys" "bi_id y = d" by auto
    then have "p d = length (takeWhile (\<lambda>i. bi_id i \<noteq> d) ys)" and "\<exists>y\<in>set ys. \<not> bi_id y \<noteq> d"
      unfolding p_def xs by (auto simp: takeWhile_append1)
    then show ?thesis using pa takeWhile_shorter [of ys "\<lambda>i. bi_id i \<noteq> d"] by auto
  qed
  have "p d < p a" if "(a, d) \<in> (edges by_id deps)\<^sup>+" for a d
    using that by (induction rule: trancl_induct) (use step in fastforce)+
  then show ?thesis unfolding acyclic_def by blast
qed

subsection \<open>The order the loop works in\<close>

text \<open>The dependencies among the active items, each target resolved to the item that stands for it today.\<close>

definition needs :: "backlog \<Rightarrow> dict \<Rightarrow> (string \<times> string) set" where
  "needs b latest = {(bi_id i, bi_id j) | i j d. i \<in> set (active_items b) \<and> j \<in> set (active_items b) \<and>
     d \<in> set (bi_depends_on i) \<and> dget latest d d = bi_id j}"

lemma active_distinct: "distinct (map bi_id (all_items b)) \<Longrightarrow> distinct (map bi_id (active_items b))"
  by (simp add: active_items_def distinct_map_filter)

lemma active_by_id_Some:
  assumes "distinct (map bi_id (all_items b))"
  shows "map_of (active_by_id b) k = Some i \<longleftrightarrow> i \<in> set (active_items b) \<and> bi_id i = k"
proof -
  have d: "distinct (map fst (map (\<lambda>i. (bi_id i, i)) (active_items b)))"
    using active_distinct [OF assms] by (simp add: comp_def)
  have "map_of (active_by_id b) = map_of (map (\<lambda>i. (bi_id i, i)) (active_items b))"
    unfolding active_by_id_def by (rule map_of_rev_distinct [OF d])
  then show ?thesis using map_of_eq_Some_iff [OF d] by auto
qed

lemma active_by_id_None:
  assumes "distinct (map bi_id (all_items b))"
  shows "map_of (active_by_id b) k = None \<longleftrightarrow> k \<notin> bi_id ` set (active_items b)"
  using active_by_id_Some [OF assms, of k] by (metis (no_types, lifting) image_iff not_None_eq)

lemma edges_needs:
  assumes "distinct (map bi_id (all_items b))"
  shows "edges (active_by_id b) (active_deps (active_by_id b) latest) = needs b latest"
proof (rule set_eqI)
  fix p :: "string \<times> string"
  obtain a d where p: "p = (a, d)" by (cases p)
  have "p \<in> edges (active_by_id b) (active_deps (active_by_id b) latest) \<longleftrightarrow>
      (\<exists>i. (i \<in> set (active_items b) \<and> bi_id i = a) \<and>
        (\<exists>x\<in>set (bi_depends_on i). d = dget latest x x) \<and> d \<in> bi_id ` set (active_items b))"
    unfolding edges_def active_deps_def p mem_Collect_eq split_conv active_by_id_Some [OF assms]
      active_by_id_None [OF assms] set_filter set_map not_not by blast
  also have "\<dots> \<longleftrightarrow> p \<in> needs b latest"
    unfolding needs_def p mem_Collect_eq prod.inject image_iff by (smt (verit, best))
  finally show "p \<in> edges (active_by_id b) (active_deps (active_by_id b) latest) \<longleftrightarrow> p \<in> needs b latest" .
qed

lemma ordered_visit:
  assumes "latest_ids b = Some latest"
  shows "ordered b = Some (case visit_all (active_by_id b) (active_deps (active_by_id b) latest) []
    (map bi_id (active_items b)) ([], []) of Inl e \<Rightarrow> Inl e | Inr r \<Rightarrow> Inr (snd r))"
  using assms by (simp add: ordered_def bind_result_def split_def split: sum.split)

lemma ordered_result:
  assumes d: "distinct (map bi_id (all_items b))" and l: "latest_ids b = Some latest"
    and o: "ordered b = Some (Inr xs)"
  shows "distinct (map bi_id xs) \<and> set xs = set (active_items b) \<and>
    deps_first (active_deps (active_by_id b) latest) xs \<and> acyclic (needs b latest)"
proof -
  let ?B = "active_by_id b" and ?D = "active_deps (active_by_id b) latest"
  obtain seen where v: "visit_all ?B ?D [] (map bi_id (active_items b)) ([], []) = Inr (seen, xs)"
    using o unfolding ordered_visit [OF l] by (cases "visit_all ?B ?D [] (map bi_id (active_items b)) ([], [])") auto
  have k: "map_of ?B k = Some i \<Longrightarrow> bi_id i = k" for k i by (simp add: active_by_id_Some [OF d])
  have "visit_inv ?B ?D [] ([], [])" by (simp add: visit_inv_def)
  from visit_all_keeps [OF v this k] have w: "visit_inv ?B ?D [] (seen, xs)" "set (map bi_id (active_items b)) \<subseteq> set seen"
    by auto
  have seen: "set seen = bi_id ` set xs" using w(1) by (simp add: visit_inv_def)
  have m: "map_of ?B (bi_id i) = Some i" if "i \<in> set xs" for i using w(1) that by (auto simp: visit_inv_def)
  have c: "k \<in> bi_id ` set xs" if "map_of ?B k \<noteq> None" for k
    using w(2) that active_by_id_None [OF d, of k] seen by auto
  have x: "deps_first ?D xs" "distinct (map bi_id xs)" using w(1) by (simp_all add: visit_inv_def)
  have "acyclic (edges ?B ?D)" by (rule deps_first_acyclic [OF x m c])
  moreover have "set xs = set (active_items b)"
  proof
    show "set xs \<subseteq> set (active_items b)" using m by (auto simp: active_by_id_Some [OF d])
    show "set (active_items b) \<subseteq> set xs"
    proof
      fix i assume i: "i \<in> set (active_items b)"
      then have "map_of ?B (bi_id i) = Some i" by (simp add: active_by_id_Some [OF d])
      moreover obtain j where "j \<in> set xs" "bi_id i = bi_id j" using c [of "bi_id i"] calculation by auto
      ultimately show "i \<in> set xs" using m [of j] by auto
    qed
  qed
  ultimately show ?thesis using x by (simp add: edges_needs [OF d])
qed

lemma ordered_raises:
  assumes d: "distinct (map bi_id (all_items b))" and l: "latest_ids b = Some latest"
    and o: "ordered b = Some (Inl e)"
  shows "e = ValueError ''cycle'' \<and> \<not> acyclic (needs b latest)"
proof -
  let ?B = "active_by_id b" and ?D = "active_deps (active_by_id b) latest"
  have "visit_all ?B ?D [] (map bi_id (active_items b)) ([], []) = Inl e"
    using o unfolding ordered_visit [OF l] by (cases "visit_all ?B ?D [] (map bi_id (active_items b)) ([], [])") auto
  from visit_all_raises [OF this] show ?thesis
    by (simp add: active_by_id_None [OF d] edges_needs [OF d]) (auto simp: active_deps_def active_by_id_None [OF d])
qed

subsection \<open>Supersession chains\<close>

text \<open>A dictionary along which a rank grows: a walk in it ends, outside its keys.\<close>

definition ranked :: "(string \<Rightarrow> nat) \<Rightarrow> nat \<Rightarrow> dict \<Rightarrow> bool" where
  "ranked r n d \<longleftrightarrow> (\<forall>k v. map_of d k = Some v \<longrightarrow> r k < r v \<and> r v < n)"

lemma chase_ranked:
  assumes "ranked r n d" "r v < n" and G: "\<forall>k v. map_of d k = Some v \<longrightarrow> (k, v) \<in> G" "trans G"
  shows "\<exists>w. chase d v = Some w \<and> map_of d w = None \<and> r v \<le> r w \<and> r w < n \<and> (w = v \<or> (v, w) \<in> G)"
  using assms(2)
proof (induction "n - r v" arbitrary: v rule: less_induct)
  case less
  show ?case
  proof (cases "map_of d v")
    case None
    then show ?thesis using less(2) by (simp add: chase.simps)
  next
    case (Some u)
    then have u: "r v < r u" "r u < n" "(v, u) \<in> G" using assms(1) G(1) by (auto simp: ranked_def)
    with less(2) have "n - r u < n - r v" by linarith
    from less(1) [OF this u(2)] obtain w where "chase d u = Some w" "map_of d w = None" "r u \<le> r w" "r w < n"
      "w = u \<or> (u, w) \<in> G" by blast
    then show ?thesis using Some u transD [OF G(2) u(3)] by (auto simp: chase.simps [of d v])
  qed
qed

lemma chase_all_ranked:
  assumes "ranked r n d" "set ks \<subseteq> dom (map_of d)" "\<forall>k v. map_of d k = Some v \<longrightarrow> (k, v) \<in> G" and G: "trans G"
  shows "\<exists>d'. chase_all ks d = Some d' \<and> dom (map_of d') = dom (map_of d) \<and> (\<forall>k v. map_of d' k = Some v \<longrightarrow> (k, v) \<in> G) \<and>
    (\<forall>k\<in>set ks. \<forall>w. map_of d' k = Some w \<longrightarrow> map_of d w = None) \<and>
    (\<forall>k w. map_of d k = Some w \<longrightarrow> map_of d w = None \<longrightarrow> map_of d' k = Some w)"
  using assms(1-3)
proof (induction ks arbitrary: d)
  case (Cons k ks)
  then obtain v where v: "map_of d k = Some v" by auto
  then have kv: "r k < r v" "r v < n" using Cons.prems(1) by (auto simp: ranked_def)
  have "r k < n" using kv by linarith
  from chase_ranked [OF Cons.prems(1) this Cons.prems(3) G] obtain w where
    w: "chase d k = Some w" "map_of d w = None" "r k \<le> r w" "r w < n" "w = k \<or> (k, w) \<in> G" by blast
  with v have wk: "w \<noteq> k" by auto
  from chase_ranked [OF Cons.prems(1) kv(2) Cons.prems(3) G] w(1) v have vw: "r v \<le> r w" by (auto simp: chase.simps [of d k])
  let ?d = "AList.update k w d"
  have m: "map_of ?d = (map_of d)(k \<mapsto> w)" by (simp add: update_conv')
  have 1: "ranked r n ?d" using Cons.prems(1) w kv vw by (auto simp: ranked_def m)
  have 2: "set ks \<subseteq> dom (map_of ?d)" using Cons.prems(2) by (auto simp: m)
  have 3: "\<forall>k v. map_of ?d k = Some v \<longrightarrow> (k, v) \<in> G" using Cons.prems(3) w(5) wk by (auto simp: m)
  have dm: "map_of ?d u = None \<longleftrightarrow> map_of d u = None" for u using v by (auto simp: m)
  from Cons.IH [OF 1 2 3] obtain d' where
    d': "chase_all ks ?d = Some d'" "dom (map_of d') = dom (map_of ?d)" "\<forall>k v. map_of d' k = Some v \<longrightarrow> (k, v) \<in> G"
      "\<forall>k\<in>set ks. \<forall>w. map_of d' k = Some w \<longrightarrow> map_of d w = None"
      "\<forall>k u. map_of ?d k = Some u \<longrightarrow> map_of d u = None \<longrightarrow> map_of d' k = Some u"
    unfolding dm by blast
  have dd: "dom (map_of d') = dom (map_of d)" using d'(2) v by (auto simp: m)
  have 4: "map_of d' k = Some w" using d'(5) w(2) by (simp add: m)
  have 5: "\<forall>k'\<in>set (k # ks). \<forall>u. map_of d' k' = Some u \<longrightarrow> map_of d u = None"
    using 4 w(2) d'(4) by simp
  have 6: "\<forall>k' u. map_of d k' = Some u \<longrightarrow> map_of d u = None \<longrightarrow> map_of d' k' = Some u"
  proof (intro allI impI)
    fix k' u assume u: "map_of d k' = Some u" "map_of d u = None"
    show "map_of d' k' = Some u"
    proof (cases "k' = k")
      case True
      then have "chase d k = Some u" using u by (simp add: chase.simps [of d k] chase.simps [of d u])
      then show ?thesis using True w(1) 4 by simp
    next
      case False
      then have "map_of ?d k' = Some u" using u(1) by (simp add: m)
      then show ?thesis using d'(5) u(2) by blast
    qed
  qed
  have "chase_all (k # ks) d = Some d'" using w(1) d'(1) by simp
  then show ?case using dd d'(3) 5 6 by blast
qed simp

subsection \<open>Backlogs that were built\<close>

text \<open>Every backlog the interface yields: registered, frozen, evolved.\<close>

inductive built :: "digests \<Rightarrow> backlog \<Rightarrow> bool" for D where
  registered: "built D b'" if "Backlog b = Inr b'" "bl_evolutions b = []" "bl_backlog_hash b = []" "bl_evolutions_hash b = []"
| frozen: "built D b'" if "built D b" "freeze D at b = Inr b'"
| evolved: "built D b'" if "built D b" "evolve D item b = Inr b'"

definition backwards :: "backlog \<Rightarrow> bool" where
  "backwards b \<longleftrightarrow> (\<forall>ys e zs. bl_evolutions b = ys @ e # zs \<longrightarrow> bi_supersedes e \<noteq> [] \<longrightarrow>
     bi_supersedes e \<in> bi_id ` set (bl_items b @ ys))"

definition stamped :: "digests \<Rightarrow> backlog \<Rightarrow> bool" where
  "stamped D b \<longleftrightarrow> (is_frozen b \<longrightarrow> bl_backlog_hash b = dg_items D (bl_items b)) \<and>
     bl_evolutions_hash b = evolutions_chain D b"

lemma freeze_Inr: "freeze D at b = Inr b' \<longleftrightarrow>
    is_frozen b \<and> bl_backlog_hash b = dg_items D (bl_items b) \<and> b' = b \<or>
    \<not> is_frozen b \<and> bl_items b \<noteq> [] \<and> Backlog (b\<lparr>bl_frozen_at := at, bl_backlog_hash := dg_items D (bl_items b)\<rparr>) = Inr b'"
  by (auto simp: freeze_def)

lemma evolve_Inr: "evolve D item b = Inr b' \<longleftrightarrow>
    is_frozen b \<and> get_item b (bi_id item) = None \<and>
    (bi_supersedes item \<noteq> [] \<longrightarrow> get_item b (bi_supersedes item) \<noteq> None \<and>
      bi_supersedes item \<notin> set (superseded_ids b)) \<and>
    Backlog (b\<lparr>bl_evolutions := bl_evolutions b @ [item]\<rparr>) = Inr (b\<lparr>bl_evolutions := bl_evolutions b @ [item]\<rparr>) \<and>
    b' = b\<lparr>bl_evolutions := bl_evolutions b @ [item],
      bl_evolutions_hash := evolutions_chain D (b\<lparr>bl_evolutions := bl_evolutions b @ [item]\<rparr>)\<rparr>"
proof -
  let ?n = "b\<lparr>bl_evolutions := bl_evolutions b @ [item]\<rparr>"
  have s: "list_ex (\<lambda>e. bi_supersedes e = bi_supersedes item) (bl_evolutions b) \<longleftrightarrow> bi_supersedes item \<in> set (superseded_ids b)"
    if "bi_supersedes item \<noteq> []" using that by (auto simp: superseded_ids_def list_ex_iff image_iff) metis
  show ?thesis
  proof (cases "Backlog ?n")
    case (Inl e)
    then show ?thesis by (auto simp: evolve_def bind_result_def)
  next
    case (Inr m)
    then have "m = ?n" using Backlog_Inr by blast
    then show ?thesis using Inr s by (auto simp: evolve_def bind_result_def)
  qed
qed

lemma backwards_snoc: "backwards (b\<lparr>bl_evolutions := bl_evolutions b @ [item], bl_evolutions_hash := h\<rparr>) \<longleftrightarrow>
    backwards b \<and> (bi_supersedes item \<noteq> [] \<longrightarrow> bi_supersedes item \<in> bi_id ` set (all_items b))"
proof -
  have "backwards (b\<lparr>bl_evolutions := es @ [item], bl_evolutions_hash := h\<rparr>) \<longleftrightarrow>
      backwards (b\<lparr>bl_evolutions := es\<rparr>) \<and> (bi_supersedes item \<noteq> [] \<longrightarrow> bi_supersedes item \<in> bi_id ` set (bl_items b @ es))" for es
  proof -
    have "es @ [item] = ys @ e # zs \<longleftrightarrow> (zs = [] \<and> ys = es \<and> e = item) \<or> (\<exists>z. zs = z @ [item] \<and> es = ys @ e # z)" for ys e zs
      by (cases zs rule: rev_cases) auto
    then show ?thesis unfolding backwards_def by simp blast
  qed
  from this [of "bl_evolutions b"] show ?thesis by (simp add: all_items_def)
qed

lemma built_inv: "built D b \<Longrightarrow>
    distinct (map bi_id (all_items b)) \<and> distinct (superseded_ids b) \<and> backwards b \<and> stamped D b"
proof (induction rule: built.induct)
  case (registered b b')
  then have "b' = b" by (simp add: Backlog_Inr)
  then show ?case using registered Backlog_distinct [of b b]
    by (simp add: superseded_ids_def backwards_def stamped_def is_frozen_def evolutions_chain_def)
next
  case (frozen b at b')
  have "bl_evolutions b = []" if "\<not> is_frozen b"
    using frozen(1) that by (induction rule: built.induct) (auto simp: freeze_Inr Backlog_Inr evolve_Inr is_frozen_def)
  with frozen show ?case
    by (auto simp: freeze_Inr Backlog_Inr all_items_def superseded_ids_def backwards_def stamped_def evolutions_chain_def)
next
  case (evolved b item b')
  have "get_item b k \<noteq> None \<longleftrightarrow> k \<in> bi_id ` set (all_items b)" for k by (simp only: get_item_None not_not)
  with evolved show ?case
    by (auto simp: evolve_Inr backwards_snoc all_items_def superseded_ids_def stamped_def evolutions_chain_def is_frozen_def get_item_None)
qed

text \<open>One step of supersession, and the walk that resolves an id.\<close>

definition superseding :: "backlog \<Rightarrow> (string \<times> string) set" where
  "superseding b = {(bi_supersedes e, bi_id e) | e. e \<in> set (bl_evolutions b) \<and> bi_supersedes e \<noteq> []}"

lemma superseded_by_map: "map_of (superseded_by b) =
    map_of (rev (map (\<lambda>e. (bi_supersedes e, bi_id e)) (filter (\<lambda>e. bi_supersedes e \<noteq> []) (bl_evolutions b))))"
proof -
  have "map_of (foldl (\<lambda>d e. if bi_supersedes e \<noteq> [] then AList.update (bi_supersedes e) (bi_id e) d else d) d es) =
      map_of d ++ map_of (rev (map (\<lambda>e. (bi_supersedes e, bi_id e)) (filter (\<lambda>e. bi_supersedes e \<noteq> []) es)))" for d es
    by (induction es arbitrary: d) (auto simp: update_conv' map_add_def fun_eq_iff split: option.splits)
  from this [of Nil] show ?thesis by (simp add: superseded_by_def)
qed

lemma superseded_by_Some: "map_of (superseded_by b) k = Some v \<Longrightarrow> (k, v) \<in> superseding b"
  by (auto simp: superseded_by_map superseding_def dest!: map_of_SomeD)

lemma superseded_by_dom: "dom (map_of (superseded_by b)) = set (superseded_ids b)"
  by (auto simp: superseded_by_map dom_map_of_conv_image_fst superseded_ids_def image_iff)

lemma fst_superseded_by: "set (map fst (superseded_by b)) = dom (map_of (superseded_by b))"
  by (simp add: dom_map_of_conv_image_fst)

text \<open>The place of an id in the record; an evolution comes after what it supersedes.\<close>

definition place :: "backlog \<Rightarrow> string \<Rightarrow> nat" where
  "place b k = length (takeWhile (\<lambda>i. bi_id i \<noteq> k) (all_items b))"

lemma place_less: "k \<in> bi_id ` set (all_items b) \<Longrightarrow> place b k < length (all_items b)"
  unfolding place_def by (rule takeWhile_shorter) auto

lemma superseding_later:
  assumes "backwards b" "distinct (map bi_id (all_items b))" "(k, v) \<in> superseding b"
  shows "place b k < place b v \<and> place b v < length (all_items b)"
proof -
  obtain e where e: "e \<in> set (bl_evolutions b)" "bi_supersedes e = k" "bi_id e = v" "k \<noteq> []"
    using assms(3) by (auto simp: superseding_def)
  then obtain ys zs where ys: "bl_evolutions b = ys @ e # zs" by (metis split_list)
  let ?p = "bl_items b @ ys"
  have all: "all_items b = ?p @ e # zs" by (simp add: all_items_def ys)
  have "v \<notin> bi_id ` set ?p" using assms(2) e(3) unfolding all by auto
  then have "\<And>x. x \<in> set ?p \<Longrightarrow> bi_id x \<noteq> v" by blast
  then have pv: "place b v = length ?p" unfolding place_def all using e(3)
    by (subst takeWhile_append2) auto
  have "k \<in> bi_id ` set ?p" using assms(1) ys e unfolding backwards_def by blast
  then obtain y where y: "y \<in> set ?p" "bi_id y = k" by auto
  then have "place b k = length (takeWhile (\<lambda>i. bi_id i \<noteq> k) ?p)"
    unfolding place_def all by (intro arg_cong [of _ _ length] takeWhile_append1) auto
  also have "\<dots> < length ?p" using y by (intro takeWhile_shorter) auto
  finally show ?thesis using pv by (simp add: all)
qed

lemma backwards_resolves:
  assumes bw: "backwards b" and d: "distinct (map bi_id (all_items b))"
  shows "\<exists>latest. latest_ids b = Some latest \<and> dom (map_of latest) = set (superseded_ids b) \<and>
    (\<forall>k v. map_of latest k = Some v \<longrightarrow> (k, v) \<in> (superseding b)\<^sup>+ \<and> v \<notin> set (superseded_ids b))"
proof -
  let ?d = "superseded_by b"
  have 1: "ranked (place b) (length (all_items b)) ?d"
    using superseding_later [OF bw d] superseded_by_Some unfolding ranked_def by blast
  have 2: "set (map fst ?d) \<subseteq> dom (map_of ?d)" unfolding fst_superseded_by by (rule order_refl)
  have 3: "\<forall>k v. map_of ?d k = Some v \<longrightarrow> (k, v) \<in> (superseding b)\<^sup>+" using superseded_by_Some by blast
  from chase_all_ranked [OF 1 2 3 trans_trancl] obtain d' where
    d': "chase_all (map fst ?d) ?d = Some d'" "dom (map_of d') = dom (map_of ?d)"
      "\<forall>k v. map_of d' k = Some v \<longrightarrow> (k, v) \<in> (superseding b)\<^sup>+"
      "\<forall>k\<in>set (map fst ?d). \<forall>w. map_of d' k = Some w \<longrightarrow> map_of ?d w = None" by blast
  have "v \<notin> set (superseded_ids b)" if "map_of d' k = Some v" for k v
  proof -
    have "k \<in> dom (map_of d')" using that by blast
    then have "map_of ?d v = None" using d'(2,4) that unfolding fst_superseded_by by blast
    then show ?thesis unfolding superseded_by_dom [symmetric] by blast
  qed
  then show ?thesis using d' unfolding latest_ids_def superseded_by_dom by blast
qed

text \<open>
  Along a chain of a built backlog every id is one of the record's, so the end of the chain is an active item.
\<close>

lemma built_resolves:
  assumes "built D b" "k \<in> bi_id ` set (all_items b)"
  shows "\<exists>w. resolve_id b k = Some w \<and> w \<in> bi_id ` set (active_items b) \<and> (k, w) \<in> (superseding b)\<^sup>*"
proof -
  from built_inv [OF assms(1)] have i: "backwards b" "distinct (map bi_id (all_items b))" by auto
  from backwards_resolves [OF i] obtain latest where l: "latest_ids b = Some latest"
    "dom (map_of latest) = set (superseded_ids b)"
    "\<forall>k v. map_of latest k = Some v \<longrightarrow> (k, v) \<in> (superseding b)\<^sup>+ \<and> v \<notin> set (superseded_ids b)" by blast
  let ?w = "dget latest k k"
  have r: "resolve_id b k = Some ?w" by (simp add: resolve_id_def l(1))
  have "?w \<notin> set (superseded_ids b) \<and> (k, ?w) \<in> (superseding b)\<^sup>* \<and> ?w \<in> bi_id ` set (all_items b)"
  proof (cases "map_of latest k")
    case None
    then show ?thesis using l(2) assms(2) by (auto simp: dget_def)
  next
    case (Some v)
    then have v: "(k, v) \<in> (superseding b)\<^sup>+" "v \<notin> set (superseded_ids b)" using l(3) by auto
    have "v \<in> Range (superseding b)" using v(1) by (metis Range.intros trancl_range)
    then have "v \<in> bi_id ` set (all_items b)" by (auto simp: superseding_def all_items_def)
    then show ?thesis using v Some by (simp add: dget_def)
  qed
  then show ?thesis using r by (auto simp: active_items_def)
qed

lemma built_ordered:
  assumes "built D b"
  shows "\<exists>r. ordered b = Some r"
proof -
  from built_inv [OF assms] have "backwards b" "distinct (map bi_id (all_items b))" by auto
  from backwards_resolves [OF this] show ?thesis by (auto simp: ordered_def)
qed

subsection \<open>Properties\<close>

text \<open>
  C37. \<open>Backlog.ordered\<close> on a backlog the interface built always returns, without a hypothesis about its
  dependencies: a list exactly when the resolved dependencies of the active items form no cycle. The list
  then holds each active item once, and each one after every active item its \<open>depends_on\<close> resolves to;
  otherwise the one error is the cycle.
\<close>

theorem ordered_is_topological:
  assumes "built D b"
  shows "\<exists>latest. latest_ids b = Some latest \<and>
    (if acyclic (needs b latest)
     then \<exists>xs. ordered b = Some (Inr xs) \<and> distinct (map bi_id xs) \<and> set xs = set (active_items b) \<and>
       (\<forall>ys x zs. xs = ys @ x # zs \<longrightarrow> (\<forall>d. (bi_id x, d) \<in> needs b latest \<longrightarrow> d \<in> bi_id ` set ys))
     else ordered b = Some (Inl (ValueError ''cycle'')))"
proof -
  from built_inv [OF assms] have bw: "backwards b" and d: "distinct (map bi_id (all_items b))" by auto
  from backwards_resolves [OF this] obtain latest where l: "latest_ids b = Some latest" by blast
  from built_ordered [OF assms] obtain r where r: "ordered b = Some r" by blast
  show ?thesis
  proof (cases r)
    case (Inl e)
    with ordered_raises [OF d l] r show ?thesis using l by auto
  next
    case (Inr xs)
    then have o: "ordered b = Some (Inr xs)" using r by simp
    note x = ordered_result [OF d l o]
    have "d' \<in> bi_id ` set ys" if xs: "xs = ys @ x # zs" and n: "(bi_id x, d') \<in> needs b latest" for ys x zs d'
    proof -
      from n have "(bi_id x, d') \<in> edges (active_by_id b) (active_deps (active_by_id b) latest)"
        by (simp only: edges_needs [OF d])
      moreover have "map_of (active_by_id b) (bi_id x) = Some x"
        using x xs by (subst active_by_id_Some [OF d]) auto
      ultimately have "d' \<in> set (active_deps (active_by_id b) latest x)" by (auto simp: edges_def)
      then show ?thesis using x xs unfolding deps_first_def by blast
    qed
    then show ?thesis using l o x by (intro exI [of _ latest]) auto
  qed
qed

definition demo_item :: "string \<Rightarrow> string list \<Rightarrow> string \<Rightarrow> backlog_item" where
  "demo_item i deps old = \<lparr>bi_id = i, bi_title = ''t'', bi_kind = ''code'', bi_description = [], bi_acceptance_criteria = [],
     bi_capability_class = ''c'', bi_size_estimate = ''S'', bi_structural_facts = [], bi_depends_on = deps,
     bi_level = ''L1'', bi_supersedes = old, bi_registered = [], bi_labels = []\<rparr>"

definition demo_digests :: digests where
  "demo_digests = \<lparr>dg_items = (\<lambda>is. CHR ''h'' # concat (map bi_id is)), dg_evolution = (\<lambda>h i. h @ bi_id i)\<rparr>"

definition demo_registered :: backlog where
  "demo_registered = \<lparr>bl_items = [demo_item ''b'' [''a''] [], demo_item ''a'' [] []], bl_repo = [], bl_frozen_at = [],
     bl_backlog_hash = [], bl_evolutions = [], bl_evolutions_hash = []\<rparr>"

definition demo_frozen :: backlog where
  "demo_frozen = demo_registered\<lparr>bl_frozen_at := ''t'', bl_backlog_hash := ''hba''\<rparr>"

text \<open>\<open>a2\<close> replaces \<open>a\<close>, which \<open>b\<close> depends on.\<close>

definition demo_evolved :: backlog where
  "demo_evolved = demo_frozen\<lparr>bl_evolutions := [demo_item ''a2'' [] ''a''], bl_evolutions_hash := ''hbaa2''\<rparr>"

lemma demo_built: "built demo_digests demo_evolved"
proof -
  have 1: "Backlog demo_registered = Inr demo_registered" "bl_evolutions demo_registered = []"
    "bl_backlog_hash demo_registered = []" "bl_evolutions_hash demo_registered = []" by code_simp+
  have 2: "freeze demo_digests ''t'' demo_registered = Inr demo_frozen" by code_simp
  have 3: "evolve demo_digests (demo_item ''a2'' [] ''a'') demo_frozen = Inr demo_evolved" by code_simp
  show ?thesis by (rule built.evolved [OF built.frozen [OF built.registered [OF 1] 2] 3])
qed

lemma ordered_is_topological_witness:
  "\<exists>xs. ordered demo_evolved = Some (Inr xs) \<and> distinct (map bi_id xs) \<and> set xs = set (active_items demo_evolved)"
proof -
  have "superseded_by demo_evolved = [(''a'', ''a2'')]" by code_simp
  moreover have "chase [(''a'', ''a2'')] ''a2'' = Some ''a2''" by (subst chase.simps) simp
  then have "chase [(''a'', ''a2'')] ''a'' = Some ''a2''" by (subst chase.simps) simp
  ultimately have "latest_ids demo_evolved = Some [(''a'', ''a2'')]" by (simp add: latest_ids_def)
  moreover have "bind_result (visit_all (active_by_id demo_evolved) (active_deps (active_by_id demo_evolved) [(''a'', ''a2'')]) []
      (map bi_id (active_items demo_evolved)) ([], [])) (\<lambda>(seen, done). Inr done) \<noteq> Inl (ValueError ''cycle'')" by code_simp
  ultimately have "ordered demo_evolved \<noteq> Some (Inl (ValueError ''cycle''))" by (simp add: ordered_def)
  with ordered_is_topological [OF demo_built] show ?thesis by (metis (no_types, lifting))
qed

text \<open>
  C38. Resolving an id of a built backlog ends, at an active item reached by following supersessions only.
\<close>

theorem resolve_ends_at_active_item:
  assumes "built D b" "k \<in> bi_id ` set (all_items b)"
  shows "\<exists>w. resolve_id b k = Some w \<and> w \<in> bi_id ` set (active_items b) \<and> (k, w) \<in> (superseding b)\<^sup>*"
  by (rule built_resolves [OF assms])

lemma resolve_ends_at_active_item_witness:
  "\<exists>w. resolve_id demo_evolved ''a'' = Some w \<and> w \<in> bi_id ` set (active_items demo_evolved) \<and>
     (''a'', w) \<in> (superseding demo_evolved)\<^sup>*"
  by (rule resolve_ends_at_active_item [OF demo_built])
    (simp add: all_items_def demo_evolved_def demo_frozen_def demo_registered_def demo_item_def)

text \<open>
  A built record verifies against its own hash once it is frozen, and an accepted evolution leaves the frozen
  items, their hash and the freeze time as they were and adds itself at the end.
\<close>

theorem evolution_keeps_the_record:
  assumes "built D b" "evolve D item b = Inr b'"
  shows "verify_backlog D (bl_backlog_hash b) b' \<and> bl_items b' = bl_items b \<and> bl_backlog_hash b' = bl_backlog_hash b \<and>
    bl_frozen_at b' = bl_frozen_at b \<and> bl_evolutions b' = bl_evolutions b @ [item] \<and>
    bi_id item \<notin> bi_id ` set (all_items b) \<and> set (superseded_ids b') = set (superseded_ids b) \<union> ({bi_supersedes item} - {[]})"
proof -
  have b': "built D b'" by (rule built.evolved [OF assms])
  have "stamped D b'" using built_inv [OF b'] by blast
  then show ?thesis using assms(2)
    by (auto simp: evolve_Inr stamped_def verify_backlog_def is_frozen_def get_item_None superseded_ids_def)
qed

lemma evolution_keeps_the_record_witness:
  "verify_backlog demo_digests (bl_backlog_hash demo_frozen) demo_evolved \<and> bl_items demo_evolved = bl_items demo_frozen \<and>
    bl_backlog_hash demo_evolved = bl_backlog_hash demo_frozen \<and> bl_frozen_at demo_evolved = bl_frozen_at demo_frozen \<and>
    bl_evolutions demo_evolved = bl_evolutions demo_frozen @ [demo_item ''a2'' [] ''a''] \<and>
    bi_id (demo_item ''a2'' [] ''a'') \<notin> bi_id ` set (all_items demo_frozen) \<and>
    set (superseded_ids demo_evolved) =
      set (superseded_ids demo_frozen) \<union> ({bi_supersedes (demo_item ''a2'' [] ''a'')} - {[]})"
proof (rule evolution_keeps_the_record)
  show "built demo_digests demo_frozen"
    by (rule built.frozen [of _ demo_registered "''t''"], rule built.registered [of demo_registered]) code_simp+
  show "evolve demo_digests (demo_item ''a2'' [] ''a'') demo_frozen = Inr demo_evolved" by code_simp
qed

definition cyclic_record :: "digests \<Rightarrow> backlog" where
  "cyclic_record D = (let items = [demo_item ''x'' [] []]; evs = [demo_item ''p'' [] ''q'', demo_item ''q'' [] ''p''] in
     \<lparr>bl_items = items, bl_repo = [], bl_frozen_at = [], bl_backlog_hash = dg_items D items, bl_evolutions = evs,
       bl_evolutions_hash = foldl (dg_evolution D) (dg_items D items) evs\<rparr>)"

lemma chase_cycle: "chase d v = Some w \<Longrightarrow> \<not> (d = [(''q'', ''p''), (''p'', ''q'')] \<and> (v = ''p'' \<or> v = ''q''))"
  by (erule chase.raw_induct [rotated, where P = "\<lambda>d v w. \<not> (d = [(''q'', ''p''), (''p'', ''q'')] \<and> (v = ''p'' \<or> v = ''q''))"])
    (fastforce split: option.splits if_splits)

text \<open>
  The constructor and \<open>verify\<close> accept a stored record whose two evolutions supersede each other; resolving any
  id of it, and ordering it, then never returns.
\<close>

theorem cyclic_supersession_never_resolves:
  assumes "dg_items D [demo_item ''x'' [] []] \<noteq> []"
  shows "Backlog (cyclic_record D) = Inr (cyclic_record D) \<and> verify_backlog D [] (cyclic_record D) \<and>
    resolve_id (cyclic_record D) ''x'' = None \<and> ordered (cyclic_record D) = None"
proof -
  have c: "check_items [] [demo_item ''x'' [] []] = Inr ()"
    "check_items [''x''] [demo_item ''p'' [] ''q'', demo_item ''q'' [] ''p''] = Inr ()" by code_simp+
  have "superseded_by (cyclic_record D) = [(''q'', ''p''), (''p'', ''q'')]"
    by (simp add: superseded_by_def cyclic_record_def demo_item_def Let_def)
  then have "latest_ids (cyclic_record D) = None"
    using chase_cycle by (auto simp: latest_ids_def split: option.split)
  then show ?thesis using c assms
    by (simp add: Backlog_Inr resolve_id_def ordered_def verify_backlog_def is_frozen_def evolutions_chain_def cyclic_record_def
        demo_item_def Let_def)
qed

lemma cyclic_supersession_never_resolves_witness:
  "Backlog (cyclic_record demo_digests) = Inr (cyclic_record demo_digests) \<and>
    verify_backlog demo_digests [] (cyclic_record demo_digests) \<and>
    resolve_id (cyclic_record demo_digests) ''x'' = None \<and> ordered (cyclic_record demo_digests) = None"
  by (rule cyclic_supersession_never_resolves) (simp add: demo_digests_def)

end
