(* ===== verification/Readiness_Correct.thy ===== *)
theory Readiness_Correct
  imports Readiness Backlog_Correct
begin

section \<open>Correctness of the readiness gate\<close>

text \<open>
  An item is ready exactly when each structural slot of its class is filled, by a fact line of its own or by
  the latest sign-off of that slot; a value slot is filled by its own fact line only. The route to a build
  needs every slot filled. The gap sign-off ledger interprets the locales of a hash chain and its writer.
\<close>

subsection \<open>The latest sign-off of a slot\<close>

text \<open>The specification: the last record of a slot, unless it revokes.\<close>

definition latest_signoff :: "gap_signoff list \<Rightarrow> string \<Rightarrow> string \<Rightarrow> gap_signoff option" where
  "latest_signoff rs item_id name = (case find (\<lambda>r. gs_key r = (item_id, name)) (rev rs) of
     None \<Rightarrow> None | Some r \<Rightarrow> if gs_revoked r then None else Some r)"

lemma keyed_map:
  "map_of (foldl (\<lambda>d r. AList.update (gs_key r) r d) d rs) k =
     (case find (\<lambda>r. gs_key r = k) (rev rs) of None \<Rightarrow> map_of d k | Some r \<Rightarrow> Some r)"
  by (induction rs rule: rev_induct) (auto simp: update_conv')

lemma keyed_distinct: "distinct (map fst d) \<Longrightarrow> distinct (map fst (foldl (\<lambda>d r. AList.update (gs_key r) r d) d rs))"
  by (induction rs arbitrary: d) (auto simp: distinct_update)

lemma active_signoffs_mem:
  "((i, name), r) \<in> set (active_signoffs rs) \<longleftrightarrow> latest_signoff rs i name = Some r"
proof -
  let ?d = "foldl (\<lambda>d r. AList.update (gs_key r) r d) [] rs"
  have d: "distinct (map fst ?d)" by (rule keyed_distinct) simp
  have "((i, name), r) \<in> set ?d \<longleftrightarrow> find (\<lambda>r. gs_key r = (i, name)) (rev rs) = Some r"
    unfolding map_of_eq_Some_iff [OF d, symmetric] keyed_map by (simp split: option.split)
  then show ?thesis by (auto simp: active_signoffs_def latest_signoff_def split: option.splits if_splits)
qed

lemma item_signoffs_mem:
  "(name, r) \<in> set (item_signoffs i rs) \<longleftrightarrow> latest_signoff rs (bi_id i) name = Some r"
  unfolding active_signoffs_mem [symmetric] by (auto simp: item_signoffs_def) force+

subsection \<open>The facts an assessment counts\<close>

lemma dhas_set_default [simp]: "dhas (set_default k v d) k' \<longleftrightarrow> k' = k \<or> dhas d k'"
  by (auto simp: set_default_def dhas_def map_add_def split: option.splits)

lemma map_of_set_default: "map_of (set_default k v d) k' = (if dhas d k' then map_of d k' else if k' = k then Some v else None)"
  by (auto simp: set_default_def dhas_def map_add_def split: option.splits)

definition slot_kind :: "string \<Rightarrow> string \<Rightarrow> string \<Rightarrow> string" where
  "slot_kind cls name dflt = dget (map (\<lambda>s. (sl_name s, sl_kind s)) (rev (slots_for cls))) name dflt"

lemma merged_foldl:
  "dhas (foldl (\<lambda>facts (name, r). if dget ks name (gs_kind r) \<noteq> SLOT_STRUCTURAL then facts
      else set_default name (gs_answer r) facts) d rs) k \<longleftrightarrow>
    dhas d k \<or> (\<exists>r. (k, r) \<in> set rs \<and> dget ks k (gs_kind r) = SLOT_STRUCTURAL)"
  by (induction rs arbitrary: d) (auto split: if_splits)

lemma dhas_merged:
  "dhas (merged_facts i signoffs) k \<longleftrightarrow> dhas (parse_facts (bi_structural_facts i)) k \<or>
     (\<exists>r. latest_signoff signoffs (bi_id i) k = Some r \<and> slot_kind (bi_capability_class i) k (gs_kind r) = SLOT_STRUCTURAL)"
  by (simp add: merged_facts_def Let_def merged_foldl item_signoffs_mem slot_kind_def)

lemma merged_foldl_first: "map_of d k = Some v \<Longrightarrow>
    map_of (foldl (\<lambda>facts (name, r). if dget ks name (gs_kind r) \<noteq> SLOT_STRUCTURAL then facts
      else set_default name (gs_answer r) facts) d rs) k = Some v"
  by (induction rs arbitrary: d) (auto simp: map_of_set_default dhas_def)

text \<open>Every catalogued class names a slot once, and of one of the two kinds.\<close>

lemma CATALOGUE_ok: "list_all (\<lambda>(c, ss). ss \<noteq> [] \<and> distinct (map sl_name ss) \<and> list_all (\<lambda>s. sl_kind s \<in> set SLOT_KINDS) ss) CATALOGUE"
  by code_simp

lemma slots_ok: "distinct (map sl_name (slots_for cls)) \<and> (\<forall>s\<in>set (slots_for cls). sl_kind s \<in> {SLOT_STRUCTURAL, SLOT_VALUE})"
proof (cases "map_of CATALOGUE cls")
  case None
  then show ?thesis by (simp add: slots_for_def)
next
  case (Some ss)
  then have "(cls, ss) \<in> set CATALOGUE" by (rule map_of_SomeD)
  with CATALOGUE_ok have "distinct (map sl_name ss) \<and> list_all (\<lambda>s. sl_kind s \<in> set SLOT_KINDS) ss"
    by (auto simp only: list_all_iff)
  then show ?thesis using Some by (auto simp: slots_for_def list_all_iff SLOT_KINDS_def)
qed

lemma kinds_differ: "SLOT_STRUCTURAL \<noteq> SLOT_VALUE"
  by (simp add: SLOT_STRUCTURAL_def SLOT_VALUE_def)

lemma slot_kind_catalogued:
  assumes "s \<in> set (slots_for cls)"
  shows "slot_kind cls (sl_name s) dflt = sl_kind s"
proof -
  let ?m = "map (\<lambda>s. (sl_name s, sl_kind s)) (rev (slots_for cls))"
  have "distinct (map fst ?m)" using slots_ok [of cls] by (simp add: comp_def rev_map [symmetric])
  moreover have "(sl_name s, sl_kind s) \<in> set ?m" using assms by auto
  ultimately have "map_of ?m (sl_name s) = Some (sl_kind s)" by (rule map_of_is_SomeI)
  then show ?thesis by (simp add: slot_kind_def dget_def)
qed

text \<open>What fills a slot of the catalogue.\<close>

lemma slot_filled:
  assumes "s \<in> set (slots_for (bi_capability_class i))"
  shows "dhas (merged_facts i signoffs) (sl_name s) \<longleftrightarrow> dhas (parse_facts (bi_structural_facts i)) (sl_name s) \<or>
    (sl_kind s = SLOT_STRUCTURAL \<and> latest_signoff signoffs (bi_id i) (sl_name s) \<noteq> None)"
  by (auto simp: dhas_merged slot_kind_catalogued [OF assms])

lemma gaps_mem:
  "g \<in> set (re_gaps (assess i signoffs)) \<longleftrightarrow> (\<exists>s\<in>set (slots_for (bi_capability_class i)).
     g = \<lparr>gp_slot = sl_name s, gp_question = sl_question s, gp_kind = sl_kind s\<rparr> \<and>
     \<not> dhas (merged_facts i signoffs) (sl_name s))"
  by (auto simp: assess_def Let_def)

lemma ready_no_blocking: "re_ready (assess i signoffs) \<longleftrightarrow> (\<forall>g\<in>set (re_gaps (assess i signoffs)). \<not> blocking g)"
  by (simp add: assess_def Let_def filter_empty_conv)

lemma merged_foldl_other:
  "(\<And>x. dget ks k x \<noteq> SLOT_STRUCTURAL) \<Longrightarrow>
    map_of (foldl (\<lambda>facts (name, r). if dget ks name (gs_kind r) \<noteq> SLOT_STRUCTURAL then facts
      else set_default name (gs_answer r) facts) d rs) k = map_of d k"
proof (induction rs arbitrary: d)
  case (Cons nr rs)
  obtain n r where nr: "nr = (n, r)" by (cases nr)
  have "map_of (if dget ks n (gs_kind r) \<noteq> SLOT_STRUCTURAL then d else set_default n (gs_answer r) d) k = map_of d k"
    using Cons.prems [of "gs_kind r"] by (auto simp: map_of_set_default dhas_def)
  then show ?case using Cons by (simp add: nr)
qed simp

text \<open>
  \<open>assess\<close> answers ready exactly when every structural slot the item's class needs is filled: by a line of
  the item's own \<open>structural_facts\<close>, or by the latest sign-off of that slot of that item, unless it revokes.
\<close>

theorem assess_ready_iff:
  "re_ready (assess i signoffs) \<longleftrightarrow> (\<forall>s\<in>set (slots_for (bi_capability_class i)). sl_kind s = SLOT_STRUCTURAL \<longrightarrow>
     dhas (parse_facts (bi_structural_facts i)) (sl_name s) \<or> latest_signoff signoffs (bi_id i) (sl_name s) \<noteq> None)"
proof -
  have "re_ready (assess i signoffs) \<longleftrightarrow> (\<forall>s\<in>set (slots_for (bi_capability_class i)).
      sl_kind s = SLOT_STRUCTURAL \<longrightarrow> dhas (merged_facts i signoffs) (sl_name s))"
    unfolding ready_no_blocking gaps_mem Ball_def by (auto simp: blocking_def)
  then show ?thesis using slot_filled by blast
qed

definition demo_signoff :: "string \<Rightarrow> bool \<Rightarrow> gap_signoff" where
  "demo_signoff name revoked = \<lparr>gs_item_id = ''a'', gs_slot = name, gs_verifier = ''v'', gs_answer = ''x'', gs_kind = ''structural'',
     gs_revoked = revoked, gs_signed_at = [], gs_schema = [], gs_record_id = [], gs_prev_hash = [], gs_row_hash = []\<rparr>"

definition demo_value_slot :: slot where
  "demo_value_slot = v_slot ''exact_value'' ''The exact output value / message at the reproduction input.''"

definition demo_bug :: backlog_item where
  "demo_bug = (demo_item ''a'' [] [])\<lparr>bi_capability_class := ''bug.fix'', bi_structural_facts := ['' reproduction : run it'']\<rparr>"

text \<open>
  A value slot is never signed into readiness: whatever is signed, it is open, and it carries the fact, exactly as
  the item's own fact lines leave it.
\<close>

theorem value_slot_never_signed:
  assumes "s \<in> set (slots_for (bi_capability_class i))" "sl_kind s = SLOT_VALUE"
  shows "(sl_name s \<in> gp_slot ` set (value_gaps (assess i signoffs)) \<longleftrightarrow>
      \<not> dhas (parse_facts (bi_structural_facts i)) (sl_name s)) \<and>
    map_of (re_facts (assess i signoffs)) (sl_name s) = map_of (parse_facts (bi_structural_facts i)) (sl_name s)"
proof -
  have open_iff: "dhas (merged_facts i signoffs) (sl_name s) \<longleftrightarrow> dhas (parse_facts (bi_structural_facts i)) (sl_name s)"
    using slot_filled [OF assms(1)] assms(2) kinds_differ by auto
  have eq: "t = s" if "t \<in> set (slots_for (bi_capability_class i))" "sl_name t = sl_name s" for t
    using slots_ok [of "bi_capability_class i"] assms(1) that by (auto simp: distinct_map inj_on_def)
  have "sl_name s \<in> gp_slot ` set (value_gaps (assess i signoffs)) \<longleftrightarrow> \<not> dhas (merged_facts i signoffs) (sl_name s)"
  proof
    assume "sl_name s \<in> gp_slot ` set (value_gaps (assess i signoffs))"
    then show "\<not> dhas (merged_facts i signoffs) (sl_name s)" unfolding value_gaps_def set_filter image_iff mem_Collect_eq gaps_mem by auto
  next
    assume n: "\<not> dhas (merged_facts i signoffs) (sl_name s)"
    let ?g = "\<lparr>gp_slot = sl_name s, gp_question = sl_question s, gp_kind = sl_kind s\<rparr>"
    have "?g \<in> set (value_gaps (assess i signoffs))"
      using n assms kinds_differ unfolding value_gaps_def set_filter mem_Collect_eq gaps_mem by (auto simp: blocking_def)
    then show "sl_name s \<in> gp_slot ` set (value_gaps (assess i signoffs))" by (rule rev_image_eqI) simp
  qed
  moreover have "map_of (merged_facts i signoffs) (sl_name s) = map_of (parse_facts (bi_structural_facts i)) (sl_name s)"
    unfolding merged_facts_def Let_def
    using slot_kind_catalogued [OF assms(1)] assms(2) kinds_differ by (intro merged_foldl_other) (simp add: slot_kind_def)
  ultimately show ?thesis using open_iff by (simp add: assess_def Let_def)
qed

lemma value_slot_never_signed_witness:
  "(sl_name demo_value_slot \<in>
      gp_slot ` set (value_gaps (assess demo_bug [demo_signoff ''exact_value'' False])) \<longleftrightarrow>
      \<not> dhas (parse_facts (bi_structural_facts demo_bug)) (sl_name demo_value_slot)) \<and>
    map_of (re_facts (assess demo_bug [demo_signoff ''exact_value'' False])) (sl_name demo_value_slot) =
      map_of (parse_facts (bi_structural_facts demo_bug)) (sl_name demo_value_slot)"
  by (rule value_slot_never_signed) code_simp+

text \<open>
  The route is \<open>build\<close> exactly for a catalogued class with a strong oracle, of an item that is not operator work,
  with every slot filled, value slots included; with only value slots open it is test-first authoring, and
  everything else goes to a person. A ready assessment carries no blocking gap.
\<close>

theorem route_of_assessment:
  "re_route_hint (assess i signoffs) =
     (if bi_kind i = KIND_OPERATOR \<or> slots_for (bi_capability_class i) = [] \<or> bi_capability_class i \<in> set WEAK_ORACLE_CLASSES
         \<or> \<not> re_ready (assess i signoffs) then ROUTE_HUMAN
      else if \<exists>s\<in>set (slots_for (bi_capability_class i)). sl_kind s = SLOT_VALUE \<and>
         \<not> dhas (parse_facts (bi_structural_facts i)) (sl_name s) then ROUTE_TEST_FIRST
      else ROUTE_BUILD)"
proof -
  let ?slots = "slots_for (bi_capability_class i)" and ?r = "assess i signoffs"
  have hint: "re_route_hint ?r = route_of i (re_gaps ?r)" "re_ready ?r \<longleftrightarrow> filter blocking (re_gaps ?r) = []"
    by (simp_all add: assess_def Let_def)
  have v: "list_ex (\<lambda>g. \<not> blocking g) (re_gaps ?r) \<longleftrightarrow>
      (\<exists>s\<in>set ?slots. sl_kind s = SLOT_VALUE \<and> \<not> dhas (parse_facts (bi_structural_facts i)) (sl_name s))"
  proof -
    have "list_ex (\<lambda>g. \<not> blocking g) (re_gaps ?r) \<longleftrightarrow>
        (\<exists>s\<in>set ?slots. sl_kind s \<noteq> SLOT_STRUCTURAL \<and> \<not> dhas (merged_facts i signoffs) (sl_name s))"
      unfolding list_ex_iff Bex_def gaps_mem by (auto simp: blocking_def)
    also have "\<dots> \<longleftrightarrow> (\<exists>s\<in>set ?slots. sl_kind s = SLOT_VALUE \<and> \<not> dhas (parse_facts (bi_structural_facts i)) (sl_name s))"
      using slots_ok [of "bi_capability_class i"] slot_filled [of _ i signoffs] kinds_differ by (intro bex_cong refl) auto
    finally show ?thesis .
  qed
  show ?thesis unfolding hint route_of_def v by simp
qed

lemma route_of_assessment_witness:
  "re_route_hint (assess demo_bug [demo_signoff ''expected_behaviour'' False]) = ROUTE_TEST_FIRST"
proof -
  have "re_ready (assess demo_bug [demo_signoff ''expected_behaviour'' False])" by code_simp
  moreover have "bi_kind demo_bug \<noteq> KIND_OPERATOR" "slots_for (bi_capability_class demo_bug) \<noteq> []"
    "bi_capability_class demo_bug \<notin> set WEAK_ORACLE_CLASSES" by code_simp+
  moreover have "\<exists>s\<in>set (slots_for (bi_capability_class demo_bug)). sl_kind s = SLOT_VALUE \<and>
      \<not> dhas (parse_facts (bi_structural_facts demo_bug)) (sl_name s)" by code_simp
  ultimately show ?thesis using route_of_assessment [of demo_bug] by simp
qed

lemma assess_ready_iff_witness:
  "re_ready (assess demo_bug [demo_signoff ''expected_behaviour'' False]) \<and>
    \<not> re_ready (assess demo_bug [demo_signoff ''expected_behaviour'' False, demo_signoff ''expected_behaviour'' True])"
proof -
  have "\<forall>s\<in>set (slots_for (bi_capability_class demo_bug)). sl_kind s = SLOT_STRUCTURAL \<longrightarrow>
      dhas (parse_facts (bi_structural_facts demo_bug)) (sl_name s) \<or>
      latest_signoff [demo_signoff ''expected_behaviour'' False] (bi_id demo_bug) (sl_name s) \<noteq> None" by code_simp
  moreover have "\<not> (\<forall>s\<in>set (slots_for (bi_capability_class demo_bug)). sl_kind s = SLOT_STRUCTURAL \<longrightarrow>
      dhas (parse_facts (bi_structural_facts demo_bug)) (sl_name s) \<or>
      latest_signoff [demo_signoff ''expected_behaviour'' False, demo_signoff ''expected_behaviour'' True] (bi_id demo_bug) (sl_name s) \<noteq> None)"
    by code_simp
  ultimately show ?thesis by (simp add: assess_ready_iff)
qed

subsection \<open>The ledger of gap sign-offs\<close>

interpretation gl: chain_writer gs_prev_hash gs_row_hash "gs_compute_hash H" gs_body "\<lambda>_. True" "gs_chained H" for H
proof
  show "gs_prev_hash r = gs_prev_hash r'" if "gs_body r = gs_body r'" for r r'
  proof -
    have "gs_prev_hash (gs_body r) = gs_prev_hash (gs_body r')" by (simp only: that)
    then show ?thesis by (simp add: gs_body_def)
  qed
  show "r = r'" if "gs_body r = gs_body r'" "gs_row_hash r = gs_row_hash r'" for r r' :: gap_signoff
    using that by (cases r, cases r') (simp add: gs_body_def)
qed (simp_all add: gs_compute_hash_def gs_chained_def gs_body_def Let_def)

lemma gs_walk_iff:
  "gs_walk H prev n rs = Inr m \<longleftrightarrow> m = n + length rs \<and> chain_ok gs_prev_hash gs_row_hash (gs_compute_hash H) prev rs"
  by (induction H prev n rs rule: gs_walk.induct) (auto simp: gs_verify_hash_def)

lemma gs_verify_iff:
  "gs_verify H genesis rs = Inr m \<longleftrightarrow> m = length rs \<and> chain_ok gs_prev_hash gs_row_hash (gs_compute_hash H) genesis rs"
  by (simp add: gs_verify_def gs_walk_iff)

text \<open>
  Appending to a verifying sign-off ledger gives a verifying one with one record more; and two verifying ledgers
  that end in the same record hash hold the same records, unless two bodies with one digest, or a body hashed to
  the genesis value, are exhibited.
\<close>

theorem gap_ledger_verifies:
  assumes "gs_verify H genesis rs = Inr n" "\<And>b. H b \<noteq> []"
  shows "\<exists>rs'. gs_append H genesis g rs = Inr rs' \<and> gs_verify H genesis rs' = Inr (Suc n) \<and>
    (\<forall>ss m. gs_verify H genesis ss = Inr m \<and> chain_head gs_row_hash genesis ss = chain_head gs_row_hash genesis rs' \<longrightarrow>
      ss = rs' \<or> (\<exists>r\<in>set ss. \<exists>r'\<in>set rs'. gs_body r \<noteq> gs_body r' \<and> gs_compute_hash H r = gs_compute_hash H r') \<or>
      (\<exists>r\<in>set ss \<union> set rs'. gs_compute_hash H r = genesis))"
proof -
  let ?h = "chain_head gs_row_hash genesis rs" and ?ok = "chain_ok gs_prev_hash gs_row_hash (gs_compute_hash H) genesis"
  have ok: "?ok rs" and n: "n = length rs" using assms(1) by (simp_all add: gs_verify_iff)
  have "gs_row_hash (last rs) \<noteq> []" if "rs \<noteq> []"
    using ok that by (cases rs rule: rev_cases) (auto simp: chain_ok_append)
  then have "gs_last_hash genesis rs = Inr ?h" by (simp add: gs_last_hash_def chain_head_def)
  then have a: "gs_append H genesis g rs = Inr (rs @ [gs_chained H g ?h])" by (simp add: gs_append_def)
  have ok': "?ok (rs @ [gs_chained H g ?h])" using gl.write_ok [OF ok] assms(2) by (simp add: gs_compute_hash_def)
  show ?thesis
    using a ok' n gl.same_head_same_log [of H genesis _ "rs @ [gs_chained H g ?h]"]
    by (intro exI [of _ "rs @ [gs_chained H g ?h]"]) (simp add: gs_verify_iff gl.collision_def list_all_iff)
qed

lemma gap_ledger_verifies_witness:
  "\<exists>rs'. gs_append (\<lambda>b. CHR ''#'' # gs_slot b) ''genesis'' (demo_signoff ''x'' False) [] = Inr rs' \<and>
    gs_verify (\<lambda>b. CHR ''#'' # gs_slot b) ''genesis'' rs' = Inr (Suc 0) \<and>
    (\<forall>ss m. gs_verify (\<lambda>b. CHR ''#'' # gs_slot b) ''genesis'' ss = Inr m \<and>
        chain_head gs_row_hash ''genesis'' ss = chain_head gs_row_hash ''genesis'' rs' \<longrightarrow>
      ss = rs' \<or> (\<exists>r\<in>set ss. \<exists>r'\<in>set rs'. gs_body r \<noteq> gs_body r' \<and>
        gs_compute_hash (\<lambda>b. CHR ''#'' # gs_slot b) r = gs_compute_hash (\<lambda>b. CHR ''#'' # gs_slot b) r') \<or>
      (\<exists>r\<in>set ss \<union> set rs'. gs_compute_hash (\<lambda>b. CHR ''#'' # gs_slot b) r = ''genesis''))"
  by (rule gap_ledger_verifies) (simp_all add: gs_verify_def)

end
