(* ===== verification/Entry_Gate.thy ===== *)
theory Entry_Gate
  imports Readiness
begin

section \<open>The entry gate and the licence of a build (\<open>crb/factory/standard.py\<close>)\<close>

text \<open>
  What an item must carry before any spend, and what licenses the delivery of what was built. The reader of
  a cell's proven standard is the argument \<open>standard_for\<close>, as it is the argument of the code. The sentences
  (\<open>reason\<close>) are not modelled; the codes, the needs and the cells read are.
\<close>

subsection \<open>Words\<close>

definition SIZE_GRANULARIZE :: string where "SIZE_GRANULARIZE = ''XL''"
definition STOP_UNSIZED :: string where "STOP_UNSIZED = ''unsized''"
definition STOP_GRANULARIZE :: string where "STOP_GRANULARIZE = ''granularize''"
definition STOP_NO_PROVEN_STANDARD :: string where "STOP_NO_PROVEN_STANDARD = ''no_proven_standard''"
definition STOP_NEEDS_CONTEXT :: string where "STOP_NEEDS_CONTEXT = ''needs_context''"
definition STOP_UNSIGNED_CELL :: string where "STOP_UNSIGNED_CELL = ''unsigned_cell''"
definition STOP_SIZE_EXCEEDS_LICENCE :: string where "STOP_SIZE_EXCEEDS_LICENCE = ''size_exceeds_licence''"
definition STOP_CELL_NOT_LICENSED :: string where "STOP_CELL_NOT_LICENSED = ''cell_not_licensed''"
definition CALIBRATABLE :: "string list" where "CALIBRATABLE = [STOP_NO_PROVEN_STANDARD, STOP_NEEDS_CONTEXT]"
definition OVERRIDABLE :: "string list" where "OVERRIDABLE = [STOP_UNSIGNED_CELL]"
definition REASON_NONE :: string where "REASON_NONE = ''none''"
definition REASON_CEILING :: string where "REASON_CEILING = ''ceiling''"
definition BASE_S1 :: string where "BASE_S1 = ''S1''"
definition BASE_S2 :: string where "BASE_S2 = ''S2''"
definition BASE_S3 :: string where "BASE_S3 = ''S3''"
definition CERTIFYING_BASES :: "string list" where "CERTIFYING_BASES = [BASE_S1, BASE_S2]"
definition NEED_FAILING_TEST :: string where "NEED_FAILING_TEST = ''a failing test''"

lemmas stop_words = STOP_UNSIZED_def STOP_GRANULARIZE_def STOP_NO_PROVEN_STANDARD_def STOP_NEEDS_CONTEXT_def
  STOP_UNSIGNED_CELL_def STOP_SIZE_EXCEEDS_LICENCE_def STOP_CELL_NOT_LICENSED_def

lemmas base_words = BASE_S1_def BASE_S2_def BASE_S3_def CERTIFYING_BASES_def

definition is_test_need :: "string \<Rightarrow> bool" where
  "is_test_need need \<longleftrightarrow> starts_with need NEED_FAILING_TEST"

definition arm_base :: "string \<Rightarrow> string" where
  "arm_base context_arm = fst (split_once CHR ''@'' (fst (split_once CHR ''+'' context_arm)))"

definition arm_author :: "string \<Rightarrow> string" where
  "arm_author context_arm = (case snd (split_once CHR ''@'' (fst (split_once CHR ''+'' context_arm))) of None \<Rightarrow> [] | Some a \<Rightarrow> a)"

subsection \<open>Cells and standards\<close>

record cell_ref =
  cr_capability_class :: string
  cr_size :: string
  cr_builder :: string
  cr_model :: string
  cr_arm :: string
  cr_provider :: string
  cr_taxonomy :: string
  cr_org_class :: string

definition class_cell :: "string \<Rightarrow> string \<Rightarrow> string \<Rightarrow> string \<Rightarrow> cell_ref" where
  "class_cell capability_class tier taxonomy org_class = \<lparr>cr_capability_class = capability_class, cr_size = tier, cr_builder = [],
     cr_model = [], cr_arm = [], cr_provider = [], cr_taxonomy = taxonomy, cr_org_class = org_class\<rparr>"

definition own_cell :: "string \<Rightarrow> string \<Rightarrow> string \<Rightarrow> string \<Rightarrow> string \<Rightarrow> string \<Rightarrow> cell_ref" where
  "own_cell capability_class tier builder model context_arm provider = \<lparr>cr_capability_class = capability_class, cr_size = tier,
     cr_builder = builder, cr_model = model, cr_arm = context_arm, cr_provider = provider, cr_taxonomy = [], cr_org_class = []\<rparr>"

definition cell_ref_key :: "cell_ref \<Rightarrow> string" where
  "cell_ref_key c = join_with ''|''
     ([cr_capability_class c, cr_size c] @
      (if cr_builder c \<noteq> [] \<or> cr_model c \<noteq> [] then [cr_builder c, cr_model c] else []) @
      (if cr_provider c \<noteq> [] then [''@'' @ cr_provider c] else []) @
      (if cr_arm c \<noteq> [] then [cr_arm c] else []) @
      (if cr_org_class c \<noteq> [] then [cr_taxonomy c @ ''#'' @ cr_org_class c] else []))"

record standard =
  st_arm :: string
  st_signed :: bool
  st_reading_id :: string

definition Standard :: "standard \<Rightarrow> standard result" where
  "Standard s = guarded [(arm_base (st_arm s) \<notin> {BASE_S1, BASE_S2, BASE_S3}, ValueError ''arm'')] s"

definition std_base :: "standard \<Rightarrow> string" where
  "std_base s = arm_base (st_arm s)"

definition std_plus_l :: "standard \<Rightarrow> bool" where
  "std_plus_l s \<longleftrightarrow> ''L'' \<in> set (tl (split_on CHR ''+'' (st_arm s)))"

definition std_ceiling :: "standard \<Rightarrow> bool" where
  "std_ceiling s \<longleftrightarrow> std_base s = BASE_S3"

definition std_licenses :: "standard \<Rightarrow> bool" where
  "std_licenses s \<longleftrightarrow> std_base s \<in> set CERTIFYING_BASES"

type_synonym standard_reader = "cell_ref \<Rightarrow> standard option"

definition standard_signed :: "standard option \<Rightarrow> bool" where
  "standard_signed so = (case so of None \<Rightarrow> False | Some s \<Rightarrow> std_licenses s \<and> st_signed s)"

definition cell_signed :: "standard_reader \<Rightarrow> string \<Rightarrow> string \<Rightarrow> bool" where
  "cell_signed standard_for capability_class tier = standard_signed (standard_for (class_cell capability_class tier [] []))"

subsection \<open>The size rule\<close>

fun index_of :: "'a \<Rightarrow> 'a list \<Rightarrow> nat" where
  "index_of x [] = 0"
| "index_of x (y # ys) = (if x = y then 0 else Suc (index_of x ys))"

definition next_size :: "string \<Rightarrow> string" where
  "next_size tier = SIZE_TIER_NAMES ! min (index_of tier SIZE_TIER_NAMES + 1) (length SIZE_TIER_NAMES - 1)"

definition sizes_to_read :: "string \<Rightarrow> bool \<Rightarrow> string list result" where
  "sizes_to_read tier agreement_passed =
     (if tier \<notin> set SIZE_TIER_NAMES then Inl (ValueError ''not a tier'')
      else if agreement_passed \<or> tier = SIZE_GRANULARIZE then Inr [tier]
      else Inr [tier, next_size tier])"

definition demand :: "standard option \<Rightarrow> nat" where
  "demand so = (case so of None \<Rightarrow> 4
     | Some s \<Rightarrow> if std_ceiling s then 3 else if std_base s = BASE_S2 then 2 else 1)"

definition more_demanding :: "(string \<times> standard option) list \<Rightarrow> string \<times> standard option" where
  "more_demanding cells = foldl (\<lambda>best cand. if demand (snd best) \<le> demand (snd cand) then cand else best) (hd cells) (tl cells)"

subsection \<open>The entry decision\<close>

record calibration =
  cb_approver :: string
  cb_reason :: string
  cb_event_id :: string

record entry =
  en_code :: string
  en_reason_code :: string
  en_needs :: "string list"
  en_standard :: "standard option"
  en_cells :: "(string \<times> string \<times> bool) list"
  en_calibration :: "calibration option"
  en_override_by :: string

definition enters :: "entry \<Rightarrow> bool" where
  "enters e \<longleftrightarrow> en_code e = []"

definition entry_arm :: "entry \<Rightarrow> string" where
  "entry_arm e = (case en_standard e of None \<Rightarrow> [] | Some s \<Rightarrow> st_arm s)"

definition cells_view :: "(string \<times> standard option) list \<Rightarrow> (string \<times> string \<times> bool) list" where
  "cells_view cells = map (\<lambda>(tier, so). (tier, (case so of None \<Rightarrow> [] | Some s \<Rightarrow> st_arm s),
     (case so of None \<Rightarrow> False | Some s \<Rightarrow> std_ceiling s))) cells"

definition stop_entry :: "string \<Rightarrow> string \<Rightarrow> string list \<Rightarrow> standard option \<Rightarrow> (string \<times> string \<times> bool) list \<Rightarrow> entry" where
  "stop_entry code reason_code needed so cells = \<lparr>en_code = code, en_reason_code = reason_code, en_needs = needed,
     en_standard = so, en_cells = cells, en_calibration = None, en_override_by = []\<rparr>"

definition enter :: "standard option \<Rightarrow> (string \<times> string \<times> bool) list \<Rightarrow> string \<Rightarrow> entry" where
  "enter so cells override_by = \<lparr>en_code = [], en_reason_code = [], en_needs = [], en_standard = so, en_cells = cells,
     en_calibration = None, en_override_by = override_by\<rparr>"

record entry_request =
  eq_capability_class :: string
  eq_size :: string
  eq_agreement_passed :: bool
  eq_missing_slots :: "string list"
  eq_person_test :: bool
  eq_calibration :: "calibration option"
  eq_require_signed_cell :: bool
  eq_override_by :: string
  eq_author :: "string option"
  eq_taxonomy :: string
  eq_org_class :: string

text \<open>The stop before the sign-off clause, if any.\<close>

definition context_stop :: "entry_request \<Rightarrow> standard option \<Rightarrow> (string \<times> string \<times> bool) list \<Rightarrow> entry option" where
  "context_stop q so cells = (case so of
     None \<Rightarrow> Some (stop_entry STOP_NO_PROVEN_STANDARD REASON_NONE [] None cells)
   | Some s \<Rightarrow>
       if std_ceiling s then Some (stop_entry STOP_NO_PROVEN_STANDARD REASON_CEILING [] so cells)
       else if std_base s = BASE_S1 \<and> eq_missing_slots q \<noteq> []
         then Some (stop_entry STOP_NEEDS_CONTEXT BASE_S1 (eq_missing_slots q) so cells)
       else if std_base s = BASE_S1 \<and> eq_author q \<noteq> None \<and> arm_author (st_arm s) \<noteq> [] \<and> eq_author q \<noteq> Some (arm_author (st_arm s))
         then Some (stop_entry STOP_NEEDS_CONTEXT BASE_S1
           [NEED_FAILING_TEST @ '' written by '' @ arm_author (st_arm s) @ '', the standard'' @ [CHR 0x27] @ ''s test author''] so cells)
       else if std_base s = BASE_S2 \<and> \<not> eq_person_test q
         then Some (stop_entry STOP_NEEDS_CONTEXT BASE_S2 [NEED_FAILING_TEST] so cells)
       else None)"

definition read_cells :: "standard_reader \<Rightarrow> entry_request \<Rightarrow> string list \<Rightarrow> (string \<times> standard option) list" where
  "read_cells standard_for q sizes =
     map (\<lambda>s. (s, standard_for (class_cell (eq_capability_class q) s (eq_taxonomy q) (eq_org_class q)))) sizes"

text \<open>The decision over the cells the size rule read.\<close>

definition decide_read :: "entry_request \<Rightarrow> (string \<times> standard option) list \<Rightarrow> entry" where
  "decide_read q cells_read =
     (let cells = cells_view cells_read; so = snd (more_demanding cells_read)
      in case context_stop q so cells of
        Some stop \<Rightarrow>
          (case eq_calibration q of
             Some c \<Rightarrow> if en_code stop \<in> set CALIBRATABLE
               then (enter so cells [])\<lparr>en_reason_code := en_code stop, en_calibration := Some c\<rparr> else stop
           | None \<Rightarrow> stop)
      | None \<Rightarrow>
          if eq_require_signed_cell q \<and> list_ex (\<lambda>(tier, st). \<not> standard_signed st) cells_read
          then if eq_override_by q = [] then stop_entry STOP_UNSIGNED_CELL STOP_UNSIGNED_CELL [] so cells
               else enter so cells (eq_override_by q)
          else enter so cells [])"

definition decide_entry :: "standard_reader \<Rightarrow> entry_request \<Rightarrow> entry result" where
  "decide_entry standard_for q =
     (if eq_size q = SIZE_UNSIZED \<or> eq_size q \<notin> set SIZE_TIER_NAMES
      then Inr (stop_entry STOP_UNSIZED STOP_UNSIZED [] None [])
      else bind_result (sizes_to_read (eq_size q) (eq_agreement_passed q)) (\<lambda>sizes.
        if SIZE_GRANULARIZE \<in> set sizes
        then Inr (stop_entry STOP_GRANULARIZE STOP_GRANULARIZE [] None (map (\<lambda>s. (s, [], False)) sizes))
        else Inr (decide_read q (read_cells standard_for q sizes))))"

subsection \<open>The licence of a build\<close>

record licence =
  lc_code :: string
  lc_cell :: cell_ref
  lc_standard :: "standard option"
  lc_estimate :: string
  lc_measured :: string

definition licensed :: "licence \<Rightarrow> bool" where
  "licensed l \<longleftrightarrow> lc_code l = []"

definition licenses_arm :: "standard option \<Rightarrow> string \<Rightarrow> bool" where
  "licenses_arm so context_arm = (case so of None \<Rightarrow> False | Some s \<Rightarrow> std_licenses s \<and> st_arm s = context_arm)"

type_synonym rung = "string \<times> string \<times> string"

definition licensing_rungs :: "string \<Rightarrow> string \<Rightarrow> rung list \<Rightarrow> string \<Rightarrow> standard_reader \<Rightarrow> rung list" where
  "licensing_rungs capability_class tier rungs context_arm standard_for =
     filter (\<lambda>(builder, model, provider).
       licenses_arm (standard_for (own_cell capability_class tier builder model context_arm provider)) context_arm) rungs"

definition larger_than_estimate :: "string \<Rightarrow> string \<Rightarrow> bool" where
  "larger_than_estimate estimate measured \<longleftrightarrow> estimate \<in> set SIZE_TIER_NAMES \<and> measured \<in> set SIZE_TIER_NAMES \<and>
     index_of estimate SIZE_TIER_NAMES < index_of measured SIZE_TIER_NAMES"

definition own_cell_licence :: "string \<Rightarrow> string \<Rightarrow> string \<Rightarrow> rung \<Rightarrow> string \<Rightarrow> standard_reader \<Rightarrow> licence" where
  "own_cell_licence capability_class estimate measured r context_arm standard_for =
     (case r of (builder, model, provider) \<Rightarrow>
      let cell = own_cell capability_class measured builder model context_arm provider; so = standard_for cell
      in \<lparr>lc_code = (if licenses_arm so context_arm then []
            else if larger_than_estimate estimate measured then STOP_SIZE_EXCEEDS_LICENCE
            else STOP_CELL_NOT_LICENSED),
          lc_cell = cell, lc_standard = so, lc_estimate = estimate, lc_measured = measured\<rparr>)"

record readers =
  rs_standard_for :: standard_reader
  rs_agreement_passed :: bool

definition NO_READINGS :: readers where
  "NO_READINGS = \<lparr>rs_standard_for = (\<lambda>cell. None), rs_agreement_passed = False\<rparr>"

definition points_agreement_passed :: "string \<Rightarrow> bool" where
  "points_agreement_passed repo = False"

definition gate_for :: "backlog_item \<Rightarrow> readiness \<Rightarrow> readers \<Rightarrow> bool \<Rightarrow> calibration option \<Rightarrow> bool \<Rightarrow> string \<Rightarrow>
    string option \<Rightarrow> entry result" where
  "gate_for i r rs person_test cal require_signed_cell override_by author =
     decide_entry (rs_standard_for rs)
       \<lparr>eq_capability_class = bi_capability_class i, eq_size = bi_size_estimate i, eq_agreement_passed = rs_agreement_passed rs,
        eq_missing_slots = map gp_slot (blocking_gaps r), eq_person_test = person_test, eq_calibration = cal,
        eq_require_signed_cell = require_signed_cell, eq_override_by = override_by, eq_author = author,
        eq_taxonomy = dget (bi_labels i) ''taxonomy'' [], eq_org_class = dget (bi_labels i) ''org_class'' []\<rparr>"

end
