(* ===== verification/Entry_Gate_Correct.thy ===== *)
theory Entry_Gate_Correct
  imports Entry_Gate Readiness_Correct
begin

section \<open>Correctness of the entry gate\<close>

text \<open>
  When an item enters, what a calibration grant and an override can change, that the applied standard is the
  most demanding of those read, and when a delivery is licensed.
\<close>

subsection \<open>The most demanding cell\<close>

lemma more_demanding_cons:
  "more_demanding [c] = c"
  "more_demanding (c # d # cs) = more_demanding ((if demand (snd c) \<le> demand (snd d) then d else c) # cs)"
  by (simp_all add: more_demanding_def)

lemma more_demanding_max:
  "cs \<noteq> [] \<Longrightarrow> more_demanding cs \<in> set cs \<and> (\<forall>c\<in>set cs. demand (snd c) \<le> demand (snd (more_demanding cs)))"
proof (induction "length cs" arbitrary: cs)
  case (Suc n)
  then obtain c cs' where cs: "cs = c # cs'" by (cases cs) auto
  show ?case
  proof (cases cs')
    case Nil
    then show ?thesis by (simp add: cs more_demanding_cons)
  next
    case (Cons d ds)
    let ?b = "if demand (snd c) \<le> demand (snd d) then d else c"
    have "n = length (?b # ds)" using Suc(2) by (simp add: cs Cons)
    from Suc(1) [OF this] show ?thesis by (auto simp: cs Cons more_demanding_cons split: if_splits)
  qed
qed simp

lemma demand_certifies:
  assumes "so = None \<or> (\<exists>s. so = Some s \<and> Standard s = Inr s)"
  shows "demand so \<le> 2 \<longleftrightarrow> (\<exists>s. so = Some s \<and> std_licenses s)"
  using assms by (auto simp: demand_def std_ceiling_def std_licenses_def std_base_def Standard_def base_words split: option.splits if_splits)

lemma read_certifies:
  assumes "cs \<noteq> []" "\<forall>c\<in>set cs. snd c = None \<or> (\<exists>s. snd c = Some s \<and> Standard s = Inr s)"
  shows "(\<exists>s. snd (more_demanding cs) = Some s \<and> std_licenses s) \<longleftrightarrow> (\<forall>c\<in>set cs. \<exists>s. snd c = Some s \<and> std_licenses s)"
proof -
  let ?m = "more_demanding cs"
  have m: "?m \<in> set cs" "\<And>c. c \<in> set cs \<Longrightarrow> demand (snd c) \<le> demand (snd ?m)"
    using more_demanding_max [OF assms(1)] by blast+
  have d: "demand (snd c) \<le> 2 \<longleftrightarrow> (\<exists>s. snd c = Some s \<and> std_licenses s)" if "c \<in> set cs" for c
    using assms(2) that by (intro demand_certifies) blast
  show ?thesis
  proof
    assume "\<exists>s. snd ?m = Some s \<and> std_licenses s"
    then have "demand (snd ?m) \<le> 2" using d [OF m(1)] by blast
    then show "\<forall>c\<in>set cs. \<exists>s. snd c = Some s \<and> std_licenses s" using d m(2) order_trans by blast
  qed (use m(1) in blast)
qed

subsection \<open>The size rule\<close>

lemma tiers: "t \<in> set SIZE_TIER_NAMES \<longleftrightarrow> t \<in> {''XS'', ''S'', ''M'', ''L'', ''XL''}"
  by (simp add: SIZE_TIER_NAMES_def)

text \<open>The sizes read when none of them is the tier that is split.\<close>

definition read_sizes :: "entry_request \<Rightarrow> string list" where
  "read_sizes q = (if eq_agreement_passed q then [eq_size q] else [eq_size q, next_size (eq_size q)])"

lemma sizes_split: "t \<in> set SIZE_TIER_NAMES \<Longrightarrow>
    (SIZE_GRANULARIZE \<in> set (if eq_agreement_passed q \<or> t = SIZE_GRANULARIZE then [t] else [t, next_size t])) \<longleftrightarrow>
      t = ''XL'' \<or> (t = ''L'' \<and> \<not> eq_agreement_passed q)"
  unfolding tiers by (auto simp: SIZE_GRANULARIZE_def next_size_def SIZE_TIER_NAMES_def)

definition may_be_read :: "entry_request \<Rightarrow> bool" where
  "may_be_read q \<longleftrightarrow> eq_size q \<in> set SIZE_TIER_NAMES \<and> eq_size q \<noteq> ''XL'' \<and> (eq_size q = ''L'' \<longrightarrow> eq_agreement_passed q)"

lemma decide_entry_cases:
  "decide_entry R q = Inr (if eq_size q \<notin> set SIZE_TIER_NAMES then stop_entry STOP_UNSIZED STOP_UNSIZED [] None []
     else if \<not> may_be_read q then stop_entry STOP_GRANULARIZE STOP_GRANULARIZE [] None
       (map (\<lambda>s. (s, [], False)) (if eq_agreement_passed q \<or> eq_size q = SIZE_GRANULARIZE then [eq_size q] else read_sizes q))
     else decide_read q (read_cells R q (read_sizes q)))"
proof -
  have u: "SIZE_UNSIZED \<notin> set SIZE_TIER_NAMES" by code_simp
  show ?thesis
  proof (cases "eq_size q \<in> set SIZE_TIER_NAMES")
    case False
    then show ?thesis using u by (simp add: decide_entry_def)
  next
    case True
    let ?ss = "if eq_agreement_passed q \<or> eq_size q = SIZE_GRANULARIZE then [eq_size q] else [eq_size q, next_size (eq_size q)]"
    have "eq_size q \<noteq> SIZE_UNSIZED" using u True by metis
    then have "decide_entry R q = Inr (if SIZE_GRANULARIZE \<in> set ?ss
        then stop_entry STOP_GRANULARIZE STOP_GRANULARIZE [] None (map (\<lambda>s. (s, [], False)) ?ss)
        else decide_read q (read_cells R q ?ss))"
      using True by (simp add: decide_entry_def sizes_to_read_def bind_result_def)
    moreover have "SIZE_GRANULARIZE \<in> set ?ss \<longleftrightarrow> \<not> may_be_read q"
      unfolding sizes_split [OF True] may_be_read_def using True by blast
    ultimately show ?thesis using True by (auto simp: read_sizes_def may_be_read_def SIZE_GRANULARIZE_def)
  qed
qed

subsection \<open>The decision over what was read\<close>

text \<open>The ticket carries what the arm of a certifying standard needs.\<close>

definition context_present :: "entry_request \<Rightarrow> standard \<Rightarrow> bool" where
  "context_present q s \<longleftrightarrow> (std_base s = BASE_S1 \<longrightarrow> eq_missing_slots q = [] \<and>
      (eq_author q = None \<or> arm_author (st_arm s) = [] \<or> eq_author q = Some (arm_author (st_arm s)))) \<and>
    (std_base s = BASE_S2 \<longrightarrow> eq_person_test q)"

lemma context_stop_None:
  "context_stop q so cells = None \<longleftrightarrow> (\<exists>s. so = Some s \<and> \<not> std_ceiling s \<and> context_present q s)"
  by (auto simp: context_stop_def context_present_def split: option.splits if_splits)

lemma context_stop_code: "context_stop q so cells = Some e \<Longrightarrow>
    en_code e \<in> set CALIBRATABLE \<and> en_calibration e = None \<and> en_override_by e = [] \<and> en_standard e = so"
  by (auto simp: context_stop_def stop_entry_def CALIBRATABLE_def split: option.splits if_splits)

lemma calibratable_word: "c \<in> set CALIBRATABLE \<Longrightarrow> c \<noteq> [] \<and> c \<noteq> STOP_UNSIGNED_CELL"
  by (auto simp: CALIBRATABLE_def stop_words)

lemma decide_read_stop:
  assumes "context_stop q (snd (more_demanding cs)) (cells_view cs) = Some st"
  shows "decide_read q cs = (case eq_calibration q of None \<Rightarrow> st
    | Some c \<Rightarrow> (enter (snd (more_demanding cs)) (cells_view cs) [])\<lparr>en_reason_code := en_code st, en_calibration := Some c\<rparr>)"
  using context_stop_code [OF assms] assms by (simp add: decide_read_def Let_def split: option.split)

lemma decide_read_go:
  assumes "context_stop q (snd (more_demanding cs)) (cells_view cs) = None"
  shows "decide_read q cs = (if eq_require_signed_cell q \<and> (\<exists>c\<in>set cs. \<not> standard_signed (snd c))
    then if eq_override_by q = [] then stop_entry STOP_UNSIGNED_CELL STOP_UNSIGNED_CELL [] (snd (more_demanding cs)) (cells_view cs)
      else enter (snd (more_demanding cs)) (cells_view cs) (eq_override_by q)
    else enter (snd (more_demanding cs)) (cells_view cs) [])"
  using assms by (simp add: decide_read_def Let_def list_ex_iff split_beta)

lemma decide_read_signed:
  assumes "context_stop q (snd (more_demanding cs)) (cells_view cs) = None" "enters (decide_read q cs)"
  shows "en_standard (decide_read q cs) = snd (more_demanding cs) \<and>
    (eq_require_signed_cell q \<longrightarrow> (\<forall>c\<in>set cs. standard_signed (snd c)) \<or>
       (en_override_by (decide_read q cs) \<noteq> [] \<and> en_override_by (decide_read q cs) = eq_override_by q))"
proof (cases "eq_require_signed_cell q \<and> (\<exists>c\<in>set cs. \<not> standard_signed (snd c))")
  case True
  then show ?thesis using assms(2) unfolding decide_read_go [OF assms(1)]
    by (simp add: enters_def stop_entry_def enter_def stop_words split: if_splits)
next
  case False
  then show ?thesis unfolding decide_read_go [OF assms(1)] if_not_P [OF False] by (auto simp: enter_def)
qed

lemma decide_read_enters:
  "enters (decide_read q cs) \<longleftrightarrow>
     (case context_stop q (snd (more_demanding cs)) (cells_view cs) of
        Some e \<Rightarrow> eq_calibration q \<noteq> None
      | None \<Rightarrow> eq_require_signed_cell q \<longrightarrow> eq_override_by q \<noteq> [] \<or> (\<forall>c\<in>set cs. standard_signed (snd c)))"
  by (auto simp: decide_read_def Let_def enters_def enter_def stop_entry_def stop_words list_ex_iff Bex_def split_beta
      dest!: context_stop_code calibratable_word split: option.splits)

lemma not_ceiling_licenses: "Standard s = Inr s \<Longrightarrow> std_ceiling s \<longleftrightarrow> \<not> std_licenses s"
  by (auto simp: std_ceiling_def std_licenses_def std_base_def Standard_def base_words)

lemma read_cells_shaped:
  assumes "\<And>c s. R c = Some s \<Longrightarrow> Standard s = Inr s"
  shows "\<forall>c\<in>set (read_cells R q ts). snd c = None \<or> (\<exists>s. snd c = Some s \<and> Standard s = Inr s)"
  using assms unfolding read_cells_def set_map ball_simps snd_conv by (metis option.exhaust)

lemma read_cells_nonempty: "read_cells R q (read_sizes q) \<noteq> []"
  by (simp add: read_cells_def read_sizes_def)

lemma applied_shaped:
  assumes "\<And>c s. R c = Some s \<Longrightarrow> Standard s = Inr s" "snd (more_demanding (read_cells R q (read_sizes q))) = Some s"
  shows "Standard s = Inr s"
proof -
  have "more_demanding (read_cells R q (read_sizes q)) \<in> set (read_cells R q (read_sizes q))"
    using more_demanding_max [OF read_cells_nonempty] by blast
  then obtain c where "snd (more_demanding (read_cells R q (read_sizes q))) = R c"
    unfolding read_cells_def set_map by (metis (no_types, lifting) imageE snd_conv)
  then show ?thesis using assms by metis
qed

lemma context_stop_request:
  "context_stop (q\<lparr>eq_calibration := c, eq_override_by := a\<rparr>) so cells = context_stop q so cells"
  by (cases q) (simp only: context_stop_def entry_request.simps)

lemma context_stop_licenses:
  assumes "\<And>s. so = Some s \<Longrightarrow> Standard s = Inr s"
  shows "context_stop q so cells = None \<longleftrightarrow> (\<exists>s. so = Some s \<and> std_licenses s \<and> context_present q s)"
  using assms not_ceiling_licenses by (auto simp: context_stop_None)

subsection \<open>Properties\<close>

text \<open>
  The exact condition for entering, before any spend: the item is sized and not of a size that is split; and
  either the applied standard certifies and the ticket carries what its arm needs, and then, where a signed cell
  is required, every cell read is signed or an approver overrides; or an approver funded a calibration build.
\<close>

theorem enters_exactly_when:
  assumes "\<And>c s. R c = Some s \<Longrightarrow> Standard s = Inr s" "decide_entry R q = Inr e"
  shows "enters e \<longleftrightarrow> eq_size q \<in> {''XS'', ''S'', ''M'', ''L''} \<and> (eq_size q = ''L'' \<longrightarrow> eq_agreement_passed q) \<and>
    (if \<exists>s. snd (more_demanding (read_cells R q (read_sizes q))) = Some s \<and> std_licenses s \<and> context_present q s
     then eq_require_signed_cell q \<longrightarrow> eq_override_by q \<noteq> [] \<or> (\<forall>c\<in>set (read_cells R q (read_sizes q)). standard_signed (snd c))
     else eq_calibration q \<noteq> None)"
proof -
  let ?cs = "read_cells R q (read_sizes q)"
  have m: "may_be_read q \<longleftrightarrow> eq_size q \<in> {''XS'', ''S'', ''M'', ''L''} \<and> (eq_size q = ''L'' \<longrightarrow> eq_agreement_passed q)"
    unfolding may_be_read_def tiers by auto
  have n: "\<not> enters (stop_entry STOP_UNSIZED r ns so cs)" "\<not> enters (stop_entry STOP_GRANULARIZE r ns so cs)" for r ns so cs
    by (simp_all add: enters_def stop_entry_def stop_words)
  have t: "may_be_read q \<Longrightarrow> eq_size q \<in> set SIZE_TIER_NAMES" by (simp add: may_be_read_def)
  have e: "enters e \<longleftrightarrow> may_be_read q \<and> enters (decide_read q ?cs)"
  proof (cases "may_be_read q")
    case True
    then show ?thesis using assms(2) t unfolding decide_entry_cases by simp
  next
    case False
    then show ?thesis using assms(2) n unfolding decide_entry_cases by (cases "eq_size q \<in> set SIZE_TIER_NAMES") auto
  qed
  have c: "context_stop q (snd (more_demanding ?cs)) (cells_view ?cs) = None \<longleftrightarrow>
      (\<exists>s. snd (more_demanding ?cs) = Some s \<and> std_licenses s \<and> context_present q s)"
    by (rule context_stop_licenses) (rule applied_shaped [OF assms(1)])
  let ?P = "\<exists>s. snd (more_demanding ?cs) = Some s \<and> std_licenses s \<and> context_present q s"
  have d: "enters (decide_read q ?cs) \<longleftrightarrow> (if ?P
     then eq_require_signed_cell q \<longrightarrow> eq_override_by q \<noteq> [] \<or> (\<forall>c\<in>set ?cs. standard_signed (snd c))
     else eq_calibration q \<noteq> None)"
  proof (cases "context_stop q (snd (more_demanding ?cs)) (cells_view ?cs)")
    case None
    then have p: ?P using c by blast
    show ?thesis unfolding decide_read_enters if_P [OF p] None option.case by (rule refl)
  next
    case (Some st)
    then have p: "\<not> ?P" using c by force
    show ?thesis unfolding decide_read_enters if_not_P [OF p] Some option.case by (rule refl)
  qed
  show ?thesis unfolding e d m conj_assoc by (rule refl)
qed

lemma entry_standard:
  assumes "\<And>c s. R c = Some s \<Longrightarrow> Standard s = Inr s" "decide_entry R q = Inr e" "enters e" "en_calibration e = None"
  shows "\<exists>s. en_standard e = Some s \<and> std_licenses s \<and> context_present q s \<and>
    (\<forall>c\<in>set (read_cells R q (read_sizes q)). \<exists>t. snd c = Some t \<and> std_licenses t \<and> demand (Some t) \<le> demand (Some s)) \<and>
    (eq_require_signed_cell q \<longrightarrow> (\<forall>c\<in>set (read_cells R q (read_sizes q)). standard_signed (snd c)) \<or>
       (en_override_by e \<noteq> [] \<and> en_override_by e = eq_override_by q))"
proof -
  let ?cs = "read_cells R q (read_sizes q)" and ?so = "snd (more_demanding (read_cells R q (read_sizes q)))"
  have e: "e = decide_read q ?cs"
  proof (cases "may_be_read q")
    case True
    then show ?thesis using assms(2) unfolding decide_entry_cases by (simp add: may_be_read_def)
  next
    case False
    then show ?thesis using assms(2,3) unfolding decide_entry_cases
      by (cases "eq_size q \<in> set SIZE_TIER_NAMES") (auto simp: enters_def stop_entry_def stop_words)
  qed
  have m: "more_demanding ?cs \<in> set ?cs" "\<forall>c\<in>set ?cs. demand (snd c) \<le> demand ?so"
    using more_demanding_max [OF read_cells_nonempty] by blast+
  have c: "context_stop q ?so (cells_view ?cs) = None"
  proof (cases "context_stop q ?so (cells_view ?cs)")
    case (Some st)
    have "en_code st \<noteq> []" using context_stop_code [OF Some] calibratable_word by blast
    then have False
      using assms(3,4) unfolding e decide_read_stop [OF Some] by (cases "eq_calibration q") (simp_all add: enters_def)
    then show ?thesis ..
  qed
  then obtain s where s: "?so = Some s" "std_licenses s" "context_present q s"
    using iffD1 [OF context_stop_licenses c] applied_shaped [of R q] assms(1) by meson
  have "\<forall>c\<in>set ?cs. snd c = None \<or> (\<exists>s. snd c = Some s \<and> Standard s = Inr s)"
    by (rule read_cells_shaped) (rule assms(1))
  from iffD1 [OF read_certifies [OF read_cells_nonempty this]] s
  have l: "\<forall>c\<in>set ?cs. \<exists>t. snd c = Some t \<and> std_licenses t" by blast
  have all: "\<forall>c\<in>set ?cs. \<exists>t. snd c = Some t \<and> std_licenses t \<and> demand (Some t) \<le> demand (Some s)"
  proof
    fix c assume "c \<in> set ?cs"
    moreover then obtain t where "snd c = Some t" "std_licenses t" using l by blast
    ultimately show "\<exists>t. snd c = Some t \<and> std_licenses t \<and> demand (Some t) \<le> demand (Some s)"
      using m(2) s(1) by (intro exI [of _ t]) force
  qed
  have "en_standard e = Some s" "eq_require_signed_cell q \<longrightarrow> (\<forall>c\<in>set ?cs. standard_signed (snd c)) \<or>
       (en_override_by e \<noteq> [] \<and> en_override_by e = eq_override_by q)"
    using decide_read_signed [OF c] s(1) assms(3) unfolding e by simp_all
  then show ?thesis using s all by (intro exI [of _ s]) simp
qed

text \<open>
  C19. An item that enters without a calibration grant does so on a proven, certifying standard, the most demanding of
  the cells read, each of which is proven and certifying; its context is on the ticket; and every cell read is
  signed unless none need be or a named approver overrode.
\<close>

theorem entry_rests_on_standard:
  assumes "\<And>c s. R c = Some s \<Longrightarrow> Standard s = Inr s" "decide_entry R q = Inr e" "enters e" "en_calibration e = None"
  shows "\<exists>s. en_standard e = Some s \<and> std_licenses s \<and> context_present q s \<and>
    (\<forall>c\<in>set (read_cells R q (read_sizes q)). \<exists>t. snd c = Some t \<and> std_licenses t \<and> demand (Some t) \<le> demand (Some s)) \<and>
    (eq_require_signed_cell q \<longrightarrow> (\<forall>c\<in>set (read_cells R q (read_sizes q)). standard_signed (snd c)) \<or>
       (en_override_by e \<noteq> [] \<and> en_override_by e = eq_override_by q))"
  by (rule entry_standard [OF assms])

text \<open>
  What an approver can change: a calibration grant turns exactly the two calibratable stops into a calibration
  entry, and an override turns exactly the \<open>unsigned_cell\<close> stop into an entry; every other decision is the one
  without them.
\<close>

theorem grants_lift_one_clause:
  assumes "decide_entry R (q\<lparr>eq_calibration := None, eq_override_by := []\<rparr>) = Inr e0" "decide_entry R q = Inr e"
  shows "(en_calibration e \<noteq> None \<longleftrightarrow> eq_calibration q \<noteq> None \<and> en_code e0 \<in> set CALIBRATABLE) \<and>
    (en_override_by e \<noteq> [] \<longleftrightarrow> eq_override_by q \<noteq> [] \<and> en_code e0 = STOP_UNSIGNED_CELL) \<and>
    (en_calibration e \<noteq> None \<longrightarrow> enters e \<and> en_calibration e = eq_calibration q \<and> en_reason_code e = en_code e0) \<and>
    (en_override_by e \<noteq> [] \<longrightarrow> enters e) \<and>
    (en_calibration e = None \<longrightarrow> en_override_by e = [] \<longrightarrow> e = e0)"
proof -
  let ?q = "q\<lparr>eq_calibration := None, eq_override_by := []\<rparr>" and ?cs = "read_cells R q (read_sizes q)"
  have same: "read_sizes ?q = read_sizes q" "read_cells R ?q ts = read_cells R q ts" "may_be_read ?q = may_be_read q"
    for ts unfolding read_sizes_def read_cells_def may_be_read_def by simp_all
  note same = same context_stop_request
  show ?thesis
  proof (cases "may_be_read q")
    case False
    then show ?thesis using assms unfolding decide_entry_cases same
      by (auto simp: stop_entry_def enters_def CALIBRATABLE_def stop_words split: if_splits)
  next
    case True
    then have t: "eq_size q \<in> set SIZE_TIER_NAMES" by (simp add: may_be_read_def)
    have e0: "e0 = decide_read ?q ?cs" and e: "e = decide_read q ?cs"
      using assms True t unfolding decide_entry_cases same by simp_all
    show ?thesis
    proof (cases "context_stop q (snd (more_demanding ?cs)) (cells_view ?cs)")
      case None
      then have None': "context_stop ?q (snd (more_demanding ?cs)) (cells_view ?cs) = None" by (simp only: same)
      show ?thesis unfolding e0 e decide_read_go [OF None] decide_read_go [OF None']
        by (auto simp: enter_def enters_def stop_entry_def CALIBRATABLE_def stop_words)
    next
      case (Some st)
      note c = context_stop_code [OF Some]
      have w: "en_code st \<noteq> STOP_UNSIGNED_CELL" using c calibratable_word by blast
      have Some': "context_stop ?q (snd (more_demanding ?cs)) (cells_view ?cs) = Some st" using Some by (simp only: same)
      show ?thesis using c w unfolding e0 e decide_read_stop [OF Some] decide_read_stop [OF Some']
        by (cases "eq_calibration q") (auto simp: enter_def enters_def)
    qed
  qed
qed

text \<open>
  A delivery is licensed exactly by a certifying standard of the change's own cell (class, measured size, builder,
  model, provider and arm) that is the arm the build carried; a rung licenses exactly when its own cell does.
\<close>

theorem licence_is_own_arm:
  "(licensed (own_cell_licence c est measured r context_arm R) \<longleftrightarrow>
      (\<exists>s. R (own_cell c measured (fst r) (fst (snd r)) context_arm (snd (snd r))) = Some s \<and> std_licenses s \<and> st_arm s = context_arm)) \<and>
    (r \<in> set (licensing_rungs c measured rs context_arm R) \<longleftrightarrow> r \<in> set rs \<and> licensed (own_cell_licence c est measured r context_arm R)) \<and>
    (lc_code (own_cell_licence c est measured r context_arm R) = STOP_SIZE_EXCEEDS_LICENCE \<longleftrightarrow>
      \<not> licensed (own_cell_licence c est measured r context_arm R) \<and> larger_than_estimate est measured)"
  by (cases r) (auto simp: licensed_def own_cell_licence_def licensing_rungs_def licenses_arm_def stop_words Let_def split: option.splits)

subsection \<open>Witnesses\<close>

text \<open>The \<open>S\<close> cell is signed, the \<open>M\<close> cell is not; both are proven on \<open>S2\<close>.\<close>

definition demo_reader :: standard_reader where
  "demo_reader c = Some \<lparr>st_arm = ''S2'', st_signed = (cr_size c = ''S''), st_reading_id = ''r''\<rparr>"

definition demo_request :: entry_request where
  "demo_request = \<lparr>eq_capability_class = ''bug.fix'', eq_size = ''S'', eq_agreement_passed = False, eq_missing_slots = [],
     eq_person_test = True, eq_calibration = None, eq_require_signed_cell = True, eq_override_by = ''ann'', eq_author = None,
     eq_taxonomy = [], eq_org_class = []\<rparr>"

lemma demo_reader_shaped: "demo_reader c = Some s \<Longrightarrow> Standard s = Inr s"
  by (auto simp: demo_reader_def Standard_def base_words arm_base_def split_once_def Let_def)

lemma demo_decision: "decide_entry demo_reader demo_request = Inr (enter (demo_reader (class_cell ''bug.fix'' ''M'' [] []))
    [(''S'', ''S2'', False), (''M'', ''S2'', False)] ''ann'')"
  by code_simp

lemma enters_exactly_when_witness:
  "enters (enter (demo_reader (class_cell ''bug.fix'' ''M'' [] [])) [(''S'', ''S2'', False), (''M'', ''S2'', False)] ''ann'') \<longleftrightarrow>
    eq_size demo_request \<in> {''XS'', ''S'', ''M'', ''L''} \<and> (eq_size demo_request = ''L'' \<longrightarrow> eq_agreement_passed demo_request) \<and>
    (if \<exists>s. snd (more_demanding (read_cells demo_reader demo_request (read_sizes demo_request))) = Some s \<and> std_licenses s \<and>
        context_present demo_request s
     then eq_require_signed_cell demo_request \<longrightarrow> eq_override_by demo_request \<noteq> [] \<or>
       (\<forall>c\<in>set (read_cells demo_reader demo_request (read_sizes demo_request)). standard_signed (snd c))
     else eq_calibration demo_request \<noteq> None)"
  by (rule enters_exactly_when [OF demo_reader_shaped demo_decision])

lemma entry_rests_on_standard_witness:
  "\<exists>s. demo_reader (class_cell ''bug.fix'' ''M'' [] []) = Some s \<and> std_licenses s \<and> context_present demo_request s"
proof -
  let ?e = "enter (demo_reader (class_cell ''bug.fix'' ''M'' [] [])) [(''S'', ''S2'', False), (''M'', ''S2'', False)] ''ann''"
  have "enters ?e" "en_calibration ?e = None" by (simp_all add: enters_def enter_def)
  then have "\<exists>s. en_standard ?e = Some s \<and> std_licenses s \<and> context_present demo_request s"
    using entry_rests_on_standard [of demo_reader, OF _ demo_decision] demo_reader_shaped by meson
  then show ?thesis by (simp add: enter_def)
qed

lemma grants_lift_one_clause_witness:
  "decide_entry demo_reader (demo_request\<lparr>eq_calibration := None, eq_override_by := []\<rparr>) =
      Inr (stop_entry STOP_UNSIGNED_CELL STOP_UNSIGNED_CELL [] (demo_reader (class_cell ''bug.fix'' ''M'' [] []))
        [(''S'', ''S2'', False), (''M'', ''S2'', False)]) \<and>
    en_calibration (enter (demo_reader (class_cell ''bug.fix'' ''M'' [] [])) [(''S'', ''S2'', False), (''M'', ''S2'', False)] ''ann'') = None"
proof -
  have d: "decide_entry demo_reader (demo_request\<lparr>eq_calibration := None, eq_override_by := []\<rparr>) =
      Inr (stop_entry STOP_UNSIGNED_CELL STOP_UNSIGNED_CELL [] (demo_reader (class_cell ''bug.fix'' ''M'' [] []))
        [(''S'', ''S2'', False), (''M'', ''S2'', False)])" by code_simp
  from grants_lift_one_clause [OF d demo_decision] d show ?thesis by (simp add: demo_request_def)
qed

end
