(* ===== verification/Test_First.thy ===== *)
theory Test_First
  imports Readiness
begin

section \<open>Test-first authoring and the RED proof (\<open>crb/factory/testfirst.py\<close>)\<close>

text \<open>
  When two identities are one, what an authored test is, and what counts as a RED proof. The pricing table's
  keys and the SHA-256 of a text are arguments. A test run is the record \<open>red_run\<close> of what the runner
  reported; the worktree, the file write and the runner themselves are not modelled.
\<close>

subsection \<open>Model identity\<close>

definition OPERATOR_AUTHOR_PREFIX :: string where "OPERATOR_AUTHOR_PREFIX = ''operator:''"
definition MODEL_FAMILY_ALIASES :: "string list" where "MODEL_FAMILY_ALIASES = [''opus'', ''sonnet'', ''haiku'']"
definition ID_BOUNDARY :: string where "ID_BOUNDARY = ''-_.:''"

text \<open>\<open>\[[^\]]*\]$\<close>, replaced by nothing: the leftmost \<open>[\<close> whose next \<open>]\<close> ends the string; \<open>$\<close> also holds before a
  final newline, which \<open>strip\<close> has removed.\<close>

fun drop_context_suffix :: "string \<Rightarrow> string" where
  "drop_context_suffix [] = []"
| "drop_context_suffix (c # s) =
     (if c = CHR ''['' \<and> s \<noteq> [] \<and> last s = CHR '']'' \<and> CHR '']'' \<notin> set (butlast s) then [] else c # drop_context_suffix s)"

definition last_segment :: "string \<Rightarrow> string" where
  "last_segment m = last (split_on CHR ''/'' m)"

definition longest_first :: "string list \<Rightarrow> string list" where
  "longest_first ks = rev (sort_key length (rev ks))"

definition canonical_model :: "string list \<Rightarrow> string \<Rightarrow> string" where
  "canonical_model keys model =
     (let m0 = py_strip (fst (split_once CHR ''@'' (py_lower (py_strip model))));
          m = last_segment (py_strip (drop_context_suffix m0))
      in if m \<in> set MODEL_FAMILY_ALIASES then ''family:'' @ m
         else case find (\<lambda>key. m = key \<or> (starts_with m key \<and> length key < length m \<and> m ! length key \<in> set ID_BOUNDARY))
             (longest_first (map py_lower keys)) of
           Some key \<Rightarrow> key | None \<Rightarrow> m)"

definition remove_prefix :: "string \<Rightarrow> string \<Rightarrow> string" where
  "remove_prefix p s = (if starts_with s p then drop (length p) s else s)"

definition family_member :: "string \<Rightarrow> string \<Rightarrow> bool" where
  "family_member fam other \<longleftrightarrow> starts_with fam ''family:'' \<and>
     remove_prefix ''family:'' fam \<in> set (split_on CHR ''-'' (map (\<lambda>c. if c = CHR ''_'' then CHR ''-'' else c) (remove_prefix ''family:'' other)))"

definition same_model :: "string list \<Rightarrow> string \<Rightarrow> string \<Rightarrow> bool" where
  "same_model keys a b =
     (let ca = canonical_model keys a; cb = canonical_model keys b
      in if ca = [] \<or> cb = [] then False else ca = cb \<or> family_member ca cb \<or> family_member cb ca)"

definition model_half :: "string \<Rightarrow> string" where
  "model_half label_text =
     (let s = py_strip label_text in
      if starts_with (py_lower s) OPERATOR_AUTHOR_PREFIX then []
      else case snd (split_once CHR '':'' s) of None \<Rightarrow> [] | Some m \<Rightarrow> py_strip m)"

definition assert_distinct_identity :: "string list \<Rightarrow> string \<Rightarrow> string \<Rightarrow> unit result" where
  "assert_distinct_identity keys author other =
     (let a = py_lower (py_strip author); b = py_lower (py_strip other); ma = model_half author; mb = model_half other
      in guarded
        [(a = [] \<or> b = [], ValueError ''SameIdentityError: empty''),
         (a = b, ValueError ''SameIdentityError: identity''),
         (ma \<noteq> [] \<and> mb \<noteq> [] \<and> same_model keys ma mb, ValueError ''SameIdentityError: model'')] ())"

subsection \<open>Authored tests\<close>

record authored_test =
  au_path :: string
  au_content :: string
  au_author :: string

definition AuthoredTest :: "authored_test \<Rightarrow> authored_test result" where
  "AuthoredTest a = guarded
     [(py_strip (au_path a) = [] \<or> starts_with (au_path a) ''/'' \<or> starts_with (au_path a) ''..'' \<or>
         ''..'' \<in> set (split_on CHR ''/'' (au_path a)), ValueError ''path''),
      (py_strip (au_author a) = [], ValueError ''author''),
      (py_strip (au_content a) = [], ValueError ''empty'')] a"

definition operator_authored :: "authored_test \<Rightarrow> bool" where
  "operator_authored a \<longleftrightarrow> starts_with (au_author a) OPERATOR_AUTHOR_PREFIX"

definition au_sha256 :: "(string \<Rightarrow> string) \<Rightarrow> authored_test \<Rightarrow> string" where
  "au_sha256 sha a = sha (au_content a)"

record test_author =
  ta_name :: string
  ta_model :: string
  ta_provider :: string

definition author_label :: "test_author \<Rightarrow> string" where
  "author_label t = ta_name t @ '':'' @ ta_model t"

text \<open>The author's own bytes under its own label.\<close>

definition author_test :: "test_author \<Rightarrow> (string \<times> string) result \<Rightarrow> authored_test result" where
  "author_test t wrote = bind_result wrote (\<lambda>(path, content).
     AuthoredTest \<lparr>au_path = path, au_content = content, au_author = author_label t\<rparr>)"

subsection \<open>The RED proof\<close>

record red_proof =
  rp_item_id :: string
  rp_test_path :: string
  rp_test_sha256 :: string
  rp_failing_ids :: "string list"
  rp_base_sha :: string
  rp_target_scope :: "string list"
  rp_author :: string

record red_run =
  rr_timed_out :: bool
  rr_green :: bool
  rr_parse_error :: string
  rr_failing :: "string list"

text \<open>What the worktree and the runner reported while proving.\<close>

record red_scene =
  rc_is_test :: bool
  rc_base_sha :: string
  rc_path_escapes :: bool
  rc_valid_oracle :: bool
  rc_target_scope :: "string list"
  rc_run :: "red_run result"

definition RedProof :: "red_proof \<Rightarrow> red_proof result" where
  "RedProof p = guarded [(rp_failing_ids p = [], ValueError ''NotRed: no failing ids'')] p"

definition not_red :: "string \<Rightarrow> exn" where
  "not_red why = ValueError (''NotRed: '' @ why)"

definition prove_red :: "(string \<Rightarrow> string) \<Rightarrow> backlog_item \<Rightarrow> authored_test \<Rightarrow> red_scene \<Rightarrow> red_proof result" where
  "prove_red sha i a sc =
     (if \<not> rc_is_test sc then Inl (not_red ''not a test path'')
      else if rc_path_escapes sc then Inl (not_red ''path escape'')
      else if \<not> rc_valid_oracle sc then Inl (not_red ''malformed oracle'')
      else case rc_run sc of
          Inl e \<Rightarrow> if e = SandboxUnavailable then Inl SandboxUnavailable else Inl (not_red ''harness error'')
        | Inr run \<Rightarrow>
            if rr_timed_out run then Inl (not_red ''timed out'')
            else if rr_green run then Inl (not_red ''green'')
            else if rr_parse_error run \<noteq> [] \<or> rr_failing run = [] then Inl (not_red ''unattributable'')
            else RedProof \<lparr>rp_item_id = bi_id i, rp_test_path = au_path a, rp_test_sha256 = au_sha256 sha a,
              rp_failing_ids = sort (rr_failing run), rp_base_sha = rc_base_sha sc, rp_target_scope = rc_target_scope sc,
              rp_author = au_author a\<rparr>)"

end
