(* ===== verification/Factory_Evidence.thy ===== *)
theory Factory_Evidence
  imports Ledger_Chain "HOL-Library.AList"
begin

section \<open>The evidence chain of the factory (\<open>crb/factory/evidence.py\<close>)\<close>

text \<open>
  Events, the two stores, the conditional append, and one operation per governed step. A store is the list of
  its events; the read and the write of \<open>append_if\<close> are one step, as the store's lock makes them. The SHA-256 of
  a body and the redaction of a string are fields of \<open>ev_ctx\<close>, the clock and the random event id the
  argument \<open>stamp\<close> of each operation. A payload is a JSON value without floats; where the code reads a key as text
  (\<open>grant\<close>, \<open>calibration_event\<close>, \<open>pack_hash\<close>) the model reads the string the operations write there.
\<close>

subsection \<open>Payloads\<close>

datatype jval = JNone | JBool bool | JInt int | JStr string | JList "jval list" | JObj "(string \<times> jval) list"

type_synonym payload = "(string \<times> jval) list"

fun redact_value :: "(string \<Rightarrow> string) \<Rightarrow> jval \<Rightarrow> jval" where
  "redact_value redact (JStr s) = JStr (redact s)"
| "redact_value redact (JList vs) = JList (map (redact_value redact) vs)"
| "redact_value redact (JObj kvs) = JObj (map (\<lambda>(k, v). (k, redact_value redact v)) kvs)"
| "redact_value redact v = v"

definition pstr :: "payload \<Rightarrow> string \<Rightarrow> string" where
  "pstr p k = (case map_of p k of Some (JStr s) \<Rightarrow> s | _ \<Rightarrow> [])"

definition pint :: "payload \<Rightarrow> string \<Rightarrow> int" where
  "pint p k = (case map_of p k of Some (JInt n) \<Rightarrow> n | _ \<Rightarrow> 0)"

definition pbool :: "payload \<Rightarrow> string \<Rightarrow> bool \<Rightarrow> bool" where
  "pbool p k dflt = (case map_of p k of Some (JBool b) \<Rightarrow> b | None \<Rightarrow> dflt | _ \<Rightarrow> False)"

definition pstrs :: "payload \<Rightarrow> string \<Rightarrow> string list" where
  "pstrs p k = (case map_of p k of Some (JList vs) \<Rightarrow> concat (map (\<lambda>v. case v of JStr s \<Rightarrow> [s] | _ \<Rightarrow> []) vs) | _ \<Rightarrow> [])"

definition without_item :: "payload \<Rightarrow> payload" where
  "without_item p = filter (\<lambda>(k, v). k \<noteq> ''item_id'') p"

subsection \<open>Events\<close>

definition FACTORY_EVIDENCE_SCHEMA :: string where "FACTORY_EVIDENCE_SCHEMA = ''crb.factory.evidence.v1''"
definition EV_BACKLOG_FROZEN :: string where "EV_BACKLOG_FROZEN = ''backlog.frozen''"
definition EV_BACKLOG_EVOLVED :: string where "EV_BACKLOG_EVOLVED = ''backlog.evolved''"
definition EV_GAP_SIGNOFF :: string where "EV_GAP_SIGNOFF = ''gap.signoff''"
definition EV_READINESS :: string where "EV_READINESS = ''readiness.assessed''"
definition EV_ROUTE :: string where "EV_ROUTE = ''route.decided''"
definition EV_RED_PROOF :: string where "EV_RED_PROOF = ''red.proved''"
definition EV_RED_REFUSED :: string where "EV_RED_REFUSED = ''red.refused''"
definition EV_BUILD :: string where "EV_BUILD = ''build.graded''"
definition EV_DELIVERY :: string where "EV_DELIVERY = ''delivery.opened''"
definition EV_DELIVERY_UPDATED :: string where "EV_DELIVERY_UPDATED = ''delivery.updated''"
definition EV_DELIVERY_REFUSED :: string where "EV_DELIVERY_REFUSED = ''delivery.refused''"
definition EV_DELIVERY_MERGED :: string where "EV_DELIVERY_MERGED = ''delivery.merged''"
definition EV_DELIVERY_CLOSED :: string where "EV_DELIVERY_CLOSED = ''delivery.closed''"
definition EV_VERDICT :: string where "EV_VERDICT = ''review.verdict''"
definition EV_EDIT :: string where "EV_EDIT = ''edit.permitted''"
definition EV_CHECKPOINT :: string where "EV_CHECKPOINT = ''horizon.checkpoint''"
definition EV_ITEM_OUTCOME :: string where "EV_ITEM_OUTCOME = ''item.outcome''"
definition EV_PROBE_WAIVED :: string where "EV_PROBE_WAIVED = ''review.probe_waived''"
definition EV_ENTRY_REFUSED :: string where "EV_ENTRY_REFUSED = ''entry.refused''"
definition EV_CALIBRATION_FUNDED :: string where "EV_CALIBRATION_FUNDED = ''calibration.funded''"
definition EV_CALIBRATION_CLAIMED :: string where "EV_CALIBRATION_CLAIMED = ''calibration.claimed''"
definition EV_ACCEPTANCE_GRADED :: string where "EV_ACCEPTANCE_GRADED = ''acceptance.graded''"
definition EV_ACCEPTANCE_NOT_GRADED :: string where "EV_ACCEPTANCE_NOT_GRADED = ''acceptance.not_graded''"

definition INTAKE_EVENT_KINDS :: "string list" where
  "INTAKE_EVENT_KINDS = [''intake.polled'', ''intake.read'', ''intake.feedback.posted'', ''intake.registered'', ''intake.queued'',
     ''intake.delivered'', ''intake.transitioned'', ''intake.stopped'', ''intake.awaiting_approval'']"

definition EVENT_KINDS :: "string list" where
  "EVENT_KINDS = [EV_BACKLOG_FROZEN, EV_BACKLOG_EVOLVED, EV_GAP_SIGNOFF, EV_READINESS, EV_ROUTE, EV_RED_PROOF, EV_RED_REFUSED,
     EV_BUILD, EV_DELIVERY, EV_DELIVERY_UPDATED, EV_DELIVERY_REFUSED, EV_DELIVERY_MERGED, EV_DELIVERY_CLOSED, EV_VERDICT,
     EV_EDIT, EV_CHECKPOINT, EV_ITEM_OUTCOME, EV_PROBE_WAIVED, EV_ENTRY_REFUSED, EV_CALIBRATION_FUNDED,
     EV_CALIBRATION_CLAIMED, EV_ACCEPTANCE_GRADED, EV_ACCEPTANCE_NOT_GRADED] @ INTAKE_EVENT_KINDS"

lemmas ev_words = EV_BACKLOG_FROZEN_def EV_BACKLOG_EVOLVED_def EV_GAP_SIGNOFF_def EV_READINESS_def EV_ROUTE_def EV_RED_PROOF_def
  EV_RED_REFUSED_def EV_BUILD_def EV_DELIVERY_def EV_DELIVERY_UPDATED_def EV_DELIVERY_REFUSED_def EV_DELIVERY_MERGED_def
  EV_DELIVERY_CLOSED_def EV_VERDICT_def EV_EDIT_def EV_CHECKPOINT_def EV_ITEM_OUTCOME_def EV_PROBE_WAIVED_def
  EV_ENTRY_REFUSED_def EV_CALIBRATION_FUNDED_def EV_CALIBRATION_CLAIMED_def EV_ACCEPTANCE_GRADED_def EV_ACCEPTANCE_NOT_GRADED_def

record fevent =
  fe_kind :: string
  fe_item_id :: string
  fe_payload :: payload
  fe_actor :: string
  fe_repo :: string
  fe_created :: string
  fe_schema :: string
  fe_event_id :: string
  fe_prev_hash :: string
  fe_row_hash :: string

text \<open>Every field but \<open>row_hash\<close>.\<close>

definition fe_body :: "fevent \<Rightarrow> fevent" where
  "fe_body e = e\<lparr>fe_row_hash := []\<rparr>"

definition fe_compute_hash :: "(fevent \<Rightarrow> string) \<Rightarrow> fevent \<Rightarrow> string" where
  "fe_compute_hash H e = H (fe_body e)"

definition fe_chained :: "(fevent \<Rightarrow> string) \<Rightarrow> fevent \<Rightarrow> string \<Rightarrow> fevent" where
  "fe_chained H e prev = (let r = e\<lparr>fe_prev_hash := prev\<rparr> in r\<lparr>fe_row_hash := fe_compute_hash H r\<rparr>)"

definition fe_verify_hash :: "(fevent \<Rightarrow> string) \<Rightarrow> fevent \<Rightarrow> bool" where
  "fe_verify_hash H e \<longleftrightarrow> fe_row_hash e \<noteq> [] \<and> fe_row_hash e = fe_compute_hash H e"

record ev_ctx =
  ec_hash :: "fevent \<Rightarrow> string"
  ec_redact :: "string \<Rightarrow> string"
  ec_actor :: string
  ec_repo :: string

type_synonym stamp = "string \<times> string"

definition FactoryEvent :: "ev_ctx \<Rightarrow> string \<Rightarrow> string \<Rightarrow> payload \<Rightarrow> stamp \<Rightarrow> fevent result" where
  "FactoryEvent C kind item_id p stamp = guarded [(kind \<notin> set EVENT_KINDS, ValueError ''event kind'')]
     \<lparr>fe_kind = kind, fe_item_id = item_id, fe_payload = map (\<lambda>(k, v). (k, redact_value (ec_redact C) v)) p,
      fe_actor = ec_actor C, fe_repo = ec_repo C, fe_created = fst stamp, fe_schema = FACTORY_EVIDENCE_SCHEMA, fe_event_id = snd stamp,
      fe_prev_hash = [], fe_row_hash = []\<rparr>"

subsection \<open>Stores\<close>

definition memory_append :: "(fevent \<Rightarrow> string) \<Rightarrow> fevent \<Rightarrow> fevent list \<Rightarrow> fevent \<times> fevent list" where
  "memory_append H e evs = (let prev = (if evs = [] then GENESIS_HASH else fe_row_hash (last evs)); c = fe_chained H e prev
     in (c, evs @ [c]))"

definition fe_last_hash :: "fevent list \<Rightarrow> string result" where
  "fe_last_hash evs = (if evs = [] then Inr GENESIS_HASH
     else if fe_row_hash (last evs) = [] then Inl (LedgerIntegrityError ''no row_hash'') else Inr (fe_row_hash (last evs)))"

definition store_append :: "(fevent \<Rightarrow> string) \<Rightarrow> fevent \<Rightarrow> fevent list \<Rightarrow> (fevent \<times> fevent list) result" where
  "store_append H e evs = bind_result (fe_last_hash evs) (\<lambda>prev. let c = fe_chained H e prev in Inr (c, evs @ [c]))"

definition store_append_if :: "(fevent \<Rightarrow> string) \<Rightarrow> fevent \<Rightarrow> (fevent list \<Rightarrow> bool) \<Rightarrow> fevent list \<Rightarrow>
    (fevent option \<times> fevent list) result" where
  "store_append_if H e admit evs =
     (if admit evs then bind_result (store_append H e evs) (\<lambda>(c, evs'). Inr (Some c, evs')) else Inr (None, evs))"

fun fe_walk :: "(fevent \<Rightarrow> string) \<Rightarrow> string \<Rightarrow> nat \<Rightarrow> fevent list \<Rightarrow> nat result" where
  "fe_walk H prev n [] = Inr n"
| "fe_walk H prev n (e # es) =
     (if fe_prev_hash e \<noteq> prev then Inl (LedgerIntegrityError ''prev_hash mismatch'')
      else if \<not> fe_verify_hash H e then Inl (LedgerIntegrityError ''row_hash mismatch'')
      else fe_walk H (fe_row_hash e) (Suc n) es)"

definition verify_events :: "(fevent \<Rightarrow> string) \<Rightarrow> fevent list \<Rightarrow> nat result" where
  "verify_events H evs = fe_walk H GENESIS_HASH 0 evs"

subsection \<open>Queries\<close>

definition spent_by :: "fevent \<Rightarrow> string list" where
  "spent_by e =
     (if fe_kind e = EV_CALIBRATION_CLAIMED \<and> pstr (fe_payload e) ''grant'' \<noteq> [] then [pstr (fe_payload e) ''grant'']
      else if fe_kind e = EV_ITEM_OUTCOME \<and> pstr (fe_payload e) ''calibration_event'' \<noteq> []
        then [pstr (fe_payload e) ''calibration_event''] else [])"

definition spent_grants :: "fevent list \<Rightarrow> string set" where
  "spent_grants evs = set (concat (map spent_by evs))"

definition events_of :: "fevent list \<Rightarrow> string \<Rightarrow> fevent list" where
  "events_of evs item_id = filter (\<lambda>e. fe_item_id e = item_id) evs"

definition events_for :: "fevent list \<Rightarrow> string \<Rightarrow> string \<Rightarrow> fevent list" where
  "events_for evs item_id kind = filter (\<lambda>e. fe_item_id e = item_id \<and> (kind = [] \<or> fe_kind e = kind)) evs"

definition attempted_before :: "fevent list \<Rightarrow> string \<Rightarrow> string \<Rightarrow> bool" where
  "attempted_before evs item_id grant = (let mine = events_of evs item_id in
     list_ex (\<lambda>e. fe_kind e = EV_BUILD) mine \<or> spent_grants mine - {grant} \<noteq> {})"

definition ticket_authors :: "fevent list \<Rightarrow> string \<Rightarrow> string \<Rightarrow> string list" where
  "ticket_authors evs item_id test_author = filter (\<lambda>a. a \<noteq> [])
     ((if test_author \<noteq> [] then [test_author] else []) @
      map fe_actor (filter (\<lambda>e. (fe_kind e = EV_BACKLOG_FROZEN \<and> item_id \<in> set (pstrs (fe_payload e) ''item_ids'')) \<or>
        (fe_kind e = EV_BACKLOG_EVOLVED \<and> fe_item_id e = item_id)) evs))"

definition last_of :: "('a \<Rightarrow> bool) \<Rightarrow> 'a list \<Rightarrow> 'a option" where
  "last_of P xs = (let ys = filter P xs in if ys = [] then None else Some (last ys))"

definition waiting_grant :: "fevent list \<Rightarrow> string \<Rightarrow> fevent option" where
  "waiting_grant evs item_id =
     (case last_of (\<lambda>e. fe_kind e = EV_CALIBRATION_FUNDED \<and> fe_item_id e = item_id) evs of
        None \<Rightarrow> None
      | Some newest \<Rightarrow> if fe_event_id newest \<in> spent_grants evs then None else Some newest)"

definition verdict_for :: "fevent list \<Rightarrow> string \<Rightarrow> string \<Rightarrow> fevent option" where
  "verdict_for evs item_id pack_hash =
     last_of (\<lambda>e. pack_hash = [] \<or> pstr (fe_payload e) ''pack_hash'' = pack_hash) (events_for evs item_id EV_VERDICT)"

definition edits_for :: "fevent list \<Rightarrow> string \<Rightarrow> string \<Rightarrow> fevent list" where
  "edits_for evs item_id pack_hash =
     filter (\<lambda>e. pack_hash = [] \<or> pstr (fe_payload e) ''pack_hash'' = pack_hash) (events_for evs item_id EV_EDIT)"

definition outcome_for :: "fevent list \<Rightarrow> string \<Rightarrow> int \<Rightarrow> fevent option" where
  "outcome_for evs item_id pr_number =
     last_of (\<lambda>e. fe_kind e \<in> {EV_DELIVERY_MERGED, EV_DELIVERY_CLOSED} \<and> pint (fe_payload e) ''pr_number'' = pr_number)
       (events_for evs item_id [])"

definition signed_gaps :: "fevent list \<Rightarrow> string \<Rightarrow> (string \<times> fevent) list" where
  "signed_gaps evs item_id = foldl (\<lambda>out e.
     let rec = (case map_of (fe_payload e) ''record'' of Some (JObj r) \<Rightarrow> r | _ \<Rightarrow> []); name = pstr rec ''slot''
     in if pbool rec ''revoked'' False then AList.delete name out
        else if name \<noteq> [] then AList.update name e out else out) [] (events_for evs item_id EV_GAP_SIGNOFF)"

subsection \<open>The governed steps\<close>

text \<open>One operation per \<open>record_\<close> method of \<open>FactoryEvidence\<close>; the dictionaries of other components are payloads.\<close>

type_synonym ev_result = "(fevent \<times> fevent list) result"

definition ev_append :: "ev_ctx \<Rightarrow> string \<Rightarrow> string \<Rightarrow> payload \<Rightarrow> stamp \<Rightarrow> fevent list \<Rightarrow> ev_result" where
  "ev_append C kind item_id p stamp evs =
     bind_result (FactoryEvent C kind item_id p stamp) (\<lambda>e. store_append (ec_hash C) e evs)"

definition jstrs :: "string list \<Rightarrow> jval" where
  "jstrs ss = JList (map JStr ss)"

definition record_freeze :: "ev_ctx \<Rightarrow> string \<Rightarrow> string list \<Rightarrow> string \<Rightarrow> stamp \<Rightarrow> fevent list \<Rightarrow> ev_result" where
  "record_freeze C backlog_hash item_ids frozen_at = ev_append C EV_BACKLOG_FROZEN []
     [(''backlog_hash'', JStr backlog_hash), (''item_ids'', jstrs item_ids), (''frozen_at'', JStr frozen_at)]"

definition record_evolution :: "ev_ctx \<Rightarrow> string \<Rightarrow> string \<Rightarrow> string \<Rightarrow> string \<Rightarrow> stamp \<Rightarrow> fevent list \<Rightarrow> ev_result" where
  "record_evolution C item_id supersedes backlog_hash evolutions_hash = ev_append C EV_BACKLOG_EVOLVED item_id
     [(''supersedes'', JStr supersedes), (''backlog_hash'', JStr backlog_hash), (''evolutions_hash'', JStr evolutions_hash)]"

definition record_gap_signoff :: "ev_ctx \<Rightarrow> payload \<Rightarrow> stamp \<Rightarrow> fevent list \<Rightarrow> ev_result" where
  "record_gap_signoff C rec = ev_append C EV_GAP_SIGNOFF (pstr rec ''item_id'') [(''record'', JObj rec)]"

definition record_readiness :: "ev_ctx \<Rightarrow> payload \<Rightarrow> stamp \<Rightarrow> fevent list \<Rightarrow> ev_result" where
  "record_readiness C r = ev_append C EV_READINESS (pstr r ''item_id'') (without_item r)"

definition record_route :: "ev_ctx \<Rightarrow> string \<Rightarrow> string \<Rightarrow> string \<Rightarrow> payload \<Rightarrow> stamp \<Rightarrow> fevent list \<Rightarrow> ev_result" where
  "record_route C item_id route reason extra =
     ev_append C EV_ROUTE item_id ([(''route'', JStr route), (''reason'', JStr reason)] @ extra)"

definition record_red_proof :: "ev_ctx \<Rightarrow> payload \<Rightarrow> stamp \<Rightarrow> fevent list \<Rightarrow> ev_result" where
  "record_red_proof C p = ev_append C EV_RED_PROOF (pstr p ''item_id'') (without_item p)"

definition record_red_refused :: "ev_ctx \<Rightarrow> string \<Rightarrow> string \<Rightarrow> payload \<Rightarrow> stamp \<Rightarrow> fevent list \<Rightarrow> ev_result" where
  "record_red_refused C item_id reason extra = ev_append C EV_RED_REFUSED item_id ([(''reason'', JStr reason)] @ extra)"

definition record_build :: "ev_ctx \<Rightarrow> string \<Rightarrow> payload \<Rightarrow> stamp \<Rightarrow> fevent list \<Rightarrow> ev_result" where
  "record_build C item_id p = ev_append C EV_BUILD item_id p"

definition record_delivery :: "ev_ctx \<Rightarrow> payload \<Rightarrow> stamp \<Rightarrow> fevent list \<Rightarrow> ev_result" where
  "record_delivery C d = ev_append C EV_DELIVERY (pstr d ''item_id'') (without_item d)"

definition record_delivery_updated :: "ev_ctx \<Rightarrow> payload \<Rightarrow> int \<Rightarrow> string \<Rightarrow> stamp \<Rightarrow> fevent list \<Rightarrow> ev_result" where
  "record_delivery_updated C d rework after_verdict = ev_append C EV_DELIVERY_UPDATED (pstr d ''item_id'')
     ([(''rework'', JInt rework), (''after_verdict'', JStr after_verdict)] @ without_item d)"

definition record_delivery_refused :: "ev_ctx \<Rightarrow> string \<Rightarrow> string \<Rightarrow> payload \<Rightarrow> stamp \<Rightarrow> fevent list \<Rightarrow> ev_result" where
  "record_delivery_refused C item_id reason extra =
     ev_append C EV_DELIVERY_REFUSED item_id ([(''reason'', JStr reason)] @ extra)"

record pr_outcome =
  po_state :: string
  po_pr_number :: int
  po_pr_url :: string
  po_merged_at :: string
  po_merged_by :: string
  po_merge_sha :: string
  po_closed_at :: string
  po_closed_by :: string
  po_verdict :: string
  po_reason :: string

definition OUTCOME_KINDS :: "(string \<times> string) list" where
  "OUTCOME_KINDS = [(''merged'', EV_DELIVERY_MERGED), (''closed'', EV_DELIVERY_CLOSED)]"

definition outcome_payload :: "pr_outcome \<Rightarrow> payload" where
  "outcome_payload po =
     [(''state'', JStr (po_state po)), (''pr_number'', JInt (po_pr_number po)), (''pr_url'', JStr (po_pr_url po)),
      (''merged_at'', JStr (po_merged_at po)), (''merged_by'', JStr (po_merged_by po)), (''merge_sha'', JStr (po_merge_sha po)),
      (''closed_at'', JStr (po_closed_at po))] @
     map (\<lambda>(k, v). (k, JStr v)) (filter (\<lambda>(k, v). v \<noteq> [])
       [(''closed_by'', po_closed_by po), (''verdict'', po_verdict po), (''reason'', po_reason po)])"

definition record_delivery_outcome :: "ev_ctx \<Rightarrow> string \<Rightarrow> pr_outcome \<Rightarrow> stamp \<Rightarrow> fevent list \<Rightarrow>
    ((fevent \<times> bool) \<times> fevent list) result" where
  "record_delivery_outcome C item_id po stamp evs =
     (case map_of OUTCOME_KINDS (po_state po) of None \<Rightarrow> Inl (ValueError ''state'')
      | Some kind \<Rightarrow>
          let append = bind_result (ev_append C kind item_id (outcome_payload po) stamp evs) (\<lambda>(e, evs'). Inr ((e, True), evs'))
          in case outcome_for evs item_id (po_pr_number po) of
               Some existing \<Rightarrow> if fe_kind existing \<in> {kind, EV_DELIVERY_MERGED} then Inr ((existing, False), evs) else append
             | None \<Rightarrow> append)"

definition record_verdict :: "ev_ctx \<Rightarrow> payload \<Rightarrow> stamp \<Rightarrow> fevent list \<Rightarrow> ev_result" where
  "record_verdict C v stamp evs =
     (if pbool v ''recorded_before_edit'' True \<and> edits_for evs (pstr v ''item_id'') (pstr v ''pack_hash'') \<noteq> []
      then Inl (OtherError ''VerdictBeforeEditViolation'')
      else ev_append C EV_VERDICT (pstr v ''item_id'') (without_item v) stamp evs)"

definition record_edit :: "ev_ctx \<Rightarrow> string \<Rightarrow> string \<Rightarrow> string \<Rightarrow> string \<Rightarrow> stamp \<Rightarrow> fevent list \<Rightarrow> ev_result" where
  "record_edit C item_id pack_hash editor note stamp evs =
     (if verdict_for evs item_id pack_hash = None then Inl (OtherError ''VerdictBeforeEditViolation'')
      else ev_append C EV_EDIT item_id [(''pack_hash'', JStr pack_hash), (''editor'', JStr editor), (''note'', JStr note)] stamp evs)"

definition VERIFICATION_MODES :: "dict" where
  "VERIFICATION_MODES = [(''L1'', ''authored-tests-green+boot-and-smoke''), (''L2'', ''deployed-e2e-smoke+test-user-feedback''),
     (''L3'', ''slo+escape-watch+monitoring'')]"

definition record_checkpoint :: "ev_ctx \<Rightarrow> string \<Rightarrow> int \<Rightarrow> string list \<Rightarrow> string \<Rightarrow> string \<Rightarrow> string \<Rightarrow> stamp \<Rightarrow>
    fevent list \<Rightarrow> ev_result" where
  "record_checkpoint C level observations issues_minted signed_off_by verification_mode note stamp evs =
     (case map_of VERIFICATION_MODES level of None \<Rightarrow> Inl (ValueError ''level'')
      | Some mode \<Rightarrow> ev_append C EV_CHECKPOINT []
          [(''level'', JStr level), (''verification_mode'', JStr (if verification_mode \<noteq> [] then verification_mode else mode)),
           (''observations'', JInt observations), (''issues_minted'', jstrs issues_minted),
           (''signed_off_by'', JStr signed_off_by), (''note'', JStr note)] stamp evs)"

definition record_item_outcome :: "ev_ctx \<Rightarrow> string \<Rightarrow> payload \<Rightarrow> stamp \<Rightarrow> fevent list \<Rightarrow> ev_result" where
  "record_item_outcome C item_id p = ev_append C EV_ITEM_OUTCOME item_id p"

definition record_probe_waiver :: "ev_ctx \<Rightarrow> string \<Rightarrow> string \<Rightarrow> string \<Rightarrow> string \<Rightarrow> stamp \<Rightarrow> fevent list \<Rightarrow> ev_result" where
  "record_probe_waiver C item_id approver reason test_sha256 stamp evs =
     (if py_strip approver = [] \<or> py_strip reason = [] \<or> length test_sha256 \<noteq> 64 then Inl (ValueError ''probe waiver'')
      else ev_append C EV_PROBE_WAIVED item_id
        [(''approver'', JStr approver), (''reason'', JStr reason), (''test_sha256'', JStr test_sha256)] stamp evs)"

definition record_entry_refused :: "ev_ctx \<Rightarrow> string \<Rightarrow> string \<Rightarrow> string \<Rightarrow> payload \<Rightarrow> stamp \<Rightarrow> fevent list \<Rightarrow> ev_result" where
  "record_entry_refused C item_id code reason extra =
     ev_append C EV_ENTRY_REFUSED item_id ([(''code'', JStr code), (''reason'', JStr reason)] @ extra)"

definition record_calibration :: "ev_ctx \<Rightarrow> string \<Rightarrow> string \<Rightarrow> string \<Rightarrow> string \<Rightarrow> stamp \<Rightarrow> fevent list \<Rightarrow>
    (fevent option \<times> fevent list) result" where
  "record_calibration C item_id approver reason answers stamp evs =
     (if py_strip approver = [] \<or> py_strip reason = [] then Inl (ValueError ''calibration'')
      else bind_result (FactoryEvent C EV_CALIBRATION_FUNDED item_id
          [(''approver'', JStr approver), (''reason'', JStr reason), (''answers'', JStr answers)] stamp) (\<lambda>e.
        store_append_if (ec_hash C) e (\<lambda>evs. waiting_grant evs item_id = None) evs))"

definition claim_calibration :: "ev_ctx \<Rightarrow> string \<Rightarrow> string \<Rightarrow> string \<Rightarrow> stamp \<Rightarrow> fevent list \<Rightarrow>
    (fevent option \<times> fevent list) result" where
  "claim_calibration C item_id grant run_id stamp evs =
     bind_result (FactoryEvent C EV_CALIBRATION_CLAIMED item_id [(''grant'', JStr grant), (''run_id'', JStr run_id)] stamp) (\<lambda>e.
       store_append_if (ec_hash C) e (\<lambda>evs. grant \<notin> spent_grants evs) evs)"

definition record_acceptance_graded :: "ev_ctx \<Rightarrow> string \<Rightarrow> payload \<Rightarrow> stamp \<Rightarrow> fevent list \<Rightarrow> ev_result" where
  "record_acceptance_graded C item_id p = ev_append C EV_ACCEPTANCE_GRADED item_id p"

definition record_acceptance_not_graded :: "ev_ctx \<Rightarrow> string \<Rightarrow> string \<Rightarrow> string \<Rightarrow> string \<Rightarrow> string \<Rightarrow> stamp \<Rightarrow>
    fevent list \<Rightarrow> ev_result" where
  "record_acceptance_not_graded C item_id grant why record_id reason = ev_append C EV_ACCEPTANCE_NOT_GRADED item_id
     [(''grant'', JStr grant), (''why'', JStr why), (''record_id'', JStr record_id), (''reason'', JStr reason)]"

end
