(* ===== verification/Review.thy ===== *)
theory Review
  imports Test_First Factory_Evidence
begin

section \<open>Independent review (\<open>crb/factory/review.py\<close>)\<close>

text \<open>
  The three probes' decisions over what their worktree runs reported, the waiver of the strength probe, the
  mechanical floor and the recorded verdict. The reviewer and extra probes are arguments; the text of a finding
  or a summary is carried but not composed, and the cap on its length is not modelled.
\<close>

subsection \<open>Words\<close>

definition VERDICT_ACCEPT :: string where "VERDICT_ACCEPT = ''accept''"
definition VERDICT_ACCEPT_WITH_EDIT :: string where "VERDICT_ACCEPT_WITH_EDIT = ''accept_with_edit''"
definition VERDICT_REJECT :: string where "VERDICT_REJECT = ''reject''"
definition VERDICTS :: "string list" where "VERDICTS = [VERDICT_ACCEPT, VERDICT_ACCEPT_WITH_EDIT, VERDICT_REJECT]"

definition verdict_rank :: "string \<Rightarrow> nat" where
  "verdict_rank v = (if v = VERDICT_ACCEPT then 0 else if v = VERDICT_ACCEPT_WITH_EDIT then 1 else 2)"

definition SEVERITY_INFO :: string where "SEVERITY_INFO = ''info''"
definition SEVERITY_MINOR :: string where "SEVERITY_MINOR = ''minor''"
definition SEVERITY_MAJOR :: string where "SEVERITY_MAJOR = ''major''"
definition SEVERITY_BLOCKING :: string where "SEVERITY_BLOCKING = ''blocking''"
definition SEVERITIES :: "string list" where "SEVERITIES = [SEVERITY_INFO, SEVERITY_MINOR, SEVERITY_MAJOR, SEVERITY_BLOCKING]"

definition FINDING_WEAK_ORACLE :: string where "FINDING_WEAK_ORACLE = ''weak_oracle''"
definition FINDING_ORACLE_UNSCOREABLE :: string where "FINDING_ORACLE_UNSCOREABLE = ''oracle_unscoreable''"
definition FINDING_PROBE_WAIVED :: string where "FINDING_PROBE_WAIVED = ''probe_waived''"

definition PROBE_RED :: string where "PROBE_RED = ''red_reproduction''"
definition PROBE_BELTS :: string where "PROBE_BELTS = ''belt_rerun''"
definition PROBE_STRENGTH :: string where "PROBE_STRENGTH = ''mutation_strength''"

lemmas verdict_words = VERDICT_ACCEPT_def VERDICT_ACCEPT_WITH_EDIT_def VERDICT_REJECT_def

subsection \<open>Findings and probe results\<close>

record finding =
  fd_kind :: string
  fd_severity :: string
  fd_detail :: string
  fd_probe :: string

definition ReviewFinding :: "finding \<Rightarrow> finding result" where
  "ReviewFinding f = guarded [(fd_severity f \<notin> set SEVERITIES, ValueError ''severity'')] f"

record probe_result =
  pb_name :: string
  pb_passed :: "bool option"
  pb_detail :: string
  pb_required :: bool
  pb_findings :: "finding list"
  pb_strength :: "rat option"
  pb_waived_by :: string

definition probe :: "string \<Rightarrow> bool option \<Rightarrow> string \<Rightarrow> probe_result" where
  "probe name passed detail = \<lparr>pb_name = name, pb_passed = passed, pb_detail = detail, pb_required = True,
     pb_findings = [], pb_strength = None, pb_waived_by = []\<rparr>"

definition pb_failed :: "probe_result \<Rightarrow> bool" where
  "pb_failed p \<longleftrightarrow> pb_required p \<and> pb_passed p \<noteq> Some True"

text \<open>The RED proof again, from a pristine worktree at the oracle commit's parent.\<close>

definition red_reproduction_probe :: "red_proof \<Rightarrow> string \<Rightarrow> red_run result \<Rightarrow> probe_result result" where
  "red_reproduction_probe proof oracle_hash run =
     (if oracle_hash \<noteq> rp_test_sha256 proof then Inr (probe PROBE_RED (Some False) ''oracle hash'')
      else case run of
          Inl e \<Rightarrow> if e = SandboxUnavailable then Inl e else Inr (probe PROBE_RED None ''harness error'')
        | Inr r \<Rightarrow>
            if rr_timed_out r \<or> rr_green r \<or> rr_parse_error r \<noteq> [] \<or> rr_failing r = []
            then Inr (probe PROBE_RED (Some False) ''did not reproduce'')
            else Inr ((probe PROBE_RED (Some True) ''reproduced'')\<lparr>pb_findings :=
              (if set (rr_failing r) \<noteq> set (rp_failing_ids proof)
               then [\<lparr>fd_kind = ''red_ids_differ'', fd_severity = SEVERITY_MINOR, fd_detail = [], fd_probe = PROBE_RED\<rparr>] else [])\<rparr>))"

text \<open>The delivered edits graded again in a fresh worktree: \<open>clean\<close> is the grader's answer.\<close>

definition belt_rerun_probe :: "bool \<Rightarrow> bool result \<Rightarrow> probe_result result" where
  "belt_rerun_probe has_context graded =
     (if \<not> has_context then Inr (probe PROBE_BELTS None ''no grade context'')
      else case graded of
          Inl e \<Rightarrow> if e = SandboxUnavailable then Inl e else Inr (probe PROBE_BELTS None ''harness error'')
        | Inr clean \<Rightarrow> if clean then Inr (probe PROBE_BELTS (Some True) ''belts held'')
            else Inr (probe PROBE_BELTS (Some False) ''belts did not hold''))"

text \<open>The mutation score of the oracle: its strength, or none when it could not be scored.\<close>

definition mutation_strength_probe :: "rat \<Rightarrow> rat option result \<Rightarrow> probe_result result" where
  "mutation_strength_probe min_strength scored =
     (let unscoreable_with = (\<lambda>why. (probe PROBE_STRENGTH None why)\<lparr>pb_findings :=
            [\<lparr>fd_kind = FINDING_ORACLE_UNSCOREABLE, fd_severity = SEVERITY_INFO, fd_detail = why, fd_probe = PROBE_STRENGTH\<rparr>]\<rparr>)
      in case scored of
          Inl e \<Rightarrow> if e = SandboxUnavailable then Inl e else Inr (unscoreable_with ''not scoreable'')
        | Inr None \<Rightarrow> Inr (unscoreable_with ''not scoreable'')
        | Inr (Some s) \<Rightarrow>
            if s < min_strength then Inr ((probe PROBE_STRENGTH (Some False) ''below the floor'')\<lparr>pb_required := False,
              pb_findings := [\<lparr>fd_kind = FINDING_WEAK_ORACLE, fd_severity = SEVERITY_MAJOR, fd_detail = ''strengthen the test'',
                fd_probe = PROBE_STRENGTH\<rparr>], pb_strength := Some s\<rparr>)
            else Inr ((probe PROBE_STRENGTH (Some True) ''strong enough'')\<lparr>pb_strength := Some s\<rparr>))"

subsection \<open>Waivers\<close>

record probe_waiver =
  pw_approver :: string
  pw_reason :: string
  pw_test_sha256 :: string
  pw_event_id :: string

definition applies_to :: "probe_waiver \<Rightarrow> string \<Rightarrow> bool" where
  "applies_to w test_sha256 \<longleftrightarrow> pw_test_sha256 w \<noteq> [] \<and> pw_test_sha256 w = test_sha256"

definition waiver_note :: "probe_waiver \<Rightarrow> string" where
  "waiver_note w = ''mutation strength probe waived by '' @ pw_approver w @ '': '' @ pw_reason w"

definition waive :: "probe_result \<Rightarrow> probe_waiver \<Rightarrow> probe_result" where
  "waive r w = r\<lparr>pb_required := False, pb_detail := pb_detail r @ ''; '' @ waiver_note w,
     pb_findings := pb_findings r @ [\<lparr>fd_kind = FINDING_PROBE_WAIVED, fd_severity = SEVERITY_INFO,
       fd_detail = waiver_note w, fd_probe = pb_name r\<rparr>], pb_waived_by := pw_approver w\<rparr>"

definition waive_if :: "probe_waiver option \<Rightarrow> string \<Rightarrow> probe_result \<Rightarrow> probe_result" where
  "waive_if waiver test_sha256 r = (case waiver of None \<Rightarrow> r
     | Some w \<Rightarrow> if pb_name r = PROBE_STRENGTH \<and> pb_required r \<and> pb_passed r = None \<and> applies_to w test_sha256
         then waive r w else r)"

subsection \<open>The verdict\<close>

record opinion =
  op_verdict :: string
  op_findings :: "finding list"
  op_summary :: string

definition ReviewOpinion :: "opinion \<Rightarrow> opinion result" where
  "ReviewOpinion oo = guarded [(op_verdict oo \<notin> set VERDICTS, ValueError ''verdict'')] oo"

definition mechanical_reviewer :: "probe_result list \<Rightarrow> opinion" where
  "mechanical_reviewer probes = \<lparr>op_verdict = VERDICT_ACCEPT, op_findings = [], op_summary = ''no opinion beyond the mechanical probes''\<rparr>"

record verdict =
  vd_item_id :: string
  vd_verdict :: string
  vd_reviewer :: string
  vd_builder :: string
  vd_test_author :: string
  vd_pack_hash :: string
  vd_pr_ref :: string
  vd_red_reproduced :: bool
  vd_probes :: "probe_result list"
  vd_findings :: "finding list"
  vd_summary :: string
  vd_oracle_strength :: "rat option"
  vd_event_id :: string

definition vd_accepted :: "verdict \<Rightarrow> bool" where
  "vd_accepted v \<longleftrightarrow> vd_verdict v = VERDICT_ACCEPT"

definition rework_required :: "verdict \<Rightarrow> bool" where
  "rework_required v \<longleftrightarrow> vd_verdict v = VERDICT_ACCEPT_WITH_EDIT"

definition unscoreable :: "verdict \<Rightarrow> probe_result option" where
  "unscoreable v = find (\<lambda>p. pb_name p = PROBE_STRENGTH \<and> pb_required p \<and> pb_passed p = None) (vd_probes v)"

definition derive_verdict :: "opinion \<Rightarrow> probe_result list \<Rightarrow> string" where
  "derive_verdict oo probes =
     (if list_ex pb_failed probes then VERDICT_REJECT
      else let sev = map fd_severity (concat (map pb_findings probes)) @ map fd_severity (op_findings oo);
               lowest = (if SEVERITY_BLOCKING \<in> set sev then VERDICT_REJECT
                 else if SEVERITY_MAJOR \<in> set sev then VERDICT_ACCEPT_WITH_EDIT else VERDICT_ACCEPT)
           in if verdict_rank lowest < verdict_rank (op_verdict oo) then op_verdict oo else lowest)"

definition default_probes :: "rat \<Rightarrow> red_proof \<Rightarrow> string \<Rightarrow> red_run result \<Rightarrow> bool \<Rightarrow> bool result \<Rightarrow> rat option result \<Rightarrow>
    probe_result list result" where
  "default_probes min_strength proof oracle_hash run has_context graded scored =
     bind_result (red_reproduction_probe proof oracle_hash run) (\<lambda>a.
     bind_result (belt_rerun_probe has_context graded) (\<lambda>b.
     bind_result (mutation_strength_probe min_strength scored) (\<lambda>c. Inr [a, b, c])))"

text \<open>
  \<open>review\<close>: \<open>run_probes\<close> are the probes' results before any waiver, \<open>assess_with\<close> the reviewer. The verdict is
  on the chain before the function returns.
\<close>

record reviewed_build =
  rb_rung :: string
  rb_pack_hash :: string
  rb_oracle_sha256 :: string

definition verdict_payload :: "verdict \<Rightarrow> payload" where
  "verdict_payload v = [(''item_id'', JStr (vd_item_id v)), (''verdict'', JStr (vd_verdict v)), (''reviewer'', JStr (vd_reviewer v)),
     (''builder'', JStr (vd_builder v)), (''test_author'', JStr (vd_test_author v)), (''pack_hash'', JStr (vd_pack_hash v)),
     (''pr_ref'', JStr (vd_pr_ref v)), (''red_reproduced'', JBool (vd_red_reproduced v)), (''summary'', JStr (vd_summary v)),
     (''recorded_before_edit'', JBool True), (''event_id'', JStr (vd_event_id v))]"

definition make_verdict :: "backlog_item \<Rightarrow> reviewed_build \<Rightarrow> red_proof \<Rightarrow> string \<Rightarrow> string \<Rightarrow> probe_result list \<Rightarrow> opinion \<Rightarrow> verdict" where
  "make_verdict i b proof reviewer pr_ref results oo =
     \<lparr>vd_item_id = bi_id i, vd_verdict = derive_verdict oo results, vd_reviewer = reviewer, vd_builder = rb_rung b,
      vd_test_author = rp_author proof, vd_pack_hash = rb_pack_hash b, vd_pr_ref = pr_ref,
      vd_red_reproduced = (case find (\<lambda>p. pb_name p = PROBE_RED) results of None \<Rightarrow> False | Some p \<Rightarrow> pb_passed p = Some True),
      vd_probes = results, vd_findings = concat (map pb_findings results) @ op_findings oo, vd_summary = op_summary oo,
      vd_oracle_strength = (case find (\<lambda>p. pb_name p = PROBE_STRENGTH) results of None \<Rightarrow> None | Some p \<Rightarrow> pb_strength p),
      vd_event_id = []\<rparr>"

definition review :: "ev_ctx \<Rightarrow> string list \<Rightarrow> backlog_item \<Rightarrow> reviewed_build \<Rightarrow> red_proof \<Rightarrow> string \<Rightarrow> string \<Rightarrow>
    probe_waiver option \<Rightarrow> probe_result list result \<Rightarrow> (probe_result list \<Rightarrow> opinion result) \<Rightarrow> stamp \<Rightarrow> fevent list \<Rightarrow>
    (verdict \<times> fevent list) result" where
  "review C keys i b proof reviewer pr_ref waiver run_probes assess_with stamp evs =
     bind_result (assert_distinct_identity keys (rb_rung b) reviewer) (\<lambda>_.
     bind_result (assert_distinct_identity keys (rp_author proof) reviewer) (\<lambda>_.
     bind_result run_probes (\<lambda>raw. let results = map (waive_if waiver (rb_oracle_sha256 b)) raw in
     bind_result (assess_with results) (\<lambda>oo. let v = make_verdict i b proof reviewer pr_ref results oo in
     bind_result (record_verdict C (verdict_payload v) stamp evs) (\<lambda>(e, evs').
     Inr (v\<lparr>vd_event_id := fe_event_id e\<rparr>, evs'))))))"

definition permit_edit :: "ev_ctx \<Rightarrow> string \<Rightarrow> string \<Rightarrow> string \<Rightarrow> string \<Rightarrow> stamp \<Rightarrow> fevent list \<Rightarrow> (string \<times> fevent list) result" where
  "permit_edit C item_id pack_hash editor note stamp evs =
     bind_result (record_edit C item_id pack_hash editor note stamp evs) (\<lambda>(e, evs'). Inr (fe_event_id e, evs'))"

end
