(* ===== verification/Delivery.thy ===== *)
theory Delivery
  imports Review
begin

section \<open>Delivery of an accepted build (\<open>crb/factory/delivery.py\<close>)\<close>

text \<open>
  Branch names, the default-branch invariant, credentials, the repository a pull request is in, the inert
  rendering of a ticket's text, and the delivery and the close themselves. What git and the forge answer is the
  record \<open>delivery_world\<close>; the calls made to them are the result's list of \<open>remote_action\<close>. The text of the
  pull request's body is not modelled.
\<close>

subsection \<open>Errors and credentials\<close>

definition delivery_error :: "string \<Rightarrow> exn" where
  "delivery_error why = OtherError (''DeliveryError: '' @ why)"

definition is_delivery_error :: "exn \<Rightarrow> bool" where
  "is_delivery_error e = (case e of OtherError s \<Rightarrow> starts_with s ''DeliveryError: '' | _ \<Rightarrow> False)"

definition remote_carries_token_safely :: "string \<Rightarrow> bool" where
  "remote_carries_token_safely remote =
     (let r = py_strip remote; lower = py_lower r
      in if starts_with lower ''https://'' \<or> starts_with lower ''ssh://'' then True
         else case split_once CHR '':'' r of (head, rest) \<Rightarrow>
           rest \<noteq> None \<and> CHR ''@'' \<in> set head \<and> CHR ''/'' \<notin> set head \<and> \<not> starts_with lower ''//'')"

record git_credentials =
  gc_remote :: string
  gc_token :: string
  gc_username :: string

definition GitCredentials :: "git_credentials \<Rightarrow> git_credentials result" where
  "GitCredentials c = guarded
     [(py_strip (gc_remote c) = [], ValueError ''remote''),
      (py_strip (gc_token c) = [], ValueError ''token''),
      (\<not> remote_carries_token_safely (gc_remote c), ValueError ''unsafe remote'')] c"

definition null_provider :: "string \<Rightarrow> git_credentials result" where
  "null_provider repo = Inl (delivery_error ''no git credentials'')"

definition env_provider :: "dict \<Rightarrow> string \<Rightarrow> git_credentials result" where
  "env_provider env repo =
     (let token = py_strip (dget env ''CRB_GIT_TOKEN'' []); remote = py_strip (dget env ''CRB_GIT_REMOTE'' [])
      in if token = [] \<or> remote = [] then Inl (delivery_error ''no git credentials'')
         else GitCredentials \<lparr>gc_remote = remote, gc_token = token, gc_username = ''x-access-token''\<rparr>)"

subsection \<open>Branches\<close>

definition DELIVERY_BRANCH_PREFIX :: string where "DELIVERY_BRANCH_PREFIX = ''crb/''"
definition ALWAYS_PROTECTED_BRANCHES :: "string list" where "ALWAYS_PROTECTED_BRANCHES = [''main'', ''master'']"
definition REFS_HEADS :: string where "REFS_HEADS = ''refs/heads/''"

definition strip_char :: "char \<Rightarrow> string \<Rightarrow> string" where
  "strip_char c s = rev (dropWhile (\<lambda>x. x = c) (rev (dropWhile (\<lambda>x. x = c) s)))"

function strip_refs :: "string \<Rightarrow> string" where
  "strip_refs n = (if starts_with n REFS_HEADS then strip_refs (drop (length REFS_HEADS) n) else n)"
  by auto
termination
  by (relation "measure length") (auto simp: starts_with_def REFS_HEADS_def dest: arg_cong [of _ _ length])

declare strip_refs.simps [simp del]

definition norm_branch :: "string \<Rightarrow> string" where
  "norm_branch name = strip_char CHR ''/'' (strip_refs (py_strip name))"

definition assert_not_default_branch :: "string \<Rightarrow> string \<Rightarrow> string result" where
  "assert_not_default_branch branch_name target_default_branch =
     (let branch = norm_branch branch_name; default = norm_branch target_default_branch;
          protected = map py_lower ALWAYS_PROTECTED_BRANCHES @ (if default \<noteq> [] then [py_lower default] else [])
      in if branch = [] then Inl (delivery_error ''empty branch'')
         else if py_lower branch \<in> set protected then Inl (delivery_error ''protected branch'')
         else Inr branch)"

definition slug_char :: "char \<Rightarrow> bool" where
  "slug_char c = (let n = of_char c :: nat in (97 \<le> n \<and> n \<le> 122) \<or> (48 \<le> n \<and> n \<le> 57))"

text \<open>Each run of other characters becomes one hyphen.\<close>

fun hyphenate :: "bool \<Rightarrow> string \<Rightarrow> string" where
  "hyphenate inside [] = []"
| "hyphenate inside (c # s) =
     (if slug_char c then c # hyphenate False s
      else if inside then hyphenate True s else CHR ''-'' # hyphenate True s)"

definition rstrip_char :: "char \<Rightarrow> string \<Rightarrow> string" where
  "rstrip_char c s = rev (dropWhile (\<lambda>x. x = c) (rev s))"

definition slugify :: "nat \<Rightarrow> string \<Rightarrow> string" where
  "slugify max_len text =
     (let s = rstrip_char CHR ''-'' (take max_len (strip_char CHR ''-'' (hyphenate False (py_lower text))))
      in if s \<noteq> [] then s else ''change'')"

text \<open>\<open>crb/[a-z0-9]+(?:-[a-z0-9]+)*\<close>: the parts between hyphens are non-empty runs of letters and digits.\<close>

definition delivery_branch_ok :: "string \<Rightarrow> bool" where
  "delivery_branch_ok b \<longleftrightarrow> starts_with b DELIVERY_BRANCH_PREFIX \<and>
     list_all (\<lambda>p. p \<noteq> [] \<and> list_all slug_char p) (split_on CHR ''-'' (drop (length DELIVERY_BRANCH_PREFIX) b))"

definition delivery_branch_name :: "backlog_item \<Rightarrow> string result" where
  "delivery_branch_name i =
     (let branch = DELIVERY_BRANCH_PREFIX @ slugify 64 (bi_id i) @ ''-'' @ slugify 40 (bi_title i)
      in if delivery_branch_ok branch then Inr branch else Inl (delivery_error ''unsafe branch''))"

definition legacy_delivery_branch_name :: "backlog_item \<Rightarrow> string" where
  "legacy_delivery_branch_name i = DELIVERY_BRANCH_PREFIX @ bi_id i @ ''-'' @ slugify 40 (bi_title i)"

subsection \<open>A ticket's text as data\<close>

definition control_char :: "char \<Rightarrow> bool" where
  "control_char c = (let n = of_char c :: nat in n \<le> 31 \<or> n = 127)"

lemma dropWhile_shorter [termination_simp]: "length (dropWhile P s) < Suc (length s)"
  by (simp add: less_Suc_eq_le length_dropWhile_le)

text \<open>Each run of control characters becomes a newline when it holds one, else a space.\<close>

fun clean_line :: "string \<Rightarrow> string" where
  "clean_line [] = []"
| "clean_line (c # s) =
     (if control_char c
      then (let run = takeWhile control_char (c # s)
            in (if newline \<in> set run then newline else CHR '' '') # clean_line (dropWhile control_char s))
      else c # clean_line s)"

fun longest_run :: "nat \<Rightarrow> nat \<Rightarrow> string \<Rightarrow> nat" where
  "longest_run best cur [] = max best cur"
| "longest_run best cur (c # s) =
     (if c = CHR 0x60 then longest_run best (Suc cur) s else longest_run (max best cur) 0 s)"

definition fenced :: "string \<Rightarrow> string list \<Rightarrow> string list" where
  "fenced info lines =
     (let body = join_with [newline] (map clean_line lines);
          fence = replicate (max 3 (longest_run 0 0 body + 1)) CHR 0x60
      in (fence @ info) # split_on newline body @ [fence])"

definition md_punct :: string where
  "md_punct = [CHR 0x5C, CHR 0x60] @ ''*_{}[]()#+-.!|<>~^&'' @ [CHR 0x22, CHR 0x27] @ ''@=:;/?%$,''"

definition squeeze :: "string \<Rightarrow> string" where
  "squeeze s = join_with '' '' (filter (\<lambda>w. w \<noteq> []) (split_on CHR '' '' (map (\<lambda>c. if is_space c then CHR '' '' else c) s)))"

definition escape_markdown_line :: "nat \<Rightarrow> string \<Rightarrow> string" where
  "escape_markdown_line max_len text =
     concat (map (\<lambda>c. if c \<in> set md_punct then [CHR 0x5C, c] else [c])
       (take max_len (squeeze (map (\<lambda>c. if control_char c then CHR '' '' else c) text))))"

subsection \<open>The repository a pull request is in\<close>

text \<open>\<open>urlparse(r).path\<close>: the scheme, the host, the fragment, the query and the last segment's parameters cut off.\<close>

definition uses_params :: "string list" where
  "uses_params = [[], ''ftp'', ''hdl'', ''prospero'', ''http'', ''https'', ''shttp'', ''rtsp'', ''rtsps'', ''sip'', ''sips'', ''mms'',
     ''sftp'', ''tel'']"

definition url_path :: "string \<Rightarrow> string" where
  "url_path r =
     (let (head, rest) = split_once CHR '':'' r;
          (scheme, after) = (case rest of None \<Rightarrow> ([], r)
            | Some u \<Rightarrow> if head \<noteq> [] \<and> ascii_letter (hd head) \<and>
                list_all (\<lambda>c. ascii_letter c \<or> is_digit c \<or> c \<in> set ''+-.'') head then (py_lower head, u) else ([], r));
          located = (if starts_with after ''//'' then dropWhile (\<lambda>c. c \<notin> set ''/?#'') (drop 2 after) else after);
          path = takeWhile (\<lambda>c. c \<noteq> CHR ''?'') (takeWhile (\<lambda>c. c \<noteq> CHR ''#'') located);
          final = last_segment path
      in if scheme \<in> set uses_params
         then take (length path - length final) path @ takeWhile (\<lambda>c. c \<noteq> CHR '';'') final else path)"

definition owner_repo_from_remote :: "string \<Rightarrow> (string \<times> string) result" where
  "owner_repo_from_remote remote =
     (let r = py_strip remote;
          path0 = (if starts_with r ''git@'' \<and> CHR '':'' \<in> set r then the (snd (split_once CHR '':'' r)) else url_path r);
          path1 = strip_char CHR ''/'' path0;
          path = (if ends_with path1 ''.git'' then take (length path1 - 4) path1 else path1)
      in case filter (\<lambda>p. p \<noteq> []) (split_on CHR ''/'' path) of
           a # b # _ \<Rightarrow> Inr (a, b) | _ \<Rightarrow> Inl (delivery_error ''owner/repo''))"

definition repository_of :: "string \<Rightarrow> string" where
  "repository_of remote = (case owner_repo_from_remote remote of Inl e \<Rightarrow> [] | Inr (a, b) \<Rightarrow> py_lower (a @ ''/'' @ b))"

text \<open>\<open>^https://[^/\s]+/([^/\s]+)/([^/\s]+)/pull/\d+/?$\<close> on a stripped address.\<close>

definition pr_url_repository :: "string \<Rightarrow> string option" where
  "pr_url_repository u =
     (if \<not> starts_with u ''https://'' then None
      else let word = (\<lambda>p. p \<noteq> [] \<and> list_all (\<lambda>c. \<not> is_space c) p)
       in case split_on CHR ''/'' (drop 8 u) of
            [host, a, b, pull, n] \<Rightarrow> if word host \<and> word a \<and> word b \<and> pull = ''pull'' \<and> all_digits n then Some (a @ ''/'' @ b) else None
          | [host, a, b, pull, n, e] \<Rightarrow> if word host \<and> word a \<and> word b \<and> pull = ''pull'' \<and> all_digits n \<and> e = [] then Some (a @ ''/'' @ b) else None
          | _ \<Rightarrow> None)"

definition recorded_repository :: "string \<Rightarrow> string \<Rightarrow> string" where
  "recorded_repository repository pr_url =
     (if py_strip repository \<noteq> [] then py_lower (py_strip repository)
      else case pr_url_repository (py_strip pr_url) of None \<Rightarrow> [] | Some r \<Rightarrow> py_lower r)"

definition repository_mismatch :: "string \<Rightarrow> string \<Rightarrow> string \<Rightarrow> bool" where
  "repository_mismatch repository pr_url remote =
     (let was = recorded_repository repository pr_url; now = repository_of remote
      in was = [] \<or> now = [] \<or> was \<noteq> now)"

subsection \<open>Deliver and close\<close>

datatype remote_action =
    Push string string "string option"
  | OpenPR string string string
  | CommentPR string int
  | ClosePR string int

record delivery_result =
  dr_item_id :: string
  dr_branch :: string
  dr_base :: string
  dr_commit_sha :: string
  dr_pr_url :: string
  dr_pr_number :: int
  dr_pack_hash :: string
  dr_previous_commit_sha :: string
  dr_updated :: bool
  dr_comment_error :: bool
  dr_repository :: string

definition dr_pr_ref :: "delivery_result \<Rightarrow> string" where
  "dr_pr_ref d = (if dr_pr_url d \<noteq> [] then dr_pr_url d else dr_branch d @ ''@'' @ take 12 (dr_commit_sha d))"

text \<open>What the provider, git and the forge answer; \<open>dw_comment\<close> is \<open>None\<close> when no comment function is given.\<close>

record delivery_world =
  dw_creds :: "string \<Rightarrow> git_credentials result"
  dw_commit :: "string \<Rightarrow> string result"
  dw_push :: "unit result"
  dw_open :: "(string \<times> int) result"
  dw_comment :: "unit result option"
  dw_close :: "unit result"

record built_change =
  bc_pack_hash :: string
  bc_clean :: bool
  bc_disqualified :: bool

text \<open>A delivery answers its result and the calls it made to the remote, in order, whether it raised or not.\<close>

type_synonym 'a remote = "'a result \<times> remote_action list"

definition re_push :: "delivery_world \<Rightarrow> delivery_result \<Rightarrow> git_credentials \<Rightarrow> string \<Rightarrow> string \<Rightarrow> string \<Rightarrow>
    backlog_item \<Rightarrow> built_change \<Rightarrow> delivery_result remote" where
  "re_push W previous c branch base sha i b =
     (let push = Push (gc_remote c) branch (Some (dr_commit_sha previous)) in
      case dw_push W of Inl e \<Rightarrow> (Inl e, [push])
      | Inr _ \<Rightarrow>
          let asked = (dw_comment W \<noteq> None \<and> dr_pr_number previous > 0);
              failed = (asked \<and> (case dw_comment W of Some (Inl _) \<Rightarrow> True | _ \<Rightarrow> False))
          in (Inr \<lparr>dr_item_id = bi_id i, dr_branch = branch, dr_base = base, dr_commit_sha = sha, dr_pr_url = dr_pr_url previous,
                dr_pr_number = dr_pr_number previous, dr_pack_hash = bc_pack_hash b,
                dr_previous_commit_sha = dr_commit_sha previous, dr_updated = True, dr_comment_error = failed,
                dr_repository = repository_of (gc_remote c)\<rparr>,
              push # (if asked then [CommentPR (gc_remote c) (dr_pr_number previous)] else [])))"

definition first_push :: "delivery_world \<Rightarrow> git_credentials \<Rightarrow> string \<Rightarrow> string \<Rightarrow> string \<Rightarrow> backlog_item \<Rightarrow> built_change \<Rightarrow>
    delivery_result remote" where
  "first_push W c branch base sha i b =
     (let push = Push (gc_remote c) branch None; openpr = OpenPR (gc_remote c) branch base in
      case dw_push W of Inl e \<Rightarrow> (Inl e, [push])
      | Inr _ \<Rightarrow> (case dw_open W of Inl e \<Rightarrow> (Inl e, [push, openpr])
          | Inr (url, number) \<Rightarrow> (Inr \<lparr>dr_item_id = bi_id i, dr_branch = branch, dr_base = base, dr_commit_sha = sha, dr_pr_url = url,
                dr_pr_number = number, dr_pack_hash = bc_pack_hash b, dr_previous_commit_sha = [], dr_updated = False,
                dr_comment_error = False, dr_repository = repository_of (gc_remote c)\<rparr>, [push, openpr])))"

definition wanted_branch :: "backlog_item \<Rightarrow> delivery_result option \<Rightarrow> string result" where
  "wanted_branch i previous = bind_result (delivery_branch_name i) (\<lambda>wanted. Inr (case previous of
     Some p \<Rightarrow> if dr_branch p = legacy_delivery_branch_name i then dr_branch p else wanted | None \<Rightarrow> wanted))"

text \<open>The refusals, in the order of the code, up to the branch, the credentials and the commit.\<close>

definition check_previous :: "backlog_item \<Rightarrow> string \<Rightarrow> string \<Rightarrow> delivery_result option \<Rightarrow> unit result" where
  "check_previous i branch base previous = (case previous of None \<Rightarrow> Inr ()
   | Some p \<Rightarrow> guarded
       [(dr_item_id p \<noteq> bi_id i, delivery_error ''another item''),
        (dr_branch p \<noteq> branch \<or> dr_base p \<noteq> base, delivery_error ''another branch''),
        (py_strip (dr_commit_sha p) = [], delivery_error ''no commit'')] ())"

definition same_repository :: "delivery_result option \<Rightarrow> string \<Rightarrow> unit result" where
  "same_repository previous remote = (case previous of None \<Rightarrow> Inr ()
   | Some p \<Rightarrow> if repository_mismatch (dr_repository p) (dr_pr_url p) remote then Inl (delivery_error ''another repository'') else Inr ())"

definition deliver_checks :: "delivery_world \<Rightarrow> backlog_item \<Rightarrow> built_change \<Rightarrow> string \<Rightarrow> string \<Rightarrow> delivery_result option \<Rightarrow> string \<Rightarrow>
    (string \<times> string \<times> git_credentials \<times> string) result" where
  "deliver_checks W i b target repo_id previous word =
     bind_result (wanted_branch i previous) (\<lambda>wanted.
     bind_result (assert_not_default_branch wanted target) (\<lambda>branch.
     let base = norm_branch target in
     bind_result (guarded [(base = [], delivery_error ''no base''), (word \<noteq> VERDICT_ACCEPT, delivery_error ''not accepted'')] ()) (\<lambda>_.
     bind_result (check_previous i branch base previous) (\<lambda>_.
     bind_result (dw_creds W repo_id) (\<lambda>c.
     bind_result (same_repository previous (gc_remote c)) (\<lambda>_.
     bind_result (guarded [(\<not> bc_clean b, delivery_error ''not clean''), (bc_disqualified b, delivery_error ''disqualified'')] ()) (\<lambda>_.
     bind_result (dw_commit W branch) (\<lambda>sha.
     bind_result (assert_not_default_branch branch base) (\<lambda>_.
     Inr (branch, base, c, sha))))))))))"

definition deliver :: "delivery_world \<Rightarrow> backlog_item \<Rightarrow> built_change \<Rightarrow> string \<Rightarrow> string \<Rightarrow> delivery_result option \<Rightarrow> string \<Rightarrow>
    delivery_result remote" where
  "deliver W i b target repo_id previous word =
     (case deliver_checks W i b target repo_id previous word of Inl e \<Rightarrow> (Inl e, [])
      | Inr (branch, base, c, sha) \<Rightarrow>
          (case previous of Some p \<Rightarrow> re_push W p c branch base sha i b | None \<Rightarrow> first_push W c branch base sha i b))"

definition close_pull_request :: "delivery_world \<Rightarrow> delivery_result \<Rightarrow> string \<Rightarrow> string \<Rightarrow> unit remote" where
  "close_pull_request W previous word repo_id =
     (case bind_result (guarded
          [(word = VERDICT_ACCEPT, delivery_error ''accepted''),
           (dr_pr_number previous \<le> 0, delivery_error ''no pull request''),
           (py_strip repo_id = [], delivery_error ''no repository'')] ()) (\<lambda>_.
        bind_result (dw_creds W repo_id) (\<lambda>c. bind_result (same_repository (Some previous) (gc_remote c)) (\<lambda>_. Inr c))) of
        Inl e \<Rightarrow> (Inl e, [])
      | Inr c \<Rightarrow> (dw_close W, [ClosePR (gc_remote c) (dr_pr_number previous)]))"

end
