(* ===== verification/Evidence_Correct.thy ===== *)
theory Evidence_Correct
  imports Factory_Evidence
begin

section \<open>Correctness of the evidence chain\<close>

text \<open>
  A chain written through the governed steps verifies, and carries the order the factory claims: a grant funds
  one run, an edit follows a verdict of its build, a pull request ends once, an item has one waiting grant.
\<close>

subsection \<open>The chain interface\<close>

interpretation fl: chain_writer fe_prev_hash fe_row_hash "fe_compute_hash H" fe_body "\<lambda>_. True" "fe_chained H" for H
proof
  show "fe_prev_hash r = fe_prev_hash r'" if "fe_body r = fe_body r'" for r r'
  proof -
    have "fe_prev_hash (fe_body r) = fe_prev_hash (fe_body r')" by (simp only: that)
    then show ?thesis by (simp add: fe_body_def)
  qed
  show "r = r'" if "fe_body r = fe_body r'" "fe_row_hash r = fe_row_hash r'" for r r' :: fevent
    using that by (cases r, cases r') (simp add: fe_body_def)
qed (simp_all add: fe_compute_hash_def fe_chained_def fe_body_def Let_def)

lemma fe_walk_iff:
  "fe_walk H prev n es = Inr m \<longleftrightarrow> m = n + length es \<and> chain_ok fe_prev_hash fe_row_hash (fe_compute_hash H) prev es"
  by (induction H prev n es rule: fe_walk.induct) (auto simp: fe_verify_hash_def)

lemma verify_events_iff:
  "verify_events H evs = Inr m \<longleftrightarrow> m = length evs \<and> chain_ok fe_prev_hash fe_row_hash (fe_compute_hash H) GENESIS_HASH evs"
  by (simp add: verify_events_def fe_walk_iff)

lemma fe_last_hash_head: "fe_last_hash evs = Inr h \<Longrightarrow> h = chain_head fe_row_hash GENESIS_HASH evs"
  by (auto simp: fe_last_hash_def chain_head_def split: if_splits)

text \<open>What an append adds: the event, its content unchanged, linked onto the head.\<close>

definition same_event :: "fevent \<Rightarrow> fevent \<Rightarrow> bool" where
  "same_event c e \<longleftrightarrow> fe_kind c = fe_kind e \<and> fe_item_id c = fe_item_id e \<and> fe_payload c = fe_payload e \<and>
     fe_event_id c = fe_event_id e \<and> fe_actor c = fe_actor e"

lemma chained_same: "same_event (fe_chained H e p) e"
  by (simp add: same_event_def fe_chained_def Let_def)

lemma store_append_Inr:
  assumes "store_append H e evs = Inr (c, evs')"
  shows "evs' = evs @ [c] \<and> same_event c e \<and> c = fe_chained H e (chain_head fe_row_hash GENESIS_HASH evs)"
proof -
  obtain h where h: "fe_last_hash evs = Inr h" "c = fe_chained H e h" "evs' = evs @ [c]"
    using assms by (auto simp: store_append_def Let_def)
  then show ?thesis using fe_last_hash_head [OF h(1)] chained_same by simp
qed

lemma FactoryEvent_Inr:
  "FactoryEvent C kind item_id p stamp = Inr e \<Longrightarrow> fe_kind e = kind \<and> fe_item_id e = item_id \<and>
     fe_payload e = map (\<lambda>(k, v). (k, redact_value (ec_redact C) v)) p \<and> fe_event_id e = snd stamp \<and> kind \<in> set EVENT_KINDS"
  by (auto simp: FactoryEvent_def)

lemma map_of_redacted:
  "map_of (map (\<lambda>(k, v). (k, redact_value r v)) p) k = map_option (redact_value r) (map_of p k)"
  by (induction p) auto

lemma pstr_redacted: "r (pstr p k) = pstr p k \<Longrightarrow> pstr (map (\<lambda>(k, v). (k, redact_value r v)) p) k = pstr p k"
  by (auto simp: pstr_def map_of_redacted split: option.split jval.split)

lemma pint_redacted: "pint (map (\<lambda>(k, v). (k, redact_value r v)) p) k = pint p k"
  by (auto simp: pint_def map_of_redacted split: option.split jval.split)

lemma pbool_redacted: "pbool (map (\<lambda>(k, v). (k, redact_value r v)) p) k d = pbool p k d"
  by (auto simp: pbool_def map_of_redacted split: option.split jval.split)

lemma ev_append_Inr:
  assumes "ev_append C kind item_id p stamp evs = Inr (c, evs')"
  shows "evs' = evs @ [c] \<and> fe_kind c = kind \<and> fe_item_id c = item_id \<and> fe_event_id c = snd stamp \<and>
    fe_payload c = map (\<lambda>(k, v). (k, redact_value (ec_redact C) v)) p \<and>
    (\<exists>e. c = fe_chained (ec_hash C) e (chain_head fe_row_hash GENESIS_HASH evs))"
proof -
  obtain e where e: "FactoryEvent C kind item_id p stamp = Inr e" "store_append (ec_hash C) e evs = Inr (c, evs')"
    using assms by (auto simp: ev_append_def)
  show ?thesis using FactoryEvent_Inr [OF e(1)] store_append_Inr [OF e(2)] by (auto simp: same_event_def)
qed

lemma append_if_Inr:
  assumes "bind_result (FactoryEvent C kind item_id p stamp) (\<lambda>e. store_append_if (ec_hash C) e admit evs) = Inr (r, evs')"
  shows "(r = None \<and> \<not> admit evs \<and> evs' = evs) \<or> (\<exists>c. r = Some c \<and> admit evs \<and> ev_append C kind item_id p stamp evs = Inr (c, evs'))"
  using assms by (auto simp: store_append_if_def ev_append_def split: if_splits)

subsection \<open>Chains written through the governed steps\<close>

text \<open>The kinds whose operation checks something of the chain.\<close>

definition CHECKED_KINDS :: "string set" where
  "CHECKED_KINDS = {EV_VERDICT, EV_EDIT, EV_CALIBRATION_FUNDED, EV_CALIBRATION_CLAIMED, EV_DELIVERY_MERGED, EV_DELIVERY_CLOSED}"

text \<open>
  The identifiers callers pass (event ids, pack hashes) are hexadecimal, and redaction leaves them as they are.
\<close>

inductive governed :: "ev_ctx \<Rightarrow> fevent list \<Rightarrow> bool" for C where
  empty: "governed C []"
| plain_step: "governed C evs'" if "governed C evs" "kind \<notin> CHECKED_KINDS" "ev_append C kind item_id p stamp evs = Inr (e, evs')"
| verdict: "governed C evs'" if "governed C evs" "record_verdict C v stamp evs = Inr (e, evs')"
    "ec_redact C (pstr v ''pack_hash'') = pstr v ''pack_hash''"
| edit: "governed C evs'" if "governed C evs" "record_edit C item_id pack_hash editor note stamp evs = Inr (e, evs')"
    "ec_redact C pack_hash = pack_hash"
| outcome: "governed C evs'" if "governed C evs" "record_delivery_outcome C item_id po stamp evs = Inr (r, evs')"
| funded: "governed C evs'" if "governed C evs" "record_calibration C item_id approver reason answers stamp evs = Inr (c, evs')"
| claimed: "governed C evs'" if "governed C evs" "claim_calibration C item_id grant run_id stamp evs = Inr (c, evs')"
    "ec_redact C grant = grant"

text \<open>What each kind's operation admits after a chain.\<close>

definition admitted :: "fevent list \<Rightarrow> fevent \<Rightarrow> bool" where
  "admitted pre e \<longleftrightarrow>
     (fe_kind e = EV_CALIBRATION_CLAIMED \<longrightarrow> pstr (fe_payload e) ''grant'' \<notin> spent_grants pre) \<and>
     (fe_kind e = EV_CALIBRATION_FUNDED \<longrightarrow> waiting_grant pre (fe_item_id e) = None) \<and>
     (fe_kind e = EV_EDIT \<longrightarrow> verdict_for pre (fe_item_id e) (pstr (fe_payload e) ''pack_hash'') \<noteq> None) \<and>
     (fe_kind e = EV_VERDICT \<and> pbool (fe_payload e) ''recorded_before_edit'' True \<longrightarrow>
       edits_for pre (fe_item_id e) (pstr (fe_payload e) ''pack_hash'') = []) \<and>
     (fe_kind e = EV_DELIVERY_CLOSED \<longrightarrow> outcome_for pre (fe_item_id e) (pint (fe_payload e) ''pr_number'') = None) \<and>
     (fe_kind e = EV_DELIVERY_MERGED \<longrightarrow> (\<forall>x. outcome_for pre (fe_item_id e) (pint (fe_payload e) ''pr_number'') = Some x \<longrightarrow>
       fe_kind x = EV_DELIVERY_CLOSED))"

text \<open>One governed step leaves the chain as it is or adds one linked event its kind admits.\<close>

definition extends :: "ev_ctx \<Rightarrow> fevent list \<Rightarrow> fevent list \<Rightarrow> bool" where
  "extends C evs evs' \<longleftrightarrow> evs' = evs \<or> (\<exists>c e. evs' = evs @ [c] \<and> admitted evs c \<and>
     c = fe_chained (ec_hash C) e (chain_head fe_row_hash GENESIS_HASH evs))"

lemma extends_append:
  assumes "ev_append C kind item_id p stamp evs = Inr (c, evs')" "admitted evs c"
  shows "extends C evs evs'"
  using ev_append_Inr [OF assms(1)] assms(2) unfolding extends_def by blast

lemma plain_admitted:
  assumes "ev_append C kind item_id p stamp evs = Inr (c, evs')" "kind \<notin> CHECKED_KINDS"
  shows "admitted evs c"
  using ev_append_Inr [OF assms(1)] assms(2) by (auto simp: admitted_def CHECKED_KINDS_def)

lemma without_item_key: "k \<noteq> ''item_id'' \<Longrightarrow> map_of (without_item p) k = map_of p k"
  by (induction p) (auto simp: without_item_def)

lemma verdict_admitted:
  assumes "record_verdict C v stamp evs = Inr (c, evs')" "ec_redact C (pstr v ''pack_hash'') = pstr v ''pack_hash''"
  shows "admitted evs c \<and> extends C evs evs'"
proof -
  have a: "ev_append C EV_VERDICT (pstr v ''item_id'') (without_item v) stamp evs = Inr (c, evs')"
    and g: "\<not> (pbool v ''recorded_before_edit'' True \<and> edits_for evs (pstr v ''item_id'') (pstr v ''pack_hash'') \<noteq> [])"
    using assms(1) by (auto simp: record_verdict_def split: if_splits)
  have k: "pstr (without_item v) ''pack_hash'' = pstr v ''pack_hash''" "pbool (without_item v) ''recorded_before_edit'' True = pbool v ''recorded_before_edit'' True"
    by (simp_all add: pstr_def pbool_def without_item_key)
  note e = ev_append_Inr [OF a]
  have "pstr (fe_payload c) ''pack_hash'' = pstr v ''pack_hash''"
    using pstr_redacted [of "ec_redact C" "without_item v" "''pack_hash''"] assms(2) e k(1) by simp
  moreover have "pbool (fe_payload c) ''recorded_before_edit'' True = pbool v ''recorded_before_edit'' True"
    using e k(2) by (simp add: pbool_redacted)
  ultimately have "admitted evs c" using e g by (simp add: admitted_def ev_words)
  then show ?thesis using extends_append [OF a] by blast
qed

lemma edit_admitted:
  assumes "record_edit C item_id pack_hash editor note stamp evs = Inr (c, evs')" "ec_redact C pack_hash = pack_hash"
  shows "admitted evs c \<and> extends C evs evs'"
proof -
  have a: "ev_append C EV_EDIT item_id [(''pack_hash'', JStr pack_hash), (''editor'', JStr editor), (''note'', JStr note)] stamp evs = Inr (c, evs')"
    and g: "verdict_for evs item_id pack_hash \<noteq> None"
    using assms(1) by (auto simp: record_edit_def split: if_splits)
  note e = ev_append_Inr [OF a]
  have "pstr (fe_payload c) ''pack_hash'' = pack_hash" using e assms(2) by (simp add: pstr_def)
  then have "admitted evs c" using e g by (simp add: admitted_def ev_words)
  then show ?thesis using extends_append [OF a] by blast
qed

lemma claim_admitted:
  assumes "claim_calibration C item_id grant run_id stamp evs = Inr (r, evs')" "ec_redact C grant = grant"
  shows "(r = None \<and> grant \<in> spent_grants evs \<and> evs' = evs) \<or>
    (\<exists>c. r = Some c \<and> grant \<notin> spent_grants evs \<and> evs' = evs @ [c] \<and> fe_kind c = EV_CALIBRATION_CLAIMED \<and>
      pstr (fe_payload c) ''grant'' = grant \<and> admitted evs c \<and> extends C evs evs')"
  using append_if_Inr [OF assms(1) [unfolded claim_calibration_def]]
proof (elim disjE exE conjE)
  fix c assume r: "r = Some c" and n: "grant \<notin> spent_grants evs"
    and a: "ev_append C EV_CALIBRATION_CLAIMED item_id [(''grant'', JStr grant), (''run_id'', JStr run_id)] stamp evs = Inr (c, evs')"
  note e = ev_append_Inr [OF a]
  have p: "pstr (fe_payload c) ''grant'' = grant" using e assms(2) by (simp add: pstr_def)
  then have "admitted evs c" using e n by (simp add: admitted_def ev_words)
  then show ?thesis using r n e p extends_append [OF a] by blast
qed auto

lemma calibration_admitted:
  assumes "record_calibration C item_id approver reason answers stamp evs = Inr (r, evs')"
  shows "(r = None \<and> evs' = evs) \<or> (\<exists>c. r = Some c \<and> admitted evs c \<and> extends C evs evs')"
proof -
  have "\<not> (py_strip approver = [] \<or> py_strip reason = [])" using assms by (auto simp: record_calibration_def)
  with assms have "bind_result (FactoryEvent C EV_CALIBRATION_FUNDED item_id
      [(''approver'', JStr approver), (''reason'', JStr reason), (''answers'', JStr answers)] stamp)
      (\<lambda>e. store_append_if (ec_hash C) e (\<lambda>evs. waiting_grant evs item_id = None) evs) = Inr (r, evs')"
    by (simp only: record_calibration_def if_False)
  from append_if_Inr [OF this] show ?thesis
  proof (elim disjE exE conjE)
    fix c assume r: "r = Some c" and n: "waiting_grant evs item_id = None"
      and a: "ev_append C EV_CALIBRATION_FUNDED item_id
        [(''approver'', JStr approver), (''reason'', JStr reason), (''answers'', JStr answers)] stamp evs = Inr (c, evs')"
    have "admitted evs c" using ev_append_Inr [OF a] n by (simp add: admitted_def ev_words)
    then show ?thesis using r extends_append [OF a] by blast
  qed auto
qed

lemma outcome_kinds: "map_of OUTCOME_KINDS st = Some kind \<Longrightarrow> kind = EV_DELIVERY_MERGED \<or> kind = EV_DELIVERY_CLOSED"
  unfolding OUTCOME_KINDS_def map_of.simps fst_conv snd_conv fun_upd_apply by (metis option.distinct(1) option.inject)

lemma outcome_pr: "pint (outcome_payload po) ''pr_number'' = po_pr_number po"
  by (simp add: outcome_payload_def pint_def)

lemma last_of_Some: "last_of P xs = Some x \<Longrightarrow> x \<in> set xs \<and> P x"
  using last_in_set [of "filter P xs"] by (auto simp: last_of_def Let_def split: if_splits)

lemma last_of_None: "last_of P xs = None \<longleftrightarrow> (\<forall>x\<in>set xs. \<not> P x)"
  by (auto simp: last_of_def Let_def filter_empty_conv)

lemma outcome_for_kind:
  "outcome_for evs i n = Some x \<Longrightarrow> fe_kind x \<in> {EV_DELIVERY_MERGED, EV_DELIVERY_CLOSED}"
  unfolding outcome_for_def by (drule last_of_Some) simp

lemma outcome_admits:
  assumes "fe_kind c = kind" "kind = EV_DELIVERY_MERGED \<or> kind = EV_DELIVERY_CLOSED"
    "\<not> (\<exists>x. outcome_for evs (fe_item_id c) (pint (fe_payload c) ''pr_number'') = Some x \<and> fe_kind x \<in> {kind, EV_DELIVERY_MERGED})"
  shows "admitted evs c"
proof -
  have n: "kind \<noteq> EV_CALIBRATION_CLAIMED \<and> kind \<noteq> EV_CALIBRATION_FUNDED \<and> kind \<noteq> EV_EDIT \<and> kind \<noteq> EV_VERDICT"
    using assms(2) by (elim disjE) (simp_all add: ev_words)
  show ?thesis
  proof (cases "outcome_for evs (fe_item_id c) (pint (fe_payload c) ''pr_number'')")
    case None
    then show ?thesis unfolding admitted_def assms(1) using n by simp
  next
    case (Some x)
    from outcome_for_kind [OF this] show ?thesis
      unfolding admitted_def assms(1) Some using n assms(2,3) Some by auto
  qed
qed

lemma outcome_admitted:
  assumes "record_delivery_outcome C item_id po stamp evs = Inr ((c, anew), evs')"
  shows "(\<not> anew \<and> evs' = evs) \<or> (anew \<and> admitted evs c \<and> extends C evs evs')"
proof -
  from assms obtain kind where k: "map_of OUTCOME_KINDS (po_state po) = Some kind"
    by (auto simp: record_delivery_outcome_def split: option.splits)
  note kk = outcome_kinds [OF k]
  show ?thesis
  proof (cases "\<exists>x. outcome_for evs item_id (po_pr_number po) = Some x \<and> fe_kind x \<in> {kind, EV_DELIVERY_MERGED}")
    case True
    then obtain x where "outcome_for evs item_id (po_pr_number po) = Some x" "fe_kind x \<in> {kind, EV_DELIVERY_MERGED}" by blast
    then have "\<not> anew \<and> evs' = evs" using assms by (simp add: record_delivery_outcome_def k)
    then show ?thesis by blast
  next
    case False
    then have "record_delivery_outcome C item_id po stamp evs =
        bind_result (ev_append C kind item_id (outcome_payload po) stamp evs) (\<lambda>(e, evs'). Inr ((e, True), evs'))"
      unfolding record_delivery_outcome_def k option.case Let_def
      by (cases "outcome_for evs item_id (po_pr_number po)") simp_all
    with assms have a: "anew" "ev_append C kind item_id (outcome_payload po) stamp evs = Inr (c, evs')" by auto
    note e = ev_append_Inr [OF a(2)]
    have pr: "pint (fe_payload c) ''pr_number'' = po_pr_number po" using e by (simp only: pint_redacted outcome_pr)
    have i: "fe_kind c = kind" "fe_item_id c = item_id" using e by blast+
    have "admitted evs c" by (rule outcome_admits [OF i(1) kk]) (unfold pr i(2), rule False)
    then show ?thesis using a(1) extends_append [OF a(2)] by blast
  qed
qed

text \<open>The chains that grow by admitted events; every governed chain is one.\<close>

inductive grown :: "ev_ctx \<Rightarrow> fevent list \<Rightarrow> bool" for C where
  none: "grown C []"
| one_more: "grown C (evs @ [c])" if "grown C evs" "admitted evs c"
    "c = fe_chained (ec_hash C) e (chain_head fe_row_hash GENESIS_HASH evs)"

lemma grown_extends: "grown C evs \<Longrightarrow> extends C evs evs' \<Longrightarrow> grown C evs'"
  by (auto simp: extends_def intro: grown.one_more)

lemma governed_grown: "governed C evs \<Longrightarrow> grown C evs"
proof (induction rule: governed.induct)
  case (plain_step evs kind item_id p stamp e evs')
  then show ?case using grown_extends extends_append plain_admitted by blast
next
  case (verdict evs v stamp e evs')
  then show ?case using grown_extends verdict_admitted by blast
next
  case (edit evs i h editor n stamp e evs')
  then show ?case using grown_extends edit_admitted by blast
next
  case (outcome evs i po stamp r evs')
  obtain c anew where "r = (c, anew)" by (cases r)
  with outcome_admitted outcome.hyps(2) have "evs' = evs \<or> extends C evs evs'" by blast
  then show ?case using outcome.IH grown_extends by blast
next
  case (funded evs i approver reason answers stamp c evs')
  then have "evs' = evs \<or> extends C evs evs'" using calibration_admitted by blast
  then show ?case using funded.IH grown_extends by blast
next
  case (claimed evs i grant run_id stamp c evs')
  then have "evs' = evs \<or> extends C evs evs'" using claim_admitted by blast
  then show ?case using claimed.IH grown_extends by blast
qed (rule grown.none)

lemma governed_chain:
  assumes "governed C evs" "\<And>b. ec_hash C b \<noteq> []"
  shows "chain_ok fe_prev_hash fe_row_hash (fe_compute_hash (ec_hash C)) GENESIS_HASH evs"
  using governed_grown [OF assms(1)]
proof (induction rule: grown.induct)
  case (one_more evs c e)
  show ?case unfolding one_more.hyps(3)
    by (rule fl.write_ok [OF one_more.IH]) (simp add: fe_compute_hash_def assms(2))
qed simp

lemma grown_admitted: "grown C evs \<Longrightarrow> evs = pre @ e # post \<Longrightarrow> admitted pre e"
proof (induction arbitrary: pre post rule: grown.induct)
  case (one_more evs c x)
  then show ?case by (cases post rule: rev_cases) auto
qed simp

lemmas governed_admitted = grown_admitted [OF governed_grown]

subsection \<open>Spent grants and waiting grants\<close>

lemma spent_grants_append [simp]: "spent_grants (a @ b) = spent_grants a \<union> spent_grants b"
  by (simp add: spent_grants_def)

lemma claimed_spends:
  "e \<in> set evs \<Longrightarrow> fe_kind e = EV_CALIBRATION_CLAIMED \<Longrightarrow> pstr (fe_payload e) ''grant'' = g \<Longrightarrow> g \<noteq> [] \<Longrightarrow> g \<in> spent_grants evs"
  by (auto simp: spent_grants_def spent_by_def)

text \<open>A list in which two elements of a kind never follow each other has at most one.\<close>

lemma at_most_one:
  assumes "\<And>pre e post. xs = pre @ e # post \<Longrightarrow> P e \<Longrightarrow> \<forall>x\<in>set pre. \<not> P x"
  shows "length (filter P xs) \<le> 1"
  using assms
proof (induction xs rule: rev_induct)
  case (snoc x xs)
  have "length (filter P xs) \<le> 1" by (rule snoc.IH) (use snoc.prems in \<open>metis append.assoc append_Cons\<close>)
  moreover have "filter P xs = []" if "P x" using snoc.prems [of xs x Nil] that by (simp add: filter_empty_conv)
  ultimately show ?case by auto
qed simp

lemma waiting_grant_spent:
  assumes "waiting_grant pre i = None" "f \<in> set pre" "fe_kind f = EV_CALIBRATION_FUNDED" "fe_item_id f = i"
  shows "\<exists>n\<in>set pre. fe_kind n = EV_CALIBRATION_FUNDED \<and> fe_item_id n = i \<and> fe_event_id n \<in> spent_grants pre \<and>
    last_of (\<lambda>e. fe_kind e = EV_CALIBRATION_FUNDED \<and> fe_item_id e = i) pre = Some n"
proof -
  let ?P = "\<lambda>e. fe_kind e = EV_CALIBRATION_FUNDED \<and> fe_item_id e = i"
  obtain n where n: "last_of ?P pre = Some n" using assms(2-4) last_of_None [of ?P pre] by (cases "last_of ?P pre") auto
  then have "fe_event_id n \<in> spent_grants pre" using assms(1) by (auto simp: waiting_grant_def split: if_splits)
  then show ?thesis using last_of_Some [OF n] n by blast
qed

lemma claims_once:
  assumes "governed C evs" "g \<noteq> []"
  shows "length (filter (\<lambda>e. fe_kind e = EV_CALIBRATION_CLAIMED \<and> pstr (fe_payload e) ''grant'' = g) evs) \<le> 1"
proof (rule at_most_one)
  fix pre e post
  assume "evs = pre @ e # post" "fe_kind e = EV_CALIBRATION_CLAIMED \<and> pstr (fe_payload e) ''grant'' = g"
  then show "\<forall>x\<in>set pre. \<not> (fe_kind x = EV_CALIBRATION_CLAIMED \<and> pstr (fe_payload x) ''grant'' = g)"
    using governed_admitted [OF assms(1)] claimed_spends [of _ pre g] assms(2) by (auto simp: admitted_def)
qed

subsection \<open>Properties\<close>

text \<open>
  Any chain written through the governed steps, whatever their order and however they interleave, verifies, and
  its count is the number of its events.
\<close>

theorem governed_chain_verifies:
  assumes "governed C evs" "\<And>b. ec_hash C b \<noteq> []"
  shows "verify_events (ec_hash C) evs = Inr (length evs)"
  using governed_chain [OF assms] by (simp add: verify_events_iff)

text \<open>
  A calibration grant is claimed at most once, however many runs try: and a claim after the first is answered
  \<open>None\<close> and leaves the chain as it was.
\<close>

theorem grant_claimed_once:
  assumes "governed C evs" "g \<noteq> []" "ec_redact C g = g"
  shows "length (filter (\<lambda>e. fe_kind e = EV_CALIBRATION_CLAIMED \<and> pstr (fe_payload e) ''grant'' = g) evs) \<le> 1 \<and>
    (claim_calibration C i g run_id stamp evs = Inr (r, evs') \<longrightarrow>
       (r = None \<longleftrightarrow> g \<in> spent_grants evs) \<and> (r = None \<longrightarrow> evs' = evs) \<and> (r \<noteq> None \<longrightarrow> g \<in> spent_grants evs'))"
proof -
  have "(r = None \<longleftrightarrow> g \<in> spent_grants evs) \<and> (r = None \<longrightarrow> evs' = evs) \<and> (r \<noteq> None \<longrightarrow> g \<in> spent_grants evs')"
    if "claim_calibration C i g run_id stamp evs = Inr (r, evs')"
    using claim_admitted [OF that assms(3)]
  proof (elim disjE exE conjE)
    fix c assume c: "r = Some c" "g \<notin> spent_grants evs" "evs' = evs @ [c]" "fe_kind c = EV_CALIBRATION_CLAIMED"
      "pstr (fe_payload c) ''grant'' = g"
    have "g \<in> spent_grants evs'" using c assms(2) by (intro claimed_spends [of c]) auto
    then show ?thesis using c by simp
  qed auto
  then show ?thesis using claims_once [OF assms(1,2)] by blast
qed


text \<open>
  A pull request ends at most twice on the chain, and a merge is the end: the outcomes recorded for it are none,
  one, or a close followed by a merge.
\<close>

theorem pr_outcome_terminal:
  assumes "governed C evs"
  shows "map fe_kind (filter (\<lambda>e. fe_item_id e = i \<and> fe_kind e \<in> {EV_DELIVERY_MERGED, EV_DELIVERY_CLOSED} \<and>
      pint (fe_payload e) ''pr_number'' = n) evs)
    \<in> {[], [EV_DELIVERY_CLOSED], [EV_DELIVERY_MERGED], [EV_DELIVERY_CLOSED, EV_DELIVERY_MERGED]}"
  using governed_grown [OF assms]
proof (induction rule: grown.induct)
  case (one_more evs c e)
  let ?P = "\<lambda>e. fe_item_id e = i \<and> fe_kind e \<in> {EV_DELIVERY_MERGED, EV_DELIVERY_CLOSED} \<and> pint (fe_payload e) ''pr_number'' = n"
  have o: "outcome_for evs i n = (if filter ?P evs = [] then None else Some (last (filter ?P evs)))"
    by (simp add: outcome_for_def last_of_def Let_def events_for_def conj_ac)
  have d: "EV_DELIVERY_MERGED \<noteq> EV_DELIVERY_CLOSED" by (simp add: ev_words)
  show ?case
  proof (cases "?P c")
    case True
    let ?ks = "map fe_kind (filter ?P evs)"
    have "?ks = [] \<or> (?ks = [EV_DELIVERY_CLOSED] \<and> fe_kind c = EV_DELIVERY_MERGED)"
    proof (cases "filter ?P evs = []")
      case False
      then have l: "outcome_for evs i n = Some (last (filter ?P evs))" "fe_kind (last (filter ?P evs)) = last ?ks"
        using o by (simp_all add: last_map)
      have "fe_kind c = EV_DELIVERY_MERGED \<and> last ?ks = EV_DELIVERY_CLOSED"
        using one_more.hyps(2) True l by (auto simp: admitted_def)
      then show ?thesis using one_more.IH d False by auto
    qed simp
    then show ?thesis using True by auto
  next
    case False
    then have "filter ?P (evs @ [c]) = filter ?P evs" by simp
    then show ?thesis using one_more.IH by simp
  qed
qed simp

text \<open>An item has at most one funded grant that is not spent, and it is the one a run would claim.\<close>

theorem one_waiting_grant:
  assumes "governed C evs"
  shows "length (filter (\<lambda>e. fe_kind e = EV_CALIBRATION_FUNDED \<and> fe_item_id e = i \<and> fe_event_id e \<notin> spent_grants evs) evs) \<le> 1"
proof (rule at_most_one, rule ballI, rule notI)
  let ?F = "\<lambda>e. fe_kind e = EV_CALIBRATION_FUNDED \<and> fe_item_id e = i"
  fix pre e post x
  assume evs: "evs = pre @ e # post" and e: "fe_kind e = EV_CALIBRATION_FUNDED \<and> fe_item_id e = i \<and> fe_event_id e \<notin> spent_grants evs"
    and x: "x \<in> set pre" "fe_kind x = EV_CALIBRATION_FUNDED \<and> fe_item_id x = i \<and> fe_event_id x \<notin> spent_grants evs"
  obtain a b where pre: "pre = a @ x # b" using split_list [OF x(1)] by blast
  have ex: "\<exists>y\<in>set (b @ [e]). ?F y" using e by auto
  obtain b1 y b2 where b: "b @ [e] = b1 @ y # b2" "?F y" "\<forall>z\<in>set b1. \<not> ?F z"
    using split_list_first_prop [OF ex] by blast
  have "evs = a @ x # (b @ [e]) @ post" by (simp add: evs pre)
  then have split: "evs = (a @ x # b1) @ y # (b2 @ post)" unfolding b(1) by simp
  have "last_of ?F (a @ x # b1) = Some x" using b(3) x(2) by (simp add: last_of_def Let_def filter_empty_conv)
  moreover have "waiting_grant (a @ x # b1) i = None" using governed_admitted [OF assms split] b(2) by (simp add: admitted_def)
  ultimately have "fe_event_id x \<in> spent_grants (a @ x # b1)" by (simp add: waiting_grant_def split: if_splits)
  then have "fe_event_id x \<in> spent_grants evs" unfolding split spent_grants_append by blast
  then show False using x(2) by blast
qed

subsection \<open>Witnesses\<close>

definition demo_ctx :: ev_ctx where
  "demo_ctx = \<lparr>ec_hash = (\<lambda>e. CHR ''#'' # fe_event_id e), ec_redact = (\<lambda>s. s), ec_actor = ''ann'', ec_repo = ''r''\<rparr>"

definition demo_event :: "string \<Rightarrow> payload \<Rightarrow> string \<Rightarrow> string \<Rightarrow> fevent" where
  "demo_event kind p event_id prev = fe_chained (ec_hash demo_ctx) \<lparr>fe_kind = kind, fe_item_id = ''a'', fe_payload = p,
     fe_actor = ''ann'', fe_repo = ''r'', fe_created = ''t'', fe_schema = FACTORY_EVIDENCE_SCHEMA, fe_event_id = event_id,
     fe_prev_hash = [], fe_row_hash = []\<rparr> prev"

text \<open>A grant, its claim, a verdict of build \<open>h\<close>, an edit of it, and a merge of pull request 7.\<close>

definition demo_grant :: fevent where
  "demo_grant = demo_event EV_CALIBRATION_FUNDED [(''approver'', JStr ''ann''), (''reason'', JStr ''try''), (''answers'', JStr [])] ''g'' GENESIS_HASH"

definition demo_claim :: fevent where
  "demo_claim = demo_event EV_CALIBRATION_CLAIMED [(''grant'', JStr ''g''), (''run_id'', JStr ''r1'')] ''c'' ''#g''"

definition demo_verdict :: fevent where
  "demo_verdict = demo_event EV_VERDICT [(''pack_hash'', JStr ''h'')] ''v'' ''#c''"

definition demo_edit :: fevent where
  "demo_edit = demo_event EV_EDIT [(''pack_hash'', JStr ''h''), (''editor'', JStr ''bob''), (''note'', JStr [])] ''e'' ''#v''"

definition demo_merge :: pr_outcome where
  "demo_merge = \<lparr>po_state = ''merged'', po_pr_number = 7, po_pr_url = [], po_merged_at = [], po_merged_by = [], po_merge_sha = [],
     po_closed_at = [], po_closed_by = [], po_verdict = [], po_reason = []\<rparr>"

definition demo_merged :: fevent where
  "demo_merged = demo_event EV_DELIVERY_MERGED (outcome_payload demo_merge) ''m'' ''#e''"

lemma demo_chain: "governed demo_ctx [demo_grant, demo_claim, demo_verdict, demo_edit, demo_merged]"
proof -
  have 1: "record_calibration demo_ctx ''a'' ''ann'' ''try'' [] (''t'', ''g'') [] = Inr (Some demo_grant, [demo_grant])" by code_simp
  have 2: "claim_calibration demo_ctx ''a'' ''g'' ''r1'' (''t'', ''c'') [demo_grant] = Inr (Some demo_claim, [demo_grant, demo_claim])" by code_simp
  have 3: "record_verdict demo_ctx [(''item_id'', JStr ''a''), (''pack_hash'', JStr ''h'')] (''t'', ''v'') [demo_grant, demo_claim] =
    Inr (demo_verdict, [demo_grant, demo_claim, demo_verdict])" by code_simp
  have 4: "record_edit demo_ctx ''a'' ''h'' ''bob'' [] (''t'', ''e'') [demo_grant, demo_claim, demo_verdict] =
    Inr (demo_edit, [demo_grant, demo_claim, demo_verdict, demo_edit])" by code_simp
  have 5: "record_delivery_outcome demo_ctx ''a'' demo_merge (''t'', ''m'') [demo_grant, demo_claim, demo_verdict, demo_edit] =
    Inr ((demo_merged, True), [demo_grant, demo_claim, demo_verdict, demo_edit, demo_merged])" by code_simp
  have r: "ec_redact demo_ctx x = x" for x by (simp add: demo_ctx_def)
  show ?thesis
    by (rule governed.outcome [OF governed.edit [OF governed.verdict [OF governed.claimed [OF governed.funded [OF governed.empty 1] 2 r] 3 r] 4 r] 5])
qed

lemma governed_chain_verifies_witness:
  "verify_events (ec_hash demo_ctx) [demo_grant, demo_claim, demo_verdict, demo_edit, demo_merged] = Inr 5"
  using governed_chain_verifies [OF demo_chain] by (simp add: demo_ctx_def)

lemma grant_claimed_once_witness:
  "claim_calibration demo_ctx ''a'' ''g'' ''r2'' (''t'', ''d'') [demo_grant, demo_claim, demo_verdict, demo_edit, demo_merged] =
     Inr (None, [demo_grant, demo_claim, demo_verdict, demo_edit, demo_merged]) \<and>
   length (filter (\<lambda>e. fe_kind e = EV_CALIBRATION_CLAIMED \<and> pstr (fe_payload e) ''grant'' = ''g'')
     [demo_grant, demo_claim, demo_verdict, demo_edit, demo_merged]) \<le> 1"
proof -
  have "ec_redact demo_ctx ''g'' = ''g''" by (simp add: demo_ctx_def)
  note g = grant_claimed_once [OF demo_chain _ this, of "''a''" "''r2''" "(''t'', ''d'')"]
  have "claim_calibration demo_ctx ''a'' ''g'' ''r2'' (''t'', ''d'') [demo_grant, demo_claim, demo_verdict, demo_edit, demo_merged] =
     Inr (None, [demo_grant, demo_claim, demo_verdict, demo_edit, demo_merged])" by code_simp
  then show ?thesis using g by simp
qed


lemma pr_outcome_terminal_witness:
  "map fe_kind (filter (\<lambda>e. fe_item_id e = ''a'' \<and> fe_kind e \<in> {EV_DELIVERY_MERGED, EV_DELIVERY_CLOSED} \<and>
      pint (fe_payload e) ''pr_number'' = 7) [demo_grant, demo_claim, demo_verdict, demo_edit, demo_merged])
    \<in> {[], [EV_DELIVERY_CLOSED], [EV_DELIVERY_MERGED], [EV_DELIVERY_CLOSED, EV_DELIVERY_MERGED]}"
  by (rule pr_outcome_terminal [OF demo_chain])

lemma one_waiting_grant_witness:
  "length (filter (\<lambda>e. fe_kind e = EV_CALIBRATION_FUNDED \<and> fe_item_id e = ''a'' \<and>
      fe_event_id e \<notin> spent_grants [demo_grant, demo_claim, demo_verdict, demo_edit, demo_merged])
    [demo_grant, demo_claim, demo_verdict, demo_edit, demo_merged]) \<le> 1"
  by (rule one_waiting_grant [OF demo_chain])

end
