(* ===== verification/Review_Correct.thy ===== *)
theory Review_Correct
  imports Review Evidence_Correct Backlog_Correct
begin

section \<open>Correctness of the RED proof and the review\<close>

text \<open>
  What a RED proof shows, when two identities are refused, that an opinion can only tighten the mechanical
  floor, and what an accepting verdict rests on.
\<close>

subsection \<open>The RED proof\<close>

text \<open>
  A proof exists exactly for a test on a test path, written inside the worktree, that the runner calls an oracle
  and that ran to completion, not green, with attributable failing ids; it cites the test's own bytes. Only a
  missing sandbox is let through as itself; every other outcome is a refusal.
\<close>

theorem red_proof_iff:
  "(\<exists>p. prove_red sha i a sc = Inr p) \<longleftrightarrow>
     rc_is_test sc \<and> \<not> rc_path_escapes sc \<and> rc_valid_oracle sc \<and>
     (\<exists>run. rc_run sc = Inr run \<and> \<not> rr_timed_out run \<and> \<not> rr_green run \<and> rr_parse_error run = [] \<and> rr_failing run \<noteq> [])"
proof -
  have "sort (rr_failing run) = [] \<longleftrightarrow> rr_failing run = []" for run by (metis length_0_conv length_sort)
  then show ?thesis by (cases "rc_run sc") (auto simp: prove_red_def RedProof_def split: if_splits)
qed

lemma prove_red_facts:
  assumes "prove_red sha i a sc = Inr p"
  shows "rp_test_sha256 p = sha (au_content a) \<and> rp_author p = au_author a \<and> rp_failing_ids p \<noteq> []"
  using assms by (auto simp: prove_red_def RedProof_def au_sha256_def simp del: bind_result_Inr split: if_splits sum.splits)

subsection \<open>Identities\<close>

lemma same_model_sym: "same_model keys a b = same_model keys b a"
  by (auto simp: same_model_def Let_def)

text \<open>
  Two identities pass exactly when both are named, they differ after case and white space, and their models, when
  both have one, are not the same model. The check does not depend on the order.
\<close>

theorem distinct_identity_iff:
  "(assert_distinct_identity keys a b = Inr () \<longleftrightarrow>
      py_strip a \<noteq> [] \<and> py_strip b \<noteq> [] \<and> py_lower (py_strip a) \<noteq> py_lower (py_strip b) \<and>
      (model_half a = [] \<or> model_half b = [] \<or> \<not> same_model keys (model_half a) (model_half b))) \<and>
   (assert_distinct_identity keys a b = Inr () \<longleftrightarrow> assert_distinct_identity keys b a = Inr ())"
proof -
  have "(assert_distinct_identity keys x y = Inr () \<longleftrightarrow>
      py_strip x \<noteq> [] \<and> py_strip y \<noteq> [] \<and> py_lower (py_strip x) \<noteq> py_lower (py_strip y) \<and>
      (model_half x = [] \<or> model_half y = [] \<or> \<not> same_model keys (model_half x) (model_half y)))" for x y
    by (auto simp: assert_distinct_identity_def Let_def py_lower_def)
  then show ?thesis using same_model_sym by metis
qed

lemma distinct_identity_iff_witness:
  "assert_distinct_identity [''claude-sonnet-5''] ''author:sonnet'' ''builder:claude-sonnet-5-20260901'' \<noteq> Inr () \<and>
   assert_distinct_identity [''claude-sonnet-5''] ''author:sonnet'' ''builder:gpt-5'' = Inr ()"
proof -
  have "py_strip ''author:sonnet'' \<noteq> []" "py_strip ''builder:gpt-5'' \<noteq> []"
    "py_lower (py_strip ''author:sonnet'') \<noteq> py_lower (py_strip ''builder:gpt-5'')"
    "\<not> same_model [''claude-sonnet-5''] (model_half ''author:sonnet'') (model_half ''builder:gpt-5'')"
    "same_model [''claude-sonnet-5''] (model_half ''author:sonnet'') (model_half ''builder:claude-sonnet-5-20260901'')"
    "model_half ''author:sonnet'' \<noteq> []" "model_half ''builder:claude-sonnet-5-20260901'' \<noteq> []" by code_simp+
  then show ?thesis
    using distinct_identity_iff [of "[''claude-sonnet-5'']" "''author:sonnet''" "''builder:gpt-5''"]
      distinct_identity_iff [of "[''claude-sonnet-5'']" "''author:sonnet''" "''builder:claude-sonnet-5-20260901''"] by blast
qed

text \<open>
  A model id that canonicalises to nothing is never the same model as itself: the id \<open>@cf/meta/llama\<close>, whatever the
  pricing table, is cut at its first character, so one model on both sides of the oracle passes the check.
\<close>

theorem unnamed_model_passes:
  assumes "[] \<notin> set keys"
  shows "assert_distinct_identity keys ''author:@cf/meta/llama'' ''builder:@cf/meta/llama'' = Inr ()"
proof -
  have h: "model_half ''author:@cf/meta/llama'' = ''@cf/meta/llama''" "model_half ''builder:@cf/meta/llama'' = ''@cf/meta/llama''"
    by code_simp+
  have m: "last_segment (py_strip (drop_context_suffix (py_strip (fst (split_once CHR ''@'' (py_lower (py_strip ''@cf/meta/llama'')))))) ) = []"
    by code_simp
  have "[] \<notin> set (longest_first (map py_lower keys))" using assms by (auto simp: longest_first_def py_lower_def)
  then have "find (\<lambda>key. [] = key \<or> (starts_with [] key \<and> length key < length [] \<and> ([] :: string) ! length key \<in> set ID_BOUNDARY))
      (longest_first (map py_lower keys)) = None"
    by (auto simp: find_None_iff)
  moreover have "([] :: string) \<notin> set MODEL_FAMILY_ALIASES" by (simp add: MODEL_FAMILY_ALIASES_def)
  ultimately have "canonical_model keys ''@cf/meta/llama'' = []" by (simp add: canonical_model_def Let_def m)
  then have "\<not> same_model keys ''@cf/meta/llama'' ''@cf/meta/llama''" by (simp add: same_model_def)
  moreover have "py_strip ''author:@cf/meta/llama'' \<noteq> []" "py_strip ''builder:@cf/meta/llama'' \<noteq> []"
    "py_lower (py_strip ''author:@cf/meta/llama'') \<noteq> py_lower (py_strip ''builder:@cf/meta/llama'')" by code_simp+
  ultimately show ?thesis by (simp add: assert_distinct_identity_def Let_def h py_lower_def)
qed

lemma unnamed_model_passes_witness:
  "assert_distinct_identity [''claude-sonnet-5''] ''author:@cf/meta/llama'' ''builder:@cf/meta/llama'' = Inr ()"
  by (rule unnamed_model_passes) simp

subsection \<open>The verdict\<close>

lemma verdict_rank_word: "v \<in> set VERDICTS \<Longrightarrow> w \<in> set VERDICTS \<Longrightarrow> verdict_rank v = verdict_rank w \<Longrightarrow> v = w"
  by (auto simp: VERDICTS_def verdict_rank_def verdict_words)

text \<open>
  The mechanical floor: a failed required probe rejects; otherwise the verdict is the stricter of the opinion and
  what the findings ask for. So an opinion never loosens, and the verdict accepts exactly when no required probe
  failed, no finding is major or blocking, and the reviewer accepts.
\<close>

theorem opinion_only_tightens:
  assumes "op_verdict oo \<in> set VERDICTS"
  shows "derive_verdict oo ps \<in> set VERDICTS \<and> verdict_rank (op_verdict oo) \<le> verdict_rank (derive_verdict oo ps) \<and>
    verdict_rank (derive_verdict (mechanical_reviewer ps) ps) \<le> verdict_rank (derive_verdict oo ps) \<and>
    (derive_verdict oo ps = VERDICT_ACCEPT \<longleftrightarrow> op_verdict oo = VERDICT_ACCEPT \<and> \<not> list_ex pb_failed ps \<and>
      (\<forall>f\<in>set (concat (map pb_findings ps) @ op_findings oo). fd_severity f \<noteq> SEVERITY_MAJOR \<and> fd_severity f \<noteq> SEVERITY_BLOCKING))"
proof -
  have r: "op_verdict oo = VERDICT_ACCEPT \<or> op_verdict oo = VERDICT_ACCEPT_WITH_EDIT \<or> op_verdict oo = VERDICT_REJECT"
    using assms by (auto simp: VERDICTS_def)
  have k: "verdict_rank VERDICT_ACCEPT = 0" "verdict_rank VERDICT_ACCEPT_WITH_EDIT = 1" "verdict_rank VERDICT_REJECT = 2"
    "VERDICT_ACCEPT \<noteq> VERDICT_ACCEPT_WITH_EDIT" "VERDICT_ACCEPT \<noteq> VERDICT_REJECT"
    "VERDICT_ACCEPT_WITH_EDIT \<noteq> VERDICT_ACCEPT" "VERDICT_REJECT \<noteq> VERDICT_ACCEPT" "SEVERITY_BLOCKING \<noteq> SEVERITY_MAJOR"
    by (simp_all add: verdict_rank_def verdict_words SEVERITY_BLOCKING_def SEVERITY_MAJOR_def)
  let ?A = "map fd_severity (concat (map pb_findings ps))"
  let ?S = "set (?A @ map fd_severity (op_findings oo))"
  have s: "(\<forall>f\<in>set (concat (map pb_findings ps) @ op_findings oo). fd_severity f \<noteq> SEVERITY_MAJOR \<and> fd_severity f \<noteq> SEVERITY_BLOCKING) \<longleftrightarrow>
      SEVERITY_MAJOR \<notin> ?S \<and> SEVERITY_BLOCKING \<notin> ?S"
  proof -
    have n: "m \<notin> g ` A \<longleftrightarrow> (\<forall>f\<in>A. g f \<noteq> m)" for m :: string and g :: "finding \<Rightarrow> string" and A by auto
    show ?thesis unfolding map_append [symmetric] set_map n by (rule ball_conj_distrib)
  qed
  define bl where "bl \<longleftrightarrow> SEVERITY_BLOCKING \<in> ?S"
  define mj where "mj \<longleftrightarrow> SEVERITY_MAJOR \<in> ?S"
  have d: "derive_verdict oo ps = (if list_ex pb_failed ps then VERDICT_REJECT
      else let lowest = (if bl then VERDICT_REJECT else if mj then VERDICT_ACCEPT_WITH_EDIT else VERDICT_ACCEPT)
        in if verdict_rank lowest < verdict_rank (op_verdict oo) then op_verdict oo else lowest)"
    by (simp only: derive_verdict_def Let_def bl_def mj_def)
  have m: "derive_verdict (mechanical_reviewer ps) ps = (if list_ex pb_failed ps then VERDICT_REJECT
      else if SEVERITY_BLOCKING \<in> set ?A then VERDICT_REJECT else if SEVERITY_MAJOR \<in> set ?A then VERDICT_ACCEPT_WITH_EDIT else VERDICT_ACCEPT)"
    by (simp add: derive_verdict_def mechanical_reviewer_def k Let_def)
  have i: "SEVERITY_BLOCKING \<in> set ?A \<Longrightarrow> bl" "SEVERITY_MAJOR \<in> set ?A \<Longrightarrow> mj" by (auto simp: bl_def mj_def)
  show ?thesis unfolding s d m bl_def [symmetric] mj_def [symmetric]
    using r i by (elim disjE) (simp_all add: VERDICTS_def k)
qed

lemma opinion_only_tightens_witness:
  "derive_verdict (mechanical_reviewer []) [] = VERDICT_ACCEPT"
proof -
  have "op_verdict (mechanical_reviewer []) \<in> set VERDICTS" by (simp add: mechanical_reviewer_def VERDICTS_def)
  from opinion_only_tightens [OF this, of "[]"] show ?thesis by (simp add: mechanical_reviewer_def)
qed


text \<open>A build of another model, reviewed by the mechanical reviewer; the oracle scores 3/4 against a floor of 1/2.\<close>

definition demo_proof :: red_proof where
  "demo_proof = \<lparr>rp_item_id = ''a'', rp_test_path = ''t.py'', rp_test_sha256 = ''s'', rp_failing_ids = [''t::x''], rp_base_sha = ''b'',
     rp_target_scope = [''t.py''], rp_author = ''author:m1''\<rparr>"

definition demo_reviewed :: reviewed_build where
  "demo_reviewed = \<lparr>rb_rung = ''builder:m2'', rb_pack_hash = ''h'', rb_oracle_sha256 = ''s''\<rparr>"

definition demo_red :: red_run where
  "demo_red = \<lparr>rr_timed_out = False, rr_green = False, rr_parse_error = [], rr_failing = [''t::x'']\<rparr>"


end
