(* ===== verification/Delivery_Correct.thy ===== *)
theory Delivery_Correct
  imports Delivery Review_Correct
begin

section \<open>Correctness of delivery\<close>

text \<open>
  Nothing but a new branch is ever pushed, and only for an accepted, clean build; the branch name built from a
  ticket is always one of the safe shape; a ticket's text cannot leave its fenced block.
\<close>

subsection \<open>Branch names\<close>

abbreviation hyphen :: char where "hyphen \<equiv> CHR ''-''"

definition slug_ok :: "string \<Rightarrow> bool" where
  "slug_ok s \<longleftrightarrow> list_all (\<lambda>p. p \<noteq> [] \<and> list_all slug_char p) (split_on hyphen s)"

definition single_hyphens :: "string \<Rightarrow> bool" where
  "single_hyphens s \<longleftrightarrow> \<not> sublist [hyphen, hyphen] s"

definition slug_chars :: "string \<Rightarrow> bool" where
  "slug_chars s \<longleftrightarrow> list_all (\<lambda>c. slug_char c \<or> c = hyphen) s"

lemma hyphen_not_slug [simp]: "\<not> slug_char hyphen"
  by (simp add: slug_char_def)

lemma single_hyphens_Cons:
  "single_hyphens (c # s) \<longleftrightarrow> \<not> (c = hyphen \<and> s \<noteq> [] \<and> hd s = hyphen) \<and> single_hyphens s"
  by (cases s) (auto simp: single_hyphens_def sublist_Cons_right prefix_Cons)

lemma single_hyphens_Nil: "single_hyphens []"
  by (simp add: single_hyphens_def)

lemma single_hyphens_part: "single_hyphens s \<Longrightarrow> sublist t s \<Longrightarrow> single_hyphens t"
  unfolding single_hyphens_def by (blast intro: sublist_order.order_trans)

lemma rstrip_part: "prefix (rstrip_char c s) s"
proof -
  have "suffix (dropWhile (\<lambda>x. x = c) (rev s)) (rev s)" by (rule suffix_dropWhile)
  then show ?thesis by (simp add: rstrip_char_def suffix_to_prefix)
qed

lemma strip_part: "sublist (strip_char c s) s"
proof -
  have "prefix (strip_char c s) (dropWhile (\<lambda>x. x = c) s)" using rstrip_part [of c] by (simp add: strip_char_def rstrip_char_def)
  then show ?thesis using suffix_dropWhile [of "\<lambda>x. x = c" s]
    by (blast intro: sublist_order.order_trans prefix_imp_sublist suffix_imp_sublist)
qed

lemma slug_chars_part: "slug_chars s \<Longrightarrow> sublist t s \<Longrightarrow> slug_chars t"
  by (auto simp: slug_chars_def list_all_iff dest: set_mono_sublist)

lemma hyphenate_shape:
  "slug_chars (hyphenate inside s) \<and> single_hyphens (hyphenate inside s) \<and>
    (inside \<longrightarrow> hyphenate inside s = [] \<or> hd (hyphenate inside s) \<noteq> hyphen)"
proof (induction inside s rule: hyphenate.induct)
  case (2 inside c s)
  show ?case using 2 by (auto simp: slug_chars_def single_hyphens_Cons)
qed (simp add: slug_chars_def single_hyphens_Nil)

lemma slug_ok_intro:
  "slug_chars s \<Longrightarrow> single_hyphens s \<Longrightarrow> s \<noteq> [] \<Longrightarrow> hd s \<noteq> hyphen \<Longrightarrow> last s \<noteq> hyphen \<Longrightarrow> slug_ok s"
proof (induction "length s" arbitrary: s rule: less_induct)
  case less
  then obtain c t where s: "s = c # t" by (cases s) auto
  have c: "slug_char c" "c \<noteq> hyphen" using less.prems by (auto simp: s slug_chars_def)
  show ?case
  proof (cases t)
    case Nil
    then show ?thesis using c by (simp add: s slug_ok_def)
  next
    case (Cons d u)
    show ?thesis
    proof (cases "d = hyphen")
      case True
      with less.prems Cons s have u: "u \<noteq> []" by auto
      then have "hd u \<noteq> hyphen" using less.prems(2) True by (auto simp: s Cons single_hyphens_Cons)
      moreover have "single_hyphens u" using less.prems(2) by (auto simp: s Cons single_hyphens_Cons)
      ultimately have "slug_ok u" using less.prems u by (intro less.hyps) (auto simp: s Cons slug_chars_def)
      then show ?thesis using c by (simp add: s Cons True slug_ok_def)
    next
      case False
      have "slug_ok t" using less.prems False by (intro less.hyps) (auto simp: s Cons slug_chars_def single_hyphens_Cons)
      then show ?thesis using c by (auto simp: s slug_ok_def split: list.splits)
    qed
  qed
qed

lemma strip_first: "strip_char c s \<noteq> [] \<Longrightarrow> hd (strip_char c s) \<noteq> c"
proof -
  assume ne: "strip_char c s \<noteq> []"
  have p: "prefix (strip_char c s) (dropWhile (\<lambda>x. x = c) s)" using rstrip_part [of c] by (simp add: strip_char_def rstrip_char_def)
  then obtain t where t: "dropWhile (\<lambda>x. x = c) s = strip_char c s @ t" by (auto simp: prefix_def)
  then have "hd (dropWhile (\<lambda>x. x = c) s) = hd (strip_char c s)" using ne by simp
  moreover have "hd (dropWhile (\<lambda>x. x = c) s) \<noteq> c" using hd_dropWhile [of "\<lambda>x. x = c" s] t ne by auto
  ultimately show ?thesis by simp
qed

lemma rstrip_last: "rstrip_char c s \<noteq> [] \<Longrightarrow> last (rstrip_char c s) \<noteq> c"
  using hd_dropWhile [of "\<lambda>x. x = c" "rev s"] by (auto simp: rstrip_char_def last_rev)

lemma slug_ok_change: "slug_ok ''change''"
  by (simp add: slug_ok_def slug_char_def)

lemma slugify_ok: "slug_ok (slugify n text)"
proof -
  define h where "h = hyphenate False (py_lower text)"
  define t where "t = take n (strip_char hyphen h)"
  define r where "r = rstrip_char hyphen t"
  have r: "slugify n text = (if r \<noteq> [] then r else ''change'')" by (simp add: slugify_def r_def t_def h_def Let_def)
  have "prefix r t" unfolding r_def by (rule rstrip_part)
  moreover have "prefix t (strip_char hyphen h)" unfolding t_def by (rule take_is_prefix)
  ultimately have pr: "prefix r (strip_char hyphen h)" by (rule prefix_order.order_trans)
  then have part: "sublist r h" using strip_part [of hyphen h] by (blast intro: sublist_order.order_trans prefix_imp_sublist)
  have shape: "slug_chars r" "single_hyphens r"
    using hyphenate_shape [of False "py_lower text"] part by (auto simp: h_def intro: slug_chars_part single_hyphens_part)
  have "slug_ok r" if ne: "r \<noteq> []"
  proof (rule slug_ok_intro [OF shape ne])
    obtain u where "strip_char hyphen h = r @ u" using pr by (auto simp: prefix_def)
    then show "hd r \<noteq> hyphen" using strip_first [of hyphen h] ne by auto
    show "last r \<noteq> hyphen" using rstrip_last [of hyphen t] ne by (simp add: r_def)
  qed
  then show ?thesis using slug_ok_change by (simp add: r)
qed

lemma split_on_join_two: "split_on c (a @ c # b) = split_on c a @ split_on c b"
  by (induction a) (auto split: list.splits)

lemma slug_ok_append: "slug_ok a \<Longrightarrow> slug_ok b \<Longrightarrow> slug_ok (a @ [hyphen] @ b)"
  by (simp add: slug_ok_def split_on_join_two)

text \<open>
  Whatever a ticket's author puts into the id and the title, the delivery branch is built and has the safe shape:
  \<open>crb/\<close> and runs of lower-case letters and digits joined by single hyphens.
\<close>

theorem delivery_branch_always_safe:
  "delivery_branch_name i = Inr (DELIVERY_BRANCH_PREFIX @ slugify 64 (bi_id i) @ [hyphen] @ slugify 40 (bi_title i)) \<and>
    delivery_branch_ok (DELIVERY_BRANCH_PREFIX @ slugify 64 (bi_id i) @ [hyphen] @ slugify 40 (bi_title i))"
proof -
  have "slug_ok (slugify 64 (bi_id i) @ [hyphen] @ slugify 40 (bi_title i))" by (rule slug_ok_append [OF slugify_ok slugify_ok])
  then have "delivery_branch_ok (DELIVERY_BRANCH_PREFIX @ slugify 64 (bi_id i) @ [hyphen] @ slugify 40 (bi_title i))"
    by (simp add: delivery_branch_ok_def slug_ok_def)
  then show ?thesis by (simp add: delivery_branch_name_def)
qed

subsection \<open>A fenced ticket\<close>

abbreviation backtick :: char where "backtick \<equiv> CHR 0x60"

lemma longest_run_ge: "best \<le> longest_run best cur s \<and> cur \<le> longest_run best cur s"
  by (induction best cur s rule: longest_run.induct) auto

lemma longest_run_prefix: "prefix (replicate k backtick) s \<Longrightarrow> cur + k \<le> longest_run best cur s"
proof (induction best cur s arbitrary: k rule: longest_run.induct)
  case (1 best cur)
  then show ?case by simp
next
  case (2 best cur c s)
  show ?case
  proof (cases k)
    case 0
    then show ?thesis using longest_run_ge [of best cur "c # s"] by (simp only: add_0_right)
  next
    case (Suc m)
    then have "c = backtick" "prefix (replicate m backtick) s" using 2(3) by auto
    then show ?thesis using 2(1) [of m] Suc by simp
  qed
qed

lemma longest_run_sublist: "sublist (replicate k backtick) s \<Longrightarrow> k \<le> longest_run best cur s"
proof (induction best cur s rule: longest_run.induct)
  case (1 best cur)
  then show ?case by simp
next
  case (2 best cur c s)
  show ?case
  proof (cases "prefix (replicate k backtick) (c # s)")
    case True
    then show ?thesis using longest_run_prefix [of k "c # s" cur best] by simp
  next
    case False
    then have "sublist (replicate k backtick) s" using 2(3) by (auto simp: sublist_Cons_right)
    then show ?thesis using 2(1,2) by simp
  qed
qed

lemma part_of_split: "p \<in> set (split_on c s) \<Longrightarrow> sublist p s"
proof (induction s arbitrary: p)
  case Nil
  then show ?case by simp
next
  case (Cons x s)
  obtain q qs where q: "split_on c s = q # qs" by (cases "split_on c s") auto
  have hd: "prefix q s" using split_on_hd [of c s] q by (simp add: takeWhile_is_prefix)
  show ?case
  proof (cases "p \<in> set (split_on c s)")
    case True
    then show ?thesis using Cons.IH by (simp add: sublist_Cons_right)
  next
    case False
    then have "p = [] \<or> p = x # q" using Cons.prems q by (auto split: if_splits)
    then show ?thesis using hd by auto
  qed
qed

text \<open>
  A ticket's lines stay inside their fence: the block is an opening fence, lines none of which holds as many
  backticks in a row as the fence has, and the same fence again, at least three long.
\<close>

theorem fence_never_closed_by_ticket:
  "\<exists>f body. fenced info lines = (f @ info) # body @ [f] \<and> set f = {backtick} \<and> length f \<ge> 3 \<and>
     (\<forall>l\<in>set body. \<not> sublist f l)"
proof -
  define joined where "joined = join_with [newline] (map clean_line lines)"
  define f where "f = replicate (max 3 (longest_run 0 0 joined + 1)) backtick"
  have eq: "fenced info lines = (f @ info) # split_on newline joined @ [f]" by (simp add: fenced_def joined_def f_def Let_def)
  have "\<not> sublist f l" if l: "l \<in> set (split_on newline joined)" for l
  proof
    assume "sublist f l"
    then have "sublist f joined" using part_of_split [OF l] by (rule sublist_order.order_trans)
    then have "max 3 (longest_run 0 0 joined + 1) \<le> longest_run 0 0 joined" unfolding f_def by (rule longest_run_sublist)
    then show False by simp
  qed
  moreover have "set f = {backtick}" "length f \<ge> 3" by (auto simp: f_def)
  ultimately show ?thesis using eq by blast
qed

subsection \<open>What a delivery does to the remote\<close>

definition unprotected :: "string \<Rightarrow> string \<Rightarrow> bool" where
  "unprotected branch target \<longleftrightarrow> branch \<noteq> [] \<and> py_lower branch \<notin> set ALWAYS_PROTECTED_BRANCHES \<and>
     py_lower branch \<noteq> py_lower (norm_branch target)"

text \<open>The calls a delivery may make on a repository, given the pull request an earlier run opened.\<close>

definition delivery_action :: "string \<Rightarrow> string \<Rightarrow> delivery_result option \<Rightarrow> remote_action \<Rightarrow> bool" where
  "delivery_action target remote previous act = (case act of
     Push r branch lease \<Rightarrow> r = remote \<and> unprotected branch target \<and> lease = map_option dr_commit_sha previous
   | OpenPR r branch base \<Rightarrow> r = remote \<and> unprotected branch target \<and> base = norm_branch target \<and> previous = None
   | CommentPR r n \<Rightarrow> r = remote \<and> n > 0 \<and> map_option dr_pr_number previous = Some n
   | ClosePR r n \<Rightarrow> False)"

lemma protected_lower: "map py_lower ALWAYS_PROTECTED_BRANCHES = ALWAYS_PROTECTED_BRANCHES"
  by code_simp

lemma assert_not_default_Inr: "assert_not_default_branch b target = Inr r \<Longrightarrow> r = norm_branch b \<and>
    (norm_branch target \<noteq> [] \<longrightarrow> unprotected r target)"
  by (auto simp: assert_not_default_branch_def unprotected_def protected_lower Let_def split: if_splits)

lemma bind_Inr: "bind_result m f = Inr y \<Longrightarrow> \<exists>x. m = Inr x \<and> f x = Inr y"
  by (cases m) auto

lemma deliver_checks_Inr:
  assumes "deliver_checks W i b target repo_id previous word = Inr (branch, base, c, sha)"
  shows "word = VERDICT_ACCEPT \<and> bc_clean b \<and> \<not> bc_disqualified b \<and> base = norm_branch target \<and> unprotected branch target \<and>
    dw_creds W repo_id = Inr c \<and> dw_commit W branch = Inr sha \<and>
    (\<forall>p. previous = Some p \<longrightarrow> \<not> repository_mismatch (dr_repository p) (dr_pr_url p) (gc_remote c) \<and> dr_item_id p = bi_id i \<and>
      dr_branch p = branch \<and> dr_base p = base)"
  using assms unfolding deliver_checks_def Let_def
  by (auto dest!: bind_Inr assert_not_default_Inr simp: check_previous_def same_repository_def split: option.splits if_splits)

text \<open>
  A delivery that touches the remote at all is of an accepted, clean build that is not disqualified, to the
  repository the credentials name: it pushes a branch that is neither protected nor the target's default one,
  and opens a pull request only where none was open; a second delivery pushes over the recorded commit only, in
  the repository the pull request is in.
\<close>

theorem delivery_touches_only_its_branch:
  assumes "deliver W i b target repo_id previous word = (res, acts)" and "acts \<noteq> []"
  shows "word = VERDICT_ACCEPT \<and> bc_clean b \<and> \<not> bc_disqualified b \<and>
    (\<exists>c. dw_creds W repo_id = Inr c \<and> list_all (delivery_action target (gc_remote c) previous) acts \<and>
       (case previous of None \<Rightarrow> True | Some p \<Rightarrow> repository_of (gc_remote c) \<noteq> [] \<and>
          repository_of (gc_remote c) = recorded_repository (dr_repository p) (dr_pr_url p)))"
proof (cases "deliver_checks W i b target repo_id previous word")
  case (Inl e)
  then show ?thesis using assms by (simp add: deliver_def)
next
  case (Inr q)
  obtain branch base c sha where q: "q = (branch, base, c, sha)" by (cases q)
  note ok = deliver_checks_Inr [OF Inr [unfolded q]]
  have "list_all (delivery_action target (gc_remote c) previous) acts"
    using assms ok Inr q
    by (auto simp: deliver_def re_push_def first_push_def delivery_action_def Let_def split: option.splits sum.splits prod.splits if_splits)
  then show ?thesis using ok by (auto simp: repository_mismatch_def Let_def split: option.splits)
qed

text \<open>
  A pull request is closed only when the verdict is not \<open>accept\<close>, and only in the repository it was opened in.
\<close>

theorem close_only_refused_in_own_repository:
  assumes "close_pull_request W previous word repo_id = (res, acts)" and "acts \<noteq> []"
  shows "word \<noteq> VERDICT_ACCEPT \<and> dr_pr_number previous > 0 \<and>
    (\<exists>c. dw_creds W repo_id = Inr c \<and> acts = [ClosePR (gc_remote c) (dr_pr_number previous)] \<and>
       repository_of (gc_remote c) \<noteq> [] \<and> repository_of (gc_remote c) = recorded_repository (dr_repository previous) (dr_pr_url previous))"
  using assms unfolding close_pull_request_def
  by (auto dest!: bind_Inr simp: same_repository_def repository_mismatch_def Let_def split: sum.splits if_splits)

subsection \<open>Witnesses\<close>

definition demo_world :: delivery_world where
  "demo_world = \<lparr>dw_creds = (\<lambda>r. Inr \<lparr>gc_remote = ''https://h/o/r.git'', gc_token = ''t'', gc_username = ''u''\<rparr>),
     dw_commit = (\<lambda>b. Inr ''c2''), dw_push = Inr (), dw_open = Inr (''https://h/o/r/pull/7'', 7), dw_comment = Some (Inr ()),
     dw_close = Inr ()\<rparr>"

definition demo_change :: built_change where
  "demo_change = \<lparr>bc_pack_hash = ''p'', bc_clean = True, bc_disqualified = False\<rparr>"

definition demo_delivered :: delivery_result where
  "demo_delivered = \<lparr>dr_item_id = ''a'', dr_branch = ''crb/a-t'', dr_base = ''main'', dr_commit_sha = ''c1'',
     dr_pr_url = ''https://h/o/r/pull/7'', dr_pr_number = 7, dr_pack_hash = ''q'', dr_previous_commit_sha = [], dr_updated = False,
     dr_comment_error = False, dr_repository = ''o/r''\<rparr>"

lemma delivery_touches_only_its_branch_witness:
  "\<exists>res. deliver demo_world (demo_item ''a'' [] []) demo_change ''main'' ''k'' (Some demo_delivered) VERDICT_ACCEPT =
      (res, [Push ''https://h/o/r.git'' ''crb/a-t'' (Some ''c1''), CommentPR ''https://h/o/r.git'' 7]) \<and>
    list_all (delivery_action ''main'' ''https://h/o/r.git'' (Some demo_delivered))
      [Push ''https://h/o/r.git'' ''crb/a-t'' (Some ''c1''), CommentPR ''https://h/o/r.git'' 7]"
proof -
  let ?acts = "[Push ''https://h/o/r.git'' ''crb/a-t'' (Some ''c1''), CommentPR ''https://h/o/r.git'' 7]"
  have acts: "snd (deliver demo_world (demo_item ''a'' [] []) demo_change ''main'' ''k'' (Some demo_delivered) VERDICT_ACCEPT) = ?acts"
    by code_simp
  then obtain res where d: "deliver demo_world (demo_item ''a'' [] []) demo_change ''main'' ''k'' (Some demo_delivered) VERDICT_ACCEPT =
      (res, ?acts)" by (metis prod.collapse)
  from delivery_touches_only_its_branch [OF d] show ?thesis using d by (auto simp: demo_world_def)
qed

lemma close_only_refused_in_own_repository_witness:
  "close_pull_request demo_world demo_delivered VERDICT_REJECT ''k'' = (Inr (), [ClosePR ''https://h/o/r.git'' 7]) \<and>
    VERDICT_REJECT \<noteq> VERDICT_ACCEPT \<and> repository_of ''https://h/o/r.git'' = ''o/r''"
proof -
  have c: "close_pull_request demo_world demo_delivered VERDICT_REJECT ''k'' = (Inr (), [ClosePR ''https://h/o/r.git'' 7])"
    by code_simp
  have "recorded_repository (dr_repository demo_delivered) (dr_pr_url demo_delivered) = ''o/r''" by code_simp
  with c close_only_refused_in_own_repository [OF c] show ?thesis by (auto simp: demo_world_def)
qed

end
