(* ===== verification/Acceptance.thy ===== *)
theory Acceptance
  imports Cell_Stats "HOL-Library.Product_Lexorder"
begin

section \<open>Held-out acceptance tests (\<open>crb/core/acceptance.py\<close>)\<close>

text \<open>
  A second person's tests for one calibration grant: their record and its digests, who may have written
  them, where they may live, and the labels an attempt carries. The digest of the files and the identifier
  of a body are the fields of \<open>ht_digests\<close>.
\<close>

subsection \<open>Persons and paths\<close>

definition PERSON_PREFIXES :: "string list" where
  "PERSON_PREFIXES = [''operator:'', ''approver:'', ''user:'']"

definition person :: "string \<Rightarrow> string" where
  "person identity = (let s = py_strip identity in
     case find (\<lambda>p. starts_with s p) PERSON_PREFIXES of Some p \<Rightarrow> drop (length p) s | None \<Rightarrow> s)"

text \<open>The components \<open>posixpath.normpath\<close> keeps of a relative path.\<close>

definition norm_step :: "string list \<Rightarrow> string \<Rightarrow> string list" where
  "norm_step kept part =
     (if part = [] \<or> part = ''.'' then kept
      else if part \<noteq> ''..'' \<or> kept = [] \<or> last kept = ''..'' then kept @ [part]
      else butlast kept)"

definition norm_relative :: "string \<Rightarrow> string" where
  "norm_relative p = (let s = join_with ''/'' (foldl norm_step [] (split_on CHR ''/'' p)) in if s = [] then ''.'' else s)"

definition path_refused :: "string \<Rightarrow> bool" where
  "path_refused path =
     (let p = py_strip path; norm = norm_relative p
      in p = [] \<or> starts_with p ''/'' \<or> CHR 0x5C \<in> set p \<or> norm \<noteq> p \<or> starts_with norm ''..'' \<or>
         contains ''/../'' (''/'' @ norm @ ''/''))"

subsection \<open>The record\<close>

record held_out_tests =
  ht_repo :: string
  ht_item_id :: string
  ht_grant :: string
  ht_files :: "(string \<times> string) list"
  ht_author :: string
  ht_written_at :: string
  ht_sha256 :: string
  ht_record_id :: string

record ht_digests =
  hd_files :: "(string \<times> string) list \<Rightarrow> string"
  hd_body :: "held_out_tests \<Rightarrow> string"

definition ht_fill :: "ht_digests \<Rightarrow> held_out_tests \<Rightarrow> held_out_tests" where
  "ht_fill D h =
     (let h1 = h\<lparr>ht_files := sort (ht_files h)\<rparr>;
          h2 = (if ht_sha256 h1 = [] then h1\<lparr>ht_sha256 := hd_files D (ht_files h1)\<rparr> else h1)
      in if ht_record_id h2 = [] then h2\<lparr>ht_record_id := ''hot_'' @ take 24 (hd_body D (h2\<lparr>ht_record_id := []\<rparr>))\<rparr> else h2)"

definition ht_verify :: "ht_digests \<Rightarrow> held_out_tests \<Rightarrow> bool" where
  "ht_verify D h = (let fresh = ht_fill D (h\<lparr>ht_sha256 := [], ht_record_id := []\<rparr>)
     in ht_sha256 fresh = ht_sha256 h \<and> ht_record_id fresh = ht_record_id h)"

subsection \<open>Who may have written them\<close>

definition writer_refusal :: "string \<Rightarrow> string list \<Rightarrow> string \<Rightarrow> string \<Rightarrow> string" where
  "writer_refusal writer authors sponsor submitter =
     (let who = person writer in
      if who = [] then ''nobody''
      else if list_ex (\<lambda>a. person a \<noteq> [] \<and> who = person a) authors then ''author''
      else if person sponsor \<noteq> [] \<and> who = person sponsor then ''sponsor''
      else if person submitter \<noteq> [] \<and> who = person submitter then ''submitter''
      else [])"

subsection \<open>Labels\<close>

definition ACCEPTANCE_NONE :: string where "ACCEPTANCE_NONE = ''none''"
definition LABEL_ACCEPTANCE_ID :: string where "LABEL_ACCEPTANCE_ID = ''acceptance_id''"
definition LABEL_ACCEPTANCE_WHY :: string where "LABEL_ACCEPTANCE_WHY = ''acceptance_why''"
definition WHY_NO_TESTS :: string where "WHY_NO_TESTS = ''no_held_out_tests''"
definition WHY_NOT_FIRST :: string where "WHY_NOT_FIRST = ''not_first_attempt''"
definition WHY_SAME_PERSON :: string where "WHY_SAME_PERSON = ''same_person''"
definition WHY_NOT_CALIBRATION :: string where "WHY_NOT_CALIBRATION = ''not_a_calibration_build''"

definition held_out_labels :: "held_out_tests \<Rightarrow> string \<Rightarrow> dict result" where
  "held_out_labels h res = guarded [(res \<notin> set RESULTS, ValueError ''held-out result'')]
     [(LABEL_ACCEPTANCE, ACCEPTANCE_HELD_OUT), (LABEL_ACCEPTANCE_ID, ht_record_id h),
      (LABEL_ACCEPTANCE_SHA, ht_sha256 h), (LABEL_ACCEPTANCE_RESULT, res)]"

definition none_labels :: "string \<Rightarrow> dict" where
  "none_labels why = [(LABEL_ACCEPTANCE, ACCEPTANCE_NONE), (LABEL_ACCEPTANCE_WHY, why)]"

subsection \<open>Lemmas\<close>

lemma ht_fill_verifies:
  assumes "hd_files D (sort (ht_files h)) \<noteq> []"
  shows "ht_verify D (ht_fill D (h\<lparr>ht_sha256 := [], ht_record_id := []\<rparr>))"
  by (simp add: ht_verify_def ht_fill_def Let_def sorted_sort_id)

text \<open>
  The person who may have written held-out tests is none of the ticket's authors, nor the approver who funded
  the build, nor the person whose run builds it, under any of the role prefixes.
\<close>

lemma writer_refusal_iff:
  "writer_refusal writer authors sponsor submitter = [] \<longleftrightarrow>
     person writer \<noteq> [] \<and> person writer \<notin> person ` set authors \<and> person writer \<noteq> person sponsor \<and>
     person writer \<noteq> person submitter"
  by (auto simp: writer_refusal_def Let_def list_ex_iff)

text \<open>
  A row labelled with a result counts as graded on held-out tests when its arm is \<open>S2\<close> and the record has a digest;
  a row stamped \<open>none\<close> never does.
\<close>

lemma labelled_graded:
  assumes "held_out_labels h res = Inr ls" "is_arm context_arm" "Ledger_Row.arm_base context_arm = Some S2" "ht_sha256 h \<noteq> []"
  shows "held_out_graded ((LABEL_CONTEXT_ARM, context_arm) # ls) \<and>
    held_out_result ((LABEL_CONTEXT_ARM, context_arm) # ls) = res"
  using assms
  by (auto simp: held_out_labels_def held_out_graded_def held_out_result_def LABEL_ACCEPTANCE_def LABEL_ACCEPTANCE_ID_def
    LABEL_ACCEPTANCE_SHA_def LABEL_ACCEPTANCE_RESULT_def LABEL_CONTEXT_ARM_def)

lemma none_never_graded: "\<not> held_out_graded (none_labels why)"
  by (simp add: held_out_graded_def none_labels_def Let_def LABEL_ACCEPTANCE_def LABEL_ACCEPTANCE_WHY_def LABEL_CONTEXT_ARM_def
    is_arm_def match_arm_def match_base_def dget_def py_strip_def py_lstrip_def chomp_def starts_with_def)

lemma dot_accepted: "\<not> path_refused ''.''"
  by code_simp

end
