(* ===== verification/Factory_Loop.thy ===== *)
theory Factory_Loop
  imports Delivery Acceptance Entry_Gate
begin

section \<open>The governed loop (\<open>crb/factory/loop.py\<close>)\<close>

text \<open>
  One backlog item end to end, and a whole backlog. The state \<open>lstate\<close> is the evidence chain, the calls made to the
  builder and to the remote, and the local variables of \<open>run_item\<close> its \<open>except\<close> clauses see; a step answers a
  value, stops the item with a status (\<open>_Stop\<close>) or raises. Whatever the collaborators of \<open>FactorySpec\<close> answer
  is a field of \<open>fspec\<close>, given the number of the step that asks; \<open>sp_others\<close> is what other processes wrote to the
  chain before that step reads or appends. Sentences are replaced by a fixed word; the step events sent to the
  emitter, durations and the removal of worktrees are not modelled.
\<close>

subsection \<open>Statuses\<close>

definition STATUS_NOT_READY :: string where "STATUS_NOT_READY = ''not_ready''"
definition STATUS_ROUTED_HUMAN :: string where "STATUS_ROUTED_HUMAN = ''routed_human''"
definition STATUS_NO_ORACLE :: string where "STATUS_NO_ORACLE = ''no_oracle''"
definition STATUS_NOT_RED :: string where "STATUS_NOT_RED = ''not_red''"
definition STATUS_NOT_CLEAN :: string where "STATUS_NOT_CLEAN = ''not_clean''"
definition STATUS_DISQUALIFIED :: string where "STATUS_DISQUALIFIED = ''disqualified''"
definition STATUS_DELIVERY_FAILED :: string where "STATUS_DELIVERY_FAILED = ''delivery_failed''"
definition STATUS_ACCEPTED :: string where "STATUS_ACCEPTED = ''accepted''"
definition STATUS_REJECTED :: string where "STATUS_REJECTED = ''rejected''"
definition STATUS_REWORK_EXHAUSTED :: string where "STATUS_REWORK_EXHAUSTED = ''rework_exhausted''"
definition STATUS_ORACLE_NEEDS_STRENGTHENING :: string where "STATUS_ORACLE_NEEDS_STRENGTHENING = ''oracle_needs_strengthening''"
definition STATUS_ORACLE_NOT_SCOREABLE :: string where "STATUS_ORACLE_NOT_SCOREABLE = ''oracle_not_scoreable''"
definition STOP_NOT_LICENSED :: string where "STOP_NOT_LICENSED = ''not_licensed''"
definition STOP_CALIBRATION_BUILD :: string where "STOP_CALIBRATION_BUILD = ''calibration_build''"
definition STATUS_BLOCKED :: string where "STATUS_BLOCKED = ''blocked_on_dependency''"
definition STATUS_ERROR :: string where "STATUS_ERROR = ''error''"

definition STATUSES :: "string list" where
  "STATUSES = [STATUS_NOT_READY, STATUS_ROUTED_HUMAN, STATUS_NO_ORACLE, STATUS_NOT_RED, STATUS_NOT_CLEAN, STATUS_DISQUALIFIED,
     STATUS_DELIVERY_FAILED, STATUS_ACCEPTED, STATUS_REJECTED, STATUS_REWORK_EXHAUSTED, STATUS_ORACLE_NEEDS_STRENGTHENING,
     STATUS_ORACLE_NOT_SCOREABLE, STOP_NO_PROVEN_STANDARD, STOP_NEEDS_CONTEXT, STOP_UNSIGNED_CELL, STOP_GRANULARIZE,
     STOP_NOT_LICENSED, STOP_SIZE_EXCEEDS_LICENCE, STOP_CELL_NOT_LICENSED, STOP_CALIBRATION_BUILD, STATUS_BLOCKED, STATUS_ERROR]"

definition ENTRY_STATUS :: dict where
  "ENTRY_STATUS = [(STOP_UNSIZED, STATUS_ROUTED_HUMAN), (STOP_GRANULARIZE, STOP_GRANULARIZE),
     (STOP_NO_PROVEN_STANDARD, STOP_NO_PROVEN_STANDARD), (STOP_NEEDS_CONTEXT, STOP_NEEDS_CONTEXT),
     (STOP_UNSIGNED_CELL, STOP_UNSIGNED_CELL), (STOP_NOT_LICENSED, STOP_NOT_LICENSED)]"

definition LABEL_CALIBRATION :: string where "LABEL_CALIBRATION = ''calibration''"
definition ROUTE_DELIVER_WORD :: string where "ROUTE_DELIVER_WORD = ''deliver''"
definition DO_NOT_SHIP_WORD :: string where "DO_NOT_SHIP_WORD = ''do_not_ship''"
definition FALSE_Q1_WORD :: string where "FALSE_Q1_WORD = ''false_q1''"
definition OVERRIDE_REFUSED_FALSE_Q1 :: string where "OVERRIDE_REFUSED_FALSE_Q1 = ''false_q1''"
definition OVERRIDE_REFUSED_SAME_ACTOR :: string where "OVERRIDE_REFUSED_SAME_ACTOR = ''same_actor''"

lemmas status_words = STATUS_NOT_READY_def STATUS_ROUTED_HUMAN_def STATUS_NO_ORACLE_def STATUS_NOT_RED_def STATUS_NOT_CLEAN_def
  STATUS_DISQUALIFIED_def STATUS_DELIVERY_FAILED_def STATUS_ACCEPTED_def STATUS_REJECTED_def STATUS_REWORK_EXHAUSTED_def
  STATUS_ORACLE_NEEDS_STRENGTHENING_def STATUS_ORACLE_NOT_SCOREABLE_def STOP_NOT_LICENSED_def STOP_CALIBRATION_BUILD_def
  STATUS_BLOCKED_def STATUS_ERROR_def stop_words

subsection \<open>What the loop passes around\<close>

text \<open>The keys of the map's decision the loop reads; \<open>None\<close> is a count \<open>int\<close> cannot read.\<close>

record map_route =
  mr_route :: string
  mr_reason_code :: string
  mr_false_q1 :: "int option"
  mr_policy_version :: string

record build_request =
  rq_item :: backlog_item
  rq_oracle :: authored_test
  rq_proof :: red_proof
  rq_rung :: rung
  rq_trial :: string
  rq_labels :: dict
  rq_arm :: string
  rq_learning :: bool
  rq_author_stamp :: string
  rq_held_out :: "held_out_tests option"
  rq_reserve :: bool

record build =
  bd_rung :: string
  bd_trial :: string
  bd_pack_hash :: string
  bd_clean :: bool
  bd_disqualified :: bool
  bd_size :: string
  bd_built_by :: "rung option"
  bd_oracle_commit :: string
  bd_oracle_sha256 :: string
  bd_labels :: dict
  bd_row_id :: string
  bd_row_hash :: string
  bd_error :: string

record lstate =
  ls_evs :: "fevent list"
  ls_tick :: nat
  ls_requests :: "build_request list"
  ls_remote :: "remote_action list"
  ls_readiness :: "readiness option"
  ls_entry :: entry
  ls_proof :: "red_proof option"
  ls_builds :: "build list"
  ls_verdicts :: "verdict list"
  ls_delivery :: "delivery_result option"
  ls_reworks :: nat

record fspec =
  sp_ctx :: ev_ctx
  sp_keys :: "string list"
  sp_sha :: "string \<Rightarrow> string"
  sp_digests :: ht_digests
  sp_instant :: "string \<Rightarrow> int option"
  sp_ladder :: "rung list"
  sp_deliver :: bool
  sp_actor :: string
  sp_run_id :: string
  sp_max_rework :: int
  sp_require_signed_cell :: bool
  sp_readers :: readers
  sp_author :: "test_author option"
  sp_reviewer :: string
  sp_target :: string
  sp_repo_key :: string
  sp_learning :: bool
  sp_reserve :: bool
  sp_others :: "nat \<Rightarrow> fevent list \<Rightarrow> fevent list"
  sp_stamp :: "nat \<Rightarrow> stamp"
  sp_signoffs :: "nat \<Rightarrow> gap_signoff list result"
  sp_route_for :: "nat \<Rightarrow> backlog_item \<Rightarrow> map_route option result"
  sp_override_for :: "nat \<Rightarrow> string result"
  sp_held_out :: "(nat \<Rightarrow> string \<Rightarrow> string \<Rightarrow> held_out_tests option result) option"
  sp_writes :: "nat \<Rightarrow> backlog_item \<Rightarrow> (string \<times> string) result"
  sp_scene :: "nat \<Rightarrow> backlog_item \<Rightarrow> authored_test \<Rightarrow> red_scene result"
  sp_build :: "nat \<Rightarrow> build_request \<Rightarrow> build result"
  sp_probes :: "nat \<Rightarrow> build \<Rightarrow> red_proof \<Rightarrow> probe_result list result"
  sp_opinion :: "nat \<Rightarrow> probe_result list \<Rightarrow> opinion result"
  sp_rework_test :: "(nat \<Rightarrow> backlog_item \<Rightarrow> verdict \<Rightarrow> authored_test \<Rightarrow> authored_test option result) option"
  sp_world :: "nat \<Rightarrow> delivery_world"
  sp_stop :: "nat \<Rightarrow> bool"

definition rung_label :: "rung \<Rightarrow> string" where
  "rung_label r = (case r of (builder, model, provider) \<Rightarrow> builder @ '':'' @ model)"

definition FactorySpec :: "fspec \<Rightarrow> fspec result" where
  "FactorySpec S =
     (if sp_ladder S = [] then Inl (ValueError ''ladder'')
      else bind_result (case sp_author S of None \<Rightarrow> Inr []
        | Some ta \<Rightarrow> collect (\<lambda>r. assert_distinct_identity (sp_keys S) (author_label ta) (rung_label r)) (sp_ladder S)) (\<lambda>_.
      if sp_max_rework S < 0 then Inl (ValueError ''max_rework'') else Inr S))"

subsection \<open>Steps\<close>

datatype stopx = Stopped string | Raised exn

type_synonym 'a act = "lstate \<Rightarrow> (stopx + 'a) \<times> lstate"

definition ret :: "'a \<Rightarrow> 'a act" where
  "ret x = (\<lambda>s. (Inr x, s))"

definition halt :: "stopx \<Rightarrow> 'a act" where
  "halt e = (\<lambda>s. (Inl e, s))"

definition andThen :: "'a act \<Rightarrow> ('a \<Rightarrow> 'b act) \<Rightarrow> 'b act" where
  "andThen m f = (\<lambda>s. case m s of (Inl e, s') \<Rightarrow> (Inl e, s') | (Inr x, s') \<Rightarrow> f x s')"

definition lift_result :: "'a result \<Rightarrow> 'a act" where
  "lift_result r = (case r of Inl e \<Rightarrow> halt (Raised e) | Inr x \<Rightarrow> ret x)"

definition local_var :: "(lstate \<Rightarrow> lstate) \<Rightarrow> unit act" where
  "local_var u = (\<lambda>s. (Inr (), u s))"

definition ticked :: "lstate \<Rightarrow> lstate" where
  "ticked s = s\<lparr>ls_tick := Suc (ls_tick s)\<rparr>"

text \<open>A collaborator's answer, as a value or raised.\<close>

definition tries :: "(nat \<Rightarrow> 'a result) \<Rightarrow> ('a result) act" where
  "tries f = (\<lambda>s. (Inr (f (ls_tick s)), ticked s))"

definition ask :: "(nat \<Rightarrow> 'a result) \<Rightarrow> 'a act" where
  "ask f = andThen (tries f) lift_result"

text \<open>An operation on the chain, after what other processes wrote.\<close>

definition on_chain :: "fspec \<Rightarrow> (nat \<Rightarrow> stamp \<Rightarrow> fevent list \<Rightarrow> ('a \<times> fevent list) result) \<Rightarrow> 'a act" where
  "on_chain S f = (\<lambda>s. let n = ls_tick s; evs = sp_others S n (ls_evs s); s1 = (ticked s)\<lparr>ls_evs := evs\<rparr> in
     case f n (sp_stamp S n) evs of Inl e \<Rightarrow> (Inl (Raised e), s1) | Inr (x, evs') \<Rightarrow> (Inr x, s1\<lparr>ls_evs := evs'\<rparr>))"

definition read_chain :: "fspec \<Rightarrow> (fevent list \<Rightarrow> 'a) \<Rightarrow> 'a act" where
  "read_chain S g = on_chain S (\<lambda>n stamp evs. Inr (g evs, evs))"

definition record_ev :: "fspec \<Rightarrow> (stamp \<Rightarrow> fevent list \<Rightarrow> ev_result) \<Rightarrow> unit act" where
  "record_ev S f = andThen (on_chain S (\<lambda>n. f)) (\<lambda>_. ret ())"

definition record_routed :: "fspec \<Rightarrow> backlog_item \<Rightarrow> string \<Rightarrow> payload \<Rightarrow> unit act" where
  "record_routed S i route extra = record_ev S (record_route (sp_ctx S) (bi_id i) route ''reason'' extra)"

definition record_withheld :: "fspec \<Rightarrow> backlog_item \<Rightarrow> build \<Rightarrow> payload \<Rightarrow> unit act" where
  "record_withheld S i b extra =
     record_ev S (record_delivery_refused (sp_ctx S) (bi_id i) ''reason'' ((''pack_hash'', JStr (bd_pack_hash b)) # extra))"

definition stop_ready :: "readiness \<Rightarrow> string \<Rightarrow> 'a act" where
  "stop_ready r status = andThen (local_var (\<lambda>s. s\<lparr>ls_readiness := Some r\<rparr>)) (\<lambda>_. halt (Stopped status))"

subsection \<open>Readiness and the entry gate\<close>

definition gap_json :: "gap \<Rightarrow> jval" where
  "gap_json g = JObj [(''slot'', JStr (gp_slot g)), (''question'', JStr (gp_question g)), (''kind'', JStr (gp_kind g))]"

definition readiness_payload :: "readiness \<Rightarrow> payload" where
  "readiness_payload r = [(''item_id'', JStr (re_item_id r)), (''capability_class'', JStr (re_capability_class r)),
     (''ready'', JBool (re_ready r)), (''gaps'', JList (map gap_json (re_gaps r))), (''route_hint'', JStr (re_route_hint r)),
     (''facts'', JObj (map (\<lambda>(k, v). (k, JStr v)) (re_facts r))), (''signed_slots'', jstrs (re_signed_slots r)),
     (''catalogued'', JBool (re_catalogued r))]"

definition standard_json :: "standard option \<Rightarrow> jval" where
  "standard_json so = (case so of None \<Rightarrow> JNone
     | Some s \<Rightarrow> JObj [(''arm'', JStr (st_arm s)), (''signed'', JBool (st_signed s)), (''reading_id'', JStr (st_reading_id s))])"

definition route_json :: "map_route option \<Rightarrow> jval" where
  "route_json ro = (case ro of None \<Rightarrow> JNone
     | Some m \<Rightarrow> JObj [(''route'', JStr (mr_route m)), (''reason_code'', JStr (mr_reason_code m)),
         (''policy_version'', JStr (mr_policy_version m))])"

definition override_refusal :: "map_route option \<Rightarrow> string \<Rightarrow> string \<Rightarrow> string" where
  "override_refusal ro override_by actor =
     (if override_by = [] then []
      else if (case ro of None \<Rightarrow> False
          | Some m \<Rightarrow> mr_route m = DO_NOT_SHIP_WORD \<or> mr_reason_code m = FALSE_Q1_WORD \<or>
              (case mr_false_q1 m of None \<Rightarrow> True | Some n \<Rightarrow> n > 0)) then OVERRIDE_REFUSED_FALSE_Q1
      else if actor \<noteq> [] \<and> override_by = actor then OVERRIDE_REFUSED_SAME_ACTOR
      else [])"

definition map_route_for :: "fspec \<Rightarrow> backlog_item \<Rightarrow> map_route option act" where
  "map_route_for S i = ask (\<lambda>n. sp_route_for S n i)"

definition override_by_now :: "fspec \<Rightarrow> string act" where
  "override_by_now S = ask (\<lambda>n. bind_result (sp_override_for S n) (\<lambda>by. Inr (py_strip by)))"

definition resized_item :: "backlog_item \<Rightarrow> string \<Rightarrow> backlog_item act" where
  "resized_item i tier = lift_result (BacklogItem (i\<lparr>bi_size_estimate := tier\<rparr>))"

fun cell_routes :: "fspec \<Rightarrow> backlog_item \<Rightarrow> string list \<Rightarrow> map_route option list act" where
  "cell_routes S i [] = ret []"
| "cell_routes S i (tier # tiers) =
     andThen (resized_item i tier) (\<lambda>j. andThen (map_route_for S j) (\<lambda>ro. andThen (cell_routes S i tiers) (\<lambda>ros. ret (ro # ros))))"

definition other_sizes :: "fspec \<Rightarrow> backlog_item \<Rightarrow> string list" where
  "other_sizes S i = (case sizes_to_read (bi_size_estimate i) (rs_agreement_passed (sp_readers S)) of
     Inl e \<Rightarrow> [] | Inr sizes \<Rightarrow> filter (\<lambda>z. z \<noteq> bi_size_estimate i) sizes)"

definition first_refusal :: "string list \<Rightarrow> string" where
  "first_refusal refusals =
     (if OVERRIDE_REFUSED_FALSE_Q1 \<in> set refusals then OVERRIDE_REFUSED_FALSE_Q1
      else if OVERRIDE_REFUSED_SAME_ACTOR \<in> set refusals then OVERRIDE_REFUSED_SAME_ACTOR else [])"

definition refusal_over_cells :: "fspec \<Rightarrow> backlog_item \<Rightarrow> string \<Rightarrow> string act" where
  "refusal_over_cells S i override_by =
     (if override_by = [] then ret []
      else andThen (map_route_for S i) (\<lambda>ro. andThen (cell_routes S i (other_sizes S i)) (\<lambda>ros.
        ret (first_refusal (map (\<lambda>r. override_refusal r override_by (sp_actor S)) (ro # ros))))))"

text \<open>The override the gate is given: none when it was refused, and the refusal is on the chain.\<close>

definition honoured_override :: "fspec \<Rightarrow> backlog_item \<Rightarrow> readiness \<Rightarrow> string act" where
  "honoured_override S i r = andThen (override_by_now S) (\<lambda>by. andThen (refusal_over_cells S i by) (\<lambda>refused.
     if refused = [] then ret by
     else andThen (record_routed S i (re_route_hint r) [(''override_refused'', JStr refused), (''override_by'', JStr by)])
       (\<lambda>_. ret [])))"

definition waiting_calibration :: "fspec \<Rightarrow> backlog_item \<Rightarrow> calibration option act" where
  "waiting_calibration S i = read_chain S (\<lambda>evs. map_option (\<lambda>e. \<lparr>cb_approver = pstr (fe_payload e) ''approver'',
     cb_reason = pstr (fe_payload e) ''reason'', cb_event_id = fe_event_id e\<rparr>) (waiting_grant (events_of evs (bi_id i)) (bi_id i)))"

definition stop_at_entry :: "fspec \<Rightarrow> backlog_item \<Rightarrow> readiness \<Rightarrow> entry \<Rightarrow> 'a act" where
  "stop_at_entry S i r e =
     andThen (record_ev S (record_entry_refused (sp_ctx S) (bi_id i) (en_code e) ''reason''
       [(''reason_code'', JStr (en_reason_code e)), (''needs'', jstrs (en_needs e))])) (\<lambda>_.
     andThen (record_routed S i ROUTE_HUMAN [(''reason_code'', JStr (en_code e)), (''needs'', jstrs (en_needs e))]) (\<lambda>_.
     case map_of ENTRY_STATUS (en_code e) of None \<Rightarrow> halt (Raised (OtherError ''KeyError''))
     | Some status \<Rightarrow> stop_ready r status))"

definition model_of_author :: "fspec \<Rightarrow> string \<Rightarrow> string" where
  "model_of_author S model = (let c = canonical_model (sp_keys S) model in if c \<noteq> [] then c else model)"

definition author_model :: "string \<Rightarrow> string" where
  "author_model author = (case split_once CHR '':'' author of (a, None) \<Rightarrow> a | (a, Some m) \<Rightarrow> m)"

definition s1_author :: "fspec \<Rightarrow> authored_test option \<Rightarrow> string option" where
  "s1_author S authored = (case authored of
     Some a \<Rightarrow> if \<not> operator_authored a then Some (model_of_author S (author_model (au_author a)))
       else map_option (\<lambda>ta. model_of_author S (ta_model ta)) (sp_author S)
   | None \<Rightarrow> map_option (\<lambda>ta. model_of_author S (ta_model ta)) (sp_author S))"

definition person_test :: "authored_test option \<Rightarrow> bool" where
  "person_test authored = (case authored of None \<Rightarrow> False | Some a \<Rightarrow> operator_authored a)"

definition decide_item :: "fspec \<Rightarrow> backlog_item \<Rightarrow> readiness \<Rightarrow> authored_test option \<Rightarrow> string \<Rightarrow> calibration option \<Rightarrow> entry result" where
  "decide_item S i r authored override_by cal =
     gate_for i r (sp_readers S) (person_test authored) cal (sp_require_signed_cell S) override_by (s1_author S authored)"

definition not_licensed :: "entry \<Rightarrow> entry" where
  "not_licensed e = stop_entry STOP_NOT_LICENSED STOP_NOT_LICENSED [] (en_standard e) (en_cells e)"

text \<open>The claim of the grant the entry used, before any spend: \<open>False\<close> when another run took it.\<close>

definition claim_grant :: "fspec \<Rightarrow> backlog_item \<Rightarrow> entry \<Rightarrow> bool act" where
  "claim_grant S i e = (case en_calibration e of None \<Rightarrow> ret True
     | Some c \<Rightarrow> andThen (on_chain S (\<lambda>n. claim_calibration (sp_ctx S) (bi_id i) (cb_event_id c) (sp_run_id S)))
         (\<lambda>claimed. ret (claimed \<noteq> None)))"

definition no_licence :: "fspec \<Rightarrow> backlog_item \<Rightarrow> entry \<Rightarrow> bool" where
  "no_licence S i e \<longleftrightarrow> sp_deliver S \<and> en_calibration e = None \<and>
     licensing_rungs (bi_capability_class i) (bi_size_estimate i) (sp_ladder S) (entry_arm e) (rs_standard_for (sp_readers S)) = []"

definition record_admitted :: "fspec \<Rightarrow> backlog_item \<Rightarrow> readiness \<Rightarrow> entry \<Rightarrow> map_route option \<Rightarrow> unit act" where
  "record_admitted S i r e ro = record_routed S i (re_route_hint r)
     [(''cell_route'', route_json ro), (''standard'', standard_json (en_standard e)), (''calibration'', JBool (en_calibration e \<noteq> None))]"

definition enter_item :: "fspec \<Rightarrow> backlog_item \<Rightarrow> readiness \<Rightarrow> entry \<Rightarrow> (readiness \<times> map_route option \<times> entry) act" where
  "enter_item S i r e =
     andThen (map_route_for S i) (\<lambda>ro. andThen (record_admitted S i r e ro) (\<lambda>_.
     if no_licence S i e then stop_at_entry S i r (not_licensed e)
     else andThen (case en_calibration e of None \<Rightarrow> ret ()
         | Some c \<Rightarrow> record_routed S i (re_route_hint r) [(''reason_code'', JStr STOP_CALIBRATION_BUILD),
             (''calibration_by'', JStr (cb_approver c)), (''calibration_event'', JStr (cb_event_id c))])
       (\<lambda>_. ret (r, ro, e))))"

definition past_gate :: "fspec \<Rightarrow> backlog_item \<Rightarrow> readiness \<Rightarrow> authored_test option \<Rightarrow> string \<Rightarrow> entry \<Rightarrow>
    (readiness \<times> map_route option \<times> entry) act" where
  "past_gate S i r authored by e =
     andThen (if en_override_by e = [] then ret ()
       else record_routed S i (re_route_hint r) [(''override_by'', JStr (en_override_by e)), (''standard'', standard_json (en_standard e))]) (\<lambda>_.
     if \<not> re_ready r
     then andThen (record_routed S i ROUTE_HUMAN [(''blocking'', jstrs (map gp_slot (blocking_gaps r)))]) (\<lambda>_. stop_ready r STATUS_NOT_READY)
     else andThen (claim_grant S i e) (\<lambda>claimed.
       if \<not> claimed then andThen (lift_result (decide_item S i r authored by None)) (\<lambda>e0. stop_at_entry S i r e0)
       else enter_item S i r e))"

definition assess_item :: "fspec \<Rightarrow> backlog_item \<Rightarrow> authored_test option \<Rightarrow> (readiness \<times> map_route option \<times> entry) act" where
  "assess_item S i authored =
     andThen (ask (sp_signoffs S)) (\<lambda>signoffs. let r = assess i (signoffs_for_item (bi_id i) signoffs) in
     andThen (record_ev S (record_readiness (sp_ctx S) (readiness_payload r))) (\<lambda>_.
     if bi_kind i = KIND_OPERATOR
     then andThen (record_routed S i ROUTE_HUMAN [(''open_gaps'', jstrs (map gp_slot (re_gaps r)))]) (\<lambda>_. stop_ready r STATUS_ROUTED_HUMAN)
     else if re_route_hint r = ROUTE_HUMAN \<and> re_ready r
     then andThen (record_routed S i ROUTE_HUMAN []) (\<lambda>_. stop_ready r STATUS_ROUTED_HUMAN)
     else andThen (honoured_override S i r) (\<lambda>by. andThen (waiting_calibration S i) (\<lambda>cal.
       andThen (lift_result (decide_item S i r authored by cal)) (\<lambda>e.
       if \<not> enters e then stop_at_entry S i r e else past_gate S i r authored by e)))))"

subsection \<open>The oracle, the held-out tests and the RED proof\<close>

definition base_of :: "string \<Rightarrow> base option" where
  "base_of s = map_of [(''A0'', A0), (''S1'', S1), (''S2'', S2), (''S3'', S3)] s"

text \<open>\<open>crb/builders/brief.py\<close>, \<open>context_arm_for\<close> with no facts drafter and no library.\<close>

definition brief_arm :: "string \<Rightarrow> string \<Rightarrow> bool \<Rightarrow> string result" where
  "brief_arm b author plus_l = (case base_of b of None \<Rightarrow> Inl (ValueError ''base'')
     | Some base \<Rightarrow> if base = S1 \<and> author = [] then Inl (ValueError ''author'')
         else bind_result (ContextArm \<lparr>ca_base = base, ca_author = (if base = S1 then author else []), ca_facts = [],
           ca_library = [], ca_loop = plus_l\<rparr>) (\<lambda>a. Inr (arm_id a)))"

definition arm_carries_loop :: "string \<Rightarrow> bool" where
  "arm_carries_loop context_arm \<longleftrightarrow> ''L'' \<in> set (tl (split_on CHR ''+'' context_arm))"

definition item_arm_base :: "entry \<Rightarrow> authored_test option \<Rightarrow> string" where
  "item_arm_base e authored = (case (en_calibration e, en_standard e) of
     (None, Some s) \<Rightarrow> if std_licenses s then std_base s else if person_test authored then BASE_S2 else BASE_S1
   | _ \<Rightarrow> if person_test authored then BASE_S2 else BASE_S1)"

definition item_plus_l :: "entry \<Rightarrow> bool" where
  "item_plus_l e \<longleftrightarrow> en_calibration e = None \<and> (case en_standard e of None \<Rightarrow> False | Some s \<Rightarrow> std_plus_l s)"

definition authored_by_run :: "fspec \<Rightarrow> backlog_item \<Rightarrow> readiness \<Rightarrow> bool \<Rightarrow> (authored_test \<times> string) act" where
  "authored_by_run S i r plus_l = (case sp_author S of
     None \<Rightarrow> andThen (record_ev S (record_red_refused (sp_ctx S) (bi_id i) ''reason'' [(''route'', JStr (re_route_hint r))]))
       (\<lambda>_. stop_ready r STATUS_NO_ORACLE)
   | Some ta \<Rightarrow> andThen (ask (\<lambda>n. author_test ta (sp_writes S n i))) (\<lambda>a.
       andThen (lift_result (brief_arm BASE_S1 (model_of_author S (ta_model ta)) plus_l)) (\<lambda>context_arm. ret (a, context_arm))))"

definition oracle_item :: "fspec \<Rightarrow> backlog_item \<Rightarrow> readiness \<Rightarrow> authored_test option \<Rightarrow> entry \<Rightarrow> (authored_test \<times> string) act" where
  "oracle_item S i r authored e = (case authored of None \<Rightarrow> authored_by_run S i r (item_plus_l e)
     | Some a \<Rightarrow>
         if item_arm_base e authored = BASE_S2
         then andThen (lift_result (brief_arm BASE_S2 [] (item_plus_l e))) (\<lambda>context_arm. ret (a, context_arm))
         else if operator_authored a
         then andThen (record_routed S i (re_route_hint r) [(''held_out_test'', JStr (au_path a)),
             (''held_out_sha256'', JStr (au_sha256 (sp_sha S) a))]) (\<lambda>_. authored_by_run S i r (item_plus_l e))
         else andThen (lift_result (brief_arm BASE_S1 (model_of_author S (author_model (au_author a))) (item_plus_l e)))
           (\<lambda>context_arm. ret (a, context_arm)))"

definition not_after :: "(string \<Rightarrow> int option) \<Rightarrow> string \<Rightarrow> string \<Rightarrow> bool" where
  "not_after instant a b = (case (instant a, instant b) of (Some x, Some y) \<Rightarrow> x \<le> y | _ \<Rightarrow> False)"

definition held_out_for :: "fspec \<Rightarrow> backlog_item \<Rightarrow> calibration \<Rightarrow> held_out_tests option act" where
  "held_out_for S i c = (case sp_held_out S of None \<Rightarrow> ret None | Some f \<Rightarrow> ask (\<lambda>n. f n (bi_id i) (cb_event_id c)))"

definition claim_of :: "fevent list \<Rightarrow> string \<Rightarrow> fevent option" where
  "claim_of evs grant = find (\<lambda>e. fe_kind e = EV_CALIBRATION_CLAIMED \<and> pstr (fe_payload e) ''grant'' = grant) evs"

definition record_usable :: "fspec \<Rightarrow> backlog_item \<Rightarrow> calibration \<Rightarrow> fevent list \<Rightarrow> held_out_tests option \<Rightarrow> bool" where
  "record_usable S i c evs rec = (case rec of None \<Rightarrow> False
     | Some h \<Rightarrow> ht_verify (sp_digests S) h \<and> (ht_item_id h, ht_grant h) = (bi_id i, cb_event_id c) \<and>
         (case claim_of evs (cb_event_id c) of None \<Rightarrow> False
          | Some claimed \<Rightarrow> not_after (sp_instant S) (ht_written_at h) (fe_created claimed)))"

definition held_out_item :: "fspec \<Rightarrow> backlog_item \<Rightarrow> entry \<Rightarrow> authored_test option \<Rightarrow> (held_out_tests option \<times> string) act" where
  "held_out_item S i e authored = (case en_calibration e of None \<Rightarrow> ret (None, WHY_NOT_CALIBRATION)
     | Some c \<Rightarrow> andThen (held_out_for S i c) (\<lambda>rec. andThen (read_chain S (\<lambda>evs. events_of evs (bi_id i))) (\<lambda>evs.
         if \<not> record_usable S i c evs rec then ret (None, WHY_NO_TESTS)
         else if attempted_before evs (bi_id i) (cb_event_id c) then ret (None, WHY_NOT_FIRST)
         else andThen (read_chain S (\<lambda>all. ticket_authors all (bi_id i) (case authored of None \<Rightarrow> [] | Some a \<Rightarrow> au_author a))) (\<lambda>authors.
           if writer_refusal (ht_author (the rec)) authors (cb_approver c) (sp_actor S) \<noteq> []
           then ret (None, WHY_SAME_PERSON) else ret (rec, [])))))"

definition is_not_red :: "exn \<Rightarrow> bool" where
  "is_not_red e = (case e of ValueError s \<Rightarrow> starts_with s ''NotRed: '' | _ \<Rightarrow> False)"

definition proof_payload :: "red_proof \<Rightarrow> payload" where
  "proof_payload p = [(''item_id'', JStr (rp_item_id p)), (''test_path'', JStr (rp_test_path p)), (''test_sha256'', JStr (rp_test_sha256 p)),
     (''failing_ids'', jstrs (rp_failing_ids p)), (''base_sha'', JStr (rp_base_sha p)), (''target_scope'', jstrs (rp_target_scope p)),
     (''author'', JStr (rp_author p))]"

definition prove_item :: "fspec \<Rightarrow> backlog_item \<Rightarrow> readiness \<Rightarrow> authored_test \<Rightarrow> red_proof act" where
  "prove_item S i r a =
     andThen (tries (\<lambda>n. bind_result (sp_scene S n i a) (prove_red (sp_sha S) i a))) (\<lambda>res. case res of
       Inl e \<Rightarrow> if is_not_red e
         then andThen (record_ev S (record_red_refused (sp_ctx S) (bi_id i) ''reason''
           [(''path'', JStr (au_path a)), (''author'', JStr (au_author a))])) (\<lambda>_. stop_ready r STATUS_NOT_RED)
         else halt (Raised e)
     | Inr p \<Rightarrow> andThen (record_ev S (record_red_proof (sp_ctx S) (proof_payload p))) (\<lambda>_. ret p))"

subsection \<open>The build ladder\<close>

fun nat_text :: "nat \<Rightarrow> string" where
  "nat_text n = (if n < 10 then [char_of (48 + n)] else nat_text (n div 10) @ [char_of (48 + n mod 10)])"

declare nat_text.simps [simp del]

text \<open>\<open>recorded\<close>: the attempt is on the chain as soon as it is graded, and so is its held-out grading.\<close>

definition build_payload :: "build \<Rightarrow> payload" where
  "build_payload b = [(''pack_hash'', JStr (bd_pack_hash b)), (''row_id'', JStr (bd_row_id b)), (''row_hash'', JStr (bd_row_hash b)),
     (''clean'', JBool (bd_clean b)), (''rung'', JStr (bd_rung b)), (''trial'', JStr (bd_trial b)),
     (''oracle_commit'', JStr (bd_oracle_commit b)), (''test_sha256'', JStr (bd_oracle_sha256 b)),
     (''disqualified'', JBool (bd_disqualified b)), (''error'', JStr (bd_error b))]"

definition graded_payload :: "held_out_tests \<Rightarrow> build \<Rightarrow> string \<Rightarrow> payload" where
  "graded_payload h b grant = [(''record_id'', JStr (ht_record_id h)), (''sha256'', JStr (ht_sha256 h)), (''author'', JStr (ht_author h)),
     (''result'', JStr (dget (bd_labels b) LABEL_ACCEPTANCE_RESULT [])), (''row_hash'', JStr (bd_row_hash b)), (''grant'', JStr grant)]"

definition record_built :: "fspec \<Rightarrow> backlog_item \<Rightarrow> held_out_tests option \<Rightarrow> string \<Rightarrow> build \<Rightarrow> unit act" where
  "record_built S i held grant b =
     andThen (record_ev S (record_build (sp_ctx S) (bi_id i) (build_payload b))) (\<lambda>_.
     case held of None \<Rightarrow> ret ()
     | Some h \<Rightarrow> if dget (bd_labels b) LABEL_ACCEPTANCE_RESULT [] = [] then ret ()
         else record_ev S (record_acceptance_graded (sp_ctx S) (bi_id i) (graded_payload h b grant)))"

record ladder_call =
  lc_oracle :: authored_test
  lc_proof :: red_proof
  lc_prefix :: string
  lc_labels :: dict
  lc_arm :: string
  lc_held_out :: "held_out_tests option"
  lc_grant :: string

definition author_stamp :: "fspec \<Rightarrow> red_proof \<Rightarrow> string" where
  "author_stamp S p = (case sp_author S of None \<Rightarrow> []
     | Some ta \<Rightarrow> if rp_author p \<noteq> author_label ta then [] else if ta_provider ta \<noteq> [] then ta_provider ta else ta_name ta)"

definition request_for :: "fspec \<Rightarrow> backlog_item \<Rightarrow> ladder_call \<Rightarrow> nat \<Rightarrow> rung \<Rightarrow> build_request" where
  "request_for S i c k r = \<lparr>rq_item = i, rq_oracle = lc_oracle c, rq_proof = lc_proof c, rq_rung = r, rq_trial = lc_prefix c @ nat_text k,
     rq_labels = lc_labels c, rq_arm = lc_arm c, rq_learning = (sp_learning S \<and> arm_carries_loop (lc_arm c)),
     rq_author_stamp = author_stamp S (lc_proof c), rq_held_out = (if k = 1 then lc_held_out c else None),
     rq_reserve = (k = 1 \<and> sp_reserve S \<and> lc_prefix c = ''r'')\<rparr>"

definition build_rung :: "fspec \<Rightarrow> build_request \<Rightarrow> build act" where
  "build_rung S rq = andThen (local_var (\<lambda>s. s\<lparr>ls_requests := ls_requests s @ [rq]\<rparr>)) (\<lambda>_. ask (\<lambda>n. sp_build S n rq))"

fun climb :: "fspec \<Rightarrow> backlog_item \<Rightarrow> ladder_call \<Rightarrow> nat \<Rightarrow> rung list \<Rightarrow> build list act" where
  "climb S i c k [] = ret []"
| "climb S i c k (r # rs) =
     andThen (build_rung S (request_for S i c k r)) (\<lambda>b. andThen (record_built S i (lc_held_out c) (lc_grant c) b) (\<lambda>_.
     if bd_clean b \<or> bd_disqualified b then ret [b] else andThen (climb S i c (Suc k) rs) (\<lambda>bs. ret (b # bs))))"

definition build_ladder :: "fspec \<Rightarrow> backlog_item \<Rightarrow> ladder_call \<Rightarrow> build list act" where
  "build_ladder S i c =
     (if sp_ladder S = [] then halt (Raised (ValueError ''ladder''))
      else andThen (lift_result (collect (\<lambda>r. assert_distinct_identity (sp_keys S) (au_author (lc_oracle c)) (rung_label r)) (sp_ladder S)))
        (\<lambda>_. climb S i c 1 (sp_ladder S)))"

subsection \<open>Review, close and rework\<close>

fun waiver_among :: "fspec \<Rightarrow> backlog_item \<Rightarrow> string \<Rightarrow> probe_waiver option \<Rightarrow> fevent list \<Rightarrow> probe_waiver option act" where
  "waiver_among S i test_sha256 found [] = ret found"
| "waiver_among S i test_sha256 found (e # es) =
     (let w = \<lparr>pw_approver = pstr (fe_payload e) ''approver'', pw_reason = pstr (fe_payload e) ''reason'',
          pw_test_sha256 = pstr (fe_payload e) ''test_sha256'', pw_event_id = fe_event_id e\<rparr>
      in if \<not> applies_to w test_sha256 then waiver_among S i test_sha256 found es
         else if sp_actor S \<noteq> [] \<and> pw_approver w = sp_actor S
         then andThen (record_routed S i ROUTE_HUMAN [(''reason_code'', JStr ''waiver_refused''), (''waiver_refused'', JStr ''same_actor''),
             (''waiver_by'', JStr (pw_approver w)), (''waiver_event'', JStr (pw_event_id w))]) (\<lambda>_. waiver_among S i test_sha256 found es)
         else waiver_among S i test_sha256 (Some w) es)"

definition probe_waiver_for :: "fspec \<Rightarrow> backlog_item \<Rightarrow> string \<Rightarrow> probe_waiver option act" where
  "probe_waiver_for S i test_sha256 =
     andThen (read_chain S (\<lambda>evs. events_for evs (bi_id i) EV_PROBE_WAIVED)) (\<lambda>es. waiver_among S i test_sha256 None es)"

definition review_item :: "fspec \<Rightarrow> backlog_item \<Rightarrow> build \<Rightarrow> red_proof \<Rightarrow> verdict act" where
  "review_item S i b p = andThen (probe_waiver_for S i (bd_oracle_sha256 b)) (\<lambda>w.
     on_chain S (\<lambda>n. review (sp_ctx S) (sp_keys S) i
       \<lparr>rb_rung = bd_rung b, rb_pack_hash = bd_pack_hash b, rb_oracle_sha256 = bd_oracle_sha256 b\<rparr> p (sp_reviewer S) [] w
       (sp_probes S n b p) (sp_opinion S n)))"

text \<open>The remote's answer and the calls made to it.\<close>

definition on_remote :: "(nat \<Rightarrow> 'a remote) \<Rightarrow> ('a result) act" where
  "on_remote f = (\<lambda>s. case f (ls_tick s) of (res, acts) \<Rightarrow> (Inr res, (ticked s)\<lparr>ls_remote := ls_remote s @ acts\<rparr>))"

definition delivered_of :: "backlog_item \<Rightarrow> payload \<Rightarrow> delivery_result" where
  "delivered_of i p = \<lparr>dr_item_id = bi_id i, dr_branch = pstr p ''branch'', dr_base = pstr p ''base'', dr_commit_sha = pstr p ''commit_sha'',
     dr_pr_url = pstr p ''pr_url'', dr_pr_number = pint p ''pr_number'', dr_pack_hash = pstr p ''pack_hash'',
     dr_previous_commit_sha = [], dr_updated = False, dr_comment_error = False, dr_repository = pstr p ''repository''\<rparr>"

definition open_delivery :: "fspec \<Rightarrow> backlog_item \<Rightarrow> delivery_result option act" where
  "open_delivery S i =
     (if \<not> sp_deliver S then ret None
      else andThen (read_chain S (\<lambda>evs. last_of (\<lambda>e. fe_kind e \<in> {EV_DELIVERY, EV_DELIVERY_UPDATED}) (events_of evs (bi_id i)))) (\<lambda>latest.
        case latest of None \<Rightarrow> ret None
        | Some e \<Rightarrow> let number = pint (fe_payload e) ''pr_number'' in
            if number \<le> 0 then ret None
            else andThen (read_chain S (\<lambda>evs. outcome_for evs (bi_id i) number)) (\<lambda>ended.
              ret (if ended \<noteq> None then None else Some (delivered_of i (fe_payload e))))))"

definition withdraw :: "fspec \<Rightarrow> backlog_item \<Rightarrow> delivery_result option \<Rightarrow> verdict \<Rightarrow> unit act" where
  "withdraw S i open_pr v = (case open_pr of None \<Rightarrow> ret ()
     | Some d \<Rightarrow> andThen (on_remote (\<lambda>n. close_pull_request (sp_world S n) d (vd_verdict v) (sp_repo_key S))) (\<lambda>res.
         case res of Inl e \<Rightarrow> ret ()
         | Inr _ \<Rightarrow> andThen (on_chain S (\<lambda>n stamp. record_delivery_outcome (sp_ctx S) (bi_id i)
             \<lparr>po_state = ''closed'', po_pr_number = dr_pr_number d, po_pr_url = dr_pr_url d, po_merged_at = [], po_merged_by = [],
              po_merge_sha = [], po_closed_at = fst stamp, po_closed_by = ''factory'', po_verdict = vd_verdict v, po_reason = ''reason''\<rparr>
             stamp)) (\<lambda>_. ret ())))"

definition require_scoreable :: "fspec \<Rightarrow> backlog_item \<Rightarrow> verdict \<Rightarrow> authored_test \<Rightarrow> delivery_result option \<Rightarrow> unit act" where
  "require_scoreable S i v oracle_test open_pr = (case unscoreable v of None \<Rightarrow> ret ()
     | Some p \<Rightarrow> andThen (record_routed S i ROUTE_HUMAN [(''reason_code'', JStr STATUS_ORACLE_NOT_SCOREABLE),
           (''after_verdict'', JStr (vd_verdict v)), (''verdict_event'', JStr (vd_event_id v)),
           (''oracle_sha256'', JStr (au_sha256 (sp_sha S) oracle_test))]) (\<lambda>_.
         andThen (withdraw S i open_pr v) (\<lambda>_. halt (Stopped STATUS_ORACLE_NOT_SCOREABLE))))"

definition weak_oracle_finding :: "verdict \<Rightarrow> string option" where
  "weak_oracle_finding v = map_option fd_detail (find (\<lambda>f. fd_kind f = FINDING_WEAK_ORACLE) (vd_findings v))"

definition refuse_rework :: "fspec \<Rightarrow> backlog_item \<Rightarrow> verdict \<Rightarrow> authored_test \<Rightarrow> delivery_result option \<Rightarrow> 'a act" where
  "refuse_rework S i v oracle_test open_pr =
     andThen (record_routed S i ROUTE_HUMAN [(''after_verdict'', JStr (vd_verdict v)), (''finding'', JStr FINDING_WEAK_ORACLE),
         (''verdict_event'', JStr (vd_event_id v)), (''oracle_sha256'', JStr (au_sha256 (sp_sha S) oracle_test))]) (\<lambda>_.
     andThen (withdraw S i open_pr v) (\<lambda>_. halt (Stopped STATUS_ORACLE_NEEDS_STRENGTHENING)))"

text \<open>Build, grade and review once: what \<open>run_item\<close> does before the rework loop and again in each round.\<close>

definition build_and_review :: "fspec \<Rightarrow> backlog_item \<Rightarrow> readiness \<Rightarrow> ladder_call \<Rightarrow> delivery_result option \<Rightarrow> (build \<times> verdict) act" where
  "build_and_review S i r c open_pr =
     andThen (build_ladder S i c) (\<lambda>results.
     andThen (local_var (\<lambda>s. s\<lparr>ls_builds := ls_builds s @ results\<rparr>)) (\<lambda>_. let final = last results in
     if bd_disqualified final then halt (Stopped STATUS_DISQUALIFIED)
     else if \<not> bd_clean final then halt (Stopped STATUS_NOT_CLEAN)
     else andThen (review_item S i final (lc_proof c)) (\<lambda>v.
       andThen (local_var (\<lambda>s. s\<lparr>ls_verdicts := ls_verdicts s @ [v]\<rparr>)) (\<lambda>_.
       andThen (require_scoreable S i v (lc_oracle c) open_pr) (\<lambda>_. ret (final, v))))))"

definition proved :: "fspec \<Rightarrow> backlog_item \<Rightarrow> readiness \<Rightarrow> authored_test \<Rightarrow> red_proof act" where
  "proved S i r a = andThen (prove_item S i r a) (\<lambda>p. andThen (local_var (\<lambda>s. s\<lparr>ls_proof := Some p\<rparr>)) (\<lambda>_. ret p))"

text \<open>One round of the rework loop, numbered \<open>n\<close>; \<open>c\<close> is the call of the round before.\<close>

definition rework_round :: "fspec \<Rightarrow> backlog_item \<Rightarrow> readiness \<Rightarrow> delivery_result option \<Rightarrow> nat \<Rightarrow> ladder_call \<times> build \<times> verdict \<Rightarrow>
    (ladder_call \<times> build \<times> verdict) act" where
  "rework_round S i r open_pr n st = (case st of (c, final, v) \<Rightarrow>
     let stronger = (weak_oracle_finding v \<noteq> None); oracle_test = lc_oracle c in
     if stronger \<and> sp_rework_test S = None then refuse_rework S i v oracle_test open_pr
     else andThen (local_var (\<lambda>s. s\<lparr>ls_reworks := n\<rparr>)) (\<lambda>_.
       andThen (on_chain S (\<lambda>k. permit_edit (sp_ctx S) (bi_id i) (bd_pack_hash final)
         (if sp_actor S \<noteq> [] then sp_actor S else ''factory'') ''rework'')) (\<lambda>_.
       andThen (case sp_rework_test S of None \<Rightarrow> ret None | Some f \<Rightarrow> ask (\<lambda>k. f k i v oracle_test)) (\<lambda>edited.
       if stronger \<and> (case edited of None \<Rightarrow> True | Some a \<Rightarrow> au_sha256 (sp_sha S) a = au_sha256 (sp_sha S) oracle_test)
       then refuse_rework S i v oracle_test open_pr
       else let a = (case edited of None \<Rightarrow> oracle_test | Some a \<Rightarrow> a) in
         andThen (proved S i r a) (\<lambda>p.
         let c' = \<lparr>lc_oracle = a, lc_proof = p, lc_prefix = CHR ''w'' # nat_text n @ ''r'', lc_labels = lc_labels c, lc_arm = lc_arm c,
               lc_held_out = None, lc_grant = []\<rparr> in
         andThen (build_and_review S i r c' open_pr) (\<lambda>(final', v'). ret (c', final', v')))))))"

text \<open>\<open>while verdict.rework_required and reworks < max_rework\<close>: \<open>left\<close> is \<open>max_rework - reworks\<close>.\<close>

primrec rework_loop :: "fspec \<Rightarrow> backlog_item \<Rightarrow> readiness \<Rightarrow> delivery_result option \<Rightarrow> nat \<Rightarrow> nat \<Rightarrow> ladder_call \<times> build \<times> verdict \<Rightarrow>
    (ladder_call \<times> build \<times> verdict) act" where
  "rework_loop S i r open_pr 0 reworks st = ret st"
| "rework_loop S i r open_pr (Suc left) reworks st =
     (if \<not> rework_required (snd (snd st)) then ret st
      else andThen (rework_round S i r open_pr (Suc reworks) st) (\<lambda>st'. rework_loop S i r open_pr left (Suc reworks) st'))"

subsection \<open>Delivery\<close>

definition tier_rank :: "string \<Rightarrow> int" where
  "tier_rank z = (if z \<in> set SIZE_TIER_NAMES then int (index_of z SIZE_TIER_NAMES) else -1)"

definition estimated_cell :: "backlog_item \<Rightarrow> string" where
  "estimated_cell i = bi_capability_class i @ ''|'' @ bi_size_estimate i"

text \<open>What a delivery withheld by the route gate says: the route read, and both sizes when they differ.\<close>

definition REASON_SIZE_EXCEEDS_LICENCE :: string where "REASON_SIZE_EXCEEDS_LICENCE = ''size_exceeds_licence''"

definition route_withheld :: "backlog_item \<Rightarrow> build \<Rightarrow> map_route option \<Rightarrow> payload" where
  "route_withheld i b read =
     (let resized = (bd_size b \<noteq> [] \<and> bd_size b \<noteq> bi_size_estimate i);
          larger = (tier_rank (bi_size_estimate i) < tier_rank (bd_size b))
      in [(''measured_route'', JStr (case read of None \<Rightarrow> [] | Some m \<Rightarrow> mr_route m)),
          (''reason_code'', JStr (if resized \<and> larger then REASON_SIZE_EXCEEDS_LICENCE
             else (case read of None \<Rightarrow> [] | Some m \<Rightarrow> mr_reason_code m))),
          (''policy_version'', JStr (case read of None \<Rightarrow> [] | Some m \<Rightarrow> mr_policy_version m))] @
         (if resized then [(''size_estimate'', JStr (bi_size_estimate i)), (''size_measured'', JStr (bd_size b))] else []))"

definition licence_json :: "licence \<Rightarrow> string \<Rightarrow> jval" where
  "licence_json l by = JObj [(''code'', JStr (lc_code l)), (''standard'', standard_json (lc_standard l)), (''estimate'', JStr (lc_estimate l)),
     (''measured'', JStr (lc_measured l)), (''signed'', JBool (standard_signed (lc_standard l))), (''override_by'', JStr by)]"

definition built_rung :: "build \<Rightarrow> rung" where
  "built_rung b = (case bd_built_by b of Some r \<Rightarrow> r
     | None \<Rightarrow> (case split_once CHR '':'' (bd_rung b) of (builder, model) \<Rightarrow> (builder, (case model of None \<Rightarrow> [] | Some m \<Rightarrow> m), [])))"

definition licence_of :: "fspec \<Rightarrow> backlog_item \<Rightarrow> build \<Rightarrow> string \<Rightarrow> licence" where
  "licence_of S i b context_arm = own_cell_licence (bi_capability_class i) (bi_size_estimate i) (bd_size b) (built_rung b) context_arm
     (rs_standard_for (sp_readers S))"

text \<open>The sign-off clause at the delivered change's own cell: the approver whose override lifts it, or none.\<close>

definition delivered_cell_sign_off :: "fspec \<Rightarrow> backlog_item \<Rightarrow> build \<Rightarrow> licence \<Rightarrow> map_route option \<Rightarrow> string \<Rightarrow> string act" where
  "delivered_cell_sign_off S i b l ro entry_override =
     (if \<not> sp_require_signed_cell S \<or> standard_signed (lc_standard l) then ret []
      else andThen (if entry_override \<noteq> [] then ret entry_override else override_by_now S) (\<lambda>by.
        let refused = override_refusal ro by (sp_actor S) in
        if by \<noteq> [] \<and> refused = [] then ret by
        else andThen (record_withheld S i b [(''reason_code'', JStr STOP_UNSIGNED_CELL), (''estimate'', JStr (lc_estimate l)),
            (''measured'', JStr (lc_measured l)), (''estimated_cell'', JStr (estimated_cell i)), (''licence'', licence_json l by), (''override_refused'', JStr refused),
            (''override_by'', JStr by)]) (\<lambda>_. halt (Stopped STOP_UNSIGNED_CELL))))"

definition delivery_payload :: "delivery_result \<Rightarrow> licence \<Rightarrow> string \<Rightarrow> payload" where
  "delivery_payload d l by = [(''item_id'', JStr (dr_item_id d)), (''branch'', JStr (dr_branch d)), (''base'', JStr (dr_base d)),
     (''commit_sha'', JStr (dr_commit_sha d)), (''pr_url'', JStr (dr_pr_url d)), (''pr_number'', JInt (dr_pr_number d)),
     (''pack_hash'', JStr (dr_pack_hash d)), (''previous_commit_sha'', JStr (dr_previous_commit_sha d)), (''updated'', JBool (dr_updated d)),
     (''repository'', JStr (dr_repository d)), (''estimate'', JStr (lc_estimate l)), (''measured'', JStr (lc_measured l)),
     (''licence'', licence_json l by)]"

definition change_of :: "build \<Rightarrow> built_change" where
  "change_of b = \<lparr>bc_pack_hash = bd_pack_hash b, bc_clean = bd_clean b, bc_disqualified = bd_disqualified b\<rparr>"

text \<open>The route gate: the route read at readiness, or the measured cell's when the change measures another size.\<close>

definition delivered_route :: "fspec \<Rightarrow> backlog_item \<Rightarrow> build \<Rightarrow> map_route option \<Rightarrow> map_route option act" where
  "delivered_route S i b ro =
     (if bd_size b \<noteq> [] \<and> bd_size b \<noteq> bi_size_estimate i then andThen (resized_item i (bd_size b)) (map_route_for S) else ret ro)"

definition push_change :: "fspec \<Rightarrow> backlog_item \<Rightarrow> build \<Rightarrow> verdict \<Rightarrow> delivery_result option \<Rightarrow> nat \<Rightarrow> string \<Rightarrow> licence \<Rightarrow> string \<Rightarrow>
    delivery_result act" where
  "push_change S i b v previous rework_n after_verdict l by =
     andThen (on_remote (\<lambda>n. deliver (sp_world S n) i (change_of b) (sp_target S) (sp_repo_key S) previous (vd_verdict v))) (\<lambda>res.
     case res of
       Inl e \<Rightarrow> if is_delivery_error e
         then andThen (record_withheld S i b [(''rework'', JInt (int rework_n))]) (\<lambda>_. halt (Stopped STATUS_DELIVERY_FAILED))
         else halt (Raised e)
     | Inr d \<Rightarrow> andThen (record_ev S (if dr_updated d
           then record_delivery_updated (sp_ctx S) (delivery_payload d l by) (int rework_n) after_verdict
           else record_delivery (sp_ctx S) (delivery_payload d l by))) (\<lambda>_. ret d))"

definition deliver_item :: "fspec \<Rightarrow> backlog_item \<Rightarrow> build \<Rightarrow> map_route option \<Rightarrow> verdict \<Rightarrow> delivery_result option \<Rightarrow> nat \<Rightarrow> string \<Rightarrow>
    string \<Rightarrow> string \<Rightarrow> delivery_result option act" where
  "deliver_item S i b ro v previous rework_n after_verdict context_arm entry_override =
     (if \<not> vd_accepted v \<or> vd_pack_hash v \<noteq> bd_pack_hash b then halt (Raised (delivery_error ''not accepted''))
      else if \<not> sp_deliver S then andThen (record_withheld S i b []) (\<lambda>_. ret None)
      else let l = licence_of S i b context_arm in
        if \<not> licensed l
        then andThen (record_withheld S i b [(''reason_code'', JStr (lc_code l)), (''estimate'', JStr (lc_estimate l)),
            (''measured'', JStr (lc_measured l)), (''estimated_cell'', JStr (estimated_cell i)), (''licence'', licence_json l [])]) (\<lambda>_.
          halt (Stopped (if lc_code l = STOP_SIZE_EXCEEDS_LICENCE then STOP_SIZE_EXCEEDS_LICENCE else STOP_CELL_NOT_LICENSED)))
        else andThen (delivered_route S i b ro) (\<lambda>read.
          let measured = (case read of None \<Rightarrow> [] | Some m \<Rightarrow> mr_route m) in
          if measured \<noteq> ROUTE_DELIVER_WORD
          then andThen (record_withheld S i b (route_withheld i b read)) (\<lambda>_. ret None)
          else andThen (delivered_cell_sign_off S i b l read entry_override) (\<lambda>by.
            andThen (push_change S i b v previous rework_n after_verdict l by) (\<lambda>d. ret (Some d)))))"

subsection \<open>One item\<close>

definition no_entry :: entry where
  "no_entry = enter None [] []"

definition item_labels :: "fspec \<Rightarrow> backlog_item \<Rightarrow> entry \<Rightarrow> authored_test option \<Rightarrow> string \<Rightarrow>
    (dict \<times> held_out_tests option) act" where
  "item_labels S i e authored context_arm =
     (let calibrating = (if en_calibration e \<noteq> None then [(LABEL_CALIBRATION, ''true'')] else []) in
      if Entry_Gate.arm_base context_arm \<noteq> BASE_S2 then ret (calibrating, None)
      else andThen (held_out_item S i e authored) (\<lambda>(held, why).
        andThen (case (held, en_calibration e) of
            (None, Some c) \<Rightarrow> record_ev S (record_acceptance_not_graded (sp_ctx S) (bi_id i) (cb_event_id c) why [] [])
          | _ \<Rightarrow> ret ()) (\<lambda>_.
        ret (calibrating @ none_labels (if why \<noteq> [] then why else WHY_NOT_FIRST), held))))"

definition settle_item :: "fspec \<Rightarrow> backlog_item \<Rightarrow> map_route option \<Rightarrow> entry \<Rightarrow> delivery_result option \<Rightarrow> string \<Rightarrow>
    build \<times> verdict \<Rightarrow> string act" where
  "settle_item S i ro e open_pr context_arm st = (case st of (final, v) \<Rightarrow>
     (case (vd_accepted v, en_calibration e) of
       (True, Some c) \<Rightarrow> andThen (record_withheld S i final [(''reason_code'', JStr STOP_CALIBRATION_BUILD),
           (''calibration_by'', JStr (cb_approver c)), (''context_arm'', JStr context_arm)]) (\<lambda>_. ret STOP_CALIBRATION_BUILD)
     | (True, None) \<Rightarrow> (\<lambda>s.
         andThen (deliver_item S i final ro v open_pr (ls_reworks s)
             (if length (ls_verdicts s) > 1 then vd_verdict (ls_verdicts s ! (length (ls_verdicts s) - 2)) else []) context_arm (en_override_by e)) (\<lambda>d.
         andThen (local_var (\<lambda>s. s\<lparr>ls_delivery := d\<rparr>)) (\<lambda>_. ret STATUS_ACCEPTED)) s)
     | (False, _) \<Rightarrow> andThen (withdraw S i open_pr v) (\<lambda>_. ret (if rework_required v then STATUS_REWORK_EXHAUSTED else STATUS_REJECTED))))"

definition first_call :: "authored_test \<Rightarrow> red_proof \<Rightarrow> dict \<Rightarrow> string \<Rightarrow> held_out_tests option \<Rightarrow> entry \<Rightarrow> ladder_call" where
  "first_call oracle_test p labels context_arm held e = \<lparr>lc_oracle = oracle_test, lc_proof = p, lc_prefix = ''r'', lc_labels = labels,
     lc_arm = context_arm, lc_held_out = held, lc_grant = (case en_calibration e of None \<Rightarrow> [] | Some c \<Rightarrow> cb_event_id c)\<rparr>"

text \<open>From the entry to the final verdict: the route read, the entry, the open pull request, the arm, the build and its review.\<close>

type_synonym worked = "map_route option \<times> entry \<times> delivery_result option \<times> string \<times> build \<times> verdict"

definition after_entry :: "fspec \<Rightarrow> backlog_item \<Rightarrow> authored_test option \<Rightarrow> readiness \<Rightarrow> map_route option \<Rightarrow> entry \<Rightarrow> worked act" where
  "after_entry S i authored r ro e =
     andThen (if en_calibration e \<noteq> None then ret None else open_delivery S i) (\<lambda>open_pr.
     andThen (oracle_item S i r authored e) (\<lambda>(oracle_test, context_arm).
     andThen (item_labels S i e authored context_arm) (\<lambda>(labels, held).
     andThen (proved S i r oracle_test) (\<lambda>p.
     let c = first_call oracle_test p labels context_arm held e in
     andThen (build_and_review S i r c open_pr) (\<lambda>(final, v).
     andThen (rework_loop S i r open_pr (nat (sp_max_rework S)) 0 (c, final, v)) (\<lambda>(c', final', v').
     ret (ro, e, open_pr, context_arm, final', v')))))))"

definition work_item :: "fspec \<Rightarrow> backlog_item \<Rightarrow> authored_test option \<Rightarrow> worked act" where
  "work_item S i authored =
     andThen (assess_item S i authored) (\<lambda>(r, ro, e).
     andThen (local_var (\<lambda>s. s\<lparr>ls_readiness := Some r, ls_entry := e\<rparr>)) (\<lambda>_. after_entry S i authored r ro e))"

definition item_body :: "fspec \<Rightarrow> backlog_item \<Rightarrow> authored_test option \<Rightarrow> string act" where
  "item_body S i authored = andThen (work_item S i authored) (\<lambda>(ro, e, open_pr, context_arm, final, v).
     settle_item S i ro e open_pr context_arm (final, v))"

record item_outcome =
  io_item_id :: string
  io_status :: string
  io_readiness :: "readiness option"
  io_proof :: "red_proof option"
  io_builds :: "build list"
  io_delivery :: "delivery_result option"
  io_verdicts :: "verdict list"
  io_reworks :: nat

definition ItemOutcome :: "item_outcome \<Rightarrow> item_outcome result" where
  "ItemOutcome io = guarded [(io_status io \<notin> set STATUSES, ValueError ''status'')] io"

definition io_accepted :: "item_outcome \<Rightarrow> bool" where
  "io_accepted io \<longleftrightarrow> io_status io = STATUS_ACCEPTED"

definition fresh_locals :: "lstate \<Rightarrow> lstate" where
  "fresh_locals s = s\<lparr>ls_readiness := None, ls_entry := no_entry, ls_proof := None, ls_builds := [], ls_verdicts := [],
     ls_delivery := None, ls_reworks := 0\<rparr>"

definition outcome_of :: "backlog_item \<Rightarrow> string \<Rightarrow> lstate \<Rightarrow> item_outcome" where
  "outcome_of i status s = \<lparr>io_item_id = bi_id i, io_status = status, io_readiness = ls_readiness s, io_proof = ls_proof s,
     io_builds = ls_builds s, io_delivery = ls_delivery s, io_verdicts = ls_verdicts s, io_reworks = ls_reworks s\<rparr>"

definition item_outcome_payload :: "item_outcome \<Rightarrow> entry \<Rightarrow> payload" where
  "item_outcome_payload io e = [(''status'', JStr (io_status io)), (''builds'', JInt (int (length (io_builds io)))),
     (''verdict'', JStr (if io_verdicts io = [] then [] else vd_verdict (last (io_verdicts io)))),
     (''delivered'', JBool (io_delivery io \<noteq> None)), (''reworks'', JInt (int (io_reworks io)))] @
     (case en_calibration e of None \<Rightarrow> []
      | Some c \<Rightarrow> if io_builds io \<noteq> [] then [(''calibration_event'', JStr (cb_event_id c))] else [])"

definition close_item :: "fspec \<Rightarrow> backlog_item \<Rightarrow> string \<Rightarrow> item_outcome act" where
  "close_item S i status = (\<lambda>s.
     andThen (lift_result (ItemOutcome (outcome_of i status s))) (\<lambda>io.
     andThen (record_ev S (record_item_outcome (sp_ctx S) (bi_id i) (item_outcome_payload io (ls_entry s)))) (\<lambda>_. ret io)) s)"

definition run_item :: "fspec \<Rightarrow> backlog_item \<Rightarrow> authored_test option \<Rightarrow> item_outcome act" where
  "run_item S i authored = (\<lambda>s0. case item_body S i authored (fresh_locals s0) of
       (Inl (Raised e), s) \<Rightarrow> if e = SandboxUnavailable then (Inl (Raised e), s) else close_item S i STATUS_ERROR s
     | (Inl (Stopped status), s) \<Rightarrow> close_item S i status s
     | (Inr status, s) \<Rightarrow> close_item S i status s)"

subsection \<open>A whole backlog\<close>

text \<open>The outcomes by item id, in the order the items were worked.\<close>

type_synonym outcomes = "(string \<times> item_outcome) list"

definition unmet :: "dict \<Rightarrow> backlog_item \<Rightarrow> outcomes \<Rightarrow> string list" where
  "unmet latest i outs = filter (\<lambda>d. case map_of outs d of None \<Rightarrow> False | Some io \<Rightarrow> \<not> io_accepted io)
     (map (\<lambda>d. dget latest d d) (bi_depends_on i))"

definition blocked_outcome :: "backlog_item \<Rightarrow> item_outcome" where
  "blocked_outcome i = \<lparr>io_item_id = bi_id i, io_status = STATUS_BLOCKED, io_readiness = None, io_proof = None, io_builds = [],
     io_delivery = None, io_verdicts = [], io_reworks = 0\<rparr>"

definition blocked_item :: "fspec \<Rightarrow> backlog_item \<Rightarrow> string list \<Rightarrow> item_outcome act" where
  "blocked_item S i deps = andThen (record_ev S (record_item_outcome (sp_ctx S) (bi_id i)
     [(''status'', JStr STATUS_BLOCKED), (''blocked_on'', jstrs deps)])) (\<lambda>_. lift_result (ItemOutcome (blocked_outcome i)))"

fun work_through :: "fspec \<Rightarrow> dict \<Rightarrow> (string \<times> authored_test) list \<Rightarrow> backlog_item list \<Rightarrow> outcomes \<Rightarrow> outcomes act" where
  "work_through S latest tests [] outs = ret outs"
| "work_through S latest tests (i # is) outs =
     andThen (ask (\<lambda>n. Inr (sp_stop S n))) (\<lambda>stop.
     if stop then ret outs
     else andThen (if unmet latest i outs \<noteq> [] then blocked_item S i (unmet latest i outs)
         else run_item S i (map_of tests (bi_id i))) (\<lambda>io.
       work_through S latest tests is (AList.update (bi_id i) io outs)))"

definition freeze_on_chain :: "fspec \<Rightarrow> backlog \<Rightarrow> unit act" where
  "freeze_on_chain S b = andThen (read_chain S (\<lambda>evs. list_ex (\<lambda>e. fe_kind e = EV_BACKLOG_FROZEN \<and>
       pstr (fe_payload e) ''backlog_hash'' = bl_backlog_hash b) evs)) (\<lambda>known.
     if known then ret () else record_ev S (record_freeze (sp_ctx S) (bl_backlog_hash b) (map bi_id (bl_items b)) (bl_frozen_at b)))"

text \<open>\<open>None\<close>: following a supersession chain never ends.\<close>

definition run_backlog :: "fspec \<Rightarrow> digests \<Rightarrow> backlog \<Rightarrow> (string \<times> authored_test) list \<Rightarrow> string \<Rightarrow>
    item_outcome list act option" where
  "run_backlog S D b tests expected_hash =
     (if \<not> verify_backlog D expected_hash b then Some (halt (Raised (ValueError ''frozen'')))
      else case (latest_ids b, ordered b) of
          (Some latest, Some order) \<Rightarrow> Some (andThen (freeze_on_chain S b) (\<lambda>_. andThen (lift_result order) (\<lambda>items.
            andThen (work_through S latest tests items []) (\<lambda>outs. ret (map snd outs)))))
        | _ \<Rightarrow> None)"

definition checkpoint :: "fspec \<Rightarrow> string \<Rightarrow> int \<Rightarrow> string list \<Rightarrow> string \<Rightarrow> string \<Rightarrow> fevent act" where
  "checkpoint S level observations issues_minted signed_off_by text_note =
     on_chain S (\<lambda>n. record_checkpoint (sp_ctx S) level observations issues_minted signed_off_by [] text_note)"

end
