(* ===== verification/Loop_Laws.thy ===== *)
theory Loop_Laws
  imports Factory_Loop Evidence_Correct
begin

section \<open>What every step of the loop keeps\<close>

text \<open>
  The interfaces between the loop and what it works on, as locales: an invariant \<open>I\<close> that each primitive (a
  collaborator's answer, an append to the chain, a call to the builder, a call to the remote, a local variable)
  keeps is kept by every step the loop composes of them, and every status a step stops with is one of
  \<open>STATUSES\<close>. The traversal of the loop is done once, here; the theorems of the loop interpret it.
\<close>

subsection \<open>Composition\<close>

lemma andThen_Inr: "andThen m f s = (Inr y, s') \<longleftrightarrow> (\<exists>x s1. m s = (Inr x, s1) \<and> f x s1 = (Inr y, s'))"
  by (auto simp: andThen_def split: prod.splits sum.splits)

lemma ret_Inr [simp]: "ret x s = (Inr y, s') \<longleftrightarrow> y = x \<and> s' = s"
  by (auto simp: ret_def)

lemma halt_Inr [simp]: "\<not> (halt e s = (Inr y, s'))"
  by (simp add: halt_def)

lemma lift_Inr [simp]: "lift_result r s = (Inr y, s') \<longleftrightarrow> r = Inr y \<and> s' = s"
  by (cases r) (auto simp: lift_result_def)

lemma local_Inr [simp]: "local_var u s = (Inr y, s') \<longleftrightarrow> s' = u s"
  by (auto simp: local_var_def)

lemma tries_Inr [simp]: "tries f s = (Inr y, s') \<longleftrightarrow> y = f (ls_tick s) \<and> s' = ticked s"
  by (auto simp: tries_def)

lemma ask_Inr [simp]: "ask f s = (Inr y, s') \<longleftrightarrow> f (ls_tick s) = Inr y \<and> s' = ticked s"
  by (auto simp: ask_def andThen_Inr)

lemma andThen_ret: "andThen m ret = m"
  by (rule ext) (auto simp: andThen_def ret_def split: prod.splits sum.splits)

text \<open>A decision carries a calibration grant only when it was given that one.\<close>

lemma context_stop_no_calibration: "context_stop q so cells = Some e \<Longrightarrow> en_calibration e = None"
  by (auto simp: context_stop_def stop_entry_def split: option.splits if_splits)

lemma decide_read_calibration: "en_calibration (decide_read q cells) = Some c \<Longrightarrow> eq_calibration q = Some c"
  unfolding decide_read_def Let_def
  by (cases "context_stop q (snd (more_demanding cells)) (cells_view cells)")
    (auto dest: context_stop_no_calibration simp: enter_def stop_entry_def split: if_splits option.splits)

lemma decide_entry_calibration: "decide_entry R q = Inr e \<Longrightarrow> en_calibration e = Some c \<Longrightarrow> eq_calibration q = Some c"
  unfolding decide_entry_def
  by (auto simp: stop_entry_def dest: decide_read_calibration split: if_splits)

named_theorems law \<open>the steps of the loop keep the invariant\<close>

subsection \<open>The world: answers and the chain\<close>

locale world_law =
  fixes S :: fspec and I :: "lstate \<Rightarrow> bool" and okid :: "string \<Rightarrow> bool"
  assumes tick: "I s \<Longrightarrow> I (ticked s)"
    and readiness: "I s \<Longrightarrow> I (s\<lparr>ls_readiness := q\<rparr>)"
    and others: "I s \<Longrightarrow> I (s\<lparr>ls_evs := sp_others S n (ls_evs s)\<rparr>)"
    and plain_write: "I s \<Longrightarrow> kind \<notin> CHECKED_KINDS \<Longrightarrow> ev_append (sp_ctx S) kind x p (sp_stamp S n) (ls_evs s) = Inr (e, evs) \<Longrightarrow>
      I (s\<lparr>ls_evs := evs\<rparr>)"
    and claim_write: "I s \<Longrightarrow> okid g \<Longrightarrow> claim_calibration (sp_ctx S) x g run (sp_stamp S n) (ls_evs s) = Inr (c, evs) \<Longrightarrow>
      I (s\<lparr>ls_evs := evs\<rparr>)"
    and verdict_write: "I s \<Longrightarrow> okid (pstr p ''pack_hash'') \<Longrightarrow> record_verdict (sp_ctx S) p (sp_stamp S n) (ls_evs s) = Inr (e, evs) \<Longrightarrow>
      I (s\<lparr>ls_evs := evs\<rparr>)"
    and edit_write: "I s \<Longrightarrow> okid g \<Longrightarrow> record_edit (sp_ctx S) x g editor why (sp_stamp S n) (ls_evs s) = Inr (e, evs) \<Longrightarrow>
      I (s\<lparr>ls_evs := evs\<rparr>)"
    and outcome_write: "I s \<Longrightarrow> record_delivery_outcome (sp_ctx S) x po (sp_stamp S n) (ls_evs s) = Inr (r, evs) \<Longrightarrow>
      I (s\<lparr>ls_evs := evs\<rparr>)"
    and read_id: "I s \<Longrightarrow> e \<in> set (ls_evs s) \<Longrightarrow> okid (fe_event_id e)"
    and built_id: "sp_build S n rq = Inr b \<Longrightarrow> okid (bd_pack_hash b)"
begin

definition safe :: "'a act \<Rightarrow> ('a \<Rightarrow> bool) \<Rightarrow> bool" where
  "safe m P \<longleftrightarrow> (\<forall>s. I s \<longrightarrow> (case m s of (Inr x, s') \<Rightarrow> I s' \<and> P x
     | (Inl (Stopped st), s') \<Rightarrow> I s' \<and> st \<in> set STATUSES | (Inl (Raised e), s') \<Rightarrow> I s'))"

abbreviation keeps :: "'a act \<Rightarrow> bool" where "keeps m \<equiv> safe m (\<lambda>_. True)"

lemma safe_result: "safe m P \<Longrightarrow> I s \<Longrightarrow> m s = (res, s') \<Longrightarrow>
    I s' \<and> (\<forall>x. res = Inr x \<longrightarrow> P x) \<and> (\<forall>st. res = Inl (Stopped st) \<longrightarrow> st \<in> set STATUSES)"
  unfolding safe_def by (cases res) (auto split: stopx.splits dest: spec [of _ s])

lemma safe_from_result: "(\<And>s res s'. I s \<Longrightarrow> m s = (res, s') \<Longrightarrow>
    I s' \<and> (\<forall>x. res = Inr x \<longrightarrow> P x) \<and> (\<forall>st. res = Inl (Stopped st) \<longrightarrow> st \<in> set STATUSES)) \<Longrightarrow> safe m P"
  unfolding safe_def by (auto split: prod.splits sum.splits stopx.splits)

lemma safe_ret: "P x \<Longrightarrow> safe (ret x) P"
  by (simp add: safe_def ret_def)

lemma safe_andThen: "safe m P \<Longrightarrow> (\<And>x. P x \<Longrightarrow> safe (f x) Q) \<Longrightarrow> safe (andThen m f) Q"
  unfolding safe_def
proof (intro allI impI)
  fix s
  assume m: "\<forall>s. I s \<longrightarrow> (case m s of (Inr x, s') \<Rightarrow> I s' \<and> P x
     | (Inl (Stopped st), s') \<Rightarrow> I s' \<and> st \<in> set STATUSES | (Inl (Raised e), s') \<Rightarrow> I s')"
    and f: "\<And>x. P x \<Longrightarrow> \<forall>s. I s \<longrightarrow> (case f x s of (Inr x, s') \<Rightarrow> I s' \<and> Q x
     | (Inl (Stopped st), s') \<Rightarrow> I s' \<and> st \<in> set STATUSES | (Inl (Raised e), s') \<Rightarrow> I s')" and s: "I s"
  obtain res s1 where ms: "m s = (res, s1)" by (cases "m s")
  show "case andThen m f s of (Inr x, s') \<Rightarrow> I s' \<and> Q x
     | (Inl (Stopped st), s') \<Rightarrow> I s' \<and> st \<in> set STATUSES | (Inl (Raised e), s') \<Rightarrow> I s'"
  proof (cases res)
    case (Inl e)
    then show ?thesis using m [rule_format, OF s] ms by (simp add: andThen_def split: stopx.splits)
  next
    case (Inr x)
    then have "I s1" "P x" using m [rule_format, OF s] ms by simp_all
    then show ?thesis using f [of x, rule_format, of s1] ms Inr by (simp add: andThen_def)
  qed
qed

lemma keeps_andThen [law]: "keeps m \<Longrightarrow> (\<And>x. safe (f x) Q) \<Longrightarrow> safe (andThen m f) Q"
  by (rule safe_andThen)

lemma safe_weaken: "safe m P \<Longrightarrow> (\<And>x. P x \<Longrightarrow> Q x) \<Longrightarrow> safe m Q"
  using safe_andThen [of m P ret Q] by (simp add: safe_ret andThen_ret)

lemma safe_keeps: "safe m P \<Longrightarrow> keeps m"
  by (rule safe_weaken) auto

lemma keeps_ret [law]: "keeps (ret x)"
  by (rule safe_ret) simp

lemma safe_stopped [law]: "st \<in> set STATUSES \<Longrightarrow> safe (halt (Stopped st)) P"
  by (simp add: safe_def halt_def)

lemma safe_raised [law]: "safe (halt (Raised e)) P"
  by (simp add: safe_def halt_def)

lemma safe_lift: "(\<And>x. r = Inr x \<Longrightarrow> P x) \<Longrightarrow> safe (lift_result r) P"
  by (cases r) (auto simp: lift_result_def safe_raised intro: safe_ret)

lemma keeps_lift [law]: "keeps (lift_result r)"
  by (rule safe_lift) simp

lemma safe_if [law]: "(b \<Longrightarrow> safe m P) \<Longrightarrow> (\<not> b \<Longrightarrow> safe m' P) \<Longrightarrow> safe (if b then m else m') P"
  by simp

lemma safe_option [law]: "(q = None \<Longrightarrow> safe m P) \<Longrightarrow> (\<And>x. q = Some x \<Longrightarrow> safe (f x) P) \<Longrightarrow>
    safe (case q of None \<Rightarrow> m | Some x \<Rightarrow> f x) P"
  by (cases q) auto

lemma safe_sum [law]: "(\<And>e. q = Inl e \<Longrightarrow> safe (f e) P) \<Longrightarrow> (\<And>x. q = Inr x \<Longrightarrow> safe (g x) P) \<Longrightarrow>
    safe (case q of Inl e \<Rightarrow> f e | Inr x \<Rightarrow> g x) P"
  by (cases q) auto

lemma safe_pair [law]: "(\<And>a b. q = (a, b) \<Longrightarrow> safe (f a b) P) \<Longrightarrow> safe (case q of (a, b) \<Rightarrow> f a b) P"
  by (cases q) auto

lemma safe_tries: "(\<And>n. P (f n)) \<Longrightarrow> safe (tries f) P"
  by (simp add: safe_def tries_def tick)

lemma safe_ask: "(\<And>n x. f n = Inr x \<Longrightarrow> P x) \<Longrightarrow> safe (ask f) P"
  unfolding ask_def by (rule safe_andThen [OF safe_tries [where P = "\<lambda>r. \<exists>n. r = f n"]]) (auto intro: safe_lift)

lemma keeps_tries [law]: "keeps (tries f)"
  by (rule safe_tries) simp

lemma keeps_ask [law]: "keeps (ask f)"
  by (rule safe_ask) simp

lemma safe_stop_ready [law]: "st \<in> set STATUSES \<Longrightarrow> safe (stop_ready r st) P"
  by (simp add: safe_def stop_ready_def andThen_def local_var_def halt_def readiness)

definition writes :: "(nat \<Rightarrow> stamp \<Rightarrow> fevent list \<Rightarrow> ('a \<times> fevent list) result) \<Rightarrow> bool" where
  "writes f \<longleftrightarrow> (\<forall>n s x evs. I s \<longrightarrow> f n (sp_stamp S n) (ls_evs s) = Inr (x, evs) \<longrightarrow> I (s\<lparr>ls_evs := evs\<rparr>))"

lemma safe_on_chain:
  assumes w: "writes f" and p: "\<And>n s x evs. I s \<Longrightarrow> f n (sp_stamp S n) (ls_evs s) = Inr (x, evs) \<Longrightarrow> P x"
  shows "safe (on_chain S f) P"
  unfolding safe_def
proof (intro allI impI)
  fix s assume s: "I s"
  let ?n = "ls_tick s" let ?evs = "sp_others S ?n (ls_evs s)" let ?s1 = "(ticked s)\<lparr>ls_evs := ?evs\<rparr>"
  have t: "I (ticked s)" by (rule tick [OF s])
  have s1: "I ?s1" using others [OF t, of ?n] by (simp add: ticked_def)
  show "case on_chain S f s of (Inr x, s') \<Rightarrow> I s' \<and> P x
     | (Inl (Stopped st), s') \<Rightarrow> I s' \<and> st \<in> set STATUSES | (Inl (Raised e), s') \<Rightarrow> I s'"
  proof (cases "f ?n (sp_stamp S ?n) ?evs")
    case (Inl e)
    then show ?thesis using s1 by (simp add: on_chain_def Let_def)
  next
    case (Inr y)
    obtain x evs' where y: "y = (x, evs')" by (cases y)
    have f: "f ?n (sp_stamp S ?n) (ls_evs ?s1) = Inr (x, evs')" using Inr y by simp
    have "I (?s1\<lparr>ls_evs := evs'\<rparr>)" using w s1 f unfolding writes_def by blast
    moreover have "P x" by (rule p [OF s1 f])
    ultimately show ?thesis using Inr y by (simp add: on_chain_def Let_def)
  qed
qed

lemma keeps_on_chain [law]: "writes f \<Longrightarrow> keeps (on_chain S f)"
  by (rule safe_on_chain) auto

lemma safe_read_chain: "(\<And>s. I s \<Longrightarrow> P (g (ls_evs s))) \<Longrightarrow> safe (read_chain S g) P"
  unfolding read_chain_def by (rule safe_on_chain) (auto simp: writes_def)

lemma keeps_read_chain [law]: "keeps (read_chain S g)"
  by (rule safe_read_chain) simp

lemma keeps_record_ev: "writes (\<lambda>n. f) \<Longrightarrow> keeps (record_ev S f)"
  unfolding record_ev_def by (intro law)

lemma writes_plain: "kind \<notin> CHECKED_KINDS \<Longrightarrow> writes (\<lambda>n. ev_append (sp_ctx S) kind x p)"
  unfolding writes_def using plain_write by blast

lemmas plain_kinds = CHECKED_KINDS_def ev_words

lemma keeps_plain: "kind \<notin> CHECKED_KINDS \<Longrightarrow> keeps (record_ev S (ev_append (sp_ctx S) kind x p))"
  by (rule keeps_record_ev [OF writes_plain])

lemma keeps_routed [law]: "keeps (record_routed S i route extra)"
  unfolding record_routed_def record_route_def by (rule keeps_plain) (simp add: plain_kinds)

lemma keeps_withheld [law]: "keeps (record_withheld S i b extra)"
  unfolding record_withheld_def record_delivery_refused_def by (rule keeps_plain) (simp add: plain_kinds)

lemma keeps_record_readiness [law]: "keeps (record_ev S (record_readiness (sp_ctx S) p))"
  unfolding record_readiness_def by (rule keeps_plain) (simp add: plain_kinds)

lemma keeps_record_red_refused [law]: "keeps (record_ev S (record_red_refused (sp_ctx S) x why p))"
  unfolding record_red_refused_def by (rule keeps_plain) (simp add: plain_kinds)

lemma keeps_record_red_proof [law]: "keeps (record_ev S (record_red_proof (sp_ctx S) p))"
  unfolding record_red_proof_def by (rule keeps_plain) (simp add: plain_kinds)

lemma keeps_record_entry_refused [law]: "keeps (record_ev S (record_entry_refused (sp_ctx S) x c why p))"
  unfolding record_entry_refused_def by (rule keeps_plain) (simp add: plain_kinds)

lemma keeps_record_build [law]: "keeps (record_ev S (record_build (sp_ctx S) x p))"
  unfolding record_build_def by (rule keeps_plain) (simp add: plain_kinds)

lemma keeps_record_graded [law]: "keeps (record_ev S (record_acceptance_graded (sp_ctx S) x p))"
  unfolding record_acceptance_graded_def by (rule keeps_plain) (simp add: plain_kinds)

lemma keeps_record_not_graded [law]: "keeps (record_ev S (record_acceptance_not_graded (sp_ctx S) x g why rid reason))"
  unfolding record_acceptance_not_graded_def by (rule keeps_plain) (simp add: plain_kinds)

lemma keeps_record_item_outcome [law]: "keeps (record_ev S (record_item_outcome (sp_ctx S) x p))"
  unfolding record_item_outcome_def by (rule keeps_plain) (simp add: plain_kinds)

lemma keeps_record_freeze [law]: "keeps (record_ev S (record_freeze (sp_ctx S) h ids frozen))"
  unfolding record_freeze_def by (rule keeps_plain) (simp add: plain_kinds)

lemma keeps_record_delivered [law]: "keeps (record_ev S (if b then record_delivery_updated (sp_ctx S) p n w else record_delivery (sp_ctx S) p'))"
  unfolding record_delivery_updated_def record_delivery_def by (cases b) (auto intro!: keeps_plain simp: plain_kinds)

lemma status_members [law]:
  "STATUS_NOT_READY \<in> set STATUSES" "STATUS_ROUTED_HUMAN \<in> set STATUSES" "STATUS_NO_ORACLE \<in> set STATUSES"
  "STATUS_NOT_RED \<in> set STATUSES" "STATUS_NOT_CLEAN \<in> set STATUSES" "STATUS_DISQUALIFIED \<in> set STATUSES"
  "STATUS_DELIVERY_FAILED \<in> set STATUSES" "STATUS_ACCEPTED \<in> set STATUSES" "STATUS_REJECTED \<in> set STATUSES"
  "STATUS_REWORK_EXHAUSTED \<in> set STATUSES" "STATUS_ORACLE_NEEDS_STRENGTHENING \<in> set STATUSES"
  "STATUS_ORACLE_NOT_SCOREABLE \<in> set STATUSES" "STOP_UNSIGNED_CELL \<in> set STATUSES" "STOP_SIZE_EXCEEDS_LICENCE \<in> set STATUSES"
  "STOP_CELL_NOT_LICENSED \<in> set STATUSES" "STOP_CALIBRATION_BUILD \<in> set STATUSES" "STATUS_BLOCKED \<in> set STATUSES"
  "STATUS_ERROR \<in> set STATUSES"
  by (simp_all add: STATUSES_def)

lemma entry_status_member: "map_of ENTRY_STATUS code = Some st \<Longrightarrow> st \<in> set STATUSES"
  by (auto simp: ENTRY_STATUS_def STATUSES_def split: if_splits)

text \<open>The gate and the oracle.\<close>

lemma keeps_map_route [law]: "keeps (map_route_for S i)"
  unfolding map_route_for_def by (intro law)

lemma keeps_override_now [law]: "keeps (override_by_now S)"
  unfolding override_by_now_def by (intro law)

lemma keeps_resized [law]: "keeps (resized_item i tier)"
  unfolding resized_item_def by (intro law)

lemma keeps_cell_routes [law]: "keeps (cell_routes S i tiers)"
  by (induction tiers) (auto intro!: law)

lemma keeps_refusal [law]: "keeps (refusal_over_cells S i by)"
  unfolding refusal_over_cells_def by (intro law)

lemma keeps_honoured [law]: "keeps (honoured_override S i r)"
  unfolding honoured_override_def by (intro law)

lemma waiting_grant_in: "waiting_grant (events_of evs x) y = Some e \<Longrightarrow> e \<in> set evs"
  by (auto simp: waiting_grant_def events_of_def split: option.splits if_splits dest!: last_of_Some)

lemma safe_waiting: "safe (waiting_calibration S i) (\<lambda>c. \<forall>k. c = Some k \<longrightarrow> okid (cb_event_id k))"
  unfolding waiting_calibration_def
  by (rule safe_read_chain) (auto dest: waiting_grant_in read_id)

lemma keeps_stop_at_entry [law]: "safe (stop_at_entry S i r e) P"
  unfolding stop_at_entry_def by (intro law) (erule entry_status_member)

lemma decide_calibration: "decide_item S i r authored by cal = Inr e \<Longrightarrow> en_calibration e = Some c \<Longrightarrow> cal = Some c"
  unfolding decide_item_def gate_for_def by (drule decide_entry_calibration) simp_all

lemma keeps_claim: "(\<And>c. en_calibration e = Some c \<Longrightarrow> okid (cb_event_id c)) \<Longrightarrow> keeps (claim_grant S i e)"
  unfolding claim_grant_def by (intro law) (auto simp: writes_def intro: claim_write)

lemma keeps_enter [law]: "keeps (enter_item S i r e)"
  unfolding enter_item_def record_admitted_def by (intro law)

lemma keeps_past_gate: "(\<And>c. en_calibration e = Some c \<Longrightarrow> okid (cb_event_id c)) \<Longrightarrow> keeps (past_gate S i r authored by e)"
  unfolding past_gate_def by (intro law keeps_claim)

lemma keeps_decided: "\<forall>k. cal = Some k \<longrightarrow> okid (cb_event_id k) \<Longrightarrow>
    keeps (andThen (lift_result (decide_item S i r authored by cal)) (\<lambda>e.
       if \<not> enters e then stop_at_entry S i r e else past_gate S i r authored by e))"
  by (rule safe_andThen [OF safe_lift [where P = "\<lambda>e. \<forall>c. en_calibration e = Some c \<longrightarrow> cal = Some c"]])
    (auto dest: decide_calibration intro!: law keeps_past_gate)

lemma keeps_assess [law]: "keeps (assess_item S i authored)"
  unfolding assess_item_def Let_def
  by (rule keeps_andThen [OF keeps_ask], rule keeps_andThen [OF keeps_record_readiness], rule safe_if,
      rule keeps_andThen [OF keeps_routed], rule safe_stop_ready, rule status_members(2), rule safe_if,
      rule keeps_andThen [OF keeps_routed], rule safe_stop_ready, rule status_members(2),
      rule keeps_andThen [OF keeps_honoured], rule safe_andThen [OF safe_waiting keeps_decided], assumption)

lemma keeps_authored_by_run [law]: "keeps (authored_by_run S i r plus_l)"
  unfolding authored_by_run_def by (intro law)

lemma keeps_oracle [law]: "keeps (oracle_item S i r authored e)"
  unfolding oracle_item_def by (intro law)

lemma keeps_held_out [law]: "keeps (held_out_item S i e authored)"
  unfolding held_out_item_def held_out_for_def by (intro law)

lemma keeps_prove [law]: "keeps (prove_item S i r a)"
  unfolding prove_item_def by (intro law)

lemma keeps_item_labels [law]: "keeps (item_labels S i e authored context_arm)"
  unfolding item_labels_def Let_def by (auto intro!: law split: option.splits)

lemma keeps_open_delivery [law]: "keeps (open_delivery S i)"
  unfolding open_delivery_def Let_def by (intro law)

text \<open>Recording and reviewing a build.\<close>

lemma keeps_record_built [law]: "keeps (record_built S i held grant b)"
  unfolding record_built_def by (intro law)

lemma keeps_waiver_among [law]: "keeps (waiver_among S i sha found es)"
proof (induction es arbitrary: found)
  case (Cons e es)
  show ?case unfolding waiver_among.simps Let_def by (intro law Cons.IH)
qed (simp add: keeps_ret)

lemma keeps_waiver_for [law]: "keeps (probe_waiver_for S i sha)"
  unfolding probe_waiver_for_def by (intro law)

lemma review_pack:
  assumes "review C keys i b p who ref w probes ops st evs = Inr (v, evs')"
  shows "vd_pack_hash v = rb_pack_hash b \<and> (\<exists>u e. record_verdict C (verdict_payload u) st evs = Inr (e, evs') \<and>
      vd_pack_hash u = rb_pack_hash b)"
proof -
  from assms obtain raw oo e where "record_verdict C (verdict_payload (make_verdict i b p who ref
      (map (waive_if w (rb_oracle_sha256 b)) raw) oo)) st evs = Inr (e, evs')"
    "v = (make_verdict i b p who ref (map (waive_if w (rb_oracle_sha256 b)) raw) oo)\<lparr>vd_event_id := fe_event_id e\<rparr>"
    unfolding review_def Let_def by auto
  then show ?thesis by (auto simp: make_verdict_def)
qed

lemma verdict_pack: "pstr (verdict_payload u) ''pack_hash'' = vd_pack_hash u"
  by (simp add: verdict_payload_def pstr_def)

lemma safe_review:
  assumes "okid (bd_pack_hash b)"
  shows "safe (review_item S i b p) (\<lambda>v. vd_pack_hash v = bd_pack_hash b)"
  unfolding review_item_def
proof (rule keeps_andThen [OF keeps_waiver_for], rule safe_on_chain)
  fix w n s v evs
  let ?b = "\<lparr>rb_rung = bd_rung b, rb_pack_hash = bd_pack_hash b, rb_oracle_sha256 = bd_oracle_sha256 b\<rparr>"
  show "writes (\<lambda>n. review (sp_ctx S) (sp_keys S) i ?b p (sp_reviewer S) [] w (sp_probes S n b p) (sp_opinion S n))"
    unfolding writes_def
  proof (intro allI impI)
    fix n s v evs
    assume s: "I s" and r: "review (sp_ctx S) (sp_keys S) i ?b p (sp_reviewer S) [] w (sp_probes S n b p) (sp_opinion S n)
      (sp_stamp S n) (ls_evs s) = Inr (v, evs)"
    from review_pack [OF r] obtain u e where "record_verdict (sp_ctx S) (verdict_payload u) (sp_stamp S n) (ls_evs s) = Inr (e, evs)"
      and "vd_pack_hash u = bd_pack_hash b" by auto
    then show "I (s\<lparr>ls_evs := evs\<rparr>)" using verdict_write [OF s] assms by (metis verdict_pack)
  qed
  assume "review (sp_ctx S) (sp_keys S) i ?b p (sp_reviewer S) [] w (sp_probes S n b p) (sp_opinion S n) (sp_stamp S n) (ls_evs s) =
    Inr (v, evs)"
  from review_pack [OF this] show "vd_pack_hash v = bd_pack_hash b" by simp
qed

lemma permit_edit_Inr: "permit_edit C x g editor why st evs = Inr (y, evs') \<Longrightarrow> \<exists>e. record_edit C x g editor why st evs = Inr (e, evs')"
  by (auto simp: permit_edit_def)

lemma keeps_permit: "okid g \<Longrightarrow> keeps (on_chain S (\<lambda>k. permit_edit (sp_ctx S) x g editor why))"
  by (rule keeps_on_chain) (auto simp: writes_def dest!: permit_edit_Inr intro: edit_write)

lemma keeps_outcome [law]: "keeps (on_chain S (\<lambda>n st. record_delivery_outcome (sp_ctx S) x (po st) st))"
  by (rule keeps_on_chain) (auto simp: writes_def intro: outcome_write)

lemma safe_state: "(\<And>s. safe (m s) P) \<Longrightarrow> safe (\<lambda>s. m s s) P"
  unfolding safe_def
proof (intro allI impI)
  fix s
  assume m: "\<And>s. \<forall>t. I t \<longrightarrow> (case m s t of (Inr x, s') \<Rightarrow> I s' \<and> P x
     | (Inl (Stopped st), s') \<Rightarrow> I s' \<and> st \<in> set STATUSES | (Inl (Raised e), s') \<Rightarrow> I s')" and "I s"
  then show "case m s s of (Inr x, s') \<Rightarrow> I s' \<and> P x
     | (Inl (Stopped st), s') \<Rightarrow> I s' \<and> st \<in> set STATUSES | (Inl (Raised e), s') \<Rightarrow> I s'" by simp
qed

lemma keeps_close: "keeps (close_item S i st)"
  unfolding close_item_def by (rule safe_state) (intro law)

lemma safe_close_item: "st \<in> set STATUSES \<Longrightarrow> safe (close_item S i st) (\<lambda>io. io_status io = st)"
  unfolding close_item_def
proof (rule safe_state, rule safe_andThen [OF safe_lift [where P = "\<lambda>io. io_status io = st"]])
  show "io_status io = st" if "ItemOutcome (outcome_of i st s) = Inr io" for s io
    using that by (auto simp: ItemOutcome_def outcome_of_def)
  show "safe (andThen (record_ev S (record_item_outcome (sp_ctx S) (bi_id i) (item_outcome_payload io (ls_entry s)))) (\<lambda>_. ret io))
      (\<lambda>io. io_status io = st)" if "io_status io = st" for s io
    by (rule keeps_andThen [OF keeps_record_item_outcome]) (rule safe_ret, rule that)
qed

lemma keeps_blocked [law]: "keeps (blocked_item S i deps)"
  unfolding blocked_item_def by (intro law)

lemma keeps_freeze [law]: "keeps (freeze_on_chain S b)"
  unfolding freeze_on_chain_def by (intro law)

lemma writes_checkpoint: "writes (\<lambda>n. record_checkpoint (sp_ctx S) level k minted who mode why)"
proof (cases "map_of VERIFICATION_MODES level")
  case None
  then show ?thesis by (simp add: writes_def record_checkpoint_def)
next
  case (Some m)
  show ?thesis using writes_plain [of EV_CHECKPOINT] unfolding record_checkpoint_def Some option.case
    by (simp add: plain_kinds)
qed

lemma keeps_checkpoint: "keeps (checkpoint S level k minted who why)"
  unfolding checkpoint_def by (rule keeps_on_chain [OF writes_checkpoint])

end

subsection \<open>Closing a pull request an earlier run opened\<close>

text \<open>\<open>prs\<close> are the pull requests the loop may have to close.\<close>

locale closing_law = world_law S I okid for S :: fspec and I :: "lstate \<Rightarrow> bool" and okid :: "string \<Rightarrow> bool" +
  fixes prs :: "delivery_result set"
  assumes closed: "d \<in> prs \<Longrightarrow> close_pull_request W d w key = (res, acts) \<Longrightarrow> I s \<Longrightarrow> I (s\<lparr>ls_remote := ls_remote s @ acts\<rparr>)"
begin

lemma keeps_remote: "(\<And>n res acts s. f n = (res, acts) \<Longrightarrow> I s \<Longrightarrow> I (s\<lparr>ls_remote := ls_remote s @ acts\<rparr>)) \<Longrightarrow> keeps (on_remote f)"
proof -
  assume f: "\<And>n res acts s. f n = (res, acts) \<Longrightarrow> I s \<Longrightarrow> I (s\<lparr>ls_remote := ls_remote s @ acts\<rparr>)"
  show ?thesis
    unfolding safe_def
  proof (intro allI impI)
    fix s assume s: "I s"
    obtain res acts where r: "f (ls_tick s) = (res, acts)" by (cases "f (ls_tick s)")
    have "I ((ticked s)\<lparr>ls_remote := ls_remote (ticked s) @ acts\<rparr>)" by (rule f [OF r tick [OF s]])
    then show "case on_remote f s of (Inr x, s') \<Rightarrow> I s' \<and> True
       | (Inl (Stopped st), s') \<Rightarrow> I s' \<and> st \<in> set STATUSES | (Inl (Raised e), s') \<Rightarrow> I s'"
      using r by (simp add: on_remote_def ticked_def)
  qed
qed

lemma keeps_withdraw [law]: "set_option open_pr \<subseteq> prs \<Longrightarrow> keeps (withdraw S i open_pr v)"
  unfolding withdraw_def by (intro law keeps_remote) (auto intro: closed)

lemma keeps_require_scoreable [law]: "set_option open_pr \<subseteq> prs \<Longrightarrow> keeps (require_scoreable S i v a open_pr)"
  unfolding require_scoreable_def by (intro law)

lemma keeps_refuse_rework [law]: "set_option open_pr \<subseteq> prs \<Longrightarrow> safe (refuse_rework S i v a open_pr) P"
  unfolding refuse_rework_def by (intro law)

end

subsection \<open>Calling the builder\<close>

locale builder_law = world_law S I okid for S :: fspec and I :: "lstate \<Rightarrow> bool" and okid :: "string \<Rightarrow> bool" +
  assumes requested: "I s \<Longrightarrow> I (s\<lparr>ls_requests := ls_requests s @ [rq]\<rparr>)"
begin

lemma keeps_local: "(\<And>s. I s \<Longrightarrow> I (u s)) \<Longrightarrow> keeps (local_var u)"
  by (simp add: safe_def local_var_def)

lemma safe_build_rung: "safe (build_rung S rq) (\<lambda>b. okid (bd_pack_hash b))"
  unfolding build_rung_def by (rule keeps_andThen [OF keeps_local [OF requested]], assumption, rule safe_ask, erule built_id)

lemma safe_climb: "safe (climb S i c k rs) (\<lambda>bs. \<forall>b\<in>set bs. okid (bd_pack_hash b))"
proof (induction rs arbitrary: k)
  case (Cons r rs)
  show ?case unfolding climb.simps
  proof (rule safe_andThen [OF safe_build_rung], rule keeps_andThen [OF keeps_record_built], rule safe_if)
    fix b :: build assume b: "okid (bd_pack_hash b)"
    then show "safe (ret [b]) (\<lambda>bs. \<forall>b\<in>set bs. okid (bd_pack_hash b))" by (intro safe_ret) simp
    show "safe (andThen (climb S i c (Suc k) rs) (\<lambda>bs. ret (b # bs))) (\<lambda>bs. \<forall>b\<in>set bs. okid (bd_pack_hash b))"
      by (rule safe_andThen [OF Cons.IH], rule safe_ret) (simp add: b)
  qed
qed (simp add: safe_ret)

lemma safe_ladder: "safe (build_ladder S i c) (\<lambda>bs. \<forall>b\<in>set bs. okid (bd_pack_hash b))"
  unfolding build_ladder_def by (intro law safe_climb)

end

subsection \<open>A round: prove, build, review\<close>

locale round_law = closing_law S I okid prs + builder_law S I okid
  for S :: fspec and I :: "lstate \<Rightarrow> bool" and okid :: "string \<Rightarrow> bool" and prs :: "delivery_result set" +
  assumes proof_var: "I s \<Longrightarrow> I (s\<lparr>ls_proof := q\<rparr>)"
    and builds_var: "I s \<Longrightarrow> I (s\<lparr>ls_builds := bs\<rparr>)"
    and verdicts_var: "I s \<Longrightarrow> I (s\<lparr>ls_verdicts := vs\<rparr>)"
    and reworks_var: "I s \<Longrightarrow> I (s\<lparr>ls_reworks := n\<rparr>)"
begin

lemma keeps_proved [law]: "keeps (proved S i r a)"
  unfolding proved_def by (intro law keeps_local) (rule proof_var)

text \<open>A ladder that returns has at least one result, so \<open>results[-1]\<close> is one.\<close>

lemma climb_nonempty: "climb S i c k rs s = (Inr bs, s') \<Longrightarrow> rs \<noteq> [] \<Longrightarrow> bs \<noteq> []"
  by (cases rs) (auto simp: andThen_Inr split: if_splits)

lemma ladder_nonempty: "build_ladder S i c s = (Inr bs, s') \<Longrightarrow> bs \<noteq> []"
  by (auto simp: build_ladder_def andThen_Inr split: if_splits dest: climb_nonempty)

lemma safe_ladder_last: "safe (build_ladder S i c) (\<lambda>bs. bs \<noteq> [] \<and> okid (bd_pack_hash (last bs)))"
proof -
  have "\<And>bs s s'. build_ladder S i c s = (Inr bs, s') \<Longrightarrow> bs \<noteq> []" by (rule ladder_nonempty)
  then show ?thesis using safe_ladder [of i c] unfolding safe_def by (auto split: prod.splits sum.splits)
qed

lemma safe_build_and_review:
  assumes "set_option open_pr \<subseteq> prs"
  shows "safe (build_and_review S i r c open_pr) (\<lambda>(b, v). okid (bd_pack_hash b) \<and> vd_pack_hash v = bd_pack_hash b)"
  unfolding build_and_review_def Let_def
proof (rule safe_andThen [OF safe_ladder_last], rule keeps_andThen [OF keeps_local])
  fix bs :: "build list" assume b: "bs \<noteq> [] \<and> okid (bd_pack_hash (last bs))"
  show "I (s\<lparr>ls_builds := ls_builds s @ bs\<rparr>)" if "I s" for s by (rule builds_var [OF that])
  show "safe (if bd_disqualified (last bs) then halt (Stopped STATUS_DISQUALIFIED)
     else if \<not> bd_clean (last bs) then halt (Stopped STATUS_NOT_CLEAN)
     else andThen (review_item S i (last bs) (lc_proof c)) (\<lambda>v.
       andThen (local_var (\<lambda>s. s\<lparr>ls_verdicts := ls_verdicts s @ [v]\<rparr>)) (\<lambda>_.
       andThen (require_scoreable S i v (lc_oracle c) open_pr) (\<lambda>_. ret (last bs, v)))))
     (\<lambda>(b, v). okid (bd_pack_hash b) \<and> vd_pack_hash v = bd_pack_hash b)"
    using b assms by (intro law safe_andThen [OF safe_review]) (auto intro!: law keeps_local verdicts_var safe_ret)
qed

lemma safe_rework_round:
  assumes "set_option open_pr \<subseteq> prs" "okid (bd_pack_hash (fst (snd st)))"
  shows "safe (rework_round S i r open_pr n st) (\<lambda>(c, b, v). okid (bd_pack_hash b) \<and> vd_pack_hash v = bd_pack_hash b)"
proof -
  obtain c final v where st: "st = (c, final, v)" by (cases st)
  have fin: "okid (bd_pack_hash final)" using assms(2) by (simp add: st)
  show ?thesis unfolding rework_round_def st Let_def split
  proof (rule safe_if, goal_cases)
    case 1
    show ?case by (rule keeps_refuse_rework [OF assms(1)])
  next
    case 2
    show ?case
    proof (rule keeps_andThen [OF keeps_local [OF reworks_var]], assumption, rule keeps_andThen [OF keeps_permit [OF fin]],
        rule keeps_andThen, goal_cases)
      case 1
      show ?case by (intro law)
    next
      case (2 u w edited)
      show ?case
        by (rule safe_if, rule keeps_refuse_rework [OF assms(1)], rule keeps_andThen [OF keeps_proved],
            rule safe_andThen [OF safe_build_and_review [OF assms(1)]]) (auto intro: safe_ret)
    qed
  qed
qed

lemma safe_rework_loop:
  assumes "set_option open_pr \<subseteq> prs"
  shows "okid (bd_pack_hash (fst (snd st))) \<Longrightarrow> vd_pack_hash (snd (snd st)) = bd_pack_hash (fst (snd st)) \<Longrightarrow>
    safe (rework_loop S i r open_pr left n st) (\<lambda>(c, b, v). okid (bd_pack_hash b) \<and> vd_pack_hash v = bd_pack_hash b)"
proof (induction left arbitrary: n st)
  case 0
  then show ?case by (cases st) (auto intro: safe_ret)
next
  case (Suc left)
  show ?case unfolding rework_loop.simps
  proof (rule safe_if, goal_cases)
    case 1
    then show ?case using Suc.prems by (cases st) (auto intro: safe_ret)
  next
    case 2
    show ?case
      by (rule safe_andThen [OF safe_rework_round [OF assms Suc.prems(1)]]) (rule Suc.IH, auto)
  qed
qed

text \<open>Everything after the gate; a calibration build has no pull request to close.\<close>

lemma keeps_after_entry:
  assumes "en_calibration e = None \<Longrightarrow> prs = UNIV"
  shows "keeps (after_entry S i authored r ro e)"
  unfolding after_entry_def Let_def
proof (rule safe_andThen [where P = "\<lambda>q. set_option q \<subseteq> prs"], goal_cases)
  case 1
  show ?case using assms by (cases "en_calibration e") (auto intro: safe_ret safe_weaken [OF keeps_open_delivery])
next
  case (2 open_pr)
  show ?case
  proof (rule keeps_andThen [OF keeps_oracle], rule safe_pair, rule keeps_andThen [OF keeps_item_labels], rule safe_pair,
      rule keeps_andThen [OF keeps_proved], rule safe_andThen [OF safe_build_and_review [OF 2]], rule safe_pair, goal_cases)
    case (1 y oracle_test context_arm z labels held p w final v)
    then show ?case by (intro safe_andThen [OF safe_rework_loop [OF 2]] safe_pair) (auto intro: keeps_ret)
  qed
qed

end

subsection \<open>Pushing a change\<close>

locale pushing_law = closing_law S I okid prs
  for S :: fspec and I :: "lstate \<Rightarrow> bool" and okid :: "string \<Rightarrow> bool" and prs :: "delivery_result set" +
  assumes pushed: "deliver W i b (sp_target S) (sp_repo_key S) previous w = (res, acts) \<Longrightarrow> I s \<Longrightarrow> I (s\<lparr>ls_remote := ls_remote s @ acts\<rparr>)"
begin

lemma keeps_push [law]: "keeps (push_change S i b v previous n after l by)"
  unfolding push_change_def by (intro law keeps_remote) (auto intro: pushed)

lemma keeps_sign_off [law]: "keeps (delivered_cell_sign_off S i b l ro ov)"
  unfolding delivered_cell_sign_off_def Let_def by (intro law)

lemma keeps_deliver_item [law]: "keeps (deliver_item S i b ro v previous n after context_arm ov)"
  unfolding deliver_item_def delivered_route_def Let_def by (intro law) (simp add: status_members)

end

subsection \<open>A whole item\<close>

locale item_law = round_law S I okid UNIV + pushing_law S I okid UNIV for S :: fspec and I :: "lstate \<Rightarrow> bool" and okid :: "string \<Rightarrow> bool" +
  assumes entry_var: "I s \<Longrightarrow> I (s\<lparr>ls_readiness := q, ls_entry := e\<rparr>)"
    and delivery_var: "I s \<Longrightarrow> I (s\<lparr>ls_delivery := d\<rparr>)"
begin

lemma safe_settle: "safe (settle_item S i ro e open_pr context_arm st) (\<lambda>st. st \<in> set STATUSES)"
proof -
  obtain final v where st: "st = (final, v)" by (cases st)
  have d: "safe (\<lambda>s. andThen (deliver_item S i final ro v open_pr (ls_reworks s)
             (if length (ls_verdicts s) > 1 then vd_verdict (ls_verdicts s ! (length (ls_verdicts s) - 2)) else []) context_arm (en_override_by e)) (\<lambda>d.
         andThen (local_var (\<lambda>s. s\<lparr>ls_delivery := d\<rparr>)) (\<lambda>_. ret STATUS_ACCEPTED)) s) (\<lambda>st. st \<in> set STATUSES)"
    by (rule safe_state, rule keeps_andThen [OF keeps_deliver_item], rule keeps_andThen [OF keeps_local [OF delivery_var]], assumption,
        rule safe_ret, rule status_members)
  show ?thesis
  proof (cases "vd_accepted v")
    case True
    then show ?thesis
      by (cases "en_calibration e")
        (simp_all only: settle_item_def st split bool.case option.case d,
          rule keeps_andThen [OF keeps_withheld], rule safe_ret, rule status_members)
  next
    case False
    then show ?thesis
      by (simp only: settle_item_def st split bool.case) (intro keeps_andThen keeps_withdraw safe_ret, auto simp: status_members)
  qed
qed

lemma keeps_work [law]: "keeps (work_item S i authored)"
  unfolding work_item_def
  by (rule keeps_andThen [OF keeps_assess], rule safe_pair, rule safe_pair, rule keeps_andThen [OF keeps_local [OF entry_var]],
      assumption, rule keeps_after_entry) simp

lemma safe_body: "safe (item_body S i authored) (\<lambda>st. st \<in> set STATUSES)"
  unfolding item_body_def by (rule keeps_andThen [OF keeps_work]) (auto intro!: safe_settle)

lemma safe_run_item:
  assumes fresh: "\<And>s. I s \<Longrightarrow> I (fresh_locals s)"
  shows "safe (run_item S i authored) (\<lambda>io. io_status io \<in> set STATUSES)"
proof (rule safe_from_result)
  fix s res s'
  assume "I s" and run: "run_item S i authored s = (res, s')"
  then have f: "I (fresh_locals s)" by (intro fresh)
  obtain body s1 where b: "item_body S i authored (fresh_locals s) = (body, s1)" by (cases "item_body S i authored (fresh_locals s)")
  note r = safe_result [OF safe_body f b]
  show "I s' \<and> (\<forall>x. res = Inr x \<longrightarrow> io_status x \<in> set STATUSES) \<and> (\<forall>st. res = Inl (Stopped st) \<longrightarrow> st \<in> set STATUSES)"
  proof (cases "body = Inl (Raised SandboxUnavailable)")
    case True
    then show ?thesis using run b r by (auto simp: run_item_def)
  next
    case False
    then obtain st where st: "st \<in> set STATUSES" and c: "close_item S i st s1 = (res, s')"
      using run b r status_members(18) by (cases body) (auto simp: run_item_def split: stopx.splits if_splits)
    from safe_result [OF safe_close_item [OF st] _ c] r st show ?thesis by auto
  qed
qed

text \<open>A whole backlog: the items in order, each run or recorded as blocked.\<close>

lemma keeps_work_through: "(\<And>s. I s \<Longrightarrow> I (fresh_locals s)) \<Longrightarrow> keeps (work_through S latest tests is outs)"
proof (induction "is" arbitrary: outs)
  case (Cons i "is")
  show ?case unfolding work_through.simps
    by (intro law Cons.IH safe_keeps [OF safe_run_item]) (auto intro: Cons.prems)
qed (simp add: keeps_ret)

lemma keeps_backlog: "(\<And>s. I s \<Longrightarrow> I (fresh_locals s)) \<Longrightarrow> run_backlog S D b tests h = Some m \<Longrightarrow> keeps m"
  unfolding run_backlog_def by (auto split: if_splits option.splits intro!: law keeps_work_through)

end

end
