(* ===== verification/Loop_Correct.thy ===== *)
theory Loop_Correct
  imports Loop_Laws Delivery_Correct Entry_Gate_Correct Backlog_Correct
begin

section \<open>Correctness of the governed loop\<close>

text \<open>
  What one item may spend and touch, and how it ends: the locales of \<open>Loop_Laws\<close> interpreted on the model's own
  steps, and the theorems about \<open>run_item\<close> and \<open>run_backlog\<close> that rest on them.
\<close>

subsection \<open>What each group of steps leaves alone\<close>

text \<open>Everything but the chain, the readiness and the remote; and that with the remote.\<close>

definition work_vars :: "lstate \<Rightarrow> build_request list \<times> entry \<times> red_proof option \<times> build list \<times> verdict list \<times> delivery_result option \<times> nat" where
  "work_vars s = (ls_requests s, ls_entry s, ls_proof s, ls_builds s, ls_verdicts s, ls_delivery s, ls_reworks s)"

definition loop_vars :: "lstate \<Rightarrow> entry \<times> red_proof option \<times> build list \<times> verdict list \<times> delivery_result option \<times> nat" where
  "loop_vars s = (ls_entry s, ls_proof s, ls_builds s, ls_verdicts s, ls_delivery s, ls_reworks s)"

lemmas frame_defs = work_vars_def loop_vars_def ticked_def

interpretation kept: pushing_law S "\<lambda>s. work_vars s = k" "\<lambda>_. True" UNIV for S k
  by unfold_locales (simp_all add: frame_defs)

interpretation quiet: closing_law S "\<lambda>s. work_vars s = k \<and> ls_remote s = r" "\<lambda>_. True" "{}" for S k r
  by unfold_locales (simp_all add: frame_defs)

interpretation ladder: builder_law S "\<lambda>s. loop_vars s = k \<and> ls_remote s = r" "\<lambda>_. True" for S k r
  by unfold_locales (simp_all add: frame_defs)

interpretation calib: round_law S "\<lambda>s. ls_entry s = e \<and> ls_delivery s = d \<and> ls_remote s = r" "\<lambda>_. True" "{}" for S e d r
  by unfold_locales (simp_all add: frame_defs)

text \<open>Before delivery the loop only closes pull requests.\<close>

definition closes :: "remote_action \<Rightarrow> bool" where
  "closes act = (case act of ClosePR r n \<Rightarrow> True | _ \<Rightarrow> False)"

definition since :: "(remote_action \<Rightarrow> bool) \<Rightarrow> remote_action list \<Rightarrow> lstate \<Rightarrow> bool" where
  "since Q r s \<longleftrightarrow> (\<exists>acts. ls_remote s = r @ acts \<and> list_all Q acts)"

lemma since_more: "since Q r s \<Longrightarrow> list_all Q acts \<Longrightarrow> since Q r (s\<lparr>ls_remote := ls_remote s @ acts\<rparr>)"
  unfolding since_def by (elim exE conjE) (rule exI, rule conjI [rotated], rule list_all_append [THEN iffD2], auto)

lemma since_start: "since Q (ls_remote s) s"
  unfolding since_def by (rule exI [of _ "[]"]) simp

lemma since_frame: "since Q r s \<Longrightarrow> ls_remote s' = ls_remote s \<Longrightarrow> since Q r s'"
  by (simp add: since_def)

lemma since_same: "ls_remote s' = ls_remote s \<Longrightarrow> since Q (ls_remote s) s'"
  using since_start [of Q s'] by simp

lemma close_closes: "close_pull_request W d w key = (res, acts) \<Longrightarrow> list_all closes acts"
  unfolding close_pull_request_def by (auto simp: closes_def split: sum.splits)

interpretation closing: round_law S "\<lambda>s. ls_entry s = e \<and> ls_delivery s = d \<and> since closes r s" "\<lambda>_. True" UNIV for S e d r
  by unfold_locales (auto simp: frame_defs intro: since_more close_closes elim: since_frame)


text \<open>
  And whatever it does, it pushes and opens only branches that are neither protected nor the default one.
\<close>

definition allowed_action :: "string \<Rightarrow> remote_action \<Rightarrow> bool" where
  "allowed_action target act = (case act of
     Push r branch lease \<Rightarrow> unprotected branch target
   | OpenPR r branch base \<Rightarrow> unprotected branch target \<and> base = norm_branch target
   | CommentPR r n \<Rightarrow> n > 0
   | ClosePR r n \<Rightarrow> n > 0)"

lemma deliver_allowed:
  assumes "deliver W i b target key previous w = (res, acts)"
  shows "list_all (allowed_action target) acts"
proof (cases "deliver_checks W i b target key previous w")
  case (Inl e)
  then show ?thesis using assms by (simp add: deliver_def)
next
  case (Inr q)
  obtain branch base c sha where q: "q = (branch, base, c, sha)" by (cases q)
  show ?thesis using assms deliver_checks_Inr [OF Inr [unfolded q]] Inr q
    by (auto simp: deliver_def re_push_def first_push_def allowed_action_def Let_def split: option.splits sum.splits prod.splits if_splits)
qed

lemma close_allowed: "close_pull_request W d w key = (res, acts) \<Longrightarrow> list_all (allowed_action target) acts"
  unfolding close_pull_request_def by (auto simp: allowed_action_def dest!: bind_Inr split: sum.splits if_splits)

interpretation fenced: item_law S "since (allowed_action (sp_target S)) r" "\<lambda>_. True" for S r
  by unfold_locales (auto simp: ticked_def intro: since_more close_allowed deliver_allowed elim: since_frame)

lemma kept_result: "(\<And>k. kept.safe k m P) \<Longrightarrow> m s = (Inr x, s') \<Longrightarrow> P x"
  using kept.safe_result [of "work_vars s" m P s "Inr x" s'] by simp

lemma kept_run: "(\<And>k. kept.keeps k m) \<Longrightarrow> m s = (res, s') \<Longrightarrow> work_vars s' = work_vars s"
  using kept.safe_result [of "work_vars s" m "\<lambda>_. True" s res s'] by simp

lemma quiet_run: "(\<And>k r. quiet.keeps k r m) \<Longrightarrow> m s = (res, s') \<Longrightarrow> work_vars s' = work_vars s \<and> ls_remote s' = ls_remote s"
  using quiet.safe_result [of "work_vars s" "ls_remote s" m "\<lambda>_. True" s res s'] by simp

lemma ladder_run: "(\<And>k r. ladder.safe k r m P) \<Longrightarrow> m s = (res, s') \<Longrightarrow> loop_vars s' = loop_vars s \<and> ls_remote s' = ls_remote s"
  using ladder.safe_result [of "loop_vars s" "ls_remote s" m P s res s'] by simp

lemma closing_run: "(\<And>e d r. closing.keeps e d r m) \<Longrightarrow> m s = (res, s') \<Longrightarrow>
    ls_entry s' = ls_entry s \<and> ls_delivery s' = ls_delivery s \<and> since closes (ls_remote s) s'"
  using closing.safe_result [of "ls_entry s" "ls_delivery s" "ls_remote s" m "\<lambda>_. True" s res s'] since_start by simp

lemma calib_run: "(\<And>e d r. calib.keeps e d r m) \<Longrightarrow> m s = (res, s') \<Longrightarrow>
    ls_entry s' = ls_entry s \<and> ls_delivery s' = ls_delivery s \<and> ls_remote s' = ls_remote s"
  using calib.safe_result [of "ls_entry s" "ls_delivery s" "ls_remote s" m "\<lambda>_. True" s res s'] by simp

subsection \<open>The build under review\<close>

text \<open>
  After a build and its review: the build is the last one, the verdict the last one and on that build, and the last
  request was made under the call's arm.
\<close>

definition under_review :: "lstate \<Rightarrow> string \<Rightarrow> build \<Rightarrow> verdict \<Rightarrow> bool" where
  "under_review s context_arm b v \<longleftrightarrow> ls_requests s \<noteq> [] \<and> rq_arm (last (ls_requests s)) = context_arm \<and> ls_builds s \<noteq> [] \<and>
     last (ls_builds s) = b \<and> ls_verdicts s \<noteq> [] \<and> last (ls_verdicts s) = v \<and> bd_clean b \<and> \<not> bd_disqualified b \<and>
     vd_pack_hash v = bd_pack_hash b"

lemma under_review_frame: "under_review s a b v \<Longrightarrow> work_vars s' = work_vars s \<Longrightarrow> under_review s' a b v"
  by (simp add: under_review_def work_vars_def)

lemma climb_arm: "climb S i c k rs s = (Inr bs, s') \<Longrightarrow> rs \<noteq> [] \<Longrightarrow> ls_requests s' \<noteq> [] \<and> rq_arm (last (ls_requests s')) = lc_arm c"
proof (induction rs arbitrary: k s bs)
  case (Cons r rs)
  from Cons.prems(1) obtain b s1 s2 where b: "build_rung S (request_for S i c k r) s = (Inr b, s1)"
    and rec: "record_built S i (lc_held_out c) (lc_grant c) b s1 = (Inr (), s2)"
    and rest: "(if bd_clean b \<or> bd_disqualified b then ret [b] else andThen (climb S i c (Suc k) rs) (\<lambda>bs. ret (b # bs))) s2 = (Inr bs, s')"
    by (auto simp: andThen_Inr)
  have "ls_requests s1 = ls_requests s @ [request_for S i c k r]" using b by (auto simp: build_rung_def andThen_Inr ticked_def)
  moreover have "ls_requests s2 = ls_requests s1" using kept_run [OF kept.keeps_record_built rec] by (simp add: work_vars_def)
  ultimately have s2: "ls_requests s2 \<noteq> [] \<and> rq_arm (last (ls_requests s2)) = lc_arm c" by (simp add: request_for_def)
  show ?case
  proof (cases "(bd_clean b \<or> bd_disqualified b) \<or> rs = []")
    case True
    then have "s' = s2" using rest by (auto simp: andThen_Inr split: if_splits)
    then show ?thesis using s2 by simp
  next
    case False
    then obtain bs' where "climb S i c (Suc k) rs s2 = (Inr bs', s')" using rest by (auto simp: andThen_Inr)
    then show ?thesis using Cons.IH False by blast
  qed
qed simp

lemma ladder_arm: "build_ladder S i c s = (Inr bs, s') \<Longrightarrow> ls_requests s' \<noteq> [] \<and> rq_arm (last (ls_requests s')) = lc_arm c"
  by (auto simp: build_ladder_def andThen_Inr split: if_splits dest: climb_arm)

lemma review_pack_hash: "review_item S i b p s = (Inr v, s') \<Longrightarrow> vd_pack_hash v = bd_pack_hash b"
  by (rule kept_result [OF kept.safe_review]) simp

lemma build_and_review_Inr:
  assumes "build_and_review S i r c open_pr s = (Inr (b, v), s')"
  shows "under_review s' (lc_arm c) b v"
proof -
  from assms obtain bs s1 s3 s5 where l: "build_ladder S i c s = (Inr bs, s1)"
    and q: "\<not> bd_disqualified (last bs)" "bd_clean (last bs)" "b = last bs"
    and v: "review_item S i b (lc_proof c) (s1\<lparr>ls_builds := ls_builds s1 @ bs\<rparr>) = (Inr v, s3)"
    and sc: "require_scoreable S i v (lc_oracle c) open_pr (s3\<lparr>ls_verdicts := ls_verdicts s3 @ [v]\<rparr>) = (Inr (), s')"
    unfolding build_and_review_def Let_def by (auto simp: andThen_Inr split: if_splits)
  have k1: "work_vars s3 = work_vars (s1\<lparr>ls_builds := ls_builds s1 @ bs\<rparr>)"
    by (rule kept_run [OF kept.safe_keeps [OF kept.safe_review] v]) simp
  have k2: "work_vars s' = work_vars (s3\<lparr>ls_verdicts := ls_verdicts s3 @ [v]\<rparr>)"
    by (rule kept_run [OF kept.keeps_require_scoreable sc]) simp
  show ?thesis using k1 k2 q ladder_arm [OF l] calib.ladder_nonempty [OF l] review_pack_hash [OF v]
    by (simp add: under_review_def work_vars_def)
qed

lemma rework_round_Inr:
  assumes "rework_round S i r open_pr n (c, b, v) s = (Inr (c', b', v'), s')"
  shows "lc_arm c' = lc_arm c \<and> under_review s' (lc_arm c') b' v'"
  using assms unfolding rework_round_def Let_def split
  by (auto simp: andThen_Inr refuse_rework_def split: if_splits dest!: build_and_review_Inr)

lemma rework_loop_Inr:
  "rework_loop S i r open_pr left n (c, b, v) s = (Inr (c', b', v'), s') \<Longrightarrow> under_review s (lc_arm c) b v \<Longrightarrow>
    lc_arm c' = lc_arm c \<and> under_review s' (lc_arm c) b' v'"
proof (induction left arbitrary: n c b v s)
  case (Suc left)
  show ?case
  proof (cases "rework_required v")
    case True
    then obtain c1 b1 v1 s1 where "rework_round S i r open_pr (Suc n) (c, b, v) s = (Inr (c1, b1, v1), s1)"
      "rework_loop S i r open_pr left (Suc n) (c1, b1, v1) s1 = (Inr (c', b', v'), s')"
      using Suc.prems(1) by (auto simp: andThen_Inr)
    then show ?thesis using Suc.IH rework_round_Inr by metis
  qed (use Suc.prems in auto)
qed simp


subsection \<open>The gate before any spend\<close>

text \<open>What holds when an item is let past the gate with a readiness, a route read and an entry.\<close>

definition let_through :: "fspec \<Rightarrow> backlog_item \<Rightarrow> authored_test option \<Rightarrow> readiness \<Rightarrow> map_route option \<Rightarrow> entry \<Rightarrow> bool" where
  "let_through S i authored r ro e \<longleftrightarrow> bi_kind i \<noteq> KIND_OPERATOR \<and> re_ready r \<and> re_route_hint r \<noteq> ROUTE_HUMAN \<and> enters e \<and>
     \<not> no_licence S i e \<and> (\<exists>n gs. sp_signoffs S n = Inr gs \<and> r = assess i (signoffs_for_item (bi_id i) gs)) \<and>
     (\<exists>by cal. decide_item S i r authored by cal = Inr e) \<and> (\<exists>n. sp_route_for S n i = Inr ro)"

lemma stop_at_entry_Inr [simp]: "\<not> (stop_at_entry S i r e s = (Inr x, s'))"
  by (auto simp: stop_at_entry_def andThen_Inr stop_ready_def split: option.splits)

lemma stop_ready_Inr [simp]: "\<not> (stop_ready r st s = (Inr x, s'))"
  by (auto simp: stop_ready_def andThen_Inr)

lemma enter_item_Inr: "enter_item S i r e s = (Inr (r', ro, e'), s') \<Longrightarrow>
    r' = r \<and> e' = e \<and> \<not> no_licence S i e \<and> (\<exists>n. sp_route_for S n i = Inr ro)"
  by (auto simp: enter_item_def andThen_Inr map_route_for_def split: if_splits)

lemma past_gate_Inr: "past_gate S i r authored by e s = (Inr (r', ro, e'), s') \<Longrightarrow>
    r' = r \<and> e' = e \<and> re_ready r \<and> \<not> no_licence S i e \<and> (\<exists>n. sp_route_for S n i = Inr ro)"
  unfolding past_gate_def by (auto simp: andThen_Inr split: if_splits dest: enter_item_Inr)

lemma assess_item_Inr:
  assumes "assess_item S i authored s = (Inr (r, ro, e), s')"
  shows "let_through S i authored r ro e"
proof -
  from assms obtain r0 ov cal e0 s1 gs where r0: "sp_signoffs S (ls_tick s) = Inr gs" "r0 = assess i (signoffs_for_item (bi_id i) gs)" and k: "bi_kind i \<noteq> KIND_OPERATOR" "\<not> (re_route_hint r0 = ROUTE_HUMAN \<and> re_ready r0)"
    and d: "decide_item S i r0 authored ov cal = Inr e0" "enters e0" and g: "past_gate S i r0 authored ov e0 s1 = (Inr (r, ro, e), s')"
    unfolding assess_item_def Let_def by (simp add: andThen_Inr split: if_splits) blast+
  from past_gate_Inr [OF g] k d r0 show ?thesis unfolding let_through_def by blast
qed

lemma oracle_spends_nothing: "oracle_item S i r authored e s = (res, s') \<Longrightarrow> work_vars s' = work_vars s \<and> ls_remote s' = ls_remote s"
  by (rule quiet_run [OF quiet.keeps_oracle])

subsection \<open>From the entry to the last verdict\<close>

lemma first_call_arm: "lc_arm (first_call a p labels context_arm held e) = context_arm"
  by (simp add: first_call_def)

lemma after_entry_Inr:
  assumes "after_entry S i authored r ro e s = (Inr (ro', e', open_pr, context_arm, b, v), s')"
  shows "ro' = ro \<and> e' = e \<and> (en_calibration e \<noteq> None \<longrightarrow> open_pr = None) \<and> under_review s' context_arm b v"
proof -
  from assms obtain c b1 v1 s1 s2 s3 c2 where a: "lc_arm c = context_arm" "ro' = ro" "e' = e"
    and op: "(if en_calibration e \<noteq> None then ret None else open_delivery S i) s = (Inr open_pr, s3)"
    and br: "build_and_review S i r c open_pr s1 = (Inr (b1, v1), s2)"
    and rl: "rework_loop S i r open_pr (nat (sp_max_rework S)) 0 (c, b1, v1) s2 = (Inr (c2, b, v), s')"
    unfolding after_entry_def Let_def by (auto simp: andThen_Inr dest: that [OF first_call_arm])
  show ?thesis using rework_loop_Inr [OF rl build_and_review_Inr [OF br]] a op by (auto split: if_splits)
qed

text \<open>A calibration build never touches the remote, and any other only closes pull requests up to its verdict.\<close>

lemma after_entry_remote:
  assumes "after_entry S i authored r ro e s = (res, s')"
  shows "ls_entry s' = ls_entry s \<and> ls_delivery s' = ls_delivery s \<and> since closes (ls_remote s) s' \<and>
    (en_calibration e \<noteq> None \<longrightarrow> ls_remote s' = ls_remote s)"
proof -
  have "ls_remote s' = ls_remote s" if "en_calibration e \<noteq> None"
    using calib_run [OF calib.keeps_after_entry assms] that by blast
  then show ?thesis using closing_run [OF closing.keeps_after_entry assms] by simp
qed


subsection \<open>What delivery rests on\<close>

definition delivered_size :: "backlog_item \<Rightarrow> build \<Rightarrow> string" where
  "delivered_size i b = (if bd_size b = [] then bi_size_estimate i else bd_size b)"

text \<open>The route the map answers for the item at a size, at some step of the run.\<close>

definition route_answered :: "fspec \<Rightarrow> backlog_item \<Rightarrow> string \<Rightarrow> map_route option \<Rightarrow> bool" where
  "route_answered S i tier ro \<longleftrightarrow> (\<exists>n. sp_route_for S n (i\<lparr>bi_size_estimate := tier\<rparr>) = Inr ro)"

text \<open>The sign-off clause at the delivered cell: off, signed, or lifted by an override the route does not refuse.\<close>

definition signed_or_overridden :: "fspec \<Rightarrow> licence \<Rightarrow> map_route option \<Rightarrow> bool" where
  "signed_or_overridden S l ro \<longleftrightarrow> \<not> sp_require_signed_cell S \<or> standard_signed (lc_standard l) \<or>
     (\<exists>approver. approver \<noteq> [] \<and> override_refusal ro approver (sp_actor S) = [])"

definition cleared :: "fspec \<Rightarrow> backlog_item \<Rightarrow> build \<Rightarrow> verdict \<Rightarrow> string \<Rightarrow> bool" where
  "cleared S i b v context_arm \<longleftrightarrow> sp_deliver S \<and> vd_accepted v \<and> vd_pack_hash v = bd_pack_hash b \<and>
     licensed (licence_of S i b context_arm) \<and>
     (\<exists>m. mr_route m = ROUTE_DELIVER_WORD \<and> route_answered S i (delivered_size i b) (Some m) \<and>
       signed_or_overridden S (licence_of S i b context_arm) (Some m))"

lemma remote_quiet: "(\<And>k r. quiet.keeps k r m) \<Longrightarrow> m s = (res, s') \<Longrightarrow> ls_remote s' = ls_remote s"
  using quiet_run [of m s res s'] by simp

lemma andThen_split:
  assumes "andThen m f s = (res, s')"
  obtains e where "m s = (Inl e, s')" "res = Inl e" | x s1 where "m s = (Inr x, s1)" "f x s1 = (res, s')"
  using assms by (auto simp: andThen_def split: prod.splits sum.splits)

lemma quiet_andThen:
  assumes "andThen m f s = (res, s')" "\<And>k r. quiet.keeps k r m" "\<And>x s1. ls_remote s1 = ls_remote s \<Longrightarrow> m s = (Inr x, s1) \<Longrightarrow>
    f x s1 = (res, s') \<Longrightarrow> ls_remote s' = ls_remote s \<or> Q"
  shows "ls_remote s' = ls_remote s \<or> Q"
  using assms(1)
proof (rule andThen_split)
  fix e assume "m s = (Inl e, s')"
  then show ?thesis using remote_quiet [OF assms(2)] by blast
next
  fix x s1 assume "m s = (Inr x, s1)" "f x s1 = (res, s')"
  then show ?thesis using remote_quiet [OF assms(2)] assms(3) by metis
qed

lemma quiet_sign_off: "quiet.keeps k r (delivered_cell_sign_off S i b l ro ov)"
  unfolding delivered_cell_sign_off_def Let_def by (intro law)

lemma sign_off_Inr:
  "delivered_cell_sign_off S i b l ro ov s = (Inr approver, s') \<Longrightarrow> signed_or_overridden S l ro"
  unfolding delivered_cell_sign_off_def signed_or_overridden_def Let_def by (auto simp: andThen_Inr split: if_splits)

lemma delivered_route_Inr:
  assumes "delivered_route S i b ro s = (Inr read, s')" "route_answered S i (bi_size_estimate i) ro"
  shows "route_answered S i (delivered_size i b) read"
  using assms unfolding delivered_route_def delivered_size_def resized_item_def map_route_for_def
  by (auto simp: andThen_Inr BacklogItem_def route_answered_def split: if_splits)

lemma deliver_item_remote:
  assumes "deliver_item S i b ro v open_pr n after context_arm ov s = (res, s')" "route_answered S i (bi_size_estimate i) ro"
  shows "ls_remote s' = ls_remote s \<or> cleared S i b v context_arm"
proof -
  let ?l = "licence_of S i b context_arm"
  show ?thesis
  proof (cases "vd_accepted v \<and> vd_pack_hash v = bd_pack_hash b \<and> sp_deliver S \<and> licensed ?l")
    case False
    then have "ls_remote s' = ls_remote s" using assms(1) unfolding deliver_item_def Let_def
      by (auto split: if_splits elim!: remote_quiet [rotated] intro!: law)
    then show ?thesis ..
  next
    case True
    then have "andThen (delivered_route S i b ro) (\<lambda>read.
          let measured = (case read of None \<Rightarrow> [] | Some m \<Rightarrow> mr_route m) in
          if measured \<noteq> ROUTE_DELIVER_WORD
          then andThen (record_withheld S i b (route_withheld i b read)) (\<lambda>_. ret None)
          else andThen (delivered_cell_sign_off S i b ?l read ov) (\<lambda>by.
            andThen (push_change S i b v open_pr n after ?l by) (\<lambda>d. ret (Some d)))) s = (res, s')"
      using assms(1) by (simp add: deliver_item_def Let_def)
    then show ?thesis
    proof (rule quiet_andThen, goal_cases)
      case (1 k r)
      show ?case unfolding delivered_route_def by (intro law)
    next
      case (2 read s1)
      have read: "route_answered S i (delivered_size i b) read" by (rule delivered_route_Inr [OF 2(2) assms(2)])
      show ?case
      proof (cases "\<exists>m. read = Some m \<and> mr_route m = ROUTE_DELIVER_WORD")
        case False
        then have "andThen (record_withheld S i b (route_withheld i b read))
            (\<lambda>_. ret None) s1 = (res, s')"
          using 2(3) by (auto simp: Let_def ROUTE_DELIVER_WORD_def split: option.splits if_splits)
        then have "ls_remote s' = ls_remote s1" by (rule remote_quiet [rotated]) (intro law)
        then show ?thesis using 2(1) by simp
      next
        case True
        then obtain m where m: "read = Some m" "mr_route m = ROUTE_DELIVER_WORD" by blast
        from 2(3) have "andThen (delivered_cell_sign_off S i b ?l read ov) (\<lambda>by.
            andThen (push_change S i b v open_pr n after ?l by) (\<lambda>d. ret (Some d))) s1 = (res, s')"
          by (simp add: m Let_def)
        then have "ls_remote s' = ls_remote s1 \<or> signed_or_overridden S ?l read"
          by (rule quiet_andThen [OF _ quiet_sign_off]) (blast dest: sign_off_Inr)
        then show ?thesis using 2(1) True m read \<open>vd_accepted v \<and> vd_pack_hash v = bd_pack_hash b \<and> sp_deliver S \<and> licensed ?l\<close>
          by (auto simp: cleared_def)
      qed
    qed
  qed
qed


subsection \<open>One item, from the gate to its outcome\<close>

lemma let_through_route: "let_through S i authored r ro e \<Longrightarrow> route_answered S i (bi_size_estimate i) ro"
  by (auto simp: let_through_def route_answered_def)

lemma work_item_Inr:
  assumes "work_item S i authored s = (Inr (ro, e, open_pr, context_arm, b, v), s')"
  shows "(\<exists>r. let_through S i authored r ro e) \<and> ls_entry s' = e \<and> (en_calibration e \<noteq> None \<longrightarrow> open_pr = None) \<and>
    under_review s' context_arm b v"
proof -
  from assms obtain r ro0 e0 s1 where a: "assess_item S i authored s = (Inr (r, ro0, e0), s1)"
    and w: "after_entry S i authored r ro0 e0 (s1\<lparr>ls_readiness := Some r, ls_entry := e0\<rparr>) = (Inr (ro, e, open_pr, context_arm, b, v), s')"
    unfolding work_item_def by (auto simp: andThen_Inr)
  show ?thesis using assess_item_Inr [OF a] after_entry_Inr [OF w] after_entry_remote [OF w] by auto
qed

lemma work_item_remote:
  assumes "work_item S i authored s = (res, s')" "ls_entry s = no_entry"
  shows "since closes (ls_remote s) s' \<and> ls_delivery s' = ls_delivery s \<and>
    (en_calibration (ls_entry s') \<noteq> None \<longrightarrow> ls_remote s' = ls_remote s)"
  using assms(1) unfolding work_item_def
proof (rule andThen_split)
  fix e assume "assess_item S i authored s = (Inl e, s')"
  then have "work_vars s' = work_vars s \<and> ls_remote s' = ls_remote s" by (rule quiet_run [OF quiet.keeps_assess])
  then show ?thesis using assms(2) by (auto simp: work_vars_def since_same)
next
  fix x s1 assume a: "assess_item S i authored s = (Inr x, s1)"
    and w: "(case x of (r, ro, e) \<Rightarrow> andThen (local_var (\<lambda>s. s\<lparr>ls_readiness := Some r, ls_entry := e\<rparr>))
      (\<lambda>_. after_entry S i authored r ro e)) s1 = (res, s')"
  obtain r ro e where x: "x = (r, ro, e)" by (cases x)
  have q: "work_vars s1 = work_vars s \<and> ls_remote s1 = ls_remote s" by (rule quiet_run [OF quiet.keeps_assess a])
  have "after_entry S i authored r ro e (s1\<lparr>ls_readiness := Some r, ls_entry := e\<rparr>) = (res, s')"
    using w by (simp add: x andThen_def local_var_def)
  from after_entry_remote [OF this] q show ?thesis by (auto simp: work_vars_def)
qed

text \<open>Settling leaves the build under review and the entry alone.\<close>

lemma settle_frame:
  assumes "settle_item S i ro e open_pr context_arm (b, v) s = (res, s')"
  shows "ls_requests s' = ls_requests s \<and> ls_entry s' = ls_entry s \<and> ls_builds s' = ls_builds s \<and> ls_verdicts s' = ls_verdicts s \<and>
    ls_proof s' = ls_proof s \<and> ls_reworks s' = ls_reworks s"
proof -
  consider (calibration) c where "vd_accepted v" "en_calibration e = Some c" | (deliver) "vd_accepted v" "en_calibration e = None"
    | (refused) "\<not> vd_accepted v" by (cases "en_calibration e") auto
  then show ?thesis
  proof cases
    case calibration
    have "work_vars s' = work_vars s"
      using assms by (rule kept_run [rotated]) (use calibration in \<open>auto simp: settle_item_def intro!: law\<close>)
    then show ?thesis by (simp add: work_vars_def)
  next
    case refused
    have "work_vars s' = work_vars s"
      using assms by (rule kept_run [rotated]) (use refused in \<open>auto simp: settle_item_def intro!: law\<close>)
    then show ?thesis by (simp add: work_vars_def)
  next
    case deliver
    let ?after = "if length (ls_verdicts s) > 1 then vd_verdict (ls_verdicts s ! (length (ls_verdicts s) - 2)) else []"
    have "andThen (deliver_item S i b ro v open_pr (ls_reworks s) ?after context_arm (en_override_by e)) (\<lambda>d.
         andThen (local_var (\<lambda>s. s\<lparr>ls_delivery := d\<rparr>)) (\<lambda>_. ret STATUS_ACCEPTED)) s = (res, s')"
      using assms deliver by (simp add: settle_item_def)
    then show ?thesis
    proof (rule andThen_split)
      fix x assume "deliver_item S i b ro v open_pr (ls_reworks s) ?after context_arm (en_override_by e) s = (Inl x, s')"
      from kept_run [OF kept.keeps_deliver_item this] show ?thesis by (simp add: work_vars_def)
    next
      fix x s1 assume d: "deliver_item S i b ro v open_pr (ls_reworks s) ?after context_arm (en_override_by e) s = (Inr x, s1)"
        and r: "andThen (local_var (\<lambda>s. s\<lparr>ls_delivery := x\<rparr>)) (\<lambda>_. ret STATUS_ACCEPTED) s1 = (res, s')"
      from kept_run [OF kept.keeps_deliver_item d] r show ?thesis
        by (auto simp: work_vars_def andThen_def local_var_def ret_def)
    qed
  qed
qed

lemma closing_withdraw: "withdraw S i open_pr v s = (res, s') \<Longrightarrow> since closes (ls_remote s) s'"
  using closing_run [OF closing.keeps_withdraw] by blast

lemma settle_remote:
  assumes "settle_item S i ro e open_pr context_arm (b, v) s = (res, s')" "route_answered S i (bi_size_estimate i) ro"
    "en_calibration e \<noteq> None \<longrightarrow> open_pr = None"
  shows "(since closes (ls_remote s) s' \<and> (en_calibration e \<noteq> None \<longrightarrow> ls_remote s' = ls_remote s)) \<or>
    (en_calibration e = None \<and> cleared S i b v context_arm)"
proof -
  consider (calibration) c where "vd_accepted v" "en_calibration e = Some c" | (deliver) "vd_accepted v" "en_calibration e = None"
    | (refused) "\<not> vd_accepted v" by (cases "en_calibration e") auto
  then show ?thesis
  proof cases
    case calibration
    have "ls_remote s' = ls_remote s"
      using assms(1) by (rule remote_quiet [rotated]) (use calibration in \<open>auto simp: settle_item_def intro!: law\<close>)
    then show ?thesis using since_same by blast
  next
    case refused
    from assms(1) refused have w: "andThen (withdraw S i open_pr v) (\<lambda>_. ret (if rework_required v then STATUS_REWORK_EXHAUSTED else STATUS_REJECTED)) s = (res, s')"
      by (simp add: settle_item_def)
    then obtain res' where w': "withdraw S i open_pr v s = (res', s')" by (rule andThen_split) (auto simp: ret_def)
    have "ls_remote s' = ls_remote s" if "open_pr = None" using w' that by (simp add: withdraw_def ret_def)
    then show ?thesis using closing_withdraw [OF w'] assms(3) by blast
  next
    case deliver
    let ?after = "if length (ls_verdicts s) > 1 then vd_verdict (ls_verdicts s ! (length (ls_verdicts s) - 2)) else []"
    have "andThen (deliver_item S i b ro v open_pr (ls_reworks s) ?after context_arm (en_override_by e)) (\<lambda>d.
         andThen (local_var (\<lambda>s. s\<lparr>ls_delivery := d\<rparr>)) (\<lambda>_. ret STATUS_ACCEPTED)) s = (res, s')"
      using assms(1) deliver by (simp add: settle_item_def)
    then obtain res1 s1 where d: "deliver_item S i b ro v open_pr (ls_reworks s) ?after context_arm (en_override_by e) s = (res1, s1)"
      and r: "ls_remote s' = ls_remote s1" by (rule andThen_split) (auto simp: andThen_def local_var_def ret_def)
    from deliver_item_remote [OF d assms(2)] r deliver show ?thesis using since_same by metis
  qed
qed


text \<open>The body of a run and its outcome: recording the outcome changes nothing but the chain.\<close>

lemma run_item_split:
  assumes "run_item S i authored s = (res, s')"
  shows "\<exists>body s1. item_body S i authored (fresh_locals s) = (body, s1) \<and> work_vars s' = work_vars s1 \<and> ls_remote s' = ls_remote s1"
proof -
  obtain body s1 where b: "item_body S i authored (fresh_locals s) = (body, s1)" by (cases "item_body S i authored (fresh_locals s)")
  have "s' = s1 \<or> (\<exists>st. close_item S i st s1 = (res, s'))"
    using assms b by (auto simp: run_item_def split: sum.splits stopx.splits if_splits)
  then show ?thesis using b quiet_run [OF quiet.keeps_close] by metis
qed

lemma fresh_frame: "ls_remote (fresh_locals s) = ls_remote s" "ls_requests (fresh_locals s) = ls_requests s"
  "ls_entry (fresh_locals s) = no_entry" "ls_delivery (fresh_locals s) = None" "ls_proof (fresh_locals s) = None"
  by (simp_all add: fresh_locals_def)

lemma not_both: "since closes r s \<Longrightarrow> ls_remote s = r @ acts \<Longrightarrow> act \<in> set acts \<Longrightarrow> closes act"
  by (auto simp: since_def list_all_iff)

lemma since_trans: "since Q (ls_remote s1) s2 \<Longrightarrow> since Q r s1 \<Longrightarrow> since Q r s2"
  unfolding since_def by (elim exE conjE) (rule exI, rule conjI [rotated], rule list_all_append [THEN iffD2], auto)

lemma no_entry_calibration: "en_calibration no_entry = None"
  by (simp add: no_entry_def enter_def)

lemma item_body_remote:
  assumes "item_body S i authored (fresh_locals s) = (body, s')"
  shows "(since closes (ls_remote s) s' \<and> (en_calibration (ls_entry s') \<noteq> None \<longrightarrow> ls_remote s' = ls_remote s)) \<or>
    (\<exists>r ro context_arm b v. let_through S i authored r ro (ls_entry s') \<and> en_calibration (ls_entry s') = None \<and>
      under_review s' context_arm b v \<and> cleared S i b v context_arm)"
  using assms unfolding item_body_def
proof (rule andThen_split)
  fix e assume "work_item S i authored (fresh_locals s) = (Inl e, s')"
  from work_item_remote [OF this fresh_frame(3)] show ?thesis by (simp add: fresh_frame)
next
  fix x s1 assume w: "work_item S i authored (fresh_locals s) = (Inr x, s1)"
    and st: "(case x of (ro, e, open_pr, context_arm, final, v) \<Rightarrow> settle_item S i ro e open_pr context_arm (final, v)) s1 = (body, s')"
  obtain ro e open_pr context_arm b v where x: "x = (ro, e, open_pr, context_arm, b, v)" by (cases x)
  note w1 = work_item_Inr [OF w [unfolded x]] and w2 = work_item_remote [OF w fresh_frame(3), unfolded fresh_frame]
  have st: "settle_item S i ro e open_pr context_arm (b, v) s1 = (body, s')" using st by (simp add: x)
  note fr = settle_frame [OF st]
  obtain r where r: "let_through S i authored r ro e" using w1 by blast
  have e: "ls_entry s' = e" using w1 fr by simp
  have u: "under_review s' context_arm b v" using w1 fr by (simp add: under_review_def)
  from settle_remote [OF st let_through_route [OF r]] w1 have
    "(since closes (ls_remote s1) s' \<and> (en_calibration e \<noteq> None \<longrightarrow> ls_remote s' = ls_remote s1)) \<or>
      (en_calibration e = None \<and> cleared S i b v context_arm)" by blast
  then show ?thesis
  proof
    assume c: "since closes (ls_remote s1) s' \<and> (en_calibration e \<noteq> None \<longrightarrow> ls_remote s' = ls_remote s1)"
    then have "since closes (ls_remote s) s'" using w2 since_trans by blast
    then show ?thesis using c w1 w2 e by auto
  next
    assume "en_calibration e = None \<and> cleared S i b v context_arm"
    then show ?thesis using r e u by blast
  qed
qed

subsection \<open>A concrete run\<close>

text \<open>A person's test, one rung, a delivery on; the reviewer is mechanical and the oracle strong.\<close>

definition demo_test :: authored_test where
  "demo_test = \<lparr>au_path = ''t.py'', au_content = ''assert'', au_author = ''operator:ann''\<rparr>"

definition demo_build :: "nat \<Rightarrow> build_request \<Rightarrow> build result" where
  "demo_build n rq = Inr \<lparr>bd_rung = rung_label (rq_rung rq), bd_trial = rq_trial rq, bd_pack_hash = ''h'', bd_clean = True,
     bd_disqualified = False, bd_size = ''M'', bd_built_by = Some (rq_rung rq), bd_oracle_commit = ''c1'', bd_oracle_sha256 = ''s'',
     bd_labels = rq_labels rq, bd_row_id = ''row'', bd_row_hash = ''rh'', bd_error = []\<rparr>"

definition demo_probes :: "probe_result list" where
  "demo_probes = [probe PROBE_RED (Some True) ''reproduced'', probe PROBE_BELTS (Some True) ''belts held'',
     probe PROBE_STRENGTH (Some True) ''strong enough'']"

definition demo_spec :: fspec where
  "demo_spec = \<lparr>sp_ctx = demo_ctx, sp_keys = [], sp_sha = (\<lambda>x. x), sp_digests = \<lparr>hd_files = (\<lambda>h. []), hd_body = (\<lambda>h. [])\<rparr>,
     sp_instant = (\<lambda>x. None), sp_ladder = [(''builder'', ''m2'', ''p'')], sp_deliver = True, sp_actor = ''bob'', sp_run_id = ''run'',
     sp_max_rework = 1, sp_require_signed_cell = False, sp_readers = \<lparr>rs_standard_for = demo_reader, rs_agreement_passed = False\<rparr>,
     sp_author = None, sp_reviewer = ''mechanical:probes'', sp_target = ''main'', sp_repo_key = ''k'', sp_learning = False,
     sp_reserve = False, sp_others = (\<lambda>n evs. evs), sp_stamp = (\<lambda>n. (''t'', nat_text n)), sp_signoffs = (\<lambda>n. Inr []),
     sp_route_for = (\<lambda>n i. Inr (Some \<lparr>mr_route = ''deliver'', mr_reason_code = [], mr_false_q1 = Some 0, mr_policy_version = ''v''\<rparr>)),
     sp_override_for = (\<lambda>n. Inr []), sp_held_out = None, sp_writes = (\<lambda>n i. Inr ([], [])),
     sp_scene = (\<lambda>n i a. Inr \<lparr>rc_is_test = True, rc_base_sha = ''b'', rc_path_escapes = False, rc_valid_oracle = True,
       rc_target_scope = [''t.py''], rc_run = Inr demo_red\<rparr>),
     sp_build = demo_build, sp_probes = (\<lambda>n b p. Inr demo_probes), sp_opinion = (\<lambda>n ps. Inr (mechanical_reviewer ps)),
     sp_rework_test = None, sp_world = (\<lambda>n. demo_world), sp_stop = (\<lambda>n. False)\<rparr>"

definition demo_ready :: backlog_item where
  "demo_ready = demo_bug\<lparr>bi_structural_facts := [''reproduction: r'', ''expected_behaviour: e'', ''exact_value: v'']\<rparr>"

definition demo_start :: lstate where
  "demo_start = \<lparr>ls_evs = [], ls_tick = 0, ls_requests = [], ls_remote = [], ls_readiness = None, ls_entry = no_entry, ls_proof = None,
     ls_builds = [], ls_verdicts = [], ls_delivery = None, ls_reworks = 0\<rparr>"


lemma demo_run:
  "(case run_item demo_spec demo_ready (Some demo_test) demo_start of (res, s) \<Rightarrow>
     (map_sum (\<lambda>x. x) io_status res, ls_remote s, map fe_kind (ls_evs s), length (ls_requests s), length (ls_builds s))) =
   (Inr STATUS_ACCEPTED, [Push ''https://h/o/r.git'' ''crb/a-t'' None, OpenPR ''https://h/o/r.git'' ''crb/a-t'' ''main''],
    [EV_READINESS, EV_ROUTE, EV_RED_PROOF, EV_BUILD, EV_VERDICT, EV_DELIVERY, EV_ITEM_OUTCOME], 1, 1)"
  by code_simp

subsection \<open>The loop and the remote\<close>



lemma calibration_quiet:
  assumes "run_item S i authored s = (res, s')" "en_calibration (ls_entry s') = Some c"
  shows "ls_remote s' = ls_remote s"
proof -
  obtain body s1 where b: "item_body S i authored (fresh_locals s) = (body, s1)" and k: "work_vars s' = work_vars s1" "ls_remote s' = ls_remote s1"
    using run_item_split [OF assms(1)] by blast
  have "ls_entry s' = ls_entry s1" using k by (simp add: work_vars_def)
  with item_body_remote [OF b] assms(2) k show ?thesis by auto
qed

end
