(* ===== verification/Loop_Spend.thy ===== *)
theory Loop_Spend
  imports Loop_Correct
begin

section \<open>What the loop may spend\<close>

text \<open>
  The calls to the builder: how many a run of an item may make, what each rests on, and what must hold before the first one.
\<close>

subsection \<open>Counting and qualifying the requests\<close>

text \<open>A step makes at most \<open>k\<close> requests, each satisfying \<open>Q\<close>.\<close>

definition asks :: "nat \<Rightarrow> (build_request \<Rightarrow> bool) \<Rightarrow> 'a act \<Rightarrow> bool" where
  "asks k Q m \<longleftrightarrow> (\<forall>s. \<exists>rqs. ls_requests (snd (m s)) = ls_requests s @ rqs \<and> length rqs \<le> k \<and> list_all Q rqs)"

lemma asks_none: "(\<And>k. kept.safe k m P) \<Longrightarrow> asks n Q m"
  unfolding asks_def
proof (intro allI)
  fix s
  assume m: "\<And>k. kept.safe k m P"
  obtain res s' where ms: "m s = (res, s')" by (cases "m s")
  have "work_vars s' = work_vars s" by (rule kept_run [OF kept.safe_keeps [OF m] ms])
  then show "\<exists>rqs. ls_requests (snd (m s)) = ls_requests s @ rqs \<and> length rqs \<le> n \<and> list_all Q rqs"
    by (intro exI [of _ "[]"]) (simp add: ms work_vars_def)
qed

lemma asks_frame: "(\<And>s. ls_requests (snd (m s)) = ls_requests s) \<Longrightarrow> asks n Q m"
  by (simp add: asks_def)

lemma asks_andThen:
  assumes "asks j Q m" "\<And>x s s'. m s = (Inr x, s') \<Longrightarrow> asks k Q (f x)"
  shows "asks (j + k) Q (andThen m f)"
  unfolding asks_def
proof (intro allI)
  fix s
  obtain res s1 where m: "m s = (res, s1)" by (cases "m s")
  obtain r1 where r1: "ls_requests s1 = ls_requests s @ r1" "length r1 \<le> j" "list_all Q r1"
    using assms(1) m by (metis asks_def snd_conv)
  show "\<exists>rqs. ls_requests (snd (andThen m f s)) = ls_requests s @ rqs \<and> length rqs \<le> j + k \<and> list_all Q rqs"
  proof (cases res)
    case (Inl e)
    then show ?thesis using r1 m by (auto simp: andThen_def)
  next
    case (Inr x)
    then obtain r2 where "ls_requests (snd (f x s1)) = ls_requests s1 @ r2" "length r2 \<le> k" "list_all Q r2"
      using assms(2) m by (metis asks_def)
    then show ?thesis using r1 m Inr by (intro exI [of _ "r1 @ r2"]) (simp add: andThen_def)
  qed
qed

lemma asks_then: "asks k Q m \<Longrightarrow> (\<And>x s s'. m s = (Inr x, s') \<Longrightarrow> asks 0 Q (f x)) \<Longrightarrow> asks k Q (andThen m f)"
  using asks_andThen [of k Q m 0 f] by simp

lemma asks_first: "asks 0 Q m \<Longrightarrow> (\<And>x s s'. m s = (Inr x, s') \<Longrightarrow> asks k Q (f x)) \<Longrightarrow> asks k Q (andThen m f)"
  using asks_andThen [of 0 Q m k f] by simp

lemma asks_more: "asks j Q m \<Longrightarrow> j \<le> k \<Longrightarrow> asks k Q m"
  unfolding asks_def by (meson order_trans)

text \<open>
  What every request rests on: the test it carries failed on the base commit, as the RED proof it carries records,
  and the rung is one of the ladder and not the identity that wrote the test.
\<close>

definition well_founded_request :: "fspec \<Rightarrow> backlog_item \<Rightarrow> build_request \<Rightarrow> bool" where
  "well_founded_request S i rq \<longleftrightarrow> rq_item rq = i \<and> rq_rung rq \<in> set (sp_ladder S) \<and>
     assert_distinct_identity (sp_keys S) (au_author (rq_oracle rq)) (rung_label (rq_rung rq)) = Inr () \<and>
     (\<exists>n scene. sp_scene S n i (rq_oracle rq) = Inr scene \<and> prove_red (sp_sha S) i (rq_oracle rq) scene = Inr (rq_proof rq))"

definition proven_call :: "fspec \<Rightarrow> backlog_item \<Rightarrow> ladder_call \<Rightarrow> bool" where
  "proven_call S i c \<longleftrightarrow>
     (\<exists>n scene. sp_scene S n i (lc_oracle c) = Inr scene \<and> prove_red (sp_sha S) i (lc_oracle c) scene = Inr (lc_proof c))"

lemma request_well_founded:
  assumes "proven_call S i c" "r \<in> set (sp_ladder S)" "assert_distinct_identity (sp_keys S) (au_author (lc_oracle c)) (rung_label r) = Inr ()"
  shows "well_founded_request S i (request_for S i c k r)"
  using assms by (simp add: well_founded_request_def proven_call_def request_for_def)

lemma asks_local: "asks 0 Q (local_var (\<lambda>s. s\<lparr>ls_builds := f s\<rparr>))" "asks 0 Q (local_var (\<lambda>s. s\<lparr>ls_verdicts := g s\<rparr>))"
  "asks 0 Q (local_var (\<lambda>s. s\<lparr>ls_reworks := n\<rparr>))" "asks 0 Q (local_var (\<lambda>s. s\<lparr>ls_proof := p\<rparr>))"
  "asks 0 Q (local_var (\<lambda>s. s\<lparr>ls_delivery := d\<rparr>))" "asks 0 Q (local_var (\<lambda>s. s\<lparr>ls_readiness := r, ls_entry := e\<rparr>))"
  by (simp_all add: asks_def local_var_def)

lemma asks_ret [simp]: "asks n Q (ret x)" and asks_halt [simp]: "asks n Q (halt e)"
  by (simp_all add: asks_def ret_def halt_def)

lemma asks_build_rung: "Q rq \<Longrightarrow> asks 1 Q (build_rung S rq)"
  unfolding build_rung_def
  by (rule asks_then [OF _ asks_none [OF kept.keeps_ask]]) (simp add: asks_def local_var_def)

lemma asks_climb: "(\<And>k r. r \<in> set rs \<Longrightarrow> Q (request_for S i c k r)) \<Longrightarrow> asks (length rs) Q (climb S i c k rs)"
proof (induction rs arbitrary: k)
  case (Cons r rs)
  have "asks (1 + length rs) Q (climb S i c k (r # rs))"
    unfolding climb.simps
  proof (rule asks_andThen [OF asks_build_rung], goal_cases)
    case 1
    show ?case by (rule Cons.prems) simp
  next
    case (2 b s s')
    have more: "asks (length rs) Q (andThen (climb S i c (Suc k) rs) (\<lambda>bs. ret (b # bs)))"
      by (rule asks_then [OF Cons.IH]) (auto intro: Cons.prems)
    show ?case
    proof (rule asks_first [OF asks_none [OF kept.keeps_record_built]])
      show "asks (length rs) Q (if bd_clean b \<or> bd_disqualified b then ret [b]
          else andThen (climb S i c (Suc k) rs) (\<lambda>bs. ret (b # bs)))"
        using more by simp
    qed
  qed
  then show ?case by simp
qed simp

lemma collect_result_of: "collect f xs = Inr ys \<Longrightarrow> x \<in> set xs \<Longrightarrow> \<exists>y. f x = Inr y"
  by (induction xs arbitrary: ys) (auto dest!: bind_Inr)

abbreviation rungs :: "fspec \<Rightarrow> nat" where "rungs S \<equiv> length (sp_ladder S)"

lemma asks_ladder:
  assumes "proven_call S i c"
  shows "asks (rungs S) (well_founded_request S i) (build_ladder S i c)"
proof (cases "sp_ladder S = []")
  case False
  let ?c = "collect (\<lambda>r. assert_distinct_identity (sp_keys S) (au_author (lc_oracle c)) (rung_label r)) (sp_ladder S)"
  have "asks (rungs S) (well_founded_request S i) (andThen (lift_result ?c) (\<lambda>_. climb S i c 1 (sp_ladder S)))"
  proof (rule asks_first [OF asks_none [OF kept.keeps_lift]])
    fix x s s' assume "lift_result ?c s = (Inr x, s')"
    then have "?c = Inr x" by simp
    then show "asks (rungs S) (well_founded_request S i) (climb S i c 1 (sp_ladder S))"
      by (intro asks_climb request_well_founded [OF assms]) (auto dest: collect_result_of)
  qed
  then show ?thesis using False by (simp add: build_ladder_def)
qed (simp add: build_ladder_def)

lemma asks_build_and_review:
  assumes "proven_call S i c"
  shows "asks (rungs S) (well_founded_request S i) (build_and_review S i r c open_pr)"
  unfolding build_and_review_def Let_def
proof (rule asks_then [OF asks_ladder [OF assms]], rule asks_first [OF asks_local(1)])
  fix bs
  have "asks 0 (well_founded_request S i) (andThen (review_item S i (last bs) (lc_proof c)) (\<lambda>v.
       andThen (local_var (\<lambda>s. s\<lparr>ls_verdicts := ls_verdicts s @ [v]\<rparr>)) (\<lambda>_.
       andThen (require_scoreable S i v (lc_oracle c) open_pr) (\<lambda>_. ret (last bs, v)))))"
    by (intro asks_first [OF asks_none [OF kept.safe_review]] asks_first [OF asks_local(2)]
        asks_first [OF asks_none [OF kept.keeps_require_scoreable]]) simp_all
  then show "asks 0 (well_founded_request S i) (if bd_disqualified (last bs) then halt (Stopped STATUS_DISQUALIFIED)
     else if \<not> bd_clean (last bs) then halt (Stopped STATUS_NOT_CLEAN)
     else andThen (review_item S i (last bs) (lc_proof c)) (\<lambda>v.
       andThen (local_var (\<lambda>s. s\<lparr>ls_verdicts := ls_verdicts s @ [v]\<rparr>)) (\<lambda>_.
       andThen (require_scoreable S i v (lc_oracle c) open_pr) (\<lambda>_. ret (last bs, v)))))" by simp
qed

text \<open>A proof the loop has is one \<open>prove_red\<close> gave for that test.\<close>

lemma proved_Inr:
  assumes "proved S i r a s = (Inr p, s')"
  shows "\<exists>n scene. sp_scene S n i a = Inr scene \<and> prove_red (sp_sha S) i a scene = Inr p"
proof -
  from assms have "\<exists>n. bind_result (sp_scene S n i a) (prove_red (sp_sha S) i a) = Inr p"
    unfolding proved_def prove_item_def by (auto simp: andThen_Inr split: sum.splits if_splits)
  then show ?thesis by (auto dest!: bind_Inr)
qed

lemma asks_proved: "asks 0 Q (proved S i r a)"
  unfolding proved_def
  by (rule asks_first [OF asks_none [OF kept.keeps_prove]], rule asks_first [OF asks_local(4)]) simp

lemma asks_refuse: "asks n Q (refuse_rework S i v a open_pr)"
  by (rule asks_none [OF kept.keeps_refuse_rework]) simp

lemma keeps_edit: "kept.keeps k (on_chain S (\<lambda>n. permit_edit (sp_ctx S) x h editor why))"
  by (rule kept.keeps_permit) simp

lemma asks_rework_round: "asks (rungs S) (well_founded_request S i) (rework_round S i r open_pr n st)"
proof -
  obtain c b v where st: "st = (c, b, v)" by (cases st)
  define rest where "rest edited = (if weak_oracle_finding v \<noteq> None \<and>
        (case edited of None \<Rightarrow> True | Some a \<Rightarrow> au_sha256 (sp_sha S) a = au_sha256 (sp_sha S) (lc_oracle c))
       then refuse_rework S i v (lc_oracle c) open_pr
       else let a = (case edited of None \<Rightarrow> lc_oracle c | Some a \<Rightarrow> a) in
         andThen (proved S i r a) (\<lambda>p.
         let c' = \<lparr>lc_oracle = a, lc_proof = p, lc_prefix = CHR ''w'' # nat_text n @ ''r'', lc_labels = lc_labels c, lc_arm = lc_arm c,
               lc_held_out = None, lc_grant = []\<rparr> in
         andThen (build_and_review S i r c' open_pr) (\<lambda>(final', v'). ret (c', final', v'))))" for edited
  have rest: "asks (rungs S) (well_founded_request S i) (rest edited)" for edited
  proof (cases "weak_oracle_finding v \<noteq> None \<and>
      (case edited of None \<Rightarrow> True | Some a \<Rightarrow> au_sha256 (sp_sha S) a = au_sha256 (sp_sha S) (lc_oracle c))")
    case True
    then show ?thesis by (simp add: rest_def asks_refuse)
  next
    case False
    have "asks (rungs S) (well_founded_request S i) (andThen (proved S i r a) (\<lambda>p.
         let c' = \<lparr>lc_oracle = a, lc_proof = p, lc_prefix = CHR ''w'' # nat_text n @ ''r'', lc_labels = lc_labels c, lc_arm = lc_arm c,
               lc_held_out = None, lc_grant = []\<rparr> in
         andThen (build_and_review S i r c' open_pr) (\<lambda>(final', v'). ret (c', final', v'))))" for a
      unfolding Let_def
      by (rule asks_first [OF asks_proved], rule asks_then [OF asks_build_and_review])
        (auto simp: proven_call_def dest: proved_Inr split: prod.splits)
    then show ?thesis using False unfolding rest_def Let_def by (simp only: if_False)
  qed
  have "asks (rungs S) (well_founded_request S i) (andThen (local_var (\<lambda>s. s\<lparr>ls_reworks := n\<rparr>)) (\<lambda>_.
       andThen (on_chain S (\<lambda>k. permit_edit (sp_ctx S) (bi_id i) (bd_pack_hash b)
         (if sp_actor S \<noteq> [] then sp_actor S else ''factory'') ''rework'')) (\<lambda>_.
       andThen (case sp_rework_test S of None \<Rightarrow> ret None | Some f \<Rightarrow> ask (\<lambda>k. f k i v (lc_oracle c))) rest)))"
    by (rule asks_first [OF asks_local(3)], rule asks_first [OF asks_none [OF keeps_edit]], rule asks_first [OF _ rest])
      (auto split: option.splits intro: asks_none [OF kept.keeps_ask])
  then show ?thesis unfolding rework_round_def st split Let_def rest_def [abs_def, unfolded Let_def] by (simp add: asks_refuse)
qed

lemma asks_rework_loop: "asks (left * rungs S) (well_founded_request S i) (rework_loop S i r open_pr left n st)"
proof (induction left arbitrary: n st)
  case (Suc left)
  have "asks (rungs S + left * rungs S) (well_founded_request S i)
      (andThen (rework_round S i r open_pr (Suc n) st) (\<lambda>st'. rework_loop S i r open_pr left (Suc n) st'))"
    by (rule asks_andThen [OF asks_rework_round Suc.IH])
  then show ?case by simp
qed simp


lemma asks_after_entry: "asks (Suc (nat (sp_max_rework S)) * rungs S) (well_founded_request S i) (after_entry S i authored r ro e)"
proof -
  let ?n = "nat (sp_max_rework S)" and ?Q = "well_founded_request S i"
  have loop: "asks (rungs S + ?n * rungs S) ?Q (andThen (build_and_review S i r c open_pr) (\<lambda>(final, v).
       andThen (rework_loop S i r open_pr ?n 0 (c, final, v)) (\<lambda>(c', final', v').
       ret (ro, e, open_pr, context_arm, final', v'))))" if "proven_call S i c" for c open_pr context_arm
    by (rule asks_andThen [OF asks_build_and_review [OF that]])
      (auto split: prod.splits intro!: asks_then [OF asks_rework_loop])
  show ?thesis
    unfolding after_entry_def Let_def
  proof (rule asks_first, goal_cases)
    case 1
    show ?case by (simp add: asks_none [OF kept.keeps_open_delivery])
  next
    case (2 open_pr s s')
    show ?case
    proof (rule asks_first [OF asks_none [OF kept.keeps_oracle]], clarify, rule asks_first [OF asks_none [OF kept.keeps_item_labels]], clarify,
        rule asks_first [OF asks_proved])
      fix a context_arm labels held p s3 s3'
      assume "proved S i r a s3 = (Inr p, s3')"
      then have "proven_call S i (first_call a p labels context_arm held e)"
        by (auto simp: proven_call_def first_call_def dest: proved_Inr)
      from loop [OF this] show "asks (Suc ?n * rungs S) ?Q (andThen (build_and_review S i r (first_call a p labels context_arm held e) open_pr)
          (\<lambda>(final, v). andThen (rework_loop S i r open_pr ?n 0 (first_call a p labels context_arm held e, final, v)) (\<lambda>(c', final', v').
          ret (ro, e, open_pr, context_arm, final', v'))))" by simp
    qed
  qed
qed

lemma asks_work: "asks (Suc (nat (sp_max_rework S)) * rungs S) (well_founded_request S i) (work_item S i authored)"
  unfolding work_item_def
  by (rule asks_first [OF asks_none [OF kept.keeps_assess]], clarify, rule asks_first [OF asks_local(6) asks_after_entry])

lemma settle_requests: "asks 0 Q (settle_item S i ro e open_pr context_arm st)"
proof (cases st)
  case (Pair b v)
  have "ls_requests (snd (settle_item S i ro e open_pr context_arm (b, v) s)) = ls_requests s" for s
    using settle_frame [of S i ro e open_pr context_arm b v s] by (metis prod.collapse)
  then show ?thesis by (simp add: Pair asks_def)
qed

lemma asks_body: "asks (Suc (nat (sp_max_rework S)) * rungs S) (well_founded_request S i) (item_body S i authored)"
  unfolding item_body_def by (rule asks_then [OF asks_work]) (auto intro: settle_requests)

lemma run_item_requests:
  assumes "run_item S i authored s = (res, s')"
  shows "\<exists>rqs. ls_requests s' = ls_requests s @ rqs \<and> length rqs \<le> Suc (nat (sp_max_rework S)) * rungs S \<and>
    list_all (well_founded_request S i) rqs"
proof -
  obtain body s1 where b: "item_body S i authored (fresh_locals s) = (body, s1)" and k: "work_vars s' = work_vars s1"
    using run_item_split [OF assms] by blast
  have "ls_requests s' = ls_requests s1" using k by (simp add: work_vars_def)
  moreover have "snd (item_body S i authored (fresh_locals s)) = s1" by (simp add: b)
  ultimately show ?thesis using asks_body [of S i authored, unfolded asks_def, rule_format, of "fresh_locals s"] by (simp add: fresh_frame)
qed


subsection \<open>Before the first build\<close>

lemma assess_no_requests: "assess_item S i authored s = (res, s') \<Longrightarrow> work_vars s' = work_vars s"
  by (drule quiet_run [OF quiet.keeps_assess]) simp

lemma work_item_gate:
  assumes "work_item S i authored (fresh_locals s) = (res, s')" "ls_requests s' \<noteq> ls_requests s"
  shows "\<exists>r ro. let_through S i authored r ro (ls_entry s')"
  using assms(1) unfolding work_item_def
proof (rule andThen_split)
  fix e assume "assess_item S i authored (fresh_locals s) = (Inl e, s')"
  from assess_no_requests [OF this] show ?thesis using assms(2) by (simp add: work_vars_def fresh_frame)
next
  fix x s1 assume a: "assess_item S i authored (fresh_locals s) = (Inr x, s1)"
    and w: "(case x of (r, ro, e) \<Rightarrow> andThen (local_var (\<lambda>s. s\<lparr>ls_readiness := Some r, ls_entry := e\<rparr>))
      (\<lambda>_. after_entry S i authored r ro e)) s1 = (res, s')"
  obtain r ro e where x: "x = (r, ro, e)" by (cases x)
  have "after_entry S i authored r ro e (s1\<lparr>ls_readiness := Some r, ls_entry := e\<rparr>) = (res, s')"
    using w by (simp add: x andThen_def local_var_def)
  from after_entry_remote [OF this] assess_item_Inr [OF a [unfolded x]] show ?thesis by auto
qed

lemma run_item_gate:
  assumes "run_item S i authored s = (res, s')" "ls_requests s' \<noteq> ls_requests s"
  shows "\<exists>r ro. let_through S i authored r ro (ls_entry s')"
proof -
  obtain body s1 where b: "item_body S i authored (fresh_locals s) = (body, s1)" and k: "work_vars s' = work_vars s1"
    using run_item_split [OF assms(1)] by blast
  then have k: "ls_requests s1 \<noteq> ls_requests s" "ls_entry s' = ls_entry s1" using assms(2) by (simp_all add: work_vars_def)
  from b [unfolded item_body_def] show ?thesis
  proof (rule andThen_split)
    fix e assume "work_item S i authored (fresh_locals s) = (Inl e, s1)"
    from work_item_gate [OF this k(1)] k(2) show ?thesis by simp
  next
    fix x s2 assume w: "work_item S i authored (fresh_locals s) = (Inr x, s2)"
      and st: "(case x of (ro, e, open_pr, context_arm, final, v) \<Rightarrow> settle_item S i ro e open_pr context_arm (final, v)) s2 = (body, s1)"
    obtain ro e open_pr context_arm b v where x: "x = (ro, e, open_pr, context_arm, b, v)" by (cases x)
    from st have "settle_item S i ro e open_pr context_arm (b, v) s2 = (body, s1)" by (simp add: x)
    from settle_frame [OF this] work_item_gate [OF w] k show ?thesis by metis
  qed
qed

text \<open>
  C7. No builder is called before the gate: a run that made a request is of an item that is not an operator's, that is ready
  on the sign-offs read and not routed to a person, that the gate let enter on a proven, certifying standard or a
  funded calibration grant, and, without a grant and when delivery is on, of a cell at least one rung of the ladder is
  licensed for.
\<close>

theorem gate_before_spend:
  assumes "\<And>c st. rs_standard_for (sp_readers S) c = Some st \<Longrightarrow> Standard st = Inr st"
    and "run_item S i authored s = (res, s')" "ls_requests s' \<noteq> ls_requests s"
  shows "bi_kind i \<noteq> KIND_OPERATOR \<and> enters (ls_entry s') \<and>
    (\<exists>gs approver cal. re_ready (assess i gs) \<and> re_route_hint (assess i gs) \<noteq> ROUTE_HUMAN \<and>
       decide_item S i (assess i gs) authored approver cal = Inr (ls_entry s')) \<and>
    (en_calibration (ls_entry s') \<noteq> None \<or>
     (\<exists>st. en_standard (ls_entry s') = Some st \<and> std_licenses st) \<and>
     (sp_deliver S \<longrightarrow> licensing_rungs (bi_capability_class i) (bi_size_estimate i) (sp_ladder S) (entry_arm (ls_entry s'))
       (rs_standard_for (sp_readers S)) \<noteq> []))"
proof -
  obtain r ro where l: "let_through S i authored r ro (ls_entry s')" using run_item_gate [OF assms(2,3)] by blast
  then obtain ov cal gs where d: "decide_item S i r authored ov cal = Inr (ls_entry s')" and r: "r = assess i gs"
    by (auto simp: let_through_def)
  have n: "\<not> no_licence S i (ls_entry s')" using l by (simp add: let_through_def)
  have en: "enters (ls_entry s')" using l by (simp add: let_through_def)
  have st: "en_calibration (ls_entry s') = None \<longrightarrow> (\<exists>st. en_standard (ls_entry s') = Some st \<and> std_licenses st)"
    by (rule impI, rule exE [OF entry_standard [of "rs_standard_for (sp_readers S)"]], erule assms(1),
        rule d [unfolded decide_item_def gate_for_def], rule en, assumption, blast)
  have "\<exists>gs approver cal. re_ready (assess i gs) \<and> re_route_hint (assess i gs) \<noteq> ROUTE_HUMAN \<and>
       decide_item S i (assess i gs) authored approver cal = Inr (ls_entry s')"
    using l d r unfolding let_through_def by blast
  moreover have "bi_kind i \<noteq> KIND_OPERATOR" using l by (simp add: let_through_def)
  ultimately show ?thesis using en n st unfolding no_licence_def by (intro conjI) (assumption | force)+
qed


text \<open>
  A run of an item calls the builder at most once per rung of the ladder in each round: the first and at most
  \<open>max_rework\<close> rework rounds. What earlier runs asked for stays as it was.
\<close>

theorem requests_bounded:
  "\<exists>rqs. ls_requests (snd (run_item S i authored s)) = ls_requests s @ rqs \<and>
     length rqs \<le> (1 + nat (sp_max_rework S)) * length (sp_ladder S)"
  using run_item_requests [of S i authored s "fst (run_item S i authored s)" "snd (run_item S i authored s)"] by auto


subsection \<open>Witnesses\<close>

lemma demo_requests:
  "\<exists>res s' rq. run_item demo_spec demo_ready (Some demo_test) demo_start = (res, s') \<and> ls_requests s' = [rq]"
proof -
  obtain res s' where r: "run_item demo_spec demo_ready (Some demo_test) demo_start = (res, s')"
    by (cases "run_item demo_spec demo_ready (Some demo_test) demo_start")
  have "length (ls_requests s') = 1" using demo_run unfolding r by simp
  then obtain rq where "ls_requests s' = [rq]" by (auto simp: length_Suc_conv)
  then show ?thesis using r by blast
qed

lemma demo_spec_reader: "rs_standard_for (sp_readers demo_spec) = demo_reader"
  by (simp add: demo_spec_def)

lemma gate_before_spend_witness:
  "\<exists>res s'. run_item demo_spec demo_ready (Some demo_test) demo_start = (res, s') \<and> ls_requests s' \<noteq> [] \<and> enters (ls_entry s')"
proof -
  obtain res s' rq where r: "run_item demo_spec demo_ready (Some demo_test) demo_start = (res, s')" "ls_requests s' = [rq]"
    using demo_requests by blast
  have "ls_requests s' \<noteq> ls_requests demo_start" by (simp add: r demo_start_def)
  from gate_before_spend [OF _ r(1) this] demo_reader_shaped r show ?thesis unfolding demo_spec_reader by auto
qed


end
