(* ===== verification/Loop_Outcome.thy ===== *)
theory Loop_Outcome
  imports Loop_Spend
begin

section \<open>How a run ends, and what it leaves on the chain\<close>

text \<open>
  Under the hypotheses \<open>fair_world\<close> (other processes write the chain only through the governed steps and only append;
  generated identifiers are not altered by redaction), every run of an item keeps the chain governed and closes its
  story there; a grant is claimed on the chain before the build it pays for; a backlog is worked in dependency order.
\<close>

subsection \<open>The chain through a run\<close>

definition chain_good :: "ev_ctx \<Rightarrow> fevent list \<Rightarrow> bool" where
  "chain_good C evs \<longleftrightarrow> governed C evs \<and> list_all (\<lambda>e. ec_redact C (fe_event_id e) = fe_event_id e) evs"

definition fair_world :: "fspec \<Rightarrow> bool" where
  "fair_world S \<longleftrightarrow>
     (\<forall>n evs. chain_good (sp_ctx S) evs \<longrightarrow> chain_good (sp_ctx S) (sp_others S n evs) \<and> prefix evs (sp_others S n evs)) \<and>
     (\<forall>n. ec_redact (sp_ctx S) (snd (sp_stamp S n)) = snd (sp_stamp S n)) \<and>
     (\<forall>n rq b. sp_build S n rq = Inr b \<longrightarrow> ec_redact (sp_ctx S) (bd_pack_hash b) = bd_pack_hash b)"

text \<open>Every operation adds at most one event, under the id of its stamp.\<close>

definition adds :: "stamp \<Rightarrow> fevent list \<Rightarrow> fevent list \<Rightarrow> bool" where
  "adds stamp evs evs' \<longleftrightarrow> evs' = evs \<or> (\<exists>c. evs' = evs @ [c] \<and> fe_event_id c = snd stamp)"

lemma adds_append: "ev_append C kind x p stamp evs = Inr (e, evs') \<Longrightarrow> adds stamp evs evs'"
  unfolding adds_def using ev_append_Inr [of C kind x p stamp evs e evs'] by blast

lemma adds_verdict: "record_verdict C v stamp evs = Inr (e, evs') \<Longrightarrow> adds stamp evs evs'"
  by (auto simp: record_verdict_def split: if_splits dest: adds_append)

lemma adds_edit: "record_edit C x h editor why stamp evs = Inr (e, evs') \<Longrightarrow> adds stamp evs evs'"
  by (auto simp: record_edit_def split: if_splits dest: adds_append)

lemma adds_claim: "claim_calibration C x g run stamp evs = Inr (r, evs') \<Longrightarrow> adds stamp evs evs'"
  unfolding claim_calibration_def by (drule append_if_Inr) (auto simp: adds_def dest: ev_append_Inr)

lemma adds_outcome: "record_delivery_outcome C x po stamp evs = Inr (r, evs') \<Longrightarrow> adds stamp evs evs'"
  by (auto simp: record_delivery_outcome_def Let_def adds_def split: option.splits if_splits dest!: bind_Inr ev_append_Inr)

lemma good_step: "governed C evs' \<Longrightarrow> adds stamp evs evs' \<Longrightarrow> chain_good C evs \<Longrightarrow> ec_redact C (snd stamp) = snd stamp \<Longrightarrow> chain_good C evs'"
  by (auto simp: adds_def chain_good_def)

text \<open>What a chain that only grows keeps: everything before a point of a run.\<close>

definition grown_from :: "fspec \<Rightarrow> fevent list \<Rightarrow> lstate \<Rightarrow> bool" where
  "grown_from S pre s \<longleftrightarrow> chain_good (sp_ctx S) (ls_evs s) \<and> prefix pre (ls_evs s)"

lemma grown_step: "grown_from S pre s \<Longrightarrow> governed (sp_ctx S) evs' \<Longrightarrow> adds stamp (ls_evs s) evs' \<Longrightarrow>
    ec_redact (sp_ctx S) (snd stamp) = snd stamp \<Longrightarrow> grown_from S pre (s\<lparr>ls_evs := evs'\<rparr>)"
  unfolding grown_from_def using good_step [of "sp_ctx S" evs' stamp "ls_evs s"] by (auto simp: adds_def)

lemma fair_law:
  assumes "fair_world S"
  shows "item_law S (grown_from S pre) (\<lambda>x. ec_redact (sp_ctx S) x = x)"
proof -
  have o: "\<And>n evs. chain_good (sp_ctx S) evs \<Longrightarrow> chain_good (sp_ctx S) (sp_others S n evs) \<and> prefix evs (sp_others S n evs)"
    and st: "\<And>n. ec_redact (sp_ctx S) (snd (sp_stamp S n)) = snd (sp_stamp S n)"
    and b: "\<And>n rq b. sp_build S n rq = Inr b \<Longrightarrow> ec_redact (sp_ctx S) (bd_pack_hash b) = bd_pack_hash b"
    using assms unfolding fair_world_def by blast+
  have g: "governed (sp_ctx S) (ls_evs s)" if "grown_from S pre s" for s using that by (simp add: grown_from_def chain_good_def)
  show ?thesis
  proof (unfold_locales, goal_cases)
    case (1 s)
    then show ?case by (simp add: grown_from_def ticked_def)
  next
    case (2 s q)
    then show ?case by (simp add: grown_from_def)
  next
    case (3 s n)
    then show ?case using o by (auto simp: grown_from_def intro: prefix_order.order_trans)
  next
    case (4 s kind n x p e evs)
    show ?case by (rule grown_step [OF 4(1) governed.plain_step [OF g [OF 4(1)] 4(2,3)] adds_append [OF 4(3)] st])
  next
    case (5 s gr n x run c evs)
    show ?case by (rule grown_step [OF 5(1) governed.claimed [OF g [OF 5(1)] 5(3,2)] adds_claim [OF 5(3)] st])
  next
    case (6 s p n e evs)
    show ?case by (rule grown_step [OF 6(1) governed.verdict [OF g [OF 6(1)] 6(3,2)] adds_verdict [OF 6(3)] st])
  next
    case (7 s gr n x editor why e evs)
    show ?case by (rule grown_step [OF 7(1) governed.edit [OF g [OF 7(1)] 7(3,2)] adds_edit [OF 7(3)] st])
  next
    case (8 s n x po r evs)
    show ?case by (rule grown_step [OF 8(1) governed.outcome [OF g [OF 8(1)] 8(2)] adds_outcome [OF 8(2)] st])
  next
    case (9 s e)
    then show ?case by (simp add: grown_from_def chain_good_def list_all_iff)
  next
    case (10 n rq bb)
    then show ?case by (rule b)
  qed (simp_all add: grown_from_def)
qed


lemma fair_world_law: "fair_world S \<Longrightarrow> world_law S (grown_from S pre) (\<lambda>x. ec_redact (sp_ctx S) x = x)"
  by (rule closing_law.axioms(1) [OF round_law.axioms(1) [OF item_law.axioms(1) [OF fair_law]]])

lemma grown_run:
  assumes "fair_world S" "world_law.safe (grown_from S pre) m P" "grown_from S pre s" "m s = (res, s')"
  shows "grown_from S pre s' \<and> (\<forall>x. res = Inr x \<longrightarrow> P x) \<and> (\<forall>st. res = Inl (Stopped st) \<longrightarrow> st \<in> set STATUSES)"
  by (rule world_law.safe_result [OF fair_world_law [OF assms(1)] assms(2-4)])

lemma grown_start: "chain_good (sp_ctx S) (ls_evs s) \<Longrightarrow> grown_from S (ls_evs s) s"
  by (simp add: grown_from_def)

lemma grown_fresh: "grown_from S pre s \<Longrightarrow> grown_from S pre (fresh_locals s)"
  by (simp add: grown_from_def fresh_locals_def)

lemma run_item_chain:
  assumes "fair_world S" "grown_from S pre s" "run_item S i authored s = (res, s')"
  shows "grown_from S pre s' \<and> (\<forall>io. res = Inr io \<longrightarrow> io_status io \<in> set STATUSES)"
  using grown_run [OF assms(1) item_law.safe_run_item [OF fair_law [OF assms(1)] grown_fresh] assms(2,3)] by blast

subsection \<open>The outcome is always on the chain\<close>

lemma grown_row: "grown C evs \<Longrightarrow> (\<And>b. ec_hash C b \<noteq> []) \<Longrightarrow> evs \<noteq> [] \<Longrightarrow> fe_row_hash (last evs) \<noteq> []"
  by (induction rule: grown.induct) (simp_all add: fe_chained_def fe_compute_hash_def Let_def)

lemma append_succeeds:
  assumes "governed C evs" "\<And>b. ec_hash C b \<noteq> []" "kind \<in> set EVENT_KINDS"
  shows "\<exists>c. ev_append C kind x p stamp evs = Inr (c, evs @ [c])"
  using grown_row [OF governed_grown [OF assms(1)] assms(2)] assms(3)
  by (cases "evs = []") (auto simp: ev_append_def FactoryEvent_def store_append_def fe_last_hash_def Let_def)

lemma close_item_ends:
  assumes f: "fair_world S" and h: "\<And>b. ec_hash (sp_ctx S) b \<noteq> []" and g: "grown_from S pre s"
    and st: "st \<in> set STATUSES" and c: "close_item S i st s = (res, s')"
  shows "\<exists>io evs e. res = Inr io \<and> io_status io = st \<and> io_item_id io = bi_id i \<and> ls_evs s' = evs @ [e] \<and>
    fe_kind e = EV_ITEM_OUTCOME \<and> fe_item_id e = bi_id i \<and> pstr (fe_payload e) ''status'' = ec_redact (sp_ctx S) st"
proof -
  let ?io = "outcome_of i st s" let ?n = "ls_tick s" let ?evs = "sp_others S ?n (ls_evs s)"
  let ?p = "item_outcome_payload ?io (ls_entry s)"
  have o: "ItemOutcome ?io = Inr ?io" using st by (simp add: ItemOutcome_def outcome_of_def)
  have "governed (sp_ctx S) ?evs" using f g unfolding fair_world_def grown_from_def chain_good_def by blast
  then
  obtain e where e: "ev_append (sp_ctx S) EV_ITEM_OUTCOME (bi_id i) ?p (sp_stamp S ?n) ?evs = Inr (e, ?evs @ [e])"
    using append_succeeds [of "sp_ctx S" ?evs EV_ITEM_OUTCOME "bi_id i" ?p "sp_stamp S ?n"] h by (auto simp: EVENT_KINDS_def)
  have "res = Inr ?io" "ls_evs s' = ?evs @ [e]"
    using c o e unfolding close_item_def record_ev_def record_item_outcome_def
    by (auto simp: andThen_def lift_result_def ret_def on_chain_def Let_def ticked_def)
  moreover have "pstr (fe_payload e) ''status'' = ec_redact (sp_ctx S) st"
    using ev_append_Inr [OF e] by (simp add: pstr_def item_outcome_payload_def outcome_of_def)
  ultimately show ?thesis using ev_append_Inr [OF e] by (auto simp: outcome_of_def)
qed

lemma run_item_ends:
  assumes f: "fair_world S" and h: "\<And>b. ec_hash (sp_ctx S) b \<noteq> []" and g: "grown_from S pre s"
    and run: "run_item S i authored s = (res, s')"
  shows "res = Inl (Raised SandboxUnavailable) \<or>
    (\<exists>io evs e. res = Inr io \<and> io_status io \<in> set STATUSES \<and> io_item_id io = bi_id i \<and> ls_evs s' = evs @ [e] \<and>
      fe_kind e = EV_ITEM_OUTCOME \<and> fe_item_id e = bi_id i \<and> pstr (fe_payload e) ''status'' = ec_redact (sp_ctx S) (io_status io))"
proof -
  obtain body s1 where b: "item_body S i authored (fresh_locals s) = (body, s1)" by (cases "item_body S i authored (fresh_locals s)")
  note r = grown_run [OF f item_law.safe_body [OF fair_law [OF f]] grown_fresh [OF g] b]
  show ?thesis
  proof (cases "body = Inl (Raised SandboxUnavailable)")
    case True
    then show ?thesis using run b by (simp add: run_item_def)
  next
    case False
    then obtain st where st: "st \<in> set STATUSES" and c: "close_item S i st s1 = (res, s')"
      using run b r kept.status_members(18) by (cases body) (auto simp: run_item_def split: stopx.splits if_splits)
    from close_item_ends [OF f h _ st c] r st show ?thesis by blast
  qed
qed


text \<open>
  C21. A run of a whole backlog keeps the evidence chain whole: what was on it before stays its beginning, and the chain
  verifies event by event, whatever other processes appended meanwhile and however the run ended.
\<close>

theorem backlog_run_keeps_chain:
  assumes "fair_world S" "\<And>b. ec_hash (sp_ctx S) b \<noteq> []" "chain_good (sp_ctx S) (ls_evs s)"
    "run_backlog S D b tests h = Some m" "m s = (res, s')"
  shows "prefix (ls_evs s) (ls_evs s') \<and> verify_events (ec_hash (sp_ctx S)) (ls_evs s') = Inr (length (ls_evs s'))"
proof -
  have g: "grown_from S (ls_evs s) s'"
    using grown_run [OF assms(1) item_law.keeps_backlog [OF fair_law [OF assms(1)] grown_fresh assms(4)] grown_start [OF assms(3)] assms(5)]
    by blast
  then have "governed (sp_ctx S) (ls_evs s')" by (simp add: grown_from_def chain_good_def)
  from governed_chain [OF this assms(2)] g show ?thesis by (simp add: grown_from_def verify_events_iff)
qed

text \<open>
  C27. However a run of a backlog ends, every branch it pushed or opened a pull request from is neither protected nor the
  target's default branch, pull requests are opened onto that default branch only, and only numbered ones are commented on or closed.
\<close>

theorem backlog_pushes_no_protected_branch:
  assumes "run_backlog S D b tests h = Some m" "m s = (res, s')"
  shows "\<exists>acts. ls_remote s' = ls_remote s @ acts \<and> list_all (allowed_action (sp_target S)) acts"
proof -
  have "fenced.keeps S (ls_remote s) m"
    by (rule fenced.keeps_backlog [OF _ assms(1)]) (simp add: since_def fresh_locals_def)
  from fenced.safe_result [OF this since_start assms(2)] show ?thesis by (simp add: since_def)
qed

subsection \<open>A calibration build is claimed before it is made\<close>

text \<open>The grant's claim by this run, on the chain after \<open>pre\<close> and at the point \<open>s\<close> of the run.\<close>

definition claimed_by_run :: "fspec \<Rightarrow> string \<Rightarrow> fevent list \<Rightarrow> lstate \<Rightarrow> bool" where
  "claimed_by_run S g pre s \<longleftrightarrow> (\<exists>q k. grown_from S (q @ [k]) s \<and> prefix pre q \<and> fe_kind k = EV_CALIBRATION_CLAIMED \<and>
     pstr (fe_payload k) ''grant'' = g \<and> pstr (fe_payload k) ''run_id'' = ec_redact (sp_ctx S) (sp_run_id S))"

lemma claimed_later:
  assumes "fair_world S" "\<And>q. world_law.safe (grown_from S q) m P" "claimed_by_run S g pre s" "m s = (res, s')"
  shows "claimed_by_run S g pre s'"
  using assms(3) unfolding claimed_by_run_def by (blast dest: grown_run [OF assms(1,2) _ assms(4)])

lemma claim_grant_claims:
  assumes f: "fair_world S" and g: "grown_from S pre s" and c: "en_calibration e = Some c"
    and id: "ec_redact (sp_ctx S) (cb_event_id c) = cb_event_id c" and run: "claim_grant S i e s = (Inr True, s')"
  shows "claimed_by_run S (cb_event_id c) pre s'"
proof -
  let ?n = "ls_tick s" let ?evs = "sp_others S ?n (ls_evs s)"
  have safe: "grown_from S pre s'"
    using grown_run [OF f world_law.keeps_claim [OF fair_world_law [OF f]] g run] c id by simp
  from run c obtain r where r: "claim_calibration (sp_ctx S) (bi_id i) (cb_event_id c) (sp_run_id S) (sp_stamp S ?n) ?evs = Inr (Some r, ls_evs s')"
    by (auto simp: claim_grant_def andThen_Inr on_chain_def Let_def split: sum.splits)
  from append_if_Inr [OF r [unfolded claim_calibration_def]]
  have a: "ev_append (sp_ctx S) EV_CALIBRATION_CLAIMED (bi_id i) [(''grant'', JStr (cb_event_id c)), (''run_id'', JStr (sp_run_id S))]
      (sp_stamp S ?n) ?evs = Inr (r, ls_evs s')" by auto
  note e = ev_append_Inr [OF a]
  have p: "prefix pre ?evs" using f g unfolding fair_world_def grown_from_def by (blast intro: prefix_order.order_trans)
  have "grown_from S (?evs @ [r]) s'" using safe e by (simp add: grown_from_def)
  then show ?thesis using e p id unfolding claimed_by_run_def by (intro exI [of _ ?evs] exI [of _ r]) (simp add: pstr_def)
qed

lemma past_gate_claims:
  assumes f: "fair_world S" and g: "grown_from S pre s" and c: "en_calibration e = Some c"
    and id: "ec_redact (sp_ctx S) (cb_event_id c) = cb_event_id c"
    and run: "past_gate S i r authored ov e s = (Inr (r', ro, e'), s')"
  shows "claimed_by_run S (cb_event_id c) pre s'"
proof -
  note W = fair_world_law [OF f]
  from run obtain s1 s2 where 1: "(if en_override_by e = [] then ret ()
       else record_routed S i (re_route_hint r) [(''override_by'', JStr (en_override_by e)), (''standard'', standard_json (en_standard e))]) s = (Inr (), s1)"
    and 2: "claim_grant S i e s1 = (Inr True, s2)" and 3: "enter_item S i r e s2 = (Inr (r', ro, e'), s')"
    unfolding past_gate_def by (auto simp: andThen_Inr split: if_splits)
  have "grown_from S pre s1"
    using grown_run [OF f world_law.safe_if [OF W world_law.keeps_ret [OF W] world_law.keeps_routed [OF W]] g 1] by blast
  from claim_grant_claims [OF f this c id 2] show ?thesis
    by (rule claimed_later [OF f world_law.keeps_enter [OF fair_world_law [OF f]] _ 3])
qed

lemma assess_claims:
  assumes f: "fair_world S" and g: "grown_from S pre s" and c: "en_calibration e = Some c"
    and run: "assess_item S i authored s = (Inr (r, ro, e), s')"
  shows "claimed_by_run S (cb_event_id c) pre s'"
proof -
  note W = fair_world_law [OF f]
  from run obtain gs s1 s2 s3 ov cal e0 where 1: "ask (sp_signoffs S) s = (Inr gs, s1)"
    and 2: "record_ev S (record_readiness (sp_ctx S) (readiness_payload (assess i (signoffs_for_item (bi_id i) gs)))) s1 = (Inr (), s2)"
    and 3: "honoured_override S i (assess i (signoffs_for_item (bi_id i) gs)) s2 = (Inr ov, s3)"
    and 4: "andThen (waiting_calibration S i) (\<lambda>cal. andThen (lift_result (decide_item S i (assess i (signoffs_for_item (bi_id i) gs)) authored ov cal))
      (\<lambda>e. if \<not> enters e then stop_at_entry S i (assess i (signoffs_for_item (bi_id i) gs)) e
        else past_gate S i (assess i (signoffs_for_item (bi_id i) gs)) authored ov e)) s3 = (Inr (r, ro, e), s')"
    unfolding assess_item_def Let_def andThen_Inr by (auto simp: andThen_Inr split: if_splits)
  from 4 obtain s4 cal e0 where w: "waiting_calibration S i s3 = (Inr cal, s4)"
    and d: "decide_item S i (assess i (signoffs_for_item (bi_id i) gs)) authored ov cal = Inr e0"
    and p: "past_gate S i (assess i (signoffs_for_item (bi_id i) gs)) authored ov e0 s4 = (Inr (r, ro, e), s')"
    by (auto simp: andThen_Inr split: if_splits)
  have "e = e0" using past_gate_Inr [OF p] by simp
  have g1: "grown_from S pre s1" using grown_run [OF f world_law.keeps_ask [OF W] g 1] by blast
  have g2: "grown_from S pre s2" using grown_run [OF f world_law.keeps_record_readiness [OF W] g1 2] by blast
  have g3: "grown_from S pre s3" using grown_run [OF f world_law.keeps_honoured [OF W] g2 3] by blast
  note g4 = grown_run [OF f world_law.safe_waiting [OF W] g3 w]
  have "cal = Some c" using world_law.decide_calibration [OF W d] c \<open>e = e0\<close> by blast
  then have "ec_redact (sp_ctx S) (cb_event_id c) = cb_event_id c" using g4 by blast
  then show ?thesis using past_gate_claims [OF f _ _ _ p] g4 c \<open>e = e0\<close> by blast
qed


lemma work_item_claims:
  assumes f: "fair_world S" and g: "grown_from S pre s" and n: "ls_entry s = no_entry"
    and run: "work_item S i authored s = (res, s')" and c: "en_calibration (ls_entry s') = Some c"
  shows "claimed_by_run S (cb_event_id c) pre s'"
  using run unfolding work_item_def
proof (rule andThen_split)
  fix x assume "assess_item S i authored s = (Inl x, s')"
  from assess_no_requests [OF this] n c show ?thesis by (simp add: work_vars_def no_entry_calibration)
next
  fix x s1 assume a: "assess_item S i authored s = (Inr x, s1)"
    and w: "(case x of (r, ro, e) \<Rightarrow> andThen (local_var (\<lambda>s. s\<lparr>ls_readiness := Some r, ls_entry := e\<rparr>))
      (\<lambda>_. after_entry S i authored r ro e)) s1 = (res, s')"
  obtain r ro e where x: "x = (r, ro, e)" by (cases x)
  let ?s2 = "s1\<lparr>ls_readiness := Some r, ls_entry := e\<rparr>"
  have w: "after_entry S i authored r ro e ?s2 = (res, s')" using w by (simp add: x andThen_def local_var_def)
  have "en_calibration e = Some c" using after_entry_remote [OF w] c by simp
  from assess_claims [OF f g this a [unfolded x]] have c2: "claimed_by_run S (cb_event_id c) pre ?s2"
    by (simp add: claimed_by_run_def grown_from_def)
  have a: "\<And>q. world_law.safe (grown_from S q) (after_entry S i authored r ro e) (\<lambda>_. True)"
    by (rule round_law.keeps_after_entry [OF item_law.axioms(1) [OF fair_law [OF f]]]) simp
  show ?thesis by (rule claimed_later [OF f a c2 w])
qed

lemma run_item_claims:
  assumes f: "fair_world S" and g: "grown_from S pre s" and run: "run_item S i authored s = (res, s')"
    and c: "en_calibration (ls_entry s') = Some c"
  shows "claimed_by_run S (cb_event_id c) pre s'"
proof -
  note L = item_law.axioms(1) [OF fair_law [OF f]] and W = fair_world_law [OF f]
  obtain body s1 where b: "item_body S i authored (fresh_locals s) = (body, s1)" by (cases "item_body S i authored (fresh_locals s)")
  have e: "s' = s1 \<or> (\<exists>st. close_item S i st s1 = (res, s'))"
    using run b by (auto simp: run_item_def split: sum.splits stopx.splits if_splits)
  then have "ls_entry s' = ls_entry s1" using quiet_run [OF quiet.keeps_close] by (auto simp: work_vars_def)
  then have c1: "en_calibration (ls_entry s1) = Some c" using c by simp
  have "claimed_by_run S (cb_event_id c) pre s1"
    using b unfolding item_body_def
  proof (rule andThen_split)
    fix x assume "work_item S i authored (fresh_locals s) = (Inl x, s1)"
    from work_item_claims [OF f grown_fresh [OF g] fresh_frame(3) this c1] show ?thesis .
  next
    fix x s2 assume w: "work_item S i authored (fresh_locals s) = (Inr x, s2)"
      and st: "(case x of (ro, e, open_pr, context_arm, final, v) \<Rightarrow> settle_item S i ro e open_pr context_arm (final, v)) s2 = (body, s1)"
    obtain ro e open_pr context_arm b v where x: "x = (ro, e, open_pr, context_arm, b, v)" by (cases x)
    have st: "settle_item S i ro e open_pr context_arm (b, v) s2 = (body, s1)" using st by (simp add: x)
    then have "en_calibration (ls_entry s2) = Some c" using settle_frame [OF st] c1 by simp
    from work_item_claims [OF f grown_fresh [OF g] fresh_frame(3) w this] show ?thesis
      by (rule claimed_later [OF f item_law.safe_settle [OF fair_law [OF f]] _ st])
  qed
  then show ?thesis using e claimed_later [OF f world_law.keeps_close [OF W]] by blast
qed


text \<open>
  C30. A build funded by a calibration grant never calls the remote, not even to close a pull request.
\<close>

theorem calibration_never_touches_remote:
  assumes "run_item S i authored s = (res, s')" "en_calibration (ls_entry s') = Some c"
  shows "ls_remote s' = ls_remote s"
  by (rule calibration_quiet [OF assms])

text \<open>
  C14. A run that spends a calibration grant has claimed it on the chain, under its own run id, and it is the one claim of
  that grant there: however many runs raced for it, one built.
\<close>

theorem calibration_claimed_by_its_run:
  assumes "fair_world S" "chain_good (sp_ctx S) (ls_evs s)" "run_item S i authored s = (res, s')"
    "en_calibration (ls_entry s') = Some c" "cb_event_id c \<noteq> []"
  shows "\<exists>pre k post. ls_evs s' = pre @ k # post \<and> prefix (ls_evs s) pre \<and> fe_kind k = EV_CALIBRATION_CLAIMED \<and>
    pstr (fe_payload k) ''run_id'' = ec_redact (sp_ctx S) (sp_run_id S) \<and>
    filter (\<lambda>e. fe_kind e = EV_CALIBRATION_CLAIMED \<and> pstr (fe_payload e) ''grant'' = cb_event_id c) (ls_evs s') = [k]"
proof -
  let ?P = "\<lambda>e. fe_kind e = EV_CALIBRATION_CLAIMED \<and> pstr (fe_payload e) ''grant'' = cb_event_id c"
  from run_item_claims [OF assms(1) grown_start [OF assms(2)] assms(3,4)] obtain q k where
    g: "grown_from S (q @ [k]) s'" and k: "prefix (ls_evs s) q" "?P k" "pstr (fe_payload k) ''run_id'' = ec_redact (sp_ctx S) (sp_run_id S)"
    unfolding claimed_by_run_def by blast
  then obtain post where evs: "ls_evs s' = q @ k # post" and gov: "governed (sp_ctx S) (ls_evs s')"
    unfolding grown_from_def chain_good_def prefix_def by auto
  have "length (filter ?P (ls_evs s')) \<le> 1" by (rule claims_once [OF gov assms(5)])
  then have "filter ?P (ls_evs s') = [k]" using k(2) unfolding evs by (auto simp: le_Suc_eq filter_empty_conv)
  then show ?thesis using k evs by (intro exI [of _ q] exI [of _ k] exI [of _ post]) simp
qed


subsection \<open>A backlog in dependency order\<close>

definition backlog_inv :: "dict \<Rightarrow> string set \<Rightarrow> backlog_item list \<Rightarrow> outcomes \<Rightarrow> bool" where
  "backlog_inv latest active done outs \<longleftrightarrow> distinct (map fst outs) \<and> fst ` set outs = bi_id ` set done \<and>
     (\<forall>i\<in>set done. \<exists>io. map_of outs (bi_id i) = Some io \<and> io_item_id io = bi_id i \<and>
        (io_status io \<noteq> STATUS_BLOCKED \<longrightarrow> (\<forall>d\<in>set (bi_depends_on i). dget latest d d \<in> active \<longrightarrow>
           (\<exists>io'. map_of outs (dget latest d d) = Some io' \<and> io_accepted io'))))"

lemma backlog_inv_key: "backlog_inv latest active done outs \<Longrightarrow> map_of outs k = Some io \<Longrightarrow> \<exists>j\<in>set done. k = bi_id j"
proof -
  assume inv: "backlog_inv latest active done outs" and "map_of outs k = Some io"
  then have "k \<in> fst ` set outs" by (metis map_of_SomeD fst_conv image_eqI)
  moreover have "fst ` set outs = bi_id ` set done" using inv by (simp only: backlog_inv_def)
  ultimately show ?thesis by blast
qed

lemma backlog_inv_entry: "backlog_inv latest active done outs \<Longrightarrow> j \<in> set done \<Longrightarrow> map_of outs (bi_id j) = Some io \<Longrightarrow>
    io_item_id io = bi_id j \<and> (io_status io \<noteq> STATUS_BLOCKED \<longrightarrow> (\<forall>d\<in>set (bi_depends_on j). dget latest d d \<in> active \<longrightarrow>
      (\<exists>io'. map_of outs (dget latest d d) = Some io' \<and> io_accepted io')))"
proof -
  assume inv: "backlog_inv latest active done outs" and j: "j \<in> set done" and io: "map_of outs (bi_id j) = Some io"
  from inv j obtain io1 where "map_of outs (bi_id j) = Some io1" "io_item_id io1 = bi_id j \<and>
      (io_status io1 \<noteq> STATUS_BLOCKED \<longrightarrow> (\<forall>d\<in>set (bi_depends_on j). dget latest d d \<in> active \<longrightarrow>
        (\<exists>io'. map_of outs (dget latest d d) = Some io' \<and> io_accepted io')))"
    unfolding backlog_inv_def by blast
  moreover then have "io1 = io" using io by simp
  ultimately show ?thesis by simp
qed

lemma run_item_id: "run_item S i authored s = (Inr io, s') \<Longrightarrow> io_item_id io = bi_id i"
  unfolding run_item_def close_item_def
  by (auto simp: andThen_Inr ItemOutcome_def outcome_of_def split: prod.splits sum.splits stopx.splits if_splits)

lemma blocked_item_Inr: "blocked_item S i deps s = (Inr io, s') \<Longrightarrow> io_item_id io = bi_id i \<and> io_status io = STATUS_BLOCKED"
  by (auto simp: blocked_item_def andThen_Inr ItemOutcome_def blocked_outcome_def)

lemma no_unmet: "unmet latest i outs = [] \<Longrightarrow> d \<in> set (bi_depends_on i) \<Longrightarrow> map_of outs (dget latest d d) = Some io \<Longrightarrow> io_accepted io"
  by (auto simp: unmet_def filter_empty_conv)

lemma map_of_update: "map_of (AList.update k v al) = (map_of al)(k \<mapsto> v)"
  by (rule update_conv')

lemma backlog_inv_step:
  assumes inv: "backlog_inv latest active done outs" and new: "bi_id i \<notin> bi_id ` set done" and id: "io_item_id io = bi_id i"
    and deps: "\<forall>d\<in>set (bi_depends_on i). dget latest d d \<in> active \<longrightarrow> dget latest d d \<in> bi_id ` set done"
    and met: "io_status io \<noteq> STATUS_BLOCKED \<Longrightarrow> unmet latest i outs = []"
  shows "backlog_inv latest active (done @ [i]) (AList.update (bi_id i) io outs)"
proof -
  let ?outs = "AList.update (bi_id i) io outs"
  have other: "map_of ?outs k = map_of outs k" if "k \<in> bi_id ` set done" for k
  proof -
    have "k \<noteq> bi_id i" using that new by metis
    then show ?thesis by (simp add: map_of_update)
  qed
  have dom: "fst ` set ?outs = bi_id ` set (done @ [i])"
    using inv by (simp add: backlog_inv_def dom_map_of_conv_image_fst [symmetric] map_of_update)
  have old: "\<exists>ioj. map_of ?outs (bi_id j) = Some ioj \<and> io_item_id ioj = bi_id j \<and>
        (io_status ioj \<noteq> STATUS_BLOCKED \<longrightarrow> (\<forall>d\<in>set (bi_depends_on j). dget latest d d \<in> active \<longrightarrow>
           (\<exists>io'. map_of ?outs (dget latest d d) = Some io' \<and> io_accepted io')))" if j: "j \<in> set done" for j
  proof -
    have "\<exists>io'. map_of ?outs k = Some io' \<and> io_accepted io'" if "map_of outs k = Some io'" "io_accepted io'" for k io'
    proof -
      have "k \<in> fst ` set outs" using map_of_SomeD [OF that(1)] by force
      then have "k \<in> bi_id ` set done" using inv by (simp add: backlog_inv_def)
      then show ?thesis using other that by auto
    qed
    then show ?thesis using inv j other [of "bi_id j"] unfolding backlog_inv_def by (metis image_eqI)
  qed
  have now: "map_of ?outs (bi_id i) = Some io \<and> io_item_id io = bi_id i \<and>
        (io_status io \<noteq> STATUS_BLOCKED \<longrightarrow> (\<forall>d\<in>set (bi_depends_on i). dget latest d d \<in> active \<longrightarrow>
           (\<exists>io'. map_of ?outs (dget latest d d) = Some io' \<and> io_accepted io')))"
  proof (intro conjI impI ballI)
    fix d assume d: "io_status io \<noteq> STATUS_BLOCKED" "d \<in> set (bi_depends_on i)" "dget latest d d \<in> active"
    then have k: "dget latest d d \<in> bi_id ` set done" using deps by blast
    then obtain j where j: "j \<in> set done" "dget latest d d = bi_id j" by blast
    obtain io' where io': "map_of outs (dget latest d d) = Some io'" using inv j unfolding backlog_inv_def j(2) by blast
    show "\<exists>io'. map_of ?outs (dget latest d d) = Some io' \<and> io_accepted io'"
      using no_unmet [OF met [OF d(1)] d(2) io'] other [OF k] io' by auto
  qed (simp_all add: map_of_update id)
  have "distinct (map fst ?outs)" using inv by (simp add: backlog_inv_def distinct_update)
  then show ?thesis using dom old now unfolding backlog_inv_def by auto
qed

lemma work_through_Cons: "work_through S latest tests (i # is) outs s =
    (if sp_stop S (ls_tick s) then (Inr outs, ticked s)
     else andThen (if unmet latest i outs \<noteq> [] then blocked_item S i (unmet latest i outs) else run_item S i (map_of tests (bi_id i)))
       (\<lambda>io. work_through S latest tests is (AList.update (bi_id i) io outs)) (ticked s))"
  by (simp add: ask_def andThen_def tries_def lift_result_def ret_def)

lemma work_through_inv:
  "work_through S latest tests is outs s = (Inr outs', s') \<Longrightarrow> backlog_inv latest active done outs \<Longrightarrow>
    distinct (map bi_id (done @ is)) \<Longrightarrow>
    (\<And>ys i zs d. is = ys @ i # zs \<Longrightarrow> d \<in> set (bi_depends_on i) \<Longrightarrow> dget latest d d \<in> active \<Longrightarrow>
       dget latest d d \<in> bi_id ` set (done @ ys)) \<Longrightarrow>
    \<exists>done'. backlog_inv latest active done' outs' \<and> prefix done' (done @ is)"
proof (induction "is" arbitrary: outs s "done")
  case Nil
  then show ?case by auto
next
  case (Cons i "is")
  let ?m = "if unmet latest i outs \<noteq> [] then blocked_item S i (unmet latest i outs) else run_item S i (map_of tests (bi_id i))"
  show ?case
  proof (cases "sp_stop S (ls_tick s)")
    case True
    then have "outs' = outs" using Cons.prems(1) unfolding work_through_Cons by simp
    then show ?thesis using Cons.prems(2) by (intro exI [of _ "done"]) simp
  next
    case False
    then have "andThen ?m (\<lambda>io. work_through S latest tests is (AList.update (bi_id i) io outs)) (ticked s) = (Inr outs', s')"
      using Cons.prems(1) unfolding work_through_Cons by simp
    then obtain io s2 where go: "?m (ticked s) = (Inr io, s2)"
        "work_through S latest tests is (AList.update (bi_id i) io outs) s2 = (Inr outs', s')"
      unfolding andThen_Inr by blast
    have io: "io_item_id io = bi_id i" "io_status io \<noteq> STATUS_BLOCKED \<Longrightarrow> unmet latest i outs = []"
      using go(1) by (auto split: if_splits dest: run_item_id blocked_item_Inr)
    have new: "bi_id i \<notin> bi_id ` set done" using Cons.prems(3) by auto
    have "\<forall>d\<in>set (bi_depends_on i). dget latest d d \<in> active \<longrightarrow> dget latest d d \<in> bi_id ` set done"
      using Cons.prems(4) [of "[]" i "is"] by simp
    then have "backlog_inv latest active (done @ [i]) (AList.update (bi_id i) io outs)"
      by (rule backlog_inv_step [OF Cons.prems(2) new io(1) _ io(2)])
    then have "\<exists>done'. backlog_inv latest active done' outs' \<and> prefix done' ((done @ [i]) @ is)"
    proof (rule Cons.IH [OF go(2)])
      show "distinct (map bi_id ((done @ [i]) @ is))" using Cons.prems(3) by simp
      fix ys j zs d assume "is = ys @ j # zs" "d \<in> set (bi_depends_on j)" "dget latest d d \<in> active"
      then show "dget latest d d \<in> bi_id ` set ((done @ [i]) @ ys)" using Cons.prems(4) [of "i # ys" j zs d] by simp
    qed
    then show ?thesis by simp
  qed
qed


lemma run_backlog_Inr:
  assumes "run_backlog S D b tests h = Some m" "m s = (Inr ios, s')"
  shows "\<exists>latest xs s1 outs. latest_ids b = Some latest \<and> ordered b = Some (Inr xs) \<and>
    work_through S latest tests xs [] s1 = (Inr outs, s') \<and> ios = map snd outs"
  using assms unfolding run_backlog_def by (auto simp: andThen_Inr split: if_splits option.splits) blast

lemma backlog_deps_met:
  assumes b: "built D b" and m: "run_backlog S D b tests h = Some m" "m s = (Inr ios, s')"
    and i: "i \<in> set (active_items b)" "io \<in> set ios" "io_item_id io = bi_id i" "io_status io \<noteq> STATUS_BLOCKED"
    and d: "d \<in> set (bi_depends_on i)" "resolve_id b d = Some w" "w \<in> bi_id ` set (active_items b)"
  shows "\<exists>io'\<in>set ios. io_item_id io' = w \<and> io_status io' = STATUS_ACCEPTED"
proof -
  let ?A = "bi_id ` set (active_items b)"
  from run_backlog_Inr [OF m] obtain latest xs s1 outs where l: "latest_ids b = Some latest" and o: "ordered b = Some (Inr xs)"
    and wt: "work_through S latest tests xs [] s1 = (Inr outs, s')" and ios: "ios = map snd outs" by blast
  have dd: "distinct (map bi_id (all_items b))" using built_inv [OF b] by blast
  note x = ordered_result [OF dd l o]
  have before: "dget latest e e \<in> bi_id ` set ([] @ ys)" if "xs = ys @ j # zs" "e \<in> set (bi_depends_on j)" "dget latest e e \<in> ?A" for ys j zs e
  proof -
    have "dget latest e e \<in> set (active_deps (active_by_id b) latest j)"
      using that(2,3) active_by_id_None [OF dd, of "dget latest e e"] by (auto simp: active_deps_def)
    moreover have "deps_first (active_deps (active_by_id b) latest) xs" using x by blast
    then have "set (active_deps (active_by_id b) latest j) \<subseteq> bi_id ` set ys" using that(1) unfolding deps_first_def by blast
    ultimately show ?thesis by auto
  qed
  have inv0: "backlog_inv latest ?A [] []" by (simp add: backlog_inv_def)
  have dx: "distinct (map bi_id ([] @ xs))" using x by simp
  have "\<exists>ds. backlog_inv latest ?A ds outs \<and> prefix ds ([] @ xs)" by (rule work_through_inv [OF wt inv0 dx]) (rule before)
  then obtain ds where inv: "backlog_inv latest ?A ds outs" and p: "prefix ds xs" by auto
  obtain k where k: "(k, io) \<in> set outs" using i(2) ios by auto
  have oj: "map_of outs k = Some io" using inv k by (simp add: backlog_inv_def map_of_is_SomeI)
  obtain j where j: "j \<in> set ds" "k = bi_id j" using backlog_inv_key [OF inv oj] by blast
  note e = backlog_inv_entry [OF inv j(1) oj [unfolded j(2)]]
  have "j \<in> set (active_items b)" using j(1) p x set_mono_prefix by blast
  moreover have "bi_id j = bi_id i" using e i(3) by simp
  ultimately have "j = i" using active_distinct [OF dd] i(1) unfolding distinct_map by (blast dest: inj_onD)
  have w: "dget latest d d = w" using d(2) l by (simp add: resolve_id_def)
  have "d \<in> set (bi_depends_on j)" "dget latest d d \<in> ?A" using d(1,3) w \<open>j = i\<close> by simp_all
  then have "\<exists>io'. map_of outs (dget latest d d) = Some io' \<and> io_accepted io'" using mp [OF conjunct2 [OF e] i(4)] by blast
  then obtain io' where io': "map_of outs w = Some io'" "io_accepted io'" unfolding w by blast
  obtain i' where i': "i' \<in> set ds" "w = bi_id i'" using backlog_inv_key [OF inv io'(1)] by blast
  have "io_item_id io' = w" using backlog_inv_entry [OF inv i'(1) io'(1) [unfolded i'(2)]] i'(2) by simp
  moreover have "io' \<in> set ios" unfolding ios set_map by (rule image_eqI [OF _ map_of_SomeD [OF io'(1)]]) simp
  ultimately show ?thesis using io'(2) unfolding io_accepted_def by blast
qed

text \<open>
  Whatever happens in a run of a backlog the interface built, an item that is worked at all, and not recorded as
  blocked, has every active item its dependencies resolve to accepted in the same run.
\<close>

theorem dependencies_accepted_first:
  assumes "built D b" "run_backlog S D b tests h = Some m" "m s = (Inr ios, s')"
    and "i \<in> set (active_items b)" "io \<in> set ios" "io_item_id io = bi_id i" "io_status io \<noteq> STATUS_BLOCKED"
    and "d \<in> set (bi_depends_on i)" "resolve_id b d = Some w" "w \<in> bi_id ` set (active_items b)"
  shows "\<exists>io'\<in>set ios. io_item_id io' = w \<and> io_status io' = STATUS_ACCEPTED"
  by (rule backlog_deps_met [OF assms])

subsection \<open>Witnesses\<close>

text \<open>\<open>b\<close>, of a class no one catalogued, depends on \<open>a\<close>, which is accepted; then \<open>b\<close> is routed to a person.\<close>

definition demo_b :: backlog_item where
  "demo_b = demo_item ''b'' [''a''] []"

definition demo_registered2 :: backlog where
  "demo_registered2 = \<lparr>bl_items = [demo_b, demo_ready], bl_repo = [], bl_frozen_at = [],
     bl_backlog_hash = [], bl_evolutions = [], bl_evolutions_hash = []\<rparr>"

definition demo_backlog :: backlog where
  "demo_backlog = demo_registered2\<lparr>bl_frozen_at := ''t'', bl_backlog_hash := ''hba''\<rparr>"

lemma demo_backlog_built: "built demo_digests demo_backlog"
proof -
  have 1: "Backlog demo_registered2 = Inr demo_registered2" "bl_evolutions demo_registered2 = []"
    "bl_backlog_hash demo_registered2 = []" "bl_evolutions_hash demo_registered2 = []" by code_simp+
  have "freeze demo_digests ''t'' demo_registered2 = Inr demo_backlog" by code_simp
  from built.frozen [OF built.registered [OF 1] this] show ?thesis .
qed

definition demo_backlog_run :: "item_outcome list act" where
  "demo_backlog_run = andThen (freeze_on_chain demo_spec demo_backlog) (\<lambda>_. andThen (lift_result (Inr [demo_ready, demo_b])) (\<lambda>items.
     andThen (work_through demo_spec [] [(''a'', demo_test)] items []) (\<lambda>outs. ret (map snd outs))))"

lemma demo_backlog_runs: "run_backlog demo_spec demo_digests demo_backlog [(''a'', demo_test)] [] = Some demo_backlog_run"
proof -
  have "latest_ids demo_backlog = Some []" "ordered demo_backlog = Some (Inr [demo_ready, demo_b])"
    "verify_backlog demo_digests [] demo_backlog" by code_simp+
  then show ?thesis by (simp add: run_backlog_def demo_backlog_run_def)
qed

lemma demo_backlog_outcomes:
  "map_prod (map_sum (\<lambda>e. e) (map (\<lambda>io. (io_item_id io, io_status io)))) ls_remote (demo_backlog_run demo_start) =
    (Inr [(''a'', STATUS_ACCEPTED), (''b'', STATUS_ROUTED_HUMAN)],
     [Push ''https://h/o/r.git'' ''crb/a-t'' None, OpenPR ''https://h/o/r.git'' ''crb/a-t'' ''main''])"
  by code_simp

lemma demo_resolve: "resolve_id demo_backlog ''a'' = Some ''a''"
  by code_simp

lemma dependencies_accepted_first_witness:
  "\<exists>ios s'. demo_backlog_run demo_start = (Inr ios, s') \<and> map io_item_id ios = [''a'', ''b''] \<and>
    (\<exists>io'\<in>set ios. io_item_id io' = ''a'' \<and> io_status io' = STATUS_ACCEPTED)"
proof -
  obtain res s' where r: "demo_backlog_run demo_start = (res, s')" by (cases "demo_backlog_run demo_start")
  then obtain ios where ios: "res = Inr ios" "map (\<lambda>io. (io_item_id io, io_status io)) ios = [(''a'', STATUS_ACCEPTED), (''b'', STATUS_ROUTED_HUMAN)]"
    using demo_backlog_outcomes by (cases res) auto
  then obtain a io where l: "ios = [a, io]" "io_item_id a = ''a''" "io_item_id io = bi_id demo_b" "io_status io = STATUS_ROUTED_HUMAN"
    by (auto simp: map_eq_Cons_conv demo_b_def demo_item_def)
  have "io_status io \<noteq> STATUS_BLOCKED" by (simp add: l status_words)
  moreover have "demo_b \<in> set (active_items demo_backlog)" "''a'' \<in> set (bi_depends_on demo_b)"
    "''a'' \<in> bi_id ` set (active_items demo_backlog)" "io \<in> set ios"
    by (simp_all add: l) code_simp+
  ultimately show ?thesis
    using dependencies_accepted_first [OF demo_backlog_built demo_backlog_runs r [unfolded ios(1)] _ _ l(3) _ _ demo_resolve] r ios(1) l
    by (auto simp: demo_b_def demo_item_def)
qed


lemma demo_ctx_plain: "ec_redact demo_ctx x = x" "ec_hash demo_ctx e \<noteq> []"
  by (simp_all add: demo_ctx_def)

lemma demo_fair: "fair_world demo_spec" "sp_ctx demo_spec = demo_ctx"
  by (simp_all add: fair_world_def demo_spec_def demo_ctx_plain)

lemma empty_good: "chain_good C []"
  by (simp add: chain_good_def governed.empty)


lemma backlog_run_keeps_chain_witness:
  "\<exists>ios s'. demo_backlog_run demo_start = (Inr ios, s') \<and> map io_item_id ios = [''a'', ''b''] \<and>
    verify_events (ec_hash demo_ctx) (ls_evs s') = Inr (length (ls_evs s'))"
proof -
  obtain res s' where r: "demo_backlog_run demo_start = (res, s')" by (cases "demo_backlog_run demo_start")
  then obtain ios where ios: "res = Inr ios" "map (\<lambda>io. (io_item_id io, io_status io)) ios = [(''a'', STATUS_ACCEPTED), (''b'', STATUS_ROUTED_HUMAN)]"
    using demo_backlog_outcomes by (cases res) auto
  then have "map io_item_id ios = [''a'', ''b'']" by (auto simp: map_eq_Cons_conv)
  moreover have "chain_good (sp_ctx demo_spec) (ls_evs demo_start)" by (simp add: demo_start_def empty_good)
  ultimately show ?thesis using backlog_run_keeps_chain [OF demo_fair(1) _ _ demo_backlog_runs r] r ios(1)
    by (simp add: demo_fair(2) demo_ctx_plain)
qed

lemma backlog_pushes_no_protected_branch_witness:
  "\<exists>res s'. demo_backlog_run demo_start = (res, s') \<and>
    ls_remote s' = [Push ''https://h/o/r.git'' ''crb/a-t'' None, OpenPR ''https://h/o/r.git'' ''crb/a-t'' ''main''] \<and>
    list_all (allowed_action ''main'') (ls_remote s')"
proof -
  obtain res s' where r: "demo_backlog_run demo_start = (res, s')" by (cases "demo_backlog_run demo_start")
  have a: "ls_remote s' = [Push ''https://h/o/r.git'' ''crb/a-t'' None, OpenPR ''https://h/o/r.git'' ''crb/a-t'' ''main'']"
    using demo_backlog_outcomes r by simp
  have "ls_remote demo_start = []" "sp_target demo_spec = ''main''" by (simp_all add: demo_start_def demo_spec_def)
  then show ?thesis using backlog_pushes_no_protected_branch [OF demo_backlog_runs r] a r by auto
qed

text \<open>A calibration: no reading proves the cell, and a grant waits on the chain.\<close>

definition demo_calibration :: fspec where
  "demo_calibration = demo_spec\<lparr>sp_readers := NO_READINGS\<rparr>"

definition demo_funded :: lstate where
  "demo_funded = demo_start\<lparr>ls_evs := [demo_grant]\<rparr>"


lemma demo_calibration_run:
  "(case run_item demo_calibration demo_ready (Some demo_test) demo_funded of (res, s) \<Rightarrow>
     (map_sum (\<lambda>e. e) io_status res, en_calibration (ls_entry s), length (ls_requests s))) =
   (Inr STOP_CALIBRATION_BUILD, Some \<lparr>cb_approver = ''ann'', cb_reason = ''try'', cb_event_id = ''g''\<rparr>, 1)"
  by code_simp

lemma demo_funded_good: "chain_good demo_ctx [demo_grant]"
proof -
  have "record_calibration demo_ctx ''a'' ''ann'' ''try'' [] (''t'', ''g'') [] = Inr (Some demo_grant, [demo_grant])" by code_simp
  from governed.funded [OF governed.empty this] show ?thesis by (simp add: chain_good_def demo_ctx_plain)
qed

lemma demo_calibration_fair: "fair_world demo_calibration" "sp_ctx demo_calibration = demo_ctx"
  by (simp_all add: demo_calibration_def fair_world_def demo_spec_def demo_ctx_plain)

lemma calibration_never_touches_remote_witness:
  "\<exists>res s'. run_item demo_calibration demo_ready (Some demo_test) demo_funded = (res, s') \<and> length (ls_requests s') = 1 \<and> ls_remote s' = []"
proof -
  obtain res s' where r: "run_item demo_calibration demo_ready (Some demo_test) demo_funded = (res, s')"
    by (cases "run_item demo_calibration demo_ready (Some demo_test) demo_funded")
  have c: "en_calibration (ls_entry s') = Some \<lparr>cb_approver = ''ann'', cb_reason = ''try'', cb_event_id = ''g''\<rparr>" "length (ls_requests s') = 1"
    using demo_calibration_run unfolding r by simp_all
  from calibration_never_touches_remote [OF r c(1)] r c(2) show ?thesis by (simp add: demo_funded_def demo_start_def)
qed

lemma calibration_claimed_by_its_run_witness:
  "\<exists>res s' k. run_item demo_calibration demo_ready (Some demo_test) demo_funded = (res, s') \<and>
    filter (\<lambda>e. fe_kind e = EV_CALIBRATION_CLAIMED \<and> pstr (fe_payload e) ''grant'' = ''g'') (ls_evs s') = [k] \<and>
    pstr (fe_payload k) ''run_id'' = ''run''"
proof -
  obtain res s' where r: "run_item demo_calibration demo_ready (Some demo_test) demo_funded = (res, s')"
    by (cases "run_item demo_calibration demo_ready (Some demo_test) demo_funded")
  have c: "en_calibration (ls_entry s') = Some \<lparr>cb_approver = ''ann'', cb_reason = ''try'', cb_event_id = ''g''\<rparr>"
    using demo_calibration_run unfolding r by simp
  have g: "chain_good (sp_ctx demo_calibration) (ls_evs demo_funded)"
    using demo_funded_good by (simp add: demo_calibration_fair demo_funded_def)
  have "sp_run_id demo_calibration = ''run''" by (simp add: demo_calibration_def demo_spec_def)
  with calibration_claimed_by_its_run [OF demo_calibration_fair(1) g r c] r show ?thesis
    by (auto simp: demo_calibration_fair(2) demo_ctx_plain)
qed

end
