(* ===== verification/Event_Chain.thy ===== *)
theory Event_Chain
  imports Complex_Main Hash_Chain
begin

section \<open>The audit trail (\<open>crb/core/event_chain.py\<close>, \<open>crb/store/events.py\<close>)\<close>

text \<open>
  What one row of the \<open>events\<close> table hashes, the walk that verifies the table, the writers of the
  table (the flush hook that chains every pending row, the sink of a run, the out-of-band writers)
  and the verifier of a page that is read often, which walks only the tail between two full walks.

  A transaction is one step: its writer holds the events lock from the read of the head to the
  commit, and row ids are given one after the other. Parameters (\<open>chain_env\<close>): the SHA-256 of the
  canonical JSON of a body and its predecessor, Python's \<open>str\<close> of a value that is not a string, the
  redaction of a string, what the database raises at its n-th commit for a reason of its own, and
  whether its message for a violated constraint mentions the trace.
\<close>

subsection \<open>Stored values\<close>

text \<open>A JSON value before and after \<open>json.dumps\<close>: keys need not be strings and sequences may be
  tuples; \<open>DBad\<close> and \<open>KBad\<close> are what JSON cannot say.\<close>

datatype jkey = KStr string | KInt int | KBool bool | KNone | KBad

datatype jdoc = DNone | DBool bool | DInt int | DReal rat | DStr string | DList "jdoc list" | DTuple "jdoc list"
  | DDict "(jkey \<times> jdoc) list" | DBad

text \<open>A column's value as the driver returns it, or as the writer put it.\<close>

datatype sqlval = SNone | SBool bool | SInt int | SReal rat | SText string | SDoc jdoc

type_synonym ev_values = "(string \<times> sqlval) list"

record chain_env =
  ce_hash :: "ev_values \<times> string \<Rightarrow> string"
  ce_str :: "sqlval \<Rightarrow> string"
  ce_redact :: "string \<Rightarrow> string"
  ce_io :: "nat \<Rightarrow> exn option"
  ce_names_trace :: "string \<Rightarrow> bool"

fun digits_of :: "nat \<Rightarrow> string" where
  "digits_of n = (if n < 10 then [char_of (48 + n)] else digits_of (n div 10) @ [char_of (48 + n mod 10)])"

declare digits_of.simps [simp del]

definition show_int :: "int \<Rightarrow> string" where
  "show_int i = (if i < 0 then CHR ''-'' # digits_of (nat (- i)) else digits_of (nat i))"

definition json_key :: "jkey \<Rightarrow> string option" where
  "json_key k = (case k of KStr s \<Rightarrow> Some s | KInt i \<Rightarrow> Some (show_int i)
     | KBool b \<Rightarrow> Some (if b then ''true'' else ''false'') | KNone \<Rightarrow> Some ''null'' | KBad \<Rightarrow> None)"

text \<open>A later pair with the key of an earlier one takes its place, as in the object that is read
  back.\<close>

fun obj_put :: "(jkey \<times> jdoc) list \<Rightarrow> string \<Rightarrow> jdoc \<Rightarrow> (jkey \<times> jdoc) list" where
  "obj_put [] k v = [(KStr k, v)]"
| "obj_put ((k', v') # d) k v = (if k' = KStr k then (k', v) # d else (k', v') # obj_put d k v)"

text \<open>\<open>json.loads(json.dumps(v))\<close>.\<close>

fun json_trip :: "jdoc \<Rightarrow> jdoc option"
  and json_trips :: "jdoc list \<Rightarrow> jdoc list option"
  and json_pairs :: "(jkey \<times> jdoc) list \<Rightarrow> (jkey \<times> jdoc) list \<Rightarrow> (jkey \<times> jdoc) list option" where
  "json_trip (DList xs) = map_option DList (json_trips xs)"
| "json_trip (DTuple xs) = map_option DList (json_trips xs)"
| "json_trip (DDict kvs) = map_option DDict (json_pairs kvs [])"
| "json_trip DBad = None"
| "json_trip v = Some v"
| "json_trips [] = Some []"
| "json_trips (x # xs) = (case json_trip x of None \<Rightarrow> None | Some y \<Rightarrow> map_option (Cons y) (json_trips xs))"
| "json_pairs [] acc = Some acc"
| "json_pairs ((k, v) # kvs) acc = (case json_key k of None \<Rightarrow> None | Some s \<Rightarrow>
     (case json_trip v of None \<Rightarrow> None | Some y \<Rightarrow> json_pairs kvs (obj_put acc s y)))"

subsection \<open>The hashed body\<close>

definition EVENT_CHAIN_SCHEMA :: string where "EVENT_CHAIN_SCHEMA = ''crb.events.chain.v1''"

definition EVENT_CHAIN_FIELDS :: "string list" where
  "EVENT_CHAIN_FIELDS = [''event_id'', ''trace_id'', ''seq'', ''timestamp'', ''stage'', ''action'', ''status'',
     ''step_id'', ''parent_step_id'', ''actor'', ''repo'', ''task_id'', ''input_ref'', ''output_ref'',
     ''error_code'', ''error_message'', ''duration_ms'', ''cost_usd'', ''payload'']"

definition INT_FIELDS :: "string list" where "INT_FIELDS = [''seq'', ''duration_ms'']"

definition EVENT_GENESIS :: string where "EVENT_GENESIS = replicate 64 CHR ''0''"

abbreviation UnreadableEvent :: "exn" where "UnreadableEvent \<equiv> ValueError ''UnreadableEvent''"

definition as_text :: "chain_env \<Rightarrow> sqlval \<Rightarrow> string" where
  "as_text C v = (case v of SText s \<Rightarrow> s | _ \<Rightarrow> ce_str C v)"

definition normal :: "chain_env \<Rightarrow> string \<Rightarrow> sqlval \<Rightarrow> sqlval result" where
  "normal C key v =
     (if v = SNone then Inr SNone
      else if key \<in> set INT_FIELDS then (case v of
          SInt i \<Rightarrow> Inr (SInt i)
        | SReal r \<Rightarrow> if of_int \<lfloor>r\<rfloor> = r then Inr (SInt \<lfloor>r\<rfloor>) else Inl UnreadableEvent
        | _ \<Rightarrow> Inl UnreadableEvent)
      else if key = ''cost_usd'' then (case v of
          SInt i \<Rightarrow> Inr (SReal (of_int i)) | SReal r \<Rightarrow> Inr (SReal r) | _ \<Rightarrow> Inl UnreadableEvent)
      else if key = ''payload'' then (case v of
          SDoc (DDict d) \<Rightarrow> (case json_trip (DDict d) of Some x \<Rightarrow> Inr (SDoc x) | None \<Rightarrow> Inl (OtherError ''TypeError''))
        | _ \<Rightarrow> Inl UnreadableEvent)
      else Inr (SText (as_text C v)))"

text \<open>\<open>values.get(key)\<close>.\<close>

definition vget :: "ev_values \<Rightarrow> string \<Rightarrow> sqlval" where
  "vget vs k = (case map_of vs k of Some v \<Rightarrow> v | None \<Rightarrow> SNone)"

definition raw_value :: "ev_values \<Rightarrow> string \<Rightarrow> sqlval" where
  "raw_value vs key = (let v = vget vs key in if key = ''payload'' \<and> v = SNone then vget vs ''payload_json'' else v)"

definition event_body :: "chain_env \<Rightarrow> ev_values \<Rightarrow> ev_values result" where
  "event_body C vs = bind_result
     (collect (\<lambda>key. bind_result (normal C key (raw_value vs key)) (\<lambda>v. Inr (key, v))) EVENT_CHAIN_FIELDS)
     (\<lambda>fields. Inr ((''schema'', SText EVENT_CHAIN_SCHEMA) # fields))"

definition event_row_hash :: "chain_env \<Rightarrow> ev_values \<Rightarrow> string \<Rightarrow> string result" where
  "event_row_hash C vs prev = bind_result (event_body C vs) (\<lambda>b. Inr (ce_hash C (b, prev)))"

subsection \<open>The walk\<close>

record event_row =
  ev_id :: nat
  ev_prev :: sqlval
  ev_hash :: sqlval
  ev_values :: ev_values

datatype walk_detail = Intact nat | Prev_mismatch nat | Unreadable nat exn | Hash_mismatch nat

record chain_report =
  ep_rows :: nat
  ep_ok :: bool
  ep_broken_at :: "nat option"
  ep_detail :: walk_detail
  ep_head :: string
  ep_tail :: bool
  ep_walked :: nat
  ep_full_walk_at :: string

text \<open>\<open>str(v or "")\<close>.\<close>

definition sql_falsy :: "sqlval \<Rightarrow> bool" where
  "sql_falsy v \<longleftrightarrow> (case v of SNone \<Rightarrow> True | SBool b \<Rightarrow> \<not> b | SInt i \<Rightarrow> i = 0 | SReal r \<Rightarrow> r = 0 | SText s \<Rightarrow> s = []
     | SDoc d \<Rightarrow> (case d of DNone \<Rightarrow> True | DBool b \<Rightarrow> \<not> b | DInt i \<Rightarrow> i = 0 | DReal r \<Rightarrow> r = 0 | DStr s \<Rightarrow> s = []
        | DList xs \<Rightarrow> xs = [] | DTuple xs \<Rightarrow> xs = [] | DDict kvs \<Rightarrow> kvs = [] | DBad \<Rightarrow> False))"

definition text_or_empty :: "chain_env \<Rightarrow> sqlval \<Rightarrow> string" where
  "text_or_empty C v = (if sql_falsy v then [] else as_text C v)"

definition row_finding :: "chain_env \<Rightarrow> string \<Rightarrow> nat \<Rightarrow> event_row \<Rightarrow> walk_detail option" where
  "row_finding C prev rid row =
     (if text_or_empty C (ev_prev row) \<noteq> prev then Some (Prev_mismatch rid)
      else case event_row_hash C (ev_values row) (text_or_empty C (ev_prev row)) of
          Inl e \<Rightarrow> Some (Unreadable rid e)
        | Inr recomputed \<Rightarrow> if text_or_empty C (ev_hash row) \<noteq> recomputed then Some (Hash_mismatch rid) else None)"

fun walk_rows :: "chain_env \<Rightarrow> event_row list \<Rightarrow> string \<Rightarrow> nat \<Rightarrow> (nat \<times> walk_detail) option \<Rightarrow> string \<Rightarrow>
    nat \<times> (nat \<times> walk_detail) option \<times> string" where
  "walk_rows C [] prev n broken head = (n, broken, head)"
| "walk_rows C (row # rows) prev n broken head =
     (let rid = (if ev_id row = 0 then Suc n else ev_id row);
          broken = (case broken of Some b \<Rightarrow> Some b | None \<Rightarrow> map_option (\<lambda>d. (rid, d)) (row_finding C prev rid row))
      in walk_rows C rows (text_or_empty C (ev_hash row)) (Suc n) broken (text_or_empty C (ev_hash row)))"

definition walk_event_chain :: "chain_env \<Rightarrow> event_row list \<Rightarrow> string \<Rightarrow> nat \<Rightarrow> chain_report" where
  "walk_event_chain C rows prev verified =
     (let (n, broken, head) = walk_rows C rows prev verified None (if verified \<noteq> 0 then prev else [])
      in \<lparr>ep_rows = n, ep_ok = (broken = None), ep_broken_at = map_option fst broken,
          ep_detail = (case broken of None \<Rightarrow> Intact n | Some (rid, d) \<Rightarrow> d), ep_head = head,
          ep_tail = (verified \<noteq> 0), ep_walked = n - verified, ep_full_walk_at = []\<rparr>)"

subsection \<open>Events and their producer (\<open>crb/observability/events.py\<close>)\<close>

definition EVENT_STAGES :: "string list" where
  "EVENT_STAGES = [''mine'', ''prep'', ''build'', ''grade'', ''ledger'', ''oracle'', ''factory'', ''system'']"

datatype step_status = Step_ok | Step_error | Step_invalid | Step_skipped | Step_in_progress

fun status_text :: "step_status \<Rightarrow> string" where
  "status_text Step_ok = ''ok''"
| "status_text Step_error = ''error''"
| "status_text Step_invalid = ''invalid''"
| "status_text Step_skipped = ''skipped''"
| "status_text Step_in_progress = ''in_progress''"

record step_event =
  se_trace_id :: string
  se_stage :: string
  se_action :: string
  se_status :: step_status
  se_step_id :: string
  se_parent_step_id :: string
  se_actor :: string
  se_repo :: string
  se_task_id :: string
  se_input_ref :: string
  se_output_ref :: string
  se_error_code :: string
  se_error_message :: string
  se_duration_ms :: "int option"
  se_cost_usd :: "rat option"
  se_payload :: "(jkey \<times> jdoc) list"
  se_timestamp :: string
  se_seq :: int
  se_event_id :: string

text \<open>\<open>str(k)\<close> of a key.\<close>

definition key_text :: "jkey \<Rightarrow> string" where
  "key_text k = (case k of KStr s \<Rightarrow> s | KInt i \<Rightarrow> show_int i | KBool b \<Rightarrow> if b then ''True'' else ''False''
     | KNone \<Rightarrow> ''None'' | KBad \<Rightarrow> [])"

fun redact_doc :: "(string \<Rightarrow> string) \<Rightarrow> jdoc \<Rightarrow> jdoc"
  and redact_docs :: "(string \<Rightarrow> string) \<Rightarrow> jdoc list \<Rightarrow> jdoc list"
  and redact_pairs :: "(string \<Rightarrow> string) \<Rightarrow> (jkey \<times> jdoc) list \<Rightarrow> (jkey \<times> jdoc) list \<Rightarrow> (jkey \<times> jdoc) list" where
  "redact_doc r (DStr s) = DStr (r s)"
| "redact_doc r (DDict kvs) = DDict (redact_pairs r kvs [])"
| "redact_doc r (DList xs) = DList (redact_docs r xs)"
| "redact_doc r (DTuple xs) = DList (redact_docs r xs)"
| "redact_doc r v = v"
| "redact_docs r [] = []"
| "redact_docs r (x # xs) = redact_doc r x # redact_docs r xs"
| "redact_pairs r [] acc = acc"
| "redact_pairs r ((k, v) # kvs) acc = redact_pairs r kvs (obj_put acc (key_text k) (redact_doc r v))"

definition StepEvent :: "chain_env \<Rightarrow> step_event \<Rightarrow> step_event result" where
  "StepEvent C e = guarded [(se_stage e \<notin> set EVENT_STAGES, ValueError ''stage'')]
     (e\<lparr>se_payload := redact_pairs (ce_redact C) (se_payload e) [],
        se_error_message := ce_redact C (se_error_message e)\<rparr>)"

text \<open>\<open>_to_model\<close>: the columns of the row a writer adds.\<close>

definition to_model :: "step_event \<Rightarrow> ev_values" where
  "to_model e = [(''event_id'', SText (se_event_id e)), (''trace_id'', SText (se_trace_id e)),
     (''seq'', SInt (se_seq e)), (''timestamp'', SText (se_timestamp e)), (''stage'', SText (se_stage e)),
     (''action'', SText (se_action e)), (''status'', SText (status_text (se_status e))),
     (''step_id'', SText (se_step_id e)), (''parent_step_id'', SText (se_parent_step_id e)),
     (''actor'', SText (se_actor e)), (''repo'', SText (se_repo e)), (''task_id'', SText (se_task_id e)),
     (''input_ref'', SText (se_input_ref e)), (''output_ref'', SText (se_output_ref e)),
     (''error_code'', SText (se_error_code e)), (''error_message'', SText (se_error_message e)),
     (''duration_ms'', case se_duration_ms e of Some i \<Rightarrow> SInt i | None \<Rightarrow> SNone),
     (''cost_usd'', case se_cost_usd e of Some r \<Rightarrow> SReal r | None \<Rightarrow> SNone),
     (''payload_json'', SDoc (DDict (se_payload e)))]"

subsection \<open>The table\<close>

text \<open>What the driver hands back for a value it stored: a number of a float column is a float and
  the payload went through JSON.\<close>

definition column_trip :: "string \<Rightarrow> sqlval \<Rightarrow> sqlval result" where
  "column_trip key v = (case v of
       SInt i \<Rightarrow> Inr (if key = ''cost_usd'' then SReal (of_int i) else SInt i)
     | SDoc d \<Rightarrow> (case json_trip d of Some x \<Rightarrow> Inr (SDoc x) | None \<Rightarrow> Inl (OtherError ''StatementError''))
     | _ \<Rightarrow> Inr v)"

definition stored_back :: "ev_values \<Rightarrow> ev_values result" where
  "stored_back vs = collect (\<lambda>(k, v). bind_result (column_trip k v) (\<lambda>w. Inr (k, w))) vs"

type_synonym event_table = "event_row list"

definition HEX :: "string" where "HEX = ''0123456789abcdef''"

abbreviation EventChainHeadError :: exn where "EventChainHeadError \<equiv> OtherError ''EventChainHeadError''"

definition predecessor :: "string option \<Rightarrow> string result" where
  "predecessor head = (case head of None \<Rightarrow> Inr EVENT_GENESIS
     | Some h \<Rightarrow> if length h \<noteq> 64 \<or> \<not> set h \<subseteq> set HEX then Inl EventChainHeadError else Inr h)"

definition row_hash_text :: "chain_env \<Rightarrow> event_row \<Rightarrow> string" where
  "row_hash_text C r = as_text C (ev_hash r)"

text \<open>\<open>_chain_new_events\<close>: each pending row onto the one before it, the first onto the head.\<close>

fun chain_pending :: "chain_env \<Rightarrow> ev_values list \<Rightarrow> string \<Rightarrow> (ev_values \<times> string \<times> string) list result" where
  "chain_pending C [] prev = Inr []"
| "chain_pending C (vs # rest) prev =
     bind_result (event_row_hash C vs prev) (\<lambda>h.
     bind_result (chain_pending C rest h) (\<lambda>chained. Inr ((vs, prev, h) # chained)))"

definition chain_new_events :: "chain_env \<Rightarrow> event_table \<Rightarrow> ev_values list \<Rightarrow> (ev_values \<times> string \<times> string) list result" where
  "chain_new_events C table new =
     (if new = [] then Inr []
      else bind_result (predecessor (if table = [] then None else Some (row_hash_text C (last table))))
        (chain_pending C new))"

text \<open>The constraints of the table; which of two violated ones the database names is not modelled.\<close>

definition READING_RESERVED :: string where "READING_RESERVED = ''reading.reserved''"

definition same_on :: "string list \<Rightarrow> ev_values \<Rightarrow> ev_values \<Rightarrow> bool" where
  "same_on keys a b \<longleftrightarrow> list_all (\<lambda>k. vget a k = vget b k) keys"

definition violated :: "event_table \<Rightarrow> event_row \<Rightarrow> string option" where
  "violated table r =
     (if list_ex (\<lambda>x. same_on [''event_id''] (ev_values x) (ev_values r)) table then Some ''event_id''
      else if list_ex (\<lambda>x. same_on [''trace_id'', ''seq''] (ev_values x) (ev_values r)) table then Some ''uq_events_trace_seq''
      else if list_ex (\<lambda>x. ev_prev x = ev_prev r) table then Some ''uq_events_prev_hash''
      else if list_ex (\<lambda>x. ev_hash x = ev_hash r) table then Some ''uq_events_row_hash''
      else if vget (ev_values r) ''action'' = SText READING_RESERVED \<and>
        list_ex (\<lambda>x. vget (ev_values x) ''action'' = SText READING_RESERVED \<and>
          same_on [''trace_id'', ''step_id'', ''task_id''] (ev_values x) (ev_values r)) table
        then Some ''uq_events_reading_reserved''
      else (case (ev_prev r, ev_hash r) of
          (SText p, SText h) \<Rightarrow> if length p = 64 \<and> length h = 64 then None else Some ''ck_events_chain_hashes''
        | _ \<Rightarrow> Some ''ck_events_chain_hashes''))"

datatype db_error = Violates string | Fails exn

definition next_event_id :: "event_table \<Rightarrow> nat" where
  "next_event_id table = Suc (if table = [] then 0 else ev_id (last table))"

fun insert_all :: "event_table \<Rightarrow> (ev_values \<times> string \<times> string) list \<Rightarrow> db_error + event_table" where
  "insert_all table [] = Inr table"
| "insert_all table ((vs, prev, h) # later) = (case stored_back vs of Inl e \<Rightarrow> Inl (Fails e)
     | Inr back \<Rightarrow>
       let r = \<lparr>ev_id = next_event_id table, ev_prev = SText prev, ev_hash = SText h, ev_values = back\<rparr> in
       case violated table r of Some name \<Rightarrow> Inl (Violates name) | None \<Rightarrow> insert_all (table @ [r]) later)"

text \<open>One transaction that adds the pending rows and commits, all or nothing.\<close>

record event_db =
  db_rows :: event_table
  db_commits :: nat

definition flush_events :: "chain_env \<Rightarrow> event_table \<Rightarrow> ev_values list \<Rightarrow> db_error + event_table" where
  "flush_events C table new = (case chain_new_events C table new of Inl e \<Rightarrow> Inl (Fails e)
     | Inr chained \<Rightarrow> insert_all table chained)"

definition commit_events :: "chain_env \<Rightarrow> event_db \<Rightarrow> ev_values list \<Rightarrow> db_error option \<times> event_db" where
  "commit_events C db new =
     (let db' = db\<lparr>db_commits := Suc (db_commits db)\<rparr> in
      case ce_io C (db_commits db) of Some e \<Rightarrow> (Some (Fails e), db')
      | None \<Rightarrow> (case flush_events C (db_rows db) new of Inl e \<Rightarrow> (Some e, db')
          | Inr table \<Rightarrow> (None, db'\<lparr>db_rows := table\<rparr>)))"

subsection \<open>Sequence numbers and reads\<close>

definition of_trace :: "event_table \<Rightarrow> string \<Rightarrow> event_row list" where
  "of_trace table trace = filter (\<lambda>r. vget (ev_values r) ''trace_id'' = SText trace) table"

definition row_seq :: "event_row \<Rightarrow> int" where
  "row_seq r = (case vget (ev_values r) ''seq'' of SInt i \<Rightarrow> i | _ \<Rightarrow> 0)"

definition last_seq :: "event_table \<Rightarrow> string \<Rightarrow> int" where
  "last_seq table trace = (case map row_seq (of_trace table trace) of [] \<Rightarrow> 0 | i # is' \<Rightarrow> fold max is' i)"

definition count_events :: "event_table \<Rightarrow> string \<Rightarrow> nat" where
  "count_events table trace = length (of_trace table trace)"

definition MAX_READ_LIMIT :: int where "MAX_READ_LIMIT = 5000"

definition read_events :: "event_table \<Rightarrow> string \<Rightarrow> int \<Rightarrow> int \<Rightarrow> event_row list" where
  "read_events table trace after_seq limit =
     take (nat (max 1 (min limit MAX_READ_LIMIT)))
       (sort_key row_seq (filter (\<lambda>r. row_seq r > after_seq) (of_trace table trace)))"

definition events_of_action :: "event_table \<Rightarrow> string \<Rightarrow> string \<Rightarrow> event_row list" where
  "events_of_action table trace action =
     sort_key row_seq (filter (\<lambda>r. vget (ev_values r) ''action'' = SText action) (of_trace table trace))"

definition events_head :: "chain_env \<Rightarrow> event_table \<Rightarrow> nat \<times> string" where
  "events_head C table = (length table, if table = [] then [] else row_hash_text C (last table))"

definition next_seq :: "event_table \<Rightarrow> string \<Rightarrow> int" where
  "next_seq table trace = last_seq table trace + 1"

subsection \<open>The writers\<close>

record event_sink =
  sk_dropped :: nat
  sk_written :: nat
  sk_realloc :: nat

definition count_dropped :: "event_sink \<Rightarrow> event_sink" where
  "count_dropped k = k\<lparr>sk_dropped := Suc (sk_dropped k)\<rparr>"

definition emit_reallocated :: "chain_env \<Rightarrow> event_db \<Rightarrow> step_event \<Rightarrow> db_error option \<times> event_db" where
  "emit_reallocated C db e = commit_events C db [to_model (e\<lparr>se_seq := next_seq (db_rows db) (se_trace_id e)\<rparr>)]"

definition emit :: "chain_env \<Rightarrow> event_db \<Rightarrow> event_sink \<Rightarrow> step_event \<Rightarrow> event_db \<times> event_sink" where
  "emit C db k e = (case commit_events C db [to_model e] of
       (None, db) \<Rightarrow> (db, k\<lparr>sk_written := Suc (sk_written k)\<rparr>)
     | (Some (Violates name), db) \<Rightarrow>
         if \<not> ce_names_trace C name then (db, count_dropped k)
         else (case emit_reallocated C db e of
             (None, db) \<Rightarrow> (db, k\<lparr>sk_realloc := Suc (sk_realloc k), sk_written := Suc (sk_written k)\<rparr>)
           | (Some _, db) \<Rightarrow> (db, count_dropped k))
     | (Some (Fails _), db) \<Rightarrow> (db, count_dropped k))"

fun emit_each :: "chain_env \<Rightarrow> event_db \<Rightarrow> event_sink \<Rightarrow> step_event list \<Rightarrow> event_db \<times> event_sink" where
  "emit_each C db k [] = (db, k)"
| "emit_each C db k (e # es) = (case emit C db k e of (db, k) \<Rightarrow> emit_each C db k es)"

definition emit_many :: "chain_env \<Rightarrow> event_db \<Rightarrow> event_sink \<Rightarrow> step_event list \<Rightarrow> nat \<times> event_db \<times> event_sink" where
  "emit_many C db k batch =
     (if batch = [] then (0, db, k)
      else case commit_events C db (map to_model batch) of
          (None, db) \<Rightarrow> (length batch, db, k\<lparr>sk_written := sk_written k + length batch\<rparr>)
        | (Some _, db) \<Rightarrow> (case emit_each C db k batch of (db, k') \<Rightarrow> (sk_written k' - sk_written k, db, k')))"

text \<open>The envelope of an out-of-band event; \<open>stamp\<close> is its fresh id and its time.\<close>

definition system_event :: "string \<times> string \<Rightarrow> string \<Rightarrow> string \<Rightarrow> string \<Rightarrow> (jkey \<times> jdoc) list \<Rightarrow> step_event" where
  "system_event stamp trace stage action payload = \<lparr>se_trace_id = trace, se_stage = stage, se_action = action,
     se_status = Step_ok, se_step_id = [], se_parent_step_id = [], se_actor = [], se_repo = [], se_task_id = [],
     se_input_ref = [], se_output_ref = [], se_error_code = [], se_error_message = [], se_duration_ms = None,
     se_cost_usd = None, se_payload = payload, se_timestamp = snd stamp, se_seq = 0, se_event_id = fst stamp\<rparr>"

text \<open>\<open>append_event\<close>: the template is checked before the guard; nothing after it is raised.\<close>

definition append_event :: "chain_env \<Rightarrow> event_db \<Rightarrow> step_event \<Rightarrow> (step_event option \<times> event_db) result" where
  "append_event C db e = bind_result (StepEvent C (e\<lparr>se_step_id := se_task_id e\<rparr>)) (\<lambda>template.
     case StepEvent C (template\<lparr>se_seq := next_seq (db_rows db) (se_trace_id template)\<rparr>) of
       Inl _ \<Rightarrow> Inr (None, db)
     | Inr ev \<Rightarrow> (case commit_events C db [to_model ev] of
           (None, db) \<Rightarrow> Inr (Some ev, db) | (Some _, db) \<Rightarrow> Inr (None, db)))"

text \<open>\<open>append_event_checked\<close>: the payload is built from the table under the lock, and every failure
  is raised; a refused second reservation has its own name.\<close>

abbreviation ReservationExists :: exn where "ReservationExists \<equiv> OtherError ''ReservationExists''"

definition db_raises :: "string \<Rightarrow> db_error \<Rightarrow> exn" where
  "db_raises action x = (case x of Fails e \<Rightarrow> e
     | Violates name \<Rightarrow> if action = READING_RESERVED \<and> name = ''uq_events_reading_reserved'' then ReservationExists
         else OtherError (''IntegrityError '' @ name))"

definition append_event_checked ::
    "chain_env \<Rightarrow> event_db \<Rightarrow> step_event \<Rightarrow> (event_table \<Rightarrow> (jkey \<times> jdoc) list result) \<Rightarrow> step_event result \<times> event_db" where
  "append_event_checked C db e build = (case build (db_rows db) of Inl x \<Rightarrow> (Inl x, db)
     | Inr payload \<Rightarrow> (case StepEvent C (e\<lparr>se_payload := payload, se_seq := next_seq (db_rows db) (se_trace_id e)\<rparr>) of
         Inl x \<Rightarrow> (Inl x, db)
       | Inr ev \<Rightarrow> (case commit_events C db [to_model ev] of
           (None, db) \<Rightarrow> (Inr ev, db) | (Some x, db) \<Rightarrow> (Inl (db_raises (se_action e) x), db))))"

text \<open>\<open>Emitter\<close>: the producer of one run; the number is taken and the event delivered under one lock.\<close>

record emitter =
  em_trace_id :: string
  em_actor :: string
  em_repo :: string
  em_seq :: int

definition emitter_emit :: "chain_env \<Rightarrow> event_db \<Rightarrow> event_sink \<Rightarrow> emitter \<Rightarrow> step_event \<Rightarrow>
    (step_event \<times> event_db \<times> event_sink \<times> emitter) result" where
  "emitter_emit C db k m e =
     bind_result (StepEvent C (e\<lparr>se_trace_id := em_trace_id m, se_actor := em_actor m, se_repo := em_repo m,
         se_step_id := (if se_step_id e \<noteq> [] then se_step_id e else se_task_id e), se_seq := 0\<rparr>)) (\<lambda>ev.
     bind_result (StepEvent C (ev\<lparr>se_seq := em_seq m + 1\<rparr>)) (\<lambda>ev.
       case emit C db k ev of (db, k) \<Rightarrow> Inr (ev, db, k, m\<lparr>em_seq := em_seq m + 1\<rparr>)))"

subsection \<open>The verifier\<close>

definition FULL_WALK_EVERY_S :: rat where "FULL_WALK_EVERY_S = 300"

record walked =
  wk_last_id :: nat
  wk_head :: string
  wk_rows :: nat
  wk_full_at :: rat
  wk_full_at_iso :: string

definition chain_rows :: "event_table \<Rightarrow> nat \<Rightarrow> event_row list" where
  "chain_rows table after = filter (\<lambda>r. ev_id r > after) table"

definition verify_events_in :: "chain_env \<Rightarrow> string \<Rightarrow> event_table \<Rightarrow> chain_report" where
  "verify_events_in C utc table = (walk_event_chain C (chain_rows table 0) EVENT_GENESIS 0)\<lparr>ep_full_walk_at := utc\<rparr>"

text \<open>\<open>_stored_values\<close>: an unset column reads as its default.\<close>

definition COLUMN_DEFAULTS :: ev_values where
  "COLUMN_DEFAULTS = [(''seq'', SInt 0), (''step_id'', SText []), (''parent_step_id'', SText []), (''actor'', SText []),
     (''repo'', SText []), (''task_id'', SText []), (''input_ref'', SText []), (''output_ref'', SText []),
     (''error_code'', SText []), (''error_message'', SText []), (''payload_json'', SDoc (DDict []))]"

definition with_defaults :: "ev_values \<Rightarrow> ev_values" where
  "with_defaults vs = map (\<lambda>(k, v). (k, if v = SNone then vget COLUMN_DEFAULTS k else v)) vs"

definition prefix_holds :: "chain_env \<Rightarrow> event_table \<Rightarrow> walked \<Rightarrow> bool" where
  "prefix_holds C table w = (case find (\<lambda>r. ev_id r = wk_last_id w) table of None \<Rightarrow> False
     | Some row \<Rightarrow> as_text C (ev_hash row) = wk_head w \<and>
         event_row_hash C (with_defaults (ev_values row)) (as_text C (ev_prev row)) = Inr (wk_head w) \<and>
         length (filter (\<lambda>r. ev_id r \<le> wk_last_id w) table) = wk_rows w)"

definition may_lean :: "chain_env \<Rightarrow> rat \<Rightarrow> rat \<Rightarrow> bool \<Rightarrow> event_table \<Rightarrow> walked \<Rightarrow> bool" where
  "may_lean C every now full table w \<longleftrightarrow> \<not> full \<and> now - wk_full_at w < every \<and> prefix_holds C table w"

definition remember :: "chain_env \<Rightarrow> event_table \<Rightarrow> chain_report \<Rightarrow> rat \<times> string \<Rightarrow> walked option" where
  "remember C table report full_walk =
     (if \<not> ep_ok report \<or> ep_rows report = 0 then None
      else map_option (\<lambda>r. \<lparr>wk_last_id = ev_id r, wk_head = ep_head report, wk_rows = ep_rows report,
          wk_full_at = fst full_walk, wk_full_at_iso = snd full_walk\<rparr>)
        (find (\<lambda>r. as_text C (ev_hash r) = ep_head report) table))"

definition verify :: "chain_env \<Rightarrow> rat \<Rightarrow> rat \<times> string \<Rightarrow> bool \<Rightarrow> event_table \<Rightarrow> walked option \<Rightarrow> chain_report \<times> walked option" where
  "verify C every clock full table w =
     (let lean = (case w of None \<Rightarrow> False | Some w \<Rightarrow> may_lean C every (fst clock) full table w);
          report = (case w of
              Some w \<Rightarrow> if lean then (walk_event_chain C (chain_rows table (wk_last_id w)) (wk_head w) (wk_rows w))
                  \<lparr>ep_full_walk_at := wk_full_at_iso w\<rparr> else verify_events_in C (snd clock) table
            | None \<Rightarrow> verify_events_in C (snd clock) table);
          stamp = (case w of Some w \<Rightarrow> if lean then (wk_full_at w, wk_full_at_iso w) else clock | None \<Rightarrow> clock)
      in (report, remember C table report stamp))"

end
