(* ===== verification/Event_Chain_Correct.thy ===== *)
theory Event_Chain_Correct
  imports Event_Chain
begin

section \<open>The audit trail: the walk, the writers and the verifier\<close>

text \<open>
  The walk is compared with a reference that looks at every row by its position; a resumed walk with
  the walk of the whole table; the hash of a row as it is written with the hash of the row as it is
  read back; and the verifier of a page, over any history of writes, edits underneath and reads, with
  the full walk. The writers keep the chain, whatever they are asked to write.
\<close>

subsection \<open>The walk by position\<close>

definition link_at :: "chain_env \<Rightarrow> string \<Rightarrow> event_row list \<Rightarrow> nat \<Rightarrow> string" where
  "link_at C prev rows i = (case i of 0 \<Rightarrow> prev | Suc j \<Rightarrow> text_or_empty C (ev_hash (rows ! j)))"

definition row_breaks :: "chain_env \<Rightarrow> string \<Rightarrow> event_row list \<Rightarrow> nat \<Rightarrow> bool" where
  "row_breaks C prev rows i \<longleftrightarrow> row_finding C (link_at C prev rows i) 0 (rows ! i) \<noteq> None"

definition row_number :: "event_row list \<Rightarrow> nat \<Rightarrow> nat \<Rightarrow> nat" where
  "row_number rows n i = (if ev_id (rows ! i) = 0 then n + Suc i else ev_id (rows ! i))"

lemma row_finding_None: "row_finding C prev rid row = None \<longleftrightarrow> row_finding C prev 0 row = None"
  by (simp add: row_finding_def split: sum.split)

lemma walk_rows_broken: "walk_rows C rows prev n (Some b) head =
    (n + length rows, Some b, if rows = [] then head else text_or_empty C (ev_hash (last rows)))"
  by (induction rows arbitrary: prev n head) auto

lemma link_at_Cons: "link_at C prev (r # rows) (Suc i) = link_at C (text_or_empty C (ev_hash r)) rows i"
  by (cases i) (simp_all add: link_at_def)

lemma row_breaks_Cons: "row_breaks C prev (r # rows) (Suc i) = row_breaks C (text_or_empty C (ev_hash r)) rows i"
  by (simp add: row_breaks_def link_at_Cons)

lemma row_breaks_0: "row_breaks C prev (r # rows) 0 \<longleftrightarrow> row_finding C prev 0 r \<noteq> None"
  by (simp add: row_breaks_def link_at_def)

lemma find_upt_Suc: "find P [0..<Suc n] = (if P 0 then Some 0 else map_option Suc (find (\<lambda>i. P (Suc i)) [0..<n]))"
proof -
  have "[0..<Suc n] = 0 # map Suc [0..<n]"
    by (simp add: map_Suc_upt upt_conv_Cons del: upt_Suc)
  moreover have "find P (map Suc xs) = map_option Suc (find (\<lambda>i. P (Suc i)) xs)" for xs
    by (induction xs) auto
  ultimately show ?thesis by simp
qed

lemma walk_rows_first_break:
  "walk_rows C rows prev n None head =
     (n + length rows,
      map_option (\<lambda>i. (row_number rows n i, the (row_finding C (link_at C prev rows i) (row_number rows n i) (rows ! i))))
        (find (row_breaks C prev rows) [0..<length rows]),
      if rows = [] then head else text_or_empty C (ev_hash (last rows)))"
proof (induction rows arbitrary: prev n head)
  case Nil
  then show ?case by simp
next
  case (Cons r rows)
  let ?rid = "if ev_id r = 0 then Suc n else ev_id r"
  show ?case
  proof (cases "row_finding C prev ?rid r")
    case None
    have num: "row_number (r # rows) n (Suc i) = row_number rows (Suc n) i" for i
      by (simp add: row_number_def)
    from None have "\<not> row_breaks C prev (r # rows) 0"
      using row_finding_None [of C prev ?rid r] by (simp add: row_breaks_0)
    then show ?thesis
      by (simp add: None Cons.IH find_upt_Suc row_breaks_Cons option.map_comp comp_def num link_at_Cons
          del: upt_Suc)
  next
    case (Some d)
    then have "row_breaks C prev (r # rows) 0"
      using row_finding_None [of C prev ?rid r] by (auto simp: row_breaks_0)
    moreover have "row_number (r # rows) n 0 = ?rid" by (simp add: row_number_def)
    ultimately show ?thesis
      by (simp add: Some walk_rows_broken find_upt_Suc link_at_def del: upt_Suc)
  qed
qed


subsection \<open>A resumed walk\<close>

definition verdict :: "chain_report \<Rightarrow> nat \<times> bool \<times> nat option \<times> walk_detail \<times> string" where
  "verdict r = (ep_rows r, ep_ok r, ep_broken_at r, ep_detail r, ep_head r)"

lemma walk_rows_append: "walk_rows C (rs @ ss) prev n b h =
    (case walk_rows C rs prev n b h of (n', b', h') \<Rightarrow>
       walk_rows C ss (if rs = [] then prev else text_or_empty C (ev_hash (last rs))) n' b' h')"
  by (induction rs arbitrary: prev n b h) (auto simp: Let_def)

lemma walk_head: "walk_event_chain C rs prev n = r \<Longrightarrow>
    ep_head r = (if rs = [] then if n = 0 then [] else prev else text_or_empty C (ev_hash (last rs))) \<and>
    ep_rows r = n + length rs"
  by (auto simp: walk_event_chain_def walk_rows_first_break)

lemma tail_walk_agrees:
  assumes ok: "ep_ok (walk_event_chain C rs EVENT_GENESIS 0)" and ne: "rs \<noteq> []"
  shows "verdict (walk_event_chain C ss (text_or_empty C (ev_hash (last rs))) (length rs)) =
    verdict (walk_event_chain C (rs @ ss) EVENT_GENESIS 0)"
proof -
  have w: "walk_rows C rs EVENT_GENESIS 0 None [] = (length rs, None, text_or_empty C (ev_hash (last rs)))"
    using ok ne by (auto simp: walk_event_chain_def walk_rows_first_break)
  show ?thesis
    using ne by (simp add: walk_event_chain_def walk_rows_append w verdict_def Let_def split: prod.split)
qed

subsection \<open>The table in id order\<close>

definition is_text :: "sqlval \<Rightarrow> bool" where
  "is_text v \<longleftrightarrow> (case v of SText s \<Rightarrow> True | _ \<Rightarrow> False)"

lemma is_text_iff: "is_text v \<longleftrightarrow> (\<exists>s. v = SText s)"
  by (simp add: is_text_def split: sqlval.split)

definition table_ok :: "event_table \<Rightarrow> bool" where
  "table_ok table \<longleftrightarrow> sorted_wrt (<) (0 # map ev_id table) \<and> distinct (map ev_hash table) \<and>
     list_all (\<lambda>r. is_text (ev_hash r)) table"

text \<open>SHA-256 in hex.\<close>

definition sha :: "chain_env \<Rightarrow> bool" where
  "sha C \<longleftrightarrow> (\<forall>x. length (ce_hash C x) = 64 \<and> set (ce_hash C x) \<subseteq> set HEX)"

lemma chain_rows_all: "table_ok table \<Longrightarrow> chain_rows table 0 = table"
  by (auto simp: table_ok_def chain_rows_def filter_id_conv)

lemma sorted_split: "sorted_wrt (<) (map ev_id (rs @ r # ss)) \<Longrightarrow>
    filter (\<lambda>x. ev_id r < ev_id x) (rs @ r # ss) = ss \<and> filter (\<lambda>x. ev_id x \<le> ev_id r) (rs @ r # ss) = rs @ [r]"
proof -
  assume s: "sorted_wrt (<) (map ev_id (rs @ r # ss))"
  then have lo: "\<forall>x \<in> set rs. ev_id x < ev_id r" and hi: "\<forall>x \<in> set ss. ev_id r < ev_id x"
    by (auto simp: sorted_wrt_append)
  have "filter (\<lambda>x. ev_id r < ev_id x) rs = []" "filter (\<lambda>x. ev_id x \<le> ev_id r) rs = rs"
    using lo by (auto simp: filter_empty_conv filter_id_conv)
  moreover have "filter (\<lambda>x. ev_id r < ev_id x) ss = ss" "filter (\<lambda>x. ev_id x \<le> ev_id r) ss = []"
    using hi by (auto simp: filter_empty_conv filter_id_conv)
  ultimately show ?thesis by simp
qed

lemma chain_rows_after: "table_ok (rs @ r # ss) \<Longrightarrow> chain_rows (rs @ r # ss) (ev_id r) = ss"
  using sorted_split [of rs r ss] by (simp add: table_ok_def chain_rows_def)

subsection \<open>The verifier's memory\<close>

definition memo_ok :: "chain_env \<Rightarrow> event_table \<Rightarrow> walked \<Rightarrow> bool" where
  "memo_ok C table w \<longleftrightarrow> (\<exists>rs r ss. table = rs @ r # ss \<and> wk_last_id w = ev_id r \<and> wk_rows w = Suc (length rs) \<and>
     wk_head w = text_or_empty C (ev_hash r) \<and> ep_ok (walk_event_chain C (rs @ [r]) EVENT_GENESIS 0))"

lemma memo_ok_append: "memo_ok C table w \<Longrightarrow> memo_ok C (table @ later) w"
  unfolding memo_ok_def by (metis append.assoc append_Cons)

lemma full_verdict: "table_ok table \<Longrightarrow>
    verdict (verify_events_in C utc table) = verdict (walk_event_chain C table EVENT_GENESIS 0)"
  by (simp add: verify_events_in_def chain_rows_all verdict_def)

lemma lean_verdict:
  assumes "table_ok table" and "memo_ok C table w"
  shows "verdict (walk_event_chain C (chain_rows table (wk_last_id w)) (wk_head w) (wk_rows w)) =
    verdict (walk_event_chain C table EVENT_GENESIS 0)"
proof -
  from assms(2) obtain rs r ss where t: "table = rs @ r # ss" and w: "wk_last_id w = ev_id r" "wk_rows w = Suc (length rs)"
    "wk_head w = text_or_empty C (ev_hash r)" and ok: "ep_ok (walk_event_chain C (rs @ [r]) EVENT_GENESIS 0)"
    by (auto simp: memo_ok_def)
  from tail_walk_agrees [OF ok, of ss] show ?thesis
    using assms(1) by (simp add: t w chain_rows_after)
qed

lemma verify_verdict:
  assumes "table_ok table" and "\<And>m. w = Some m \<Longrightarrow> may_lean C every (fst clock) full table m \<Longrightarrow> memo_ok C table m"
  shows "verdict (fst (verify C every clock full table w)) = verdict (walk_event_chain C table EVENT_GENESIS 0)"
proof (cases w)
  case None
  then show ?thesis using full_verdict [OF assms(1)] by (simp add: verify_def Let_def)
next
  case (Some m)
  show ?thesis
  proof (cases "may_lean C every (fst clock) full table m")
    case True
    with assms Some lean_verdict [of table C m] show ?thesis
      by (simp add: verify_def Let_def verdict_def)
  next
    case False
    then show ?thesis using full_verdict [OF assms(1)] by (simp add: verify_def Let_def Some)
  qed
qed

lemma ok_last_hash:
  assumes "ep_ok (walk_event_chain C (rs @ [r]) EVENT_GENESIS 0)"
  obtains p where "event_row_hash C (ev_values r) p = Inr (text_or_empty C (ev_hash r))"
proof -
  have "find (row_breaks C EVENT_GENESIS (rs @ [r])) [0..<length (rs @ [r])] = None"
    using assms by (simp add: walk_event_chain_def walk_rows_first_break)
  then have "\<not> row_breaks C EVENT_GENESIS (rs @ [r]) (length rs)"
    by (auto simp: find_None_iff)
  then have "row_finding C (link_at C EVENT_GENESIS (rs @ [r]) (length rs)) 0 r = None"
    by (simp add: row_breaks_def)
  then obtain p where "event_row_hash C (ev_values r) p = Inr (text_or_empty C (ev_hash r))"
    by (auto simp: row_finding_def split: if_splits sum.splits)
  then show thesis by (rule that)
qed

lemma sha_nonempty: "sha C \<Longrightarrow> ce_hash C x \<noteq> []"
  unfolding sha_def by (metis list.size(3) zero_neq_numeral)

lemma event_row_hash_nonempty: "sha C \<Longrightarrow> event_row_hash C vs p = Inr h \<Longrightarrow> h \<noteq> []"
  by (auto simp: event_row_hash_def sha_nonempty)

lemma nonempty_text: "text_or_empty C v \<noteq> [] \<Longrightarrow> as_text C v = text_or_empty C v"
  by (simp add: text_or_empty_def split: if_splits)

lemma find_last: "distinct (map f (rs @ [r])) \<Longrightarrow> find (\<lambda>x. f x = f r) (rs @ [r]) = Some r"
  by (induction rs) auto

lemma remember_ok:
  assumes "sha C" and ok: "table_ok table" and v: "verdict report = verdict (walk_event_chain C table EVENT_GENESIS 0)"
    and m: "remember C table report stamp = Some m"
  shows "memo_ok C table m \<and> wk_full_at m = fst stamp"
proof (cases table rule: rev_cases)
  case Nil
  with v m show ?thesis by (simp add: verdict_def remember_def walk_event_chain_def split: if_splits)
next
  case (snoc rs r)
  have rep: "ep_ok report" using m by (simp add: remember_def split: if_splits)
  with v have walk: "ep_ok (walk_event_chain C (rs @ [r]) EVENT_GENESIS 0)" by (simp add: verdict_def snoc)
  have head: "ep_head report = text_or_empty C (ev_hash r)" "ep_rows report = Suc (length rs)"
    using v walk_head [of C "rs @ [r]" EVENT_GENESIS 0] by (simp_all add: verdict_def snoc)
  from walk obtain p where "event_row_hash C (ev_values r) p = Inr (text_or_empty C (ev_hash r))"
    by (rule ok_last_hash)
  with assms(1) have ne: "text_or_empty C (ev_hash r) \<noteq> []" by (rule event_row_hash_nonempty)
  have texts: "list_all (\<lambda>x. \<exists>h. ev_hash x = SText h) (rs @ [r])" and d: "distinct (map ev_hash (rs @ [r]))"
    using ok by (simp_all add: table_ok_def snoc is_text_iff)
  have same: "as_text C (ev_hash x) = as_text C (ev_hash r) \<longleftrightarrow> ev_hash x = ev_hash r" if "x \<in> set (rs @ [r])" for x
    using texts that by (auto simp: list_all_iff as_text_def)
  have "find (\<lambda>x. as_text C (ev_hash x) = ep_head report) table = find (\<lambda>x. ev_hash x = ev_hash r) (rs @ [r])"
    by (rule find_cong) (auto simp: snoc head nonempty_text [OF ne, symmetric] same)
  also have "\<dots> = Some r" by (rule find_last [OF d])
  finally have m': "m = \<lparr>wk_last_id = ev_id r, wk_head = ep_head report, wk_rows = ep_rows report,
      wk_full_at = fst stamp, wk_full_at_iso = snd stamp\<rparr>"
    using m rep by (simp add: remember_def split: if_splits)
  show ?thesis using walk by (auto simp: m' memo_ok_def snoc head)
qed

subsection \<open>A value hashes as it is read back\<close>

definition normal_pairs :: "(jkey \<times> jdoc) list \<Rightarrow> bool" where
  "normal_pairs kvs \<longleftrightarrow> distinct (map fst kvs) \<and> list_all (\<lambda>(k, v). (\<exists>s. k = KStr s) \<and> json_trip v = Some v) kvs"

lemma obj_put_keys: "fst ` set (obj_put acc s v) = insert (KStr s) (fst ` set acc)"
  by (induction acc s v rule: obj_put.induct) auto

lemma normal_obj_put: "normal_pairs acc \<Longrightarrow> json_trip v = Some v \<Longrightarrow> normal_pairs (obj_put acc s v)"
proof (induction acc)
  case (Cons p acc)
  obtain k w where p: "p = (k, w)" by fastforce
  from Cons.prems have "normal_pairs acc" by (simp add: normal_pairs_def)
  from Cons.IH [OF this Cons.prems(2)] Cons.prems show ?case
    by (auto simp: normal_pairs_def p obj_put_keys)
qed (simp add: normal_pairs_def)

lemma obj_put_new: "KStr s \<notin> fst ` set acc \<Longrightarrow> obj_put acc s v = acc @ [(KStr s, v)]"
  by (induction acc) auto

lemma json_pairs_normal: "normal_pairs (acc @ kvs) \<Longrightarrow> json_pairs kvs acc = Some (acc @ kvs)"
proof (induction kvs arbitrary: acc)
  case (Cons p kvs)
  then obtain s v where p: "p = (KStr s, v)" and v: "json_trip v = Some v" and new: "KStr s \<notin> fst ` set acc"
    by (force simp: normal_pairs_def)
  from Cons.IH [of "acc @ [p]"] Cons.prems have "json_pairs kvs (acc @ [p]) = Some (acc @ p # kvs)" by simp
  then show ?case by (simp add: p v json_key_def obj_put_new [OF new])
qed simp

lemma json_trip_stable:
  shows "json_trip d = Some x \<Longrightarrow> json_trip x = Some x"
    and "json_trips ds = Some xs \<Longrightarrow> json_trips xs = Some xs"
    and "json_pairs kvs acc = Some out \<Longrightarrow> normal_pairs acc \<Longrightarrow> normal_pairs out"
proof (induction d and ds and kvs acc arbitrary: x and xs and out rule: json_trip_json_trips_json_pairs.induct)
  case (3 kvs)
  then obtain out where out: "json_pairs kvs [] = Some out" "x = DDict out" by auto
  with 3 have "normal_pairs out" by (simp add: normal_pairs_def)
  then show ?case using json_pairs_normal [of "[]" out] by (simp add: out)
next
  case (9 k v kvs acc)
  then obtain s y where s: "json_key k = Some s" and y: "json_trip v = Some y"
    and out: "json_pairs kvs (obj_put acc s y) = Some out"
    by (auto split: option.splits)
  from 9(1) [OF s y] have "normal_pairs (obj_put acc s y)" using 9(4) by (simp add: normal_obj_put)
  with 9(2) [OF s y out] show ?case by simp
qed (auto split: option.splits)

lemma stored_back_to_model:
  assumes "stored_back (to_model e) = Inr back"
  obtains d where "json_trip (DDict (se_payload e)) = Some (DDict d)"
    and "back = to_model (e\<lparr>se_payload := d\<rparr>)"
proof -
  from assms obtain x where x: "json_trip (DDict (se_payload e)) = Some x"
    and bk: "stored_back (to_model e) = Inr back"
    by (auto simp: stored_back_def to_model_def column_trip_def split: option.splits)
  from x obtain d where d: "x = DDict d" by auto
  have "back = to_model (e\<lparr>se_payload := d\<rparr>)"
    using bk x d by (auto simp: stored_back_def to_model_def column_trip_def split: option.splits)
  with x d that show thesis by simp
qed

lemma raw_payload: "raw_value (to_model e) ''payload'' = SDoc (DDict (se_payload e))"
  by (simp add: raw_value_def vget_def to_model_def)

lemma raw_other: "key \<noteq> ''payload'' \<Longrightarrow> key \<noteq> ''payload_json'' \<Longrightarrow>
    raw_value (to_model (e\<lparr>se_payload := d\<rparr>)) key = raw_value (to_model e) key"
  by (simp add: raw_value_def vget_def to_model_def)

lemma collect_same: "(\<And>x. x \<in> set xs \<Longrightarrow> f x = g x) \<Longrightarrow> collect f xs = collect g xs"
  by (induction xs) simp_all

lemma normal_payload: "json_trip (DDict kvs) = Some x \<Longrightarrow> normal C ''payload'' (SDoc (DDict kvs)) = Inr (SDoc x)"
  by (auto simp: normal_def INT_FIELDS_def)

lemma no_payload_json: "''payload_json'' \<notin> set EVENT_CHAIN_FIELDS"
  by (simp add: EVENT_CHAIN_FIELDS_def)

lemma event_body_to_model:
  assumes "json_trip (DDict (se_payload e)) = Some (DDict d)"
  shows "event_body C (to_model (e\<lparr>se_payload := d\<rparr>)) = event_body C (to_model e)"
proof -
  have "normal C key (raw_value (to_model (e\<lparr>se_payload := d\<rparr>)) key) = normal C key (raw_value (to_model e) key)"
    if "key \<in> set EVENT_CHAIN_FIELDS" for key
  proof (cases "key = ''payload''")
    case True
    show ?thesis
      unfolding True raw_payload normal_payload [OF assms]
      using normal_payload [OF json_trip_stable(1) [OF assms]] by simp
  next
    case False
    moreover have "key \<noteq> ''payload_json''" using that no_payload_json by blast
    ultimately have "raw_value (to_model (e\<lparr>se_payload := d\<rparr>)) key = raw_value (to_model e) key" by (rule raw_other)
    then show ?thesis by (simp only:)
  qed
  then have "collect (\<lambda>key. bind_result (normal C key (raw_value (to_model (e\<lparr>se_payload := d\<rparr>)) key)) (\<lambda>v. Inr (key, v)))
      EVENT_CHAIN_FIELDS =
    collect (\<lambda>key. bind_result (normal C key (raw_value (to_model e) key)) (\<lambda>v. Inr (key, v))) EVENT_CHAIN_FIELDS"
    by (intro collect_same) (simp only:)
  then show ?thesis by (simp only: event_body_def)
qed

lemma hash_as_read:
  assumes "stored_back (to_model e) = Inr back"
  shows "event_row_hash C back p = event_row_hash C (to_model e) p"
  using assms
proof (rule stored_back_to_model)
  fix d
  assume "json_trip (DDict (se_payload e)) = Some (DDict d)" and "back = to_model (e\<lparr>se_payload := d\<rparr>)"
  then show ?thesis by (simp add: event_row_hash_def event_body_to_model)
qed


subsection \<open>The writers keep the chain\<close>

definition table_head :: "chain_env \<Rightarrow> event_table \<Rightarrow> string" where
  "table_head C table = (if table = [] then EVENT_GENESIS else text_or_empty C (ev_hash (last table)))"

abbreviation intact :: "chain_env \<Rightarrow> event_table \<Rightarrow> bool" where
  "intact C table \<equiv> ep_ok (walk_event_chain C table EVENT_GENESIS 0)"

definition col :: "string \<Rightarrow> event_row \<Rightarrow> sqlval" where
  "col k r = vget (ev_values r) k"

definition reserved_rows :: "event_table \<Rightarrow> event_row list" where
  "reserved_rows table = filter (\<lambda>r. col ''action'' r = SText READING_RESERVED) table"

definition keys_ok :: "event_table \<Rightarrow> bool" where
  "keys_ok table \<longleftrightarrow> distinct (map (col ''event_id'') table) \<and>
     distinct (map (\<lambda>r. (col ''trace_id'' r, col ''seq'' r)) table) \<and>
     distinct (map (\<lambda>r. (col ''trace_id'' r, col ''step_id'' r, col ''task_id'' r)) (reserved_rows table))"

definition trail_ok :: "chain_env \<Rightarrow> event_table \<Rightarrow> bool" where
  "trail_ok C table \<longleftrightarrow> table_ok table \<and> intact C table \<and> keys_ok table"

lemma intact_snoc: "intact C (table @ [r]) \<longleftrightarrow> intact C table \<and> row_finding C (table_head C table) 0 r = None"
proof -
  obtain n b h where w: "walk_rows C table EVENT_GENESIS 0 None [] = (n, b, h)" by (metis prod_cases3)
  show ?thesis
  proof (cases b)
    case None
    then show ?thesis
      using row_finding_None [of C "table_head C table"]
      by (auto simp: walk_event_chain_def walk_rows_append w table_head_def Let_def)
  next
    case (Some x)
    then show ?thesis by (simp add: walk_event_chain_def walk_rows_append w Let_def)
  qed
qed

lemma not_violated:
  assumes "violated table r = None"
  shows "ev_hash r \<notin> set (map ev_hash table)" "col ''event_id'' r \<notin> set (map (col ''event_id'') table)"
    "(col ''trace_id'' r, col ''seq'' r) \<notin> set (map (\<lambda>x. (col ''trace_id'' x, col ''seq'' x)) table)"
    "col ''action'' r = SText READING_RESERVED \<Longrightarrow> (col ''trace_id'' r, col ''step_id'' r, col ''task_id'' r)
       \<notin> set (map (\<lambda>x. (col ''trace_id'' x, col ''step_id'' x, col ''task_id'' x)) (reserved_rows table))"
  using assms by (auto simp: violated_def same_on_def col_def reserved_rows_def list_ex_iff split: if_splits)

lemma keys_ok_snoc: "keys_ok table \<Longrightarrow> violated table r = None \<Longrightarrow> keys_ok (table @ [r])"
  using not_violated [of table r] by (auto simp: keys_ok_def reserved_rows_def)

lemma ids_below: "sorted_wrt (<) (0 # map ev_id table) \<Longrightarrow> x \<in> set table \<Longrightarrow> ev_id x < next_event_id table"
proof (cases table rule: rev_cases)
  case (snoc rs r)
  assume "sorted_wrt (<) (0 # map ev_id table)" "x \<in> set table"
  then show ?thesis by (auto simp: snoc next_event_id_def sorted_wrt_append less_Suc_eq)
qed simp

lemma table_ok_snoc:
  assumes "table_ok table" and "violated table r = None" and "ev_id r = next_event_id table" and "ev_hash r = SText h"
  shows "table_ok (table @ [r])"
proof -
  have "0 < next_event_id table" by (simp add: next_event_id_def)
  with assms not_violated(1) [OF assms(2)] ids_below [of table] show ?thesis
    by (auto simp: table_ok_def sorted_wrt_append is_text_iff)
qed

lemma insert_all_ok:
  assumes "chain_pending C (map to_model es) prev = Inr chained" and "insert_all table chained = Inr table'"
    and "prev = table_head C table" and "trail_ok C table" and "sha C"
  shows "trail_ok C table' \<and> (\<exists>new. table' = table @ new)"
  using assms
proof (induction es arbitrary: prev chained table)
  case Nil
  then show ?case by simp
next
  case (Cons e es)
  from Cons.prems(1) obtain h rest where h: "event_row_hash C (to_model e) prev = Inr h"
    and rest: "chain_pending C (map to_model es) h = Inr rest" and ch: "chained = (to_model e, prev, h) # rest"
    by auto
  from Cons.prems(2) obtain bk where bk: "stored_back (to_model e) = Inr bk"
    by (auto simp: ch split: sum.splits)
  define r where "r = \<lparr>ev_id = next_event_id table, ev_prev = SText prev, ev_hash = SText h, ev_values = bk\<rparr>"
  from Cons.prems(2) have ok: "violated table r = None" and ins: "insert_all (table @ [r]) rest = Inr table'"
    by (auto simp: ch bk r_def Let_def split: option.splits)
  have ne: "h \<noteq> []" using Cons.prems(5) h by (rule event_row_hash_nonempty)
  have as_is: "text_or_empty C (SText s) = s" for s by (simp add: text_or_empty_def sql_falsy_def as_text_def)
  have "row_finding C (table_head C table) 0 r = None"
    using h Cons.prems(3) by (simp add: row_finding_def r_def as_is hash_as_read [OF bk])
  moreover have "table_ok (table @ [r])"
    using Cons.prems(4) by (intro table_ok_snoc [OF _ ok, where h = h]) (simp_all add: trail_ok_def r_def)
  ultimately have "trail_ok C (table @ [r])"
    using Cons.prems(4) ok by (simp add: trail_ok_def intact_snoc keys_ok_snoc)
  moreover have "h = table_head C (table @ [r])" by (simp add: table_head_def r_def as_is)
  ultimately have "trail_ok C table' \<and> (\<exists>new. table' = (table @ [r]) @ new)"
    using Cons.IH [OF rest ins] Cons.prems(5) by blast
  then show ?case by auto
qed

lemma flush_ok:
  assumes "flush_events C table (map to_model es) = Inr table'" and "trail_ok C table" and "sha C"
  shows "trail_ok C table' \<and> (\<exists>new. table' = table @ new)"
proof (cases es)
  case Nil
  with assms show ?thesis by (simp add: flush_events_def chain_new_events_def)
next
  case (Cons e rest)
  from assms(1) obtain chained where ch: "chain_new_events C table (map to_model es) = Inr chained"
    and ins: "insert_all table chained = Inr table'"
    by (auto simp: flush_events_def split: sum.splits)
  from ch obtain prev where prev: "predecessor (if table = [] then None else Some (row_hash_text C (last table))) = Inr prev"
    and pend: "chain_pending C (map to_model es) prev = Inr chained"
    by (auto simp: chain_new_events_def Cons)
  have "prev = table_head C table"
  proof (cases table rule: rev_cases)
    case Nil
    then show ?thesis using prev by (simp add: predecessor_def table_head_def)
  next
    case (snoc rs r)
    with assms(2) have "intact C (rs @ [r])" by (simp add: trail_ok_def)
    then obtain p where "event_row_hash C (ev_values r) p = Inr (text_or_empty C (ev_hash r))"
      by (rule ok_last_hash)
    with assms(3) have "text_or_empty C (ev_hash r) \<noteq> []" by (rule event_row_hash_nonempty)
    with prev snoc show ?thesis
      by (simp add: predecessor_def table_head_def row_hash_text_def nonempty_text split: if_splits)
  qed
  with pend ins assms(2,3) show ?thesis by (intro insert_all_ok)
qed

lemma commit_ok:
  assumes "commit_events C db (map to_model es) = (err, db')" and "trail_ok C (db_rows db)" and "sha C"
  shows "trail_ok C (db_rows db') \<and> (\<exists>new. db_rows db' = db_rows db @ new)"
proof -
  have "db_rows db' = db_rows db \<or> flush_events C (db_rows db) (map to_model es) = Inr (db_rows db')"
    using assms(1) by (auto simp: commit_events_def Let_def split: option.splits sum.splits)
  with flush_ok assms(2,3) show ?thesis by fastforce
qed

lemmas commit_one = commit_ok [where es = "[e]" for e, simplified]

text \<open>Every writer of the table, in any order.\<close>

inductive trail_reach :: "chain_env \<Rightarrow> event_db \<Rightarrow> bool" for C where
  empty_trail: "trail_reach C \<lparr>db_rows = [], db_commits = n\<rparr>"
| emitted: "trail_reach C db \<Longrightarrow> emit C db k e = (db', k') \<Longrightarrow> trail_reach C db'"
| emitted_many: "trail_reach C db \<Longrightarrow> emit_many C db k es = (n, db', k') \<Longrightarrow> trail_reach C db'"
| produced: "trail_reach C db \<Longrightarrow> emitter_emit C db k m e = Inr (ev, db', k', m') \<Longrightarrow> trail_reach C db'"
| appended: "trail_reach C db \<Longrightarrow> append_event C db e = Inr (ev, db') \<Longrightarrow> trail_reach C db'"
| checked: "trail_reach C db \<Longrightarrow> append_event_checked C db e build = (ev', db') \<Longrightarrow> trail_reach C db'"

lemma emit_ok:
  assumes "emit C db k e = (db', k')" and "trail_ok C (db_rows db)" and "sha C"
  shows "trail_ok C (db_rows db')"
proof -
  obtain err db1 where c1: "commit_events C db [to_model e] = (err, db1)" by fastforce
  obtain err2 db2 where c2: "emit_reallocated C db1 e = (err2, db2)" by fastforce
  have ok1: "trail_ok C (db_rows db1)" using commit_one [OF c1 assms(2,3)] by blast
  then have ok2: "trail_ok C (db_rows db2)"
    using commit_one [OF c2 [unfolded emit_reallocated_def] _ assms(3)] by blast
  have "db' = db1 \<or> db' = db2"
    using assms(1) c1 c2 by (auto simp: emit_def split: option.splits db_error.splits if_splits)
  with ok1 ok2 show ?thesis by blast
qed

lemma emit_each_ok:
  "emit_each C db k es = (db', k') \<Longrightarrow> trail_ok C (db_rows db) \<Longrightarrow> sha C \<Longrightarrow> trail_ok C (db_rows db')"
  by (induction C db k es rule: emit_each.induct) (auto split: prod.splits dest: emit_ok)

lemma emit_many_ok:
  assumes "emit_many C db k es = (n, db', k')" and "trail_ok C (db_rows db)" and "sha C"
  shows "trail_ok C (db_rows db')"
proof -
  obtain err db1 where c: "commit_events C db (map to_model es) = (err, db1)" by fastforce
  obtain db2 k2 where e: "emit_each C db1 k es = (db2, k2)" by fastforce
  have ok1: "trail_ok C (db_rows db1)" using commit_ok [OF c assms(2,3)] by blast
  then have ok2: "trail_ok C (db_rows db2)" using emit_each_ok [OF e] assms(3) by blast
  have "db' = db \<or> db' = db1 \<or> db' = db2"
    using assms(1) c e by (auto simp: emit_many_def split: option.splits if_splits)
  with ok1 ok2 assms(2) show ?thesis by blast
qed

lemma commit_case:
  "(case c of (None, d) \<Rightarrow> Inr (Some e, d) | (Some x, d) \<Rightarrow> Inr (None, d)) = Inr (ev, db') \<Longrightarrow> snd c = db'"
  "(case c of (None, d) \<Rightarrow> (Inr e', d) | (Some x, d) \<Rightarrow> (Inl (f x), d)) = (ev', db') \<Longrightarrow> snd c = db'"
  by (cases c; cases "fst c"; auto)+

lemma snd_commit_ok: "snd (commit_events C db [to_model e]) = db' \<Longrightarrow> trail_ok C (db_rows db) \<Longrightarrow> sha C \<Longrightarrow> trail_ok C (db_rows db')"
  using commit_one by (metis prod.collapse)

lemma append_event_ok:
  assumes "append_event C db e = Inr (ev, db')" and "trail_ok C (db_rows db)" and "sha C"
  shows "trail_ok C (db_rows db')"
proof -
  obtain t where t: "(case StepEvent C (t\<lparr>se_seq := next_seq (db_rows db) (se_trace_id t)\<rparr>) of
       Inl _ \<Rightarrow> Inr (None, db)
     | Inr ev \<Rightarrow> (case commit_events C db [to_model ev] of
           (None, db) \<Rightarrow> Inr (Some ev, db) | (Some _, db) \<Rightarrow> Inr (None, db))) =
     (Inr (ev, db') :: (step_event option \<times> event_db) result)"
    using assms(1) unfolding append_event_def by (simp only: bind_result_Inr) blast
  show ?thesis
  proof (cases "StepEvent C (t\<lparr>se_seq := next_seq (db_rows db) (se_trace_id t)\<rparr>)")
    case (Inl x)
    then show ?thesis using t assms(2) by simp
  next
    case (Inr e')
    with t have "snd (commit_events C db [to_model e']) = db'" by (simp add: commit_case(1))
    then show ?thesis using assms(2,3) by (rule snd_commit_ok)
  qed
qed

lemma append_event_checked_ok:
  assumes "append_event_checked C db e build = (ev, db')" and "trail_ok C (db_rows db)" and "sha C"
  shows "trail_ok C (db_rows db')"
proof (cases "build (db_rows db)")
  case (Inl x)
  then show ?thesis using assms by (simp add: append_event_checked_def)
next
  case (Inr payload)
  show ?thesis
  proof (cases "StepEvent C (e\<lparr>se_payload := payload, se_seq := next_seq (db_rows db) (se_trace_id e)\<rparr>)")
    case (Inl x)
    then show ?thesis using assms Inr by (simp add: append_event_checked_def)
  next
    case (Inr e')
    with assms(1) \<open>build (db_rows db) = Inr payload\<close> have "snd (commit_events C db [to_model e']) = db'"
      by (simp add: append_event_checked_def commit_case(2))
    then show ?thesis using assms(2,3) by (rule snd_commit_ok)
  qed
qed

lemma emitter_ok:
  assumes "emitter_emit C db k m e = Inr (ev, db', k', m')" and "trail_ok C (db_rows db)" and "sha C"
  shows "trail_ok C (db_rows db')"
proof -
  obtain ev1 where "(case emit C db k ev1 of (db, k) \<Rightarrow> Inr (ev1, db, k, m\<lparr>em_seq := em_seq m + 1\<rparr>)) =
      (Inr (ev, db', k', m') :: (step_event \<times> event_db \<times> event_sink \<times> emitter) result)"
    using assms(1) unfolding emitter_emit_def by (simp only: bind_result_Inr) blast
  then have "emit C db k ev1 = (db', k')" by (cases "emit C db k ev1") simp
  then show ?thesis using assms(2,3) by (rule emit_ok)
qed

lemma trail_reach_ok: "trail_reach C db \<Longrightarrow> sha C \<Longrightarrow> trail_ok C (db_rows db)"
proof (induction rule: trail_reach.induct)
  case (empty_trail n)
  then show ?case by (simp add: trail_ok_def table_ok_def keys_ok_def reserved_rows_def walk_event_chain_def)
qed (blast intro: emit_ok emit_many_ok emitter_ok append_event_ok append_event_checked_ok)+

text \<open>
  C12. Whatever the writers of the audit trail are asked to write, in any order, and whenever the database
  refuses a commit, the stored table walks intact, no two rows carry one event id or one sequence number
  of a trace, and no (reading, arm, commit) is reserved twice. The hash is 64 hexadecimal digits, as
  SHA-256 is.
\<close>

theorem writers_keep_trail:
  assumes "sha C" and "trail_reach C db"
  shows "ep_ok (walk_event_chain C (db_rows db) EVENT_GENESIS 0) \<and> distinct (map (col ''event_id'') (db_rows db)) \<and>
    distinct (map (\<lambda>r. (col ''trace_id'' r, col ''seq'' r)) (db_rows db)) \<and>
    distinct (map (\<lambda>r. (col ''trace_id'' r, col ''step_id'' r, col ''task_id'' r)) (reserved_rows (db_rows db)))"
  using trail_reach_ok [OF assms(2,1)] by (simp add: trail_ok_def keys_ok_def)

definition demo_chain :: chain_env where
  "demo_chain = \<lparr>ce_hash = (\<lambda>(b, p). replicate 64 (if vget b ''actor'' = SText ''eve'' then CHR ''e''
       else if p = EVENT_GENESIS then CHR ''a'' else CHR ''b'')),
     ce_str = (\<lambda>_. []), ce_redact = (\<lambda>s. s), ce_io = (\<lambda>_. None), ce_names_trace = (\<lambda>_. True)\<rparr>"

definition demo_note :: "string \<Rightarrow> step_event" where
  "demo_note stamp = system_event (stamp, ''2026-01-01'') ''run'' ''system'' ''note'' []"

definition demo_trail :: event_db where
  "demo_trail = fst (emit demo_chain (fst (emit demo_chain \<lparr>db_rows = [], db_commits = 0\<rparr>
     \<lparr>sk_dropped = 0, sk_written = 0, sk_realloc = 0\<rparr> (demo_note ''e1'')))
     \<lparr>sk_dropped = 0, sk_written = 0, sk_realloc = 0\<rparr> (demo_note ''e2''))"

lemma demo_sha: "sha demo_chain"
  by (simp add: sha_def demo_chain_def HEX_def)

lemma emitted_fst: "trail_reach C db \<Longrightarrow> trail_reach C (fst (emit C db k e))"
  by (metis emitted prod.collapse)

lemma demo_reach: "trail_reach demo_chain demo_trail"
  unfolding demo_trail_def by (intro emitted_fst empty_trail)

text \<open>Both notes ask for number 0; the second is stored with the next number.\<close>

lemma demo_rows: "map (\<lambda>r. (ev_id r, row_seq r)) (db_rows demo_trail) = [(1, 0), (2, 1)]"
  by code_simp

definition demo_typed :: step_event where
  "demo_typed = (demo_note ''e3'')\<lparr>se_payload := [(KInt 1, DTuple [DInt 2, DNone]), (KStr ''1'', DStr ''x'')]\<rparr>"

definition demo_back :: ev_values where
  "demo_back = to_model ((demo_note ''e3'')\<lparr>se_payload := [(KStr ''1'', DStr ''x'')]\<rparr>)"

lemma demo_back_reads: "stored_back (to_model demo_typed) = Inr demo_back"
  "event_row_hash demo_chain (to_model demo_typed) EVENT_GENESIS = Inr (replicate 64 CHR ''a'')"
  "vget (to_model demo_typed) ''payload_json'' \<noteq> vget demo_back ''payload_json''"
  by code_simp+


theorem writers_keep_trail_witness:
  "map (\<lambda>r. (ev_id r, row_seq r)) (db_rows demo_trail) = [(1, 0), (2, 1)] \<and>
     ep_ok (walk_event_chain demo_chain (db_rows demo_trail) EVENT_GENESIS 0)"
  using writers_keep_trail [OF demo_sha demo_reach] demo_rows by blast

subsection \<open>The verifier over time\<close>

text \<open>A deployment: rows are appended by the writers, someone with the database's own rights puts
  another table in its place (whose indexes hold), time passes, and a page reads the verifier.\<close>

record watch =
  wt_table :: event_table
  wt_memo :: "walked option"
  wt_now :: rat
  wt_rewritten :: "rat option"

inductive watch_reach :: "chain_env \<Rightarrow> rat \<Rightarrow> watch \<Rightarrow> bool" for C every where
  opened: "table_ok t \<Longrightarrow> watch_reach C every \<lparr>wt_table = t, wt_memo = None, wt_now = now, wt_rewritten = None\<rparr>"
| grown: "watch_reach C every s \<Longrightarrow> table_ok (wt_table s @ new) \<Longrightarrow> watch_reach C every (s\<lparr>wt_table := wt_table s @ new\<rparr>)"
| rewritten: "watch_reach C every s \<Longrightarrow> table_ok t \<Longrightarrow>
    watch_reach C every (s\<lparr>wt_table := t, wt_rewritten := Some (wt_now s)\<rparr>)"
| waited: "watch_reach C every s \<Longrightarrow> 0 \<le> d \<Longrightarrow> watch_reach C every (s\<lparr>wt_now := wt_now s + d\<rparr>)"
| read: "watch_reach C every s \<Longrightarrow>
    watch_reach C every (s\<lparr>wt_memo := snd (verify C every (wt_now s, utc) full (wt_table s) (wt_memo s))\<rparr>)"

definition memo_fresh :: "chain_env \<Rightarrow> watch \<Rightarrow> walked \<Rightarrow> bool" where
  "memo_fresh C s m \<longleftrightarrow> wk_full_at m \<le> wt_now s \<and>
     (memo_ok C (wt_table s) m \<or> (\<exists>t. wt_rewritten s = Some t \<and> wk_full_at m \<le> t))"

definition watch_ok :: "chain_env \<Rightarrow> watch \<Rightarrow> bool" where
  "watch_ok C s \<longleftrightarrow> table_ok (wt_table s) \<and> (\<forall>m. wt_memo s = Some m \<longrightarrow> memo_fresh C s m)"

lemma memo_after_full:
  assumes "sha C" and "table_ok table" and "remember C table (verify_events_in C utc table) stamp = Some m"
  shows "memo_ok C table m \<and> wk_full_at m = fst stamp"
  using remember_ok [OF assms(1,2) full_verdict [OF assms(2)] assms(3)] .

lemma remember_stamp: "remember C table report stamp = Some m \<Longrightarrow> wk_full_at m = fst stamp"
  by (auto simp: remember_def split: if_splits)

lemma read_keeps:
  assumes "sha C" and "watch_ok C s" and m: "snd (verify C every (wt_now s, utc) full (wt_table s) (wt_memo s)) = Some m"
  shows "memo_fresh C s m"
proof -
  let ?t = "wt_table s"
  have t: "table_ok ?t" using assms(2) by (simp add: watch_ok_def)
  show ?thesis
  proof (cases "\<exists>w. wt_memo s = Some w \<and> may_lean C every (wt_now s) full ?t w")
    case False
    then have "remember C ?t (verify_events_in C utc ?t) (wt_now s, utc) = Some m"
      using m by (auto simp: verify_def Let_def split: option.splits if_splits)
    from memo_after_full [OF assms(1) t this] show ?thesis by (simp add: memo_fresh_def)
  next
    case True
    then obtain w where w: "wt_memo s = Some w" "may_lean C every (wt_now s) full ?t w" by blast
    define rep where "rep = (walk_event_chain C (chain_rows ?t (wk_last_id w)) (wk_head w) (wk_rows w))
        \<lparr>ep_full_walk_at := wk_full_at_iso w\<rparr>"
    have rem: "remember C ?t rep (wk_full_at w, wk_full_at_iso w) = Some m"
      using m w by (simp add: verify_def Let_def rep_def)
    have fresh: "memo_fresh C s w" using assms(2) w(1) by (simp add: watch_ok_def)
    show ?thesis
    proof (cases "memo_ok C ?t w")
      case True
      have "verdict rep = verdict (walk_event_chain C ?t EVENT_GENESIS 0)"
        using lean_verdict [OF t True] by (simp add: rep_def verdict_def)
      from remember_ok [OF assms(1) t this rem] fresh show ?thesis by (simp add: memo_fresh_def)
    next
      case False
      with fresh remember_stamp [OF rem] show ?thesis by (auto simp: memo_fresh_def)
    qed
  qed
qed

lemma memo_fresh_later: "memo_fresh C s m \<Longrightarrow> 0 \<le> d \<Longrightarrow> memo_fresh C (s\<lparr>wt_now := wt_now s + d\<rparr>) m"
  by (auto simp: memo_fresh_def)

lemma memo_fresh_grown: "memo_fresh C s m \<Longrightarrow> memo_fresh C (s\<lparr>wt_table := wt_table s @ new\<rparr>) m"
  by (auto simp: memo_fresh_def memo_ok_append)

lemma watch_reach_ok: "watch_reach C every s \<Longrightarrow> sha C \<Longrightarrow> watch_ok C s"
proof (induction rule: watch_reach.induct)
  case (opened t now)
  then show ?case by (simp add: watch_ok_def)
next
  case (grown s new)
  then show ?case using memo_fresh_grown by (simp add: watch_ok_def)
next
  case (rewritten s t)
  then show ?case by (auto simp: watch_ok_def memo_fresh_def)
next
  case (waited s d)
  then show ?case using memo_fresh_later by (simp add: watch_ok_def)
next
  case (read s utc full)
  then have "watch_ok C s" by blast
  then have "\<forall>m. snd (verify C every (wt_now s, utc) full (wt_table s) (wt_memo s)) = Some m \<longrightarrow> memo_fresh C s m"
    using read_keeps [OF read.prems] by blast
  moreover have "memo_fresh C (s\<lparr>wt_memo := x\<rparr>) m = memo_fresh C s m" for x m
    by (simp add: memo_fresh_def)
  ultimately show ?case using \<open>watch_ok C s\<close> by (simp add: watch_ok_def)
qed

lemma verifier_agrees:
  assumes "sha C" and "watch_reach C every s" and quiet: "\<And>t. wt_rewritten s = Some t \<Longrightarrow> t + every \<le> wt_now s"
  shows "verdict (fst (verify C every (wt_now s, utc) full (wt_table s) (wt_memo s))) =
    verdict (walk_event_chain C (wt_table s) EVENT_GENESIS 0)"
proof (rule verify_verdict)
  have ok: "watch_ok C s" using assms(1,2) watch_reach_ok by blast
  then show "table_ok (wt_table s)" by (simp add: watch_ok_def)
  fix m
  assume m: "wt_memo s = Some m" and lean: "may_lean C every (fst (wt_now s, utc)) full (wt_table s) m"
  have "memo_fresh C s m" using ok m by (simp add: watch_ok_def)
  moreover have "wt_rewritten s = Some t \<Longrightarrow> \<not> wk_full_at m \<le> t" for t
    using quiet [of t] lean by (simp add: may_lean_def)
  ultimately show "memo_ok C (wt_table s) m" by (auto simp: memo_fresh_def)
qed

text \<open>
  C17. The verifier a page reads often walks only the rows after its last clean walk, and still says of every
  table what the full walk of that table says, whatever writes, reads and waits came before: at once when
  nobody rewrote the table underneath the writers, and, when somebody did, as soon as 300 seconds have
  passed since the last rewriting. So a lean read is never wrong on an honest table, and an edit it
  cannot see is reported within one period.
\<close>

theorem audit_page_agrees_with_full_walk:
  assumes "sha C" and "watch_reach C FULL_WALK_EVERY_S s"
    and "case wt_rewritten s of None \<Rightarrow> True | Some t \<Rightarrow> t + FULL_WALK_EVERY_S \<le> wt_now s"
  shows "verdict (fst (verify C FULL_WALK_EVERY_S (wt_now s, utc) full (wt_table s) (wt_memo s))) =
    verdict (walk_event_chain C (wt_table s) EVENT_GENESIS 0)"
  using assms(3) by (intro verifier_agrees [OF assms(1,2)]) (simp split: option.splits)

definition demo_forged :: event_table where
  "demo_forged = map (\<lambda>r. if ev_id r = 1 then r\<lparr>ev_values := (''actor'', SText ''eve'') # ev_values r\<rparr> else r) (db_rows demo_trail)"

definition demo_watch :: watch where
  "demo_watch = \<lparr>wt_table = demo_forged,
     wt_memo = snd (verify demo_chain FULL_WALK_EVERY_S (0, []) False (db_rows demo_trail) None),
     wt_now = 300, wt_rewritten = Some 0\<rparr>"

lemma demo_keys: "map (\<lambda>r. (ev_id r, ev_hash r)) (db_rows demo_trail) =
    [(1, SText (replicate 64 CHR ''a'')), (2, SText (replicate 64 CHR ''b''))]"
  by code_simp

lemma table_ok_keys: "map (\<lambda>r. (ev_id r, ev_hash r)) t = [(1, SText a), (2, SText b)] \<Longrightarrow> a \<noteq> b \<Longrightarrow> table_ok t"
  by (auto simp: table_ok_def is_text_def)

lemma demo_tables: "table_ok (db_rows demo_trail)" "table_ok demo_forged"
proof -
  show "table_ok (db_rows demo_trail)" by (rule table_ok_keys [OF demo_keys]) simp
  have "map (\<lambda>r. (ev_id r, ev_hash r)) demo_forged = map (\<lambda>r. (ev_id r, ev_hash r)) (db_rows demo_trail)"
    by (simp add: demo_forged_def)
  then show "table_ok demo_forged" by (intro table_ok_keys) (simp_all only: demo_keys, simp)
qed

lemma demo_watched: "watch_reach demo_chain FULL_WALK_EVERY_S demo_watch"
proof -
  let ?s0 = "\<lparr>wt_table = db_rows demo_trail, wt_memo = None, wt_now = 0, wt_rewritten = None\<rparr>"
  let ?s1 = "?s0\<lparr>wt_memo := snd (verify demo_chain FULL_WALK_EVERY_S (wt_now ?s0, []) False (wt_table ?s0) (wt_memo ?s0))\<rparr>"
  have "watch_reach demo_chain FULL_WALK_EVERY_S ?s0" by (rule opened) (rule demo_tables)
  then have "watch_reach demo_chain FULL_WALK_EVERY_S ?s1" by (rule read)
  then have "watch_reach demo_chain FULL_WALK_EVERY_S (?s1\<lparr>wt_table := demo_forged, wt_rewritten := Some (wt_now ?s1)\<rparr>)"
    by (rule rewritten) (rule demo_tables)
  from waited [OF this, of 300] show ?thesis by (simp add: demo_watch_def)
qed

lemma demo_broken: "fst (snd (snd (verdict (walk_event_chain demo_chain demo_forged EVENT_GENESIS 0)))) = Some 1"
  by code_simp

theorem audit_page_agrees_witness:
  "fst (snd (snd (verdict (fst (verify demo_chain FULL_WALK_EVERY_S (300, []) False demo_forged (wt_memo demo_watch)))))) = Some 1"
  using audit_page_agrees_with_full_walk [OF demo_sha demo_watched, of "[]" False] demo_broken
  by (simp add: demo_watch_def FULL_WALK_EVERY_S_def)

subsection \<open>The trail is a hash chain\<close>

text \<open>A row as the chain sees it: its body, its link and its hash.\<close>

record event_view =
  vw_body :: "ev_values result"
  vw_prev :: string
  vw_hash :: string

definition view_of :: "chain_env \<Rightarrow> event_row \<Rightarrow> event_view" where
  "view_of C r = \<lparr>vw_body = event_body C (ev_values r), vw_prev = text_or_empty C (ev_prev r),
     vw_hash = text_or_empty C (ev_hash r)\<rparr>"

definition view_digest :: "chain_env \<Rightarrow> event_view \<Rightarrow> string" where
  "view_digest C v = (case vw_body v of Inr b \<Rightarrow> ce_hash C (b, vw_prev v) | Inl _ \<Rightarrow> [])"

definition view_link :: "chain_env \<Rightarrow> event_view \<Rightarrow> string \<Rightarrow> event_view" where
  "view_link C v p = (let w = v\<lparr>vw_prev := p\<rparr> in w\<lparr>vw_hash := view_digest C w\<rparr>)"

interpretation et: chain_writer vw_prev vw_hash "view_digest C" "\<lambda>v. (vw_body v, vw_prev v)" "\<lambda>_. True" "view_link C" for C
  by unfold_locales (auto simp: view_digest_def view_link_def Let_def split: sum.split)

lemma view_step: "sha C \<Longrightarrow> row_finding C p 0 r = None \<longleftrightarrow>
    vw_prev (view_of C r) = p \<and> vw_hash (view_of C r) \<noteq> [] \<and> vw_hash (view_of C r) = view_digest C (view_of C r)"
  by (auto simp: row_finding_def view_of_def view_digest_def event_row_hash_def sha_nonempty sha_nonempty [symmetric]
      split: sum.splits)

lemma intact_is_chain: "sha C \<Longrightarrow>
    intact C table \<longleftrightarrow> chain_ok vw_prev vw_hash (view_digest C) EVENT_GENESIS (map (view_of C) table)"
proof (induction table rule: rev_induct)
  case Nil
  then show ?case by (simp add: walk_event_chain_def)
next
  case (snoc r table)
  have "table_head C table = chain_head vw_hash EVENT_GENESIS (map (view_of C) table)"
    by (simp add: table_head_def chain_head_def last_map view_of_def)
  with snoc view_step [OF snoc.prems] show ?case
    by (simp add: intact_snoc chain_ok_append)
qed

text \<open>
  The head recorded outside the store fixes the trail: two intact tables that end on one head hash have
  the same rows, in the same order, as the hash sees them, unless two of their rows are different
  content with one hash or a row hashes to the genesis value.
\<close>

theorem audit_head_fixes_trail:
  assumes "sha C" and "intact C t" and "intact C t'" and "table_head C t = table_head C t'"
  shows "map (view_of C) t = map (view_of C) t' \<or>
    (\<exists>r \<in> set t. \<exists>r' \<in> set t'. (event_body C (ev_values r), text_or_empty C (ev_prev r)) \<noteq>
        (event_body C (ev_values r'), text_or_empty C (ev_prev r')) \<and>
      view_digest C (view_of C r) = view_digest C (view_of C r')) \<or>
    (\<exists>r \<in> set t \<union> set t'. view_digest C (view_of C r) = EVENT_GENESIS)"
proof -
  have head: "chain_head vw_hash EVENT_GENESIS (map (view_of C) u) = table_head C u" for u
    by (simp add: table_head_def chain_head_def last_map view_of_def)
  have view: "vw_body (view_of C r) = event_body C (ev_values r)" "vw_prev (view_of C r) = text_or_empty C (ev_prev r)" for r
    by (simp_all add: view_of_def)
  show ?thesis
    using et.same_head_same_log [of C EVENT_GENESIS "map (view_of C) t" "map (view_of C) t'"] assms
    by (auto simp: intact_is_chain head et.collision_def list_all_iff view)
qed

end
