(* ===== verification/Capability.thy ===== *)
theory Capability
  imports Routing "HOL-Library.Product_Lexorder"
begin

section \<open>The capability map (\<open>crb/core/capability.py\<close>)\<close>

text \<open>
  Projections of the cell key, one cell (its statistics, the verdict of the reading that speaks for it,
  its oracle evidence and its route), the map, the pick of a configuration and the coverage of a
  repository's change profile. The advisory fields of a cell (\<open>sigma\<close>, the economics and the
  provenance values) and the walk of the repository's history are not modelled; a cell records only
  whether a cost and a latency are known, as \<open>fold_economics\<close> counts them.
\<close>

definition WILDCARD :: string where "WILDCARD = ''*''"
definition NOT_YET_MEASURED :: string where "NOT_YET_MEASURED = ''not_yet_measured''"
definition CAP_ROUTES :: "string list" where
  "CAP_ROUTES = [ROUTE_DELIVER, ROUTE_CALIBRATE, ROUTE_GRANULARIZE, ROUTE_HUMAN, ROUTE_DO_NOT_SHIP]"
definition CELL_STATES :: "string list" where "CELL_STATES = CAP_ROUTES @ [NOT_YET_MEASURED]"

definition PROJECTION_CELL :: "string list" where "PROJECTION_CELL = CELL_FIELDS"
definition PROJECTION_CLASS :: "string list" where "PROJECTION_CLASS = [''capability_class'']"
definition PROJECTION_CLASS_SIZE :: "string list" where "PROJECTION_CLASS_SIZE = [''capability_class'', ''size'']"
definition PROJECTION_CLASS_SIZE_LANGUAGE :: "string list" where
  "PROJECTION_CLASS_SIZE_LANGUAGE = [''capability_class'', ''size'', ''language'']"
definition PROJECTION_CLASS_SIZE_MODEL :: "string list" where
  "PROJECTION_CLASS_SIZE_MODEL = [''capability_class'', ''size'', ''model'']"
definition PROJECTIONS :: "(string \<times> string list) list" where
  "PROJECTIONS = [(''cell'', PROJECTION_CELL), (''class'', PROJECTION_CLASS), (''class_size'', PROJECTION_CLASS_SIZE),
     (''class_size_language'', PROJECTION_CLASS_SIZE_LANGUAGE), (''class_size_model'', PROJECTION_CLASS_SIZE_MODEL)]"

definition TIER_UNTRUSTED :: string where "TIER_UNTRUSTED = ''untrusted''"
definition TIER_AUTOMATED_PASS :: string where "TIER_AUTOMATED_PASS = ''automated-pass''"
definition TIER_HUMAN_VERIFIED :: string where "TIER_HUMAN_VERIFIED = ''human-verified''"
definition TIER_AB_CONFIRMED :: string where "TIER_AB_CONFIRMED = ''ab-confirmed''"
definition EARNED_TIERS :: "string list" where "EARNED_TIERS = [TIER_HUMAN_VERIFIED, TIER_AB_CONFIRMED]"
definition TIERS :: "string list" where "TIERS = [TIER_UNTRUSTED, TIER_AUTOMATED_PASS] @ EARNED_TIERS"

definition SELECTION_COST_THEN_LATENCY :: string where "SELECTION_COST_THEN_LATENCY = ''cost_then_latency''"
definition SELECTION_POINT :: string where "SELECTION_POINT = ''point''"
definition SELECTIONS :: "string list" where "SELECTIONS = [SELECTION_COST_THEN_LATENCY, SELECTION_POINT]"

subsection \<open>Projections\<close>

text \<open>A cell key as the values of \<open>CELL_FIELDS\<close>, and back.\<close>

definition key_tuple :: "cell_key \<Rightarrow> string list" where
  "key_tuple k = [ck_process_step k, ck_capability_class k, ck_size k, ck_language k, ck_builder k, ck_model k,
     ck_provider k]"

definition key_dict :: "cell_key \<Rightarrow> dict" where
  "key_dict k = zip CELL_FIELDS (key_tuple k)"

definition key_of_dict :: "dict \<Rightarrow> cell_key" where
  "key_of_dict d = \<lparr>ck_process_step = dget d ''process_step'' [], ck_capability_class = dget d ''capability_class'' [],
     ck_size = dget d ''size'' [], ck_language = dget d ''language'' [], ck_builder = dget d ''builder'' [],
     ck_model = dget d ''model'' [], ck_provider = dget d ''provider'' []\<rparr>"

definition check_projection :: "string list \<Rightarrow> string list result" where
  "check_projection proj = guarded
     [(proj = [], ValueError ''projection''), (\<not> list_all (\<lambda>f. f \<in> set CELL_FIELDS) proj, ValueError ''unknown field'')] proj"

definition project_dict :: "dict \<Rightarrow> string list \<Rightarrow> cell_key" where
  "project_dict src proj =
     key_of_dict (map (\<lambda>f. (f, if f \<in> set proj then dget src f WILDCARD else WILDCARD)) CELL_FIELDS)"

definition projected_key :: "dict \<Rightarrow> string list \<Rightarrow> cell_key result" where
  "projected_key src projection = bind_result (check_projection projection) (\<lambda>proj. Inr (project_dict src proj))"

definition key_matches :: "cell_key \<Rightarrow> cell_key \<Rightarrow> bool" where
  "key_matches pattern key \<longleftrightarrow> list_all2 (\<lambda>p k. p = WILDCARD \<or> p = k) (key_tuple pattern) (key_tuple key)"

definition projected_stats :: "grade_row list \<Rightarrow> string list \<Rightarrow> cell_numbers result" where
  "projected_stats rows projection = bind_result (cell_stats rows) (\<lambda>stats.
     bind_result (projected_key (key_dict (row_cell (hd rows))) projection) (\<lambda>k. Inr (stats\<lparr>cs_cell := k\<rparr>)))"

subsection \<open>Cells\<close>

record capability_cell =
  cl_key :: cell_key
  cl_projection :: "string list"
  cl_stats :: "cell_numbers option"
  cl_decision :: "route_decision option"
  cl_tier :: "string option"
  cl_repos :: nat
  cl_rows :: nat
  cl_belt_sets :: "string list"
  cl_cost_known :: bool
  cl_latency_known :: bool
  cl_rows_imported :: nat
  cl_verdict :: "arm_verdict option"
  cl_oracle :: "oracle_evidence option"
  cl_reading :: "reading_outcome option"

definition cl_false_q1 :: "capability_cell \<Rightarrow> nat" where
  "cl_false_q1 c = (case cl_stats c of Some s \<Rightarrow> cs_false_q1 s | None \<Rightarrow> 0)"

definition CapabilityCell :: "capability_cell \<Rightarrow> capability_cell result" where
  "CapabilityCell c = bind_result (check_projection (cl_projection c)) (\<lambda>_. guarded
     [(case cl_tier c of Some t \<Rightarrow> t \<notin> set TIERS | None \<Rightarrow> False, ValueError ''verification_tier''),
      ((cl_stats c = None) \<noteq> (cl_decision c = None), ValueError ''stats and decision''),
      (cl_stats c = None \<and> cl_tier c \<noteq> None, ValueError ''unmeasured tier''),
      (cl_false_q1 c > 0 \<and> cl_tier c \<noteq> Some TIER_UNTRUSTED, ValueError ''false_q1'')] c)"

definition cl_route :: "capability_cell \<Rightarrow> string" where
  "cl_route c = (case cl_decision c of Some d \<Rightarrow> dc_route d | None \<Rightarrow> NOT_YET_MEASURED)"

definition cl_n :: "capability_cell \<Rightarrow> nat" where
  "cl_n c = (case cl_stats c of Some s \<Rightarrow> cs_n s | None \<Rightarrow> 0)"

definition cl_point :: "capability_cell \<Rightarrow> rat option" where
  "cl_point c = map_option cs_point (cl_stats c)"

definition earned :: "capability_cell \<Rightarrow> bool" where
  "earned c \<longleftrightarrow> (case cl_tier c of Some t \<Rightarrow> t \<in> set EARNED_TIERS | None \<Rightarrow> False)"

definition cl_label :: "capability_cell \<Rightarrow> string" where
  "cl_label c = join_with ''|'' (map (\<lambda>f. dget (key_dict (cl_key c)) f []) (cl_projection c))"

definition with_tier :: "capability_cell \<Rightarrow> string \<Rightarrow> capability_cell result" where
  "with_tier c tier = bind_result (guarded
     [(tier \<notin> set TIERS, ValueError ''tier''), (cl_stats c = None, ValueError ''unmeasured''),
      (cl_false_q1 c > 0 \<and> tier \<noteq> TIER_UNTRUSTED, ValueError ''false_q1'')] c) (\<lambda>c. CapabilityCell (c\<lparr>cl_tier := Some tier\<rparr>))"

definition empty_cell :: "dict \<Rightarrow> string list \<Rightarrow> capability_cell result" where
  "empty_cell key projection = bind_result (check_projection projection) (\<lambda>proj.
     bind_result (projected_key key proj) (\<lambda>k. CapabilityCell
       \<lparr>cl_key = k, cl_projection = proj, cl_stats = None, cl_decision = None, cl_tier = None, cl_repos = 0,
        cl_rows = 0, cl_belt_sets = [], cl_cost_known = False, cl_latency_known = False, cl_rows_imported = 0,
        cl_verdict = None, cl_oracle = None, cl_reading = None\<rparr>))"

subsection \<open>The oracle evidence of a cell\<close>

type_synonym oracle_by_task = "(string \<times> rat option) list"

definition DISPLAY_ARM :: string where "DISPLAY_ARM = ''S3''"

definition oracle_evidence_of :: "string list \<Rightarrow> oracle_by_task \<Rightarrow> string \<Rightarrow> string \<Rightarrow> oracle_evidence result" where
  "oracle_evidence_of task_ids by_task mutation apparatus =
     (let ids = dedup (filter (\<lambda>t. t \<noteq> []) task_ids);
          scored = List.map_filter (\<lambda>t. Option.bind (map_of by_task t) id) ids
      in OracleEvidence \<lparr>oe_strength = (if scored = [] then None else Some (mean scored)),
           oe_scored_tasks = int (length scored), oe_n_tasks = int (length ids), oe_mutation_version = mutation,
           oe_apparatus_version = apparatus\<rparr>)"

definition routing_ids :: "grade_row list \<Rightarrow> string list result" where
  "routing_ids rows = bind_result (first_attempts rows) (\<lambda>firsts.
     Inr (map (\<lambda>a. row_task_id (fa_row a)) (filter fa_routes firsts)))"

definition task_oracle_strength :: "grade_row list \<Rightarrow> oracle_by_task \<Rightarrow> rat option result" where
  "task_oracle_strength rows by_task = bind_result (routing_ids rows) (\<lambda>ids.
     bind_result (oracle_evidence_of ids by_task [] []) (\<lambda>e. Inr (oe_strength e)))"

subsection \<open>The readings of a repository\<close>

type_synonym reading_book = "reading_outcome list"

definition book_evaluate :: "iso_reader \<Rightarrow> reading list \<Rightarrow> grade_row list \<Rightarrow> reading_book result" where
  "book_evaluate fromiso readings rows = collect (\<lambda>rd. evaluate fromiso rd rows) readings"

definition outcome_for :: "reading_book \<Rightarrow> string \<Rightarrow> cell_key \<Rightarrow> string \<Rightarrow> string \<Rightarrow> string \<Rightarrow> string \<Rightarrow> reading_outcome option" where
  "outcome_for book repo cell apparatus taxonomy checks posture = latest_outcome (filter (\<lambda>oc. let rd = oc_reading oc in
     rd_repo rd = repo \<and> rd_cell_key rd = canonical_cell_key (key_dict cell) \<and> rd_apparatus rd = apparatus \<and>
     rd_taxonomy rd = taxonomy \<and> rd_checks_arm rd = checks \<and> rd_posture_class rd = posture) book)"

definition one_of :: "'a list \<Rightarrow> bool" where
  "one_of xs \<longleftrightarrow> length (dedup xs) = 1"

definition outcome_for_rows :: "reading_book \<Rightarrow> grade_row list \<Rightarrow> reading_outcome option" where
  "outcome_for_rows book rows =
     (if rows = [] \<or> \<not> (one_of (map row_repo rows) \<and> one_of (map row_cell rows) \<and> one_of (map row_checks_arm rows) \<and>
          one_of (map row_posture_class rows)) then None
      else let r = hd rows in outcome_for book (row_repo r) (row_cell r) (row_apparatus_version r) (row_taxonomy r)
        (row_checks_arm r) (row_posture_class r))"

definition project_rows :: "string list \<Rightarrow> grade_row list \<Rightarrow> (string list, grade_row) groups" where
  "project_rows projection rows = group_by_cell (map (\<lambda>f r. dget (key_dict (row_cell r)) f []) projection) rows"

definition shown_arm :: "reading_book \<Rightarrow> string \<Rightarrow> grade_row list \<Rightarrow> string" where
  "shown_arm book display rows =
     (let present = sort (dedup (filter (\<lambda>a. a \<noteq> []) (map row_context_arm rows)));
          fallback = (if display \<in> set present \<or> present = [] then display else hd present)
      in case outcome_for_rows book rows of None \<Rightarrow> fallback
         | Some oc \<Rightarrow> if oc_standard oc \<noteq> [] then oc_standard oc else if oc_chain oc \<noteq> [] then last (oc_chain oc) else fallback)"

definition standard_rows :: "reading_book \<Rightarrow> grade_row list \<Rightarrow> string list \<Rightarrow> string \<Rightarrow> grade_row list" where
  "standard_rows book rows projection display =
     concat (map (\<lambda>(k, rs). let a = shown_arm book display rs in
       filter (\<lambda>r. row_context_arm r = a \<or> row_context_arm r = []) rs) (project_rows projection rows))"

subsection \<open>Measuring a cell\<close>

definition cell_latency_known :: "grade_row \<Rightarrow> bool" where
  "cell_latency_known r \<longleftrightarrow> row_latency_s r > 0"

definition counted_ids :: "arm_verdict \<Rightarrow> grade_row list \<Rightarrow> string list result" where
  "counted_ids v rows = (if av_counted v \<noteq> 0 then Inr (av_counted_commits v) else routing_ids rows)"

definition measure_cell ::
    "grade_row list \<Rightarrow> string list \<Rightarrow> routing_policy \<Rightarrow> controls_verdict option \<Rightarrow> oracle_by_task \<Rightarrow> reading_book \<Rightarrow>
     capability_cell result" where
  "measure_cell rows projection p controls by_task book = bind_result (check_projection projection) (\<lambda>proj.
     if rows = [] then Inl (ValueError ''no row'') else
     bind_result (projected_stats rows proj) (\<lambda>stats.
     let outcome = outcome_for_rows book rows; eligible = filter row_eligible rows in
     bind_result (verdict_for outcome (cs_context_arm stats)) (\<lambda>v.
     bind_result (counted_ids v rows) (\<lambda>counted.
     bind_result (oracle_evidence_of counted by_task [] (cs_apparatus_version stats)) (\<lambda>ora.
     bind_result (route stats (Some ora) controls (Some v) p) (\<lambda>d. CapabilityCell
       \<lparr>cl_key = cs_cell stats, cl_projection = proj, cl_stats = Some stats, cl_decision = Some d,
        cl_tier = Some (if cs_false_q1 stats > 0 then TIER_UNTRUSTED else TIER_AUTOMATED_PASS),
        cl_repos = length (dedup (map row_repo rows)), cl_rows = length rows,
        cl_belt_sets = sort (dedup (map row_belt_set rows)),
        cl_cost_known = (filter row_cost_known eligible \<noteq> []),
        cl_latency_known = (filter cell_latency_known eligible \<noteq> []),
        cl_rows_imported = count_if (\<lambda>r. row_provenance r \<noteq> PROVENANCE_MEASURED) rows,
        cl_verdict = Some v, cl_oracle = Some ora, cl_reading = outcome\<rparr>))))))"

subsection \<open>The map\<close>

record capability_map =
  cm_projection :: "string list"
  cm_cells :: "capability_cell list"
  cm_rows :: nat
  cm_false_q1_total :: nat
  cm_policy :: routing_policy
  cm_apparatus_versions :: "string list"
  cm_controls :: "controls_verdict option"

definition CapabilityMap :: "capability_map \<Rightarrow> capability_map result" where
  "CapabilityMap m = bind_result (check_projection (cm_projection m)) (\<lambda>proj. guarded
     [(\<not> list_all (\<lambda>c. cl_projection c = proj) (cm_cells m), ValueError ''cell projection'')] m)"

definition sort_cells :: "capability_cell list \<Rightarrow> capability_cell list" where
  "sort_cells = sort_key (\<lambda>c. key_tuple (cl_key c))"

definition build_capability_map ::
    "grade_row list \<Rightarrow> string list \<Rightarrow> routing_policy \<Rightarrow> controls_verdict option \<Rightarrow> oracle_by_task \<Rightarrow> reading_book \<Rightarrow>
     capability_map result" where
  "build_capability_map rows projection p controls by_task book = bind_result (check_projection projection) (\<lambda>proj.
     bind_result (collect (\<lambda>g. measure_cell g proj p controls by_task book) (map snd (project_rows proj rows))) (\<lambda>cells.
     CapabilityMap \<lparr>cm_projection = proj, cm_cells = sort_cells cells, cm_rows = length rows,
       cm_false_q1_total = false_q1_total rows, cm_policy = p,
       cm_apparatus_versions = sort (dedup (map row_apparatus_version rows)), cm_controls = controls\<rparr>))"

definition map_lookup :: "capability_map \<Rightarrow> dict \<Rightarrow> capability_cell result" where
  "map_lookup m key = bind_result (projected_key key (cm_projection m)) (\<lambda>want.
     case find (\<lambda>c. cl_key c = want) (cm_cells m) of Some c \<Rightarrow> Inr c
     | None \<Rightarrow> empty_cell (key_dict want) (cm_projection m))"

definition map_get :: "capability_map \<Rightarrow> dict \<Rightarrow> capability_cell result" where
  "map_get m wanted =
     (if list_ex (\<lambda>(f, v). f \<notin> set (cm_projection m)) wanted then Inl (ValueError ''not in projection'')
      else map_lookup m wanted)"

definition by_route :: "capability_map \<Rightarrow> (string \<times> capability_cell list) list" where
  "by_route m = map (\<lambda>s. (s, filter (\<lambda>c. cl_route c = s) (cm_cells m))) CELL_STATES"

definition with_cells :: "capability_map \<Rightarrow> capability_cell list \<Rightarrow> capability_map result" where
  "with_cells m cells = CapabilityMap (m\<lparr>cm_cells := sort_cells cells\<rparr>)"

definition capability_views ::
    "grade_row list \<Rightarrow> routing_policy \<Rightarrow> controls_verdict option \<Rightarrow> reading_book \<Rightarrow> (string \<times> capability_map) list result" where
  "capability_views rows p controls book =
     collect (\<lambda>(name, proj). bind_result (build_capability_map rows proj p controls [] book) (\<lambda>m. Inr (name, m))) PROJECTIONS"

subsection \<open>The configuration picked for a class\<close>

definition config_projection :: "string option \<Rightarrow> string option \<Rightarrow> string list" where
  "config_projection sz language =
     filter (\<lambda>f. \<not> (f = ''size'' \<and> sz = None) \<and> \<not> (f = ''language'' \<and> language = None)) CELL_FIELDS"

definition pinned :: "string option \<Rightarrow> string \<Rightarrow> bool" where
  "pinned want v \<longleftrightarrow> (case want of None \<Rightarrow> True | Some w \<Rightarrow> v = w)"

text \<open>The readings are absent (\<open>None\<close>) or a book.\<close>

definition book_of :: "reading_book option \<Rightarrow> reading_book" where
  "book_of readings = (case readings of Some book \<Rightarrow> book | None \<Rightarrow> [])"

definition config_candidates ::
    "grade_row list \<Rightarrow> string \<Rightarrow> string option \<Rightarrow> string option \<Rightarrow> routing_policy \<Rightarrow> controls_verdict option \<Rightarrow>
     reading_book option \<Rightarrow> oracle_by_task \<Rightarrow> capability_cell list result" where
  "config_candidates rows capability_class sz language p controls readings by_task =
     (let proj = config_projection sz language;
          rows = (case readings of None \<Rightarrow> rows | Some book \<Rightarrow> standard_rows book rows proj DISPLAY_ARM)
      in bind_result (build_capability_map rows proj p controls by_task (book_of readings)) (\<lambda>m.
        Inr (filter (\<lambda>c. ck_capability_class (cl_key c) = capability_class \<and> pinned sz (ck_size (cl_key c)) \<and>
          pinned language (ck_language (cl_key c)) \<and> cl_false_q1 c = 0 \<and> cl_route c = ROUTE_DELIVER) (cm_cells m))))"

definition costed :: "capability_cell \<Rightarrow> bool" where
  "costed c \<longleftrightarrow> cl_stats c \<noteq> None \<and> cl_false_q1 c = 0 \<and> cl_cost_known c \<and> cl_latency_known c"

definition axes :: "capability_cell \<Rightarrow> rat \<times> rat" where
  "axes c = (case cl_stats c of Some s \<Rightarrow> (cs_cost_usd_mean s, cs_latency_s_mean s) | None \<Rightarrow> (0, 0))"

definition dominates :: "capability_cell \<Rightarrow> capability_cell \<Rightarrow> bool" where
  "dominates b a \<longleftrightarrow> fst (axes b) \<le> fst (axes a) \<and> snd (axes b) \<le> snd (axes a) \<and>
     (fst (axes b) < fst (axes a) \<or> snd (axes b) < snd (axes a))"

definition point_or_0 :: "capability_cell \<Rightarrow> rat" where
  "point_or_0 c = (case cl_point c of Some x \<Rightarrow> x | None \<Rightarrow> 0)"

definition pareto_frontier :: "capability_cell list \<Rightarrow> capability_cell list" where
  "pareto_frontier cells = (let pts = filter costed cells in
     sort_key (\<lambda>c. (fst (axes c), snd (axes c), - point_or_0 c, key_tuple (cl_key c)))
       (filter (\<lambda>a. \<not> list_ex (\<lambda>b. dominates b a) pts) pts))"

record config_pick =
  cp_cell :: capability_cell
  cp_selection :: string
  cp_frontier :: "string list"
  cp_candidates :: nat

definition ConfigPick :: "config_pick \<Rightarrow> config_pick result" where
  "ConfigPick k = guarded [(cp_selection k \<notin> set SELECTIONS, ValueError ''selection''),
     (cl_route (cp_cell k) \<noteq> ROUTE_DELIVER, ValueError ''route'')] k"

definition ci_low :: "capability_cell \<Rightarrow> real" where
  "ci_low c = (case cl_stats c of Some s \<Rightarrow> low (cs_ci s) | None \<Rightarrow> 0)"

definition best_config ::
    "grade_row list \<Rightarrow> string \<Rightarrow> string option \<Rightarrow> string option \<Rightarrow> routing_policy \<Rightarrow> string \<Rightarrow> controls_verdict option \<Rightarrow>
     reading_book option \<Rightarrow> oracle_by_task \<Rightarrow> config_pick option result" where
  "best_config rows capability_class sz language p selection controls readings by_task =
     (if selection \<notin> set SELECTIONS then Inl (ValueError ''selection'')
      else bind_result (config_candidates rows capability_class sz language p controls readings by_task) (\<lambda>candidates.
        if candidates = [] then Inr None
        else let frontier = (if selection = SELECTION_COST_THEN_LATENCY then pareto_frontier candidates else []) in
          bind_result (ConfigPick (case frontier of
              pick # _ \<Rightarrow> \<lparr>cp_cell = pick, cp_selection = SELECTION_COST_THEN_LATENCY, cp_frontier = map cl_label frontier,
                cp_candidates = length candidates\<rparr>
            | [] \<Rightarrow> \<lparr>cp_cell = hd (sort_key (\<lambda>c. (- ci_low c, - point_or_0 c, - int (cl_n c), key_tuple (cl_key c))) candidates),
                cp_selection = SELECTION_POINT, cp_frontier = [], cp_candidates = length candidates\<rparr>))
            (\<lambda>k. Inr (Some k))))"

subsection \<open>Coverage of a change profile\<close>

record change_profile =
  cr_repo :: string
  cr_n_commits :: nat
  cr_examined :: nat
  cr_skipped :: nat
  cr_cells :: "((string \<times> string) \<times> nat) list"
  cr_ref :: string

definition RepoChangeProfile :: "change_profile \<Rightarrow> change_profile result" where
  "RepoChangeProfile f = guarded [(cr_n_commits f \<noteq> sum_list (map snd (cr_cells f)), ValueError ''n_commits'')] f"

fun tally :: "('k \<times> nat) list \<Rightarrow> 'k \<Rightarrow> nat \<Rightarrow> ('k \<times> nat) list" where
  "tally [] k n = [(k, n)]"
| "tally ((k', m) # t) k n = (if k' = k then (k', m + n) # t else (k', m) # tally t k n)"

definition most_first :: "('k::linorder \<times> nat) list \<Rightarrow> ('k \<times> nat) list" where
  "most_first t = sort_key (\<lambda>(k, n). (- int n, k)) t"

definition class_totals :: "change_profile \<Rightarrow> (string \<times> nat) list" where
  "class_totals f = most_first (foldl (\<lambda>t ((c, s), n). tally t c n) [] (cr_cells f))"

definition size_totals :: "change_profile \<Rightarrow> (string \<times> nat) list" where
  "size_totals f = most_first (foldl (\<lambda>t ((c, s), n). tally t s n) [] (cr_cells f))"

definition ranked :: "change_profile \<Rightarrow> ((string \<times> string) \<times> nat) list" where
  "ranked f = most_first (cr_cells f)"

record profiled_cell =
  pl_capability_class :: string
  pl_size :: string
  pl_count :: nat
  pl_cell :: capability_cell
  pl_pick :: "config_pick option"

definition deliverable :: "profiled_cell \<Rightarrow> bool" where
  "deliverable pc \<longleftrightarrow> cl_route (pl_cell pc) = ROUTE_DELIVER \<and> pl_pick pc \<noteq> None"

record coverage_summary =
  cy_repo :: string
  cy_total_volume :: nat
  cy_deliver_volume :: nat
  cy_earned_volume :: nat
  cy_volume_by_route :: "(string \<times> nat) list"
  cy_cells :: "profiled_cell list"
  cy_policy_version :: string

definition coverage :: "coverage_summary \<Rightarrow> rat" where
  "coverage cy = (if cy_total_volume cy \<noteq> 0 then of_nat (cy_deliver_volume cy) / of_nat (cy_total_volume cy) else 0)"

definition earned_coverage :: "coverage_summary \<Rightarrow> rat" where
  "earned_coverage cy = (if cy_total_volume cy \<noteq> 0 then of_nat (cy_earned_volume cy) / of_nat (cy_total_volume cy) else 0)"

definition profile_cell ::
    "grade_row list \<Rightarrow> capability_map \<Rightarrow> routing_policy \<Rightarrow> string option \<Rightarrow> reading_book option \<Rightarrow> oracle_by_task \<Rightarrow>
     (string \<times> string) \<times> nat \<Rightarrow> profiled_cell result" where
  "profile_cell rows m p language readings by_task entry = (case entry of ((capability_class, sz), count) \<Rightarrow>
     bind_result (map_get m [(''capability_class'', capability_class), (''size'', sz)]) (\<lambda>cell.
     bind_result (if cl_route cell = ROUTE_DELIVER
         then best_config rows capability_class (Some sz) language p SELECTION_COST_THEN_LATENCY (cm_controls m) readings by_task
         else Inr None) (\<lambda>pick.
     Inr \<lparr>pl_capability_class = capability_class, pl_size = sz, pl_count = count, pl_cell = cell, pl_pick = pick\<rparr>)))"

definition volume :: "(profiled_cell \<Rightarrow> bool) \<Rightarrow> profiled_cell list \<Rightarrow> nat" where
  "volume P pcs = sum_list (map pl_count (filter P pcs))"

definition trusted_autonomy_coverage ::
    "change_profile \<Rightarrow> grade_row list \<Rightarrow> capability_map option \<Rightarrow> routing_policy \<Rightarrow> string option \<Rightarrow> reading_book option \<Rightarrow>
     oracle_by_task \<Rightarrow> coverage_summary result" where
  "trusted_autonomy_coverage f rows cells p language readings by_task =
     bind_result (case cells of Some m \<Rightarrow> Inr m | None \<Rightarrow> build_capability_map rows PROJECTION_CLASS_SIZE p None [] []) (\<lambda>m.
     if cm_projection m \<noteq> PROJECTION_CLASS_SIZE then Inl (ValueError ''class x size'')
     else bind_result (collect (profile_cell rows m p language readings by_task) (ranked f)) (\<lambda>pcs.
       Inr \<lparr>cy_repo = cr_repo f, cy_total_volume = cr_n_commits f, cy_deliver_volume = volume deliverable pcs,
         cy_earned_volume = volume (\<lambda>pc. deliverable pc \<and> earned (pl_cell pc)) pcs,
         cy_volume_by_route = map (\<lambda>s. (s, volume (\<lambda>pc. cl_route (pl_cell pc) = s) pcs)) CELL_STATES,
         cy_cells = pcs, cy_policy_version = rp_version (cm_policy m)\<rparr>))"

end
