(* ===== verification/Signoff.thy ===== *)
theory Signoff
  imports Capability Ledger_Chain
begin

section \<open>The sign-off ledger (\<open>crb/core/signoff.py\<close>)\<close>

text \<open>
  A person's attestation about a scope of cells: the policy it must clear, the refusals in the order
  of the code, the evidence stamped into it, the hash-chained ledger of attestations and revocations,
  and the overlay that lifts the cells an active attestation still covers.

  Parameters: \<open>R\<close>, the redaction of a text; \<open>H\<close>, the SHA-256 of the canonical JSON of a record's hashed
  body; \<open>F\<close>, Python's \<open>float\<close> of a string. Messages are not modelled. The file is the list of its
  records, and a string where the tail read matters.
\<close>

definition SIGNOFF_SCHEMA_V1 :: string where "SIGNOFF_SCHEMA_V1 = ''crb.signoff.v1''"
definition SIGNOFF_SCHEMA_V2 :: string where "SIGNOFF_SCHEMA_V2 = ''crb.signoff.v2''"
definition SIGNOFF_SCHEMA_V3 :: string where "SIGNOFF_SCHEMA_V3 = ''crb.signoff.v3''"
definition SIGNOFF_SCHEMA_V4 :: string where "SIGNOFF_SCHEMA_V4 = ''crb.signoff.v4''"
definition SIGNOFF_SCHEMA :: string where "SIGNOFF_SCHEMA = ''crb.signoff.v5''"
definition SIGNOFF_POLICY_VERSION :: string where "SIGNOFF_POLICY_VERSION = ''signoff-policy.v4''"

definition TIER_RANK :: "string \<Rightarrow> nat" where
  "TIER_RANK t = (if t = TIER_HUMAN_VERIFIED then 1 else if t = TIER_AB_CONFIRMED then 2 else 0)"

definition VERIFIER_KIND_OIDC :: string where "VERIFIER_KIND_OIDC = ''oidc''"
definition VERIFIER_KIND_LOCAL :: string where "VERIFIER_KIND_LOCAL = ''local''"
definition VERIFIER_KIND_SERVICE :: string where "VERIFIER_KIND_SERVICE = ''service''"
definition VERIFIER_KINDS :: "string list" where
  "VERIFIER_KINDS = [VERIFIER_KIND_OIDC, VERIFIER_KIND_LOCAL, VERIFIER_KIND_SERVICE]"

definition verifier_kind_for_issuer :: "string \<Rightarrow> string result" where
  "verifier_kind_for_issuer issuer =
     (if issuer = [] \<or> py_strip issuer = [] then Inl (ValueError ''issuer'')
      else Inr (if py_strip issuer = ''local'' then VERIFIER_KIND_LOCAL else VERIFIER_KIND_OIDC))"

definition NON_PERSON_ACTOR_PREFIXES :: "string list" where
  "NON_PERSON_ACTOR_PREFIXES = [''system'', ''worker'', ''cli:'', ''service:'', ''import'']"

definition is_person_actor :: "string \<Rightarrow> bool" where
  "is_person_actor actor \<longleftrightarrow> (let a = py_strip actor in
     a \<noteq> [] \<and> \<not> list_ex (\<lambda>p. starts_with a p) NON_PERSON_ACTOR_PREFIXES)"

subsection \<open>Refusals\<close>

definition REFUSAL_FALSE_Q1 :: string where "REFUSAL_FALSE_Q1 = ''false_q1''"
definition REFUSAL_SCOPE_MISMATCH :: string where "REFUSAL_SCOPE_MISMATCH = ''scope_mismatch''"
definition REFUSAL_THIN_CELL :: string where "REFUSAL_THIN_CELL = ''thin_cell''"
definition REFUSAL_CONTROLS_UNMEASURED :: string where "REFUSAL_CONTROLS_UNMEASURED = ''controls_unmeasured''"
definition REFUSAL_CONTROLS_FAILED :: string where "REFUSAL_CONTROLS_FAILED = ''controls_failed''"
definition REFUSAL_CONTROLS_ESCAPES :: string where "REFUSAL_CONTROLS_ESCAPES = ''controls_escapes''"
definition REFUSAL_CONTROLS_THIN :: string where "REFUSAL_CONTROLS_THIN = ''controls_thin''"
definition REFUSAL_ORACLE_UNMEASURED :: string where "REFUSAL_ORACLE_UNMEASURED = ''oracle_unmeasured''"
definition REFUSAL_ORACLE_WEAK :: string where "REFUSAL_ORACLE_WEAK = ''oracle_weak''"
definition REFUSAL_ROUTE_NOT_DELIVER :: string where "REFUSAL_ROUTE_NOT_DELIVER = ''route_not_deliver''"
definition REFUSAL_ATTESTATION_MISSING :: string where "REFUSAL_ATTESTATION_MISSING = ''attestation_missing''"
definition REFUSAL_SAME_ACTOR :: string where "REFUSAL_SAME_ACTOR = ''same_actor''"
definition REFUSAL_ATTESTED_ROW_NOT_MEASURED :: string where
  "REFUSAL_ATTESTED_ROW_NOT_MEASURED = ''attested_row_not_measured''"
definition REFUSAL_ATTESTED_ROW_WITHOUT_PACK :: string where
  "REFUSAL_ATTESTED_ROW_WITHOUT_PACK = ''attested_row_without_pack''"
definition REFUSAL_LOOK_PENDING :: string where "REFUSAL_LOOK_PENDING = ''look_pending''"
definition REFUSAL_NOT_STANDARD :: string where "REFUSAL_NOT_STANDARD = ''not_standard''"

definition REFUSAL_CODES :: "string list" where
  "REFUSAL_CODES = [REFUSAL_FALSE_Q1, REFUSAL_SCOPE_MISMATCH, REFUSAL_THIN_CELL, REFUSAL_CONTROLS_UNMEASURED,
     REFUSAL_CONTROLS_FAILED, REFUSAL_CONTROLS_ESCAPES, REFUSAL_CONTROLS_THIN, REFUSAL_ORACLE_UNMEASURED,
     REFUSAL_ORACLE_WEAK, REFUSAL_ROUTE_NOT_DELIVER, REFUSAL_LOOK_PENDING, REFUSAL_NOT_STANDARD,
     REFUSAL_ATTESTATION_MISSING, REFUSAL_ATTESTED_ROW_NOT_MEASURED, REFUSAL_ATTESTED_ROW_WITHOUT_PACK,
     REFUSAL_SAME_ACTOR]"

definition NON_OVERRIDABLE_REFUSALS :: "string list" where
  "NON_OVERRIDABLE_REFUSALS = [REFUSAL_FALSE_Q1, REFUSAL_ORACLE_UNMEASURED, REFUSAL_ATTESTATION_MISSING,
     REFUSAL_ATTESTED_ROW_NOT_MEASURED, REFUSAL_ATTESTED_ROW_WITHOUT_PACK, REFUSAL_SAME_ACTOR,
     REFUSAL_LOOK_PENDING, REFUSAL_NOT_STANDARD]"

definition refusal_family :: "string \<Rightarrow> string" where
  "refusal_family code = fst (split_once CHR '':'' code)"

record signoff_refusal =
  sx_code :: string
  sx_threshold :: shown
  sx_observed :: shown

definition SignoffRefusal :: "string \<Rightarrow> shown \<Rightarrow> shown \<Rightarrow> signoff_refusal result" where
  "SignoffRefusal code threshold observed = guarded
     [(refusal_family code \<notin> set REFUSAL_CODES, ValueError ''refusal code'')]
     \<lparr>sx_code = code, sx_threshold = threshold, sx_observed = observed\<rparr>"

definition overridable :: "signoff_refusal \<Rightarrow> bool" where
  "overridable x \<longleftrightarrow> refusal_family (sx_code x) \<notin> set NON_OVERRIDABLE_REFUSALS"

text \<open>The exception carries its code.\<close>

definition SignoffRefused :: "string \<Rightarrow> exn" where
  "SignoffRefused code = OtherError (''SignoffRefused '' @ code)"

subsection \<open>The policy\<close>

record signoff_policy =
  gp_n_min :: int
  gp_require_route_deliver :: bool
  gp_require_controls_passed :: bool
  gp_max_controls_escapes :: int
  gp_min_constructible_share :: rat
  gp_min_oracle_strength :: rat
  gp_require_oracle_measured :: bool
  gp_require_attestation :: bool
  gp_require_independent_verifier :: bool
  gp_policy_version :: string

definition in_bounds :: "'a::linorder \<Rightarrow> 'a \<Rightarrow> 'a \<Rightarrow> bool" where
  "in_bounds lo hi v \<longleftrightarrow> lo \<le> v \<and> v \<le> hi"

definition SignoffPolicy :: "signoff_policy \<Rightarrow> signoff_policy result" where
  "SignoffPolicy p = guarded
     [(\<not> gp_require_attestation p, ValueError ''require_attestation''),
      (\<not> gp_require_oracle_measured p, ValueError ''require_oracle_measured''),
      (\<not> gp_require_independent_verifier p, ValueError ''require_independent_verifier''),
      (\<not> in_bounds 1 10000 (gp_n_min p), ValueError ''n_min''),
      (\<not> in_bounds 0 100 (gp_max_controls_escapes p), ValueError ''max_controls_escapes''),
      (\<not> in_bounds 0 1 (gp_min_constructible_share p), ValueError ''min_constructible_share''),
      (\<not> in_bounds 0 1 (gp_min_oracle_strength p), ValueError ''min_oracle_strength''),
      (gp_policy_version p = [], ValueError ''policy_version'')] p"

definition DEFAULT_SIGNOFF_POLICY :: signoff_policy where
  "DEFAULT_SIGNOFF_POLICY = \<lparr>gp_n_min = 10, gp_require_route_deliver = True, gp_require_controls_passed = True,
     gp_max_controls_escapes = 0, gp_min_constructible_share = 5 / 10, gp_min_oracle_strength = 80 / 100,
     gp_require_oracle_measured = True, gp_require_attestation = True, gp_require_independent_verifier = True,
     gp_policy_version = SIGNOFF_POLICY_VERSION\<rparr>"

text \<open>The thresholds in force are the policy but for its version.\<close>

definition thresholds :: "signoff_policy \<Rightarrow> signoff_policy" where
  "thresholds p = p\<lparr>gp_policy_version := []\<rparr>"

definition gp_relaxed :: "signoff_policy \<Rightarrow> bool" where
  "gp_relaxed p \<longleftrightarrow> thresholds p \<noteq> thresholds DEFAULT_SIGNOFF_POLICY"

definition POLICY_ENV_PREFIX :: string where "POLICY_ENV_PREFIX = ''CRB_SIGNOFF__''"

definition env_raw :: "dict \<Rightarrow> string \<Rightarrow> string option" where
  "env_raw env name = (case map_of env (POLICY_ENV_PREFIX @ name) of None \<Rightarrow> None
     | Some v \<Rightarrow> if py_strip v = [] then None else Some (py_strip v))"

definition env_value :: "dict \<Rightarrow> string \<Rightarrow> (string \<Rightarrow> 'a option) \<Rightarrow> ('a \<Rightarrow> signoff_policy \<Rightarrow> signoff_policy) \<Rightarrow>
    signoff_policy \<Rightarrow> signoff_policy result" where
  "env_value env name parse set_field p = (case env_raw env name of None \<Rightarrow> Inr p
     | Some raw \<Rightarrow> (case parse raw of None \<Rightarrow> Inl (ValueError name) | Some v \<Rightarrow> Inr (set_field v p)))"

definition env_bool :: "string \<Rightarrow> bool option" where
  "env_bool raw = (let l = py_lower raw in
     if l \<in> {''1'', ''true'', ''yes'', ''on''} then Some True
     else if l \<in> {''0'', ''false'', ''no'', ''off''} then Some False else None)"

definition policy_from_env :: "(string \<Rightarrow> rat option) \<Rightarrow> dict \<Rightarrow> signoff_policy result" where
  "policy_from_env F env =
     bind_result (env_value env ''N_MIN'' py_int (\<lambda>v p. p\<lparr>gp_n_min := v\<rparr>) DEFAULT_SIGNOFF_POLICY) (\<lambda>p.
     bind_result (env_value env ''MAX_CONTROLS_ESCAPES'' py_int (\<lambda>v p. p\<lparr>gp_max_controls_escapes := v\<rparr>) p) (\<lambda>p.
     bind_result (env_value env ''MIN_CONSTRUCTIBLE_SHARE'' F (\<lambda>v p. p\<lparr>gp_min_constructible_share := v\<rparr>) p) (\<lambda>p.
     bind_result (env_value env ''MIN_ORACLE_STRENGTH'' F (\<lambda>v p. p\<lparr>gp_min_oracle_strength := v\<rparr>) p) (\<lambda>p.
     bind_result (env_value env ''REQUIRE_ROUTE_DELIVER'' env_bool (\<lambda>v p. p\<lparr>gp_require_route_deliver := v\<rparr>) p) (\<lambda>p.
     bind_result (env_value env ''REQUIRE_CONTROLS_PASSED'' env_bool (\<lambda>v p. p\<lparr>gp_require_controls_passed := v\<rparr>) p) (\<lambda>p.
     bind_result (env_value env ''REQUIRE_ORACLE_MEASURED'' env_bool (\<lambda>v p. p\<lparr>gp_require_oracle_measured := v\<rparr>) p) (\<lambda>p.
     bind_result (env_value env ''REQUIRE_ATTESTATION'' env_bool (\<lambda>v p. p\<lparr>gp_require_attestation := v\<rparr>) p) (\<lambda>p.
     bind_result (env_value env ''REQUIRE_INDEPENDENT_VERIFIER'' env_bool
       (\<lambda>v p. p\<lparr>gp_require_independent_verifier := v\<rparr>) p) SignoffPolicy))))))))"

subsection \<open>Attestations and records\<close>

record attestation =
  at_reviewed_task_id :: string
  at_reviewed_row_hash :: string
  at_statement :: string
  at_at :: string

definition Attestation :: "(string \<Rightarrow> string) \<Rightarrow> attestation \<Rightarrow> attestation result" where
  "Attestation R a = guarded
     [(at_reviewed_task_id a = [], ValueError ''reviewed_task_id''),
      (at_reviewed_row_hash a = [], ValueError ''reviewed_row_hash''),
      (at_statement a = [] \<or> py_strip (at_statement a) = [], ValueError ''statement'')]
     (a\<lparr>at_statement := R (py_strip (at_statement a))\<rparr>)"

record signoff_record =
  so_repo :: string
  so_scope :: cell_key
  so_verifier :: string
  so_tier :: string
  so_note :: string
  so_revoked :: bool
  so_verified_at :: string
  so_n :: nat
  so_point :: rat
  so_false_q1 :: nat
  so_apparatus_version :: string
  so_ci_low :: real
  so_oracle_strength :: "rat option"
  so_policy_version :: string
  so_policy_thresholds :: "signoff_policy option"
  so_route :: string
  so_route_reason_code :: string
  so_controls_verdict :: string
  so_controls_run_id :: string
  so_controls_k :: int
  so_controls_total :: int
  so_controls_escapes :: int
  so_attestation :: "attestation option"
  so_verifier_kind :: string
  so_checks_arm :: string
  so_posture_class :: string
  so_n_tasks :: nat
  so_task_clean :: nat
  so_task_ci :: interval
  so_oracle_scored_tasks :: int
  so_oracle_share :: rat
  so_controls_apparatus :: string
  so_context_arm :: string
  so_taxonomy :: string
  so_reading_id :: string
  so_schema :: string
  so_record_id :: string
  so_prev_hash :: string
  so_row_hash :: string

definition SignoffRecord :: "(string \<Rightarrow> string) \<Rightarrow> signoff_record \<Rightarrow> signoff_record result" where
  "SignoffRecord R r = guarded
     [(so_repo r = [], ValueError ''repo''),
      (ck_capability_class (so_scope r) = [] \<or> ck_capability_class (so_scope r) = WILDCARD, ValueError ''capability_class''),
      (so_verifier r = [], ValueError ''verifier''),
      (so_verifier_kind r \<noteq> [] \<and> so_verifier_kind r \<notin> set VERIFIER_KINDS, ValueError ''verifier_kind''),
      (so_tier r \<notin> set EARNED_TIERS, ValueError ''tier''),
      (so_checks_arm r \<noteq> [] \<and> so_checks_arm r \<notin> set ARMS, ValueError ''checks_arm''),
      (so_false_q1 r > 0 \<and> \<not> so_revoked r, SignoffRefused REFUSAL_FALSE_Q1)]
     (r\<lparr>so_note := R (so_note r)\<rparr>)"

definition so_key :: "signoff_record \<Rightarrow> string \<times> cell_key" where
  "so_key r = (so_repo r, so_scope r)"

definition so_matches :: "signoff_record \<Rightarrow> capability_cell \<Rightarrow> string \<Rightarrow> bool" where
  "so_matches r c repo \<longleftrightarrow> (so_repo r = WILDCARD \<or> so_repo r = repo) \<and> key_matches (so_scope r) (cl_key c)"

definition covers_apparatus :: "signoff_record \<Rightarrow> capability_cell \<Rightarrow> bool" where
  "covers_apparatus r c = (let
       stamped = filter (\<lambda>v. v \<noteq> []) (map py_strip (split_on CHR '','' (so_apparatus_version r)));
       current = (case cl_stats c of Some s \<Rightarrow> cs_apparatus_versions s | None \<Rightarrow> [])
     in current = [] \<or> stamped \<noteq> [] \<and> list_all (\<lambda>v. v \<in> set stamped) current)"

definition so_arm :: "signoff_record \<Rightarrow> string" where
  "so_arm r = (if so_checks_arm r \<noteq> [] then so_checks_arm r else ARM_OFF)"

definition covers_arm :: "signoff_record \<Rightarrow> capability_cell \<Rightarrow> bool" where
  "covers_arm r c = (case cl_stats c of None \<Rightarrow> True | Some s \<Rightarrow> cs_checks_arm s = so_arm r)"

definition covers_posture :: "signoff_record \<Rightarrow> capability_cell \<Rightarrow> bool" where
  "covers_posture r c = (so_posture_class r = [] \<or>
     (case cl_stats c of None \<Rightarrow> True | Some s \<Rightarrow> join_with '','' (cs_posture_classes s) = so_posture_class r))"

definition covers_reading :: "signoff_record \<Rightarrow> capability_cell \<Rightarrow> bool" where
  "covers_reading r c = (case cl_stats c of None \<Rightarrow> True
     | Some s \<Rightarrow> so_context_arm r = [] \<and> so_taxonomy r = [] \<and> so_reading_id r = [] \<or>
         so_context_arm r = cs_context_arm s \<and> so_taxonomy r = cs_taxonomy s \<and>
         so_reading_id r = (case cl_decision c of Some d \<Rightarrow> dc_reading_id d | None \<Rightarrow> []))"

definition covers :: "signoff_record \<Rightarrow> capability_cell \<Rightarrow> bool" where
  "covers r c \<longleftrightarrow> covers_apparatus r c \<and> covers_arm r c \<and> covers_posture r c \<and> covers_reading r c"

definition is_stale :: "signoff_record \<Rightarrow> capability_cell \<Rightarrow> bool" where
  "is_stale r c \<longleftrightarrow> \<not> covers r c"

subsection \<open>The hashed body\<close>

text \<open>A record of an older schema hashes the fields of that schema: each step leaves out the fields
  the next schema added.\<close>

definition v4_body :: "signoff_record \<Rightarrow> signoff_record" where
  "v4_body r = r\<lparr>so_n_tasks := 0, so_task_clean := 0, so_task_ci := \<lparr>low = 0, high = 1\<rparr>, so_oracle_scored_tasks := 0,
     so_oracle_share := 0, so_controls_apparatus := [], so_context_arm := [], so_taxonomy := [], so_reading_id := []\<rparr>"

definition v3_body :: "signoff_record \<Rightarrow> signoff_record" where
  "v3_body r = (v4_body r)\<lparr>so_checks_arm := [], so_posture_class := []\<rparr>"

definition v2_body :: "signoff_record \<Rightarrow> signoff_record" where
  "v2_body r = (v3_body r)\<lparr>so_verifier_kind := []\<rparr>"

definition v1_body :: "signoff_record \<Rightarrow> signoff_record" where
  "v1_body r = (v2_body r)\<lparr>so_ci_low := 0, so_oracle_strength := None, so_policy_version := [],
     so_policy_thresholds := None, so_route := [], so_route_reason_code := [], so_controls_verdict := [],
     so_controls_run_id := [], so_controls_k := 0, so_controls_total := 0, so_controls_escapes := 0,
     so_attestation := None\<rparr>"

definition schema_body :: "signoff_record \<Rightarrow> signoff_record" where
  "schema_body r = (if so_schema r = SIGNOFF_SCHEMA_V1 then v1_body r else if so_schema r = SIGNOFF_SCHEMA_V2 then v2_body r
     else if so_schema r = SIGNOFF_SCHEMA_V3 then v3_body r else if so_schema r = SIGNOFF_SCHEMA_V4 then v4_body r else r)"

definition so_body :: "signoff_record \<Rightarrow> signoff_record" where
  "so_body r = (schema_body r)\<lparr>so_row_hash := []\<rparr>"

definition so_compute_hash :: "(signoff_record \<Rightarrow> string) \<Rightarrow> signoff_record \<Rightarrow> string" where
  "so_compute_hash H r = H (so_body r)"

definition so_verify_hash :: "(signoff_record \<Rightarrow> string) \<Rightarrow> signoff_record \<Rightarrow> bool" where
  "so_verify_hash H r \<longleftrightarrow> so_row_hash r \<noteq> [] \<and> so_row_hash r = so_compute_hash H r"

definition so_chained :: "(string \<Rightarrow> string) \<Rightarrow> (signoff_record \<Rightarrow> string) \<Rightarrow> signoff_record \<Rightarrow> string \<Rightarrow> signoff_record result" where
  "so_chained R H r prev = bind_result (SignoffRecord R (r\<lparr>so_prev_hash := prev\<rparr>))
     (\<lambda>rec. Inr (rec\<lparr>so_row_hash := so_compute_hash H rec\<rparr>))"

subsection \<open>Stamping the evidence\<close>

definition resolve_oracle_strength :: "capability_cell \<Rightarrow> route_decision option \<Rightarrow> rat option \<Rightarrow> rat option" where
  "resolve_oracle_strength c d strength = (case strength of Some x \<Rightarrow> Some x
     | None \<Rightarrow> (case (if d = None then cl_decision c else d) of Some d \<Rightarrow> dc_oracle_strength d | None \<Rightarrow> None))"

definition decision_read :: "capability_cell \<Rightarrow> route_decision option \<Rightarrow> route_decision option" where
  "decision_read c d = (if d \<noteq> None then d else cl_decision c)"

definition verdict_of_controls :: "controls_verdict option \<Rightarrow> route_decision option \<Rightarrow> controls_verdict option" where
  "verdict_of_controls controls d = (if controls \<noteq> None then controls else map_option dc_controls d)"

definition controls_state :: "controls_verdict option \<Rightarrow> signoff_policy \<Rightarrow> string" where
  "controls_state c p = (case c of None \<Rightarrow> ''unmeasured''
     | Some c \<Rightarrow> cv_state c (gp_min_constructible_share p) (gp_max_controls_escapes p))"

definition from_some :: "('a \<Rightarrow> 'b) \<Rightarrow> 'b \<Rightarrow> 'a option \<Rightarrow> 'b" where
  "from_some f d x = (case x of Some y \<Rightarrow> f y | None \<Rightarrow> d)"

definition stamp_evidence ::
    "(string \<Rightarrow> string) \<Rightarrow> signoff_record \<Rightarrow> capability_cell \<Rightarrow> controls_verdict option \<Rightarrow> route_decision option \<Rightarrow>
     rat option \<Rightarrow> signoff_policy \<Rightarrow> signoff_record result" where
  "stamp_evidence R r c controls d strength p = (case cl_stats c of
       None \<Rightarrow> Inl (SignoffRefused REFUSAL_THIN_CELL)
     | Some s \<Rightarrow>
       (let d = decision_read c d; v = verdict_of_controls controls d in
        SignoffRecord R (r\<lparr>so_n_tasks := cs_n_tasks s, so_task_clean := cs_task_clean s, so_task_ci := cs_task_ci s,
          so_oracle_scored_tasks := from_some dc_oracle_scored_tasks 0 d, so_oracle_share := from_some dc_oracle_share 0 d,
          so_controls_apparatus := from_some cv_apparatus_version [] v, so_context_arm := cs_context_arm s,
          so_taxonomy := cs_taxonomy s, so_reading_id := from_some av_reading_id [] (cl_verdict c), so_n := cs_n s,
          so_point := cs_point s, so_ci_low := low (cs_ci s), so_false_q1 := cs_false_q1 s,
          so_apparatus_version := (let a = join_with '','' (cs_apparatus_versions s) in if a \<noteq> [] then a else so_apparatus_version r),
          so_checks_arm := cs_checks_arm s, so_posture_class := join_with '','' (cs_posture_classes s),
          so_oracle_strength := resolve_oracle_strength c d strength, so_policy_version := gp_policy_version p,
          so_policy_thresholds := Some (thresholds p), so_route := from_some dc_route [] d,
          so_route_reason_code := from_some dc_reason_code [] d, so_controls_verdict := controls_state v p,
          so_controls_run_id := from_some cv_run_id [] v, so_controls_k := from_some cv_constructible 0 v,
          so_controls_total := from_some cv_total 0 v, so_controls_escapes := from_some cv_escapes 0 v\<rparr>)))"

subsection \<open>The policy decision\<close>

type_synonym clause = "string \<times> shown \<times> shown"

record signoff_call =
  sa_controls :: "controls_verdict option"
  sa_decision :: "route_decision option"
  sa_oracle_strength :: "rat option"
  sa_policy :: signoff_policy
  sa_repo :: string
  sa_attested_actors :: "string list option"
  sa_cell_actors :: "string list option"

definition same_actor_refusal :: "signoff_record \<Rightarrow> string list option \<Rightarrow> string list option \<Rightarrow> clause list" where
  "same_actor_refusal r attested cell_actors =
     (let who = so_verifier r; refused = [(REFUSAL_SAME_ACTOR, Text ''a second person'', Text who)] in
      if \<not> is_person_actor who then []
      else if (case attested of Some actors \<Rightarrow> who \<in> set (filter is_person_actor actors) | None \<Rightarrow> False) then refused
      else (case cell_actors of None \<Rightarrow> []
        | Some actors \<Rightarrow> let people = filter is_person_actor actors in
            if people \<noteq> [] \<and> list_all (\<lambda>a. a = who) people then refused else []))"

definition thin_clause :: "capability_cell \<Rightarrow> signoff_policy \<Rightarrow> clause list" where
  "thin_clause c p = (let n = (case cl_stats c of Some s \<Rightarrow> int (cs_n_tasks s) | None \<Rightarrow> 0) in
     if n < gp_n_min p then [(REFUSAL_THIN_CELL, Count (gp_n_min p), Count n)] else [])"

definition signoff_controls_clauses :: "controls_verdict option \<Rightarrow> signoff_policy \<Rightarrow> clause list" where
  "signoff_controls_clauses v p =
     (if \<not> gp_require_controls_passed p then []
      else case v of None \<Rightarrow> [(REFUSAL_CONTROLS_UNMEASURED, Text ''measured'', Text ''unmeasured'')]
        | Some c \<Rightarrow>
          if \<not> cv_measured c then [(REFUSAL_CONTROLS_UNMEASURED, Text ''measured'', Text ''unmeasured'')]
          else (if \<not> cv_passed c then [(REFUSAL_CONTROLS_FAILED, Text ''passed'', Text ''failed'')] else []) @
            (if cv_escapes c > gp_max_controls_escapes p
             then [(REFUSAL_CONTROLS_ESCAPES, Count (gp_max_controls_escapes p), Count (cv_escapes c))] else []) @
            (if cv_thin c (gp_min_constructible_share p)
             then [(REFUSAL_CONTROLS_THIN, Share (gp_min_constructible_share p), Share (cv_share c))] else []))"

definition signoff_oracle_clause :: "rat option \<Rightarrow> signoff_policy \<Rightarrow> clause list" where
  "signoff_oracle_clause strength p = (case strength of
       None \<Rightarrow> [(REFUSAL_ORACLE_UNMEASURED, Text ''measured'', Nothing)]
     | Some x \<Rightarrow> if x < gp_min_oracle_strength p
         then [(REFUSAL_ORACLE_WEAK, Share (gp_min_oracle_strength p), Share x)] else [])"

definition route_clause :: "route_decision option \<Rightarrow> signoff_policy \<Rightarrow> clause list" where
  "route_clause d p =
     (if \<not> gp_require_route_deliver p then []
      else case d of None \<Rightarrow> [(REFUSAL_ROUTE_NOT_DELIVER @ '':unrouted'', Text ROUTE_DELIVER, Text [])]
        | Some d \<Rightarrow> if dc_route d = ROUTE_DELIVER then []
            else [(REFUSAL_ROUTE_NOT_DELIVER @ '':'' @ (if dc_reason_code d \<noteq> [] then dc_reason_code d else ''unknown''),
              Text ROUTE_DELIVER, Text (dc_route d))])"

definition standard_clause :: "capability_cell \<Rightarrow> clause list" where
  "standard_clause c = (let state = from_some av_state ''reading_unregistered'' (cl_verdict c) in
     if state = ''look_pending'' then [(REFUSAL_LOOK_PENDING, Text ''deliver'', Text state)]
     else if state \<noteq> ''deliver'' then [(REFUSAL_NOT_STANDARD @ '':'' @ state, Text ''standard arm, reading deliver'', Text state)]
     else [])"

definition attestation_clause :: "signoff_record \<Rightarrow> signoff_policy \<Rightarrow> clause list" where
  "attestation_clause r p = (if gp_require_attestation p \<and> so_attestation r = None
     then [(REFUSAL_ATTESTATION_MISSING, Text ''reviewed_row_hash + statement'', Text [])] else [])"

definition independence_clause :: "signoff_record \<Rightarrow> signoff_call \<Rightarrow> clause list" where
  "independence_clause r a = (if gp_require_independent_verifier (sa_policy a)
     then same_actor_refusal r (sa_attested_actors a) (sa_cell_actors a) else [])"

definition policy_clauses :: "signoff_record \<Rightarrow> capability_cell \<Rightarrow> signoff_call \<Rightarrow> clause list" where
  "policy_clauses r c a =
     (let p = sa_policy a; d = decision_read c (sa_decision a) in
      thin_clause c p @ signoff_controls_clauses (verdict_of_controls (sa_controls a) d) p @
      signoff_oracle_clause (resolve_oracle_strength c d (sa_oracle_strength a)) p @ route_clause d p @
      standard_clause c @ attestation_clause r p @ independence_clause r a)"

definition signoff_clauses :: "signoff_record \<Rightarrow> capability_cell \<Rightarrow> signoff_call \<Rightarrow> clause list" where
  "signoff_clauses r c a =
     (if so_revoked r then []
      else if \<not> so_matches r c (sa_repo a) then [(REFUSAL_SCOPE_MISMATCH, Nothing, Nothing)]
      else if cl_false_q1 c > 0 \<or> so_false_q1 r > 0
        then [(REFUSAL_FALSE_Q1, Count 0, Count (int (max (cl_false_q1 c) (so_false_q1 r))))]
      else policy_clauses r c a)"

definition evaluate_signoff :: "signoff_record \<Rightarrow> capability_cell \<Rightarrow> signoff_call \<Rightarrow> signoff_refusal list result" where
  "evaluate_signoff r c a = collect (\<lambda>(code, threshold, observed). SignoffRefusal code threshold observed) (signoff_clauses r c a)"

definition check_signable :: "signoff_record \<Rightarrow> capability_cell \<Rightarrow> signoff_call \<Rightarrow> unit result" where
  "check_signable r c a = bind_result (evaluate_signoff r c a) (\<lambda>refusals. case refusals of
     [] \<Rightarrow> Inr () | x # _ \<Rightarrow> Inl (SignoffRefused (sx_code x)))"

subsection \<open>The ledger\<close>

type_synonym signoff_file = "signoff_record list"

definition so_last_hash :: "signoff_file \<Rightarrow> string result" where
  "so_last_hash file = (if file = [] then Inr GENESIS_HASH
     else if so_row_hash (last file) = [] then Inl (LedgerIntegrityError ''no row_hash'') else Inr (so_row_hash (last file)))"

definition so_append ::
    "(string \<Rightarrow> string) \<Rightarrow> (signoff_record \<Rightarrow> string) \<Rightarrow> signoff_file \<Rightarrow> signoff_record \<Rightarrow> capability_cell option \<Rightarrow>
     signoff_call \<Rightarrow> (signoff_file \<times> signoff_record) result" where
  "so_append R H file r cell a =
     bind_result (if so_revoked r then Inr r
       else case cell of None \<Rightarrow> Inl (SignoffRefused REFUSAL_THIN_CELL)
         | Some c \<Rightarrow> bind_result (check_signable r c (a\<lparr>sa_decision := None\<rparr>)) (\<lambda>_.
             stamp_evidence R r c (sa_controls a) None (sa_oracle_strength a) (sa_policy a))) (\<lambda>rec.
     bind_result (so_last_hash file) (\<lambda>h.
     bind_result (so_chained R H rec h) (\<lambda>chained. Inr (file @ [chained], chained))))"

fun so_verify_from :: "(signoff_record \<Rightarrow> string) \<Rightarrow> string \<Rightarrow> nat \<Rightarrow> signoff_record list \<Rightarrow> nat result" where
  "so_verify_from H prev n [] = Inr n"
| "so_verify_from H prev n (r # rs) =
     (if so_prev_hash r \<noteq> prev then Inl (LedgerIntegrityError ''prev_hash mismatch'')
      else if \<not> so_verify_hash H r then Inl (LedgerIntegrityError ''row_hash mismatch'')
      else so_verify_from H (so_row_hash r) (Suc n) rs)"

definition verify_signoff_chain :: "(signoff_record \<Rightarrow> string) \<Rightarrow> signoff_record list \<Rightarrow> nat result" where
  "verify_signoff_chain H records = so_verify_from H GENESIS_HASH 0 records"

text \<open>The tail read of \<open>_last_hash\<close>: one window of 65536 over the end of the text, counted in
  characters here and in bytes in the code.\<close>

definition signoff_last_line :: "string \<Rightarrow> string" where
  "signoff_last_line text =
     (case find (\<lambda>l. py_strip l \<noteq> []) (rev (splitlines (tail_chunk text (min (length text) 65536)))) of
        None \<Rightarrow> [] | Some l \<Rightarrow> l)"

subsection \<open>The overlay\<close>

fun put_latest :: "('k \<times> 'v) list \<Rightarrow> 'k \<Rightarrow> 'v \<Rightarrow> ('k \<times> 'v) list" where
  "put_latest [] k v = [(k, v)]"
| "put_latest ((k', v') # d) k v = (if k' = k then (k, v) # d else (k', v') # put_latest d k v)"

definition latest_records :: "signoff_record list \<Rightarrow> ((string \<times> cell_key) \<times> signoff_record) list" where
  "latest_records records = foldl (\<lambda>d r. put_latest d (so_key r) r) [] records"

definition active_signoffs :: "signoff_record list \<Rightarrow> signoff_record list" where
  "active_signoffs records = filter (\<lambda>r. \<not> so_revoked r) (map snd (latest_records records))"

text \<open>\<open>max\<close> with a key: the first of the highest.\<close>

fun highest_tier :: "string \<Rightarrow> string list \<Rightarrow> string" where
  "highest_tier best [] = best"
| "highest_tier best (t # ts) = highest_tier (if TIER_RANK t > TIER_RANK best then t else best) ts"

definition lifting :: "signoff_record list \<Rightarrow> capability_cell \<Rightarrow> string \<Rightarrow> signoff_record list" where
  "lifting active c repo = filter (\<lambda>r. so_matches r c repo \<and> covers r c) active"

definition lift_cell :: "signoff_record list \<Rightarrow> string \<Rightarrow> capability_cell \<Rightarrow> capability_cell result" where
  "lift_cell active repo c =
     (if cl_stats c = None \<or> cl_false_q1 c > 0 then Inr c
      else case map so_tier (lifting active c repo) of [] \<Rightarrow> Inr c
        | t # ts \<Rightarrow> let best = highest_tier t ts in
            if TIER_RANK best > from_some TIER_RANK 0 (cl_tier c) then with_tier c best else Inr c)"

definition apply_signoffs :: "capability_cell list \<Rightarrow> signoff_record list \<Rightarrow> string \<Rightarrow> capability_cell list result" where
  "apply_signoffs cells signoffs repo = collect (lift_cell (active_signoffs signoffs) repo) cells"

definition apply_signoffs_to_map :: "capability_map \<Rightarrow> signoff_record list \<Rightarrow> string \<Rightarrow> capability_map result" where
  "apply_signoffs_to_map m signoffs repo = bind_result (apply_signoffs (cm_cells m) signoffs repo) (with_cells m)"

end
