(* ===== verification/Capability_Correct.thy ===== *)
theory Capability_Correct
  imports Capability Routing_Correct "HOL-Library.Multiset"
begin

section \<open>The capability map: licences, accounting and coverage\<close>

text \<open>
  What a delivered cell of the map rests on, from the ledger's rows to the registered reading; that the
  map counts every row once; the configuration picked for a class; and the coverage of a change profile,
  with the divergence of its only caller, which hands over no readings.
\<close>

lemma CapabilityCell_Inr [simp]: "CapabilityCell c = Inr c' \<longleftrightarrow> c' = c \<and>
    (\<exists>p. check_projection (cl_projection c) = Inr p) \<and> (case cl_tier c of Some t \<Rightarrow> t \<in> set TIERS | None \<Rightarrow> True) \<and>
    ((cl_stats c = None) = (cl_decision c = None)) \<and> (cl_stats c = None \<longrightarrow> cl_tier c = None) \<and>
    (cl_false_q1 c > 0 \<longrightarrow> cl_tier c = Some TIER_UNTRUSTED)"
  by (auto simp: CapabilityCell_def split: option.splits)

lemma check_projection_Inr: "check_projection proj = Inr p \<longleftrightarrow> p = proj \<and> proj \<noteq> [] \<and> set proj \<subseteq> set CELL_FIELDS"
  by (auto simp: check_projection_def list_all_iff)

subsection \<open>What measuring a cell reads\<close>

lemma measure_cell_parts:
  assumes "measure_cell rows proj p controls by_task book = Inr c"
  obtains stats v ora d where "cell_stats rows = Inr stats" and "cl_stats c = Some (stats\<lparr>cs_cell := cl_key c\<rparr>)"
    and "verdict_for (outcome_for_rows book rows) (cs_context_arm stats) = Inr v"
    and "route (stats\<lparr>cs_cell := cl_key c\<rparr>) (Some ora) controls (Some v) p = Inr d" and "cl_decision c = Some d"
    and "cl_verdict c = Some v" and "cl_reading c = outcome_for_rows book rows" and "cl_projection c = proj"
    and "cl_rows c = length rows" and "rows \<noteq> []" and "projected_key (key_dict (row_cell (hd rows))) proj = Inr (cl_key c)"
    and "cl_tier c = Some (if cs_false_q1 stats > 0 then TIER_UNTRUSTED else TIER_AUTOMATED_PASS)"
proof -
  have ne: "rows \<noteq> []" using assms by (cases rows) (simp_all add: measure_cell_def)
  from assms show thesis
    unfolding measure_cell_def Let_def bind_result_Inr if_not_P [OF ne]
  proof (elim exE conjE)
    fix proj' st v counted ora d
    assume proj: "check_projection proj = Inr proj'" and st: "projected_stats rows proj' = Inr st"
      and v: "verdict_for (outcome_for_rows book rows) (cs_context_arm st) = Inr v"
      and d: "route st (Some ora) controls (Some v) p = Inr d"
      and c: "CapabilityCell \<lparr>cl_key = cs_cell st, cl_projection = proj', cl_stats = Some st, cl_decision = Some d,
        cl_tier = Some (if cs_false_q1 st > 0 then TIER_UNTRUSTED else TIER_AUTOMATED_PASS),
        cl_repos = length (dedup (map row_repo rows)), cl_rows = length rows,
        cl_belt_sets = sort (dedup (map row_belt_set rows)),
        cl_cost_known = (filter row_cost_known (filter row_eligible rows) \<noteq> []),
        cl_latency_known = (filter cell_latency_known (filter row_eligible rows) \<noteq> []),
        cl_rows_imported = count_if (\<lambda>r. row_provenance r \<noteq> PROVENANCE_MEASURED) rows,
        cl_verdict = Some v, cl_oracle = Some ora, cl_reading = outcome_for_rows book rows\<rparr> = Inr c"
    from proj have p': "proj' = proj" by (simp only: check_projection_Inr)
    from st obtain stats k where stats: "cell_stats rows = Inr stats"
      and k: "projected_key (key_dict (row_cell (hd rows))) proj = Inr k" and st': "st = stats\<lparr>cs_cell := k\<rparr>"
      unfolding projected_stats_def bind_result_Inr p' by blast
    note cell = c [unfolded CapabilityCell_Inr]
    show thesis
      by (rule that [of stats v ora d]) (use cell stats k v d ne in \<open>simp_all add: st' p'\<close>)
  qed
qed

lemma unregistered_not_delivered:
  assumes "av_state v = VERDICT_UNREGISTERED" and "route stats ora_opt controls (Some v) p = Inr d"
  shows "dc_route d \<noteq> ROUTE_DELIVER"
proof
  assume del: "dc_route d = ROUTE_DELIVER"
  have v: "verdict_read stats (Some v) = v" by (simp add: verdict_read_def)
  have rs: "av_state v \<in> set router_states" by (simp add: assms(1) router_states_def)
  have "failing_codes stats (oracle_read v ora_opt) (controls_read stats controls) v p = []"
    using deliver_needs [of stats "Some v", unfolded v, OF rs assms(2) del] .
  then have "av_state v = VERDICT_DELIVER"
    using failing_none [OF rs [unfolded router_states_def list.set]] by blast
  with assms(1) show False using verdict_states_distinct by simp
qed

lemma no_reading_no_delivery:
  assumes "measure_cell rows proj p controls by_task book = Inr c" and "outcome_for_rows book rows = None"
  shows "cl_route c \<noteq> ROUTE_DELIVER"
  using assms(1)
proof (rule measure_cell_parts)
  fix stats v ora d
  assume v: "verdict_for (outcome_for_rows book rows) (cs_context_arm stats) = Inr v"
    and d: "route (stats\<lparr>cs_cell := cl_key c\<rparr>) (Some ora) controls (Some v) p = Inr d" "cl_decision c = Some d"
  have "av_state v = VERDICT_UNREGISTERED"
    using v by (auto simp: assms(2) verdict_for_def ArmVerdict_def)
  with d show ?thesis by (simp add: cl_route_def unregistered_not_delivered)
qed

lemma one_of_all: "one_of (map f rows) \<Longrightarrow> r \<in> set rows \<Longrightarrow> f r = f (hd rows)"
proof -
  assume "one_of (map f rows)" and r: "r \<in> set rows"
  then obtain v where "dedup (map f rows) = [v]" by (auto simp: one_of_def length_Suc_conv)
  then have "\<forall>y \<in> set (map f rows). y = v" using dedup_same by metis
  with r hd_in_set [of rows] show "f r = f (hd rows)" by fastforce
qed

lemma outcome_for_rows_scope:
  assumes "outcome_for_rows book rows = Some oc" and "r \<in> set rows"
  shows "oc \<in> set book \<and> rd_repo (oc_reading oc) = row_repo r \<and>
    rd_cell_key (oc_reading oc) = canonical_cell_key (key_dict (row_cell r)) \<and>
    rd_checks_arm (oc_reading oc) = row_checks_arm r \<and> rd_posture_class (oc_reading oc) = row_posture_class r \<and>
    rd_apparatus (oc_reading oc) = row_apparatus_version (hd rows) \<and> rd_taxonomy (oc_reading oc) = row_taxonomy (hd rows)"
proof -
  from assms(1) have one: "one_of (map row_repo rows)" "one_of (map row_cell rows)" "one_of (map row_checks_arm rows)"
    "one_of (map row_posture_class rows)"
    and oc: "outcome_for book (row_repo (hd rows)) (row_cell (hd rows)) (row_apparatus_version (hd rows)) (row_taxonomy (hd rows))
      (row_checks_arm (hd rows)) (row_posture_class (hd rows)) = Some oc"
    by (auto simp: outcome_for_rows_def Let_def split: if_splits)
  note all = one_of_all [OF one(1) assms(2)] one_of_all [OF one(2) assms(2)] one_of_all [OF one(3) assms(2)]
    one_of_all [OF one(4) assms(2)]
  from latest_among_max [OF oc [unfolded outcome_for_def latest_outcome_def]]
  show ?thesis by (simp add: all Let_def)
qed

lemma cell_stats_uniform:
  assumes "cell_stats rows = Inr stats" and "r \<in> set rows"
  shows "row_apparatus_version r = row_apparatus_version (hd rows) \<and> row_taxonomy r = row_taxonomy (hd rows) \<and>
    row_context_arm r = cs_context_arm stats"
proof -
  have ne: "rows \<noteq> []" using assms(2) by auto
  have "uniform row_apparatus_version rows" "uniform row_taxonomy rows" "uniform row_context_arm rows"
    "cs_context_arm stats = row_context_arm (hd rows)"
    using assms(1) ne by (auto simp: cell_stats_def one_value_eq [OF ne] Let_def cell_stats_of_def split: if_splits)
  with assms(2) show ?thesis by (simp add: uniform_def)
qed

subsection \<open>A delivered cell of the map\<close>

lemma measured_delivery:
  assumes book: "book_evaluate fromiso readings ledger = Inr book" and shaped: "list_all well_shaped readings"
    and m: "measure_cell rows proj p controls by_task book = Inr c" and del: "cl_route c = ROUTE_DELIVER"
  shows "\<exists>rd \<in> set readings. \<exists>oc. evaluate fromiso rd ledger = Inr oc \<and> cl_reading c = Some oc \<and>
    oc_state oc = OUTCOME_STANDARD \<and> rd_pool_drift rd = [] \<and> cl_false_q1 c = 0 \<and>
    (\<forall>r \<in> set rows. rd_repo rd = row_repo r \<and> rd_cell_key rd = canonical_cell_key (key_dict (row_cell r)) \<and>
      rd_apparatus rd = row_apparatus_version r \<and> rd_taxonomy rd = row_taxonomy r \<and>
      rd_checks_arm rd = row_checks_arm r \<and> rd_posture_class rd = row_posture_class r \<and>
      oc_standard oc = row_context_arm r)"
  using m
proof (rule measure_cell_parts)
  fix stats v ora d
  assume st: "cell_stats rows = Inr stats" "cl_stats c = Some (stats\<lparr>cs_cell := cl_key c\<rparr>)"
    and v: "verdict_for (outcome_for_rows book rows) (cs_context_arm stats) = Inr v"
    and d: "route (stats\<lparr>cs_cell := cl_key c\<rparr>) (Some ora) controls (Some v) p = Inr d" "cl_decision c = Some d"
    and rd: "cl_reading c = outcome_for_rows book rows" and ne: "rows \<noteq> []"
  obtain oc where oc: "outcome_for_rows book rows = Some oc"
    using no_reading_no_delivery [OF m] del by (cases "outcome_for_rows book rows") auto
  note scope = outcome_for_rows_scope [OF oc]
  have "oc \<in> set book" using scope [OF hd_in_set [OF ne]] by blast
  then obtain rd where r: "rd \<in> set readings" "evaluate fromiso rd ledger = Inr oc"
    using collect_member(1) [OF book [unfolded book_evaluate_def]] by blast
  have shape: "well_shaped rd" using shaped r(1) by (simp add: list_all_iff)
  have ocrd: "oc_reading oc = rd" using evaluate_parts(1) [OF shape r(2)] by simp
  have "dc_route d = ROUTE_DELIVER" using del d(2) by (simp add: cl_route_def)
  from delivered_cell_proved [OF shape r(2) _ d(1) this] v oc
  have proved: "oc_state oc = OUTCOME_STANDARD" "oc_standard oc = cs_context_arm stats" "rd_pool_drift rd = []"
    "cs_false_q1 stats = 0" by auto
  have "cl_false_q1 c = 0" using st(2) proved(4) by (simp add: cl_false_q1_def)
  moreover have "rd_repo rd = row_repo x \<and> rd_cell_key rd = canonical_cell_key (key_dict (row_cell x)) \<and>
      rd_apparatus rd = row_apparatus_version x \<and> rd_taxonomy rd = row_taxonomy x \<and>
      rd_checks_arm rd = row_checks_arm x \<and> rd_posture_class rd = row_posture_class x \<and>
      oc_standard oc = row_context_arm x" if x: "x \<in> set rows" for x
    using scope [OF x] cell_stats_uniform [OF st(1) x] proved(2) by (simp add: ocrd)
  ultimately show ?thesis using r rd oc proved by auto
qed


subsection \<open>Every row once\<close>

lemma sum_groups: "sum_list (map (length \<circ> snd) (group_rows key rows)) = length rows"
proof -
  have "sum_list (map (length \<circ> snd) (group_add g k v)) = Suc (sum_list (map (length \<circ> snd) g))" for g :: "('a \<times> 'b list) list" and k v
    by (induction g k v rule: group_add.induct) auto
  then have "sum_list (map (length \<circ> snd) (foldl (\<lambda>g r. group_add g (key r) r) g rows)) =
      sum_list (map (length \<circ> snd) g) + length rows" for g :: "('a \<times> 'b list) list"
    by (induction rows arbitrary: g) auto
  then show ?thesis by (simp add: group_rows_def)
qed

lemma collect_list_all2: "collect f xs = Inr ys \<Longrightarrow> list_all2 (\<lambda>x y. f x = Inr y) xs ys"
  by (induction xs arbitrary: ys) auto

lemma list_all2_map: "list_all2 P xs ys \<Longrightarrow> (\<And>x y. P x y \<Longrightarrow> f y = g x) \<Longrightarrow> map f ys = map g xs"
  by (induction rule: list_all2_induct) auto

lemma measured_rows: "measure_cell g proj p controls by_task book = Inr c \<Longrightarrow> cl_rows c = length g"
  by (erule measure_cell_parts) simp

text \<open>
  The map accounts for the ledger it was built from: the rows behind its cells add up to the rows it was
  given, and each cell is what measuring its own group of rows gives.
\<close>

theorem map_counts_every_row:
  assumes "build_capability_map rows proj p controls by_task book = Inr m"
  shows "sum_list (map cl_rows (cm_cells m)) = length rows \<and> cm_rows m = length rows \<and>
    sorted (map (\<lambda>c. key_tuple (cl_key c)) (cm_cells m)) \<and>
    mset (map Inr (cm_cells m)) = mset (map (\<lambda>g. measure_cell (snd g) proj p controls by_task book) (project_rows proj rows))"
proof -
  let ?gs = "map snd (project_rows proj rows)"
  obtain cells where cells: "collect (\<lambda>g. measure_cell g proj p controls by_task book) ?gs = Inr cells"
    and mc: "cm_cells m = sort_cells cells" "cm_rows m = length rows"
    using assms by (auto simp: build_capability_map_def CapabilityMap_def check_projection_Inr)
  have l2: "list_all2 (\<lambda>g c. measure_cell g proj p controls by_task book = Inr c) ?gs cells"
    using cells by (rule collect_list_all2)
  have eq: "map Inr cells = map (\<lambda>g. measure_cell g proj p controls by_task book) ?gs"
    by (rule list_all2_map [OF l2]) (rule sym)
  have "map cl_rows cells = map length ?gs"
    by (rule list_all2_map [OF l2]) (rule measured_rows)
  then have "sum_list (map cl_rows cells) = length rows"
    using sum_groups [of _ rows] by (simp add: project_rows_def group_by_cell_def)
  moreover have "mset (map cl_rows (sort_cells cells)) = mset (map cl_rows cells)"
    unfolding sort_cells_def mset_map mset_sort ..
  then have "sum_list (map cl_rows (sort_cells cells)) = sum_list (map cl_rows cells)"
    by (metis sum_mset_sum_list)
  moreover have "mset (map Inr (sort_cells cells)) = mset (map (\<lambda>g. measure_cell g proj p controls by_task book) ?gs)"
    unfolding sort_cells_def mset_map mset_sort unfolding mset_map [symmetric] eq ..
  moreover have "sorted (map (\<lambda>c. key_tuple (cl_key c)) (sort_cells cells))"
    unfolding sort_cells_def by (rule sorted_sort_key)
  ultimately show ?thesis unfolding mc by (simp only: map_map comp_def simp_thms)
qed

subsection \<open>The pick\<close>

definition cheaper :: "capability_cell \<Rightarrow> capability_cell \<Rightarrow> bool" where
  "cheaper a b \<longleftrightarrow> fst (axes a) < fst (axes b) \<or> fst (axes a) = fst (axes b) \<and> snd (axes a) \<le> snd (axes b)"

lemma cheaper_refl: "cheaper a a"
  by (simp add: cheaper_def)

lemma cheaper_trans: "cheaper a b \<Longrightarrow> cheaper b c \<Longrightarrow> cheaper a c"
  by (auto simp: cheaper_def)

lemma cheaper_total: "cheaper a b \<or> cheaper b a"
  by (auto simp: cheaper_def)

lemma cheapest_exists: "xs \<noteq> [] \<Longrightarrow> \<exists>x \<in> set xs. \<forall>y \<in> set xs. cheaper x y"
proof (induction xs)
  case (Cons a xs)
  show ?case
  proof (cases "xs = []")
    case False
    with Cons.IH obtain x where x: "x \<in> set xs" "\<forall>y \<in> set xs. cheaper x y" by blast
    show ?thesis
    proof (cases "cheaper a x")
      case True
      with x show ?thesis by (auto intro: cheaper_trans cheaper_refl)
    next
      case False
      with cheaper_total [of a x] x show ?thesis by auto
    qed
  qed (simp add: cheaper_refl)
qed simp

lemma cheapest_not_dominated: "\<forall>y \<in> set xs. cheaper x y \<Longrightarrow> \<not> list_ex (\<lambda>b. dominates b x) xs"
  by (auto simp: list_ex_iff dominates_def cheaper_def dest!: bspec)

lemma sort_key_hd_le:
  fixes f :: "'a \<Rightarrow> 'b::linorder"
  assumes "sort_key f xs = y # ys" and "x \<in> set xs"
  shows "f y \<le> f x"
proof -
  have "sorted (map f (y # ys))" using sorted_sort_key [of f xs] by (simp add: assms(1))
  moreover have "x \<in> set (y # ys)" using assms(2) set_sort [of f xs] by (simp add: assms(1))
  ultimately show ?thesis by auto
qed

lemma frontier_first:
  assumes "pareto_frontier cells = k # ks" and "c \<in> set cells" and "costed c"
  shows "cheaper k c"
proof -
  let ?pts = "filter costed cells"
  have "?pts \<noteq> []" using assms(2,3) by (auto simp: filter_empty_conv)
  from cheapest_exists [OF this] obtain x where x: "x \<in> set ?pts" "\<forall>y \<in> set ?pts. cheaper x y" by blast
  have "x \<in> set (filter (\<lambda>a. \<not> list_ex (\<lambda>b. dominates b a) ?pts) ?pts)"
    using x(1) cheapest_not_dominated [OF x(2)] by simp
  from sort_key_hd_le [OF assms(1) [unfolded pareto_frontier_def Let_def] this]
  have "cheaper k x" by (auto simp: cheaper_def less_eq_prod_def)
  then show ?thesis using x(2) assms(2,3) cheaper_trans [of k x c] by simp
qed

lemma best_config_pick:
  assumes cs: "config_candidates rows cls sz language p controls readings by_task = Inr candidates" and ne: "candidates \<noteq> []"
    and b: "best_config rows cls sz language p SELECTION_COST_THEN_LATENCY controls readings by_task = Inr pick"
  obtains q where "pick = Some q" and "cl_route (cp_cell q) = ROUTE_DELIVER"
    and "\<And>k ks. pareto_frontier candidates = k # ks \<Longrightarrow> cp_cell q = k \<and> cp_selection q = SELECTION_COST_THEN_LATENCY"
    and "pareto_frontier candidates = [] \<Longrightarrow> cp_cell q \<in> set candidates \<and> cp_selection q = SELECTION_POINT"
proof -
  let ?s = "sort_key (\<lambda>c. (- ci_low c, - point_or_0 c, - int (cl_n c), key_tuple (cl_key c))) candidates"
  have s: "set ?s = set candidates" by (rule set_sort)
  have "?s \<noteq> []"
  proof
    assume "?s = []"
    with s have "set candidates = {}" by simp
    with ne show False by simp
  qed
  from hd_in_set [OF this] have hd: "hd ?s \<in> set candidates" unfolding s .
  have sel: "SELECTION_COST_THEN_LATENCY \<in> set SELECTIONS" by (simp add: SELECTIONS_def)
  show thesis
  proof (cases "pareto_frontier candidates")
    case Nil
    with b obtain q where "pick = Some q" "ConfigPick \<lparr>cp_cell = hd ?s, cp_selection = SELECTION_POINT, cp_frontier = [],
        cp_candidates = length candidates\<rparr> = Inr q"
      unfolding best_config_def cs by (simp add: sel ne Let_def) blast
    with hd Nil that show thesis by (simp add: ConfigPick_def)
  next
    case (Cons k ks)
    with b obtain q where "pick = Some q" "ConfigPick \<lparr>cp_cell = k, cp_selection = SELECTION_COST_THEN_LATENCY,
        cp_frontier = map cl_label (k # ks), cp_candidates = length candidates\<rparr> = Inr q"
      unfolding best_config_def cs by (simp add: sel ne Let_def) blast
    with Cons that show thesis by (simp add: ConfigPick_def)
  qed
qed

text \<open>
  C28. The configuration picked for a class is one of the passing candidates, its own cell delivers, and, when
  it was picked by cost, no fully costed candidate is cheaper, nor as cheap and faster. When nothing
  passes, nothing is picked.
\<close>

theorem best_config_is_cheapest:
  assumes "config_candidates rows cls sz language p controls readings by_task = Inr candidates"
    and "best_config rows cls sz language p SELECTION_COST_THEN_LATENCY controls readings by_task = Inr pick"
  shows "(case pick of None \<Rightarrow> candidates = []
    | Some k \<Rightarrow> cp_cell k \<in> set candidates \<and> cl_route (cp_cell k) = ROUTE_DELIVER \<and>
        (cp_selection k = SELECTION_COST_THEN_LATENCY \<longrightarrow> list_all (\<lambda>c. costed c \<longrightarrow> cheaper (cp_cell k) c) candidates) \<and>
        (cp_selection k = SELECTION_POINT \<longrightarrow> list_all (\<lambda>c. \<not> costed c) candidates))"
proof (cases "candidates = []")
  case True
  with assms show ?thesis by (simp add: best_config_def SELECTIONS_def)
next
  case False
  let ?f = "pareto_frontier candidates"
  have sel: "SELECTION_POINT \<noteq> SELECTION_COST_THEN_LATENCY"
    by (simp add: SELECTION_POINT_def SELECTION_COST_THEN_LATENCY_def)
  from best_config_pick [OF assms(1) False assms(2)] obtain q where q: "pick = Some q" "cl_route (cp_cell q) = ROUTE_DELIVER"
    and by_cost: "\<And>k ks. ?f = k # ks \<Longrightarrow> cp_cell q = k \<and> cp_selection q = SELECTION_COST_THEN_LATENCY"
    and by_point: "?f = [] \<Longrightarrow> cp_cell q \<in> set candidates \<and> cp_selection q = SELECTION_POINT" by blast
  show ?thesis
  proof (cases ?f)
    case (Cons k ks)
    have "k \<in> set ?f" using Cons by simp
    then have "k \<in> set candidates" by (auto simp: pareto_frontier_def Let_def)
    with q by_cost [OF Cons] frontier_first [OF Cons] sel show ?thesis by (simp add: list_all_iff)
  next
    case Nil
    have none: "\<not> costed c" if "c \<in> set candidates" for c
    proof
      assume "costed c"
      with that have "filter costed candidates \<noteq> []" by (auto simp: filter_empty_conv)
      from cheapest_exists [OF this] obtain x where x: "x \<in> set (filter costed candidates)"
        "\<forall>y \<in> set (filter costed candidates). cheaper x y" by blast
      have "x \<in> set ?f" using x(1) cheapest_not_dominated [OF x(2)] by (simp add: pareto_frontier_def Let_def)
      then show False by (simp add: Nil)
    qed
    with q by_point [OF Nil] sel show ?thesis by (simp add: list_all_iff)
  qed
qed

subsection \<open>Coverage\<close>

lemma no_book_no_candidates:
  assumes "config_candidates rows cls sz language p controls None by_task = Inr candidates"
  shows "candidates = []"
proof -
  let ?proj = "config_projection sz language"
  obtain m where m: "build_capability_map rows ?proj p controls by_task [] = Inr m"
    and cs: "candidates = filter (\<lambda>c. ck_capability_class (cl_key c) = cls \<and> pinned sz (ck_size (cl_key c)) \<and>
          pinned language (ck_language (cl_key c)) \<and> cl_false_q1 c = 0 \<and> cl_route c = ROUTE_DELIVER) (cm_cells m)"
    using assms by (auto simp: config_candidates_def Let_def book_of_def)
  obtain cells where cells: "collect (\<lambda>g. measure_cell g ?proj p controls by_task []) (map snd (project_rows ?proj rows)) = Inr cells"
    and mc: "cm_cells m = sort_cells cells"
    using m by (auto simp: build_capability_map_def CapabilityMap_def check_projection_Inr)
  have "cl_route c \<noteq> ROUTE_DELIVER" if c: "c \<in> set (cm_cells m)" for c
  proof -
    from c have "c \<in> set cells" by (simp add: mc sort_cells_def)
    then obtain g where g: "measure_cell g ?proj p controls by_task [] = Inr c"
      using collect_member(1) [OF cells] by blast
    have "outcome_for_rows [] g = None" by (simp add: outcome_for_rows_def outcome_for_def latest_outcome_def Let_def)
    with g show ?thesis by (rule no_reading_no_delivery)
  qed
  then show ?thesis by (auto simp: cs filter_empty_conv)
qed

lemma no_book_no_pick:
  "best_config rows cls sz language p sel controls None by_task = Inr pick \<Longrightarrow> pick = None"
  unfolding best_config_def by (auto split: if_splits dest: no_book_no_candidates)

lemma no_book_not_deliverable:
  "profile_cell rows m p language None by_task entry = Inr pc \<Longrightarrow> \<not> deliverable pc"
  by (cases entry) (auto simp: profile_cell_def deliverable_def split: if_splits, rule no_book_no_pick)

lemma volume_none: "(\<And>pc. pc \<in> set pcs \<Longrightarrow> \<not> P pc) \<Longrightarrow> volume P pcs = 0"
  by (simp add: volume_def filter_empty_conv)

lemma coverage_parts:
  assumes "trusted_autonomy_coverage f rows cells p language readings by_task = Inr cy"
  obtains m pcs where "collect (profile_cell rows m p language readings by_task) (ranked f) = Inr pcs"
    and "cy_deliver_volume cy = volume deliverable pcs"
    and "cy_earned_volume cy = volume (\<lambda>pc. deliverable pc \<and> earned (pl_cell pc)) pcs"
    and "cy_total_volume cy = cr_n_commits f" and "cy_cells cy = pcs"
  using assms by (auto simp: trusted_autonomy_coverage_def split: if_splits intro: that)

text \<open>
  C32. Coverage computed without the repository's readings is zero, whatever the map says: a pick routed
  under no reading never delivers, so no cell of the profile is deliverable. The route that serves the
  coverage calls it this way.
\<close>

theorem coverage_without_readings_is_zero:
  assumes "trusted_autonomy_coverage f rows cells p language None by_task = Inr cy"
  shows "cy_deliver_volume cy = 0 \<and> cy_earned_volume cy = 0 \<and> coverage cy = 0 \<and> earned_coverage cy = 0"
  using assms
proof (rule coverage_parts)
  fix m pcs
  assume c: "collect (profile_cell rows m p language None by_task) (ranked f) = Inr pcs"
    and v: "cy_deliver_volume cy = volume deliverable pcs"
      "cy_earned_volume cy = volume (\<lambda>pc. deliverable pc \<and> earned (pl_cell pc)) pcs"
  have none: "\<not> deliverable pc" if "pc \<in> set pcs" for pc
    using collect_member(1) [OF c that] no_book_not_deliverable by blast
  have "cy_deliver_volume cy = 0" "cy_earned_volume cy = 0"
    unfolding v using none by (auto intro!: volume_none)
  then show ?thesis by (simp add: coverage_def earned_coverage_def)
qed

subsection \<open>A delivered cell\<close>

definition demo_scores :: oracle_by_task where
  "demo_scores = map (\<lambda>c. (c, Some (9 / 10))) sample_commits"

definition demo_row :: grade_row where
  "demo_row = sample_hit ''a''"

definition demo_cell_key :: cell_key where
  "demo_cell_key = projr (projected_key (key_dict (row_cell demo_row)) PROJECTION_CLASS_SIZE)"

definition demo_evidence :: oracle_evidence where
  "demo_evidence = \<lparr>oe_strength = Some (9 / 10), oe_scored_tasks = 20, oe_n_tasks = 20, oe_mutation_version = [],
     oe_apparatus_version = ''2.3''\<rparr>"

lemma demo_row_reads:
  "one_value row_checks_arm ChecksArmsPooled [demo_row] = Inr ''off''"
  "one_value row_apparatus_version ApparatusPooled [demo_row] = Inr ''2.3''"
  "one_value row_context_arm ContextArmsPooled [demo_row] = Inr ''S1@m''"
  "one_value row_taxonomy ClassSetsPooled [demo_row] = Inr []"
  "\<not> isl (failure_split [demo_row])" "length (filter (fa_routes \<circ> attempt_spec [demo_row]) (changes_of [demo_row])) = Suc 0"
  "row_eligible demo_row" "row_clean demo_row" "row_sealed demo_row"
  "belts_all_true demo_row" "row_apparatus_version demo_row = ''2.3''"
  by code_simp+

lemma demo_key: "projected_key (key_dict (row_cell demo_row)) PROJECTION_CLASS_SIZE = Inr demo_cell_key"
  "ck_size demo_cell_key = ''S''" "check_projection PROJECTION_CLASS_SIZE = Inr PROJECTION_CLASS_SIZE"
  "project_rows PROJECTION_CLASS_SIZE [demo_row] = [([''fix'', ''S''], [demo_row])]"
  "oracle_evidence_of sample_commits demo_scores [] ''2.3'' = Inr demo_evidence"
  "rd_cell_key sample_proof = canonical_cell_key (key_dict (row_cell demo_row))"
  by code_simp+

lemma demo_stats: "\<exists>s. cell_stats [demo_row] = Inr s \<and> cs_false_q1 s = 0 \<and> cs_n_unsealed s = 0 \<and>
    cs_context_arm s = ''S1@m'' \<and> cs_apparatus_version s = ''2.3'' \<and> cs_n_tasks s = 1"
proof -
  obtain sp where sp: "failure_split [demo_row] = Inr sp"
    using demo_row_reads(5) by (cases "failure_split [demo_row]") auto
  have w: "wilson_interval (int (count_if P xs)) (int (length xs)) = Inr (wilson (count_if P xs) (length xs))"
    for P and xs :: "'x list" by (rule wilson_eq) (rule count_if_le_length)
  have m: "wilson_interval (int (fs_clean sp)) (int (fs_model_n sp)) = Inr (wilson (fs_clean sp) (fs_model_n sp))"
    by (rule wilson_eq) (simp add: fs_model_n_def)
  show ?thesis
    by (simp add: cell_stats_def first_attempts_eq demo_row_reads sp w m Let_def cell_stats_of_def)
qed

lemma demo_scope: "rd_repo sample_proof = row_repo demo_row" "rd_apparatus sample_proof = ''2.3''"
  "rd_taxonomy sample_proof = row_taxonomy demo_row" "rd_checks_arm sample_proof = row_checks_arm demo_row"
  "rd_posture_class sample_proof = row_posture_class demo_row"
  by code_simp+

lemma demo_speaks: "oc_reading oc = sample_proof \<Longrightarrow> outcome_for_rows [oc] [demo_row] = Some oc"
  by (simp add: outcome_for_rows_def one_of_def outcome_for_def latest_outcome_def demo_scope demo_key(6) demo_row_reads Let_def dedup.simps)

lemma demo_failing:
  "failing_codes (s\<lparr>cs_cell := k\<rparr>) demo_evidence sample_controls v PUBLISHED = []"
  if "av_state v = VERDICT_DELIVER" "cs_false_q1 s = 0" "cs_n_unsealed s = 0" "ck_size k = ''S''"
proof -
  have "av_state v \<in> {VERDICT_UNREGISTERED, VERDICT_DESCRIPTIVE, VERDICT_LOOK_PENDING, VERDICT_DELIVER,
      VERDICT_INSUFFICIENT, VERDICT_UNDECIDED, VERDICT_CEILING, VERDICT_LEANER}" by (simp add: that)
  note iff = failing_none [OF this]
  show ?thesis
    unfolding iff using that
    by (simp add: demo_evidence_def sample_controls_def oe_measured_def oe_share_def cv_share_def share_of_def PUBLISHED_def)
qed

lemma demo_reading: "\<exists>oc v. evaluate sample_iso sample_proof sample_hits = Inr oc \<and> oc_reading oc = sample_proof \<and>
    verdict_for (Some oc) ''S1@m'' = Inr v \<and> av_state v = VERDICT_DELIVER \<and> av_counted v = 20 \<and>
    av_counted_commits v = sample_commits"
proof -
  obtain oc a where oc: "evaluate sample_iso sample_proof sample_hits = Inr oc" "oc_state oc = OUTCOME_STANDARD"
    "oc_standard oc = ''S1@m''" "oc_reading oc = sample_proof" and a: "map_of (oc_arms oc) ''S1@m'' = Some a"
    "counted_commits a = sample_commits" "lk_counted (ar_look a) = 20" using sample_evaluates by blast
  from verdict_for_total [OF sample_proof_shaped oc(1) parse_S1(2)] obtain v where
    v: "verdict_for (Some oc) ''S1@m'' = Inr v" ..
  have sv: "av_state v = VERDICT_DELIVER" using deliver_verdict [OF sample_proof_shaped oc(1) v] oc by simp
  have "av_counted_commits v = sample_commits \<and> av_counted v = 20"
    using v a by (auto simp: verdict_for_def oc(4) sample_proof_fields verdict_common_def Let_def split: if_splits)
  with oc v sv show ?thesis by blast
qed

definition demo_outcome :: reading_outcome where
  "demo_outcome = projr (evaluate sample_iso sample_proof sample_hits)"

lemma demo_outcome_reads: "evaluate sample_iso sample_proof sample_hits = Inr demo_outcome"
  "outcome_for_rows [demo_outcome] [demo_row] = Some demo_outcome" "oc_standard demo_outcome = ''S1@m''"
proof -
  show e: "evaluate sample_iso sample_proof sample_hits = Inr demo_outcome"
    using demo_reading by (auto simp: demo_outcome_def)
  from demo_reading e show "outcome_for_rows [demo_outcome] [demo_row] = Some demo_outcome"
    by (auto intro: demo_speaks)
  from sample_evaluates e show "oc_standard demo_outcome = ''S1@m''" by auto
qed

lemma demo_measured:
  assumes "check_projection proj = Inr proj" and "projected_key (key_dict (row_cell demo_row)) proj = Inr k" and "ck_size k = ''S''"
  shows "\<exists>c. measure_cell [demo_row] proj PUBLISHED (Some sample_controls) demo_scores [demo_outcome] = Inr c \<and>
    cl_route c = ROUTE_DELIVER \<and> cl_key c = k \<and> cl_projection c = proj \<and> cl_false_q1 c = 0 \<and> cl_rows c = 1"
proof -
  obtain v where v: "verdict_for (Some demo_outcome) ''S1@m'' = Inr v" "av_state v = VERDICT_DELIVER" "av_counted v = 20"
    "av_counted_commits v = sample_commits" using demo_reading demo_outcome_reads by auto
  obtain s where s: "cell_stats [demo_row] = Inr s" "cs_false_q1 s = 0" "cs_n_unsealed s = 0" "cs_context_arm s = ''S1@m''"
    "cs_apparatus_version s = ''2.3''" using demo_stats by blast
  let ?s = "s\<lparr>cs_cell := k\<rparr>"
  have "controls_read ?s (Some sample_controls) = sample_controls" by (simp add: controls_read_def sample_at s)
  from route_cases [of ?s "Some v" v "Some sample_controls", OF _ this, of "Some demo_evidence" demo_evidence PUBLISHED]
    demo_failing [OF v(2) s(2,3) assms(3)]
  obtain d where d: "route ?s (Some demo_evidence) (Some sample_controls) (Some v) PUBLISHED = Inr d" "dc_route d = ROUTE_DELIVER"
    by (auto simp: verdict_read_def oracle_read_def)
  have st: "projected_stats [demo_row] proj = Inr ?s" by (simp add: projected_stats_def s assms(2))
  show ?thesis
    unfolding measure_cell_def
    by (simp add: assms(1) st demo_outcome_reads(2) s v(1) counted_ids_def v(3,4) demo_key(5) d Let_def)
      (simp add: cl_false_q1_def s cl_route_def d TIERS_def)
qed

lemma demo_map_built:
  assumes "measure_cell [demo_row] proj PUBLISHED (Some sample_controls) demo_scores book = Inr c" and "cl_projection c = proj"
    and "check_projection proj = Inr proj"
  shows "\<exists>m. build_capability_map [demo_row] proj PUBLISHED (Some sample_controls) demo_scores book = Inr m \<and>
    cm_cells m = [c] \<and> cm_projection m = proj \<and> cm_controls m = Some sample_controls"
  using assms by (simp add: build_capability_map_def project_rows_def group_by_cell_def group_rows_def CapabilityMap_def sort_cells_def)

definition demo_map :: capability_map where
  "demo_map = projr (build_capability_map [demo_row] PROJECTION_CLASS_SIZE PUBLISHED (Some sample_controls) demo_scores [demo_outcome])"

lemma demo_map_reads: "\<exists>c. build_capability_map [demo_row] PROJECTION_CLASS_SIZE PUBLISHED (Some sample_controls) demo_scores
    [demo_outcome] = Inr demo_map \<and> cm_cells demo_map = [c] \<and> cl_route c = ROUTE_DELIVER \<and> cl_key c = demo_cell_key \<and>
    cl_rows c = 1 \<and> cm_projection demo_map = PROJECTION_CLASS_SIZE \<and> cm_controls demo_map = Some sample_controls"
proof -
  obtain c where c: "measure_cell [demo_row] PROJECTION_CLASS_SIZE PUBLISHED (Some sample_controls) demo_scores [demo_outcome] = Inr c"
    "cl_route c = ROUTE_DELIVER" "cl_key c = demo_cell_key" "cl_projection c = PROJECTION_CLASS_SIZE" "cl_rows c = 1"
    using demo_measured [OF demo_key(3,1,2)] by blast
  from demo_map_built [OF c(1,4) demo_key(3)] c(2,3,5) show ?thesis by (auto simp: demo_map_def)
qed


lemma demo_config: "check_projection (config_projection (Some ''S'') None) = Inr (config_projection (Some ''S'') None)"
  "ck_size (project_dict (key_dict (row_cell demo_row)) (config_projection (Some ''S'') None)) = ''S''"
  "ck_capability_class (project_dict (key_dict (row_cell demo_row)) (config_projection (Some ''S'') None)) = ''fix''"
  by code_simp+

lemma demo_standard_rows: "standard_rows [demo_outcome] [demo_row] proj DISPLAY_ARM = [demo_row]"
proof -
  have "row_context_arm demo_row = ''S1@m''" by code_simp
  then show ?thesis by (simp add: standard_rows_def project_rows_def group_by_cell_def group_rows_def shown_arm_def
        demo_outcome_reads Let_def)
qed

lemma demo_candidates: "\<exists>c. config_candidates [demo_row] ''fix'' (Some ''S'') None PUBLISHED (Some sample_controls)
    (Some [demo_outcome]) demo_scores = Inr [c] \<and> cl_route c = ROUTE_DELIVER"
proof -
  let ?proj = "config_projection (Some ''S'') None" and ?k = "project_dict (key_dict (row_cell demo_row)) (config_projection (Some ''S'') None)"
  have k: "projected_key (key_dict (row_cell demo_row)) ?proj = Inr ?k" by (simp add: projected_key_def demo_config(1))
  obtain c where c: "measure_cell [demo_row] ?proj PUBLISHED (Some sample_controls) demo_scores [demo_outcome] = Inr c"
    "cl_route c = ROUTE_DELIVER" "cl_key c = ?k" "cl_projection c = ?proj" "cl_false_q1 c = 0"
    using demo_measured [OF demo_config(1) k demo_config(2)] by blast
  from demo_map_built [OF c(1,4) demo_config(1)] obtain m where
    m: "build_capability_map [demo_row] ?proj PUBLISHED (Some sample_controls) demo_scores [demo_outcome] = Inr m" "cm_cells m = [c]"
    by blast
  show ?thesis
    by (simp add: config_candidates_def demo_standard_rows book_of_def m c(2,3,5) demo_config(2,3) pinned_def Let_def)
qed

theorem best_config_is_cheapest_witness:
  "\<exists>c k. config_candidates [demo_row] ''fix'' (Some ''S'') None PUBLISHED (Some sample_controls) (Some [demo_outcome])
      demo_scores = Inr [c] \<and> cp_cell k = c \<and>
     best_config [demo_row] ''fix'' (Some ''S'') None PUBLISHED SELECTION_COST_THEN_LATENCY (Some sample_controls)
       (Some [demo_outcome]) demo_scores = Inr (Some k)"
proof -
  obtain c where c: "config_candidates [demo_row] ''fix'' (Some ''S'') None PUBLISHED (Some sample_controls)
      (Some [demo_outcome]) demo_scores = Inr [c]" "cl_route c = ROUTE_DELIVER" using demo_candidates by blast
  have "\<exists>k. best_config [demo_row] ''fix'' (Some ''S'') None PUBLISHED SELECTION_COST_THEN_LATENCY (Some sample_controls)
      (Some [demo_outcome]) demo_scores = Inr (Some k)"
    by (simp add: best_config_def c(1) SELECTIONS_def ConfigPick_def pareto_frontier_def c(2) Let_def)
  then obtain k where k: "best_config [demo_row] ''fix'' (Some ''S'') None PUBLISHED SELECTION_COST_THEN_LATENCY
      (Some sample_controls) (Some [demo_outcome]) demo_scores = Inr (Some k)" ..
  from best_config_is_cheapest [OF c(1) k] have "cp_cell k = c" by simp
  with c(1) k show ?thesis by blast
qed

lemma demo_unread:
  assumes "check_projection proj = Inr proj" and "projected_key (key_dict (row_cell demo_row)) proj = Inr k"
  shows "\<exists>c. measure_cell [demo_row] proj PUBLISHED (Some sample_controls) demo_scores [] = Inr c \<and> cl_projection c = proj"
proof -
  obtain s where s: "cell_stats [demo_row] = Inr s" "cs_context_arm s = ''S1@m''" "cs_apparatus_version s = ''2.3''"
    "cs_false_q1 s = 0" using demo_stats by blast
  let ?s = "s\<lparr>cs_cell := k\<rparr>" and ?v = "ArmVerdict ''S1@m'' VERDICT_UNREGISTERED"
  let ?o = "bind_result (routing_ids [demo_row]) (\<lambda>ids. oracle_evidence_of ids demo_scores [] ''2.3'')"
  have "\<not> isl ?o" by code_simp
  then obtain ora where "?o = Inr ora" by (cases ?o) (simp_all only: isl_def, blast+)
  then obtain ids where o: "routing_ids [demo_row] = Inr ids" "oracle_evidence_of ids demo_scores [] ''2.3'' = Inr ora"
    unfolding bind_result_Inr by blast
  obtain d where d: "route ?s (Some ora) (Some sample_controls) (Some ?v) PUBLISHED = Inr d"
    using route_cases [of ?s "Some ?v" _ "Some sample_controls" _ "Some ora" _ PUBLISHED, OF refl refl refl] by blast
  have st: "projected_stats [demo_row] proj = Inr ?s" by (simp add: projected_stats_def s assms(2))
  have none: "outcome_for_rows [] [demo_row] = None" by (simp add: outcome_for_rows_def outcome_for_def latest_outcome_def Let_def)
  have v: "verdict_for None ''S1@m'' = Inr ?v" by (simp add: verdict_for_def)
  have z: "av_counted ?v = 0" by (simp add: ArmVerdict_def)
  show ?thesis
    unfolding measure_cell_def
    by (simp add: assms(1) st none s v z counted_ids_def o d Let_def) (simp add: cl_false_q1_def s TIERS_def)
qed

definition demo_profile :: change_profile where
  "demo_profile = \<lparr>cr_repo = ''r'', cr_n_commits = 3, cr_examined = 3, cr_skipped = 0, cr_cells = [((''fix'', ''S''), 3)],
     cr_ref = ''HEAD''\<rparr>"

lemma demo_lookup: "project_dict (key_dict (project_dict [(''capability_class'', ''fix''), (''size'', ''S'')] PROJECTION_CLASS_SIZE))
    PROJECTION_CLASS_SIZE = demo_cell_key"
  "project_dict [(''capability_class'', ''fix''), (''size'', ''S'')] PROJECTION_CLASS_SIZE = demo_cell_key"
  "set (map fst [(''capability_class'', ''fix''), (''size'', ''S'')]) \<subseteq> set PROJECTION_CLASS_SIZE"
  "ranked demo_profile = [((''fix'', ''S''), 3)]"
  by code_simp+

lemma demo_no_candidates:
  "\<exists>cs. config_candidates [demo_row] ''fix'' (Some ''S'') None PUBLISHED (Some sample_controls) None demo_scores = Inr cs"
proof -
  let ?proj = "config_projection (Some ''S'') None" and ?k = "project_dict (key_dict (row_cell demo_row)) (config_projection (Some ''S'') None)"
  have k: "projected_key (key_dict (row_cell demo_row)) ?proj = Inr ?k" by (simp add: projected_key_def demo_config(1))
  obtain c where "measure_cell [demo_row] ?proj PUBLISHED (Some sample_controls) demo_scores [] = Inr c" "cl_projection c = ?proj"
    using demo_unread [OF demo_config(1) k] by blast
  from demo_map_built [OF this demo_config(1)] obtain m' where
    "build_capability_map [demo_row] ?proj PUBLISHED (Some sample_controls) demo_scores [] = Inr m'" by blast
  then show ?thesis unfolding config_candidates_def book_of_def Let_def option.case bind_result_Inr by blast
qed

lemma demo_profile_cell:
  "\<exists>pc. profile_cell [demo_row] demo_map PUBLISHED None None demo_scores ((''fix'', ''S''), 3) = Inr pc \<and>
     cl_route (pl_cell pc) = ROUTE_DELIVER"
proof -
  obtain c where m: "cm_cells demo_map = [c]" "cl_route c = ROUTE_DELIVER" "cl_key c = demo_cell_key"
    "cm_projection demo_map = PROJECTION_CLASS_SIZE" "cm_controls demo_map = Some sample_controls"
    using demo_map_reads by blast
  have get: "map_get demo_map [(''capability_class'', ''fix''), (''size'', ''S'')] = Inr c"
    using demo_lookup(3) by (simp add: map_get_def map_lookup_def projected_key_def m demo_key(3) demo_lookup)
  obtain cs where cs: "config_candidates [demo_row] ''fix'' (Some ''S'') None PUBLISHED (Some sample_controls) None demo_scores = Inr cs"
    using demo_no_candidates by blast
  have "best_config [demo_row] ''fix'' (Some ''S'') None PUBLISHED SELECTION_COST_THEN_LATENCY (Some sample_controls) None
      demo_scores = Inr None"
    using cs no_book_no_candidates [OF cs] by (simp add: best_config_def SELECTIONS_def)
  then show ?thesis by (simp add: profile_cell_def get m(2,5))
qed

text \<open>The map delivers all three commits of the profile; the coverage is zero.\<close>

theorem coverage_without_readings_witness:
  "\<exists>cy. trusted_autonomy_coverage demo_profile [demo_row] (Some demo_map) PUBLISHED None None demo_scores = Inr cy \<and>
     map (\<lambda>pc. cl_route (pl_cell pc)) (cy_cells cy) = [ROUTE_DELIVER] \<and> cy_total_volume cy = 3 \<and> coverage cy = 0"
proof -
  obtain pc where pc: "profile_cell [demo_row] demo_map PUBLISHED None None demo_scores ((''fix'', ''S''), 3) = Inr pc"
    "cl_route (pl_cell pc) = ROUTE_DELIVER" using demo_profile_cell by blast
  have proj: "cm_projection demo_map = PROJECTION_CLASS_SIZE" using demo_map_reads by blast
  have "\<exists>cy. trusted_autonomy_coverage demo_profile [demo_row] (Some demo_map) PUBLISHED None None demo_scores = Inr cy \<and>
      cy_cells cy = [pc] \<and> cy_total_volume cy = cr_n_commits demo_profile"
    by (simp add: trusted_autonomy_coverage_def proj demo_lookup(4) pc(1))
  then obtain cy where cy: "trusted_autonomy_coverage demo_profile [demo_row] (Some demo_map) PUBLISHED None None demo_scores = Inr cy"
    "cy_cells cy = [pc]" "cy_total_volume cy = cr_n_commits demo_profile" by blast
  have "cr_n_commits demo_profile = 3" by (simp add: demo_profile_def)
  with coverage_without_readings_is_zero [OF cy(1)] cy pc(2) show ?thesis by simp
qed

end
