(* ===== verification/Signoff_Correct.thy ===== *)
theory Signoff_Correct
  imports Signoff Capability_Correct
begin

section \<open>Sign-offs: earned when written, covered when applied\<close>

text \<open>
  A written attestation rests on the whole policy and carries the snapshot of its cell; it lifts that
  cell; a lifted cell is covered by a record still in force; a revocation withdraws its scope; and the
  ledger of sign-offs is a hash chain.
\<close>

subsection \<open>The policy\<close>

lemma SignoffPolicy_Inr: "SignoffPolicy p = Inr q \<longleftrightarrow> q = p \<and> gp_require_attestation p \<and> gp_require_oracle_measured p \<and>
    gp_require_independent_verifier p \<and> 1 \<le> gp_n_min p \<and> gp_n_min p \<le> 10000 \<and> 0 \<le> gp_max_controls_escapes p \<and>
    gp_max_controls_escapes p \<le> 100 \<and> 0 \<le> gp_min_constructible_share p \<and> gp_min_constructible_share p \<le> 1 \<and>
    0 \<le> gp_min_oracle_strength p \<and> gp_min_oracle_strength p \<le> 1 \<and> gp_policy_version p \<noteq> []"
  by (auto simp: SignoffPolicy_def in_bounds_def)

lemma collect_Nil: "collect f xs = Inr [] \<longleftrightarrow> xs = []"
  by (cases xs) auto

lemma check_signable_Inr: "check_signable r c a = Inr u \<longleftrightarrow> signoff_clauses r c a = []"
proof -
  have "evaluate_signoff r c a = Inr [] \<longleftrightarrow> signoff_clauses r c a = []" by (simp add: evaluate_signoff_def collect_Nil)
  then show ?thesis
    by (cases "evaluate_signoff r c a") (auto simp: check_signable_def neq_Nil_conv split: list.split)
qed

lemma SignoffRecord_Inr: "SignoffRecord R r = Inr r' \<longleftrightarrow> r' = r\<lparr>so_note := R (so_note r)\<rparr> \<and> so_repo r \<noteq> [] \<and>
    ck_capability_class (so_scope r) \<noteq> [] \<and> ck_capability_class (so_scope r) \<noteq> WILDCARD \<and> so_verifier r \<noteq> [] \<and>
    (so_verifier_kind r = [] \<or> so_verifier_kind r \<in> set VERIFIER_KINDS) \<and> so_tier r \<in> set EARNED_TIERS \<and>
    (so_checks_arm r = [] \<or> so_checks_arm r \<in> set ARMS) \<and> (so_false_q1 r = 0 \<or> so_revoked r)"
  by (auto simp: SignoffRecord_def)

lemma so_chained_Inr: "so_chained R H r prev = Inr x \<longleftrightarrow>
    (\<exists>y. SignoffRecord R (r\<lparr>so_prev_hash := prev\<rparr>) = Inr y \<and> x = y\<lparr>so_row_hash := so_compute_hash H y\<rparr>)"
  by (auto simp: so_chained_def)

subsection \<open>What a written attestation rests on\<close>

lemma so_append_parts:
  assumes "so_append R H file r cell a = Inr (file', rec)" and "\<not> so_revoked r"
  obtains c s st h where "cell = Some c" and "signoff_clauses r c (a\<lparr>sa_decision := None\<rparr>) = []"
    and "stamp_evidence R r c (sa_controls a) None (sa_oracle_strength a) (sa_policy a) = Inr st"
    and "so_last_hash file = Inr h" and "so_chained R H st h = Inr rec" and "file' = file @ [rec]"
  using assms by (auto simp: so_append_def check_signable_Inr split: option.splits)

lemma clauses_none:
  assumes "signoff_clauses r c a = []" and "\<not> so_revoked r"
  shows "so_matches r c (sa_repo a)" and "cl_false_q1 c = 0" and "policy_clauses r c a = []"
  using assms by (auto simp: signoff_clauses_def split: if_splits)

lemma controls_none:
  assumes "signoff_controls_clauses v p = []" and "gp_require_controls_passed p"
  obtains x where "v = Some x" and "cv_measured x" and "cv_passed x" and "cv_escapes x \<le> gp_max_controls_escapes p"
    and "\<not> cv_thin x (gp_min_constructible_share p)"
  using assms by (auto simp: signoff_controls_clauses_def split: option.splits if_splits)

lemma oracle_none: "signoff_oracle_clause x p = [] \<longleftrightarrow> (\<exists>y. x = Some y \<and> gp_min_oracle_strength p \<le> y)"
  by (auto simp: signoff_oracle_clause_def split: option.splits)

lemma standard_none: "standard_clause c = [] \<longleftrightarrow> (\<exists>v. cl_verdict c = Some v \<and> av_state v = VERDICT_DELIVER)"
  by (auto simp: standard_clause_def from_some_def Let_def state_defs split: option.splits)

lemma route_none:
  "route_clause d p = [] \<Longrightarrow> gp_require_route_deliver p \<Longrightarrow> \<exists>x. d = Some x \<and> dc_route x = ROUTE_DELIVER"
  by (auto simp: route_clause_def split: option.splits if_splits)

lemma actor_none:
  assumes "same_actor_refusal r attested actors = []" and "is_person_actor (so_verifier r)"
  shows "attested = Some xs \<Longrightarrow> so_verifier r \<notin> set xs"
    and "actors = Some ys \<Longrightarrow> filter is_person_actor ys \<noteq> [] \<Longrightarrow> \<exists>p \<in> set ys. is_person_actor p \<and> p \<noteq> so_verifier r"
  using assms by (auto simp: same_actor_refusal_def Let_def list_all_iff split: option.splits if_splits)

subsection \<open>The overlay\<close>

lemma map_of_put_latest: "map_of (put_latest d k v) = (map_of d)(k \<mapsto> v)"
  by (induction d k v rule: put_latest.induct) auto

lemma latest_snoc: "latest_records (rs @ [r]) = put_latest (latest_records rs) (so_key r) r"
  by (simp add: latest_records_def)

lemma latest_is_last: "map_of (latest_records rs) k = find (\<lambda>r. so_key r = k) (rev rs)"
  by (induction rs rule: rev_induct) (simp_all add: latest_snoc map_of_put_latest, simp add: latest_records_def)

lemma put_latest_keys: "set (map fst (put_latest d k v)) = insert k (set (map fst d))"
  by (induction d k v rule: put_latest.induct) auto

lemma put_latest_distinct: "distinct (map fst d) \<Longrightarrow> distinct (map fst (put_latest d k v))"
proof (induction d k v rule: put_latest.induct)
  case (2 k' v' d k v)
  then show ?case using put_latest_keys [of d k v] by auto
qed simp

lemma put_latest_member: "x \<in> set (put_latest d k v) \<Longrightarrow> x = (k, v) \<or> x \<in> set d"
  by (induction d k v rule: put_latest.induct) (auto split: if_splits)

lemma latest_distinct: "distinct (map fst (latest_records rs))"
  by (induction rs rule: rev_induct) (simp_all add: latest_snoc put_latest_distinct, simp add: latest_records_def)

lemma latest_keyed: "(k, r) \<in> set (latest_records rs) \<Longrightarrow> so_key r = k"
proof (induction rs rule: rev_induct)
  case Nil
  then show ?case by (simp add: latest_records_def)
next
  case (snoc x rs)
  then show ?case using put_latest_member by (fastforce simp: latest_snoc)
qed

lemma find_rev_split: "find P (rev xs) = Some x \<Longrightarrow> \<exists>ys zs. xs = ys @ x # zs \<and> P x \<and> list_all (\<lambda>z. \<not> P z) zs"
proof (induction xs rule: rev_induct)
  case (snoc a xs)
  show ?case
  proof (cases "P a")
    case True
    with snoc.prems show ?thesis by (intro exI [of _ xs] exI [of _ "[]"]) simp
  next
    case False
    with snoc.prems have "find P (rev xs) = Some x" by simp
    from snoc.IH [OF this] obtain ys zs where "xs = ys @ x # zs" "P x" "list_all (\<lambda>z. \<not> P z) zs" by blast
    with False show ?thesis by (intro exI [of _ ys] exI [of _ "zs @ [a]"]) simp
  qed
qed simp

lemma active_iff: "r \<in> set (active_signoffs rs) \<longleftrightarrow> \<not> so_revoked r \<and> find (\<lambda>x. so_key x = so_key r) (rev rs) = Some r"
proof -
  have "r \<in> set (map snd (latest_records rs)) \<longleftrightarrow> map_of (latest_records rs) (so_key r) = Some r"
    using latest_keyed [of _ r rs] latest_distinct [of rs] by (force simp: map_of_eq_Some_iff)
  then show ?thesis by (auto simp: active_signoffs_def latest_is_last)
qed

lemma revoked_out:
  assumes "so_revoked v" and "distinct (map fst d)" and "\<And>k' r. (k', r) \<in> set d \<Longrightarrow> so_key r = k'"
  shows "filter (\<lambda>r. \<not> so_revoked r) (map snd (put_latest d k v)) =
    filter (\<lambda>r. so_key r \<noteq> k) (filter (\<lambda>r. \<not> so_revoked r) (map snd d))"
  using assms
proof (induction d k v rule: put_latest.induct)
  case (2 k' v' d k v)
  have key: "so_key v' = k'" using "2.prems"(3) [of k' v'] by simp
  show ?case
  proof (cases "k' = k")
    case True
    have "so_key r \<noteq> k" if "r \<in> set (map snd d)" for r
      using that "2.prems"(2,3) True by (force simp: image_iff)
    then have "filter (\<lambda>r. so_key r \<noteq> k) (filter (\<lambda>r. \<not> so_revoked r) (map snd d)) = filter (\<lambda>r. \<not> so_revoked r) (map snd d)"
      by (intro filter_True) auto
    with True key "2.prems"(1) show ?thesis by simp
  next
    case False
    have "filter (\<lambda>r. \<not> so_revoked r) (map snd (put_latest d k v)) =
        filter (\<lambda>r. so_key r \<noteq> k) (filter (\<lambda>r. \<not> so_revoked r) (map snd d))"
      by (rule "2.IH" [OF False]) (use "2.prems" in simp_all)
    with False show ?thesis by (simp add: key)
  qed
qed simp

lemma revoked_active:
  "so_revoked rv \<Longrightarrow> active_signoffs (rs @ [rv]) = filter (\<lambda>x. so_key x \<noteq> so_key rv) (active_signoffs rs)"
  unfolding active_signoffs_def latest_snoc by (intro revoked_out) (auto intro: latest_distinct latest_keyed)

subsection \<open>The snapshot\<close>

lemma stamp_snapshot:
  assumes "stamp_evidence R r c controls None strength p = Inr st"
  obtains s where "cl_stats c = Some s" and "so_n_tasks st = cs_n_tasks s" and "so_checks_arm st = cs_checks_arm s"
    and "so_context_arm st = cs_context_arm s" and "so_taxonomy st = cs_taxonomy s"
    and "so_posture_class st = join_with '','' (cs_posture_classes s)"
    and "so_apparatus_version st =
      (if join_with '','' (cs_apparatus_versions s) \<noteq> [] then join_with '','' (cs_apparatus_versions s) else so_apparatus_version r)"
    and "so_reading_id st = from_some av_reading_id [] (cl_verdict c)"
    and "so_oracle_strength st = resolve_oracle_strength c (cl_decision c) strength"
    and "so_policy_thresholds st = Some (thresholds p)" and "so_attestation st = so_attestation r"
    and "so_repo st = so_repo r" and "so_scope st = so_scope r" and "so_tier st = so_tier r" and "so_revoked st = so_revoked r"
    and "so_tier st \<in> set EARNED_TIERS" and "so_checks_arm st = [] \<or> so_checks_arm st \<in> set ARMS"
proof -
  obtain s where s: "cl_stats c = Some s" using assms by (cases "cl_stats c") (simp_all add: stamp_evidence_def)
  note st = assms [unfolded stamp_evidence_def s option.case Let_def SignoffRecord_Inr]
  show thesis
    by (rule that [OF s]) (use st in \<open>simp_all add: decision_read_def\<close>)
qed

lemma signed_same:
  assumes "so_chained R H st h = Inr rec"
  shows "rec = st\<lparr>so_prev_hash := h, so_note := R (so_note st), so_row_hash := so_row_hash rec\<rparr>"
    and "so_row_hash rec = so_compute_hash H (st\<lparr>so_prev_hash := h, so_note := R (so_note st)\<rparr>)"
  using assms by (auto simp: so_chained_Inr SignoffRecord_Inr)


subsection \<open>What a lift rests on\<close>

lemma highest_tier_in: "highest_tier t ts \<in> set (t # ts)"
  by (induction t ts rule: highest_tier.induct) auto

lemma highest_tier_max: "x \<in> set (t # ts) \<Longrightarrow> TIER_RANK x \<le> TIER_RANK (highest_tier t ts)"
proof (induction t ts arbitrary: x rule: highest_tier.induct)
  case (2 best t ts)
  let ?b = "if TIER_RANK t > TIER_RANK best then t else best"
  have "TIER_RANK ?b \<le> TIER_RANK (highest_tier ?b ts)" by (rule "2.IH") simp
  moreover have "x \<in> set ts \<Longrightarrow> TIER_RANK x \<le> TIER_RANK (highest_tier ?b ts)" by (rule "2.IH") simp
  ultimately show ?case using "2.prems" by (auto split: if_splits)
qed simp

lemma with_tier_Inr: "with_tier c t = Inr c' \<Longrightarrow> c' = c\<lparr>cl_tier := Some t\<rparr> \<and> cl_stats c \<noteq> None"
  by (auto simp: with_tier_def)

lemma lift_cell_cases:
  assumes "lift_cell active repo c = Inr c'" and "c' \<noteq> c"
  shows "\<exists>r \<in> set active. so_matches r c repo \<and> covers r c \<and> c' = c\<lparr>cl_tier := Some (so_tier r)\<rparr> \<and> cl_stats c \<noteq> None \<and>
    cl_false_q1 c = 0 \<and> from_some TIER_RANK 0 (cl_tier c) < TIER_RANK (so_tier r)"
proof (cases "map so_tier (lifting active c repo)")
  case Nil
  with assms show ?thesis by (auto simp: lift_cell_def split: if_splits)
next
  case (Cons t ts)
  let ?b = "highest_tier t ts"
  have "?b \<in> set (map so_tier (lifting active c repo))" unfolding Cons by (rule highest_tier_in)
  then obtain r where r: "r \<in> set (lifting active c repo)" "so_tier r = ?b" by auto
  from assms Cons have "with_tier c ?b = Inr c'" "cl_stats c \<noteq> None" "cl_false_q1 c = 0"
    "from_some TIER_RANK 0 (cl_tier c) < TIER_RANK ?b"
    by (auto simp: lift_cell_def Let_def split: if_splits)
  with with_tier_Inr [of c ?b c'] r show ?thesis by (auto simp: lifting_def)
qed

lemma collect_zip: "collect f xs = Inr ys \<Longrightarrow> (x, y) \<in> set (zip xs ys) \<Longrightarrow> f x = Inr y"
  using collect_list_all2 [of f xs ys] by (auto simp: list_all2_iff)

text \<open>
  C11. The overlay changes a cell only when a record in force speaks for it: the last record of its scope, not
  a revocation, whose scope and repository cover the cell and whose snapshot was taken on the cell's
  apparatus, checks arm, posture and reading; the cell is measured and has no false clean, its tier is
  the record's and is higher than before, and nothing else of the cell changes.
\<close>

theorem lifted_cell_is_covered:
  assumes "apply_signoffs cells records repo = Inr lifted" and "(c, c') \<in> set (zip cells lifted)" and "c' \<noteq> c"
  shows "\<exists>r earlier later. records = earlier @ r # later \<and> list_all (\<lambda>x. so_key x \<noteq> so_key r) later \<and> \<not> so_revoked r \<and>
    so_matches r c repo \<and> covers_apparatus r c \<and> covers_arm r c \<and> covers_posture r c \<and> covers_reading r c \<and>
    c' = c\<lparr>cl_tier := Some (so_tier r)\<rparr> \<and> cl_stats c \<noteq> None \<and> cl_false_q1 c = 0 \<and>
    from_some TIER_RANK 0 (cl_tier c) < TIER_RANK (so_tier r)"
proof -
  from collect_zip [OF assms(1) [unfolded apply_signoffs_def] assms(2)] lift_cell_cases [OF _ assms(3)]
  obtain r where r: "r \<in> set (active_signoffs records)" "so_matches r c repo" "covers r c" "c' = c\<lparr>cl_tier := Some (so_tier r)\<rparr>"
    "cl_stats c \<noteq> None" "cl_false_q1 c = 0" "from_some TIER_RANK 0 (cl_tier c) < TIER_RANK (so_tier r)" by blast
  from r(1) have "\<not> so_revoked r" "find (\<lambda>x. so_key x = so_key r) (rev records) = Some r" by (simp_all add: active_iff)
  with find_rev_split [OF this(2)] r show ?thesis unfolding covers_def by blast
qed

subsection \<open>A sign-off lifts the cell it was written on\<close>

lemma route_reads: "route stats ora controls (Some v) p = Inr d \<Longrightarrow> dc_reading_id d = av_reading_id v"
  by (auto simp: route_def decision_def verdict_read_def shortfalls_valid Let_def split: list.splits)

lemma rank_earned: "t \<in> set EARNED_TIERS \<longleftrightarrow> 0 < TIER_RANK t"
  by (auto simp: EARNED_TIERS_def TIER_RANK_def)

lemma rank_automated: "TIER_RANK TIER_AUTOMATED_PASS = 0"
  by (simp add: TIER_RANK_def TIER_AUTOMATED_PASS_def TIER_HUMAN_VERIFIED_def TIER_AB_CONFIRMED_def)

lemma earned_valid: "set EARNED_TIERS \<subseteq> set TIERS"
  by (auto simp: TIERS_def)

lemma arm_never_blank: "row_checks_arm r \<noteq> []"
proof -
  have "[] \<notin> set ARMS" by code_simp
  then show ?thesis unfolding row_checks_arm_def using arm_from_label_in_ARMS by metis
qed

lemma one_apparatus:
  assumes "cell_stats rows = Inr s"
  shows "cs_apparatus_versions s = [row_apparatus_version (hd rows)]" and "cs_checks_arm s \<noteq> []" and "cs_checks_arm s \<in> set ARMS"
proof -
  have ne: "rows \<noteq> []" using assms by (auto simp: cell_stats_def)
  have u: "uniform row_apparatus_version rows" and arm: "cs_checks_arm s = row_checks_arm (hd rows)"
    and v: "cs_apparatus_versions s = sort (dedup (map row_apparatus_version rows))"
    using assms ne by (auto simp: cell_stats_def one_value_eq [OF ne] Let_def cell_stats_of_def split: if_splits)
  have "map row_apparatus_version rows = map (\<lambda>_. row_apparatus_version (hd rows)) rows"
    using u by (simp add: uniform_def)
  also have "dedup \<dots> = [row_apparatus_version (hd rows)]" using ne by (cases rows) (simp_all add: filter_map comp_def)
  finally show "cs_apparatus_versions s = [row_apparatus_version (hd rows)]" by (simp add: v)
  show "cs_checks_arm s \<noteq> []" by (simp add: arm arm_never_blank)
  show "cs_checks_arm s \<in> set ARMS" by (simp add: arm row_checks_arm_def arm_from_label_in_ARMS)
qed

text \<open>A version of one word: no comma and no space around it.\<close>

definition plain_version :: "string \<Rightarrow> bool" where
  "plain_version v \<longleftrightarrow> v \<noteq> [] \<and> map py_strip (split_on CHR '','' v) = [v]"

lemma snapshot_covers:
  assumes m: "measure_cell rows proj pol controls by_task book = Inr c"
    and st: "stamp_evidence R r c controls' None strength p = Inr st" and plain: "plain_version (row_apparatus_version (hd rows))"
  shows "covers st c"
  using m
proof (rule measure_cell_parts)
  fix stats v ora d
  assume cs: "cell_stats rows = Inr stats" and sc: "cl_stats c = Some (stats\<lparr>cs_cell := cl_key c\<rparr>)"
    and d: "route (stats\<lparr>cs_cell := cl_key c\<rparr>) (Some ora) controls (Some v) pol = Inr d" "cl_decision c = Some d"
    and v: "cl_verdict c = Some v"
  let ?s = "stats\<lparr>cs_cell := cl_key c\<rparr>"
  from st [THEN stamp_snapshot] obtain x where x: "cl_stats c = Some x" "so_checks_arm st = cs_checks_arm x"
    "so_context_arm st = cs_context_arm x" "so_taxonomy st = cs_taxonomy x"
    "so_posture_class st = join_with '','' (cs_posture_classes x)"
    "so_apparatus_version st =
      (if join_with '','' (cs_apparatus_versions x) \<noteq> [] then join_with '','' (cs_apparatus_versions x) else so_apparatus_version r)"
    "so_reading_id st = from_some av_reading_id [] (cl_verdict c)" by metis
  have xs: "x = ?s" using x(1) sc by simp
  note one = one_apparatus [OF cs]
  let ?v = "row_apparatus_version (hd rows)"
  have "so_apparatus_version st = ?v" using plain by (simp add: x(6) xs one(1) plain_version_def)
  with plain have "covers_apparatus st c" by (simp add: covers_apparatus_def sc one(1) plain_version_def Let_def)
  moreover have "covers_arm st c" using one(2) by (simp add: covers_arm_def sc so_arm_def x(2) xs)
  moreover have "covers_posture st c" by (simp add: covers_posture_def sc x(5) xs)
  moreover have "covers_reading st c"
    by (simp add: covers_reading_def sc x(3,4,7) xs v d(2) route_reads [OF d(1)] from_some_def)
  ultimately show ?thesis by (simp add: covers_def)
qed

lemma chained_covers:
  assumes "so_chained R H st h = Inr rec"
  shows "covers rec c = covers st c" and "so_matches rec c repo = so_matches st c repo" and "so_tier rec = so_tier st"
    and "so_revoked rec = so_revoked st" and "so_key rec = so_key st"
proof -
  have same: "so_apparatus_version rec = so_apparatus_version st" "so_checks_arm rec = so_checks_arm st"
    "so_posture_class rec = so_posture_class st" "so_context_arm rec = so_context_arm st" "so_taxonomy rec = so_taxonomy st"
    "so_reading_id rec = so_reading_id st" "so_repo rec = so_repo st" "so_scope rec = so_scope st" "so_tier rec = so_tier st"
    "so_revoked rec = so_revoked st" by (subst signed_same(1) [OF assms], simp)+
  show "covers rec c = covers st c"
    unfolding covers_def covers_apparatus_def covers_arm_def covers_posture_def covers_reading_def so_arm_def same ..
  show "so_matches rec c repo = so_matches st c repo" "so_key rec = so_key st"
    unfolding so_matches_def so_key_def same by (rule refl)+
  show "so_tier rec = so_tier st" "so_revoked rec = so_revoked st" by (rule same)+
qed

lemma measured_valid:
  assumes "measure_cell rows proj pol controls by_task book = Inr c"
  shows "CapabilityCell c = Inr c"
proof -
  have self: "CapabilityCell y = Inr y" if h: "CapabilityCell x = Inr y" for x y
  proof -
    have e: "y = x" using h [unfolded CapabilityCell_Inr] by (rule conjunct1)
    show ?thesis using h unfolding e .
  qed
  have ne: "rows \<noteq> []" using assms by (cases rows) (simp_all add: measure_cell_def)
  from assms show ?thesis
    unfolding measure_cell_def Let_def bind_result_Inr if_not_P [OF ne] by (elim exE conjE) (rule self)
qed

lemma measured_tier:
  assumes "measure_cell rows proj pol controls by_task book = Inr c" and "cl_false_q1 c = 0"
  shows "cl_tier c = Some TIER_AUTOMATED_PASS"
  using assms(1) by (rule measure_cell_parts) (use assms(2) in \<open>simp add: cl_false_q1_def\<close>)

lemma written_lifts:
  assumes "measure_cell rows proj pol controls by_task book = Inr c"
    and "so_append R H file r (Some c) a = Inr (file', rec)" and "\<not> so_revoked r"
    and "plain_version (row_apparatus_version (hd rows))"
  shows "\<exists>t. apply_signoffs [c] file' (sa_repo a) = Inr [c\<lparr>cl_tier := Some t\<rparr>] \<and> t \<in> set EARNED_TIERS \<and>
    TIER_RANK (so_tier r) \<le> TIER_RANK t \<and> rec \<in> set (active_signoffs file')"
proof -
  from so_append_parts [OF assms(2,3)] obtain st h where ok: "signoff_clauses r c (a\<lparr>sa_decision := None\<rparr>) = []"
    and st: "stamp_evidence R r c (sa_controls a) None (sa_oracle_strength a) (sa_policy a) = Inr st"
    and ch: "so_chained R H st h = Inr rec" and f: "file' = file @ [rec]" by (metis option.inject)
  note none = clauses_none [OF ok assms(3)]
  from st [THEN stamp_snapshot] obtain s where s: "cl_stats c = Some s" "so_repo st = so_repo r" "so_scope st = so_scope r"
    "so_tier st = so_tier r" "so_revoked st = so_revoked r" "so_tier st \<in> set EARNED_TIERS" by metis
  note ch' = chained_covers [OF ch]
  have act: "rec \<in> set (active_signoffs file')" using assms(3) by (simp add: active_iff f ch'(4) s(5))
  let ?l = "lifting (active_signoffs file') c (sa_repo a)"
  have "so_matches st c (sa_repo a)" using none(1) s(2,3) by (simp add: so_matches_def)
  then have "rec \<in> set ?l" using act snapshot_covers [OF assms(1) st assms(4)] by (simp add: lifting_def ch'(1,2))
  then have "so_tier rec \<in> so_tier ` set ?l" by (rule imageI)
  then have rin: "so_tier r \<in> set (map so_tier ?l)" by (simp only: set_map ch'(3) s(4))
  then obtain t ts where tts: "map so_tier ?l = t # ts" by (cases "map so_tier ?l") auto
  let ?b = "highest_tier t ts"
  have hi: "TIER_RANK (so_tier r) \<le> TIER_RANK ?b" using highest_tier_max rin unfolding tts by blast
  then have be: "?b \<in> set EARNED_TIERS" using s(4,6) rank_earned [of "so_tier r"] rank_earned [of ?b] by auto
  note tier = measured_tier [OF assms(1) none(2)] and valid = measured_valid [OF assms(1)]
  have "with_tier c ?b = Inr (c\<lparr>cl_tier := Some ?b\<rparr>)"
    using valid be earned_valid none(2) s(1) by (auto simp: with_tier_def cl_false_q1_def)
  then have "lift_cell (active_signoffs file') (sa_repo a) c = Inr (c\<lparr>cl_tier := Some ?b\<rparr>)"
    using be rank_earned [of ?b] s(1) none(2) by (simp add: lift_cell_def tts tier from_some_def rank_automated Let_def)
  then have "apply_signoffs [c] file' (sa_repo a) = Inr [c\<lparr>cl_tier := Some ?b\<rparr>]" by (simp add: apply_signoffs_def)
  with be hi act show ?thesis by blast
qed

text \<open>
  C23. A written sign-off is effective: the overlay of the ledger it was written to lifts the measured cell it
  was written on to its tier, or to a higher one another record in force attests.
\<close>

theorem signoff_lifts_its_cell:
  assumes "measure_cell rows proj pol controls by_task book = Inr c"
    and "so_append R H file r (Some c) a = Inr (file', rec)" and "\<not> so_revoked r"
    and "plain_version (row_apparatus_version (hd rows))"
  shows "\<exists>t. apply_signoffs [c] file' (sa_repo a) = Inr [c\<lparr>cl_tier := Some t\<rparr>] \<and> t \<in> set EARNED_TIERS \<and>
    TIER_RANK (so_tier r) \<le> TIER_RANK t \<and> rec \<in> set (active_signoffs file')"
  using assms by (rule written_lifts)

subsection \<open>Revocation\<close>


subsection \<open>The chain of sign-offs\<close>

lemma body_drops_hash: "so_body (r\<lparr>so_row_hash := h\<rparr>) = so_body r" "so_prev_hash (so_body r) = so_prev_hash r"
  by (simp_all add: so_body_def schema_body_def v1_body_def v2_body_def v3_body_def v4_body_def)

definition so_link :: "(signoff_record \<Rightarrow> string) \<Rightarrow> signoff_record \<Rightarrow> string \<Rightarrow> signoff_record" where
  "so_link H r p = r\<lparr>so_prev_hash := p, so_row_hash := so_compute_hash H (r\<lparr>so_prev_hash := p\<rparr>)\<rparr>"

text \<open>A record is what its schema hashes when the fields of later schemas have their defaults.\<close>

definition within_schema :: "signoff_record \<Rightarrow> bool" where
  "within_schema r \<longleftrightarrow> (so_body r)\<lparr>so_row_hash := so_row_hash r\<rparr> = r"

interpretation sl: chain_writer so_prev_hash so_row_hash "so_compute_hash H" so_body within_schema "so_link H" for H
proof
  show "\<And>r r'. so_body r = so_body r' \<Longrightarrow> so_compute_hash H r = so_compute_hash H r'" by (simp add: so_compute_hash_def)
  show "\<And>r r'. so_body r = so_body r' \<Longrightarrow> so_prev_hash r = so_prev_hash r'" by (metis body_drops_hash(2))
  show "\<And>r r'. within_schema r \<Longrightarrow> within_schema r' \<Longrightarrow> so_body r = so_body r' \<Longrightarrow> so_row_hash r = so_row_hash r' \<Longrightarrow> r = r'"
    unfolding within_schema_def by metis
  show "\<And>r p. so_prev_hash (so_link H r p) = p" by (simp add: so_link_def)
  show "\<And>r p. so_row_hash (so_link H r p) = so_compute_hash H (so_link H r p)"
    by (simp add: so_link_def so_compute_hash_def body_drops_hash)
qed

lemma so_verify_from_iff: "so_verify_from H prev n rs = Inr m \<longleftrightarrow>
    chain_ok so_prev_hash so_row_hash (so_compute_hash H) prev rs \<and> m = n + length rs"
  by (induction rs arbitrary: prev n) (auto simp: so_verify_hash_def)

lemma chained_link:
  assumes "so_chained R H r h = Inr rec"
  shows "rec = so_link H (r\<lparr>so_note := R (so_note r)\<rparr>) h"
proof -
  have swap: "r\<lparr>so_prev_hash := h, so_note := n\<rparr> = r\<lparr>so_note := n, so_prev_hash := h\<rparr>" for n
    by (rule signoff_record.equality) simp_all
  from assms obtain y where y: "y = r\<lparr>so_prev_hash := h, so_note := R (so_note r)\<rparr>"
    and rec: "rec = y\<lparr>so_row_hash := so_compute_hash H y\<rparr>"
    by (auto simp: so_chained_Inr SignoffRecord_Inr)
  show ?thesis unfolding rec y swap so_link_def ..
qed

lemma so_append_chain:
  assumes "so_append R H file r cell a = Inr (file', rec)"
  obtains st h where "so_last_hash file = Inr h" and "so_chained R H st h = Inr rec" and "file' = file @ [rec]"
  using assms by (auto simp: so_append_def split: if_splits option.splits)

lemma so_head: "so_last_hash file = Inr h \<Longrightarrow> chain_head so_row_hash GENESIS_HASH file = h"
  by (auto simp: so_last_hash_def chain_head_def split: if_splits)

text \<open>
  The ledger of sign-offs stays a chain: what is appended to a ledger that verifies gives a ledger that
  verifies, with one record more; and two ledgers that verify with one head hold the same records, unless
  two different bodies have one digest or a digest is the genesis value. Records hold no field that
  their own schema does not hash.
\<close>

theorem signoff_chain_holds:
  assumes "verify_signoff_chain H file = Inr n" and "so_append R H file r cell a = Inr (file', rec)" and "\<And>b. H b \<noteq> []"
    and "verify_signoff_chain H other = Inr m" and "so_last_hash other = Inr (so_row_hash rec)"
    and "list_all within_schema file'" and "list_all within_schema other"
  shows "verify_signoff_chain H file' = Inr (Suc n) \<and>
    (other = file' \<or> (\<exists>x \<in> set file'. \<exists>y \<in> set other. so_body x \<noteq> so_body y \<and> H (so_body x) = H (so_body y)) \<or>
     (\<exists>x \<in> set file' \<union> set other. H (so_body x) = GENESIS_HASH))"
proof -
  from so_append_chain [OF assms(2)] obtain st h where h: "so_last_hash file = Inr h" "so_chained R H st h = Inr rec"
    and f: "file' = file @ [rec]" by blast
  have ok: "chain_ok so_prev_hash so_row_hash (so_compute_hash H) GENESIS_HASH file" "n = length file"
    "chain_ok so_prev_hash so_row_hash (so_compute_hash H) GENESIS_HASH other"
    using assms(1,4) by (simp_all add: verify_signoff_chain_def so_verify_from_iff)
  have ok': "chain_ok so_prev_hash so_row_hash (so_compute_hash H) GENESIS_HASH file'"
    using sl.write_ok [OF ok(1)] assms(3) by (simp add: f chained_link [OF h(2)] so_head [OF h(1)] so_compute_hash_def)
  have "chain_head so_row_hash GENESIS_HASH file' = chain_head so_row_hash GENESIS_HASH other"
    using so_head [OF assms(5)] by (simp add: f)
  from sl.same_head_same_log [OF ok' ok(3) assms(6,7) this] ok' ok(2) show ?thesis
    by (auto simp: verify_signoff_chain_def so_verify_from_iff f sl.collision_def so_compute_hash_def)
qed

subsection \<open>A sign-off of the delivered cell\<close>

definition demo_bar :: signoff_policy where
  "demo_bar = DEFAULT_SIGNOFF_POLICY\<lparr>gp_n_min := 1\<rparr>"

definition demo_signoff :: signoff_record where
  "demo_signoff = \<lparr>so_repo = ''r'', so_scope = \<lparr>ck_process_step = WILDCARD, ck_capability_class = ''fix'', ck_size = WILDCARD,
       ck_language = WILDCARD, ck_builder = WILDCARD, ck_model = WILDCARD, ck_provider = WILDCARD\<rparr>,
     so_verifier = ''ann'', so_tier = TIER_HUMAN_VERIFIED, so_note = [], so_revoked = False, so_verified_at = ''2026'',
     so_n = 0, so_point = 0, so_false_q1 = 0, so_apparatus_version = [], so_ci_low = 0, so_oracle_strength = None,
     so_policy_version = [], so_policy_thresholds = None, so_route = [], so_route_reason_code = [], so_controls_verdict = [],
     so_controls_run_id = [], so_controls_k = 0, so_controls_total = 0, so_controls_escapes = 0,
     so_attestation = Some \<lparr>at_reviewed_task_id = ''a'', at_reviewed_row_hash = ''h'', at_statement = ''read'', at_at = ''2026''\<rparr>,
     so_verifier_kind = VERIFIER_KIND_OIDC, so_checks_arm = [], so_posture_class = [], so_n_tasks = 0, so_task_clean = 0,
     so_task_ci = \<lparr>low = 0, high = 1\<rparr>, so_oracle_scored_tasks = 0, so_oracle_share = 0, so_controls_apparatus = [],
     so_context_arm = [], so_taxonomy = [], so_reading_id = [], so_schema = SIGNOFF_SCHEMA, so_record_id = ''s1'',
     so_prev_hash = [], so_row_hash = []\<rparr>"

definition demo_call :: signoff_call where
  "demo_call = \<lparr>sa_controls = Some sample_controls, sa_decision = None, sa_oracle_strength = Some (9 / 10),
     sa_policy = demo_bar, sa_repo = ''r'', sa_attested_actors = Some [''bob''], sa_cell_actors = Some [''bob'', ''worker'']\<rparr>"

definition demo_cell :: capability_cell where
  "demo_cell = projr (measure_cell [demo_row] PROJECTION_CLASS_SIZE PUBLISHED (Some sample_controls) demo_scores [demo_outcome])"

lemma demo_cell_measured:
  "measure_cell [demo_row] PROJECTION_CLASS_SIZE PUBLISHED (Some sample_controls) demo_scores [demo_outcome] = Inr demo_cell"
  "cl_route demo_cell = ROUTE_DELIVER" "cl_key demo_cell = demo_cell_key" "cl_false_q1 demo_cell = 0"
  using demo_measured [OF demo_key(3,1,2)] by (auto simp: demo_cell_def)

lemma demo_cell_reads:
  "\<exists>s. cl_stats demo_cell = Some s \<and> cs_n_tasks s = 1 \<and> cs_checks_arm s \<in> set ARMS"
  "\<exists>v. cl_verdict demo_cell = Some v \<and> av_state v = VERDICT_DELIVER"
proof -
  obtain s0 where s0: "cell_stats [demo_row] = Inr s0" "cs_n_tasks s0 = 1" "cs_context_arm s0 = ''S1@m''"
    using demo_stats by blast
  note arms = one_apparatus(3) [OF s0(1)]
  obtain v0 where v0: "verdict_for (Some demo_outcome) ''S1@m'' = Inr v0" "av_state v0 = VERDICT_DELIVER"
    using demo_reading demo_outcome_reads by auto
  show "\<exists>s. cl_stats demo_cell = Some s \<and> cs_n_tasks s = 1 \<and> cs_checks_arm s \<in> set ARMS"
    using demo_cell_measured(1) by (rule measure_cell_parts) (use s0 arms in simp)
  show "\<exists>v. cl_verdict demo_cell = Some v \<and> av_state v = VERDICT_DELIVER"
    using demo_cell_measured(1) by (rule measure_cell_parts) (use s0 v0 in \<open>simp add: demo_outcome_reads(2)\<close>)
qed

lemma demo_bar_valid: "SignoffPolicy demo_bar = Inr demo_bar"
  by (simp add: SignoffPolicy_Inr demo_bar_def DEFAULT_SIGNOFF_POLICY_def SIGNOFF_POLICY_VERSION_def)

lemma demo_parts: "key_matches (so_scope demo_signoff) demo_cell_key" "signoff_controls_clauses (Some sample_controls) demo_bar = []"
  "signoff_oracle_clause (Some (9 / 10)) demo_bar = []" "attestation_clause demo_signoff demo_bar = []"
  "same_actor_refusal demo_signoff (Some [''bob'']) (Some [''bob'', ''worker'']) = []" "so_repo demo_signoff = ''r''"
  "\<not> so_revoked demo_signoff" "so_false_q1 demo_signoff = 0" "so_prev_hash demo_signoff = []"
  "verifier_kind_for_issuer ''issuer'' = Inr (so_verifier_kind demo_signoff)" "so_tier demo_signoff \<in> set EARNED_TIERS"
  by code_simp+

lemma demo_signable: "signoff_clauses demo_signoff demo_cell (demo_call\<lparr>sa_decision := None\<rparr>) = []"
proof -
  obtain s v where s: "cl_stats demo_cell = Some s" "cs_n_tasks s = 1" and v: "cl_verdict demo_cell = Some v" "av_state v = VERDICT_DELIVER"
    using demo_cell_reads by blast
  obtain d where d: "cl_decision demo_cell = Some d" "dc_route d = ROUTE_DELIVER"
    using demo_cell_measured(2) by (auto simp: cl_route_def NOT_YET_MEASURED_def ROUTE_DELIVER_def split: option.splits)
  have "standard_clause demo_cell = []" using v by (simp add: standard_none)
  moreover have "route_clause (Some d) demo_bar = []" using d by (simp add: route_clause_def)
  moreover have "thin_clause demo_cell demo_bar = []" by (simp add: thin_clause_def s demo_bar_def)
  ultimately show ?thesis
    by (simp add: signoff_clauses_def so_matches_def demo_parts demo_cell_measured(3,4) policy_clauses_def demo_call_def
        decision_read_def d(1) verdict_of_controls_def resolve_oracle_strength_def independence_clause_def demo_bar_valid Let_def)
qed

lemma record_accepted:
  assumes "so_repo r \<noteq> []" and "ck_capability_class (so_scope r) \<noteq> []" and "ck_capability_class (so_scope r) \<noteq> WILDCARD"
    and "so_verifier r \<noteq> []" and "so_verifier_kind r \<in> set VERIFIER_KINDS" and "so_tier r \<in> set EARNED_TIERS"
    and "so_checks_arm r \<in> set ARMS" and "so_false_q1 r = 0"
  shows "\<exists>rec. SignoffRecord (\<lambda>s. s) r = Inr rec \<and> (\<exists>x. so_chained (\<lambda>s. s) (\<lambda>_. ''h'') rec GENESIS_HASH = Inr x)"
proof -
  have "SignoffRecord (\<lambda>s. s) r = Inr r" using assms by (simp add: SignoffRecord_Inr)
  moreover have "\<exists>y. SignoffRecord (\<lambda>s. s) (r\<lparr>so_prev_hash := GENESIS_HASH\<rparr>) = Inr y"
    using assms by (simp add: SignoffRecord_Inr)
  ultimately show ?thesis unfolding so_chained_Inr by blast
qed

lemma demo_written: "\<exists>rec. so_append (\<lambda>s. s) (\<lambda>_. ''h'') [] demo_signoff (Some demo_cell) demo_call = Inr ([rec], rec)"
proof -
  obtain s where s: "cl_stats demo_cell = Some s" "cs_checks_arm s \<in> set ARMS" using demo_cell_reads by blast
  have q: "cs_false_q1 s = 0" using demo_cell_measured(4) s(1) by (simp add: cl_false_q1_def)
  have f: "so_repo demo_signoff \<noteq> []" "ck_capability_class (so_scope demo_signoff) \<noteq> []"
    "ck_capability_class (so_scope demo_signoff) \<noteq> WILDCARD" "so_verifier demo_signoff \<noteq> []"
    "so_verifier_kind demo_signoff \<in> set VERIFIER_KINDS" by code_simp+
  have "\<exists>st. stamp_evidence (\<lambda>s. s) demo_signoff demo_cell (sa_controls demo_call) None (sa_oracle_strength demo_call)
      (sa_policy demo_call) = Inr st \<and> (\<exists>x. so_chained (\<lambda>s. s) (\<lambda>_. ''h'') st GENESIS_HASH = Inr x)"
    unfolding stamp_evidence_def s(1) option.case Let_def
    by (rule record_accepted) (simp_all add: f demo_parts(11) s(2) q)
  then obtain st rec where st: "stamp_evidence (\<lambda>s. s) demo_signoff demo_cell (sa_controls demo_call) None
      (sa_oracle_strength demo_call) (sa_policy demo_call) = Inr st" and rec: "so_chained (\<lambda>s. s) (\<lambda>_. ''h'') st GENESIS_HASH = Inr rec"
    by blast
  have sig: "check_signable demo_signoff demo_cell (demo_call\<lparr>sa_decision := None\<rparr>) = Inr ()"
    by (simp add: check_signable_Inr demo_signable)
  show ?thesis
    by (simp add: so_append_def demo_parts(7) sig st so_last_hash_def rec)
qed


lemma demo_plain: "plain_version (row_apparatus_version (hd [demo_row]))"
  by code_simp

theorem signoff_lifts_its_cell_witness:
  "\<exists>rec t. so_append (\<lambda>s. s) (\<lambda>_. ''h'') [] demo_signoff (Some demo_cell) demo_call = Inr ([rec], rec) \<and>
     apply_signoffs [demo_cell] [rec] ''r'' = Inr [demo_cell\<lparr>cl_tier := Some t\<rparr>] \<and> t \<in> set EARNED_TIERS"
proof -
  obtain rec where w: "so_append (\<lambda>s. s) (\<lambda>_. ''h'') [] demo_signoff (Some demo_cell) demo_call = Inr ([rec], rec)"
    using demo_written ..
  have "sa_repo demo_call = ''r''" by (simp add: demo_call_def)
  with signoff_lifts_its_cell [OF demo_cell_measured(1) w demo_parts(7) demo_plain] w show ?thesis by auto
qed

theorem lifted_cell_is_covered_witness:
  "\<exists>rec c'. apply_signoffs [demo_cell] [rec] ''r'' = Inr [c'] \<and> c' \<noteq> demo_cell \<and> covers_apparatus rec demo_cell \<and>
     covers_reading rec demo_cell \<and> c' = demo_cell\<lparr>cl_tier := Some (so_tier rec)\<rparr>"
proof -
  obtain rec where w: "so_append (\<lambda>s. s) (\<lambda>_. ''h'') [] demo_signoff (Some demo_cell) demo_call = Inr ([rec], rec)"
    using demo_written ..
  have r: "sa_repo demo_call = ''r''" by (simp add: demo_call_def)
  from written_lifts [OF demo_cell_measured(1) w demo_parts(7) demo_plain] obtain t where
    t: "apply_signoffs [demo_cell] [rec] ''r'' = Inr [demo_cell\<lparr>cl_tier := Some t\<rparr>]" "t \<in> set EARNED_TIERS"
    unfolding r by blast
  have "cl_tier demo_cell = Some TIER_AUTOMATED_PASS" by (rule measured_tier [OF demo_cell_measured(1,4)])
  then have ne: "demo_cell\<lparr>cl_tier := Some t\<rparr> \<noteq> demo_cell"
    using t(2) rank_earned [of t] rank_automated by (metis capability_cell.select_convs(5) capability_cell.surjective capability_cell.update_convs(5) less_irrefl option.inject)
  from lifted_cell_is_covered [OF t(1) _ ne] obtain x where "x \<in> set [rec]" "covers_apparatus x demo_cell" "covers_reading x demo_cell"
    "demo_cell\<lparr>cl_tier := Some t\<rparr> = demo_cell\<lparr>cl_tier := Some (so_tier x)\<rparr>" by fastforce
  then have x: "covers_apparatus rec demo_cell" "covers_reading rec demo_cell"
    "demo_cell\<lparr>cl_tier := Some t\<rparr> = demo_cell\<lparr>cl_tier := Some (so_tier rec)\<rparr>" by simp_all
  from t(1) ne x show ?thesis by blast
qed


theorem signoff_chain_holds_witness:
  "\<exists>rec. so_append (\<lambda>s. s) (\<lambda>_. ''h'') [] (demo_signoff\<lparr>so_revoked := True\<rparr>) None demo_call = Inr ([rec], rec) \<and>
     verify_signoff_chain (\<lambda>_. ''h'') [rec] = Inr 1"
proof -
  let ?r = "demo_signoff\<lparr>so_revoked := True\<rparr>"
  have ne: "SIGNOFF_SCHEMA \<notin> {SIGNOFF_SCHEMA_V1, SIGNOFF_SCHEMA_V2, SIGNOFF_SCHEMA_V3, SIGNOFF_SCHEMA_V4}" by code_simp
  have "\<exists>x. SignoffRecord (\<lambda>s. s) (?r\<lparr>so_prev_hash := GENESIS_HASH\<rparr>) = Inr x"
    by (simp add: SignoffRecord_Inr) (simp add: demo_signoff_def WILDCARD_def EARNED_TIERS_def VERIFIER_KINDS_def)
  then obtain rec where ch: "so_chained (\<lambda>s. s) (\<lambda>_. ''h'') ?r GENESIS_HASH = Inr rec" unfolding so_chained_Inr by blast
  then have w: "so_append (\<lambda>s. s) (\<lambda>_. ''h'') [] ?r None demo_call = Inr ([rec], rec)"
    by (simp add: so_append_def so_last_hash_def)
  have "so_schema rec = SIGNOFF_SCHEMA" by (subst signed_same(1) [OF ch]) (simp add: demo_signoff_def)
  then have ws: "list_all within_schema [rec]" using ne by (simp add: within_schema_def so_body_def schema_body_def)
  have rp: "so_prev_hash rec = GENESIS_HASH" "so_row_hash rec = ''h''"
    using chained_link [OF ch] by (simp_all add: so_link_def so_compute_hash_def)
  then have v: "verify_signoff_chain (\<lambda>_. ''h'') [rec] = Inr 1" "so_last_hash [rec] = Inr (so_row_hash rec)"
    by (simp_all add: verify_signoff_chain_def so_verify_hash_def so_compute_hash_def so_last_hash_def)
  have z: "verify_signoff_chain (\<lambda>_. ''h'') [] = Inr 0" by (simp add: verify_signoff_chain_def)
  from signoff_chain_holds [OF z w _ v ws ws] w show ?thesis by simp
qed

end
