(* ===== verification/Spec2Isabelle.thy ===== *)
theory Spec2Isabelle
  imports Checks Context_Arm Lint Api_Surface Grade_Correct Pipeline Ledger_Chain Cell_Stats_Correct Job_Queue_Correct Routing_Correct
    Readiness_Correct Entry_Gate_Correct Delivery_Correct Loop_Outcome
    Event_Chain_Correct Signoff_Correct
begin

text \<open>
  A verification development for \<open>commit-replay-bench\<close> (Python package \<open>src/src/crb\<close>): the part of
  the program that decides what a replayed commit is worth and what that licenses.

  \<^bold>\<open>The program's path.\<close> A builder's trial is graded by \<open>core/grade.py\<close> through six belts (two of them
  in \<open>core/lint.py\<close> and \<open>core/api_surface.py\<close>); the result becomes a row of the ledger
  (\<open>core/ledger.py\<close>), which is appended under a file lock and hash-chained; rows are folded into one
  statistic per cell; a reading registered before its first attempt (\<open>core/reading.py\<close>) walks the
  rows under a published look rule; the router (\<open>core/routing.py\<close>) turns a cell, its reading's verdict,
  the oracle and the controls into one route. The capability map (\<open>core/capability.py\<close>) is that route for every cell
  of a projection; a person's sign-off (\<open>core/signoff.py\<close>) is overlaid on it and lifts the tier of the cells it still
  covers. The job queue (\<open>store/jobs.py\<close>) hands the runs to the workers and guards what a worker may still write, and
  every step is a row of the audit trail (\<open>store/events.py\<close>), a third hash chain.

  \<^bold>\<open>The factory.\<close> What a proven cell licenses is used by \<open>factory/loop.py\<close>: a frozen backlog
  (\<open>factory/backlog.py\<close>) is worked in dependency order; each item is assessed (\<open>factory/readiness.py\<close>), passes the entry
  gate on its cell's standard (\<open>factory/standard.py\<close>), gets a test by another identity that is proved RED
  (\<open>factory/testfirst.py\<close>), is built on the ladder, reviewed before anything leaves (\<open>factory/review.py\<close>) and delivered
  (\<open>factory/delivery.py\<close>); every step is an event of the evidence chain (\<open>factory/evidence.py\<close>).

  \<^bold>\<open>Theories.\<close> Definitions stand in the order of the code; proofs that need room have a theory of their own.

  \<^item> \<open>Prelude\<close>: exceptions as the values of \<open>exn\<close>, results as sums, guards that raise in order,
    dictionaries as association lists, the string functions of Python the source uses.
  \<^item> \<open>Checks\<close> (\<open>core/checks.py\<close>), \<open>Context_Arm\<close> (\<open>core/context_arm.py\<close>): the switchboard of checks and
    the grammar of context arms, with their label and parse round trips.
  \<^item> \<open>Lint\<close>, \<open>Api_Surface\<close>: belts 5 and 6; a plan fails closed, a surface is compared with its gold.
  \<^item> \<open>Grade\<close>, \<open>Grade_Correct\<close> (\<open>core/grade.py\<close>): \<open>grade\<close> with every early return, handler and blame;
    the exact evidence of a clean result, what a charge against the builder rests on, and the exceptions
    it lets through.
  \<^item> \<open>Failure_Kinds\<close>, \<open>Ledger_Row\<close>, \<open>Ledger_Row_Correct\<close> (\<open>core/ledger.py\<close>, \<open>core/taxonomy.py\<close>): what a row must
    hold to exist, and how it reads; \<open>Pipeline\<close> composes a grade with its row.
  \<^item> \<open>Hash_Chain\<close>, \<open>Ledger_Chain\<close>: the locale of a hash-chained log and its interpretation on the ledger;
    appends as a step relation with and without the file lock; the tail read.
  \<^item> \<open>Stats\<close>, \<open>Cell_Stats\<close>, \<open>Cell_Stats_Correct\<close>: Wilson interval and t quantile over exact reals, the
    failure split, first attempts and the fold over all cells.
  \<^item> \<open>Job_Queue\<close>, \<open>Job_Queue_Correct\<close> (\<open>store/jobs.py\<close>): every call of the queue as one atomic step, its
    invariant, its simulation by the published state machine, leases and bounds.
  \<^item> \<open>Look_Rule\<close>, \<open>Look_Rule_Correct\<close>: the walk over outcomes and its exact chance of delivering.
  \<^item> \<open>Reading\<close>, \<open>Reading_Outcome\<close>, \<open>Registration\<close> and their \<open>_Correct\<close> theories: which rows an arm reads,
    the hierarchy and its standard, registration with its refusals and budgets (a registry of readings is an
    inductive predicate).
  \<^item> \<open>Routing\<close>, \<open>Routing_Correct\<close>: the clauses of the published policy and the route; the last theorem
    follows a delivered cell back to the rows that proved its standard.
  \<^item> \<open>Capability\<close>, \<open>Capability_Correct\<close> (\<open>core/capability.py\<close>): projected cells, the readings that speak for them, the map,
    the pick of a configuration and the coverage of a change profile; what a delivering cell of the map rests on, that
    the map counts every row once, and that the coverage is zero when its caller hands over no readings.
  \<^item> \<open>Signoff\<close>, \<open>Signoff_Correct\<close> (\<open>core/signoff.py\<close>): the policy with its refusals in order, the stamped snapshot, the ledger
    of attestations and revocations (an interpretation of the chain locale) and the overlay: what a written sign-off
    rests on, that it lifts its own cell, what a lift rests on and what a revocation withdraws.
  \<^item> \<open>Event_Chain\<close>, \<open>Event_Chain_Correct\<close> (\<open>core/event_chain.py\<close>, \<open>store/events.py\<close>, \<open>observability/events.py\<close>): the hashed
    body of a row, the walk, the writers as transactions on the table with its constraints, and the verifier that walks
    the tail between two full walks. The writers and a deployment over time (writes, edits underneath the store, waits
    and reads) are inductive predicates, on which the table is shown to stay intact and the page to agree with the
    full walk within one period.
  \<^item> \<open>Backlog\<close>, \<open>Backlog_Correct\<close>: items, freezing and evolving, supersession chains, the dependency order; when
    resolving ends and when the order is topological.
  \<^item> \<open>Readiness\<close>, \<open>Entry_Gate\<close>, \<open>Factory_Evidence\<close>, \<open>Test_First\<close>, \<open>Review\<close>, \<open>Delivery\<close> and their \<open>_Correct\<close> theories
    (\<open>Evidence_Correct\<close>; the RED proof is in \<open>Review_Correct\<close>): one component of the factory each. The evidence
    chain is a second interpretation of the chain locale; the chains its operations can write are an inductive
    predicate, on which grants, edits and outcomes are shown to come in the order the factory claims.
  \<^item> \<open>Acceptance\<close> (\<open>core/acceptance.py\<close>): a second person's held-out tests, their record and labels.
  \<^item> \<open>Factory_Loop\<close>: \<open>run_item\<close> and \<open>run_backlog\<close> as state transformers that answer a value, stop with a status or raise.
    \<open>Loop_Laws\<close>: the laws of the world as locales (the chain, closing, building, a round, pushing, a whole item), under
    which every step keeps an invariant; \<open>Loop_Correct\<close>, \<open>Loop_Spend\<close>, \<open>Loop_Outcome\<close> interpret them and show what a
    run may push, what it may spend and how it ends. The concrete run that serves as their witness is evaluated
    whole, from the readiness of an item to its pull request.

  \<^bold>\<open>Parameters and bounds.\<close> SHA-256 over canonical JSON, redaction, \<open>datetime.fromisoformat\<close>, \<open>float\<close> on a string,
  the keys of the pricing table, the workspace, the test runners, git and the tools a lint plan starts are arguments of
  the definitions that use them. In the loop, whatever a collaborator answers (the builder, the reviewer, the probes, the test
  author, the map, the remote) and what other processes write to the chain is a function of the number of the step that
  asks, so a theorem holds for every sequence of answers. Numbers the source keeps as floats are exact rationals or
  reals. Python's integers are unbounded, and so are \<open>nat\<close> and \<open>int\<close> here. No definition needs fuel: every loop is over
  a list the source loops over, over the runs still open, or over the rework rounds left; the walk along a
  supersession chain alone may not end, and is a partial function whose value is then \<open>None\<close>.

  \<^bold>\<open>Hypotheses.\<close> \<open>fair_world\<close> (in \<open>Loop_Outcome\<close>): other processes only append to the chain and through the governed
  steps, and redaction leaves event ids and pack hashes, which are hexadecimal, as they are. A hash is never the empty
  string where a chain is verified, and is 64 hexadecimal digits where the audit trail checks it (\<open>sha\<close>). A written
  sign-off lifts its cell when the cell's apparatus version holds no comma and no space around it (\<open>plain_version\<close>).

  \<^bold>\<open>Not modelled.\<close> Text shown to a person, \<open>to_dict\<close> renderings, step events, durations and telemetry; the HTTP server,
  its worker processes, authentication and storage engine; builders and model clients, the build of one attempt in its
  worktree; mining, provisioning and sandboxes; the extraction of API surfaces and of lint plans from files;
  mutation and control runs that produce the oracle and controls evidence; intake of tickets, learning and
  prevention texts, forecasts, the economics and provenance shown with a cell, and the walk of a repository's history for
  its change profile. What these answer to a modelled
  step is an argument of that step.
\<close>

end
